(* ===== verification/Prelude.thy ===== *)
theory Prelude
  imports Complex_Main "HOL-Library.Word" "HOL-Library.Signed_Division" "HOL-Library.Multiset"
begin

unbundle bit_operations_syntax

text \<open>
  What every component of the development shares: the result type of fallible code, the
  machine-integer conversions of C++ and lists of bits. No definition here models a function of the repository by itself; the components
  that do import this theory.
\<close>

named_theorems result_simps \<open>evaluating the result type\<close>
named_theorems range_simps \<open>C++ integer conversions that do not change a value in range\<close>
named_theorems bits_simps \<open>lists of bits\<close>

section \<open>Fallible code\<close>

text \<open>
  \<open>assert\<close> stops a build with assertions, \<open>CHECK\<close> and \<open>FATAL\<close> of
  util/include/Diagnostics.hpp log and raise, \<open>OutOfRange\<close> is an access outside a
  container and \<open>UndefinedBehaviour\<close> an operation C++ gives no meaning to (a shift by the
  width of its operand, a division by zero). \<open>Thrown\<close> is an exception of the standard library
  (\<open>std::out_of_range\<close>, \<open>std::runtime_error\<close>, \<open>std::length_error\<close>), which the code may catch.
\<close>

datatype error = AssertFailed | CheckFailed | FatalRaised | OutOfRange | UndefinedBehaviour | Thrown

type_synonym 'a result = "error + 'a"

type_synonym u8 = "8 word"
type_synonym u16 = "16 word"
type_synonym u32 = "32 word"

fun rbind :: "'a result \<Rightarrow> ('a \<Rightarrow> 'b result) \<Rightarrow> 'b result" where
  "rbind (Inl e) f = Inl e"
| "rbind (Inr x) f = f x"

definition assert_that :: "bool \<Rightarrow> unit result" where
  "assert_that b = (if b then Inr () else Inl AssertFailed)"

definition check_that :: "bool \<Rightarrow> unit result" where
  "check_that b = (if b then Inr () else Inl CheckFailed)"

lemma assert_that_simps [simp, result_simps]:
  "b \<Longrightarrow> assert_that b = Inr ()" "\<not> b \<Longrightarrow> assert_that b = Inl AssertFailed"
  by (simp_all add: assert_that_def)

lemma check_that_simps [simp, result_simps]:
  "b \<Longrightarrow> check_that b = Inr ()" "\<not> b \<Longrightarrow> check_that b = Inl CheckFailed"
  by (simp_all add: check_that_def)

lemma assert_that_eq_Inr [simp]: "assert_that b = Inr u \<longleftrightarrow> b"
  by (simp add: assert_that_def)

lemma check_that_eq_Inr [simp]: "check_that b = Inr u \<longleftrightarrow> b"
  by (simp add: check_that_def)

lemma rbind_eq_Inr: "rbind m f = Inr y \<longleftrightarrow> (\<exists>x. m = Inr x \<and> f x = Inr y)"
  by (cases m) auto

lemma rbind_eq_InrE [elim!]:
  assumes "rbind m f = Inr y"
  obtains x where "m = Inr x" and "f x = Inr y"
  using assms by (auto simp: rbind_eq_Inr)

lemma rbind_cong [fundef_cong]:
  assumes "m = m'" and "\<And>x. m' = Inr x \<Longrightarrow> f x = f' x"
  shows "rbind m f = rbind m' f'"
  using assms by (cases m') auto

lemma rbind_assoc: "rbind (rbind m f) g = rbind m (\<lambda>x. rbind (f x) g)"
  by (cases m) auto

lemma rbind_Inr_right [simp]: "rbind m Inr = m"
  by (cases m) auto

text \<open>A loop over a list of indices whose body may fail: it stops at the first failure.\<close>

fun fold_result :: "('i \<Rightarrow> 's \<Rightarrow> 's result) \<Rightarrow> 'i list \<Rightarrow> 's \<Rightarrow> 's result" where
  "fold_result f [] s = Inr s"
| "fold_result f (i # is) s = rbind (f i s) (fold_result f is)"

lemma fold_result_append:
  "fold_result f (xs @ ys) s = rbind (fold_result f xs s) (fold_result f ys)"
proof (induction xs arbitrary: s)
  case Nil
  then show ?case by simp
next
  case (Cons x xs)
  then have "fold_result f (xs @ ys) = (\<lambda>t. rbind (fold_result f xs t) (fold_result f ys))"
    by (rule ext)
  then show ?case by (simp add: rbind_assoc)
qed

lemma fold_result_total:
  assumes "\<And>i s. i \<in> set xs \<Longrightarrow> f i s = Inr (g i s)"
  shows "fold_result f xs s = Inr (fold g xs s)"
  using assms by (induction xs arbitrary: s) auto

text \<open>Element-wise generation that may fail at one element.\<close>

fun map_result :: "('a \<Rightarrow> 'b result) \<Rightarrow> 'a list \<Rightarrow> 'b list result" where
  "map_result f [] = Inr []"
| "map_result f (x # xs) = rbind (f x) (\<lambda>y. rbind (map_result f xs) (\<lambda>ys. Inr (y # ys)))"

lemma map_result_total:
  assumes "\<And>x. x \<in> set xs \<Longrightarrow> f x = Inr (g x)"
  shows "map_result f xs = Inr (map g xs)"
  using assms by (induction xs) auto

lemma map_result_Inr_length: "map_result f xs = Inr ys \<Longrightarrow> length ys = length xs"
  by (induction xs arbitrary: ys) auto

lemma map_result_Inr_nth:
  "map_result f xs = Inr ys \<Longrightarrow> i < length xs \<Longrightarrow> f (xs ! i) = Inr (ys ! i)"
proof (induction xs arbitrary: ys i)
  case Nil
  then show ?case by simp
next
  case (Cons x xs)
  then show ?case by (cases i) auto
qed

lemma map_result_cong [fundef_cong]:
  assumes "xs = ys" and "\<And>x. x \<in> set ys \<Longrightarrow> f x = g x"
  shows "map_result f xs = map_result g ys"
  using assms(2) unfolding assms(1) by (induction ys) auto

lemma nth_list_update_if:
  "xs[i := x] ! j = (if i = j \<and> i < length xs then x else xs ! j)"
  by (cases "i < length xs") (auto simp: nth_list_update list_update_beyond)

text \<open>
  Code that may also run forever: \<^const>\<open>None\<close> is the value of a call that does not return.
\<close>

type_synonym 'a run = "'a result option"

fun run_bind :: "'a run \<Rightarrow> ('a \<Rightarrow> 'b run) \<Rightarrow> 'b run" where
  "run_bind None f = None"
| "run_bind (Some (Inl e)) f = Some (Inl e)"
| "run_bind (Some (Inr x)) f = f x"

lemma run_bind_cong [fundef_cong]:
  assumes "m = m'" and "\<And>x. m' = Some (Inr x) \<Longrightarrow> f x = f' x"
  shows "run_bind m f = run_bind m' f'"
  using assms by (cases "(m', f')" rule: run_bind.cases) auto

lemma run_bind_eq_Inr: "run_bind m f = Some (Inr y) \<longleftrightarrow> (\<exists>x. m = Some (Inr x) \<and> f x = Some (Inr y))"
  by (cases "(m, f)" rule: run_bind.cases) auto

fun fold_run :: "('i \<Rightarrow> 's \<Rightarrow> 's run) \<Rightarrow> 'i list \<Rightarrow> 's \<Rightarrow> 's run" where
  "fold_run f [] s = Some (Inr s)"
| "fold_run f (i # is) s = run_bind (f i s) (fold_run f is)"

lemma run_bind_assoc: "run_bind (run_bind m f) g = run_bind m (\<lambda>x. run_bind (f x) g)"
  by (cases "(m, f)" rule: run_bind.cases) auto

lemma fold_run_append:
  "fold_run f (xs @ ys) s = run_bind (fold_run f xs s) (fold_run f ys)"
proof (induction xs arbitrary: s)
  case Nil
  then show ?case by simp
next
  case (Cons x xs)
  then have "fold_run f (xs @ ys) = (\<lambda>t. run_bind (fold_run f xs t) (fold_run f ys))"
    by (rule ext)
  then show ?case by (simp add: run_bind_assoc)
qed

section \<open>Conversions of C++ integers\<close>

text \<open>
  Where the code's arithmetic can leave the range of its type the model computes on
  \<^typ>\<open>int\<close> and writes out the conversion: to a signed type the value modulo the type's size,
  re-centred; to an unsigned type the value modulo the size.
\<close>

definition to_int8 :: "int \<Rightarrow> int" where
  "to_int8 x = (x + 128) mod 256 - 128"

definition to_int16 :: "int \<Rightarrow> int" where
  "to_int16 x = (x + 32768) mod 65536 - 32768"

definition to_int32 :: "int \<Rightarrow> int" where
  "to_int32 x = (x + 2147483648) mod 4294967296 - 2147483648"

definition to_uint16 :: "int \<Rightarrow> int" where
  "to_uint16 x = x mod 65536"

definition is_int16 :: "int \<Rightarrow> bool" where
  "is_int16 x \<longleftrightarrow> - 32768 \<le> x \<and> x \<le> 32767"

lemma is_int16_to_int16 [simp]: "is_int16 (to_int16 x)"
proof -
  have "0 \<le> (x + 32768) mod 65536" "(x + 32768) mod 65536 < 65536"
    by simp_all
  then show ?thesis
    unfolding is_int16_def to_int16_def by linarith
qed

lemma to_int16_id [range_simps]: "is_int16 x \<Longrightarrow> to_int16 x = x"
  by (simp add: is_int16_def to_int16_def)

lemma to_int16_idem [simp]: "to_int16 (to_int16 x) = to_int16 x"
  by (simp add: to_int16_id)

lemma to_int16_cong: "x mod 65536 = y mod 65536 \<Longrightarrow> to_int16 x = to_int16 y"
  unfolding to_int16_def by (metis mod_add_left_eq)

lemma to_int16_mod: "to_int16 x mod 65536 = x mod 65536"
  unfolding to_int16_def by (simp add: mod_diff_left_eq)

lemma to_int16_add_left [simp]: "to_int16 (to_int16 x + y) = to_int16 (x + y)"
  by (rule to_int16_cong) (metis to_int16_mod mod_add_left_eq)

lemma to_int32_id [range_simps]:
  "- 2147483648 \<le> x \<Longrightarrow> x \<le> 2147483647 \<Longrightarrow> to_int32 x = x"
  by (simp add: to_int32_def)

section \<open>Lists of bits\<close>

text \<open>
  The bits of a value with the most significant first, the order of a bitstream, and the
  value of such a list.
\<close>

definition bits_of :: "nat \<Rightarrow> 'a::semiring_bits \<Rightarrow> bool list" where
  "bits_of n v = map (bit v) (rev [0..<n])"

definition val_of :: "bool list \<Rightarrow> nat" where
  "val_of bs = foldl (\<lambda>a b. 2 * a + of_bool b) 0 bs"

lemma length_bits_of [simp]: "length (bits_of n v) = n"
  by (simp add: bits_of_def)

lemma bits_of_0 [simp]: "bits_of 0 v = []"
  by (simp add: bits_of_def)

lemma nth_bits_of: "i < n \<Longrightarrow> bits_of n v ! i = bit v (n - 1 - i)"
  by (simp add: bits_of_def rev_nth)

lemma bits_of_Suc: "bits_of (Suc n) v = bit v n # bits_of n v"
  by (simp add: bits_of_def)

lemma val_of_Nil [simp]: "val_of [] = 0"
  by (simp add: val_of_def)

lemma val_of_snoc: "val_of (bs @ [b]) = 2 * val_of bs + of_bool b"
  by (simp add: val_of_def)

lemma foldl_val_of:
  "foldl (\<lambda>a b. 2 * a + of_bool b) x bs = x * 2 ^ length bs + val_of bs"
proof (induction bs rule: rev_induct)
  case Nil
  then show ?case by simp
next
  case (snoc b bs)
  then show ?case by (simp add: val_of_snoc algebra_simps)
qed

lemma val_of_append: "val_of (xs @ ys) = val_of xs * 2 ^ length ys + val_of ys"
  using foldl_val_of [of "val_of xs" ys] by (simp add: val_of_def)

lemma val_of_Cons: "val_of (b # bs) = of_bool b * 2 ^ length bs + val_of bs"
  using val_of_append [of "[b]" bs] by (simp add: val_of_def)

lemma val_of_less: "val_of bs < 2 ^ length bs"
  by (induction bs rule: rev_induct) (auto simp: val_of_snoc)

lemma val_of_bits_of_nat: "val_of (bits_of n v) = v mod 2 ^ n" for v :: nat
proof (induction n)
  case 0
  then show ?case by simp
next
  case (Suc n)
  have "v mod 2 ^ Suc n = of_bool (bit v n) * 2 ^ n + v mod 2 ^ n"
    by (metis mult.commute take_bit_Suc_from_most take_bit_eq_mod add.commute)
  with Suc show ?case by (simp add: bits_of_Suc val_of_Cons)
qed

lemma bits_of_add: "bits_of (m + n) v = bits_of m (drop_bit n v) @ bits_of n v"
  for v :: "'a::semiring_bit_operations"
proof (rule nth_equalityI)
  fix i assume "i < length (bits_of (m + n) v)"
  then have i: "i < m + n" by simp
  show "bits_of (m + n) v ! i = (bits_of m (drop_bit n v) @ bits_of n v) ! i"
  proof (cases "i < m")
    case True
    then have e: "m + n - 1 - i = n + (m - 1 - i)" by simp
    have "bits_of (m + n) v ! i = bit v (n + (m - 1 - i))"
      using i by (simp only: nth_bits_of e)
    also have "\<dots> = bits_of m (drop_bit n v) ! i"
      using True by (simp only: nth_bits_of bit_drop_bit_eq o_apply)
    finally show ?thesis
      using True by (simp only: nth_append length_bits_of if_True)
  next
    case False
    then have e: "m + n - 1 - i = n - 1 - (i - m)" by simp
    have "bits_of (m + n) v ! i = bit v (n - 1 - (i - m))"
      using i by (simp only: nth_bits_of e)
    also have "\<dots> = bits_of n v ! (i - m)"
      using False i by (intro nth_bits_of [symmetric]) simp
    finally show ?thesis
      using False by (simp only: nth_append length_bits_of if_False)
  qed
qed simp

lemma bits_of_unat [simp]: "bits_of n (unat v) = bits_of n v"
  by (rule nth_equalityI) (simp_all add: nth_bits_of bit_unsigned_iff bit_imp_le_length)

lemma val_of_bits_of_word: "val_of (bits_of n v) = unat v mod 2 ^ n" for v :: "'a::len word"
  using val_of_bits_of_nat [of n "unat v"] by simp

lemma bits_of_val_of: "bits_of (length bs) (val_of bs) = bs"
proof (induction bs rule: rev_induct)
  case Nil
  then show ?case by simp
next
  case (snoc b bs)
  have "bits_of (length bs + 1) (2 * val_of bs + of_bool b) =
        bits_of (length bs) (drop_bit 1 (2 * val_of bs + of_bool b))
        @ bits_of 1 (2 * val_of bs + of_bool b :: nat)"
    by (rule bits_of_add)
  moreover have "drop_bit 1 (2 * val_of bs + of_bool b) = val_of bs"
    by (simp add: drop_bit_eq_div)
  moreover have "bits_of 1 (2 * val_of bs + of_bool b :: nat) = [b]"
    by (simp add: bits_of_def bit_0)
  ultimately show ?case using snoc by (simp add: val_of_snoc)
qed

lemma bits_of_inj_nat:
  assumes "bits_of n v = bits_of n w" and "v < 2 ^ n" and "w < 2 ^ n"
  shows "v = (w::nat)"
  using assms by (metis val_of_bits_of_nat mod_less)

end
