(* ===== verification/Packet.thy ===== *)
theory Packet
  imports Prelude
begin

text \<open>
  Packets of bytes: util/src/Buffer.cpp (the \<open>BufferVector\<close> store) and util/src/Packet.cpp.
  A packet is a span of a shared, immutable-once-finished byte buffer plus metadata; a view maps
  the span for reading; a builder maps it for writing until \<open>finish\<close>. The checksum of a
  packet (a CRC computed on demand and cached) is not modelled here.
\<close>

section \<open>Buffers\<close>

text \<open>
  \<open>BufferVector\<close> owns a vector of bytes. Mapping a span asserts that it lies inside the vector
  and hands out a pointer to it; the model returns the bytes the pointer reaches.
\<close>

type_synonym buffer = "u8 list"

definition buffer_from :: "u8 list \<Rightarrow> nat \<Rightarrow> buffer result" where
  "buffer_from src n = (if n \<le> length src then Inr (take n src) else Inl OutOfRange)"

definition buffer_zeros :: "nat \<Rightarrow> buffer" where
  "buffer_zeros n = replicate n 0"

definition buffer_map :: "buffer \<Rightarrow> nat \<Rightarrow> nat \<Rightarrow> u8 list result" where
  "buffer_map b off n =
     rbind (assert_that (off \<le> length b)) (\<lambda>_.
     rbind (assert_that (off + n \<le> length b)) (\<lambda>_.
     Inr (take n (drop off b))))"

section \<open>Packets, views and builders\<close>

record packet =
  pkt_name :: string
  pkt_timestamp :: "64 word"
  pkt_buffer :: "buffer option"
  pkt_offset :: nat
  pkt_size :: nat

text \<open>\<open>mapped\<close> is \<open>mapped_data_ != nullptr\<close>; the mapped span is the packet's own.\<close>

record packet_builder =
  pb_packet :: packet
  pb_mapped :: bool

definition packet_default :: packet where
  "packet_default = \<lparr>pkt_name = [], pkt_timestamp = 0, pkt_buffer = None, pkt_offset = 0, pkt_size = 0\<rparr>"

definition packet_build :: packet_builder where
  "packet_build = \<lparr>pb_packet = packet_default, pb_mapped = False\<rparr>"

definition packet_empty :: "packet \<Rightarrow> bool" where
  "packet_empty p \<longleftrightarrow> pkt_buffer p = None"

text \<open>The bytes a \<open>PacketView\<close> of the packet gives access to: none when there is no buffer.\<close>

definition packet_view :: "packet \<Rightarrow> u8 list result" where
  "packet_view p =
     (case pkt_buffer p of
        Some b \<Rightarrow> buffer_map b (pkt_offset p) (pkt_size p)
      | None \<Rightarrow> Inr [])"

definition contents_view :: "packet_builder \<Rightarrow> packet \<Rightarrow> nat \<Rightarrow> nat \<Rightarrow> packet_builder result" where
  "contents_view pb view off n =
     rbind (assert_that (off \<le> pkt_size view)) (\<lambda>_.
     rbind (assert_that (off + n \<le> pkt_size view)) (\<lambda>_.
     Inr (pb\<lparr>pb_packet := view\<lparr>pkt_offset := pkt_offset view + off, pkt_size := n\<rparr>\<rparr>)))"

definition contents_bytes :: "packet_builder \<Rightarrow> u8 list \<Rightarrow> nat \<Rightarrow> packet_builder result" where
  "contents_bytes pb src n =
     rbind (buffer_from src n) (\<lambda>b.
     Inr (pb\<lparr>pb_packet := (pb_packet pb)\<lparr>pkt_buffer := Some b, pkt_offset := 0, pkt_size := n\<rparr>\<rparr>))"

definition contents_vector :: "packet_builder \<Rightarrow> u8 list \<Rightarrow> packet_builder result" where
  "contents_vector pb v = contents_bytes pb v (length v)"

definition packet_reserve :: "packet_builder \<Rightarrow> nat \<Rightarrow> packet_builder" where
  "packet_reserve pb n =
     pb\<lparr>pb_packet := (pb_packet pb)\<lparr>pkt_buffer := Some (buffer_zeros n), pkt_offset := 0, pkt_size := n\<rparr>,
        pb_mapped := True\<rparr>"

text \<open>A write \<open>b.data()[i] = v\<close> through a mapped builder.\<close>

definition packet_put :: "nat \<Rightarrow> u8 \<Rightarrow> packet_builder \<Rightarrow> packet_builder result" where
  "packet_put i v pb =
     rbind (assert_that (pb_mapped pb)) (\<lambda>_.
     case pkt_buffer (pb_packet pb) of
       None \<Rightarrow> Inl OutOfRange
     | Some b \<Rightarrow>
         if i < pkt_size (pb_packet pb)
         then Inr (pb\<lparr>pb_packet := (pb_packet pb)\<lparr>pkt_buffer := Some (b[pkt_offset (pb_packet pb) + i := v])\<rparr>\<rparr>)
         else Inl OutOfRange)"

definition packet_resize :: "packet_builder \<Rightarrow> nat \<Rightarrow> packet_builder result" where
  "packet_resize pb n =
     rbind (assert_that (pb_mapped pb)) (\<lambda>_.
     rbind (packet_view (pb_packet pb)) (\<lambda>bytes.
     rbind (buffer_from bytes n) (\<lambda>b.
     Inr (pb\<lparr>pb_packet := (pb_packet pb)\<lparr>pkt_buffer := Some b, pkt_offset := 0, pkt_size := n\<rparr>\<rparr>))))"

definition set_name :: "packet_builder \<Rightarrow> string \<Rightarrow> packet_builder" where
  "set_name pb s = pb\<lparr>pb_packet := (pb_packet pb)\<lparr>pkt_name := s\<rparr>\<rparr>"

definition set_timestamp :: "packet_builder \<Rightarrow> 64 word \<Rightarrow> packet_builder" where
  "set_timestamp pb t = pb\<lparr>pb_packet := (pb_packet pb)\<lparr>pkt_timestamp := t\<rparr>\<rparr>"

definition packet_finish :: "packet_builder \<Rightarrow> packet" where
  "packet_finish pb = pb_packet pb"

section \<open>Well-formed packets\<close>

text \<open>The span of a packet lies inside its buffer: what \<open>map_read\<close> asserts.\<close>

definition packet_wf :: "packet \<Rightarrow> bool" where
  "packet_wf p \<longleftrightarrow>
     (case pkt_buffer p of Some b \<Rightarrow> pkt_offset p + pkt_size p \<le> length b | None \<Rightarrow> pkt_size p = 0)"

lemma packet_wf_default [simp]: "packet_wf packet_default"
  by (simp add: packet_wf_def packet_default_def)

lemma packet_view_total: "packet_wf p \<Longrightarrow> \<exists>bs. packet_view p = Inr bs \<and> length bs = pkt_size p"
  by (auto simp: packet_wf_def packet_view_def buffer_map_def split: option.splits)

lemma packet_view_contents:
  assumes "n \<le> length src"
  shows "\<exists>pb'. contents_bytes pb src n = Inr pb' \<and> packet_wf (packet_finish pb')
               \<and> packet_view (packet_finish pb') = Inr (take n src) \<and> \<not> packet_empty (packet_finish pb')"
  using assms
  by (simp add: contents_bytes_def buffer_from_def packet_finish_def packet_view_def buffer_map_def
      packet_wf_def packet_empty_def)

lemma contents_view_wf:
  assumes "packet_wf p" and "contents_view pb p off n = Inr pb'"
  shows "packet_wf (packet_finish pb')"
  using assms
  by (auto simp: contents_view_def packet_finish_def packet_wf_def split: option.splits)

lemma packet_put_wf:
  "packet_wf (pb_packet pb) \<Longrightarrow> packet_put i v pb = Inr pb' \<Longrightarrow> packet_wf (pb_packet pb')"
  by (auto simp: packet_put_def packet_wf_def split: option.splits if_splits)

lemma packet_resize_wf:
  "packet_resize pb n = Inr pb' \<Longrightarrow> packet_wf (pb_packet pb')"
  by (auto simp: packet_resize_def packet_wf_def buffer_from_def split: if_splits)

lemma packet_put_view:
  assumes "pb_mapped pb" and "packet_view (pb_packet pb) = Inr bs" and "i < length bs"
  obtains pb' where "packet_put i v pb = Inr pb'" and "pb_mapped pb'"
    and "packet_view (pb_packet pb') = Inr (bs[i := v])"
  using assms
  by (auto simp: packet_put_def packet_view_def buffer_map_def drop_update_swap take_update_swap
      list_update_append split: option.splits if_splits)

end
