(* ===== verification/BitstreamPacker.thy ===== *)
theory BitstreamPacker
  imports Packet
begin

text \<open>
  util/src/BitstreamPacker.cpp: bit fields are written, most significant bit first, into a byte
  vector that grows by doubling. The model keeps the loop over the bytes a field touches. The
  debug labels of the C++ class only feed a trace and are left out; \<open>bit_offset_\<close> is a natural
  number, so a stream of \<open>2 ^ 32\<close> bits or more, where the C++ counter would wrap, is outside the
  model. Its contract is an abstract one: the packer is a list of bits to which \<open>u\<close> appends.
\<close>

record packer =
  pk_bit_offset :: nat
  pk_data :: "u8 list"

definition packer_new :: packer where
  "packer_new = \<lparr>pk_bit_offset = 0, pk_data = replicate 128 0\<rparr>"

definition shl32 :: "u32 \<Rightarrow> nat \<Rightarrow> u32" where
  "shl32 v c = (if c < 32 then push_bit c v else 0)"

definition shr32 :: "u32 \<Rightarrow> nat \<Rightarrow> u32" where
  "shr32 v c = (if c < 32 then drop_bit c v else 0)"

text \<open>
  \<open>(1 << width) - 1\<close> is computed on \<open>int\<close>: with width 31 the shift or the subtraction leaves
  the type, with width 32 the shift itself is undefined.
\<close>

definition mask32 :: "nat \<Rightarrow> u32 result" where
  "mask32 width = (if width < 31 then Inr (push_bit width 1 - 1) else Inl UndefinedBehaviour)"

definition vector_resize :: "u8 list \<Rightarrow> nat \<Rightarrow> u8 list" where
  "vector_resize d n = take n d @ replicate (n - length d) 0"

text \<open>One byte of the loop of \<open>u\<close>: insert the next \<open>n\<close> bits of the field.\<close>

definition packer_put :: "packer \<Rightarrow> nat \<Rightarrow> u32 \<Rightarrow> nat \<Rightarrow> packer" where
  "packer_put p num_bits value n =
     (let b = pk_bit_offset p mod 8;
          idx = pk_bit_offset p div 8;
          d = (if length (pk_data p) \<le> idx then vector_resize (pk_data p) (length (pk_data p) * 2)
               else pk_data p);
          v = shr32 value (num_bits - n)
      in \<lparr>pk_bit_offset = pk_bit_offset p + n,
          pk_data = d[idx := ucast (ucast (d ! idx) OR shl32 v (8 - (b + n)))]\<rparr>)"

function packer_loop :: "packer \<Rightarrow> nat \<Rightarrow> u32 \<Rightarrow> packer" where
  "packer_loop p num_bits value =
     (if num_bits = 0 then p
      else let n = min (8 - pk_bit_offset p mod 8) num_bits
           in packer_loop (packer_put p num_bits value n) (num_bits - n) value)"
  by pat_completeness auto
termination
  by (relation "measure (\<lambda>(p, n, v). n)") auto

declare packer_loop.simps [simp del]

definition packer_u :: "packer \<Rightarrow> nat \<Rightarrow> u32 \<Rightarrow> packer result" where
  "packer_u p num_bits value =
     rbind (assert_that (num_bits \<le> 32)) (\<lambda>_.
     rbind (mask32 num_bits) (\<lambda>m.
     Inr (packer_loop p num_bits (value AND m))))"

text \<open>The growth loop of \<open>bytes\<close> runs for ever on an empty vector.\<close>

partial_function (option) vector_grow :: "nat \<Rightarrow> u8 list \<Rightarrow> u8 list option" where
  "vector_grow need d =
     (if length d \<le> need then vector_grow need (vector_resize d (length d * 2)) else Some d)"

definition put_bytes :: "u8 list \<Rightarrow> nat \<Rightarrow> u8 list \<Rightarrow> u8 list" where
  "put_bytes d idx src = fold (\<lambda>i e. e[idx + i := src ! i]) [0..<length src] d"

definition packer_bytes :: "packer \<Rightarrow> u8 list \<Rightarrow> packer option result" where
  "packer_bytes p src =
     rbind (assert_that (pk_bit_offset p mod 8 = 0)) (\<lambda>_.
     Inr (map_option
            (\<lambda>d. \<lparr>pk_bit_offset = pk_bit_offset p + length src * 8,
                  pk_data = put_bytes d (pk_bit_offset p div 8) src\<rparr>)
            (vector_grow (pk_bit_offset p div 8 + length src) (pk_data p))))"

definition packer_byte_size :: "packer \<Rightarrow> nat" where
  "packer_byte_size p = (pk_bit_offset p + 7) div 8"

definition packer_emit :: "packer \<Rightarrow> packet_builder \<Rightarrow> (nat \<times> packet_builder) result" where
  "packer_emit p pb =
     (let n = (pk_bit_offset p + (8 - 1)) div 8
      in rbind (contents_bytes pb (pk_data p) n) (\<lambda>pb'. Inr (n, pb')))"

definition packer_finish :: "packer \<Rightarrow> packet result" where
  "packer_finish p = rbind (packer_emit p packet_build) (\<lambda>(n, pb). Inr (packet_finish pb))"

section \<open>The packer as a list of bits\<close>

text \<open>Bit \<open>j\<close> of a byte vector, counted from the most significant bit of byte 0.\<close>

definition bit_at :: "u8 list \<Rightarrow> nat \<Rightarrow> bool" where
  "bit_at d j = bit (d ! (j div 8)) (7 - j mod 8)"

definition packer_bits :: "packer \<Rightarrow> bool list" where
  "packer_bits p = map (bit_at (pk_data p)) [0..<pk_bit_offset p]"

text \<open>
  The invariant of the class: the vector is not empty, holds every bit written, and is still
  zero after the last one, which is what makes \<open>|=\<close> an assignment.
\<close>

definition packer_inv :: "packer \<Rightarrow> bool" where
  "packer_inv p \<longleftrightarrow> pk_data p \<noteq> [] \<and> pk_bit_offset p \<le> 8 * length (pk_data p) \<and>
     (\<forall>j. pk_bit_offset p \<le> j \<longrightarrow> j < 8 * length (pk_data p) \<longrightarrow> \<not> bit_at (pk_data p) j)"

lemma packer_inv_new [simp]: "packer_inv packer_new"
  by (simp add: packer_inv_def packer_new_def bit_at_def)

lemma packer_bits_new [simp]: "packer_bits packer_new = []"
  by (simp add: packer_bits_def packer_new_def)

lemma length_packer_bits [simp]: "length (packer_bits p) = pk_bit_offset p"
  by (simp add: packer_bits_def)

lemma length_vector_resize [simp]: "length (vector_resize d n) = n"
  by (simp add: vector_resize_def)

lemma bit_at_resize:
  assumes "j < 8 * n" and "length d \<le> n"
  shows "bit_at (vector_resize d n) j = (j < 8 * length d \<and> bit_at d j)"
proof -
  have "j div 8 < n" using assms(1) by simp
  moreover have "j < 8 * length d \<longleftrightarrow> j div 8 < length d" by auto
  ultimately show ?thesis
    using assms(2) by (auto simp: bit_at_def vector_resize_def nth_append)
qed

lemma bit_at_update:
  assumes "i < length d"
  shows "bit_at (d[i := x]) j = (if j div 8 = i then bit x (7 - j mod 8) else bit_at d j)"
  using assms by (simp add: bit_at_def)

text \<open>The byte after one insertion, bit by bit.\<close>

lemma bit_insert_byte:
  fixes c :: u8 and v :: u32
  assumes n: "0 < n" "b + n \<le> 8" "n \<le> num_bits" "num_bits \<le> 32"
    and i: "i < 8"
    and clean: "\<And>k. k < 8 - b \<Longrightarrow> \<not> bit c k"
    and high: "b = 0 \<or> (\<forall>k \<ge> num_bits. \<not> bit v k)"
  shows "bit (ucast (ucast c OR shl32 (shr32 v (num_bits - n)) (8 - (b + n))) :: u8) i \<longleftrightarrow>
           (if 8 - b \<le> i then bit c i
            else if 8 - (b + n) \<le> i then bit v (num_bits - n + (i - (8 - (b + n)))) else False)"
proof -
  let ?s = "8 - (b + n)"
  have s: "?s < 32" "num_bits - n < 32" using n by auto
  have "bit (ucast (ucast c OR shl32 (shr32 v (num_bits - n)) ?s) :: u8) i \<longleftrightarrow>
        bit c i \<or> (?s \<le> i \<and> bit v (num_bits - n + (i - ?s)))"
    using i s
    by (auto simp: shl32_def shr32_def bit_or_iff bit_unsigned_iff bit_push_bit_iff
        bit_drop_bit_eq bit_imp_le_length)
  moreover have "\<not> bit v (num_bits - n + (i - ?s))" if "8 - b \<le> i" "?s \<le> i"
  proof -
    have "b \<noteq> 0" using that i by auto
    moreover have "num_bits \<le> num_bits - n + (i - ?s)" using that n by auto
    ultimately show ?thesis using high by blast
  qed
  ultimately show ?thesis using clean by (cases "8 - b \<le> i") (auto simp: not_le)
qed

lemma packer_put_bit_at:
  assumes inv: "packer_inv p"
    and n: "n = min (8 - pk_bit_offset p mod 8) nb" "0 < nb" "nb \<le> 32"
    and high: "pk_bit_offset p mod 8 = 0 \<or> (\<forall>k \<ge> nb. \<not> bit v k)"
    and j: "j < 8 * length (pk_data (packer_put p nb v n))"
  shows "bit_at (pk_data (packer_put p nb v n)) j \<longleftrightarrow>
           (if j < pk_bit_offset p then bit_at (pk_data p) j
            else j < pk_bit_offset p + n \<and> bit v (nb - 1 - (j - pk_bit_offset p)))"
proof -
  let ?bo = "pk_bit_offset p" and ?len = "length (pk_data p)"
  define b idx where "b = ?bo mod 8" and "idx = ?bo div 8"
  define d where "d = (if ?len \<le> idx then vector_resize (pk_data p) (?len * 2) else pk_data p)"
  have bo: "?bo = 8 * idx + b" and b: "b < 8" by (auto simp: b_def idx_def)
  have inv': "pk_data p \<noteq> []" "?bo \<le> 8 * ?len"
    "\<And>j. ?bo \<le> j \<Longrightarrow> j < 8 * ?len \<Longrightarrow> \<not> bit_at (pk_data p) j"
    using inv by (auto simp: packer_inv_def)
  have "0 < ?len" using inv'(1) by simp
  then have "idx < ?len * 2" using inv'(2) bo by linarith
  then have idx: "idx < length d" by (simp add: d_def)
  have written: "k < ?bo" if "bit_at (pk_data p) k" "k < 8 * ?len" for k
    using that inv'(3) [of k] by (meson not_le)
  have d_at: "bit_at d k \<longleftrightarrow> k < ?bo \<and> bit_at (pk_data p) k" if "k < 8 * length d" for k
    using that inv'(2) by (auto simp: d_def bit_at_resize split: if_splits intro: written)
  have data: "pk_data (packer_put p nb v n) =
      d[idx := ucast (ucast (d ! idx) OR shl32 (shr32 v (nb - n)) (8 - (b + n)))]"
    by (simp add: packer_put_def Let_def d_def b_def idx_def)
  have clean: "\<not> bit (d ! idx) k" if "k < 8 - b" for k
  proof -
    have "\<not> bit_at d (8 * idx + (7 - k))"
      using that bo idx by (subst d_at) auto
    moreover have "7 - k < 8" "7 - (7 - k) = k"
      using that by auto
    moreover have "(8 * q + r) div 8 = q \<and> (8 * q + r) mod 8 = r" if "r < 8" for q r :: nat
      using that by simp
    ultimately show ?thesis by (metis bit_at_def)
  qed
  show ?thesis
  proof (cases "j div 8 = idx")
    case False
    with j idx show ?thesis
      unfolding data using n b bo by (auto simp: bit_at_update d_at)
  next
    case True
    define i where "i = 7 - j mod 8"
    have i: "i < 8" and jj: "j = 8 * idx + (7 - i)" using True by (auto simp: i_def)
    have "bit (ucast (ucast (d ! idx) OR shl32 (shr32 v (nb - n)) (8 - (b + n))) :: u8) i \<longleftrightarrow>
        (if 8 - b \<le> i then bit (d ! idx) i
         else if 8 - (b + n) \<le> i then bit v (nb - n + (i - (8 - (b + n)))) else False)"
      by (rule bit_insert_byte) (use n b i clean high in \<open>auto simp: b_def\<close>)
    then have "bit_at (pk_data (packer_put p nb v n)) j \<longleftrightarrow>
        (if 8 - b \<le> i then bit (d ! idx) i
         else if 8 - (b + n) \<le> i then bit v (nb - n + (i - (8 - (b + n)))) else False)"
      by (simp only: data bit_at_update [OF idx] True refl if_True i_def)
    moreover have "bit (d ! idx) i = bit_at d j"
      using True by (simp add: bit_at_def i_def)
    moreover have "j < 8 * length d" using True idx by auto
    moreover have "8 - b \<le> i \<longleftrightarrow> j < ?bo" using jj bo i b by auto
    moreover have bn: "b + n \<le> 8" "n \<le> nb" using n b by (simp_all add: b_def)
    moreover have "8 - (b + n) \<le> i \<longleftrightarrow> j < ?bo + n" using jj bo i bn by linarith
    moreover have "nb - n + (i - (8 - (b + n))) = nb - 1 - (j - ?bo)" if "j < ?bo + n" "?bo \<le> j"
      using that jj bo i bn n(2) by linarith
    ultimately show ?thesis by (auto simp: d_at)
  qed
qed

lemma packer_put_offset [simp]: "pk_bit_offset (packer_put p nb v n) = pk_bit_offset p + n"
  by (simp add: packer_put_def Let_def)

lemma packer_put_length:
  assumes "packer_inv p" and "n \<le> 8 - pk_bit_offset p mod 8"
  shows "pk_bit_offset p + n \<le> 8 * length (pk_data (packer_put p nb v n))"
    and "pk_data (packer_put p nb v n) \<noteq> []"
proof -
  have 1: "0 < length (pk_data p)" "pk_bit_offset p \<le> 8 * length (pk_data p)"
    using assms(1) by (auto simp: packer_inv_def)
  have 2: "pk_bit_offset p = 8 * (pk_bit_offset p div 8) + pk_bit_offset p mod 8"
    by simp
  have 3: "length (pk_data (packer_put p nb v n)) =
      (if length (pk_data p) \<le> pk_bit_offset p div 8 then length (pk_data p) * 2 else length (pk_data p))"
    by (simp add: packer_put_def Let_def)
  have 4: "pk_bit_offset p mod 8 + n \<le> 8"
    using assms(2) mod_less_divisor [of 8 "pk_bit_offset p"] by linarith
  show "pk_bit_offset p + n \<le> 8 * length (pk_data (packer_put p nb v n))"
  proof (cases "length (pk_data p) \<le> pk_bit_offset p div 8")
    case True
    then show ?thesis using 1 2 4 unfolding 3 if_P [OF True] by linarith
  next
    case False
    then show ?thesis using 2 4 unfolding 3 if_not_P [OF False] by linarith
  qed
  show "pk_data (packer_put p nb v n) \<noteq> []"
    using 1 3 by (auto simp flip: length_greater_0_conv)
qed

lemma packer_put_spec:
  assumes inv: "packer_inv p"
    and n: "n = min (8 - pk_bit_offset p mod 8) nb" "0 < nb" "nb \<le> 32"
    and high: "pk_bit_offset p mod 8 = 0 \<or> (\<forall>k \<ge> nb. \<not> bit v k)"
  shows "packer_inv (packer_put p nb v n)"
    and "packer_bits (packer_put p nb v n) = packer_bits p @ bits_of n (drop_bit (nb - n) v)"
proof -
  let ?p = "packer_put p nb v n"
  have len: "pk_bit_offset p + n \<le> 8 * length (pk_data ?p)" "pk_data ?p \<noteq> []"
    by (rule packer_put_length [OF inv]; simp add: n)+
  note at = packer_put_bit_at [OF inv n high]
  show "packer_inv ?p"
    using len by (simp add: packer_inv_def at)
  show "packer_bits ?p = packer_bits p @ bits_of n (drop_bit (nb - n) v)"
  proof (rule nth_equalityI)
    fix j assume "j < length (packer_bits ?p)"
    then have j: "j < pk_bit_offset p + n" by simp
    have "nb - n + (n - 1 - (j - pk_bit_offset p)) = nb - 1 - (j - pk_bit_offset p)"
      if "\<not> j < pk_bit_offset p" using that j n by auto
    then show "packer_bits ?p ! j = (packer_bits p @ bits_of n (drop_bit (nb - n) v)) ! j"
      using j len at [of j]
      by (auto simp: nth_append packer_bits_def nth_bits_of bit_drop_bit_eq)
  qed simp
qed

lemma packer_loop_0 [simp]: "packer_loop p 0 v = p"
  by (subst packer_loop.simps) simp

lemma packer_loop_spec:
  assumes "packer_inv p" and "nb \<le> 32"
    and "pk_bit_offset p mod 8 = 0 \<or> (\<forall>k \<ge> nb. \<not> bit v k)"
  shows "packer_inv (packer_loop p nb v) \<and>
         packer_bits (packer_loop p nb v) = packer_bits p @ bits_of nb v"
  using assms
proof (induction p nb v rule: packer_loop.induct)
  case (1 p nb v)
  show ?case
  proof (cases "nb = 0")
    case True
    with 1 show ?thesis by simp
  next
    case False
    define n where "n = min (8 - pk_bit_offset p mod 8) nb"
    note put = packer_put_spec [OF "1.prems"(1) n_def _ "1.prems"(2,3)]
    have n: "0 < n" "n \<le> nb" using False by (auto simp: n_def)
    have next_aligned: "nb - n = 0 \<or> (pk_bit_offset p + n) mod 8 = 0"
      unfolding n_def min_def by presburger
    have "packer_inv (packer_loop (packer_put p nb v n) (nb - n) v) \<and>
        packer_bits (packer_loop (packer_put p nb v n) (nb - n) v) =
        packer_bits (packer_put p nb v n) @ bits_of (nb - n) v"
    proof (cases "nb - n = 0")
      case True
      show ?thesis unfolding True using put(1) False by simp
    next
      case nonzero: False
      then have aligned: "pk_bit_offset (packer_put p nb v n) mod 8 = 0"
        using next_aligned by simp
      show ?thesis
      proof (rule "1.IH" [OF False n_def])
        show "packer_inv (packer_put p nb v n)" using put(1) False by simp
        show "nb - n \<le> 32" using "1.prems"(2) by simp
      qed (rule disjI1, rule aligned)
    qed
    moreover have "bits_of nb v = bits_of n (drop_bit (nb - n) v) @ bits_of (nb - n) v"
      using bits_of_add [of n "nb - n" v] n by simp
    ultimately show ?thesis
      using False put by (simp add: packer_loop.simps [of p nb v] Let_def flip: n_def)
  qed
qed

lemma bit_mask32: "width < 31 \<Longrightarrow> bit (2 ^ width - 1 :: u32) k \<longleftrightarrow> k < width"
  by (auto simp: bit_mask_iff simp flip: mask_eq_exp_minus_1)

text \<open>The contract of \<open>u\<close>: it appends the low bits of the value.\<close>

lemma packer_u_spec:
  assumes "packer_inv p" and "nb < 31"
  obtains p' where "packer_u p nb v = Inr p'" and "packer_inv p'"
    and "packer_bits p' = packer_bits p @ bits_of nb v"
proof -
  let ?m = "2 ^ nb - 1 :: u32"
  have "\<forall>k \<ge> nb. \<not> bit (v AND ?m) k" using assms(2) by (auto simp: bit_and_iff bit_mask32)
  then have "packer_inv (packer_loop p nb (v AND ?m)) \<and>
    packer_bits (packer_loop p nb (v AND ?m)) = packer_bits p @ bits_of nb (v AND ?m)"
    using assms by (intro packer_loop_spec) auto
  moreover have "bits_of nb (v AND ?m) = bits_of nb v"
    using assms(2) by (intro nth_equalityI) (auto simp: nth_bits_of bit_and_iff bit_mask32)
  ultimately show ?thesis
    using assms(2) that by (simp add: packer_u_def mask32_def)
qed

section \<open>Byte sequences and the finished packet\<close>

text \<open>The bits of a byte vector; those of a packet are what the unpacker reads.\<close>

definition stream_bits :: "u8 list \<Rightarrow> bool list" where
  "stream_bits d = map (bit_at d) [0..<8 * length d]"

lemma length_stream_bits [simp]: "length (stream_bits d) = 8 * length d"
  by (simp add: stream_bits_def)

lemma stream_bits_Nil [simp]: "stream_bits [] = []"
  by (simp add: stream_bits_def)

lemma stream_bits_Cons: "stream_bits (x # d) = bits_of 8 x @ stream_bits d"
proof (rule nth_equalityI)
  fix j assume "j < length (stream_bits (x # d))"
  then have j: "j < 8 + 8 * length d" by simp
  show "stream_bits (x # d) ! j = (bits_of 8 x @ stream_bits d) ! j"
  proof (cases "j < 8")
    case True
    with j show ?thesis by (simp add: stream_bits_def nth_append nth_bits_of bit_at_def)
  next
    case False
    then obtain k where k: "j = k + 8" by (metis add.commute le_iff_add not_less)
    with j show ?thesis by (simp add: stream_bits_def nth_append bit_at_def)
  qed
qed simp

lemma stream_bits_append: "stream_bits (d @ e) = stream_bits d @ stream_bits e"
  by (induction d) (simp_all add: stream_bits_Cons)

text \<open>
  The growth loop ends as soon as the vector is not empty: doubling reaches any size. The
  measure is the distance that is left.
\<close>

lemma vector_grow_returns:
  assumes "d \<noteq> []"
  shows "\<exists>n. vector_grow need d = Some (d @ replicate n 0) \<and> need < length d + n"
  using assms
proof (induction "Suc need - length d" arbitrary: d rule: less_induct)
  case less
  show ?case
  proof (cases "length d \<le> need")
    case False
    then show ?thesis by (subst vector_grow.simps) (auto intro: exI [of _ 0])
  next
    case True
    let ?d = "vector_resize d (length d * 2)"
    have len: "0 < length d" using less.prems by simp
    have d: "?d = d @ replicate (length d) 0" by (simp add: vector_resize_def)
    have "length d < length ?d" "?d \<noteq> []" using len less.prems by (simp_all add: d)
    then have "Suc need - length ?d < Suc need - length d" using True by linarith
    then obtain n where "vector_grow need ?d = Some (?d @ replicate n 0)" "need < length ?d + n"
      using less.hyps \<open>?d \<noteq> []\<close> by blast
    then have "vector_grow need d = Some (d @ replicate (length d + n) 0) \<and> need < length d + (length d + n)"
      using True by (subst vector_grow.simps) (simp add: d replicate_add)
    then show ?thesis by blast
  qed
qed

lemma length_put_bytes [simp]: "length (put_bytes d idx src) = length d"
proof -
  have "length (fold (\<lambda>i e. e[idx + i := src ! i]) is d) = length d" for "is"
    by (induction "is" arbitrary: d) auto
  then show ?thesis by (simp add: put_bytes_def)
qed

lemma put_bytes_eq:
  assumes "idx + length src \<le> length d"
  shows "put_bytes d idx src = take idx d @ src @ drop (idx + length src) d"
proof -
  have "fold (\<lambda>i e. e[idx + i := src ! i]) [0..<n] d = take idx d @ take n src @ drop (idx + n) d"
    if "n \<le> length src" for n
    using that
  proof (induction n)
    case 0
    then show ?case by simp
  next
    case (Suc n)
    then have "drop (idx + n) d = d ! (idx + n) # drop (idx + Suc n) d"
      using assms by (simp add: Cons_nth_drop_Suc)
    with Suc assms show ?case
      by (simp add: list_update_append take_Suc_conv_app_nth min_def)
  qed
  from this [of "length src"] show ?thesis by (simp add: put_bytes_def)
qed

lemma packer_bits_as_stream:
  "pk_bit_offset p \<le> 8 * length (pk_data p) \<Longrightarrow> packer_bits p = take (pk_bit_offset p) (stream_bits (pk_data p))"
  by (simp add: packer_bits_def stream_bits_def take_map)

lemma stream_bits_take: "stream_bits (take n d) = take (8 * n) (stream_bits d)"
  by (induction d arbitrary: n) (auto simp: stream_bits_Cons take_Cons' algebra_simps)

lemma stream_bits_drop: "stream_bits (drop n d) = drop (8 * n) (stream_bits d)"
  by (induction d arbitrary: n) (auto simp: stream_bits_Cons drop_Cons' algebra_simps)

lemma stream_bits_nth: "j < 8 * length d \<Longrightarrow> stream_bits d ! j = bit_at d j"
  by (simp add: stream_bits_def)

lemma bit_at_zeros: "j < 8 * n \<Longrightarrow> \<not> bit_at (replicate n 0) j"
  by (simp add: bit_at_def)

lemma stream_bits_zeros: "stream_bits (replicate n 0) = replicate (8 * n) False"
  by (rule nth_equalityI) (simp_all add: stream_bits_nth bit_at_zeros)

lemma packer_inv_iff:
  "packer_inv p \<longleftrightarrow> pk_data p \<noteq> [] \<and>
     (\<exists>n. stream_bits (pk_data p) = packer_bits p @ replicate n False)"
proof
  assume inv: "packer_inv p"
  have "stream_bits (pk_data p) =
      packer_bits p @ replicate (8 * length (pk_data p) - pk_bit_offset p) False"
    using inv by (intro nth_equalityI)
      (auto simp: packer_inv_def nth_append stream_bits_nth packer_bits_def)
  with inv show "pk_data p \<noteq> [] \<and> (\<exists>n. stream_bits (pk_data p) = packer_bits p @ replicate n False)"
    by (auto simp: packer_inv_def)
next
  assume "pk_data p \<noteq> [] \<and> (\<exists>n. stream_bits (pk_data p) = packer_bits p @ replicate n False)"
  then obtain n where ne: "pk_data p \<noteq> []"
    and eq: "stream_bits (pk_data p) = packer_bits p @ replicate n False" by blast
  from arg_cong [OF eq, of length] have len: "8 * length (pk_data p) = pk_bit_offset p + n" by simp
  have "\<not> bit_at (pk_data p) j" if "pk_bit_offset p \<le> j" "j < 8 * length (pk_data p)" for j
    using that len eq by (auto simp: nth_append simp flip: stream_bits_nth)
  with ne len show "packer_inv p" by (simp add: packer_inv_def)
qed

lemma packer_bytes_spec:
  assumes inv: "packer_inv p" and al: "pk_bit_offset p mod 8 = 0"
  obtains p' where "packer_bytes p src = Inr (Some p')" and "packer_inv p'"
    and "packer_bits p' = packer_bits p @ stream_bits src"
proof -
  define idx where "idx = pk_bit_offset p div 8"
  have bo: "pk_bit_offset p = 8 * idx" using al by (auto simp: idx_def)
  obtain n where grow: "vector_grow (idx + length src) (pk_data p) = Some (pk_data p @ replicate n 0)"
    and len: "idx + length src < length (pk_data p) + n"
    using vector_grow_returns inv by (metis packer_inv_def)
  define d where "d = pk_data p @ replicate n 0"
  have ix: "idx \<le> length (pk_data p)" using inv bo by (simp add: packer_inv_def)
  let ?p = "\<lparr>pk_bit_offset = pk_bit_offset p + length src * 8, pk_data = put_bytes d idx src\<rparr>"
  have data: "pk_data ?p = take idx (pk_data p) @ src @ drop (idx + length src) d"
    using len ix by (simp add: put_bytes_eq d_def)
  have head: "stream_bits (take idx (pk_data p)) = packer_bits p"
    using inv by (simp add: stream_bits_take packer_bits_as_stream packer_inv_def bo)
  have zero: "drop (8 * idx) (stream_bits (pk_data p)) = replicate k False" if
    "stream_bits (pk_data p) = packer_bits p @ replicate k False" for k
    using that bo by simp
  have "\<exists>k. stream_bits (drop (idx + length src) d) = replicate k False"
  proof -
    obtain k where k: "stream_bits (pk_data p) = packer_bits p @ replicate k False"
      using inv packer_inv_iff by blast
    have "stream_bits d = packer_bits p @ replicate (k + 8 * n) False"
      by (simp add: d_def stream_bits_append k stream_bits_zeros replicate_add)
    moreover have "stream_bits d = stream_bits (take (idx + length src) d) @ stream_bits (drop (idx + length src) d)"
      by (metis append_take_drop_id stream_bits_append)
    ultimately have "stream_bits (drop (idx + length src) d) =
        drop (8 * (idx + length src)) (packer_bits p @ replicate (k + 8 * n) False)"
      using len by (metis append_eq_conv_conj d_def length_append length_replicate length_stream_bits
          length_take less_imp_le min.absorb2)
    then show ?thesis using bo by simp
  qed
  then obtain k where tail: "stream_bits (drop (idx + length src) d) = replicate k False" ..
  have bits: "packer_bits ?p = packer_bits p @ stream_bits src"
  proof -
    have "pk_bit_offset ?p \<le> 8 * length (pk_data ?p)" using len bo by (simp add: d_def)
    from packer_bits_as_stream [OF this] show ?thesis
      unfolding data using bo by (simp add: stream_bits_append head)
  qed
  have "length (pk_data ?p) = length (pk_data p) + n" by (simp add: d_def)
  with len have "length (pk_data ?p) \<noteq> 0" by linarith
  then have "pk_data ?p \<noteq> []" by (simp only: length_0_conv not_False_eq_True)
  moreover have "stream_bits (pk_data ?p) = packer_bits ?p @ replicate k False"
    unfolding bits unfolding data by (simp add: stream_bits_append head tail)
  ultimately have "packer_inv ?p" unfolding packer_inv_iff by blast
  then show ?thesis
    using that al grow bits by (simp add: packer_bytes_def d_def flip: idx_def)
qed

text \<open>The finished packet holds the bits written, padded with zeros to a whole byte.\<close>

lemma packer_finish_spec:
  assumes "packer_inv p"
  obtains pkt bytes where "packer_finish p = Inr pkt" and "packet_view pkt = Inr bytes"
    and "\<not> packet_empty pkt" and "length bytes = packer_byte_size p"
    and "stream_bits bytes = packer_bits p @ replicate (8 * length bytes - pk_bit_offset p) False"
proof -
  let ?n = "packer_byte_size p"
  have n: "?n = (pk_bit_offset p + (8 - 1)) div 8" by (simp add: packer_byte_size_def)
  have le: "?n \<le> length (pk_data p)" "pk_bit_offset p \<le> 8 * ?n"
    using assms by (auto simp: packer_inv_def packer_byte_size_def)
  obtain k where k: "stream_bits (pk_data p) = packer_bits p @ replicate k False"
    using assms packer_inv_iff by blast
  from arg_cong [OF k, of length] have kl: "8 * length (pk_data p) = pk_bit_offset p + k" by simp
  obtain pb where pb: "contents_bytes packet_build (pk_data p) ?n = Inr pb"
    "packet_view (packet_finish pb) = Inr (take ?n (pk_data p))" "\<not> packet_empty (packet_finish pb)"
    using packet_view_contents [OF le(1)] by blast
  show ?thesis
  proof (rule that)
    show "packer_finish p = Inr (packet_finish pb)"
      using pb by (simp add: packer_finish_def packer_emit_def n)
    show "packet_view (packet_finish pb) = Inr (take ?n (pk_data p))" by (rule pb)
    show "stream_bits (take ?n (pk_data p)) =
        packer_bits p @ replicate (8 * length (take ?n (pk_data p)) - pk_bit_offset p) False"
    proof -
      have "min (8 * ?n - pk_bit_offset p) k = 8 * ?n - pk_bit_offset p" "min (length (pk_data p)) ?n = ?n"
        using le kl by linarith+
      then show ?thesis using le by (simp add: stream_bits_take k)
    qed
  qed (use pb le in simp_all)
qed

end
