(* ===== verification/BitstreamUnpacker.thy ===== *)
theory BitstreamUnpacker
  imports BitstreamPacker
begin

text \<open>
  util/src/BitstreamUnpacker.cpp: bit fields are read, most significant bit first, from the view
  of a packet. The state is the view's bytes and the bit offset. What is still to be read,
  \<open>pending\<close>, is the abstraction under which every read takes a prefix away.
\<close>

record unpacker =
  up_view :: "u8 list"
  up_bit_offset :: nat

definition unpacker_new :: "packet \<Rightarrow> unpacker result" where
  "unpacker_new pkt = rbind (packet_view pkt) (\<lambda>bs. Inr \<lparr>up_view = bs, up_bit_offset = 0\<rparr>)"

definition up_bit_size :: "unpacker \<Rightarrow> nat" where
  "up_bit_size p = length (up_view p) * 8"

definition up_remaining_bits :: "unpacker \<Rightarrow> nat" where
  "up_remaining_bits p = up_bit_size p - up_bit_offset p"

definition up_empty :: "unpacker \<Rightarrow> bool" where
  "up_empty p \<longleftrightarrow> up_remaining_bits p = 0"

text \<open>One byte of the loop of \<open>u\<close>: \<open>r = (r << n) | ((data >> (bit_left - n)) & ((1 << n) - 1))\<close>.\<close>

definition take_bits :: "unpacker \<Rightarrow> nat \<Rightarrow> u32 \<Rightarrow> u32" where
  "take_bits p n r =
     (let bit_used = up_bit_offset p mod 8;
          idx = up_bit_offset p div 8;
          d = (ucast (up_view p ! idx) :: u32);
          bit_left = 8 - bit_used
      in push_bit n r OR (drop_bit (bit_left - n) d AND (push_bit n 1 - 1)))"

function unpacker_loop :: "unpacker \<Rightarrow> nat \<Rightarrow> u32 \<Rightarrow> u32 \<times> unpacker" where
  "unpacker_loop p num_bits r =
     (if num_bits = 0 then (r, p)
      else let n = min (8 - up_bit_offset p mod 8) num_bits
           in unpacker_loop (p\<lparr>up_bit_offset := up_bit_offset p + n\<rparr>) (num_bits - n) (take_bits p n r))"
  by pat_completeness auto
termination
  by (relation "measure (\<lambda>(p, n, r). n)") auto

declare unpacker_loop.simps [simp del]

definition unpacker_u :: "unpacker \<Rightarrow> nat \<Rightarrow> (u32 \<times> unpacker) result" where
  "unpacker_u p num_bits =
     rbind (assert_that (num_bits \<le> 32)) (\<lambda>_.
     rbind (assert_that (up_bit_offset p + num_bits \<le> up_bit_size p)) (\<lambda>_.
     Inr (unpacker_loop p num_bits 0)))"

definition unpacker_byte :: "unpacker \<Rightarrow> (u8 \<times> unpacker) result" where
  "unpacker_byte p =
     rbind (assert_that (up_bit_offset p mod 8 = 0)) (\<lambda>_.
     rbind (assert_that (8 \<le> up_bit_size p - up_bit_offset p)) (\<lambda>_.
     let idx = up_bit_offset p div 8;
         p' = p\<lparr>up_bit_offset := up_bit_offset p + 8\<rparr>
     in Inr (if idx < length (up_view p) then up_view p ! idx else 0, p')))"

text \<open>\<open>bytes\<close> fills a reserved packet byte by byte.\<close>

definition unpacker_bytes :: "unpacker \<Rightarrow> nat \<Rightarrow> (packet \<times> unpacker) result" where
  "unpacker_bytes p n =
     rbind (assert_that (up_bit_offset p mod 8 = 0)) (\<lambda>_.
     rbind (assert_that (n * 8 \<le> up_bit_size p - up_bit_offset p)) (\<lambda>_.
     let idx = up_bit_offset p div 8 in
     rbind (fold_result (\<lambda>i b. packet_put i (up_view p ! (idx + i)) b) [0..<n]
              (packet_reserve packet_build n)) (\<lambda>b.
     Inr (packet_finish b, p\<lparr>up_bit_offset := up_bit_offset p + n * 8\<rparr>))))"

section \<open>What is still to be read\<close>

definition pending :: "unpacker \<Rightarrow> bool list" where
  "pending p = drop (up_bit_offset p) (stream_bits (up_view p))"

lemma length_pending [simp]: "length (pending p) = up_bit_size p - up_bit_offset p"
  by (simp add: pending_def up_bit_size_def)

lemma up_remaining_bits_pending: "up_remaining_bits p = length (pending p)"
  by (simp add: up_remaining_bits_def)

lemma pending_nth:
  "i < length (pending p) \<Longrightarrow> pending p ! i = bit_at (up_view p) (up_bit_offset p + i)"
  by (simp add: pending_def up_bit_size_def stream_bits_nth)

lemma pending_advance: "pending (p\<lparr>up_bit_offset := up_bit_offset p + n\<rparr>) = drop n (pending p)"
  by (simp add: pending_def add.commute)

lemma bit_at_split: "r < 8 \<Longrightarrow> bit_at d (8 * q + r) = bit (d ! q) (7 - r)"
  by (simp add: bit_at_def)

lemma bit_take_bits:
  assumes n: "0 < n" "n \<le> 8 - up_bit_offset p mod 8" and k: "k < 32"
  shows "bit (take_bits p n r) k \<longleftrightarrow>
           (if k < n then bit_at (up_view p) (up_bit_offset p + (n - 1 - k)) else bit r (k - n))"
proof -
  define b idx where "b = up_bit_offset p mod 8" and "idx = up_bit_offset p div 8"
  have bo: "up_bit_offset p = 8 * idx + b" and b: "b < 8" by (auto simp: b_def idx_def)
  have mask: "bit (2 ^ n - 1 :: u32) k \<longleftrightarrow> k < n"
    using n by (intro bit_mask32) auto
  have "bit (take_bits p n r) k \<longleftrightarrow> (n \<le> k \<and> bit r (k - n)) \<or>
      (k < n \<and> bit (up_view p ! idx) (8 - b - n + k))"
    using k n b
    by (auto simp: take_bits_def Let_def bit_or_iff bit_and_iff bit_push_bit_iff bit_drop_bit_eq
        bit_unsigned_iff mask simp flip: b_def idx_def)
  moreover have "bit (up_view p ! idx) (8 - b - n + k) = bit_at (up_view p) (up_bit_offset p + (n - 1 - k))"
    if "k < n"
  proof -
    have "up_bit_offset p + (n - 1 - k) = 8 * idx + (b + (n - 1 - k))" "b + (n - 1 - k) < 8"
      "7 - (b + (n - 1 - k)) = 8 - b - n + k"
      using that n b bo by (auto simp flip: b_def)
    then show ?thesis by (simp only: bit_at_split)
  qed
  ultimately show ?thesis by auto
qed

lemma unpacker_loop_0 [simp]: "unpacker_loop p 0 r = (r, p)"
  by (subst unpacker_loop.simps) simp

lemma bits_of_take_bits:
  assumes n: "0 < n" "n \<le> 8 - up_bit_offset p mod 8" "n \<le> length (pending p)" and m: "m + n \<le> 32"
  shows "bits_of (m + n) (take_bits p n r) = bits_of m r @ take n (pending p)"
proof (rule nth_equalityI)
  fix i assume "i < length (bits_of (m + n) (take_bits p n r))"
  then have i: "i < m + n" by simp
  have "bits_of (m + n) (take_bits p n r) ! i = bit (take_bits p n r) (m + n - 1 - i)"
    using i by (rule nth_bits_of)
  also have "\<dots> = (if m + n - 1 - i < n then bit_at (up_view p) (up_bit_offset p + (n - 1 - (m + n - 1 - i)))
      else bit r (m + n - 1 - i - n))"
    using n i m by (intro bit_take_bits) auto
  also have "\<dots> = (bits_of m r @ take n (pending p)) ! i"
  proof (cases "i < m")
    case True
    then have "m + n - 1 - i - n = m - 1 - i" "\<not> m + n - 1 - i < n" by auto
    with True show ?thesis by (simp add: nth_append nth_bits_of)
  next
    case False
    then have "n - 1 - (m + n - 1 - i) = i - m" "m + n - 1 - i < n" using i by auto
    with False i n show ?thesis by (simp add: nth_append pending_nth)
  qed
  finally show "bits_of (m + n) (take_bits p n r) ! i = (bits_of m r @ take n (pending p)) ! i" .
qed (use n in simp)

lemma unpacker_loop_spec:
  assumes "nb \<le> length (pending p)" and "m + nb \<le> 32"
  shows "bits_of (m + nb) (fst (unpacker_loop p nb r)) = bits_of m r @ take nb (pending p)"
    and "snd (unpacker_loop p nb r) = p\<lparr>up_bit_offset := up_bit_offset p + nb\<rparr>"
  using assms
proof (induction p nb r arbitrary: m rule: unpacker_loop.induct)
  case (1 p nb r)
  define n where "n = min (8 - up_bit_offset p mod 8) nb"
  let ?p = "p\<lparr>up_bit_offset := up_bit_offset p + n\<rparr>"
  have eq: "unpacker_loop p nb r = unpacker_loop ?p (nb - n) (take_bits p n r)" if "nb \<noteq> 0"
    using that by (subst unpacker_loop.simps) (simp add: n_def Let_def)
  have n: "n \<le> nb" "n \<le> 8 - up_bit_offset p mod 8" and n0: "nb \<noteq> 0 \<Longrightarrow> 0 < n"
    by (auto simp: n_def)
  {
    case 1
    show ?case
    proof (cases "nb = 0")
      case True
      then show ?thesis by simp
    next
      case False
      have "bits_of ((m + n) + (nb - n)) (fst (unpacker_loop ?p (nb - n) (take_bits p n r))) =
          bits_of (m + n) (take_bits p n r) @ take (nb - n) (pending ?p)"
        using False 1 n by (intro "1.IH" n_def) (auto simp: up_bit_size_def)
      also have "bits_of (m + n) (take_bits p n r) = bits_of m r @ take n (pending p)"
        using False 1 n n0 by (intro bits_of_take_bits) auto
      also have "(bits_of m r @ take n (pending p)) @ take (nb - n) (pending ?p) = bits_of m r @ take nb (pending p)"
        using n by (simp add: pending_advance flip: take_add)
      finally show ?thesis using False n by (simp add: eq)
    qed
  next
    case 2
    show ?case
    proof (cases "nb = 0")
      case True
      then show ?thesis by simp
    next
      case False
      have "snd (unpacker_loop ?p (nb - n) (take_bits p n r)) =
          ?p\<lparr>up_bit_offset := up_bit_offset ?p + (nb - n)\<rparr>"
        using False 2 n by (intro "1.IH"(2) [where m = "m + n"] n_def) (auto simp: up_bit_size_def)
      then show ?thesis using False n by (simp add: eq)
    qed
  }
qed

lemma val_of_replicate_False [simp]: "val_of (replicate n False) = 0"
  by (induction n) (simp_all add: val_of_Cons)

lemma bits_of_zero: "bits_of n (0 :: 'a::semiring_bits) = replicate n False"
  by (rule nth_equalityI) (simp_all add: nth_bits_of)

lemma unpacker_loop_value:
  assumes "nb \<le> length (pending p)" and "nb \<le> 32"
  shows "unat (fst (unpacker_loop p nb 0)) = val_of (take nb (pending p))"
proof -
  let ?r = "fst (unpacker_loop p nb 0)"
  have "bits_of 32 ?r = bits_of (32 - nb) (0 :: u32) @ take nb (pending p)"
    using unpacker_loop_spec(1) [of nb p "32 - nb" 0] assms by simp
  then have "val_of (bits_of 32 ?r) = val_of (take nb (pending p))"
    by (simp add: bits_of_zero val_of_append)
  moreover have "unat ?r < 2 ^ 32" using unsigned_less [of ?r] by simp
  ultimately show ?thesis by (simp add: val_of_bits_of_word)
qed

text \<open>
  The invariant of the class, and the contract of \<open>u\<close>: it returns the value of the next bits and
  takes them away; it stops on an assertion when fewer are left.
\<close>

definition unpacker_inv :: "unpacker \<Rightarrow> bool" where
  "unpacker_inv p \<longleftrightarrow> up_bit_offset p \<le> up_bit_size p"

lemma unpacker_u_spec:
  assumes "unpacker_inv p" and "nb \<le> 32" and "nb \<le> length (pending p)"
  obtains r p' where "unpacker_u p nb = Inr (r, p')" and "unat r = val_of (take nb (pending p))"
    and "pending p' = drop nb (pending p)" and "unpacker_inv p'"
    and "p' = p\<lparr>up_bit_offset := up_bit_offset p + nb\<rparr>"
proof
  have le: "up_bit_offset p + nb \<le> up_bit_size p"
    using assms by (auto simp: unpacker_inv_def)
  then show "unpacker_u p nb = Inr (fst (unpacker_loop p nb 0), p\<lparr>up_bit_offset := up_bit_offset p + nb\<rparr>)"
    using assms unpacker_loop_spec(2) [of nb p 0 0]
    by (auto simp: unpacker_u_def intro!: prod_eqI)
  show "unat (fst (unpacker_loop p nb 0)) = val_of (take nb (pending p))"
    using assms by (intro unpacker_loop_value)
  show "unpacker_inv (p\<lparr>up_bit_offset := up_bit_offset p + nb\<rparr>)"
    using le by (simp add: unpacker_inv_def up_bit_size_def)
qed (rule pending_advance, rule refl)

lemma unpacker_u_short:
  "nb \<le> 32 \<Longrightarrow> length (pending p) < nb \<Longrightarrow> unpacker_u p nb = Inl AssertFailed"
  by (simp add: unpacker_u_def)

lemma unpacker_u_inv: "unpacker_u p nb = Inr (r, p') \<Longrightarrow> unpacker_inv p'"
proof -
  assume "unpacker_u p nb = Inr (r, p')"
  then have "nb \<le> 32" "up_bit_offset p + nb \<le> up_bit_size p" "unpacker_loop p nb 0 = (r, p')"
    by (auto simp: unpacker_u_def)
  then show ?thesis
    using unpacker_loop_spec(2) [of nb p 0 0] by (auto simp: unpacker_inv_def up_bit_size_def)
qed

lemma unpacker_new_spec:
  assumes "packet_view pkt = Inr bytes"
  obtains p where "unpacker_new pkt = Inr p" and "pending p = stream_bits bytes"
    and "unpacker_inv p" and "up_bit_offset p = 0" and "up_view p = bytes"
  by (rule that [of "\<lparr>up_view = bytes, up_bit_offset = 0\<rparr>"])
     (use assms in \<open>simp_all add: unpacker_new_def pending_def unpacker_inv_def\<close>)

text \<open>Whole bytes at an aligned offset.\<close>

lemma unpacker_byte_spec:
  assumes inv: "unpacker_inv p" and al: "up_bit_offset p mod 8 = 0" and len: "8 \<le> length (pending p)"
  obtains x p' where "unpacker_byte p = Inr (x, p')" and "bits_of 8 x = take 8 (pending p)"
    and "pending p' = drop 8 (pending p)" and "unpacker_inv p'" and "up_bit_offset p' mod 8 = 0"
proof
  let ?idx = "up_bit_offset p div 8"
  have bo: "up_bit_offset p = 8 * ?idx" using al by auto
  have "8 * ?idx + 8 \<le> 8 * length (up_view p)"
    using len bo by (simp add: up_bit_size_def)
  then have idx: "?idx < length (up_view p)" by linarith
  show "unpacker_byte p = Inr (up_view p ! ?idx, p\<lparr>up_bit_offset := up_bit_offset p + 8\<rparr>)"
    using al len idx by (simp add: unpacker_byte_def Let_def)
  show "bits_of 8 (up_view p ! ?idx) = take 8 (pending p)"
  proof (rule nth_equalityI)
    fix i assume "i < length (bits_of 8 (up_view p ! ?idx))"
    then have i: "i < 8" by simp
    have "pending p ! i = bit_at (up_view p) (8 * ?idx + i)"
      using i len bo by (subst pending_nth) simp_all
    also have "\<dots> = bit (up_view p ! ?idx) (7 - i)" using i by (rule bit_at_split)
    finally show "bits_of 8 (up_view p ! ?idx) ! i = take 8 (pending p) ! i"
      using i by (simp add: nth_bits_of)
  qed (use len in simp)
  show "unpacker_inv (p\<lparr>up_bit_offset := up_bit_offset p + 8\<rparr>)"
    using len by (simp add: unpacker_inv_def up_bit_size_def)
  show "up_bit_offset (p\<lparr>up_bit_offset := up_bit_offset p + 8\<rparr>) mod 8 = 0" using al by simp
qed (rule pending_advance)

lemma packet_put_fold:
  assumes "pb_mapped pb" and "packet_view (pb_packet pb) = Inr bs" and "length src \<le> length bs"
  shows "\<exists>pb'. fold_result (\<lambda>i b. packet_put i (src ! i) b) [0..<length src] pb = Inr pb'
           \<and> pb_mapped pb' \<and> packet_view (pb_packet pb') = Inr (src @ drop (length src) bs)"
  using assms(3)
proof (induction src rule: rev_induct)
  case Nil
  then show ?case using assms by simp
next
  case (snoc x src)
  then obtain pb' where pb': "fold_result (\<lambda>i b. packet_put i (src ! i) b) [0..<length src] pb = Inr pb'"
    "pb_mapped pb'" "packet_view (pb_packet pb') = Inr (src @ drop (length src) bs)" by auto
  have "length src < length (src @ drop (length src) bs)" using snoc.prems by simp
  from packet_put_view [OF pb'(2,3) this]
  obtain pb'' where "packet_put (length src) x pb' = Inr pb''" "pb_mapped pb''"
    "packet_view (pb_packet pb'') = Inr ((src @ drop (length src) bs)[length src := x])" by metis
  moreover have "(src @ drop (length src) bs)[length src := x] = (src @ [x]) @ drop (length (src @ [x])) bs"
    using snoc.prems by (simp add: list_update_append Cons_nth_drop_Suc [symmetric])
  moreover have "fold_result (\<lambda>i b. packet_put i ((src @ [x]) ! i) b) [0..<length src] pb = Inr pb'"
  proof -
    have "fold_result (\<lambda>i b. packet_put i ((src @ [x]) ! i) b) is pb = fold_result (\<lambda>i b. packet_put i (src ! i) b) is pb"
      if "\<forall>i \<in> set is. i < length src" for "is" pb
      using that by (induction "is" arbitrary: pb) (auto simp: nth_append intro!: rbind_cong)
    then show ?thesis using pb'(1) by simp
  qed
  ultimately show ?case by (simp add: fold_result_append)
qed

lemma unpacker_bytes_spec:
  assumes inv: "unpacker_inv p" and al: "up_bit_offset p mod 8 = 0" and len: "8 * n \<le> length (pending p)"
  obtains pkt bs p' where "unpacker_bytes p n = Inr (pkt, p')" and "packet_view pkt = Inr bs"
    and "stream_bits bs = take (8 * n) (pending p)" and "length bs = n"
    and "pending p' = drop (8 * n) (pending p)" and "unpacker_inv p'" and "up_bit_offset p' mod 8 = 0"
proof -
  let ?idx = "up_bit_offset p div 8"
  define bs where "bs = take n (drop ?idx (up_view p))"
  have bo: "up_bit_offset p = 8 * ?idx" using al by auto
  have "8 * ?idx + 8 * n \<le> 8 * length (up_view p) \<or> n = 0"
    using len bo by (auto simp: up_bit_size_def)
  then have ix: "?idx + n \<le> length (up_view p)"
    using inv bo by (auto simp: unpacker_inv_def up_bit_size_def)
  then have lbs: "length bs = n" and nth: "\<And>i. i < n \<Longrightarrow> bs ! i = up_view p ! (?idx + i)"
    by (simp_all add: bs_def)
  have "pb_mapped (packet_reserve packet_build n)"
    "packet_view (pb_packet (packet_reserve packet_build n)) = Inr (replicate n 0)"
    by (simp_all add: packet_reserve_def packet_view_def buffer_map_def buffer_zeros_def)
  from packet_put_fold [OF this, of bs] lbs
  obtain pb where pb: "fold_result (\<lambda>i b. packet_put i (bs ! i) b) [0..<n] (packet_reserve packet_build n) = Inr pb"
    "packet_view (pb_packet pb) = Inr bs" by auto
  have "fold_result (\<lambda>i b. packet_put i (up_view p ! (?idx + i)) b) is q =
        fold_result (\<lambda>i b. packet_put i (bs ! i) b) is q" if "\<forall>i \<in> set is. i < n" for "is" q
    using that by (induction "is" arbitrary: q) (auto simp: nth intro!: rbind_cong)
  with pb have fold: "fold_result (\<lambda>i b. packet_put i (up_view p ! (?idx + i)) b) [0..<n]
      (packet_reserve packet_build n) = Inr pb" by simp
  have "stream_bits bs = take (8 * n) (drop (8 * ?idx) (stream_bits (up_view p)))"
    by (simp only: bs_def stream_bits_take stream_bits_drop)
  with bo have bits: "stream_bits bs = take (8 * n) (pending p)" by (metis pending_def)
  show ?thesis
  proof (rule that)
    show "unpacker_bytes p n = Inr (packet_finish pb, p\<lparr>up_bit_offset := up_bit_offset p + n * 8\<rparr>)"
      using al len fold by (simp add: unpacker_bytes_def Let_def mult.commute)
    show "packet_view (packet_finish pb) = Inr bs" using pb by (simp add: packet_finish_def)
    show "unpacker_inv (p\<lparr>up_bit_offset := up_bit_offset p + n * 8\<rparr>)"
      using ix bo by (simp add: unpacker_inv_def up_bit_size_def)
    show "pending (p\<lparr>up_bit_offset := up_bit_offset p + n * 8\<rparr>) = drop (8 * n) (pending p)"
      using pending_advance [of p "n * 8"] by (simp add: mult.commute)
    show "up_bit_offset (p\<lparr>up_bit_offset := up_bit_offset p + n * 8\<rparr>) mod 8 = 0" using al by simp
  qed (rule bits lbs)+
qed

end
