(* ===== verification/Bitstream.thy ===== *)
theory Bitstream
  imports BitstreamUnpacker
begin

text \<open>
  The contract between the two ends of a bitstream, as interfaces: a sink that appends fields, a
  source that takes fields away, and a channel that turns the one into the other. The packer and
  the unpacker of util/src are their providers; the entropy coders are written against the
  derived facts.
\<close>

text \<open>Sequences of fields: what a serialiser writes and a parser reads.\<close>

fun write_fields :: "('w \<Rightarrow> nat \<Rightarrow> u32 \<Rightarrow> 'w result) \<Rightarrow> (nat \<times> u32) list \<Rightarrow> 'w \<Rightarrow> 'w result" where
  "write_fields put [] w = Inr w"
| "write_fields put ((n, v) # fs) w = rbind (put w n v) (write_fields put fs)"

fun read_fields :: "('r \<Rightarrow> nat \<Rightarrow> (u32 \<times> 'r) result) \<Rightarrow> nat list \<Rightarrow> 'r \<Rightarrow> (u32 list \<times> 'r) result" where
  "read_fields get [] r = Inr ([], r)"
| "read_fields get (n # ns) r =
     rbind (get r n) (\<lambda>(v, r1). rbind (read_fields get ns r1) (\<lambda>(vs, r2). Inr (v # vs, r2)))"

definition field_bits :: "(nat \<times> u32) list \<Rightarrow> bool list" where
  "field_bits fs = concat (map (\<lambda>(n, v). bits_of n v) fs)"

lemma field_bits_simps [simp, bits_simps]:
  "field_bits [] = []" "field_bits ((n, v) # fs) = bits_of n v @ field_bits fs"
  "field_bits (fs @ gs) = field_bits fs @ field_bits gs"
  by (simp_all add: field_bits_def)

locale bit_sink =
  fixes put :: "'w \<Rightarrow> nat \<Rightarrow> u32 \<Rightarrow> 'w result"
    and written :: "'w \<Rightarrow> bool list"
    and wf :: "'w \<Rightarrow> bool"
  assumes put_appends: "wf w \<Longrightarrow> n < 31 \<Longrightarrow>
      \<exists>w'. put w n v = Inr w' \<and> wf w' \<and> written w' = written w @ bits_of n v"
begin

lemma put_fields:
  assumes "wf w" and "\<forall>(n, v) \<in> set fs. n < 31"
  shows "\<exists>w'. write_fields put fs w = Inr w' \<and> wf w' \<and> written w' = written w @ field_bits fs"
  using assms
proof (induction fs arbitrary: w)
  case Nil
  then show ?case by simp
next
  case (Cons f fs)
  obtain n v where f: "f = (n, v)" by force
  with Cons.prems put_appends obtain w1 where
    "put w n v = Inr w1" "wf w1" "written w1 = written w @ bits_of n v" by force
  with Cons.IH [of w1] Cons.prems f show ?case by auto
qed

lemma put_fields_obtain:
  assumes "wf w" and "\<forall>(n, v) \<in> set fs. n < 31"
  obtains w' where "write_fields put fs w = Inr w'" and "wf w'"
    and "written w' = written w @ field_bits fs"
  using put_fields [OF assms] by blast

end

locale bit_source =
  fixes get :: "'r \<Rightarrow> nat \<Rightarrow> (u32 \<times> 'r) result"
    and rest :: "'r \<Rightarrow> bool list"
    and ok :: "'r \<Rightarrow> bool"
  assumes get_takes: "ok r \<Longrightarrow> n \<le> 32 \<Longrightarrow> n \<le> length (rest r) \<Longrightarrow>
      \<exists>v r'. get r n = Inr (v, r') \<and> ok r' \<and> unat v = val_of (take n (rest r)) \<and> rest r' = drop n (rest r)"
    and get_short: "ok r \<Longrightarrow> n \<le> 32 \<Longrightarrow> length (rest r) < n \<Longrightarrow> get r n = Inl AssertFailed"
begin

lemma get_field:
  assumes "ok r" and "n \<le> 32" and "rest r = bits_of n v @ bs"
  shows "\<exists>r'. get r n = Inr (take_bit n v, r') \<and> ok r' \<and> rest r' = bs"
proof -
  obtain x r' where *: "get r n = Inr (x, r')" "ok r'" "unat x = val_of (take n (rest r))" "rest r' = drop n (rest r)"
    using get_takes [of r n] assms by auto
  have "unat x = unat v mod 2 ^ n"
    using * assms by (simp add: val_of_bits_of_word)
  then have "unat x = unat (take_bit n v)"
    by (metis take_bit_eq_mod unsigned_take_bit_eq)
  then have "x = take_bit n v" by (simp only: word_unat_eq_iff)
  with * assms show ?thesis by simp
qed

lemma get_value:
  assumes "ok r" and "n \<le> 32" and "rest r = bits_of n (v::nat) @ bs" and "v < 2 ^ n"
  obtains x r' where "get r n = Inr (x, r')" and "unat x = v" and "ok r'" and "rest r' = bs"
  using get_takes [of r n] assms by (auto simp: val_of_bits_of_nat)

lemma get_bit:
  assumes "ok r" and "rest r = b # bs"
  obtains x r' where "get r 1 = Inr (x, r')" and "unat x = of_bool b" and "ok r'" and "rest r' = bs"
  using get_takes [of r 1] assms by (auto simp: val_of_Cons)

lemma get_fields:
  assumes "ok r" and "\<forall>(n, v) \<in> set fs. n \<le> 32" and "rest r = field_bits fs @ bs"
  shows "\<exists>r'. read_fields get (map fst fs) r = Inr (map (\<lambda>(n, v). take_bit n v) fs, r')
              \<and> ok r' \<and> rest r' = bs"
  using assms
proof (induction fs arbitrary: r)
  case Nil
  then show ?case by simp
next
  case (Cons f fs)
  obtain n v where f: "f = (n, v)" by force
  with Cons.prems get_field [of r n v "field_bits fs @ bs"] obtain r1 where
    "get r n = Inr (take_bit n v, r1)" "ok r1" "rest r1 = field_bits fs @ bs" by auto
  with Cons.IH [of r1] Cons.prems f show ?case by auto
qed

end

locale bit_channel = bit_sink put written wf + bit_source get rest ok
  for put :: "'w \<Rightarrow> nat \<Rightarrow> u32 \<Rightarrow> 'w result" and written wf
    and get :: "'r \<Rightarrow> nat \<Rightarrow> (u32 \<times> 'r) result" and rest ok +
  fixes transfer :: "'w \<Rightarrow> 'r result"
  assumes transfer_ok: "wf w \<Longrightarrow>
      \<exists>r k. transfer w = Inr r \<and> ok r \<and> k < 8 \<and> rest r = written w @ replicate k False"
begin

lemma fields_through:
  assumes "wf w" and "written w = []" and "\<forall>(n, v) \<in> set fs. n < 31"
  shows "\<exists>w' r r' k. write_fields put fs w = Inr w' \<and> transfer w' = Inr r \<and>
           read_fields get (map fst fs) r = Inr (map (\<lambda>(n, v). take_bit n v) fs, r') \<and>
           rest r' = replicate k False \<and> k < 8"
proof -
  obtain w' where w': "write_fields put fs w = Inr w'" "wf w'" "written w' = field_bits fs"
    using put_fields [of w fs] assms by auto
  then obtain r k where r: "transfer w' = Inr r" "ok r" "k < 8" "rest r = field_bits fs @ replicate k False"
    using transfer_ok [of w'] by auto
  have "\<forall>(n, v) \<in> set fs. n \<le> 32" using assms(3) by auto
  from get_fields [OF r(2) this r(4)] w' r show ?thesis by blast
qed

end

section \<open>The packer and the unpacker provide them\<close>

interpretation pk: bit_sink packer_u packer_bits packer_inv
proof unfold_locales
  fix w :: packer and n :: nat and v :: u32
  assume "packer_inv w" "n < 31"
  then obtain w' where "packer_u w n v = Inr w'" "packer_inv w'" "packer_bits w' = packer_bits w @ bits_of n v"
    by (rule packer_u_spec)
  then show "\<exists>w'. packer_u w n v = Inr w' \<and> packer_inv w' \<and> packer_bits w' = packer_bits w @ bits_of n v"
    by blast
qed

interpretation up: bit_source unpacker_u pending unpacker_inv
proof unfold_locales
  fix r n assume "unpacker_inv r" "n \<le> 32" "n \<le> length (pending r)"
  then obtain v r' where "unpacker_u r n = Inr (v, r')" "unat v = val_of (take n (pending r))"
    "pending r' = drop n (pending r)" "unpacker_inv r'" by (rule unpacker_u_spec)
  then show "\<exists>v r'. unpacker_u r n = Inr (v, r') \<and> unpacker_inv r' \<and>
      unat v = val_of (take n (pending r)) \<and> pending r' = drop n (pending r)" by blast
qed (rule unpacker_u_short)

text \<open>The channel is the packet: \<open>finish\<close>, then a view and an unpacker over it.\<close>

definition through_packet :: "packer \<Rightarrow> unpacker result" where
  "through_packet w = rbind (packer_finish w) unpacker_new"

lemma through_packet_spec:
  assumes "packer_inv w"
  obtains r k where "through_packet w = Inr r" and "unpacker_inv r" and "k < 8"
    and "pending r = packer_bits w @ replicate k False" and "up_bit_offset r = 0"
proof -
  obtain pkt bytes where *: "packer_finish w = Inr pkt" "packet_view pkt = Inr bytes"
    "length bytes = packer_byte_size w"
    "stream_bits bytes = packer_bits w @ replicate (8 * length bytes - pk_bit_offset w) False"
    using packer_finish_spec [OF assms] by metis
  obtain r where r: "unpacker_new pkt = Inr r" "pending r = stream_bits bytes" "unpacker_inv r"
    "up_bit_offset r = 0"
    using unpacker_new_spec [OF *(2)] by metis
  have "8 * length bytes - pk_bit_offset w < 8"
    unfolding *(3) packer_byte_size_def by linarith
  then show ?thesis using that [of r] * r by (simp add: through_packet_def)
qed

interpretation packet_channel: bit_channel packer_u packer_bits packer_inv unpacker_u pending unpacker_inv through_packet
  by unfold_locales (metis through_packet_spec)

section \<open>Properties\<close>

text \<open>
  C14: bit fields of any widths below 31, written one after the other into a new packer, finished
  into a packet and read back with the same widths, come back as written, reduced to their
  widths; what is left in the packet are fewer than eight zero bits.
\<close>

theorem bitstream_roundtrip:
  assumes "\<forall>(n, v) \<in> set fs. n < 31"
  shows "\<exists>w pkt r r' k.
           write_fields packer_u fs packer_new = Inr w \<and> packer_finish w = Inr pkt \<and>
           unpacker_new pkt = Inr r \<and>
           read_fields unpacker_u (map fst fs) r = Inr (map (\<lambda>(n, v). take_bit n v) fs, r') \<and>
           up_remaining_bits r' = k \<and> k < 8 \<and> pending r' = replicate k False"
proof -
  obtain w r r' k where *: "write_fields packer_u fs packer_new = Inr w" "through_packet w = Inr r"
    "read_fields unpacker_u (map fst fs) r = Inr (map (\<lambda>(n, v). take_bit n v) fs, r')"
    "pending r' = replicate k False" "k < 8"
    using packet_channel.fields_through [of packer_new fs] assms by auto
  then have "up_remaining_bits r' = k" by (simp add: up_remaining_bits_pending del: length_pending)
  with * show ?thesis by (auto simp: through_packet_def)
qed

theorem bitstream_roundtrip_witness:
  "\<exists>w pkt r r' k.
     write_fields packer_u [(5, 31), (3, 9), (8, 200)] packer_new = Inr w \<and> packer_finish w = Inr pkt \<and>
     unpacker_new pkt = Inr r \<and>
     read_fields unpacker_u [5, 3, 8] r = Inr ([31, 1, 200], r') \<and>
     up_remaining_bits r' = k \<and> k < 8 \<and> pending r' = replicate k False"
  using bitstream_roundtrip [of "[(5, 31), (3, 9), (8, 200)]"] by (simp add: take_bit_eq_mod)

end
