(* ===== verification/HuffmanCode.thy ===== *)
theory HuffmanCode
  imports Bitstream
begin

text \<open>
  What encoder/src/HuffmanEncoder.cpp and decoder/src/HuffmanDecoder.cpp have in common: the two
  comparators that order tree nodes and codes, the width of a coded length, and canonical
  numbering, the assignment of code values from lengths alone that both sides repeat. The
  central notion is \<open>canonical\<close>: read as dyadic intervals of \<open>2 ^ M\<close>, the codes lie side by
  side from 0 on, longest first.
\<close>

section \<open>The comparators as linear orders\<close>

text \<open>
  \<open>node_compare\<close> of \<open>HuffmanEncoderBuilder::finish\<close>: the top of the priority queue is the
  greatest element, the node with the lowest count and, among equals, the highest symbol.
\<close>

datatype node_key = Node_Key (key_count: u32) (key_symbol: nat)

instantiation node_key :: linorder
begin

definition less_node_key :: "node_key \<Rightarrow> node_key \<Rightarrow> bool" where
  "less_node_key l r \<longleftrightarrow>
     (if key_count l = key_count r then key_symbol l < key_symbol r else key_count r < key_count l)"

definition less_eq_node_key :: "node_key \<Rightarrow> node_key \<Rightarrow> bool" where
  "less_eq_node_key l r \<longleftrightarrow> l = r \<or> l < (r :: node_key)"

instance
  by standard (auto simp: less_node_key_def less_eq_node_key_def node_key.expand split: if_splits)

end

text \<open>
  The order in which \<open>std::sort\<close> arranges codes, on both sides: by length, and equal lengths by
  descending symbol. Two codes that compare equal have the same symbol and length, so the
  result of the sort does not depend on how it treats equal elements.
\<close>

datatype code_key = Code_Key (key_bits: nat) (key_sym: nat)

instantiation code_key :: linorder
begin

definition less_code_key :: "code_key \<Rightarrow> code_key \<Rightarrow> bool" where
  "less_code_key a b \<longleftrightarrow>
     (if key_bits a = key_bits b then key_sym b < key_sym a else key_bits a < key_bits b)"

definition less_eq_code_key :: "code_key \<Rightarrow> code_key \<Rightarrow> bool" where
  "less_eq_code_key a b \<longleftrightarrow> a = b \<or> a < (b :: code_key)"

instance
  by standard (auto simp: less_code_key_def less_eq_code_key_def code_key.expand split: if_splits)

end

lemma code_key_le_bits: "a \<le> b \<Longrightarrow> key_bits a \<le> key_bits b"
  by (auto simp: less_eq_code_key_def less_code_key_def split: if_splits)

section \<open>The width of a coded length\<close>

definition bit_width_table :: "nat list" where
  "bit_width_table =
     [1, 1, 2, 2, 3, 3, 3, 3, 4, 4, 4, 4, 4, 4, 4, 4,
      5, 5, 5, 5, 5, 5, 5, 5, 5, 5, 5, 5, 5, 5, 5, 5]"

definition bit_width :: "nat \<Rightarrow> nat result" where
  "bit_width n = rbind (check_that (n < 32)) (\<lambda>_. Inr (bit_width_table ! n))"

lemma all_less_32: "(\<forall>n < 32. P n) \<longleftrightarrow> list_all P [0..<32]" for P :: "nat \<Rightarrow> bool"
  by (auto simp: list_all_iff)

lemma bit_width_fits_table: "\<forall>n < 32. n < 2 ^ (bit_width_table ! n) \<and> bit_width_table ! n \<le> 5 \<and> 0 < bit_width_table ! n"
  unfolding all_less_32 by code_simp

lemma bit_width_fits:
  assumes "n < 32"
  obtains w where "bit_width n = Inr w" and "n < 2 ^ w" and "w \<le> 5" and "0 < w"
  using assms bit_width_fits_table by (auto simp: bit_width_def)

section \<open>Canonical numbering\<close>

text \<open>
  The numbering loop over (length, symbol) in descending order of length, as a function on
  the lengths: the value moves to the new length by a shift and is then counted up.
\<close>

fun number_codes :: "nat \<Rightarrow> nat \<Rightarrow> nat list \<Rightarrow> nat list" where
  "number_codes len v [] = []"
| "number_codes len v (l # ls) =
     (if l < len then (v div 2 ^ (len - l)) # number_codes l (v div 2 ^ (len - l) + 1) ls
      else v # number_codes len (v + 1) ls)"

fun canonical :: "nat \<Rightarrow> nat \<Rightarrow> (nat \<times> nat) list \<Rightarrow> bool" where
  "canonical M a [] \<longleftrightarrow> a = 2 ^ M"
| "canonical M a ((l, v) # cs) \<longleftrightarrow> l \<le> M \<and> v * 2 ^ (M - l) = a \<and> canonical M (a + 2 ^ (M - l)) cs"

definition kraft :: "nat \<Rightarrow> nat list \<Rightarrow> nat" where
  "kraft M ls = (\<Sum>l \<leftarrow> ls. 2 ^ (M - l))"

lemma kraft_simps [simp]: "kraft M [] = 0" "kraft M (l # ls) = 2 ^ (M - l) + kraft M ls"
  by (simp_all add: kraft_def)

lemma length_number_codes [simp]: "length (number_codes len v ls) = length ls"
  by (induction len v ls rule: number_codes.induct) simp_all

lemma dvd_kraft: "\<forall>x \<in> set ls. x \<le> l \<Longrightarrow> 2 ^ (M - l) dvd kraft M ls"
  by (induction ls) (auto intro!: dvd_add le_imp_power_dvd)

text \<open>
  Because the lengths fill \<open>2 ^ M\<close> exactly, the shift never loses a bit, and the values are
  those of adjacent intervals.
\<close>

lemma number_codes_canonical:
  assumes "v * 2 ^ (M - len) + kraft M ls = 2 ^ M" and "len \<le> M"
    and "sorted_wrt (\<ge>) ls" and "\<forall>l \<in> set ls. l \<le> len"
  shows "canonical M (v * 2 ^ (M - len)) (zip ls (number_codes len v ls))"
  using assms
proof (induction len v ls rule: number_codes.induct)
  case (1 len v)
  then show ?case by simp
next
  case (2 len v l ls)
  have l: "l \<le> len" "l \<le> M" and le: "\<forall>x \<in> set ls. x \<le> l" using "2.prems" by auto
  define w where "w = v div 2 ^ (len - l)"
  have "2 ^ (M - l) dvd v * 2 ^ (M - len)"
  proof -
    have "2 ^ (M - l) dvd kraft M (l # ls)" using le by (intro dvd_kraft) simp
    moreover have "2 ^ (M - l) dvd (2 ^ M :: nat)" by (rule le_imp_power_dvd) simp
    ultimately show ?thesis using "2.prems"(1) by (metis dvd_add_left_iff)
  qed
  moreover have split: "(2::nat) ^ (M - l) = 2 ^ (len - l) * 2 ^ (M - len)"
    using l "2.prems"(2) by (simp flip: power_add)
  ultimately have "2 ^ (len - l) dvd v" by simp
  then have wv: "w * 2 ^ (M - l) = v * 2 ^ (M - len)"
    by (simp add: w_def split)
  have tot: "(w + 1) * 2 ^ (M - l) + kraft M ls = 2 ^ M"
    using "2.prems"(1) wv by (simp add: algebra_simps)
  show ?case
  proof (cases "l < len")
    case True
    then have "canonical M ((w + 1) * 2 ^ (M - l)) (zip ls (number_codes l (w + 1) ls))"
      using "2.IH"(1) tot l le "2.prems" by (simp add: w_def)
    with True l wv show ?thesis by (simp add: algebra_simps flip: w_def)
  next
    case False
    with l have "l = len" "w = v" by (auto simp: w_def)
    then have "canonical M ((w + 1) * 2 ^ (M - l)) (zip ls (number_codes l (w + 1) ls))"
      using "2.IH"(2) tot l le "2.prems" False by simp
    with False l wv \<open>l = len\<close> \<open>w = v\<close> show ?thesis by (simp add: algebra_simps)
  qed
qed

lemma canonical_bound: "canonical M a cs \<Longrightarrow> a \<le> 2 ^ M"
proof (induction cs arbitrary: a)
  case Nil
  then show ?case by simp
next
  case (Cons c cs)
  obtain l v where "c = (l, v)" by force
  with Cons.prems Cons.IH [of "a + 2 ^ (M - l)"] show ?case by simp
qed

text \<open>Each code's interval starts at or after the ones counted before it, and lies inside the whole.\<close>

lemma canonical_interval:
  assumes "canonical M a cs" and "(l, v) \<in> set cs"
  shows "a \<le> v * 2 ^ (M - l) \<and> (v + 1) * 2 ^ (M - l) \<le> 2 ^ M \<and> l \<le> M"
  using assms
proof (induction cs arbitrary: a)
  case Nil
  then show ?case by simp
next
  case (Cons c cs)
  obtain l' v' where c: "c = (l', v')" by force
  note can = Cons.prems(1) [unfolded c canonical.simps]
  show ?case
  proof (cases "(l, v) = (l', v')")
    case True
    with can canonical_bound [of M "a + 2 ^ (M - l')" cs] show ?thesis by (simp add: algebra_simps)
  next
    case False
    with Cons.prems(2) c have "(l, v) \<in> set cs" by auto
    with Cons.IH can have "a + 2 ^ (M - l') \<le> v * 2 ^ (M - l) \<and> (v + 1) * 2 ^ (M - l) \<le> 2 ^ M \<and> l \<le> M"
      by blast
    then show ?thesis by simp
  qed
qed

lemma canonical_append:
  "canonical M a (xs @ ys) \<Longrightarrow> canonical M (a + kraft M (map fst xs)) ys"
proof (induction xs arbitrary: a)
  case Nil
  then show ?case by simp
next
  case (Cons x xs)
  obtain l v where "x = (l, v)" by force
  with Cons.prems Cons.IH [of "a + 2 ^ (M - l)"] show ?case by (simp add: add.assoc)
qed

lemma canonical_value_less:
  assumes "canonical M a cs" and "(l, v) \<in> set cs"
  shows "v < 2 ^ l"
proof -
  have "(v + 1) * 2 ^ (M - l) \<le> 2 ^ M" "l \<le> M" using canonical_interval [OF assms] by auto
  moreover have "(2::nat) ^ M = 2 ^ l * 2 ^ (M - l)" using \<open>l \<le> M\<close> by (simp flip: power_add)
  ultimately have "(v + 1) * 2 ^ (M - l) \<le> 2 ^ l * 2 ^ (M - l)" by metis
  then have "v + 1 \<le> 2 ^ l" by (simp only: mult_le_cancel2) simp
  then show ?thesis by simp
qed

text \<open>
  A code counted earlier, cut to the length of one counted later, has a smaller value: no code
  is a prefix of another, and a scan from the shortest code on stops at the right one.
\<close>

lemma canonical_prefix_less:
  assumes can: "canonical M a (xs @ (l, v) # ys)" and c: "(l', v') \<in> set ys" and le: "l' \<le> l"
  shows "v div 2 ^ (l - l') < v'"
proof -
  let ?a = "a + kraft M (map fst xs)"
  from canonical_append [OF can] have "v * 2 ^ (M - l) = ?a" "l \<le> M"
    and rest: "canonical M (?a + 2 ^ (M - l)) ys" by auto
  with canonical_interval [OF rest c] have "(v + 1) * 2 ^ (M - l) \<le> v' * 2 ^ (M - l')"
    by (simp add: algebra_simps)
  moreover have "(2::nat) ^ (M - l') = 2 ^ (l - l') * 2 ^ (M - l)"
    using le \<open>l \<le> M\<close> by (simp flip: power_add)
  ultimately have "(v + 1) * 2 ^ (M - l) \<le> v' * 2 ^ (l - l') * 2 ^ (M - l)"
    by (simp only: mult.assoc)
  then have "v + 1 \<le> v' * 2 ^ (l - l')" by (simp only: mult_le_cancel2) simp
  then have "v < v' * 2 ^ (l - l')" by simp
  then show ?thesis by (simp add: less_mult_imp_div_less)
qed

end
