(* ===== verification/HuffmanEncoder.thy ===== *)
theory HuffmanEncoder
  imports HuffmanCode
begin

text \<open>
  encoder/src/HuffmanEncoder.cpp: symbol counts are collected, a Huffman tree is built on a
  vector of nodes with a priority queue of node pointers, code lengths are filled in from the
  root down, and canonical values are numbered. Node pointers are indices into the vector. The
  library's priority queue is modelled by its contract: \<open>top\<close> is the greatest element under the
  comparator (unique, as node symbols differ), \<open>pop\<close> removes it.
\<close>

section \<open>The model\<close>

abbreviation max_symbol :: nat where
  "max_symbol \<equiv> 256"

record huffman_builder =
  symbol_counts :: "u32 list"

definition builder_new :: huffman_builder where
  "builder_new = \<lparr>symbol_counts = replicate max_symbol 0\<rparr>"

definition add_symbol :: "nat \<Rightarrow> u32 \<Rightarrow> huffman_builder \<Rightarrow> huffman_builder result" where
  "add_symbol s c b =
     rbind (assert_that (s < max_symbol)) (\<lambda>_.
     Inr (b\<lparr>symbol_counts := (symbol_counts b)[s := symbol_counts b ! s + c]\<rparr>))"

record hnode =
  nd_symbol :: nat
  nd_count :: u32
  nd_bits :: nat
  nd_children :: "(nat \<times> nat) option"

definition leaf_node :: "nat \<Rightarrow> u32 \<Rightarrow> hnode" where
  "leaf_node s c = \<lparr>nd_symbol = s, nd_count = c, nd_bits = 0, nd_children = None\<rparr>"

definition inner_node :: "hnode list \<Rightarrow> nat \<Rightarrow> nat \<Rightarrow> nat \<Rightarrow> hnode" where
  "inner_node ns l r number =
     \<lparr>nd_symbol = max_symbol + number, nd_count = nd_count (ns ! l) + nd_count (ns ! r),
      nd_bits = 0, nd_children = Some (l, r)\<rparr>"

definition node_key :: "hnode list \<Rightarrow> nat \<Rightarrow> node_key" where
  "node_key ns i = Node_Key (nd_count (ns ! i)) (nd_symbol (ns ! i))"

fun heap_top :: "hnode list \<Rightarrow> nat \<Rightarrow> nat list \<Rightarrow> nat" where
  "heap_top ns i [] = i"
| "heap_top ns i (j # js) = heap_top ns (if node_key ns i < node_key ns j then j else i) js"

definition pop_top :: "hnode list \<Rightarrow> nat list \<Rightarrow> nat \<times> nat list" where
  "pop_top ns heap = (let t = heap_top ns (hd heap) (tl heap) in (t, remove1 t heap))"

lemma heap_top_in: "heap_top ns i js \<in> set (i # js)"
proof (induction ns i js rule: heap_top.induct)
  case (2 ns i j js)
  then show ?case by (auto split: if_splits)
qed simp

lemma pop_top_in: "heap \<noteq> [] \<Longrightarrow> fst (pop_top ns heap) \<in> set heap"
  using heap_top_in [of ns "hd heap" "tl heap"] by (simp add: pop_top_def Let_def)

lemma length_pop_top: "heap \<noteq> [] \<Longrightarrow> length (snd (pop_top ns heap)) = length heap - 1"
  using pop_top_in [of heap ns] by (simp add: pop_top_def Let_def length_remove1)

text \<open>\<open>while (heap.size() > 1)\<close>: combine the two nodes at the top into a new one.\<close>

function huffman_combine :: "hnode list \<Rightarrow> nat list \<Rightarrow> hnode list \<times> nat list" where
  "huffman_combine ns heap =
     (if 1 < length heap then
        let (l, heap1) = pop_top ns heap;
            (r, heap2) = pop_top ns heap1
        in huffman_combine (ns @ [inner_node ns l r (length ns)]) (heap2 @ [length ns])
      else (ns, heap))"
  by pat_completeness auto
termination
proof (relation "measure (\<lambda>(ns, heap). length heap)", simp, clarsimp)
  fix ns :: "hnode list" and heap l heap1 r heap2
  assume "Suc 0 < length heap" "(l, heap1) = pop_top ns heap" "(r, heap2) = pop_top ns heap1"
  moreover from this have "heap \<noteq> []" by auto
  ultimately have 1: "length heap1 = length heap - 1" "1 < length heap"
    using length_pop_top [of heap ns] by (auto dest: arg_cong [of _ _ snd])
  then have "heap1 \<noteq> []" by auto
  with \<open>(r, heap2) = pop_top ns heap1\<close> have "length heap2 = length heap1 - 1"
    using length_pop_top [of heap1 ns] by (metis snd_conv)
  with 1 show "Suc (length heap2) < length heap" by linarith
qed

declare huffman_combine.simps [simp del]

text \<open>The walk from the root, the last node, down: children are one bit longer than their parent.\<close>

definition fill_bits_step :: "nat \<Rightarrow> hnode list \<Rightarrow> hnode list" where
  "fill_bits_step i ns =
     (case nd_children (ns ! i) of
        Some (l, r) \<Rightarrow>
          if max_symbol \<le> nd_symbol (ns ! i) then
            let ns1 = ns[l := (ns ! l)\<lparr>nd_bits := nd_bits (ns ! i) + 1\<rparr>]
            in ns1[r := (ns1 ! r)\<lparr>nd_bits := nd_bits (ns1 ! i) + 1\<rparr>]
          else ns
      | None \<Rightarrow> ns)"

definition fill_bits :: "hnode list \<Rightarrow> hnode list" where
  "fill_bits ns = fold fill_bits_step (rev [0..<length ns]) ns"

record hcode =
  hc_symbol :: nat
  hc_bits :: nat
  hc_value :: nat

definition code_of_node :: "hnode \<Rightarrow> hcode" where
  "code_of_node n = \<lparr>hc_symbol = nd_symbol n, hc_bits = nd_bits n, hc_value = 0\<rparr>"

definition sort_leaves :: "hnode list \<Rightarrow> hnode list" where
  "sort_leaves ns = sort_key (\<lambda>n. Code_Key (nd_bits n) (nd_symbol n)) ns"

text \<open>The numbering loop runs over the codes backwards; \<open>assign_values\<close> takes them in that order.\<close>

fun assign_values :: "nat \<Rightarrow> nat \<Rightarrow> hcode list \<Rightarrow> hcode list" where
  "assign_values current_length current_value [] = []"
| "assign_values current_length current_value (c # cs) =
     (if hc_bits c < current_length then
        let v = current_value div 2 ^ (current_length - hc_bits c)
        in c\<lparr>hc_value := v\<rparr> # assign_values (hc_bits c) (v + 1) cs
      else c\<lparr>hc_value := current_value\<rparr> # assign_values current_length (current_value + 1) cs)"

definition leaf_nodes :: "huffman_builder \<Rightarrow> hnode list" where
  "leaf_nodes b =
     map (\<lambda>s. leaf_node s (symbol_counts b ! s)) (filter (\<lambda>s. symbol_counts b ! s \<noteq> 0) [0..<max_symbol])"

definition builder_finish :: "huffman_builder \<Rightarrow> hcode list result" where
  "builder_finish b =
     (let leaves = leaf_nodes b; num_symbols = length leaves in
      if leaves = [] then Inr []
      else
        let (nodes, heap) = huffman_combine leaves [0..<num_symbols] in
        rbind (assert_that (fst (pop_top nodes heap) = length nodes - 1)) (\<lambda>_.
        let codes = map code_of_node (sort_leaves (take num_symbols (fill_bits nodes)))
        in Inr (rev (assign_values (hc_bits (last codes)) 0 (rev codes)))))"

text \<open>The fields \<open>write_codes\<close> writes, in order.\<close>

definition code_lengths :: "hcode list \<Rightarrow> nat list" where
  "code_lengths codes = fold (\<lambda>c ls. ls[hc_symbol c := hc_bits c]) codes (replicate max_symbol 0)"

definition code_listing :: "hcode list \<Rightarrow> nat \<Rightarrow> nat \<Rightarrow> (nat \<times> u32) list" where
  "code_listing codes length_bits min_len =
     (if 31 < length codes then
        (1, 1) #
        concat (map (\<lambda>s. if code_lengths codes ! s \<noteq> 0
                         then [(1, 1), (length_bits, word_of_nat (code_lengths codes ! s - min_len))]
                         else [(1, 0)]) [0..<max_symbol])
      else
        [(1, 0), (5, word_of_nat (length codes))] @
        concat (map (\<lambda>c. [(8, word_of_nat (hc_symbol c)),
                          (length_bits, word_of_nat (hc_bits c - min_len))]) codes))"

definition code_fields :: "hcode list \<Rightarrow> (nat \<times> u32) list result" where
  "code_fields codes =
     (if codes = [] then Inr [(5, 31), (5, 31)]
      else if length codes = 1 then Inr [(5, 0), (5, 0), (8, word_of_nat (hc_symbol (hd codes)))]
      else
        let min_len = hc_bits (hd codes); max_len = hc_bits (last codes) in
        rbind (if min_len \<le> max_len then bit_width (max_len - min_len) else Inl CheckFailed) (\<lambda>length_bits.
        Inr ([(5, word_of_nat min_len), (5, word_of_nat max_len)] @ code_listing codes length_bits min_len)))"

definition write_codes :: "hcode list \<Rightarrow> packer \<Rightarrow> packer result" where
  "write_codes codes p = rbind (code_fields codes) (\<lambda>fs. write_fields packer_u fs p)"

fun write_symbol :: "hcode list \<Rightarrow> packer \<Rightarrow> nat \<Rightarrow> packer result" where
  "write_symbol [] p s = Inl FatalRaised"
| "write_symbol (c # cs) p s =
     (if hc_symbol c = s then packer_u p (hc_bits c) (word_of_nat (hc_value c)) else write_symbol cs p s)"

section \<open>The tree fills the unit interval\<close>

definition node_weight :: "hnode list \<Rightarrow> nat \<Rightarrow> real" where
  "node_weight ns i = (1/2) ^ nd_bits (ns ! i)"

definition walk_from :: "nat \<Rightarrow> hnode list \<Rightarrow> hnode list" where
  "walk_from k ns = fold fill_bits_step (rev [k..<length ns]) ns"

text \<open>What the walk leaves alone.\<close>

definition same_shape :: "hnode list \<Rightarrow> hnode list \<Rightarrow> bool" where
  "same_shape ns ms \<longleftrightarrow> length ns = length ms \<and>
     (\<forall>i < length ns. nd_symbol (ns ! i) = nd_symbol (ms ! i) \<and> nd_count (ns ! i) = nd_count (ms ! i) \<and>
        nd_children (ns ! i) = nd_children (ms ! i))"

lemma same_shape_refl [simp]: "same_shape ns ns"
  by (simp add: same_shape_def)

lemma same_shape_trans: "same_shape a b \<Longrightarrow> same_shape b c \<Longrightarrow> same_shape a c"
  by (simp add: same_shape_def)

lemma same_shape_update:
  "same_shape (ns[j := (ns ! j)\<lparr>nd_bits := b\<rparr>]) ns"
  by (auto simp: same_shape_def nth_list_update_if)

lemma same_shape_step: "same_shape (fill_bits_step i ns) ns"
  by (auto simp: fill_bits_step_def Let_def split: option.splits
      intro: same_shape_update same_shape_trans)

lemma same_shape_walk: "same_shape (walk_from k ns) ns"
proof -
  have "same_shape (fold fill_bits_step is ns) ns" for "is" ns
    by (induction "is" arbitrary: ns) (auto intro: same_shape_step same_shape_trans)
  then show ?thesis by (simp add: walk_from_def)
qed

lemma same_shapeD:
  assumes "same_shape ms ns"
  shows "length ms = length ns"
    and "i < length ns \<Longrightarrow> nd_symbol (ms ! i) = nd_symbol (ns ! i)"
    and "i < length ns \<Longrightarrow> nd_children (ms ! i) = nd_children (ns ! i)"
  using assms by (auto simp: same_shape_def)

lemma walk_from_Suc:
  assumes "k < length ns"
  shows "walk_from k ns = fill_bits_step k (walk_from (Suc k) ns)"
  using assms by (simp add: walk_from_def upt_conv_Cons del: upt_Suc)

lemma walk_from_end [simp]: "length ns \<le> k \<Longrightarrow> walk_from k ns = ns"
  by (simp add: walk_from_def)

lemma huffman_combine_extends:
  "\<exists>more. fst (huffman_combine ns heap) = ns @ more"
proof (induction ns heap rule: huffman_combine.induct)
  case (1 ns heap)
  show ?case
  proof (cases "1 < length heap")
    case False
    then show ?thesis by (subst huffman_combine.simps) simp
  next
    case True
    obtain l heap1 r heap2 where p: "(l, heap1) = pop_top ns heap" "(r, heap2) = pop_top ns heap1"
      by (metis surj_pair)
    from "1.IH" [OF True p(1) _ p(2)] True p [symmetric] show ?thesis
      by (subst huffman_combine.simps) auto
  qed
qed

text \<open>
  The invariant of the combining loop: the queue holds distinct, so far parentless nodes of the
  vector. Running the walk back over the nodes a run of the loop adds restores, for the queue it
  started from, what it established for the queue it ended with: the weights sum to one.
\<close>

definition heap_ok :: "hnode list \<Rightarrow> nat list \<Rightarrow> bool" where
  "heap_ok ns heap \<longleftrightarrow> heap \<noteq> [] \<and> distinct heap \<and> set heap \<subseteq> {..<length ns}"

lemma pop_two:
  assumes ok: "heap_ok ns heap" and long: "1 < length heap"
    and l: "pop_top ns heap = (l, heap1)" and r: "pop_top ns heap1 = (r, heap2)"
  shows "mset heap = {#l, r#} + mset heap2" and "distinct (l # r # heap2)"
    and "l < length ns" and "r < length ns" and "set heap2 \<subseteq> {..<length ns}"
    and "heap_ok (ns @ [inner_node ns l r (length ns)]) (heap2 @ [length ns])"
proof -
  have "heap \<noteq> []" using long by auto
  with length_pop_top [of heap ns] long l have "heap1 \<noteq> []" by auto
  then have "l \<in> set heap" "heap1 = remove1 l heap" "r \<in> set heap1" "heap2 = remove1 r heap1"
    using pop_top_in [of heap ns] pop_top_in [of heap1 ns] ok l r
    by (auto simp: heap_ok_def pop_top_def Let_def)
  then have "mset heap = add_mset l (mset heap1)" "mset heap1 = add_mset r (mset heap2)"
    by (metis insert_DiffM mset_remove1 set_mset_mset)+
  then show m: "mset heap = {#l, r#} + mset heap2" by simp
  have "distinct heap" using ok by (simp add: heap_ok_def)
  have "mset (l # r # heap2) = mset heap" using m by simp
  then show d: "distinct (l # r # heap2)" using \<open>distinct heap\<close> mset_eq_imp_distinct_iff by blast
  have "set (l # r # heap2) = set heap" using \<open>mset (l # r # heap2) = mset heap\<close> mset_eq_setD by blast
  with ok show "l < length ns" "r < length ns" and s: "set heap2 \<subseteq> {..<length ns}"
    by (auto simp: heap_ok_def)
  with d show "heap_ok (ns @ [inner_node ns l r (length ns)]) (heap2 @ [length ns])"
    by (auto simp: heap_ok_def)
qed

lemma fill_bits_step_weights:
  assumes child: "nd_children (ns ! n) = Some (l, r)" and sym: "max_symbol \<le> nd_symbol (ns ! n)"
    and lt: "l < n" "r < n" "n < length ns" "l \<noteq> r"
  shows "node_weight (fill_bits_step n ns) l + node_weight (fill_bits_step n ns) r = node_weight ns n"
    and "i \<noteq> l \<Longrightarrow> i \<noteq> r \<Longrightarrow> node_weight (fill_bits_step n ns) i = node_weight ns i"
  using assms by (auto simp: fill_bits_step_def node_weight_def Let_def nth_list_update_if)

lemma combine_weights:
  assumes "heap_ok ns heap" and "\<forall>i < length ns. nd_bits (ns ! i) = 0"
  shows "(\<Sum>i \<leftarrow> heap. node_weight (walk_from (length ns) (fst (huffman_combine ns heap))) i) = 1"
  using assms
proof (induction ns heap rule: huffman_combine.induct)
  case (1 ns heap)
  show ?case
  proof (cases "1 < length heap")
    case False
    with "1.prems"(1) obtain t where "heap = [t]" "t < length ns"
      by (cases heap) (auto simp: heap_ok_def)
    then show ?thesis using "1.prems"(2)
      by (subst huffman_combine.simps) (simp add: node_weight_def)
  next
    case True
    obtain l heap1 r heap2 where p: "pop_top ns heap = (l, heap1)" "pop_top ns heap1 = (r, heap2)"
      by (metis surj_pair)
    note two = pop_two [OF "1.prems"(1) True p]
    define n where "n = length ns"
    define ns1 where "ns1 = ns @ [inner_node ns l r n]"
    define final where "final = fst (huffman_combine ns1 (heap2 @ [n]))"
    have final: "fst (huffman_combine ns heap) = final"
      using True p by (subst huffman_combine.simps) (simp add: final_def ns1_def n_def)
    have IH: "(\<Sum>i \<leftarrow> heap2 @ [n]. node_weight (walk_from (Suc n) final) i) = 1"
      using "1.IH" [OF True p(1) [symmetric] _ p(2) [symmetric]] two(6) "1.prems"(2)
      by (simp add: final_def ns1_def n_def nth_append inner_node_def)
    obtain more where "final = ns1 @ more" using huffman_combine_extends by (metis final_def)
    then have len: "n < length final" and new: "final ! n = inner_node ns l r n"
      by (simp_all add: ns1_def n_def nth_append)
    let ?w = "walk_from (Suc n) final"
    note sh = same_shapeD [OF same_shape_walk [of "Suc n" final]]
    have lr: "l < n" "r < n" "l \<noteq> r" "n < length ?w"
      using two len sh(1) by (auto simp: n_def)
    have node: "nd_children (?w ! n) = Some (l, r)" "max_symbol \<le> nd_symbol (?w ! n)"
      using sh(2,3) [OF len] new by (simp_all add: inner_node_def)
    note step = fill_bits_step_weights [OF node lr(1,2,4,3)]
    have eq: "walk_from n final = fill_bits_step n ?w" by (rule walk_from_Suc [OF len])
    have "(\<Sum>i \<leftarrow> heap. node_weight (walk_from n final) i) =
        (\<Sum>i \<in># mset heap. node_weight (walk_from n final) i)"
      by (simp flip: sum_mset_sum_list)
    also have "\<dots> = node_weight (walk_from n final) l + node_weight (walk_from n final) r
        + (\<Sum>i \<leftarrow> heap2. node_weight (walk_from n final) i)"
      unfolding two(1) by (simp flip: sum_mset_sum_list)
    also have "\<dots> = node_weight ?w n + (\<Sum>i \<leftarrow> heap2. node_weight ?w i)"
    proof -
      have "(\<Sum>i \<leftarrow> heap2. node_weight (fill_bits_step n ?w) i) = (\<Sum>i \<leftarrow> heap2. node_weight ?w i)"
        using two(2) by (intro arg_cong [of _ _ sum_list] map_cong step(2)) auto
      with step(1) show ?thesis by (simp only: eq)
    qed
    also have "\<dots> = 1" using IH by simp
    finally show ?thesis by (simp only: final n_def)
  qed
qed

text \<open>The queue ends with one node, the last of the vector: the assertion of \<open>finish\<close> holds.\<close>

lemma combine_root:
  assumes "heap_ok ns heap" and "last heap = length ns - 1"
  shows "snd (huffman_combine ns heap) = [length (fst (huffman_combine ns heap)) - 1]"
  using assms
proof (induction ns heap rule: huffman_combine.induct)
  case (1 ns heap)
  show ?case
  proof (cases "1 < length heap")
    case False
    with "1.prems" show ?thesis
      by (subst (1 2) huffman_combine.simps) (cases heap, auto simp: heap_ok_def)
  next
    case True
    obtain l heap1 r heap2 where p: "pop_top ns heap = (l, heap1)" "pop_top ns heap1 = (r, heap2)"
      by (metis surj_pair)
    have "snd (huffman_combine (ns @ [inner_node ns l r (length ns)]) (heap2 @ [length ns])) =
      [length (fst (huffman_combine (ns @ [inner_node ns l r (length ns)]) (heap2 @ [length ns]))) - 1]"
      using "1.IH" [OF True p(1) [symmetric] _ p(2) [symmetric]] pop_two(6) [OF "1.prems"(1) True p]
      by simp
    then show ?thesis using True p
      by (subst (1 2) huffman_combine.simps) simp
  qed
qed

section \<open>The table of codes\<close>

lemma assign_values_number:
  "map (\<lambda>c. (hc_bits c, hc_value c)) (assign_values len v cs) =
     zip (map hc_bits cs) (number_codes len v (map hc_bits cs))"
  by (induction len v cs rule: assign_values.induct) (auto simp: Let_def)

lemma assign_values_keys:
  "map (\<lambda>c. (hc_symbol c, hc_bits c)) (assign_values len v cs) = map (\<lambda>c. (hc_symbol c, hc_bits c)) cs"
  by (induction len v cs rule: assign_values.induct) (auto simp: Let_def)

lemma kraft_real:
  assumes "\<forall>l \<in> set ls. l \<le> M"
  shows "real (kraft M ls) = 2 ^ M * (\<Sum>l \<leftarrow> ls. (1/2) ^ l)"
  using assms
proof (induction ls)
  case Nil
  then show ?case by simp
next
  case (Cons l ls)
  then have "(2::real) ^ M = 2 ^ (M - l) * 2 ^ l" by (simp flip: power_add)
  then have "(2::real) ^ (M - l) = 2 ^ M * (1/2) ^ l" by (simp add: power_one_over)
  with Cons show ?case by (simp add: algebra_simps)
qed

lemma kraft_one:
  "\<forall>l \<in> set ls. l \<le> M \<Longrightarrow> (\<Sum>l \<leftarrow> ls. (1/2 :: real) ^ l) = 1 \<Longrightarrow> kraft M ls = 2 ^ M"
  using kraft_real [of ls M] by (metis mult.right_neutral of_nat_eq_iff of_nat_numeral of_nat_power)

lemma sorted_le_last: "sorted xs \<Longrightarrow> x \<in> set xs \<Longrightarrow> x \<le> last xs"
  by (induction xs) auto

definition code_key :: "hcode \<Rightarrow> code_key" where
  "code_key c = Code_Key (hc_bits c) (hc_symbol c)"

definition code_intervals :: "hcode list \<Rightarrow> (nat \<times> nat) list" where
  "code_intervals codes = map (\<lambda>c. (hc_bits c, hc_value c)) codes"

text \<open>What the encoder relies on once a table is finished.\<close>

definition code_table :: "hcode list \<Rightarrow> bool" where
  "code_table codes \<longleftrightarrow> codes \<noteq> [] \<and> distinct (map hc_symbol codes) \<and>
     (\<forall>c \<in> set codes. hc_symbol c < max_symbol) \<and> sorted (map code_key codes) \<and>
     canonical (hc_bits (last codes)) 0 (rev (code_intervals codes))"

lemma code_table_finish:
  assumes ne: "base \<noteq> []" and dist: "distinct (map hc_symbol base)"
    and sym: "\<forall>c \<in> set base. hc_symbol c < max_symbol" and sort: "sorted (map code_key base)"
    and one: "(\<Sum>c \<leftarrow> base. (1/2 :: real) ^ hc_bits c) = 1"
  shows "code_table (rev (assign_values (hc_bits (last base)) 0 (rev base)))" (is "code_table ?codes")
    and "map hc_symbol (rev (assign_values (hc_bits (last base)) 0 (rev base))) = map hc_symbol base"
proof -
  let ?M = "hc_bits (last base)"
  have keys: "map (\<lambda>c. (hc_symbol c, hc_bits c)) ?codes = map (\<lambda>c. (hc_symbol c, hc_bits c)) base"
    by (simp add: assign_values_keys flip: rev_map)
  show syms: "map hc_symbol ?codes = map hc_symbol base"
    using arg_cong [OF keys, of "map fst"] by (simp add: o_def)
  have bits: "map hc_bits ?codes = map hc_bits base"
    using arg_cong [OF keys, of "map snd"] by (simp add: o_def)
  have ck: "map code_key ?codes = map code_key base"
    using arg_cong [OF keys, of "map (\<lambda>(s, b). Code_Key b s)"] by (simp add: o_def code_key_def [abs_def])
  have len: "length ?codes = length base" using arg_cong [OF bits, of length] by simp
  then have ne': "?codes \<noteq> []" using ne by auto
  have lastM: "hc_bits (last ?codes) = ?M"
    using arg_cong [OF bits, of last] ne ne' by (simp add: last_map)
  have le: "\<forall>l \<in> set (map hc_bits (rev base)). l \<le> ?M"
  proof
    fix l assume "l \<in> set (map hc_bits (rev base))"
    then obtain c where c: "c \<in> set base" "l = hc_bits c" by auto
    have "code_key c \<le> last (map code_key base)"
      using c ne sort by (metis imageI list.set_map sorted_le_last)
    then show "l \<le> ?M" using code_key_le_bits [of "code_key c" "code_key (last base)"] c ne
      by (simp add: code_key_def last_map)
  qed
  have desc: "sorted_wrt (\<ge>) (map hc_bits (rev base))"
  proof -
    have "sorted_wrt (\<lambda>a b. hc_bits a \<le> hc_bits b) base"
      using sort unfolding sorted_wrt_map
      by (rule sorted_wrt_mono_rel [rotated]) (auto simp: code_key_def dest: code_key_le_bits)
    then show ?thesis by (simp add: sorted_wrt_map sorted_wrt_rev)
  qed
  have "(\<Sum>l \<leftarrow> map hc_bits (rev base). (1/2 :: real) ^ l) = 1"
    using one sum_list_rev [of "map (\<lambda>c. (1/2 :: real) ^ hc_bits c) base"]
    by (simp add: o_def rev_map)
  then have "kraft ?M (map hc_bits (rev base)) = 2 ^ ?M" by (rule kraft_one [OF le])
  from number_codes_canonical [of 0 ?M ?M, OF _ _ desc le] this
  have "canonical ?M 0 (map (\<lambda>c. (hc_bits c, hc_value c)) (assign_values ?M 0 (rev base)))"
    by (simp add: assign_values_number)
  then have can: "canonical (hc_bits (last ?codes)) 0 (rev (code_intervals ?codes))"
    by (simp only: lastM code_intervals_def rev_map rev_rev_ident)
  have "hc_symbol ` set ?codes = hc_symbol ` set base"
    using arg_cong [OF syms, of set] by (simp only: set_map)
  then have bound: "\<forall>c \<in> set ?codes. hc_symbol c < max_symbol"
    using sym by (metis imageE imageI)
  show "code_table ?codes"
    unfolding code_table_def syms ck using ne' dist bound sort can by (intro conjI)
qed

text \<open>The leaves after the walk: their symbols are those counted, their weights sum to one.\<close>

definition counted :: "huffman_builder \<Rightarrow> nat list" where
  "counted b = filter (\<lambda>s. symbol_counts b ! s \<noteq> 0) [0..<max_symbol]"

lemma fill_bits_leaves:
  assumes ne: "leaf_nodes b \<noteq> []"
  defines "n \<equiv> length (leaf_nodes b)"
  defines "nodes \<equiv> fst (huffman_combine (leaf_nodes b) [0..<n])"
  shows "map nd_symbol (take n (fill_bits nodes)) = counted b"
    and "(\<Sum>x \<leftarrow> take n (fill_bits nodes). (1/2 :: real) ^ nd_bits x) = 1"
    and "snd (huffman_combine (leaf_nodes b) [0..<n]) = [length nodes - 1]"
    and "fill_bits nodes = walk_from n nodes"
proof -
  let ?leaves = "leaf_nodes b"
  have lf: "i < n \<Longrightarrow> ?leaves ! i = leaf_node (counted b ! i) (symbol_counts b ! (counted b ! i))"
    "n = length (counted b)" for i
    by (simp_all add: n_def leaf_nodes_def counted_def)
  have ok: "heap_ok ?leaves [0..<n]" using ne by (auto simp: heap_ok_def n_def)
  have "last [0..<n] = n - 1" using ne by (simp add: n_def)
  then show "snd (huffman_combine ?leaves [0..<n]) = [length nodes - 1]"
    unfolding nodes_def n_def by (intro combine_root ok [unfolded n_def]) simp
  obtain more where more: "nodes = ?leaves @ more" using huffman_combine_extends by (metis nodes_def)
  let ?w = "walk_from n nodes"
  note sh = same_shapeD [OF same_shape_walk]
  have sym: "nd_symbol (walk_from k nodes ! i) = counted b ! i" if "i < n" for i k
    using that lf(1) [of i] sh(2) [of i nodes k] by (simp add: more nth_append n_def leaf_node_def)
  have small: "counted b ! i < max_symbol" if "i < n" for i
    using that lf(2) nth_mem [of i "counted b"] by (auto simp: counted_def)
  have same: "walk_from k nodes = ?w" if "k \<le> n" for k
    using that
  proof (induction rule: inc_induct)
    case (step k)
    then have "nd_symbol (?w ! k) < max_symbol" using sym [of k n] small [of k] by metis
    then have "fill_bits_step k ?w = ?w" by (simp add: fill_bits_step_def split: option.split)
    moreover have "walk_from k nodes = fill_bits_step k (walk_from (Suc k) nodes)"
      using step(2) by (intro walk_from_Suc) (simp add: more n_def)
    ultimately show ?case using step(3) by metis
  qed simp
  have "fill_bits nodes = walk_from 0 nodes" by (simp only: fill_bits_def walk_from_def)
  also have "\<dots> = ?w" by (rule same) simp
  finally show fill: "fill_bits nodes = ?w" .
  have len: "n \<le> length ?w" using sh(1) [of n nodes] by (simp add: more n_def)
  show "map nd_symbol (take n (fill_bits nodes)) = counted b"
    using len sym lf(2) by (intro nth_equalityI) (simp_all add: fill)
  have "\<forall>i < length ?leaves. nd_bits (?leaves ! i) = 0"
    using lf(1) by (simp add: n_def leaf_node_def)
  from combine_weights [OF ok this]
  have "(\<Sum>i \<leftarrow> [0..<n]. node_weight ?w i) = 1" by (simp add: nodes_def n_def)
  moreover have "map (node_weight ?w) [0..<n] = map (\<lambda>x. (1/2) ^ nd_bits x) (take n ?w)"
    using len by (intro nth_equalityI) (simp_all add: node_weight_def)
  ultimately show "(\<Sum>x \<leftarrow> take n (fill_bits nodes). (1/2 :: real) ^ nd_bits x) = 1"
    by (simp add: fill)
qed

lemma builder_finish_spec:
  obtains codes where "builder_finish b = Inr codes"
    and "set (map hc_symbol codes) = set (counted b)"
    and "codes \<noteq> [] \<Longrightarrow> code_table codes"
proof (cases "leaf_nodes b = []")
  case True
  then have "counted b = []" by (simp add: leaf_nodes_def counted_def)
  with True that [of "[]"] show ?thesis by (simp add: builder_finish_def)
next
  case False
  define n where "n = length (leaf_nodes b)"
  define nodes where "nodes = fst (huffman_combine (leaf_nodes b) [0..<n])"
  define leaves where "leaves = take n (fill_bits nodes)"
  define base where "base = map code_of_node (sort_leaves leaves)"
  define codes where "codes = rev (assign_values (hc_bits (last base)) 0 (rev base))"
  note fill = fill_bits_leaves [OF False, folded n_def, folded nodes_def, folded leaves_def]
  have syms: "map hc_symbol base = map nd_symbol (sort_leaves leaves)"
    by (simp add: base_def code_of_node_def)
  have mset: "mset (map nd_symbol (sort_leaves leaves)) = mset (counted b)"
    using fill(1) [symmetric] by (simp add: sort_leaves_def)
  have dist: "distinct (map hc_symbol base)"
    using mset syms by (metis counted_def distinct_filter distinct_upt mset_eq_imp_distinct_iff)
  have set: "set (map hc_symbol base) = set (counted b)" using mset syms by (metis mset_eq_setD)
  have sorted: "sorted (map code_key base)"
    by (simp add: base_def sort_leaves_def code_key_def code_of_node_def o_def)
  have "(\<Sum>c \<leftarrow> base. (1/2 :: real) ^ hc_bits c) = (\<Sum>x \<leftarrow> leaves. (1/2) ^ nd_bits x)"
  proof -
    have "mset (map (\<lambda>x. (1/2 :: real) ^ nd_bits x) (sort_leaves leaves)) = mset (map (\<lambda>x. (1/2) ^ nd_bits x) leaves)"
      by (simp add: sort_leaves_def)
    then have "(\<Sum>x \<leftarrow> sort_leaves leaves. (1/2 :: real) ^ nd_bits x) = (\<Sum>x \<leftarrow> leaves. (1/2) ^ nd_bits x)"
      by (metis sum_mset_sum_list)
    then show ?thesis by (simp only: base_def code_of_node_def map_map o_def hcode.select_convs)
  qed
  then have one: "(\<Sum>c \<leftarrow> base. (1/2 :: real) ^ hc_bits c) = 1" using fill(2) by simp
  then have ne: "base \<noteq> []" by auto
  have sym: "\<forall>c \<in> set base. hc_symbol c < max_symbol"
    using set by (auto simp: counted_def)
  note table = code_table_finish [OF ne dist sym sorted one, folded codes_def]
  have "builder_finish b = Inr codes"
    using False fill(3)
    by (simp add: builder_finish_def Let_def pop_top_def split_beta flip: n_def nodes_def leaves_def base_def)
       (simp add: base_def codes_def leaves_def nodes_def n_def)
  with that table set show ?thesis by metis
qed

end
