(* ===== verification/HuffmanDepth.thy ===== *)
theory HuffmanDepth
  imports HuffmanEncoder
begin

text \<open>
  How long the codes of encoder/src/HuffmanEncoder.cpp can get. The coded lengths have five bits
  and the bit packer takes fields below 31 bits, but nothing in the encoder limits the depth of
  the tree. A tree of depth \<open>d\<close> needs symbol counts that add up to a Fibonacci number, so a table
  of fewer than 3,524,578 symbols has codes of at most 30 bits.
\<close>

fun fib :: "nat \<Rightarrow> nat" where
  "fib 0 = 0"
| "fib (Suc 0) = 1"
| "fib (Suc (Suc n)) = fib (Suc n) + fib n"

lemma fib_Suc_mono: "fib n \<le> fib (Suc n)"
  by (induction n rule: fib.induct) simp_all

lemma fib_mono: "m \<le> n \<Longrightarrow> fib m \<le> fib n"
  using lift_Suc_mono_le [of fib m n] fib_Suc_mono by blast

section \<open>The nodes popped have the smallest counts\<close>

lemma heap_top_greatest: "j \<in> set (i # js) \<Longrightarrow> node_key ns j \<le> node_key ns (heap_top ns i js)"
proof (induction ns i js arbitrary: j rule: heap_top.induct)
  case (2 ns i k js)
  let ?i = "if node_key ns i < node_key ns k then k else i"
  have "node_key ns i \<le> node_key ns ?i" "node_key ns k \<le> node_key ns ?i" by auto
  moreover have "node_key ns ?i \<le> node_key ns (heap_top ns ?i js)" by (rule "2.IH") simp
  moreover have "j \<in> set js \<Longrightarrow> node_key ns j \<le> node_key ns (heap_top ns ?i js)" by (rule "2.IH") simp
  ultimately show ?case using "2.prems" by (auto intro: order_trans simp del: if_split)
qed simp

lemma node_key_count: "node_key ns j \<le> node_key ns i \<Longrightarrow> nd_count (ns ! i) \<le> nd_count (ns ! j)"
  by (auto simp: node_key_def less_eq_node_key_def less_node_key_def split: if_splits)

lemma pop_top_least:
  assumes "pop_top ns heap = (t, rest)" and "j \<in> set heap"
  shows "nd_count (ns ! t) \<le> nd_count (ns ! j)"
proof -
  have "t = heap_top ns (hd heap) (tl heap)" using assms(1) by (simp add: pop_top_def Let_def)
  moreover have "j \<in> set (hd heap # tl heap)" using assms(2) by (cases heap) auto
  ultimately show ?thesis using heap_top_greatest [of j "hd heap" "tl heap" ns] by (simp add: node_key_count)
qed

section \<open>Depth and weight\<close>

definition weight :: "hnode list \<Rightarrow> nat \<Rightarrow> nat" where
  "weight ns i = unat (nd_count (ns ! i))"

lemma inner_weight:
  assumes "weight ns l + weight ns r < 2 ^ 32"
  shows "weight (ns @ [inner_node ns l r (length ns)]) (length ns) = weight ns l + weight ns r"
  using assms by (simp add: weight_def inner_node_def nth_append unat_word_ariths)

lemma fill_bits_step_bits:
  assumes "nd_children (ns ! n) = Some (l, r)" and "max_symbol \<le> nd_symbol (ns ! n)"
    and "l < n" "r < n" "n < length ns" "l \<noteq> r"
  shows "nd_bits (fill_bits_step n ns ! l) = nd_bits (ns ! n) + 1"
    and "nd_bits (fill_bits_step n ns ! r) = nd_bits (ns ! n) + 1"
    and "i \<noteq> l \<Longrightarrow> i \<noteq> r \<Longrightarrow> nd_bits (fill_bits_step n ns ! i) = nd_bits (ns ! i)"
  using assms by (auto simp: fill_bits_step_def Let_def nth_list_update_if)

text \<open>
  Run backwards over the combining loop: a node of the queue that ends at depth \<open>d\<close>, weighs a
  Fibonacci number and shares the queue with nodes that weigh at least the one before, needs a
  total weight \<open>d\<close> numbers further on.
\<close>

lemma combine_depth:
  assumes "heap_ok ns heap" and "\<forall>i < length ns. nd_bits (ns ! i) = 0"
    and "(\<Sum>i \<leftarrow> heap. weight ns i) < 2 ^ 32"
    and "i \<in> set heap" and "fib (j + 2) \<le> weight ns i" and "\<forall>k \<in> set heap. fib (j + 1) \<le> weight ns k"
    and "d = nd_bits (walk_from (length ns) (fst (huffman_combine ns heap)) ! i)"
  shows "fib (j + 2 + d) \<le> (\<Sum>i \<leftarrow> heap. weight ns i)"
  using assms
proof (induction ns heap arbitrary: i j d rule: huffman_combine.induct)
  case (1 ns heap)
  show ?case
  proof (cases "1 < length heap")
    case False
    with "1.prems"(1,4) have t: "heap = [i]" "i < length ns" by (cases heap; auto simp: heap_ok_def)+
    then have "d = 0" using "1.prems"(2,7) by (subst (asm) huffman_combine.simps) simp
    with t "1.prems"(5) show ?thesis by simp
  next
    case True
    obtain l heap1 r heap2 where p: "pop_top ns heap = (l, heap1)" "pop_top ns heap1 = (r, heap2)"
      by (metis surj_pair)
    note two = pop_two [OF "1.prems"(1) True p]
    define n where "n = length ns"
    define ns1 where "ns1 = ns @ [inner_node ns l r n]"
    define final where "final = fst (huffman_combine ns1 (heap2 @ [n]))"
    have final: "fst (huffman_combine ns heap) = final"
      using True p by (subst huffman_combine.simps) (simp add: final_def ns1_def n_def)
    have heap: "set heap = {l, r} \<union> set heap2"
      using arg_cong [OF two(1), of set_mset] by simp
    have heap1: "set heap1 = {r} \<union> set heap2"
    proof -
      have "mset heap1 = mset heap - {#l#}" using p(1) by (auto simp: pop_top_def Let_def)
      then have "mset heap1 = add_mset r (mset heap2)" using two(1) by simp
      from arg_cong [OF this, of set_mset] show ?thesis by simp
    qed
    have sum: "(\<Sum>i \<leftarrow> heap. weight ns i) = weight ns l + weight ns r + (\<Sum>i \<leftarrow> heap2. weight ns i)"
    proof -
      have "(\<Sum>i \<leftarrow> heap. weight ns i) = (\<Sum>i \<in># mset heap. weight ns i)" by (simp flip: sum_mset_sum_list)
      then show ?thesis unfolding two(1) by (simp flip: sum_mset_sum_list)
    qed
    have W: "k \<in> set heap2 \<Longrightarrow> weight ns1 k = weight ns k" for k
      using two(5) by (auto simp: weight_def ns1_def nth_append n_def)
    have Wn: "weight ns1 n = weight ns l + weight ns r"
      using inner_weight [of ns l r] "1.prems"(3) sum by (simp add: ns1_def n_def)
    have sum1: "(\<Sum>i \<leftarrow> heap2 @ [n]. weight ns1 i) = (\<Sum>i \<leftarrow> heap. weight ns i)"
      using W by (simp add: sum Wn cong: map_cong)
    have least: "weight ns l \<le> weight ns k" "weight ns r \<le> weight ns k" if "k \<in> set heap2" for k
      using pop_top_least [OF p(1), of k] pop_top_least [OF p(2), of k] that
      by (auto simp: heap heap1 weight_def word_le_nat_alt)
    have lr: "weight ns l \<le> weight ns r"
      using pop_top_least [OF p(1), of r] by (simp add: heap weight_def word_le_nat_alt)
    obtain more where "final = ns1 @ more" using huffman_combine_extends by (metis final_def)
    then have len: "n < length final" and new: "final ! n = inner_node ns l r n"
      by (simp_all add: ns1_def n_def nth_append)
    let ?w = "walk_from (Suc n) final"
    note sh = same_shapeD [OF same_shape_walk [of "Suc n" final]]
    have lrn: "l < n" "r < n" "n < length ?w" "l \<noteq> r"
      using two len sh(1) by (auto simp: n_def)
    have node: "nd_children (?w ! n) = Some (l, r)" "max_symbol \<le> nd_symbol (?w ! n)"
      using sh(2,3) [OF len] new by (simp_all add: inner_node_def)
    note bits = fill_bits_step_bits [OF node lrn, folded walk_from_Suc [OF len]]
    have bits0: "\<forall>i < length ns1. nd_bits (ns1 ! i) = 0"
      using "1.prems"(2) by (auto simp: ns1_def nth_append less_Suc_eq inner_node_def n_def)
    have ok1: "heap_ok ns1 (heap2 @ [n])" using two(6) by (simp add: ns1_def n_def)
    have IH: "fib (j' + 2 + nd_bits (?w ! i')) \<le> (\<Sum>i \<leftarrow> heap. weight ns i)"
      if "i' \<in> set (heap2 @ [n])" "fib (j' + 2) \<le> weight ns1 i'" "\<forall>k \<in> set (heap2 @ [n]). fib (j' + 1) \<le> weight ns1 k"
      for i' j'
      using "1.IH" [OF True p(1) [symmetric] _ p(2) [symmetric], where i = i' and j = j' and d = "nd_bits (?w ! i')"]
        ok1 bits0 sum1 "1.prems"(3) that by (simp add: final_def ns1_def n_def)
    have d: "d = nd_bits (walk_from n final ! i)" using "1.prems"(7) by (simp only: final n_def)
    show ?thesis
    proof (cases "i = l \<or> i = r")
      case False
      then have i: "i \<in> set heap2" using "1.prems"(4) heap by auto
      have "fib (j + 1) \<le> weight ns1 k" if "k \<in> set (heap2 @ [n])" for k
        using that "1.prems"(6) W heap Wn by fastforce
      then have "\<forall>k \<in> set (heap2 @ [n]). fib (j + 1) \<le> weight ns1 k" by blast
      from IH [OF _ _ this] i W "1.prems"(5) have "fib (j + 2 + nd_bits (?w ! i)) \<le> (\<Sum>i \<leftarrow> heap. weight ns i)" by simp
      then show ?thesis using False bits(3) by (simp add: d)
    next
      case True
      have both: "fib (j + 1) \<le> weight ns l" "fib (j + 1) \<le> weight ns r" using "1.prems"(6) heap by auto
      have Wi: "fib (j + 2) \<le> weight ns i" by (rule "1.prems"(5))
      have "fib (Suc j + 2) \<le> weight ns1 n" using True both Wi by (auto simp: Wn)
      moreover have "fib (Suc j + 1) \<le> weight ns1 k" if "k \<in> set (heap2 @ [n])" for k
      proof (cases "k = n")
        case True
        then show ?thesis using \<open>fib (Suc j + 2) \<le> weight ns1 n\<close> fib_mono [of "Suc j + 1" "Suc j + 2"] by simp
      next
        case False
        then have "k \<in> set heap2" using that by simp
        with least [of k] W Wi \<open>i = l \<or> i = r\<close> show ?thesis by auto
      qed
      ultimately have "fib (Suc j + 2 + nd_bits (?w ! n)) \<le> (\<Sum>i \<leftarrow> heap. weight ns i)"
        by (intro IH) (auto simp del: fib.simps)
      moreover have "d = nd_bits (?w ! n) + 1" using True bits(1,2) by (auto simp: d)
      ultimately show ?thesis by simp
    qed
  qed
qed

text \<open>The codes of a finished table: 31 bits need a total count of \<open>fib 33\<close>.\<close>

definition total_count :: "huffman_builder \<Rightarrow> nat" where
  "total_count b = (\<Sum>s \<leftarrow> counted b. unat (symbol_counts b ! s))"

fun fib_pair :: "nat \<Rightarrow> int \<times> int" where
  "fib_pair 0 = (0, 1)"
| "fib_pair (Suc n) = (let (a, b) = fib_pair n in (b, b + a))"

lemma fib_pair: "fib_pair n = (int (fib n), int (fib (Suc n)))"
  by (induction n) simp_all

lemma fib_33: "fib 33 = 3524578"
proof -
  have "fst (fib_pair 33) = 3524578" by code_simp
  then show ?thesis by (simp add: fib_pair del: fib_pair.simps fib.simps)
qed

theorem builder_depth:
  assumes fin: "builder_finish b = Inr codes" and c: "c \<in> set codes" and small: "total_count b < 2 ^ 32"
  shows "fib (hc_bits c + 2) \<le> total_count b"
proof (cases "leaf_nodes b = []")
  case True
  with fin c show ?thesis by (simp add: builder_finish_def)
next
  case False
  define n where "n = length (leaf_nodes b)"
  define nodes where "nodes = fst (huffman_combine (leaf_nodes b) [0..<n])"
  define leaves where "leaves = take n (fill_bits nodes)"
  define base where "base = map code_of_node (sort_leaves leaves)"
  have ok: "heap_ok (leaf_nodes b) [0..<n]" using False by (auto simp: heap_ok_def n_def)
  have lf: "i < n \<Longrightarrow> leaf_nodes b ! i = leaf_node (counted b ! i) (symbol_counts b ! (counted b ! i))"
    "n = length (counted b)" for i
    by (simp_all add: n_def leaf_nodes_def counted_def)
  have W: "weight (leaf_nodes b) i = unat (symbol_counts b ! (counted b ! i))" if "i < n" for i
    using lf(1) [OF that] by (simp add: weight_def leaf_node_def)
  have sum: "(\<Sum>i \<leftarrow> [0..<n]. weight (leaf_nodes b) i) = total_count b"
  proof -
    have "map (weight (leaf_nodes b)) [0..<n] = map (\<lambda>s. unat (symbol_counts b ! s)) (counted b)"
      using W lf(2) by (intro nth_equalityI) simp_all
    then show ?thesis by (simp only: total_count_def)
  qed
  have pos: "1 \<le> weight (leaf_nodes b) i" if "i < n" for i
  proof -
    have "counted b ! i \<in> set (counted b)" using that lf(2) by simp
    then have "symbol_counts b ! (counted b ! i) \<noteq> 0" by (simp add: counted_def)
    then show ?thesis using W [OF that] by (simp add: Suc_le_eq unat_gt_0)
  qed
  have "snd (huffman_combine (leaf_nodes b) [0..<n]) = [length nodes - 1]"
    using fill_bits_leaves(3) [OF False] by (simp add: n_def nodes_def)
  then have "codes = rev (assign_values (hc_bits (last base)) 0 (rev base))"
    using fin False
    by (simp add: builder_finish_def Let_def pop_top_def split_beta base_def leaves_def nodes_def n_def)
  then have "map (\<lambda>c. (hc_symbol c, hc_bits c)) codes = map (\<lambda>c. (hc_symbol c, hc_bits c)) base"
    by (simp add: assign_values_keys flip: rev_map)
  from arg_cong [OF this, of "map snd"] have "map hc_bits codes = map hc_bits base" by (simp add: o_def)
  with c have "hc_bits c \<in> set (map hc_bits base)" by (metis image_eqI list.set_map)
  then obtain x where x: "x \<in> set leaves" "nd_bits x = hc_bits c"
    by (auto simp: base_def sort_leaves_def code_of_node_def)
  then obtain i where i: "i < n" "fill_bits nodes ! i = x"
    by (auto simp: leaves_def in_set_conv_nth)
  have fill: "fill_bits nodes = walk_from (length (leaf_nodes b)) nodes"
    using fill_bits_leaves(4) [OF False] by (simp add: nodes_def n_def)
  have "\<forall>i < length (leaf_nodes b). nd_bits (leaf_nodes b ! i) = 0"
    using lf(1) by (simp add: n_def leaf_node_def)
  moreover have "hc_bits c = nd_bits (walk_from (length (leaf_nodes b)) (fst (huffman_combine (leaf_nodes b) [0..<n])) ! i)"
    using i x(2) fill by (simp add: nodes_def)
  ultimately have "fib (0 + 2 + hc_bits c) \<le> (\<Sum>i \<leftarrow> [0..<n]. weight (leaf_nodes b) i)"
    using i(1) pos small sum by (intro combine_depth [OF ok]) simp_all
  then show ?thesis by (simp only: sum add_0 add.commute)
qed

corollary builder_short:
  assumes "builder_finish b = Inr codes" and "c \<in> set codes" and "total_count b < 3524578"
  shows "hc_bits c < 31"
proof (rule ccontr)
  assume "\<not> hc_bits c < 31"
  then have "fib 33 \<le> fib (hc_bits c + 2)" by (intro fib_mono) simp
  also have "\<dots> \<le> total_count b" using assms by (intro builder_depth) simp_all
  finally show False using assms(3) by (simp add: fib_33)
qed

end
