(* ===== verification/HuffmanDecoder.thy ===== *)
theory HuffmanDecoder
  imports HuffmanEncoder
begin

text \<open>
  decoder/src/HuffmanDecoder.cpp: \<open>read_codes\<close> rebuilds the table of
  \<open>HuffmanEncoder::write_codes\<close> from the lengths in the stream, \<open>decode_symbol\<close> scans it from the
  shortest code on. The lemmas show that a table survives the trip through a bitstream and
  that each code word is decoded to its symbol. The counts kept with the codes serve statistics
  only; the vector index of a range-for loop is the position in the list.
\<close>

section \<open>The model\<close>

record dec_code =
  dc_symbol :: nat
  dc_bits :: nat
  dc_value :: nat
  dc_count :: u32

definition dec_code_new :: "nat \<Rightarrow> nat \<Rightarrow> dec_code" where
  "dec_code_new s b = \<lparr>dc_symbol = s, dc_bits = b, dc_value = 0, dc_count = 0\<rparr>"

record huffman_decoder =
  single_symbol :: nat
  dec_codes :: "dec_code list"

definition decoder_new :: huffman_decoder where
  "decoder_new = \<lparr>single_symbol = 0, dec_codes = []\<rparr>"

definition get_nat :: "unpacker \<Rightarrow> nat \<Rightarrow> (nat \<times> unpacker) result" where
  "get_nat r n = rbind (unpacker_u r n) (\<lambda>(v, r1). Inr (unat v, r1))"

definition read_present :: "nat \<Rightarrow> nat \<Rightarrow> nat \<Rightarrow> dec_code list \<times> unpacker \<Rightarrow> (dec_code list \<times> unpacker) result" where
  "read_present length_bits min_len s = (\<lambda>(cs, r).
     rbind (get_nat r 1) (\<lambda>(presence, r1).
     if presence \<noteq> 0 then
       rbind (get_nat r1 length_bits) (\<lambda>(len, r2). Inr (cs @ [dec_code_new s (len + min_len)], r2))
     else Inr (cs, r1)))"

definition read_sparse :: "nat \<Rightarrow> nat \<Rightarrow> nat \<Rightarrow> dec_code list \<times> unpacker \<Rightarrow> (dec_code list \<times> unpacker) result" where
  "read_sparse length_bits min_len i = (\<lambda>(cs, r).
     rbind (get_nat r 8) (\<lambda>(s, r1).
     rbind (get_nat r1 length_bits) (\<lambda>(len, r2). Inr (cs @ [dec_code_new s (len + min_len)], r2))))"

definition sort_codes :: "dec_code list \<Rightarrow> dec_code list" where
  "sort_codes cs = sort_key (\<lambda>c. Code_Key (dc_bits c) (dc_symbol c)) cs"

fun number_decoded :: "nat \<Rightarrow> nat \<Rightarrow> dec_code list \<Rightarrow> dec_code list" where
  "number_decoded current_length current_value [] = []"
| "number_decoded current_length current_value (c # cs) =
     (if dc_bits c < current_length then
        let v = current_value div 2 ^ (current_length - dc_bits c)
        in c\<lparr>dc_value := v\<rparr> # number_decoded (dc_bits c) (v + 1) cs
      else c\<lparr>dc_value := current_value\<rparr> # number_decoded current_length (current_value + 1) cs)"

definition read_listing :: "nat \<Rightarrow> nat \<Rightarrow> dec_code list \<Rightarrow> unpacker \<Rightarrow> (dec_code list \<times> unpacker) result" where
  "read_listing length_bits min_len cs r =
     rbind (get_nat r 1) (\<lambda>(bitmap, r).
     if bitmap \<noteq> 0 then fold_result (read_present length_bits min_len) [0..<256] (cs, r)
     else
       rbind (get_nat r 5) (\<lambda>(count, r).
       fold_result (read_sparse length_bits min_len) [0..<count] (cs, r)))"

text \<open>
  \<open>max_code_length - min_code_length\<close> is unsigned: a negative difference wraps to a value that
  \<open>bit_width\<close> rejects.
\<close>

definition read_codes :: "huffman_decoder \<Rightarrow> unpacker \<Rightarrow> (huffman_decoder \<times> unpacker) result" where
  "read_codes d r =
     rbind (get_nat r 5) (\<lambda>(min_len, r).
     rbind (get_nat r 5) (\<lambda>(max_len, r).
     if min_len = 31 \<and> max_len = 31 then Inr (d, r)
     else if min_len = 0 \<and> max_len = 0 then
       rbind (get_nat r 8) (\<lambda>(s, r). Inr (d\<lparr>single_symbol := s\<rparr>, r))
     else
       rbind (if min_len \<le> max_len then bit_width (max_len - min_len) else Inl CheckFailed) (\<lambda>length_bits.
       rbind (read_listing length_bits min_len (dec_codes d) r) (\<lambda>(cs, r).
       if cs = [] then Inr (d\<lparr>dec_codes := cs\<rparr>, r)
       else Inr (d\<lparr>dec_codes := rev (number_decoded max_len 0 (rev (sort_codes cs)))\<rparr>, r)))))"

fun code_bits :: "nat \<Rightarrow> u32 \<Rightarrow> unpacker \<Rightarrow> (u32 \<times> unpacker) result" where
  "code_bits 0 code r = Inr (code, r)"
| "code_bits (Suc n) code r =
     rbind (unpacker_u r 1) (\<lambda>(b, r1). code_bits n (push_bit 1 code OR b) r1)"

fun scan_codes :: "dec_code list \<Rightarrow> nat \<Rightarrow> u32 \<Rightarrow> unpacker \<Rightarrow> (nat \<times> dec_code list \<times> unpacker) result" where
  "scan_codes [] bits code r = Inl CheckFailed"
| "scan_codes (c # cs) bits code r =
     rbind (code_bits (dc_bits c - bits) code r) (\<lambda>(code, r).
     if code = word_of_nat (dc_value c) then
       Inr (dc_symbol c, c\<lparr>dc_count := dc_count c + 1\<rparr> # cs, r)
     else
       rbind (scan_codes cs (max bits (dc_bits c)) code r) (\<lambda>(s, cs, r). Inr (s, c # cs, r)))"

definition decode_symbol :: "huffman_decoder \<Rightarrow> unpacker \<Rightarrow> (nat \<times> huffman_decoder \<times> unpacker) result" where
  "decode_symbol d r =
     (if dec_codes d = [] then Inr (single_symbol d, d, r)
      else rbind (scan_codes (dec_codes d) 0 0 r) (\<lambda>(s, cs, r). Inr (s, d\<lparr>dec_codes := cs\<rparr>, r)))"

section \<open>Facts about finished tables\<close>

text \<open>A canonical list with a code of length 0 has no other code.\<close>

lemma canonical_zero:
  assumes can: "canonical M a cs" and mem: "(0, v) \<in> set cs"
  shows "length cs = 1"
proof -
  obtain xs ys where cs: "cs = xs @ (0, v) # ys" using mem by (meson split_list)
  from canonical_append [OF can [unfolded cs]]
  have tail: "canonical M (a + kraft M (map fst xs) + 2 ^ M) ys" by simp
  then have z: "a + kraft M (map fst xs) = 0" using canonical_bound [OF tail] by simp
  have "xs = []" using z by (cases xs) auto
  moreover have "ys = []"
  proof (cases ys)
    case (Cons y ys')
    obtain l w where "y = (l, w)" by force
    with tail z Cons have "canonical M (2 ^ M + 2 ^ (M - l)) ys'" by simp
    from canonical_bound [OF this] show ?thesis by simp
  qed
  ultimately show ?thesis using cs by simp
qed

lemma canonical_kraft: "canonical M 0 cs \<Longrightarrow> kraft M (map fst cs) = 2 ^ M"
  using canonical_append [of M 0 cs "[]"] by simp

lemma canonical_unique:
  "canonical M a (zip ls vs) \<Longrightarrow> canonical M a (zip ls ws) \<Longrightarrow>
     length vs = length ls \<Longrightarrow> length ws = length ls \<Longrightarrow> vs = ws"
proof (induction ls arbitrary: a vs ws)
  case (Cons l ls)
  obtain v vs' w ws' where *: "vs = v # vs'" "ws = w # ws'"
    using Cons.prems(3,4) by (metis length_Suc_conv)
  with Cons.prems have "v * 2 ^ (M - l) = w * 2 ^ (M - l)" by simp
  then have "v = w" by simp
  moreover have "vs' = ws'"
    using Cons.prems * by (intro Cons.IH [of "a + 2 ^ (M - l)"]) simp_all
  ultimately show ?case using * by simp
qed simp

lemma number_decoded_number:
  "map (\<lambda>c. (dc_bits c, dc_value c)) (number_decoded len v cs) =
     zip (map dc_bits cs) (number_codes len v (map dc_bits cs))"
  by (induction len v cs rule: number_decoded.induct) (simp_all add: Let_def)

lemma number_decoded_keys:
  "map (\<lambda>c. (dc_symbol c, dc_bits c)) (number_decoded len v cs) = map (\<lambda>c. (dc_symbol c, dc_bits c)) cs"
  by (induction len v cs rule: number_decoded.induct) (simp_all add: Let_def)

lemma code_table_bits_pos:
  assumes "code_table codes" and "length codes \<noteq> 1" and "c \<in> set codes"
  shows "0 < hc_bits c"
proof (rule ccontr)
  assume "\<not> 0 < hc_bits c"
  then have "(0, hc_value c) \<in> set (rev (code_intervals codes))"
    using assms(3) by (force simp: code_intervals_def)
  with assms(1) have "length (rev (code_intervals codes)) = 1"
    unfolding code_table_def by (blast intro: canonical_zero)
  with assms(2) show False by (simp add: code_intervals_def)
qed

lemma sorted_bits: "sorted (map code_key codes) \<Longrightarrow> sorted_wrt (\<lambda>a b. hc_bits a \<le> hc_bits b) codes"
  unfolding sorted_wrt_map
  by (erule sorted_wrt_mono_rel [rotated]) (auto simp: code_key_def dest: code_key_le_bits)

lemma code_table_bits_le:
  assumes "code_table codes" and "c \<in> set codes"
  shows "hc_bits (hd codes) \<le> hc_bits c" and "hc_bits c \<le> hc_bits (last codes)"
proof -
  have *: "sorted_wrt (\<lambda>a b. hc_bits a \<le> hc_bits b) codes"
    using assms(1) by (simp add: code_table_def sorted_bits)
  then show "hc_bits (hd codes) \<le> hc_bits c" using assms(2) by (cases codes) auto
  show "hc_bits c \<le> hc_bits (last codes)" using * assms(2)
    by (induction codes rule: rev_induct) (auto simp: sorted_wrt_append)
qed

lemma code_table_value_less:
  assumes "code_table codes" and "c \<in> set codes"
  shows "hc_value c < 2 ^ hc_bits c"
proof (rule canonical_value_less)
  show "canonical (hc_bits (last codes)) 0 (rev (code_intervals codes))"
    using assms(1) by (simp add: code_table_def)
  show "(hc_bits c, hc_value c) \<in> set (rev (code_intervals codes))"
    using assms(2) by (force simp: code_intervals_def)
qed

section \<open>The table survives the bitstream\<close>

definition holds_codes :: "hcode list \<Rightarrow> huffman_decoder \<Rightarrow> bool" where
  "holds_codes codes d \<longleftrightarrow>
     (if length codes = 1 then dec_codes d = [] \<and> single_symbol d = hc_symbol (hd codes)
      else map (\<lambda>c. (dc_symbol c, dc_bits c, dc_value c)) (dec_codes d) =
           map (\<lambda>c. (hc_symbol c, hc_bits c, hc_value c)) codes)"

lemma map_triple_eq:
  "map (\<lambda>x. (f x, g x)) xs = map (\<lambda>y. (f' y, g' y)) ys \<Longrightarrow> map h xs = map h' ys \<Longrightarrow>
     map (\<lambda>x. (f x, g x, h x)) xs = map (\<lambda>y. (f' y, g' y, h' y)) ys"
  by (induction xs arbitrary: ys) (auto simp: Cons_eq_map_conv)

lemma number_sorted:
  assumes table: "code_table codes"
    and same: "mset (map (\<lambda>c. (dc_symbol c, dc_bits c)) cs) = mset (map (\<lambda>c. (hc_symbol c, hc_bits c)) codes)"
  shows "map (\<lambda>c. (dc_symbol c, dc_bits c, dc_value c))
           (rev (number_decoded (hc_bits (last codes)) 0 (rev (sort_codes cs)))) =
         map (\<lambda>c. (hc_symbol c, hc_bits c, hc_value c)) codes"
proof -
  let ?M = "hc_bits (last codes)"
  let ?key = "\<lambda>c. Code_Key (dc_bits c) (dc_symbol c)"
  have "mset (map (\<lambda>(s, b). Code_Key b s) (map (\<lambda>c. (dc_symbol c, dc_bits c)) cs)) =
        mset (map (\<lambda>(s, b). Code_Key b s) (map (\<lambda>c. (hc_symbol c, hc_bits c)) codes))"
    using same by (simp only: mset_map)
  then have "mset (map ?key (sort_codes cs)) = mset (map code_key codes)"
    by (simp add: sort_codes_def o_def code_key_def [abs_def])
  moreover have "sorted (map ?key (sort_codes cs))" by (simp add: sort_codes_def)
  moreover have sort: "sorted (map code_key codes)" using table by (simp add: code_table_def)
  ultimately have key: "map ?key (sort_codes cs) = map code_key codes"
    by (metis properties_for_sort)
  have pairs: "map (\<lambda>c. (dc_symbol c, dc_bits c)) (sort_codes cs) = map (\<lambda>c. (hc_symbol c, hc_bits c)) codes"
    using arg_cong [OF key, of "map (\<lambda>k. (key_sym k, key_bits k))"] by (simp add: o_def code_key_def)
  define D where "D = number_decoded ?M 0 (rev (sort_codes cs))"
  have "map (\<lambda>c. (dc_symbol c, dc_bits c)) D = map (\<lambda>c. (dc_symbol c, dc_bits c)) (rev (sort_codes cs))"
    by (simp only: D_def number_decoded_keys)
  then have p: "map (\<lambda>c. (dc_symbol c, dc_bits c)) D = map (\<lambda>c. (hc_symbol c, hc_bits c)) (rev codes)"
    using pairs by (simp only: rev_map [symmetric])
  let ?ls = "map hc_bits (rev codes)"
  have bits: "map dc_bits (rev (sort_codes cs)) = ?ls"
    using arg_cong [OF pairs, of "map snd"] by (simp only: map_map o_def snd_conv rev_map [symmetric])
  have can: "canonical ?M 0 (zip ?ls (map hc_value (rev codes)))"
    using table by (simp add: code_table_def code_intervals_def zip_map_map rev_map zip_same_conv_map o_def)
  have kr: "0 * 2 ^ (?M - ?M) + kraft ?M ?ls = 2 ^ ?M"
    using canonical_kraft [OF can] by simp
  have desc: "sorted_wrt (\<ge>) ?ls"
    using sorted_bits [OF sort] by (simp add: sorted_wrt_map sorted_wrt_rev)
  have le: "\<forall>l \<in> set ?ls. l \<le> ?M"
    using code_table_bits_le(2) [OF table] by auto
  have "canonical ?M 0 (zip ?ls (number_codes ?M 0 ?ls))"
    using number_codes_canonical [OF kr _ desc le] by simp
  then have vals: "number_codes ?M 0 ?ls = map hc_value (rev codes)"
    using can by (rule canonical_unique) simp_all
  have "map (\<lambda>c. (dc_bits c, dc_value c)) D = zip ?ls (map hc_value (rev codes))"
    unfolding D_def number_decoded_number bits vals ..
  from arg_cong [OF this, of "map snd"] have "map dc_value D = map hc_value (rev codes)"
    by (simp add: o_def)
  from arg_cong [OF map_triple_eq [OF p this], of rev] show ?thesis
    unfolding D_def [symmetric] by (simp only: rev_map rev_rev_ident)
qed

text \<open>Reading one number.\<close>

lemma bits_of_word_of_nat: "n \<le> 32 \<Longrightarrow> bits_of n (word_of_nat k :: u32) = bits_of n k"
  unfolding bits_of_unat [of n "word_of_nat k :: u32", symmetric] unsigned_of_nat
  by (rule nth_equalityI) (auto simp: nth_bits_of bit_take_bit_iff)

lemma get_nat_value:
  assumes "unpacker_inv r" and "n \<le> 32" and "pending r = bits_of n (word_of_nat v :: u32) @ bs" and "v < 2 ^ n"
  obtains r' where "get_nat r n = Inr (v, r')" and "unpacker_inv r'" and "pending r' = bs"
proof -
  from assms have "pending r = bits_of n v @ bs" by (simp add: bits_of_word_of_nat)
  from up.get_value [OF assms(1,2) this assms(4)] obtain x r' where
    "unpacker_u r n = Inr (x, r')" "unat x = v" "unpacker_inv r'" "pending r' = bs" by blast
  with that show thesis by (simp add: get_nat_def)
qed

text \<open>The two ways to list symbols with their lengths.\<close>

lemma read_present_step:
  "get_nat r 1 = Inr (0, r1) \<Longrightarrow> read_present n m s (cs, r) = Inr (cs, r1)"
  "get_nat r 1 = Inr (1, r0) \<Longrightarrow> get_nat r0 n = Inr (b - m, r1) \<Longrightarrow> m \<le> b \<Longrightarrow>
     read_present n m s (cs, r) = Inr (cs @ [dec_code_new s b], r1)"
  by (simp_all add: read_present_def)

lemma read_sparse_step:
  "get_nat r 8 = Inr (s, r0) \<Longrightarrow> get_nat r0 n = Inr (b - m, r1) \<Longrightarrow> m \<le> b \<Longrightarrow>
     read_sparse n m i (cs, r) = Inr (cs @ [dec_code_new s b], r1)"
  by (simp add: read_sparse_def)

lemma read_present_loop:
  assumes "unpacker_inv r" and "n \<le> 32" and "\<forall>s \<in> set ss. len s \<noteq> 0 \<longrightarrow> m \<le> len s \<and> len s - m < 2 ^ n"
    and "pending r = field_bits (concat (map (\<lambda>s. if len s \<noteq> 0
            then [(1, 1), (n, word_of_nat (len s - m))] else [(1, 0)]) ss)) @ bs"
  obtains r' where "fold_result (read_present n m) ss (cs, r) =
        Inr (cs @ map (\<lambda>s. dec_code_new s (len s)) (filter (\<lambda>s. len s \<noteq> 0) ss), r')"
    and "unpacker_inv r'" and "pending r' = bs"
  using assms
proof (induction ss arbitrary: r cs thesis)
  case Nil
  then show ?case by auto
next
  case (Cons s ss)
  let ?more = "field_bits (concat (map (\<lambda>s. if len s \<noteq> 0
            then [(1, 1), (n, word_of_nat (len s - m))] else [(1, 0)]) ss)) @ bs"
  show ?case
  proof (cases "len s = 0")
    case True
    with Cons.prems have "pending r = bits_of 1 (word_of_nat 0 :: u32) @ ?more" by simp
    from get_nat_value [OF Cons.prems(2) _ this] obtain r1 where
      r1: "get_nat r 1 = Inr (0, r1)" "unpacker_inv r1" "pending r1 = ?more" by auto
    from Cons.prems(4) have "\<forall>s \<in> set ss. len s \<noteq> 0 \<longrightarrow> m \<le> len s \<and> len s - m < 2 ^ n" by simp
    from Cons.IH [OF _ r1(2) Cons.prems(3) this r1(3)] obtain r' where
      "fold_result (read_present n m) ss (cs, r1) =
        Inr (cs @ map (\<lambda>s. dec_code_new s (len s)) (filter (\<lambda>s. len s \<noteq> 0) ss), r')"
      "unpacker_inv r'" "pending r' = bs" by blast
    with r1 True Cons.prems(1) show ?thesis by (simp add: read_present_step(1))
  next
    case False
    with Cons.prems have "pending r = bits_of 1 (word_of_nat 1 :: u32) @ (bits_of n (word_of_nat (len s - m) :: u32) @ ?more)"
      by simp
    from get_nat_value [OF Cons.prems(2) _ this] obtain r0 where
      r0: "get_nat r 1 = Inr (1, r0)" "unpacker_inv r0"
        "pending r0 = bits_of n (word_of_nat (len s - m) :: u32) @ ?more" by auto
    have len: "m \<le> len s" "len s - m < 2 ^ n" using Cons.prems(4) False by simp_all
    from get_nat_value [OF r0(2) Cons.prems(3) r0(3) len(2)] obtain r1 where
      r1: "get_nat r0 n = Inr (len s - m, r1)" "unpacker_inv r1" "pending r1 = ?more" by auto
    from Cons.prems(4) have "\<forall>s \<in> set ss. len s \<noteq> 0 \<longrightarrow> m \<le> len s \<and> len s - m < 2 ^ n" by simp
    from Cons.IH [where cs = "cs @ [dec_code_new s (len s)]", OF _ r1(2) Cons.prems(3) this r1(3)] obtain r' where
      "fold_result (read_present n m) ss (cs @ [dec_code_new s (len s)], r1) =
        Inr ((cs @ [dec_code_new s (len s)]) @ map (\<lambda>s. dec_code_new s (len s)) (filter (\<lambda>s. len s \<noteq> 0) ss), r')"
      "unpacker_inv r'" "pending r' = bs" by blast
    with False len Cons.prems(1) read_present_step(2) [OF r0(1) r1(1) len(1)] show ?thesis by simp
  qed
qed

lemma read_sparse_loop:
  assumes "unpacker_inv r" and "n \<le> 32"
    and "\<forall>c \<in> set codes. hc_symbol c < 256 \<and> m \<le> hc_bits c \<and> hc_bits c - m < 2 ^ n"
    and "length is = length codes"
    and "pending r = field_bits (concat (map (\<lambda>c. [(8, word_of_nat (hc_symbol c)),
            (n, word_of_nat (hc_bits c - m))]) codes)) @ bs"
  obtains r' where "fold_result (read_sparse n m) is (cs, r) =
        Inr (cs @ map (\<lambda>c. dec_code_new (hc_symbol c) (hc_bits c)) codes, r')"
    and "unpacker_inv r'" and "pending r' = bs"
  using assms
proof (induction codes arbitrary: "is" r cs thesis)
  case Nil
  then show ?case by auto
next
  case (Cons c codes)
  let ?more = "field_bits (concat (map (\<lambda>c. [(8, word_of_nat (hc_symbol c)),
            (n, word_of_nat (hc_bits c - m))]) codes)) @ bs"
  obtain i is' where "is": "is = i # is'" using Cons.prems(5) by (cases "is") auto
  have len: "hc_symbol c < 2 ^ 8" "m \<le> hc_bits c" "hc_bits c - m < 2 ^ n" using Cons.prems(4) by simp_all
  have "pending r = bits_of 8 (word_of_nat (hc_symbol c) :: u32) @ (bits_of n (word_of_nat (hc_bits c - m) :: u32) @ ?more)"
    using Cons.prems by simp
  from get_nat_value [OF Cons.prems(2) _ this len(1)] obtain r0 where
    r0: "get_nat r 8 = Inr (hc_symbol c, r0)" "unpacker_inv r0"
      "pending r0 = bits_of n (word_of_nat (hc_bits c - m) :: u32) @ ?more" by auto
  from get_nat_value [OF r0(2) Cons.prems(3) r0(3) len(3)] obtain r1 where
    r1: "get_nat r0 n = Inr (hc_bits c - m, r1)" "unpacker_inv r1" "pending r1 = ?more" by auto
  have "\<forall>c \<in> set codes. hc_symbol c < 256 \<and> m \<le> hc_bits c \<and> hc_bits c - m < 2 ^ n" "length is' = length codes"
    using Cons.prems(4,5) "is" by simp_all
  from Cons.IH [where cs = "cs @ [dec_code_new (hc_symbol c) (hc_bits c)]", OF _ r1(2) Cons.prems(3) this r1(3)] obtain r' where
    "fold_result (read_sparse n m) is' (cs @ [dec_code_new (hc_symbol c) (hc_bits c)], r1) =
      Inr ((cs @ [dec_code_new (hc_symbol c) (hc_bits c)]) @ map (\<lambda>c. dec_code_new (hc_symbol c) (hc_bits c)) codes, r')"
    "unpacker_inv r'" "pending r' = bs" by blast
  with "is" Cons.prems(1) read_sparse_step [OF r0(1) r1(1) len(2)] show ?case by simp
qed

lemma code_lengths_snoc:
  "code_lengths (codes @ [c]) = (code_lengths codes)[hc_symbol c := hc_bits c]"
  by (simp add: code_lengths_def)

lemma length_code_lengths [simp]: "length (code_lengths codes) = max_symbol"
  by (induction codes rule: rev_induct) (simp_all add: code_lengths_snoc, simp add: code_lengths_def)

lemma code_lengths_nth:
  assumes "distinct (map hc_symbol codes)" and "\<forall>c \<in> set codes. hc_symbol c < max_symbol"
  shows "c \<in> set codes \<Longrightarrow> code_lengths codes ! hc_symbol c = hc_bits c"
    and "s < max_symbol \<Longrightarrow> s \<notin> hc_symbol ` set codes \<Longrightarrow> code_lengths codes ! s = 0"
  using assms
proof (induction codes rule: rev_induct)
  case Nil
  { case 1 then show ?case by simp }
  { case 2 then show ?case by (simp add: code_lengths_def) }
next
  case (snoc x codes)
  { case 1
    then show ?case using snoc(1) by (auto simp: code_lengths_snoc nth_list_update_if) }
  { case 2
    then show ?case using snoc(2) by (auto simp: code_lengths_snoc nth_list_update_if) }
qed

lemma present_pairs:
  assumes "code_table codes" and "length codes \<noteq> 1"
  shows "mset (map (\<lambda>s. (s, code_lengths codes ! s)) (filter (\<lambda>s. code_lengths codes ! s \<noteq> 0) [0..<max_symbol])) =
         mset (map (\<lambda>c. (hc_symbol c, hc_bits c)) codes)"
proof -
  note t = assms(1) [unfolded code_table_def]
  have lens: "c \<in> set codes \<Longrightarrow> code_lengths codes ! hc_symbol c = hc_bits c"
    "s < max_symbol \<Longrightarrow> s \<notin> hc_symbol ` set codes \<Longrightarrow> code_lengths codes ! s = 0" for c s
    using t code_lengths_nth by blast+
  have "distinct (map (\<lambda>s. (s, code_lengths codes ! s)) (filter (\<lambda>s. code_lengths codes ! s \<noteq> 0) [0..<max_symbol]))"
    by (auto simp: distinct_map inj_on_def)
  moreover have "distinct (map (\<lambda>c. (hc_symbol c, hc_bits c)) codes)"
    using t by (auto simp: distinct_map inj_on_def)
  moreover have "set (map (\<lambda>s. (s, code_lengths codes ! s)) (filter (\<lambda>s. code_lengths codes ! s \<noteq> 0) [0..<max_symbol])) =
        set (map (\<lambda>c. (hc_symbol c, hc_bits c)) codes)" (is "?A = ?B")
  proof
    show "?A \<subseteq> ?B"
    proof
      fix p assume "p \<in> ?A"
      then obtain s where s: "p = (s, code_lengths codes ! s)" "s < max_symbol" "code_lengths codes ! s \<noteq> 0" by auto
      with lens(2) [of s] obtain c where "c \<in> set codes" "s = hc_symbol c" by auto
      with s lens(1) show "p \<in> ?B" by auto
    qed
    show "?B \<subseteq> ?A"
      using t lens(1) code_table_bits_pos [OF assms] by (auto simp: image_iff)
  qed
  ultimately show ?thesis by (rule set_eq_iff_mset_eq_distinct [THEN iffD1])
qed

text \<open>The tables a five-bit length field and the bit packer can carry.\<close>

definition codable :: "hcode list \<Rightarrow> bool" where
  "codable codes \<longleftrightarrow> (codes \<noteq> [] \<longrightarrow> code_table codes \<and> hc_bits (last codes) < 31)"

lemma codableD:
  assumes "codable codes" and "codes \<noteq> []"
  shows "code_table codes" and "hc_bits (last codes) < 31"
    and "c \<in> set codes \<Longrightarrow> hc_bits (hd codes) \<le> hc_bits c \<and> hc_bits c \<le> hc_bits (last codes)"
    and "c \<in> set codes \<Longrightarrow> hc_symbol c < max_symbol"
  using assms code_table_bits_le [of codes c] by (auto simp: codable_def code_table_def)

lemma codable_width:
  assumes "codable codes" and "codes \<noteq> []"
  obtains n where "bit_width (hc_bits (last codes) - hc_bits (hd codes)) = Inr n" and "n \<le> 5"
    and "hc_bits (hd codes) \<le> hc_bits (last codes)"
    and "\<And>c. c \<in> set codes \<Longrightarrow> hc_bits c - hc_bits (hd codes) < 2 ^ n"
proof -
  note c = codableD [OF assms]
  have "hc_bits (last codes) - hc_bits (hd codes) < 32" using c(2) by simp
  then obtain n where n: "bit_width (hc_bits (last codes) - hc_bits (hd codes)) = Inr n" "n \<le> 5"
    "hc_bits (last codes) - hc_bits (hd codes) < 2 ^ n" by (metis bit_width_fits)
  have "hc_bits x - hc_bits (hd codes) < 2 ^ n" if "x \<in> set codes" for x
    using c(3) [OF that] n(3) by linarith
  with n c(3) [of "last codes"] assms(2) that show thesis by simp
qed

lemma code_fields_widths:
  assumes "codable codes"
  obtains fs where "code_fields codes = Inr fs" and "\<forall>(n, v) \<in> set fs. n < 31"
proof (cases "codes = [] \<or> length codes = 1")
  case True
  then show ?thesis
    by (intro that [of "if codes = [] then [(5, 31), (5, 31)] else [(5, 0), (5, 0), (8, word_of_nat (hc_symbol (hd codes)))]"])
       (auto simp: code_fields_def)
next
  case False
  then have "codes \<noteq> []" by simp
  with assms obtain n where n: "bit_width (hc_bits (last codes) - hc_bits (hd codes)) = Inr n" "n \<le> 5"
    "hc_bits (hd codes) \<le> hc_bits (last codes)" by (metis codable_width)
  have "\<forall>(k, v) \<in> set (code_listing codes n (hc_bits (hd codes))). k < 31"
    using n(2) by (auto simp: code_listing_def split: if_splits)
  with False n show ?thesis
    by (intro that [of "[(5, word_of_nat (hc_bits (hd codes))), (5, word_of_nat (hc_bits (last codes)))]
                        @ code_listing codes n (hc_bits (hd codes))"])
       (auto simp: code_fields_def Let_def)
qed

text \<open>What follows the two lengths is a listing that gives back every symbol with its length.\<close>

lemma read_listing_spec:
  assumes ok: "codable codes" and many: "codes \<noteq> []" "length codes \<noteq> 1"
    and n: "n \<le> 5" "\<And>c. c \<in> set codes \<Longrightarrow> hc_bits c - hc_bits (hd codes) < 2 ^ n"
    and r: "unpacker_inv r" "pending r = field_bits (code_listing codes n (hc_bits (hd codes))) @ bs"
  obtains cs r' where "read_listing n (hc_bits (hd codes)) [] r = Inr (cs, r')"
    and "unpacker_inv r'" and "pending r' = bs"
    and "mset (map (\<lambda>c. (dc_symbol c, dc_bits c)) cs) = mset (map (\<lambda>c. (hc_symbol c, hc_bits c)) codes)"
proof -
  note c = codableD [OF ok many(1)]
  let ?lo = "hc_bits (hd codes)"
  have n': "n \<le> 32" using n(1) by simp
  show ?thesis
  proof (cases "31 < length codes")
    case True
    let ?len = "\<lambda>s. code_lengths codes ! s"
    let ?more = "field_bits (concat (map (\<lambda>s. if ?len s \<noteq> 0 then [(1, 1), (n, word_of_nat (?len s - ?lo))]
                   else [(1, 0)]) [0..<256])) @ bs"
    have "pending r = bits_of 1 (word_of_nat 1 :: u32) @ ?more"
      using r(2) True by (simp add: code_listing_def)
    from get_nat_value [OF r(1) _ this] obtain r1 where
      r1: "get_nat r 1 = Inr (1, r1)" "unpacker_inv r1" "pending r1 = ?more" by auto
    have "\<forall>s \<in> set [0..<256]. ?len s \<noteq> 0 \<longrightarrow> ?lo \<le> ?len s \<and> ?len s - ?lo < 2 ^ n"
    proof (intro ballI impI)
      fix s assume "s \<in> set [0..<256]" "?len s \<noteq> 0"
      then obtain x where "x \<in> set codes" "s = hc_symbol x"
        using code_lengths_nth(2) [of codes s] c(1) by (auto simp: code_table_def)
      with code_lengths_nth(1) [of codes x] c(1) c(3) [of x] n(2) [of x]
      show "?lo \<le> ?len s \<and> ?len s - ?lo < 2 ^ n" by (simp add: code_table_def)
    qed
    from read_present_loop [OF r1(2) n' this r1(3), where cs = "[]"] obtain r' where
      loop:       "fold_result (read_present n ?lo) [0..<256] ([], r1) =
         Inr (map (\<lambda>s. dec_code_new s (?len s)) (filter (\<lambda>s. ?len s \<noteq> 0) [0..<256]), r')"
      "unpacker_inv r'" "pending r' = bs" by auto
    moreover have "mset (map (\<lambda>c. (dc_symbol c, dc_bits c))
          (map (\<lambda>s. dec_code_new s (?len s)) (filter (\<lambda>s. ?len s \<noteq> 0) [0..<256]))) =
        mset (map (\<lambda>c. (hc_symbol c, hc_bits c)) codes)"
      using present_pairs [OF c(1) many(2)] by (simp only: map_map o_def dec_code_new_def dec_code.select_convs)
    moreover have "read_listing n ?lo [] r =
        Inr (map (\<lambda>s. dec_code_new s (?len s)) (filter (\<lambda>s. ?len s \<noteq> 0) [0..<256]), r')"
      using r1(1) loop by (simp add: read_listing_def)
    ultimately show ?thesis using that by blast
  next
    case False
    let ?more = "field_bits (concat (map (\<lambda>c. [(8, word_of_nat (hc_symbol c)),
                   (n, word_of_nat (hc_bits c - ?lo))]) codes)) @ bs"
    have "pending r = bits_of 1 (word_of_nat 0 :: u32) @ bits_of 5 (word_of_nat (length codes) :: u32) @ ?more"
      using r(2) False by (simp add: code_listing_def)
    from get_nat_value [OF r(1) _ this] obtain r0 where
      r0: "get_nat r 1 = Inr (0, r0)" "unpacker_inv r0"
        "pending r0 = bits_of 5 (word_of_nat (length codes) :: u32) @ ?more" by auto
    have "length codes < 2 ^ 5" using False by simp
    from get_nat_value [OF r0(2) _ r0(3) this] obtain r1 where
      r1: "get_nat r0 5 = Inr (length codes, r1)" "unpacker_inv r1" "pending r1 = ?more" by auto
    have "\<forall>c \<in> set codes. hc_symbol c < 256 \<and> ?lo \<le> hc_bits c \<and> hc_bits c - ?lo < 2 ^ n"
      using c(3,4) n(2) by blast
    from read_sparse_loop [OF r1(2) n' this _ r1(3), of "[0..<length codes]" "[]"] obtain r' where
      "fold_result (read_sparse n ?lo) [0..<length codes] ([], r1) =
         Inr (map (\<lambda>c. dec_code_new (hc_symbol c) (hc_bits c)) codes, r')"
      "unpacker_inv r'" "pending r' = bs" by auto
    with r0 r1 show ?thesis
      by (intro that [of "map (\<lambda>c. dec_code_new (hc_symbol c) (hc_bits c)) codes" r'])
         (simp_all add: read_listing_def o_def dec_code_new_def)
  qed
qed

lemma read_codes_spec:
  assumes ok: "codable codes" and fs: "code_fields codes = Inr fs"
    and r: "unpacker_inv r" "pending r = field_bits fs @ bs"
  obtains d r' where "read_codes decoder_new r = Inr (d, r')" and "holds_codes codes d"
    and "unpacker_inv r'" and "pending r' = bs"
proof (cases "codes = [] \<or> length codes = 1")
  case True
  define v where "v = (if codes = [] then 31 else 0 :: nat)"
  define more where "more = (if codes = [] then bs else bits_of 8 (word_of_nat (hc_symbol (hd codes)) :: u32) @ bs)"
  have "v < 2 ^ 5" by (simp add: v_def)
  have "pending r = bits_of 5 (word_of_nat v :: u32) @ bits_of 5 (word_of_nat v :: u32) @ more"
    using fs r(2) True by (auto simp: code_fields_def v_def more_def)
  from get_nat_value [OF r(1) _ this \<open>v < 2 ^ 5\<close>] obtain r1 where
    r1: "get_nat r 5 = Inr (v, r1)" "unpacker_inv r1" "pending r1 = bits_of 5 (word_of_nat v :: u32) @ more" by auto
  from get_nat_value [OF r1(2) _ r1(3) \<open>v < 2 ^ 5\<close>] obtain r2 where
    r2: "get_nat r1 5 = Inr (v, r2)" "unpacker_inv r2" "pending r2 = more" by auto
  show ?thesis
  proof (cases "codes = []")
    case True
    with r1 r2 that [of decoder_new r2] show ?thesis
      by (simp add: read_codes_def v_def more_def holds_codes_def decoder_new_def)
  next
    case False
    then have "hc_symbol (hd codes) < 2 ^ 8" using codableD(4) [OF ok False, of "hd codes"] by simp
    with False r2 get_nat_value [of r2 8 "hc_symbol (hd codes)" bs] obtain r3 where
      "get_nat r2 8 = Inr (hc_symbol (hd codes), r3)" "unpacker_inv r3" "pending r3 = bs"
      by (auto simp: more_def)
    with False True r1 r2 that [of "decoder_new\<lparr>single_symbol := hc_symbol (hd codes)\<rparr>" r3] show ?thesis
      by (simp add: read_codes_def v_def holds_codes_def decoder_new_def)
  qed
next
  case False
  then have ne: "codes \<noteq> []" and many: "length codes \<noteq> 1" by auto
  note c = codableD [OF ok ne]
  define lo hi where "lo = hc_bits (hd codes)" and "hi = hc_bits (last codes)"
  obtain n where n: "bit_width (hi - lo) = Inr n" "n \<le> 5" "lo \<le> hi"
    "\<And>c. c \<in> set codes \<Longrightarrow> hc_bits c - lo < 2 ^ n"
    unfolding lo_def hi_def using codable_width [OF ok ne] by metis
  have hi: "0 < hi" "hi < 31" "lo < 2 ^ 5" "hi < 2 ^ 5"
    using code_table_bits_pos [OF c(1) many, of "last codes"] ne c(2) n(3) by (simp_all add: hi_def)
  have "fs = [(5, word_of_nat lo), (5, word_of_nat hi)] @ code_listing codes n lo"
    using fs ne many n(1,3) by (simp add: code_fields_def lo_def hi_def Let_def)
  then have "pending r = bits_of 5 (word_of_nat lo :: u32) @ bits_of 5 (word_of_nat hi :: u32) @
      field_bits (code_listing codes n lo) @ bs"
    using r(2) by simp
  from get_nat_value [OF r(1) _ this hi(3)] obtain r1 where
    r1: "get_nat r 5 = Inr (lo, r1)" "unpacker_inv r1"
      "pending r1 = bits_of 5 (word_of_nat hi :: u32) @ field_bits (code_listing codes n lo) @ bs" by auto
  from get_nat_value [OF r1(2) _ r1(3) hi(4)] obtain r2 where
    r2: "get_nat r1 5 = Inr (hi, r2)" "unpacker_inv r2" "pending r2 = field_bits (code_listing codes n lo) @ bs" by auto
  from read_listing_spec [OF ok ne many n(2,4) [unfolded lo_def] r2(2) r2(3) [unfolded lo_def], folded lo_def]
  obtain cs r' where cs: "read_listing n lo [] r2 = Inr (cs, r')" "unpacker_inv r'" "pending r' = bs"
    "mset (map (\<lambda>c. (dc_symbol c, dc_bits c)) cs) = mset (map (\<lambda>c. (hc_symbol c, hc_bits c)) codes)" by blast
  then have "cs \<noteq> []" using ne by auto
  with r1 r2 cs hi n have "read_codes decoder_new r =
      Inr (decoder_new\<lparr>dec_codes := rev (number_decoded hi 0 (rev (sort_codes cs)))\<rparr>, r')"
    by (simp add: read_codes_def decoder_new_def)
  moreover have "holds_codes codes (decoder_new\<lparr>dec_codes := rev (number_decoded hi 0 (rev (sort_codes cs)))\<rparr>)"
    using number_sorted [OF c(1) cs(4)] many by (simp add: holds_codes_def hi_def)
  ultimately show ?thesis using cs that by blast
qed

section \<open>Code words are decoded to their symbols\<close>

lemma or_bit_unat:
  fixes code b :: u32
  assumes "unat code < 2 ^ 31" and "unat b = of_bool x"
  shows "unat (push_bit 1 code OR b) = 2 * unat code + of_bool x"
proof -
  have b: "b = of_bool x" using assms(2) by (cases x) (simp_all add: word_unat_eq_iff)
  have *: "push_bit 1 code = 2 * code" by (simp add: push_bit_eq_mult)
  have "push_bit 1 code OR b = 2 * code + of_bool x"
    unfolding * b by (cases x) (simp_all add: or_one_eq)
  moreover have "unat (2 * code) = 2 * unat code"
    using assms(1) by (simp add: unat_word_ariths)
  moreover have "unat (2 * code + of_bool x) = unat (2 * code) + of_bool x"
    using assms(1) calculation(2) by (cases x) (simp_all add: unat_word_ariths)
  ultimately show ?thesis by simp
qed

lemma code_bits_spec:
  assumes "unpacker_inv r" and "pending r = ws @ bs" and "unat code < 2 ^ k" and "k + length ws \<le> 31"
  obtains code' r' where "code_bits (length ws) code r = Inr (code', r')"
    and "unat code' = unat code * 2 ^ length ws + val_of ws" and "unpacker_inv r'" and "pending r' = bs"
  using assms
proof (induction ws arbitrary: code r k thesis)
  case Nil
  then show ?case by simp
next
  case (Cons w ws)
  from Cons.prems(3) have "pending r = w # (ws @ bs)" by simp
  from up.get_bit [OF Cons.prems(2) this] obtain b r1 where
    b: "unpacker_u r 1 = Inr (b, r1)" "unat b = of_bool w" "unpacker_inv r1" "pending r1 = ws @ bs" by blast
  have "(2::nat) ^ k \<le> 2 ^ 30" using Cons.prems(5) by (intro power_increasing) simp_all
  then have "unat code < 2 ^ 31" using Cons.prems(4) by simp
  from or_bit_unat [OF this b(2)]
  have next_code: "unat (push_bit 1 code OR b) = 2 * unat code + of_bool w" .
  have "unat (push_bit 1 code OR b) < 2 ^ Suc k"
    unfolding next_code using Cons.prems(4) by (cases w) simp_all
  from Cons.IH [OF _ b(3,4) this] Cons.prems(5) obtain code' r' where
    "code_bits (length ws) (push_bit 1 code OR b) r1 = Inr (code', r')"
    "unat code' = unat (push_bit 1 code OR b) * 2 ^ length ws + val_of ws" "unpacker_inv r'" "pending r' = bs"
    by auto
  with b Cons.prems(1) next_code show ?case by (simp add: val_of_Cons algebra_simps)
qed

lemma val_of_take_bits_of:
  assumes "v < 2 ^ n" and "b \<le> n"
  shows "val_of (take b (bits_of n v)) = v div 2 ^ (n - b)"
proof -
  have "v < 2 ^ b * 2 ^ (n - b)" using assms by (simp flip: power_add)
  then have "v div 2 ^ (n - b) < 2 ^ b" by (rule less_mult_imp_div_less)
  then have *: "val_of (bits_of b (drop_bit (n - b) v)) = v div 2 ^ (n - b)"
    by (simp add: val_of_bits_of_nat drop_bit_eq_div)
  have "take b (bits_of (b + (n - b)) v) = bits_of b (drop_bit (n - b) v)"
    by (subst bits_of_add) simp
  then show ?thesis using assms(2) * by simp
qed

definition same_codes :: "dec_code list \<Rightarrow> dec_code list \<Rightarrow> bool" where
  "same_codes cs ds \<longleftrightarrow>
     map (\<lambda>c. (dc_symbol c, dc_bits c, dc_value c)) cs = map (\<lambda>c. (dc_symbol c, dc_bits c, dc_value c)) ds"

lemma scan_codes_hit:
  fixes x :: dec_code
  defines "word \<equiv> bits_of (dc_bits x) (dc_value x)"
  assumes x: "dc_value x < 2 ^ dc_bits x" "dc_bits x < 31"
    and pre: "\<forall>e \<in> set pre. dc_value e < 2 ^ 31 \<and> dc_value x div 2 ^ (dc_bits x - dc_bits e) \<noteq> dc_value e"
    and sorted: "sorted (bits # map dc_bits pre @ [dc_bits x])"
    and code: "unat code = val_of (take bits word)"
    and r: "unpacker_inv r" "pending r = drop bits word @ bs"
  obtains cs r' where "scan_codes (pre @ x # post) bits code r = Inr (dc_symbol x, cs, r')"
    and "same_codes cs (pre @ x # post)" and "unpacker_inv r'" and "pending r' = bs"
  using pre sorted code r
proof (induction pre arbitrary: bits code r thesis)
  case Nil
  let ?n = "dc_bits x - bits"
  have n: "length (drop bits word) = ?n" "bits \<le> dc_bits x" using Nil.prems(3) by (simp_all add: word_def)
  have "unat code < 2 ^ bits"
    using Nil.prems(4) val_of_less [of "take bits word"] n(2) by (simp add: word_def)
  from code_bits_spec [OF Nil.prems(5,6) this] n x(2) obtain code' r' where
    c: "code_bits ?n code r = Inr (code', r')" "unat code' = unat code * 2 ^ ?n + val_of (drop bits word)"
      "unpacker_inv r'" "pending r' = bs" by (metis add_diff_inverse_nat less_imp_le not_less Suc_leI less_Suc_eq_le numeral_eq_Suc pred_numeral_simps(3))
  have "unat code' = val_of (take bits word @ drop bits word)"
    unfolding val_of_append n(1) c(2) Nil.prems(4) by simp
  then have "unat code' = dc_value x" using x(1) by (simp add: word_def val_of_bits_of_nat)
  then have "code' = word_of_nat (dc_value x)" by (metis of_nat_unat ucast_id)
  with c Nil.prems(1) show ?case by (simp add: same_codes_def)
next
  case (Cons e pre)
  let ?b = "dc_bits e" and ?n = "dc_bits e - bits"
  have le: "bits \<le> ?b" "?b \<le> dc_bits x" using Cons.prems(3) by simp_all
  have "unat code < 2 ^ bits"
    using Cons.prems(4) val_of_less [of "take bits word"] le by (simp add: word_def)
  moreover have ws: "length (take ?n (drop bits word)) = ?n" using le by (simp add: word_def)
  moreover have "pending r = take ?n (drop bits word) @ drop ?b word @ bs"
    using Cons.prems(6) le append_take_drop_id [of ?n "drop bits word"]
    by (simp only: append_assoc [symmetric] drop_drop) simp
  moreover have "bits + ?n \<le> 31" using le x(2) by simp
  ultimately obtain code' r1 where
    c: "code_bits ?n code r = Inr (code', r1)"
      "unat code' = unat code * 2 ^ ?n + val_of (take ?n (drop bits word))"
      "unpacker_inv r1" "pending r1 = drop ?b word @ bs"
    using code_bits_spec [OF Cons.prems(5), of "take ?n (drop bits word)" "drop ?b word @ bs" code bits] by metis
  have "take bits word @ take ?n (drop bits word) = take ?b word"
    using le by (metis le_add_diff_inverse take_add)
  then have c': "unat code' = val_of (take ?b word)"
    using c(2) Cons.prems(4) ws by (metis val_of_append)
  then have "unat code' = dc_value x div 2 ^ (dc_bits x - ?b)"
    using x(1) le(2) by (simp add: word_def val_of_take_bits_of)
  with Cons.prems(2) have "unat code' \<noteq> dc_value e" "dc_value e < 2 ^ 31" by simp_all
  then have miss: "code' \<noteq> word_of_nat (dc_value e)"
    by (auto simp: unsigned_of_nat take_bit_nat_eq_self)
  have "\<forall>e \<in> set pre. dc_value e < 2 ^ 31 \<and> dc_value x div 2 ^ (dc_bits x - dc_bits e) \<noteq> dc_value e"
    "sorted (?b # map dc_bits pre @ [dc_bits x])" using Cons.prems(2,3) by simp_all
  from Cons.IH [OF _ this c' c(3,4)] obtain cs r' where
    "scan_codes (pre @ x # post) ?b code' r1 = Inr (dc_symbol x, cs, r')" "same_codes cs (pre @ x # post)"
    "unpacker_inv r'" "pending r' = bs" by blast
  with c miss le(1) Cons.prems(1) show ?case by (simp add: same_codes_def max_def)
qed

lemma holds_codes_many:
  assumes "holds_codes codes d" and "length codes \<noteq> 1" and "code_table codes"
  shows "dec_codes d \<noteq> []"
  using assms by (auto simp: holds_codes_def code_table_def)

lemma holds_codes_same:
  assumes "holds_codes codes d" and "length codes \<noteq> 1" and "same_codes cs (dec_codes d)"
  shows "holds_codes codes (d\<lparr>dec_codes := cs\<rparr>)"
  using assms by (simp add: holds_codes_def same_codes_def)

lemma decode_symbol_spec:
  assumes ok: "codable codes" and c: "c \<in> set codes" and d: "holds_codes codes d"
    and r: "unpacker_inv r" "pending r = bits_of (hc_bits c) (hc_value c) @ bs"
  obtains d' r' where "decode_symbol d r = Inr (hc_symbol c, d', r')" and "holds_codes codes d'"
    and "unpacker_inv r'" and "pending r' = bs"
proof -
  have ne: "codes \<noteq> []" using c by auto
  note t = codableD [OF ok ne]
  show ?thesis
  proof (cases "length codes = 1")
    case True
    then have only: "codes = [c]" using c by (cases codes) auto
    with t(1) have "(2::nat) ^ hc_bits c = 1" by (auto simp: code_table_def code_intervals_def)
    then have "hc_bits c = 0" by simp
    with True only d r that [of d r] show ?thesis by (simp add: decode_symbol_def holds_codes_def)
  next
    case False
    obtain xs ys where split: "codes = xs @ c # ys" using c by (meson split_list)
    from d False have "map (\<lambda>c. (dc_symbol c, dc_bits c, dc_value c)) (dec_codes d) =
        map (\<lambda>c. (hc_symbol c, hc_bits c, hc_value c)) (xs @ c # ys)"
      by (simp add: holds_codes_def split)
    then obtain pre x post where ds: "dec_codes d = pre @ x # post"
      and pre: "map (\<lambda>c. (dc_symbol c, dc_bits c, dc_value c)) pre = map (\<lambda>c. (hc_symbol c, hc_bits c, hc_value c)) xs"
      and x: "dc_symbol x = hc_symbol c" "dc_bits x = hc_bits c" "dc_value x = hc_value c"
      by (auto simp: map_eq_append_conv map_eq_Cons_conv)
    have pre_bits: "map dc_bits pre = map hc_bits xs"
      using arg_cong [OF pre, of "map (\<lambda>t. fst (snd t))"] by (simp add: o_def)
    have lt: "dc_value x < 2 ^ dc_bits x" using code_table_value_less [OF t(1) c] by (simp add: x)
    have lt31: "dc_bits x < 31" using t(2,3) c by (fastforce simp: x)
    have sort: "sorted_wrt (\<lambda>a b. hc_bits a \<le> hc_bits b) codes"
      using t(1) sorted_bits by (simp add: code_table_def)
    then have "sorted (0 # map dc_bits pre @ [dc_bits x])"
      unfolding pre_bits by (auto simp: split x sorted_wrt_append sorted_wrt_map)
    moreover have "\<forall>e \<in> set pre. dc_value e < 2 ^ 31 \<and> dc_value x div 2 ^ (dc_bits x - dc_bits e) \<noteq> dc_value e"
    proof
      fix e assume "e \<in> set pre"
      then have "(dc_symbol e, dc_bits e, dc_value e) \<in> set (map (\<lambda>c. (dc_symbol c, dc_bits c, dc_value c)) pre)"
        by auto
      then obtain y where y: "y \<in> set xs" "dc_bits e = hc_bits y" "dc_value e = hc_value y"
        unfolding pre by auto
      have le: "hc_bits y \<le> hc_bits c" using sort y(1) by (auto simp: split sorted_wrt_append)
      have "canonical (hc_bits (last codes)) 0 (rev (code_intervals codes))"
        using t(1) by (simp add: code_table_def)
      then have "canonical (hc_bits (last codes)) 0
          (rev (code_intervals ys) @ (hc_bits c, hc_value c) # rev (code_intervals xs))"
        by (simp add: split code_intervals_def)
      from canonical_prefix_less [OF this _ le, of "hc_value y"] y(1)
      have "hc_value c div 2 ^ (hc_bits c - hc_bits y) < hc_value y" by (force simp: code_intervals_def)
      moreover have "hc_value y < 2 ^ hc_bits y"
        using code_table_value_less [OF t(1), of y] y(1) by (simp add: split)
      moreover have "(2::nat) ^ hc_bits y \<le> 2 ^ 31"
        using le lt31 by (intro power_increasing) (simp_all add: x)
      ultimately show "dc_value e < 2 ^ 31 \<and> dc_value x div 2 ^ (dc_bits x - dc_bits e) \<noteq> dc_value e"
        by (simp add: x y)
    qed
    moreover have "unat (0 :: u32) = val_of (take 0 (bits_of (dc_bits x) (dc_value x)))"
      "pending r = drop 0 (bits_of (dc_bits x) (dc_value x)) @ bs" using r(2) by (simp_all add: x)
    ultimately obtain cs r' where
      "scan_codes (dec_codes d) 0 0 r = Inr (hc_symbol c, cs, r')" "same_codes cs (dec_codes d)"
      "unpacker_inv r'" "pending r' = bs"
      unfolding ds x(1) [symmetric] using scan_codes_hit [OF lt lt31 _ _ _ r(1)] by metis
    moreover have "dec_codes d \<noteq> []" by (simp add: ds)
    ultimately show ?thesis
      using that [of "d\<lparr>dec_codes := cs\<rparr>" r'] holds_codes_same [OF d False] by (simp add: decode_symbol_def)
  qed
qed

text \<open>The encoder's side: a symbol of the table is written as its code word.\<close>

lemma write_symbol_find:
  assumes "distinct (map hc_symbol codes)" and "c \<in> set codes"
  shows "write_symbol codes p (hc_symbol c) = packer_u p (hc_bits c) (word_of_nat (hc_value c))"
  using assms by (induction codes) (auto simp: image_iff)

lemma write_symbol_spec:
  assumes "codable codes" and "c \<in> set codes" and "packer_inv p"
  obtains p' where "write_symbol codes p (hc_symbol c) = Inr p'" and "packer_inv p'"
    and "packer_bits p' = packer_bits p @ bits_of (hc_bits c) (hc_value c)"
proof -
  have ne: "codes \<noteq> []" using assms(2) by auto
  note t = codableD [OF assms(1) ne]
  have lt: "hc_bits c < 31" using t(2) t(3) [OF assms(2)] by simp
  have "distinct (map hc_symbol codes)" using t(1) by (simp add: code_table_def)
  moreover obtain p' where "packer_u p (hc_bits c) (word_of_nat (hc_value c)) = Inr p'" "packer_inv p'"
    "packer_bits p' = packer_bits p @ bits_of (hc_bits c) (word_of_nat (hc_value c) :: u32)"
    using pk.put_appends [OF assms(3) lt, of "word_of_nat (hc_value c)"] by blast
  ultimately show ?thesis
    using that assms(2) lt by (simp add: write_symbol_find bits_of_word_of_nat)
qed

end
