(* ===== verification/HuffmanRoundtrip.thy ===== *)
theory HuffmanRoundtrip
  imports HuffmanDepth HuffmanDecoder Bitstream
begin

text \<open>
  encoder/src/HuffmanEncoder.cpp against decoder/src/HuffmanDecoder.cpp: what the finished tables
  promise (a complete prefix-free code for exactly the counted symbols, with short code words),
  and the trip of a table and of a list of symbols through a packet.
\<close>

definition write_symbols :: "hcode list \<Rightarrow> nat list \<Rightarrow> packer \<Rightarrow> packer result" where
  "write_symbols codes = fold_result (\<lambda>s p. write_symbol codes p s)"

fun decode_symbols :: "nat \<Rightarrow> huffman_decoder \<Rightarrow> unpacker \<Rightarrow> (nat list \<times> huffman_decoder \<times> unpacker) result" where
  "decode_symbols 0 d r = Inr ([], d, r)"
| "decode_symbols (Suc n) d r =
     rbind (decode_symbol d r) (\<lambda>(s, d, r).
     rbind (decode_symbols n d r) (\<lambda>(ss, d, r). Inr (s # ss, d, r)))"

definition symbol_word :: "hcode \<Rightarrow> bool list" where
  "symbol_word c = bits_of (hc_bits c) (hc_value c)"

lemma decode_symbols_spec:
  assumes ok: "codable codes"
  shows "set cs \<subseteq> set codes \<Longrightarrow> holds_codes codes d \<Longrightarrow> unpacker_inv r \<Longrightarrow>
    pending r = concat (map symbol_word cs) @ bs \<Longrightarrow>
    \<exists>d' r'. decode_symbols (length cs) d r = Inr (map hc_symbol cs, d', r') \<and> pending r' = bs"
proof (induction cs arbitrary: d r)
  case (Cons c cs)
  have "pending r = bits_of (hc_bits c) (hc_value c) @ (concat (map symbol_word cs) @ bs)"
    using Cons.prems(4) by (simp add: symbol_word_def [of c])
  with Cons.prems obtain d1 r1 where d1: "decode_symbol d r = Inr (hc_symbol c, d1, r1)" "holds_codes codes d1"
    "unpacker_inv r1" "pending r1 = concat (map symbol_word cs) @ bs"
    using decode_symbol_spec [OF ok, of c d r] by (metis list.set_intros(1) subsetD)
  with Cons.IH [of d1 r1] Cons.prems(1) show ?case by auto
qed simp

lemma write_symbols_spec:
  assumes ok: "codable codes"
  shows "set cs \<subseteq> set codes \<Longrightarrow> packer_inv p \<Longrightarrow>
    \<exists>p'. write_symbols codes (map hc_symbol cs) p = Inr p' \<and> packer_inv p' \<and>
      packer_bits p' = packer_bits p @ concat (map symbol_word cs)"
proof (induction cs arbitrary: p)
  case Nil
  then show ?case by (simp add: write_symbols_def)
next
  case (Cons c cs)
  then have c: "c \<in> set codes" by simp
  obtain p1 where p1: "write_symbol codes p (hc_symbol c) = Inr p1" "packer_inv p1"
    "packer_bits p1 = packer_bits p @ bits_of (hc_bits c) (hc_value c)"
    by (rule write_symbol_spec [OF ok c Cons.prems(2)])
  with Cons.IH [of p1] Cons.prems(1) show ?case by (auto simp: write_symbols_def symbol_word_def)
qed

lemma builder_codable:
  assumes "builder_finish b = Inr codes" and "total_count b < 3524578"
  shows "codable codes" and "set (map hc_symbol codes) = set (counted b)"
    and "distinct codes" and "codes \<noteq> [] \<Longrightarrow> code_table codes"
proof -
  obtain codes' where c: "builder_finish b = Inr codes'" "set (map hc_symbol codes') = set (counted b)"
    "codes' = [] \<or> code_table codes'"
    using builder_finish_spec [of b] by blast
  then have [simp]: "codes' = codes" using assms(1) by simp
  show "set (map hc_symbol codes) = set (counted b)" using c(2) by simp
  show table: "codes \<noteq> [] \<Longrightarrow> code_table codes" using c(3) by simp
  then show "codable codes"
    using builder_short [OF assms(1) _ assms(2)] by (simp add: codable_def)
  show "distinct codes" using table by (cases "codes = []") (auto simp: code_table_def distinct_map)
qed

text \<open>A table, and then the code words of a list of its entries, through a packet.\<close>

lemma table_through:
  assumes ok: "codable codes" and cs: "set cs \<subseteq> set codes"
  obtains w r d r1 d' r' where "rbind (write_codes codes packer_new) (write_symbols codes (map hc_symbol cs)) = Inr w"
    and "through_packet w = Inr r" and "read_codes decoder_new r = Inr (d, r1)"
    and "holds_codes codes d"
    and "decode_symbols (length cs) d r1 = Inr (map hc_symbol cs, d', r')" and "length (pending r') < 8"
proof -
  obtain fs where fs: "code_fields codes = Inr fs" "\<forall>(n, v) \<in> set fs. n < 31"
    by (rule code_fields_widths [OF ok])
  obtain p where p: "write_fields packer_u fs packer_new = Inr p" "packer_inv p"
    "packer_bits p = packer_bits packer_new @ field_bits fs"
    using pk.put_fields [of packer_new fs] fs(2) by auto
  obtain w where w: "write_symbols codes (map hc_symbol cs) p = Inr w" "packer_inv w"
    "packer_bits w = field_bits fs @ concat (map symbol_word cs)"
    using write_symbols_spec [OF ok cs p(2)] p(3) by auto
  obtain r k where r: "through_packet w = Inr r" "unpacker_inv r" "k < 8"
    "pending r = packer_bits w @ replicate k False"
    by (rule through_packet_spec [OF w(2)])
  have "pending r = field_bits fs @ (concat (map symbol_word cs) @ replicate k False)" using r(4) w(3) by simp
  then obtain d r1 where d: "read_codes decoder_new r = Inr (d, r1)" "holds_codes codes d" "unpacker_inv r1"
    "pending r1 = concat (map symbol_word cs) @ replicate k False" by (rule read_codes_spec [OF ok fs(1) r(2)])
  from decode_symbols_spec [OF ok cs d(2-4)] obtain d' r' where
    "decode_symbols (length cs) d r1 = Inr (map hc_symbol cs, d', r')" "pending r' = replicate k False" by blast
  moreover have "rbind (write_codes codes packer_new) (write_symbols codes (map hc_symbol cs)) = Inr w"
    using p(1) fs(1) w(1) by (simp add: write_codes_def)
  moreover have "length (pending r') < 8" using calculation(2) r(3) by (simp del: length_pending)
  ultimately show thesis by (intro that [OF _ r(1) d(1,2)])
qed

text \<open>No code word of a table is the beginning of another one: a decoder would hand out both symbols.\<close>

lemma codes_prefix_free:
  assumes ok: "codable codes" and c: "c \<in> set codes" "c' \<in> set codes"
    and pre: "symbol_word c' = symbol_word c @ bs"
  shows "c = c'"
proof -
  obtain r d r1 where r: "read_codes decoder_new r = Inr (d, r1)" "holds_codes codes d"
    by (rule table_through [OF ok, of "[]"]) simp
  obtain p where p: "write_symbols codes (map hc_symbol [c']) packer_new = Inr p" "packer_inv p"
    "packer_bits p = symbol_word c'"
    using write_symbols_spec [OF ok, of "[c']" packer_new] c(2) by auto
  obtain s k where s: "through_packet p = Inr s" "unpacker_inv s" "pending s = packer_bits p @ replicate k False"
    using through_packet_spec [OF p(2)] by metis
  have "pending s = concat (map symbol_word [c']) @ replicate k False" using s(3) p(3) by simp
  from decode_symbols_spec [OF ok _ r(2) s(2) this] c(2) obtain x y where
    x: "decode_symbol d s = Inr (hc_symbol c', x, y)" by (auto simp: rbind_eq_Inr)
  have "pending s = concat (map symbol_word [c]) @ (bs @ replicate k False)" using s(3) p(3) pre by simp
  from decode_symbols_spec [OF ok _ r(2) s(2) this] c(1) obtain x' y' where
    "decode_symbol d s = Inr (hc_symbol c, x', y')" by (auto simp: rbind_eq_Inr)
  with x have "hc_symbol c = hc_symbol c'" by simp
  moreover have "distinct (map hc_symbol codes)" using ok c(1) by (auto simp: codable_def code_table_def)
  ultimately show ?thesis using c by (auto simp: distinct_map dest: inj_onD)
qed

section \<open>Properties\<close>

text \<open>
  C13: \<open>HuffmanEncoderBuilder::finish\<close> never fails. Fewer than 3,524,578 symbols get a table with
  one entry for each symbol that was counted, whose code words have at most 30 bits, are not a
  beginning of one another, and use up the code space (their weights sum to one).
\<close>

theorem huffman_table:
  assumes "total_count b < 3524578"
  shows "\<exists>codes. builder_finish b = Inr codes \<and> distinct codes \<and>
    set (map hc_symbol codes) = {s. s < max_symbol \<and> symbol_counts b ! s \<noteq> 0} \<and>
    (\<forall>c \<in> set codes. hc_bits c \<le> 30) \<and>
    (\<forall>c \<in> set codes. \<forall>c' \<in> set codes. \<forall>bs. symbol_word c' = symbol_word c @ bs \<longrightarrow> c = c') \<and>
    (codes \<noteq> [] \<longrightarrow> (\<Sum>c \<leftarrow> codes. 2 ^ (hc_bits (last codes) - hc_bits c)) = (2 :: nat) ^ hc_bits (last codes))"
proof -
  obtain codes where fin: "builder_finish b = Inr codes" using builder_finish_spec [of b] by blast
  note ok = builder_codable [OF fin assms]
  have "set (map hc_symbol codes) = {s. s < max_symbol \<and> symbol_counts b ! s \<noteq> 0}"
    unfolding ok(2) by (auto simp: counted_def)
  moreover have "\<forall>c \<in> set codes. hc_bits c \<le> 30" using builder_short [OF fin _ assms] by fastforce
  moreover have "(\<Sum>c \<leftarrow> codes. 2 ^ (hc_bits (last codes) - hc_bits c)) = (2 :: nat) ^ hc_bits (last codes)"
    if "codes \<noteq> []"
  proof -
    have "kraft (hc_bits (last codes)) (rev (map hc_bits codes)) = 2 ^ hc_bits (last codes)"
      using ok(4) [OF that] canonical_kraft [of "hc_bits (last codes)" "rev (code_intervals codes)"]
      by (simp add: code_table_def code_intervals_def rev_map o_def)
    then show ?thesis by (simp add: kraft_def rev_map sum_list_rev o_def flip: rev_map)
  qed
  moreover have "\<forall>c \<in> set codes. \<forall>c' \<in> set codes. \<forall>bs. symbol_word c' = symbol_word c @ bs \<longrightarrow> c = c'"
    using codes_prefix_free [OF ok(1)] by blast
  ultimately show ?thesis using fin ok(3) by (intro exI [of _ codes] conjI impI)
qed

definition sample_builder :: huffman_builder where
  "sample_builder = \<lparr>symbol_counts = (replicate max_symbol 0)[3 := 5, 7 := 1, 9 := 2]\<rparr>"

lemma sample_builder_total: "total_count sample_builder = 8"
  by code_simp

theorem huffman_table_witness:
  "\<exists>codes. builder_finish sample_builder = Inr codes \<and> distinct codes \<and> (\<forall>c \<in> set codes. hc_bits c \<le> 30)"
  using huffman_table [of sample_builder] by (auto simp: sample_builder_total)

text \<open>
  C12: a table of fewer than 3,524,578 counted symbols and any list of these symbols, written into
  one packet, are read back: \<open>read_codes\<close> rebuilds the table and \<open>decode_symbol\<close> the list, with
  fewer than eight bits left over.
\<close>

theorem huffman_roundtrip:
  assumes fin: "builder_finish b = Inr codes" and small: "total_count b < 3524578"
    and ss: "\<forall>s \<in> set ss. s < max_symbol \<and> symbol_counts b ! s \<noteq> 0"
  shows "\<exists>w r d r1 d' r'. rbind (write_codes codes packer_new) (write_symbols codes ss) = Inr w \<and>
    through_packet w = Inr r \<and> read_codes decoder_new r = Inr (d, r1) \<and>
    decode_symbols (length ss) d r1 = Inr (ss, d', r') \<and> up_remaining_bits r' < 8"
proof -
  note ok = builder_codable [OF fin small]
  have "\<forall>s \<in> set ss. \<exists>c. c \<in> set codes \<and> hc_symbol c = s"
  proof
    fix s assume "s \<in> set ss"
    then have "s \<in> set (map hc_symbol codes)" unfolding ok(2) using ss by (auto simp: counted_def)
    then show "\<exists>c. c \<in> set codes \<and> hc_symbol c = s" by auto
  qed
  then obtain f where f: "\<forall>s \<in> set ss. f s \<in> set codes \<and> hc_symbol (f s) = s" by metis
  then have "set (map f ss) \<subseteq> set codes" "map hc_symbol (map f ss) = ss" by (auto intro: map_idI)
  from table_through [OF ok(1) this(1), unfolded this(2) length_map] show ?thesis
    unfolding up_remaining_bits_pending by metis
qed

lemma sample_builder_finish: "\<exists>codes. builder_finish sample_builder = Inr codes"
  using builder_finish_spec [of sample_builder] by blast

theorem huffman_roundtrip_witness:
  "\<exists>codes w r d r1 d' r'. builder_finish sample_builder = Inr codes \<and>
    rbind (write_codes codes packer_new) (write_symbols codes [3, 9, 9, 7, 3]) = Inr w \<and>
    through_packet w = Inr r \<and> read_codes decoder_new r = Inr (d, r1) \<and>
    decode_symbols 5 d r1 = Inr ([3, 9, 9, 7, 3], d', r') \<and> up_remaining_bits r' < 8"
proof -
  obtain codes where codes: "builder_finish sample_builder = Inr codes" using sample_builder_finish by blast
  have "\<forall>s \<in> set [3, 9, 9, 7, 3]. s < max_symbol \<and> symbol_counts sample_builder ! s \<noteq> 0"
    by (simp add: sample_builder_def nth_list_update)
  moreover have "total_count sample_builder < 3524578" by (simp add: sample_builder_total)
  moreover have "length [3, 9, 9, 7, 3 :: nat] = 5" by simp
  ultimately show ?thesis using huffman_roundtrip [OF codes] codes by metis
qed

end
