(* ===== verification/Surface.thy ===== *)
theory Surface
  imports Prelude
begin

text \<open>
  util/include/Surface.hpp and SurfaceImpl.hpp: a surface is a finished plane of pixels, read
  through a view; a builder reserves a plane, is written pixel by pixel and finished. A plane is
  held row by row in a list. A reserved buffer is not initialised, so a builder holds optional
  pixels; \<open>finish\<close> yields a surface once every pixel has been written. Bytes per pixel, strides,
  the pointer arithmetic inside one plane and shared buffers of sub-rectangles are not modelled;
  \<open>data(x, y)\<close> followed by \<open>*p++\<close> along a row is the access to the pixels from \<open>(x, y)\<close> on.
\<close>

section \<open>Scans\<close>

text \<open>
  The positions \<open>(x, y)\<close> that two nested loops over the rows and columns of a
  \<open>w\<close> by \<open>h\<close> rectangle visit, and those of the four nested loops that visit a plane tile by
  tile, \<open>d\<close> by \<open>d\<close>, with part tiles at the right and lower edge.
\<close>

definition raster :: "nat \<Rightarrow> nat \<Rightarrow> (nat \<times> nat) list" where
  "raster w h = [(x, y). y \<leftarrow> [0..<h], x \<leftarrow> [0..<w]]"

definition steps :: "nat \<Rightarrow> nat \<Rightarrow> nat list" where
  "steps d n = map (\<lambda>k. k * d) [0..<(n + d - 1) div d]"

definition tile_raster :: "nat \<Rightarrow> nat \<Rightarrow> nat \<Rightarrow> nat \<Rightarrow> nat \<Rightarrow> (nat \<times> nat) list" where
  "tile_raster d w h tx ty =
     [(x, y). y \<leftarrow> [ty..<min (ty + d) h], x \<leftarrow> [tx..<min (tx + d) w]]"

definition tiled :: "nat \<Rightarrow> nat \<Rightarrow> nat \<Rightarrow> (nat \<times> nat) list" where
  "tiled d w h = concat (map (\<lambda>ty. concat (map (\<lambda>tx. tile_raster d w h tx ty) (steps d w))) (steps d h))"

lemma distinct_concat_map:
  assumes "distinct is" and "\<And>i. i \<in> set is \<Longrightarrow> distinct (f i)"
    and "\<And>i j. i \<in> set is \<Longrightarrow> j \<in> set is \<Longrightarrow> i \<noteq> j \<Longrightarrow> set (f i) \<inter> set (f j) = {}"
  shows "distinct (concat (map f is))"
  using assms
proof (induction "is")
  case (Cons i "is")
  have "set (f i) \<inter> set (f j) = {}" if "j \<in> set is" for j
    using that Cons.prems(1) by (intro Cons.prems(3)) auto
  moreover have "distinct (concat (map f is))"
    using Cons.prems by (intro Cons.IH) auto
  ultimately show ?case using Cons.prems(2) by auto
qed simp

lemma raster_product: "raster w h = concat (map (\<lambda>y. map (\<lambda>x. (x, y)) [0..<w]) [0..<h])"
  by (simp add: raster_def)

lemma set_raster [simp]: "set (raster w h) = {0..<w} \<times> {0..<h}"
  by (auto simp: raster_def)

lemma length_raster [simp]: "length (raster w h) = h * w"
  by (simp add: raster_product length_concat o_def sum_list_triv)

lemma distinct_raster [simp]: "distinct (raster w h)"
  unfolding raster_product by (rule distinct_concat_map) (auto simp: distinct_map inj_on_def)

lemma raster_Suc: "raster w (Suc h) = raster w h @ map (\<lambda>x. (x, h)) [0..<w]"
  by (simp add: raster_product)

lemma raster_nth: "x < w \<Longrightarrow> y < h \<Longrightarrow> raster w h ! (y * w + x) = (x, y)"
proof (induction h)
  case (Suc h)
  show ?case
  proof (cases "y < h")
    case True
    have "y * w + x < h * w"
      using True Suc.prems(1) by (metis add.commute less_le_trans mult_Suc mult_le_mono1 nat_add_left_cancel_less Suc_leI)
    with Suc True show ?thesis by (simp add: raster_Suc nth_append)
  next
    case False
    with Suc.prems have "y = h" by simp
    with Suc.prems show ?thesis by (simp add: raster_Suc nth_append)
  qed
qed simp

lemma set_steps: "0 < d \<Longrightarrow> set (steps d n) = {t. t < n \<and> d dvd t}"
proof (intro set_eqI iffI)
  fix t assume d: "0 < d" and "t \<in> set (steps d n)"
  then obtain k where k: "t = k * d" "k < (n + d - 1) div d" by (auto simp: steps_def)
  from k(2) have "Suc k \<le> (n + d - 1) div d" by simp
  then have "Suc k * d \<le> n + d - 1" using less_eq_div_iff_mult_less_eq [OF d] by blast
  with k(1) d show "t \<in> {t. t < n \<and> d dvd t}" by simp
next
  fix t assume d: "0 < d" and "t \<in> {t. t < n \<and> d dvd t}"
  then obtain k where k: "t = k * d" "k * d < n" by (auto elim: dvdE simp: mult.commute)
  then have "Suc k * d \<le> n + d - 1" by simp
  then have "Suc k \<le> (n + d - 1) div d" using less_eq_div_iff_mult_less_eq [OF d] by blast
  with k(1) show "t \<in> set (steps d n)" by (auto simp: steps_def)
qed

lemma distinct_steps: "0 < d \<Longrightarrow> distinct (steps d n)"
  by (simp add: steps_def distinct_map inj_on_def)

lemma set_tile_raster:
  "set (tile_raster d w h tx ty) = {tx..<min (tx + d) w} \<times> {ty..<min (ty + d) h}"
  by (auto simp: tile_raster_def)

lemma distinct_tile_raster: "distinct (tile_raster d w h tx ty)"
  unfolding tile_raster_def by (rule distinct_concat_map) (auto simp: distinct_map inj_on_def)

lemma tile_origin:
  assumes "(d::nat) dvd t" and "t \<le> x" and "x < t + d"
  shows "t = d * (x div d)"
proof -
  from assms(1) obtain k where k: "t = d * k" by (auto elim: dvdE)
  have "x div d = k"
    using assms(2,3) by (intro div_nat_eqI) (simp_all add: k mult.commute)
  with k show ?thesis by simp
qed

lemma set_tiled:
  assumes "0 < d"
  shows "set (tiled d w h) = {0..<w} \<times> {0..<h}"
proof (intro set_eqI iffI)
  fix p assume "p \<in> set (tiled d w h)"
  then show "p \<in> {0..<w} \<times> {0..<h}" by (auto simp: tiled_def set_tile_raster)
next
  fix p assume "p \<in> {0..<w} \<times> {0..<h}"
  then obtain x y where p: "p = (x, y)" "x < w" "y < h" by auto
  have *: "d * (z div d) \<le> z" "z < d * (z div d) + d" "d dvd d * (z div d)" for z
    using assms mod_less_divisor [of d z] mult_div_mod_eq [of d z] by (simp_all, linarith)
  have "d * (x div d) \<in> set (steps d w)" "d * (y div d) \<in> set (steps d h)"
    using p(2,3) by (simp_all add: set_steps [OF assms] le_less_trans [OF *(1)])
  moreover have "p \<in> set (tile_raster d w h (d * (x div d)) (d * (y div d)))"
    using * p by (simp add: set_tile_raster)
  ultimately show "p \<in> set (tiled d w h)" unfolding tiled_def by auto
qed

lemma distinct_tiled:
  assumes "0 < d"
  shows "distinct (tiled d w h)"
proof -
  have origin: "t = t'" if "t \<in> set (steps d n)" "t' \<in> set (steps d n)"
    "z \<in> {t..<min (t + d) n}" "z \<in> {t'..<min (t' + d) n}" for t t' z n
    using that tile_origin [of d t z] tile_origin [of d t' z] by (auto simp: set_steps [OF assms])
  show ?thesis
    unfolding tiled_def
  proof (rule distinct_concat_map)
    show "distinct (steps d h)" by (rule distinct_steps [OF assms])
  next
    fix ty assume "ty \<in> set (steps d h)"
    show "distinct (concat (map (\<lambda>tx. tile_raster d w h tx ty) (steps d w)))"
    proof (rule distinct_concat_map)
      fix i j assume "i \<in> set (steps d w)" "j \<in> set (steps d w)" "i \<noteq> j"
      then have "{i..<min (i + d) w} \<inter> {j..<min (j + d) w} = {}"
        using origin [of i w j] by blast
      then show "set (tile_raster d w h i ty) \<inter> set (tile_raster d w h j ty) = {}"
        by (simp only: set_tile_raster Times_Int_Times Sigma_empty1)
    qed (rule distinct_steps [OF assms] distinct_tile_raster)+
  next
    fix i j assume "i \<in> set (steps d h)" "j \<in> set (steps d h)" "i \<noteq> j"
    then show "set (concat (map (\<lambda>tx. tile_raster d w h tx i) (steps d w))) \<inter>
        set (concat (map (\<lambda>tx. tile_raster d w h tx j) (steps d w))) = {}"
      using origin [of i h j] by (fastforce simp: set_tile_raster)
  qed
qed

text \<open>Both scans start at the origin of a plane that has pixels.\<close>

lemma raster_Cons: "0 < w \<Longrightarrow> 0 < h \<Longrightarrow> raster w h = (0, 0) # tl (raster w h)"
  by (cases "raster w h") (use raster_nth [of 0 w 0 h] in \<open>auto simp: raster_product upt_conv_Cons\<close>)

lemma tiled_Cons: "0 < d \<Longrightarrow> 0 < w \<Longrightarrow> 0 < h \<Longrightarrow> tiled d w h = (0, 0) # tl (tiled d w h)"
  by (simp add: tiled_def steps_def upt_conv_Cons div_greater_zero_iff Suc_le_eq tile_raster_def)

section \<open>Surfaces\<close>

record 'p surface =
  sf_width :: nat
  sf_height :: nat
  sf_pixels :: "'p list"

definition surface_wf :: "'p surface \<Rightarrow> bool" where
  "surface_wf s \<longleftrightarrow> length (sf_pixels s) = sf_height s * sf_width s"

text \<open>\<open>SurfaceView::read\<close> of a view with a shift \<open>S\<close> of the coordinates.\<close>

definition view_read :: "nat \<Rightarrow> 'p surface \<Rightarrow> nat \<Rightarrow> nat \<Rightarrow> 'p result" where
  "view_read S s x y =
     rbind (assert_that (drop_bit S x < sf_width s \<and> drop_bit S y < sf_height s)) (\<lambda>_.
     Inr (sf_pixels s ! (drop_bit S y * sf_width s + drop_bit S x)))"

abbreviation surface_read :: "'p surface \<Rightarrow> nat \<Rightarrow> nat \<Rightarrow> 'p result" where
  "surface_read \<equiv> view_read 0"

record 'p surface_builder =
  sb_width :: nat
  sb_height :: nat
  sb_pixels :: "'p option list"

definition surface_reserve :: "nat \<Rightarrow> nat \<Rightarrow> 'p surface_builder" where
  "surface_reserve w h = \<lparr>sb_width = w, sb_height = h, sb_pixels = replicate (h * w) None\<rparr>"

definition surface_write :: "nat \<Rightarrow> nat \<Rightarrow> 'p \<Rightarrow> 'p surface_builder \<Rightarrow> 'p surface_builder result" where
  "surface_write x y p b =
     rbind (assert_that (x < sb_width b \<and> y < sb_height b)) (\<lambda>_.
     Inr (b\<lparr>sb_pixels := (sb_pixels b)[y * sb_width b + x := Some p]\<rparr>))"

definition surface_finish :: "'p surface_builder \<Rightarrow> 'p surface result" where
  "surface_finish b =
     (if None \<in> set (sb_pixels b) then Inl UndefinedBehaviour
      else Inr \<lparr>sf_width = sb_width b, sf_height = sb_height b, sf_pixels = map the (sb_pixels b)\<rparr>)"

definition surface_generate :: "nat \<Rightarrow> nat \<Rightarrow> (nat \<Rightarrow> nat \<Rightarrow> 'p result) \<Rightarrow> 'p surface_builder result" where
  "surface_generate w h fn =
     fold_result (\<lambda>(x, y) b. rbind (fn x y) (\<lambda>p. surface_write x y p b)) (raster w h) (surface_reserve w h)"

definition surface_fill :: "'p \<Rightarrow> nat \<Rightarrow> nat \<Rightarrow> 'p surface_builder result" where
  "surface_fill p w h = fold_result (\<lambda>(x, y) b. surface_write x y p b) (raster w h) (surface_reserve w h)"

text \<open>\<open>generate(...).finish()\<close>, the usual way to make a surface.\<close>

definition surface_build :: "nat \<Rightarrow> nat \<Rightarrow> (nat \<Rightarrow> nat \<Rightarrow> 'p result) \<Rightarrow> 'p surface result" where
  "surface_build w h fn = rbind (surface_generate w h fn) surface_finish"

section \<open>What a finished builder holds\<close>

definition pixel :: "'p surface \<Rightarrow> nat \<Rightarrow> nat \<Rightarrow> 'p" where
  "pixel s x y = sf_pixels s ! (y * sf_width s + x)"

definition surface_of :: "nat \<Rightarrow> nat \<Rightarrow> (nat \<Rightarrow> nat \<Rightarrow> 'p) \<Rightarrow> 'p surface" where
  "surface_of w h g = \<lparr>sf_width = w, sf_height = h, sf_pixels = map (\<lambda>(x, y). g x y) (raster w h)\<rparr>"

lemma surface_of_simps [simp]:
  "sf_width (surface_of w h g) = w" "sf_height (surface_of w h g) = h"
  "surface_wf (surface_of w h g)"
  by (simp_all add: surface_of_def surface_wf_def)

lemma raster_index: "x < w \<Longrightarrow> y < h \<Longrightarrow> y * w + x < h * (w :: nat)"
  by (metis add.commute less_le_trans mult_Suc mult_le_mono1 nat_add_left_cancel_less Suc_leI)

lemma pixel_surface_of [simp]: "x < w \<Longrightarrow> y < h \<Longrightarrow> pixel (surface_of w h g) x y = g x y"
  by (simp add: pixel_def surface_of_def raster_nth raster_index)

lemma view_read_simps [simp]:
  "drop_bit S x < sf_width s \<Longrightarrow> drop_bit S y < sf_height s \<Longrightarrow>
     view_read S s x y = Inr (pixel s (drop_bit S x) (drop_bit S y))"
  "\<not> drop_bit S x < sf_width s \<or> \<not> drop_bit S y < sf_height s \<Longrightarrow> view_read S s x y = Inl AssertFailed"
  by (auto simp: view_read_def pixel_def assert_that_def)

lemma surface_eq_raster: "surface_wf s \<Longrightarrow> sf_pixels s = map (\<lambda>(x, y). pixel s x y) (raster (sf_width s) (sf_height s))"
proof (rule nth_equalityI)
  fix i assume wf: "surface_wf s" and "i < length (sf_pixels s)"
  then have i: "i < sf_height s * sf_width s" by (simp add: surface_wf_def)
  then have w: "0 < sf_width s" by (cases "sf_width s") auto
  have "i div sf_width s < sf_height s" "i mod sf_width s < sf_width s"
    using i w by (simp_all add: less_mult_imp_div_less)
  from raster_nth [OF this(2,1)] have "raster (sf_width s) (sf_height s) ! i = (i mod sf_width s, i div sf_width s)"
    by simp
  then show "sf_pixels s ! i = map (\<lambda>(x, y). pixel s x y) (raster (sf_width s) (sf_height s)) ! i"
    using i by (simp add: pixel_def)
qed (simp add: surface_wf_def)

lemma surface_eqI:
  fixes s t :: "'p surface"
  assumes "surface_wf s" and "surface_wf t" and "sf_width s = sf_width t" and "sf_height s = sf_height t"
    and "\<And>x y. x < sf_width s \<Longrightarrow> y < sf_height s \<Longrightarrow> pixel s x y = pixel t x y"
  shows "s = t"
proof -
  have "sf_pixels s = sf_pixels t"
    unfolding surface_eq_raster [OF assms(1)] surface_eq_raster [OF assms(2)] using assms(3-5) by auto
  with assms(3,4) show ?thesis by simp
qed

lemma surface_of_pixel: "surface_wf s \<Longrightarrow> surface_of (sf_width s) (sf_height s) (pixel s) = s"
  by (rule surface_eqI) simp_all

text \<open>One pixel is written at each position of a scan that covers the plane.\<close>

definition place :: "(nat \<times> nat) list \<Rightarrow> 'p list \<Rightarrow> 'p surface_builder \<Rightarrow> 'p surface_builder result" where
  "place ps vs = fold_result (\<lambda>((x, y), p). surface_write x y p) (zip ps vs)"

lemma place_simps [simp]:
  "place [] vs b = Inr b" "place ps [] b = Inr b"
  "place ((x, y) # ps) (v # vs) b = rbind (surface_write x y v b) (place ps vs)"
  by (simp_all add: place_def)

definition builder_wf :: "'p surface_builder \<Rightarrow> bool" where
  "builder_wf b \<longleftrightarrow> length (sb_pixels b) = sb_height b * sb_width b"

lemma builder_wf_reserve [simp]: "builder_wf (surface_reserve w h)"
  by (simp add: builder_wf_def surface_reserve_def)

lemma surface_write_simp:
  "x < sb_width b \<Longrightarrow> y < sb_height b \<Longrightarrow>
     surface_write x y p b = Inr (b\<lparr>sb_pixels := (sb_pixels b)[y * sb_width b + x := Some p]\<rparr>)"
  by (simp add: surface_write_def)

lemma index_inj:
  fixes w :: nat
  assumes "x < w" and "x' < w" and "y * w + x = y' * w + x'"
  shows "x = x' \<and> y = y'"
proof -
  have "(y * w + x) div w = y" "(y' * w + x') div w = y'" using assms(1,2) by simp_all
  with assms show ?thesis by simp
qed

lemma place_spec:
  assumes "builder_wf b" and "distinct ps" and "set ps \<subseteq> {0..<sb_width b} \<times> {0..<sb_height b}"
    and "length vs = length ps"
  obtains b' where "place ps vs b = Inr b'" and "builder_wf b'"
    and "sb_width b' = sb_width b" and "sb_height b' = sb_height b"
    and "\<And>i. i < length ps \<Longrightarrow> sb_pixels b' ! (snd (ps ! i) * sb_width b + fst (ps ! i)) = Some (vs ! i)"
    and "\<And>x y. x < sb_width b \<Longrightarrow> (x, y) \<notin> set ps \<Longrightarrow>
           sb_pixels b' ! (y * sb_width b + x) = sb_pixels b ! (y * sb_width b + x)"
  using assms
proof (induction ps arbitrary: vs b thesis)
  case Nil
  then show ?case by simp
next
  case (Cons p ps)
  obtain x y where p: "p = (x, y)" by force
  obtain v vs' where vs: "vs = v # vs'" using Cons.prems(5) by (cases vs) auto
  have xy: "x < sb_width b" "y < sb_height b" "(x, y) \<notin> set ps" using Cons.prems(3,4) p by auto
  define b1 where "b1 = b\<lparr>sb_pixels := (sb_pixels b)[y * sb_width b + x := Some v]\<rparr>"
  have dims: "sb_width b1 = sb_width b" "sb_height b1 = sb_height b" "builder_wf b1"
    using Cons.prems(2) by (simp_all add: b1_def builder_wf_def)
  have prem: "distinct ps" "set ps \<subseteq> {0..<sb_width b1} \<times> {0..<sb_height b1}" "length vs' = length ps"
    using Cons.prems(3-5) dims vs by auto
  from Cons.IH [OF _ dims(3) this] obtain b' where
    b': "place ps vs' b1 = Inr b'" "builder_wf b'" "sb_width b' = sb_width b" "sb_height b' = sb_height b"
      "\<And>i. i < length ps \<Longrightarrow> sb_pixels b' ! (snd (ps ! i) * sb_width b + fst (ps ! i)) = Some (vs' ! i)"
      "\<And>x y. x < sb_width b \<Longrightarrow> (x, y) \<notin> set ps \<Longrightarrow>
           sb_pixels b' ! (y * sb_width b + x) = sb_pixels b1 ! (y * sb_width b + x)"
    unfolding dims by blast
  have "place (p # ps) vs b = Inr b'"
    using b'(1) xy p vs by (simp add: surface_write_simp b1_def)
  moreover have "sb_pixels b' ! (snd ((p # ps) ! i) * sb_width b + fst ((p # ps) ! i)) = Some (vs ! i)"
    if "i < length (p # ps)" for i
  proof (cases i)
    case 0
    have "y * sb_width b + x < length (sb_pixels b)"
      using Cons.prems(2) raster_index [OF xy(1,2)] by (simp add: builder_wf_def)
    then show ?thesis using 0 b'(6) [OF xy(1,3)] by (simp add: p vs b1_def)
  next
    case (Suc j)
    with that b'(5) [of j] show ?thesis by (simp add: vs)
  qed
  moreover have "sb_pixels b' ! (y' * sb_width b + x') = sb_pixels b ! (y' * sb_width b + x')"
    if "x' < sb_width b" "(x', y') \<notin> set (p # ps)" for x' y'
    using that b'(6) [of x' y'] index_inj [OF xy(1) that(1), of y y'] p
    by (auto simp: b1_def nth_list_update_if)
  ultimately show ?case using Cons.prems(1) b'(2-4) by blast
qed

lemma place_finish:
  assumes "distinct ps" and "set ps = {0..<w} \<times> {0..<h}" and "length vs = length ps"
  obtains b s where "place ps vs (surface_reserve w h) = Inr b" and "surface_finish b = Inr s"
    and "surface_wf s" and "sf_width s = w" and "sf_height s = h" and "map (\<lambda>(x, y). pixel s x y) ps = vs"
proof -
  let ?b = "surface_reserve w h :: 'p surface_builder"
  have dims: "sb_width ?b = w" "sb_height ?b = h" by (simp_all add: surface_reserve_def)
  have sub: "set ps \<subseteq> {0..<sb_width ?b} \<times> {0..<sb_height ?b}" using assms(2) by (simp add: dims)
  obtain b where b: "place ps vs ?b = Inr b" "builder_wf b" "sb_width b = w" "sb_height b = h"
    "\<And>i. i < length ps \<Longrightarrow> sb_pixels b ! (snd (ps ! i) * w + fst (ps ! i)) = Some (vs ! i)"
    using place_spec [OF builder_wf_reserve assms(1) sub assms(3)] unfolding dims by metis
  have "sb_pixels b ! j \<noteq> None" if "j < length (sb_pixels b)" for j
  proof -
    have j: "j < h * w" using that b(2-4) by (simp add: builder_wf_def)
    then have "0 < w" by (cases w) auto
    then have "(j mod w, j div w) \<in> set ps" using j assms(2) by (auto simp: less_mult_imp_div_less)
    then obtain i where "i < length ps" "ps ! i = (j mod w, j div w)" by (auto simp: in_set_conv_nth)
    with b(5) [of i] show ?thesis by simp
  qed
  then have "None \<notin> set (sb_pixels b)" by (auto simp: in_set_conv_nth)
  then have fin: "surface_finish b = Inr \<lparr>sf_width = w, sf_height = h, sf_pixels = map the (sb_pixels b)\<rparr>"
    using b(3,4) by (simp add: surface_finish_def)
  let ?s = "\<lparr>sf_width = w, sf_height = h, sf_pixels = map the (sb_pixels b)\<rparr>"
  have len: "length (sb_pixels b) = h * w" using b(2-4) by (simp add: builder_wf_def)
  have "map (\<lambda>(x, y). pixel ?s x y) ps = vs"
  proof (rule nth_equalityI)
    fix i assume "i < length (map (\<lambda>(x, y). pixel ?s x y) ps)"
    then have i: "i < length ps" by simp
    obtain x y where xy: "ps ! i = (x, y)" by force
    then have "(x, y) \<in> set ps" using i by (metis nth_mem)
    then have "y * w + x < h * w" using assms(2) by (auto intro: raster_index)
    with b(5) [OF i] i xy len show "map (\<lambda>(x, y). pixel ?s x y) ps ! i = vs ! i"
      by (simp add: pixel_def)
  qed (simp add: assms(3))
  with that [OF b(1) fin] len show thesis by (simp add: surface_wf_def)
qed

lemma surface_scan_eqI:
  assumes "surface_wf s" and "sf_width s = w" and "sf_height s = h" and "set ps = {0..<w} \<times> {0..<h}"
    and "map (\<lambda>(x, y). pixel s x y) ps = map (\<lambda>(x, y). g x y) ps"
  shows "s = surface_of w h g"
proof (rule surface_eqI)
  fix x y assume "x < sf_width s" "y < sf_height s"
  then have "(x, y) \<in> set ps" using assms(2-4) by auto
  with assms(5) have "pixel s x y = g x y" by auto
  then show "pixel s x y = pixel (surface_of w h g) x y"
    using \<open>x < sf_width s\<close> \<open>y < sf_height s\<close> assms(2,3) by simp
qed (simp_all add: assms)

lemma fold_generate:
  "(\<And>x y. (x, y) \<in> set ps \<Longrightarrow> fn x y = Inr (g x y)) \<Longrightarrow>
     fold_result (\<lambda>(x, y) b. rbind (fn x y) (\<lambda>p. surface_write x y p b)) ps b =
     place ps (map (\<lambda>(x, y). g x y) ps) b"
proof (induction ps arbitrary: b)
  case (Cons p ps)
  obtain x y where p: "p = (x, y)" by force
  have "fold_result (\<lambda>(x, y) b. rbind (fn x y) (\<lambda>p. surface_write x y p b)) ps =
        place ps (map (\<lambda>(x, y). g x y) ps)"
    using Cons by (intro ext) simp
  with Cons.prems [of x y] show ?case by (simp add: p)
qed simp

lemma surface_build_total:
  assumes "\<And>x y. x < w \<Longrightarrow> y < h \<Longrightarrow> fn x y = Inr (g x y)"
  shows "surface_build w h fn = Inr (surface_of w h g)"
proof -
  obtain b s where *: "place (raster w h) (map (\<lambda>(x, y). g x y) (raster w h)) (surface_reserve w h) = Inr b"
    "surface_finish b = Inr s" "surface_wf s" "sf_width s = w" "sf_height s = h"
    "map (\<lambda>(x, y). pixel s x y) (raster w h) = map (\<lambda>(x, y). g x y) (raster w h)"
    using place_finish [of "raster w h" w h "map (\<lambda>(x, y). g x y) (raster w h)"] by auto
  have "surface_generate w h fn = Inr b"
    unfolding surface_generate_def using fold_generate [of "raster w h" fn g] assms *(1) by simp
  with * surface_scan_eqI [OF *(3-5) set_raster *(6)] show ?thesis by (simp add: surface_build_def)
qed

lemma surface_fill_total:
  "\<exists>b. surface_fill p w h = Inr b \<and> surface_finish b = Inr (surface_of w h (\<lambda>x y. p))"
  using surface_build_total [of w h "\<lambda>x y. Inr p" "\<lambda>x y. p"]
  by (auto simp: surface_build_def surface_generate_def surface_fill_def)

end
