(* ===== verification/PlaneLoops.thy ===== *)
theory PlaneLoops
  imports Surface
begin

text \<open>
  Loops over planes with pointers: \<open>data(0, y)\<close> takes a pointer to the start of a row and \<open>*p++\<close> walks
  along it, one pixel per column. And the scalar helpers of util/include/Misc.hpp that the operations
  on planes use.
\<close>

section \<open>Rows\<close>

text \<open>
  Taking a pointer asserts that the row has a pixel; a read past the row reaches the next one.
\<close>

definition row_start :: "nat \<Rightarrow> nat \<Rightarrow> nat \<Rightarrow> unit result" where
  "row_start w h y = assert_that (0 < w \<and> y < h)"

definition row_read :: "'p surface \<Rightarrow> nat \<Rightarrow> nat \<Rightarrow> 'p result" where
  "row_read s y x =
     (if y * sf_width s + x < length (sf_pixels s) then Inr (sf_pixels s ! (y * sf_width s + x))
      else Inl UndefinedBehaviour)"

lemma row_read_pixel [simp]:
  "surface_wf s \<Longrightarrow> x < sf_width s \<Longrightarrow> y < sf_height s \<Longrightarrow> row_read s y x = Inr (pixel s x y)"
  using raster_index [of x "sf_width s" y "sf_height s"] by (simp add: row_read_def pixel_def surface_wf_def)

lemma row_start_simp [simp]: "0 < w \<Longrightarrow> y < h \<Longrightarrow> row_start w h y = Inr ()"
  by (simp add: row_start_def)

abbreviation row_of :: "'p surface \<Rightarrow> nat \<Rightarrow> unit result" where
  "row_of s \<equiv> row_start (sf_width s) (sf_height s)"

text \<open>
  A new plane written row by row: \<open>start y\<close> are the pointers into the sources that a row takes, the
  pointer into the new plane comes after them.
\<close>

definition plane_rows :: "nat \<Rightarrow> nat \<Rightarrow> (nat \<Rightarrow> unit result) \<Rightarrow> (nat \<Rightarrow> nat \<Rightarrow> 'p result) \<Rightarrow> 'p surface result" where
  "plane_rows w h start f =
     rbind (map_result (\<lambda>y.
       rbind (start y) (\<lambda>_.
       rbind (row_start w h y) (\<lambda>_.
       map_result (\<lambda>x. f x y) [0..<w]))) [0..<h]) (\<lambda>rows.
     Inr \<lparr>sf_width = w, sf_height = h, sf_pixels = concat rows\<rparr>)"

lemma plane_rows_total:
  assumes "\<And>y. y < h \<Longrightarrow> 0 < w \<Longrightarrow> start y = Inr ()"
    and "\<And>x y. x < w \<Longrightarrow> y < h \<Longrightarrow> f x y = Inr (g x y)" and "0 < w \<or> h = 0"
  shows "plane_rows w h start f = Inr (surface_of w h g)"
proof -
  have "map_result (\<lambda>y. rbind (start y) (\<lambda>_. rbind (row_start w h y) (\<lambda>_. map_result (\<lambda>x. f x y) [0..<w]))) [0..<h] =
      Inr (map (\<lambda>y. map (\<lambda>x. g x y) [0..<w]) [0..<h])"
  proof (rule map_result_total)
    fix y assume "y \<in> set [0..<h]"
    then have y: "y < h" "0 < w" using assms(3) by auto
    have "map_result (\<lambda>x. f x y) [0..<w] = Inr (map (\<lambda>x. g x y) [0..<w])"
      by (rule map_result_total) (use assms(2) y in auto)
    with assms(1) y show "rbind (start y) (\<lambda>_. rbind (row_start w h y) (\<lambda>_. map_result (\<lambda>x. f x y) [0..<w])) =
        Inr (map (\<lambda>x. g x y) [0..<w])" by simp
  qed
  then show ?thesis by (simp add: plane_rows_def surface_of_def raster_product map_concat o_def)
qed

text \<open>A plane walked from its first pixel to its last, whatever its rows.\<close>

definition linear_read :: "'p surface \<Rightarrow> nat \<Rightarrow> 'p result" where
  "linear_read s i = (if i < length (sf_pixels s) then Inr (sf_pixels s ! i) else Inl UndefinedBehaviour)"

section \<open>Marks\<close>

text \<open>The values of \<open>TemporalType\<close> and \<open>ResidualLabel\<close> in src/Types.hpp.\<close>

abbreviation temporal_pred :: u8 where "temporal_pred \<equiv> 128"
abbreviation temporal_intr :: u8 where "temporal_intr \<equiv> 192"

abbreviation residual_live :: u8 where "residual_live \<equiv> 128"
abbreviation residual_kill :: u8 where "residual_kill \<equiv> 192"

section \<open>Scalars\<close>

text \<open>
  \<open>unsigned\<close> values are natural numbers below \<open>2 ^ 32\<close>; \<open>wrap\<close> marks where a result is reduced. A
  division by zero is undefined, an access outside a vector an error.
\<close>

definition wrap :: "nat \<Rightarrow> nat" where
  "wrap n = n mod 4294967296"

lemma wrap_id [simp]: "n < 4294967296 \<Longrightarrow> wrap n = n"
  by (simp add: wrap_def)

definition udiv :: "nat \<Rightarrow> nat \<Rightarrow> nat result" where
  "udiv n d = (if d = 0 then Inl UndefinedBehaviour else Inr (n div d))"

definition vector_at :: "'a list \<Rightarrow> nat \<Rightarrow> 'a result" where
  "vector_at v i = (if i < length v then Inr (v ! i) else Inl OutOfRange)"

definition clamp :: "'a::linorder \<Rightarrow> 'a \<Rightarrow> 'a \<Rightarrow> 'a" where
  "clamp val l h = max (min val h) l"

definition clamp_int16 :: "int \<Rightarrow> int" where
  "clamp_int16 i = clamp i (- 32768) 32767"

lemma clamp_bounds: "l \<le> h \<Longrightarrow> l \<le> clamp v l h \<and> clamp v l h \<le> h"
  by (simp add: clamp_def)

lemma clamp_id [range_simps]: "l \<le> v \<Longrightarrow> v \<le> h \<Longrightarrow> clamp v l h = v"
  by (simp add: clamp_def)

lemma clamp_int16_id [range_simps]: "is_int16 i \<Longrightarrow> clamp_int16 i = i"
  by (simp add: clamp_int16_def is_int16_def clamp_id)

lemma is_int16_clamp [simp]: "is_int16 (clamp_int16 i)"
  by (simp add: clamp_int16_def is_int16_def clamp_def)

text \<open>The integer logarithm: \<open>while (n >>= 1) r++\<close>.\<close>

function ulog2 :: "nat \<Rightarrow> nat" where
  "ulog2 n = (if n div 2 = 0 then 0 else Suc (ulog2 (n div 2)))"
  by pat_completeness auto
termination
  by (relation "measure id") auto

declare ulog2.simps [simp del]

lemma ulog2_power [simp]: "ulog2 (2 ^ k) = k"
proof (induction k)
  case 0
  show ?case by (simp add: ulog2.simps)
next
  case (Suc k)
  have "ulog2 (2 ^ Suc k) = Suc (ulog2 (2 ^ k))" by (subst ulog2.simps) simp
  with Suc show ?case by simp
qed

text \<open>
  The scale from a map to the plane it covers: \<open>while ((a << s) < b) { t *= 2; ++s; }\<close>. The shift is
  of 32 bits; one by 32 has no meaning, so an empty map over a plane with pixels has no scale.
\<close>

function tile_scale_from :: "nat \<Rightarrow> nat \<Rightarrow> nat \<Rightarrow> nat \<Rightarrow> nat result" where
  "tile_scale_from a b s t =
     (if 32 \<le> s then Inl UndefinedBehaviour
      else if wrap (a * 2 ^ s) < b then tile_scale_from a b (s + 1) (wrap (t * 2))
      else Inr t)"
  by pat_completeness auto
termination
  by (relation "measure (\<lambda>(a, b, s, t). 32 - s)") auto

declare tile_scale_from.simps [simp del]

definition tile_scale :: "nat \<Rightarrow> nat \<Rightarrow> nat result" where
  "tile_scale a b = tile_scale_from a b 0 1"

lemma shift_bound:
  assumes "0 < a" and "a * 2 ^ k < (4294967296 :: nat)"
  shows "k < 32"
proof -
  have "2 ^ k \<le> a * (2 ^ k :: nat)" using assms(1) by simp
  from le_less_trans [OF this assms(2)] have "(2 :: nat) ^ k < 2 ^ 32" by simp
  then show ?thesis by (rule power_less_imp_less_exp [rotated]) simp
qed

lemma tile_scale_from_power:
  assumes "0 < a" and "a * 2 ^ k < 4294967296" and "s \<le> k"
  shows "tile_scale_from a (a * 2 ^ k) s (2 ^ s) = Inr (2 ^ k)"
  using assms(3)
proof (induction "k - s" arbitrary: s)
  case 0
  then have s: "s = k" by simp
  have k: "k < 32" by (rule shift_bound [OF assms(1,2)])
  with k show ?case using assms(2) by (subst tile_scale_from.simps) (simp add: s)
next
  case (Suc n)
  then have s: "s < k" by simp
  have k: "k < 32" by (rule shift_bound [OF assms(1,2)])
  have lt: "a * 2 ^ s < a * (2 :: nat) ^ k" using assms(1) s by simp
  have m: "wrap (a * 2 ^ s) = a * 2 ^ s" using less_trans [OF lt assms(2)] by (rule wrap_id)
  have "(2 :: nat) ^ s * 2 \<le> 2 ^ k" using s power_increasing [of "Suc s" k "2 :: nat"] by simp
  also have "\<dots> < 2 ^ 32" using k by (intro power_strict_increasing) simp_all
  finally have "wrap (2 ^ s * 2) = 2 ^ (s + 1)" by (subst wrap_id) simp_all
  moreover have "tile_scale_from a (a * 2 ^ k) (s + 1) (2 ^ (s + 1)) = Inr (2 ^ k)"
    using Suc.hyps(2) s by (intro Suc.hyps(1)) simp_all
  ultimately show ?case using s k lt m by (subst tile_scale_from.simps) simp
qed

lemma tile_scale_power: "0 < a \<Longrightarrow> a * 2 ^ k < 4294967296 \<Longrightarrow> tile_scale a (a * 2 ^ k) = Inr (2 ^ k)"
  unfolding tile_scale_def using tile_scale_from_power [of a k 0] by simp

end
