(* ===== verification/EntropyEncoder.thy ===== *)
theory EntropyEncoder
  imports HuffmanEncoder PlaneLoops
begin

text \<open>
  encoder/src/EntropyEncoder.cpp: the run-length models of residuals, of masks of flags and of
  sizes, each a list of (state, symbol) pairs with one Huffman builder per state, and the
  encoders that scan a surface into a model and finish it twice, as raw bytes and prefix coded.
  An unsigned run count wraps at \<open>2 ^ 32\<close>; it counts pixels of one surface.
\<close>

section \<open>The models\<close>

record encoded_chunk =
  ck_raw :: packet
  ck_prefix :: packet

definition chunk_none :: encoded_chunk where
  "chunk_none = \<lparr>ck_raw = packet_default, ck_prefix = packet_default\<rparr>"

definition chunk_empty :: "encoded_chunk \<Rightarrow> bool" where
  "chunk_empty c \<longleftrightarrow> packet_empty (ck_raw c) \<and> packet_empty (ck_prefix c)"

record entropy_model =
  em_builders :: "huffman_builder list"
  em_symbols :: "(nat \<times> u8) list"

definition model_new :: "nat \<Rightarrow> entropy_model" where
  "model_new states = \<lparr>em_builders = replicate states builder_new, em_symbols = []\<rparr>"

definition encode_symbol :: "nat \<Rightarrow> nat \<Rightarrow> entropy_model \<Rightarrow> entropy_model result" where
  "encode_symbol state symbol m =
     rbind (add_symbol symbol 1 (em_builders m ! state)) (\<lambda>b.
     Inr (m\<lparr>em_builders := (em_builders m)[state := b],
            em_symbols := em_symbols m @ [(state, word_of_nat symbol)]\<rparr>))"

function encode_high_count :: "nat \<Rightarrow> nat \<Rightarrow> entropy_model \<Rightarrow> entropy_model result" where
  "encode_high_count s c m =
     rbind (if 127 < c then encode_high_count s (drop_bit 7 c) m else Inr m)
       (encode_symbol s ((c AND 127) OR 128))"
  by pat_completeness auto
termination
  by (relation "measure (\<lambda>(s, c, m). c)") (simp_all add: drop_bit_eq_div)

declare encode_high_count.simps [simp del]

text \<open>The states of the residual model, of the flag model and of the size model.\<close>

abbreviation (input) state_lsb :: nat where "state_lsb \<equiv> 0"
abbreviation (input) state_msb :: nat where "state_msb \<equiv> 1"
abbreviation (input) state_zero :: nat where "state_zero \<equiv> 2"

definition residual_encode_run :: "int \<Rightarrow> nat \<Rightarrow> entropy_model \<Rightarrow> entropy_model result" where
  "residual_encode_run residual zeros m =
     (let zeros_bit = (if 0 < zeros then 128 else 0) :: nat in
      rbind
        (if - 32 \<le> residual \<and> residual < 32 then
           encode_symbol state_lsb (nat (residual * 2 + 64) OR zeros_bit) m
         else
           let clamped_residual = push_bit 1 (nat (min (max (residual + 8192) 0) 16383)) in
           rbind (encode_symbol state_lsb ((clamped_residual AND 254) OR 1) m)
             (encode_symbol state_msb ((drop_bit 8 clamped_residual AND 127) OR zeros_bit)))
        (\<lambda>m.
         if zeros_bit \<noteq> 0 then
           rbind (if 127 < zeros then encode_high_count state_zero (drop_bit 7 zeros) m else Inr m)
             (encode_symbol state_zero (zeros AND 127))
         else Inr m))"

definition flag_state :: "bool \<Rightarrow> nat" where
  "flag_state v = (if v then 1 else 0)"

definition flag_encode_run :: "bool \<Rightarrow> nat \<Rightarrow> entropy_model \<Rightarrow> entropy_model result" where
  "flag_encode_run v n m =
     rbind (if 127 < n then encode_high_count (flag_state v) (drop_bit 7 n) m else Inr m)
       (encode_symbol (flag_state v) (n AND 127))"

definition encode_size :: "u16 \<Rightarrow> entropy_model \<Rightarrow> entropy_model result" where
  "encode_size v m =
     rbind (check_that (v \<le> 32767)) (\<lambda>_.
     if v < 128 then encode_symbol state_lsb (unat v * 2) m
     else rbind (encode_symbol state_lsb ((unat v AND 127) * 2 OR 1) m)
            (encode_symbol state_msb (drop_bit 7 (unat v))))"

definition encode_size_delta :: "int \<Rightarrow> entropy_model \<Rightarrow> entropy_model result" where
  "encode_size_delta v m =
     rbind (check_that (- 16384 \<le> v \<and> v \<le> 16383)) (\<lambda>_.
     if - 64 \<le> v \<and> v \<le> 63 then encode_symbol state_lsb (nat (v * 2 AND 255)) m
     else rbind (encode_symbol state_lsb (nat ((v AND 127) * 2 OR 1)) m)
            (encode_symbol state_msb (nat (drop_bit 7 v AND 255))))"

section \<open>Finishing a model\<close>

fun write_tables :: "huffman_builder list \<Rightarrow> packer \<Rightarrow> (hcode list list \<times> packer) result" where
  "write_tables [] p = Inr ([], p)"
| "write_tables (b # bs) p =
     rbind (builder_finish b) (\<lambda>codes.
     rbind (write_codes codes p) (\<lambda>p.
     rbind (write_tables bs p) (\<lambda>(tables, p). Inr (codes # tables, p))))"

definition write_both :: "hcode list list \<Rightarrow> nat \<times> u8 \<Rightarrow> packer \<times> packer \<Rightarrow> (packer \<times> packer) result" where
  "write_both tables = (\<lambda>(state, symbol) (raw, huffman).
     rbind (packer_u raw 8 (ucast symbol)) (\<lambda>raw.
     rbind (write_symbol (tables ! state) huffman (unat symbol)) (\<lambda>huffman.
     Inr (raw, huffman))))"

definition finish_chunk :: "packer \<times> packer \<Rightarrow> encoded_chunk result" where
  "finish_chunk = (\<lambda>(raw, huffman).
     rbind (packer_finish raw) (\<lambda>r. rbind (packer_finish huffman) (\<lambda>p.
     Inr \<lparr>ck_raw = r, ck_prefix = p\<rparr>)))"

definition model_finish :: "entropy_model \<Rightarrow> encoded_chunk result" where
  "model_finish m =
     rbind (write_tables (em_builders m) packer_new) (\<lambda>(tables, huffman).
     rbind (fold_result (write_both tables) (em_symbols m) (packer_new, huffman)) finish_chunk)"

definition flag_finish :: "bool \<Rightarrow> entropy_model \<Rightarrow> encoded_chunk result" where
  "flag_finish start m =
     rbind (write_tables (em_builders m) packer_new) (\<lambda>(tables, huffman).
     rbind (packer_u packer_new 8 (if start then 1 else 0)) (\<lambda>raw.
     rbind (packer_u huffman 8 (if start then 1 else 0)) (\<lambda>huffman.
     rbind (fold_result (write_both tables) (em_symbols m) (raw, huffman)) finish_chunk)))"

section \<open>The encoders\<close>

abbreviation count_up :: "nat \<Rightarrow> nat" where
  "count_up n \<equiv> (n + 1) mod 4294967296"

record residual_scan =
  rs_models :: entropy_model
  rs_residual :: int
  rs_zeros :: nat
  rs_entropy :: bool

definition residual_step :: "int surface \<Rightarrow> nat \<times> nat \<Rightarrow> residual_scan \<Rightarrow> residual_scan result" where
  "residual_step view = (\<lambda>(x, y) s.
     rbind (surface_read view x y) (\<lambda>r.
     let s = (if r \<noteq> 0 then s\<lparr>rs_entropy := True\<rparr> else s) in
     if x = 0 \<and> y = 0 then Inr (s\<lparr>rs_residual := r, rs_zeros := 0\<rparr>)
     else if r = 0 then Inr (s\<lparr>rs_zeros := count_up (rs_zeros s)\<rparr>)
     else
       rbind (residual_encode_run (rs_residual s) (rs_zeros s) (rs_models s)) (\<lambda>m.
       Inr (s\<lparr>rs_models := m, rs_residual := r, rs_zeros := 0\<rparr>))))"

definition residual_finish :: "residual_scan \<Rightarrow> encoded_chunk result" where
  "residual_finish s =
     rbind (residual_encode_run (rs_residual s) (rs_zeros s) (rs_models s)) (\<lambda>m.
     if rs_entropy s then model_finish m else Inr chunk_none)"

definition residual_scan_new :: residual_scan where
  "residual_scan_new = \<lparr>rs_models = model_new 3, rs_residual = 0, rs_zeros = 0, rs_entropy = False\<rparr>"

definition encode_residuals :: "int surface \<Rightarrow> encoded_chunk result" where
  "encode_residuals view =
     rbind (fold_result (residual_step view) (raster (sf_width view) (sf_height view)) residual_scan_new) residual_finish"

text \<open>
  A block size of 0 divides by zero, one above 32 makes tiles of size 0, a loop without progress
  or effect.
\<close>

definition encode_residuals_tiled :: "int surface \<Rightarrow> nat \<Rightarrow> encoded_chunk result" where
  "encode_residuals_tiled view transform_block_size =
     (if transform_block_size = 0 \<or> 32 < transform_block_size then Inl UndefinedBehaviour
      else
        rbind (fold_result (residual_step view)
                 (tiled (32 div transform_block_size) (sf_width view) (sf_height view)) residual_scan_new)
          residual_finish)"

record flag_scan =
  fs_models :: entropy_model
  fs_start :: bool
  fs_value :: bool
  fs_count :: nat
  fs_entropy :: bool

definition flag_scan_new :: flag_scan where
  "flag_scan_new = \<lparr>fs_models = model_new 2, fs_start = False, fs_value = False, fs_count = 0, fs_entropy = False\<rparr>"

text \<open>One flag enters the run-length state.\<close>

definition flag_push :: "bool \<Rightarrow> bool \<Rightarrow> flag_scan \<Rightarrow> flag_scan result" where
  "flag_push first v s =
     (if first then Inr (s\<lparr>fs_start := v, fs_value := v, fs_count := 1\<rparr>)
      else if v = fs_value s then Inr (s\<lparr>fs_count := count_up (fs_count s)\<rparr>)
      else
        rbind (flag_encode_run (fs_value s) (fs_count s) (fs_models s)) (\<lambda>m.
        Inr (s\<lparr>fs_models := m, fs_value := v, fs_count := 1\<rparr>)))"

definition temporal_step ::
  "u8 surface \<Rightarrow> bool \<Rightarrow> nat \<Rightarrow> nat \<Rightarrow> nat \<times> nat \<Rightarrow> bool \<times> flag_scan \<Rightarrow> (bool \<times> flag_scan) result" where
  "temporal_step view reduced tx ty = (\<lambda>(x, y) (intra_tile, s).
     let first_transform_in_tile = (tx = x \<and> ty = y) in
     rbind (surface_read view x y) (\<lambda>p.
     let v = (p = temporal_intr);
         s = (if v then s\<lparr>fs_entropy := True\<rparr> else s);
         intra_tile = (if reduced \<and> first_transform_in_tile \<and> v then True else intra_tile)
     in
     if \<not> first_transform_in_tile \<and> reduced \<and> intra_tile then Inr (intra_tile, s)
     else rbind (flag_push (x = 0 \<and> y = 0) v s) (\<lambda>s. Inr (intra_tile, s))))"

definition temporal_tile :: "u8 surface \<Rightarrow> bool \<Rightarrow> nat \<Rightarrow> nat \<times> nat \<Rightarrow> flag_scan \<Rightarrow> flag_scan result" where
  "temporal_tile view reduced d = (\<lambda>(tx, ty) s.
     rbind (fold_result (temporal_step view reduced tx ty)
              (tile_raster d (sf_width view) (sf_height view) tx ty) (False, s))
       (\<lambda>(intra_tile, s). Inr s))"

definition tile_origins :: "nat \<Rightarrow> nat \<Rightarrow> nat \<Rightarrow> (nat \<times> nat) list" where
  "tile_origins d w h = concat (map (\<lambda>ty. map (\<lambda>tx. (tx, ty)) (steps d w)) (steps d h))"

definition encode_temporal :: "u8 surface \<Rightarrow> nat \<Rightarrow> bool \<Rightarrow> encoded_chunk result" where
  "encode_temporal view transform_block_size use_reduced_signalling =
     (if transform_block_size = 0 \<or> 32 < transform_block_size then Inl UndefinedBehaviour
      else
        let d = 32 div transform_block_size in
        rbind (fold_result (temporal_tile view use_reduced_signalling d)
                 (tile_origins d (sf_width view) (sf_height view)) flag_scan_new) (\<lambda>s.
        rbind (flag_encode_run (fs_value s) (fs_count s) (fs_models s)) (\<lambda>m.
        if fs_entropy s then flag_finish (fs_start s) m else Inr chunk_none)))"

definition flags_step :: "u8 surface \<Rightarrow> nat \<times> nat \<Rightarrow> flag_scan \<Rightarrow> flag_scan result" where
  "flags_step view = (\<lambda>(x, y) s.
     rbind (surface_read view x y) (\<lambda>p. flag_push (x = 0 \<and> y = 0) (p \<noteq> 0) s))"

definition encode_flags :: "u8 surface \<Rightarrow> encoded_chunk result" where
  "encode_flags view =
     rbind (fold_result (flags_step view) (raster (sf_width view) (sf_height view)) flag_scan_new) (\<lambda>s.
     rbind (flag_encode_run (fs_value s) (fs_count s) (fs_models s)) (\<lambda>m. flag_finish (fs_start s) m))"

datatype compression_type = CompressionType_None | CompressionType_Prefix | CompressionType_Prefix_OnDiff

definition vector_bool :: "bool list \<Rightarrow> nat \<Rightarrow> bool result" where
  "vector_bool v i = (if i < length v then Inr (v ! i) else Inl OutOfRange)"

definition sizes_step ::
  "u16 surface \<Rightarrow> bool list \<Rightarrow> nat \<Rightarrow> bool \<Rightarrow> nat \<times> nat \<Rightarrow> u16 \<times> entropy_model \<Rightarrow> (u16 \<times> entropy_model) result" where
  "sizes_step view entropy_enabled tile_idx prefix = (\<lambda>(x, y) (p, m).
     rbind (vector_bool entropy_enabled (tile_idx + x)) (\<lambda>enabled.
     if enabled then
       rbind (surface_read view x y) (\<lambda>v.
       rbind (check_that (v \<noteq> 0)) (\<lambda>_.
       rbind (if prefix then encode_size v m else encode_size_delta (uint v - uint p) m) (\<lambda>m.
       Inr (v, m))))
     else Inr (p, m)))"

definition encode_sizes :: "u16 surface \<Rightarrow> bool list \<Rightarrow> nat \<Rightarrow> compression_type \<Rightarrow> encoded_chunk result" where
  "encode_sizes view entropy_enabled tile_idx compression =
     rbind (fold_result (sizes_step view entropy_enabled tile_idx (compression = CompressionType_Prefix))
              (raster (sf_width view) (sf_height view)) (0, model_new 2)) (\<lambda>(p, m).
     model_finish m)"

section \<open>The symbols a model receives\<close>

text \<open>
  Every operation on a model emits a list of (state, symbol) pairs. The lists, as functions of
  the run, the flag or the size alone:
\<close>

definition emit :: "(nat \<times> nat) list \<Rightarrow> entropy_model \<Rightarrow> entropy_model result" where
  "emit = fold_result (\<lambda>(state, symbol). encode_symbol state symbol)"

function high_symbols :: "nat \<Rightarrow> nat list" where
  "high_symbols c = (if 127 < c then high_symbols (drop_bit 7 c) else []) @ [(c AND 127) OR 128]"
  by pat_completeness auto
termination
  by (relation "measure id") (simp_all add: drop_bit_eq_div)

declare high_symbols.simps [simp del]

definition count_symbols :: "nat \<Rightarrow> nat list" where
  "count_symbols n = (if 127 < n then high_symbols (drop_bit 7 n) else []) @ [n AND 127]"

definition residual_symbols :: "int \<Rightarrow> nat \<Rightarrow> (nat \<times> nat) list" where
  "residual_symbols residual zeros =
     (let zeros_bit = (if 0 < zeros then 128 else 0);
          clamped = 2 * nat (min (max (residual + 8192) 0) 16383) in
      (if - 32 \<le> residual \<and> residual < 32 then [(state_lsb, nat (residual * 2 + 64) OR zeros_bit)]
       else [(state_lsb, (clamped AND 254) OR 1), (state_msb, (drop_bit 8 clamped AND 127) OR zeros_bit)]) @
      (if 0 < zeros then map (Pair state_zero) (count_symbols zeros) else []))"

lemma emit_Nil [simp]: "emit [] = Inr"
  by (rule ext) (simp add: emit_def)

lemma emit_Cons [simp]: "emit (p # ps) m = rbind (encode_symbol (fst p) (snd p) m) (emit ps)"
  by (simp add: emit_def split_beta)

lemma emit_single [simp]: "emit [p] = encode_symbol (fst p) (snd p)"
  by (rule ext) simp

lemma emit_append: "emit (xs @ ys) m = rbind (emit xs m) (emit ys)"
  by (simp add: emit_def fold_result_append)

lemma emit_high_count: "encode_high_count s c m = emit (map (Pair s) (high_symbols c)) m"
proof (induction s c m rule: encode_high_count.induct)
  case (1 s c m)
  then show ?case
    by (subst encode_high_count.simps, subst high_symbols.simps) (simp add: emit_append)
qed

lemma emit_count:
  "rbind (if 127 < n then encode_high_count s (drop_bit 7 n) m else Inr m) (encode_symbol s (n AND 127)) =
     emit (map (Pair s) (count_symbols n)) m"
  by (simp add: count_symbols_def emit_high_count emit_append)

lemma emit_residual: "residual_encode_run residual zeros m = emit (residual_symbols residual zeros) m"
  unfolding residual_encode_run_def residual_symbols_def Let_def
  by (auto simp: emit_append emit_count push_bit_eq_mult mult.commute rbind_assoc)

lemma emit_flag: "flag_encode_run v n m = emit (map (Pair (flag_state v)) (count_symbols n)) m"
  by (simp add: flag_encode_run_def emit_count)

section \<open>What a scan emits\<close>

text \<open>The runs of a list of residuals: each is followed by the zeros up to the next non-zero one.\<close>

fun residual_runs :: "int \<Rightarrow> nat \<Rightarrow> int list \<Rightarrow> (int \<times> nat) list" where
  "residual_runs residual zeros [] = [(residual, zeros)]"
| "residual_runs residual zeros (r # rs) =
     (if r = 0 then residual_runs residual (zeros + 1) rs else (residual, zeros) # residual_runs r 0 rs)"

definition runs_of :: "int list \<Rightarrow> (int \<times> nat) list" where
  "runs_of vs = (case vs of [] \<Rightarrow> [(0, 0)] | r # rs \<Rightarrow> residual_runs r 0 rs)"

definition run_symbols :: "(int \<times> nat) list \<Rightarrow> (nat \<times> nat) list" where
  "run_symbols runs = concat (map (\<lambda>(residual, zeros). residual_symbols residual zeros) runs)"

lemma run_symbols_simps [simp]:
  "run_symbols [] = []"
  "run_symbols ((r, z) # runs) = residual_symbols r z @ run_symbols runs"
  by (simp_all add: run_symbols_def)

abbreviation in_plane :: "'p surface \<Rightarrow> nat \<times> nat \<Rightarrow> bool" where
  "in_plane view \<equiv> \<lambda>(x, y). x < sf_width view \<and> y < sf_height view"

lemma residual_scan:
  assumes "\<forall>p \<in> set ps. in_plane view p" and "(0, 0) \<notin> set ps"
    and "rs_zeros s + length ps < 4294967296"
  shows "rbind (fold_result (residual_step view) ps s) residual_finish =
         rbind (emit (run_symbols (residual_runs (rs_residual s) (rs_zeros s) (map (\<lambda>(x, y). pixel view x y) ps))) (rs_models s))
           (\<lambda>m. if rs_entropy s \<or> (\<exists>(x, y) \<in> set ps. pixel view x y \<noteq> 0) then model_finish m else Inr chunk_none)"
  using assms
proof (induction ps arbitrary: s)
  case Nil
  then show ?case by (simp add: residual_finish_def emit_residual)
next
  case (Cons p ps)
  obtain x y where p: "p = (x, y)" by force
  let ?r = "pixel view x y"
  have xy: "x < sf_width view" "y < sf_height view" "\<not> (x = 0 \<and> y = 0)" using Cons.prems p by auto
  show ?case
  proof (cases "?r = 0")
    case True
    then have "residual_step view p s = Inr (s\<lparr>rs_zeros := rs_zeros s + 1\<rparr>)"
      using xy(1,2) Cons.prems(3) xy(3) by (auto simp: p residual_step_def)
    then show ?thesis
      using Cons.IH [of "s\<lparr>rs_zeros := rs_zeros s + 1\<rparr>"] Cons.prems True by (simp add: p)
  next
    case False
    have step: "residual_step view p s =
        rbind (emit (residual_symbols (rs_residual s) (rs_zeros s)) (rs_models s)) (\<lambda>m.
          Inr (s\<lparr>rs_entropy := True, rs_models := m, rs_residual := ?r, rs_zeros := 0\<rparr>))"
      using xy False by (auto simp: p residual_step_def emit_residual)
    show ?thesis
    proof (cases "emit (residual_symbols (rs_residual s) (rs_zeros s)) (rs_models s)")
      case (Inl e)
      with step False p show ?thesis by (simp add: emit_append)
    next
      case (Inr m)
      have "rbind (fold_result (residual_step view) ps
              (s\<lparr>rs_entropy := True, rs_models := m, rs_residual := ?r, rs_zeros := 0\<rparr>)) residual_finish =
            rbind (emit (run_symbols (residual_runs ?r 0 (map (\<lambda>(x, y). pixel view x y) ps))) m) model_finish"
        using Cons.IH [of "s\<lparr>rs_entropy := True, rs_models := m, rs_residual := ?r, rs_zeros := 0\<rparr>"] Cons.prems
        by simp
      with Inr step False show ?thesis by (simp add: p emit_append)
    qed
  qed
qed

text \<open>A scan of the whole plane that starts at the origin.\<close>

definition plane_scan :: "'p surface \<Rightarrow> (nat \<times> nat) list \<Rightarrow> bool" where
  "plane_scan view ps \<longleftrightarrow> distinct ps \<and> set ps = {0..<sf_width view} \<times> {0..<sf_height view} \<and>
     (ps \<noteq> [] \<longrightarrow> hd ps = (0, 0)) \<and> length ps < 4294967296"

definition scanned :: "'p surface \<Rightarrow> (nat \<times> nat) list \<Rightarrow> 'p list" where
  "scanned view ps = map (\<lambda>(x, y). pixel view x y) ps"

lemma area_scan:
  assumes "sf_height view * sf_width view < 4294967296"
  shows "plane_scan view (raster (sf_width view) (sf_height view))"
    and "0 < d \<Longrightarrow> plane_scan view (tiled d (sf_width view) (sf_height view))"
proof -
  have hd: "ps \<noteq> [] \<longrightarrow> hd ps = (0, 0)"
    if "set ps = {0..<sf_width view} \<times> {0..<sf_height view}"
      "0 < sf_width view \<Longrightarrow> 0 < sf_height view \<Longrightarrow> ps = (0, 0) # tl ps" for ps :: "(nat \<times> nat) list"
  proof
    assume "ps \<noteq> []"
    then have "hd ps \<in> {0..<sf_width view} \<times> {0..<sf_height view}" using that(1) hd_in_set by metis
    then have "0 < sf_width view" "0 < sf_height view" by auto
    then show "hd ps = (0, 0)" using that(2) by (metis list.sel(1))
  qed
  show "plane_scan view (raster (sf_width view) (sf_height view))"
    using assms hd [OF set_raster raster_Cons] by (simp add: plane_scan_def)
  assume d: "0 < d"
  have "length (tiled d (sf_width view) (sf_height view)) = card (set (tiled d (sf_width view) (sf_height view)))"
    by (metis distinct_card distinct_tiled [OF d])
  then have "length (tiled d (sf_width view) (sf_height view)) = sf_height view * sf_width view"
    by (simp add: set_tiled [OF d] card_cartesian_product mult.commute)
  then show "plane_scan view (tiled d (sf_width view) (sf_height view))"
    using assms hd [OF set_tiled [OF d] tiled_Cons [OF d]] set_tiled [OF d] distinct_tiled [OF d]
    by (simp add: plane_scan_def)
qed

lemma plane_scan_split:
  assumes "plane_scan view ps" and "ps \<noteq> []"
  obtains qs where "ps = (0, 0) # qs" and "(0, 0) \<notin> set qs" and "\<forall>p \<in> set qs. in_plane view p"
    and "0 < sf_width view" and "0 < sf_height view"
proof -
  obtain qs where qs: "ps = (0, 0) # qs" using assms by (cases ps) (auto simp: plane_scan_def)
  have "(0, 0) \<in> set ps" using qs by simp
  then have "0 < sf_width view" "0 < sf_height view" using assms(1) by (auto simp: plane_scan_def)
  moreover have "\<forall>p \<in> set qs. in_plane view p"
  proof
    fix p assume "p \<in> set qs"
    then have "p \<in> set ps" by (simp add: qs)
    then show "in_plane view p" using assms(1) by (auto simp: plane_scan_def)
  qed
  ultimately show thesis using that assms(1) qs by (simp add: plane_scan_def)
qed

lemma residual_scan_whole:
  assumes "plane_scan view ps"
  shows "rbind (fold_result (residual_step view) ps residual_scan_new) residual_finish =
         rbind (emit (run_symbols (runs_of (scanned view ps))) (model_new 3))
           (\<lambda>m. if \<exists>r \<in> set (scanned view ps). r \<noteq> 0 then model_finish m else Inr chunk_none)"
proof (cases "ps = []")
  case True
  then show ?thesis
    by (simp add: residual_finish_def residual_scan_new_def runs_of_def scanned_def emit_residual)
next
  case False
  from plane_scan_split [OF assms False] obtain qs where
    qs: "ps = (0, 0) # qs" "(0, 0) \<notin> set qs" "\<forall>p \<in> set qs. in_plane view p"
      "0 < sf_width view" "0 < sf_height view" by blast
  define s where "s = residual_scan_new\<lparr>rs_entropy := pixel view 0 0 \<noteq> 0, rs_residual := pixel view 0 0, rs_zeros := 0\<rparr>"
  have step: "residual_step view (0, 0) residual_scan_new = Inr s"
    using qs(4,5) by (simp add: residual_step_def residual_scan_new_def s_def)
  have len: "rs_zeros s + length qs < 4294967296"
    using assms by (simp add: qs(1) s_def plane_scan_def)
  have "(\<exists>r \<in> set (scanned view ps). r \<noteq> 0) \<longleftrightarrow>
        rs_entropy s \<or> (\<exists>(x, y) \<in> set qs. pixel view x y \<noteq> 0)"
    by (auto simp: scanned_def qs(1) s_def split_beta)
  then show ?thesis
    using residual_scan [OF qs(3,2) len] step
    by (simp add: qs(1) scanned_def runs_of_def s_def residual_scan_new_def)
qed

text \<open>The runs of a list of flags, and the symbols of runs.\<close>

fun flag_runs :: "bool \<Rightarrow> nat \<Rightarrow> bool list \<Rightarrow> (bool \<times> nat) list" where
  "flag_runs v n [] = [(v, n)]"
| "flag_runs v n (w # ws) = (if w = v then flag_runs v (n + 1) ws else (v, n) # flag_runs w 1 ws)"

definition flag_runs_of :: "bool list \<Rightarrow> (bool \<times> nat) list" where
  "flag_runs_of vs = (case vs of [] \<Rightarrow> [(False, 0)] | v # ws \<Rightarrow> flag_runs v 1 ws)"

definition flag_run_symbols :: "(bool \<times> nat) list \<Rightarrow> (nat \<times> nat) list" where
  "flag_run_symbols runs = concat (map (\<lambda>(v, n). map (Pair (flag_state v)) (count_symbols n)) runs)"

lemma flag_run_symbols_simps [simp]:
  "flag_run_symbols [] = []"
  "flag_run_symbols ((v, n) # runs) = map (Pair (flag_state v)) (count_symbols n) @ flag_run_symbols runs"
  by (simp_all add: flag_run_symbols_def)

definition start_flag :: "bool list \<Rightarrow> bool" where
  "start_flag vs = (vs \<noteq> [] \<and> hd vs)"

text \<open>A flag enters, with a note of whether any was set where the encoder takes one.\<close>

definition flag_feed :: "bool \<Rightarrow> bool \<Rightarrow> bool \<Rightarrow> flag_scan \<Rightarrow> flag_scan result" where
  "flag_feed track first v s = flag_push first v (if track \<and> v then s\<lparr>fs_entropy := True\<rparr> else s)"

definition flag_last :: "(bool \<Rightarrow> bool \<Rightarrow> entropy_model \<Rightarrow> 'c result) \<Rightarrow> flag_scan \<Rightarrow> 'c result" where
  "flag_last G s = rbind (flag_encode_run (fs_value s) (fs_count s) (fs_models s)) (G (fs_entropy s) (fs_start s))"

lemma flag_feed_scan:
  assumes "fs_count s + length vs < 4294967296"
  shows "rbind (fold_result (flag_feed track False) vs s) (flag_last G) =
         rbind (emit (flag_run_symbols (flag_runs (fs_value s) (fs_count s) vs)) (fs_models s))
           (G (fs_entropy s \<or> track \<and> True \<in> set vs) (fs_start s))"
  using assms
proof (induction vs arbitrary: s)
  case Nil
  then show ?case by (simp add: flag_last_def emit_flag)
next
  case (Cons v vs)
  let ?s = "if track \<and> v then s\<lparr>fs_entropy := True\<rparr> else s"
  have s: "fs_value ?s = fs_value s" "fs_count ?s = fs_count s" "fs_models ?s = fs_models s"
    "fs_start ?s = fs_start s" "fs_entropy ?s = (fs_entropy s \<or> track \<and> v)" by auto
  have ent: "(fs_entropy s \<or> track \<and> v) \<or> track \<and> True \<in> set vs \<longleftrightarrow> fs_entropy s \<or> track \<and> True \<in> set (v # vs)"
    by auto
  show ?case
  proof (cases "v = fs_value s")
    case True
    have "flag_feed track False v s = Inr (?s\<lparr>fs_count := fs_count s + 1\<rparr>)"
      using Cons.prems True s(1,2) by (simp add: flag_feed_def flag_push_def)
    then show ?thesis
      using Cons.IH [of "?s\<lparr>fs_count := fs_count s + 1\<rparr>"] Cons.prems True s ent by simp
  next
    case False
    have step: "flag_feed track False v s =
        rbind (emit (map (Pair (flag_state (fs_value s))) (count_symbols (fs_count s))) (fs_models s)) (\<lambda>m.
          Inr (?s\<lparr>fs_models := m, fs_value := v, fs_count := 1\<rparr>))"
      using False s by (simp add: flag_feed_def flag_push_def emit_flag)
    show ?thesis
    proof (cases "emit (map (Pair (flag_state (fs_value s))) (count_symbols (fs_count s))) (fs_models s)")
      case (Inl e)
      with step False show ?thesis by (simp add: emit_append)
    next
      case (Inr m)
      with step False show ?thesis
        using Cons.IH [of "?s\<lparr>fs_models := m, fs_value := v, fs_count := 1\<rparr>"] Cons.prems s ent
        by (simp add: emit_append)
    qed
  qed
qed

text \<open>The first flag starts the state.\<close>

lemma flag_feed_whole:
  assumes "length vs < 4294967296"
  shows "rbind (fold_result (\<lambda>(first, v). flag_feed track first v) (case vs of [] \<Rightarrow> [] | v # ws \<Rightarrow> (True, v) # map (Pair False) ws)
            flag_scan_new) (flag_last G) =
         rbind (emit (flag_run_symbols (flag_runs_of vs)) (model_new 2))
           (G (track \<and> True \<in> set vs) (start_flag vs))"
proof (cases vs)
  case Nil
  then show ?thesis
    by (simp add: flag_last_def emit_flag flag_runs_of_def flag_scan_new_def start_flag_def)
next
  case (Cons v ws)
  have fold: "fold_result (\<lambda>(first, v). flag_feed track first v) (map (Pair False) ws) s =
              fold_result (flag_feed track False) ws s" for s
    by (induction ws arbitrary: s) (auto intro!: rbind_cong)
  define s where "s = flag_scan_new\<lparr>fs_entropy := track \<and> v, fs_start := v, fs_value := v, fs_count := 1\<rparr>"
  have step: "flag_feed track True v flag_scan_new = Inr s"
    by (auto simp: flag_feed_def flag_push_def s_def flag_scan_new_def)
  have "rbind (fold_result (flag_feed track False) ws s) (flag_last G) =
        rbind (emit (flag_run_symbols (flag_runs v 1 ws)) (model_new 2)) (G (track \<and> v \<or> track \<and> True \<in> set ws) v)"
    using flag_feed_scan [of s ws track G] assms Cons by (simp add: s_def flag_scan_new_def)
  moreover have "track \<and> v \<or> track \<and> True \<in> set ws \<longleftrightarrow> track \<and> True \<in> set vs"
    using Cons by auto
  ultimately show ?thesis
    using Cons step fold by (simp add: flag_runs_of_def start_flag_def)
qed

lemma encode_flags_emits:
  assumes "sf_height view * sf_width view < 4294967296"
  defines "vs \<equiv> map (\<lambda>p. p \<noteq> 0) (scanned view (raster (sf_width view) (sf_height view)))"
  shows "encode_flags view = rbind (emit (flag_run_symbols (flag_runs_of vs)) (model_new 2)) (flag_finish (start_flag vs))"
proof -
  let ?ps = "raster (sf_width view) (sf_height view)"
  note scan = area_scan(1) [OF assms(1)]
  have fold: "fold_result (flags_step view) ps s =
      fold_result (\<lambda>(first, v). flag_feed False first v) (map (\<lambda>(x, y). (x = 0 \<and> y = 0, pixel view x y \<noteq> 0)) ps) s"
    if "\<forall>p \<in> set ps. in_plane view p" for ps s
    using that
  proof (induction ps arbitrary: s)
    case (Cons p ps)
    then have "fold_result (flags_step view) ps = fold_result (\<lambda>(first, v). flag_feed False first v)
        (map (\<lambda>(x, y). (x = 0 \<and> y = 0, pixel view x y \<noteq> 0)) ps)" by (intro ext) simp
    moreover have "flags_step view (x, y) s = flag_feed False (x = 0 \<and> y = 0) (pixel view x y \<noteq> 0) s"
      if "p = (x, y)" for x y
      using Cons.prems that by (simp add: flags_step_def flag_feed_def)
    ultimately show ?case by (cases p) simp
  qed simp
  have pushes: "map (\<lambda>(x, y). (x = 0 \<and> y = 0, pixel view x y \<noteq> 0)) ?ps =
        (case vs of [] \<Rightarrow> [] | v # ws \<Rightarrow> (True, v) # map (Pair False) ws)"
  proof (cases "?ps = []")
    case False
    obtain qs where qs: "?ps = (0, 0) # qs" "(0, 0) \<notin> set qs"
      by (rule plane_scan_split [OF scan False]) (rule that)
    have vs: "vs = (pixel view 0 0 \<noteq> 0) # map (\<lambda>(x, y). pixel view x y \<noteq> 0) qs"
      by (simp add: vs_def scanned_def qs(1) split_beta)
    have tl: "map (\<lambda>(x, y). (x = 0 \<and> y = 0, pixel view x y \<noteq> 0)) qs =
        map (Pair False) (map (\<lambda>(x, y). pixel view x y \<noteq> 0) qs)"
      using qs(2) by auto
    show ?thesis unfolding vs qs(1) list.map(2) tl by simp
  qed (simp add: vs_def scanned_def)
  have "\<forall>p \<in> set ?ps. in_plane view p" by auto
  note fold = fold [OF this, of flag_scan_new, unfolded pushes]
  have "length vs < 4294967296" using assms(1) by (simp add: vs_def scanned_def)
  from flag_feed_whole [OF this, of False "\<lambda>_ start m. flag_finish start m"]
  show ?thesis by (simp add: encode_flags_def fold flag_last_def [abs_def])
qed

text \<open>
  With reduced signalling a tile whose first flag is set contributes that flag alone. The flags
  the temporal encoder keeps, tile by tile:
\<close>

definition is_intra :: "u8 surface \<Rightarrow> nat \<times> nat \<Rightarrow> bool" where
  "is_intra view = (\<lambda>(x, y). pixel view x y = temporal_intr)"

definition tile_kept :: "u8 surface \<Rightarrow> bool \<Rightarrow> (nat \<times> nat) list \<Rightarrow> (nat \<times> nat) list" where
  "tile_kept view reduced ps = (if ps \<noteq> [] \<and> reduced \<and> is_intra view (hd ps) then [hd ps] else ps)"

abbreviation feed_at :: "u8 surface \<Rightarrow> nat \<times> nat \<Rightarrow> flag_scan \<Rightarrow> flag_scan result" where
  "feed_at view p \<equiv> flag_feed True (p = (0, 0)) (is_intra view p)"

lemma temporal_step_feed:
  assumes "in_plane view p"
  shows "temporal_step view reduced tx ty p (intra, s) =
    (let intra' = (if reduced \<and> p = (tx, ty) \<and> is_intra view p then True else intra) in
     if p \<noteq> (tx, ty) \<and> reduced \<and> intra' then Inr (intra', if is_intra view p then s\<lparr>fs_entropy := True\<rparr> else s)
     else rbind (feed_at view p s) (\<lambda>s. Inr (intra', s)))"
  using assms by (cases p) (auto simp: temporal_step_def Let_def is_intra_def flag_feed_def)

lemma flag_push_entropy: "flag_push first v s = Inr s' \<Longrightarrow> fs_entropy s' = fs_entropy s"
  by (auto simp: flag_push_def split: if_splits)

lemma temporal_step_skip:
  assumes "\<forall>p \<in> set ps. in_plane view p \<and> p \<noteq> (tx, ty)" and "reduced" and "fs_entropy s"
  shows "fold_result (temporal_step view reduced tx ty) ps (True, s) = Inr (True, s)"
proof -
  have same: "(if is_intra view p then s\<lparr>fs_entropy := True\<rparr> else s) = s" for p
    using assms(3) by simp
  show ?thesis
    using assms(1)
  proof (induction ps)
    case (Cons p ps)
    then have "temporal_step view reduced tx ty p (True, s) = Inr (True, s)"
      using assms(2) same [of p] by (subst temporal_step_feed) simp_all
    with Cons show ?case by simp
  qed simp
qed

lemma temporal_step_keep:
  assumes "\<forall>p \<in> set ps. in_plane view p \<and> p \<noteq> (tx, ty)"
  shows "fold_result (temporal_step view reduced tx ty) ps (False, s) =
         rbind (fold_result (feed_at view) ps s) (\<lambda>s. Inr (False, s))"
  using assms
proof (induction ps arbitrary: s)
  case (Cons p ps)
  then have "temporal_step view reduced tx ty p (False, s) = rbind (feed_at view p s) (\<lambda>s. Inr (False, s))"
    by (subst temporal_step_feed) (auto simp: Let_def)
  with Cons show ?case by (cases "feed_at view p s") simp_all
qed simp

lemma tile_raster_Cons:
  assumes "0 < d" and "tx < w" and "ty < h"
  obtains qs where "tile_raster d w h tx ty = (tx, ty) # qs" and "(tx, ty) \<notin> set qs"
proof -
  have "[ty..<min (ty + d) h] = ty # [Suc ty..<min (ty + d) h]" "[tx..<min (tx + d) w] = tx # [Suc tx..<min (tx + d) w]"
    using assms by (simp_all add: upt_conv_Cons)
  then obtain qs where "tile_raster d w h tx ty = (tx, ty) # qs" by (simp add: tile_raster_def)
  with distinct_tile_raster [of d w h tx ty] that show thesis by simp
qed

lemma temporal_tile_feed:
  assumes "0 < d" and "tx < sf_width view" and "ty < sf_height view"
  shows "temporal_tile view reduced d (tx, ty) s =
         fold_result (feed_at view) (tile_kept view reduced (tile_raster d (sf_width view) (sf_height view) tx ty)) s"
proof -
  obtain qs where qs: "tile_raster d (sf_width view) (sf_height view) tx ty = (tx, ty) # qs" "(tx, ty) \<notin> set qs"
    by (rule tile_raster_Cons [OF assms])
  have "\<forall>p \<in> set ((tx, ty) # qs). in_plane view p"
    unfolding qs(1) [symmetric] by (auto simp: set_tile_raster)
  then have plane: "\<forall>p \<in> set qs. in_plane view p \<and> p \<noteq> (tx, ty)" and pl: "in_plane view (tx, ty)"
    using qs(2) by auto
  let ?intra = "reduced \<and> is_intra view (tx, ty)"
  have step: "temporal_step view reduced tx ty (tx, ty) (False, s) =
      rbind (feed_at view (tx, ty) s) (\<lambda>s. Inr (?intra, s))"
    using temporal_step_feed [OF pl] by (cases reduced; cases "is_intra view (tx, ty)") simp_all
  show ?thesis
  proof (cases "feed_at view (tx, ty) s")
    case (Inl e)
    with step show ?thesis by (cases ?intra) (auto simp: temporal_tile_def qs(1) tile_kept_def)
  next
    case (Inr s1)
    show ?thesis
    proof (cases ?intra)
      case True
      then have "fs_entropy s1"
        using Inr by (auto simp: flag_feed_def dest!: flag_push_entropy)
      with True Inr step temporal_step_skip [OF plane] show ?thesis
        by (simp add: temporal_tile_def qs(1) tile_kept_def)
    next
      case False
      with Inr step temporal_step_keep [OF plane] show ?thesis
        by (auto simp: temporal_tile_def qs(1) tile_kept_def rbind_assoc)
    qed
  qed
qed

definition temporal_kept :: "u8 surface \<Rightarrow> bool \<Rightarrow> nat \<Rightarrow> (nat \<times> nat) list" where
  "temporal_kept view reduced d =
     concat (map (\<lambda>(tx, ty). tile_kept view reduced (tile_raster d (sf_width view) (sf_height view) tx ty))
       (tile_origins d (sf_width view) (sf_height view)))"

lemma tiled_origins:
  "tiled d w h = concat (map (\<lambda>(tx, ty). tile_raster d w h tx ty) (tile_origins d w h))"
proof -
  have "concat (map (\<lambda>y. concat (map (\<lambda>x. tile_raster d w h x y) xs)) ys) =
        concat (concat (map (\<lambda>y. map (\<lambda>x. tile_raster d w h x y) xs) ys))" for xs ys
    by (induction ys) simp_all
  then show ?thesis by (simp add: tiled_def tile_origins_def map_concat o_def)
qed

lemma tile_origins_in: "0 < d \<Longrightarrow> (tx, ty) \<in> set (tile_origins d w h) \<Longrightarrow> tx < w \<and> ty < h"
  by (auto simp: tile_origins_def set_steps)

lemma temporal_kept_sub: "set (temporal_kept view reduced d) \<subseteq> set (tiled d (sf_width view) (sf_height view))"
  unfolding tiled_origins temporal_kept_def
  by (auto simp: tile_kept_def split_beta split: if_splits)

lemma length_temporal_kept:
  "length (temporal_kept view reduced d) \<le> length (tiled d (sf_width view) (sf_height view))"
proof -
  have "length (tile_kept view reduced ps) \<le> length ps" for ps by (cases ps) (simp_all add: tile_kept_def)
  then have "length (concat (map (\<lambda>(tx, ty). tile_kept view reduced (f tx ty)) os)) \<le>
      length (concat (map (\<lambda>(tx, ty). f tx ty) os))" for f and os :: "(nat \<times> nat) list"
    by (induction os) (auto intro: add_mono)
  then show ?thesis unfolding tiled_origins temporal_kept_def .
qed

lemma temporal_kept_Cons:
  assumes "0 < d" and "0 < sf_width view" and "0 < sf_height view"
  obtains qs where "temporal_kept view reduced d = (0, 0) # qs" and "(0, 0) \<notin> set qs"
proof -
  let ?w = "sf_width view" and ?h = "sf_height view"
  obtain os where os: "tile_origins d ?w ?h = (0, 0) # os"
    using assms by (simp add: tile_origins_def steps_def upt_conv_Cons div_greater_zero_iff Suc_le_eq)
  obtain rs where rs: "tile_raster d ?w ?h 0 0 = (0, 0) # rs" "(0, 0) \<notin> set rs"
    by (rule tile_raster_Cons [OF assms])
  have "distinct (tiled d ?w ?h)" by (rule distinct_tiled [OF assms(1)])
  then have dist: "(0, 0) \<notin> set (concat (map (\<lambda>(tx, ty). tile_raster d ?w ?h tx ty) os))"
    unfolding tiled_origins os by (simp add: rs(1))
  have kept: "p \<in> set (tile_kept view reduced ps) \<Longrightarrow> p \<in> set ps" for p ps
    by (cases ps) (auto simp: tile_kept_def split: if_splits)
  have "set (concat (map (\<lambda>(tx, ty). tile_kept view reduced (f tx ty)) os)) \<subseteq>
      set (concat (map (\<lambda>(tx, ty). f tx ty) os))" for f os
    by (fastforce dest: kept)
  with dist have rest: "(0, 0) \<notin> set (concat (map (\<lambda>(tx, ty). tile_kept view reduced (tile_raster d ?w ?h tx ty)) os))"
    (is "_ \<notin> set ?rest") by (rule contra_subsetD [rotated])
  obtain qs where qs: "tile_kept view reduced (tile_raster d ?w ?h 0 0) = (0, 0) # qs" "set qs \<subseteq> set rs"
    by (rule that [of "if reduced \<and> is_intra view (0, 0) then [] else rs"]) (auto simp: tile_kept_def rs(1))
  show thesis
  proof (rule that)
    show "temporal_kept view reduced d = (0, 0) # (qs @ ?rest)" by (simp add: temporal_kept_def os qs(1))
    show "(0, 0) \<notin> set (qs @ ?rest)" using rest qs(2) rs(2) by (simp only: set_append Un_iff) blast
  qed
qed

lemma encode_temporal_emits:
  fixes reduced :: bool
  assumes d: "0 < tbs" "tbs \<le> 32" and area: "sf_height view * sf_width view < 4294967296"
  defines "vs \<equiv> map (is_intra view) (temporal_kept view reduced (32 div tbs))"
  shows "encode_temporal view tbs reduced =
    rbind (emit (flag_run_symbols (flag_runs_of vs)) (model_new 2))
      (\<lambda>m. if True \<in> set vs then flag_finish (start_flag vs) m else Inr chunk_none)"
proof -
  let ?d = "32 div tbs"
  let ?w = "sf_width view" and ?h = "sf_height view"
  have d0: "0 < ?d" using d by (simp add: div_greater_zero_iff)
  note scan = area_scan(2) [OF area d0]
  have fold: "fold_result (temporal_tile view reduced ?d) os s =
      fold_result (feed_at view) (concat (map (\<lambda>(tx, ty). tile_kept view reduced (tile_raster ?d ?w ?h tx ty)) os)) s"
    if "\<forall>(tx, ty) \<in> set os. tx < ?w \<and> ty < ?h" for os s
    using that
  proof (induction os arbitrary: s)
    case (Cons o1 os)
    obtain tx ty where o: "o1 = (tx, ty)" by force
    have "fold_result (temporal_tile view reduced ?d) os =
        fold_result (feed_at view) (concat (map (\<lambda>(tx, ty). tile_kept view reduced (tile_raster ?d ?w ?h tx ty)) os))"
      using Cons by (intro ext) simp
    with Cons.prems temporal_tile_feed [OF d0, of tx view ty reduced s]
    show ?case by (simp add: o fold_result_append)
  qed simp
  have "\<forall>(tx, ty) \<in> set (tile_origins ?d ?w ?h). tx < ?w \<and> ty < ?h"
    using tile_origins_in [OF d0] by blast
  from fold [OF this] have tiles: "fold_result (temporal_tile view reduced ?d) (tile_origins ?d ?w ?h) flag_scan_new =
      fold_result (feed_at view) (temporal_kept view reduced ?d) flag_scan_new"
    by (simp add: temporal_kept_def)
  have feed: "fold_result (feed_at view) ps s =
      fold_result (\<lambda>(first, v). flag_feed True first v) (map (\<lambda>p. (p = (0, 0), is_intra view p)) ps) s" for ps s
    by (induction ps arbitrary: s) (auto intro!: rbind_cong)
  have "map (\<lambda>p. (p = (0, 0), is_intra view p)) (temporal_kept view reduced ?d) =
      (case vs of [] \<Rightarrow> [] | v # ws \<Rightarrow> (True, v) # map (Pair False) ws)"
  proof (cases "0 < ?w \<and> 0 < ?h")
    case True
    obtain qs where qs: "temporal_kept view reduced ?d = (0, 0) # qs" "(0, 0) \<notin> set qs"
      by (rule temporal_kept_Cons [OF d0]) (use True in auto)
    have "map (\<lambda>p. (p = (0, 0), is_intra view p)) qs = map (Pair False) (map (is_intra view) qs)"
      using qs(2) by auto
    then show ?thesis unfolding vs_def qs(1) list.map(2) by simp
  next
    case False
    then have "temporal_kept view reduced ?d = []"
      using temporal_kept_sub [of view reduced ?d] by (auto simp: set_tiled [OF d0])
    then show ?thesis by (simp add: vs_def)
  qed
  note feed = feed [of "temporal_kept view reduced ?d" flag_scan_new, unfolded this]
  have "length (tiled ?d ?w ?h) < 4294967296" using scan by (simp add: plane_scan_def)
  then have "length vs < 4294967296"
    using length_temporal_kept [of view reduced ?d] by (simp add: vs_def)
  from flag_feed_whole [OF this, of True "\<lambda>ent start m. if ent then flag_finish start m else Inr chunk_none"]
  show ?thesis
    using d by (simp add: encode_temporal_def Let_def tiles feed flag_last_def [abs_def] not_less)
qed

text \<open>Sizes: the values of the enabled tiles, or the steps from one to the next.\<close>

definition size_symbols :: "nat \<Rightarrow> (nat \<times> nat) list" where
  "size_symbols v =
     (if v < 128 then [(state_lsb, v * 2)]
      else [(state_lsb, (v AND 127) * 2 OR 1), (state_msb, drop_bit 7 v)])"

definition delta_symbols :: "int \<Rightarrow> (nat \<times> nat) list" where
  "delta_symbols v =
     (if - 64 \<le> v \<and> v \<le> 63 then [(state_lsb, nat (v * 2 AND 255))]
      else [(state_lsb, nat ((v AND 127) * 2 OR 1)), (state_msb, nat (drop_bit 7 v AND 255))])"

fun sizes_symbols :: "bool \<Rightarrow> u16 \<Rightarrow> u16 list \<Rightarrow> (nat \<times> nat) list" where
  "sizes_symbols prefix p [] = []"
| "sizes_symbols prefix p (v # vs) =
     (if prefix then size_symbols (unat v) else delta_symbols (uint v - uint p)) @ sizes_symbols prefix v vs"

fun sizes_ok :: "bool \<Rightarrow> u16 \<Rightarrow> u16 list \<Rightarrow> bool" where
  "sizes_ok prefix p [] \<longleftrightarrow> True"
| "sizes_ok prefix p (v # vs) \<longleftrightarrow> v \<noteq> 0 \<and>
     (if prefix then v \<le> 32767 else - 16384 \<le> uint v - uint p \<and> uint v - uint p \<le> 16383) \<and>
     sizes_ok prefix v vs"

lemma encode_size_emit: "v \<le> 32767 \<Longrightarrow> encode_size v m = emit (size_symbols (unat v)) m"
  by (simp add: encode_size_def size_symbols_def word_less_nat_alt)

lemma encode_size_delta_emit:
  "- 16384 \<le> v \<Longrightarrow> v \<le> 16383 \<Longrightarrow> encode_size_delta v m = emit (delta_symbols v) m"
  by (simp add: encode_size_delta_def delta_symbols_def)

definition enabled_values :: "'p surface \<Rightarrow> bool list \<Rightarrow> nat \<Rightarrow> (nat \<times> nat) list \<Rightarrow> 'p list" where
  "enabled_values view enabled idx ps = scanned view (filter (\<lambda>(x, y). enabled ! (idx + x)) ps)"

lemma sizes_scan:
  assumes "\<forall>p \<in> set ps. in_plane view p \<and> idx + fst p < length enabled"
    and "sizes_ok prefix p (enabled_values view enabled idx ps)"
  shows "rbind (fold_result (sizes_step view enabled idx prefix) ps (p, m)) (\<lambda>(p, m). F m) =
         rbind (emit (sizes_symbols prefix p (enabled_values view enabled idx ps)) m) F"
  using assms
proof (induction ps arbitrary: p m)
  case Nil
  then show ?case by (simp add: enabled_values_def scanned_def)
next
  case (Cons q ps)
  obtain x y where q: "q = (x, y)" by force
  have in_xy: "x < sf_width view" "y < sf_height view" "idx + x < length enabled"
    using Cons.prems(1) by (simp_all add: q)
  have "\<forall>p \<in> set ps. in_plane view p \<and> idx + fst p < length enabled" using Cons.prems(1) by simp
  note IH = Cons.IH [OF this]
  show ?case
  proof (cases "enabled ! (idx + x)")
    case True
    let ?v = "pixel view x y" and ?vs = "enabled_values view enabled idx ps"
    have vs: "enabled_values view enabled idx (q # ps) = ?v # ?vs"
      by (simp add: enabled_values_def scanned_def q True)
    have ok: "?v \<noteq> 0" "sizes_ok prefix ?v ?vs"
      "if prefix then ?v \<le> 32767 else - 16384 \<le> uint ?v - uint p \<and> uint ?v - uint p \<le> 16383"
      using Cons.prems(2) by (simp_all add: vs)
    let ?head = "if prefix then size_symbols (unat ?v) else delta_symbols (uint ?v - uint p)"
    have "sizes_step view enabled idx prefix q (p, m) = rbind (emit ?head m) (\<lambda>m. Inr (?v, m))"
      using in_xy ok True
      by (cases prefix) (simp_all add: q sizes_step_def vector_bool_def encode_size_emit encode_size_delta_emit)
    then show ?thesis
      using IH [OF ok(2)] by (cases "emit ?head m") (simp_all only: vs sizes_symbols.simps emit_append fold_result.simps rbind.simps)
  next
    case False
    then have vs: "enabled_values view enabled idx (q # ps) = enabled_values view enabled idx ps"
      by (simp add: enabled_values_def q)
    then show ?thesis
      using IH [of p m] Cons.prems(2) in_xy False by (simp add: q sizes_step_def vector_bool_def)
  qed
qed

lemma encode_sizes_emits:
  assumes "idx + sf_width view \<le> length enabled"
    and "sizes_ok (compression = CompressionType_Prefix) 0
           (enabled_values view enabled idx (raster (sf_width view) (sf_height view)))"
  shows "encode_sizes view enabled idx compression =
    rbind (emit (sizes_symbols (compression = CompressionType_Prefix) 0
        (enabled_values view enabled idx (raster (sf_width view) (sf_height view)))) (model_new 2)) model_finish"
proof -
  have "\<forall>p \<in> set (raster (sf_width view) (sf_height view)). in_plane view p \<and> idx + fst p < length enabled"
    using assms(1) by auto
  from sizes_scan [OF this assms(2), of "model_new 2" model_finish] show ?thesis by (simp add: encode_sizes_def)
qed

section \<open>A model counts what it has been given\<close>

definition model_ok :: "entropy_model \<Rightarrow> bool" where
  "model_ok m \<longleftrightarrow>
     (\<forall>(st, sy) \<in> set (em_symbols m). st < length (em_builders m)) \<and>
     (\<forall>b \<in> set (em_builders m). length (symbol_counts b) = max_symbol) \<and>
     (\<forall>st < length (em_builders m). \<forall>sy < max_symbol.
        symbol_counts (em_builders m ! st) ! sy = word_of_nat (count_list (em_symbols m) (st, word_of_nat sy)))"

lemma model_ok_new: "model_ok (model_new n)"
  by (auto simp: model_ok_def model_new_def builder_new_def)

lemma unat_byte: "a < max_symbol \<Longrightarrow> unat (word_of_nat a :: u8) = a"
  by (simp add: unsigned_of_nat take_bit_nat_eq_self)

lemma byte_inj: "a < max_symbol \<Longrightarrow> b < max_symbol \<Longrightarrow> (word_of_nat a :: u8) = word_of_nat b \<longleftrightarrow> a = b"
  by (metis unat_byte)

lemma encode_symbol_spec:
  assumes ok: "model_ok m" and st: "st < length (em_builders m)" and sy: "sy < max_symbol"
  obtains m' where "encode_symbol st sy m = Inr m'" and "model_ok m'"
    and "length (em_builders m') = length (em_builders m)"
    and "em_symbols m' = em_symbols m @ [(st, word_of_nat sy)]"
proof -
  let ?b = "em_builders m ! st"
  let ?b' = "?b\<lparr>symbol_counts := (symbol_counts ?b)[sy := symbol_counts ?b ! sy + 1]\<rparr>"
  let ?m' = "m\<lparr>em_builders := (em_builders m)[st := ?b'], em_symbols := em_symbols m @ [(st, word_of_nat sy)]\<rparr>"
  have len: "length (symbol_counts ?b) = max_symbol" using ok st by (simp add: model_ok_def)
  have "symbol_counts ((em_builders m)[st := ?b'] ! st') ! sy' =
      word_of_nat (count_list (em_symbols m @ [(st, word_of_nat sy)]) (st', word_of_nat sy'))"
    if "st' < length (em_builders m)" "sy' < max_symbol" for st' sy'
  proof -
    have old: "symbol_counts (em_builders m ! st') ! sy' = word_of_nat (count_list (em_symbols m) (st', word_of_nat sy'))"
      using ok that by (simp add: model_ok_def)
    show ?thesis
    proof (cases "st' = st \<and> sy' = sy")
      case True
      with old st sy len show ?thesis by simp
    next
      case False
      then have "(st, word_of_nat sy :: u8) \<noteq> (st', word_of_nat sy')" using byte_inj [OF sy that(2)] by auto
      with False old show ?thesis by (auto simp: nth_list_update_if)
    qed
  qed
  moreover have "\<forall>b \<in> set ((em_builders m)[st := ?b']). length (symbol_counts b) = max_symbol"
    using ok len by (auto simp: model_ok_def dest!: set_update_subset_insert [THEN subsetD])
  ultimately have "model_ok ?m'" using ok st by (auto simp: model_ok_def)
  moreover have "encode_symbol st sy m = Inr ?m'" using sy by (simp add: encode_symbol_def add_symbol_def)
  ultimately show thesis using that by simp
qed

lemma emit_spec:
  assumes "model_ok m" and "\<forall>(st, sy) \<in> set xs. st < length (em_builders m) \<and> sy < max_symbol"
  obtains m' where "emit xs m = Inr m'" and "model_ok m'" and "length (em_builders m') = length (em_builders m)"
    and "em_symbols m' = em_symbols m @ map (\<lambda>(st, sy). (st, word_of_nat sy)) xs"
  using assms
proof (induction xs arbitrary: m thesis)
  case Nil
  then show ?case by simp
next
  case (Cons x xs)
  obtain st sy where x: "x = (st, sy)" by force
  obtain m1 where m1: "encode_symbol st sy m = Inr m1" "model_ok m1"
    "length (em_builders m1) = length (em_builders m)" "em_symbols m1 = em_symbols m @ [(st, word_of_nat sy)]"
    using encode_symbol_spec [OF Cons.prems(2), of st sy] Cons.prems(3) x by auto
  have "\<forall>(st, sy) \<in> set xs. st < length (em_builders m1) \<and> sy < max_symbol"
    using Cons.prems(3) m1(3) by simp
  from Cons.IH [OF _ m1(2) this] obtain m' where "emit xs m1 = Inr m'" "model_ok m'"
    "length (em_builders m') = length (em_builders m1)"
    "em_symbols m' = em_symbols m1 @ map (\<lambda>(st, sy). (st, word_of_nat sy)) xs" by blast
  with m1 x Cons.prems(1) show ?case by simp
qed

lemma model_counted:
  assumes ok: "model_ok m" and mem: "(st, sy) \<in> set (em_symbols m)" and few: "length (em_symbols m) < 2 ^ 32"
  shows "unat sy \<in> set (counted (em_builders m ! st))"
proof -
  have lt: "unat sy < max_symbol" using unsigned_less [of sy] by simp
  have "st < length (em_builders m)" using ok mem by (auto simp: model_ok_def)
  then have c: "symbol_counts (em_builders m ! st) ! unat sy = word_of_nat (count_list (em_symbols m) (st, sy))"
    using ok lt by (simp add: model_ok_def)
  have "count_list (em_symbols m) (st, sy) < 2 ^ 32"
    using count_le_length [of "em_symbols m" "(st, sy)"] few by linarith
  moreover have "count_list (em_symbols m) (st, sy) \<noteq> 0" using mem by (simp add: count_list_0_iff)
  ultimately have "symbol_counts (em_builders m ! st) ! unat sy \<noteq> 0"
    unfolding c by (simp add: word_of_nat_eq_0_iff nat_dvd_not_less)
  then show ?thesis using lt by (simp add: counted_def)
qed

text \<open>All symbols fit in a byte and belong to a state of their model.\<close>

lemma and_127: "n AND 127 = n mod 128" for n :: nat
  using take_bit_eq_mask [of 7 n] by (simp add: mask_eq_exp_minus_1 take_bit_eq_mod)

lemma not_bit_small: "n < 2 ^ k \<Longrightarrow> \<not> bit n k" for n :: nat
  by (simp add: bit_iff_odd)

lemma or_exp: "n < 2 ^ k \<Longrightarrow> n OR 2 ^ k = n + 2 ^ k" for n :: nat
  using not_bit_small [of n k] by (simp add: disjunctive_add_eq_or and_exp_eq_0_iff_not_bit)

lemma or_128: "n < 128 \<Longrightarrow> n OR 128 = n + (128 :: nat)"
  using or_exp [of n 7] by simp

lemma or_1: "even n \<Longrightarrow> n OR 1 = n + (1 :: nat)"
  using or_one_eq [of n] by simp

lemma high_symbols_byte: "s \<in> set (high_symbols c) \<Longrightarrow> 128 \<le> s \<and> s < max_symbol"
proof (induction c rule: high_symbols.induct)
  case (1 c)
  from 1(2) have "(127 < c \<and> s \<in> set (high_symbols (drop_bit 7 c))) \<or> s = (c AND 127) OR 128"
    by (subst (asm) high_symbols.simps) (auto split: if_splits)
  then show ?case using 1(1) by (auto simp: and_127 or_128)
qed

lemma count_symbols_byte: "s \<in> set (count_symbols n) \<Longrightarrow> s < max_symbol"
proof -
  have "n AND 127 < max_symbol" by (simp add: and_127 less_trans [OF mod_less_divisor])
  then show "s \<in> set (count_symbols n) \<Longrightarrow> s < max_symbol"
    using high_symbols_byte by (auto simp: count_symbols_def split: if_splits)
qed

lemma and_byte: "n AND 255 = n mod 256" for n :: int
  using take_bit_eq_mask [of 8 n] by (simp add: mask_eq_exp_minus_1 take_bit_eq_mod)

lemma and_127_int: "n AND 127 = n mod 128" for n :: int
  using take_bit_eq_mask [of 7 n] by (simp add: mask_eq_exp_minus_1 take_bit_eq_mod)

lemma or_1_int: "even n \<Longrightarrow> n OR 1 = n + (1 :: int)"
  using or_one_eq [of n] by simp

lemma and_shifted_mask: "n AND push_bit k (mask m) = 2 ^ k * (n div 2 ^ k mod 2 ^ m)" for n :: nat
proof -
  have "n AND push_bit k (mask m) = push_bit k (take_bit m (drop_bit k n))"
    by (rule bit_eqI) (auto simp only: bit_and_iff bit_push_bit_iff bit_take_bit_iff bit_drop_bit_eq bit_mask_iff
        o_apply possible_bit_nat le_add_diff_inverse)
  then show ?thesis by (simp add: push_bit_eq_mult take_bit_eq_mod drop_bit_eq_div mult.commute)
qed

lemma and_254: "n AND 254 = 2 * (n div 2 mod 128)" for n :: nat
  using and_shifted_mask [of n 1 7] by (simp add: mask_eq_exp_minus_1 push_bit_eq_mult)

lemma and_126: "n AND 126 = 2 * (n div 2 mod 64)" for n :: nat
  using and_shifted_mask [of n 1 6] by (simp add: mask_eq_exp_minus_1 push_bit_eq_mult)

lemma and_128: "n AND 128 = 128 * (n div 128 mod 2)" for n :: nat
  using and_shifted_mask [of n 7 1] by (simp add: mask_eq_exp_minus_1 push_bit_eq_mult)

text \<open>The symbols of one run without bit operations.\<close>

lemma residual_symbols_arith:
  "residual_symbols residual zeros =
     (if - 32 \<le> residual \<and> residual < 32
      then [(state_lsb, nat (residual * 2 + 64) + (if 0 < zeros then 128 else 0))]
      else let c = nat (min (max (residual + 8192) 0) 16383) in
           [(state_lsb, 2 * (c mod 128) + 1), (state_msb, c div 128 + (if 0 < zeros then 128 else 0))]) @
     (if 0 < zeros then map (Pair state_zero) (count_symbols zeros) else [])"
proof -
  let ?c = "nat (min (max (residual + 8192) 0) 16383)"
  have small: "nat (residual * 2 + 64) < 128" if "- 32 \<le> residual" "residual < 32" using that by auto
  have c: "(2 * ?c AND 254) OR 1 = 2 * (?c mod 128) + 1" unfolding and_254 by (subst or_1) simp_all
  have "?c div 128 < 128" by (intro less_mult_imp_div_less) auto
  then have m: "drop_bit 8 (2 * ?c) AND 127 = ?c div 128" "?c div 128 < 128"
    unfolding and_127 drop_bit_eq_div by (simp_all add: div_mult2_eq [of "2 * ?c" 2 128, simplified])
  show ?thesis
    unfolding residual_symbols_def Let_def c m(1) using small or_128 m(2) by auto
qed

lemma residual_symbols_byte:
  assumes "(st, sy) \<in> set (residual_symbols r z)"
  shows "st < 3 \<and> sy < max_symbol"
proof -
  define zb :: nat where "zb = (if 0 < z then 128 else 0)"
  define c where "c = nat (min (max (r + 8192) 0) 16383)"
  define low where "low = nat (r * 2 + 64)"
  define tail where "tail = (if 0 < z then map (Pair (state_zero :: nat)) (count_symbols z) else [])"
  have "c div 128 < 128" unfolding c_def by (intro less_mult_imp_div_less) auto
  moreover have "2 * (c mod 128) + 1 < 256" using mod_less_divisor [of 128 c] by linarith
  moreover have "zb \<le> 128" by (simp add: zb_def)
  moreover have "r < 32 \<Longrightarrow> low < 128" by (simp add: low_def)
  moreover have "(st, sy) \<in> set tail \<Longrightarrow> st < 3 \<and> sy < max_symbol"
    using count_symbols_byte by (auto simp: tail_def split: if_splits)
  moreover have "residual_symbols r z = (if - 32 \<le> r \<and> r < 32 then [(state_lsb, low + zb)]
      else [(state_lsb, 2 * (c mod 128) + 1), (state_msb, c div 128 + zb)]) @ tail"
    unfolding residual_symbols_arith Let_def zb_def c_def low_def tail_def ..
  ultimately show ?thesis using assms by (auto split: if_split_asm)
qed

lemma run_symbols_byte: "\<forall>(st, sy) \<in> set (run_symbols runs). st < 3 \<and> sy < max_symbol"
  unfolding run_symbols_def using residual_symbols_byte by fastforce

lemma flag_run_symbols_byte: "\<forall>(st, sy) \<in> set (flag_run_symbols runs). st < 2 \<and> sy < max_symbol"
  unfolding flag_run_symbols_def flag_state_def using count_symbols_byte by fastforce

lemma size_symbols_arith:
  "size_symbols v = (if v < 128 then [(state_lsb, v * 2)] else [(state_lsb, v mod 128 * 2 + 1), (state_msb, v div 128)])"
  unfolding size_symbols_def and_127 drop_bit_eq_div by (subst or_1) simp_all

lemma size_symbols_byte:
  "v < 32768 \<Longrightarrow> \<forall>(st, sy) \<in> set (size_symbols v). st < 2 \<and> sy < max_symbol"
proof -
  assume "v < 32768"
  then have "v div 128 < 256" by (intro less_mult_imp_div_less) simp
  moreover have "v mod 128 * 2 + 1 < 256" using mod_less_divisor [of 128 v] by linarith
  ultimately show ?thesis by (simp add: size_symbols_arith)
qed

lemma delta_symbols_arith:
  "delta_symbols v =
     (if - 64 \<le> v \<and> v \<le> 63 then [(state_lsb, nat (v mod 128 * 2))]
      else [(state_lsb, nat (v mod 128 * 2 + 1)), (state_msb, nat (v div 128 mod 256))])"
proof -
  have "v * 2 mod 256 = v mod 128 * 2" by (simp add: mult_mod_left)
  then show ?thesis
    unfolding delta_symbols_def and_byte and_127_int drop_bit_eq_div by (subst or_1_int) simp_all
qed

lemma delta_symbols_byte: "\<forall>(st, sy) \<in> set (delta_symbols v). st < 2 \<and> sy < max_symbol"
proof -
  have "nat (v mod 128 * 2) < 256" "nat (v mod 128 * 2 + 1) < 256" "nat (v div 128 mod 256) < 256"
    using pos_mod_bound [of 128 v] pos_mod_bound [of 256 "v div 128"] by linarith+
  then show ?thesis by (simp add: delta_symbols_arith)
qed

lemma sizes_symbols_byte:
  "sizes_ok prefix p vs \<Longrightarrow> \<forall>(st, sy) \<in> set (sizes_symbols prefix p vs). st < 2 \<and> sy < max_symbol"
proof (induction prefix p vs rule: sizes_ok.induct)
  case (2 prefix p v vs)
  then show ?case
    using size_symbols_byte [of "unat v"] delta_symbols_byte [of "uint v - uint p"]
    by (cases prefix) (auto simp: word_le_nat_alt)
qed simp

end
