(* ===== verification/Configuration.thy ===== *)
theory Configuration
  imports EntropyEncoder
begin

text \<open>
  decoder/include/SignaledConfiguration.hpp and the enumerations of src/Types.hpp and
  util/include/Image.hpp it uses: what the encoder tells the decoder. C++ \<open>unsigned\<close> fields are
  32-bit words, arrays of constant length are lists, the array of surface sizes is a function of
  plane, sub-layer and layer. Sub-layer 1 has index 0 and sub-layer 2 has index 1.
\<close>

abbreviation (input) "MAX_NUM_PLANES \<equiv> 3 :: nat"
abbreviation (input) "MAX_NUM_LOQS \<equiv> 2 :: nat"
abbreviation (input) "MAX_NUM_LAYERS \<equiv> 17 :: nat"
abbreviation (input) "LOQ_LEVEL_1 \<equiv> 0 :: nat"
abbreviation (input) "LOQ_LEVEL_2 \<equiv> Suc 0"
abbreviation (input) "MIN_STEP_WIDTH \<equiv> 1 :: int"
abbreviation (input) "MAX_STEP_WIDTH \<equiv> 32767 :: int"

datatype upsample = Upsample_Nearest | Upsample_Linear | Upsample_Cubic | Upsample_ModifiedCubic
  | Upsample_AdaptiveCubic

datatype scaling_mode = ScalingMode_None | ScalingMode_1D | ScalingMode_2D

datatype user_data_mode = UserData_None | UserData_2bits | UserData_6bits

datatype tile_dimensions = TileDimensions_None | TileDimensions_512x256 | TileDimensions_1024x512
  | TileDimensions_Custom

datatype quant_matrix = QuantMatrix_BothPrevious | QuantMatrix_BothDefault | QuantMatrix_SameAndCustom
  | QuantMatrix_Level2CustomLevel1Default | QuantMatrix_Level2DefaultLevel1Custom
  | QuantMatrix_DifferentAndCustom

datatype dithering_type = Dithering_None | Dithering_Uniform | Dithering_UniformFixed

datatype dequant_offset = DequantOffset_Default | DequantOffset_ConstOffset

datatype picture_type = PictureType_Frame | PictureType_Field

datatype field_type = FieldType_Top | FieldType_Bottom

datatype coding_type = CodingType_IDR | CodingType_NonIDR

datatype profile = Profile_Main | Profile_Main444 | Profile_Auto

datatype colourspace = Colourspace_Y | Colourspace_YUV420 | Colourspace_YUV422 | Colourspace_YUV444

datatype image_format = IMAGE_FORMAT_NONE
  | IMAGE_FORMAT_YUV420P8 | IMAGE_FORMAT_YUV422P8 | IMAGE_FORMAT_YUV444P8 | IMAGE_FORMAT_Y8
  | IMAGE_FORMAT_YUV420P10 | IMAGE_FORMAT_YUV422P10 | IMAGE_FORMAT_YUV444P10 | IMAGE_FORMAT_Y10
  | IMAGE_FORMAT_YUV420P12 | IMAGE_FORMAT_YUV422P12 | IMAGE_FORMAT_YUV444P12 | IMAGE_FORMAT_Y12
  | IMAGE_FORMAT_YUV420P14 | IMAGE_FORMAT_YUV422P14 | IMAGE_FORMAT_YUV444P14 | IMAGE_FORMAT_Y14
  | IMAGE_FORMAT_YUV420P16 | IMAGE_FORMAT_YUV422P16 | IMAGE_FORMAT_YUV444P16 | IMAGE_FORMAT_Y16

record sequence_configuration =
  sq_profile_idc :: profile
  sq_level_idc :: u32
  sq_sublevel_idc :: u32
  sq_conformance_window :: bool
  sq_extended_profile_idc :: u32
  sq_extended_level_idc :: u32
  sq_conf_win_left_offset :: u32
  sq_conf_win_right_offset :: u32
  sq_conf_win_top_offset :: u32
  sq_conf_win_bottom_offset :: u32

record global_configuration =
  gc_base_depth :: u32
  gc_enhancement_depth :: u32
  gc_colourspace :: colourspace
  gc_image_format :: image_format
  gc_num_image_planes :: u32
  gc_num_processed_planes :: u32
  gc_num_residual_layers :: u32
  gc_transform_block_size :: u32
  gc_predicted_residual_enabled :: bool
  gc_resolution_height :: u32
  gc_resolution_width :: u32
  gc_temporal_enabled :: u32
  gc_temporal_tile_intra_signalling_enabled :: bool
  gc_temporal_step_width_modifier :: u32
  gc_upsample :: upsample
  gc_level_1_filtering_first_coefficient :: u32
  gc_level_1_filtering_second_coefficient :: u32
  gc_scaling_mode :: "scaling_mode list"
  gc_tile_dimensions_type :: tile_dimensions
  gc_user_data_enabled :: user_data_mode
  gc_level1_depth_flag :: bool
  gc_chroma_step_width_multiplier :: u32
  gc_tile_width :: u32
  gc_tile_height :: u32
  gc_compression_type_entropy_enabled_per_tile :: bool
  gc_compression_type_size_per_tile :: compression_type
  gc_upsampling_coefficients :: "u32 list"
  gc_additional_info_present :: bool
  gc_additional_info_type :: u32
  gc_sei_message_present :: bool
  gc_vui_message_present :: bool

record picture_configuration =
  pc_enhancement_enabled :: bool
  pc_temporal_refresh :: bool
  pc_temporal_signalling_present :: bool
  pc_picture_type :: picture_type
  pc_field_type :: field_type
  pc_coding_type :: coding_type
  pc_step_width_loq :: "u32 list"
  pc_step_width_loq_orig :: "u32 list"
  pc_dithering_control :: bool
  pc_dithering_type :: dithering_type
  pc_dithering_strength :: u32
  pc_dequant_offset_signalled :: bool
  pc_dequant_offset_mode :: dequant_offset
  pc_dequant_offset :: u32
  pc_level_1_filtering_enabled :: bool
  pc_quant_matrix_mode :: quant_matrix
  pc_qm_coefficient_2 :: "u32 list"
  pc_qm_coefficient_1 :: "u32 list"
  pc_qm_coefficient_2_mem :: "u32 list"
  pc_qm_coefficient_1_mem :: "u32 list"
  pc_qm_coefficient_2_par :: "u32 list"
  pc_qm_coefficient_1_par :: "u32 list"

record additional_info =
  ai_additional_info_type :: u32
  ai_payload_type :: u32

record surface_configuration =
  sc_width :: nat
  sc_height :: nat

record signaled_configuration =
  sg_sequence_configuration :: sequence_configuration
  sg_global_configuration :: global_configuration
  sg_picture_configuration :: picture_configuration
  sg_additional_info :: additional_info
  sg_surface_configuration :: "nat \<Rightarrow> nat \<Rightarrow> nat \<Rightarrow> surface_configuration"

text \<open>The lengths of the arrays.\<close>

definition global_arrays :: "global_configuration \<Rightarrow> bool" where
  "global_arrays g \<longleftrightarrow> length (gc_scaling_mode g) = MAX_NUM_LOQS \<and> length (gc_upsampling_coefficients g) = 4"

definition picture_arrays :: "picture_configuration \<Rightarrow> bool" where
  "picture_arrays p \<longleftrightarrow> length (pc_step_width_loq p) = MAX_NUM_LOQS \<and>
     length (pc_qm_coefficient_2 p) = MAX_NUM_LAYERS \<and> length (pc_qm_coefficient_1 p) = MAX_NUM_LAYERS"

end
