(* ===== verification/Dimensions.thy ===== *)
theory Dimensions
  imports Configuration PlaneLoops
begin

text \<open>
  decoder/src/Dimensions.cpp: sizes of planes, layers and tiles from a configuration. C++
  \<open>unsigned\<close> values are natural numbers below \<open>2 ^ 32\<close>; \<open>wrap\<close> marks where a result is reduced. Arrays
  indexed by plane and sub-layer are functions, whose values before they are set are those of
  the object before.
\<close>

record dimensions =
  dm_plane_width :: "nat \<times> nat \<Rightarrow> nat"
  dm_plane_height :: "nat \<times> nat \<Rightarrow> nat"
  dm_layer_width :: "nat \<times> nat \<Rightarrow> nat"
  dm_layer_height :: "nat \<times> nat \<Rightarrow> nat"
  dm_tile_width :: "nat \<times> nat \<Rightarrow> nat"
  dm_tile_height :: "nat \<times> nat \<Rightarrow> nat"
  dm_intermediate_width :: nat
  dm_intermediate_height :: nat
  dm_base_width :: nat
  dm_base_height :: nat
  dm_chroma_scale_width :: nat
  dm_chroma_scale_height :: nat

text \<open>\<open>(n + d - 1) / d\<close>.\<close>

definition div_up :: "nat \<Rightarrow> nat \<Rightarrow> nat result" where
  "div_up n d = udiv (wrap (n + d + 4294967295)) d"

definition set_plane_dimensions ::
  "global_configuration \<Rightarrow> nat \<Rightarrow> nat \<Rightarrow> nat \<Rightarrow> nat \<Rightarrow> nat \<Rightarrow> nat \<Rightarrow> dimensions \<Rightarrow> dimensions result" where
  "set_plane_dimensions g plane loq width height scale_tile_width scale_tile_height d =
     (let tbs = unat (gc_transform_block_size g);
          tw = unat (gc_tile_width g); th = unat (gc_tile_height g);
          d = d\<lparr>dm_plane_width := (dm_plane_width d)((plane, loq) := width),
                dm_plane_height := (dm_plane_height d)((plane, loq) := height)\<rparr> in
      rbind (div_up width tbs) (\<lambda>lw.
      rbind (div_up height tbs) (\<lambda>lh.
      let d = d\<lparr>dm_layer_width := (dm_layer_width d)((plane, loq) := lw),
                dm_layer_height := (dm_layer_height d)((plane, loq) := lh)\<rparr> in
      if tw \<noteq> 0 \<and> th \<noteq> 0 then
        rbind (check_that (tw mod tbs = 0)) (\<lambda>_.
        rbind (check_that (th mod tbs = 0)) (\<lambda>_.
        rbind (udiv tw (wrap (tbs * scale_tile_width))) (\<lambda>w.
        rbind (udiv th (wrap (tbs * scale_tile_height))) (\<lambda>h.
        Inr (d\<lparr>dm_tile_width := (dm_tile_width d)((plane, loq) := w),
               dm_tile_height := (dm_tile_height d)((plane, loq) := h)\<rparr>)))))
      else Inr (d\<lparr>dm_tile_width := (dm_tile_width d)((plane, loq) := 0),
                  dm_tile_height := (dm_tile_height d)((plane, loq) := 0)\<rparr>))))"

definition set_loq_dimensions :: "global_configuration \<Rightarrow> nat \<Rightarrow> nat \<Rightarrow> nat \<Rightarrow> dimensions \<Rightarrow> dimensions result" where
  "set_loq_dimensions g loq width height d =
     (let csw = dm_chroma_scale_width d; csh = dm_chroma_scale_height d in
      rbind (div_up width csw) (\<lambda>chroma_width.
      rbind (div_up height csh) (\<lambda>chroma_height.
      rbind (if 1 \<le> gc_num_image_planes g then set_plane_dimensions g 0 loq width height 1 1 d else Inr d) (\<lambda>d.
      if gc_num_image_planes g = 3 then
        rbind (set_plane_dimensions g 1 loq chroma_width chroma_height csw csh d) (\<lambda>d.
        set_plane_dimensions g 2 loq chroma_width chroma_height csw csh d)
      else Inr d))))"

definition set_dimensions :: "global_configuration \<Rightarrow> nat \<Rightarrow> nat \<Rightarrow> dimensions \<Rightarrow> dimensions result" where
  "set_dimensions g width height d =
     rbind (set_loq_dimensions g LOQ_LEVEL_2 width height d) (\<lambda>d.
     case gc_scaling_mode g ! LOQ_LEVEL_2 of
       ScalingMode_None \<Rightarrow> set_loq_dimensions g LOQ_LEVEL_1 width height d
     | ScalingMode_1D \<Rightarrow> set_loq_dimensions g LOQ_LEVEL_1 (wrap (width + 1) div 2) height d
     | ScalingMode_2D \<Rightarrow> set_loq_dimensions g LOQ_LEVEL_1 (wrap (width + 1) div 2) (wrap (height + 1) div 2) d)"

definition chroma_scale :: "colourspace \<Rightarrow> nat \<times> nat" where
  "chroma_scale c = (case c of Colourspace_Y \<Rightarrow> (1, 1) | Colourspace_YUV420 \<Rightarrow> (2, 2)
     | Colourspace_YUV422 \<Rightarrow> (2, 1) | Colourspace_YUV444 \<Rightarrow> (1, 1))"

text \<open>\<open>while (w < width) w *= 2\<close>, which does not end when \<open>w\<close> is 0.\<close>

partial_function (option) scale_up :: "nat \<Rightarrow> nat \<Rightarrow> nat option" where
  "scale_up w width = (if w < width then scale_up (wrap (w * 2)) width else Some w)"

definition scale_down :: "scaling_mode \<Rightarrow> nat \<times> nat \<Rightarrow> nat \<times> nat" where
  "scale_down m = (\<lambda>(w, h). case m of
     ScalingMode_1D \<Rightarrow> (w div 2, h) | ScalingMode_2D \<Rightarrow> (w div 2, h div 2) | ScalingMode_None \<Rightarrow> (w, h))"

definition dimensions_set :: "global_configuration \<Rightarrow> nat \<Rightarrow> nat \<Rightarrow> dimensions \<Rightarrow> dimensions run" where
  "dimensions_set g width height d =
     (let (csw, csh) = chroma_scale (gc_colourspace g);
          d = d\<lparr>dm_chroma_scale_width := csw, dm_chroma_scale_height := csh\<rparr> in
      run_bind (Some (set_dimensions g width height d)) (\<lambda>d.
      run_bind (Some (check_that (gc_num_processed_planes g \<le> gc_num_image_planes g))) (\<lambda>_.
      let last_plane = max (unat (gc_num_processed_planes g)) 1 - 1;
          tbs = unat (gc_transform_block_size g) in
      case scale_up (wrap (dm_layer_width d (last_plane, LOQ_LEVEL_1) * tbs)) width of
        None \<Rightarrow> None
      | Some w \<Rightarrow>
      case scale_up (wrap (dm_layer_height d (last_plane, LOQ_LEVEL_1) * tbs)) height of
        None \<Rightarrow> None
      | Some h \<Rightarrow>
      run_bind (Some (set_dimensions g w h d)) (\<lambda>d.
      let (iw, ih) = scale_down (gc_scaling_mode g ! LOQ_LEVEL_2) (w, h);
          (bw, bh) = scale_down (gc_scaling_mode g ! LOQ_LEVEL_1) (iw, ih) in
      Some (Inr (d\<lparr>dm_intermediate_width := iw, dm_intermediate_height := ih,
                   dm_base_width := bw, dm_base_height := bh\<rparr>))))))"

section \<open>What the sizes are\<close>

definition ceil_div :: "nat \<Rightarrow> nat \<Rightarrow> nat" where
  "ceil_div n d = (n + d - 1) div d"

lemma div_up_eq: "0 < d \<Longrightarrow> n + d < 4294967296 \<Longrightarrow> div_up n d = Inr (ceil_div n d)"
proof -
  assume d: "0 < d" "n + d < 4294967296"
  then have "wrap (n + d + 4294967295) = n + d - 1"
    unfolding wrap_def by (subst mod_if) (auto simp: mod_less)
  with d(1) show ?thesis by (simp add: div_up_def udiv_def ceil_div_def)
qed

lemma ceil_div_1 [simp]: "ceil_div n 1 = n" "ceil_div n (Suc 0) = n"
  by (simp_all add: ceil_div_def)

lemma ceil_div_le: "0 < d \<Longrightarrow> ceil_div n d \<le> n"
proof -
  assume d: "0 < d"
  show ?thesis
  proof (cases n)
    case (Suc m)
    have "(m + d) div d = m div d + 1" using d by simp
    also have "\<dots> \<le> n" using Suc by (simp add: div_le_dividend)
    finally show ?thesis using Suc d by (simp add: ceil_div_def)
  qed (use d in \<open>simp add: ceil_div_def\<close>)
qed

lemma ceil_div_ceil_div:
  assumes "0 < a" and "0 < b"
  shows "ceil_div (ceil_div n a) b = ceil_div n (a * b)"
proof (cases n)
  case 0
  then show ?thesis using assms by (simp add: ceil_div_def)
next
  case (Suc m)
  have eq: "ceil_div (Suc k) d = k div d + 1" if "0 < d" for k d
    using that by (simp add: ceil_div_def)
  show ?thesis using assms by (simp add: Suc eq div_mult2_eq)
qed

lemma ceil_div_mult: "0 < d \<Longrightarrow> ceil_div (k * d) d = k"
proof -
  assume d: "0 < d"
  have "(k * d + (d - 1)) div d = k" using d by (intro div_nat_eqI) (simp_all add: mult.commute)
  then show ?thesis using d by (simp add: ceil_div_def)
qed

lemma ceil_div_bounds:
  assumes "0 < d" and "0 < n"
  shows "n \<le> ceil_div n d * d" and "ceil_div n d * d < n + d" and "0 < ceil_div n d"
proof -
  obtain m where m: "n = Suc m" using assms(2) by (cases n) auto
  have eq: "ceil_div n d = m div d + 1" using assms(1) by (simp add: m ceil_div_def)
  have "m = m div d * d + m mod d" "m mod d < d" "(m div d + 1) * d = m div d * d + d" "n = Suc m" using assms(1) m by simp_all
  then show "n \<le> ceil_div n d * d" "ceil_div n d * d < n + d" "0 < ceil_div n d"
    unfolding eq by linarith+
qed

text \<open>The least multiple of a unit that holds a size.\<close>

definition round_up :: "nat \<Rightarrow> nat \<Rightarrow> nat" where
  "round_up u n = ceil_div n u * u"

lemma scale_up_power:
  assumes "0 < w" and "w * 2 ^ j < 4294967296" and "n \<le> w * 2 ^ j" and "\<forall>i < j. w * 2 ^ i < n"
  shows "scale_up w n = Some (w * 2 ^ j)"
  using assms
proof (induction j arbitrary: w)
  case 0
  then show ?case by (subst scale_up.simps) simp
next
  case (Suc j)
  have lt: "w < n" using Suc.prems(4) by force
  have w2: "w * 2 < 4294967296"
  proof -
    have "w * 2 \<le> w * 2 ^ Suc j" by simp
    with Suc.prems(2) show ?thesis by linarith
  qed
  have step: "\<forall>i < j. w * 2 * 2 ^ i < n"
  proof (intro allI impI)
    fix i assume "i < j"
    with Suc.prems(4) have "w * 2 ^ Suc i < n" by blast
    then show "w * 2 * 2 ^ i < n" by (simp add: mult.assoc)
  qed
  have "scale_up (w * 2) n = Some (w * 2 * 2 ^ j)"
    using Suc.prems(1-3) by (intro Suc.IH step) (simp_all add: mult.assoc)
  then show ?case using lt w2 by (subst scale_up.simps) (simp add: mult.assoc)
qed

text \<open>
  One axis: from the layer of the smallest enhanced plane, doubled until it covers the size, to
  the size rounded up to whole transform blocks of that plane.
\<close>

lemma scale_up_conforms:
  assumes t: "0 < t" and n: "t * 2 ^ j < 2 * n" "n + t * 2 ^ j < 4294967296"
  shows "scale_up (ceil_div n (t * 2 ^ j) * t) n = Some (round_up (t * 2 ^ j) n)"
proof -
  let ?u = "t * 2 ^ j" and ?m = "ceil_div n (t * 2 ^ j)"
  have u: "0 < ?u" and n0: "0 < n" using t n(1) by auto
  note b = ceil_div_bounds [OF u n0]
  have eq: "?m * t * 2 ^ j = ?m * ?u" by (simp only: mult.assoc)
  have "?m * t * 2 ^ i < n" if ij: "i < j" for i
  proof -
    obtain k where k: "j = Suc k" "i \<le> k" using less_imp_Suc_add [OF ij] by auto
    have "(?m * t * 2 ^ i) * 2 \<le> ?m * t * 2 ^ k * 2" using k(2) by (intro mult_right_mono mult_left_mono power_increasing) auto
    also have "\<dots> = ?m * ?u" by (simp add: k(1) mult.assoc mult.commute)
    finally have le: "(?m * t * 2 ^ i) * 2 \<le> ?m * ?u" .
    show ?thesis
    proof (cases "n \<le> ?u")
      case True
      then have "?m * ?u < 2 * ?u" using b(2) by linarith
      then have "?m = 1" using b(3) u by (metis One_nat_def Suc_leI le_antisym less_2_cases_iff less_irrefl mult_less_cancel2 not_less_eq_eq)
      then have one: "?m * t = t" by simp
      from le n(1) show ?thesis unfolding one \<open>?m = 1\<close> by linarith
    next
      case False
      with le b(2) show ?thesis by linarith
    qed
  qed
  moreover have "?m * t * 2 ^ j < 4294967296" "n \<le> ?m * t * 2 ^ j" unfolding eq using b(1,2) n(2) by linarith+
  moreover have "0 < ?m * t" using b(3) t by simp
  ultimately show ?thesis unfolding round_up_def eq [symmetric] by (intro scale_up_power) auto
qed

text \<open>What a configuration needs for its sizes to be defined.\<close>

definition sizes_defined :: "global_configuration \<Rightarrow> bool" where
  "sizes_defined g \<longleftrightarrow> gc_transform_block_size g \<in> {2, 4} \<and>
     gc_num_image_planes g = (if gc_colourspace g = Colourspace_Y then 1 else 3) \<and>
     gc_num_processed_planes g \<in> {1, 3} \<and> gc_num_processed_planes g \<le> gc_num_image_planes g \<and>
     (gc_tile_width g = 0 \<or> gc_tile_height g = 0 \<or>
      unat (gc_tile_width g) mod unat (gc_transform_block_size g) = 0 \<and>
      unat (gc_tile_height g) mod unat (gc_transform_block_size g) = 0)"

abbreviation "tbs_of g \<equiv> unat (gc_transform_block_size g)"

lemma tbs_of_values: "sizes_defined g \<Longrightarrow> tbs_of g = 2 \<or> tbs_of g = 4"
  by (auto simp: sizes_defined_def)

text \<open>Planes are set one after another; the entries below say what an entry holds afterwards.\<close>

definition plane_set :: "nat \<Rightarrow> nat \<times> nat \<Rightarrow> nat \<Rightarrow> nat \<Rightarrow> dimensions \<Rightarrow> dimensions \<Rightarrow> bool" where
  "plane_set t pos w h d d' \<longleftrightarrow>
     dm_plane_width d' = (dm_plane_width d)(pos := w) \<and> dm_plane_height d' = (dm_plane_height d)(pos := h) \<and>
     dm_layer_width d' = (dm_layer_width d)(pos := ceil_div w t) \<and>
     dm_layer_height d' = (dm_layer_height d)(pos := ceil_div h t) \<and>
     dm_chroma_scale_width d' = dm_chroma_scale_width d \<and> dm_chroma_scale_height d' = dm_chroma_scale_height d"

lemma set_plane_total:
  assumes ok: "sizes_defined g" and sizes: "w < 2147483648" "h < 2147483648" and sc: "sw \<in> {1, 2}" "sh \<in> {1, 2}"
  obtains d' where "set_plane_dimensions g plane loq w h sw sh d = Inr d'" and "plane_set (tbs_of g) (plane, loq) w h d d'"
proof -
  have t: "0 < tbs_of g" "tbs_of g \<le> 4" using tbs_of_values [OF ok] by auto
  have up: "div_up w (tbs_of g) = Inr (ceil_div w (tbs_of g))" "div_up h (tbs_of g) = Inr (ceil_div h (tbs_of g))"
    using t sizes by (simp_all add: div_up_eq)
  have u: "udiv n (wrap (tbs_of g * s)) = Inr (n div (tbs_of g * s))" if "s \<in> {1, 2}" for n s
    using t that by (auto simp: udiv_def)
  have tiles: "unat (gc_tile_width g) \<noteq> 0 \<and> unat (gc_tile_height g) \<noteq> 0 \<Longrightarrow>
      unat (gc_tile_width g) mod tbs_of g = 0 \<and> unat (gc_tile_height g) mod tbs_of g = 0"
    using ok by (auto simp: sizes_defined_def)
  show thesis
  proof (cases "unat (gc_tile_width g) \<noteq> 0 \<and> unat (gc_tile_height g) \<noteq> 0")
    case True
    note m = tiles [OF True]
    show ?thesis
      by (intro that) (simp only: set_plane_dimensions_def Let_def up rbind.simps if_P [OF True] m check_that_simps(1)
        u [OF sc(1)] u [OF sc(2)] simp_thms, simp add: plane_set_def)
  next
    case False
    show ?thesis
      by (intro that) (simp only: set_plane_dimensions_def Let_def up rbind.simps if_not_P [OF False],
        simp add: plane_set_def)
  qed
qed

text \<open>The size of a plane from the size of its sub-layer.\<close>

definition plane_size :: "nat \<Rightarrow> nat \<Rightarrow> nat \<Rightarrow> nat" where
  "plane_size c plane n = (if plane = 0 then n else ceil_div n c)"

definition loq_set :: "global_configuration \<Rightarrow> nat \<Rightarrow> nat \<Rightarrow> nat \<Rightarrow> nat \<Rightarrow> nat \<Rightarrow> dimensions \<Rightarrow> dimensions \<Rightarrow> bool" where
  "loq_set g loq csw csh w h d d' \<longleftrightarrow>
     dm_chroma_scale_width d' = csw \<and> dm_chroma_scale_height d' = csh \<and>
     (\<forall>plane < unat (gc_num_image_planes g).
        dm_plane_width d' (plane, loq) = plane_size csw plane w \<and> dm_plane_height d' (plane, loq) = plane_size csh plane h \<and>
        dm_layer_width d' (plane, loq) = ceil_div (plane_size csw plane w) (tbs_of g) \<and>
        dm_layer_height d' (plane, loq) = ceil_div (plane_size csh plane h) (tbs_of g)) \<and>
     (\<forall>plane l. l \<noteq> loq \<longrightarrow>
        dm_plane_width d' (plane, l) = dm_plane_width d (plane, l) \<and> dm_plane_height d' (plane, l) = dm_plane_height d (plane, l) \<and>
        dm_layer_width d' (plane, l) = dm_layer_width d (plane, l) \<and> dm_layer_height d' (plane, l) = dm_layer_height d (plane, l))"

lemma set_loq_total:
  assumes ok: "sizes_defined g" and sizes: "w < 2147483648" "h < 2147483648"
    and cs: "dm_chroma_scale_width d = csw" "dm_chroma_scale_height d = csh" "csw \<in> {1, 2}" "csh \<in> {1, 2}"
  obtains d' where "set_loq_dimensions g loq w h d = Inr d'" and "loq_set g loq csw csh w h d d'"
proof -
  have pos: "0 < csw" "0 < csh" using cs(3,4) by auto
  have up: "div_up w csw = Inr (ceil_div w csw)" "div_up h csh = Inr (ceil_div h csh)"
    using cs(3,4) sizes by (auto simp: div_up_eq)
  have lt: "ceil_div w csw < 2147483648" "ceil_div h csh < 2147483648"
    using ceil_div_le [OF pos(1), of w] ceil_div_le [OF pos(2), of h] sizes by linarith+
  have one: "(1 :: nat) \<in> {1, 2}" by simp
  have planes: "gc_num_image_planes g = 1 \<or> gc_num_image_planes g = 3" using ok by (auto simp: sizes_defined_def)
  then have ge: "1 \<le> gc_num_image_planes g" by auto
  obtain d0 where d0: "set_plane_dimensions g 0 loq w h 1 1 d = Inr d0" "plane_set (tbs_of g) (0, loq) w h d d0"
    by (rule set_plane_total [OF ok sizes one one])
  show thesis
  proof (cases "gc_num_image_planes g = 3")
    case False
    then have n: "gc_num_image_planes g = 1" using planes by blast
    have "set_loq_dimensions g loq w h d = Inr d0"
      using False ge by (simp add: set_loq_dimensions_def Let_def cs(1,2) up d0(1) del: One_nat_def)
    then show ?thesis using d0(2) cs(1,2) n by (intro that [of d0]) (auto simp: loq_set_def plane_set_def plane_size_def)
  next
    case True
    obtain d1 where d1: "set_plane_dimensions g 1 loq (ceil_div w csw) (ceil_div h csh) csw csh d0 = Inr d1"
      "plane_set (tbs_of g) (1, loq) (ceil_div w csw) (ceil_div h csh) d0 d1"
      by (rule set_plane_total [OF ok lt cs(3,4)])
    obtain d2 where d2: "set_plane_dimensions g 2 loq (ceil_div w csw) (ceil_div h csh) csw csh d1 = Inr d2"
      "plane_set (tbs_of g) (2, loq) (ceil_div w csw) (ceil_div h csh) d1 d2"
      by (rule set_plane_total [OF ok lt cs(3,4)])
    have "set_loq_dimensions g loq w h d = Inr d2"
      using True ge d1(1) by (simp add: set_loq_dimensions_def Let_def cs(1,2) up d0(1) d2(1) del: One_nat_def)
    moreover have three: "plane = 0 \<or> plane = 1 \<or> plane = 2" if "plane < unat (gc_num_image_planes g)" for plane
      using that True by auto
    ultimately show ?thesis using d0(2) d1(2) d2(2) cs(1,2)
      by (intro that [of d2]) (auto simp: loq_set_def plane_set_def plane_size_def dest: three)
  qed
qed

text \<open>The size of a sub-layer, and of both in one configuration.\<close>

definition loq_size :: "bool \<Rightarrow> nat \<Rightarrow> nat \<Rightarrow> nat" where
  "loq_size scaled loq n = (if loq = LOQ_LEVEL_1 \<and> scaled then ceil_div n 2 else n)"

definition scaled_x :: "global_configuration \<Rightarrow> bool" where
  "scaled_x g \<longleftrightarrow> gc_scaling_mode g ! LOQ_LEVEL_2 \<noteq> ScalingMode_None"

definition scaled_y :: "global_configuration \<Rightarrow> bool" where
  "scaled_y g \<longleftrightarrow> gc_scaling_mode g ! LOQ_LEVEL_2 = ScalingMode_2D"

definition all_set :: "global_configuration \<Rightarrow> nat \<Rightarrow> nat \<Rightarrow> nat \<Rightarrow> nat \<Rightarrow> dimensions \<Rightarrow> bool" where
  "all_set g csw csh w h d \<longleftrightarrow> dm_chroma_scale_width d = csw \<and> dm_chroma_scale_height d = csh \<and>
     (\<forall>plane < unat (gc_num_image_planes g). \<forall>loq < MAX_NUM_LOQS.
        dm_plane_width d (plane, loq) = plane_size csw plane (loq_size (scaled_x g) loq w) \<and>
        dm_plane_height d (plane, loq) = plane_size csh plane (loq_size (scaled_y g) loq h) \<and>
        dm_layer_width d (plane, loq) = ceil_div (plane_size csw plane (loq_size (scaled_x g) loq w)) (tbs_of g) \<and>
        dm_layer_height d (plane, loq) = ceil_div (plane_size csh plane (loq_size (scaled_y g) loq h)) (tbs_of g))"

lemma set_dimensions_total:
  assumes ok: "sizes_defined g" and sizes: "w < 2147483648" "h < 2147483648"
    and cs: "dm_chroma_scale_width d = csw" "dm_chroma_scale_height d = csh" "csw \<in> {1, 2}" "csh \<in> {1, 2}"
  obtains d' where "set_dimensions g w h d = Inr d'" and "all_set g csw csh w h d'"
proof -
  let ?w = "loq_size (scaled_x g) LOQ_LEVEL_1 w" and ?h = "loq_size (scaled_y g) LOQ_LEVEL_1 h"
  obtain d2 where d2: "set_loq_dimensions g LOQ_LEVEL_2 w h d = Inr d2" "loq_set g LOQ_LEVEL_2 csw csh w h d d2"
    by (rule set_loq_total [OF ok sizes cs])
  have le: "?w < 2147483648" "?h < 2147483648"
    using sizes ceil_div_le [of 2 w] ceil_div_le [of 2 h] by (auto simp: loq_size_def)
  have c2: "dm_chroma_scale_width d2 = csw" "dm_chroma_scale_height d2 = csh" using d2(2) by (simp_all add: loq_set_def)
  obtain d1 where d1: "set_loq_dimensions g LOQ_LEVEL_1 ?w ?h d2 = Inr d1" "loq_set g LOQ_LEVEL_1 csw csh ?w ?h d2 d1"
    by (rule set_loq_total [OF ok le c2 cs(3,4)])
  have half: "n < 2147483648 \<Longrightarrow> wrap (n + 1) div 2 = ceil_div n 2" for n by (simp add: ceil_div_def)
  have "set_dimensions g w h d = Inr d1"
    using d1(1) half [OF sizes(1)] half [OF sizes(2)]
    by (cases "gc_scaling_mode g ! LOQ_LEVEL_2") (simp_all add: set_dimensions_def d2(1) loq_size_def scaled_x_def scaled_y_def)
  moreover have "all_set g csw csh w h d1"
    unfolding all_set_def
  proof (intro conjI allI impI)
    fix plane loq assume p: "plane < unat (gc_num_image_planes g)" and l: "loq < (2 :: nat)"
    have "loq = 0 \<or> loq = Suc 0" using l by auto
    with d1(2) d2(2) p
    show "dm_plane_width d1 (plane, loq) = plane_size csw plane (loq_size (scaled_x g) loq w)"
      "dm_plane_height d1 (plane, loq) = plane_size csh plane (loq_size (scaled_y g) loq h)"
      "dm_layer_width d1 (plane, loq) = ceil_div (plane_size csw plane (loq_size (scaled_x g) loq w)) (tbs_of g)"
      "dm_layer_height d1 (plane, loq) = ceil_div (plane_size csh plane (loq_size (scaled_y g) loq h)) (tbs_of g)"
      by (auto simp: loq_size_def loq_set_def)
  qed (use d1(2) in \<open>simp_all add: loq_set_def\<close>)
  ultimately show thesis by (rule that)
qed

text \<open>
  The unit of one axis: the transform block, times the subsampling of the processed chroma planes,
  times 2 when the axis is scaled between the sub-layers.
\<close>

definition axis_scale :: "global_configuration \<Rightarrow> nat \<Rightarrow> bool \<Rightarrow> nat" where
  "axis_scale g c scaled = (if gc_num_processed_planes g = 3 then c else 1) * (if scaled then 2 else 1)"

definition unit_x :: "global_configuration \<Rightarrow> nat" where
  "unit_x g = tbs_of g * axis_scale g (fst (chroma_scale (gc_colourspace g))) (scaled_x g)"

definition unit_y :: "global_configuration \<Rightarrow> nat" where
  "unit_y g = tbs_of g * axis_scale g (snd (chroma_scale (gc_colourspace g))) (scaled_y g)"

lemma axis_scale_power:
  assumes "c \<in> {1, 2}"
  obtains j where "axis_scale g c scaled = 2 ^ j" and "j \<le> 2"
proof -
  have "axis_scale g c scaled = 2 ^ (of_bool (gc_num_processed_planes g = 3 \<and> c = 2) + of_bool scaled)"
    using assms by (auto simp: axis_scale_def)
  with that show thesis by (metis add_mono of_bool_less_eq_one one_add_one)
qed

text \<open>On one axis: the layer that the search starts from, and the layers of the rounded size.\<close>

lemma axis_start:
  assumes "c \<in> {1, 2}" and "lp = (if gc_num_processed_planes g = 3 then 2 else 0 :: nat)" and "0 < t"
  shows "ceil_div (plane_size c lp (loq_size scaled LOQ_LEVEL_1 n)) t = ceil_div n (t * axis_scale g c scaled)"
  using assms by (auto simp: plane_size_def loq_size_def axis_scale_def ceil_div_ceil_div mult.commute mult.left_commute)

lemma axis_no_padding:
  assumes c: "c \<in> {1, 2}" and t: "0 < t" and plane: "plane < unat (gc_num_processed_planes g)"
    and planes: "gc_num_processed_planes g \<in> {1, 3}" and l: "loq < MAX_NUM_LOQS"
  shows "ceil_div (plane_size c plane (loq_size scaled loq (round_up (t * axis_scale g c scaled) n))) t * t =
    plane_size c plane (loq_size scaled loq (round_up (t * axis_scale g c scaled) n))"
proof -
  let ?s = "axis_scale g c scaled"
  obtain k where k: "round_up (t * ?s) n = k * (t * ?s)" by (rule that) (rule round_up_def)
  have "\<exists>m. plane_size c plane (loq_size scaled loq (k * (t * ?s))) = m * t"
  proof (cases "gc_num_processed_planes g = 3")
    case True
    have half: "ceil_div (k * (t * 2)) 2 = k * t" "ceil_div (k * (t * 4)) 2 = k * 2 * t"
      using ceil_div_mult [of 2 "k * t"] ceil_div_mult [of 2 "k * t * 2"] by (simp_all add: mult.assoc mult.left_commute)
    have quarter: "ceil_div (k * (2 * t)) 2 = k * t" using half(1) by (simp add: mult.commute)
    show ?thesis
      using c unfolding axis_scale_def if_P [OF True]
      by (cases scaled) (auto simp: plane_size_def loq_size_def half quarter mult.assoc intro: exI [of _ "k * 4"] exI [of _ "k * 2"] exI [of _ k])
  next
    case False
    with plane planes have "plane = 0" by auto
    then show ?thesis
      using False by (cases scaled) (auto simp: axis_scale_def plane_size_def loq_size_def ceil_div_mult
          simp flip: mult.assoc intro: exI [of _ "k * 2"] exI [of _ k])
  qed
  with k t show ?thesis by (auto simp: ceil_div_mult)
qed

lemma chroma_scale_values:
  "fst (chroma_scale c) \<in> {1, 2}" "snd (chroma_scale c) \<in> {1, 2}"
  by (cases c; simp add: chroma_scale_def)+

lemma unit_axis:
  assumes ok: "sizes_defined g" and c: "c \<in> {1, 2}" and n: "0 < n" "n \<le> 65535" "tbs_of g * axis_scale g c scaled < 2 * n"
  shows "scale_up (wrap (ceil_div n (tbs_of g * axis_scale g c scaled) * tbs_of g)) n =
      Some (round_up (tbs_of g * axis_scale g c scaled) n)"
    and "round_up (tbs_of g * axis_scale g c scaled) n < 65552"
proof -
  obtain j where j: "axis_scale g c scaled = 2 ^ j" "j \<le> 2" by (rule axis_scale_power [OF c])
  have t: "0 < tbs_of g" "tbs_of g \<le> 4" using tbs_of_values [OF ok] by auto
  have "(2 :: nat) ^ j \<le> 2 ^ 2" using j(2) by (rule power_increasing) simp
  then have u: "tbs_of g * 2 ^ j \<le> 4 * 4" using t(2) by (intro mult_le_mono) auto
  have pos: "0 < tbs_of g * 2 ^ j" using t(1) by simp
  note b = ceil_div_bounds [OF pos n(1)]
  have "ceil_div n (tbs_of g * 2 ^ j) * tbs_of g \<le> n * 4"
    using ceil_div_le [OF pos, of n] t(2) by (rule mult_le_mono)
  then have w: "ceil_div n (tbs_of g * 2 ^ j) * tbs_of g < 4294967296" using n(2) by linarith
  show "scale_up (wrap (ceil_div n (tbs_of g * axis_scale g c scaled) * tbs_of g)) n =
      Some (round_up (tbs_of g * axis_scale g c scaled) n)"
    unfolding j(1) wrap_id [OF w] using n(3) u n(2) by (intro scale_up_conforms t(1)) (simp_all add: j(1))
  show "round_up (tbs_of g * axis_scale g c scaled) n < 65552"
    unfolding j(1) round_up_def using b(2) u n(2) by linarith
qed

lemma axis_intermediate:
  assumes "c \<in> {1, 2}" and "0 < t"
  shows "(if scaled then round_up (t * axis_scale g c scaled) n div 2 else round_up (t * axis_scale g c scaled) n) =
    plane_size c 0 (loq_size scaled LOQ_LEVEL_1 (round_up (t * axis_scale g c scaled) n))"
proof (cases scaled)
  case True
  have "round_up (t * axis_scale g c scaled) n = ceil_div n (t * axis_scale g c scaled) * (t * axis_scale g c False) * 2"
    using True by (simp add: round_up_def axis_scale_def)
  then show ?thesis using True by (simp add: plane_size_def loq_size_def ceil_div_mult)
qed (simp add: plane_size_def loq_size_def)

lemma processed_in_image:
  "sizes_defined g \<Longrightarrow> plane < unat (gc_num_processed_planes g) \<Longrightarrow> plane < unat (gc_num_image_planes g)"
  by (auto simp: sizes_defined_def word_le_nat_alt)

text \<open>The run of \<open>set\<close>: the sizes are set twice, for the picture and for the rounded size.\<close>

lemma dimensions_found:
  assumes "sizes_defined g" and "unit_x g < 2 * width" and "unit_y g < 2 * height"
    and "width \<le> 65535" and "height \<le> 65535" and cs: "chroma_scale (gc_colourspace g) = (cx, cy)"
    and i: "scale_down (gc_scaling_mode g ! LOQ_LEVEL_2) (round_up (unit_x g) width, round_up (unit_y g) height) = (iw, ih)"
    and b: "scale_down (gc_scaling_mode g ! LOQ_LEVEL_1) (iw, ih) = (bw, bh)"
  obtains d2 where "all_set g cx cy (round_up (unit_x g) width) (round_up (unit_y g) height) d2"
    and "dimensions_set g width height d = Some (Inr (d2\<lparr>dm_intermediate_width := iw, dm_intermediate_height := ih,
           dm_base_width := bw, dm_base_height := bh\<rparr>))"
proof -
  have c: "cx \<in> {1, 2}" "cy \<in> {1, 2}" using chroma_scale_values [of "gc_colourspace g"] by (simp_all add: cs)
  have t: "0 < tbs_of g" using tbs_of_values [OF assms(1)] by auto
  have np: "gc_num_processed_planes g \<in> {1, 3}" "gc_num_processed_planes g \<le> gc_num_image_planes g"
    using assms(1) unfolding sizes_defined_def by blast+
  have unit: "unit_x g = tbs_of g * axis_scale g cx (scaled_x g)" "unit_y g = tbs_of g * axis_scale g cy (scaled_y g)"
    by (simp_all add: unit_x_def unit_y_def cs)
  have pos: "0 < width" "0 < height" using assms(2,3) by auto
  have sizes: "width < 2147483648" "height < 2147483648" using assms(4,5) by linarith+
  let ?lp = "max (unat (gc_num_processed_planes g)) 1 - 1"
  have lp: "?lp = (if gc_num_processed_planes g = 3 then 2 else 0)" using np(1) by auto
  let ?d0 = "d\<lparr>dm_chroma_scale_width := cx, dm_chroma_scale_height := cy\<rparr>"
  obtain d1 where d1: "set_dimensions g width height ?d0 = Inr d1" "all_set g cx cy width height d1"
    by (rule set_dimensions_total [OF assms(1) sizes _ _ c, of ?d0]) simp_all
  have "?lp < unat (gc_num_processed_planes g)" using np(1) by auto
  then have lpn: "?lp < unat (gc_num_image_planes g)" by (rule processed_in_image [OF assms(1)])
  have l1: "LOQ_LEVEL_1 < MAX_NUM_LOQS" by simp
  have start: "dm_layer_width d1 (?lp, LOQ_LEVEL_1) = ceil_div width (unit_x g)"
    "dm_layer_height d1 (?lp, LOQ_LEVEL_1) = ceil_div height (unit_y g)"
    using d1(2) lpn l1 axis_start [OF c(1) lp t] axis_start [OF c(2) lp t] by (simp_all add: all_set_def unit del: One_nat_def)
  note ux = unit_axis [OF assms(1) c(1) pos(1) assms(4) assms(2) [unfolded unit], folded unit]
  note uy = unit_axis [OF assms(1) c(2) pos(2) assms(5) assms(3) [unfolded unit], folded unit]
  have up: "round_up (unit_x g) width < 2147483648" "round_up (unit_y g) height < 2147483648" using ux(2) uy(2) by linarith+
  have dc: "dm_chroma_scale_width d1 = cx" "dm_chroma_scale_height d1 = cy" using d1(2) by (simp_all add: all_set_def)
  obtain d2 where d2: "set_dimensions g (round_up (unit_x g) width) (round_up (unit_y g) height) d1 = Inr d2"
    "all_set g cx cy (round_up (unit_x g) width) (round_up (unit_y g) height) d2"
    by (rule set_dimensions_total [OF assms(1) up dc c])
  show thesis
    by (rule that [OF d2(2)]) (use np(2) start ux(1) uy(1) in
      \<open>simp add: dimensions_set_def cs d1(1) Let_def d2(1) i b del: One_nat_def\<close>)
qed

text \<open>
  C11: For a configuration with whole tiles and a picture that is not smaller than half a unit, the
  dimensions are found: the top sub-layer gets the picture's size rounded up to the unit (transform
  block, subsampling of the enhanced chroma planes and scaling between the sub-layers together), so
  that every enhanced plane of both sub-layers divides into whole transform blocks with nothing left
  over, and the intermediate picture is exactly the lower sub-layer's luma plane.
\<close>

theorem dimensions_conform:
  assumes "sizes_defined g" and "unit_x g < 2 * width" and "unit_y g < 2 * height"
    and "width \<le> 65535" and "height \<le> 65535"
  shows "\<exists>d'. dimensions_set g width height d = Some (Inr d') \<and>
    dm_plane_width d' (0, LOQ_LEVEL_2) = round_up (unit_x g) width \<and>
    dm_plane_height d' (0, LOQ_LEVEL_2) = round_up (unit_y g) height \<and>
    (\<forall>plane < unat (gc_num_processed_planes g). \<forall>loq < MAX_NUM_LOQS.
       dm_layer_width d' (plane, loq) * tbs_of g = dm_plane_width d' (plane, loq) \<and>
       dm_layer_height d' (plane, loq) * tbs_of g = dm_plane_height d' (plane, loq)) \<and>
    dm_intermediate_width d' = dm_plane_width d' (0, LOQ_LEVEL_1) \<and>
    dm_intermediate_height d' = dm_plane_height d' (0, LOQ_LEVEL_1)"
proof -
  let ?w = "round_up (unit_x g) width" and ?h = "round_up (unit_y g) height"
  obtain cx cy where cs: "chroma_scale (gc_colourspace g) = (cx, cy)" by fastforce
  have c: "cx \<in> {1, 2}" "cy \<in> {1, 2}" using chroma_scale_values [of "gc_colourspace g"] by (simp_all add: cs)
  have t: "0 < tbs_of g" using tbs_of_values [OF assms(1)] by auto
  have np: "gc_num_processed_planes g \<in> {1, 3}" using assms(1) unfolding sizes_defined_def by blast
  have unit: "unit_x g = tbs_of g * axis_scale g cx (scaled_x g)" "unit_y g = tbs_of g * axis_scale g cy (scaled_y g)"
    by (simp_all add: unit_x_def unit_y_def cs)
  obtain iw ih where i: "scale_down (gc_scaling_mode g ! LOQ_LEVEL_2) (?w, ?h) = (iw, ih)" by fastforce
  obtain bw bh where b: "scale_down (gc_scaling_mode g ! LOQ_LEVEL_1) (iw, ih) = (bw, bh)" by fastforce
  obtain d2 where d2: "all_set g cx cy ?w ?h d2" "dimensions_set g width height d = Some (Inr (d2\<lparr>dm_intermediate_width := iw,
      dm_intermediate_height := ih, dm_base_width := bw, dm_base_height := bh\<rparr>))"
    by (rule dimensions_found [OF assms cs i b])
  have n0: "0 < unat (gc_num_image_planes g)" using processed_in_image [OF assms(1), of 0] np by auto
  have inter: "iw = plane_size cx 0 (loq_size (scaled_x g) LOQ_LEVEL_1 ?w)" "ih = plane_size cy 0 (loq_size (scaled_y g) LOQ_LEVEL_1 ?h)"
    using i axis_intermediate [OF c(1) t, of "scaled_x g" g width, folded unit] axis_intermediate [OF c(2) t, of "scaled_y g" g height, folded unit]
    by (cases "gc_scaling_mode g ! LOQ_LEVEL_2"; simp add: scale_down_def scaled_x_def scaled_y_def)+
  show ?thesis
  proof (intro exI [of _ "d2\<lparr>dm_intermediate_width := iw, dm_intermediate_height := ih, dm_base_width := bw, dm_base_height := bh\<rparr>"]
      conjI allI impI d2(2), goal_cases)
    case (3 plane loq)
    then show ?case
      using d2(1) processed_in_image [OF assms(1) 3(1)] axis_no_padding [OF c(1) t 3(1) np 3(2)]
      by (simp add: all_set_def unit)
  next
    case (4 plane loq)
    then show ?case
      using d2(1) processed_in_image [OF assms(1) 4(1)] axis_no_padding [OF c(2) t 4(1) np 4(2)]
      by (simp add: all_set_def unit)
  qed (use d2(1) n0 in \<open>simp_all add: all_set_def inter plane_size_def loq_size_def\<close>)
qed

definition hd_global :: global_configuration where
  "hd_global = \<lparr>gc_base_depth = 8, gc_enhancement_depth = 8, gc_colourspace = Colourspace_YUV420,
     gc_image_format = IMAGE_FORMAT_YUV420P8, gc_num_image_planes = 3, gc_num_processed_planes = 3,
     gc_num_residual_layers = 16, gc_transform_block_size = 4, gc_predicted_residual_enabled = True,
     gc_resolution_height = 1080, gc_resolution_width = 1920, gc_temporal_enabled = 1,
     gc_temporal_tile_intra_signalling_enabled = True, gc_temporal_step_width_modifier = 48, gc_upsample = Upsample_Cubic,
     gc_level_1_filtering_first_coefficient = 0, gc_level_1_filtering_second_coefficient = 0,
     gc_scaling_mode = [ScalingMode_None, ScalingMode_2D], gc_tile_dimensions_type = TileDimensions_None,
     gc_user_data_enabled = UserData_None, gc_level1_depth_flag = False, gc_chroma_step_width_multiplier = 64,
     gc_tile_width = 0, gc_tile_height = 0, gc_compression_type_entropy_enabled_per_tile = False,
     gc_compression_type_size_per_tile = CompressionType_None, gc_upsampling_coefficients = [0, 0, 0, 0],
     gc_additional_info_present = False, gc_additional_info_type = 0, gc_sei_message_present = False,
     gc_vui_message_present = False\<rparr>"

lemma hd_units: "unit_x hd_global = 16" "unit_y hd_global = 16"
  by (simp_all add: unit_x_def unit_y_def axis_scale_def scaled_x_def scaled_y_def hd_global_def chroma_scale_def)

theorem dimensions_conform_witness:
  "\<forall>d. \<exists>d'. dimensions_set hd_global 1920 1080 d = Some (Inr d') \<and>
    dm_plane_width d' (0, LOQ_LEVEL_2) = 1920 \<and> dm_plane_height d' (0, LOQ_LEVEL_2) = 1088"
proof -
  have "sizes_defined hd_global" by (simp add: sizes_defined_def hd_global_def)
  moreover have "round_up 16 1920 = 1920" "round_up 16 1080 = 1088" by (simp_all add: round_up_def ceil_div_def)
  ultimately show ?thesis using dimensions_conform [of hd_global 1920 1080] by (fastforce simp: hd_units)
qed

end
