(* ===== verification/Codec.thy ===== *)
theory Codec
  imports Bitstream
begin

text \<open>
  A small calculus for serialisers and parsers over a bitstream. \<open>writes k f bs\<close> says that \<open>f\<close>,
  started at bit position \<open>k\<close>, appends \<open>bs\<close>; \<open>reads k p bs x\<close> that \<open>p\<close>, started there in front of
  \<open>bs\<close>, consumes \<open>bs\<close> and yields \<open>x\<close>. Both compose along \<^const>\<open>rbind\<close>, so a format is verified section
  by section: the same list of bits on both sides.
\<close>

section \<open>Sequences of writing statements\<close>

fun write_all :: "('s \<Rightarrow> 's result) list \<Rightarrow> 's \<Rightarrow> 's result" where
  "write_all [] s = Inr s"
| "write_all (f # fs) s = rbind (f s) (write_all fs)"

lemma write_all_funs:
  "write_all [] = Inr" "write_all (f # fs) = (\<lambda>s. rbind (f s) (write_all fs))"
  by (rule ext, simp)+

lemma write_all_append: "write_all (fs @ gs) = (\<lambda>s. rbind (write_all fs s) (write_all gs))"
proof (induction fs)
  case (Cons f fs)
  then show ?case by (simp add: write_all_funs rbind_assoc)
qed (simp add: write_all_funs)

lemma write_all_single: "write_all [f] = f"
  by (simp add: write_all_funs)

lemma write_all_nested: "write_all (f # write_all gs # hs) = write_all [f, write_all (gs @ hs)]"
  by (simp add: write_all_funs write_all_append)

section \<open>The calculus\<close>

context bit_sink begin

definition writes :: "nat \<Rightarrow> ('w \<Rightarrow> 'w result) \<Rightarrow> bool list \<Rightarrow> bool" where
  "writes k f bs \<longleftrightarrow> (\<forall>w. wf w \<longrightarrow> length (written w) = k \<longrightarrow>
     (\<exists>w'. f w = Inr w' \<and> wf w' \<and> written w' = written w @ bs))"

lemma writesI:
  assumes "\<And>w. wf w \<Longrightarrow> length (written w) = k \<Longrightarrow> \<exists>w'. f w = Inr w' \<and> wf w' \<and> written w' = written w @ bs"
  shows "writes k f bs"
  using assms by (simp add: writes_def)

lemma writesD:
  assumes "writes k f bs" and "wf w" and "length (written w) = k"
  obtains w' where "f w = Inr w'" and "wf w'" and "written w' = written w @ bs"
  using assms by (auto simp: writes_def)

lemma writes_none: "writes k Inr []"
  by (rule writesI) simp

lemma writes_put: "n < 31 \<Longrightarrow> writes k (\<lambda>w. put w n v) (bits_of n v)"
  by (rule writesI) (rule put_appends)

lemma writes_bind:
  assumes "writes k f bs" and "writes (k + length bs) g cs"
  shows "writes k (\<lambda>w. rbind (f w) g) (bs @ cs)"
proof (rule writesI)
  fix w assume w: "wf w" "length (written w) = k"
  from assms(1) w obtain w1 where w1: "f w = Inr w1" "wf w1" "written w1 = written w @ bs" by (rule writesD)
  then have "length (written w1) = k + length bs" using w by simp
  with assms(2) w1(2) obtain w2 where "g w1 = Inr w2" "wf w2" "written w2 = written w1 @ cs" by (rule writesD)
  with w1 show "\<exists>w'. rbind (f w) g = Inr w' \<and> wf w' \<and> written w' = written w @ bs @ cs" by simp
qed

lemma writes_all_Nil: "writes k (write_all []) []"
  by (rule writesI) simp

lemma writes_all_Cons:
  assumes "writes k f bs" and "writes (k + length bs) (write_all fs) cs"
  shows "writes k (write_all (f # fs)) (bs @ cs)"
  using writes_bind [OF assms] by (simp add: writes_def)

end

locale positioned_source = bit_source get rest ok
  for get :: "'r \<Rightarrow> nat \<Rightarrow> (u32 \<times> 'r) result" and rest ok +
  fixes pos :: "'r \<Rightarrow> nat"
  assumes get_pos: "get r n = Inr (v, r') \<Longrightarrow> pos r' = pos r + n"
begin

definition reads :: "nat \<Rightarrow> ('r \<Rightarrow> ('a \<times> 'r) result) \<Rightarrow> bool list \<Rightarrow> 'a \<Rightarrow> bool" where
  "reads k p bs x \<longleftrightarrow> (\<forall>r cs. ok r \<longrightarrow> pos r = k \<longrightarrow> rest r = bs @ cs \<longrightarrow>
     (\<exists>r'. p r = Inr (x, r') \<and> ok r' \<and> pos r' = k + length bs \<and> rest r' = cs))"

lemma readsI:
  assumes "\<And>r cs. ok r \<Longrightarrow> pos r = k \<Longrightarrow> rest r = bs @ cs \<Longrightarrow>
    \<exists>r'. p r = Inr (x, r') \<and> ok r' \<and> pos r' = k + length bs \<and> rest r' = cs"
  shows "reads k p bs x"
  using assms by (simp add: reads_def)

lemma readsD:
  assumes "reads k p bs x" and "ok r" and "pos r = k" and "rest r = bs @ cs"
  obtains r' where "p r = Inr (x, r')" and "ok r'" and "pos r' = k + length bs" and "rest r' = cs"
  using assms by (auto simp: reads_def)

lemma reads_return: "reads k (\<lambda>r. Inr (x, r)) [] x"
  by (rule readsI) simp

lemma reads_get: "n \<le> 32 \<Longrightarrow> reads k (\<lambda>r. get r n) (bits_of n v) (take_bit n v)"
proof (rule readsI)
  fix r cs assume "n \<le> 32" "ok r" "pos r = k" "rest r = bits_of n v @ cs"
  with get_field [of r n v cs] obtain r' where
    "get r n = Inr (take_bit n v, r')" "ok r'" "rest r' = cs" by auto
  with get_pos [OF this(1)] \<open>pos r = k\<close> show
    "\<exists>r'. get r n = Inr (take_bit n v, r') \<and> ok r' \<and> pos r' = k + length (bits_of n v) \<and> rest r' = cs" by auto
qed

lemma reads_bind:
  assumes "reads k p bs x" and "reads (k + length bs) (q x) cs y"
  shows "reads k (\<lambda>r. rbind (p r) (\<lambda>(x, r1). q x r1)) (bs @ cs) y"
proof (rule readsI)
  fix r ds assume r: "ok r" "pos r = k" "rest r = (bs @ cs) @ ds"
  from r(3) have "rest r = bs @ (cs @ ds)" by simp
  with assms(1) r(1,2) obtain r1 where r1: "p r = Inr (x, r1)" "ok r1" "pos r1 = k + length bs" "rest r1 = cs @ ds"
    by (rule readsD)
  from assms(2) r1(2-4) obtain r2 where
    "q x r1 = Inr (y, r2)" "ok r2" "pos r2 = k + length bs + length cs" "rest r2 = ds" by (rule readsD)
  with r1 show "\<exists>r'. rbind (p r) (\<lambda>(x, r1). q x r1) = Inr (y, r') \<and> ok r' \<and> pos r' = k + length (bs @ cs) \<and> rest r' = ds"
    by simp
qed

lemma reads_check: "b \<Longrightarrow> reads k q cs y \<Longrightarrow> reads k (\<lambda>r. rbind (check_that b) (\<lambda>_. q r)) cs y"
  by simp

lemma reads_value:
  assumes "m = Inr x" and "reads k (q x) cs y"
  shows "reads k (\<lambda>r. rbind m (\<lambda>x. q x r)) cs y"
  using assms by simp

end

interpretation ups: positioned_source unpacker_u pending unpacker_inv up_bit_offset
proof unfold_locales
  fix r n v r' assume "unpacker_u r n = Inr (v, r')"
  then have "n \<le> 32" "n \<le> length (pending r) \<or> n = 0" "unpacker_loop r n 0 = (v, r')"
    by (auto simp: unpacker_u_def)
  then show "up_bit_offset r' = up_bit_offset r + n"
    using unpacker_loop_spec(2) [of n r 0 0] by auto
qed

section \<open>Writer and reader in step\<close>

text \<open>
  \<open>conveys f p x\<close>: from any bit position, what \<open>f\<close> appends is what \<open>p\<close> consumes, and \<open>p\<close> yields
  \<open>x\<close>. A list of writing statements and the parser that mirrors it are verified statement by
  statement.
\<close>

locale codec = bit_sink put written wf + positioned_source get rest ok pos
  for put :: "'w \<Rightarrow> nat \<Rightarrow> u32 \<Rightarrow> 'w result" and written wf
    and get :: "'r \<Rightarrow> nat \<Rightarrow> (u32 \<times> 'r) result" and rest ok pos
begin

definition conveys :: "('w \<Rightarrow> 'w result) \<Rightarrow> ('r \<Rightarrow> ('a \<times> 'r) result) \<Rightarrow> 'a \<Rightarrow> bool" where
  "conveys f p x \<longleftrightarrow> (\<forall>k. \<exists>bs. writes k f bs \<and> reads k p bs x)"

lemma conveysI: "(\<And>k. writes k f (bs k)) \<Longrightarrow> (\<And>k. reads k p (bs k) x) \<Longrightarrow> conveys f p x"
  by (auto simp: conveys_def)

lemma conveys_field: "n < 31 \<Longrightarrow> take_bit n v = x \<Longrightarrow> conveys (\<lambda>w. put w n v) (\<lambda>r. get r n) x"
  using conveysI [OF writes_put reads_get, of n v] by simp

lemma conveys_bind:
  assumes "conveys f p x" and "conveys g (q x) y"
  shows "conveys (\<lambda>w. rbind (f w) g) (\<lambda>r. rbind (p r) (\<lambda>(x, r). q x r)) y"
  unfolding conveys_def
proof
  fix k
  from assms(1) obtain bs where bs: "writes k f bs" "reads k p bs x" by (auto simp: conveys_def)
  from assms(2) obtain cs where cs: "writes (k + length bs) g cs" "reads (k + length bs) (q x) cs y"
    by (auto simp: conveys_def)
  show "\<exists>ds. writes k (\<lambda>w. rbind (f w) g) ds \<and> reads k (\<lambda>r. rbind (p r) (\<lambda>(x, r). q x r)) ds y"
    using writes_bind [OF bs(1) cs(1)] reads_bind [of k p bs x q cs y, OF bs(2) cs(2)] by blast
qed

lemma conveys_Cons:
  assumes "conveys f p x" and "conveys (write_all fs) (q x) y"
  shows "conveys (write_all (f # fs)) (\<lambda>r. rbind (p r) (\<lambda>(x, r). q x r)) y"
  using conveys_bind [of f p x "write_all fs" q y, OF assms] by (simp add: conveys_def writes_def)

lemma conveys_Nil: "conveys (write_all []) (\<lambda>r. Inr (x, r)) x"
  by (intro conveysI [of _ "\<lambda>k. []"] writes_all_Nil reads_return)

lemma conveys_Inr: "conveys Inr (\<lambda>r. Inr (x, r)) x"
  by (rule conveysI [OF writes_none reads_return])

lemma conveys_then:
  assumes "conveys f p x" and "\<And>r. q x r = Inr (y, r)"
  shows "conveys f (\<lambda>r. rbind (p r) (\<lambda>(x, r). q x r)) y"
proof -
  have "conveys Inr (q x) y" using conveys_Inr by (simp add: ext [OF assms(2)])
  from conveys_bind [of f p x Inr q y, OF assms(1) this] show ?thesis by simp
qed

lemma conveys_map: "conveys f p x \<Longrightarrow> conveys f (\<lambda>r. rbind (p r) (\<lambda>(x, r). Inr (g x, r))) (g x)"
  using conveys_bind [of f p x Inr "\<lambda>x r. Inr (g x, r)" "g x", OF _ conveys_Inr] by simp

lemma conveys_value:
  assumes "m = Inr x" and "conveys f (q x) y"
  shows "conveys f (\<lambda>r. rbind m (\<lambda>x. q x r)) y"
  using assms by simp

lemma conveys_last: "conveys f p x \<Longrightarrow> conveys (write_all [f]) p x"
proof -
  assume "conveys f p x"
  then have "conveys (write_all [f]) (\<lambda>r. rbind (p r) (\<lambda>(x, r). Inr (x, r))) x"
    by (rule conveys_Cons) (rule conveys_Nil)
  moreover have "(\<lambda>(x, r). Inr (x, r)) = Inr" by auto
  ultimately show ?thesis by simp
qed

lemma conveys_if:
  assumes "c \<Longrightarrow> conveys f p x" and "\<not> c \<Longrightarrow> conveys g q x"
  shows "conveys (if c then f else g) (\<lambda>r. if c then p r else q r) x"
  using assms by (cases c) simp_all

end

interpretation io: codec packer_u packer_bits packer_inv unpacker_u pending unpacker_inv up_bit_offset
  by unfold_locales

text \<open>A whole block: written into a new packer, finished into a packet and parsed from it.\<close>

lemma conveys_through:
  assumes "io.conveys f p x"
  obtains w r r' k where "f packer_new = Inr w" and "through_packet w = Inr r" and "p r = Inr (x, r')"
    and "k < 8" and "pending r' = replicate k False"
proof -
  from assms obtain bs where bs: "pk.writes 0 f bs" "ups.reads 0 p bs x" by (auto simp: io.conveys_def)
  obtain w where w: "f packer_new = Inr w" "packer_inv w" "packer_bits w = bs"
    using pk.writesD [OF bs(1), of packer_new] by (auto simp: packer_new_def [THEN arg_cong, of pk_bit_offset])
  obtain r k where r: "through_packet w = Inr r" "unpacker_inv r" "k < 8" "pending r = bs @ replicate k False"
    "up_bit_offset r = 0" using through_packet_spec [OF w(2)] w(3) by metis
  from ups.readsD [OF bs(2) r(2,5,4)] obtain r' where "p r = Inr (x, r')" "pending r' = replicate k False" by blast
  with w(1) r(1,3) show thesis using that by blast
qed

end
