(* ===== verification/Multibyte.thy ===== *)
theory Multibyte
  imports Codec
begin

text \<open>
  The variable-length numbers of the headers: \<open>write_multibyte\<close> of encoder/src/Serializer.cpp
  writes a 64-bit value in groups of seven bits, the most significant first, each behind a bit
  that says whether another follows; \<open>read_multibyte\<close> of decoder/src/Deserializer.cpp collects
  them.
\<close>

type_synonym u64 = "64 word"

lemma shift_less:
  assumes "0x7f < (v :: u64)"
  shows "unat (drop_bit 7 v) < unat v"
proof -
  have "127 < unat v" using assms by (simp add: word_less_nat_alt)
  then show ?thesis unfolding unat_drop_bit_eq by (simp add: drop_bit_eq_div)
qed

function write_multibyte_bytes :: "u64 \<Rightarrow> bool \<Rightarrow> packer \<Rightarrow> packer result" where
  "write_multibyte_bytes value mb_more b =
     rbind (if 0x7f < value then write_multibyte_bytes (drop_bit 7 value) True b else Inr b) (\<lambda>b.
     rbind (packer_u b 1 (if mb_more then 1 else 0)) (\<lambda>b.
     packer_u b 7 (ucast (value AND 0x7f))))"
  by pat_completeness auto
termination
  by (relation "measure (\<lambda>(v, m, b). unat v)") (auto simp: shift_less)

declare write_multibyte_bytes.simps [simp del]

definition write_multibyte :: "u64 \<Rightarrow> packer \<Rightarrow> packer result" where
  "write_multibyte value b = write_multibyte_bytes value False b"

lemma unpacker_u_view: "unpacker_u r n = Inr (v, r') \<Longrightarrow> up_view r' = up_view r \<and> up_bit_offset r + n \<le> up_bit_size r"
  using unpacker_loop_spec(2) [of n r 0 0] by (auto simp: unpacker_u_def)

text \<open>
  The reading loop has no bound of its own: it ends because every group takes eight bits out of
  the stream, and a read past its end fails.
\<close>

function read_multibyte_loop :: "u64 \<Rightarrow> unpacker \<Rightarrow> (u64 \<times> unpacker) result" where
  "read_multibyte_loop acc b =
     rbind (unpacker_u b 1) (\<lambda>(mb_more, b1).
     rbind (unpacker_u b1 7) (\<lambda>(bits, b2).
     let acc' = push_bit 7 acc OR ucast bits in
     if mb_more \<noteq> 0 then read_multibyte_loop acc' b2 else Inr (acc', b2)))"
  by pat_completeness auto

termination
proof (relation "measure (\<lambda>(acc, b). up_remaining_bits b)")
  fix acc :: u64 and b x mb_more b1 y bits b2 acc'
  assume "unpacker_u b 1 = Inr x" "(mb_more, b1) = x" "unpacker_u b1 7 = Inr y" "(bits, b2) = y"
  then have r: "unpacker_u b 1 = Inr (mb_more, b1)" "unpacker_u b1 7 = Inr (bits, b2)" by simp_all
  from unpacker_u_view [OF r(1)] unpacker_u_view [OF r(2)] ups.get_pos [OF r(1)] ups.get_pos [OF r(2)]
  show "((acc', b2), acc, b) \<in> measure (\<lambda>(acc, b). up_remaining_bits b)"
    by (simp add: up_remaining_bits_def up_bit_size_def) linarith
qed simp

declare read_multibyte_loop.simps [simp del]

definition read_multibyte :: "unpacker \<Rightarrow> (u64 \<times> unpacker) result" where
  "read_multibyte b = read_multibyte_loop 0 b"

section \<open>Round trip\<close>

definition group_bits :: "u64 \<Rightarrow> bool \<Rightarrow> bool list" where
  "group_bits v m = bits_of 1 (if m then 1 else 0 :: u32) @ bits_of 7 (ucast (v AND 0x7f) :: u32)"

lemma length_group_bits [simp]: "length (group_bits v m) = 8"
  by (simp add: group_bits_def)

function multibyte_bits :: "u64 \<Rightarrow> bool \<Rightarrow> bool list" where
  "multibyte_bits v mb_more =
     (if 0x7f < v then multibyte_bits (drop_bit 7 v) True else []) @ group_bits v mb_more"
  by pat_completeness auto
termination
  by (relation "measure (\<lambda>(v, m). unat v)") (auto simp: shift_less)

declare multibyte_bits.simps [simp del]

lemma writes_multibyte_bytes: "pk.writes k (write_multibyte_bytes v mb_more) (multibyte_bits v mb_more)"
proof (induction v mb_more arbitrary: k rule: multibyte_bits.induct)
  case (1 v mb_more)
  have head: "pk.writes k (\<lambda>b. if 0x7f < v then write_multibyte_bytes (drop_bit 7 v) True b else Inr b)
      (if 0x7f < v then multibyte_bits (drop_bit 7 v) True else [])"
    using 1 by (auto intro: pk.writes_none)
  show ?case
    unfolding multibyte_bits.simps [of v mb_more] group_bits_def ext [OF write_multibyte_bytes.simps [of v mb_more]]
    by (intro pk.writes_bind [OF head] pk.writes_bind pk.writes_put) simp_all
qed

lemma writes_multibyte: "pk.writes k (write_multibyte v) (multibyte_bits v False)"
  using writes_multibyte_bytes by (simp add: write_multibyte_def [abs_def])

lemma multibyte_group:
  "push_bit 7 (drop_bit 7 v) OR ucast (take_bit 7 (ucast (v AND 0x7f) :: u32)) = (v :: u64)"
  "v \<le> 0x7f \<Longrightarrow> ucast (take_bit 7 (ucast (v AND 0x7f) :: u32)) = (v :: u64)"
proof -
  have m: "(0x7f :: u64) = mask 7" by (simp add: mask_eq_exp_minus_1)
  have "ucast (take_bit 7 (ucast (v AND 0x7f) :: u32)) = (take_bit 7 v :: u64)"
    unfolding m by (rule bit_word_eqI) (auto simp: bit_take_bit_iff bit_unsigned_iff bit_and_iff bit_mask_iff)
  moreover have "push_bit 7 (drop_bit 7 v) OR take_bit 7 v = v"
    by (rule bit_word_eqI) (auto simp: bit_or_iff bit_push_bit_iff bit_drop_bit_eq bit_take_bit_iff)
  moreover have "v \<le> 0x7f \<Longrightarrow> take_bit 7 v = v"
    by (simp add: take_bit_eq_mod word_le_nat_alt unat_mod word_unat_eq_iff)
  ultimately show "push_bit 7 (drop_bit 7 v) OR ucast (take_bit 7 (ucast (v AND 0x7f) :: u32)) = (v :: u64)"
    "v \<le> 0x7f \<Longrightarrow> ucast (take_bit 7 (ucast (v AND 0x7f) :: u32)) = (v :: u64)" by simp_all
qed

lemma multibyte_step:
  assumes "unpacker_inv r" and "pending r = group_bits v m @ cs"
  obtains r' where "read_multibyte_loop acc r =
      (let acc' = push_bit 7 acc OR ucast (take_bit 7 (ucast (v AND 0x7f) :: u32))
       in if m then read_multibyte_loop acc' r' else Inr (acc', r'))"
    and "unpacker_inv r'" and "up_bit_offset r' = up_bit_offset r + 8" and "pending r' = cs"
proof -
  obtain r1 where r1: "unpacker_u r 1 = Inr (take_bit 1 (if m then 1 else 0), r1)" "unpacker_inv r1"
    "up_bit_offset r1 = up_bit_offset r + 1" "pending r1 = bits_of 7 (ucast (v AND 0x7f) :: u32) @ cs"
    using ups.readsD [OF ups.reads_get assms(1) refl assms(2) [unfolded group_bits_def append_assoc]] by auto
  obtain r2 where r2: "unpacker_u r1 7 = Inr (take_bit 7 (ucast (v AND 0x7f)), r2)" "unpacker_inv r2"
    "up_bit_offset r2 = up_bit_offset r + 8" "pending r2 = cs"
    using ups.readsD [OF ups.reads_get r1(2) refl r1(4)] r1(3) by (auto simp: add.commute)
  show ?thesis
    by (rule that [OF _ r2(2-4)]) (subst read_multibyte_loop.simps, simp add: r1 [simplified] r2)
qed

lemma multibyte_prefix:
  assumes "unpacker_inv r" and "pending r = multibyte_bits v True @ cs"
  shows "\<exists>r'. read_multibyte_loop 0 r = read_multibyte_loop v r' \<and> unpacker_inv r' \<and>
    up_bit_offset r' = up_bit_offset r + length (multibyte_bits v True) \<and> pending r' = cs"
  using assms
proof (induction v True arbitrary: r cs rule: multibyte_bits.induct)
  case (1 v)
  show ?case
  proof (cases "0x7f < v")
    case True
    then have eq: "multibyte_bits v True = multibyte_bits (drop_bit 7 v) True @ group_bits v True"
      by (subst multibyte_bits.simps) simp
    then have "pending r = multibyte_bits (drop_bit 7 v) True @ (group_bits v True @ cs)" using 1(3) by simp
    with 1(1) [OF True 1(2)] obtain r1 where r1: "read_multibyte_loop 0 r = read_multibyte_loop (drop_bit 7 v) r1"
      "unpacker_inv r1" "up_bit_offset r1 = up_bit_offset r + length (multibyte_bits (drop_bit 7 v) True)"
      "pending r1 = group_bits v True @ cs" by blast
    from multibyte_step [OF r1(2), of v True cs "drop_bit 7 v"] r1(4) obtain r2 where
      "read_multibyte_loop (drop_bit 7 v) r1 = read_multibyte_loop v r2" "unpacker_inv r2"
      "up_bit_offset r2 = up_bit_offset r1 + 8" "pending r2 = cs"
      by (auto simp: Let_def multibyte_group(1))
    with r1(1,3) show ?thesis by (auto simp: eq)
  next
    case False
    then have eq: "multibyte_bits v True = group_bits v True" by (subst multibyte_bits.simps) simp
    from False multibyte_step [OF 1(2), of v True cs 0] 1(3) obtain r2 where
      "read_multibyte_loop 0 r = read_multibyte_loop v r2" "unpacker_inv r2"
      "up_bit_offset r2 = up_bit_offset r + 8" "pending r2 = cs"
      by (auto simp: Let_def multibyte_group(2) eq not_less)
    then show ?thesis by (auto simp: eq)
  qed
qed

lemma reads_multibyte: "ups.reads k read_multibyte (multibyte_bits v False) v"
proof (rule ups.readsI)
  fix r cs assume r: "unpacker_inv r" "up_bit_offset r = k" "pending r = multibyte_bits v False @ cs"
  have "\<exists>r'. read_multibyte_loop 0 r = Inr (v, r') \<and> unpacker_inv r' \<and>
    up_bit_offset r' = up_bit_offset r + length (multibyte_bits v False) \<and> pending r' = cs"
  proof (cases "0x7f < v")
    case True
    then have eq: "multibyte_bits v False = multibyte_bits (drop_bit 7 v) True @ group_bits v False"
      by (subst multibyte_bits.simps) simp
    then have "pending r = multibyte_bits (drop_bit 7 v) True @ (group_bits v False @ cs)" using r(3) by simp
    from multibyte_prefix [OF r(1) this] obtain r1 where
      r1: "read_multibyte_loop 0 r = read_multibyte_loop (drop_bit 7 v) r1" "unpacker_inv r1"
        "up_bit_offset r1 = up_bit_offset r + length (multibyte_bits (drop_bit 7 v) True)" "pending r1 = group_bits v False @ cs"
      by blast
    from multibyte_step [OF r1(2), of v False cs "drop_bit 7 v"] r1 show ?thesis
      by (auto simp: Let_def multibyte_group(1) eq add.assoc)
  next
    case False
    then have eq: "multibyte_bits v False = group_bits v False" by (subst multibyte_bits.simps) simp
    from False multibyte_step [OF r(1), of v False cs 0] r(3) show ?thesis
      by (auto simp: Let_def multibyte_group(2) eq not_less)
  qed
  with r(2) show "\<exists>r'. read_multibyte r = Inr (v, r') \<and> unpacker_inv r' \<and>
    up_bit_offset r' = k + length (multibyte_bits v False) \<and> pending r' = cs"
    by (simp add: read_multibyte_def)
qed

text \<open>A 64-bit value takes at most ten groups, and every group is a whole byte.\<close>

lemma length_multibyte_bits_dvd: "8 dvd length (multibyte_bits v m)"
proof (induction v m rule: multibyte_bits.induct)
  case (1 v m)
  then show ?case by (subst multibyte_bits.simps) auto
qed

lemma length_multibyte_bits: "unat v < 128 ^ Suc n \<Longrightarrow> length (multibyte_bits v m) \<le> 8 * Suc n"
proof (induction n arbitrary: v m)
  case 0
  then have "\<not> 0x7f < v" by (simp add: word_less_nat_alt)
  then show ?case by (subst multibyte_bits.simps) simp
next
  case (Suc n)
  have "unat (drop_bit 7 v) = unat v div 128" by (simp add: drop_bit_eq_div unat_div)
  also have "\<dots> < 128 ^ Suc n" using Suc.prems by (simp add: less_mult_imp_div_less)
  finally show ?case using Suc.IH [of "drop_bit 7 v" True] by (subst multibyte_bits.simps) simp
qed

end
