(* ===== verification/Serializer.thy ===== *)
theory Serializer
  imports Configuration Multibyte
begin

text \<open>
  encoder/src/Serializer.cpp: the configuration blocks. Every \<open>emit\<close> function is the list of its
  writing statements; a \<open>switch\<close> without a matching case is a failed check.
\<close>

definition put_u :: "nat \<Rightarrow> u32 \<Rightarrow> packer \<Rightarrow> packer result" where
  "put_u n v b = packer_u b n v"

definition put_flag :: "bool \<Rightarrow> packer \<Rightarrow> packer result" where
  "put_flag v = put_u 1 (of_bool v)"

definition check :: "bool \<Rightarrow> 's \<Rightarrow> 's result" where
  "check c s = rbind (check_that c) (\<lambda>_. Inr s)"

definition only_if :: "bool \<Rightarrow> ('s \<Rightarrow> 's result) list \<Rightarrow> 's \<Rightarrow> 's result" where
  "only_if c fs = write_all (if c then fs else [])"

text \<open>The value of an element of an array, as an argument of a write.\<close>

definition put_element :: "nat \<Rightarrow> u32 list \<Rightarrow> nat \<Rightarrow> packer \<Rightarrow> packer result" where
  "put_element n xs i b = (if i < length xs then put_u n (xs ! i) b else Inl OutOfRange)"

definition resolution_table :: "(u32 \<times> u32) list" where
  "resolution_table =
    [(0, 0), (360, 200), (400, 240), (480, 320), (640, 360), (640, 480), (768, 480), (800, 600),
     (852, 480), (854, 480), (856, 480), (960, 540), (960, 640), (1024, 576), (1024, 600),
     (1024, 768), (1152, 864), (1280, 720), (1280, 800), (1280, 1024), (1360, 768), (1366, 768),
     (1440, 1050), (1440, 900), (1600, 1200), (1680, 1050), (1920, 1080), (1920, 1200),
     (2048, 1080), (2048, 1152), (2048, 1536), (2160, 1440), (2560, 1440), (2560, 1600),
     (2560, 2048), (3200, 1800), (3200, 2048), (3200, 2400), (3440, 1440), (3840, 1600),
     (3840, 2160), (3840, 3072), (4096, 2160), (4096, 3072), (5120, 2880), (5120, 3200),
     (5120, 4096), (6400, 4096), (6400, 4800), (7680, 4320), (7680, 4800)]"

text \<open>The loop over the table: the first entry from \<open>i\<close> on that matches, or the table's size.\<close>

function find_resolution :: "u32 \<Rightarrow> u32 \<Rightarrow> nat \<Rightarrow> nat" where
  "find_resolution w h i =
     (if i < length resolution_table then
        if resolution_table ! i = (w, h) then i else find_resolution w h (i + 1)
      else i)"
  by pat_completeness auto
termination
  by (relation "measure (\<lambda>(w, h, i). length resolution_table - i)") auto

declare find_resolution.simps [simp del]

definition profile_value :: "profile \<Rightarrow> nat" where
  "profile_value p = (case p of Profile_Main \<Rightarrow> 0 | Profile_Main444 \<Rightarrow> 1 | Profile_Auto \<Rightarrow> 2)"

definition emit_sequence_configuration :: "sequence_configuration \<Rightarrow> packer \<Rightarrow> packer result" where
  "emit_sequence_configuration c = write_all
    [case sq_profile_idc c of
       Profile_Main \<Rightarrow> put_u 4 0
     | Profile_Main444 \<Rightarrow> put_u 4 1
     | _ \<Rightarrow> check False,
     put_u 4 (sq_level_idc c),
     put_u 2 (sq_sublevel_idc c),
     put_flag (sq_conformance_window c),
     put_u 5 0,
     only_if (profile_value (sq_profile_idc c) = 15 \<or> sq_level_idc c = 15)
       [put_u 3 (sq_extended_profile_idc c), put_u 4 (sq_extended_level_idc c), put_u 1 0],
     only_if (sq_conformance_window c)
       [write_multibyte (ucast (sq_conf_win_left_offset c)),
        write_multibyte (ucast (sq_conf_win_right_offset c)),
        write_multibyte (ucast (sq_conf_win_top_offset c)),
        write_multibyte (ucast (sq_conf_win_bottom_offset c))]]"

definition put_depth :: "u32 \<Rightarrow> packer \<Rightarrow> packer result" where
  "put_depth d =
     (if d = 8 then put_u 2 0 else if d = 10 then put_u 2 1 else if d = 12 then put_u 2 2
      else if d = 14 then put_u 2 3 else check False)"

definition put_scaling_mode :: "scaling_mode \<Rightarrow> packer \<Rightarrow> packer result" where
  "put_scaling_mode m =
     put_u 2 (case m of ScalingMode_None \<Rightarrow> 0 | ScalingMode_1D \<Rightarrow> 1 | ScalingMode_2D \<Rightarrow> 2)"

definition emit_tile_configuration :: "global_configuration \<Rightarrow> packer \<Rightarrow> packer result" where
  "emit_tile_configuration g = only_if (gc_tile_dimensions_type g \<noteq> TileDimensions_None)
    [case gc_tile_dimensions_type g of
       TileDimensions_512x256 \<Rightarrow> write_all [check (gc_tile_width g = 512), check (gc_tile_height g = 256)]
     | TileDimensions_1024x512 \<Rightarrow> write_all [check (gc_tile_width g = 1024), check (gc_tile_height g = 512)]
     | TileDimensions_Custom \<Rightarrow> write_all [put_u 16 (gc_tile_width g), put_u 16 (gc_tile_height g)]
     | _ \<Rightarrow> check False,
     put_u 5 0,
     put_flag (gc_compression_type_entropy_enabled_per_tile g),
     put_u 2 (case gc_compression_type_size_per_tile g of
       CompressionType_None \<Rightarrow> 0 | CompressionType_Prefix \<Rightarrow> 1 | CompressionType_Prefix_OnDiff \<Rightarrow> 2)]"

definition emit_global_configuration :: "global_configuration \<Rightarrow> packer \<Rightarrow> packer result" where
  "emit_global_configuration g =
    (let resolution_type = find_resolution (gc_resolution_width g) (gc_resolution_height g) 0;
         resolution_type = (if resolution_type < length resolution_table then resolution_type else 63)
     in write_all
    [if gc_num_processed_planes g = 1 then put_u 1 0
     else if gc_num_processed_planes g = 3 then put_u 1 1
     else check False,
     put_u 6 (word_of_nat resolution_type),
     if gc_transform_block_size g = 2 then put_u 1 0
     else if gc_transform_block_size g = 4 then put_u 1 1
     else check False,
     put_u 2 (case gc_colourspace g of Colourspace_Y \<Rightarrow> 0 | Colourspace_YUV420 \<Rightarrow> 1
       | Colourspace_YUV422 \<Rightarrow> 2 | Colourspace_YUV444 \<Rightarrow> 3),
     put_depth (gc_base_depth g),
     put_depth (gc_enhancement_depth g),
     put_flag (gc_temporal_step_width_modifier g \<noteq> 48),
     put_flag (gc_predicted_residual_enabled g),
     put_flag (gc_temporal_tile_intra_signalling_enabled g),
     put_u 1 (gc_temporal_enabled g),
     put_u 3 (case gc_upsample g of Upsample_Nearest \<Rightarrow> 0 | Upsample_Linear \<Rightarrow> 1 | Upsample_Cubic \<Rightarrow> 2
       | Upsample_ModifiedCubic \<Rightarrow> 3 | Upsample_AdaptiveCubic \<Rightarrow> 4),
     put_flag (\<not> (gc_level_1_filtering_first_coefficient g = 0 \<and> gc_level_1_filtering_second_coefficient g = 0)),
     put_scaling_mode (gc_scaling_mode g ! LOQ_LEVEL_1),
     put_scaling_mode (gc_scaling_mode g ! LOQ_LEVEL_2),
     put_u 2 (case gc_tile_dimensions_type g of TileDimensions_None \<Rightarrow> 0 | TileDimensions_512x256 \<Rightarrow> 1
       | TileDimensions_1024x512 \<Rightarrow> 2 | TileDimensions_Custom \<Rightarrow> 3),
     put_u 2 (case gc_user_data_enabled g of UserData_None \<Rightarrow> 0 | UserData_2bits \<Rightarrow> 1 | UserData_6bits \<Rightarrow> 2),
     put_flag (gc_level1_depth_flag g),
     put_flag (gc_chroma_step_width_multiplier g \<noteq> 64),
     only_if (gc_num_processed_planes g \<noteq> 1) [check (gc_num_processed_planes g = 3), put_u 4 1, put_u 4 0],
     only_if (gc_temporal_step_width_modifier g \<noteq> 48) [put_u 8 (gc_temporal_step_width_modifier g)],
     only_if (gc_upsample g = Upsample_AdaptiveCubic) (map (put_element 16 (gc_upsampling_coefficients g)) [0..<4]),
     only_if (gc_level_1_filtering_first_coefficient g \<noteq> 0 \<or> gc_level_1_filtering_second_coefficient g \<noteq> 0)
       [put_u 4 (gc_level_1_filtering_first_coefficient g), put_u 4 (gc_level_1_filtering_second_coefficient g)],
     emit_tile_configuration g,
     only_if (resolution_type = 63) [put_u 16 (gc_resolution_width g), put_u 16 (gc_resolution_height g)],
     only_if (gc_chroma_step_width_multiplier g \<noteq> 64) [put_u 8 (gc_chroma_step_width_multiplier g)]])"

definition put_picture_type :: "picture_configuration \<Rightarrow> packer \<Rightarrow> packer result" where
  "put_picture_type p =
     put_u 1 (case pc_picture_type p of PictureType_Frame \<Rightarrow> 0 | PictureType_Field \<Rightarrow> 1)"

definition emit_quant_matrix :: "picture_configuration \<Rightarrow> u32 \<Rightarrow> packer \<Rightarrow> packer result" where
  "emit_quant_matrix p num_layers = write_all
    [only_if (pc_quant_matrix_mode p = QuantMatrix_SameAndCustom \<or>
           pc_quant_matrix_mode p = QuantMatrix_Level2CustomLevel1Default \<or>
           pc_quant_matrix_mode p = QuantMatrix_DifferentAndCustom)
       (map (put_element 8 (pc_qm_coefficient_2 p)) [0..<unat num_layers]),
     only_if (pc_quant_matrix_mode p = QuantMatrix_Level2DefaultLevel1Custom \<or>
           pc_quant_matrix_mode p = QuantMatrix_DifferentAndCustom)
       (map (put_element 8 (pc_qm_coefficient_1 p)) [0..<unat num_layers])]"

definition emit_dithering :: "picture_configuration \<Rightarrow> packer \<Rightarrow> packer result" where
  "emit_dithering p = only_if (pc_dithering_control p)
    [put_u 2 (case pc_dithering_type p of Dithering_None \<Rightarrow> 0 | Dithering_Uniform \<Rightarrow> 1 | Dithering_UniformFixed \<Rightarrow> 1),
     put_u 1 0,
     if pc_dithering_type p \<noteq> Dithering_None then put_u 5 (pc_dithering_strength p) else put_u 5 0]"

definition emit_picture_configuration :: "picture_configuration \<Rightarrow> u32 \<Rightarrow> packer \<Rightarrow> packer result" where
  "emit_picture_configuration p num_layers = write_all
    [put_flag (\<not> pc_enhancement_enabled p),
     if pc_enhancement_enabled p then write_all
       [put_u 3 (case pc_quant_matrix_mode p of QuantMatrix_BothPrevious \<Rightarrow> 0 | QuantMatrix_BothDefault \<Rightarrow> 1
          | QuantMatrix_SameAndCustom \<Rightarrow> 2 | QuantMatrix_Level2CustomLevel1Default \<Rightarrow> 3
          | QuantMatrix_Level2DefaultLevel1Custom \<Rightarrow> 4 | QuantMatrix_DifferentAndCustom \<Rightarrow> 5),
        put_flag (pc_dequant_offset_signalled p),
        put_picture_type p,
        put_flag (pc_temporal_refresh p),
        put_flag (pc_step_width_loq p ! LOQ_LEVEL_1 \<noteq> 32767),
        put_u 15 (pc_step_width_loq p ! LOQ_LEVEL_2),
        put_flag (pc_dithering_control p)]
     else write_all
       [put_u 4 0,
        put_picture_type p,
        put_flag (pc_temporal_refresh p),
        put_flag (pc_temporal_signalling_present p)],
     only_if (pc_picture_type p = PictureType_Field)
       [put_u 1 (case pc_field_type p of FieldType_Top \<Rightarrow> 0 | FieldType_Bottom \<Rightarrow> 1), put_u 7 0],
     only_if (pc_step_width_loq p ! LOQ_LEVEL_1 \<noteq> 32767)
       [put_u 15 (pc_step_width_loq p ! LOQ_LEVEL_1), put_flag (pc_level_1_filtering_enabled p)],
     emit_quant_matrix p num_layers,
     only_if (pc_dequant_offset_signalled p)
       [put_u 1 (case pc_dequant_offset_mode p of DequantOffset_Default \<Rightarrow> 0 | DequantOffset_ConstOffset \<Rightarrow> 1),
        put_u 7 (pc_dequant_offset p)],
     emit_dithering p]"

definition emit_additional_info :: "additional_info \<Rightarrow> packer \<Rightarrow> packer result" where
  "emit_additional_info a = write_all
    [put_u 8 (ai_additional_info_type a),
     if ai_additional_info_type a = 0 then put_u 8 (ai_payload_type a)
     else check (ai_additional_info_type a = 1)]"

definition emit_filler :: "nat \<Rightarrow> packer \<Rightarrow> packer result" where
  "emit_filler n = write_all (replicate n (put_u 8 0xaa))"

end
