(* ===== verification/EncodedData.thy ===== *)
theory EncodedData
  imports Serializer
begin

text \<open>
  encoder/src/Serializer.cpp: the block of encoded data without tiles. A surface holds residuals or a temporal mask; the arrays of surfaces
  and of what was made of them are functions of the position \<open>(plane, loq, layer)\<close>, and an access
  outside 3 planes, 2 sub-layers and 17 layers is an error. Where a packet is copied into the stream the growth loop
  of \<open>bytes\<close> appears, so these functions are runs that could fail to return.
\<close>

section \<open>Layers\<close>

datatype layer_surface = Residual_Surface "int surface" | Mask_Surface "u8 surface"

text \<open>A view of the wrong pixel type reinterprets memory, which is outside the model.\<close>

fun residual_view :: "layer_surface \<Rightarrow> int surface result" where
  "residual_view (Residual_Surface s) = Inr s"
| "residual_view (Mask_Surface s) = Inl UndefinedBehaviour"

fun mask_view :: "layer_surface \<Rightarrow> u8 surface result" where
  "mask_view (Mask_Surface s) = Inr s"
| "mask_view (Residual_Surface s) = Inl UndefinedBehaviour"

definition layer_width :: "layer_surface \<Rightarrow> nat" where
  "layer_width s = (case s of Residual_Surface s \<Rightarrow> sf_width s | Mask_Surface s \<Rightarrow> sf_width s)"

definition layer_height :: "layer_surface \<Rightarrow> nat" where
  "layer_height s = (case s of Residual_Surface s \<Rightarrow> sf_height s | Mask_Surface s \<Rightarrow> sf_height s)"

type_synonym layer_position = "nat \<times> nat \<times> nat"
type_synonym layer_surfaces = "layer_position \<Rightarrow> layer_surface"

definition in_arrays :: "layer_position \<Rightarrow> bool" where
  "in_arrays = (\<lambda>(plane, loq, layer). plane < MAX_NUM_PLANES \<and> loq < MAX_NUM_LOQS \<and> layer < MAX_NUM_LAYERS)"

definition num_planes :: "signaled_configuration \<Rightarrow> nat" where
  "num_planes sg = unat (gc_num_processed_planes (sg_global_configuration sg))"

definition num_layers :: "signaled_configuration \<Rightarrow> nat" where
  "num_layers sg = unat (gc_num_residual_layers (sg_global_configuration sg))"

definition temporal_layer :: "signaled_configuration \<Rightarrow> nat \<Rightarrow> nat" where
  "temporal_layer sg loq =
     (if loq = LOQ_LEVEL_2 \<and> pc_temporal_signalling_present (sg_picture_configuration sg) then 1 else 0)"

definition total_layers :: "signaled_configuration \<Rightarrow> nat \<Rightarrow> nat" where
  "total_layers sg loq =
     num_layers sg +
       (if loq = LOQ_LEVEL_2 \<and> pc_temporal_signalling_present (sg_picture_configuration sg) then 1 else 0)"

definition first_layer :: "signaled_configuration \<Rightarrow> nat" where
  "first_layer sg = (if pc_enhancement_enabled (sg_picture_configuration sg) then 0 else num_layers sg)"

definition is_temporal_layer :: "signaled_configuration \<Rightarrow> nat \<Rightarrow> bool" where
  "is_temporal_layer sg layer \<longleftrightarrow> layer = num_layers sg"

text \<open>The positions three nested loops visit.\<close>

definition positions :: "nat \<Rightarrow> (nat \<Rightarrow> nat list) \<Rightarrow> layer_position list" where
  "positions planes layers =
     concat (map (\<lambda>plane. concat (map (\<lambda>loq. map (\<lambda>layer. (plane, loq, layer)) (layers loq)) [0..<MAX_NUM_LOQS])) [0..<planes])"

definition coded_positions :: "signaled_configuration \<Rightarrow> layer_position list" where
  "coded_positions sg = positions (num_planes sg) (\<lambda>loq. [first_layer sg..<total_layers sg loq])"

section \<open>Encoded data\<close>

record layer_code =
  lc_entropy_enabled :: bool
  lc_rle_only :: bool
  lc_data :: packet

definition no_code :: layer_code where
  "no_code = \<lparr>lc_entropy_enabled = False, lc_rle_only = False, lc_data = packet_default\<rparr>"

definition use_tiled_encoding_order :: "signaled_configuration \<Rightarrow> bool" where
  "use_tiled_encoding_order sg \<longleftrightarrow>
     gc_temporal_enabled (sg_global_configuration sg) \<noteq> 0 \<or>
     gc_tile_dimensions_type (sg_global_configuration sg) \<noteq> TileDimensions_None"

definition block_size :: "signaled_configuration \<Rightarrow> nat" where
  "block_size sg = unat (gc_transform_block_size (sg_global_configuration sg))"

definition encode_layer :: "signaled_configuration \<Rightarrow> nat \<Rightarrow> layer_surface \<Rightarrow> encoded_chunk result" where
  "encode_layer sg layer symbols =
     (if \<not> is_temporal_layer sg layer then
        rbind (residual_view symbols) (\<lambda>view.
        if use_tiled_encoding_order sg then encode_residuals_tiled view (block_size sg)
        else encode_residuals view)
      else
        rbind (mask_view symbols) (\<lambda>view.
        encode_temporal view (block_size sg)
          (gc_temporal_tile_intra_signalling_enabled (sg_global_configuration sg))))"

text \<open>The smaller of the two packets, the prefix coded one when they are equal.\<close>

definition choose_code :: "encoded_chunk \<Rightarrow> layer_code" where
  "choose_code e =
     (if chunk_empty e then no_code
      else if pkt_size (ck_raw e) < pkt_size (ck_prefix e)
      then \<lparr>lc_entropy_enabled = True, lc_rle_only = True, lc_data = ck_raw e\<rparr>
      else \<lparr>lc_entropy_enabled = True, lc_rle_only = False, lc_data = ck_prefix e\<rparr>)"

definition encode_layers ::
  "signaled_configuration \<Rightarrow> layer_surfaces \<Rightarrow> layer_position list \<Rightarrow> (layer_position \<Rightarrow> layer_code) \<Rightarrow>
     (layer_position \<Rightarrow> layer_code) result" where
  "encode_layers sg symbols = fold_result (\<lambda>pos codes.
     if in_arrays pos then
       rbind (encode_layer sg (snd (snd pos)) (symbols pos)) (\<lambda>e. Inr (codes(pos := choose_code e)))
     else Inl OutOfRange)"

definition emit_flags :: "signaled_configuration \<Rightarrow> nat \<Rightarrow> (layer_position \<Rightarrow> layer_code) \<Rightarrow> packer \<Rightarrow> packer result" where
  "emit_flags sg n codes =
     (let flags = (\<lambda>pos. [put_flag (lc_entropy_enabled (codes pos)), put_flag (lc_rle_only (codes pos))]) in
      write_all (concat (map (\<lambda>plane.
        (if pc_enhancement_enabled (sg_picture_configuration sg)
         then concat (map (\<lambda>loq. concat (map (\<lambda>layer. flags (plane, loq, layer)) [0..<n])) [0..<MAX_NUM_LOQS]) else []) @
        (if temporal_layer sg LOQ_LEVEL_2 \<noteq> 0 then flags (plane, LOQ_LEVEL_2, n) else []))
        [0..<num_planes sg])))"

lemma packer_u_offset: "packer_u p n v = Inr p' \<Longrightarrow> pk_bit_offset p' = pk_bit_offset p + n"
proof -
  have "pk_bit_offset (packer_loop p n v) = pk_bit_offset p + n" for p n v
  proof (induction p n v rule: packer_loop.induct)
    case (1 p n v)
    show ?case
    proof (cases "n = 0")
      case False
      let ?n = "min (8 - pk_bit_offset p mod 8) n"
      have "pk_bit_offset (packer_loop p n v) = pk_bit_offset (packer_loop (packer_put p n v ?n) (n - ?n) v)"
        using False by (subst packer_loop.simps) (simp add: Let_def)
      also have "\<dots> = pk_bit_offset p + ?n + (n - ?n)" using 1(1) [OF False refl] by simp
      finally show ?thesis by simp
    qed simp
  qed
  then show "packer_u p n v = Inr p' \<Longrightarrow> pk_bit_offset p' = pk_bit_offset p + n" by (auto simp: packer_u_def)
qed

text \<open>\<open>while (b.bit_offset() & 7) b.u(1, 0)\<close>.\<close>

function put_alignment :: "packer \<Rightarrow> packer result" where
  "put_alignment b =
     (if pk_bit_offset b mod 8 \<noteq> 0 then rbind (put_u 1 0 b) put_alignment else Inr b)"
  by pat_completeness auto
termination
proof (relation "measure (\<lambda>b. (8 - pk_bit_offset b mod 8) mod 8)")
  fix b b' assume *: "pk_bit_offset b mod 8 \<noteq> 0" "put_u 1 0 b = Inr b'"
  then have "pk_bit_offset b' = Suc (pk_bit_offset b)" using packer_u_offset [of b 1 0] by (simp add: put_u_def)
  then show "(b', b) \<in> measure (\<lambda>b. (8 - pk_bit_offset b mod 8) mod 8)" using *(1) mod_less_divisor [of 8 "pk_bit_offset b"] by (simp add: mod_Suc) linarith
qed simp

declare put_alignment.simps [simp del]

definition put_packet :: "packet \<Rightarrow> packer \<Rightarrow> packer run" where
  "put_packet pkt b =
     run_bind (Some (packet_view pkt)) (\<lambda>bytes.
     case packer_bytes b bytes of
       Inl e \<Rightarrow> Some (Inl e)
     | Inr None \<Rightarrow> None
     | Inr (Some b') \<Rightarrow> Some (Inr b'))"

definition emit_layer :: "(layer_position \<Rightarrow> layer_code) \<Rightarrow> layer_position \<Rightarrow> packer \<Rightarrow> packer run" where
  "emit_layer codes pos b =
     (if lc_entropy_enabled (codes pos) then
        run_bind (Some (write_multibyte (word_of_nat (pkt_size (lc_data (codes pos)))) b)) (\<lambda>b.
        put_packet (lc_data (codes pos)) b)
      else Some (Inr b))"

definition emit_encoded_data :: "signaled_configuration \<Rightarrow> layer_surfaces \<Rightarrow> u32 \<Rightarrow> packer \<Rightarrow> packer run" where
  "emit_encoded_data sg symbols n b =
     run_bind (Some (check_that (gc_tile_dimensions_type (sg_global_configuration sg) = TileDimensions_None))) (\<lambda>_.
     run_bind (Some (encode_layers sg symbols (coded_positions sg) (\<lambda>_. no_code))) (\<lambda>codes.
     run_bind (Some (emit_flags sg (unat n) codes b)) (\<lambda>b.
     run_bind (Some (put_alignment b)) (\<lambda>b.
     fold_run (emit_layer codes) (positions (num_planes sg) (\<lambda>loq. [0..<unat n + temporal_layer sg loq])) b))))"

end
