(* ===== verification/EncodedDataTiled.thy ===== *)
theory EncodedDataTiled
  imports Dimensions EncodedData
begin

text \<open>
  encoder/src/Serializer.cpp: the block of encoded data with tiles, and encoder/src/Crop.cpp, which
  cuts a tile out of a layer. A tile is the pixels from \<open>(x0, y0)\<close> up to, but not including, \<open>(x1, y1)\<close>.
\<close>

section \<open>Tiles of a layer\<close>

definition crop :: "'p surface \<Rightarrow> nat \<Rightarrow> nat \<Rightarrow> nat \<Rightarrow> nat \<Rightarrow> 'p surface result" where
  "crop src x0 y0 x1 y1 =
     rbind (check_that (x0 \<le> x1)) (\<lambda>_.
     rbind (check_that (y0 \<le> y1)) (\<lambda>_.
     rbind (check_that (x1 \<le> sf_width src)) (\<lambda>_.
     rbind (check_that (y1 \<le> sf_height src)) (\<lambda>_.
     surface_build (x1 - x0) (y1 - y0) (\<lambda>x y. surface_read src (x0 + x) (y0 + y))))))"

definition crop_residuals :: "layer_surface \<Rightarrow> nat \<Rightarrow> nat \<Rightarrow> nat \<Rightarrow> nat \<Rightarrow> layer_surface result" where
  "crop_residuals plane x0 y0 x1 y1 =
     rbind (residual_view plane) (\<lambda>src. rbind (crop src x0 y0 x1 y1) (\<lambda>s. Inr (Residual_Surface s)))"

definition crop_temporal :: "layer_surface \<Rightarrow> nat \<Rightarrow> nat \<Rightarrow> nat \<Rightarrow> nat \<Rightarrow> layer_surface result" where
  "crop_temporal plane x0 y0 x1 y1 =
     rbind (mask_view plane) (\<lambda>src. rbind (crop src x0 y0 x1 y1) (\<lambda>s. Inr (Mask_Surface s)))"

text \<open>How a layer divides: sizes of a tile and of the layer, and the numbers of tiles.\<close>

record tiling =
  tl_tile_width :: nat
  tl_tile_height :: nat
  tl_width :: nat
  tl_height :: nat
  tl_tiles_x :: nat
  tl_tiles_y :: nat

definition tiling_of :: "nat \<Rightarrow> nat \<Rightarrow> nat \<Rightarrow> nat \<Rightarrow> tiling result" where
  "tiling_of tile_width tile_height width height =
     rbind (div_up width tile_width) (\<lambda>tiles_x.
     rbind (div_up height tile_height) (\<lambda>tiles_y.
     Inr \<lparr>tl_tile_width = tile_width, tl_tile_height = tile_height, tl_width = width, tl_height = height,
          tl_tiles_x = tiles_x, tl_tiles_y = tiles_y\<rparr>))"

definition tl_num_tiles :: "tiling \<Rightarrow> nat" where
  "tl_num_tiles t = wrap (tl_tiles_x t * tl_tiles_y t)"

definition tile_list :: "tiling \<Rightarrow> (nat \<times> nat) list" where
  "tile_list t = raster (tl_tiles_x t) (tl_tiles_y t)"

text \<open>The rectangle \<open>(tx0, ty0, tx1, ty1)\<close> of a tile.\<close>

definition tile_rect :: "tiling \<Rightarrow> nat \<times> nat \<Rightarrow> nat \<times> nat \<times> nat \<times> nat" where
  "tile_rect t = (\<lambda>(tx, ty).
     (wrap (tx * tl_tile_width t), wrap (ty * tl_tile_height t),
      min (wrap ((tx + 1) * tl_tile_width t)) (tl_width t), min (wrap ((ty + 1) * tl_tile_height t)) (tl_height t)))"

section \<open>Entropy coding the tiles\<close>

definition encode_tile :: "signaled_configuration \<Rightarrow> nat \<Rightarrow> layer_surface \<Rightarrow> tiling \<Rightarrow> nat \<times> nat \<Rightarrow> encoded_chunk result" where
  "encode_tile sg layer symbols t pos =
     (let (tx0, ty0, tx1, ty1) = tile_rect t pos in
      if \<not> is_temporal_layer sg layer then
        rbind (crop_residuals symbols tx0 ty0 tx1 ty1) (\<lambda>tile_symbols.
        rbind (residual_view tile_symbols) (\<lambda>view. encode_residuals_tiled view (block_size sg)))
      else
        rbind (crop_temporal symbols tx0 ty0 tx1 ty1) (\<lambda>tile_symbols.
        rbind (mask_view tile_symbols) (\<lambda>view.
        encode_temporal view (block_size sg)
          (gc_temporal_tile_intra_signalling_enabled (sg_global_configuration sg)))))"

text \<open>The accumulated flags and packets: one \<open>rle_only\<close> per layer, the others per tile.\<close>

record tiled_code =
  tc_rle_only :: "bool list"
  tc_entropy_enabled :: "bool list"
  tc_chunks :: "packet list"

definition encode_layer_tiles ::
  "signaled_configuration \<Rightarrow> layer_surface \<Rightarrow> tiling \<Rightarrow> nat \<Rightarrow> tiled_code \<Rightarrow> tiled_code result" where
  "encode_layer_tiles sg symbols t layer acc =
     rbind (map_result (\<lambda>pos.
       rbind (encode_tile sg layer symbols t pos) (\<lambda>e.
       rbind (check_that ((pkt_size (ck_raw e) = 0) = (pkt_size (ck_prefix e) = 0))) (\<lambda>_. Inr e))) (tile_list t)) (\<lambda>encoded_chunks.
     let r = (wrap (sum_list (map (\<lambda>e. pkt_size (ck_raw e)) encoded_chunks)) <
              wrap (sum_list (map (\<lambda>e. pkt_size (ck_prefix e)) encoded_chunks))) in
     Inr \<lparr>tc_rle_only = tc_rle_only acc @ [r],
          tc_entropy_enabled = tc_entropy_enabled acc @ map (\<lambda>e. 0 < pkt_size (ck_raw e)) encoded_chunks,
          tc_chunks = tc_chunks acc @ map (\<lambda>e. if r then ck_raw e else ck_prefix e) encoded_chunks\<rparr>)"

definition plane_loqs :: "nat \<Rightarrow> (nat \<times> nat) list" where
  "plane_loqs planes = concat (map (\<lambda>plane. map (\<lambda>loq. (plane, loq)) [0..<MAX_NUM_LOQS]) [0..<planes])"

definition encode_tiles ::
  "signaled_configuration \<Rightarrow> dimensions \<Rightarrow> layer_surfaces \<Rightarrow> ((nat \<times> nat \<Rightarrow> nat) \<times> tiled_code) result" where
  "encode_tiles sg dims symbols =
     fold_result (\<lambda>(plane, loq) (num_tiles, acc).
       if \<not> in_arrays (plane, loq, 0) then Inl OutOfRange else
       rbind (tiling_of (dm_tile_width dims (plane, loq)) (dm_tile_height dims (plane, loq))
                (layer_width (symbols (plane, loq, 0))) (layer_height (symbols (plane, loq, 0)))) (\<lambda>t.
       rbind (fold_result (\<lambda>layer acc.
           if in_arrays (plane, loq, layer) then encode_layer_tiles sg (symbols (plane, loq, layer)) t layer acc
           else Inl OutOfRange) [first_layer sg..<total_layers sg loq] acc) (\<lambda>acc.
       Inr (num_tiles((plane, loq) := tl_num_tiles t), acc))))
     (plane_loqs (num_planes sg)) (\<lambda>_. 0, \<lparr>tc_rle_only = [], tc_entropy_enabled = [], tc_chunks = []\<rparr>)"

section \<open>Emitting them\<close>

definition emit_tile_flags :: "signaled_configuration \<Rightarrow> bool list \<Rightarrow> packer \<Rightarrow> packer run" where
  "emit_tile_flags sg entropy_enabled b =
     (if \<not> gc_compression_type_entropy_enabled_per_tile (sg_global_configuration sg)
      then Some (write_all (map put_flag entropy_enabled) b)
      else
        run_bind (Some (surface_build (length entropy_enabled) 1 (\<lambda>x y.
          rbind (vector_bool entropy_enabled x) (\<lambda>e. Inr (if e then 1 else 0 :: u8))))) (\<lambda>ee.
        run_bind (Some (encode_flags ee)) (\<lambda>e. put_packet (ck_raw e) b)))"

text \<open>Without compression of the sizes each tile is led by its own.\<close>

definition emit_tiles :: "tiled_code \<Rightarrow> packer \<Rightarrow> packer run" where
  "emit_tiles code =
     fold_run (\<lambda>c b.
       run_bind (Some (vector_bool (tc_entropy_enabled code) c)) (\<lambda>enabled.
       if enabled then
         run_bind (Some (vector_at (tc_chunks code) c)) (\<lambda>chunk.
         run_bind (Some (check_that (0 < pkt_size chunk))) (\<lambda>_.
         run_bind (Some (write_multibyte (word_of_nat (pkt_size chunk)) b)) (put_packet chunk)))
       else Some (Inr b))) [0..<length (tc_chunks code)]"

fun any_enabled :: "bool list \<Rightarrow> nat \<Rightarrow> nat \<Rightarrow> bool result" where
  "any_enabled entropy_enabled idx 0 = Inr False"
| "any_enabled entropy_enabled idx (Suc n) =
     rbind (vector_bool entropy_enabled idx) (\<lambda>e. if e then Inr True else any_enabled entropy_enabled (Suc idx) n)"

text \<open>A size goes through \<open>int16_t\<close> into a 16 bit pixel, which keeps its low 16 bits.\<close>

definition emit_sized_layer :: "compression_type \<Rightarrow> tiled_code \<Rightarrow> nat \<Rightarrow> nat \<Rightarrow> packer \<Rightarrow> packer run" where
  "emit_sized_layer compression code n idx b =
     run_bind (Some (any_enabled (tc_entropy_enabled code) idx n)) (\<lambda>any_tile_enabled.
     if any_tile_enabled then
       run_bind (Some (surface_build n 1 (\<lambda>x y.
         rbind (vector_at (tc_chunks code) (idx + x)) (\<lambda>p. Inr (word_of_nat (pkt_size p) :: u16))))) (\<lambda>sz.
       run_bind (Some (encode_sizes sz (tc_entropy_enabled code) idx compression)) (\<lambda>e.
       run_bind (put_packet (ck_prefix e) b)
       (fold_run (\<lambda>t b.
         run_bind (Some (vector_at (tc_chunks code) (idx + t))) (\<lambda>chunk.
         if 0 < pkt_size chunk then put_packet chunk b else Some (Inr b))) [0..<n])))
     else Some (Inr b))"

definition emit_sized_tiles :: "signaled_configuration \<Rightarrow> (nat \<times> nat \<Rightarrow> nat) \<Rightarrow> tiled_code \<Rightarrow> packer \<Rightarrow> packer run" where
  "emit_sized_tiles sg num_tiles code b =
     run_bind (fold_run (\<lambda>(plane, loq, layer) (idx, b).
       run_bind (emit_sized_layer (gc_compression_type_size_per_tile (sg_global_configuration sg)) code
         (num_tiles (plane, loq)) idx b) (\<lambda>b.
       Some (Inr (idx + num_tiles (plane, loq), b)))) (coded_positions sg) (0, b)) (\<lambda>(idx, b).
     Some (Inr b))"

text \<open>The dimensions object is not initialised; \<open>old\<close> is what it holds.\<close>

definition emit_encoded_data_tiled ::
  "dimensions \<Rightarrow> signaled_configuration \<Rightarrow> layer_surfaces \<Rightarrow> u32 \<Rightarrow> packer \<Rightarrow> packer run" where
  "emit_encoded_data_tiled old sg symbols n b =
     (let g = sg_global_configuration sg in
      run_bind (Some (check_that (gc_tile_dimensions_type g \<noteq> TileDimensions_None))) (\<lambda>_.
      run_bind (dimensions_set g (unat (gc_resolution_width g)) (unat (gc_resolution_height g)) old) (\<lambda>dims.
      run_bind (Some (encode_tiles sg dims symbols)) (\<lambda>(num_tiles, code).
      run_bind (Some (check_that (length (tc_chunks code) = length (tc_entropy_enabled code)))) (\<lambda>_.
      run_bind (Some (write_all (map put_flag (tc_rle_only code)) b)) (\<lambda>b.
      run_bind (Some (put_alignment b)) (\<lambda>b.
      run_bind (emit_tile_flags sg (tc_entropy_enabled code) b) (\<lambda>b.
      run_bind (Some (put_alignment b)) (\<lambda>b.
      if gc_compression_type_size_per_tile g = CompressionType_None then emit_tiles code b
      else emit_sized_tiles sg num_tiles code b)))))))))"

end
