(* ===== verification/SerializerBlocks.thy ===== *)
theory SerializerBlocks
  imports EncodedDataTiled
begin

text \<open>
  encoder/src/Serializer.cpp: the frame of a block, from its contents and their size, and the
  sequence of the blocks that a mask asks for. \<open>old\<close> is what the dimensions object of a tiled block
  holds before it is set.
\<close>

section \<open>Blocks\<close>

datatype syntax_block = SyntaxBlock_Sequence | SyntaxBlock_Global | SyntaxBlock_Picture | SyntaxBlock_EncodedData
  | SyntaxBlock_EncodedData_Tiled | SyntaxBlock_Additional_Info | SyntaxBlock_Filler

text \<open>The blocks in the order of the bits of the mask.\<close>

definition syntax_blocks :: "syntax_block list" where
  "syntax_blocks = [SyntaxBlock_Sequence, SyntaxBlock_Global, SyntaxBlock_Picture, SyntaxBlock_EncodedData,
     SyntaxBlock_EncodedData_Tiled, SyntaxBlock_Additional_Info, SyntaxBlock_Filler]"

definition payload_type_of :: "syntax_block \<Rightarrow> u32" where
  "payload_type_of block = (case block of
     SyntaxBlock_Sequence \<Rightarrow> 0 | SyntaxBlock_Global \<Rightarrow> 1 | SyntaxBlock_Picture \<Rightarrow> 2 | SyntaxBlock_EncodedData \<Rightarrow> 3
   | SyntaxBlock_EncodedData_Tiled \<Rightarrow> 4 | SyntaxBlock_Additional_Info \<Rightarrow> 5 | SyntaxBlock_Filler \<Rightarrow> 6)"

definition emit_contents ::
  "dimensions \<Rightarrow> signaled_configuration \<Rightarrow> layer_surfaces \<Rightarrow> syntax_block \<Rightarrow> packer \<Rightarrow> packer run" where
  "emit_contents old sg symbols block b =
     (let n = gc_num_residual_layers (sg_global_configuration sg) in
      case block of
        SyntaxBlock_Sequence \<Rightarrow> Some (emit_sequence_configuration (sg_sequence_configuration sg) b)
      | SyntaxBlock_Global \<Rightarrow> Some (emit_global_configuration (sg_global_configuration sg) b)
      | SyntaxBlock_Picture \<Rightarrow> Some (emit_picture_configuration (sg_picture_configuration sg) n b)
      | SyntaxBlock_EncodedData \<Rightarrow> emit_encoded_data sg symbols n b
      | SyntaxBlock_EncodedData_Tiled \<Rightarrow> emit_encoded_data_tiled old sg symbols n b
      | SyntaxBlock_Additional_Info \<Rightarrow> Some (emit_additional_info (sg_additional_info sg) b)
      | SyntaxBlock_Filler \<Rightarrow> Some (emit_filler 0 b))"

definition emit_block ::
  "dimensions \<Rightarrow> signaled_configuration \<Rightarrow> layer_surfaces \<Rightarrow> syntax_block \<Rightarrow> packet run" where
  "emit_block old sg symbols block =
     run_bind (emit_contents old sg symbols block packer_new) (\<lambda>contents_bitstream.
     run_bind (Some (packer_finish contents_bitstream)) (\<lambda>contents.
     let payload_size_type = (if pkt_size contents \<le> 5 then word_of_nat (pkt_size contents) else 7) in
     run_bind (Some (write_all
       [put_u 3 payload_size_type, put_u 5 (payload_type_of block),
        only_if (payload_size_type = 7) [write_multibyte (word_of_nat (pkt_size contents))]] packer_new)) (\<lambda>b.
     run_bind (put_packet contents b) (\<lambda>b.
     Some (packer_finish b)))))"

definition emit_blocks ::
  "dimensions \<Rightarrow> signaled_configuration \<Rightarrow> syntax_block set \<Rightarrow> layer_surfaces \<Rightarrow> packet run" where
  "emit_blocks old sg block_mask symbols =
     run_bind (fold_run (\<lambda>block b.
       if block \<in> block_mask then
         run_bind (emit_block old sg symbols block) (\<lambda>p. put_packet p b)
       else Some (Inr b)) syntax_blocks packer_new) (\<lambda>b. Some (packer_finish b))"

end
