(* ===== verification/Deserializer.thy ===== *)
theory Deserializer
  imports Serializer
begin

text \<open>
  decoder/src/Deserializer.cpp: parsing of the configuration blocks. A parser updates the
  configuration it is given, so fields that are not in the stream keep the value of the block
  before. The table of resolutions is the one of the serializer, repeated in this file of the
  repository.
\<close>

definition parse_conf_window ::
  "sequence_configuration \<Rightarrow> unpacker \<Rightarrow> (sequence_configuration \<times> unpacker) result" where
  "parse_conf_window c b =
     (if sq_conformance_window c then
        rbind (read_multibyte b) (\<lambda>(left, b).
        rbind (read_multibyte b) (\<lambda>(right, b).
        rbind (read_multibyte b) (\<lambda>(top, b).
        rbind (read_multibyte b) (\<lambda>(bottom, b).
        Inr (c\<lparr>sq_conf_win_left_offset := ucast left, sq_conf_win_right_offset := ucast right,
               sq_conf_win_top_offset := ucast top, sq_conf_win_bottom_offset := ucast bottom\<rparr>, b)))))
      else Inr (c, b))"

definition parse_sequence_config ::
  "sequence_configuration \<Rightarrow> unpacker \<Rightarrow> (sequence_configuration \<times> unpacker) result" where
  "parse_sequence_config c b =
     rbind (unpacker_u b 4) (\<lambda>(profile_idc, b).
     rbind (unpacker_u b 4) (\<lambda>(level_idc, b).
     rbind (unpacker_u b 2) (\<lambda>(sublevel_idc, b).
     rbind (unpacker_u b 1) (\<lambda>(conformance_window, b).
     rbind (unpacker_u b 5) (\<lambda>(_, b).
     let c = c\<lparr>sq_level_idc := level_idc, sq_sublevel_idc := sublevel_idc,
               sq_conformance_window := conformance_window \<noteq> 0\<rparr> in
     rbind (if profile_idc = 15 \<or> level_idc = 15 then
              rbind (unpacker_u b 3) (\<lambda>(extended_profile_idc, b).
              rbind (unpacker_u b 3) (\<lambda>(extended_level_idc, b).
              rbind (unpacker_u b 1) (\<lambda>(_, b). Inr ((), b))))
            else Inr ((), b)) (\<lambda>(_, b).
     rbind (parse_conf_window c b) (\<lambda>(c, b).
     rbind (if profile_idc = 0 then Inr Profile_Main
            else if profile_idc = 1 then Inr Profile_Main444
            else Inl CheckFailed) (\<lambda>profile.
     Inr (c\<lparr>sq_profile_idc := profile\<rparr>, b)))))))))"

text \<open>The \<open>switch\<close> statements.\<close>

definition user_data_of :: "u32 \<Rightarrow> user_data_mode result" where
  "user_data_of v =
     (if v = 0 then Inr UserData_None else if v = 1 then Inr UserData_2bits
      else if v = 2 then Inr UserData_6bits else Inl CheckFailed)"

definition compression_of :: "u32 \<Rightarrow> compression_type result" where
  "compression_of v =
     (if v = 0 then Inr CompressionType_None else if v = 1 then Inr CompressionType_Prefix
      else if v = 2 then Inr CompressionType_Prefix_OnDiff else Inl CheckFailed)"

definition scaling_mode_of :: "u32 \<Rightarrow> scaling_mode result" where
  "scaling_mode_of v =
     (if v = 0 then Inr ScalingMode_None else if v = 1 then Inr ScalingMode_1D
      else if v = 2 then Inr ScalingMode_2D else Inl CheckFailed)"

definition upsample_of :: "u32 \<Rightarrow> upsample result" where
  "upsample_of v =
     (if v = 0 then Inr Upsample_Nearest else if v = 1 then Inr Upsample_Linear
      else if v = 2 then Inr Upsample_Cubic else if v = 3 then Inr Upsample_ModifiedCubic
      else if v = 4 then Inr Upsample_AdaptiveCubic else Inl CheckFailed)"

definition depth_of :: "u32 \<Rightarrow> u32 result" where
  "depth_of v =
     (if v = 0 then Inr 8 else if v = 1 then Inr 10 else if v = 2 then Inr 12
      else if v = 3 then Inr 14 else Inl CheckFailed)"

definition set_colourspace :: "u32 \<Rightarrow> global_configuration \<Rightarrow> global_configuration result" where
  "set_colourspace v g =
     (if v = 0 then
        let g = g\<lparr>gc_colourspace := Colourspace_Y, gc_num_image_planes := 1\<rparr>
        in check (gc_num_processed_planes g \<le> gc_num_image_planes g) g
      else if v = 1 then Inr (g\<lparr>gc_colourspace := Colourspace_YUV420, gc_num_image_planes := 3\<rparr>)
      else if v = 2 then Inr (g\<lparr>gc_colourspace := Colourspace_YUV422, gc_num_image_planes := 3\<rparr>)
      else if v = 3 then Inr (g\<lparr>gc_colourspace := Colourspace_YUV444, gc_num_image_planes := 3\<rparr>)
      else Inl CheckFailed)"

definition set_transform :: "u32 \<Rightarrow> global_configuration \<Rightarrow> global_configuration result" where
  "set_transform v g =
     (if v = 0 then Inr (g\<lparr>gc_transform_block_size := 2, gc_num_residual_layers := 4\<rparr>)
      else if v = 1 then Inr (g\<lparr>gc_transform_block_size := 4, gc_num_residual_layers := 16\<rparr>)
      else Inl CheckFailed)"

definition format_of :: "u32 \<Rightarrow> colourspace \<Rightarrow> image_format" where
  "format_of depth cs =
     (if depth = 8 then case cs of Colourspace_Y \<Rightarrow> IMAGE_FORMAT_Y8 | Colourspace_YUV420 \<Rightarrow> IMAGE_FORMAT_YUV420P8
        | Colourspace_YUV422 \<Rightarrow> IMAGE_FORMAT_YUV422P8 | Colourspace_YUV444 \<Rightarrow> IMAGE_FORMAT_YUV444P8
      else if depth = 10 then case cs of Colourspace_Y \<Rightarrow> IMAGE_FORMAT_Y10 | Colourspace_YUV420 \<Rightarrow> IMAGE_FORMAT_YUV420P10
        | Colourspace_YUV422 \<Rightarrow> IMAGE_FORMAT_YUV422P10 | Colourspace_YUV444 \<Rightarrow> IMAGE_FORMAT_YUV444P10
      else if depth = 12 then case cs of Colourspace_Y \<Rightarrow> IMAGE_FORMAT_Y12 | Colourspace_YUV420 \<Rightarrow> IMAGE_FORMAT_YUV420P12
        | Colourspace_YUV422 \<Rightarrow> IMAGE_FORMAT_YUV422P12 | Colourspace_YUV444 \<Rightarrow> IMAGE_FORMAT_YUV444P12
      else case cs of Colourspace_Y \<Rightarrow> IMAGE_FORMAT_Y14 | Colourspace_YUV420 \<Rightarrow> IMAGE_FORMAT_YUV420P14
        | Colourspace_YUV422 \<Rightarrow> IMAGE_FORMAT_YUV422P14 | Colourspace_YUV444 \<Rightarrow> IMAGE_FORMAT_YUV444P14)"

text \<open>The optional parts of the global configuration, in stream order.\<close>

definition parse_planes :: "u32 \<Rightarrow> global_configuration \<Rightarrow> unpacker \<Rightarrow> (global_configuration \<times> unpacker) result" where
  "parse_planes processed_planes_type g b =
     (if processed_planes_type = 0 then Inr (g\<lparr>gc_num_processed_planes := 1\<rparr>, b)
      else rbind (unpacker_u b 4) (\<lambda>(planes_type, b).
           rbind (unpacker_u b 4) (\<lambda>(_, b).
           rbind (check_that (planes_type = 1)) (\<lambda>_.
           Inr (g\<lparr>gc_num_processed_planes := 3\<rparr>, b)))))"

definition parse_step_width_modifier :: "u32 \<Rightarrow> global_configuration \<Rightarrow> unpacker \<Rightarrow> (global_configuration \<times> unpacker) result" where
  "parse_step_width_modifier signalled g b =
     (if signalled \<noteq> 0 then rbind (unpacker_u b 8) (\<lambda>(v, b). Inr (g\<lparr>gc_temporal_step_width_modifier := v\<rparr>, b))
      else Inr (g\<lparr>gc_temporal_step_width_modifier := 48\<rparr>, b))"

definition parse_upsampling_coefficients :: "u32 \<Rightarrow> global_configuration \<Rightarrow> unpacker \<Rightarrow> (global_configuration \<times> unpacker) result" where
  "parse_upsampling_coefficients upsample_type g b =
     (if upsample_type = 4 then
        rbind (unpacker_u b 16) (\<lambda>(c0, b).
        rbind (unpacker_u b 16) (\<lambda>(c1, b).
        rbind (unpacker_u b 16) (\<lambda>(c2, b).
        rbind (unpacker_u b 16) (\<lambda>(c3, b).
        Inr (g\<lparr>gc_upsampling_coefficients := (gc_upsampling_coefficients g)[0 := c0, 1 := c1, 2 := c2, 3 := c3]\<rparr>, b)))))
      else Inr (g, b))"

definition parse_level_1_filtering :: "u32 \<Rightarrow> global_configuration \<Rightarrow> unpacker \<Rightarrow> (global_configuration \<times> unpacker) result" where
  "parse_level_1_filtering signalled g b =
     (if signalled \<noteq> 0 then
        rbind (unpacker_u b 4) (\<lambda>(c1, b).
        rbind (unpacker_u b 4) (\<lambda>(c2, b).
        Inr (g\<lparr>gc_level_1_filtering_first_coefficient := c1, gc_level_1_filtering_second_coefficient := c2\<rparr>, b)))
      else Inr (g\<lparr>gc_level_1_filtering_first_coefficient := 0, gc_level_1_filtering_second_coefficient := 0\<rparr>, b))"

definition parse_tile_dimensions :: "u32 \<Rightarrow> global_configuration \<Rightarrow> unpacker \<Rightarrow> (global_configuration \<times> unpacker) result" where
  "parse_tile_dimensions v g b =
     (if v = 0 then Inr (g\<lparr>gc_tile_dimensions_type := TileDimensions_None, gc_tile_width := 0, gc_tile_height := 0\<rparr>, b)
      else if v = 1 then
        Inr (g\<lparr>gc_tile_dimensions_type := TileDimensions_512x256, gc_tile_width := 512, gc_tile_height := 256\<rparr>, b)
      else if v = 2 then
        Inr (g\<lparr>gc_tile_dimensions_type := TileDimensions_1024x512, gc_tile_width := 1024, gc_tile_height := 512\<rparr>, b)
      else if v = 3 then
        rbind (unpacker_u b 16) (\<lambda>(w, b).
        rbind (unpacker_u b 16) (\<lambda>(h, b).
        Inr (g\<lparr>gc_tile_dimensions_type := TileDimensions_Custom, gc_tile_width := w, gc_tile_height := h\<rparr>, b)))
      else Inr (g, b))"

definition parse_tile_compression :: "u32 \<Rightarrow> global_configuration \<Rightarrow> unpacker \<Rightarrow> (global_configuration \<times> unpacker) result" where
  "parse_tile_compression v g b =
     (if 0 < v then
        rbind (unpacker_u b 5) (\<lambda>(_, b).
        rbind (unpacker_u b 1) (\<lambda>(entropy, b).
        rbind (unpacker_u b 2) (\<lambda>(size_type, b).
        rbind (compression_of size_type) (\<lambda>compression.
        Inr (g\<lparr>gc_compression_type_entropy_enabled_per_tile := entropy \<noteq> 0,
               gc_compression_type_size_per_tile := compression\<rparr>, b)))))
      else Inr (g, b))"

definition parse_resolution :: "u32 \<Rightarrow> global_configuration \<Rightarrow> unpacker \<Rightarrow> (global_configuration \<times> unpacker) result" where
  "parse_resolution v g b =
     (if 0 < v \<and> v < 51 then
        let (w, h) = resolution_table ! unat v in Inr (g\<lparr>gc_resolution_width := w, gc_resolution_height := h\<rparr>, b)
      else if v = 63 then
        rbind (unpacker_u b 16) (\<lambda>(w, b).
        rbind (unpacker_u b 16) (\<lambda>(h, b).
        Inr (g\<lparr>gc_resolution_width := w, gc_resolution_height := h\<rparr>, b)))
      else Inl CheckFailed)"

definition parse_chroma_multiplier :: "u32 \<Rightarrow> global_configuration \<Rightarrow> unpacker \<Rightarrow> (global_configuration \<times> unpacker) result" where
  "parse_chroma_multiplier flag g b =
     (if flag = 1 then rbind (unpacker_u b 8) (\<lambda>(v, b). Inr (g\<lparr>gc_chroma_step_width_multiplier := v\<rparr>, b))
      else Inr (g\<lparr>gc_chroma_step_width_multiplier := 64\<rparr>, b))"

text \<open>What is derived from the fixed fields after all has been read.\<close>

definition derive_global :: "u32 \<Rightarrow> u32 \<Rightarrow> u32 \<Rightarrow> u32 \<Rightarrow> u32 \<Rightarrow> u32 \<Rightarrow> u32 \<Rightarrow> global_configuration \<Rightarrow> global_configuration result" where
  "derive_global chroma_sampling transform base_depth enhancement_depth upsample_type scaling1 scaling2 g =
     rbind (set_colourspace chroma_sampling g) (\<lambda>g.
     rbind (set_transform transform g) (\<lambda>g.
     rbind (depth_of base_depth) (\<lambda>bd.
     rbind (depth_of enhancement_depth) (\<lambda>ed.
     let g = g\<lparr>gc_base_depth := bd, gc_enhancement_depth := ed, gc_image_format := format_of ed (gc_colourspace g)\<rparr> in
     rbind (upsample_of upsample_type) (\<lambda>up.
     rbind (scaling_mode_of scaling1) (\<lambda>s1.
     rbind (scaling_mode_of scaling2) (\<lambda>s2.
     Inr (g\<lparr>gc_upsample := up, gc_scaling_mode := (gc_scaling_mode g)[LOQ_LEVEL_1 := s1, LOQ_LEVEL_2 := s2]\<rparr>))))))))"

definition parse_global_config :: "global_configuration \<Rightarrow> unpacker \<Rightarrow> (global_configuration \<times> unpacker) result" where
  "parse_global_config g b =
     rbind (unpacker_u b 1) (\<lambda>(processed_planes_type, b).
     rbind (unpacker_u b 6) (\<lambda>(resolution_type, b).
     rbind (unpacker_u b 1) (\<lambda>(transform_type, b).
     rbind (unpacker_u b 2) (\<lambda>(chroma_sampling_type, b).
     rbind (unpacker_u b 2) (\<lambda>(base_depth_type, b).
     rbind (unpacker_u b 2) (\<lambda>(enhancement_depth_type, b).
     rbind (unpacker_u b 1) (\<lambda>(temporal_step_width_modifier_signalled, b).
     rbind (unpacker_u b 1) (\<lambda>(predicted_residual, b).
     rbind (unpacker_u b 1) (\<lambda>(tile_intra, b).
     rbind (unpacker_u b 1) (\<lambda>(temporal_enabled, b).
     rbind (unpacker_u b 3) (\<lambda>(upsample_type, b).
     rbind (unpacker_u b 1) (\<lambda>(level_1_filtering_signalled, b).
     rbind (unpacker_u b 2) (\<lambda>(scaling_mode_level1, b).
     rbind (unpacker_u b 2) (\<lambda>(scaling_mode_level2, b).
     rbind (unpacker_u b 2) (\<lambda>(tile_dimensions_type, b).
     rbind (unpacker_u b 2) (\<lambda>(user_data_enabled, b).
     rbind (user_data_of user_data_enabled) (\<lambda>user_data.
     rbind (unpacker_u b 1) (\<lambda>(level1_depth_flag, b).
     rbind (unpacker_u b 1) (\<lambda>(chroma_step_width_flag, b).
     let g = g\<lparr>gc_predicted_residual_enabled := predicted_residual \<noteq> 0,
               gc_temporal_tile_intra_signalling_enabled := tile_intra \<noteq> 0,
               gc_temporal_enabled := temporal_enabled, gc_user_data_enabled := user_data,
               gc_level1_depth_flag := level1_depth_flag \<noteq> 0\<rparr> in
     rbind (parse_planes processed_planes_type g b) (\<lambda>(g, b).
     rbind (parse_step_width_modifier temporal_step_width_modifier_signalled g b) (\<lambda>(g, b).
     rbind (parse_upsampling_coefficients upsample_type g b) (\<lambda>(g, b).
     rbind (parse_level_1_filtering level_1_filtering_signalled g b) (\<lambda>(g, b).
     rbind (parse_tile_dimensions tile_dimensions_type g b) (\<lambda>(g, b).
     rbind (parse_tile_compression tile_dimensions_type g b) (\<lambda>(g, b).
     rbind (parse_resolution resolution_type g b) (\<lambda>(g, b).
     rbind (parse_chroma_multiplier chroma_step_width_flag g b) (\<lambda>(g, b).
     rbind (derive_global chroma_sampling_type transform_type base_depth_type enhancement_depth_type upsample_type
              scaling_mode_level1 scaling_mode_level2 g) (\<lambda>g.
     Inr (g, b)))))))))))))))))))))))))))))"

text \<open>The optional parts of the picture configuration.\<close>

definition quant_matrix_of :: "u32 \<Rightarrow> quant_matrix result" where
  "quant_matrix_of v =
     (if v = 0 then Inr QuantMatrix_BothPrevious else if v = 1 then Inr QuantMatrix_BothDefault
      else if v = 2 then Inr QuantMatrix_SameAndCustom else if v = 3 then Inr QuantMatrix_Level2CustomLevel1Default
      else if v = 4 then Inr QuantMatrix_Level2DefaultLevel1Custom
      else if v = 5 then Inr QuantMatrix_DifferentAndCustom else Inl CheckFailed)"

definition parse_field_type :: "u32 \<Rightarrow> picture_configuration \<Rightarrow> unpacker \<Rightarrow> (picture_configuration \<times> unpacker) result" where
  "parse_field_type picture_type p b =
     (if picture_type \<noteq> 0 then
        rbind (unpacker_u b 1) (\<lambda>(v, b).
        rbind (if v = 0 then Inr FieldType_Top else if v = 1 then Inr FieldType_Bottom else Inl CheckFailed) (\<lambda>f.
        rbind (unpacker_u b 7) (\<lambda>(_, b).
        Inr (p\<lparr>pc_field_type := f\<rparr>, b))))
      else Inr (p, b))"

definition parse_step_width_level1 :: "u32 \<Rightarrow> picture_configuration \<Rightarrow> unpacker \<Rightarrow> (picture_configuration \<times> unpacker) result" where
  "parse_step_width_level1 enabled p b =
     (if enabled \<noteq> 0 then
        rbind (unpacker_u b 15) (\<lambda>(sw, b).
        rbind (check_that (0 < sw)) (\<lambda>_.
        rbind (unpacker_u b 1) (\<lambda>(filtering, b).
        Inr (p\<lparr>pc_step_width_loq := (pc_step_width_loq p)[LOQ_LEVEL_1 := sw],
               pc_level_1_filtering_enabled := filtering \<noteq> 0\<rparr>, b))))
      else Inr (p\<lparr>pc_step_width_loq := (pc_step_width_loq p)[LOQ_LEVEL_1 := 32767]\<rparr>, b))"

definition parse_coefficients :: "nat list \<Rightarrow> u32 list \<Rightarrow> unpacker \<Rightarrow> (u32 list \<times> unpacker) result" where
  "parse_coefficients is qm b =
     fold_result (\<lambda>i (qm, b). rbind (unpacker_u b 8) (\<lambda>(v, b).
       if i < length qm then Inr (qm[i := v], b) else Inl OutOfRange)) is (qm, b)"

definition parse_quant_matrix :: "u32 \<Rightarrow> picture_configuration \<Rightarrow> unpacker \<Rightarrow> (picture_configuration \<times> unpacker) result" where
  "parse_quant_matrix num_layers p b =
     rbind (if pc_quant_matrix_mode p = QuantMatrix_SameAndCustom \<or>
               pc_quant_matrix_mode p = QuantMatrix_Level2CustomLevel1Default \<or>
               pc_quant_matrix_mode p = QuantMatrix_DifferentAndCustom
            then rbind (parse_coefficients [0..<unat num_layers] (pc_qm_coefficient_2 p) b) (\<lambda>(qm, b).
                 Inr (p\<lparr>pc_qm_coefficient_2 := qm\<rparr>, b))
            else Inr (p, b)) (\<lambda>(p, b).
     if pc_quant_matrix_mode p = QuantMatrix_Level2DefaultLevel1Custom \<or>
        pc_quant_matrix_mode p = QuantMatrix_DifferentAndCustom
     then rbind (parse_coefficients [0..<unat num_layers] (pc_qm_coefficient_1 p) b) (\<lambda>(qm, b).
          Inr (p\<lparr>pc_qm_coefficient_1 := qm\<rparr>, b))
     else Inr (p, b))"

definition parse_dequant_offset :: "picture_configuration \<Rightarrow> unpacker \<Rightarrow> (picture_configuration \<times> unpacker) result" where
  "parse_dequant_offset p b =
     (if pc_dequant_offset_signalled p then
        rbind (unpacker_u b 1) (\<lambda>(mode, b).
        rbind (if mode = 0 then Inr DequantOffset_Default else if mode = 1 then Inr DequantOffset_ConstOffset
               else Inl CheckFailed) (\<lambda>m.
        rbind (unpacker_u b 7) (\<lambda>(offset, b).
        Inr (p\<lparr>pc_dequant_offset_mode := m, pc_dequant_offset := offset\<rparr>, b))))
      else Inr (p, b))"

definition parse_dithering :: "picture_configuration \<Rightarrow> unpacker \<Rightarrow> (picture_configuration \<times> unpacker) result" where
  "parse_dithering p b =
     (if pc_dithering_control p then
        rbind (unpacker_u b 2) (\<lambda>(v, b).
        rbind (if v = 0 then Inr Dithering_None else if v = 1 then Inr Dithering_Uniform else Inl CheckFailed) (\<lambda>d.
        rbind (unpacker_u b 1) (\<lambda>(_, b).
        rbind (unpacker_u b 5) (\<lambda>(strength, b).
        Inr (if d \<noteq> Dithering_None then p\<lparr>pc_dithering_type := d, pc_dithering_strength := strength\<rparr>
             else p\<lparr>pc_dithering_type := d\<rparr>, b)))))
      else Inr (p, b))"

definition parse_enhancement :: "u32 \<Rightarrow> bool \<Rightarrow> picture_configuration \<Rightarrow> unpacker \<Rightarrow>
    ((u32 \<times> picture_configuration) \<times> unpacker) result" where
  "parse_enhancement num_residual_layers temporal_enabled p b =
     rbind (unpacker_u b 3) (\<lambda>(quant_matrix_mode, b).
     rbind (unpacker_u b 1) (\<lambda>(dequant_offset_signalled, b).
     rbind (unpacker_u b 1) (\<lambda>(picture_type, b).
     rbind (unpacker_u b 1) (\<lambda>(temporal_refresh, b).
     rbind (unpacker_u b 1) (\<lambda>(step_width_level1_enabled, b).
     rbind (unpacker_u b 15) (\<lambda>(step_width_level2, b).
     rbind (check_that (0 < step_width_level2)) (\<lambda>_.
     rbind (unpacker_u b 1) (\<lambda>(dithering_control, b).
     rbind (quant_matrix_of quant_matrix_mode) (\<lambda>qm.
     let p = p\<lparr>pc_dequant_offset_signalled := dequant_offset_signalled \<noteq> 0, pc_temporal_refresh := temporal_refresh \<noteq> 0,
               pc_temporal_signalling_present := (temporal_enabled \<and> temporal_refresh = 0),
               pc_step_width_loq := (pc_step_width_loq p)[LOQ_LEVEL_2 := step_width_level2],
               pc_dithering_control := dithering_control \<noteq> 0, pc_quant_matrix_mode := qm\<rparr> in
     rbind (parse_field_type picture_type p b) (\<lambda>(p, b).
     rbind (parse_step_width_level1 step_width_level1_enabled p b) (\<lambda>(p, b).
     rbind (parse_quant_matrix num_residual_layers p b) (\<lambda>(p, b).
     rbind (parse_dequant_offset p b) (\<lambda>(p, b).
     rbind (parse_dithering p b) (\<lambda>(p, b).
     Inr ((picture_type, p), b)))))))))))))))"

definition parse_no_enhancement :: "picture_configuration \<Rightarrow> unpacker \<Rightarrow> ((u32 \<times> picture_configuration) \<times> unpacker) result" where
  "parse_no_enhancement p b =
     rbind (unpacker_u b 4) (\<lambda>(_, b).
     rbind (unpacker_u b 1) (\<lambda>(picture_type, b).
     rbind (unpacker_u b 1) (\<lambda>(temporal_refresh, b).
     rbind (unpacker_u b 1) (\<lambda>(temporal_signalling_present, b).
     Inr ((picture_type, p\<lparr>pc_temporal_refresh := temporal_refresh \<noteq> 0,
       pc_temporal_signalling_present := temporal_signalling_present \<noteq> 0\<rparr>), b)))))"

definition parse_picture_config ::
  "u32 \<Rightarrow> bool \<Rightarrow> picture_configuration \<Rightarrow> unpacker \<Rightarrow> (picture_configuration \<times> unpacker) result" where
  "parse_picture_config num_residual_layers temporal_enabled p b =
     rbind (unpacker_u b 1) (\<lambda>(no_enhancement, b).
     let p = p\<lparr>pc_enhancement_enabled := (no_enhancement = 0)\<rparr> in
     rbind (if pc_enhancement_enabled p then parse_enhancement num_residual_layers temporal_enabled p b
            else parse_no_enhancement p b) (\<lambda>((picture_type, p), b).
     rbind (if picture_type = 0 then Inr PictureType_Frame else if picture_type = 1 then Inr PictureType_Field
            else Inl CheckFailed) (\<lambda>t.
     Inr (p\<lparr>pc_picture_type := t\<rparr>, b))))"

definition parse_additional_info :: "additional_info \<Rightarrow> unpacker \<Rightarrow> (additional_info \<times> unpacker) result" where
  "parse_additional_info a b =
     rbind (unpacker_u b 8) (\<lambda>(t, b).
     let a = a\<lparr>ai_additional_info_type := t\<rparr> in
     if t = 0 then rbind (unpacker_u b 8) (\<lambda>(v, b). Inr (a\<lparr>ai_payload_type := v\<rparr>, b))
     else rbind (check_that (t = 1)) (\<lambda>_. Inr (a, b)))"

text \<open>Filler bytes are checked up to the end of the block; a part of a byte at the end fails.\<close>

function parse_filler :: "unpacker \<Rightarrow> unpacker result" where
  "parse_filler b =
     (if up_empty b then Inr b
      else rbind (unpacker_u b 8) (\<lambda>(v, b1). rbind (check_that (v = 0xaa)) (\<lambda>_. parse_filler b1)))"
  by pat_completeness auto
termination
proof (relation "measure up_remaining_bits")
  fix b x v b1 y
  assume "\<not> up_empty b" "unpacker_u b 8 = Inr x" "(v, b1) = x"
  then have "unpacker_u b 8 = Inr (v, b1)" by simp
  from unpacker_u_view [OF this] ups.get_pos [OF this] show "(b1, b) \<in> measure up_remaining_bits"
    by (simp add: up_remaining_bits_def up_bit_size_def) linarith
qed simp

declare parse_filler.simps [simp del]

end
