(* ===== verification/EntropyDecoder.thy ===== *)
theory EntropyDecoder
  imports HuffmanDecoder Surface EntropyEncoder
begin

text \<open>
  decoder/src/EntropyDecoder.cpp: the abstract class \<open>SymbolSource\<close> with its three
  implementations, the run-length parsers written against it, and the decoders that fill a
  surface. The parsers take the virtual \<open>get\<close> as an argument. A run of bytes may have no end (a
  Huffman table with a single symbol consumes no bits), so the loops are partial: \<^const>\<open>None\<close> is
  a decoder that does not return.
\<close>

section \<open>Symbol sources\<close>

datatype symbol_source =
    Source_Constant u32
  | Source_Raw
  | Source_Huffman "huffman_decoder list"

text \<open>The state of a source: its own, and the unpacker it refers to.\<close>

type_synonym source_state = "symbol_source \<times> unpacker"

definition create_symbol_source :: "nat \<Rightarrow> bool \<Rightarrow> bool \<Rightarrow> unpacker \<Rightarrow> u32 \<Rightarrow> source_state" where
  "create_symbol_source num_states entropy_enabled rle_only b k =
     (if entropy_enabled then
        if rle_only then (Source_Raw, b) else (Source_Huffman (replicate num_states decoder_new), b)
      else (Source_Constant k, b))"

fun start_tables :: "huffman_decoder list \<Rightarrow> unpacker \<Rightarrow> (huffman_decoder list \<times> unpacker) result" where
  "start_tables [] b = Inr ([], b)"
| "start_tables (d # ds) b =
     rbind (read_codes d b) (\<lambda>(d, b).
     rbind (start_tables ds b) (\<lambda>(ds, b). Inr (d # ds, b)))"

fun source_start :: "source_state \<Rightarrow> source_state result" where
  "source_start (Source_Huffman ds, b) = rbind (start_tables ds b) (\<lambda>(ds, b). Inr (Source_Huffman ds, b))"
| "source_start (src, b) = Inr (src, b)"

fun source_get :: "nat \<Rightarrow> source_state \<Rightarrow> (u32 \<times> source_state) result" where
  "source_get state (Source_Constant k, b) = Inr (k, Source_Constant k, b)"
| "source_get state (Source_Raw, b) = rbind (unpacker_byte b) (\<lambda>(v, b). Inr (ucast v, Source_Raw, b))"
| "source_get state (Source_Huffman ds, b) =
     rbind (assert_that (state < length ds)) (\<lambda>_.
     rbind (decode_symbol (ds ! state) b) (\<lambda>(s, d, b).
     Inr (word_of_nat s, Source_Huffman (ds[state := d]), b)))"

fun source_get_byte :: "source_state \<Rightarrow> (u32 \<times> source_state) result" where
  "source_get_byte (Source_Constant k, b) = Inr (k, Source_Constant k, b)"
| "source_get_byte (Source_Raw, b) = rbind (unpacker_byte b) (\<lambda>(v, b). Inr (ucast v, Source_Raw, b))"
| "source_get_byte (Source_Huffman ds, b) = rbind (unpacker_u b 8) (\<lambda>(v, b). Inr (v, Source_Huffman ds, b))"

section \<open>The parsers\<close>

text \<open>\<open>do ... while (symbol & 0x80)\<close>: seven bits per symbol, the most significant first.\<close>

partial_function (option) get_run ::
  "(nat \<Rightarrow> 's \<Rightarrow> (u32 \<times> 's) result) \<Rightarrow> nat \<Rightarrow> u32 \<Rightarrow> 's \<Rightarrow> (u32 \<times> 's) run" where
  "get_run get state n s =
     (case get state s of
        Inl e \<Rightarrow> Some (Inl e)
      | Inr (symbol, s1) \<Rightarrow>
          if symbol AND 128 \<noteq> 0 then get_run get state (push_bit 7 n OR (symbol AND 127)) s1
          else Some (Inr (push_bit 7 n OR (symbol AND 127), s1)))"

text \<open>The arithmetic on symbols is unsigned; the conversion to \<open>int16_t\<close> comes last.\<close>

definition decode_pel :: "(nat \<Rightarrow> 's \<Rightarrow> (u32 \<times> 's) result) \<Rightarrow> 's \<Rightarrow> ((int \<times> u32) \<times> 's) run" where
  "decode_pel get s =
     run_bind (Some (get state_lsb s)) (\<lambda>(symbol, s).
     run_bind
       (if symbol AND 1 \<noteq> 0 then
          run_bind (Some (get state_msb s)) (\<lambda>(msb, s).
          Some (Inr (to_int16 (uint (drop_bit 1 ((push_bit 8 (msb AND 127)) OR (symbol AND 254)) - 8192)), msb, s)))
        else Some (Inr (to_int16 (uint (drop_bit 1 ((symbol AND 126) - 64))), symbol, s)))
       (\<lambda>(pel, symbol, s).
     if symbol AND 128 \<noteq> 0 then
       run_bind (get_run get state_zero 0 s) (\<lambda>(zeros, s). Some (Inr ((pel, zeros), s)))
     else Some (Inr ((pel, 0), s))))"

definition decode_run :: "(nat \<Rightarrow> 's \<Rightarrow> (u32 \<times> 's) result) \<Rightarrow> bool \<Rightarrow> 's \<Rightarrow> (u32 \<times> 's) run" where
  "decode_run get symbol s = get_run get (flag_state symbol) 0 s"

definition decode_size :: "(nat \<Rightarrow> 's \<Rightarrow> (u32 \<times> 's) result) \<Rightarrow> 's \<Rightarrow> (u16 \<times> 's) result" where
  "decode_size get s =
     rbind (get state_lsb s) (\<lambda>(l, s).
     if l AND 1 \<noteq> 0 then
       rbind (get state_msb s) (\<lambda>(m, s). Inr (ucast (drop_bit 1 l + push_bit 7 m), s))
     else Inr (ucast (drop_bit 1 l), s))"

text \<open>\<open>int16_t\<close> and \<open>uint8_t\<close> values are the words of their width; \<open>|\<close> works on their promotions.\<close>

definition decode_size_delta :: "(nat \<Rightarrow> 's \<Rightarrow> (u32 \<times> 's) result) \<Rightarrow> 's \<Rightarrow> (int \<times> 's) result" where
  "decode_size_delta get s =
     rbind (get state_lsb s) (\<lambda>(l, s).
     if l AND 1 \<noteq> 0 then
       rbind (get state_msb s) (\<lambda>(m, s).
       let r = to_int16 (uint (drop_bit 1 l + push_bit 7 m)) in
       Inr (to_int16 (r OR push_bit 1 (r AND 16384)), s))
     else
       let r = uint (ucast (drop_bit 1 l) :: u8) in
       Inr (to_int8 (r OR push_bit 1 (r AND 64)), s))"

section \<open>The decoders\<close>

text \<open>
  Every decoder visits the positions of its scan and writes one pixel at each, produced by a
  function of the position and of a state that moves along.
\<close>

definition scan_pixels ::
  "(nat \<times> nat \<Rightarrow> 'c \<Rightarrow> ('p \<times> 'c) run) \<Rightarrow> (nat \<times> nat) list \<Rightarrow> 'c \<times> 'p surface_builder \<Rightarrow>
     ('c \<times> 'p surface_builder) run" where
  "scan_pixels produce = fold_run (\<lambda>p (c, b).
     run_bind (produce p c) (\<lambda>(v, c).
     run_bind (Some (surface_write (fst p) (snd p) v b)) (\<lambda>b. Some (Inr (c, b)))))"

definition residual_pixel ::
  "(nat \<Rightarrow> 's \<Rightarrow> (u32 \<times> 's) result) \<Rightarrow> nat \<times> nat \<Rightarrow> u32 \<times> 's \<Rightarrow> (int \<times> u32 \<times> 's) run" where
  "residual_pixel get p = (\<lambda>(zeros, s).
     if zeros > 0 then Some (Inr (0, zeros - 1, s))
     else run_bind (decode_pel get s) (\<lambda>((pel, zeros), s). Some (Inr (pel, zeros, s))))"

text \<open>The decoders that take a pointer to the start of each row assert that the row has a pixel.\<close>

definition row_pointers :: "nat \<Rightarrow> nat \<Rightarrow> unit result" where
  "row_pointers width height = assert_that (0 < width \<or> height = 0)"

definition decode_residuals_scan ::
  "(nat \<times> nat) list \<Rightarrow> unit result \<Rightarrow> nat \<Rightarrow> nat \<Rightarrow> bool \<Rightarrow> bool \<Rightarrow> unpacker \<Rightarrow> (int surface \<times> unpacker) run" where
  "decode_residuals_scan ps rows width height entropy_enabled rle_only b =
     run_bind (Some (source_start (create_symbol_source 3 entropy_enabled rle_only b 64))) (\<lambda>s.
     run_bind (Some rows) (\<lambda>_.
     run_bind (scan_pixels (residual_pixel source_get) ps ((0, s), surface_reserve width height)) (\<lambda>((zeros, s), dest).
     run_bind (Some (surface_finish dest)) (\<lambda>surface. Some (Inr (surface, snd s))))))"

definition decode_residuals :: "nat \<Rightarrow> nat \<Rightarrow> bool \<Rightarrow> bool \<Rightarrow> unpacker \<Rightarrow> (int surface \<times> unpacker) run" where
  "decode_residuals width height = decode_residuals_scan (raster width height) (row_pointers width height) width height"

definition decode_residuals_tiled ::
  "nat \<Rightarrow> nat \<Rightarrow> bool \<Rightarrow> bool \<Rightarrow> unpacker \<Rightarrow> nat \<Rightarrow> (int surface \<times> unpacker) run" where
  "decode_residuals_tiled width height entropy_enabled rle_only b transform_block_size =
     (if transform_block_size = 0 \<or> 32 < transform_block_size then Some (Inl UndefinedBehaviour)
      else decode_residuals_scan (tiled (32 div transform_block_size) width height) (Inr ()) width height entropy_enabled rle_only b)"

text \<open>\<open>while (count == 0)\<close>: flip the symbol and read the next run.\<close>

partial_function (option) next_run ::
  "(nat \<Rightarrow> 's \<Rightarrow> (u32 \<times> 's) result) \<Rightarrow> bool \<Rightarrow> u32 \<Rightarrow> 's \<Rightarrow> ((bool \<times> u32) \<times> 's) run" where
  "next_run get symbol n s =
     (if n = 0 then
        case decode_run get (\<not> symbol) s of
          None \<Rightarrow> None
        | Some (Inl e) \<Rightarrow> Some (Inl e)
        | Some (Inr (n1, s1)) \<Rightarrow> next_run get (\<not> symbol) n1 s1
      else Some (Inr ((symbol, n), s)))"

record 's flag_parse =
  fp_symbol :: bool
  fp_count :: u32
  fp_source :: 's

text \<open>One flag leaves the run-length state.\<close>

definition flag_pop :: "(nat \<Rightarrow> 's \<Rightarrow> (u32 \<times> 's) result) \<Rightarrow> 's flag_parse \<Rightarrow> (bool \<times> 's flag_parse) run" where
  "flag_pop get s =
     run_bind (next_run get (fp_symbol s) (fp_count s) (fp_source s)) (\<lambda>((symbol, n), src).
     Some (Inr (symbol, \<lparr>fp_symbol = symbol, fp_count = n - 1, fp_source = src\<rparr>)))"

definition flag_start :: "source_state \<Rightarrow> source_state flag_parse run" where
  "flag_start s =
     run_bind (Some (source_start s)) (\<lambda>s.
     run_bind (Some (source_get_byte s)) (\<lambda>(v, s).
     run_bind (decode_run source_get (v \<noteq> 0) s) (\<lambda>(n, s).
     Some (Inr \<lparr>fp_symbol = (v \<noteq> 0), fp_count = n, fp_source = s\<rparr>))))"

definition temporal_pixel ::
  "(nat \<Rightarrow> 's \<Rightarrow> (u32 \<times> 's) result) \<Rightarrow> bool \<Rightarrow> nat \<times> nat \<Rightarrow> nat \<times> nat \<Rightarrow>
     bool \<times> 's flag_parse \<Rightarrow> (u8 \<times> bool \<times> 's flag_parse) run" where
  "temporal_pixel get reduced origin p = (\<lambda>(intra_tile, s).
     if reduced \<and> intra_tile then Some (Inr (temporal_intr, intra_tile, s))
     else
       run_bind (flag_pop get s) (\<lambda>(symbol, s).
       Some (Inr (if symbol then temporal_intr else temporal_pred,
                  if reduced \<and> symbol \<and> p = origin then True else intra_tile, s))))"

definition temporal_tile_pixels ::
  "(nat \<Rightarrow> 's \<Rightarrow> (u32 \<times> 's) result) \<Rightarrow> bool \<Rightarrow> nat \<Rightarrow> nat \<Rightarrow> nat \<Rightarrow> nat \<times> nat \<Rightarrow>
     's flag_parse \<times> u8 surface_builder \<Rightarrow> ('s flag_parse \<times> u8 surface_builder) run" where
  "temporal_tile_pixels get reduced d w h origin = (\<lambda>(s, dest).
     run_bind (scan_pixels (temporal_pixel get reduced origin) (tile_raster d w h (fst origin) (snd origin)) ((False, s), dest))
       (\<lambda>((intra_tile, s), dest). Some (Inr (s, dest))))"

definition decode_temporal ::
  "nat \<Rightarrow> nat \<Rightarrow> bool \<Rightarrow> bool \<Rightarrow> unpacker \<Rightarrow> nat \<Rightarrow> bool \<Rightarrow> (u8 surface \<times> unpacker) run" where
  "decode_temporal width height entropy_enabled rle_only b transform_block_size reduced =
     (if \<not> entropy_enabled then
        run_bind (Some (surface_fill temporal_pred width height)) (\<lambda>dest.
        run_bind (Some (surface_finish dest)) (\<lambda>surface. Some (Inr (surface, b))))
      else if transform_block_size = 0 \<or> 32 < transform_block_size then Some (Inl UndefinedBehaviour)
      else
        let d = 32 div transform_block_size in
        run_bind (flag_start (create_symbol_source 2 entropy_enabled rle_only b 0)) (\<lambda>s.
        run_bind (fold_run (temporal_tile_pixels source_get reduced d width height) (tile_origins d width height)
                    (s, surface_reserve width height)) (\<lambda>(s, dest).
        run_bind (Some (surface_finish dest)) (\<lambda>surface. Some (Inr (surface, snd (fp_source s)))))))"

definition flags_pixel ::
  "(nat \<Rightarrow> 's \<Rightarrow> (u32 \<times> 's) result) \<Rightarrow> nat \<times> nat \<Rightarrow> 's flag_parse \<Rightarrow> (u8 \<times> 's flag_parse) run" where
  "flags_pixel get p s = run_bind (flag_pop get s) (\<lambda>(symbol, s). Some (Inr (if symbol then 255 else 0, s)))"

definition decode_flags :: "nat \<Rightarrow> nat \<Rightarrow> unpacker \<Rightarrow> (u8 surface \<times> unpacker) run" where
  "decode_flags width height b =
     run_bind (flag_start (create_symbol_source 2 True True b 0)) (\<lambda>s.
     run_bind (Some (row_pointers width height)) (\<lambda>_.
     run_bind (scan_pixels (flags_pixel source_get) (raster width height) (s, surface_reserve width height)) (\<lambda>(s, dest).
     run_bind (Some (surface_finish dest)) (\<lambda>surface. Some (Inr (surface, snd (fp_source s)))))))"

definition sizes_pixel ::
  "(nat \<Rightarrow> 's \<Rightarrow> (u32 \<times> 's) result) \<Rightarrow> bool list \<Rightarrow> nat \<Rightarrow> bool \<Rightarrow> nat \<times> nat \<Rightarrow>
     u16 \<times> 's \<Rightarrow> (u16 \<times> u16 \<times> 's) run" where
  "sizes_pixel get entropy_enabled tile_idx prefix pos = (\<lambda>(p, s).
     run_bind (Some (vector_bool entropy_enabled (tile_idx + fst pos))) (\<lambda>enabled.
     if enabled then
       if prefix then run_bind (Some (decode_size get s)) (\<lambda>(v, s). Some (Inr (v, p, s)))
       else
         run_bind (Some (decode_size_delta get s)) (\<lambda>(diff, s).
         let p = p + word_of_int diff in Some (Inr (p, p, s)))
     else Some (Inr (0, p, s))))"

text \<open>With no compression type nothing is written; the reserved pixels stay as they are.\<close>

definition decode_sizes ::
  "nat \<Rightarrow> nat \<Rightarrow> unpacker \<Rightarrow> bool list \<Rightarrow> nat \<Rightarrow> compression_type \<Rightarrow> (u16 surface \<times> unpacker) run" where
  "decode_sizes width height b entropy_enabled tile_idx compression =
     run_bind (Some (source_start (create_symbol_source 2 True False b 0))) (\<lambda>s.
     run_bind
       (if compression = CompressionType_None then Some (Inr ((0, s), surface_reserve width height))
        else
          run_bind (Some (row_pointers width height)) (\<lambda>_.
          scan_pixels (sizes_pixel source_get entropy_enabled tile_idx (compression = CompressionType_Prefix))
            (raster width height) ((0, s), surface_reserve width height))) (\<lambda>((p, s), dest).
     run_bind (Some (surface_finish dest)) (\<lambda>surface. Some (Inr (surface, snd s)))))"

end
