(* ===== verification/DecodedData.thy ===== *)
theory DecodedData
  imports EncodedData Deserializer EntropyDecoder
begin

text \<open>
  decoder/src/Deserializer.cpp: the block of encoded data without tiles. The surfaces of the decoder
  are those of \<^typ>\<open>layer_surfaces\<close>; only the entries a block carries are replaced.
\<close>

text \<open>\<open>while (b.bit_offset() & 7) CHECK(b.u(1) == 0)\<close>.\<close>

function get_alignment :: "unpacker \<Rightarrow> unpacker result" where
  "get_alignment b =
     (if up_bit_offset b mod 8 \<noteq> 0 then
        rbind (unpacker_u b 1) (\<lambda>(v, b). rbind (check_that (v = 0)) (\<lambda>_. get_alignment b))
      else Inr b)"
  by pat_completeness auto
termination
proof (relation "measure (\<lambda>b. (8 - up_bit_offset b mod 8) mod 8)")
  fix b x v b' y assume *: "up_bit_offset b mod 8 \<noteq> 0" "unpacker_u b 1 = Inr x" "(v, b') = x"
  then have "unpacker_u b 1 = Inr (v, b')" by simp
  then have "up_bit_offset b' = Suc (up_bit_offset b)" using ups.get_pos [of b 1 v b'] by simp
  then show "(b', b) \<in> measure (\<lambda>b. (8 - up_bit_offset b mod 8) mod 8)"
    using *(1) mod_less_divisor [of 8 "up_bit_offset b"] by (simp add: mod_Suc) linarith
qed simp

declare get_alignment.simps [simp del]

definition decode_layer ::
  "signaled_configuration \<Rightarrow> nat \<Rightarrow> nat \<Rightarrow> nat \<Rightarrow> bool \<Rightarrow> bool \<Rightarrow> unpacker \<Rightarrow> (layer_surface \<times> unpacker) run" where
  "decode_layer sg layer width height entropy_enabled rle_only b =
     (if \<not> is_temporal_layer sg layer then
        run_bind
          (if use_tiled_encoding_order sg
           then decode_residuals_tiled width height entropy_enabled rle_only b (block_size sg)
           else decode_residuals width height entropy_enabled rle_only b)
          (\<lambda>(s, b). Some (Inr (Residual_Surface s, b)))
      else
        run_bind
          (decode_temporal width height entropy_enabled rle_only b (block_size sg)
            (gc_temporal_tile_intra_signalling_enabled (sg_global_configuration sg)))
          (\<lambda>(s, b). Some (Inr (Mask_Surface s, b))))"

definition surface_size :: "signaled_configuration \<Rightarrow> layer_position \<Rightarrow> surface_configuration" where
  "surface_size sg = (\<lambda>(plane, loq, layer). sg_surface_configuration sg plane loq layer)"

text \<open>The packet of a layer or tile, empty when it is not entropy coded, and a bitstream over it.\<close>

definition get_packet :: "nat \<Rightarrow> unpacker \<Rightarrow> (unpacker \<times> unpacker) result" where
  "get_packet data_size b =
     rbind (unpacker_bytes b data_size) (\<lambda>(data, b).
     rbind (unpacker_new data) (\<lambda>pb. Inr (pb, b)))"

definition get_sized_packet :: "bool \<Rightarrow> unpacker \<Rightarrow> (unpacker \<times> unpacker) result" where
  "get_sized_packet entropy_enabled b =
     (if entropy_enabled then
        rbind (read_multibyte b) (\<lambda>(data_size, b).
        rbind (check_that (unat data_size < 2147483647)) (\<lambda>_.
        get_packet (unat data_size) b))
      else rbind (unpacker_new packet_default) (\<lambda>pb. Inr (pb, b)))"

type_synonym layer_flags = "layer_position \<Rightarrow> bool \<times> bool"

definition parse_layer_flags :: "signaled_configuration \<Rightarrow> unpacker \<Rightarrow> (layer_flags \<times> unpacker) result" where
  "parse_layer_flags sg b =
     fold_result (\<lambda>pos (flags, b).
       if in_arrays pos then
         rbind (unpacker_u b 1) (\<lambda>(entropy_enabled, b).
         rbind (unpacker_u b 1) (\<lambda>(rle_only, b).
         Inr (flags(pos := (entropy_enabled \<noteq> 0, rle_only \<noteq> 0)), b)))
       else Inl OutOfRange) (coded_positions sg) (\<lambda>_. (False, False), b)"

definition parse_layer ::
  "signaled_configuration \<Rightarrow> layer_flags \<Rightarrow> layer_position \<Rightarrow> layer_surfaces \<times> unpacker \<Rightarrow> (layer_surfaces \<times> unpacker) run" where
  "parse_layer sg flags pos = (\<lambda>(symbols, b).
     if in_arrays pos then
       run_bind (Some (get_sized_packet (fst (flags pos)) b)) (\<lambda>(pb, b).
       run_bind (decode_layer sg (snd (snd pos)) (sc_width (surface_size sg pos)) (sc_height (surface_size sg pos))
                   (fst (flags pos)) (snd (flags pos)) pb) (\<lambda>(s, pb).
       Some (Inr (symbols(pos := s), b))))
     else Some (Inl OutOfRange))"

definition parse_encoded_data ::
  "signaled_configuration \<Rightarrow> layer_surfaces \<Rightarrow> unpacker \<Rightarrow> (layer_surfaces \<times> unpacker) run" where
  "parse_encoded_data sg symbols b =
     run_bind (Some (parse_layer_flags sg b)) (\<lambda>(flags, b).
     run_bind (Some (get_alignment b)) (\<lambda>b.
     if pc_enhancement_enabled (sg_picture_configuration sg) \<or> pc_temporal_signalling_present (sg_picture_configuration sg)
     then fold_run (parse_layer sg flags) (coded_positions sg) (symbols, b)
     else Some (Inr (symbols, b))))"

end
