(* ===== verification/DecodedDataTiled.thy ===== *)
theory DecodedDataTiled
  imports EncodedDataTiled DecodedData
begin

text \<open>
  decoder/src/Deserializer.cpp: the block of encoded data with tiles. The sizes of the layers and
  tiles come from the resolution in the global configuration.
\<close>

section \<open>Putting tiles together\<close>

text \<open>
  \<open>src[ty * tiles_x + tx].read(x % tile_width, y % tile_height)\<close>, after checks of \<open>tx\<close> and \<open>ty\<close>; a
  tile of the other pixel type is outside the model.
\<close>

definition read_tile :: "(layer_surface \<Rightarrow> 'p surface result) \<Rightarrow> tiling \<Rightarrow> layer_surface list \<Rightarrow> nat \<Rightarrow> nat \<Rightarrow> 'p result" where
  "read_tile view t tiles x y =
     rbind (udiv x (tl_tile_width t)) (\<lambda>tx.
     rbind (udiv y (tl_tile_height t)) (\<lambda>ty.
     rbind (check_that (tx < tl_tiles_x t)) (\<lambda>_.
     rbind (check_that (ty < tl_tiles_y t)) (\<lambda>_.
     rbind (vector_at tiles (wrap (ty * tl_tiles_x t + tx))) (\<lambda>tile.
     rbind (view tile) (\<lambda>src. surface_read src (x mod tl_tile_width t) (y mod tl_tile_height t)))))))"

text \<open>
  The caller passes layer and sub-layer in swapped places, and the test in this function swaps
  them again, so that it does ask about the layer.
\<close>

definition assemble_layer :: "signaled_configuration \<Rightarrow> nat \<Rightarrow> tiling \<Rightarrow> layer_surface list \<Rightarrow> layer_surface result" where
  "assemble_layer sg layer t tiles =
     (if is_temporal_layer sg layer then
        rbind (map_result mask_view tiles) (\<lambda>_.
        rbind (surface_build (tl_width t) (tl_height t) (read_tile mask_view t tiles)) (\<lambda>s. Inr (Mask_Surface s)))
      else
        rbind (map_result residual_view tiles) (\<lambda>_.
        rbind (surface_build (tl_width t) (tl_height t) (read_tile residual_view t tiles)) (\<lambda>s.
        Inr (Residual_Surface s))))"

section \<open>Sizes and flags\<close>

definition layer_tiling :: "dimensions \<Rightarrow> nat \<times> nat \<Rightarrow> tiling result" where
  "layer_tiling dims pl =
     tiling_of (dm_tile_width dims pl) (dm_tile_height dims pl) (dm_layer_width dims pl) (dm_layer_height dims pl)"

definition no_tiling :: tiling where
  "no_tiling = \<lparr>tl_tile_width = 0, tl_tile_height = 0, tl_width = 0, tl_height = 0, tl_tiles_x = 0, tl_tiles_y = 0\<rparr>"

definition fill_sizes :: "signaled_configuration \<Rightarrow> dimensions \<Rightarrow> ((nat \<times> nat \<Rightarrow> tiling) \<times> nat) result" where
  "fill_sizes sg dims =
     fold_result (\<lambda>(plane, loq) (sizes, total_tiles).
       if \<not> in_arrays (plane, loq, 0) then Inl OutOfRange else
       rbind (layer_tiling dims (plane, loq)) (\<lambda>t.
       Inr (sizes((plane, loq) := t),
            wrap (total_tiles + tl_num_tiles t * (total_layers sg loq - first_layer sg)))))
     (plane_loqs (num_planes sg)) (\<lambda>_. no_tiling, 0)"

definition parse_rle_only :: "signaled_configuration \<Rightarrow> unpacker \<Rightarrow> ((layer_position \<Rightarrow> bool) \<times> unpacker) result" where
  "parse_rle_only sg b =
     (if pc_enhancement_enabled (sg_picture_configuration sg) then
        fold_result (\<lambda>pos (rle_only, b).
          if in_arrays pos then rbind (unpacker_u b 1) (\<lambda>(v, b). Inr (rle_only(pos := (v \<noteq> 0)), b))
          else Inl OutOfRange) (coded_positions sg) (\<lambda>_. False, b)
      else Inr (\<lambda>_. False, b))"

definition parse_tile_flags ::
  "signaled_configuration \<Rightarrow> (nat \<times> nat \<Rightarrow> tiling) \<Rightarrow> nat \<Rightarrow> unpacker \<Rightarrow> (bool list \<times> unpacker) run" where
  "parse_tile_flags sg sizes total_tiles b =
     (let entropy_enabled = replicate total_tiles False in
      if \<not> pc_enhancement_enabled (sg_picture_configuration sg) then Some (Inr (entropy_enabled, b))
      else if \<not> gc_compression_type_entropy_enabled_per_tile (sg_global_configuration sg) then
        Some (rbind (fold_result (\<lambda>(plane, loq, layer) (idx, entropy_enabled, b).
            fold_result (\<lambda>tile (idx, entropy_enabled, b).
              rbind (unpacker_u b 1) (\<lambda>(v, b).
              if idx < length entropy_enabled then Inr (idx + 1, entropy_enabled[idx := (v \<noteq> 0)], b) else Inl OutOfRange))
              [0..<tl_num_tiles (sizes (plane, loq))] (idx, entropy_enabled, b))
          (coded_positions sg) (0, entropy_enabled, b)) (\<lambda>(idx, entropy_enabled, b). Inr (entropy_enabled, b)))
      else
        run_bind (decode_flags total_tiles 1 b) (\<lambda>(eeview, b).
        run_bind (Some (map_result (\<lambda>i. rbind (surface_read eeview i 0) (\<lambda>v. Inr (v \<noteq> 0))) [0..<total_tiles])) (\<lambda>entropy_enabled.
        Some (Inr (entropy_enabled, b)))))"

section \<open>Tiles\<close>

text \<open>The size of a tile's surface, from its rectangle.\<close>

definition tile_size :: "tiling \<Rightarrow> nat \<times> nat \<Rightarrow> nat \<times> nat" where
  "tile_size t pos =
     (let (tx0, ty0, tx1, ty1) = tile_rect t pos in (wrap (tx1 + 4294967296 - tx0), wrap (ty1 + 4294967296 - ty0)))"

text \<open>The tiles of one layer; \<open>get\<close> finds the packet of a coded tile.\<close>

definition parse_tiles ::
  "signaled_configuration \<Rightarrow> nat \<Rightarrow> tiling \<Rightarrow> bool list \<Rightarrow> bool \<Rightarrow>
     (bool \<Rightarrow> nat \<times> nat \<Rightarrow> unpacker \<Rightarrow> (unpacker \<times> unpacker) result) \<Rightarrow>
     nat \<Rightarrow> unpacker \<Rightarrow> (layer_surface list \<times> nat \<times> unpacker) run" where
  "parse_tiles sg layer t entropy_enabled rle_only get idx b =
     fold_run (\<lambda>pos (tiles, idx, b).
       run_bind (Some (vector_bool entropy_enabled idx)) (\<lambda>enabled.
       run_bind (Some (get enabled pos b)) (\<lambda>(pb, b).
       run_bind (decode_layer sg layer (fst (tile_size t pos)) (snd (tile_size t pos)) enabled rle_only pb) (\<lambda>(s, pb).
       Some (Inr (tiles @ [s], idx + 1, b)))))) (tile_list t) ([], idx, b)"

definition parse_layer_tiles ::
  "signaled_configuration \<Rightarrow> (nat \<times> nat \<Rightarrow> tiling) \<Rightarrow> bool list \<Rightarrow> (layer_position \<Rightarrow> bool) \<Rightarrow>
     (bool \<Rightarrow> nat \<times> nat \<Rightarrow> unpacker \<Rightarrow> (unpacker \<times> unpacker) result) \<Rightarrow>
     layer_position \<Rightarrow> layer_surfaces \<times> nat \<times> unpacker \<Rightarrow> (layer_surfaces \<times> nat \<times> unpacker) run" where
  "parse_layer_tiles sg sizes entropy_enabled rle_only get pos = (\<lambda>(symbols, idx, b).
     if \<not> in_arrays pos then Some (Inl OutOfRange) else
     let t = sizes (fst pos, fst (snd pos)) in
     run_bind (parse_tiles sg (snd (snd pos)) t entropy_enabled (rle_only pos) get idx b) (\<lambda>(tiles, idx, b).
     run_bind (Some (assemble_layer sg (snd (snd pos)) t tiles)) (\<lambda>s.
     Some (Inr (symbols(pos := s), idx, b)))))"

text \<open>The packet of a tile when the sizes of the layer's tiles have been read into a surface before.\<close>

definition get_tile_packet :: "tiling \<Rightarrow> u16 surface \<Rightarrow> bool \<Rightarrow> nat \<times> nat \<Rightarrow> unpacker \<Rightarrow> (unpacker \<times> unpacker) result" where
  "get_tile_packet t data_sizes enabled pos b =
     (if enabled then
        rbind (surface_read data_sizes (wrap (snd pos * tl_tiles_x t + fst pos)) 0) (\<lambda>data_size.
        rbind (check_that (unat data_size < 2147483647 \<and> 0 < unat data_size)) (\<lambda>_.
        get_packet (unat data_size) b))
      else rbind (unpacker_new packet_default) (\<lambda>pb. Inr (pb, b)))"

definition parse_sizes ::
  "signaled_configuration \<Rightarrow> tiling \<Rightarrow> bool list \<Rightarrow> nat \<Rightarrow> unpacker \<Rightarrow> (u16 surface \<times> unpacker) run" where
  "parse_sizes sg t entropy_enabled idx b =
     run_bind (Some (any_enabled entropy_enabled idx (tl_num_tiles t))) (\<lambda>any_tile_enabled.
     run_bind
       (if any_tile_enabled then
          decode_sizes (tl_num_tiles t) 1 b entropy_enabled idx
            (gc_compression_type_size_per_tile (sg_global_configuration sg))
        else
          run_bind (Some (rbind (surface_fill 0 (tl_num_tiles t) 1) surface_finish)) (\<lambda>sz. Some (Inr (sz, b)))) (\<lambda>(sz, b).
     run_bind (Some (get_alignment b)) (\<lambda>b. Some (Inr (sz, b)))))"

definition parse_sized_layer ::
  "signaled_configuration \<Rightarrow> (nat \<times> nat \<Rightarrow> tiling) \<Rightarrow> bool list \<Rightarrow> (layer_position \<Rightarrow> bool) \<Rightarrow>
     layer_position \<Rightarrow> layer_surfaces \<times> nat \<times> unpacker \<Rightarrow> (layer_surfaces \<times> nat \<times> unpacker) run" where
  "parse_sized_layer sg sizes entropy_enabled rle_only pos = (\<lambda>(symbols, idx, b).
     let t = sizes (fst pos, fst (snd pos)) in
     run_bind (parse_sizes sg t entropy_enabled idx b) (\<lambda>(data_sizes, b).
     parse_layer_tiles sg sizes entropy_enabled rle_only (get_tile_packet t data_sizes) pos (symbols, idx, b)))"

definition parse_encoded_data_tiled ::
  "dimensions \<Rightarrow> signaled_configuration \<Rightarrow> layer_surfaces \<Rightarrow> unpacker \<Rightarrow> (layer_surfaces \<times> unpacker) run" where
  "parse_encoded_data_tiled old sg symbols b =
     (let g = sg_global_configuration sg in
      run_bind (Some (check_that (gc_tile_dimensions_type g \<noteq> TileDimensions_None))) (\<lambda>_.
      run_bind (dimensions_set g (unat (gc_resolution_width g)) (unat (gc_resolution_height g)) old) (\<lambda>dims.
      run_bind (Some (fill_sizes sg dims)) (\<lambda>(sizes, total_tiles).
      run_bind (Some (parse_rle_only sg b)) (\<lambda>(rle_only, b).
      run_bind (Some (get_alignment b)) (\<lambda>b.
      run_bind (parse_tile_flags sg sizes total_tiles b) (\<lambda>(entropy_enabled, b).
      run_bind (Some (get_alignment b)) (\<lambda>b.
      run_bind
        (if gc_compression_type_size_per_tile g = CompressionType_None
         then fold_run (parse_layer_tiles sg sizes entropy_enabled rle_only (\<lambda>enabled pos. get_sized_packet enabled))
                (coded_positions sg) (symbols, 0, b)
         else fold_run (parse_sized_layer sg sizes entropy_enabled rle_only) (coded_positions sg) (symbols, 0, b))
        (\<lambda>(symbols, idx, b). Some (Inr (symbols, b)))))))))))"

end
