(* ===== verification/DeserializerBlocks.thy ===== *)
theory DeserializerBlocks
  imports SerializerBlocks DecodedDataTiled
begin

text \<open>
  decoder/src/Deserializer.cpp, the frame of a block and the dispatch on its type, and the loop
  over the blocks of a packet in decoder/src/Decoder.cpp. A deserializer holds the bitstream and
  references to the configuration and the surfaces of the decoder, which it updates.
\<close>

record deserializer =
  ds_b :: unpacker
  ds_configuration :: signaled_configuration
  ds_symbols :: layer_surfaces

definition deserializer_new :: "packet \<Rightarrow> signaled_configuration \<Rightarrow> layer_surfaces \<Rightarrow> deserializer result" where
  "deserializer_new packet sg symbols =
     rbind (unpacker_new packet) (\<lambda>b. Inr \<lparr>ds_b = b, ds_configuration = sg, ds_symbols = symbols\<rparr>)"

definition has_more :: "deserializer \<Rightarrow> bool" where
  "has_more ds \<longleftrightarrow> \<not> up_empty (ds_b ds)"

definition payload_byte_size_of :: "u32 \<Rightarrow> unpacker \<Rightarrow> (u32 \<times> unpacker) result" where
  "payload_byte_size_of payload_size_type b =
     (if payload_size_type \<le> 5 then Inr (payload_size_type, b)
      else if payload_size_type = 7 then rbind (read_multibyte b) (\<lambda>(v, b). Inr (ucast v, b))
      else Inl CheckFailed)"

text \<open>The payload of a block, parsed from a bitstream of its own, of which the rest is dropped.\<close>

definition parse_payload ::
  "dimensions \<Rightarrow> u32 \<Rightarrow> unpacker \<Rightarrow> signaled_configuration \<Rightarrow> layer_surfaces \<Rightarrow>
     (syntax_block \<times> signaled_configuration \<times> layer_surfaces) run" where
  "parse_payload old payload_type pb sg symbols =
     (let g = sg_global_configuration sg in
      if payload_type = 0 then
        Some (rbind (parse_sequence_config (sg_sequence_configuration sg) pb) (\<lambda>(c, pb).
          Inr (SyntaxBlock_Sequence, sg\<lparr>sg_sequence_configuration := c\<rparr>, symbols)))
      else if payload_type = 1 then
        Some (rbind (parse_global_config g pb) (\<lambda>(c, pb).
          Inr (SyntaxBlock_Global, sg\<lparr>sg_global_configuration := c\<rparr>, symbols)))
      else if payload_type = 2 then
        Some (rbind (parse_picture_config (gc_num_residual_layers g) (gc_temporal_enabled g \<noteq> 0)
                       (sg_picture_configuration sg) pb) (\<lambda>(c, pb).
          Inr (SyntaxBlock_Picture, sg\<lparr>sg_picture_configuration := c\<rparr>, symbols)))
      else if payload_type = 3 then
        run_bind (parse_encoded_data sg symbols pb) (\<lambda>(symbols, pb). Some (Inr (SyntaxBlock_EncodedData, sg, symbols)))
      else if payload_type = 4 then
        run_bind (parse_encoded_data_tiled old sg symbols pb) (\<lambda>(symbols, pb).
          Some (Inr (SyntaxBlock_EncodedData_Tiled, sg, symbols)))
      else if payload_type = 5 then
        Some (rbind (parse_additional_info (sg_additional_info sg) pb) (\<lambda>(c, pb).
          Inr (SyntaxBlock_Additional_Info, sg\<lparr>sg_additional_info := c\<rparr>, symbols)))
      else if payload_type = 6 then
        Some (rbind (parse_filler pb) (\<lambda>pb. Inr (SyntaxBlock_Filler, sg, symbols)))
      else Some (Inl CheckFailed))"

definition parse_block :: "dimensions \<Rightarrow> deserializer \<Rightarrow> (syntax_block \<times> deserializer) run" where
  "parse_block old ds =
     run_bind (Some (unpacker_u (ds_b ds) 3)) (\<lambda>(payload_size_type, b).
     run_bind (Some (unpacker_u b 5)) (\<lambda>(payload_type, b).
     run_bind (Some (payload_byte_size_of payload_size_type b)) (\<lambda>(payload_byte_size, b).
     run_bind (Some (get_packet (unat payload_byte_size) b)) (\<lambda>(payload_bitstream, b).
     run_bind (parse_payload old payload_type payload_bitstream (ds_configuration ds) (ds_symbols ds)) (\<lambda>(block, sg, symbols).
     Some (Inr (block, \<lparr>ds_b = b, ds_configuration = sg, ds_symbols = symbols\<rparr>)))))))"

section \<open>The blocks of a packet\<close>

text \<open>
  The part of the decoder's state that the blocks change. A temporal buffer that is not there is
  \<^const>\<open>None\<close>; a new one has the size of the plane and pixels that are not initialised.
\<close>

record decoder =
  dc_configuration :: signaled_configuration
  dc_dimensions :: dimensions
  dc_temporal_buffer :: "nat \<Rightarrow> int surface_builder option"
  dc_quant_matrix_coeffs :: "layer_position \<Rightarrow> int"

definition set_surface_size :: "nat \<Rightarrow> nat \<Rightarrow> layer_position \<Rightarrow> signaled_configuration \<Rightarrow> signaled_configuration result" where
  "set_surface_size w h = (\<lambda>(plane, loq, layer) sg.
     if in_arrays (plane, loq, layer) then
       Inr (sg\<lparr>sg_surface_configuration := (\<lambda>p l y. if (p, l, y) = (plane, loq, layer)
         then \<lparr>sc_width = w, sc_height = h\<rparr> else sg_surface_configuration sg p l y)\<rparr>)
     else Inl OutOfRange)"

definition renew_buffer :: "dimensions \<Rightarrow> nat \<Rightarrow> int surface_builder option \<Rightarrow> int surface_builder option" where
  "renew_buffer d plane buffer =
     (let w = dm_plane_width d (plane, LOQ_LEVEL_2); h = dm_plane_height d (plane, LOQ_LEVEL_2) in
      case buffer of
        None \<Rightarrow> Some (surface_reserve w h)
      | Some s \<Rightarrow> if w \<noteq> sb_width s \<or> h \<noteq> sb_height s then Some (surface_reserve w h) else Some s)"

definition resize_surfaces :: "decoder \<Rightarrow> decoder run" where
  "resize_surfaces dc =
     (let g = sg_global_configuration (dc_configuration dc); n = unat (gc_num_residual_layers g) in
      run_bind (dimensions_set g (unat (gc_resolution_width g)) (unat (gc_resolution_height g)) (dc_dimensions dc)) (\<lambda>d.
      let size = (\<lambda>(plane, loq, layer). set_surface_size (dm_layer_width d (plane, loq)) (dm_layer_height d (plane, loq)) (plane, loq, layer)) in
      Some (rbind (fold_result (\<lambda>plane (sg, buffers).
          rbind (fold_result size [(plane, loq, layer). loq \<leftarrow> [0..<MAX_NUM_LOQS], layer \<leftarrow> [0..<n]] sg) (\<lambda>sg.
          if gc_temporal_enabled g \<noteq> 0 \<and> plane < unat (gc_num_processed_planes g) then
            rbind (size (plane, LOQ_LEVEL_2, n) sg) (\<lambda>sg. Inr (sg, buffers(plane := renew_buffer d plane (buffers plane))))
          else Inr (sg, buffers)))
          [0..<unat (gc_num_image_planes g)] (dc_configuration dc, dc_temporal_buffer dc)) (\<lambda>(sg, buffers).
        Inr (dc\<lparr>dc_configuration := sg, dc_dimensions := d, dc_temporal_buffer := buffers\<rparr>)))))"

text \<open>
  The loop \<open>while (deserializer.has_more())\<close>. The deserializer works on the configuration of the
  decoder, so both are one: the record of the decoder holds it between blocks.
\<close>

partial_function (option) decode_blocks :: "dimensions \<Rightarrow> decoder \<Rightarrow> deserializer \<Rightarrow> (decoder \<times> layer_surfaces) run" where
  "decode_blocks old dc ds =
     (if has_more ds then
        (case parse_block old ds of
           None \<Rightarrow> None
         | Some (Inl e) \<Rightarrow> Some (Inl e)
         | Some (Inr (block, ds)) \<Rightarrow>
             (case (if block = SyntaxBlock_Global then resize_surfaces (dc\<lparr>dc_configuration := ds_configuration ds\<rparr>)
                    else Some (Inr (dc\<lparr>dc_configuration := ds_configuration ds\<rparr>))) of
                None \<Rightarrow> None
              | Some (Inl e) \<Rightarrow> Some (Inl e)
              | Some (Inr dc) \<Rightarrow> decode_blocks old dc (ds\<lparr>ds_configuration := dc_configuration dc\<rparr>)))
      else Some (Inr (dc, ds_symbols ds)))"

definition initialize_decode :: "dimensions \<Rightarrow> packet \<Rightarrow> layer_surfaces \<Rightarrow> decoder \<Rightarrow> (decoder \<times> layer_surfaces) run" where
  "initialize_decode old enhancement_data symbols dc =
     run_bind (Some (deserializer_new enhancement_data (dc_configuration dc) symbols)) (\<lambda>ds.
     decode_blocks old (dc\<lparr>dc_quant_matrix_coeffs := (\<lambda>_. -1)\<rparr>) ds)"

end
