(* ===== verification/EntropyCoding.thy ===== *)
theory EntropyCoding
  imports EntropyDecoder
begin

text \<open>
  The entropy coders of the two sides put together: what the encoders of EntropyEncoder write is
  what the decoders of EntropyDecoder read. The interface between a parser and its source is the
  locale \<open>symbol_stream\<close>, provided by raw bytes and by prefix coded data alike.
\<close>

section \<open>Symbols as unsigned integers\<close>

lemma ucast_byte: "v < max_symbol \<Longrightarrow> (ucast (word_of_nat v :: u8) :: u32) = word_of_nat v"
  by (rule word_unat_eq_iff [THEN iffD2]) (simp add: unsigned_of_nat unsigned_ucast_eq take_bit_nat_eq_self)

lemma word_and: "(word_of_nat m :: u32) AND word_of_nat n = word_of_nat (m AND n)"
  by (simp add: of_nat_and_eq)

lemma sym_and:
  "(word_of_nat v :: u32) AND 127 = word_of_nat (v mod 128)"
  "(word_of_nat v :: u32) AND 126 = word_of_nat (2 * (v div 2 mod 64))"
  "(word_of_nat v :: u32) AND 254 = word_of_nat (2 * (v div 2 mod 128))"
  using word_and [of v 127] word_and [of v 126] word_and [of v 254]
  by (simp_all only: of_nat_numeral and_127 and_126 and_254)

lemma sym_zero: "v < 2 ^ 32 \<Longrightarrow> (word_of_nat v :: u32) = 0 \<longleftrightarrow> v = 0"
  by (auto simp: word_of_nat_eq_0_iff dest: nat_dvd_not_less)

lemma sym_low_bit: "(word_of_nat v :: u32) AND 1 \<noteq> 0 \<longleftrightarrow> odd v"
proof -
  have "(word_of_nat v :: u32) AND 1 = word_of_nat (v mod 2)"
    using word_and [of v 1] by (simp add: and_one_eq)
  then show ?thesis using sym_zero [of "v mod 2"] by (auto simp: odd_iff_mod_2_eq_one)
qed

lemma sym_high_bit: "v < max_symbol \<Longrightarrow> (word_of_nat v :: u32) AND 128 \<noteq> 0 \<longleftrightarrow> 128 \<le> v"
proof -
  assume v: "v < max_symbol"
  have "(word_of_nat v :: u32) AND 128 = word_of_nat (128 * (v div 128 mod 2))"
    using word_and [of v 128] by (simp only: of_nat_numeral and_128)
  moreover have "v div 128 = (if 128 \<le> v then 1 else 0)" using v by auto
  ultimately show ?thesis using sym_zero [of "128 * (v div 128 mod 2)"] by auto
qed

lemma sym_half: "n < 2 ^ 32 \<Longrightarrow> drop_bit 1 (word_of_nat n :: u32) = word_of_nat (n div 2)"
proof -
  assume n: "n < 2 ^ 32"
  have "unat (drop_bit 1 (word_of_nat n :: u32)) = n div 2"
    using n unat_div_distrib [of "word_of_nat n :: u32" 2]
    by (simp add: drop_bit_eq_div unsigned_of_nat take_bit_nat_eq_self)
  moreover have "unat (word_of_nat (n div 2) :: u32) = n div 2"
    using n by (simp add: unsigned_of_nat take_bit_nat_eq_self)
  ultimately show ?thesis by (simp only: word_unat_eq_iff)
qed

lemma or_word_nat: "m AND n = 0 \<Longrightarrow> (word_of_nat m :: u32) OR word_of_nat n = word_of_nat (m + n)"
  by (simp add: of_nat_or_eq [symmetric] disjunctive_add_eq_or)

lemma shift_or: "(push_bit 7 (word_of_nat m :: u32)) OR word_of_nat (n mod 128) = word_of_nat (m * 128 + n mod 128)"
proof -
  have "(m * 128) AND (n mod 128) = 0"
    by (simp add: bit_eq_iff bit_and_iff bit_push_bit_iff bit_take_bit_iff
        flip: push_bit_eq_mult [of 7 m, simplified] take_bit_eq_mod [of 7 n, simplified])
  moreover have "push_bit 7 (word_of_nat m :: u32) = word_of_nat (m * 128)"
    by (simp add: push_bit_eq_mult)
  ultimately show ?thesis by (simp only: or_word_nat)
qed

text \<open>\<open>((symbol & 0x7e) - 0x40) >> 1\<close> and its two-byte variant, with their unsigned wrap-around.\<close>

lemma pel_byte:
  assumes "j < 64" and "zb = 0 \<or> zb = 128"
  shows "to_int16 (uint (drop_bit 1 (((word_of_nat (2 * j + zb) :: u32) AND 126) - 64))) = int j - 32"
proof -
  have half: "uint (drop_bit 1 w) = uint w div 2" for w :: u32
    by (simp add: drop_bit_eq_div uint_div_distrib)
  have "(2 * j + zb) div 2 mod 64 = j" using assms by auto
  then have "(word_of_nat (2 * j + zb) :: u32) AND 126 = word_of_nat (2 * j)" by (simp only: sym_and(2))
  then have "((word_of_nat (2 * j + zb) :: u32) AND 126) - 64 = word_of_int (2 * int j - 64)" by simp
  moreover have "uint (drop_bit 1 (word_of_int (2 * int j - 64) :: u32)) = (2 * int j - 64) mod 4294967296 div 2"
    using half [of "word_of_int (2 * int j - 64)"] by (simp only: uint_word_of_int take_bit_eq_mod) simp
  ultimately have u: "uint (drop_bit 1 (((word_of_nat (2 * j + zb) :: u32) AND 126) - 64)) =
      (2 * int j - 64) mod 4294967296 div 2" by simp
  have "(2 * int j - 64) mod 4294967296 div 2 = (int j - 32) mod 2147483648"
  proof -
    have "(2 * int j - 64) mod 4294967296 = 2 * ((int j - 32) mod 2147483648)"
      using mult_mod_right [of 2 "int j - 32" 2147483648] by (simp add: algebra_simps)
    then show ?thesis by simp
  qed
  moreover have "to_int16 ((int j - 32) mod 2147483648) = to_int16 (int j - 32)"
    by (rule to_int16_cong) (simp add: mod_mod_cancel)
  moreover have "to_int16 (int j - 32) = int j - 32" using assms by (intro to_int16_id) (simp add: is_int16_def)
  ultimately show ?thesis using u by simp
qed

lemma pel_two_bytes:
  assumes "c < 16384" and "zb = 0 \<or> zb = 128"
  shows "to_int16 (uint (drop_bit 1 ((push_bit 8 ((word_of_nat (c div 128 + zb) :: u32) AND 127)) OR
           ((word_of_nat (2 * (c mod 128) + 1)) AND 254)) - 8192)) = int c - 8192"
proof -
  have hi: "c div 128 < 128" using assms(1) by (intro less_mult_imp_div_less) simp
  have a: "(word_of_nat (c div 128 + zb) :: u32) AND 127 = word_of_nat (c div 128)"
    unfolding sym_and(1) using assms(2) hi by auto
  have b: "(word_of_nat (2 * (c mod 128) + 1) :: u32) AND 254 = word_of_nat (2 * (c mod 128))"
    unfolding sym_and(3) by simp
  have "(push_bit 8 (word_of_nat (c div 128) :: u32)) OR word_of_nat (2 * (c mod 128)) = word_of_nat (2 * c)"
  proof -
    have "(c div 128 * 256) AND (2 * (c mod 128)) = 0"
    proof (rule bit_eqI)
      fix n
      have "\<not> (bit (push_bit 8 (c div 128)) n \<and> bit (take_bit 8 (2 * (c mod 128))) n)"
        by (auto simp: bit_push_bit_iff bit_take_bit_iff)
      moreover have "take_bit 8 (2 * (c mod 128)) = 2 * (c mod 128)"
        using mod_less_divisor [of 128 c] by (intro take_bit_nat_eq_self) simp
      ultimately show "bit ((c div 128 * 256) AND (2 * (c mod 128))) n \<longleftrightarrow> bit (0 :: nat) n"
        by (simp add: bit_and_iff push_bit_eq_mult)
    qed
    moreover have "push_bit 8 (word_of_nat (c div 128) :: u32) = word_of_nat (c div 128 * 256)"
      by (simp add: push_bit_eq_mult)
    moreover have "c div 128 * 256 + 2 * (c mod 128) = 2 * c"
      using div_mult_mod_eq [of c 128] by linarith
    ultimately show ?thesis by (simp only: or_word_nat)
  qed
  moreover have "drop_bit 1 (word_of_nat (2 * c) :: u32) = word_of_nat c"
    using assms(1) sym_half [of "2 * c"] by simp
  moreover have "uint ((word_of_nat c :: u32) - 8192) = (int c - 8192) mod 4294967296"
  proof -
    have "(word_of_nat c :: u32) - 8192 = word_of_int (int c - 8192)" by simp
    then show ?thesis by (simp only: uint_word_of_int take_bit_eq_mod) simp
  qed
  moreover have "to_int16 ((int c - 8192) mod 4294967296) = to_int16 (int c - 8192)"
    by (rule to_int16_cong) (simp add: mod_mod_cancel)
  moreover have "to_int16 (int c - 8192) = int c - 8192"
    using assms(1) by (intro to_int16_id) (simp add: is_int16_def)
  ultimately show ?thesis unfolding a b by (simp only:)
qed

abbreviation temporal_mark :: "bool \<Rightarrow> u8" where
  "temporal_mark v \<equiv> (if v then temporal_intr else temporal_pred)"

section \<open>A stream of symbols\<close>

text \<open>
  What a parser relies on: a source that carries a list of (state, symbol) pairs hands out the
  first when asked for a symbol in its state, and then carries the rest.
\<close>

locale symbol_stream =
  fixes get :: "nat \<Rightarrow> 's \<Rightarrow> (u32 \<times> 's) result"
    and carries :: "(nat \<times> u8) list \<Rightarrow> 's \<Rightarrow> bool"
  assumes get_next: "carries ((st, sy) # xs) s \<Longrightarrow> \<exists>s'. get st s = Inr (ucast sy, s') \<and> carries xs s'"
begin

abbreviation carries_nat :: "(nat \<times> nat) list \<Rightarrow> (nat \<times> u8) list \<Rightarrow> 's \<Rightarrow> bool" where
  "carries_nat ps xs \<equiv> carries (map (\<lambda>(st, sy). (st, word_of_nat sy)) ps @ xs)"

lemma get_sym:
  assumes "carries_nat ((st, sy) # ps) xs s" and "sy < max_symbol"
  obtains s' where "get st s = Inr (word_of_nat sy, s')" and "carries_nat ps xs s'"
  using assms get_next ucast_byte [OF assms(2)] by fastforce

lemma get_run_step:
  assumes "get st s = Inr (word_of_nat v, s')" and "v < max_symbol"
  shows "get_run get st (word_of_nat m) s =
    (if 128 \<le> v then get_run get st (word_of_nat (m * 128 + v mod 128)) s'
     else Some (Inr (word_of_nat (m * 128 + v mod 128), s')))"
proof -
  have "(push_bit 7 (word_of_nat m :: u32)) OR (word_of_nat v AND 127) = word_of_nat (m * 128 + v mod 128)"
    unfolding sym_and(1) by (rule shift_or)
  then show ?thesis
    using sym_high_bit [OF assms(2)] assms(1) by (subst get_run.simps) (simp only: sum.case prod.case split: if_split)
qed

lemma get_run_high:
  assumes "carries_nat (map (Pair st) (high_symbols c) @ ps) xs s"
  obtains s' where "get_run get st 0 s = get_run get st (word_of_nat c) s'" and "carries_nat ps xs s'"
  using assms
proof (induction c arbitrary: ps s thesis rule: high_symbols.induct)
  case (1 c)
  have last: "(c AND 127) OR 128 = c mod 128 + 128" by (simp add: and_127 or_128)
  let ?ps = "(st, c mod 128 + 128) # ps"
  have "\<exists>s1. get_run get st 0 s = get_run get st (word_of_nat (c div 128)) s1 \<and> carries_nat ?ps xs s1"
  proof (cases "127 < c")
    case True
    with "1.prems"(2) have "carries_nat (map (Pair st) (high_symbols (drop_bit 7 c)) @ ?ps) xs s"
      by (subst (asm) high_symbols.simps) (simp add: last)
    from "1.IH" [OF True _ this] obtain s1 where
      "get_run get st 0 s = get_run get st (word_of_nat (drop_bit 7 c)) s1" "carries_nat ?ps xs s1" by blast
    then show ?thesis by (auto simp: drop_bit_eq_div)
  next
    case False
    with "1.prems"(2) have "carries_nat ?ps xs s"
      by (subst (asm) high_symbols.simps) (simp add: last)
    with False show ?thesis by auto
  qed
  then obtain s1 where s1: "get_run get st 0 s = get_run get st (word_of_nat (c div 128)) s1" "carries_nat ?ps xs s1"
    by blast
  have lt: "c mod 128 + 128 < max_symbol" using mod_less_divisor [of 128 c] by simp
  from get_sym [OF s1(2) lt] obtain s2 where s2: "get st s1 = Inr (word_of_nat (c mod 128 + 128), s2)" "carries_nat ps xs s2"
    by blast
  have "get_run get st (word_of_nat (c div 128)) s1 = get_run get st (word_of_nat c) s2"
    using get_run_step [OF s2(1) lt, of "c div 128"] by simp
  with s1 s2 "1.prems"(1) show ?case by metis
qed

lemma get_run_count:
  assumes "carries_nat (map (Pair st) (count_symbols n) @ ps) xs s"
  obtains s' where "get_run get st 0 s = Some (Inr (word_of_nat n, s'))" and "carries_nat ps xs s'"
proof -
  let ?ps = "(st, n mod 128) # ps"
  have "\<exists>s1. get_run get st 0 s = get_run get st (word_of_nat (n div 128)) s1 \<and> carries_nat ?ps xs s1"
  proof (cases "127 < n")
    case True
    with assms have "carries_nat (map (Pair st) (high_symbols (n div 128)) @ ?ps) xs s"
      by (simp add: count_symbols_def and_127 drop_bit_eq_div)
    from get_run_high [OF this] show ?thesis by blast
  next
    case False
    with assms have "carries_nat ?ps xs s" by (simp add: count_symbols_def and_127)
    with False show ?thesis by auto
  qed
  then obtain s1 where s1: "get_run get st 0 s = get_run get st (word_of_nat (n div 128)) s1" "carries_nat ?ps xs s1"
    by blast
  have lt: "n mod 128 < 128" by simp
  then have lt': "n mod 128 < max_symbol" by simp
  from get_sym [OF s1(2) lt'] obtain s2 where s2: "get st s1 = Inr (word_of_nat (n mod 128), s2)" "carries_nat ps xs s2"
    by blast
  have "get_run get st (word_of_nat (n div 128)) s1 = Some (Inr (word_of_nat n, s2))"
    using get_run_step [OF s2(1) lt', of "n div 128"] lt by simp
  with s1 s2 that show thesis by metis
qed

end

section \<open>Pixels written along a scan\<close>

text \<open>The values a producer hands out at the positions of a scan.\<close>

fun produced ::
  "(nat \<times> nat \<Rightarrow> 'c \<Rightarrow> ('p \<times> 'c) run) \<Rightarrow> (nat \<times> nat) list \<Rightarrow> 'c \<Rightarrow> 'p list \<Rightarrow> 'c \<Rightarrow> bool" where
  "produced f [] c vs c' \<longleftrightarrow> vs = [] \<and> c' = c"
| "produced f (p # ps) c vs c' \<longleftrightarrow>
     (\<exists>v ws c1. vs = v # ws \<and> f p c = Some (Inr (v, c1)) \<and> produced f ps c1 ws c')"

lemma produced_length: "produced f ps c vs c' \<Longrightarrow> length vs = length ps"
  by (induction ps arbitrary: c vs) auto

lemma produced_append:
  "produced f ps c vs c1 \<Longrightarrow> produced f qs c1 ws c' \<Longrightarrow> produced f (ps @ qs) c (vs @ ws) c'"
  by (induction ps arbitrary: c vs) auto

lemma scan_pixels_place:
  assumes "produced f ps c vs c'" and "place ps vs b = Inr b'"
  shows "scan_pixels f ps (c, b) = Some (Inr (c', b'))"
  using assms
proof (induction ps arbitrary: c vs b)
  case Nil
  then show ?case by (simp add: scan_pixels_def)
next
  case (Cons p ps)
  then obtain v ws c1 where v: "vs = v # ws" "f p c = Some (Inr (v, c1))" "produced f ps c1 ws c'" by auto
  with Cons.prems(2) obtain b1 where b1: "surface_write (fst p) (snd p) v b = Inr b1" "place ps ws b1 = Inr b'"
    by (cases p) (auto simp: rbind_eq_Inr)
  from Cons.IH [OF v(3) b1(2)] have "scan_pixels f ps (c1, b1) = Some (Inr (c', b'))" .
  with v b1 show ?case by (simp add: scan_pixels_def)
qed

lemma scan_pixels_finish:
  assumes "produced f ps c (map (\<lambda>(x, y). g x y) ps) c'" and "distinct ps" and "set ps = {0..<w} \<times> {0..<h}"
  obtains b where "scan_pixels f ps (c, surface_reserve w h) = Some (Inr (c', b))"
    and "surface_finish b = Inr (surface_of w h g)"
proof -
  obtain b s where b: "place ps (map (\<lambda>(x, y). g x y) ps) (surface_reserve w h) = Inr b" "surface_finish b = Inr s"
    "surface_wf s" "sf_width s = w" "sf_height s = h"
    "map (\<lambda>(x, y). pixel s x y) ps = map (\<lambda>(x, y). g x y) ps"
    using place_finish [OF assms(2,3), of "map (\<lambda>(x, y). g x y) ps"] by auto
  from surface_scan_eqI [OF b(3-5) assms(3) b(6)] scan_pixels_place [OF assms(1) b(1)] b(2) that
  show thesis by simp
qed

section \<open>Parsers on a stream\<close>

definition clamp_residual :: "int \<Rightarrow> int" where
  "clamp_residual r = min (max r (- 8192)) 8191"

definition expand :: "(int \<times> nat) list \<Rightarrow> int list" where
  "expand runs = concat (map (\<lambda>(r, z). clamp_residual r # replicate z 0) runs)"

lemma expand_simps [simp]: "expand [] = []" "expand ((r, z) # runs) = clamp_residual r # replicate z 0 @ expand runs"
  by (simp_all add: expand_def)

lemma clamp_residual_0 [simp]: "clamp_residual 0 = 0"
  by (simp add: clamp_residual_def)

lemma expand_residual_runs: "expand (residual_runs r z vs) = clamp_residual r # replicate z 0 @ map clamp_residual vs"
  by (induction r z vs rule: residual_runs.induct) (simp_all add: replicate_append_same [symmetric])

lemma expand_runs_of: "vs \<noteq> [] \<Longrightarrow> expand (runs_of vs) = map clamp_residual vs"
  by (cases vs) (simp_all add: runs_of_def expand_residual_runs)

lemma residual_runs_bound: "(r, z') \<in> set (residual_runs r0 z vs) \<Longrightarrow> z' \<le> z + length vs"
proof (induction r0 z vs rule: residual_runs.induct)
  case (2 residual zeros r0 rs)
  then show ?case by (cases "r0 = 0") fastforce+
qed simp

fun alternating :: "bool \<Rightarrow> (bool \<times> nat) list \<Rightarrow> bool" where
  "alternating v [] \<longleftrightarrow> True"
| "alternating v ((w, n) # runs) \<longleftrightarrow> w = (\<not> v) \<and> 0 < n \<and> n < 2 ^ 32 \<and> alternating w runs"

definition expand_flags :: "(bool \<times> nat) list \<Rightarrow> bool list" where
  "expand_flags runs = concat (map (\<lambda>(v, n). replicate n v) runs)"

lemma expand_flags_simps [simp]:
  "expand_flags [] = []" "expand_flags ((v, n) # runs) = replicate n v @ expand_flags runs"
  by (simp_all add: expand_flags_def)

lemma flag_runs_alternating:
  assumes "0 < n" and "n + length vs < 2 ^ 32"
  shows "\<exists>m rest. flag_runs v n vs = (v, m) # rest \<and> m < 2 ^ 32 \<and> alternating v rest \<and>
           replicate m v @ expand_flags rest = replicate n v @ vs"
  using assms
proof (induction v n vs rule: flag_runs.induct)
  case (2 v n w ws)
  show ?case
  proof (cases "w = v")
    case True
    from "2.IH"(1) [OF True] "2.prems" obtain m rest where
      "flag_runs v (n + 1) ws = (v, m) # rest" "m < 2 ^ 32" "alternating v rest"
      "replicate m v @ expand_flags rest = replicate (n + 1) v @ ws" by auto
    with True show ?thesis by (auto simp: replicate_append_same [symmetric])
  next
    case False
    from "2.IH"(2) [OF False] "2.prems" obtain m rest where
      *: "flag_runs w 1 ws = (w, m) # rest" "m < 2 ^ 32" "alternating w rest"
      "replicate m w @ expand_flags rest = replicate 1 w @ ws" by auto
    have "0 < m"
    proof (rule ccontr)
      assume "\<not> 0 < m"
      then have "expand_flags rest = w # ws" using *(4) by simp
      with *(3) False show False by (cases rest) (auto simp: gr0_conv_Suc)
    qed
    with * False "2.prems" show ?thesis by (intro exI [of _ n] exI [of _ "(w, m) # rest"]) auto
  qed
qed simp

text \<open>Sign extension from bit \<open>n\<close> of a value with \<open>n + 1\<close> bits.\<close>

lemma sign_bit_or:
  assumes "k < 2 ^ Suc n"
  shows "int k OR push_bit 1 (int k AND 2 ^ n) = int k + (if k < 2 ^ n then 0 else 2 ^ Suc n)"
proof -
  have "k div 2 ^ n mod 2 = (if k < 2 ^ n then 0 else 1)"
  proof (cases "k < 2 ^ n")
    case False
    then have "k div 2 ^ n = 1" using assms by (intro div_nat_eqI) simp_all
    with False show ?thesis by simp
  qed simp
  then have and_eq: "k AND 2 ^ n = (if k < 2 ^ n then 0 else 2 ^ n)"
    using and_shifted_mask [of k n 1] by (simp add: mask_eq_exp_minus_1 push_bit_eq_mult)
  have "int k OR push_bit 1 (int k AND 2 ^ n) = int (k OR push_bit 1 (k AND 2 ^ n))"
    by (simp add: of_nat_and_eq of_nat_or_eq push_bit_of_nat)
  also have "k OR push_bit 1 (k AND 2 ^ n) = k + (if k < 2 ^ n then 0 else 2 ^ Suc n)"
    using or_exp [OF assms] by (auto simp: and_eq push_bit_eq_mult mult.commute)
  finally show ?thesis by simp
qed

lemma uint_sym: "k < 2 ^ 32 \<Longrightarrow> uint (word_of_nat k :: u32) = int k"
  by (simp add: uint_nat unsigned_of_nat take_bit_nat_eq_self)

lemma wrap_back:
  assumes "- int h \<le> v" and "v < int h" and "int k = v mod (2 * int h)"
  shows "(if k < h then int k else int k - 2 * int h) = v"
proof (cases "0 \<le> v")
  case True
  then have "int k = v" using assms by simp
  with assms(2) show ?thesis by simp
next
  case False
  have "(v + 2 * int h) mod (2 * int h) = v + 2 * int h" using False assms(1) by (intro mod_pos_pos_trivial) linarith+
  then have "int k = v + 2 * int h" using assms(3) by simp
  with False assms(1) show ?thesis by simp
qed

lemma sign_bit_delta: "k < 128 \<Longrightarrow> to_int8 (int k OR push_bit 1 (int k AND 64)) = (if k < 64 then int k else int k - 128)"
  using sign_bit_or [of k 6] by (auto simp: to_int8_def)

lemma sign_bit_delta16:
  "k < 32768 \<Longrightarrow> to_int16 (int k OR push_bit 1 (int k AND 16384)) = (if k < 16384 then int k else int k - 32768)"
  using sign_bit_or [of k 14] by (auto simp: to_int16_def)

lemma join_bytes:
  assumes "v mod 128 * 2 + 1 < max_symbol"
  shows "drop_bit 1 (word_of_nat (v mod 128 * 2 + 1) :: u32) + push_bit 7 (word_of_nat (v div 128)) = word_of_nat v"
proof -
  have "drop_bit 1 (word_of_nat (v mod 128 * 2 + 1) :: u32) = word_of_nat (v mod 128)"
    using assms sym_half [of "v mod 128 * 2 + 1"] by simp
  moreover have "push_bit 7 (word_of_nat (v div 128) :: u32) = word_of_nat (v div 128 * 128)"
    by (simp add: push_bit_eq_mult)
  ultimately show ?thesis
    using of_nat_add [of "v mod 128" "v div 128 * 128", where 'a = u32] by (simp only: mod_div_mult_eq)
qed

context symbol_stream
begin

lemma decode_pel_spec:
  assumes c: "carries_nat (residual_symbols r z @ ps) xs s" and z: "z < 2 ^ 32"
  obtains s' where "decode_pel get s = Some (Inr ((clamp_residual r, word_of_nat z), s'))" and "carries_nat ps xs s'"
proof -
  define zb :: nat where "zb = (if 0 < z then 128 else 0)"
  define zs where "zs = (if 0 < z then map (Pair state_zero) (count_symbols z) else [])"
  have zb: "zb = 0 \<or> zb = 128" "128 \<le> zb \<longleftrightarrow> 0 < z" by (simp_all add: zb_def)
  have tail: "\<exists>s'. (if (word_of_nat (k + zb) :: u32) AND 128 \<noteq> 0 then
        run_bind (get_run get state_zero 0 s1) (\<lambda>(zeros, s). Some (Inr ((pel, zeros), s)))
      else Some (Inr ((pel, 0), s1))) = Some (Inr ((pel, word_of_nat z), s')) \<and> carries_nat ps xs s'"
    if "k < 128" "carries_nat (zs @ ps) xs s1" for k s1 and pel :: int
  proof (cases "0 < z")
    case True
    with that(2) have "carries_nat (map (Pair state_zero) (count_symbols z) @ ps) xs s1" by (simp add: zs_def)
    then obtain s' where "get_run get state_zero 0 s1 = Some (Inr (word_of_nat z, s'))" "carries_nat ps xs s'"
      by (rule get_run_count)
    moreover have "(word_of_nat (k + zb) :: u32) AND 128 \<noteq> 0"
      using that(1) sym_high_bit [of "k + zb"] True by (simp add: zb_def)
    ultimately show ?thesis by (simp only: if_True not_False_eq_True run_bind.simps prod.case) blast
  next
    case False
    with that sym_high_bit [of k] show ?thesis by (simp add: zb_def zs_def)
  qed
  show thesis
  proof (cases "- 32 \<le> r \<and> r < 32")
    case True
    define j where "j = nat (r + 32)"
    have j: "j < 64" "nat (r * 2 + 64) = 2 * j" "int j - 32 = clamp_residual r"
      using True by (auto simp: j_def clamp_residual_def)
    have "residual_symbols r z = (state_lsb, 2 * j + zb) # zs"
      using True by (simp add: residual_symbols_arith zb_def zs_def j(2))
    then have "carries_nat ((state_lsb, 2 * j + zb) # zs @ ps) xs s" using c by simp
    moreover have "2 * j + zb < max_symbol" using j(1) zb(1) by auto
    ultimately obtain s1 where
      s1: "get state_lsb s = Inr (word_of_nat (2 * j + zb), s1)" "carries_nat (zs @ ps) xs s1" by (rule get_sym)
    have "\<not> odd (2 * j + zb)" using zb(1) by auto
    then have even: "\<not> (word_of_nat (2 * j + zb) :: u32) AND 1 \<noteq> 0" unfolding sym_low_bit .
    have "2 * j < 128" using j(1) by simp
    from tail [OF this s1(2), of "clamp_residual r"] obtain s' where
      "decode_pel get s = Some (Inr ((clamp_residual r, word_of_nat z), s'))" "carries_nat ps xs s'"
      using s1(1) even pel_byte [OF j(1) zb(1)] j(3)
      by (simp only: decode_pel_def run_bind.simps prod.case if_False) blast
    with that show thesis by blast
  next
    case False
    define k where "k = nat (min (max (r + 8192) 0) 16383)"
    have k: "k < 16384" "int k - 8192 = clamp_residual r" by (auto simp: k_def clamp_residual_def)
    have hi: "k div 128 < 128" using k(1) by (intro less_mult_imp_div_less) simp
    have "residual_symbols r z = (state_lsb, 2 * (k mod 128) + 1) # (state_msb, k div 128 + zb) # zs"
      unfolding residual_symbols_arith Let_def k_def [symmetric] zb_def zs_def using False by simp
    then have "carries_nat ((state_lsb, 2 * (k mod 128) + 1) # (state_msb, k div 128 + zb) # zs @ ps) xs s"
      using c by simp
    moreover have "2 * (k mod 128) + 1 < max_symbol" using mod_less_divisor [of 128 k] by linarith
    ultimately obtain s1 where s1: "get state_lsb s = Inr (word_of_nat (2 * (k mod 128) + 1), s1)"
      "carries_nat ((state_msb, k div 128 + zb) # zs @ ps) xs s1" by (rule get_sym)
    have "k div 128 + zb < max_symbol" using hi zb(1) by auto
    with s1(2) obtain s2 where s2: "get state_msb s1 = Inr (word_of_nat (k div 128 + zb), s2)"
      "carries_nat (zs @ ps) xs s2" by (rule get_sym)
    have odd: "(word_of_nat (2 * (k mod 128) + 1) :: u32) AND 1 \<noteq> 0" by (simp only: sym_low_bit) simp
    from tail [OF hi s2(2), of "clamp_residual r"] obtain s' where
      "decode_pel get s = Some (Inr ((clamp_residual r, word_of_nat z), s'))" "carries_nat ps xs s'"
      using s1(1) s2(1) odd pel_two_bytes [OF k(1) zb(1)] k(2)
      by (simp only: decode_pel_def run_bind.simps prod.case not_False_eq_True if_True) blast
    with that show thesis by blast
  qed
qed

lemma residuals_produced:
  assumes "carries_nat (run_symbols runs) xs s" and "z < 2 ^ 32" and "\<forall>(r, z') \<in> set runs. z' < 2 ^ 32"
    and "length ps = z + length (expand runs)"
  shows "\<exists>c'. produced (residual_pixel get) ps (word_of_nat z, s) (replicate z 0 @ expand runs) c'"
  using assms
proof (induction ps arbitrary: z runs s)
  case Nil
  then show ?case by simp
next
  case (Cons p ps)
  show ?case
  proof (cases z)
    case (Suc z')
    have pos: "(word_of_nat z :: u32) > 0" using Cons.prems(2) Suc by (simp add: word_gt_0 sym_zero del: of_nat_Suc)
    have dec: "(word_of_nat z :: u32) - 1 = word_of_nat z'" using Suc by simp
    have "residual_pixel get p (word_of_nat z, s) = Some (Inr (0, word_of_nat z', s))"
      using pos dec by (simp add: residual_pixel_def)
    moreover obtain c' where "produced (residual_pixel get) ps (word_of_nat z', s) (replicate z' 0 @ expand runs) c'"
      using Cons.IH [OF Cons.prems(1) _ Cons.prems(3), of z'] Cons.prems(2,4) Suc by auto
    ultimately show ?thesis using Suc by (intro exI [of _ c']) (simp del: of_nat_Suc)
  next
    case 0
    then obtain r z1 rest where runs: "runs = (r, z1) # rest" using Cons.prems(4) by (cases runs) auto
    have z1: "z1 < 2 ^ 32" and rest: "\<forall>(r, z') \<in> set rest. z' < 2 ^ 32" using Cons.prems(3) by (simp_all add: runs)
    have "carries_nat (residual_symbols r z1 @ run_symbols rest) xs s" using Cons.prems(1) by (simp add: runs)
    from decode_pel_spec [OF this z1] obtain s' where
      s': "decode_pel get s = Some (Inr ((clamp_residual r, word_of_nat z1), s'))" "carries_nat (run_symbols rest) xs s'"
      by blast
    then have "residual_pixel get p (word_of_nat z, s) = Some (Inr (clamp_residual r, word_of_nat z1, s'))"
      using 0 by (simp add: residual_pixel_def)
    moreover obtain c' where "produced (residual_pixel get) ps (word_of_nat z1, s') (replicate z1 0 @ expand rest) c'"
      using Cons.IH [OF s'(2) z1 rest] Cons.prems(4) 0 by (auto simp: runs)
    ultimately show ?thesis using 0 by (intro exI [of _ c']) (simp add: runs)
  qed
qed

text \<open>Runs of flags: the value flips from one run to the next.\<close>

lemma decode_run_spec:
  assumes "carries_nat (map (Pair (flag_state v)) (count_symbols n) @ ps) xs s"
  obtains s' where "decode_run get v s = Some (Inr (word_of_nat n, s'))" and "carries_nat ps xs s'"
  using get_run_count [OF assms] by (metis decode_run_def)

definition flags_left :: "(nat \<times> u8) list \<Rightarrow> bool list \<Rightarrow> 's flag_parse \<Rightarrow> bool" where
  "flags_left xs vs s \<longleftrightarrow> (\<exists>n runs.
     alternating (fp_symbol s) runs \<and> fp_count s = word_of_nat n \<and> n < 2 ^ 32 \<and>
     carries_nat (flag_run_symbols runs) xs (fp_source s) \<and>
     vs = replicate n (fp_symbol s) @ expand_flags runs)"

lemma flag_pop_spec:
  assumes "flags_left xs (v # vs) s"
  obtains s' where "flag_pop get s = Some (Inr (v, s'))" and "flags_left xs vs s'"
proof -
  from assms obtain n runs where n: "alternating (fp_symbol s) runs" "fp_count s = word_of_nat n" "n < 2 ^ 32"
    "carries_nat (flag_run_symbols runs) xs (fp_source s)" "v # vs = replicate n (fp_symbol s) @ expand_flags runs"
    by (auto simp: flags_left_def)
  show thesis
  proof (cases n)
    case (Suc m)
    then have "(word_of_nat n :: u32) \<noteq> 0" using n(3) by (simp add: sym_zero del: of_nat_Suc)
    then have "next_run get (fp_symbol s) (fp_count s) (fp_source s) = Some (Inr ((fp_symbol s, fp_count s), fp_source s))"
      by (subst next_run.simps) (simp add: n(2))
    then have "flag_pop get s = Some (Inr (v, s\<lparr>fp_count := word_of_nat m\<rparr>))"
      using n(2,5) Suc by (simp add: flag_pop_def)
    moreover have "flags_left xs vs (s\<lparr>fp_count := word_of_nat m\<rparr>)"
      unfolding flags_left_def using n Suc by (intro exI [of _ m] exI [of _ runs]) simp
    ultimately show thesis by (rule that)
  next
    case 0
    then obtain m rest where runs: "runs = (\<not> fp_symbol s, Suc m) # rest" and m: "Suc m < 2 ^ 32"
      and alt: "alternating (\<not> fp_symbol s) rest"
      using n(1,5) by (cases runs) (auto simp: gr0_conv_Suc)
    from n(4) have "carries_nat (map (Pair (flag_state (\<not> fp_symbol s))) (count_symbols (Suc m)) @ flag_run_symbols rest) xs (fp_source s)"
      by (simp add: runs)
    then obtain src where src: "decode_run get (\<not> fp_symbol s) (fp_source s) = Some (Inr (word_of_nat (Suc m), src))"
      "carries_nat (flag_run_symbols rest) xs src" by (rule decode_run_spec)
    have nz: "(word_of_nat (Suc m) :: u32) \<noteq> 0" using m by (simp only: sym_zero)
    have "next_run get (fp_symbol s) (fp_count s) (fp_source s) = next_run get (\<not> fp_symbol s) (word_of_nat (Suc m)) src"
      using 0 n(2) src(1) by (subst next_run.simps) simp
    also have "\<dots> = Some (Inr ((\<not> fp_symbol s, word_of_nat (Suc m)), src))"
      using nz by (subst next_run.simps) (simp only: if_False)
    finally have "flag_pop get s = Some (Inr (v, \<lparr>fp_symbol = (\<not> fp_symbol s), fp_count = word_of_nat m, fp_source = src\<rparr>))"
      using n(5) 0 by (simp add: flag_pop_def runs)
    moreover have "flags_left xs vs \<lparr>fp_symbol = (\<not> fp_symbol s), fp_count = word_of_nat m, fp_source = src\<rparr>"
      unfolding flags_left_def using n(5) 0 m alt src(2)
      by (intro exI [of _ m] exI [of _ rest]) (simp add: runs)
    ultimately show thesis by (rule that)
  qed
qed

lemma flags_produced:
  assumes "flags_left xs (vs @ ws) s" and "length ps = length vs"
  shows "\<exists>s'. produced (flags_pixel get) ps s (map (\<lambda>v. if v then 255 else 0) vs) s' \<and> flags_left xs ws s'"
  using assms
proof (induction vs arbitrary: ps s)
  case (Cons v vs)
  then obtain p qs where ps: "ps = p # qs" "length qs = length vs" by (cases ps) auto
  from Cons.prems(1) have "flags_left xs (v # (vs @ ws)) s" by simp
  then obtain s1 where s1: "flag_pop get s = Some (Inr (v, s1))" "flags_left xs (vs @ ws) s1"
    by (rule flag_pop_spec)
  from Cons.IH [OF s1(2) ps(2)] s1(1) show ?case by (auto simp: ps(1) flags_pixel_def)
qed simp

text \<open>One tile of temporal flags: all of them, or with reduced signalling one for all.\<close>

lemma temporal_produced_intra:
  "produced (temporal_pixel get True origin) ps (True, s) (replicate (length ps) temporal_intr) (True, s)"
  by (induction ps) (simp_all add: temporal_pixel_def)

lemma temporal_produced_flags:
  assumes "flags_left xs (vs @ ws) s" and "length ps = length vs" and "reduced \<longrightarrow> origin \<notin> set ps"
  shows "\<exists>s'. produced (temporal_pixel get reduced origin) ps (False, s) (map temporal_mark vs) (False, s') \<and> flags_left xs ws s'"
  using assms
proof (induction vs arbitrary: ps s)
  case (Cons v vs)
  then obtain p qs where ps: "ps = p # qs" "length qs = length vs" by (cases ps) auto
  from Cons.prems(1) have "flags_left xs (v # (vs @ ws)) s" by simp
  then obtain s1 where s1: "flag_pop get s = Some (Inr (v, s1))" "flags_left xs (vs @ ws) s1"
    by (rule flag_pop_spec)
  have "reduced \<longrightarrow> origin \<notin> set qs" using Cons.prems(3) by (simp add: ps(1))
  from Cons.IH [OF s1(2) ps(2) this] s1(1) Cons.prems(3) show ?case by (auto simp: ps(1) temporal_pixel_def)
qed simp

lemma temporal_tile_produced:
  assumes "flags_left xs (map f (if reduced \<and> f origin then [origin] else origin # qs) @ ws) s"
    and "origin \<notin> set qs"
  shows "\<exists>i s'. produced (temporal_pixel get reduced origin) (origin # qs) (False, s)
           (map (\<lambda>p. temporal_mark (f p \<or> reduced \<and> f origin)) (origin # qs)) (i, s') \<and> flags_left xs ws s'"
proof -
  let ?rest = "map f (if reduced \<and> f origin then [] else qs) @ ws"
  have "flags_left xs (f origin # ?rest) s" using assms(1) by (auto split: if_splits)
  then obtain s1 where s1: "flag_pop get s = Some (Inr (f origin, s1))" "flags_left xs ?rest s1"
    by (rule flag_pop_spec)
  have step: "temporal_pixel get reduced origin origin (False, s) =
      Some (Inr (temporal_mark (f origin), reduced \<and> f origin, s1))"
    using s1(1) by (auto simp: temporal_pixel_def)
  show ?thesis
  proof (cases "reduced \<and> f origin")
    case True
    have "map (\<lambda>p. temporal_mark (f p \<or> reduced \<and> f origin)) qs = replicate (length qs) temporal_intr"
      using True by (simp add: map_replicate_const)
    then show ?thesis
      using True step s1(2) temporal_produced_intra [of origin qs s1]
      by (intro exI [of _ True] exI [of _ s1]) simp
  next
    case False
    then have "flags_left xs (map f qs @ ws) s1" using s1(2) by (auto split: if_splits)
    from temporal_produced_flags [OF this, of qs reduced origin] assms(2) obtain s' where
      s': "produced (temporal_pixel get reduced origin) qs (False, s1) (map temporal_mark (map f qs)) (False, s')"
      "flags_left xs ws s'" by auto
    have eq: "map (\<lambda>p. temporal_mark (f p \<or> reduced \<and> f origin)) qs = map temporal_mark (map f qs)"
      using False by auto
    have "temporal_pixel get reduced origin origin (False, s) =
        Some (Inr (temporal_mark (f origin \<or> reduced \<and> f origin), False, s1))" using step False by auto
    with s' show ?thesis unfolding list.map(2) produced.simps eq by blast
  qed
qed

text \<open>Sizes and steps between sizes.\<close>

lemma decode_size_spec:
  assumes c: "carries_nat (size_symbols v @ ps) xs s" and v: "v < 32768"
  obtains s' where "decode_size get s = Inr (word_of_nat v, s')" and "carries_nat ps xs s'"
proof (cases "v < 128")
  case True
  then have "carries_nat ((state_lsb, v * 2) # ps) xs s" using c by (simp add: size_symbols_arith)
  moreover have "v * 2 < max_symbol" using True by simp
  ultimately obtain s1 where s1: "get state_lsb s = Inr (word_of_nat (v * 2), s1)" "carries_nat ps xs s1"
    by (rule get_sym)
  have "\<not> (word_of_nat (v * 2) :: u32) AND 1 \<noteq> 0" unfolding sym_low_bit by simp
  moreover have "(ucast (word_of_nat v :: u32) :: u16) = word_of_nat v"
    using True by (intro word_unat_eq_iff [THEN iffD2]) (simp add: unsigned_of_nat unsigned_ucast_eq take_bit_nat_eq_self)
  moreover have "drop_bit 1 (word_of_nat (v * 2) :: u32) = word_of_nat v" using True sym_half [of "v * 2"] by simp
  ultimately have "decode_size get s = Inr (word_of_nat v, s1)"
    using s1(1) by (simp only: decode_size_def rbind.simps prod.case if_False)
  with s1(2) that show thesis by blast
next
  case False
  then have "carries_nat ((state_lsb, v mod 128 * 2 + 1) # (state_msb, v div 128) # ps) xs s"
    using c by (simp add: size_symbols_arith)
  moreover have lo: "v mod 128 * 2 + 1 < max_symbol" using mod_less_divisor [of 128 v] by linarith
  ultimately obtain s1 where s1: "get state_lsb s = Inr (word_of_nat (v mod 128 * 2 + 1), s1)"
    "carries_nat ((state_msb, v div 128) # ps) xs s1" by (rule get_sym)
  have "v div 128 < max_symbol" using v by (intro less_mult_imp_div_less) simp
  with s1(2) obtain s2 where s2: "get state_msb s1 = Inr (word_of_nat (v div 128), s2)" "carries_nat ps xs s2"
    by (rule get_sym)
  have "(word_of_nat (v mod 128 * 2 + 1) :: u32) AND 1 \<noteq> 0" unfolding sym_low_bit by simp
  moreover have "drop_bit 1 (word_of_nat (v mod 128 * 2 + 1) :: u32) + push_bit 7 (word_of_nat (v div 128)) = word_of_nat v"
    by (rule join_bytes [OF lo])
  moreover have "(ucast (word_of_nat v :: u32) :: u16) = word_of_nat v"
    using v by (intro word_unat_eq_iff [THEN iffD2]) (simp add: unsigned_of_nat unsigned_ucast_eq take_bit_nat_eq_self)
  ultimately have "decode_size get s = Inr (word_of_nat v, s2)"
    using s1(1) s2(1) by (simp only: decode_size_def rbind.simps prod.case not_False_eq_True if_True)
  with s2(2) that show thesis by blast
qed

lemma decode_size_delta_spec:
  assumes c: "carries_nat (delta_symbols v @ ps) xs s" and v: "- 16384 \<le> v" "v \<le> 16383"
  obtains s' where "decode_size_delta get s = Inr (v, s')" and "carries_nat ps xs s'"
proof (cases "- 64 \<le> v \<and> v \<le> 63")
  case True
  define k where "k = nat (v mod 128)"
  have k: "k < 128" "int k = v mod 128" by (simp_all add: k_def)
  have "delta_symbols v = [(state_lsb, k * 2)]"
    using True by (simp add: delta_symbols_arith k_def nat_mult_distrib)
  then have "carries_nat ((state_lsb, k * 2) # ps) xs s" using c by simp
  moreover have "k * 2 < max_symbol" using k(1) by simp
  ultimately obtain s1 where s1: "get state_lsb s = Inr (word_of_nat (k * 2), s1)" "carries_nat ps xs s1"
    by (rule get_sym)
  have "\<not> (word_of_nat (k * 2) :: u32) AND 1 \<noteq> 0" unfolding sym_low_bit by simp
  moreover have "uint (ucast (drop_bit 1 (word_of_nat (k * 2) :: u32)) :: u8) = int k"
    using k(1) sym_half [of "k * 2"] uint_sym [of k] by (simp add: unsigned_ucast_eq take_bit_int_eq_self)
  moreover have "to_int8 (int k OR push_bit 1 (int k AND 64)) = v"
  proof -
    have "(if k < 64 then int k else int k - 2 * int 64) = v"
      by (rule wrap_back) (use True k(2) in auto)
    with sign_bit_delta [OF k(1)] show ?thesis by (simp split: if_splits)
  qed
  ultimately have "decode_size_delta get s = Inr (v, s1)"
    using s1(1) by (simp only: decode_size_delta_def rbind.simps prod.case if_False Let_def)
  with s1(2) that show thesis by blast
next
  case False
  define k where "k = nat (v mod 32768)"
  have k: "k < 32768" "int k = v mod 32768" by (simp_all add: k_def)
  have "v mod 128 = int (k mod 128)" "v div 128 mod 256 = int (k div 128)"
    using zmod_zmult2_eq [of 256 v 128] by (simp_all add: zmod_int zdiv_int k(2) mod_mod_cancel)
  then have "nat (v mod 128 * 2 + 1) = k mod 128 * 2 + 1" "nat (v div 128 mod 256) = k div 128" by simp_all
  then have "carries_nat ((state_lsb, k mod 128 * 2 + 1) # (state_msb, k div 128) # ps) xs s"
    using c False by (simp add: delta_symbols_arith)
  moreover have lo: "k mod 128 * 2 + 1 < max_symbol" using mod_less_divisor [of 128 k] by linarith
  ultimately obtain s1 where s1: "get state_lsb s = Inr (word_of_nat (k mod 128 * 2 + 1), s1)"
    "carries_nat ((state_msb, k div 128) # ps) xs s1" by (rule get_sym)
  have "k div 128 < max_symbol" using k(1) by (intro less_mult_imp_div_less) simp
  with s1(2) obtain s2 where s2: "get state_msb s1 = Inr (word_of_nat (k div 128), s2)" "carries_nat ps xs s2"
    by (rule get_sym)
  have "(word_of_nat (k mod 128 * 2 + 1) :: u32) AND 1 \<noteq> 0" unfolding sym_low_bit by simp
  moreover have "drop_bit 1 (word_of_nat (k mod 128 * 2 + 1) :: u32) + push_bit 7 (word_of_nat (k div 128)) = word_of_nat k"
    by (rule join_bytes [OF lo])
  moreover have "to_int16 (uint (word_of_nat k :: u32)) = int k"
    using k(1) uint_sym [of k] by (simp add: to_int16_id is_int16_def)
  moreover have "to_int16 (int k OR push_bit 1 (int k AND 16384)) = v"
  proof -
    have "(if k < 16384 then int k else int k - 2 * int 16384) = v"
      by (rule wrap_back) (use v k(2) in auto)
    with sign_bit_delta16 [OF k(1)] show ?thesis by (simp split: if_splits)
  qed
  ultimately have "decode_size_delta get s = Inr (v, s2)"
    using s1(1) s2(1) by (simp only: decode_size_delta_def rbind.simps prod.case not_False_eq_True if_True Let_def)
  with s2(2) that show thesis by blast
qed

lemma sizes_produced:
  assumes "\<forall>p \<in> set ps. idx + fst p < length enabled"
    and "sizes_ok prefix p (enabled_values view enabled idx ps)"
    and "carries_nat (sizes_symbols prefix p (enabled_values view enabled idx ps)) xs s"
    and "prefix \<or> q = p"
  shows "\<exists>c'. produced (sizes_pixel get enabled idx prefix) ps (q, s)
           (map (\<lambda>(x, y). if enabled ! (idx + x) then pixel view x y else 0) ps) c'"
  using assms
proof (induction ps arbitrary: p q s)
  case (Cons pos ps)
  obtain x y where pos: "pos = (x, y)" by force
  have idx: "idx + x < length enabled" "\<forall>p \<in> set ps. idx + fst p < length enabled"
    using Cons.prems(1) by (simp_all add: pos)
  let ?vs = "enabled_values view enabled idx ps"
  show ?case
  proof (cases "enabled ! (idx + x)")
    case True
    let ?v = "pixel view x y"
    have vs: "enabled_values view enabled idx (pos # ps) = ?v # ?vs"
      by (simp add: enabled_values_def scanned_def pos True)
    have ok: "sizes_ok prefix ?v ?vs"
      "if prefix then ?v \<le> 32767 else - 16384 \<le> uint ?v - uint p \<and> uint ?v - uint p \<le> 16383"
      using Cons.prems(2) by (simp_all add: vs)
    have "\<exists>q' s'. sizes_pixel get enabled idx prefix pos (q, s) = Some (Inr (?v, q', s')) \<and>
        (prefix \<or> q' = ?v) \<and> carries_nat (sizes_symbols prefix ?v ?vs) xs s'"
    proof (cases prefix)
      case pre: True
      have "carries_nat (size_symbols (unat ?v) @ sizes_symbols prefix ?v ?vs) xs s"
        using Cons.prems(3) by (simp add: vs pre)
      moreover have "unat ?v < 32768" using ok(2) pre by (simp add: word_le_nat_alt)
      ultimately obtain s' where "decode_size get s = Inr (word_of_nat (unat ?v), s')"
        "carries_nat (sizes_symbols prefix ?v ?vs) xs s'" by (rule decode_size_spec)
      then show ?thesis using idx(1) True pre by (simp add: sizes_pixel_def pos vector_bool_def)
    next
      case False
      have "carries_nat (delta_symbols (uint ?v - uint p) @ sizes_symbols prefix ?v ?vs) xs s"
        using Cons.prems(3) by (simp add: vs False)
      moreover have "- 16384 \<le> uint ?v - uint p" "uint ?v - uint p \<le> 16383" using ok(2) False by simp_all
      ultimately obtain s' where s': "decode_size_delta get s = Inr (uint ?v - uint p, s')"
        "carries_nat (sizes_symbols prefix ?v ?vs) xs s'" by (rule decode_size_delta_spec)
      have "p + word_of_int (uint ?v - uint p) = ?v" by simp
      then show ?thesis
        using idx(1) True False s' Cons.prems(4)
        by (simp only: sizes_pixel_def pos vector_bool_def fst_conv prod.case run_bind.simps if_True if_False Let_def) simp
    qed
    then obtain q' s' where "sizes_pixel get enabled idx prefix pos (q, s) = Some (Inr (?v, q', s'))"
      "prefix \<or> q' = ?v" "carries_nat (sizes_symbols prefix ?v ?vs) xs s'" by blast
    with Cons.IH [OF idx(2) ok(1) this(3) this(2)] True show ?thesis by (auto simp: pos)
  next
    case False
    then have vs: "enabled_values view enabled idx (pos # ps) = ?vs" by (simp add: enabled_values_def pos)
    have "sizes_pixel get enabled idx prefix pos (q, s) = Some (Inr (0, q, s))"
      using idx(1) False by (simp add: sizes_pixel_def pos vector_bool_def)
    with Cons.IH [OF idx(2) Cons.prems(2,3) [unfolded vs] Cons.prems(4)] False
    show ?thesis by (auto simp: pos)
  qed
qed simp

end

section \<open>The providers: raw bytes and prefix codes\<close>

definition byte_bits :: "(nat \<times> u8) list \<Rightarrow> bool list" where
  "byte_bits xs = concat (map (\<lambda>(st, sy). bits_of 8 sy) xs)"

definition raw_carries :: "(nat \<times> u8) list \<Rightarrow> source_state \<Rightarrow> bool" where
  "raw_carries xs = (\<lambda>(src, b). src = Source_Raw \<and> unpacker_inv b \<and> up_bit_offset b mod 8 = 0 \<and>
     (\<exists>pad. pending b = byte_bits xs @ pad))"

lemma bits_of_byte_inj: "bits_of 8 x = bits_of 8 y \<Longrightarrow> x = (y :: u8)"
  using bits_of_inj_nat [of 8 "unat x" "unat y"] unsigned_less [of x] unsigned_less [of y]
  by (simp add: word_unat_eq_iff)

interpretation raw: symbol_stream source_get raw_carries
proof unfold_locales
  fix st sy xs and s :: source_state
  assume "raw_carries ((st, sy) # xs) s"
  then obtain b pad where b: "s = (Source_Raw, b)" "unpacker_inv b" "up_bit_offset b mod 8 = 0"
    "pending b = bits_of 8 sy @ byte_bits xs @ pad"
    by (auto simp: raw_carries_def byte_bits_def)
  then have "8 \<le> length (pending b)" by simp
  with b obtain x b' where x: "unpacker_byte b = Inr (x, b')" "bits_of 8 x = take 8 (pending b)"
    "pending b' = drop 8 (pending b)" "unpacker_inv b'" "up_bit_offset b' mod 8 = 0"
    by (metis unpacker_byte_spec)
  then have "x = sy" using b(4) by (intro bits_of_byte_inj) simp
  with x b show "\<exists>s'. source_get st s = Inr (ucast sy, s') \<and> raw_carries xs s'"
    by (auto simp: raw_carries_def)
qed

fun code_word :: "hcode list \<Rightarrow> nat \<Rightarrow> bool list" where
  "code_word [] s = []"
| "code_word (c # cs) s = (if hc_symbol c = s then bits_of (hc_bits c) (hc_value c) else code_word cs s)"

lemma code_word_find:
  "distinct (map hc_symbol codes) \<Longrightarrow> c \<in> set codes \<Longrightarrow> code_word codes (hc_symbol c) = bits_of (hc_bits c) (hc_value c)"
  by (induction codes) (auto simp: image_iff)

definition prefix_bits :: "hcode list list \<Rightarrow> (nat \<times> u8) list \<Rightarrow> bool list" where
  "prefix_bits tables xs = concat (map (\<lambda>(st, sy). code_word (tables ! st) (unat sy)) xs)"

lemma prefix_bits_simps [simp]:
  "prefix_bits tables [] = []"
  "prefix_bits tables ((st, sy) # xs) = code_word (tables ! st) (unat sy) @ prefix_bits tables xs"
  "prefix_bits tables (xs @ ys) = prefix_bits tables xs @ prefix_bits tables ys"
  by (simp_all add: prefix_bits_def)

lemma byte_bits_simps [simp]:
  "byte_bits [] = []" "byte_bits ((st, sy) # xs) = bits_of 8 sy @ byte_bits xs"
  "byte_bits (xs @ ys) = byte_bits xs @ byte_bits ys"
  by (simp_all add: byte_bits_def)

definition coded_by :: "hcode list list \<Rightarrow> (nat \<times> u8) list \<Rightarrow> bool" where
  "coded_by tables xs \<longleftrightarrow> (\<forall>(st, sy) \<in> set xs. st < length tables \<and> unat sy \<in> hc_symbol ` set (tables ! st))"

definition prefix_carries :: "(nat \<times> u8) list \<Rightarrow> source_state \<Rightarrow> bool" where
  "prefix_carries xs = (\<lambda>(src, b). \<exists>ds tables pad. src = Source_Huffman ds \<and> list_all2 holds_codes tables ds \<and>
     (\<forall>codes \<in> set tables. codable codes) \<and> unpacker_inv b \<and> coded_by tables xs \<and>
     pending b = prefix_bits tables xs @ pad)"

interpretation huffman: symbol_stream source_get prefix_carries
proof unfold_locales
  fix st sy xs and s :: source_state
  assume "prefix_carries ((st, sy) # xs) s"
  then obtain ds tables pad b where b: "s = (Source_Huffman ds, b)" "list_all2 holds_codes tables ds"
    "\<forall>codes \<in> set tables. codable codes" "unpacker_inv b" "coded_by tables ((st, sy) # xs)"
    "pending b = code_word (tables ! st) (unat sy) @ prefix_bits tables xs @ pad"
    by (auto simp: prefix_carries_def)
  have st: "st < length tables" "st < length ds" using b(2,5) by (auto simp: coded_by_def dest: list_all2_lengthD)
  obtain c where c: "c \<in> set (tables ! st)" "unat sy = hc_symbol c" using b(5) by (auto simp: coded_by_def)
  have codable: "codable (tables ! st)" using b(3) st(1) by simp
  then have "distinct (map hc_symbol (tables ! st))" using c(1) by (auto simp: codable_def code_table_def)
  with b(6) c have pend: "pending b = bits_of (hc_bits c) (hc_value c) @ prefix_bits tables xs @ pad"
    by (simp add: code_word_find)
  have "holds_codes (tables ! st) (ds ! st)" using b(2) st(1) by (rule list_all2_nthD)
  from decode_symbol_spec [OF codable c(1) this b(4) pend] obtain d b' where
    d: "decode_symbol (ds ! st) b = Inr (hc_symbol c, d, b')" "holds_codes (tables ! st) d" "unpacker_inv b'"
      "pending b' = prefix_bits tables xs @ pad" by blast
  have "list_all2 holds_codes tables (ds[st := d])"
    using list_all2_update_cong [OF b(2) d(2), of st] by (simp add: list_update_id)
  moreover have "coded_by tables xs" using b(5) by (simp add: coded_by_def)
  ultimately have "prefix_carries xs (Source_Huffman (ds[st := d]), b')"
    using b(3) d(3,4) by (auto simp: prefix_carries_def)
  moreover have "(word_of_nat (hc_symbol c) :: u32) = ucast sy"
    by (simp add: c(2) [symmetric])
  ultimately show "\<exists>s'. source_get st s = Inr (ucast sy, s') \<and> prefix_carries xs s'"
    using st(2) d(1) by (simp add: b(1))
qed

end
