(* ===== verification/EntropyRoundtrip.thy ===== *)
theory EntropyRoundtrip
  imports EntropyCoding HuffmanDepth
begin

text \<open>
  The finished packets of encoder/src/EntropyEncoder.cpp opened by decoder/src/EntropyDecoder.cpp:
  both packets of a chunk, raw and prefix coded, carry the symbols of the model, and every
  encoder's surface comes back from its decoder. Surfaces have fewer than 3,524,578 pixels, so
  that no code is longer than 30 bits (HuffmanDepth).
\<close>

section \<open>How many symbols a state gets\<close>

definition per_state :: "nat \<Rightarrow> (nat \<times> 'a) list \<Rightarrow> nat" where
  "per_state st xs = length (filter (\<lambda>p. fst p = st) xs)"

lemma per_state_simps [simp]:
  "per_state st [] = 0"
  "per_state st ((s, v) # xs) = (if s = st then 1 else 0) + per_state st xs"
  "per_state st (xs @ ys) = per_state st xs + per_state st ys"
  by (simp_all add: per_state_def)

lemma per_state_map [simp]: "per_state st (map (\<lambda>(s, v). (s, f v)) xs) = per_state st xs"
  by (induction xs) (auto simp: per_state_def)

lemma per_state_le: "per_state st xs \<le> length xs"
  by (simp add: per_state_def)

lemma sum_count_list:
  "(\<Sum>s \<leftarrow> [0..<max_symbol]. count_list xs (st, word_of_nat s :: u8)) \<le> per_state st xs"
proof (induction xs)
  case Nil
  then show ?case by (simp add: sum_list_triv)
next
  case (Cons x xs)
  obtain s0 v where x: "x = (s0, v)" by force
  have "(\<Sum>s \<leftarrow> [0..<max_symbol]. (if x = (st, word_of_nat s) then 1 else 0)) \<le> (if s0 = st then 1 else 0 :: nat)"
  proof (cases "s0 = st")
    case True
    have "(x = (st, word_of_nat s)) = (s = unat v)" if "s < max_symbol" for s
      using unat_byte [OF that] True by (auto simp: x)
    then have "(\<Sum>s \<leftarrow> [0..<max_symbol]. (if x = (st, word_of_nat s) then 1 else 0 :: nat)) =
        (\<Sum>s \<in> {0..<max_symbol}. if s = unat v then 1 else 0)"
      by (simp add: interv_sum_list_conv_sum_set_nat)
    also have "\<dots> \<le> 1" by (simp add: sum.delta)
    finally show ?thesis using True by simp
  next
    case False
    then show ?thesis by (simp add: x sum_list_triv)
  qed
  moreover have "count_list (x # xs) y = count_list xs y + (if x = y then 1 else 0)" for y by simp
  ultimately show ?case using Cons by (simp add: sum_list_addf x del: count_list.simps)
qed

lemma total_count_le:
  assumes ok: "model_ok m" and st: "st < length (em_builders m)" and few: "length (em_symbols m) < 2 ^ 32"
  shows "total_count (em_builders m ! st) \<le> per_state st (em_symbols m)"
proof -
  let ?n = "\<lambda>s. count_list (em_symbols m) (st, word_of_nat s :: u8)"
  have "unat (symbol_counts (em_builders m ! st) ! s) = ?n s" if "s < max_symbol" for s
  proof -
    have "?n s < 2 ^ 32" using count_le_length [of "em_symbols m"] few by (rule le_less_trans)
    then show ?thesis using ok st that by (simp add: model_ok_def unsigned_of_nat take_bit_nat_eq_self)
  qed
  then have "total_count (em_builders m ! st) = (\<Sum>s \<leftarrow> counted (em_builders m ! st). ?n s)"
    unfolding total_count_def by (intro arg_cong [of _ _ sum_list] map_cong) (auto simp: counted_def)
  also have "\<dots> \<le> (\<Sum>s \<leftarrow> [0..<max_symbol]. ?n s)"
    unfolding counted_def by (rule sum_list_filter_le_nat)
  also have "\<dots> \<le> per_state st (em_symbols m)" by (rule sum_count_list)
  finally show ?thesis .
qed

lemma length_high_symbols: "0 < c \<Longrightarrow> length (high_symbols c) \<le> c"
proof (induction c rule: high_symbols.induct)
  case (1 c)
  show ?case
  proof (cases "127 < c")
    case True
    then have "length (high_symbols (drop_bit 7 c)) \<le> c div 128"
      using 1(1) by (simp add: drop_bit_eq_div div_greater_zero_iff)
    with True show ?thesis by (subst high_symbols.simps) simp
  next
    case False
    with 1(2) show ?thesis by (subst high_symbols.simps) simp
  qed
qed

lemma length_count_symbols: "0 < n \<Longrightarrow> length (count_symbols n) \<le> n"
  using length_high_symbols [of "n div 128"]
  by (cases "127 < n") (auto simp: count_symbols_def drop_bit_eq_div div_greater_zero_iff)

lemma residual_symbols_count:
  "per_state st (residual_symbols r z) \<le> 1 + z" "length (residual_symbols r z) \<le> 2 + z"
proof -
  let ?zs = "if 0 < z then map (Pair (state_zero :: nat)) (count_symbols z) else []"
  have zs: "length ?zs \<le> z" "st \<noteq> 2 \<Longrightarrow> per_state st ?zs = 0"
    using length_count_symbols [of z] by (auto simp: per_state_def filter_map o_def)
  have zs': "per_state st ?zs \<le> z" using per_state_le [of st ?zs] zs(1) by (rule order_trans)
  show "length (residual_symbols r z) \<le> 2 + z"
    unfolding residual_symbols_arith Let_def using zs(1) by (auto split: if_splits)
  show "per_state st (residual_symbols r z) \<le> 1 + z"
    unfolding residual_symbols_arith Let_def using zs(2) zs' by (auto split: if_splits)
qed

lemma run_symbols_count:
  "per_state st (run_symbols runs) \<le> length (expand runs)" "length (run_symbols runs) \<le> 2 * length (expand runs)"
proof (induction runs)
  case (Cons run runs)
  obtain r z where run: "run = (r, z)" by force
  { case 1
    show ?case using Cons(1) residual_symbols_count(1) [of st r z] by (simp add: run) }
  { case 2
    show ?case using Cons(2) residual_symbols_count(2) [of r z] by (simp add: run) }
qed simp_all

lemma flag_run_symbols_count:
  "\<forall>(v, n) \<in> set runs. 0 < n \<Longrightarrow> length (flag_run_symbols runs) \<le> length (expand_flags runs)"
proof (induction runs)
  case (Cons run runs)
  then show ?case using length_count_symbols [of "snd run"] by (cases run) auto
qed simp

lemma sizes_symbols_count:
  "per_state st (sizes_symbols prefix p vs) \<le> length vs" "length (sizes_symbols prefix p vs) \<le> 2 * length vs"
proof (induction vs arbitrary: p)
  case (Cons v vs)
  have a: "per_state st (size_symbols n) \<le> 1" "length (size_symbols n) \<le> 2" for n
    by (simp_all add: size_symbols_arith)
  have b: "per_state st (delta_symbols d) \<le> 1" "length (delta_symbols d) \<le> 2" for d
    by (simp_all add: delta_symbols_arith)
  { case 1
    show ?case using Cons(1) [of v] a(1) [of "unat v"] b(1) [of "uint v - uint p"] by (cases prefix) simp_all }
  { case 2
    show ?case using Cons(2) [of v] a(2) [of "unat v"] b(2) [of "uint v - uint p"] by (cases prefix) simp_all }
qed simp_all

section \<open>The packets of a finished model\<close>

definition tables_of :: "entropy_model \<Rightarrow> hcode list list" where
  "tables_of m = map (\<lambda>b. case builder_finish b of Inr codes \<Rightarrow> codes | Inl _ \<Rightarrow> []) (em_builders m)"

text \<open>A model whose states are small enough for every table to be coded.\<close>

definition model_small :: "entropy_model \<Rightarrow> bool" where
  "model_small m \<longleftrightarrow> model_ok m \<and> length (em_symbols m) < 2 ^ 32 \<and>
     (\<forall>st < length (em_builders m). per_state st (em_symbols m) < 3524578)"

lemma model_small_tables:
  assumes small: "model_small m" and st: "st < length (em_builders m)"
  shows "builder_finish (em_builders m ! st) = Inr (tables_of m ! st)"
    and "codable (tables_of m ! st)"
    and "set (map hc_symbol (tables_of m ! st)) = set (counted (em_builders m ! st))"
proof -
  obtain codes where codes: "builder_finish (em_builders m ! st) = Inr codes"
    "set (map hc_symbol codes) = set (counted (em_builders m ! st))" "codes = [] \<or> code_table codes"
    using builder_finish_spec [of "em_builders m ! st"] by blast
  have tables: "tables_of m ! st = codes" using st codes(1) by (simp add: tables_of_def)
  have "total_count (em_builders m ! st) < 3524578"
    using small st by (auto simp: model_small_def intro: le_less_trans [OF total_count_le])
  then have "codes \<noteq> [] \<Longrightarrow> hc_bits (last codes) < 31" using builder_short [OF codes(1)] by simp
  with codes show "builder_finish (em_builders m ! st) = Inr (tables_of m ! st)" "codable (tables_of m ! st)"
    "set (map hc_symbol (tables_of m ! st)) = set (counted (em_builders m ! st))"
    by (auto simp: tables codable_def)
qed

lemma model_small_coded: "model_small m \<Longrightarrow> coded_by (tables_of m) (em_symbols m)"
proof (clarsimp simp: coded_by_def)
  fix st sy assume small: "model_small m" and mem: "(st, sy) \<in> set (em_symbols m)"
  then have st: "st < length (em_builders m)" by (auto simp: model_small_def model_ok_def)
  have "unat sy \<in> set (counted (em_builders m ! st))"
    using model_counted [OF _ mem] small by (simp add: model_small_def)
  then show "st < length (tables_of m) \<and> unat sy \<in> hc_symbol ` set (tables_of m ! st)"
    using model_small_tables(3) [OF small st] st by (simp add: tables_of_def)
qed

definition table_bits :: "hcode list \<Rightarrow> bool list" where
  "table_bits codes = (case code_fields codes of Inr fs \<Rightarrow> field_bits fs | Inl _ \<Rightarrow> [])"

lemma write_tables_spec:
  assumes "list_all2 (\<lambda>b codes. builder_finish b = Inr codes \<and> codable codes) bs tables" and "packer_inv p"
  obtains p' where "write_tables bs p = Inr (tables, p')" and "packer_inv p'"
    and "packer_bits p' = packer_bits p @ concat (map table_bits tables)"
  using assms
proof (induction bs tables arbitrary: p thesis rule: list_all2_induct)
  case Nil
  then show ?case by simp
next
  case (Cons b bs codes tables)
  obtain fs where fs: "code_fields codes = Inr fs" "\<forall>(n, v) \<in> set fs. n < 31"
    using code_fields_widths Cons.hyps(1) by blast
  from pk.put_fields_obtain [OF Cons.prems(2) fs(2)] obtain p1 where
    p1: "write_fields packer_u fs p = Inr p1" "packer_inv p1" "packer_bits p1 = packer_bits p @ field_bits fs" by blast
  from Cons.IH [OF _ p1(2)] obtain p' where
    "write_tables bs p1 = Inr (tables, p')" "packer_inv p'" "packer_bits p' = packer_bits p1 @ concat (map table_bits tables)"
    by blast
  moreover have "table_bits codes = field_bits fs" using fs(1) by (simp add: table_bits_def)
  ultimately show ?case using fs(1) p1 Cons.hyps(1) Cons.prems(1) by (simp add: write_codes_def)
qed

lemma start_tables_spec:
  assumes "\<forall>codes \<in> set tables. codable codes" and "unpacker_inv b"
    and "pending b = concat (map table_bits tables) @ bs"
  obtains ds b' where "start_tables (replicate (length tables) decoder_new) b = Inr (ds, b')"
    and "list_all2 holds_codes tables ds" and "unpacker_inv b'" and "pending b' = bs"
  using assms
proof (induction tables arbitrary: b thesis)
  case Nil
  then show ?case by simp
next
  case (Cons codes tables)
  have codable: "codable codes" using Cons.prems(2) by simp
  then obtain fs where fs: "code_fields codes = Inr fs" using code_fields_widths by blast
  have "pending b = field_bits fs @ (concat (map table_bits tables) @ bs)"
    using Cons.prems(4) fs by (simp add: table_bits_def [of codes])
  with read_codes_spec [OF codable fs Cons.prems(3)] obtain d b1 where
    d: "read_codes decoder_new b = Inr (d, b1)" "holds_codes codes d" "unpacker_inv b1"
      "pending b1 = concat (map table_bits tables) @ bs" by blast
  have "\<forall>codes \<in> set tables. codable codes" using Cons.prems(2) by simp
  from Cons.IH [OF _ this d(3,4)] obtain ds b' where
    "start_tables (replicate (length tables) decoder_new) b1 = Inr (ds, b')" "list_all2 holds_codes tables ds"
    "unpacker_inv b'" "pending b' = bs" by blast
  with d Cons.prems(1) show ?case by simp
qed

lemma bits_of_ucast_byte: "bits_of 8 (ucast (sy :: u8) :: u32) = bits_of 8 sy"
  by (rule nth_equalityI) (auto simp: nth_bits_of bit_ucast_iff)

lemma write_both_spec:
  assumes "coded_by tables xs" and "\<forall>codes \<in> set tables. codable codes" and "packer_inv raw" and "packer_inv huff"
  obtains raw' huff' where "fold_result (write_both tables) xs (raw, huff) = Inr (raw', huff')"
    and "packer_inv raw'" and "packer_inv huff'" and "packer_bits raw' = packer_bits raw @ byte_bits xs"
    and "packer_bits huff' = packer_bits huff @ prefix_bits tables xs"
  using assms
proof (induction xs arbitrary: raw huff thesis)
  case Nil
  then show ?case by simp
next
  case (Cons x xs)
  obtain st sy where x: "x = (st, sy)" by force
  obtain c where c: "st < length tables" "c \<in> set (tables ! st)" "unat sy = hc_symbol c"
    using Cons.prems(2) by (auto simp: coded_by_def x)
  have codable: "codable (tables ! st)" using Cons.prems(3) c(1) by simp
  obtain raw1 where raw1: "packer_u raw 8 (ucast sy) = Inr raw1" "packer_inv raw1"
    "packer_bits raw1 = packer_bits raw @ bits_of 8 sy"
    using pk.put_appends [OF Cons.prems(4), of 8 "ucast sy"] by (auto simp: bits_of_ucast_byte)
  obtain huff1 where huff1: "write_symbol (tables ! st) huff (unat sy) = Inr huff1" "packer_inv huff1"
    "packer_bits huff1 = packer_bits huff @ bits_of (hc_bits c) (hc_value c)"
    using write_symbol_spec [OF codable c(2) Cons.prems(5)] unfolding c(3) by blast
  have word: "code_word (tables ! st) (unat sy) = bits_of (hc_bits c) (hc_value c)"
    using codable c(2,3) by (auto simp: codable_def code_table_def intro: code_word_find)
  have "coded_by tables xs" using Cons.prems(2) by (simp add: coded_by_def)
  from Cons.IH [OF _ this Cons.prems(3) raw1(2) huff1(2)] obtain raw' huff' where
    "fold_result (write_both tables) xs (raw1, huff1) = Inr (raw', huff')" "packer_inv raw'" "packer_inv huff'"
    "packer_bits raw' = packer_bits raw1 @ byte_bits xs" "packer_bits huff' = packer_bits huff1 @ prefix_bits tables xs"
    by blast
  with raw1 huff1 word Cons.prems(1) show ?case by (simp add: x write_both_def)
qed

lemma packer_finish_not_empty:
  assumes "packer_inv p" and "packer_finish p = Inr pkt"
  shows "\<not> packet_empty pkt"
proof -
  obtain pkt' where "packer_finish p = Inr pkt'" "\<not> packet_empty pkt'" using packer_finish_spec [OF assms(1)] by blast
  with assms(2) show ?thesis by simp
qed

text \<open>
  A chunk carries symbols after a prologue, the same bits in both packets: empty, or the byte
  that starts a list of flags.
\<close>

definition chunk_carries :: "hcode list list \<Rightarrow> bool list \<Rightarrow> (nat \<times> u8) list \<Rightarrow> encoded_chunk \<Rightarrow> bool" where
  "chunk_carries tables pro xs c \<longleftrightarrow> \<not> chunk_empty c \<and>
     (\<exists>b pad. unpacker_new (ck_raw c) = Inr b \<and> unpacker_inv b \<and> up_bit_offset b = 0 \<and>
        pending b = pro @ byte_bits xs @ pad) \<and>
     (\<exists>b pad. unpacker_new (ck_prefix c) = Inr b \<and> unpacker_inv b \<and>
        pending b = concat (map table_bits tables) @ pro @ prefix_bits tables xs @ pad) \<and>
     packet_wf (ck_raw c) \<and> packet_wf (ck_prefix c) \<and> length pro + 8 * length xs \<le> 8 * pkt_size (ck_raw c) \<and>
     8 * pkt_size (ck_raw c) < length pro + 8 * length xs + 8 \<and>
     (concat (map table_bits tables) @ pro \<noteq> [] \<longrightarrow> 0 < pkt_size (ck_prefix c))"

lemma length_byte_bits: "length (byte_bits xs) = 8 * length xs"
  by (induction xs) (auto simp: byte_bits_def)

lemma packer_finish_size:
  assumes "packer_inv w" and "packer_finish w = Inr pkt"
  shows "packet_wf pkt" and "8 * pkt_size pkt < length (packer_bits w) + 8" and "length (packer_bits w) \<le> 8 * pkt_size pkt"
proof -
  obtain bytes where *: "packet_view pkt = Inr bytes" "length bytes = packer_byte_size w"
    using packer_finish_spec [OF assms(1)] assms(2) by (metis sum.inject(2))
  show wf: "packet_wf pkt"
    using assms(2) by (auto simp: packer_finish_def packer_emit_def contents_bytes_def buffer_from_def
        packet_finish_def packet_wf_def Let_def split: if_splits)
  with * have "pkt_size pkt = packer_byte_size w" using packet_view_total by fastforce
  then show "8 * pkt_size pkt < length (packer_bits w) + 8" "length (packer_bits w) \<le> 8 * pkt_size pkt"
    unfolding length_packer_bits packer_byte_size_def by linarith+
qed

text \<open>
  A chunk is the empty one, or has two packets within their buffers, neither of size 0, the raw
  one of less than 8,000,000 bytes.
\<close>

definition chunk_ok :: "encoded_chunk \<Rightarrow> bool" where
  "chunk_ok c \<longleftrightarrow> c = chunk_none \<or> \<not> chunk_empty c \<and>
     packet_wf (ck_raw c) \<and> packet_wf (ck_prefix c) \<and> 0 < pkt_size (ck_raw c) \<and> 0 < pkt_size (ck_prefix c) \<and>
     pkt_size (ck_raw c) < 8000000"

lemma chunk_carries_ok:
  assumes "chunk_carries tables pro xs c" and "length pro \<le> 8" and "length xs < 7999990" and "pro \<noteq> [] \<or> xs \<noteq> []"
    and "concat (map table_bits tables) @ pro \<noteq> []"
  shows "chunk_ok c"
proof -
  have "0 < length pro + 8 * length xs" using assms(4) by auto
  moreover have "length pro + 8 * length xs \<le> 8 * pkt_size (ck_raw c)" "8 * pkt_size (ck_raw c) < length pro + 8 * length xs + 8"
    using assms(1) by (simp_all add: chunk_carries_def)
  ultimately have "0 < pkt_size (ck_raw c)" "pkt_size (ck_raw c) < 8000000" using assms(2,3) by linarith+
  with assms(1,5) show ?thesis by (auto simp: chunk_carries_def chunk_ok_def)
qed

lemma bits_of_eq_Nil: "bits_of n v = [] \<longleftrightarrow> n = 0"
  by (metis length_0_conv length_bits_of)

lemma table_bits_not_empty:
  assumes "codable codes"
  shows "table_bits codes \<noteq> []"
proof -
  obtain fs where "code_fields codes = Inr fs" by (rule code_fields_widths [OF assms])
  then show ?thesis
    by (auto simp: table_bits_def code_fields_def field_bits_def bits_of_eq_Nil Let_def rbind_eq_Inr split: if_splits)
qed

lemma tables_bits_not_empty: "\<forall>codes \<in> set tables. codable codes \<Longrightarrow> tables \<noteq> [] \<Longrightarrow> concat (map table_bits tables) \<noteq> []"
  using table_bits_not_empty by (cases tables) auto

lemma chunk_none_ok: "chunk_ok chunk_none"
  by (simp add: chunk_ok_def)

lemma write_chunk:
  assumes "coded_by tables xs" and "\<forall>codes \<in> set tables. codable codes" and "packer_inv raw" and "packer_inv huff"
    and "packer_bits raw = pro" and "packer_bits huff = concat (map table_bits tables) @ pro"
  obtains c where "rbind (fold_result (write_both tables) xs (raw, huff)) finish_chunk = Inr c"
    and "chunk_carries tables pro xs c"
proof -
  obtain raw' huff' where w: "fold_result (write_both tables) xs (raw, huff) = Inr (raw', huff')" "packer_inv raw'"
    "packer_inv huff'" "packer_bits raw' = pro @ byte_bits xs"
    "packer_bits huff' = concat (map table_bits tables) @ pro @ prefix_bits tables xs"
    using write_both_spec [OF assms(1-4)] assms(5,6) by (metis append_assoc)
  obtain b k where b: "through_packet raw' = Inr b" "unpacker_inv b"
    "pending b = packer_bits raw' @ replicate k False" "up_bit_offset b = 0"
    using through_packet_spec [OF w(2)] by metis
  obtain h j where h: "through_packet huff' = Inr h" "unpacker_inv h"
    "pending h = packer_bits huff' @ replicate j False"
    using through_packet_spec [OF w(3)] by metis
  obtain r p where rp: "packer_finish raw' = Inr r" "packer_finish huff' = Inr p"
    "unpacker_new r = Inr b" "unpacker_new p = Inr h"
    using b(1) h(1) by (auto simp: through_packet_def)
  define c where "c = \<lparr>ck_raw = r, ck_prefix = p\<rparr>"
  have enc: "rbind (fold_result (write_both tables) xs (raw, huff)) finish_chunk = Inr c"
    using w(1) rp(1,2) by (simp add: finish_chunk_def c_def)
  have "0 < pkt_size p" if "concat (map table_bits tables) @ pro \<noteq> []"
    using that packer_finish_size(3) [OF w(3) rp(2)] unfolding w(5) by (cases "pkt_size p") auto
  then have "chunk_carries tables pro xs c"
    unfolding chunk_carries_def c_def chunk_empty_def
    using packer_finish_not_empty [OF w(2) rp(1)] b(2-4) h(2,3) rp(3,4) w(4,5)
      packer_finish_size [OF w(2) rp(1)] packer_finish_size(1,3) [OF w(3) rp(2)]
    by (auto simp: length_byte_bits simp del: length_packer_bits)
  with enc show thesis by (rule that)
qed

lemma tables_written:
  assumes "model_small m"
  obtains p where "write_tables (em_builders m) packer_new = Inr (tables_of m, p)" and "packer_inv p"
    and "packer_bits p = concat (map table_bits (tables_of m))"
proof -
  have "list_all2 (\<lambda>b codes. builder_finish b = Inr codes \<and> codable codes) (em_builders m) (tables_of m)"
    using model_small_tables [OF assms] by (simp add: list_all2_conv_all_nth tables_of_def)
  from write_tables_spec [OF this, of packer_new] that show thesis by auto
qed

lemma tables_codable: "model_small m \<Longrightarrow> \<forall>codes \<in> set (tables_of m). codable codes"
  using model_small_tables(2) by (fastforce simp: in_set_conv_nth tables_of_def)

lemma model_finish_spec:
  assumes "model_small m"
  obtains c where "model_finish m = Inr c" and "chunk_carries (tables_of m) [] (em_symbols m) c"
proof -
  obtain p where p: "write_tables (em_builders m) packer_new = Inr (tables_of m, p)" "packer_inv p"
    "packer_bits p = concat (map table_bits (tables_of m))" using tables_written [OF assms] by blast
  from write_chunk [OF model_small_coded [OF assms] tables_codable [OF assms] _ p(2), of packer_new "[]"] p(3)
  obtain c where "rbind (fold_result (write_both (tables_of m)) (em_symbols m) (packer_new, p)) finish_chunk = Inr c"
    "chunk_carries (tables_of m) [] (em_symbols m) c" by auto
  with p(1) that show thesis by (simp add: model_finish_def)
qed

abbreviation start_byte :: "bool \<Rightarrow> bool list" where
  "start_byte v \<equiv> bits_of 8 (if v then 1 else 0 :: u32)"

lemma flag_finish_spec:
  assumes "model_small m"
  obtains c where "flag_finish v m = Inr c" and "chunk_carries (tables_of m) (start_byte v) (em_symbols m) c"
proof -
  obtain p where p: "write_tables (em_builders m) packer_new = Inr (tables_of m, p)" "packer_inv p"
    "packer_bits p = concat (map table_bits (tables_of m))" using tables_written [OF assms] by blast
  obtain raw where raw: "packer_u packer_new 8 (if v then 1 else 0) = Inr raw" "packer_inv raw"
    "packer_bits raw = start_byte v"
    using pk.put_appends [of packer_new 8 "if v then 1 else 0"] by auto
  obtain huff where huff: "packer_u p 8 (if v then 1 else 0) = Inr huff" "packer_inv huff"
    "packer_bits huff = concat (map table_bits (tables_of m)) @ start_byte v"
    using pk.put_appends [OF p(2), of 8 "if v then 1 else 0"] p(3) by auto
  from write_chunk [OF model_small_coded [OF assms] tables_codable [OF assms] raw(2) huff(2) raw(3) huff(3)]
  obtain c where "rbind (fold_result (write_both (tables_of m)) (em_symbols m) (raw, huff)) finish_chunk = Inr c"
    "chunk_carries (tables_of m) (start_byte v) (em_symbols m) c" by auto
  with p(1) raw(1) huff(1) that show thesis by (simp only: flag_finish_def rbind.simps prod.case)
qed

text \<open>Opening one of the two packets.\<close>

definition chunk_packet :: "bool \<Rightarrow> encoded_chunk \<Rightarrow> packet" where
  "chunk_packet rle_only c = (if rle_only then ck_raw c else ck_prefix c)"

definition either_carries :: "bool \<Rightarrow> (nat \<times> u8) list \<Rightarrow> source_state \<Rightarrow> bool" where
  "either_carries rle_only xs s = (if rle_only then raw_carries xs s else prefix_carries xs s)"

interpretation either: symbol_stream source_get "either_carries rle_only" for rle_only
proof unfold_locales
  fix st sy xs s assume "either_carries rle_only ((st, sy) # xs) s"
  then show "\<exists>s'. source_get st s = Inr (ucast sy, s') \<and> either_carries rle_only xs s'"
    using raw.get_next huffman.get_next by (cases rle_only) (simp_all add: either_carries_def)
qed

lemma open_chunk:
  assumes small: "model_small m" and c: "chunk_carries (tables_of m) [] (em_symbols m) c"
    and n: "length (em_builders m) = n" and b: "unpacker_new (chunk_packet rle c) = Inr b"
  obtains s where "source_start (create_symbol_source n True rle b k) = Inr s"
    and "either_carries rle (em_symbols m) s"
proof (cases rle)
  case True
  with b c have "unpacker_inv b" "up_bit_offset b = 0" "\<exists>pad. pending b = byte_bits (em_symbols m) @ pad"
    by (auto simp: chunk_carries_def chunk_packet_def)
  with True that [of "(Source_Raw, b)"] show thesis
    by (auto simp: create_symbol_source_def either_carries_def raw_carries_def)
next
  case False
  with b c obtain pad where pend: "unpacker_inv b"
    "pending b = concat (map table_bits (tables_of m)) @ prefix_bits (tables_of m) (em_symbols m) @ pad"
    by (auto simp: chunk_carries_def chunk_packet_def)
  have len: "length (tables_of m) = n" using n by (simp add: tables_of_def)
  from start_tables_spec [OF tables_codable [OF small] pend] obtain ds b' where
    ds: "start_tables (replicate (length (tables_of m)) decoder_new) b = Inr (ds, b')"
      "list_all2 holds_codes (tables_of m) ds" "unpacker_inv b'"
      "pending b' = prefix_bits (tables_of m) (em_symbols m) @ pad" by blast
  have "prefix_carries (em_symbols m) (Source_Huffman ds, b')"
    using ds(2-4) tables_codable [OF small] model_small_coded [OF small] by (auto simp: prefix_carries_def)
  with False ds(1) len that [of "(Source_Huffman ds, b')"] show thesis
    by (simp add: create_symbol_source_def either_carries_def)
qed

lemma open_flag_chunk:
  assumes small: "model_small m" and c: "chunk_carries (tables_of m) (start_byte v) (em_symbols m) c"
    and n: "length (em_builders m) = n" and b: "unpacker_new (chunk_packet rle c) = Inr b"
  obtains s0 w s where "source_start (create_symbol_source n True rle b k) = Inr s0"
    and "source_get_byte s0 = Inr (w, s)" and "w \<noteq> 0 \<longleftrightarrow> v" and "either_carries rle (em_symbols m) s"
proof (cases rle)
  case True
  with b c obtain pad where pend: "unpacker_inv b" "up_bit_offset b = 0"
    "pending b = start_byte v @ byte_bits (em_symbols m) @ pad"
    by (auto simp: chunk_carries_def chunk_packet_def)
  then have "8 \<le> length (pending b)" by simp
  with pend obtain x b' where x: "unpacker_byte b = Inr (x, b')" "bits_of 8 x = take 8 (pending b)"
    "pending b' = drop 8 (pending b)" "unpacker_inv b'" "up_bit_offset b' mod 8 = 0"
    by (metis unpacker_byte_spec mod_0)
  have "bits_of 8 x = bits_of 8 (if v then 1 else 0 :: u8)"
    using x(2) pend(3) bits_of_ucast_byte [of "if v then 1 else 0"] by (simp split: if_splits)
  then have "x = (if v then 1 else 0)" by (rule bits_of_byte_inj)
  then have "(ucast x :: u32) \<noteq> 0 \<longleftrightarrow> v" by simp
  with True x pend(3) that [of "(Source_Raw, b)" "ucast x" "(Source_Raw, b')"] show thesis
    by (auto simp: create_symbol_source_def either_carries_def raw_carries_def)
next
  case False
  with b c obtain pad where pend: "unpacker_inv b"
    "pending b = concat (map table_bits (tables_of m)) @ start_byte v @ prefix_bits (tables_of m) (em_symbols m) @ pad"
    by (auto simp: chunk_carries_def chunk_packet_def)
  have len: "length (tables_of m) = n" using n by (simp add: tables_of_def)
  from start_tables_spec [OF tables_codable [OF small] pend] obtain ds b1 where
    ds: "start_tables (replicate (length (tables_of m)) decoder_new) b = Inr (ds, b1)"
      "list_all2 holds_codes (tables_of m) ds" "unpacker_inv b1"
      "pending b1 = start_byte v @ prefix_bits (tables_of m) (em_symbols m) @ pad" by blast
  from up.get_field [OF ds(3) _ ds(4)] obtain b' where
    b': "unpacker_u b1 8 = Inr (take_bit 8 (if v then 1 else 0), b')" "unpacker_inv b'"
      "pending b' = prefix_bits (tables_of m) (em_symbols m) @ pad" by auto
  have "prefix_carries (em_symbols m) (Source_Huffman ds, b')"
    using ds(2) b'(2,3) tables_codable [OF small] model_small_coded [OF small] by (auto simp: prefix_carries_def)
  moreover have "(take_bit 8 (if v then 1 else 0) :: u32) \<noteq> 0 \<longleftrightarrow> v" by simp
  ultimately show thesis
    using False ds(1) len b'(1)
      that [of "(Source_Huffman ds, b1)" "take_bit 8 (if v then 1 else 0)" "(Source_Huffman ds, b')"]
    by (simp add: create_symbol_source_def either_carries_def)
qed

text \<open>A model that received symbols from the start.\<close>

lemma emit_small:
  assumes "\<forall>(st, sy) \<in> set xs. st < n \<and> sy < max_symbol" and "\<And>st. per_state st xs < 3524578"
    and "length xs < 2 ^ 32"
  obtains m where "emit xs (model_new n) = Inr m" and "model_small m" and "length (em_builders m) = n"
    and "em_symbols m = map (\<lambda>(st, sy). (st, word_of_nat sy)) xs"
proof -
  have "\<forall>(st, sy) \<in> set xs. st < length (em_builders (model_new n)) \<and> sy < max_symbol"
    using assms(1) by (simp add: model_new_def)
  from emit_spec [OF model_ok_new this] obtain m where m: "emit xs (model_new n) = Inr m" "model_ok m"
    "length (em_builders m) = n" "em_symbols m = map (\<lambda>(st, sy). (st, word_of_nat sy)) xs"
    by (auto simp: model_new_def)
  with assms(2,3) that show thesis by (simp add: model_small_def)
qed

section \<open>Residuals\<close>

lemma zero_pixels: "produced (residual_pixel source_get) ps (0, Source_Constant 64, b) (replicate (length ps) 0) (0, Source_Constant 64, b)"
proof -
  have "decode_pel source_get (Source_Constant 64, b) = Some (Inr ((0, 0), Source_Constant 64, b))"
    using pel_byte [of 32 0] sym_low_bit [of 64] sym_high_bit [of 64] by (simp add: decode_pel_def)
  then show ?thesis by (induction ps) (simp_all add: residual_pixel_def)
qed

lemma run_symbols_not_empty: "vs \<noteq> [] \<Longrightarrow> run_symbols (runs_of vs) \<noteq> []"
proof -
  have "run_symbols (residual_runs r z rs) \<noteq> []" for r z rs
    by (induction r z rs rule: residual_runs.induct) (auto simp: residual_symbols_def Let_def)
  then show "vs \<noteq> [] \<Longrightarrow> run_symbols (runs_of vs) \<noteq> []" by (cases vs) (auto simp: runs_of_def)
qed

lemma residuals_scan_roundtrip:
  assumes scan: "plane_scan view ps" and ne: "ps \<noteq> []" and small: "length ps < 3524578"
  defines "w \<equiv> sf_width view" and "h \<equiv> sf_height view"
  obtains c where "rbind (fold_result (residual_step view) ps residual_scan_new) residual_finish = Inr c"
    and "chunk_ok c" and "\<And>rle b. \<not> chunk_empty c \<longrightarrow> unpacker_new (chunk_packet rle c) = Inr b \<Longrightarrow>
      \<exists>b'. decode_residuals_scan ps (Inr ()) w h (\<not> chunk_empty c) rle b =
        Some (Inr (surface_of w h (\<lambda>x y. clamp_residual (pixel view x y)), b'))"
proof -
  let ?vs = "scanned view ps" and ?g = "\<lambda>x y. clamp_residual (pixel view x y)"
  let ?xs = "run_symbols (runs_of ?vs)"
  have dist: "distinct ps" "set ps = {0..<w} \<times> {0..<h}" using scan by (simp_all add: plane_scan_def w_def h_def)
  have vs: "?vs \<noteq> []" "map (\<lambda>(x, y). ?g x y) ps = map clamp_residual ?vs"
    using ne by (auto simp: scanned_def)
  have exp: "expand (runs_of ?vs) = map clamp_residual ?vs" by (rule expand_runs_of [OF vs(1)])
  then have count: "per_state st ?xs < 3524578" "length ?xs < 2 ^ 32" for st
    using run_symbols_count(1) [of st "runs_of ?vs"] run_symbols_count(2) [of "runs_of ?vs"] small
    by (simp_all add: scanned_def)
  obtain m where m: "emit ?xs (model_new 3) = Inr m" "model_small m" "length (em_builders m) = 3"
    "em_symbols m = map (\<lambda>(st, sy). (st, word_of_nat sy)) ?xs"
    using emit_small [OF run_symbols_byte count] by blast
  note enc = residual_scan_whole [OF scan, unfolded m(1) rbind.simps]
  show thesis
  proof (cases "\<exists>r \<in> set ?vs. r \<noteq> 0")
    case False
    then have zero: "map clamp_residual ?vs = replicate (length ps) 0"
      by (auto simp: scanned_def list_eq_iff_nth_eq)
    have "\<exists>b'. decode_residuals_scan ps (Inr ()) w h False rle b = Some (Inr (surface_of w h ?g, b'))" for rle b
    proof -
      have "produced (residual_pixel source_get) ps (0, Source_Constant 64, b) (map (\<lambda>(x, y). ?g x y) ps) (0, Source_Constant 64, b)"
        unfolding vs(2) zero by (rule zero_pixels)
      then obtain dest where
        "scan_pixels (residual_pixel source_get) ps ((0, Source_Constant 64, b), surface_reserve w h) =
           Some (Inr ((0, Source_Constant 64, b), dest))"
        "surface_finish dest = Inr (surface_of w h ?g)" by (rule scan_pixels_finish [OF _ dist])
      then show ?thesis by (simp add: decode_residuals_scan_def create_symbol_source_def)
    qed
    with enc False that [of chunk_none] chunk_none_ok show thesis
      by (simp add: chunk_none_def chunk_empty_def packet_empty_def packet_default_def)
  next
    case True
    obtain c where c: "model_finish m = Inr c" "chunk_carries (tables_of m) [] (em_symbols m) c"
      by (rule model_finish_spec [OF m(2)])
    have "\<exists>b'. decode_residuals_scan ps (Inr ()) w h True rle b = Some (Inr (surface_of w h ?g, b'))"
      if b: "unpacker_new (chunk_packet rle c) = Inr b" for rle b
    proof -
      obtain s where s: "source_start (create_symbol_source 3 True rle b 64) = Inr s" "either_carries rle (em_symbols m) s"
        by (rule open_chunk [OF m(2) c(2) m(3) b])
      have carry: "either_carries rle (map (\<lambda>(st, sy). (st, word_of_nat sy)) ?xs @ []) s" using s(2) m(4) by simp
      have bound: "\<forall>(r, z) \<in> set (runs_of ?vs). z < 2 ^ 32"
        using residual_runs_bound small vs(1)
        by (cases ?vs) (fastforce simp: runs_of_def scanned_def)+
      have "length ps = 0 + length (expand (runs_of ?vs))" unfolding exp by (simp add: scanned_def)
      from either.residuals_produced [OF carry _ bound this] obtain c' where
        "produced (residual_pixel source_get) ps (0, s) (map (\<lambda>(x, y). ?g x y) ps) c'"
        by (auto simp: exp vs(2))
      from scan_pixels_finish [OF this dist] obtain dest where
        "scan_pixels (residual_pixel source_get) ps ((0, s), surface_reserve w h) = Some (Inr (c', dest))"
        "surface_finish dest = Inr (surface_of w h ?g)" .
      with s(1) show ?thesis by (cases c') (simp add: decode_residuals_scan_def)
    qed
    moreover have "\<not> chunk_empty c" using c(2) by (simp add: chunk_carries_def)
    moreover have "chunk_ok c"
    proof (rule chunk_carries_ok [OF c(2)])
      have "length (em_symbols m) \<le> 2 * length ps"
        using run_symbols_count(2) [of "runs_of ?vs"] m(4) unfolding exp by (simp add: scanned_def)
      with small show "length (em_symbols m) < 7999990" by simp
      show "[] \<noteq> ([] :: bool list) \<or> em_symbols m \<noteq> []"
        using run_symbols_not_empty [OF vs(1)] m(4) by simp
      show "concat (map table_bits (tables_of m)) @ [] \<noteq> []"
      proof -
        have "length (tables_of m) = 3" using m(3) by (simp add: tables_of_def)
        then have "tables_of m \<noteq> []" by auto
        with tables_bits_not_empty [OF tables_codable [OF m(2)]] show ?thesis by simp
      qed
    qed simp
    ultimately show thesis using enc True c(1) that [of c] by simp
  qed
qed

lemma residuals_coded:
  assumes "0 < sf_width view" and "0 < sf_height view" and "sf_height view * sf_width view < 3524578"
  shows "\<exists>c. encode_residuals view = Inr c \<and> chunk_ok c \<and>
    (\<forall>rle b. (\<not> chunk_empty c \<longrightarrow> unpacker_new (chunk_packet rle c) = Inr b) \<longrightarrow>
      (\<exists>b'. decode_residuals (sf_width view) (sf_height view) (\<not> chunk_empty c) rle b =
        Some (Inr (surface_of (sf_width view) (sf_height view) (\<lambda>x y. clamp_residual (pixel view x y)), b'))))"
proof -
  have "plane_scan view (raster (sf_width view) (sf_height view))" using assms(3) by (intro area_scan) simp
  moreover have "raster (sf_width view) (sf_height view) \<noteq> []" using raster_Cons [OF assms(1,2)] by auto
  moreover have "length (raster (sf_width view) (sf_height view)) < 3524578" using assms(3) by simp
  ultimately obtain c where "encode_residuals view = Inr c" "chunk_ok c"
    "\<And>rle b. \<not> chunk_empty c \<longrightarrow> unpacker_new (chunk_packet rle c) = Inr b \<Longrightarrow>
      \<exists>b'. decode_residuals (sf_width view) (sf_height view) (\<not> chunk_empty c) rle b =
        Some (Inr (surface_of (sf_width view) (sf_height view) (\<lambda>x y. clamp_residual (pixel view x y)), b'))"
    using residuals_scan_roundtrip [of view "raster (sf_width view) (sf_height view)"] assms(1)
    by (simp add: encode_residuals_def decode_residuals_def row_pointers_def) blast
  then show ?thesis by blast
qed

text \<open>
  C5: a surface of fewer than 3,524,578 residuals, encoded in raster order, comes back from the
  decoder with every residual clamped to [-8192, 8191], from the raw packet and from the prefix
  coded packet alike; a surface of zeros gives an empty chunk and comes back without a packet.
\<close>

theorem residuals_roundtrip:
  assumes "0 < sf_width view" and "0 < sf_height view" and "sf_height view * sf_width view < 3524578"
  shows "\<exists>c. encode_residuals view = Inr c \<and>
    (\<forall>rle b. (\<not> chunk_empty c \<longrightarrow> unpacker_new (chunk_packet rle c) = Inr b) \<longrightarrow>
      (\<exists>b'. decode_residuals (sf_width view) (sf_height view) (\<not> chunk_empty c) rle b =
        Some (Inr (surface_of (sf_width view) (sf_height view) (\<lambda>x y. clamp_residual (pixel view x y)), b'))))"
  using residuals_coded [OF assms] by blast

theorem residuals_roundtrip_witness:
  "\<exists>c. encode_residuals \<lparr>sf_width = 2, sf_height = 1, sf_pixels = [9000, 0]\<rparr> = Inr c"
  using residuals_roundtrip [of "\<lparr>sf_width = 2, sf_height = 1, sf_pixels = [9000, 0]\<rparr>"] by auto

lemma residuals_tiled_coded:
  assumes "0 < sf_width view" and "0 < sf_height view" and "sf_height view * sf_width view < 3524578"
    and "0 < tbs" and "tbs \<le> 32"
  shows "\<exists>c. encode_residuals_tiled view tbs = Inr c \<and> chunk_ok c \<and>
    (\<forall>rle b. (\<not> chunk_empty c \<longrightarrow> unpacker_new (chunk_packet rle c) = Inr b) \<longrightarrow>
      (\<exists>b'. decode_residuals_tiled (sf_width view) (sf_height view) (\<not> chunk_empty c) rle b tbs =
        Some (Inr (surface_of (sf_width view) (sf_height view) (\<lambda>x y. clamp_residual (pixel view x y)), b'))))"
proof -
  let ?ps = "tiled (32 div tbs) (sf_width view) (sf_height view)"
  have d: "0 < 32 div tbs" using assms(4,5) by (simp add: div_greater_zero_iff)
  have "plane_scan view ?ps" using assms(3) by (intro area_scan d) simp
  moreover have "?ps \<noteq> []" using tiled_Cons [OF d assms(1,2)] by auto
  moreover have "length ?ps < 3524578"
    using distinct_card [OF distinct_tiled [OF d], of "sf_width view" "sf_height view"] assms(3)
    by (simp add: set_tiled [OF d] mult.commute)
  ultimately obtain c where "encode_residuals_tiled view tbs = Inr c" "chunk_ok c"
    "\<And>rle b. \<not> chunk_empty c \<longrightarrow> unpacker_new (chunk_packet rle c) = Inr b \<Longrightarrow>
      \<exists>b'. decode_residuals_tiled (sf_width view) (sf_height view) (\<not> chunk_empty c) rle b tbs =
        Some (Inr (surface_of (sf_width view) (sf_height view) (\<lambda>x y. clamp_residual (pixel view x y)), b'))"
    using residuals_scan_roundtrip [of view ?ps] assms(4,5)
    by (simp add: encode_residuals_tiled_def decode_residuals_tiled_def not_less) blast
  then show ?thesis by blast
qed

text \<open>
  C16: the same in coding unit order, tile by tile, for every transform block size from 1 to 32.
\<close>

theorem residuals_tiled_roundtrip:
  assumes "0 < sf_width view" and "0 < sf_height view" and "sf_height view * sf_width view < 3524578"
    and "0 < tbs" and "tbs \<le> 32"
  shows "\<exists>c. encode_residuals_tiled view tbs = Inr c \<and>
    (\<forall>rle b. (\<not> chunk_empty c \<longrightarrow> unpacker_new (chunk_packet rle c) = Inr b) \<longrightarrow>
      (\<exists>b'. decode_residuals_tiled (sf_width view) (sf_height view) (\<not> chunk_empty c) rle b tbs =
        Some (Inr (surface_of (sf_width view) (sf_height view) (\<lambda>x y. clamp_residual (pixel view x y)), b'))))"
  using residuals_tiled_coded [OF assms] by blast

theorem residuals_tiled_roundtrip_witness:
  "\<exists>c. encode_residuals_tiled \<lparr>sf_width = 2, sf_height = 1, sf_pixels = [9000, 0]\<rparr> 4 = Inr c"
  using residuals_tiled_roundtrip [of "\<lparr>sf_width = 2, sf_height = 1, sf_pixels = [9000, 0]\<rparr>" 4] by auto

section \<open>Flags\<close>

lemma flag_model:
  assumes "vs \<noteq> []" and "length vs < 3524578"
  obtains m v n rest where "emit (flag_run_symbols (flag_runs_of vs)) (model_new 2) = Inr m" and "model_small m"
    and "length (em_builders m) = 2"
    and "em_symbols m = map (\<lambda>(st, sy). (st, word_of_nat sy))
           (map (Pair (flag_state v)) (count_symbols n) @ flag_run_symbols rest)"
    and "v = start_flag vs" and "n < 2 ^ 32" and "alternating v rest" and "vs = replicate n v @ expand_flags rest"
    and "length (em_symbols m) < 3524578"
proof -
  obtain v ws where vs: "vs = v # ws" using assms(1) by (cases vs) auto
  obtain n rest where r: "flag_runs v 1 ws = (v, n) # rest" "n < 2 ^ 32" "alternating v rest"
    "replicate n v @ expand_flags rest = replicate 1 v @ ws"
    using flag_runs_alternating [of 1 ws v] assms(2) by (auto simp: vs)
  have runs: "flag_runs_of vs = (v, n) # rest" by (simp only: flag_runs_of_def vs list.case r(1))
  have pos: "alternating u runs \<Longrightarrow> \<forall>(v, n) \<in> set runs. 0 < n" for u runs
    by (induction u runs rule: alternating.induct) auto
  have "0 < n"
  proof (rule ccontr)
    assume "\<not> 0 < n"
    then have "expand_flags rest = v # ws" using r(4) by simp
    with r(3) show False by (cases rest) (auto simp: gr0_conv_Suc)
  qed
  with pos [OF r(3)] have "\<forall>(v, n) \<in> set (flag_runs_of vs). 0 < n" by (simp add: runs)
  moreover have exp: "expand_flags (flag_runs_of vs) = vs" unfolding runs using r(4) by (simp add: vs)
  ultimately have len: "length (flag_run_symbols (flag_runs_of vs)) \<le> length vs"
    using flag_run_symbols_count by metis
  have small: "per_state st (flag_run_symbols (flag_runs_of vs)) < 3524578" for st
    using per_state_le [of st "flag_run_symbols (flag_runs_of vs)"] len assms(2) by linarith
  obtain m where m: "emit (flag_run_symbols (flag_runs_of vs)) (model_new 2) = Inr m" "model_small m"
    "length (em_builders m) = 2" "em_symbols m = map (\<lambda>(st, sy). (st, word_of_nat sy)) (flag_run_symbols (flag_runs_of vs))"
    using emit_small [OF flag_run_symbols_byte small] len assms(2) by auto
  have "flag_run_symbols (flag_runs_of vs) = map (Pair (flag_state v)) (count_symbols n) @ flag_run_symbols rest"
    unfolding runs by simp
  note syms = m(4) [unfolded this]
  show thesis
    by (rule that [OF m(1-3) syms _ r(2,3)]) (use r(4) len assms(2) m(4) in \<open>simp_all add: start_flag_def vs\<close>)
qed

lemma flag_start_spec:
  assumes vs: "vs \<noteq> []" "length vs < 3524578"
  obtains m c where "emit (flag_run_symbols (flag_runs_of vs)) (model_new 2) = Inr m"
    and "flag_finish (start_flag vs) m = Inr c" and "\<not> chunk_empty c" and "chunk_ok c"
    and "\<forall>rle b. unpacker_new (chunk_packet rle c) = Inr b \<longrightarrow>
      (\<exists>s. flag_start (create_symbol_source 2 True rle b 0) = Some (Inr s) \<and> either.flags_left rle [] vs s)"
proof -
  obtain m v n rest where m: "emit (flag_run_symbols (flag_runs_of vs)) (model_new 2) = Inr m" "model_small m"
    "length (em_builders m) = 2"
    "em_symbols m = map (\<lambda>(st, sy). (st, word_of_nat sy)) (map (Pair (flag_state v)) (count_symbols n) @ flag_run_symbols rest)"
    "v = start_flag vs" "n < 2 ^ 32" "alternating v rest" "vs = replicate n v @ expand_flags rest"
    "length (em_symbols m) < 3524578"
    by (rule flag_model [OF vs])
  obtain c where c: "flag_finish v m = Inr c" "chunk_carries (tables_of m) (start_byte v) (em_symbols m) c"
    by (rule flag_finish_spec [OF m(2)])
  have "\<exists>s. flag_start (create_symbol_source 2 True rle b 0) = Some (Inr s) \<and> either.flags_left rle [] vs s"
    if b: "unpacker_new (chunk_packet rle c) = Inr b" for rle b
  proof -
    obtain s0 w s where s: "source_start (create_symbol_source 2 True rle b 0) = Inr s0"
      "source_get_byte s0 = Inr (w, s)" "w \<noteq> 0 \<longleftrightarrow> v" "either_carries rle (em_symbols m) s"
      by (rule open_flag_chunk [OF m(2) c(2) m(3) b])
    have "either_carries rle (map (\<lambda>(st, sy). (st, word_of_nat sy))
        (map (Pair (flag_state v)) (count_symbols n) @ flag_run_symbols rest) @ []) s" using s(4) m(4) by simp
    then obtain s1 where s1: "decode_run source_get v s = Some (Inr (word_of_nat n, s1))"
      "either_carries rle (map (\<lambda>(st, sy). (st, word_of_nat sy)) (flag_run_symbols rest) @ []) s1"
      by (rule either.decode_run_spec)
    let ?s = "\<lparr>fp_symbol = v, fp_count = word_of_nat n, fp_source = s1\<rparr>"
    have "flag_start (create_symbol_source 2 True rle b 0) = Some (Inr ?s)"
      using s(1-3) s1(1) by (simp add: flag_start_def)
    moreover have "either.flags_left rle [] vs ?s"
      unfolding either.flags_left_def using m(6-8) s1(2) by (intro exI [of _ n] exI [of _ rest]) simp
    ultimately show ?thesis by blast
  qed
  moreover have "\<not> chunk_empty c" using c(2) by (simp add: chunk_carries_def)
  moreover have "chunk_ok c" using m(9) by (intro chunk_carries_ok [OF c(2)]) (auto simp: bits_of_eq_Nil)
  ultimately show thesis using that m(1,5) c(1) by blast
qed

lemma flags_coded:
  assumes "0 < sf_width view" and "0 < sf_height view" and "sf_height view * sf_width view < 3524578"
  shows "\<exists>c. encode_flags view = Inr c \<and> chunk_ok c \<and>
    (\<forall>b. unpacker_new (ck_raw c) = Inr b \<longrightarrow>
      (\<exists>b'. decode_flags (sf_width view) (sf_height view) b =
        Some (Inr (surface_of (sf_width view) (sf_height view) (\<lambda>x y. if pixel view x y \<noteq> 0 then 255 else 0), b'))))"
proof -
  let ?w = "sf_width view" and ?h = "sf_height view"
  let ?ps = "raster ?w ?h"
  define vs where "vs = map (\<lambda>p. p \<noteq> 0) (scanned view ?ps)"
  have len: "length vs < 3524578" "length ?ps = length vs" using assms(3) by (simp_all add: vs_def scanned_def)
  have "vs \<noteq> []" using raster_Cons [OF assms(1,2)] by (metis list.map_disc_iff list.distinct(1) scanned_def vs_def)
  from flag_start_spec [OF this len(1)] obtain m c where
    c: "emit (flag_run_symbols (flag_runs_of vs)) (model_new 2) = Inr m" "flag_finish (start_flag vs) m = Inr c"
      "\<not> chunk_empty c" "chunk_ok c" "\<forall>rle b. unpacker_new (chunk_packet rle c) = Inr b \<longrightarrow>
        (\<exists>s. flag_start (create_symbol_source 2 True rle b 0) = Some (Inr s) \<and> either.flags_left rle [] vs s)" .
  have "encode_flags view = Inr c"
    using encode_flags_emits [of view] assms(3) c(1,2) by (simp add: vs_def)
  moreover have "\<exists>b'. decode_flags ?w ?h b = Some (Inr (surface_of ?w ?h (\<lambda>x y. if pixel view x y \<noteq> 0 then 255 else 0), b'))"
    if "unpacker_new (ck_raw c) = Inr b" for b
  proof -
    obtain s where s: "flag_start (create_symbol_source 2 True True b 0) = Some (Inr s)" "either.flags_left True [] (vs @ []) s"
      using c(5) [rule_format, of True b] \<open>unpacker_new (ck_raw c) = Inr b\<close> by (auto simp: chunk_packet_def)
    from either.flags_produced [OF s(2) len(2)] obtain s' where
      "produced (flags_pixel source_get) ?ps s (map (\<lambda>v. if v then 255 else 0) vs) s'" by blast
    moreover have "map (\<lambda>v. if v then 255 else 0) vs = map (\<lambda>(x, y). if pixel view x y \<noteq> 0 then 255 else 0 :: u8) ?ps"
      by (simp add: vs_def scanned_def split_beta)
    ultimately have "produced (flags_pixel source_get) ?ps s (map (\<lambda>(x, y). if pixel view x y \<noteq> 0 then 255 else 0) ?ps) s'"
      by (simp only:)
    then obtain dest where
      "scan_pixels (flags_pixel source_get) ?ps (s, surface_reserve ?w ?h) = Some (Inr (s', dest))"
      "surface_finish dest = Inr (surface_of ?w ?h (\<lambda>x y. if pixel view x y \<noteq> 0 then 255 else 0))"
      by (rule scan_pixels_finish [OF _ distinct_raster set_raster])
    with s(1) assms(1) show ?thesis by (simp add: decode_flags_def row_pointers_def)
  qed
  ultimately show ?thesis using c(4) by blast
qed

text \<open>
  a mask of fewer than 3,524,578 flags comes back with 255 where it was not zero and 0
  elsewhere. The flags decoder always reads the raw packet.
\<close>

theorem flags_roundtrip:
  assumes "0 < sf_width view" and "0 < sf_height view" and "sf_height view * sf_width view < 3524578"
  shows "\<exists>c. encode_flags view = Inr c \<and>
    (\<forall>b. unpacker_new (ck_raw c) = Inr b \<longrightarrow>
      (\<exists>b'. decode_flags (sf_width view) (sf_height view) b =
        Some (Inr (surface_of (sf_width view) (sf_height view) (\<lambda>x y. if pixel view x y \<noteq> 0 then 255 else 0), b'))))"
  using flags_coded [OF assms] by blast

theorem flags_roundtrip_witness:
  "\<exists>c. encode_flags \<lparr>sf_width = 2, sf_height = 1, sf_pixels = [255, 0]\<rparr> = Inr c"
  using flags_roundtrip [of "\<lparr>sf_width = 2, sf_height = 1, sf_pixels = [255, 0]\<rparr>"] by auto

section \<open>Temporal masks\<close>

lemma place_append:
  "length vs = length ps \<Longrightarrow> place (ps @ qs) (vs @ ws) b = rbind (place ps vs b) (place qs ws)"
  by (simp add: place_def fold_result_append)

text \<open>The origin of the tile a position lies in.\<close>

definition tile_of :: "nat \<Rightarrow> nat \<times> nat \<Rightarrow> nat \<times> nat" where
  "tile_of d = (\<lambda>(x, y). (d * (x div d), d * (y div d)))"

lemma tile_of_raster:
  assumes "p \<in> set (tile_raster d w h tx ty)" and "d dvd tx" and "d dvd ty"
  shows "tile_of d p = (tx, ty)"
  using assms tile_origin [of d tx "fst p"] tile_origin [of d ty "snd p"]
  by (auto simp: set_tile_raster tile_of_def)

lemma temporal_tiles:
  assumes d: "0 < d" and os: "\<forall>(tx, ty) \<in> set os. tx < sf_width view \<and> ty < sf_height view \<and> d dvd tx \<and> d dvd ty"
    and left: "either.flags_left rle [] (map (is_intra view)
      (concat (map (\<lambda>(tx, ty). tile_kept view reduced (tile_raster d (sf_width view) (sf_height view) tx ty)) os))) s"
    and place: "place (concat (map (\<lambda>(tx, ty). tile_raster d (sf_width view) (sf_height view) tx ty) os))
      (map (\<lambda>p. temporal_mark (is_intra view p \<or> reduced \<and> is_intra view (tile_of d p)))
        (concat (map (\<lambda>(tx, ty). tile_raster d (sf_width view) (sf_height view) tx ty) os))) b = Inr b'"
  shows "\<exists>s'. fold_run (temporal_tile_pixels source_get reduced d (sf_width view) (sf_height view)) os (s, b) = Some (Inr (s', b'))"
  using os left place
proof (induction os arbitrary: s b)
  case Nil
  then show ?case by simp
next
  case (Cons o1 os)
  let ?w = "sf_width view" and ?h = "sf_height view"
  let ?mark = "\<lambda>p. temporal_mark (is_intra view p \<or> reduced \<and> is_intra view (tile_of d p))"
  let ?kept = "\<lambda>os. concat (map (\<lambda>(tx, ty). tile_kept view reduced (tile_raster d ?w ?h tx ty)) os)"
  let ?tiles = "\<lambda>os. concat (map (\<lambda>(tx, ty). tile_raster d ?w ?h tx ty) os)"
  obtain tx ty where o: "o1 = (tx, ty)" by force
  have in_o: "tx < ?w" "ty < ?h" "d dvd tx" "d dvd ty"
    and os: "\<forall>(tx, ty) \<in> set os. tx < ?w \<and> ty < ?h \<and> d dvd tx \<and> d dvd ty"
    using Cons.prems(1) by (simp_all add: o)
  obtain qs where qs: "tile_raster d ?w ?h tx ty = (tx, ty) # qs" "(tx, ty) \<notin> set qs"
    by (rule tile_raster_Cons [OF d in_o(1,2)])
  have kept: "tile_kept view reduced (tile_raster d ?w ?h tx ty) =
      (if reduced \<and> is_intra view (tx, ty) then [(tx, ty)] else (tx, ty) # qs)"
    by (simp add: tile_kept_def qs(1))
  have "either.flags_left rle [] (map (is_intra view)
      (if reduced \<and> is_intra view (tx, ty) then [(tx, ty)] else (tx, ty) # qs) @ map (is_intra view) (?kept os)) s"
    using Cons.prems(2) by (simp only: o list.map prod.case concat.simps map_append kept)
  from either.temporal_tile_produced [OF this qs(2)] obtain i s1 where
    prod: "produced (temporal_pixel source_get reduced (tx, ty)) ((tx, ty) # qs) (False, s)
      (map (\<lambda>p. temporal_mark (is_intra view p \<or> reduced \<and> is_intra view (tx, ty))) ((tx, ty) # qs)) (i, s1)"
    and left: "either.flags_left rle [] (map (is_intra view) (?kept os)) s1" by blast
  have vals: "map (\<lambda>p. temporal_mark (is_intra view p \<or> reduced \<and> is_intra view (tx, ty))) ((tx, ty) # qs) =
      map ?mark ((tx, ty) # qs)"
  proof (rule map_cong)
    fix p assume "p \<in> set ((tx, ty) # qs)"
    then have "tile_of d p = (tx, ty)" unfolding qs(1) [symmetric] by (rule tile_of_raster [OF _ in_o(3,4)])
    then show "temporal_mark (is_intra view p \<or> reduced \<and> is_intra view (tx, ty)) = ?mark p" by simp
  qed simp
  have "place (((tx, ty) # qs) @ ?tiles os) (map ?mark ((tx, ty) # qs) @ map ?mark (?tiles os)) b = Inr b'"
    using Cons.prems(3) by (simp only: o list.map prod.case concat.simps map_append qs(1))
  then have "rbind (place ((tx, ty) # qs) (map ?mark ((tx, ty) # qs)) b) (place (?tiles os) (map ?mark (?tiles os))) = Inr b'"
    by (subst (asm) place_append) simp_all
  then obtain b1 where b1: "place ((tx, ty) # qs) (map ?mark ((tx, ty) # qs)) b = Inr b1"
    "place (?tiles os) (map ?mark (?tiles os)) b1 = Inr b'" by (rule rbind_eq_InrE)
  have "scan_pixels (temporal_pixel source_get reduced (tx, ty)) ((tx, ty) # qs) ((False, s), b) = Some (Inr ((i, s1), b1))"
    by (rule scan_pixels_place [OF prod]) (simp only: vals b1(1))
  then have "temporal_tile_pixels source_get reduced d ?w ?h o1 (s, b) = Some (Inr (s1, b1))"
    by (simp add: temporal_tile_pixels_def o qs(1))
  with Cons.IH [OF os left b1(2)] show ?case by simp
qed

lemma temporal_coded:
  fixes reduced :: bool
  assumes ne: "0 < sf_width view" "0 < sf_height view" and area: "sf_height view * sf_width view < 3524578"
    and tbs: "0 < tbs" "tbs \<le> 32"
  shows "\<exists>c. encode_temporal view tbs reduced = Inr c \<and> chunk_ok c \<and>
    (\<forall>rle b. (\<not> chunk_empty c \<longrightarrow> unpacker_new (chunk_packet rle c) = Inr b) \<longrightarrow>
      (\<exists>b'. decode_temporal (sf_width view) (sf_height view) (\<not> chunk_empty c) rle b tbs reduced =
        Some (Inr (surface_of (sf_width view) (sf_height view) (\<lambda>x y.
          if is_intra view (x, y) \<or> reduced \<and> is_intra view (tile_of (32 div tbs) (x, y))
          then temporal_intr else temporal_pred), b'))))"
proof -
  let ?w = "sf_width view" and ?h = "sf_height view"
  let ?d = "32 div tbs"
  let ?g = "\<lambda>x y. temporal_mark (is_intra view (x, y) \<or> reduced \<and> is_intra view (tile_of ?d (x, y)))"
  have d: "0 < ?d" using tbs by (simp add: div_greater_zero_iff)
  define vs where "vs = map (is_intra view) (temporal_kept view reduced ?d)"
  have "length (tiled ?d ?w ?h) < 3524578"
    using distinct_card [OF distinct_tiled [OF d], of ?w ?h] area by (simp add: set_tiled [OF d] mult.commute)
  then have len: "length vs < 3524578"
    using length_temporal_kept [of view reduced ?d] by (simp add: vs_def)
  obtain ks where "temporal_kept view reduced ?d = (0, 0) # ks" by (rule temporal_kept_Cons [OF d ne])
  then have vs: "vs \<noteq> []" by (simp add: vs_def)
  obtain m c where c: "emit (flag_run_symbols (flag_runs_of vs)) (model_new 2) = Inr m" "flag_finish (start_flag vs) m = Inr c"
    "\<not> chunk_empty c" "chunk_ok c" "\<forall>rle b. unpacker_new (chunk_packet rle c) = Inr b \<longrightarrow>
      (\<exists>s. flag_start (create_symbol_source 2 True rle b 0) = Some (Inr s) \<and> either.flags_left rle [] vs s)"
    by (rule flag_start_spec [OF vs len])
  have enc: "encode_temporal view tbs reduced = (if True \<in> set vs then Inr c else Inr chunk_none)"
    using encode_temporal_emits [OF tbs, of view reduced] area c(1,2) by (simp add: vs_def)
  show ?thesis
  proof (cases "True \<in> set vs")
    case False
    have none: "\<not> is_intra view (x, y)" if "x < ?w" "y < ?h" for x y
    proof
      assume intra: "is_intra view (x, y)"
      have "(x, y) \<in> set (tiled ?d ?w ?h)" using that by (simp add: set_tiled [OF d])
      then obtain o1 where "o1 \<in> set (tile_origins ?d ?w ?h)" "(x, y) \<in> set (tile_raster ?d ?w ?h (fst o1) (snd o1))"
        unfolding tiled_origins by (auto simp: split_beta)
      moreover have "True \<in> is_intra view ` set (tile_kept view reduced ps)" if "(x, y) \<in> set ps" for ps
        using that intra by (cases ps) (force simp: tile_kept_def)+
      ultimately have "True \<in> set vs" by (fastforce simp: vs_def temporal_kept_def)
      with False show False ..
    qed
    have "surface_of ?w ?h (\<lambda>x y. temporal_pred) = surface_of ?w ?h ?g"
    proof (rule surface_eqI)
      fix x y assume "x < sf_width (surface_of ?w ?h (\<lambda>x y. temporal_pred))" "y < sf_height (surface_of ?w ?h (\<lambda>x y. temporal_pred))"
      then have xy: "x < ?w" "y < ?h" by simp_all
      have "?d * (x div ?d) \<le> x" "?d * (y div ?d) \<le> y" by simp_all
      with xy none [of "?d * (x div ?d)" "?d * (y div ?d)"] none [OF xy]
      show "pixel (surface_of ?w ?h (\<lambda>x y. temporal_pred)) x y = pixel (surface_of ?w ?h ?g) x y"
        by (simp add: tile_of_def)
    qed simp_all
    with surface_fill_total [of temporal_pred ?w ?h] False enc chunk_none_ok show ?thesis
      by (intro exI [of _ chunk_none]) (auto simp: chunk_none_def chunk_empty_def packet_empty_def packet_default_def decode_temporal_def)
  next
    case True
    have "\<exists>b'. decode_temporal ?w ?h True rle b tbs reduced = Some (Inr (surface_of ?w ?h ?g, b'))"
      if "unpacker_new (chunk_packet rle c) = Inr b" for rle b
    proof -
      obtain s where s: "flag_start (create_symbol_source 2 True rle b 0) = Some (Inr s)" "either.flags_left rle [] vs s"
        using c(5) \<open>unpacker_new (chunk_packet rle c) = Inr b\<close> by blast
      let ?ps = "concat (map (\<lambda>(tx, ty). tile_raster ?d ?w ?h tx ty) (tile_origins ?d ?w ?h))"
      have ps: "?ps = tiled ?d ?w ?h" by (simp only: tiled_origins)
      let ?vals = "map (\<lambda>p. temporal_mark (is_intra view p \<or> reduced \<and> is_intra view (tile_of ?d p))) ?ps"
      have dist: "distinct ?ps" "set ?ps = {0..<?w} \<times> {0..<?h}" unfolding ps by (rule distinct_tiled [OF d] set_tiled [OF d])+
      obtain b1 t where b1: "place ?ps ?vals (surface_reserve ?w ?h) = Inr b1" "surface_finish b1 = Inr t"
        "surface_wf t" "sf_width t = ?w" "sf_height t = ?h" "map (\<lambda>(x, y). pixel t x y) ?ps = ?vals"
        by (rule place_finish [OF dist, of ?vals]) (simp only: length_map)
      have "?vals = map (\<lambda>(x, y). ?g x y) ?ps" by (rule map_cong) auto
      with b1(6) have t: "t = surface_of ?w ?h ?g" by (intro surface_scan_eqI [OF b1(3-5) dist(2)]) (simp only:)
      have "\<forall>(tx, ty) \<in> set (tile_origins ?d ?w ?h). tx < ?w \<and> ty < ?h \<and> ?d dvd tx \<and> ?d dvd ty"
        by (auto simp: tile_origins_def set_steps [OF d])
      from temporal_tiles [OF d this s(2) [unfolded vs_def temporal_kept_def] b1(1)] obtain s' where
        "fold_run (temporal_tile_pixels source_get reduced ?d ?w ?h) (tile_origins ?d ?w ?h) (s, surface_reserve ?w ?h) =
           Some (Inr (s', b1))" by blast
      with s(1) b1(2) t tbs show ?thesis by (simp add: decode_temporal_def Let_def not_less)
    qed
    with True enc c(3,4) show ?thesis by (intro exI [of _ c]) simp
  qed
qed

text \<open>
  C6: a temporal mask of fewer than 3,524,578 blocks comes back from either packet as intra where
  it was intra and, with reduced signalling, in every tile whose first block is intra; everywhere
  else it is predicted. A mask without an intra block gives an empty chunk.
\<close>

theorem temporal_roundtrip:
  fixes reduced :: bool
  assumes ne: "0 < sf_width view" "0 < sf_height view" and area: "sf_height view * sf_width view < 3524578"
    and tbs: "0 < tbs" "tbs \<le> 32"
  shows "\<exists>c. encode_temporal view tbs reduced = Inr c \<and>
    (\<forall>rle b. (\<not> chunk_empty c \<longrightarrow> unpacker_new (chunk_packet rle c) = Inr b) \<longrightarrow>
      (\<exists>b'. decode_temporal (sf_width view) (sf_height view) (\<not> chunk_empty c) rle b tbs reduced =
        Some (Inr (surface_of (sf_width view) (sf_height view) (\<lambda>x y.
          if is_intra view (x, y) \<or> reduced \<and> is_intra view (tile_of (32 div tbs) (x, y))
          then temporal_intr else temporal_pred), b'))))"
  using temporal_coded [OF assms, of reduced] by blast

theorem temporal_roundtrip_witness:
  "\<exists>c. encode_temporal \<lparr>sf_width = 2, sf_height = 1, sf_pixels = [192, 128]\<rparr> 4 True = Inr c"
  using temporal_roundtrip [of "\<lparr>sf_width = 2, sf_height = 1, sf_pixels = [192, 128]\<rparr>" 4 True] by auto

section \<open>Tile sizes\<close>

lemma length_enabled_values: "length (enabled_values view enabled idx ps) \<le> length ps"
  by (simp add: enabled_values_def scanned_def)

text \<open>
  C15: the sizes of fewer than 3,524,578 enabled tiles, none of them zero and each within the reach
  of its code (at most 32767 as a prefix, at most 16383 away from the size before as a
  difference), come back from the decoder; disabled tiles come back as zero.
\<close>

theorem sizes_roundtrip:
  assumes w: "0 < sf_width view" and area: "sf_height view * sf_width view < 3524578"
    and enabled: "idx + sf_width view \<le> length enabled" and comp: "compression \<noteq> CompressionType_None"
    and ok: "sizes_ok (compression = CompressionType_Prefix) 0
               (enabled_values view enabled idx (raster (sf_width view) (sf_height view)))"
  shows "\<exists>c. encode_sizes view enabled idx compression = Inr c \<and>
    (\<forall>b. unpacker_new (ck_prefix c) = Inr b \<longrightarrow>
      (\<exists>b'. decode_sizes (sf_width view) (sf_height view) b enabled idx compression =
        Some (Inr (surface_of (sf_width view) (sf_height view)
          (\<lambda>x y. if enabled ! (idx + x) then pixel view x y else 0), b'))))"
proof -
  let ?w = "sf_width view" and ?h = "sf_height view"
  let ?ps = "raster ?w ?h" and ?pre = "compression = CompressionType_Prefix"
  let ?vs = "enabled_values view enabled idx ?ps"
  let ?xs = "sizes_symbols ?pre 0 ?vs"
  have len: "length ?vs < 3524578" using length_enabled_values [of view enabled idx ?ps] area by simp
  have count: "per_state st ?xs < 3524578" "length ?xs < 2 ^ 32" for st
    using sizes_symbols_count(1) [of st ?pre 0 ?vs] sizes_symbols_count(2) [of ?pre 0 ?vs] len by simp_all
  obtain m where m: "emit ?xs (model_new 2) = Inr m" "model_small m" "length (em_builders m) = 2"
    "em_symbols m = map (\<lambda>(st, sy). (st, word_of_nat sy)) ?xs"
    using emit_small [OF sizes_symbols_byte [OF ok] count] by blast
  obtain c where c: "model_finish m = Inr c" "chunk_carries (tables_of m) [] (em_symbols m) c"
    by (rule model_finish_spec [OF m(2)])
  have enc: "encode_sizes view enabled idx compression = Inr c"
    using encode_sizes_emits [OF enabled ok] m(1) c(1) by simp
  have "\<exists>b'. decode_sizes ?w ?h b enabled idx compression =
      Some (Inr (surface_of ?w ?h (\<lambda>x y. if enabled ! (idx + x) then pixel view x y else 0), b'))"
    if b: "unpacker_new (ck_prefix c) = Inr b" for b
  proof -
    have "unpacker_new (chunk_packet False c) = Inr b" using b by (simp add: chunk_packet_def)
    then obtain s where s: "source_start (create_symbol_source 2 True False b 0) = Inr s"
      "either_carries False (em_symbols m) s" by (rule open_chunk [OF m(2) c(2) m(3)])
    have carry: "either_carries False (map (\<lambda>(st, sy). (st, word_of_nat sy)) ?xs @ []) s" using s(2) m(4) by simp
    have "\<forall>p \<in> set ?ps. idx + fst p < length enabled" using enabled by auto
    from either.sizes_produced [OF this ok carry, of 0] obtain c' where
      "produced (sizes_pixel source_get enabled idx ?pre) ?ps (0, s)
         (map (\<lambda>(x, y). if enabled ! (idx + x) then pixel view x y else 0) ?ps) c'" by blast
    from scan_pixels_finish [OF this distinct_raster set_raster] obtain dest where
      "scan_pixels (sizes_pixel source_get enabled idx ?pre) ?ps ((0, s), surface_reserve ?w ?h) = Some (Inr (c', dest))"
      "surface_finish dest = Inr (surface_of ?w ?h (\<lambda>x y. if enabled ! (idx + x) then pixel view x y else 0))" .
    with s(1) comp w show ?thesis by (cases c') (simp add: decode_sizes_def row_pointers_def)
  qed
  with enc show ?thesis by blast
qed

lemma sample_sizes_ok:
  "sizes_ok False 0 (enabled_values \<lparr>sf_width = 2, sf_height = 1, sf_pixels = [500, 7 :: u16]\<rparr> [True, False] 0 (raster 2 1))"
  by code_simp

theorem sizes_roundtrip_witness:
  "\<exists>c. encode_sizes \<lparr>sf_width = 2, sf_height = 1, sf_pixels = [500, 7]\<rparr> [True, False] 0 CompressionType_Prefix_OnDiff = Inr c"
  using sizes_roundtrip [of "\<lparr>sf_width = 2, sf_height = 1, sf_pixels = [500, 7]\<rparr>" 0 "[True, False]" CompressionType_Prefix_OnDiff]
    sample_sizes_ok by auto

end
