(* ===== verification/RunCodec.thy ===== *)
theory RunCodec
  imports Codec Multibyte
begin

text \<open>
  The calculus of \<open>Codec\<close> for writers and parsers that are runs, which may fail to return: those
  that copy whole packets or decode them. A parser that starts at a byte boundary and leaves at
  one is said to be carried, in at most \<open>n\<close> bits; sequences of such pieces stay aligned.
\<close>

lemma run_bind_result: "run_bind (Some (rbind m f)) g = run_bind (Some m) (\<lambda>x. run_bind (Some (f x)) g)"
  by (cases m) simp_all

section \<open>Writers\<close>

context bit_sink begin

definition emits :: "nat \<Rightarrow> ('w \<Rightarrow> 'w run) \<Rightarrow> bool list \<Rightarrow> bool" where
  "emits k f bs \<longleftrightarrow> (\<forall>w. wf w \<longrightarrow> length (written w) = k \<longrightarrow>
     (\<exists>w'. f w = Some (Inr w') \<and> wf w' \<and> written w' = written w @ bs))"

lemma emitsI:
  assumes "\<And>w. wf w \<Longrightarrow> length (written w) = k \<Longrightarrow> \<exists>w'. f w = Some (Inr w') \<and> wf w' \<and> written w' = written w @ bs"
  shows "emits k f bs"
  using assms by (simp add: emits_def)

lemma emitsD:
  assumes "emits k f bs" and "wf w" and "length (written w) = k"
  obtains w' where "f w = Some (Inr w')" and "wf w'" and "written w' = written w @ bs"
  using assms by (auto simp: emits_def)

lemma emits_writes: "writes k f bs \<Longrightarrow> emits k (\<lambda>w. Some (f w)) bs"
  by (auto simp: writes_def emits_def)

lemma emits_none: "emits k (\<lambda>w. Some (Inr w)) []"
  by (rule emitsI) simp

lemma emits_bind:
  assumes "emits k f bs" and "emits (k + length bs) g cs"
  shows "emits k (\<lambda>w. run_bind (f w) g) (bs @ cs)"
proof (rule emitsI)
  fix w assume w: "wf w" "length (written w) = k"
  from assms(1) w obtain w1 where w1: "f w = Some (Inr w1)" "wf w1" "written w1 = written w @ bs" by (rule emitsD)
  then have "length (written w1) = k + length bs" using w by simp
  with assms(2) w1(2) obtain w2 where "g w1 = Some (Inr w2)" "wf w2" "written w2 = written w1 @ cs" by (rule emitsD)
  with w1 show "\<exists>w'. run_bind (f w) g = Some (Inr w') \<and> wf w' \<and> written w' = written w @ bs @ cs" by simp
qed

end

section \<open>Parsers\<close>

context positioned_source begin

definition takes :: "nat \<Rightarrow> ('r \<Rightarrow> ('a \<times> 'r) run) \<Rightarrow> bool list \<Rightarrow> 'a \<Rightarrow> bool" where
  "takes k p bs x \<longleftrightarrow> (\<forall>r cs. ok r \<longrightarrow> pos r = k \<longrightarrow> rest r = bs @ cs \<longrightarrow>
     (\<exists>r'. p r = Some (Inr (x, r')) \<and> ok r' \<and> pos r' = k + length bs \<and> rest r' = cs))"

lemma takesI:
  assumes "\<And>r cs. ok r \<Longrightarrow> pos r = k \<Longrightarrow> rest r = bs @ cs \<Longrightarrow>
    \<exists>r'. p r = Some (Inr (x, r')) \<and> ok r' \<and> pos r' = k + length bs \<and> rest r' = cs"
  shows "takes k p bs x"
  using assms by (simp add: takes_def)

lemma takesD:
  assumes "takes k p bs x" and "ok r" and "pos r = k" and "rest r = bs @ cs"
  obtains r' where "p r = Some (Inr (x, r'))" and "ok r'" and "pos r' = k + length bs" and "rest r' = cs"
  using assms by (auto simp: takes_def)

lemma takes_reads: "reads k p bs x \<Longrightarrow> takes k (\<lambda>r. Some (p r)) bs x"
  by (auto simp: reads_def takes_def)

lemma takes_none: "takes k (\<lambda>r. Some (Inr (x, r))) [] x"
  by (rule takesI) simp

lemma takes_bind:
  assumes "takes k p bs x" and "takes (k + length bs) (q x) cs y"
  shows "takes k (\<lambda>r. run_bind (p r) (\<lambda>(x, r1). q x r1)) (bs @ cs) y"
proof (rule takesI)
  fix r ds assume r: "ok r" "pos r = k" "rest r = (bs @ cs) @ ds"
  from r(3) have "rest r = bs @ (cs @ ds)" by simp
  with assms(1) r(1,2) obtain r1 where r1: "p r = Some (Inr (x, r1))" "ok r1" "pos r1 = k + length bs" "rest r1 = cs @ ds"
    by (rule takesD)
  from assms(2) r1(2-4) obtain r2 where
    "q x r1 = Some (Inr (y, r2))" "ok r2" "pos r2 = k + length bs + length cs" "rest r2 = ds" by (rule takesD)
  with r1 show "\<exists>r'. run_bind (p r) (\<lambda>(x, r1). q x r1) = Some (Inr (y, r')) \<and> ok r' \<and> pos r' = k + length (bs @ cs) \<and> rest r' = ds"
    by simp
qed

end

section \<open>In step\<close>

context codec begin

definition carries :: "nat \<Rightarrow> ('w \<Rightarrow> 'w run) \<Rightarrow> ('r \<Rightarrow> ('a \<times> 'r) run) \<Rightarrow> 'a \<Rightarrow> bool" where
  "carries n f p x \<longleftrightarrow>
     (\<forall>k. 8 dvd k \<longrightarrow> (\<exists>bs. 8 dvd length bs \<and> length bs \<le> n \<and> emits k f bs \<and> takes k p bs x))"

lemma carriesI:
  assumes "\<And>k. 8 dvd k \<Longrightarrow> \<exists>bs. 8 dvd length bs \<and> length bs \<le> n \<and> emits k f bs \<and> takes k p bs x"
  shows "carries n f p x"
  using assms by (simp add: carries_def)

lemma carriesE:
  assumes "carries n f p x" and "8 dvd k"
  obtains bs where "8 dvd length bs" and "length bs \<le> n" and "emits k f bs" and "takes k p bs x"
  using assms by (auto simp: carries_def)

lemma carries_none: "carries n (\<lambda>w. Some (Inr w)) (\<lambda>r. Some (Inr (x, r))) x"
  by (rule carriesI) (intro exI [of _ "[]"] conjI emits_none takes_none, simp_all)

lemma carries_bind:
  assumes "carries n f p x" and "carries m g (q x) y"
  shows "carries (n + m) (\<lambda>w. run_bind (f w) g) (\<lambda>r. run_bind (p r) (\<lambda>(x, r). q x r)) y"
proof (rule carriesI)
  fix k :: nat assume k: "8 dvd k"
  from assms(1) k obtain bs where bs: "8 dvd length bs" "length bs \<le> n" "emits k f bs" "takes k p bs x" by (rule carriesE)
  from k bs(1) have "8 dvd k + length bs" by simp
  with assms(2) obtain cs where cs: "8 dvd length cs" "length cs \<le> m" "emits (k + length bs) g cs"
    "takes (k + length bs) (q x) cs y" by (rule carriesE)
  have "emits k (\<lambda>w. run_bind (f w) g) (bs @ cs)" by (rule emits_bind [OF bs(3) cs(3)])
  moreover have "takes k (\<lambda>r. run_bind (p r) (\<lambda>(x, r). q x r)) (bs @ cs) y"
    by (rule takes_bind [of k p bs x q, OF bs(4) cs(4)])
  ultimately show "\<exists>bs. 8 dvd length bs \<and> length bs \<le> n + m \<and> emits k (\<lambda>w. run_bind (f w) g) bs \<and>
      takes k (\<lambda>r. run_bind (p r) (\<lambda>(x, r). q x r)) bs y"
    using bs(1,2) cs(1,2) by (intro exI [of _ "bs @ cs"]) simp
qed

text \<open>A loop that writes one piece for each position, against a loop that parses one for each.\<close>

lemma carries_fold:
  assumes "\<And>i s. i \<in> set is \<Longrightarrow> carries n (f i) (\<lambda>r. p i (s, r)) (g i s)"
  shows "carries (length is * n) (fold_run f is) (\<lambda>r. fold_run p is (s, r)) (fold g is s)"
  using assms
proof (induction "is" arbitrary: s)
  case Nil
  then show ?case using carries_none by simp
next
  case (Cons i "is")
  have "carries (n + length is * n) (\<lambda>w. run_bind (f i w) (fold_run f is))
      (\<lambda>r. run_bind (p i (s, r)) (\<lambda>(s, r). fold_run p is (s, r))) (fold g is (g i s))"
    by (rule carries_bind [of n "f i" "\<lambda>r. p i (s, r)" "g i s" _ _ "\<lambda>s r. fold_run p is (s, r)"])
      (use Cons in auto)
  moreover have "(\<lambda>(s, r). fold_run p is (s, r)) = fold_run p is" by auto
  ultimately show ?case by simp
qed

text \<open>The same for statements that only write fields.\<close>

lemma conveys_fold:
  assumes "\<And>i s. i \<in> set is \<Longrightarrow> conveys (write_all (fs i)) (\<lambda>r. p i (s, r)) (g i s)"
  shows "conveys (write_all (concat (map fs is))) (\<lambda>r. fold_result p is (s, r)) (fold g is s)"
  using assms
proof (induction "is" arbitrary: s)
  case Nil
  then show ?case using conveys_Inr by (simp add: write_all_funs)
next
  case (Cons i "is")
  have "conveys (\<lambda>w. rbind (write_all (fs i) w) (write_all (concat (map fs is))))
      (\<lambda>r. rbind (p i (s, r)) (\<lambda>(s, r). fold_result p is (s, r))) (fold g is (g i s))"
    by (rule conveys_bind [of "write_all (fs i)" "\<lambda>r. p i (s, r)" "g i s" _ "\<lambda>s r. fold_result p is (s, r)"])
      (use Cons in auto)
  moreover have "(\<lambda>(s, r). fold_result p is (s, r)) = fold_result p is" by auto
  ultimately show ?case by (simp add: write_all_append)
qed

text \<open>What comes first may be anything that ends at a byte boundary.\<close>

lemma carries_after:
  assumes "\<exists>bs. 8 dvd k + length bs \<and> length bs \<le> n \<and> writes k f bs \<and> reads k p bs x" and "carries m g (q x) y"
  shows "\<exists>bs. length bs \<le> n + m \<and> emits k (\<lambda>w. run_bind (Some (f w)) g) bs \<and>
    takes k (\<lambda>r. run_bind (Some (p r)) (\<lambda>(x, r). q x r)) bs y"
proof -
  obtain bs where bs: "8 dvd k + length bs" "length bs \<le> n" "writes k f bs" "reads k p bs x" using assms(1) by blast
  from assms(2) bs(1) obtain cs where cs: "length cs \<le> m" "emits (k + length bs) g cs" "takes (k + length bs) (q x) cs y"
    by (rule carriesE)
  have "emits k (\<lambda>w. run_bind (Some (f w)) g) (bs @ cs)" by (rule emits_bind [OF emits_writes [OF bs(3)] cs(2)])
  moreover have "takes k (\<lambda>r. run_bind (Some (p r)) (\<lambda>(x, r). q x r)) (bs @ cs) y"
    by (rule takes_bind [of k "\<lambda>r. Some (p r)" bs x q, OF takes_reads [OF bs(4)] cs(3)])
  ultimately show ?thesis using bs(2) cs(1) by (intro exI [of _ "bs @ cs"]) simp
qed

end

lemma emits_through:
  assumes "pk.emits 0 f bs" and "ups.takes 0 p bs x"
  obtains w r r' k where "f packer_new = Some (Inr w)" and "through_packet w = Inr r" and "p r = Some (Inr (x, r'))"
    and "k < 8" and "pending r' = replicate k False"
proof -
  obtain w where w: "f packer_new = Some (Inr w)" "packer_inv w" "packer_bits w = bs"
    using pk.emitsD [OF assms(1), of packer_new] by (auto simp: packer_new_def [THEN arg_cong, of pk_bit_offset])
  obtain r k where r: "through_packet w = Inr r" "unpacker_inv r" "k < 8" "pending r = bs @ replicate k False"
    "up_bit_offset r = 0" using through_packet_spec [OF w(2)] w(3) by metis
  from ups.takesD [OF assms(2) r(2,5,4)] obtain r' where "p r = Some (Inr (x, r'))" "pending r' = replicate k False" by blast
  with w(1) r(1,3) show thesis using that by blast
qed

end
