(* ===== verification/ConfigRoundtrip.thy ===== *)
theory ConfigRoundtrip
  imports Deserializer
begin

text \<open>
  What the decoder makes of the configuration blocks the encoder writes: the configuration comes
  back, except for the fields that a block does not carry, which keep the decoder's values.
\<close>

section \<open>Fields\<close>

lemma take_bit_word_id:
  fixes v :: u32
  assumes "n < 31" and "v < 2 ^ n"
  shows "take_bit n v = v"
proof -
  have "(2 ^ n :: nat) < 2 ^ 32" using assms(1) by (intro power_strict_increasing) simp_all
  moreover have "unat (word_of_nat m :: u32) = m" if "m < 2 ^ 32" for m using that by (simp add: unat_of_nat)
  ultimately have "unat (word_of_nat (2 ^ n) :: u32) = 2 ^ n" by blast
  then have "unat (2 ^ n :: u32) = 2 ^ n" by simp
  then have "unat v < 2 ^ n" using assms(2) by (simp add: word_less_nat_alt)
  then have "take_bit n (unat v) = unat v" by (simp only: take_bit_nat_eq_self_iff)
  then show ?thesis by (metis unsigned_take_bit_eq word_unat_eq_iff)
qed

lemma conveys_u: "n < 31 \<Longrightarrow> v < 2 ^ n \<Longrightarrow> io.conveys (put_u n v) (\<lambda>b. unpacker_u b n) v"
  using io.conveys_field [of n v v] take_bit_word_id by (simp add: put_u_def [abs_def])

lemma conveys_flag: "io.conveys (put_flag c) (\<lambda>b. unpacker_u b 1) (of_bool c)"
  unfolding put_flag_def by (rule conveys_u) auto

lemma conveys_multibyte: "io.conveys (write_multibyte v) read_multibyte v"
  by (rule io.conveysI [OF writes_multibyte reads_multibyte])

lemma conveys_checked: "c \<Longrightarrow> io.conveys (write_all fs) p x \<Longrightarrow> io.conveys (write_all (check c # fs)) p x"
  by (simp add: io.conveys_def pk.writes_def check_def)

lemma conveys_only_if: "c \<Longrightarrow> io.conveys (write_all fs) p x \<Longrightarrow> io.conveys (only_if c fs) p x"
  and conveys_skip: "\<not> c \<Longrightarrow> io.conveys (only_if c fs) (\<lambda>b. Inr (x, b)) x"
  using io.conveys_Nil by (simp_all add: only_if_def [abs_def])

lemma conveys_done: "y = x \<Longrightarrow> io.conveys (write_all []) (\<lambda>b. Inr (y, b)) x"
  using io.conveys_Nil by simp

text \<open>An optional section: the reader's condition is the writer's.\<close>

lemma conveys_option:
  assumes "d \<longleftrightarrow> c" and "c \<Longrightarrow> io.conveys (write_all fs) p x" and "\<not> c \<Longrightarrow> y = x"
  shows "io.conveys (only_if c fs) (\<lambda>b. if d then p b else Inr (y, b)) x"
  using assms conveys_only_if [of c fs p x] conveys_skip [of c fs x] by (cases c) auto

lemmas conveys_steps = io.conveys_Cons conveys_u conveys_flag conveys_multibyte

section \<open>The sequence block\<close>

text \<open>
  The extended profile and level are read but not kept, and the offsets of the conformance
  window are only in the block when the window is.
\<close>

definition sequence_received :: "sequence_configuration \<Rightarrow> sequence_configuration \<Rightarrow> sequence_configuration" where
  "sequence_received old c =
     (let c = c\<lparr>sq_extended_profile_idc := sq_extended_profile_idc old,
                sq_extended_level_idc := sq_extended_level_idc old\<rparr>
      in if sq_conformance_window c then c
         else c\<lparr>sq_conf_win_left_offset := sq_conf_win_left_offset old,
                sq_conf_win_right_offset := sq_conf_win_right_offset old,
                sq_conf_win_top_offset := sq_conf_win_top_offset old,
                sq_conf_win_bottom_offset := sq_conf_win_bottom_offset old\<rparr>)"

definition sequence_sendable :: "sequence_configuration \<Rightarrow> bool" where
  "sequence_sendable c \<longleftrightarrow> sq_profile_idc c \<noteq> Profile_Auto \<and> sq_level_idc c < 15 \<and> sq_sublevel_idc c < 4"

lemma conveys_window:
  assumes same: "sq_conformance_window d = sq_conformance_window c"
  shows "io.conveys (only_if (sq_conformance_window c)
       [write_multibyte (ucast (sq_conf_win_left_offset c)), write_multibyte (ucast (sq_conf_win_right_offset c)),
        write_multibyte (ucast (sq_conf_win_top_offset c)), write_multibyte (ucast (sq_conf_win_bottom_offset c))])
     (parse_conf_window d)
     (if sq_conformance_window c then
        d\<lparr>sq_conf_win_left_offset := sq_conf_win_left_offset c, sq_conf_win_right_offset := sq_conf_win_right_offset c,
          sq_conf_win_top_offset := sq_conf_win_top_offset c, sq_conf_win_bottom_offset := sq_conf_win_bottom_offset c\<rparr>
      else d)"
proof -
  have id: "ucast (ucast v :: u64) = v" for v :: u32 by (rule bit_word_eqI) (simp add: bit_unsigned_iff)
  show ?thesis
    unfolding parse_conf_window_def [abs_def] same
    apply (rule conveys_option [OF refl])
     apply (rule io.conveys_Cons, rule conveys_multibyte)+
     apply (simp only: id if_True, rule io.conveys_Nil)
    apply simp
    done
qed

lemma conveys_sequence:
  assumes "sequence_sendable c"
  shows "io.conveys (emit_sequence_configuration c) (parse_sequence_config old) (sequence_received old c)"
proof -
  have lt: "sq_level_idc c < 2 ^ 4" "sq_sublevel_idc c < 2 ^ 2" "sq_level_idc c \<noteq> 15"
    using assms by (auto simp: sequence_sendable_def elim: less_trans)
  have prof: "io.conveys (case sq_profile_idc c of Profile_Main \<Rightarrow> put_u 4 0 | Profile_Main444 \<Rightarrow> put_u 4 1
      | _ \<Rightarrow> check False) (\<lambda>b. unpacker_u b 4) (if sq_profile_idc c = Profile_Main then 0 else 1)"
    using assms by (cases "sq_profile_idc c") (auto simp: sequence_sendable_def intro!: conveys_u)
  have no15: "\<not> (profile_value (sq_profile_idc c) = 15 \<or> sq_level_idc c = 15)"
    using lt(3) by (simp add: profile_value_def split: profile.split)
  have flag: "(of_bool b :: u32) \<noteq> 0 \<longleftrightarrow> b" for b by simp
  show ?thesis
    unfolding emit_sequence_configuration_def parse_sequence_config_def Let_def
    apply (rule io.conveys_Cons, rule prof)
    apply (rule io.conveys_Cons, rule conveys_u, simp, rule lt)
    apply (rule io.conveys_Cons, rule conveys_u, simp, rule lt)
    apply (rule io.conveys_Cons, rule conveys_flag)
    apply (rule io.conveys_Cons, rule conveys_u, simp, simp)
    apply (rule io.conveys_Cons, rule conveys_option [where x = "()"], use lt in \<open>simp add: profile_value_def split: profile.split\<close>)
      apply (use no15 in blast)
     apply (rule refl)
    apply (rule io.conveys_Cons)
     apply (rule conveys_window, simp)
    apply (rule io.conveys_value [where x = "sq_profile_idc c"])
     apply (use assms in \<open>cases "sq_profile_idc c"; simp add: sequence_sendable_def\<close>)
    apply (rule conveys_done)
    apply (cases c; cases old; simp add: sequence_received_def)
    done
qed

section \<open>The global block\<close>

definition global_sendable :: "global_configuration \<Rightarrow> bool" where
  "global_sendable g \<longleftrightarrow> global_arrays g \<and>
     gc_num_processed_planes g \<in> {1, 3} \<and>
     (gc_colourspace g = Colourspace_Y \<longrightarrow> gc_num_processed_planes g = 1) \<and>
     gc_transform_block_size g \<in> {2, 4} \<and>
     gc_base_depth g \<in> {8, 10, 12, 14} \<and> gc_enhancement_depth g \<in> {8, 10, 12, 14} \<and>
     gc_temporal_enabled g < 2 \<and> gc_temporal_step_width_modifier g < 2 ^ 8 \<and>
     list_all (\<lambda>v. v < 2 ^ 16) (gc_upsampling_coefficients g) \<and>
     gc_level_1_filtering_first_coefficient g < 2 ^ 4 \<and> gc_level_1_filtering_second_coefficient g < 2 ^ 4 \<and>
     (gc_tile_width g, gc_tile_height g) \<in>
       (case gc_tile_dimensions_type g of TileDimensions_None \<Rightarrow> {(0, 0)}
        | TileDimensions_512x256 \<Rightarrow> {(512, 256)} | TileDimensions_1024x512 \<Rightarrow> {(1024, 512)}
        | TileDimensions_Custom \<Rightarrow> {..<2 ^ 16} \<times> {..<2 ^ 16}) \<and>
     (gc_resolution_width g, gc_resolution_height g) \<noteq> (0, 0) \<and>
     gc_resolution_width g < 2 ^ 16 \<and> gc_resolution_height g < 2 ^ 16 \<and>
     gc_chroma_step_width_multiplier g < 2 ^ 8"

text \<open>
  The fields that follow from others, and those that are not in the block: the upsampling kernel
  unless it is adaptive, the compression of the tiles unless there are tiles, and what belongs to
  other blocks.
\<close>

definition global_received :: "global_configuration \<Rightarrow> global_configuration \<Rightarrow> global_configuration" where
  "global_received old g = g
    \<lparr>gc_image_format := format_of (gc_enhancement_depth g) (gc_colourspace g),
     gc_num_image_planes := (if gc_colourspace g = Colourspace_Y then 1 else 3),
     gc_num_residual_layers := (if gc_transform_block_size g = 2 then 4 else 16),
     gc_upsampling_coefficients :=
       (if gc_upsample g = Upsample_AdaptiveCubic then gc_upsampling_coefficients g else gc_upsampling_coefficients old),
     gc_compression_type_entropy_enabled_per_tile :=
       (if gc_tile_dimensions_type g = TileDimensions_None then gc_compression_type_entropy_enabled_per_tile old
        else gc_compression_type_entropy_enabled_per_tile g),
     gc_compression_type_size_per_tile :=
       (if gc_tile_dimensions_type g = TileDimensions_None then gc_compression_type_size_per_tile old
        else gc_compression_type_size_per_tile g),
     gc_additional_info_present := gc_additional_info_present old,
     gc_additional_info_type := gc_additional_info_type old,
     gc_sei_message_present := gc_sei_message_present old,
     gc_vui_message_present := gc_vui_message_present old\<rparr>"

definition planes_code :: "u32 \<Rightarrow> u32" where
  "planes_code n = (if n = 1 then 0 else 1)"

lemma conveys_planes:
  assumes "n \<in> {1, 3}"
  shows "io.conveys (if n = 1 then put_u 1 0 else if n = 3 then put_u 1 1 else check False)
      (\<lambda>b. unpacker_u b 1) (planes_code n)"
    and "io.conveys (only_if (n \<noteq> 1) [check (n = 3), put_u 4 1, put_u 4 0]) (parse_planes (planes_code n) g)
      (g\<lparr>gc_num_processed_planes := n\<rparr>)"
proof -
  show "io.conveys (if n = 1 then put_u 1 0 else if n = 3 then put_u 1 1 else check False)
      (\<lambda>b. unpacker_u b 1) (planes_code n)"
    using assms conveys_u [of 1 0] conveys_u [of 1 1] by (auto simp: planes_code_def)
  consider "n = 1" | "n = 3" using assms by blast
  then show "io.conveys (only_if (n \<noteq> 1) [check (n = 3), put_u 4 1, put_u 4 0]) (parse_planes (planes_code n) g)
      (g\<lparr>gc_num_processed_planes := n\<rparr>)"
  proof cases
    case 2
    show ?thesis
      unfolding 2 parse_planes_def [abs_def] planes_code_def
      apply (rule conveys_only_if, simp, rule conveys_checked, simp, simp)
      apply (rule io.conveys_Cons, rule conveys_u, simp, simp)
      apply (rule io.conveys_Cons, rule conveys_u, simp, simp)
      apply (rule io.conveys_value, simp, rule io.conveys_Nil)
      done
  qed (simp add: planes_code_def parse_planes_def [abs_def] conveys_skip)
qed

lemma conveys_two:
  assumes "io.conveys f (\<lambda>b. rbind (p b) (\<lambda>(x, b). q x b)) y" and "io.conveys (write_all fs) (r y) z"
  shows "io.conveys (write_all (f # fs)) (\<lambda>b. rbind (p b) (\<lambda>(x, b). rbind (q x b) (\<lambda>(y, b). r y b))) z"
  using io.conveys_Cons [of f _ y fs r z, OF assms] by (simp add: rbind_assoc case_prod_beta')

lemma conveys_element:
  "n < 31 \<Longrightarrow> i < length xs \<Longrightarrow> xs ! i < 2 ^ n \<Longrightarrow> io.conveys (put_element n xs i) (\<lambda>b. unpacker_u b n) (xs ! i)"
  using conveys_u [of n "xs ! i"] by (simp add: put_element_def [abs_def])

definition depth_code :: "u32 \<Rightarrow> u32" where
  "depth_code d = (if d = 8 then 0 else if d = 10 then 1 else if d = 12 then 2 else 3)"

lemma conveys_depth:
  "d \<in> {8, 10, 12, 14} \<Longrightarrow> io.conveys (put_depth d) (\<lambda>b. unpacker_u b 2) (depth_code d)"
  by (auto simp: put_depth_def depth_code_def intro!: conveys_u)

lemma depth_of_code: "d \<in> {8, 10, 12, 14} \<Longrightarrow> depth_of (depth_code d) = Inr d"
  by (auto simp: depth_of_def depth_code_def)

definition scaling_code :: "scaling_mode \<Rightarrow> u32" where
  "scaling_code m = (case m of ScalingMode_None \<Rightarrow> 0 | ScalingMode_1D \<Rightarrow> 1 | ScalingMode_2D \<Rightarrow> 2)"

lemma conveys_scaling: "io.conveys (put_scaling_mode m) (\<lambda>b. unpacker_u b 2) (scaling_code m)"
  unfolding put_scaling_mode_def scaling_code_def by (rule conveys_u) (simp_all split: scaling_mode.split)

lemma scaling_mode_of_code: "scaling_mode_of (scaling_code m) = Inr m"
  by (cases m) (simp_all add: scaling_mode_of_def scaling_code_def)

lemma conveys_modifier:
  assumes "v < 2 ^ 8"
  shows "io.conveys (only_if (v \<noteq> 48) [put_u 8 v]) (parse_step_width_modifier (of_bool (v \<noteq> 48)) g)
    (g\<lparr>gc_temporal_step_width_modifier := v\<rparr>)"
  unfolding parse_step_width_modifier_def [abs_def]
  apply (rule conveys_option, simp)
   apply (rule io.conveys_Cons, rule conveys_u, simp, rule assms, rule io.conveys_Nil)
  apply simp
  done

lemma conveys_kernel:
  assumes "length cs = 4" and "list_all (\<lambda>v. v < 2 ^ 16) cs" and "u = 4 \<longleftrightarrow> c" and "length (gc_upsampling_coefficients g) = 4"
  shows "io.conveys (only_if c (map (put_element 16 cs) [0..<4])) (parse_upsampling_coefficients u g)
    (if c then g\<lparr>gc_upsampling_coefficients := cs\<rparr> else g)"
proof -
  obtain a0 a1 a2 a3 where cs: "cs = [a0, a1, a2, a3]"
    using assms(1) by (auto simp: numeral_eq_Suc length_Suc_conv)
  obtain b0 b1 b2 b3 where old: "gc_upsampling_coefficients g = [b0, b1, b2, b3]"
    using assms(4) by (auto simp: numeral_eq_Suc length_Suc_conv)
  have w: "io.conveys (put_element 16 cs i) (\<lambda>b. unpacker_u b 16) (cs ! i)" if "i < 4" for i
    using that assms(1,2) by (intro conveys_element) (simp_all add: list_all_length)
  have four: "[0..<4] = [0, 1, 2, 3 :: nat]" by code_simp
  show ?thesis
    unfolding parse_upsampling_coefficients_def [abs_def] four list.map
    apply (rule conveys_option, rule assms)
     apply (rule io.conveys_Cons, rule w, simp)+
     apply (rule conveys_done)
     apply (simp add: old cs numeral_eq_Suc)
    apply simp
    done
qed

lemma conveys_filtering:
  assumes "c1 < 2 ^ 4" and "c2 < 2 ^ 4"
  shows "io.conveys (only_if (c1 \<noteq> 0 \<or> c2 \<noteq> 0) [put_u 4 c1, put_u 4 c2])
    (parse_level_1_filtering (of_bool (\<not> (c1 = 0 \<and> c2 = 0))) g)
    (g\<lparr>gc_level_1_filtering_first_coefficient := c1, gc_level_1_filtering_second_coefficient := c2\<rparr>)"
  unfolding parse_level_1_filtering_def [abs_def]
  apply (rule conveys_option, simp)
   apply (rule io.conveys_Cons, rule conveys_u, simp, rule assms)+
   apply (rule io.conveys_Nil)
  apply simp
  done

lemma conveys_multiplier:
  assumes "v < 2 ^ 8"
  shows "io.conveys (only_if (v \<noteq> 64) [put_u 8 v]) (parse_chroma_multiplier (of_bool (v \<noteq> 64)) g)
    (g\<lparr>gc_chroma_step_width_multiplier := v\<rparr>)"
  unfolding parse_chroma_multiplier_def [abs_def]
  apply (rule conveys_option, simp)
   apply (rule io.conveys_Cons, rule conveys_u, simp, rule assms, rule io.conveys_Nil)
  apply simp
  done

lemma find_resolution_entry:
  "find_resolution w h i < length resolution_table \<Longrightarrow> resolution_table ! find_resolution w h i = (w, h)"
proof (induction w h i rule: find_resolution.induct)
  case (1 w h i)
  from 1(2) show ?case
    by (subst find_resolution.simps, subst (asm) find_resolution.simps) (use 1(1) in \<open>simp split: if_splits\<close>)
qed

definition resolution_code :: "u32 \<Rightarrow> u32 \<Rightarrow> nat" where
  "resolution_code w h =
     (let i = find_resolution w h 0 in if i < length resolution_table then i else 63)"

lemma conveys_resolution:
  assumes "(w, h) \<noteq> (0, 0)" and "w < 2 ^ 16" and "h < 2 ^ 16"
  shows "io.conveys (only_if (resolution_code w h = 63) [put_u 16 w, put_u 16 h])
    (parse_resolution (word_of_nat (resolution_code w h)) g)
    (g\<lparr>gc_resolution_width := w, gc_resolution_height := h\<rparr>)"
proof (cases "find_resolution w h 0 < length resolution_table")
  case True
  let ?i = "find_resolution w h 0"
  have i: "resolution_table ! ?i = (w, h)" "?i < 51"
    using find_resolution_entry [OF True] True by (simp_all add: resolution_table_def)
  have "resolution_table ! 0 = (0, 0)" by (simp add: resolution_table_def)
  with i(1) assms(1) have "?i \<noteq> 0" by metis
  moreover have u: "unat (word_of_nat ?i :: u32) = ?i" using i(2) by (simp add: unat_of_nat)
  ultimately have "0 < (word_of_nat ?i :: u32)" "(word_of_nat ?i :: u32) < 51"
    using i(2) by (simp_all add: word_less_nat_alt)
  moreover have "resolution_code w h = ?i" "resolution_code w h \<noteq> 63"
    using True i(2) by (simp_all add: resolution_code_def)
  ultimately show ?thesis
    by (simp add: parse_resolution_def [abs_def] u i(1) conveys_skip)
next
  case False
  then have "resolution_code w h = 63" by (simp add: resolution_code_def)
  then show ?thesis
    unfolding parse_resolution_def [abs_def]
    apply simp
    apply (rule conveys_only_if, rule TrueI)
    apply (rule io.conveys_Cons, rule conveys_u, simp, use assms in simp)+
    apply (rule io.conveys_Nil)
    done
qed

definition tile_code :: "tile_dimensions \<Rightarrow> u32" where
  "tile_code t = (case t of TileDimensions_None \<Rightarrow> 0 | TileDimensions_512x256 \<Rightarrow> 1
     | TileDimensions_1024x512 \<Rightarrow> 2 | TileDimensions_Custom \<Rightarrow> 3)"

definition compression_code :: "compression_type \<Rightarrow> u32" where
  "compression_code t = (case t of
       CompressionType_None \<Rightarrow> 0 | CompressionType_Prefix \<Rightarrow> 1 | CompressionType_Prefix_OnDiff \<Rightarrow> 2)"

lemma compression_of_code: "compression_of (compression_code t) = Inr t"
  by (cases t) (simp_all add: compression_of_def compression_code_def)

definition with_tiles :: "global_configuration \<Rightarrow> global_configuration \<Rightarrow> global_configuration" where
  "with_tiles g d =
     (let d = d\<lparr>gc_tile_dimensions_type := gc_tile_dimensions_type g, gc_tile_width := gc_tile_width g,
                gc_tile_height := gc_tile_height g\<rparr>
      in if gc_tile_dimensions_type g = TileDimensions_None then d
         else d\<lparr>gc_compression_type_entropy_enabled_per_tile := gc_compression_type_entropy_enabled_per_tile g,
                gc_compression_type_size_per_tile := gc_compression_type_size_per_tile g\<rparr>)"

lemma conveys_tile_compression:
  assumes "v \<noteq> 0"
  shows "io.conveys (write_all [put_u 5 0, put_flag e, put_u 2 (compression_code t)]) (parse_tile_compression v d)
    (d\<lparr>gc_compression_type_entropy_enabled_per_tile := e, gc_compression_type_size_per_tile := t\<rparr>)"
proof -
  have "0 < v" using assms by (simp add: word_neq_0_conv)
  have c: "compression_code t < 2 ^ 2" by (simp add: compression_code_def split: compression_type.split)
  show ?thesis
    unfolding parse_tile_compression_def [abs_def] if_P [OF \<open>0 < v\<close>]
    apply (rule io.conveys_Cons, rule conveys_u, simp, simp)
    apply (rule io.conveys_Cons, rule conveys_flag)
    apply (rule io.conveys_Cons, rule conveys_u, simp, rule c)
    apply (rule io.conveys_value, rule compression_of_code)
    apply (rule conveys_done, simp)
    done
qed

lemma conveys_tile_size:
  assumes "(gc_tile_width g, gc_tile_height g) \<in>
       (case gc_tile_dimensions_type g of TileDimensions_None \<Rightarrow> {(0, 0)}
        | TileDimensions_512x256 \<Rightarrow> {(512, 256)} | TileDimensions_1024x512 \<Rightarrow> {(1024, 512)}
        | TileDimensions_Custom \<Rightarrow> {..<2 ^ 16} \<times> {..<2 ^ 16})"
    and "gc_tile_dimensions_type g \<noteq> TileDimensions_None"
  shows "io.conveys (case gc_tile_dimensions_type g of
       TileDimensions_512x256 \<Rightarrow> write_all [check (gc_tile_width g = 512), check (gc_tile_height g = 256)]
     | TileDimensions_1024x512 \<Rightarrow> write_all [check (gc_tile_width g = 1024), check (gc_tile_height g = 512)]
     | TileDimensions_Custom \<Rightarrow> write_all [put_u 16 (gc_tile_width g), put_u 16 (gc_tile_height g)]
     | _ \<Rightarrow> check False)
     (parse_tile_dimensions (tile_code (gc_tile_dimensions_type g)) d)
     (d\<lparr>gc_tile_dimensions_type := gc_tile_dimensions_type g, gc_tile_width := gc_tile_width g,
        gc_tile_height := gc_tile_height g\<rparr>)"
proof (cases "gc_tile_dimensions_type g")
  case TileDimensions_Custom
  with assms have lt: "gc_tile_width g < 2 ^ 16" "gc_tile_height g < 2 ^ 16" by simp_all
  show ?thesis
    using TileDimensions_Custom
    apply (simp add: tile_code_def parse_tile_dimensions_def [abs_def])
    apply (rule io.conveys_Cons, rule conveys_u, simp, rule lt)+
    apply (rule io.conveys_Nil)
    done
qed (use assms in \<open>auto simp: tile_code_def parse_tile_dimensions_def [abs_def]
      intro!: conveys_checked conveys_done\<close>)

lemma conveys_tiles:
  assumes "(gc_tile_width g, gc_tile_height g) \<in>
       (case gc_tile_dimensions_type g of TileDimensions_None \<Rightarrow> {(0, 0)}
        | TileDimensions_512x256 \<Rightarrow> {(512, 256)} | TileDimensions_1024x512 \<Rightarrow> {(1024, 512)}
        | TileDimensions_Custom \<Rightarrow> {..<2 ^ 16} \<times> {..<2 ^ 16})"
  shows "io.conveys (emit_tile_configuration g)
     (\<lambda>b. rbind (parse_tile_dimensions (tile_code (gc_tile_dimensions_type g)) d b)
        (\<lambda>(d, b). parse_tile_compression (tile_code (gc_tile_dimensions_type g)) d b))
     (with_tiles g d)"
proof (cases "gc_tile_dimensions_type g = TileDimensions_None")
  case True
  with assms show ?thesis
    by (simp add: emit_tile_configuration_def tile_code_def parse_tile_dimensions_def [abs_def]
        parse_tile_compression_def conveys_skip with_tiles_def)
next
  case False
  then have nz: "tile_code (gc_tile_dimensions_type g) \<noteq> 0"
    by (simp add: tile_code_def split: tile_dimensions.split)
  show ?thesis
    unfolding emit_tile_configuration_def
    apply (rule conveys_only_if [OF False], rule io.conveys_Cons, rule conveys_tile_size [OF assms False])
    apply (subst compression_code_def [symmetric])
    apply (use conveys_tile_compression [OF nz] False in \<open>simp add: with_tiles_def\<close>)
    done
qed

definition colourspace_code :: "colourspace \<Rightarrow> u32" where
  "colourspace_code c = (case c of Colourspace_Y \<Rightarrow> 0 | Colourspace_YUV420 \<Rightarrow> 1
     | Colourspace_YUV422 \<Rightarrow> 2 | Colourspace_YUV444 \<Rightarrow> 3)"

definition upsample_code :: "upsample \<Rightarrow> u32" where
  "upsample_code u = (case u of Upsample_Nearest \<Rightarrow> 0 | Upsample_Linear \<Rightarrow> 1 | Upsample_Cubic \<Rightarrow> 2
     | Upsample_ModifiedCubic \<Rightarrow> 3 | Upsample_AdaptiveCubic \<Rightarrow> 4)"

definition user_data_code :: "user_data_mode \<Rightarrow> u32" where
  "user_data_code u = (case u of UserData_None \<Rightarrow> 0 | UserData_2bits \<Rightarrow> 1 | UserData_6bits \<Rightarrow> 2)"

definition transform_code :: "u32 \<Rightarrow> u32" where
  "transform_code t = (if t = 2 then 0 else 1)"

lemma code_bounds:
  "colourspace_code c < 2 ^ 2" "upsample_code u < 2 ^ 3" "user_data_code d < 2 ^ 2" "tile_code t < 2 ^ 2"
  by (cases c; cases u; cases d; cases t;
      simp add: colourspace_code_def upsample_code_def user_data_code_def tile_code_def)+

lemma of_codes:
  "upsample_of (upsample_code u) = Inr u" "user_data_of (user_data_code d) = Inr d"
  "upsample_code u = 4 \<longleftrightarrow> u = Upsample_AdaptiveCubic"
  by (cases u; cases d; simp add: upsample_of_def upsample_code_def user_data_of_def user_data_code_def)+

lemma set_colourspace_code:
  "(c = Colourspace_Y \<longrightarrow> gc_num_processed_planes g = 1) \<Longrightarrow> set_colourspace (colourspace_code c) g =
     Inr (g\<lparr>gc_colourspace := c, gc_num_image_planes := (if c = Colourspace_Y then 1 else 3)\<rparr>)"
  by (cases c) (simp_all add: set_colourspace_def colourspace_code_def check_def)

lemma set_transform_code:
  "t \<in> {2, 4} \<Longrightarrow> set_transform (transform_code t) g =
     Inr (g\<lparr>gc_transform_block_size := t, gc_num_residual_layers := (if t = 2 then 4 else 16)\<rparr>)"
  by (auto simp: set_transform_def transform_code_def)

lemma conveys_transform:
  "t \<in> {2, 4} \<Longrightarrow> io.conveys (if t = 2 then put_u 1 0 else if t = 4 then put_u 1 1 else check False)
     (\<lambda>b. unpacker_u b 1) (transform_code t)"
  using conveys_u [of 1 0] conveys_u [of 1 1] by (auto simp: transform_code_def)

lemma conveys_resolution_type:
  "io.conveys (put_u 6 (word_of_nat (resolution_code w h))) (\<lambda>b. unpacker_u b 6) (word_of_nat (resolution_code w h))"
proof (rule conveys_u)
  have "resolution_code w h < 64" by (simp add: resolution_code_def Let_def resolution_table_def)
  then have "unat (word_of_nat (resolution_code w h) :: u32) < unat (64 :: u32)" by (simp add: unat_of_nat)
  then show "word_of_nat (resolution_code w h) < (2 :: u32) ^ 6" by (simp add: word_less_nat_alt)
qed simp

lemma derive_global_codes:
  assumes "c = Colourspace_Y \<longrightarrow> gc_num_processed_planes g = 1" and "t \<in> {2, 4}"
    and "bd \<in> {8, 10, 12, 14}" and "ed \<in> {8, 10, 12, 14}"
  shows "derive_global (colourspace_code c) (transform_code t) (depth_code bd) (depth_code ed) (upsample_code u)
      (scaling_code s1) (scaling_code s2) g =
    Inr (g\<lparr>gc_colourspace := c, gc_num_image_planes := (if c = Colourspace_Y then 1 else 3),
      gc_transform_block_size := t, gc_num_residual_layers := (if t = 2 then 4 else 16),
      gc_base_depth := bd, gc_enhancement_depth := ed, gc_image_format := format_of ed c, gc_upsample := u,
      gc_scaling_mode := (gc_scaling_mode g)[LOQ_LEVEL_1 := s1, LOQ_LEVEL_2 := s2]\<rparr>)"
  by (simp only: derive_global_def set_colourspace_code [OF assms(1)] set_transform_code [OF assms(2)]
      depth_of_code [OF assms(3)] depth_of_code [OF assms(4)] of_codes scaling_mode_of_code rbind.simps Let_def) simp

lemma two_elements:
  assumes "length ms = 2" and "length ns = 2"
  shows "ns[LOQ_LEVEL_1 := ms ! LOQ_LEVEL_1, LOQ_LEVEL_2 := ms ! LOQ_LEVEL_2] = ms"
  using assms by (auto simp: numeral_2_eq_2 length_Suc_conv)

lemma conveys_global:
  assumes ok: "global_sendable g" and old: "global_arrays old"
  shows "io.conveys (emit_global_configuration g) (parse_global_config old) (global_received old g)"
proof -
  note f = ok [unfolded global_sendable_def global_arrays_def]
  have te: "gc_temporal_enabled g < 2 ^ 1" using f by simp
  have res: "(if find_resolution (gc_resolution_width g) (gc_resolution_height g) 0 < length resolution_table
      then find_resolution (gc_resolution_width g) (gc_resolution_height g) 0 else 63)
      = resolution_code (gc_resolution_width g) (gc_resolution_height g)"
    by (simp add: resolution_code_def)
  show ?thesis
    unfolding emit_global_configuration_def parse_global_config_def Let_def res
      colourspace_code_def [symmetric] upsample_code_def [symmetric] tile_code_def [symmetric] user_data_code_def [symmetric]
    apply (rule io.conveys_Cons, rule conveys_planes, use f in blast)
    apply (rule io.conveys_Cons, rule conveys_resolution_type)
    apply (rule io.conveys_Cons, rule conveys_transform, use f in blast)
    apply (rule io.conveys_Cons, rule conveys_u, simp, rule code_bounds)
    apply (rule io.conveys_Cons, rule conveys_depth, use f in blast)+
    apply (rule io.conveys_Cons, rule conveys_flag)+
    apply (rule io.conveys_Cons, rule conveys_u, simp, rule te)
    apply (rule io.conveys_Cons, rule conveys_u, simp, rule code_bounds)
    apply (rule io.conveys_Cons, rule conveys_flag)
    apply (rule io.conveys_Cons, rule conveys_scaling)+
    apply (rule io.conveys_Cons, rule conveys_u, simp, rule code_bounds)+
    apply (rule io.conveys_value, rule of_codes)
    apply (rule io.conveys_Cons, rule conveys_flag)+
    apply (rule io.conveys_Cons, rule conveys_planes, use f in blast)
    apply (rule io.conveys_Cons, rule conveys_modifier, use f in blast)
    apply (rule io.conveys_Cons, rule conveys_kernel, use f in blast, use f in blast, rule of_codes,
        use old in \<open>simp add: global_arrays_def\<close>)
    apply (rule io.conveys_Cons, rule conveys_filtering, use f in blast, use f in blast)
    apply (rule conveys_two, rule conveys_tiles, use f in blast)
    apply (rule io.conveys_Cons, rule conveys_resolution, use f in blast, use f in blast, use f in blast)
    apply (rule io.conveys_Cons, rule conveys_multiplier, use f in blast)
    apply (rule io.conveys_value, rule derive_global_codes)
        apply (use f in \<open>simp add: with_tiles_def Let_def\<close>)
       apply (use f in blast)+
    apply (rule conveys_done)
    apply (rule global_configuration.equality)
    apply (use f old two_elements [of "gc_scaling_mode g" "gc_scaling_mode old"] in
        \<open>simp_all add: global_received_def with_tiles_def Let_def global_arrays_def\<close>)
    done
qed

section \<open>The picture block\<close>

text \<open>
  Coefficients of a custom quantisation matrix: one byte per residual layer replaces the start of
  the old array.
\<close>

lemma conveys_coefficients:
  assumes "\<forall>i \<in> set is. i < length cs \<and> i < length qm \<and> cs ! i < 2 ^ 8"
  shows "io.conveys (write_all (map (put_element 8 cs) is)) (parse_coefficients is qm) (fold (\<lambda>i q. q[i := cs ! i]) is qm)"
  using assms
proof (induction "is" arbitrary: qm)
  case Nil
  then show ?case by (simp add: parse_coefficients_def [abs_def] io.conveys_Inr)
next
  case (Cons i "is")
  have i: "i < length cs" "i < length qm" "cs ! i < 2 ^ 8" using Cons.prems by simp_all
  have "parse_coefficients (i # is) qm = (\<lambda>b. rbind (unpacker_u b 8) (\<lambda>(v, b).
      parse_coefficients is (qm[i := v]) b))"
    using i(2) by (intro ext) (simp add: parse_coefficients_def rbind_assoc case_prod_beta')
  moreover have "io.conveys (write_all (put_element 8 cs i # map (put_element 8 cs) is))
      (\<lambda>b. rbind (unpacker_u b 8) (\<lambda>(v, b). parse_coefficients is (qm[i := v]) b))
      (fold (\<lambda>i q. q[i := cs ! i]) is (qm[i := cs ! i]))"
    by (rule io.conveys_Cons, rule conveys_element) (use i Cons in auto)
  ultimately show ?case by (simp only: list.map fold_simps)
qed

lemma fold_update_prefix:
  "n \<le> length cs \<Longrightarrow> n \<le> length qm \<Longrightarrow> fold (\<lambda>i q. q[i := cs ! i]) [0..<n] qm = take n cs @ drop n qm"
proof (induction n)
  case (Suc n)
  then have "fold (\<lambda>i q. q[i := cs ! i]) [0..<Suc n] qm = (take n cs @ drop n qm)[n := cs ! n]" by simp
  also have "\<dots> = take (Suc n) cs @ drop (Suc n) qm"
    using Suc.prems by (simp add: list_update_append take_Suc_conv_app_nth Cons_nth_drop_Suc [symmetric])
  finally show ?case .
qed simp

definition coefficients_sendable :: "u32 \<Rightarrow> u32 list \<Rightarrow> bool" where
  "coefficients_sendable n cs \<longleftrightarrow> length cs = MAX_NUM_LAYERS \<and> unat n \<le> MAX_NUM_LAYERS \<and> list_all (\<lambda>v. v < 2 ^ 8) cs"

definition coefficients_received :: "bool \<Rightarrow> u32 \<Rightarrow> u32 list \<Rightarrow> u32 list \<Rightarrow> u32 list" where
  "coefficients_received c n old cs = (if c then take (unat n) cs @ drop (unat n) old else old)"

lemma conveys_matrix:
  assumes "coefficients_sendable n cs" and "length qm = MAX_NUM_LAYERS"
  shows "io.conveys (write_all (map (put_element 8 cs) [0..<unat n])) (parse_coefficients [0..<unat n] qm)
    (take (unat n) cs @ drop (unat n) qm)"
  using conveys_coefficients [of "[0..<unat n]" cs qm] fold_update_prefix [of "unat n" cs qm] assms
  by (simp add: coefficients_sendable_def list_all_length)

definition level2_custom :: "quant_matrix \<Rightarrow> bool" where
  "level2_custom m \<longleftrightarrow> m = QuantMatrix_SameAndCustom \<or> m = QuantMatrix_Level2CustomLevel1Default \<or>
     m = QuantMatrix_DifferentAndCustom"

definition level1_custom :: "quant_matrix \<Rightarrow> bool" where
  "level1_custom m \<longleftrightarrow> m = QuantMatrix_Level2DefaultLevel1Custom \<or> m = QuantMatrix_DifferentAndCustom"

lemma conveys_both:
  assumes "io.conveys f p x" and "io.conveys g (q x) y"
  shows "io.conveys (write_all [f, g]) (\<lambda>b. rbind (p b) (\<lambda>(x, b). q x b)) y"
  by (rule io.conveys_Cons, rule assms, rule io.conveys_last, rule assms)

lemma conveys_quant_matrix:
  assumes "coefficients_sendable n (pc_qm_coefficient_2 p)" and "coefficients_sendable n (pc_qm_coefficient_1 p)"
    and "length (pc_qm_coefficient_2 d) = MAX_NUM_LAYERS" and "length (pc_qm_coefficient_1 d) = MAX_NUM_LAYERS"
    and mode: "pc_quant_matrix_mode d = pc_quant_matrix_mode p"
  shows "io.conveys (emit_quant_matrix p n) (parse_quant_matrix n d)
    (d\<lparr>pc_qm_coefficient_2 := coefficients_received (level2_custom (pc_quant_matrix_mode p)) n
          (pc_qm_coefficient_2 d) (pc_qm_coefficient_2 p),
       pc_qm_coefficient_1 := coefficients_received (level1_custom (pc_quant_matrix_mode p)) n
          (pc_qm_coefficient_1 d) (pc_qm_coefficient_1 p)\<rparr>)"
proof -
  have option: "io.conveys (only_if c (map (put_element 8 cs) [0..<unat n]))
      (\<lambda>b. if c then rbind (parse_coefficients [0..<unat n] qm b) (\<lambda>(qm, b). Inr (set qm, b)) else Inr (y, b))
      (if c then set (take (unat n) cs @ drop (unat n) qm) else y)"
    if "coefficients_sendable n cs" "length qm = MAX_NUM_LAYERS" for c cs qm y and set :: "u32 list \<Rightarrow> picture_configuration"
    using io.conveys_map [OF conveys_matrix [OF that], of set] by (intro conveys_option) simp_all
  have first: "io.conveys (only_if (level2_custom m) (map (put_element 8 (pc_qm_coefficient_2 p)) [0..<unat n]))
      (\<lambda>b. if level2_custom m then rbind (parse_coefficients [0..<unat n] (pc_qm_coefficient_2 d) b)
         (\<lambda>(qm, b). Inr (d\<lparr>pc_qm_coefficient_2 := qm\<rparr>, b)) else Inr (d, b))
      (d\<lparr>pc_qm_coefficient_2 := coefficients_received (level2_custom m) n (pc_qm_coefficient_2 d) (pc_qm_coefficient_2 p)\<rparr>)" for m
    using option [OF assms(1,3), of "level2_custom m" "\<lambda>q. d\<lparr>pc_qm_coefficient_2 := q\<rparr>" d]
    by (cases "level2_custom m") (simp_all add: coefficients_received_def)
  have second: "io.conveys (only_if (level1_custom m) (map (put_element 8 (pc_qm_coefficient_1 p)) [0..<unat n]))
      (\<lambda>b. if level1_custom m then rbind (parse_coefficients [0..<unat n] (pc_qm_coefficient_1 d) b)
         (\<lambda>(qm, b). Inr (e\<lparr>pc_qm_coefficient_1 := qm\<rparr>, b)) else Inr (e, b))
      (e\<lparr>pc_qm_coefficient_1 := coefficients_received (level1_custom m) n (pc_qm_coefficient_1 d) (pc_qm_coefficient_1 p)\<rparr>)"
    if "pc_qm_coefficient_1 e = pc_qm_coefficient_1 d" for m and e :: picture_configuration
    using option [OF assms(2,4), of "level1_custom m" "\<lambda>q. e\<lparr>pc_qm_coefficient_1 := q\<rparr>" e]
    by (cases "level1_custom m") (simp_all add: coefficients_received_def flip: that)
  show ?thesis
    unfolding emit_quant_matrix_def parse_quant_matrix_def [abs_def] mode level2_custom_def [symmetric] level1_custom_def [symmetric]
    by (rule conveys_both, rule first)
      (use second [of "d\<lparr>pc_qm_coefficient_2 := coefficients_received (level2_custom (pc_quant_matrix_mode p)) n
        (pc_qm_coefficient_2 d) (pc_qm_coefficient_2 p)\<rparr>" "pc_quant_matrix_mode p"] mode in \<open>simp cong: if_cong\<close>)
qed

definition picture_received :: "u32 \<Rightarrow> picture_configuration \<Rightarrow> picture_configuration \<Rightarrow> picture_configuration" where
  "picture_received n old p = old
    \<lparr>pc_enhancement_enabled := True,
     pc_temporal_refresh := pc_temporal_refresh p,
     pc_temporal_signalling_present := pc_temporal_signalling_present p,
     pc_picture_type := pc_picture_type p,
     pc_field_type := (if pc_picture_type p = PictureType_Field then pc_field_type p else pc_field_type old),
     pc_step_width_loq := pc_step_width_loq p,
     pc_dithering_control := pc_dithering_control p,
     pc_dithering_type := (if \<not> pc_dithering_control p then pc_dithering_type old
       else if pc_dithering_type p = Dithering_None then Dithering_None else Dithering_Uniform),
     pc_dithering_strength := (if pc_dithering_control p \<and> pc_dithering_type p \<noteq> Dithering_None
       then pc_dithering_strength p else pc_dithering_strength old),
     pc_dequant_offset_signalled := pc_dequant_offset_signalled p,
     pc_dequant_offset_mode := (if pc_dequant_offset_signalled p then pc_dequant_offset_mode p else pc_dequant_offset_mode old),
     pc_dequant_offset := (if pc_dequant_offset_signalled p then pc_dequant_offset p else pc_dequant_offset old),
     pc_level_1_filtering_enabled := (if pc_step_width_loq p ! LOQ_LEVEL_1 \<noteq> 32767 then pc_level_1_filtering_enabled p
       else pc_level_1_filtering_enabled old),
     pc_quant_matrix_mode := pc_quant_matrix_mode p,
     pc_qm_coefficient_2 := coefficients_received (level2_custom (pc_quant_matrix_mode p)) n
        (pc_qm_coefficient_2 old) (pc_qm_coefficient_2 p),
     pc_qm_coefficient_1 := coefficients_received (level1_custom (pc_quant_matrix_mode p)) n
        (pc_qm_coefficient_1 old) (pc_qm_coefficient_1 p)\<rparr>"

definition picture_sendable :: "u32 \<Rightarrow> bool \<Rightarrow> picture_configuration \<Rightarrow> bool" where
  "picture_sendable n temporal p \<longleftrightarrow> picture_arrays p \<and> pc_enhancement_enabled p \<and>
     pc_temporal_signalling_present p = (temporal \<and> \<not> pc_temporal_refresh p) \<and>
     list_all (\<lambda>sw. 0 < sw \<and> sw < 2 ^ 15) (pc_step_width_loq p) \<and>
     coefficients_sendable n (pc_qm_coefficient_2 p) \<and> coefficients_sendable n (pc_qm_coefficient_1 p) \<and>
     pc_dequant_offset p < 2 ^ 7 \<and> pc_dithering_strength p < 2 ^ 5"

definition quant_matrix_code :: "quant_matrix \<Rightarrow> u32" where
  "quant_matrix_code m = (case m of QuantMatrix_BothPrevious \<Rightarrow> 0 | QuantMatrix_BothDefault \<Rightarrow> 1
     | QuantMatrix_SameAndCustom \<Rightarrow> 2 | QuantMatrix_Level2CustomLevel1Default \<Rightarrow> 3
     | QuantMatrix_Level2DefaultLevel1Custom \<Rightarrow> 4 | QuantMatrix_DifferentAndCustom \<Rightarrow> 5)"

definition picture_type_code :: "picture_type \<Rightarrow> u32" where
  "picture_type_code t = (case t of PictureType_Frame \<Rightarrow> 0 | PictureType_Field \<Rightarrow> 1)"

lemma picture_codes:
  "quant_matrix_code m < 2 ^ 3" "quant_matrix_of (quant_matrix_code m) = Inr m"
  "picture_type_code t < 2 ^ 1" "picture_type_code t \<noteq> 0 \<longleftrightarrow> t = PictureType_Field"
  "(if picture_type_code t = 0 then Inr PictureType_Frame else if picture_type_code t = 1 then Inr PictureType_Field
    else Inl CheckFailed) = Inr t"
  by (cases m; cases t; simp add: quant_matrix_code_def picture_type_code_def quant_matrix_of_def)+

lemma conveys_picture_type: "io.conveys (put_picture_type p) (\<lambda>b. unpacker_u b 1) (picture_type_code (pc_picture_type p))"
  unfolding put_picture_type_def picture_type_code_def [symmetric] by (rule conveys_u) (simp, rule picture_codes)

lemma conveys_field_type:
  "io.conveys (only_if (pc_picture_type p = PictureType_Field)
       [put_u 1 (case pc_field_type p of FieldType_Top \<Rightarrow> 0 | FieldType_Bottom \<Rightarrow> 1), put_u 7 0])
     (parse_field_type (picture_type_code (pc_picture_type p)) d)
     (d\<lparr>pc_field_type := (if pc_picture_type p = PictureType_Field then pc_field_type p else pc_field_type d)\<rparr>)"
  unfolding parse_field_type_def [abs_def]
  apply (rule conveys_option, rule picture_codes)
   apply (rule io.conveys_Cons, rule conveys_u, simp, simp split: field_type.split)
   apply (rule io.conveys_value [where x = "pc_field_type p"], simp split: field_type.split)
   apply (rule io.conveys_Cons, rule conveys_u, simp, simp)
   apply (rule conveys_done, simp)
  apply simp
  done

lemma conveys_step_width_level1:
  assumes "0 < sw" and "sw < 2 ^ 15"
  shows "io.conveys (only_if (sw \<noteq> 32767) [put_u 15 sw, put_flag f]) (parse_step_width_level1 (of_bool (sw \<noteq> 32767)) d)
     (d\<lparr>pc_step_width_loq := (pc_step_width_loq d)[LOQ_LEVEL_1 := sw],
        pc_level_1_filtering_enabled := (if sw \<noteq> 32767 then f else pc_level_1_filtering_enabled d)\<rparr>)"
  unfolding parse_step_width_level1_def [abs_def]
  apply (rule conveys_option, simp)
   apply (rule io.conveys_Cons, rule conveys_u, simp, rule assms)
   apply (rule io.conveys_value, simp add: assms)
   apply (rule io.conveys_Cons, rule conveys_flag)
   apply (rule conveys_done, simp)
  apply simp
  done

lemma conveys_dequant:
  assumes "pc_dequant_offset p < 2 ^ 7" and "pc_dequant_offset_signalled d = pc_dequant_offset_signalled p"
  shows "io.conveys (only_if (pc_dequant_offset_signalled p)
       [put_u 1 (case pc_dequant_offset_mode p of DequantOffset_Default \<Rightarrow> 0 | DequantOffset_ConstOffset \<Rightarrow> 1),
        put_u 7 (pc_dequant_offset p)])
     (parse_dequant_offset d)
     (d\<lparr>pc_dequant_offset_mode := (if pc_dequant_offset_signalled p then pc_dequant_offset_mode p else pc_dequant_offset_mode d),
        pc_dequant_offset := (if pc_dequant_offset_signalled p then pc_dequant_offset p else pc_dequant_offset d)\<rparr>)"
  unfolding parse_dequant_offset_def [abs_def]
  apply (rule conveys_option, rule assms)
   apply (rule io.conveys_Cons, rule conveys_u, simp, simp split: dequant_offset.split)
   apply (rule io.conveys_value [where x = "pc_dequant_offset_mode p"], simp split: dequant_offset.split)
   apply (rule io.conveys_Cons, rule conveys_u, simp, rule assms)
   apply (rule conveys_done, simp)
  apply simp
  done

lemma conveys_dithering:
  assumes "pc_dithering_strength p < 2 ^ 5" and "pc_dithering_control d = pc_dithering_control p"
  shows "io.conveys (emit_dithering p) (parse_dithering d)
     (d\<lparr>pc_dithering_type := (if \<not> pc_dithering_control p then pc_dithering_type d
          else if pc_dithering_type p = Dithering_None then Dithering_None else Dithering_Uniform),
        pc_dithering_strength := (if pc_dithering_control p \<and> pc_dithering_type p \<noteq> Dithering_None
          then pc_dithering_strength p else pc_dithering_strength d)\<rparr>)"
proof -
  let ?s = "if pc_dithering_type p \<noteq> Dithering_None then pc_dithering_strength p else 0"
  have s: "(if pc_dithering_type p \<noteq> Dithering_None then put_u 5 (pc_dithering_strength p) else put_u 5 0) = put_u 5 ?s"
    by simp
  have lt: "?s < 2 ^ 5" using assms(1) by simp
  show ?thesis
    unfolding emit_dithering_def parse_dithering_def [abs_def] s
    apply (rule conveys_option, rule assms)
     apply (rule io.conveys_Cons, rule conveys_u, simp, simp split: dithering_type.split)
     apply (rule io.conveys_value [where x = "if pc_dithering_type p = Dithering_None then Dithering_None else Dithering_Uniform"],
       simp split: dithering_type.split)
     apply (rule io.conveys_Cons, rule conveys_u, simp, simp)
     apply (rule io.conveys_Cons, rule conveys_u, simp, rule lt)
     apply (rule conveys_done, simp)
    apply simp
    done
qed

text \<open>The block of a picture with enhancement: the branch and the optional parts behind it.\<close>

definition emit_enhancement :: "picture_configuration \<Rightarrow> u32 \<Rightarrow> (packer \<Rightarrow> packer result) list" where
  "emit_enhancement p n =
    [put_u 3 (quant_matrix_code (pc_quant_matrix_mode p)), put_flag (pc_dequant_offset_signalled p),
     put_picture_type p, put_flag (pc_temporal_refresh p), put_flag (pc_step_width_loq p ! LOQ_LEVEL_1 \<noteq> 32767),
     put_u 15 (pc_step_width_loq p ! LOQ_LEVEL_2), put_flag (pc_dithering_control p)] @
    [only_if (pc_picture_type p = PictureType_Field)
       [put_u 1 (case pc_field_type p of FieldType_Top \<Rightarrow> 0 | FieldType_Bottom \<Rightarrow> 1), put_u 7 0],
     only_if (pc_step_width_loq p ! LOQ_LEVEL_1 \<noteq> 32767)
       [put_u 15 (pc_step_width_loq p ! LOQ_LEVEL_1), put_flag (pc_level_1_filtering_enabled p)],
     emit_quant_matrix p n,
     only_if (pc_dequant_offset_signalled p)
       [put_u 1 (case pc_dequant_offset_mode p of DequantOffset_Default \<Rightarrow> 0 | DequantOffset_ConstOffset \<Rightarrow> 1),
        put_u 7 (pc_dequant_offset p)],
     emit_dithering p]"

lemma emit_picture_enhanced:
  assumes "pc_enhancement_enabled p"
  shows "emit_picture_configuration p n = write_all [put_flag False, write_all (emit_enhancement p n)]"
  unfolding emit_picture_configuration_def if_P [OF assms] emit_enhancement_def quant_matrix_code_def
  by (subst write_all_nested) (use assms in simp)

lemma conveys_enhancement:
  assumes ok: "picture_sendable n temporal p" and old: "picture_arrays d" and en: "pc_enhancement_enabled d"
  shows "io.conveys (write_all (emit_enhancement p n)) (parse_enhancement n temporal d)
    (picture_type_code (pc_picture_type p), (picture_received n d p)\<lparr>pc_picture_type := pc_picture_type d\<rparr>)"
proof -
  note f = ok [unfolded picture_sendable_def picture_arrays_def]
  have sw: "0 < pc_step_width_loq p ! LOQ_LEVEL_1" "pc_step_width_loq p ! LOQ_LEVEL_1 < 2 ^ 15"
    "0 < pc_step_width_loq p ! LOQ_LEVEL_2" "pc_step_width_loq p ! LOQ_LEVEL_2 < 2 ^ 15"
    using f by (simp_all add: list_all_length)
  show ?thesis
    unfolding emit_enhancement_def parse_enhancement_def append.simps Let_def
    apply (rule io.conveys_Cons, rule conveys_u, simp, rule picture_codes)
    apply (rule io.conveys_Cons, rule conveys_flag)
    apply (rule io.conveys_Cons, rule conveys_picture_type)
    apply (rule io.conveys_Cons, rule conveys_flag)+
    apply (rule io.conveys_Cons, rule conveys_u, simp, rule sw)
    apply (rule io.conveys_value, simp add: sw)
    apply (rule io.conveys_Cons, rule conveys_flag)
    apply (rule io.conveys_value, rule picture_codes)
    apply (rule io.conveys_Cons, rule conveys_field_type)
    apply (rule io.conveys_Cons, rule conveys_step_width_level1, rule sw, rule sw)
    apply (rule io.conveys_Cons, rule conveys_quant_matrix)
    apply (use f in blast, use f in blast, use old in \<open>simp add: picture_arrays_def\<close>, use old in \<open>simp add: picture_arrays_def\<close>, simp)
    apply (rule io.conveys_Cons, rule conveys_dequant, use f in simp, simp)
    apply (rule io.conveys_Cons, rule conveys_dithering, use f in simp, simp)
    apply (rule conveys_done)
    apply (rule arg_cong [where f = "Pair _"])
    apply (rule picture_configuration.equality)
    apply (use f old en two_elements [of "pc_step_width_loq p" "pc_step_width_loq d"] in
        \<open>simp_all add: picture_received_def picture_arrays_def list_update_swap [of "Suc 0" 0]\<close>)
    done
qed

lemma conveys_picture:
  assumes "picture_sendable n temporal p" and "picture_arrays old"
  shows "io.conveys (emit_picture_configuration p n) (parse_picture_config n temporal old) (picture_received n old p)"
proof -
  have en: "pc_enhancement_enabled p" using assms(1) by (simp add: picture_sendable_def)
  let ?d = "old\<lparr>pc_enhancement_enabled := True\<rparr>"
  have d: "picture_arrays ?d" "pc_enhancement_enabled ?d" using assms(2) by (simp_all add: picture_arrays_def)
  have flag: "(of_bool False = (0 :: u32)) = True" by simp
  show ?thesis
    unfolding emit_picture_enhanced [OF en] parse_picture_config_def Let_def
    apply (rule io.conveys_Cons, rule conveys_flag)
    apply (simp only: flag d(2) if_True, subst write_all_single)
    apply (rule io.conveys_then, rule conveys_enhancement [OF assms(1) d])
    apply (simp only: prod.case picture_codes rbind.simps sum.inject prod.inject simp_thms)
    apply (rule picture_configuration.equality; simp add: picture_received_def)
    done
qed

text \<open>
  A picture without enhancement. The serializer still writes the field type, the step width of
  sub-layer 1 and the rest, which the parser leaves unread.
\<close>

definition writable :: "(packer \<Rightarrow> packer result) \<Rightarrow> bool" where
  "writable f \<longleftrightarrow> (\<forall>k. \<exists>bs. pk.writes k f bs)"

lemma conveys_writable: "io.conveys f p x \<Longrightarrow> writable f"
  by (auto simp: io.conveys_def writable_def)

lemma writable_Nil: "writable (write_all [])"
  unfolding writable_def using pk.writes_all_Nil by blast

lemma writable_Cons: "writable f \<Longrightarrow> writable (write_all fs) \<Longrightarrow> writable (write_all (f # fs))"
  unfolding writable_def using pk.writes_all_Cons by blast

lemma conveys_ahead:
  assumes "io.conveys f p x" and "writable g"
  obtains w r r' where "write_all [f, g] packer_new = Inr w" and "through_packet w = Inr r" and "p r = Inr (x, r')"
proof -
  from assms(1) obtain bs where bs: "pk.writes 0 f bs" "ups.reads 0 p bs x" by (auto simp: io.conveys_def)
  from assms(2) obtain cs where "pk.writes (0 + length bs) g cs" by (auto simp: writable_def)
  from pk.writes_bind [OF bs(1) this] have "pk.writes 0 (write_all [f, g]) (bs @ cs)" by (simp add: write_all_funs)
  moreover have "length (packer_bits packer_new) = 0" "packer_bits packer_new = []" by simp_all
  ultimately obtain w where w: "write_all [f, g] packer_new = Inr w" "packer_inv w" "packer_bits w = bs @ cs"
    using pk.writesD [OF _ packer_inv_new] by (metis append_Nil)
  obtain r k where r: "through_packet w = Inr r" "unpacker_inv r" "pending r = bs @ (cs @ replicate k False)"
    "up_bit_offset r = 0" using through_packet_spec [OF w(2)] w(3) by (metis append.assoc)
  from ups.readsD [OF bs(2) r(2,4,3)] w(1) r(1) that show thesis by blast
qed

definition picture_idle_received :: "picture_configuration \<Rightarrow> picture_configuration \<Rightarrow> picture_configuration" where
  "picture_idle_received old p = old
    \<lparr>pc_enhancement_enabled := False, pc_temporal_refresh := pc_temporal_refresh p,
     pc_temporal_signalling_present := pc_temporal_signalling_present p, pc_picture_type := pc_picture_type p\<rparr>"

definition emit_idle :: "picture_configuration \<Rightarrow> (packer \<Rightarrow> packer result) list" where
  "emit_idle p = [put_flag True, write_all [put_u 4 0, put_picture_type p, put_flag (pc_temporal_refresh p),
     put_flag (pc_temporal_signalling_present p)]]"

definition emit_unread :: "picture_configuration \<Rightarrow> u32 \<Rightarrow> (packer \<Rightarrow> packer result) list" where
  "emit_unread p n =
    [only_if (pc_picture_type p = PictureType_Field)
       [put_u 1 (case pc_field_type p of FieldType_Top \<Rightarrow> 0 | FieldType_Bottom \<Rightarrow> 1), put_u 7 0],
     only_if (pc_step_width_loq p ! LOQ_LEVEL_1 \<noteq> 32767)
       [put_u 15 (pc_step_width_loq p ! LOQ_LEVEL_1), put_flag (pc_level_1_filtering_enabled p)],
     emit_quant_matrix p n,
     only_if (pc_dequant_offset_signalled p)
       [put_u 1 (case pc_dequant_offset_mode p of DequantOffset_Default \<Rightarrow> 0 | DequantOffset_ConstOffset \<Rightarrow> 1),
        put_u 7 (pc_dequant_offset p)],
     emit_dithering p]"

lemma emit_picture_idle:
  assumes "\<not> pc_enhancement_enabled p"
  shows "emit_picture_configuration p n = write_all [write_all (emit_idle p), write_all (emit_unread p n)]"
proof -
  have "emit_picture_configuration p n = write_all (emit_idle p @ emit_unread p n)"
    unfolding emit_picture_configuration_def if_not_P [OF assms] emit_idle_def emit_unread_def
    using assms by simp
  then show ?thesis by (simp add: write_all_append write_all_funs)
qed

lemma writable_unread:
  assumes "picture_arrays p" and "list_all (\<lambda>sw. 0 < sw \<and> sw < 2 ^ 15) (pc_step_width_loq p)"
    and "coefficients_sendable n (pc_qm_coefficient_2 p)" and "coefficients_sendable n (pc_qm_coefficient_1 p)"
    and "pc_dequant_offset p < 2 ^ 7" and "pc_dithering_strength p < 2 ^ 5"
  shows "writable (write_all (emit_unread p n))"
  unfolding emit_unread_def
  apply (rule writable_Cons, rule conveys_writable, rule conveys_field_type)
  apply (rule writable_Cons, rule conveys_writable, rule conveys_step_width_level1)
    apply (use assms in \<open>simp add: picture_arrays_def list_all_length\<close>, use assms in \<open>simp add: picture_arrays_def list_all_length\<close>)
  apply (rule writable_Cons, rule conveys_writable, rule conveys_quant_matrix [of n p p])
       apply (rule assms, rule assms, use assms(1) in \<open>simp add: picture_arrays_def\<close>, use assms(1) in \<open>simp add: picture_arrays_def\<close>, rule refl)
  apply (rule writable_Cons, rule conveys_writable, rule conveys_dequant [of p p], rule assms, rule refl)
  apply (rule writable_Cons, rule conveys_writable, rule conveys_dithering [of p p], rule assms, rule refl)
  apply (rule writable_Nil)
  done

lemma conveys_idle:
  "io.conveys (write_all (emit_idle p)) (parse_picture_config n temporal old) (picture_idle_received old p)"
proof -
  have flag: "(of_bool True = (0 :: u32)) = False" by simp
  let ?d = "old\<lparr>pc_enhancement_enabled := False\<rparr>"
  have "io.conveys (write_all [put_u 4 0, put_picture_type p, put_flag (pc_temporal_refresh p),
      put_flag (pc_temporal_signalling_present p)]) (parse_no_enhancement ?d)
    (picture_type_code (pc_picture_type p), ?d\<lparr>pc_temporal_refresh := pc_temporal_refresh p,
       pc_temporal_signalling_present := pc_temporal_signalling_present p\<rparr>)"
    unfolding parse_no_enhancement_def
    apply (rule io.conveys_Cons, rule conveys_u, simp, simp)
    apply (rule io.conveys_Cons, rule conveys_picture_type)
    apply (rule io.conveys_Cons, rule conveys_flag)+
    apply (rule conveys_done, simp)
    done
  moreover have "\<not> pc_enhancement_enabled ?d" by simp
  ultimately show ?thesis
    unfolding emit_idle_def parse_picture_config_def Let_def
    apply -
    apply (rule io.conveys_Cons, rule conveys_flag)
    apply (simp only: flag if_False, subst write_all_single)
    apply (rule io.conveys_then, assumption)
    apply (simp only: prod.case picture_codes rbind.simps sum.inject prod.inject simp_thms)
    apply (rule picture_configuration.equality; simp add: picture_idle_received_def)
    done
qed

section \<open>Additional information and filler\<close>

lemma conveys_additional_info:
  assumes "ai_additional_info_type a \<le> 1" and "ai_payload_type a < 2 ^ 8"
  shows "io.conveys (emit_additional_info a) (parse_additional_info old)
    (if ai_additional_info_type a = 0 then a else a\<lparr>ai_payload_type := ai_payload_type old\<rparr>)"
proof (cases "ai_additional_info_type a = 0")
  case True
  have t: "ai_additional_info_type a < 2 ^ 8" by (simp add: True)
  show ?thesis
    unfolding emit_additional_info_def parse_additional_info_def Let_def
    apply (rule io.conveys_Cons, rule conveys_u, simp, rule t)
    apply (simp only: True if_True refl)
    apply (rule io.conveys_Cons, rule conveys_u, simp, rule assms(2))
    apply (rule conveys_done, simp add: True)
    done
next
  case False
  with assms(1) have one: "ai_additional_info_type a = 1"
    by (metis order_le_less word_less_1)
  have t: "(1 :: u32) < 2 ^ 8" by simp
  show ?thesis
    unfolding emit_additional_info_def parse_additional_info_def Let_def one
    apply (rule io.conveys_Cons, rule conveys_u, simp, rule t)
    apply simp
    apply (rule conveys_checked, simp, rule conveys_done)
    apply (simp add: one)
    done
qed

text \<open>A filler block is accepted if and only if all its bytes are the filler byte.\<close>

lemma parse_filler_bytes:
  assumes "unpacker_inv r" and "pending r = stream_bits bs"
  shows "(\<exists>r'. parse_filler r = Inr r') \<longleftrightarrow> (\<forall>x \<in> set bs. x = 0xaa)"
  using assms
proof (induction bs arbitrary: r)
  case Nil
  then have "up_empty r" by (simp add: up_empty_def up_remaining_bits_pending del: length_pending)
  then show ?case by (subst parse_filler.simps) simp
next
  case (Cons x bs)
  have bits: "pending r = bits_of 8 (ucast x :: u32) @ stream_bits bs"
    using Cons.prems(2) by (simp add: stream_bits_Cons bits_of_def bit_unsigned_iff)
  have ne: "\<not> up_empty r"
    using bits by (simp add: up_empty_def up_remaining_bits_pending del: length_pending)
  obtain r1 where r1: "unpacker_u r 8 = Inr (take_bit 8 (ucast x), r1)" "unpacker_inv r1" "pending r1 = stream_bits bs"
    using ups.readsD [OF ups.reads_get Cons.prems(1) refl bits] by auto
  have id: "take_bit 8 (ucast x :: u32) = ucast x"
    by (rule bit_word_eqI) (auto simp: bit_take_bit_iff bit_unsigned_iff dest: bit_imp_le_length)
  have eq: "(ucast x :: u32) = 0xaa \<longleftrightarrow> x = 0xaa"
  proof
    assume "(ucast x :: u32) = 0xaa"
    then have "(ucast (ucast x :: u32) :: u8) = ucast (0xaa :: u32)" by simp
    moreover have "(ucast (ucast x :: u32) :: u8) = x" by (rule bit_word_eqI) (simp add: bit_unsigned_iff)
    ultimately show "x = 0xaa" by simp
  qed simp
  show ?case
    using Cons.IH [OF r1(2,3)] ne r1(1) id eq
    by (subst parse_filler.simps) (auto simp: check_that_def)
qed

lemma writes_filler: "pk.writes k (emit_filler n) (stream_bits (replicate n 0xaa))"
proof (induction n arbitrary: k)
  case 0
  then show ?case by (simp add: emit_filler_def write_all_funs pk.writes_none)
next
  case (Suc n)
  have eq: "bits_of 8 (0xaa :: u8) = bits_of 8 (0xaa :: u32)" by (simp add: bits_of_def upt_rec)
  have "emit_filler (Suc n) = (\<lambda>s. rbind (put_u 8 0xaa s) (emit_filler n))"
    by (simp add: emit_filler_def write_all_funs)
  moreover have "pk.writes k (put_u 8 0xaa) (bits_of 8 (0xaa :: u32))"
    using pk.writes_put [of 8 k "0xaa"] by (simp add: put_u_def [abs_def])
  ultimately show ?case using pk.writes_bind Suc by (simp add: stream_bits_Cons eq)
qed

section \<open>Properties\<close>

text \<open>
  C27: every 64-bit number written by \<open>write_multibyte\<close> into a new packer and finished into a packet
  is what \<open>read_multibyte\<close> reads back; nothing is left in the packet.
\<close>

theorem multibyte_roundtrip:
  "\<exists>w r r'. write_multibyte v packer_new = Inr w \<and> through_packet w = Inr r \<and>
     read_multibyte r = Inr (v, r') \<and> up_remaining_bits r' < 8"
  by (rule conveys_through [OF conveys_multibyte [of v]]) (auto simp: up_remaining_bits_pending simp del: length_pending)

text \<open>
  C25: a sequence block of profile Main or Main 4:4:4, level below 15 and sub-level below 4 gives the
  decoder the profile, the level, the conformance flag and, when it is set, the four offsets of the
  conformance window, all 32 bits of them; the other fields keep the decoder's values.
\<close>

theorem sequence_config_roundtrip:
  assumes "sequence_sendable c"
  shows "\<exists>w r r'. emit_sequence_configuration c packer_new = Inr w \<and> through_packet w = Inr r \<and>
    parse_sequence_config old r = Inr (sequence_received old c, r') \<and> up_remaining_bits r' < 8"
  by (rule conveys_through [OF conveys_sequence [OF assms, of old]])
    (auto simp: up_remaining_bits_pending simp del: length_pending)

definition sample_sequence :: "u32 \<Rightarrow> sequence_configuration" where
  "sample_sequence level = \<lparr>sq_profile_idc = Profile_Main, sq_level_idc = level, sq_sublevel_idc = 1,
     sq_conformance_window = True, sq_extended_profile_idc = 1, sq_extended_level_idc = 2,
     sq_conf_win_left_offset = 4, sq_conf_win_right_offset = 6, sq_conf_win_top_offset = 200, sq_conf_win_bottom_offset = 8\<rparr>"

theorem sequence_config_roundtrip_witness:
  "\<exists>w r r'. emit_sequence_configuration (sample_sequence 3) packer_new = Inr w \<and> through_packet w = Inr r \<and>
    parse_sequence_config (sample_sequence 9) r = Inr (sample_sequence 3, r') \<and> up_remaining_bits r' < 8"
  using sequence_config_roundtrip [of "sample_sequence 3" "sample_sequence 9"]
  by (simp add: sequence_sendable_def sequence_received_def sample_sequence_def)

text \<open>
  With level 15 the block has an extension of which the serializer writes eight bits and the parser
  reads seven, so everything behind it is read one bit early.
\<close>

text \<open>A small number with a zero in front is its half with its last bit behind.\<close>

lemma slipped_number:
  assumes "v \<le> 0x7f"
  shows "False # multibyte_bits v False = multibyte_bits (drop_bit 1 v) False @ [bit v 0]"
proof -
  have small: "multibyte_bits u False = False # bits_of 7 u" if "u \<le> 0x7f" for u
  proof -
    have m: "(0x7f :: u64) = mask 7" by (simp add: mask_eq_exp_minus_1)
    have "bits_of 7 (ucast (u AND 0x7f) :: u32) = bits_of 7 u"
      unfolding m by (rule nth_equalityI) (auto simp: nth_bits_of bit_unsigned_iff bit_and_iff bit_mask_iff)
    moreover have "\<not> 0x7f < u" using that by (rule leD)
    ultimately show ?thesis by (simp add: multibyte_bits.simps [of u] group_bits_def bits_of_Suc [of 0, simplified])
  qed
  have "unat (drop_bit 1 v) = unat v div 2" unfolding unat_drop_bit_eq by (simp add: drop_bit_eq_div)
  then have "unat (drop_bit 1 v) \<le> 127" using assms by (simp only: word_le_nat_alt) simp
  then have "drop_bit 1 v \<le> 0x7f" unfolding word_le_nat_alt by simp
  moreover have "take_bit 7 v = v"
    using assms by (simp add: take_bit_eq_mod word_le_nat_alt unat_mod word_unat_eq_iff)
  then have "\<not> bit v 7" by (metis bit_take_bit_iff less_irrefl)
  moreover have "bits_of 8 v = bits_of 7 (drop_bit 1 v) @ bits_of 1 v" "bits_of 8 v = bit v 7 # bits_of 7 v"
    using bits_of_add [of 7 1 v] bits_of_Suc [of 7 v] by simp_all
  ultimately show ?thesis using assms by (simp add: small bits_of_Suc [of 0, simplified])
qed


text \<open>The bits of a block of level 15, as they are written and as they are read.\<close>

definition profile_code :: "profile \<Rightarrow> u32" where
  "profile_code p = (if p = Profile_Main then 0 else 1)"

definition level_15_head :: "sequence_configuration \<Rightarrow> bool list" where
  "level_15_head c = bits_of 4 (profile_code (sq_profile_idc c)) @ bits_of 4 (15 :: u32) @ bits_of 2 (sq_sublevel_idc c) @
     bits_of 1 (of_bool (sq_conformance_window c) :: u32) @ bits_of 5 (0 :: u32) @ bits_of 3 (sq_extended_profile_idc c)"

definition window_bits :: "sequence_configuration \<Rightarrow> bool list" where
  "window_bits c = (if sq_conformance_window c then
     multibyte_bits (ucast (sq_conf_win_left_offset c)) False @ multibyte_bits (ucast (sq_conf_win_right_offset c)) False @
     multibyte_bits (ucast (sq_conf_win_top_offset c)) False @ multibyte_bits (ucast (sq_conf_win_bottom_offset c)) False else [])"

definition halved_window :: "sequence_configuration \<Rightarrow> sequence_configuration" where
  "halved_window c = c\<lparr>sq_conf_win_left_offset := drop_bit 1 (sq_conf_win_left_offset c),
     sq_conf_win_right_offset := drop_bit 1 (sq_conf_win_right_offset c),
     sq_conf_win_top_offset := drop_bit 1 (sq_conf_win_top_offset c),
     sq_conf_win_bottom_offset := drop_bit 1 (sq_conf_win_bottom_offset c)\<rparr>"

definition even_window :: "sequence_configuration \<Rightarrow> bool" where
  "even_window c \<longleftrightarrow> (sq_conformance_window c \<longrightarrow>
     list_all (\<lambda>v. v \<le> 0x7f) [sq_conf_win_left_offset c, sq_conf_win_right_offset c, sq_conf_win_top_offset c, sq_conf_win_bottom_offset c] \<and>
     list_all even [sq_conf_win_left_offset c, sq_conf_win_right_offset c, sq_conf_win_top_offset c])"

lemma window_slips:
  assumes "even_window c"
  shows "\<exists>b. False # window_bits c = window_bits (halved_window c) @ [b]"
proof (cases "sq_conformance_window c")
  case True
  have slip: "False # multibyte_bits (ucast v) False @ bs = multibyte_bits (ucast (drop_bit 1 v)) False @ odd v # bs"
    if "v \<le> 0x7f" for v :: u32 and bs
  proof -
    have "ucast v \<le> (0x7f :: u64)" using that by (simp add: word_le_nat_alt unsigned_ucast_eq order_trans [OF take_bit_nat_less_eq_self])
    moreover have "drop_bit 1 (ucast v :: u64) = ucast (drop_bit 1 v)" by (rule bit_word_eqI) (auto simp: bit_simps dest: bit_imp_le_length)
    moreover have "bit (ucast v :: u64) 0 = odd v" unfolding bit_unsigned_iff by (simp add: bit_0)
    ultimately have eq: "False # multibyte_bits (ucast v) False = multibyte_bits (ucast (drop_bit 1 v)) False @ [odd v]"
      using slipped_number [of "ucast v"] by metis
    have "False # multibyte_bits (ucast v) False @ bs = (False # multibyte_bits (ucast v) False) @ bs" by simp
    then show ?thesis unfolding eq by simp
  qed
  have "False # window_bits c = window_bits (halved_window c) @ [odd (sq_conf_win_bottom_offset c)]"
    using assms True slip [of "sq_conf_win_bottom_offset c" "[]"]
    by (simp add: even_window_def window_bits_def halved_window_def slip)
  then show ?thesis by blast
qed (auto simp: window_bits_def halved_window_def)

lemma writes_u: "n < 31 \<Longrightarrow> pk.writes k (put_u n v) (bits_of n v)"
  using pk.writes_put [of n k v] by (simp add: put_u_def [abs_def])

lemma writes_only_if:
  assumes "c \<Longrightarrow> pk.writes k (write_all fs) bs"
  shows "pk.writes k (only_if c fs) (if c then bs else [])"
  using assms pk.writes_all_Nil by (simp add: only_if_def [abs_def])

lemma writes_window:
  "pk.writes k (only_if (sq_conformance_window c)
     [write_multibyte (ucast (sq_conf_win_left_offset c)), write_multibyte (ucast (sq_conf_win_right_offset c)),
      write_multibyte (ucast (sq_conf_win_top_offset c)), write_multibyte (ucast (sq_conf_win_bottom_offset c))]) (window_bits c)"
proof -
  have "pk.writes k (only_if (sq_conformance_window c)
      [write_multibyte (ucast (sq_conf_win_left_offset c)), write_multibyte (ucast (sq_conf_win_right_offset c)),
       write_multibyte (ucast (sq_conf_win_top_offset c)), write_multibyte (ucast (sq_conf_win_bottom_offset c))])
    (if sq_conformance_window c then
       multibyte_bits (ucast (sq_conf_win_left_offset c)) False @ multibyte_bits (ucast (sq_conf_win_right_offset c)) False @
       multibyte_bits (ucast (sq_conf_win_top_offset c)) False @ multibyte_bits (ucast (sq_conf_win_bottom_offset c)) False @ [] else [])"
    by (intro writes_only_if pk.writes_all_Cons writes_multibyte pk.writes_all_Nil)
  then show ?thesis unfolding window_bits_def append_Nil2 .
qed

lemma writes_level_15:
  assumes "sq_profile_idc c \<noteq> Profile_Auto" and "sq_level_idc c = 15"
  shows "pk.writes k (emit_sequence_configuration c) (level_15_head c @ bits_of 4 (sq_extended_level_idc c) @ False # window_bits c)"
proof -
  have code: "(case sq_profile_idc c of Profile_Main \<Rightarrow> put_u 4 0 | Profile_Main444 \<Rightarrow> put_u 4 1 | _ \<Rightarrow> check False) =
      put_u 4 (profile_code (sq_profile_idc c))"
    using assms(1) by (cases "sq_profile_idc c") (simp_all add: profile_code_def)
  have extended: "pk.writes k (only_if (profile_value (sq_profile_idc c) = 15 \<or> sq_level_idc c = 15)
      [put_u 3 (sq_extended_profile_idc c), put_u 4 (sq_extended_level_idc c), put_u 1 0])
      (bits_of 3 (sq_extended_profile_idc c) @ bits_of 4 (sq_extended_level_idc c) @ bits_of 1 (0 :: u32) @ [])" for k
    using assms(2) by (simp only: only_if_def simp_thms if_True) (intro pk.writes_all_Cons pk.writes_all_Nil writes_u; simp)
  have "pk.writes k (emit_sequence_configuration c)
     (bits_of 4 (profile_code (sq_profile_idc c)) @ bits_of 4 (sq_level_idc c) @ bits_of 2 (sq_sublevel_idc c) @
      bits_of 1 (of_bool (sq_conformance_window c) :: u32) @ bits_of 5 (0 :: u32) @
      (bits_of 3 (sq_extended_profile_idc c) @ bits_of 4 (sq_extended_level_idc c) @ bits_of 1 (0 :: u32) @ []) @ window_bits c @ [])"
    unfolding emit_sequence_configuration_def code put_flag_def
    by (intro pk.writes_all_Cons pk.writes_all_Nil writes_u writes_window extended) simp_all
  moreover have "bits_of 1 (0 :: u32) = [False]" by (simp add: bits_of_Suc [of 0, simplified])
  ultimately show ?thesis by (simp add: level_15_head_def assms(2))
qed

lemma reads_u: "n < 31 \<Longrightarrow> v < 2 ^ n \<Longrightarrow> ups.reads k (\<lambda>b. unpacker_u b n) (bits_of n v) v"
  using ups.reads_get [of n k v] take_bit_word_id by simp

lemma reads_any: "n < 31 \<Longrightarrow> ups.reads k (\<lambda>b. unpacker_u b n) (bits_of n v) (take_bit n v)"
  using ups.reads_get [of n k v] by simp

lemma reads_window:
  assumes same: "sq_conformance_window d = sq_conformance_window c"
  shows "ups.reads k (parse_conf_window d) (window_bits c)
     (if sq_conformance_window c then
        d\<lparr>sq_conf_win_left_offset := sq_conf_win_left_offset c, sq_conf_win_right_offset := sq_conf_win_right_offset c,
          sq_conf_win_top_offset := sq_conf_win_top_offset c, sq_conf_win_bottom_offset := sq_conf_win_bottom_offset c\<rparr>
      else d)"
proof (cases "sq_conformance_window c")
  case True
  have id: "ucast (ucast v :: u64) = v" for v :: u32 by (rule bit_word_eqI) (simp add: bit_unsigned_iff)
  let ?m = "\<lambda>v :: u32. multibyte_bits (ucast v) False"
  let ?l = "sq_conf_win_left_offset c" and ?r = "sq_conf_win_right_offset c" and ?t = "sq_conf_win_top_offset c" and ?b = "sq_conf_win_bottom_offset c"
  have "ups.reads k (\<lambda>b. rbind (read_multibyte b) (\<lambda>(left, b). rbind (read_multibyte b) (\<lambda>(right, b).
        rbind (read_multibyte b) (\<lambda>(top, b). rbind (read_multibyte b) (\<lambda>(bottom, b).
        Inr (d\<lparr>sq_conf_win_left_offset := ucast left, sq_conf_win_right_offset := ucast right,
               sq_conf_win_top_offset := ucast top, sq_conf_win_bottom_offset := ucast bottom\<rparr>, b))))))
      (?m ?l @ ?m ?r @ ?m ?t @ ?m ?b @ [])
      (d\<lparr>sq_conf_win_left_offset := ucast (ucast ?l :: u64), sq_conf_win_right_offset := ucast (ucast ?r :: u64),
         sq_conf_win_top_offset := ucast (ucast ?t :: u64), sq_conf_win_bottom_offset := ucast (ucast ?b :: u64)\<rparr>)"
    by (rule ups.reads_bind [OF reads_multibyte])+ (rule ups.reads_return)
  then show ?thesis unfolding id by (simp add: parse_conf_window_def [abs_def] window_bits_def same True)
qed (simp add: parse_conf_window_def [abs_def] window_bits_def same ups.reads_return)

lemma reads_level_15:
  assumes "sq_profile_idc c \<noteq> Profile_Auto" and "sq_level_idc c = 15" and "sq_sublevel_idc c < 4"
  shows "ups.reads k (parse_sequence_config old)
    (level_15_head c @ bits_of 3 (drop_bit 1 e) @ bits_of 1 (e :: u32) @ window_bits c) (sequence_received old c)"
proof -
  have extension: "ups.reads k (\<lambda>b. rbind (unpacker_u b 3) (\<lambda>(_, b). rbind (unpacker_u b 3) (\<lambda>(_, b). rbind (unpacker_u b 1) (\<lambda>(_, b). Inr ((), b)))))
      (bits_of 3 (sq_extended_profile_idc c) @ bits_of 3 (drop_bit 1 e) @ bits_of 1 e @ []) ()" for k
    by (rule ups.reads_bind [OF reads_any], simp)+ (rule ups.reads_return)
  have "ups.reads k (parse_sequence_config old)
    (bits_of 4 (profile_code (sq_profile_idc c)) @ bits_of 4 (sq_level_idc c) @ bits_of 2 (sq_sublevel_idc c) @
     bits_of 1 (of_bool (sq_conformance_window c) :: u32) @ bits_of 5 (0 :: u32) @
     (bits_of 3 (sq_extended_profile_idc c) @ bits_of 3 (drop_bit 1 e) @ bits_of 1 e @ []) @ window_bits c @ []) (sequence_received old c)"
    unfolding parse_sequence_config_def Let_def
    apply (rule ups.reads_bind [OF reads_u], simp, simp add: profile_code_def)
    apply (rule ups.reads_bind [OF reads_u], simp, simp add: assms(2))
    apply (rule ups.reads_bind [OF reads_u], simp, use assms(3) in simp)
    apply (rule ups.reads_bind [OF reads_u], simp, simp)
    apply (rule ups.reads_bind [OF reads_u], simp, simp)
    apply (rule ups.reads_bind, simp only: assms(2) simp_thms if_True, rule extension)
    apply (rule ups.reads_bind, rule reads_window, simp)
    apply (rule ups.reads_value [where x = "sq_profile_idc c"])
     apply (use assms(1) in \<open>cases "sq_profile_idc c"; simp add: profile_code_def\<close>)
    apply (cases c; cases old; simp add: sequence_received_def ups.reads_return)
    done
  then show ?thesis by (simp add: level_15_head_def assms(2))
qed

text \<open>
  C26: a sequence block of level 15 is read one bit early from its extension on, whatever the extended
  profile and level are. Without a conformance window the decoder still gets the fields of the block.
  With a window of numbers below 128, of which all but the last one are even, it succeeds too and gets
  the half of each of the four offsets; in both cases a bit of the block is left unread.
\<close>

theorem sequence_level_15_shifted:
  assumes "sq_profile_idc c \<noteq> Profile_Auto" and "sq_level_idc c = 15" and "sq_sublevel_idc c < 4" and "even_window c"
  shows "\<exists>w r r'. emit_sequence_configuration c packer_new = Inr w \<and> through_packet w = Inr r \<and>
    parse_sequence_config old r = Inr (sequence_received old (halved_window c), r') \<and> 0 < up_remaining_bits r'"
proof -
  let ?h = "halved_window c" and ?e = "sq_extended_level_idc c"
  have h: "sq_profile_idc ?h \<noteq> Profile_Auto" "sq_level_idc ?h = 15" "sq_sublevel_idc ?h < 4" "level_15_head ?h = level_15_head c"
    using assms(1-3) by (simp_all add: halved_window_def level_15_head_def)
  obtain b where b: "False # window_bits c = window_bits ?h @ [b]" using window_slips [OF assms(4)] by blast
  obtain w where w: "emit_sequence_configuration c packer_new = Inr w" "packer_inv w"
    "packer_bits w = packer_bits packer_new @ level_15_head c @ bits_of 4 ?e @ False # window_bits c"
    by (rule pk.writesD [OF writes_level_15 [OF assms(1,2), of 0] packer_inv_new]) simp
  obtain r n where r: "through_packet w = Inr r" "unpacker_inv r" "up_bit_offset r = 0" "pending r = packer_bits w @ replicate n False"
    using through_packet_spec [OF w(2)] by metis
  have "pending r = (level_15_head ?h @ bits_of 3 (drop_bit 1 ?e) @ bits_of 1 ?e @ window_bits ?h) @ b # replicate n False"
    using bits_of_add [of 3 1 ?e] unfolding r(4) w(3) b h(4) by simp
  from ups.readsD [OF reads_level_15 [OF h(1-3)] r(2,3) this] obtain r' where
    r': "parse_sequence_config old r = Inr (sequence_received old ?h, r')" "pending r' = b # replicate n False" by blast
  have "up_remaining_bits r' = length (pending r')" by (simp add: up_remaining_bits_pending del: length_pending)
  then have "0 < up_remaining_bits r'" unfolding r'(2) by simp
  with w(1) r(1) r'(1) show ?thesis by blast
qed

text \<open>The offsets 4, 6, 2 and 9 arrive as 2, 3, 1 and 4.\<close>

theorem sequence_level_15_shifted_witness:
  "\<exists>w r c r'. emit_sequence_configuration ((sample_sequence 15)\<lparr>sq_conf_win_top_offset := 2, sq_conf_win_bottom_offset := 9\<rparr>) packer_new = Inr w \<and>
    through_packet w = Inr r \<and> parse_sequence_config (sample_sequence 15) r = Inr (c, r') \<and>
    sq_conf_win_left_offset c = 2 \<and> sq_conf_win_right_offset c = 3 \<and> sq_conf_win_top_offset c = 1 \<and> sq_conf_win_bottom_offset c = 4"
  using sequence_level_15_shifted [of "(sample_sequence 15)\<lparr>sq_conf_win_top_offset := 2, sq_conf_win_bottom_offset := 9\<rparr>" "sample_sequence 15"]
  by (fastforce simp: sample_sequence_def even_window_def halved_window_def sequence_received_def)

text \<open>
  C9: a global block of any configuration within the widths of its fields (processed planes 1 or 3,
  transform blocks of 2 or 4, depths 8 to 14, a resolution other than 0 by 0 below 65536, tile sizes
  that go with their type) gives the decoder every field it carries, whether the resolution is in
  the table or not, together with the number of planes and layers and the image format derived
  from them.
\<close>

theorem global_config_roundtrip:
  assumes "global_sendable g" and "global_arrays old"
  shows "\<exists>w r r'. emit_global_configuration g packer_new = Inr w \<and> through_packet w = Inr r \<and>
    parse_global_config old r = Inr (global_received old g, r') \<and> up_remaining_bits r' < 8"
  by (rule conveys_through [OF conveys_global [OF assms]])
    (auto simp: up_remaining_bits_pending simp del: length_pending)

definition sample_global :: global_configuration where
  "sample_global = \<lparr>gc_base_depth = 8, gc_enhancement_depth = 10, gc_colourspace = Colourspace_YUV420,
     gc_image_format = IMAGE_FORMAT_YUV420P10, gc_num_image_planes = 3, gc_num_processed_planes = 1,
     gc_num_residual_layers = 16, gc_transform_block_size = 4, gc_predicted_residual_enabled = True,
     gc_resolution_height = 720, gc_resolution_width = 1281, gc_temporal_enabled = 1,
     gc_temporal_tile_intra_signalling_enabled = True, gc_temporal_step_width_modifier = 48,
     gc_upsample = Upsample_AdaptiveCubic, gc_level_1_filtering_first_coefficient = 3,
     gc_level_1_filtering_second_coefficient = 0, gc_scaling_mode = [ScalingMode_None, ScalingMode_2D],
     gc_tile_dimensions_type = TileDimensions_Custom, gc_user_data_enabled = UserData_2bits,
     gc_level1_depth_flag = False, gc_chroma_step_width_multiplier = 70, gc_tile_width = 320, gc_tile_height = 160,
     gc_compression_type_entropy_enabled_per_tile = True,
     gc_compression_type_size_per_tile = CompressionType_Prefix_OnDiff, gc_upsampling_coefficients = [1382, 14285, 3942, 461],
     gc_additional_info_present = False, gc_additional_info_type = 0, gc_sei_message_present = False,
     gc_vui_message_present = False\<rparr>"

theorem global_config_roundtrip_witness:
  "\<exists>w r r'. emit_global_configuration sample_global packer_new = Inr w \<and> through_packet w = Inr r \<and>
    parse_global_config sample_global r = Inr (sample_global, r') \<and> up_remaining_bits r' < 8"
  using global_config_roundtrip [of sample_global sample_global]
  by (simp add: global_sendable_def global_arrays_def global_received_def sample_global_def format_of_def)

text \<open>
  C10: a picture block with enhancement gives the decoder every field it carries: the optional ones
  only when they are there, of a custom quantisation matrix as many coefficients as there are
  residual layers, and both uniform dithering types as the same one. The step widths have to be
  between 1 and 32767, and temporal signalling what the parser derives from the refresh flag.
\<close>

theorem picture_config_roundtrip:
  assumes "picture_sendable n temporal p" and "picture_arrays old"
  shows "\<exists>w r r'. emit_picture_configuration p n packer_new = Inr w \<and> through_packet w = Inr r \<and>
    parse_picture_config n temporal old r = Inr (picture_received n old p, r') \<and> up_remaining_bits r' < 8"
  by (rule conveys_through [OF conveys_picture [OF assms]])
    (auto simp: up_remaining_bits_pending simp del: length_pending)

definition sample_picture :: "bool \<Rightarrow> picture_configuration" where
  "sample_picture enhanced = \<lparr>pc_enhancement_enabled = enhanced, pc_temporal_refresh = False, pc_temporal_signalling_present = True,
     pc_picture_type = PictureType_Field, pc_field_type = FieldType_Bottom, pc_coding_type = CodingType_IDR,
     pc_step_width_loq = [32767, 900], pc_step_width_loq_orig = [0, 0], pc_dithering_control = True,
     pc_dithering_type = Dithering_Uniform, pc_dithering_strength = 7, pc_dequant_offset_signalled = True,
     pc_dequant_offset_mode = DequantOffset_ConstOffset, pc_dequant_offset = 25, pc_level_1_filtering_enabled = True,
     pc_quant_matrix_mode = QuantMatrix_DifferentAndCustom, pc_qm_coefficient_2 = replicate 17 9,
     pc_qm_coefficient_1 = replicate 17 8, pc_qm_coefficient_2_mem = [], pc_qm_coefficient_1_mem = [],
     pc_qm_coefficient_2_par = [], pc_qm_coefficient_1_par = []\<rparr>"

lemma sample_picture_arrays: "picture_arrays (sample_picture e)"
  by (simp add: picture_arrays_def sample_picture_def)

lemma sample_picture_sendable: "picture_sendable 16 True (sample_picture True)"
  by (simp add: picture_sendable_def sample_picture_arrays)
    (simp add: sample_picture_def coefficients_sendable_def list_all_iff)

theorem picture_config_roundtrip_witness:
  "\<exists>w r r'. emit_picture_configuration (sample_picture True) 16 packer_new = Inr w \<and> through_packet w = Inr r \<and>
    parse_picture_config 16 True (sample_picture False) r = Inr (picture_received 16 (sample_picture False) (sample_picture True), r') \<and>
    up_remaining_bits r' < 8"
  by (rule picture_config_roundtrip [OF sample_picture_sendable sample_picture_arrays])

text \<open>
  a picture block without enhancement gives the decoder the picture type and the two temporal
  flags only; the field type, which the serializer writes too, keeps the decoder's value.
\<close>

theorem picture_idle_roundtrip:
  assumes "\<not> pc_enhancement_enabled p" and "picture_arrays p"
    and "list_all (\<lambda>sw. 0 < sw \<and> sw < 2 ^ 15) (pc_step_width_loq p)"
    and "coefficients_sendable n (pc_qm_coefficient_2 p)" and "coefficients_sendable n (pc_qm_coefficient_1 p)"
    and "pc_dequant_offset p < 2 ^ 7" and "pc_dithering_strength p < 2 ^ 5"
  shows "\<exists>w r r'. emit_picture_configuration p n packer_new = Inr w \<and> through_packet w = Inr r \<and>
    parse_picture_config n temporal old r = Inr (picture_idle_received old p, r')"
  unfolding emit_picture_idle [OF assms(1)]
  by (rule conveys_ahead [OF conveys_idle [of p n temporal old] writable_unread [OF assms(2-7)]]) blast

theorem picture_idle_roundtrip_witness:
  "\<exists>w r r'. emit_picture_configuration (sample_picture False) 16 packer_new = Inr w \<and> through_packet w = Inr r \<and>
    parse_picture_config 16 True (sample_picture True) r = Inr (picture_idle_received (sample_picture True) (sample_picture False), r')"
  by (rule picture_idle_roundtrip)
    (simp_all add: sample_picture_arrays, simp_all add: sample_picture_def coefficients_sendable_def list_all_iff)

text \<open>
  the parser of a filler block accepts a packet if and only if every byte of it is 0xaa; in
  particular it accepts what the serializer emits, of any length.
\<close>

theorem filler_accepted:
  "(\<exists>w r. emit_filler n packer_new = Inr w \<and> through_packet w = Inr r \<and> (\<exists>r'. parse_filler r = Inr r')) \<and>
   ((\<exists>r'. parse_filler \<lparr>up_view = bs, up_bit_offset = 0\<rparr> = Inr r') \<longleftrightarrow> set bs \<subseteq> {0xaa})"
proof
  have "pk.writes 0 (emit_filler n) (stream_bits (replicate n 0xaa))" by (rule writes_filler)
  from pk.writesD [OF this packer_inv_new] obtain w where
    w: "emit_filler n packer_new = Inr w" "packer_inv w" "packer_bits w = stream_bits (replicate n 0xaa)"
    by (metis append_Nil length_0_conv packer_bits_new)
  obtain r k where r: "through_packet w = Inr r" "unpacker_inv r" "k < 8" "up_bit_offset r = 0"
    "pending r = stream_bits (replicate n 0xaa) @ replicate k False"
    using through_packet_spec [OF w(2)] w(3) by metis
  from arg_cong [OF r(5), of length] r(4) have "8 * length (up_view r) = 8 * n + k" by (simp add: up_bit_size_def)
  then have "8 dvd 8 * n + k" by (metis dvd_triv_left)
  with r(3) have "k = 0" by (auto dest: dvd_imp_le simp: dvd_add_right_iff)
  with r(5) have "pending r = stream_bits (replicate n 0xaa)" by simp
  from parse_filler_bytes [OF r(2) this] w(1) r(1)
  show "\<exists>w r. emit_filler n packer_new = Inr w \<and> through_packet w = Inr r \<and> (\<exists>r'. parse_filler r = Inr r')" by auto
  have "(\<exists>r'. parse_filler \<lparr>up_view = bs, up_bit_offset = 0\<rparr> = Inr r') \<longleftrightarrow> (\<forall>x \<in> set bs. x = 0xaa)"
    by (rule parse_filler_bytes) (simp_all add: unpacker_inv_def pending_def)
  then show "(\<exists>r'. parse_filler \<lparr>up_view = bs, up_bit_offset = 0\<rparr> = Inr r') \<longleftrightarrow> set bs \<subseteq> {0xaa}" by auto
qed

end
