(* ===== verification/EncodedRoundtrip.thy ===== *)
theory EncodedRoundtrip
  imports DecodedData EntropyRoundtrip RunCodec ConfigRoundtrip
begin

text \<open>
  What the decoder makes of a block of encoded data without tiles: every layer the block codes
  comes back as the entropy coders give it, from the packet that the encoder chose, and the other
  layers of the decoder keep their surfaces.
\<close>

section \<open>Alignment and packets\<close>

lemma writes_alignment: "j < 8 \<Longrightarrow> 8 dvd k + j \<Longrightarrow> pk.writes k put_alignment (replicate j False)"
proof (induction j arbitrary: k)
  case 0
  show ?case
    by (rule pk.writesI) (use 0 in \<open>subst put_alignment.simps, auto\<close>)
next
  case (Suc j)
  have k: "k mod 8 \<noteq> 0" using Suc.prems by presburger
  have bit: "pk.writes k (\<lambda>b. packer_u b 1 0) [False]"
    using pk.writes_put [of 1 k 0] by (simp add: bits_of_def)
  have "pk.writes k (\<lambda>b. rbind (packer_u b 1 0) put_alignment) ([False] @ replicate j False)"
    using Suc.prems by (intro pk.writes_bind [OF bit] Suc.IH) simp_all
  then show ?case
    using k by (subst pk.writes_def, subst put_alignment.simps) (auto simp: pk.writes_def put_u_def)
qed

lemma reads_alignment:
  fixes x :: 'a
  shows "j < 8 \<Longrightarrow> 8 dvd k + j \<Longrightarrow>
  ups.reads k (\<lambda>b. rbind (get_alignment b) (\<lambda>b. Inr (x, b))) (replicate j False) x"
proof (induction j arbitrary: k)
  case 0
  show ?case by (rule ups.readsI) (use 0 in \<open>subst get_alignment.simps, auto\<close>)
next
  case (Suc j)
  have k: "k mod 8 \<noteq> 0" using Suc.prems by presburger
  have bit: "ups.reads k (\<lambda>b. unpacker_u b 1) [False] 0"
    using ups.reads_get [of 1 k 0] by (simp add: bits_of_def)
  have "ups.reads k (\<lambda>b. rbind (unpacker_u b 1) (\<lambda>(v, b). rbind (check_that (v = 0)) (\<lambda>_.
      rbind (get_alignment b) (\<lambda>b. Inr (x, b))))) ([False] @ replicate j False) x"
    using Suc.prems by (intro ups.reads_bind [OF bit] ups.reads_check Suc.IH) simp_all
  moreover have "rbind (get_alignment b) f = rbind (unpacker_u b 1) (\<lambda>(v, b). rbind (check_that (v = 0)) (\<lambda>_.
      rbind (get_alignment b) f))" if "up_bit_offset b = k" for b and f :: "unpacker \<Rightarrow> ('a \<times> unpacker) result"
    using that k by (subst get_alignment.simps) (cases "unpacker_u b 1", auto simp: rbind_assoc)
  ultimately show ?case by (auto simp: ups.reads_def)
qed

lemma emits_packet:
  assumes "packet_view pkt = Inr bytes" and "8 dvd k"
  shows "pk.emits k (put_packet pkt) (stream_bits bytes)"
proof (rule pk.emitsI)
  fix w assume w: "packer_inv w" "length (packer_bits w) = k"
  then have "pk_bit_offset w mod 8 = 0" using assms(2) by auto
  from packer_bytes_spec [OF w(1) this, of bytes] obtain w' where
    "packer_bytes w bytes = Inr (Some w')" "packer_inv w'" "packer_bits w' = packer_bits w @ stream_bits bytes" .
  with assms(1) show "\<exists>w'. put_packet pkt w = Some (Inr w') \<and> packer_inv w' \<and> packer_bits w' = packer_bits w @ stream_bits bytes"
    by (simp add: put_packet_def)
qed

lemma stream_bits_inj: "stream_bits xs = stream_bits ys \<Longrightarrow> xs = ys"
proof (induction xs arbitrary: ys)
  case Nil
  have "length (stream_bits ys) = 0" using Nil by (metis list.size(3) stream_bits_Nil)
  then show ?case by simp
next
  case (Cons x xs)
  have "length (stream_bits ys) = 8 * length (x # xs)" unfolding Cons.prems [symmetric] by (rule length_stream_bits)
  then obtain y zs where ys: "ys = y # zs" by (cases ys) auto
  have "bits_of 8 x = bits_of 8 y" "stream_bits xs = stream_bits zs"
    using Cons.prems by (simp_all add: ys stream_bits_Cons)
  with Cons.IH bits_of_byte_inj show ?case by (simp add: ys)
qed

lemma reads_packet:
  assumes "8 dvd k"
  shows "ups.reads k (get_packet (length bytes)) (stream_bits bytes) \<lparr>up_view = bytes, up_bit_offset = 0\<rparr>"
proof (rule ups.readsI)
  fix r cs assume r: "unpacker_inv r" "up_bit_offset r = k" "pending r = stream_bits bytes @ cs"
  have al: "up_bit_offset r mod 8 = 0" and len: "8 * length bytes \<le> length (pending r)"
    using assms r by (auto simp del: length_pending)
  obtain pkt bs r' where *: "unpacker_bytes r (length bytes) = Inr (pkt, r')" "packet_view pkt = Inr bs"
    "stream_bits bs = take (8 * length bytes) (pending r)" "length bs = length bytes"
    "pending r' = drop (8 * length bytes) (pending r)" "unpacker_inv r'"
    by (rule unpacker_bytes_spec [OF r(1) al len])
  have "stream_bits bs = stream_bits bytes" using *(3) by (simp add: r(3))
  then have "bs = bytes" by (rule stream_bits_inj)
  moreover have "up_bit_offset r' = up_bit_offset r + 8 * length bytes"
    using *(1) by (auto simp: unpacker_bytes_def Let_def rbind_eq_Inr)
  ultimately show "\<exists>r'. get_packet (length bytes) r = Inr (\<lparr>up_view = bytes, up_bit_offset = 0\<rparr>, r') \<and> unpacker_inv r' \<and>
      up_bit_offset r' = k + length (stream_bits bytes) \<and> pending r' = cs"
    using *(1,2,5,6) r(2,3) by (simp add: get_packet_def unpacker_new_def)
qed

section \<open>One layer\<close>

definition received_layer :: "signaled_configuration \<Rightarrow> layer_surface \<Rightarrow> layer_surface" where
  "received_layer sg s = (case s of
     Residual_Surface s \<Rightarrow> Residual_Surface (surface_of (sf_width s) (sf_height s) (\<lambda>x y. clamp_residual (pixel s x y)))
   | Mask_Surface s \<Rightarrow> Mask_Surface (surface_of (sf_width s) (sf_height s) (\<lambda>x y.
       if is_intra s (x, y) \<or> gc_temporal_tile_intra_signalling_enabled (sg_global_configuration sg) \<and>
          is_intra s (tile_of (32 div block_size sg) (x, y)) then temporal_intr else temporal_pred)))"

definition surface_codable :: "'p surface \<Rightarrow> bool" where
  "surface_codable s \<longleftrightarrow> 0 < sf_width s \<and> 0 < sf_height s \<and> sf_height s * sf_width s < 3524578"

definition layer_sendable :: "signaled_configuration \<Rightarrow> nat \<Rightarrow> layer_surface \<Rightarrow> bool" where
  "layer_sendable sg layer s = (case s of
     Residual_Surface s \<Rightarrow> \<not> is_temporal_layer sg layer \<and> surface_codable s
   | Mask_Surface s \<Rightarrow> is_temporal_layer sg layer \<and> surface_codable s)"

text \<open>A chunk that carries a layer: either of its packets, opened, decodes to what is received.\<close>

definition layer_chunk :: "signaled_configuration \<Rightarrow> nat \<Rightarrow> layer_surface \<Rightarrow> encoded_chunk \<Rightarrow> bool" where
  "layer_chunk sg layer s e \<longleftrightarrow> chunk_ok e \<and>
     (\<forall>rle b. (\<not> chunk_empty e \<longrightarrow> unpacker_new (chunk_packet rle e) = Inr b) \<longrightarrow>
       (\<exists>b'. decode_layer sg layer (layer_width s) (layer_height s) (\<not> chunk_empty e) rle b =
         Some (Inr (received_layer sg s, b'))))"

lemma layer_chunkI:
  assumes "chunk_ok e" and "received_layer sg s = C t"
    and "\<forall>rle b. (\<not> chunk_empty e \<longrightarrow> unpacker_new (chunk_packet rle e) = Inr b) \<longrightarrow> (\<exists>b'. d rle b = Some (Inr (t, b')))"
    and "\<And>rle b. decode_layer sg layer (layer_width s) (layer_height s) (\<not> chunk_empty e) rle b =
      run_bind (d rle b) (\<lambda>(x, b). Some (Inr (C x, b)))"
  shows "layer_chunk sg layer s e"
  unfolding layer_chunk_def assms(2,4)
proof (intro conjI allI impI assms(1))
  fix rle b assume "\<not> chunk_empty e \<longrightarrow> unpacker_new (chunk_packet rle e) = Inr b"
  with assms(3) obtain b' where "d rle b = Some (Inr (t, b'))" by blast
  then show "\<exists>b'. run_bind (d rle b) (\<lambda>(x, b). Some (Inr (C x, b))) = Some (Inr (C t, b'))" by simp
qed

lemma layer_coded:
  assumes s: "layer_sendable sg layer s" and bs: "0 < block_size sg" "block_size sg \<le> 32"
  shows "\<exists>e. encode_layer sg layer s = Inr e \<and> layer_chunk sg layer s e"
proof (cases s)
  case (Residual_Surface view)
  then have v: "0 < sf_width view" "0 < sf_height view" "sf_height view * sf_width view < 3524578" "\<not> is_temporal_layer sg layer"
    using s by (simp_all add: layer_sendable_def surface_codable_def)
  show ?thesis
  proof (cases "use_tiled_encoding_order sg")
    case True
    from residuals_tiled_coded [OF v(1-3) bs] obtain e where e: "encode_residuals_tiled view (block_size sg) = Inr e" "chunk_ok e"
      "\<forall>rle b. (\<not> chunk_empty e \<longrightarrow> unpacker_new (chunk_packet rle e) = Inr b) \<longrightarrow>
        (\<exists>b'. decode_residuals_tiled (sf_width view) (sf_height view) (\<not> chunk_empty e) rle b (block_size sg) =
          Some (Inr (surface_of (sf_width view) (sf_height view) (\<lambda>x y. clamp_residual (pixel view x y)), b')))" by blast
    have "layer_chunk sg layer s e"
      by (rule layer_chunkI [OF e(2) _ e(3), of _ _ Residual_Surface])
        (use True v(4) in \<open>simp_all add: Residual_Surface received_layer_def decode_layer_def layer_width_def layer_height_def\<close>)
    then show ?thesis using True v(4) e(1) by (auto simp: Residual_Surface encode_layer_def)
  next
    case False
    from residuals_coded [OF v(1-3)] obtain e where e: "encode_residuals view = Inr e" "chunk_ok e"
      "\<forall>rle b. (\<not> chunk_empty e \<longrightarrow> unpacker_new (chunk_packet rle e) = Inr b) \<longrightarrow>
        (\<exists>b'. decode_residuals (sf_width view) (sf_height view) (\<not> chunk_empty e) rle b =
          Some (Inr (surface_of (sf_width view) (sf_height view) (\<lambda>x y. clamp_residual (pixel view x y)), b')))" by blast
    have "layer_chunk sg layer s e"
      by (rule layer_chunkI [OF e(2) _ e(3), of _ _ Residual_Surface])
        (use False v(4) in \<open>simp_all add: Residual_Surface received_layer_def decode_layer_def layer_width_def layer_height_def\<close>)
    then show ?thesis using False v(4) e(1) by (auto simp: Residual_Surface encode_layer_def)
  qed
next
  case (Mask_Surface view)
  then have v: "0 < sf_width view" "0 < sf_height view" "sf_height view * sf_width view < 3524578" "is_temporal_layer sg layer"
    using s by (simp_all add: layer_sendable_def surface_codable_def)
  let ?r = "gc_temporal_tile_intra_signalling_enabled (sg_global_configuration sg)"
  from temporal_coded [OF v(1-3) bs, of ?r] obtain e where e: "encode_temporal view (block_size sg) ?r = Inr e" "chunk_ok e"
    "\<forall>rle b. (\<not> chunk_empty e \<longrightarrow> unpacker_new (chunk_packet rle e) = Inr b) \<longrightarrow>
      (\<exists>b'. decode_temporal (sf_width view) (sf_height view) (\<not> chunk_empty e) rle b (block_size sg) ?r =
        Some (Inr (surface_of (sf_width view) (sf_height view) (\<lambda>x y.
          if is_intra view (x, y) \<or> ?r \<and> is_intra view (tile_of (32 div block_size sg) (x, y))
          then temporal_intr else temporal_pred), b')))" by blast
  have "layer_chunk sg layer s e"
    by (rule layer_chunkI [OF e(2) _ e(3), of _ _ Mask_Surface])
      (use v(4) in \<open>simp_all add: Mask_Surface received_layer_def decode_layer_def layer_width_def layer_height_def\<close>)
  then show ?thesis using v(4) e(1) by (auto simp: Mask_Surface encode_layer_def)
qed

text \<open>The bits of one layer: at most ten bytes for the size, and a packet.\<close>

definition layer_bits :: nat where
  "layer_bits = 8 * 8000010"

lemma layer_carried:
  assumes e: "layer_chunk sg (snd (snd pos)) s e" and c: "codes pos = choose_code e" and p: "in_arrays pos"
    and flags: "flags pos = (lc_entropy_enabled (codes pos), lc_rle_only (codes pos))"
    and size: "surface_size sg pos = \<lparr>sc_width = layer_width s, sc_height = layer_height s\<rparr>"
  shows "io.carries layer_bits (emit_layer codes pos) (\<lambda>r. parse_layer sg flags pos (symbols, r)) (symbols(pos := received_layer sg s))"
proof (rule io.carriesI)
  fix k :: nat assume k: "8 dvd k"
  note sizes = size flags
  show "\<exists>bs. 8 dvd length bs \<and> length bs \<le> layer_bits \<and> pk.emits k (emit_layer codes pos) bs \<and>
    ups.takes k (\<lambda>r. parse_layer sg flags pos (symbols, r)) bs (symbols(pos := received_layer sg s))"
  proof (cases "chunk_empty e")
    case True
    then have off: "lc_entropy_enabled (codes pos) = False" by (simp add: c choose_code_def no_code_def)
    have "\<exists>b'. decode_layer sg (snd (snd pos)) (layer_width s) (layer_height s) False rle b = Some (Inr (received_layer sg s, b'))" for rle b
      using e True by (auto simp: layer_chunk_def)
    moreover have "unpacker_new packet_default = Inr \<lparr>up_view = [], up_bit_offset = 0\<rparr>"
      by (simp add: unpacker_new_def packet_view_def packet_default_def)
    ultimately have "parse_layer sg flags pos (symbols, r) = Some (Inr (symbols(pos := received_layer sg s), r))" for r
      by (auto simp: parse_layer_def p get_sized_packet_def sizes off split: prod.splits) (metis run_bind.simps(3) case_prod_conv)
    then have "ups.takes k (\<lambda>r. parse_layer sg flags pos (symbols, r)) [] (symbols(pos := received_layer sg s))"
      using ups.takes_none by simp
    moreover have "pk.emits k (emit_layer codes pos) []"
      using pk.emits_none by (simp add: emit_layer_def [abs_def] off)
    ultimately show ?thesis by (intro exI [of _ "[]"]) simp
  next
    case False
    let ?rle = "pkt_size (ck_raw e) < pkt_size (ck_prefix e)"
    let ?pkt = "chunk_packet ?rle e"
    have code: "lc_entropy_enabled (codes pos) = True" "lc_rle_only (codes pos) = ?rle" "lc_data (codes pos) = ?pkt"
      using False by (simp_all add: c choose_code_def chunk_packet_def)
    have "packet_wf ?pkt" "pkt_size ?pkt < 8000000"
      using e False by (auto simp: layer_chunk_def chunk_ok_def chunk_packet_def chunk_none_def chunk_empty_def
          packet_empty_def packet_default_def)
    then obtain bytes where bytes: "packet_view ?pkt = Inr bytes" "length bytes = pkt_size ?pkt" "length bytes < 8000000"
      using packet_view_total by metis
    let ?n = "word_of_nat (length bytes) :: u64"
    have n: "unat ?n = length bytes" using bytes(3) by (simp add: unat_of_nat)
    let ?size = "multibyte_bits ?n False" and ?pb = "\<lparr>up_view = bytes, up_bit_offset = 0\<rparr>"
    have al: "8 dvd k + length ?size" using k length_multibyte_bits_dvd [of ?n False] by simp
    have "pk.emits k (\<lambda>b. run_bind (Some (write_multibyte ?n b)) (put_packet ?pkt)) (?size @ stream_bits bytes)"
      by (rule pk.emits_bind [OF pk.emits_writes [OF writes_multibyte] emits_packet [OF bytes(1) al]])
    then have w: "pk.emits k (emit_layer codes pos) (?size @ stream_bits bytes)"
      by (simp add: emit_layer_def [abs_def] code bytes(2))
    have "ups.reads k (\<lambda>b. rbind (read_multibyte b) (\<lambda>(n, b). rbind (check_that (unat n < 2147483647)) (\<lambda>_. get_packet (unat n) b)))
        (?size @ stream_bits bytes) ?pb"
      by (rule ups.reads_bind [OF reads_multibyte]) (use reads_packet [OF al, of bytes] bytes(3) in \<open>simp add: n\<close>)
    then have r: "ups.takes k (\<lambda>b. Some (get_sized_packet True b)) (?size @ stream_bits bytes) ?pb"
      by (intro ups.takes_reads) (simp add: get_sized_packet_def [abs_def])
    have "unpacker_new ?pkt = Inr ?pb" by (simp add: unpacker_new_def bytes(1))
    then obtain b' where b': "decode_layer sg (snd (snd pos)) (layer_width s) (layer_height s) True ?rle ?pb =
        Some (Inr (received_layer sg s, b'))"
      using e False by (auto simp: layer_chunk_def)
    have "ups.takes (k + length (?size @ stream_bits bytes)) (\<lambda>r. run_bind (decode_layer sg (snd (snd pos)) (layer_width s) (layer_height s) True ?rle ?pb)
        (\<lambda>(s, pb). Some (Inr (symbols(pos := s), r)))) [] (symbols(pos := received_layer sg s))"
      using ups.takes_none by (simp add: b')
    from ups.takes_bind [where q = "\<lambda>pb r. run_bind (decode_layer sg (snd (snd pos)) (layer_width s) (layer_height s) True ?rle pb)
        (\<lambda>(s, pb). Some (Inr (symbols(pos := s), r)))", OF r this]
    have "ups.takes k (\<lambda>r. parse_layer sg flags pos (symbols, r)) (?size @ stream_bits bytes) (symbols(pos := received_layer sg s))"
      by (simp add: parse_layer_def p sizes code)
    moreover have "length ?size \<le> 80" using length_multibyte_bits [of ?n 9 False] bytes(3) by (simp add: n)
    ultimately show ?thesis
      using w length_multibyte_bits_dvd [of ?n False] bytes(3)
      by (intro exI [of _ "?size @ stream_bits bytes"]) (simp add: layer_bits_def)
  qed
qed

section \<open>The block\<close>

lemma fold_fun_upd: "fold (\<lambda>i s. s(i := h i)) is s = (\<lambda>i. if i \<in> set is then h i else s i)"
  by (induction "is" arbitrary: s) auto

lemma concat_map_concat: "concat (map f (concat (map g xs))) = concat (map (\<lambda>x. concat (map f (g x))) xs)"
  by (induction xs) auto

lemma coded_positions_iff:
  "(plane, loq, layer) \<in> set (coded_positions sg) \<longleftrightarrow>
     plane < num_planes sg \<and> loq < MAX_NUM_LOQS \<and> first_layer sg \<le> layer \<and> layer < total_layers sg loq"
  by (auto simp: coded_positions_def positions_def image_iff)

lemma loqs_list: "[0..<MAX_NUM_LOQS] = [LOQ_LEVEL_1, LOQ_LEVEL_2]"
  by (simp add: upt_rec)

text \<open>The encoder's layers: what each became.\<close>

lemma encode_layers_all:
  assumes "\<forall>pos \<in> set ps. in_arrays pos \<and> encode_layer sg (snd (snd pos)) (symbols pos) = Inr (e pos)"
  shows "encode_layers sg symbols ps codes = Inr (\<lambda>pos. if pos \<in> set ps then choose_code (e pos) else codes pos)"
  unfolding encode_layers_def using assms
proof (induction ps arbitrary: codes)
  case (Cons pos ps)
  then show ?case by simp (intro ext, simp)
qed simp

text \<open>The two nests of loops over the flags visit the same positions.\<close>

lemma emit_flags_coded:
  "emit_flags sg (num_layers sg) codes = write_all (concat (map
     (\<lambda>pos. [put_flag (lc_entropy_enabled (codes pos)), put_flag (lc_rle_only (codes pos))]) (coded_positions sg)))"
proof -
  have app: "[0..<Suc n] = [0..<n] @ [n]" for n by simp
  have planes: "(\<lambda>plane. (if pc_enhancement_enabled (sg_picture_configuration sg)
       then concat (map (\<lambda>loq. concat (map (\<lambda>layer. f (plane, loq, layer)) [0..<num_layers sg])) [0..<MAX_NUM_LOQS]) else []) @
       (if temporal_layer sg LOQ_LEVEL_2 \<noteq> 0 then f (plane, LOQ_LEVEL_2, num_layers sg) else [])) =
     (\<lambda>plane. concat (map f (concat (map (\<lambda>loq. map (\<lambda>layer. (plane, loq, layer)) [first_layer sg..<total_layers sg loq])
        [0..<MAX_NUM_LOQS]))))" for f :: "layer_position \<Rightarrow> 'a list"
    unfolding loqs_list by (rule ext) (simp add: temporal_layer_def total_layers_def first_layer_def o_def)
  show ?thesis
    unfolding emit_flags_def Let_def planes coded_positions_def positions_def concat_map_concat [of _ _ "[0..<num_planes sg]"] ..
qed

text \<open>Positions outside the coded ones have nothing to emit.\<close>

lemma emit_layers_coded:
  assumes "\<forall>pos. pos \<notin> set (coded_positions sg) \<longrightarrow> codes pos = no_code"
  shows "fold_run (emit_layer codes) (positions (num_planes sg) (\<lambda>loq. [0..<num_layers sg + temporal_layer sg loq])) b =
    fold_run (emit_layer codes) (coded_positions sg) b"
proof -
  let ?all = "positions (num_planes sg) (\<lambda>loq. [0..<num_layers sg + temporal_layer sg loq])"
  have skip: "fold_run (emit_layer codes) ps b = fold_run (emit_layer codes) (filter (\<lambda>(plane, loq, layer). first_layer sg \<le> layer) ps) b"
    if "\<forall>pos \<in> set ps. fst pos < num_planes sg" for ps b
    using that
  proof (induction ps arbitrary: b)
    case (Cons pos ps)
    obtain plane loq layer where pos: "pos = (plane, loq, layer)" by (cases pos)
    show ?case
    proof (cases "first_layer sg \<le> layer")
      case True
      have "fold_run (emit_layer codes) ps = fold_run (emit_layer codes) (filter (\<lambda>(plane, loq, layer). first_layer sg \<le> layer) ps)"
        by (rule ext) (rule Cons.IH, use Cons.prems in simp)
      with True show ?thesis by (simp add: pos)
    next
      case False
      then have "codes pos = no_code" using assms by (simp add: pos coded_positions_iff)
      with False Cons show ?thesis by (simp add: pos emit_layer_def no_code_def)
    qed
  qed simp
  have "filter (\<lambda>layer. first_layer sg \<le> layer) [0..<num_layers sg + temporal_layer sg loq] = [first_layer sg..<total_layers sg loq]" for loq
  proof -
    have "temporal_layer sg loq + num_layers sg = total_layers sg loq" "first_layer sg \<le> total_layers sg loq"
      by (simp_all add: temporal_layer_def total_layers_def first_layer_def)
    then have "[0..<num_layers sg + temporal_layer sg loq] = [0..<first_layer sg] @ [first_layer sg..<total_layers sg loq]"
      by (metis add.commute add.left_neutral le_add_diff_inverse upt_add_eq_append zero_le)
    then show ?thesis by simp
  qed
  then have "filter (\<lambda>(plane, loq, layer). first_layer sg \<le> layer) ?all = coded_positions sg"
    by (simp add: positions_def coded_positions_def filter_concat filter_map o_def)
  with skip [of ?all b] show ?thesis by (fastforce simp: positions_def)
qed

text \<open>What a block of encoded data needs.\<close>

definition data_sendable :: "signaled_configuration \<Rightarrow> layer_surfaces \<Rightarrow> bool" where
  "data_sendable sg symbols \<longleftrightarrow> gc_tile_dimensions_type (sg_global_configuration sg) = TileDimensions_None \<and>
     num_planes sg \<le> MAX_NUM_PLANES \<and> num_layers sg < MAX_NUM_LAYERS \<and> 0 < block_size sg \<and> block_size sg \<le> 32 \<and>
     (\<forall>pos \<in> set (coded_positions sg). layer_sendable sg (snd (snd pos)) (symbols pos))"

definition sizes_known :: "signaled_configuration \<Rightarrow> layer_surfaces \<Rightarrow> bool" where
  "sizes_known sg symbols \<longleftrightarrow> (\<forall>pos \<in> set (coded_positions sg).
     surface_size sg pos = \<lparr>sc_width = layer_width (symbols pos), sc_height = layer_height (symbols pos)\<rparr>)"

definition received_layers :: "signaled_configuration \<Rightarrow> layer_surfaces \<Rightarrow> layer_surfaces \<Rightarrow> layer_surfaces" where
  "received_layers sg old symbols =
     (\<lambda>pos. if pos \<in> set (coded_positions sg) then received_layer sg (symbols pos) else old pos)"

lemma coded_in_arrays: "data_sendable sg symbols \<Longrightarrow> pos \<in> set (coded_positions sg) \<Longrightarrow> in_arrays pos"
  by (cases pos) (auto simp: coded_positions_iff data_sendable_def in_arrays_def total_layers_def split: if_splits)

text \<open>The flags, two for each coded position.\<close>

lemma put_flags_offset: "write_all (map put_flag vs) b = Inr b' \<Longrightarrow> pk_bit_offset b' = pk_bit_offset b + length vs"
  by (induction vs arbitrary: b) (auto simp: rbind_eq_Inr put_flag_def put_u_def dest: packer_u_offset)

lemma emit_flags_flags:
  "emit_flags sg (num_layers sg) codes = write_all (map put_flag (concat (map
     (\<lambda>pos. [lc_entropy_enabled (codes pos), lc_rle_only (codes pos)]) (coded_positions sg))))"
  by (simp add: emit_flags_coded map_concat o_def)

text \<open>A packer at any position, to read the length off what is written there.\<close>

lemma writes_length:
  assumes "pk.writes k f bs" and "\<And>w w'. f w = Inr w' \<Longrightarrow> pk_bit_offset w' = pk_bit_offset w + n"
  shows "length bs = n"
proof -
  let ?w = "\<lparr>pk_bit_offset = k, pk_data = replicate (Suc k) 0\<rparr>"
  have "packer_inv ?w" by (auto simp: packer_inv_def bit_at_zeros simp del: replicate_Suc)
  with assms(1) obtain w' where w': "f ?w = Inr w'" "packer_bits w' = packer_bits ?w @ bs"
    by (rule pk.writesD) simp
  from arg_cong [OF w'(2), of length] assms(2) [OF w'(1)] show ?thesis by simp
qed

lemma flags_conveyed:
  assumes "\<forall>pos \<in> set (coded_positions sg). in_arrays pos"
  shows "\<exists>bs. length bs = 2 * length (coded_positions sg) \<and> pk.writes k (emit_flags sg (num_layers sg) codes) bs \<and>
    ups.reads k (parse_layer_flags sg) bs (\<lambda>pos. if pos \<in> set (coded_positions sg)
      then (lc_entropy_enabled (codes pos), lc_rle_only (codes pos)) else (False, False))"
proof -
  have "io.conveys (write_all [put_flag (lc_entropy_enabled (codes pos)), put_flag (lc_rle_only (codes pos))])
     (\<lambda>b. if in_arrays pos then
       rbind (unpacker_u b 1) (\<lambda>(entropy_enabled, b).
       rbind (unpacker_u b 1) (\<lambda>(rle_only, b).
       Inr (flags(pos := (entropy_enabled \<noteq> 0, rle_only \<noteq> 0)), b)))
      else Inl OutOfRange) (flags(pos := (lc_entropy_enabled (codes pos), lc_rle_only (codes pos))))"
    if "in_arrays pos" for pos and flags :: layer_flags
    unfolding if_P [OF that]
    by (rule io.conveys_Cons, rule conveys_flag, rule io.conveys_Cons, rule conveys_flag, rule conveys_done, simp)
  then have "io.conveys (write_all (concat (map (\<lambda>pos. [put_flag (lc_entropy_enabled (codes pos)), put_flag (lc_rle_only (codes pos))])
       (coded_positions sg)))) (parse_layer_flags sg)
     (fold (\<lambda>pos flags. flags(pos := (lc_entropy_enabled (codes pos), lc_rle_only (codes pos)))) (coded_positions sg) (\<lambda>_. (False, False)))"
    unfolding parse_layer_flags_def using assms by (intro io.conveys_fold) auto
  then obtain bs where bs: "pk.writes k (emit_flags sg (num_layers sg) codes) bs"
    "ups.reads k (parse_layer_flags sg) bs (\<lambda>pos. if pos \<in> set (coded_positions sg)
      then (lc_entropy_enabled (codes pos), lc_rle_only (codes pos)) else (False, False))"
    by (auto simp only: fold_fun_upd emit_flags_coded io.conveys_def)
  have "length bs = length (concat (map (\<lambda>pos. [lc_entropy_enabled (codes pos), lc_rle_only (codes pos)]) (coded_positions sg)))"
    by (rule writes_length [OF bs(1) [unfolded emit_flags_flags]]) (rule put_flags_offset)
  also have "\<dots> = 2 * length (coded_positions sg)" by (simp add: length_concat o_def sum_list_triv)
  finally show ?thesis using bs by blast
qed

lemma pad_aligned: "8 dvd m + (8 - m mod 8) mod (8 :: nat)"
proof (cases "m mod 8 = 0")
  case False
  then have "(8 - m mod 8) mod 8 = 8 - m mod 8" using mod_less_divisor [of 8 m] by (intro mod_less) auto
  moreover have "m + (8 - m mod 8) = 8 * (m div 8) + 8"
    using mult_div_mod_eq [of 8 m] mod_less_divisor [of 8 m] by linarith
  ultimately show ?thesis by simp
qed auto

lemma alignment_conveyed:
  assumes "\<exists>bs. length bs = n \<and> pk.writes k f bs \<and> ups.reads k p bs x"
  shows "\<exists>bs. 8 dvd k + length bs \<and> length bs \<le> n + 8 \<and> pk.writes k (\<lambda>b. rbind (f b) put_alignment) bs \<and>
    ups.reads k (\<lambda>b. rbind (p b) (\<lambda>(x, b). rbind (get_alignment b) (\<lambda>b. Inr (x, b)))) bs x"
proof -
  obtain bs where bs: "length bs = n" "pk.writes k f bs" "ups.reads k p bs x" using assms by blast
  let ?j = "(8 - (k + length bs) mod 8) mod 8"
  have j: "?j < 8" "8 dvd k + length bs + ?j" by (rule mod_less_divisor, simp) (rule pad_aligned)
  let ?z = "replicate ?j False"
  have r: "ups.reads (k + length bs) (\<lambda>b. rbind (get_alignment b) (\<lambda>b. Inr (x, b))) ?z x"
    by (rule reads_alignment [OF j])
  have "8 dvd k + length (bs @ ?z)" using j(2) by (simp only: length_append length_replicate add.assoc)
  moreover have "length (bs @ ?z) \<le> n + 8" using bs(1) j(1) by simp
  moreover have "pk.writes k (\<lambda>b. rbind (f b) put_alignment) (bs @ ?z)"
    by (rule pk.writes_bind [OF bs(2) writes_alignment [OF j]])
  moreover have "ups.reads k (\<lambda>b. rbind (p b) (\<lambda>(x, b). rbind (get_alignment b) (\<lambda>b. Inr (x, b)))) (bs @ ?z) x"
    by (rule ups.reads_bind [of k p bs x "\<lambda>x b. rbind (get_alignment b) (\<lambda>b. Inr (x, b))", OF bs(3) r])
  ultimately show ?thesis by blast
qed

lemma coded_positions_length: "length (coded_positions sg) \<le> num_planes sg * (MAX_NUM_LOQS * Suc (num_layers sg))"
proof -
  have one: "length (concat (map (\<lambda>loq. map (\<lambda>layer. (plane, loq, layer)) [first_layer sg..<total_layers sg loq]) [0..<MAX_NUM_LOQS]))
      \<le> MAX_NUM_LOQS * Suc (num_layers sg)" for plane :: nat
    unfolding loqs_list by (simp add: total_layers_def) linarith
  have "length (concat (map f [0..<n])) \<le> n * m" if "\<And>i. length (f i) \<le> m" for f :: "nat \<Rightarrow> 'a list" and n m
  proof (induction n)
    case (Suc n)
    then show ?case using that [of n] by simp
  qed simp
  from this [OF one] show ?thesis unfolding coded_positions_def positions_def .
qed

text \<open>A block of encoded data stays below the largest size of a packet.\<close>

definition data_bits :: nat where
  "data_bits = 102 * 2 + 8 + 102 * layer_bits"

lemma encoded_data_steps:
  assumes ok: "data_sendable sg symbols" and sizes: "sizes_known sg symbols"
  shows "\<exists>bs. length bs \<le> data_bits \<and> pk.emits k (emit_encoded_data sg symbols (word_of_nat (num_layers sg))) bs \<and>
    ups.takes k (parse_encoded_data sg old) bs (received_layers sg old symbols)"
proof -
  let ?n = "word_of_nat (num_layers sg) :: u32"
  have n: "unat ?n = num_layers sg" using ok by (simp add: data_sendable_def unat_of_nat)
  have arrays: "\<forall>pos \<in> set (coded_positions sg). in_arrays pos" using coded_in_arrays [OF ok] by blast
  have "\<forall>pos \<in> set (coded_positions sg). \<exists>e. encode_layer sg (snd (snd pos)) (symbols pos) = Inr e \<and>
      layer_chunk sg (snd (snd pos)) (symbols pos) e"
    using ok by (auto simp: data_sendable_def intro!: layer_coded)
  then obtain e where e: "\<forall>pos \<in> set (coded_positions sg). encode_layer sg (snd (snd pos)) (symbols pos) = Inr (e pos) \<and>
      layer_chunk sg (snd (snd pos)) (symbols pos) (e pos)" by metis
  define codes where "codes = (\<lambda>pos. if pos \<in> set (coded_positions sg) then choose_code (e pos) else no_code)"
  define flags where "flags = (\<lambda>pos. if pos \<in> set (coded_positions sg)
    then (lc_entropy_enabled (codes pos), lc_rle_only (codes pos)) else (False, False))"
  have enc: "encode_layers sg symbols (coded_positions sg) (\<lambda>_. no_code) = Inr codes"
    using encode_layers_all [of "coded_positions sg" sg symbols e] arrays e by (simp add: codes_def)
  have layers: "io.carries (length (coded_positions sg) * layer_bits) (fold_run (emit_layer codes) (coded_positions sg))
      (\<lambda>r. fold_run (parse_layer sg flags) (coded_positions sg) (old, r))
      (fold (\<lambda>pos s. s(pos := received_layer sg (symbols pos))) (coded_positions sg) old)"
  proof (rule io.carries_fold)
    fix pos s assume pos: "pos \<in> set (coded_positions sg)"
    show "io.carries layer_bits (emit_layer codes pos) (\<lambda>r. parse_layer sg flags pos (s, r)) (s(pos := received_layer sg (symbols pos)))"
      using pos e arrays sizes by (intro layer_carried) (auto simp: codes_def flags_def sizes_known_def)
  qed
  have skip: "fold_run (emit_layer codes) (positions (num_planes sg) (\<lambda>loq. [0..<num_layers sg + temporal_layer sg loq])) =
      fold_run (emit_layer codes) (coded_positions sg)"
    by (rule ext, rule emit_layers_coded) (simp add: codes_def)
  let ?c = "length (coded_positions sg)"
  have "\<exists>bs. length bs \<le> (2 * ?c + 8) + ?c * layer_bits \<and>
      pk.emits k (\<lambda>b. run_bind (Some (rbind (emit_flags sg (num_layers sg) codes b) put_alignment))
        (fold_run (emit_layer codes) (coded_positions sg))) bs \<and>
      ups.takes k (\<lambda>b. run_bind (Some (rbind (parse_layer_flags sg b) (\<lambda>(flags, b). rbind (get_alignment b) (\<lambda>b. Inr (flags, b)))))
        (\<lambda>(flags, b). fold_run (parse_layer sg flags) (coded_positions sg) (old, b))) bs (received_layers sg old symbols)"
  proof (rule io.carries_after [where q = "\<lambda>flags b. fold_run (parse_layer sg flags) (coded_positions sg) (old, b)"])
    show "\<exists>bs. 8 dvd k + length bs \<and> length bs \<le> 2 * ?c + 8 \<and>
      pk.writes k (\<lambda>b. rbind (emit_flags sg (num_layers sg) codes b) put_alignment) bs \<and>
      ups.reads k (\<lambda>b. rbind (parse_layer_flags sg b) (\<lambda>(flags, b). rbind (get_alignment b) (\<lambda>b. Inr (flags, b)))) bs flags"
      unfolding flags_def by (rule alignment_conveyed [OF flags_conveyed [OF arrays]])
    show "io.carries (?c * layer_bits) (fold_run (emit_layer codes) (coded_positions sg))
      (\<lambda>b. fold_run (parse_layer sg flags) (coded_positions sg) (old, b)) (received_layers sg old symbols)"
      using layers by (simp add: fold_fun_upd received_layers_def)
  qed
  moreover have "(2 * ?c + 8) + ?c * layer_bits \<le> data_bits"
  proof -
    have "num_planes sg * (2 * Suc (num_layers sg)) \<le> 3 * (2 * 17)"
      using ok by (intro mult_le_mono) (simp_all add: data_sendable_def)
    then have "?c \<le> 102" using coded_positions_length [of sg] by simp
    then have "?c * layer_bits \<le> 102 * layer_bits" by (rule mult_le_mono1)
    with \<open>?c \<le> 102\<close> show ?thesis unfolding data_bits_def by linarith
  qed
  moreover have "(\<lambda>b. run_bind (Some (rbind (emit_flags sg (num_layers sg) codes b) put_alignment))
      (fold_run (emit_layer codes) (coded_positions sg))) = emit_encoded_data sg symbols ?n"
    using ok by (intro ext) (simp add: emit_encoded_data_def data_sendable_def enc n skip run_bind_result)
  moreover have "(\<lambda>b. run_bind (Some (rbind (parse_layer_flags sg b) (\<lambda>(flags, b). rbind (get_alignment b) (\<lambda>b. Inr (flags, b)))))
        (\<lambda>(flags, b). fold_run (parse_layer sg flags) (coded_positions sg) (old, b))) = parse_encoded_data sg old"
  proof
    fix b
    have none: "coded_positions sg = []" if "\<not> pc_enhancement_enabled (sg_picture_configuration sg)"
      "\<not> pc_temporal_signalling_present (sg_picture_configuration sg)"
      using that by (simp add: coded_positions_def positions_def first_layer_def total_layers_def)
    show "run_bind (Some (rbind (parse_layer_flags sg b) (\<lambda>(flags, b). rbind (get_alignment b) (\<lambda>b. Inr (flags, b)))))
        (\<lambda>(flags, b). fold_run (parse_layer sg flags) (coded_positions sg) (old, b)) = parse_encoded_data sg old b"
      using none
      by (cases "pc_enhancement_enabled (sg_picture_configuration sg) \<or> pc_temporal_signalling_present (sg_picture_configuration sg)";
          cases "parse_layer_flags sg b")
        (auto simp: parse_encoded_data_def run_bind_result)
  qed
  ultimately show ?thesis by (metis (no_types, lifting) le_trans)
qed

text \<open>
  C4: a block of encoded data of any picture with at most three planes and sixteen layers, whose
  coded layers have fewer than 3,524,578 elements each, gives a decoder that knows the sizes of the
  layers every residual clamped to 14 bits and the temporal mask as the temporal coder transmits
  it, whichever of the two packets was smaller for each layer; what the block does not code stays
  as the decoder had it.
\<close>

theorem encoded_data_roundtrip:
  assumes "data_sendable sg symbols" and "sizes_known sg symbols"
  shows "\<exists>w r r'. emit_encoded_data sg symbols (word_of_nat (num_layers sg)) packer_new = Some (Inr w) \<and>
    through_packet w = Inr r \<and>
    parse_encoded_data sg old r = Some (Inr (received_layers sg old symbols, r')) \<and> up_remaining_bits r' < 8"
proof -
  obtain bs where "pk.emits 0 (emit_encoded_data sg symbols (word_of_nat (num_layers sg))) bs"
    "ups.takes 0 (parse_encoded_data sg old) bs (received_layers sg old symbols)"
    using encoded_data_steps [OF assms] by blast
  then show ?thesis
    by (rule emits_through) (auto simp: up_remaining_bits_pending simp del: length_pending)
qed

text \<open>A luma picture of 8 by 8 pixels, predicted from the one before in three of its four blocks.\<close>

definition small_global :: global_configuration where
  "small_global = sample_global
    \<lparr>gc_colourspace := Colourspace_Y, gc_num_image_planes := 1, gc_tile_dimensions_type := TileDimensions_None,
     gc_tile_width := 0, gc_tile_height := 0, gc_resolution_width := 8, gc_resolution_height := 8,
     gc_scaling_mode := [ScalingMode_None, ScalingMode_None]\<rparr>"

definition small_signaled :: signaled_configuration where
  "small_signaled = \<lparr>sg_sequence_configuration = sample_sequence 3, sg_global_configuration = small_global,
     sg_picture_configuration = sample_picture True,
     sg_additional_info = \<lparr>ai_additional_info_type = 0, ai_payload_type = 0\<rparr>,
     sg_surface_configuration = (\<lambda>_ _ _. \<lparr>sc_width = 2, sc_height = 2\<rparr>)\<rparr>"

definition small_symbols :: layer_surfaces where
  "small_symbols = (\<lambda>(plane, loq, layer).
     if layer = 16 then Mask_Surface \<lparr>sf_width = 2, sf_height = 2, sf_pixels = [192, 128, 128, 128]\<rparr>
     else Residual_Surface \<lparr>sf_width = 2, sf_height = 2, sf_pixels = [9000, 0, -3, 0]\<rparr>)"

lemma small_config:
  "num_planes small_signaled = 1" "num_layers small_signaled = 16" "block_size small_signaled = 4"
  "gc_tile_dimensions_type (sg_global_configuration small_signaled) = TileDimensions_None"
  by (simp_all add: num_planes_def num_layers_def block_size_def small_signaled_def small_global_def sample_global_def)

lemma small_sendable: "data_sendable small_signaled small_symbols"
  unfolding data_sendable_def small_config
  by (simp add: layer_sendable_def surface_codable_def small_symbols_def is_temporal_layer_def small_config split: prod.split)

lemma small_known: "sizes_known small_signaled small_symbols"
  by (auto simp: sizes_known_def surface_size_def small_symbols_def layer_width_def layer_height_def small_signaled_def)

theorem encoded_data_roundtrip_witness:
  "\<forall>old. \<exists>w r r' out. emit_encoded_data small_signaled small_symbols 16 packer_new = Some (Inr w) \<and>
    through_packet w = Inr r \<and> parse_encoded_data small_signaled old r = Some (Inr (out, r')) \<and>
    layer_width (out (0, LOQ_LEVEL_2, 16)) = 2 \<and> out (1, 0, 0) = old (1, 0, 0)"
proof
  fix old
  obtain w r r' where *: "emit_encoded_data small_signaled small_symbols (word_of_nat 16) packer_new = Some (Inr w)"
    "through_packet w = Inr r"
    "parse_encoded_data small_signaled old r = Some (Inr (received_layers small_signaled old small_symbols, r'))"
    using encoded_data_roundtrip [OF small_sendable small_known, of old] unfolding small_config by blast
  have "(0, LOQ_LEVEL_2, 16) \<in> set (coded_positions small_signaled)" "(1, 0, 0) \<notin> set (coded_positions small_signaled)"
    by (simp_all add: coded_positions_iff small_config first_layer_def total_layers_def)
      (simp_all add: small_signaled_def sample_picture_def)
  then have "layer_width (received_layers small_signaled old small_symbols (0, LOQ_LEVEL_2, 16)) = 2"
    "received_layers small_signaled old small_symbols (1, 0, 0) = old (1, 0, 0)"
    by (simp_all add: received_layers_def received_layer_def small_symbols_def layer_width_def)
  with * show "\<exists>w r r' out. emit_encoded_data small_signaled small_symbols 16 packer_new = Some (Inr w) \<and>
    through_packet w = Inr r \<and> parse_encoded_data small_signaled old r = Some (Inr (out, r')) \<and>
    layer_width (out (0, LOQ_LEVEL_2, 16)) = 2 \<and> out (1, 0, 0) = old (1, 0, 0)" by auto
qed

end
