(* ===== verification/BlockRoundtrip.thy ===== *)
theory BlockRoundtrip
  imports DeserializerBlocks EncodedRoundtrip
begin

text \<open>
  What the decoder makes of the blocks of one packet: each block is framed by its type and size,
  and the loop over the packet hands its payload to the parser of that type.
\<close>

section \<open>Sizes of the configuration blocks\<close>

text \<open>A statement, a section and a block write at most so many bits.\<close>

definition grows :: "nat \<Rightarrow> (packer \<Rightarrow> packer result) \<Rightarrow> bool" where
  "grows n f \<longleftrightarrow> (\<forall>w w'. f w = Inr w' \<longrightarrow> pk_bit_offset w' \<le> pk_bit_offset w + n)"

lemma grows_all: "\<forall>f \<in> set fs. grows n f \<Longrightarrow> grows (length fs * n) (write_all fs)"
proof (induction fs)
  case Nil
  then show ?case by (simp add: grows_def)
next
  case (Cons f fs)
  then have "grows n f" "grows (length fs * n) (write_all fs)" by simp_all
  then show ?case by (fastforce simp: grows_def rbind_eq_Inr)
qed

lemma grows_mono: "grows n f \<Longrightarrow> n \<le> m \<Longrightarrow> grows m f"
  by (fastforce simp: grows_def)

definition leaf :: "(packer \<Rightarrow> packer result) \<Rightarrow> bool" where
  "leaf f \<longleftrightarrow> grows 128 f"

definition short :: "(packer \<Rightarrow> packer result) \<Rightarrow> bool" where
  "short f \<longleftrightarrow> grows 8192 f"

lemma leaf_u: "n \<le> 32 \<Longrightarrow> leaf (put_u n v)"
  by (auto simp: leaf_def grows_def put_u_def dest: packer_u_offset)

lemma leaf_multibyte: "leaf (write_multibyte v)"
proof -
  have groups: "grows (8 * Suc n) (write_multibyte_bytes v m)" if "unat v < 128 ^ Suc n" for v m n
    using that
  proof (induction n arbitrary: v m)
    case 0
    then have "\<not> 0x7f < v" by (simp add: word_less_nat_alt)
    then show ?case by (subst write_multibyte_bytes.simps) (auto simp: grows_def rbind_eq_Inr dest!: packer_u_offset)
  next
    case (Suc n)
    have "unat (drop_bit 7 v) = unat v div 128" by (simp add: drop_bit_eq_div unat_div)
    also have "\<dots> < 128 ^ Suc n" using Suc.prems by (simp add: less_mult_imp_div_less)
    finally have "grows (8 * Suc n) (write_multibyte_bytes (drop_bit 7 v) True)" by (rule Suc.IH)
    then show ?case
      by (subst write_multibyte_bytes.simps) (fastforce simp: grows_def rbind_eq_Inr dest!: packer_u_offset split: if_splits)
  qed
  have "unat v < 2 ^ LENGTH(64)" by (rule unsigned_less)
  then have "grows (8 * Suc 9) (write_multibyte v)"
    unfolding write_multibyte_def [abs_def] by (intro groups) simp
  then show ?thesis unfolding leaf_def by (rule grows_mono) simp
qed

lemma leaf_simps [simp]:
  "leaf (put_flag c)" "leaf (check c)" "leaf (write_multibyte m)"
  "leaf (if c then f else g) \<longleftrightarrow> (c \<longrightarrow> leaf f) \<and> (\<not> c \<longrightarrow> leaf g)"
  "n \<le> 32 \<Longrightarrow> leaf (put_u n v)" "n \<le> 32 \<Longrightarrow> leaf (put_element n xs i)"
  by (auto simp: put_flag_def leaf_u leaf_multibyte) (use leaf_u in \<open>auto simp: leaf_def grows_def check_def rbind_eq_Inr put_element_def split: if_splits\<close>)

lemma short_simps [simp]:
  "leaf f \<Longrightarrow> short f"
  "\<forall>f \<in> set fs. leaf f \<Longrightarrow> length fs \<le> 64 \<Longrightarrow> short (write_all fs)"
  "\<forall>f \<in> set fs. leaf f \<Longrightarrow> length fs \<le> 64 \<Longrightarrow> short (only_if c fs)"
  "short (if c then f else g) \<longleftrightarrow> (c \<longrightarrow> short f) \<and> (\<not> c \<longrightarrow> short g)"
proof -
  have all: "short (write_all fs)" if "\<forall>f \<in> set fs. leaf f" "length fs \<le> 64" for fs
    unfolding short_def using that by (intro grows_mono [OF grows_all]) (auto simp: leaf_def)
  then show "\<forall>f \<in> set fs. leaf f \<Longrightarrow> length fs \<le> 64 \<Longrightarrow> short (write_all fs)"
    "\<forall>f \<in> set fs. leaf f \<Longrightarrow> length fs \<le> 64 \<Longrightarrow> short (only_if c fs)"
    by (simp_all add: only_if_def [abs_def])
qed (auto simp: short_def leaf_def intro: grows_mono)

definition block_bits :: nat where
  "block_bits = 8192 * 64"

lemma grows_block: "\<forall>f \<in> set fs. short f \<Longrightarrow> length fs \<le> 64 \<Longrightarrow> grows block_bits (write_all fs)"
  by (rule grows_mono [OF grows_all]) (auto simp: short_def block_bits_def)

lemma grows_sequence: "grows block_bits (emit_sequence_configuration c)"
  unfolding emit_sequence_configuration_def by (rule grows_block) (cases "sq_profile_idc c"; simp)+

lemma leaf_pair: "n \<le> 32 \<Longrightarrow> m \<le> 32 \<Longrightarrow> leaf (write_all [put_u n v, put_u m w])" "leaf (write_all [check b, check c])"
  by (auto simp: leaf_def grows_def rbind_eq_Inr put_u_def check_def dest!: packer_u_offset)

lemma short_tiles: "short (emit_tile_configuration g)"
proof -
  have "leaf (case gc_tile_dimensions_type g of
       TileDimensions_512x256 \<Rightarrow> write_all [check (gc_tile_width g = 512), check (gc_tile_height g = 256)]
     | TileDimensions_1024x512 \<Rightarrow> write_all [check (gc_tile_width g = 1024), check (gc_tile_height g = 512)]
     | TileDimensions_Custom \<Rightarrow> write_all [put_u 16 (gc_tile_width g), put_u 16 (gc_tile_height g)]
     | _ \<Rightarrow> check False)"
    by (cases "gc_tile_dimensions_type g") (simp_all add: leaf_pair)
  then show ?thesis unfolding emit_tile_configuration_def by (intro short_simps(3)) simp_all
qed

lemma grows_global: "grows block_bits (emit_global_configuration g)"
  unfolding emit_global_configuration_def Let_def
  by (rule grows_block) (simp_all add: put_depth_def put_scaling_mode_def short_tiles)

lemma short_quant_matrix: "unat n \<le> 17 \<Longrightarrow> short (emit_quant_matrix p n)"
proof -
  assume n: "unat n \<le> 17"
  have "grows (17 * 128) (only_if c (map (put_element 8 xs) [0..<unat n]))" for c xs
    unfolding only_if_def [abs_def] using n
    by (intro grows_mono [OF grows_all [of _ 128]]) (auto simp: leaf_def [symmetric])
  then show "short (emit_quant_matrix p n)"
    unfolding short_def emit_quant_matrix_def by (intro grows_mono [OF grows_all]) auto
qed

lemma grows_picture: "unat n \<le> 17 \<Longrightarrow> grows block_bits (emit_picture_configuration p n)"
  unfolding emit_picture_configuration_def
  by (rule grows_block) (simp_all add: put_picture_type_def short_quant_matrix emit_dithering_def)

lemma grows_additional_info: "grows block_bits (emit_additional_info a)"
  unfolding emit_additional_info_def by (rule grows_block) simp_all

lemma conveys_bounded:
  assumes "io.conveys f p x" and "grows n f"
  shows "\<exists>bs. length bs \<le> n \<and> pk.emits 0 (\<lambda>w. Some (f w)) bs \<and> ups.takes 0 (\<lambda>r. Some (p r)) bs x"
proof -
  obtain bs where bs: "pk.writes 0 f bs" "ups.reads 0 p bs x" using assms(1) by (auto simp: io.conveys_def)
  obtain w where w: "f packer_new = Inr w" "packer_bits w = bs"
    using pk.writesD [OF bs(1), of packer_new] by (auto simp: packer_new_def [THEN arg_cong, of pk_bit_offset])
  have "length bs \<le> n" using assms(2) w(1) arg_cong [OF w(2), of length] by (fastforce simp: grows_def packer_new_def)
  with pk.emits_writes [OF bs(1)] ups.takes_reads [OF bs(2)] show ?thesis by blast
qed

section \<open>The frame of a block\<close>

text \<open>One turn of the decoder: a block, and the surfaces when it was a global one.\<close>

definition decode_block ::
  "dimensions \<Rightarrow> decoder \<times> layer_surfaces \<Rightarrow> unpacker \<Rightarrow> ((decoder \<times> layer_surfaces) \<times> unpacker) run" where
  "decode_block old = (\<lambda>(dc, symbols) b.
     run_bind (parse_block old \<lparr>ds_b = b, ds_configuration = dc_configuration dc, ds_symbols = symbols\<rparr>) (\<lambda>(block, ds).
     run_bind (if block = SyntaxBlock_Global then resize_surfaces (dc\<lparr>dc_configuration := ds_configuration ds\<rparr>)
               else Some (Inr (dc\<lparr>dc_configuration := ds_configuration ds\<rparr>))) (\<lambda>dc.
     Some (Inr ((dc, ds_symbols ds), ds_b ds)))))"

lemma decode_blocks_step:
  "decode_blocks old dc \<lparr>ds_b = b, ds_configuration = dc_configuration dc, ds_symbols = symbols\<rparr> =
     (if up_empty b then Some (Inr (dc, symbols))
      else run_bind (decode_block old (dc, symbols) b) (\<lambda>((dc, symbols), b).
        decode_blocks old dc \<lparr>ds_b = b, ds_configuration = dc_configuration dc, ds_symbols = symbols\<rparr>))"
proof -
  let ?ds = "\<lparr>ds_b = b, ds_configuration = dc_configuration dc, ds_symbols = symbols\<rparr>"
  have upd: "ds\<lparr>ds_configuration := c\<rparr> = \<lparr>ds_b = ds_b ds, ds_configuration = c, ds_symbols = ds_symbols ds\<rparr>" for ds c by simp
  show ?thesis
    by (subst decode_blocks.simps)
      (auto simp: has_more_def decode_block_def upd split: option.split sum.split)
qed

text \<open>
  The payload of a block as the parser of its type sees it: what was written as its contents and
  fewer than eight zero bits.
\<close>

definition payload_parsed ::
  "dimensions \<Rightarrow> syntax_block \<Rightarrow> bool list \<Rightarrow> signaled_configuration \<Rightarrow> layer_surfaces \<Rightarrow>
     signaled_configuration \<Rightarrow> layer_surfaces \<Rightarrow> bool" where
  "payload_parsed old block bs sg symbols sg' symbols' \<longleftrightarrow>
     (\<forall>pb k. unpacker_inv pb \<and> up_bit_offset pb = 0 \<and> pending pb = bs @ replicate k False \<longrightarrow>
        parse_payload old (payload_type_of block) pb sg symbols = Some (Inr (block, sg', symbols')))"

lemma take_bit_3: "n < 8 \<Longrightarrow> take_bit 3 (word_of_nat n :: u32) = word_of_nat n"
proof -
  assume "n < 8"
  then have "n \<in> {0, 1, 2, 3, 4, 5, 6, 7}" by auto
  then show ?thesis by (auto simp: take_bit_eq_mod)
qed

text \<open>The size of the contents is in the type of the size when it is at most 5, and follows it otherwise.\<close>

definition size_type :: "nat \<Rightarrow> u32" where
  "size_type n = (if n \<le> 5 then word_of_nat n else 7)"

lemma reads_size_type: "ups.reads k (\<lambda>b. unpacker_u b 3) (bits_of 3 (size_type n)) (size_type n)"
  using ups.reads_get [of 3 k "size_type n"] take_bit_3 [of n] take_bit_3 [of 7] by (simp add: size_type_def split: if_splits)

lemma reads_payload_size:
  assumes "n < 2 ^ 32"
  shows "ups.reads k (payload_byte_size_of (size_type n)) (if n \<le> 5 then [] else multibyte_bits (word_of_nat n) False) (word_of_nat n)"
proof (cases "n \<le> 5")
  case True
  then have "size_type n \<le> 5" by (simp add: size_type_def word_le_nat_alt unat_of_nat)
  with True show ?thesis
    using ups.reads_return [of k "word_of_nat n"] by (simp add: payload_byte_size_of_def [abs_def]) (simp add: size_type_def)
next
  case False
  have "ucast (word_of_nat n :: u64) = (word_of_nat n :: u32)"
    using assms by (simp add: word_unat_eq_iff unsigned_ucast_eq unsigned_take_bit_eq unat_of_nat take_bit_eq_mod)
  moreover have "ups.reads k (\<lambda>b. rbind (read_multibyte b) (\<lambda>(v, b). Inr (ucast v :: u32, b)))
      (multibyte_bits (word_of_nat n) False @ []) (ucast (word_of_nat n :: u64))"
    by (rule ups.reads_bind [OF reads_multibyte ups.reads_return])
  ultimately show ?thesis
    using False by (simp add: payload_byte_size_of_def [abs_def] size_type_def)
qed

text \<open>A whole number of bytes makes a packet without padding.\<close>

lemma finish_whole_bytes:
  assumes "packer_inv w" and "8 dvd length (packer_bits w)"
  obtains pkt bytes where "packer_finish w = Inr pkt" and "packet_view pkt = Inr bytes" and "stream_bits bytes = packer_bits w"
proof -
  obtain pkt bytes where *: "packer_finish w = Inr pkt" "packet_view pkt = Inr bytes" "length bytes = packer_byte_size w"
    "stream_bits bytes = packer_bits w @ replicate (8 * length bytes - pk_bit_offset w) False"
    using packer_finish_spec [OF assms(1)] by metis
  obtain m where "pk_bit_offset w = 8 * m" using assms(2) by (auto elim: dvdE)
  then have "8 * length bytes - pk_bit_offset w = 0" by (simp add: *(3) packer_byte_size_def)
  with * that show thesis by simp
qed

lemma finish_contents:
  assumes "pk.emits 0 f bs"
  obtains w pkt bytes k where "f packer_new = Some (Inr w)" and "packer_finish w = Inr pkt" and "packet_view pkt = Inr bytes"
    and "pkt_size pkt = length bytes" and "stream_bits bytes = bs @ replicate k False" and "8 * length bytes < length bs + 8"
proof -
  obtain w where w: "f packer_new = Some (Inr w)" "packer_inv w" "packer_bits w = bs"
    using pk.emitsD [OF assms, of packer_new] by (auto simp: packer_new_def [THEN arg_cong, of pk_bit_offset])
  obtain pkt bytes where *: "packer_finish w = Inr pkt" "packet_view pkt = Inr bytes"
    "stream_bits bytes = packer_bits w @ replicate (8 * length bytes - pk_bit_offset w) False"
    using packer_finish_spec [OF w(2)] by metis
  from packer_finish_size(1,2) [OF w(2) *(1)] have wf: "packet_wf pkt" "8 * pkt_size pkt < length bs + 8" unfolding w(3) .
  with packet_view_total *(2) have "pkt_size pkt = length bytes" by fastforce
  with w(1,3) * wf(2) show thesis by (intro that [of w pkt bytes]) simp_all
qed

text \<open>The frame that the encoder writes around contents of some size.\<close>

definition frame_bits :: "syntax_block \<Rightarrow> u8 list \<Rightarrow> bool list" where
  "frame_bits block bytes = bits_of 3 (size_type (length bytes)) @ bits_of 5 (payload_type_of block) @
     (if length bytes \<le> 5 then [] else multibyte_bits (word_of_nat (length bytes)) False)"

lemma length_frame: "length bytes < 2 ^ 32 \<Longrightarrow> 8 dvd length (frame_bits block bytes) \<and> length (frame_bits block bytes) \<le> 88"
  using length_multibyte_bits_dvd [of "word_of_nat (length bytes)" False]
    length_multibyte_bits [of "word_of_nat (length bytes)" 9 False] unat_of_nat [of "length bytes", where 'a = 64]
  by (simp add: frame_bits_def)

lemma emit_block_framed:
  assumes "pk.emits 0 (emit_contents old sg symbols block) bs" and "length bs + 8 \<le> 8 * 2 ^ 32"
  obtains p out bytes k where "emit_block old sg symbols block = Some (Inr p)" and "packet_view p = Inr out"
    and "stream_bits out = frame_bits block bytes @ stream_bits bytes" and "stream_bits bytes = bs @ replicate k False"
    and "8 * length bytes < length bs + 8"
proof -
  obtain w pkt bytes k where c: "emit_contents old sg symbols block packer_new = Some (Inr w)" "packer_finish w = Inr pkt"
    "packet_view pkt = Inr bytes" "pkt_size pkt = length bytes" "stream_bits bytes = bs @ replicate k False"
    "8 * length bytes < length bs + 8" by (rule finish_contents [OF assms(1)])
  have lt: "length bytes < 2 ^ 32" using c(6) assms(2) by linarith
  let ?n = "word_of_nat (length bytes) :: u64" and ?t = "size_type (length bytes)"
  have seven: "?t = 7 \<longleftrightarrow> \<not> length bytes \<le> 5"
  proof
    assume "?t = 7"
    show "\<not> length bytes \<le> 5"
    proof
      assume le: "length bytes \<le> 5"
      then have "unat ?t = length bytes" by (simp add: size_type_def unat_of_nat)
      with \<open>?t = 7\<close> le show False by simp
    qed
  qed (simp add: size_type_def)
  define head where "head = write_all [put_u 3 ?t, put_u 5 (payload_type_of block), only_if (?t = 7) [write_multibyte ?n]]"
  have "pk.writes 0 head
      (bits_of 3 ?t @ bits_of 5 (payload_type_of block) @ (if length bytes \<le> 5 then [] else multibyte_bits ?n False @ []) @ [])"
    unfolding put_u_def [abs_def] only_if_def [abs_def] head_def
    by (intro pk.writes_all_Cons pk.writes_put pk.writes_all_Nil; simp add: seven pk.writes_all_Nil;
        use pk.writes_all_Cons [OF writes_multibyte pk.writes_all_Nil] in simp)
  then have head: "pk.emits 0 (\<lambda>b. Some (head b)) (frame_bits block bytes)"
    by (intro pk.emits_writes) (simp add: frame_bits_def split: if_splits)
  have "8 dvd 0 + length (frame_bits block bytes)" using length_frame [OF lt] by simp
  from pk.emits_bind [OF head emits_packet [OF c(3) this]] obtain w2 where
    w2: "run_bind (Some (head packer_new)) (put_packet pkt) = Some (Inr w2)" "packer_inv w2"
      "packer_bits w2 = frame_bits block bytes @ stream_bits bytes"
    using pk.emitsD [of 0 _ _ packer_new] by (auto simp: packer_new_def [THEN arg_cong, of pk_bit_offset])
  have "8 dvd length (packer_bits w2)" unfolding w2(3) using length_frame [OF lt] by simp
  then obtain p out where p: "packer_finish w2 = Inr p" "packet_view p = Inr out" "stream_bits out = packer_bits w2"
    by (rule finish_whole_bytes [OF w2(2)])
  have "emit_block old sg symbols block = run_bind (run_bind (Some (head packer_new)) (put_packet pkt)) (\<lambda>b. Some (packer_finish b))"
    by (simp only: emit_block_def c(1,2,4) run_bind.simps Let_def run_bind_assoc size_type_def head_def)
  with w2(1) p(1) have "emit_block old sg symbols block = Some (Inr p)" by simp
  from that [OF this p(2) _ c(5,6)] p(3) w2(3) show thesis by simp
qed

lemma payload_type_3: "take_bit 5 (payload_type_of block) = payload_type_of block"
  by (cases block) (simp_all add: payload_type_of_def take_bit_eq_mod)

lemma parse_block_framed:
  assumes pay: "payload_parsed old block bs (dc_configuration dc) symbols sg' symbols'"
    and surf: "(if block = SyntaxBlock_Global then resize_surfaces (dc\<lparr>dc_configuration := sg'\<rparr>)
                else Some (Inr (dc\<lparr>dc_configuration := sg'\<rparr>))) = Some (Inr dc')"
    and bytes: "stream_bits bytes = bs @ replicate j False" "length bytes < 2 ^ 32"
    and k: "8 dvd k"
  shows "ups.takes k (decode_block old (dc, symbols)) (frame_bits block bytes @ stream_bits bytes) (dc', symbols')"
proof (rule ups.takesI)
  fix r cs assume r: "unpacker_inv r" "up_bit_offset r = k"
    "pending r = (frame_bits block bytes @ stream_bits bytes) @ cs"
  let ?sz = "if length bytes \<le> 5 then [] else multibyte_bits (word_of_nat (length bytes)) False"
  have p0: "pending r = bits_of 3 (size_type (length bytes)) @ (bits_of 5 (payload_type_of block) @ (?sz @ (stream_bits bytes @ cs)))"
    by (simp only: r(3) frame_bits_def append_assoc)
  obtain r1 where r1: "unpacker_u r 3 = Inr (size_type (length bytes), r1)" "unpacker_inv r1" "up_bit_offset r1 = k + 3"
    "pending r1 = bits_of 5 (payload_type_of block) @ (?sz @ (stream_bits bytes @ cs))"
    using ups.readsD [OF reads_size_type r(1,2) p0] by auto
  obtain r2 where r2: "unpacker_u r1 5 = Inr (payload_type_of block, r2)" "unpacker_inv r2" "up_bit_offset r2 = k + 3 + 5"
    "pending r2 = ?sz @ (stream_bits bytes @ cs)"
    using ups.readsD [OF ups.reads_get r1(2,3,4)] by (auto simp: payload_type_3)
  obtain r3 where r3: "payload_byte_size_of (size_type (length bytes)) r2 = Inr (word_of_nat (length bytes), r3)" "unpacker_inv r3"
    "up_bit_offset r3 = k + 3 + 5 + length ?sz" "pending r3 = stream_bits bytes @ cs"
    by (rule ups.readsD [OF reads_payload_size [OF bytes(2)] r2(2,3,4)])
  have pos: "k + 3 + 5 + length ?sz = k + length (frame_bits block bytes)" by (simp add: frame_bits_def)
  have al: "8 dvd k + length (frame_bits block bytes)" using k length_frame [OF bytes(2)] by simp
  have n: "unat (word_of_nat (length bytes) :: u32) = length bytes" using bytes(2) by (simp add: unat_of_nat)
  obtain r4 where r4: "get_packet (length bytes) r3 = Inr (\<lparr>up_view = bytes, up_bit_offset = 0\<rparr>, r4)" "unpacker_inv r4"
    "up_bit_offset r4 = k + length (frame_bits block bytes) + length (stream_bits bytes)" "pending r4 = cs"
    by (rule ups.readsD [OF reads_packet [OF al, of bytes] r3(2) r3(3) [unfolded pos] r3(4)])
  let ?pb = "\<lparr>up_view = bytes, up_bit_offset = 0\<rparr>"
  have "unpacker_inv ?pb" "pending ?pb = bs @ replicate j False"
    by (simp_all add: unpacker_inv_def pending_def bytes(1))
  then have "parse_payload old (payload_type_of block) ?pb (dc_configuration dc) symbols = Some (Inr (block, sg', symbols'))"
    using pay by (simp add: payload_parsed_def)
  then have "decode_block old (dc, symbols) r = Some (Inr ((dc', symbols'), r4))"
    using r1(1) r2(1) r3(1) r4(1) surf
    by (cases "block = SyntaxBlock_Global") (simp_all add: decode_block_def parse_block_def n)
  with r4(2-4) show "\<exists>r'. decode_block old (dc, symbols) r = Some (Inr ((dc', symbols'), r')) \<and> unpacker_inv r' \<and>
      up_bit_offset r' = k + length (frame_bits block bytes @ stream_bits bytes) \<and> pending r' = cs" by simp
qed

text \<open>A block that is delivered takes the decoder from one state to the next.\<close>

definition delivers ::
  "dimensions \<Rightarrow> signaled_configuration \<Rightarrow> layer_surfaces \<Rightarrow> dimensions \<Rightarrow> syntax_block \<Rightarrow>
     decoder \<times> layer_surfaces \<Rightarrow> decoder \<times> layer_surfaces \<Rightarrow> bool" where
  "delivers old sg symbols dold block s s' \<longleftrightarrow>
     (\<exists>p out. emit_block old sg symbols block = Some (Inr p) \<and> packet_view p = Inr out \<and> out \<noteq> [] \<and>
        (\<forall>k. 8 dvd k \<longrightarrow> ups.takes k (decode_block dold s) (stream_bits out) s'))"

lemma deliversI:
  assumes "pk.emits 0 (emit_contents old sg symbols block) bs" and "length bs + 8 \<le> 8 * 2 ^ 32"
    and "payload_parsed dold block bs (dc_configuration dc) dsymbols sg' symbols'"
    and "(if block = SyntaxBlock_Global then resize_surfaces (dc\<lparr>dc_configuration := sg'\<rparr>)
          else Some (Inr (dc\<lparr>dc_configuration := sg'\<rparr>))) = Some (Inr dc')"
  shows "delivers old sg symbols dold block (dc, dsymbols) (dc', symbols')"
proof -
  obtain p out bytes j where e: "emit_block old sg symbols block = Some (Inr p)" "packet_view p = Inr out"
    "stream_bits out = frame_bits block bytes @ stream_bits bytes" "stream_bits bytes = bs @ replicate j False"
    "8 * length bytes < length bs + 8" by (rule emit_block_framed [OF assms(1,2)])
  have lt: "length bytes < 2 ^ 32" using e(5) assms(2) by linarith
  have "out \<noteq> []" using arg_cong [OF e(3), of length] by (auto simp: frame_bits_def)
  with e(1,2) parse_block_framed [OF assms(3,4) e(4) lt] show ?thesis
    unfolding delivers_def e(3) [symmetric] by blast
qed

text \<open>A sequence of blocks.\<close>

fun delivers_all ::
  "dimensions \<Rightarrow> signaled_configuration \<Rightarrow> layer_surfaces \<Rightarrow> dimensions \<Rightarrow> syntax_block list \<Rightarrow>
     decoder \<times> layer_surfaces \<Rightarrow> decoder \<times> layer_surfaces \<Rightarrow> bool" where
  "delivers_all old sg symbols dold [] s s' \<longleftrightarrow> s' = s"
| "delivers_all old sg symbols dold (block # blocks) s s' \<longleftrightarrow>
     (\<exists>s1. delivers old sg symbols dold block s s1 \<and> delivers_all old sg symbols dold blocks s1 s')"

lemma fold_run_Cons: "fold_run f (i # is) = (\<lambda>s. run_bind (f i s) (fold_run f is))"
  by (rule ext) simp

lemma blocks_delivered:
  assumes "delivers_all old sg symbols dold blocks (dc, dsymbols) (dc', dsymbols')" and "8 dvd k"
  shows "\<exists>bs. 8 dvd length bs \<and>
    pk.emits k (fold_run (\<lambda>block b. run_bind (emit_block old sg symbols block) (\<lambda>p. put_packet p b)) blocks) bs \<and>
    (\<forall>r. unpacker_inv r \<and> up_bit_offset r = k \<and> pending r = bs \<longrightarrow>
      decode_blocks dold dc \<lparr>ds_b = r, ds_configuration = dc_configuration dc, ds_symbols = dsymbols\<rparr> = Some (Inr (dc', dsymbols')))"
  using assms
proof (induction blocks arbitrary: dc dsymbols k)
  case Nil
  then show ?case
    using pk.emits_none by (intro exI [of _ "[]"]) (auto simp: decode_blocks_step up_empty_def up_remaining_bits_pending simp del: length_pending)
next
  case (Cons block blocks)
  obtain dc1 sy1 where d: "delivers old sg symbols dold block (dc, dsymbols) (dc1, sy1)"
    "delivers_all old sg symbols dold blocks (dc1, sy1) (dc', dsymbols')" using Cons.prems(1) by auto
  then obtain p out where p: "emit_block old sg symbols block = Some (Inr p)" "packet_view p = Inr out" "out \<noteq> []"
    "ups.takes k (decode_block dold (dc, dsymbols)) (stream_bits out) (dc1, sy1)"
    using Cons.prems(2) by (auto simp: delivers_def)
  have "8 dvd k + length (stream_bits out)" using Cons.prems(2) by simp
  from Cons.IH [OF d(2) this] obtain bs where bs: "8 dvd length bs"
    "pk.emits (k + length (stream_bits out)) (fold_run (\<lambda>block b. run_bind (emit_block old sg symbols block) (\<lambda>p. put_packet p b)) blocks) bs"
    "\<forall>r. unpacker_inv r \<and> up_bit_offset r = k + length (stream_bits out) \<and> pending r = bs \<longrightarrow>
      decode_blocks dold dc1 \<lparr>ds_b = r, ds_configuration = dc_configuration dc1, ds_symbols = sy1\<rparr> = Some (Inr (dc', dsymbols'))"
    by blast
  have emitted: "pk.emits k (fold_run (\<lambda>block b. run_bind (emit_block old sg symbols block) (\<lambda>p. put_packet p b)) (block # blocks)) (stream_bits out @ bs)"
    using pk.emits_bind [OF emits_packet [OF p(2) Cons.prems(2)] bs(2)] by (simp add: p(1) fold_run_Cons)
  have decoded: "decode_blocks dold dc \<lparr>ds_b = r, ds_configuration = dc_configuration dc, ds_symbols = dsymbols\<rparr> = Some (Inr (dc', dsymbols'))"
    if r: "unpacker_inv r" "up_bit_offset r = k" "pending r = stream_bits out @ bs" for r
  proof -
    obtain r1 where r1: "decode_block dold (dc, dsymbols) r = Some (Inr ((dc1, sy1), r1))" "unpacker_inv r1"
      "up_bit_offset r1 = k + length (stream_bits out)" "pending r1 = bs" by (rule ups.takesD [OF p(4) r])
    have "\<not> up_empty r" using p(3) r(3) by (auto simp: up_empty_def up_remaining_bits_pending simp del: length_pending)
    with r1 bs(3) show ?thesis by (simp add: decode_blocks_step [of dold dc r])
  qed
  have "8 dvd length (stream_bits out @ bs)" using bs(1) by simp
  with emitted decoded show ?case by blast
qed

section \<open>Each block delivered\<close>

lemma configuration_delivered:
  assumes "\<And>w. emit_contents old sg symbols block w = Some (f w)" and "io.conveys f p x" and "grows block_bits f"
    and "\<And>pb. parse_payload dold (payload_type_of block) pb (dc_configuration dc) dsymbols =
      Some (rbind (p pb) (\<lambda>(c, pb). Inr (block, upd c (dc_configuration dc), dsymbols)))"
    and "(if block = SyntaxBlock_Global then resize_surfaces (dc\<lparr>dc_configuration := upd x (dc_configuration dc)\<rparr>)
          else Some (Inr (dc\<lparr>dc_configuration := upd x (dc_configuration dc)\<rparr>))) = Some (Inr dc')"
  shows "delivers old sg symbols dold block (dc, dsymbols) (dc', dsymbols)"
proof -
  obtain bs where bs: "length bs \<le> block_bits" "pk.emits 0 (\<lambda>w. Some (f w)) bs" "ups.takes 0 (\<lambda>r. Some (p r)) bs x"
    using conveys_bounded [OF assms(2,3)] by blast
  have "payload_parsed dold block bs (dc_configuration dc) dsymbols (upd x (dc_configuration dc)) dsymbols"
    unfolding payload_parsed_def
  proof (intro allI impI)
    fix pb k assume pb: "unpacker_inv pb \<and> up_bit_offset pb = 0 \<and> pending pb = bs @ replicate k False"
    then obtain r where "Some (p pb) = Some (Inr (x, r))" using ups.takesD [OF bs(3)] by metis
    then show "parse_payload dold (payload_type_of block) pb (dc_configuration dc) dsymbols =
        Some (Inr (block, upd x (dc_configuration dc), dsymbols))" by (simp add: assms(4))
  qed
  moreover have "length bs + 8 \<le> 8 * 2 ^ 32" using bs(1) by (simp add: block_bits_def)
  moreover have "emit_contents old sg symbols block = (\<lambda>w. Some (f w))" using assms(1) by (rule ext)
  ultimately show ?thesis using bs(2) assms(5) by (intro deliversI) simp_all
qed

lemma sequence_delivered:
  assumes "sequence_sendable (sg_sequence_configuration sg)"
  shows "delivers old sg symbols dold SyntaxBlock_Sequence (dc, dsymbols)
    (dc\<lparr>dc_configuration := (dc_configuration dc)\<lparr>sg_sequence_configuration :=
       sequence_received (sg_sequence_configuration (dc_configuration dc)) (sg_sequence_configuration sg)\<rparr>\<rparr>, dsymbols)"
  by (rule configuration_delivered [where upd = "\<lambda>c sg. sg\<lparr>sg_sequence_configuration := c\<rparr>",
        OF _ conveys_sequence [OF assms] grows_sequence])
    (simp_all add: emit_contents_def parse_payload_def payload_type_of_def Let_def)

lemma global_delivered:
  assumes "global_sendable (sg_global_configuration sg)" and "global_arrays (sg_global_configuration (dc_configuration dc))"
    and "resize_surfaces (dc\<lparr>dc_configuration := (dc_configuration dc)\<lparr>sg_global_configuration :=
      global_received (sg_global_configuration (dc_configuration dc)) (sg_global_configuration sg)\<rparr>\<rparr>) = Some (Inr dc')"
  shows "delivers old sg symbols dold SyntaxBlock_Global (dc, dsymbols) (dc', dsymbols)"
  by (rule configuration_delivered [where upd = "\<lambda>c sg. sg\<lparr>sg_global_configuration := c\<rparr>",
        OF _ conveys_global [OF assms(1,2)] grows_global])
    (use assms(3) in \<open>simp_all add: emit_contents_def parse_payload_def payload_type_of_def Let_def\<close>)

lemma picture_delivered:
  assumes "picture_sendable n temporal (sg_picture_configuration sg)" and "picture_arrays (sg_picture_configuration (dc_configuration dc))"
    and "gc_num_residual_layers (sg_global_configuration sg) = n" and "unat n \<le> 17"
    and "gc_num_residual_layers (sg_global_configuration (dc_configuration dc)) = n"
    and "temporal \<longleftrightarrow> gc_temporal_enabled (sg_global_configuration (dc_configuration dc)) \<noteq> 0"
  shows "delivers old sg symbols dold SyntaxBlock_Picture (dc, dsymbols)
    (dc\<lparr>dc_configuration := (dc_configuration dc)\<lparr>sg_picture_configuration :=
       picture_received n (sg_picture_configuration (dc_configuration dc)) (sg_picture_configuration sg)\<rparr>\<rparr>, dsymbols)"
  by (rule configuration_delivered [where upd = "\<lambda>c sg. sg\<lparr>sg_picture_configuration := c\<rparr>",
        OF _ conveys_picture [OF assms(1,2)] grows_picture [OF assms(4)]])
    (use assms(3,5,6) in \<open>simp_all add: emit_contents_def parse_payload_def payload_type_of_def Let_def\<close>)

text \<open>The configuration fields that the block of encoded data depends on.\<close>

definition same_coding :: "signaled_configuration \<Rightarrow> signaled_configuration \<Rightarrow> bool" where
  "same_coding sg dsg \<longleftrightarrow> num_planes dsg = num_planes sg \<and> num_layers dsg = num_layers sg \<and>
     pc_enhancement_enabled (sg_picture_configuration dsg) = pc_enhancement_enabled (sg_picture_configuration sg) \<and>
     pc_temporal_signalling_present (sg_picture_configuration dsg) = pc_temporal_signalling_present (sg_picture_configuration sg) \<and>
     gc_temporal_enabled (sg_global_configuration dsg) = gc_temporal_enabled (sg_global_configuration sg) \<and>
     gc_tile_dimensions_type (sg_global_configuration dsg) = gc_tile_dimensions_type (sg_global_configuration sg) \<and>
     block_size dsg = block_size sg \<and>
     gc_temporal_tile_intra_signalling_enabled (sg_global_configuration dsg) =
       gc_temporal_tile_intra_signalling_enabled (sg_global_configuration sg)"

lemma same_coding_eqs:
  assumes "same_coding sg dsg"
  shows "emit_encoded_data dsg = emit_encoded_data sg" and "data_sendable dsg = data_sendable sg"
    and "received_layers dsg = received_layers sg" and "coded_positions dsg = coded_positions sg"
proof -
  note s = assms [unfolded same_coding_def]
  have f: "temporal_layer dsg = temporal_layer sg" "total_layers dsg = total_layers sg" "first_layer dsg = first_layer sg"
    "is_temporal_layer dsg = is_temporal_layer sg" "use_tiled_encoding_order dsg = use_tiled_encoding_order sg"
    using s by (auto simp: temporal_layer_def total_layers_def first_layer_def is_temporal_layer_def use_tiled_encoding_order_def)
  show p: "coded_positions dsg = coded_positions sg" using s by (simp add: coded_positions_def f)
  have "encode_layer dsg = encode_layer sg" using s by (intro ext) (simp add: encode_layer_def f cong: if_cong)
  then have e: "encode_layers dsg = encode_layers sg" by (simp add: encode_layers_def [abs_def] cong: if_cong)
  have "emit_flags dsg = emit_flags sg" using s by (intro ext) (simp add: emit_flags_def f)
  with e p s show "emit_encoded_data dsg = emit_encoded_data sg" by (intro ext) (simp add: emit_encoded_data_def f)
  have "layer_sendable dsg = layer_sendable sg" by (intro ext) (simp add: layer_sendable_def f split: layer_surface.split)
  with p s show "data_sendable dsg = data_sendable sg" by (intro ext) (simp add: data_sendable_def)
  have "received_layer dsg = received_layer sg" using s by (intro ext) (simp add: received_layer_def split: layer_surface.split cong: if_cong)
  with p show "received_layers dsg = received_layers sg" by (intro ext) (simp add: received_layers_def)
qed

lemma data_delivered:
  assumes ok: "data_sendable sg symbols" and same: "same_coding sg (dc_configuration dc)"
    and sizes: "sizes_known (dc_configuration dc) symbols"
  shows "delivers old sg symbols dold SyntaxBlock_EncodedData (dc, dsymbols) (dc, received_layers sg dsymbols symbols)"
proof -
  note eqs = same_coding_eqs [OF same]
  have n: "(word_of_nat (num_layers (dc_configuration dc)) :: u32) = gc_num_residual_layers (sg_global_configuration sg)"
    using same by (simp add: same_coding_def num_layers_def)
  obtain bs where bs: "length bs \<le> data_bits"
    "pk.emits 0 (emit_encoded_data sg symbols (gc_num_residual_layers (sg_global_configuration sg))) bs"
    "ups.takes 0 (parse_encoded_data (dc_configuration dc) dsymbols) bs (received_layers sg dsymbols symbols)"
    using encoded_data_steps [OF ok [folded eqs(2)] sizes, of 0 dsymbols] unfolding eqs n by blast
  have "payload_parsed dold SyntaxBlock_EncodedData bs (dc_configuration dc) dsymbols (dc_configuration dc)
      (received_layers sg dsymbols symbols)"
    unfolding payload_parsed_def
  proof (intro allI impI)
    fix pb k assume pb: "unpacker_inv pb \<and> up_bit_offset pb = 0 \<and> pending pb = bs @ replicate k False"
    then obtain r where "parse_encoded_data (dc_configuration dc) dsymbols pb = Some (Inr (received_layers sg dsymbols symbols, r))"
      using ups.takesD [OF bs(3)] by metis
    then show "parse_payload dold (payload_type_of SyntaxBlock_EncodedData) pb (dc_configuration dc) dsymbols =
        Some (Inr (SyntaxBlock_EncodedData, dc_configuration dc, received_layers sg dsymbols symbols))"
      by (simp add: parse_payload_def payload_type_of_def)
  qed
  moreover have "length bs + 8 \<le> 8 * 2 ^ 32" using bs(1) by (simp add: data_bits_def layer_bits_def)
  moreover have "emit_contents old sg symbols SyntaxBlock_EncodedData =
      emit_encoded_data sg symbols (gc_num_residual_layers (sg_global_configuration sg))"
    by (rule ext) (simp add: emit_contents_def Let_def)
  ultimately show ?thesis using bs(2) by (intro deliversI) (simp_all, cases dc, simp)
qed

section \<open>New surfaces for a global block\<close>

lemma dimensions_received:
  assumes "gc_num_image_planes g = (if gc_colourspace g = Colourspace_Y then 1 else 3)"
  shows "dimensions_set (global_received old g) = dimensions_set g"
proof -
  have f: "gc_num_image_planes (global_received old g) = gc_num_image_planes g"
    "gc_num_processed_planes (global_received old g) = gc_num_processed_planes g"
    "gc_transform_block_size (global_received old g) = gc_transform_block_size g"
    "gc_tile_width (global_received old g) = gc_tile_width g" "gc_tile_height (global_received old g) = gc_tile_height g"
    "gc_scaling_mode (global_received old g) = gc_scaling_mode g" "gc_colourspace (global_received old g) = gc_colourspace g"
    using assms by (simp_all add: global_received_def)
  have "set_plane_dimensions (global_received old g) = set_plane_dimensions g"
    by (intro ext) (simp add: set_plane_dimensions_def f cong: if_cong)
  then have "set_loq_dimensions (global_received old g) = set_loq_dimensions g"
    by (intro ext) (simp add: set_loq_dimensions_def f cong: if_cong)
  then have sd: "set_dimensions (global_received old g) = set_dimensions g"
    by (intro ext) (simp add: set_dimensions_def f cong: scaling_mode.case_cong)
  show ?thesis by (intro ext) (unfold dimensions_set_def f sd, rule refl)
qed

definition surfaces_sized :: "dimensions \<Rightarrow> signaled_configuration \<Rightarrow> layer_position \<Rightarrow> bool" where
  "surfaces_sized d sg = (\<lambda>(plane, loq, layer). sg_surface_configuration sg plane loq layer =
     \<lparr>sc_width = dm_layer_width d (plane, loq), sc_height = dm_layer_height d (plane, loq)\<rparr>)"

definition same_but_surfaces :: "signaled_configuration \<Rightarrow> signaled_configuration \<Rightarrow> bool" where
  "same_but_surfaces sg sg' \<longleftrightarrow> (\<exists>S. sg' = sg\<lparr>sg_surface_configuration := S\<rparr>)"

lemma same_but_surfaces_refl: "same_but_surfaces sg sg"
  unfolding same_but_surfaces_def by (intro exI [of _ "sg_surface_configuration sg"]) simp

lemma same_but_surfaces_trans: "same_but_surfaces a b \<Longrightarrow> same_but_surfaces b c \<Longrightarrow> same_but_surfaces a c"
  unfolding same_but_surfaces_def by fastforce

abbreviation size_surface :: "dimensions \<Rightarrow> layer_position \<Rightarrow> signaled_configuration \<Rightarrow> signaled_configuration result" where
  "size_surface d \<equiv> (\<lambda>(plane, loq, layer).
     set_surface_size (dm_layer_width d (plane, loq)) (dm_layer_height d (plane, loq)) (plane, loq, layer))"

lemma size_surfaces:
  assumes "\<forall>pos \<in> set ps. in_arrays pos"
  shows "\<exists>sg'. fold_result (size_surface d) ps sg = Inr sg' \<and> same_but_surfaces sg sg' \<and>
    (\<forall>pos. pos \<in> set ps \<or> surfaces_sized d sg pos \<longrightarrow> surfaces_sized d sg' pos)"
  using assms
proof (induction ps arbitrary: sg)
  case Nil
  then show ?case using same_but_surfaces_refl by simp
next
  case (Cons pos ps)
  obtain plane loq layer where pos: "pos = (plane, loq, layer)" by (cases pos)
  let ?S = "\<lambda>p l y. if (p, l, y) = (plane, loq, layer)
     then \<lparr>sc_width = dm_layer_width d (plane, loq), sc_height = dm_layer_height d (plane, loq)\<rparr> else sg_surface_configuration sg p l y"
  let ?sg = "sg\<lparr>sg_surface_configuration := ?S\<rparr>"
  have step: "size_surface d pos sg = Inr ?sg" using Cons.prems by (simp add: pos set_surface_size_def)
  have "\<forall>pos \<in> set ps. in_arrays pos" using Cons.prems by simp
  from Cons.IH [OF this, of ?sg] obtain sg' where sg': "fold_result (size_surface d) ps ?sg = Inr sg'" "same_but_surfaces ?sg sg'"
    "\<forall>pos. pos \<in> set ps \<or> surfaces_sized d ?sg pos \<longrightarrow> surfaces_sized d sg' pos" by blast
  have one: "same_but_surfaces sg ?sg" by (auto simp: same_but_surfaces_def)
  have "surfaces_sized d ?sg q" if "q = pos \<or> surfaces_sized d sg q" for q
    using that by (auto simp: surfaces_sized_def pos)
  then have "\<forall>q. q \<in> set (pos # ps) \<or> surfaces_sized d sg q \<longrightarrow> surfaces_sized d sg' q" using sg'(3) by auto
  with step sg'(1) same_but_surfaces_trans [OF one sg'(2)] show ?case by simp
qed

lemma resize_total:
  assumes d: "dimensions_set g (unat (gc_resolution_width g)) (unat (gc_resolution_height g)) (dc_dimensions dc) = Some (Inr d)"
    and g: "sg_global_configuration (dc_configuration dc) = g"
    and n: "unat (gc_num_residual_layers g) < MAX_NUM_LAYERS" and planes: "unat (gc_num_image_planes g) \<le> MAX_NUM_PLANES"
  shows "\<exists>dc'. resize_surfaces dc = Some (Inr dc') \<and> same_but_surfaces (dc_configuration dc) (dc_configuration dc') \<and>
    dc_dimensions dc' = d \<and> dc_quant_matrix_coeffs dc' = dc_quant_matrix_coeffs dc \<and>
    (\<forall>plane loq layer. plane < unat (gc_num_image_planes g) \<longrightarrow> loq < MAX_NUM_LOQS \<longrightarrow>
       layer < unat (gc_num_residual_layers g) \<or> layer = unat (gc_num_residual_layers g) \<and> loq = LOQ_LEVEL_2 \<and>
         gc_temporal_enabled g \<noteq> 0 \<and> plane < unat (gc_num_processed_planes g) \<longrightarrow>
       surfaces_sized d (dc_configuration dc') (plane, loq, layer))"
proof -
  let ?n = "unat (gc_num_residual_layers g)"
  let ?step = "\<lambda>plane (sg, buffers).
      rbind (fold_result (size_surface d) [(plane, loq, layer). loq \<leftarrow> [0..<MAX_NUM_LOQS], layer \<leftarrow> [0..<?n]] sg) (\<lambda>sg.
      if gc_temporal_enabled g \<noteq> 0 \<and> plane < unat (gc_num_processed_planes g) then
        rbind (size_surface d (plane, LOQ_LEVEL_2, ?n) sg) (\<lambda>sg. Inr (sg, buffers(plane := renew_buffer d plane (buffers plane))))
      else Inr (sg, buffers))"
  have "\<exists>sg' buffers'. fold_result ?step [0..<k] (dc_configuration dc, dc_temporal_buffer dc) = Inr (sg', buffers') \<and>
      same_but_surfaces (dc_configuration dc) sg' \<and>
      (\<forall>plane loq layer. plane < k \<longrightarrow> loq < MAX_NUM_LOQS \<longrightarrow> layer < ?n \<or> layer = ?n \<and> loq = LOQ_LEVEL_2 \<and>
         gc_temporal_enabled g \<noteq> 0 \<and> plane < unat (gc_num_processed_planes g) \<longrightarrow> surfaces_sized d sg' (plane, loq, layer))"
    if "k \<le> MAX_NUM_PLANES" for k
    using that
  proof (induction k)
    case 0
    then show ?case using same_but_surfaces_refl by simp
  next
    case (Suc k)
    then obtain sg1 b1 where s1: "fold_result ?step [0..<k] (dc_configuration dc, dc_temporal_buffer dc) = Inr (sg1, b1)"
      "same_but_surfaces (dc_configuration dc) sg1"
      "\<forall>plane loq layer. plane < k \<longrightarrow> loq < MAX_NUM_LOQS \<longrightarrow> layer < ?n \<or> layer = ?n \<and> loq = LOQ_LEVEL_2 \<and>
         gc_temporal_enabled g \<noteq> 0 \<and> plane < unat (gc_num_processed_planes g) \<longrightarrow> surfaces_sized d sg1 (plane, loq, layer)"
      by auto
    let ?ps = "[(k, loq, layer). loq \<leftarrow> [0..<MAX_NUM_LOQS], layer \<leftarrow> [0..<?n]]"
    have "\<forall>pos \<in> set ?ps. in_arrays pos" using Suc.prems n by (auto simp: in_arrays_def)
    from size_surfaces [OF this, of d sg1] obtain sg2 where s2: "fold_result (size_surface d) ?ps sg1 = Inr sg2"
      "same_but_surfaces sg1 sg2" "\<forall>pos. pos \<in> set ?ps \<or> surfaces_sized d sg1 pos \<longrightarrow> surfaces_sized d sg2 pos" by blast
    let ?t = "gc_temporal_enabled g \<noteq> 0 \<and> k < unat (gc_num_processed_planes g)"
    have "in_arrays (k, LOQ_LEVEL_2, ?n)" using Suc.prems n by (simp add: in_arrays_def)
    then have "\<forall>pos \<in> set [(k, LOQ_LEVEL_2, ?n)]. in_arrays pos" by simp
    from size_surfaces [OF this, of d sg2] obtain sg3 where s3: "size_surface d (k, LOQ_LEVEL_2, ?n) sg2 = Inr sg3"
      "same_but_surfaces sg2 sg3" "\<forall>pos. pos = (k, LOQ_LEVEL_2, ?n) \<or> surfaces_sized d sg2 pos \<longrightarrow> surfaces_sized d sg3 pos"
      by (auto simp: rbind_eq_Inr)
    let ?sg = "if ?t then sg3 else sg2"
    have "fold_result ?step [0..<Suc k] (dc_configuration dc, dc_temporal_buffer dc) =
        Inr (?sg, if ?t then b1(k := renew_buffer d k (b1 k)) else b1)"
      using s1(1) s2(1) s3(1) by (simp add: fold_result_append)
    moreover have "same_but_surfaces (dc_configuration dc) ?sg"
      using s1(2) s2(2) s3(2) by (auto intro: same_but_surfaces_trans)
    moreover have "surfaces_sized d ?sg (plane, loq, layer)"
      if p: "plane < Suc k" "loq < MAX_NUM_LOQS" "layer < ?n \<or> layer = ?n \<and> loq = LOQ_LEVEL_2 \<and>
         gc_temporal_enabled g \<noteq> 0 \<and> plane < unat (gc_num_processed_planes g)" for plane loq layer
    proof -
      consider "plane < k" | "plane = k" "layer < ?n" | "plane = k" "layer = ?n" "loq = LOQ_LEVEL_2" ?t using p by force
      then show ?thesis
      proof cases
        case 1
        with p(2,3) s1(3) have "surfaces_sized d sg1 (plane, loq, layer)" by blast
        with s2(3) have *: "surfaces_sized d sg2 (plane, loq, layer)" by blast
        with s3(3) have "surfaces_sized d sg3 (plane, loq, layer)" by blast
        with * show ?thesis by simp
      next
        case 2
        with p(2) have "(plane, loq, layer) \<in> set ?ps" by (auto simp: image_iff)
        with s2(3) have *: "surfaces_sized d sg2 (plane, loq, layer)" by blast
        with s3(3) have "surfaces_sized d sg3 (plane, loq, layer)" by blast
        with * show ?thesis by simp
      next
        case 3
        with s3(3) show ?thesis by simp
      qed
    qed
    ultimately show ?case by blast
  qed
  from this [OF planes] obtain sg' buffers' where s: "fold_result ?step [0..<unat (gc_num_image_planes g)]
      (dc_configuration dc, dc_temporal_buffer dc) = Inr (sg', buffers')" "same_but_surfaces (dc_configuration dc) sg'"
    "\<forall>plane loq layer. plane < unat (gc_num_image_planes g) \<longrightarrow> loq < MAX_NUM_LOQS \<longrightarrow> layer < ?n \<or> layer = ?n \<and> loq = LOQ_LEVEL_2 \<and>
         gc_temporal_enabled g \<noteq> 0 \<and> plane < unat (gc_num_processed_planes g) \<longrightarrow> surfaces_sized d sg' (plane, loq, layer)" by blast
  have "resize_surfaces dc = Some (Inr (dc\<lparr>dc_configuration := sg', dc_dimensions := d, dc_temporal_buffer := buffers'\<rparr>))"
    using s(1) by (simp add: resize_surfaces_def g Let_def d)
  with s(2,3) show ?thesis by auto
qed

section \<open>A whole packet\<close>

text \<open>The layers of the encoder have the sizes that its own dimensions give them.\<close>

definition layers_sized :: "dimensions \<Rightarrow> signaled_configuration \<Rightarrow> layer_surfaces \<Rightarrow> bool" where
  "layers_sized d sg symbols \<longleftrightarrow> (\<forall>(plane, loq, layer) \<in> set (coded_positions sg).
     layer_width (symbols (plane, loq, layer)) = dm_layer_width d (plane, loq) \<and>
     layer_height (symbols (plane, loq, layer)) = dm_layer_height d (plane, loq))"

text \<open>The global configuration holds what the decoder derives from its other fields.\<close>

definition derived_fields :: "global_configuration \<Rightarrow> bool" where
  "derived_fields g \<longleftrightarrow> gc_num_image_planes g = (if gc_colourspace g = Colourspace_Y then 1 else 3) \<and>
     gc_num_residual_layers g = (if gc_transform_block_size g = 2 then 4 else 16)"

definition picture_layers :: "signaled_configuration \<Rightarrow> u32" where
  "picture_layers sg = gc_num_residual_layers (sg_global_configuration sg)"

lemma emit_blocks_selected:
  assumes "pk.emits 0 (fold_run (\<lambda>block b. run_bind (emit_block old sg symbols block) (\<lambda>p. put_packet p b))
      (filter (\<lambda>block. block \<in> chosen) syntax_blocks)) bs" and "8 dvd length bs"
  obtains p out where "emit_blocks old sg chosen symbols = Some (Inr p)" and "packet_view p = Inr out" and "stream_bits out = bs"
proof -
  have sel: "fold_run (\<lambda>block b. if block \<in> chosen then f block b else Some (Inr b)) blocks b =
      fold_run f (filter (\<lambda>block. block \<in> chosen) blocks) b" for f :: "syntax_block \<Rightarrow> packer \<Rightarrow> packer run" and blocks b
  proof (induction blocks arbitrary: b)
    case (Cons block blocks)
    then have "fold_run (\<lambda>block b. if block \<in> chosen then f block b else Some (Inr b)) blocks =
        fold_run f (filter (\<lambda>block. block \<in> chosen) blocks)" by (rule ext)
    then show ?case by simp
  qed simp
  obtain w where w: "fold_run (\<lambda>block b. run_bind (emit_block old sg symbols block) (\<lambda>p. put_packet p b))
      (filter (\<lambda>block. block \<in> chosen) syntax_blocks) packer_new = Some (Inr w)" "packer_inv w" "packer_bits w = bs"
    using pk.emitsD [OF assms(1), of packer_new] by (auto simp: packer_new_def [THEN arg_cong, of pk_bit_offset])
  have "8 dvd length (packer_bits w)" using assms(2) w(3) by (simp only:)
  then obtain p out where "packer_finish w = Inr p" "packet_view p = Inr out" "stream_bits out = packer_bits w"
    by (rule finish_whole_bytes [OF w(2)])
  with w show thesis by (intro that [of p out]) (simp_all add: emit_blocks_def sel)
qed

lemma packet_delivered:
  assumes "delivers_all old sg symbols dold (filter (\<lambda>block. block \<in> chosen) syntax_blocks)
      (dc\<lparr>dc_quant_matrix_coeffs := (\<lambda>_. -1)\<rparr>, dsymbols) (dc', dsymbols')"
  shows "\<exists>pkt. emit_blocks old sg chosen symbols = Some (Inr pkt) \<and>
    initialize_decode dold pkt dsymbols dc = Some (Inr (dc', dsymbols'))"
proof -
  let ?dc = "dc\<lparr>dc_quant_matrix_coeffs := (\<lambda>_. -1)\<rparr>"
  obtain bs where bs: "8 dvd length bs" "pk.emits 0 (fold_run (\<lambda>block b. run_bind (emit_block old sg symbols block) (\<lambda>p. put_packet p b))
      (filter (\<lambda>block. block \<in> chosen) syntax_blocks)) bs"
    "\<forall>r. unpacker_inv r \<and> up_bit_offset r = 0 \<and> pending r = bs \<longrightarrow>
      decode_blocks dold ?dc \<lparr>ds_b = r, ds_configuration = dc_configuration ?dc, ds_symbols = dsymbols\<rparr> = Some (Inr (dc', dsymbols'))"
    using blocks_delivered [OF assms, of 0] by auto
  obtain p out where p: "emit_blocks old sg chosen symbols = Some (Inr p)" "packet_view p = Inr out" "stream_bits out = bs"
    by (rule emit_blocks_selected [OF bs(2,1)])
  let ?r = "\<lparr>up_view = out, up_bit_offset = 0\<rparr>"
  have "unpacker_inv ?r" "pending ?r = bs" by (simp_all add: unpacker_inv_def pending_def p(3))
  then have "decode_blocks dold ?dc \<lparr>ds_b = ?r, ds_configuration = dc_configuration ?dc, ds_symbols = dsymbols\<rparr> =
      Some (Inr (dc', dsymbols'))" using bs(3) by simp
  then have "initialize_decode dold p dsymbols dc = Some (Inr (dc', dsymbols'))"
    by (simp add: initialize_decode_def deserializer_new_def unpacker_new_def p(2))
  with p(1) show ?thesis by blast
qed

text \<open>The sizes that the resized decoder holds are those of the layers that are coded.\<close>

lemma sizes_resized:
  assumes "layers_sized d sg symbols" and "coded_positions sg' = coded_positions sg"
    and npp: "unat (gc_num_processed_planes (sg_global_configuration sg)) \<le> unat (gc_num_image_planes (sg_global_configuration sg))"
    and temporal: "pc_temporal_signalling_present (sg_picture_configuration sg) \<Longrightarrow> gc_temporal_enabled (sg_global_configuration sg) \<noteq> 0"
    and sized: "\<forall>plane loq layer. plane < unat (gc_num_image_planes (sg_global_configuration sg)) \<longrightarrow> loq < MAX_NUM_LOQS \<longrightarrow>
       layer < num_layers sg \<or> layer = num_layers sg \<and> loq = LOQ_LEVEL_2 \<and>
         gc_temporal_enabled (sg_global_configuration sg) \<noteq> 0 \<and> plane < unat (gc_num_processed_planes (sg_global_configuration sg)) \<longrightarrow>
       surfaces_sized d sg' (plane, loq, layer)"
  shows "sizes_known sg' symbols"
  unfolding sizes_known_def assms(2)
proof
  fix pos assume pos: "pos \<in> set (coded_positions sg)"
  obtain plane loq layer where p: "pos = (plane, loq, layer)" by (cases pos)
  have q: "plane < num_planes sg" "loq < MAX_NUM_LOQS" "layer < total_layers sg loq" using pos by (simp_all add: p coded_positions_iff)
  have plane: "plane < unat (gc_num_processed_planes (sg_global_configuration sg))" using q(1) by (simp only: num_planes_def)
  have "layer < num_layers sg \<or> layer = num_layers sg \<and> loq = LOQ_LEVEL_2 \<and>
      pc_temporal_signalling_present (sg_picture_configuration sg)"
    using q(3) by (auto simp: total_layers_def split: if_splits)
  with temporal plane have "layer < num_layers sg \<or> layer = num_layers sg \<and> loq = LOQ_LEVEL_2 \<and>
      gc_temporal_enabled (sg_global_configuration sg) \<noteq> 0 \<and> plane < unat (gc_num_processed_planes (sg_global_configuration sg))"
    by blast
  moreover have "plane < unat (gc_num_image_planes (sg_global_configuration sg))" using plane npp by linarith
  ultimately have "surfaces_sized d sg' (plane, loq, layer)" using sized q(2) by blast
  then show "surface_size sg' pos = \<lparr>sc_width = layer_width (symbols pos), sc_height = layer_height (symbols pos)\<rparr>"
    using assms(1) pos by (auto simp: p layers_sized_def surfaces_sized_def surface_size_def)
qed

text \<open>A new global configuration: the block is delivered and the surfaces are resized.\<close>

lemma global_resizes:
  assumes g: "global_sendable (sg_global_configuration sg)" "derived_fields (sg_global_configuration sg)"
    and arrays: "global_arrays (sg_global_configuration (dc_configuration dc))"
    and dims: "dimensions_set (sg_global_configuration sg) (unat (gc_resolution_width (sg_global_configuration sg)))
      (unat (gc_resolution_height (sg_global_configuration sg))) (dc_dimensions dc) = Some (Inr d)"
  obtains dc' S where "delivers old sg symbols dold SyntaxBlock_Global (dc, dsymbols) (dc', dsymbols)"
    and "dc_configuration dc' = (dc_configuration dc)\<lparr>sg_global_configuration :=
      global_received (sg_global_configuration (dc_configuration dc)) (sg_global_configuration sg), sg_surface_configuration := S\<rparr>"
    and "dc_dimensions dc' = d"
    and "\<forall>plane loq layer. plane < unat (gc_num_image_planes (sg_global_configuration sg)) \<longrightarrow> loq < MAX_NUM_LOQS \<longrightarrow>
       layer < num_layers sg \<or> layer = num_layers sg \<and> loq = LOQ_LEVEL_2 \<and>
         gc_temporal_enabled (sg_global_configuration sg) \<noteq> 0 \<and> plane < unat (gc_num_processed_planes (sg_global_configuration sg)) \<longrightarrow>
       surfaces_sized d (dc_configuration dc') (plane, loq, layer)"
proof -
  let ?g = "sg_global_configuration sg"
  let ?gr = "global_received (sg_global_configuration (dc_configuration dc)) ?g"
  let ?dc = "dc\<lparr>dc_configuration := (dc_configuration dc)\<lparr>sg_global_configuration := ?gr\<rparr>\<rparr>"
  have layers: "gc_num_residual_layers ?g = (if gc_transform_block_size ?g = 2 then 4 else 16)"
    "gc_num_image_planes ?g = (if gc_colourspace ?g = Colourspace_Y then 1 else 3)"
    using g(2) by (simp_all add: derived_fields_def)
  have gr: "gc_num_residual_layers ?gr = gc_num_residual_layers ?g" "gc_num_image_planes ?gr = gc_num_image_planes ?g"
    "gc_num_processed_planes ?gr = gc_num_processed_planes ?g" "gc_temporal_enabled ?gr = gc_temporal_enabled ?g"
    "gc_resolution_width ?gr = gc_resolution_width ?g" "gc_resolution_height ?gr = gc_resolution_height ?g"
    using layers by (simp_all add: global_received_def)
  have c: "sg_global_configuration (dc_configuration ?dc) = ?gr" "dc_dimensions ?dc = dc_dimensions dc" by simp_all
  have small: "unat (gc_num_residual_layers ?g) < MAX_NUM_LAYERS" "unat (gc_num_image_planes ?g) \<le> MAX_NUM_PLANES"
    using layers by simp_all
  have "dimensions_set ?gr (unat (gc_resolution_width ?gr)) (unat (gc_resolution_height ?gr)) (dc_dimensions ?dc) = Some (Inr d)"
    unfolding dimensions_received [OF layers(2)] c(2) gr by (rule dims)
  from resize_total [OF this c(1)] small obtain dc' where dc': "resize_surfaces ?dc = Some (Inr dc')"
    "same_but_surfaces (dc_configuration ?dc) (dc_configuration dc')" "dc_dimensions dc' = d"
    "\<forall>plane loq layer. plane < unat (gc_num_image_planes ?g) \<longrightarrow> loq < MAX_NUM_LOQS \<longrightarrow>
       layer < unat (gc_num_residual_layers ?g) \<or> layer = unat (gc_num_residual_layers ?g) \<and> loq = LOQ_LEVEL_2 \<and>
         gc_temporal_enabled ?g \<noteq> 0 \<and> plane < unat (gc_num_processed_planes ?g) \<longrightarrow>
       surfaces_sized d (dc_configuration dc') (plane, loq, layer)" unfolding gr by blast
  obtain S where S: "dc_configuration dc' = (dc_configuration ?dc)\<lparr>sg_surface_configuration := S\<rparr>"
    using dc'(2) by (auto simp: same_but_surfaces_def)
  have "delivers old sg symbols dold SyntaxBlock_Global (dc, dsymbols) (dc', dsymbols)"
    by (rule global_delivered [OF g(1) arrays dc'(1)])
  with dc'(3,4) S show thesis by (intro that [of dc' S]) (simp_all add: num_layers_def)
qed

text \<open>
  C3: the packet of an intra picture (sequence, global and picture configuration and encoded data)
  gives any decoder, whatever its state before, the three configurations as its parsers receive
  them, the dimensions that follow from the new global configuration, and every coded layer as the
  entropy coders transmit it. The hypotheses say that the encoder's configuration is within the
  widths of its fields, that its layers have the sizes its dimensions give them, and that the
  decoder's arrays have their lengths.
\<close>

theorem packet_roundtrip:
  assumes sq: "sequence_sendable (sg_sequence_configuration sg)"
    and gs: "global_sendable (sg_global_configuration sg)" "derived_fields (sg_global_configuration sg)"
    and ps: "picture_sendable (picture_layers sg) (gc_temporal_enabled (sg_global_configuration sg) \<noteq> 0) (sg_picture_configuration sg)"
    and ds: "data_sendable sg symbols"
    and arrays: "global_arrays (sg_global_configuration (dc_configuration dc))" "picture_arrays (sg_picture_configuration (dc_configuration dc))"
    and dims: "dimensions_set (sg_global_configuration sg) (unat (gc_resolution_width (sg_global_configuration sg)))
      (unat (gc_resolution_height (sg_global_configuration sg))) (dc_dimensions dc) = Some (Inr d)" "layers_sized d sg symbols"
  shows "\<exists>pkt dc'. emit_blocks old sg {SyntaxBlock_Sequence, SyntaxBlock_Global, SyntaxBlock_Picture, SyntaxBlock_EncodedData} symbols =
      Some (Inr pkt) \<and>
    initialize_decode dold pkt dsymbols dc = Some (Inr (dc', received_layers sg dsymbols symbols)) \<and> dc_dimensions dc' = d \<and>
    sg_sequence_configuration (dc_configuration dc') =
      sequence_received (sg_sequence_configuration (dc_configuration dc)) (sg_sequence_configuration sg) \<and>
    sg_global_configuration (dc_configuration dc') =
      global_received (sg_global_configuration (dc_configuration dc)) (sg_global_configuration sg) \<and>
    sg_picture_configuration (dc_configuration dc') =
      picture_received (picture_layers sg) (sg_picture_configuration (dc_configuration dc)) (sg_picture_configuration sg)"
proof -
  let ?blocks = "{SyntaxBlock_Sequence, SyntaxBlock_Global, SyntaxBlock_Picture, SyntaxBlock_EncodedData}"
  let ?g = "sg_global_configuration sg" and ?c = "dc_configuration dc"
  let ?gr = "global_received (sg_global_configuration ?c) ?g"
  let ?pr = "picture_received (picture_layers sg) (sg_picture_configuration ?c) (sg_picture_configuration sg)"
  let ?sr = "sequence_received (sg_sequence_configuration ?c) (sg_sequence_configuration sg)"
  have gr: "gc_num_residual_layers ?gr = gc_num_residual_layers ?g" "gc_temporal_enabled ?gr = gc_temporal_enabled ?g"
    using gs(2) by (simp_all add: global_received_def derived_fields_def)
  define dc1 where "dc1 = dc\<lparr>dc_quant_matrix_coeffs := (\<lambda>_. -1), dc_configuration := ?c\<lparr>sg_sequence_configuration := ?sr\<rparr>\<rparr>"
  have c1: "sg_global_configuration (dc_configuration dc1) = sg_global_configuration ?c" "dc_dimensions dc1 = dc_dimensions dc"
    "sg_picture_configuration (dc_configuration dc1) = sg_picture_configuration ?c"
    "sg_sequence_configuration (dc_configuration dc1) = ?sr"
    by (simp_all add: dc1_def)
  obtain dc3 S where dc3: "delivers old sg symbols dold SyntaxBlock_Global (dc1, dsymbols) (dc3, dsymbols)"
    "dc_configuration dc3 = (dc_configuration dc1)\<lparr>sg_global_configuration := ?gr, sg_surface_configuration := S\<rparr>"
    "dc_dimensions dc3 = d"
    "\<forall>plane loq layer. plane < unat (gc_num_image_planes ?g) \<longrightarrow> loq < MAX_NUM_LOQS \<longrightarrow>
       layer < num_layers sg \<or> layer = num_layers sg \<and> loq = LOQ_LEVEL_2 \<and>
         gc_temporal_enabled ?g \<noteq> 0 \<and> plane < unat (gc_num_processed_planes ?g) \<longrightarrow>
       surfaces_sized d (dc_configuration dc3) (plane, loq, layer)"
    using global_resizes [OF gs, of dc1 d old symbols dold dsymbols] arrays(1) dims(1) unfolding c1 by blast
  define dc4 where "dc4 = dc3\<lparr>dc_configuration := (dc_configuration dc3)\<lparr>sg_picture_configuration := ?pr\<rparr>\<rparr>"
  have c4: "sg_global_configuration (dc_configuration dc4) = ?gr" "sg_picture_configuration (dc_configuration dc4) = ?pr"
    "sg_sequence_configuration (dc_configuration dc4) = ?sr" "dc_dimensions dc4 = d"
    "sg_surface_configuration (dc_configuration dc4) = sg_surface_configuration (dc_configuration dc3)"
    by (simp_all add: dc4_def dc3(2,3) c1(4))
  have same: "same_coding sg (dc_configuration dc4)"
    using gs(2) ps by (simp add: same_coding_def c4 num_planes_def num_layers_def block_size_def
        derived_fields_def global_received_def picture_received_def picture_sendable_def)
  have layers: "unat (gc_num_residual_layers ?g) < MAX_NUM_LAYERS" using gs(2) by (simp add: derived_fields_def)
  have sizes: "sizes_known (dc_configuration dc4) symbols"
  proof (rule sizes_resized [OF dims(2) same_coding_eqs(4) [OF same]])
    show "unat (gc_num_processed_planes ?g) \<le> unat (gc_num_image_planes ?g)"
      using gs by (auto simp: global_sendable_def derived_fields_def)
    show "pc_temporal_signalling_present (sg_picture_configuration sg) \<Longrightarrow> gc_temporal_enabled ?g \<noteq> 0"
      using ps by (simp add: picture_sendable_def)
  qed (use dc3(4) in \<open>simp add: surfaces_sized_def c4(5)\<close>)
  have "delivers old sg symbols dold SyntaxBlock_Sequence (dc\<lparr>dc_quant_matrix_coeffs := (\<lambda>_. -1)\<rparr>, dsymbols) (dc1, dsymbols)"
    using sequence_delivered [OF sq, of old symbols dold "dc\<lparr>dc_quant_matrix_coeffs := (\<lambda>_. -1)\<rparr>" dsymbols] by (simp add: dc1_def)
  moreover note dc3(1)
  moreover have "delivers old sg symbols dold SyntaxBlock_Picture (dc3, dsymbols) (dc4, dsymbols)"
    using picture_delivered [OF ps, of dc3 old symbols dold dsymbols] arrays(2) layers
    by (simp add: dc3(2) c1 gr picture_layers_def dc4_def)
  moreover have "delivers old sg symbols dold SyntaxBlock_EncodedData (dc4, dsymbols) (dc4, received_layers sg dsymbols symbols)"
    by (rule data_delivered [OF ds same sizes])
  moreover have "filter (\<lambda>block. block \<in> ?blocks) syntax_blocks =
      [SyntaxBlock_Sequence, SyntaxBlock_Global, SyntaxBlock_Picture, SyntaxBlock_EncodedData]"
    by (simp add: syntax_blocks_def)
  ultimately have "delivers_all old sg symbols dold (filter (\<lambda>block. block \<in> ?blocks) syntax_blocks)
      (dc\<lparr>dc_quant_matrix_coeffs := (\<lambda>_. -1)\<rparr>, dsymbols) (dc4, received_layers sg dsymbols symbols)"
    unfolding delivers_all.simps by (simp only: delivers_all.simps) blast
  from packet_delivered [OF this] c4(1-4) show ?thesis by blast
qed

lemma small_dimensions: "\<exists>d. dimensions_set small_global 8 8 d0 = Some (Inr d) \<and> layers_sized d small_signaled small_symbols"
proof -
  have "\<exists>d. dimensions_set small_global 8 8 d0 = Some (Inr d) \<and>
      (\<forall>loq < 2. dm_layer_width d (0, loq) = 2 \<and> dm_layer_height d (0, loq) = 2)"
    by (simp add: dimensions_set_def set_dimensions_def set_loq_dimensions_def set_plane_dimensions_def div_up_eq udiv_def
        ceil_div_def small_global_def sample_global_def chroma_scale_def Let_def scale_up.simps scale_down_def less_2_cases_iff)
  then obtain d where d: "dimensions_set small_global 8 8 d0 = Some (Inr d)"
    "\<forall>loq < 2. dm_layer_width d (0, loq) = 2 \<and> dm_layer_height d (0, loq) = 2" by blast
  have "layers_sized d small_signaled small_symbols"
    using d(2) by (auto simp: layers_sized_def coded_positions_iff small_config small_symbols_def layer_width_def layer_height_def)
  with d(1) show ?thesis by blast
qed

lemma small_configuration:
  "sg_global_configuration small_signaled = small_global" "sg_sequence_configuration small_signaled = sample_sequence 3"
  "sg_picture_configuration small_signaled = sample_picture True" "picture_layers small_signaled = 16"
  "gc_temporal_enabled small_global = 1" "gc_resolution_width small_global = 8" "gc_resolution_height small_global = 8"
  by (simp_all add: small_signaled_def small_global_def sample_global_def picture_layers_def)

lemma small_global_sendable: "global_sendable small_global" "derived_fields small_global"
  by (simp_all add: global_sendable_def global_arrays_def derived_fields_def small_global_def sample_global_def)

definition small_decoder :: "dimensions \<Rightarrow> decoder" where
  "small_decoder d0 = \<lparr>dc_configuration = small_signaled\<lparr>sg_picture_configuration := sample_picture False\<rparr>, dc_dimensions = d0,
     dc_temporal_buffer = (\<lambda>_. None), dc_quant_matrix_coeffs = (\<lambda>_. 5)\<rparr>"

theorem packet_roundtrip_witness:
  "\<forall>d0 dsymbols. \<exists>pkt dc'. emit_blocks d0 small_signaled
      {SyntaxBlock_Sequence, SyntaxBlock_Global, SyntaxBlock_Picture, SyntaxBlock_EncodedData} small_symbols = Some (Inr pkt) \<and>
    initialize_decode d0 pkt dsymbols (small_decoder d0) =
      Some (Inr (dc', received_layers small_signaled dsymbols small_symbols)) \<and>
    pc_enhancement_enabled (sg_picture_configuration (dc_configuration dc'))"
proof (intro allI)
  fix d0 dsymbols
  obtain d where d: "dimensions_set small_global 8 8 d0 = Some (Inr d)" "layers_sized d small_signaled small_symbols"
    using small_dimensions by blast
  have c: "sg_global_configuration (dc_configuration (small_decoder d0)) = small_global"
    "sg_picture_configuration (dc_configuration (small_decoder d0)) = sample_picture False"
    "dc_dimensions (small_decoder d0) = d0" by (simp_all add: small_decoder_def small_configuration)
  have "sequence_sendable (sample_sequence 3)" by (simp add: sequence_sendable_def sample_sequence_def)
  moreover have "global_arrays small_global" using small_global_sendable(1) by (simp add: global_sendable_def)
  ultimately obtain pkt dc' where "emit_blocks d0 small_signaled
      {SyntaxBlock_Sequence, SyntaxBlock_Global, SyntaxBlock_Picture, SyntaxBlock_EncodedData} small_symbols = Some (Inr pkt)"
    "initialize_decode d0 pkt dsymbols (small_decoder d0) = Some (Inr (dc', received_layers small_signaled dsymbols small_symbols))"
    "sg_picture_configuration (dc_configuration dc') = picture_received 16 (sample_picture False) (sample_picture True)"
    using packet_roundtrip [of small_signaled small_symbols "small_decoder d0" d d0 d0 dsymbols] small_global_sendable
      sample_picture_sendable sample_picture_arrays small_sendable d
    unfolding small_configuration c by auto
  then show "\<exists>pkt dc'. emit_blocks d0 small_signaled
      {SyntaxBlock_Sequence, SyntaxBlock_Global, SyntaxBlock_Picture, SyntaxBlock_EncodedData} small_symbols = Some (Inr pkt) \<and>
    initialize_decode d0 pkt dsymbols (small_decoder d0) =
      Some (Inr (dc', received_layers small_signaled dsymbols small_symbols)) \<and>
    pc_enhancement_enabled (sg_picture_configuration (dc_configuration dc'))"
    by (auto simp: picture_received_def)
qed

end
