(* ===== verification/EntropyTermination.thy ===== *)
theory EntropyTermination
  imports EntropyDecoder
begin

text \<open>
  Whether the loops of decoder/src/EntropyDecoder.cpp end on any input at all. Every symbol of a
  raw source takes a byte of the packet, so its parsers return, with a result or with an error.
  A Huffman source is as good as long as no code has length zero; a table with a single symbol
  does, and then a run of bytes need not end.
\<close>

section \<open>Runs that return\<close>

definition returns :: "('a \<Rightarrow> bool) \<Rightarrow> 'a run \<Rightarrow> bool" where
  "returns P r \<longleftrightarrow> (\<exists>x. r = Some x \<and> (\<forall>y. x = Inr y \<longrightarrow> P y))"

named_theorems returning

lemma returns_simps [simp]:
  "returns P (Some (Inr x)) \<longleftrightarrow> P x"
  "returns P (Some (Inl e))"
  "\<not> returns P None"
  by (simp_all add: returns_def)

lemma returns_bind [returning]:
  assumes "returns P m" and "\<And>x. P x \<Longrightarrow> returns Q (f x)"
  shows "returns Q (run_bind m f)"
  using assms by (cases "(m, f)" rule: run_bind.cases) simp_all

lemma returns_result:
  assumes "\<And>x. r = Inr x \<Longrightarrow> P x"
  shows "returns P (Some r)"
  using assms by (cases r) simp_all

lemma returns_fold:
  assumes "P s" and "\<And>i s. P s \<Longrightarrow> returns P (f i s)"
  shows "returns P (fold_run f is s)"
  using assms(1) by (induction "is" arbitrary: s) (auto intro: returns_bind [of P] assms(2))

lemma returns_mono: "returns P r \<Longrightarrow> (\<And>x. P x \<Longrightarrow> Q x) \<Longrightarrow> returns Q r"
  by (auto simp: returns_def)

lemma returns_not_None: "returns P r \<Longrightarrow> r \<noteq> None"
  by (auto simp: returns_def)

section \<open>Sources whose runs end\<close>

text \<open>
  The states whose symbols a loop reads are \<open>loops\<close>: a symbol of such a state either shortens
  what is left of the stream or is the last of its run.
\<close>

locale ending_source =
  fixes get :: "nat \<Rightarrow> 's \<Rightarrow> (u32 \<times> 's) result"
    and inv :: "'s \<Rightarrow> bool"
    and left :: "'s \<Rightarrow> nat"
    and loops :: "nat set"
  assumes get_inv: "inv s \<Longrightarrow> get st s = Inr (v, s') \<Longrightarrow> inv s' \<and> left s' \<le> left s"
    and get_ends: "inv s \<Longrightarrow> st \<in> loops \<Longrightarrow> get st s = Inr (v, s') \<Longrightarrow> left s' < left s \<or> v AND 128 = 0"
begin

lemma get_returns: "inv s \<Longrightarrow> returns (\<lambda>(v, s'). inv s') (Some (get st s))"
  using get_inv by (auto intro: returns_result)

lemma get_run_returns:
  "inv s \<Longrightarrow> st \<in> loops \<Longrightarrow> returns (\<lambda>(v, s'). inv s' \<and> left s' \<le> left s) (get_run get st n s)"
proof (induction "left s" arbitrary: s n rule: less_induct)
  case less
  show ?case
  proof (cases "get st s")
    case (Inl e)
    then show ?thesis by (subst get_run.simps) simp
  next
    case (Inr r)
    obtain v s1 where r: "r = (v, s1)" by force
    have s1: "inv s1" "left s1 \<le> left s" "left s1 < left s \<or> v AND 128 = 0"
      using get_inv get_ends less.prems Inr r by blast+
    have "returns (\<lambda>(v, s'). inv s' \<and> left s' \<le> left s) (get_run get st m s1)" if "left s1 < left s" for m
      by (rule returns_mono [OF less.hyps [OF that s1(1) less.prems(2)]]) (use s1(2) in auto)
    then show ?thesis using Inr s1 by (subst get_run.simps) (auto simp: r)
  qed
qed

lemma decode_pel_returns:
  assumes "inv s" and "state_zero \<in> loops"
  shows "returns (\<lambda>(v, s'). inv s') (decode_pel get s)"
proof -
  have run: "returns (\<lambda>(v, s'). inv s') (get_run get state_zero n t)" if "inv t" for n t
    by (rule returns_mono [OF get_run_returns [OF that assms(2)]]) auto
  have zeros: "returns (\<lambda>(v, s'). inv s') (if symbol AND 128 \<noteq> 0 then
      run_bind (get_run get state_zero 0 t) (\<lambda>(zeros, s). Some (Inr ((pel, zeros), s)))
      else Some (Inr ((pel, 0), t)))" if "inv t" for symbol :: u32 and pel :: int and t
    using that by (auto intro!: returns_bind [OF run])
  show ?thesis unfolding decode_pel_def
  proof (rule returns_bind [OF get_returns [OF assms(1)]], clarify)
    fix symbol s1 assume s1: "inv s1"
    show "returns (\<lambda>(v, s'). inv s') (run_bind
       (if symbol AND 1 \<noteq> 0 then
          run_bind (Some (get state_msb s1)) (\<lambda>(msb, s).
          Some (Inr (to_int16 (uint (drop_bit 1 ((push_bit 8 (msb AND 127)) OR (symbol AND 254)) - 8192)), msb, s)))
        else Some (Inr (to_int16 (uint (drop_bit 1 ((symbol AND 126) - 64))), symbol, s1)))
       (\<lambda>(pel, symbol, s).
     if symbol AND 128 \<noteq> 0 then
       run_bind (get_run get state_zero 0 s) (\<lambda>(zeros, s). Some (Inr ((pel, zeros), s)))
     else Some (Inr ((pel, 0), s))))"
      by (rule returns_bind [where P = "\<lambda>(v, w, s'). inv s'"])
        (use s1 zeros in \<open>auto intro!: returns_bind [OF get_returns]\<close>)
  qed
qed

lemma residual_pixels_return:
  assumes "inv s" and loops: "state_zero \<in> loops"
  shows "returns (\<lambda>((zeros, s'), b). inv s') (scan_pixels (residual_pixel get) ps ((z, s), b))"
  unfolding scan_pixels_def
proof (rule returns_fold)
  fix p and c :: "(u32 \<times> 's) \<times> int surface_builder"
  assume c: "(\<lambda>((zeros, s'), b). inv s') c"
  obtain zeros t b where c': "c = ((zeros, t), b)" by (metis surj_pair)
  have "returns (\<lambda>(v, zeros, s'). inv s') (residual_pixel get p (zeros, t))"
    using c unfolding c' by (auto simp: residual_pixel_def intro!: returns_bind [OF decode_pel_returns [OF _ loops]])
  then show "returns (\<lambda>((zeros, s'), b). inv s') ((\<lambda>(c, b).
      run_bind (residual_pixel get p c) (\<lambda>(v, c).
      run_bind (Some (surface_write (fst p) (snd p) v b)) (\<lambda>b. Some (Inr (c, b))))) c)"
    unfolding c' prod.case
    by (rule returns_bind) (auto intro!: returns_bind [OF returns_result [where P = "\<lambda>_. True"]])
qed (use assms in simp)

end

locale flag_source = ending_source get inv left loops
  for get :: "nat \<Rightarrow> 's \<Rightarrow> (u32 \<times> 's) result" and inv left loops +
  assumes flag_loops: "{0, 1} \<subseteq> loops"
    and get_flag: "inv s \<Longrightarrow> st \<in> loops \<Longrightarrow> get st s = Inr (v, s') \<Longrightarrow> left s' < left s \<or> v AND 127 \<noteq> 0"
begin

lemma or_zero: "(a OR b :: u32) = 0 \<longleftrightarrow> a = 0 \<and> b = 0"
  by (auto simp: bit_eq_iff bit_simps)

lemma get_run_shortens:
  "inv s \<Longrightarrow> st \<in> loops \<Longrightarrow> returns (\<lambda>(v, s'). left s' < left s \<or> v \<noteq> 0) (get_run get st n s)"
proof (induction "left s" arbitrary: s n rule: less_induct)
  case less
  show ?case
  proof (cases "get st s")
    case (Inl e)
    then show ?thesis by (subst get_run.simps) simp
  next
    case (Inr r)
    obtain v s1 where r: "r = (v, s1)" by force
    have s1: "inv s1" "left s1 \<le> left s" "left s1 < left s \<or> v AND 128 = 0" "left s1 < left s \<or> v AND 127 \<noteq> 0"
      using get_inv get_ends get_flag less.prems Inr r by blast+
    have "returns (\<lambda>(v, s'). left s' < left s \<or> v \<noteq> 0) (get_run get st m s1)" if "left s1 < left s" for m
      by (rule returns_mono [OF less.hyps [OF that s1(1) less.prems(2)]]) (use s1(2) in auto)
    then show ?thesis using Inr s1 by (subst get_run.simps) (auto simp: r or_zero)
  qed
qed

lemma decode_run_returns:
  assumes "inv s"
  shows "returns (\<lambda>(v, s'). inv s' \<and> (left s' < left s \<or> v \<noteq> 0)) (decode_run get symbol s)"
proof -
  have st: "flag_state symbol \<in> loops" using flag_loops by (auto simp: flag_state_def)
  show ?thesis
    using get_run_returns [OF assms st, of 0] get_run_shortens [OF assms st, of 0]
    unfolding decode_run_def returns_def by fastforce
qed

lemma next_run_returns: "inv s \<Longrightarrow> returns (\<lambda>(v, s'). inv s') (next_run get symbol n s)"
proof (induction "if n = 0 then Suc (left s) else 0" arbitrary: s n symbol rule: less_induct)
  case less
  show ?case
  proof (cases "n = 0")
    case False
    with less.prems show ?thesis by (subst next_run.simps) simp
  next
    case True
    obtain x where x: "decode_run get (\<not> symbol) s = Some x"
      "\<forall>v s'. x = Inr (v, s') \<longrightarrow> inv s' \<and> (left s' < left s \<or> v \<noteq> 0)"
      using decode_run_returns [OF less.prems, of "\<not> symbol"] by (auto simp: returns_def)
    show ?thesis
    proof (cases x)
      case (Inl e)
      with True x(1) show ?thesis by (subst next_run.simps) simp
    next
      case (Inr r)
      obtain m s1 where r: "r = (m, s1)" by force
      have s1: "inv s1" "left s1 < left s \<or> m \<noteq> 0" using x(2) Inr r by auto
      have "(if m = 0 then Suc (left s1) else 0) < (if n = 0 then Suc (left s) else 0)" using True s1(2) by auto
      from less.hyps [OF this s1(1), of "\<not> symbol"] True x(1) Inr r show ?thesis
        by (subst next_run.simps) simp
    qed
  qed
qed

lemma flag_pop_returns: "inv (fp_source s) \<Longrightarrow> returns (\<lambda>(v, s'). inv (fp_source s')) (flag_pop get s)"
  unfolding flag_pop_def by (rule returns_bind [OF next_run_returns]) auto

lemma flag_pixels_return:
  fixes q :: "'d \<Rightarrow> 's flag_parse" and f :: "nat \<times> nat \<Rightarrow> 'd \<Rightarrow> ('e \<times> 'd) run"
  assumes "inv (fp_source s)" and "\<And>p s. inv (fp_source (q s)) \<Longrightarrow> returns (\<lambda>(v, s'). inv (fp_source (q s'))) (f p s)"
    and "q c = s"
  shows "returns (\<lambda>(c, b). inv (fp_source (q c))) (scan_pixels f ps (c, b))"
  unfolding scan_pixels_def
proof (rule returns_fold)
  fix p :: "nat \<times> nat" and cb :: "'d \<times> 'e surface_builder"
  assume cb: "(\<lambda>(c, b). inv (fp_source (q c))) cb"
  obtain c b where cb': "cb = (c, b)" by force
  have c: "inv (fp_source (q c))" using cb cb' by simp
  show "returns (\<lambda>(c, b). inv (fp_source (q c))) ((\<lambda>(c, b).
      run_bind (f p c) (\<lambda>(v, c).
      run_bind (Some (surface_write (fst p) (snd p) v b)) (\<lambda>b. Some (Inr (c, b))))) cb)"
    unfolding cb' prod.case
    by (rule returns_bind [OF assms(2) [OF c]])
      (auto intro!: returns_bind [OF returns_result [where P = "\<lambda>_. True"]])
qed (use assms in simp)

lemma temporal_tiles_return:
  assumes "inv (fp_source s)"
  shows "returns (\<lambda>(s', b). inv (fp_source s')) (fold_run (temporal_tile_pixels get reduced d w h) os (s, b))"
proof (rule returns_fold)
  fix origin :: "nat \<times> nat" and cb :: "'s flag_parse \<times> u8 surface_builder"
  assume cb: "(\<lambda>(s', b). inv (fp_source s')) cb"
  obtain t b where cb': "cb = (t, b)" by force
  have t: "inv (fp_source t)" using cb cb' by simp
  have "returns (\<lambda>(c, b). inv (fp_source (snd c)))
      (scan_pixels (temporal_pixel get reduced origin) (tile_raster d w h (fst origin) (snd origin)) ((False, t), b))"
    by (rule flag_pixels_return [OF t, of snd])
      (auto simp: temporal_pixel_def intro!: returns_bind [OF flag_pop_returns])
  then show "returns (\<lambda>(s', b). inv (fp_source s')) (temporal_tile_pixels get reduced d w h origin cb)"
    unfolding cb' temporal_tile_pixels_def prod.case by (rule returns_bind) auto
qed (use assms in simp)

end

section \<open>The providers: bytes, and codes\<close>

lemma unpacker_byte_left: "unpacker_byte b = Inr (v, b') \<Longrightarrow> up_remaining_bits b' < up_remaining_bits b"
  by (auto simp: unpacker_byte_def up_remaining_bits_def up_bit_size_def Let_def)

lemma unpacker_u_left:
  assumes "unpacker_u b n = Inr (v, b')"
  shows "up_remaining_bits b' + n = up_remaining_bits b"
proof -
  from assms have n: "n \<le> 32" "up_bit_offset b + n \<le> up_bit_size b" "unpacker_loop b n 0 = (v, b')"
    by (auto simp: unpacker_u_def)
  then have "b' = b\<lparr>up_bit_offset := up_bit_offset b + n\<rparr>"
    using unpacker_loop_spec(2) [of n b 0 0] by simp
  with n(2) show ?thesis by (simp add: up_remaining_bits_def up_bit_size_def)
qed

lemma code_bits_left: "code_bits n code b = Inr (v, b') \<Longrightarrow> up_remaining_bits b' + n = up_remaining_bits b"
proof (induction n arbitrary: code b)
  case (Suc n)
  then obtain w b1 where "unpacker_u b 1 = Inr (w, b1)" "code_bits n (push_bit 1 code OR w) b1 = Inr (v, b')"
    by (auto simp: rbind_eq_Inr)
  with Suc.IH unpacker_u_left [of b 1 w b1] show ?case by fastforce
qed simp

lemma scan_codes_left:
  "scan_codes cs bits code b = Inr (s, cs', b') \<Longrightarrow>
     up_remaining_bits b' \<le> up_remaining_bits b \<and> map dc_bits cs' = map dc_bits cs"
proof (induction cs arbitrary: bits code b cs')
  case (Cons c cs)
  from Cons.prems obtain w b1 where w: "code_bits (dc_bits c - bits) code b = Inr (w, b1)"
    "(if w = word_of_nat (dc_value c) then Inr (dc_symbol c, c\<lparr>dc_count := dc_count c + 1\<rparr> # cs, b1)
      else rbind (scan_codes cs (max bits (dc_bits c)) w b1) (\<lambda>(s, cs, r). Inr (s, c # cs, r))) = Inr (s, cs', b')"
    by (auto simp: rbind_eq_Inr)
  have left: "up_remaining_bits b1 \<le> up_remaining_bits b" using code_bits_left [OF w(1)] by linarith
  show ?case
  proof (cases "w = word_of_nat (dc_value c)")
    case True
    with w(2) left show ?thesis by auto
  next
    case False
    with w(2) obtain cs1 where "scan_codes cs (max bits (dc_bits c)) w b1 = Inr (s, cs1, b')" "cs' = c # cs1"
      by (auto simp: rbind_eq_Inr)
    with Cons.IH [OF this(1)] left show ?thesis by auto
  qed
qed simp

text \<open>A table that takes at least one bit for every symbol.\<close>

definition takes_bits :: "huffman_decoder \<Rightarrow> bool" where
  "takes_bits d \<longleftrightarrow> dec_codes d \<noteq> [] \<and> 0 < dc_bits (hd (dec_codes d))"

lemma scan_codes_shorter:
  assumes "scan_codes cs 0 0 b = Inr (s, cs', b')" and "cs \<noteq> []" and "0 < dc_bits (hd cs)"
  shows "up_remaining_bits b' < up_remaining_bits b"
proof -
  obtain c ds where cs: "cs = c # ds" using assms(2) by (cases cs) auto
  from assms(1) obtain w b1 where w: "code_bits (dc_bits c) 0 b = Inr (w, b1)"
    "(if w = word_of_nat (dc_value c) then Inr (dc_symbol c, c\<lparr>dc_count := dc_count c + 1\<rparr> # ds, b1)
      else rbind (scan_codes ds (max 0 (dc_bits c)) w b1) (\<lambda>(s, cs, r). Inr (s, c # cs, r))) = Inr (s, cs', b')"
    by (auto simp: cs rbind_eq_Inr)
  have "up_remaining_bits b1 < up_remaining_bits b" using code_bits_left [OF w(1)] assms(3) by (simp add: cs)
  moreover have "up_remaining_bits b' \<le> up_remaining_bits b1"
    using w(2) scan_codes_left by (fastforce simp: rbind_eq_Inr split: if_splits)
  ultimately show ?thesis by linarith
qed

lemma decode_symbol_left:
  assumes "decode_symbol d b = Inr (s, d', b')"
  shows "up_remaining_bits b' \<le> up_remaining_bits b" and "takes_bits d' \<longleftrightarrow> takes_bits d"
    and "takes_bits d \<Longrightarrow> up_remaining_bits b' < up_remaining_bits b"
    and "dec_codes d = [] \<Longrightarrow> d' = d \<and> s = single_symbol d"
    and "dec_codes d' = [] \<longleftrightarrow> dec_codes d = []"
proof -
  show "up_remaining_bits b' \<le> up_remaining_bits b"
    using assms by (auto simp: decode_symbol_def rbind_eq_Inr dest: scan_codes_left split: if_splits)
  have hd_bits: "cs \<noteq> [] \<and> dc_bits (hd cs) = dc_bits (hd cs')" if "map dc_bits cs = map dc_bits cs'" "cs' \<noteq> []" for cs cs'
    using that by (cases cs; cases cs') simp_all
  show "takes_bits d' \<longleftrightarrow> takes_bits d"
    using assms by (auto simp: decode_symbol_def takes_bits_def rbind_eq_Inr
        dest!: scan_codes_left hd_bits split: if_splits)
  show "takes_bits d \<Longrightarrow> up_remaining_bits b' < up_remaining_bits b"
    using assms by (auto simp: decode_symbol_def takes_bits_def rbind_eq_Inr dest: scan_codes_shorter)
  show "dec_codes d = [] \<Longrightarrow> d' = d \<and> s = single_symbol d"
    using assms by (auto simp: decode_symbol_def)
  show "dec_codes d' = [] \<longleftrightarrow> dec_codes d = []"
    using assms by (auto simp: decode_symbol_def rbind_eq_Inr dest!: scan_codes_left split: if_splits)
qed

text \<open>
  A table in whose state a run ends: it takes bits, or has a single symbol without the
  continuation bit. The runs of flags must also not be empty for ever.
\<close>

definition run_ends :: "huffman_decoder \<Rightarrow> bool" where
  "run_ends d \<longleftrightarrow> takes_bits d \<or> dec_codes d = [] \<and> (word_of_nat (single_symbol d) :: u32) AND 128 = 0"

definition flag_run_ends :: "huffman_decoder \<Rightarrow> bool" where
  "flag_run_ends d \<longleftrightarrow> run_ends d \<and> (takes_bits d \<or> (word_of_nat (single_symbol d) :: u32) AND 127 \<noteq> 0)"

lemma ends_decode_symbol:
  assumes "decode_symbol d b = Inr (s, d', b')"
  shows "run_ends d' \<longleftrightarrow> run_ends d" and "flag_run_ends d' \<longleftrightarrow> flag_run_ends d"
  using decode_symbol_left(2,4,5) [OF assms] by (auto simp: run_ends_def flag_run_ends_def takes_bits_def)

definition raw_source :: "source_state \<Rightarrow> bool" where
  "raw_source s \<longleftrightarrow> fst s = Source_Raw"

definition huffman_source :: "(nat \<Rightarrow> huffman_decoder \<Rightarrow> bool) \<Rightarrow> source_state \<Rightarrow> bool" where
  "huffman_source P s \<longleftrightarrow> (\<exists>ds. fst s = Source_Huffman ds \<and> (\<forall>i < length ds. P i (ds ! i)))"

abbreviation source_left :: "source_state \<Rightarrow> nat" where
  "source_left s \<equiv> up_remaining_bits (snd s)"

lemma raw_get:
  assumes "raw_source s" and "source_get st s = Inr (v, s')"
  shows "raw_source s' \<and> source_left s' < source_left s"
  using assms by (cases s) (auto simp: raw_source_def rbind_eq_Inr dest: unpacker_byte_left)

interpretation raw_ends: flag_source source_get raw_source source_left UNIV
  by unfold_locales (use raw_get in \<open>fastforce+\<close>)

lemma huffman_get:
  assumes "huffman_source P s" and "source_get st s = Inr (v, s')"
    and "\<And>i d b w d' b'. decode_symbol d b = Inr (w, d', b') \<Longrightarrow> P i d' \<longleftrightarrow> P i d"
  obtains ds b w d' b' where "s = (Source_Huffman ds, b)" and "P st (ds ! st)" and "v = word_of_nat w"
    and "decode_symbol (ds ! st) b = Inr (w, d', b')" and "s' = (Source_Huffman (ds[st := d']), b')"
    and "huffman_source P s'"
proof -
  obtain ds b where s: "s = (Source_Huffman ds, b)" and P: "\<forall>i < length ds. P i (ds ! i)"
    using assms(1) by (cases s) (auto simp: huffman_source_def)
  from assms(2) obtain w d' b' where d: "st < length ds" "decode_symbol (ds ! st) b = Inr (w, d', b')"
    "v = word_of_nat w" "s' = (Source_Huffman (ds[st := d']), b')"
    by (auto simp: s rbind_eq_Inr assert_that_def split: if_splits)
  have "P st d'" using assms(3) [OF d(2), of st] P d(1) by simp
  then have "huffman_source P s'" using P d(1) by (simp add: huffman_source_def d(4) nth_list_update)
  with s P d that show thesis by blast
qed

abbreviation zeros_end :: "nat \<Rightarrow> huffman_decoder \<Rightarrow> bool" where
  "zeros_end i d \<equiv> (i = state_zero \<longrightarrow> run_ends d)"

interpretation zeros_ends: ending_source source_get "huffman_source zeros_end" source_left "{state_zero}"
proof unfold_locales
  fix s st v s' assume s: "huffman_source zeros_end s" "source_get st s = Inr (v, s')"
  from s obtain ds b w d' b' where d: "s = (Source_Huffman ds, b)" "zeros_end st (ds ! st)" "v = word_of_nat w"
    "decode_symbol (ds ! st) b = Inr (w, d', b')" "s' = (Source_Huffman (ds[st := d']), b')" "huffman_source zeros_end s'"
    by (rule huffman_get) (simp_all add: ends_decode_symbol)
  show "huffman_source zeros_end s' \<and> source_left s' \<le> source_left s"
    using d(6) decode_symbol_left(1) [OF d(4)] by (simp add: d(1,5))
  show "source_left s' < source_left s \<or> v AND 128 = 0" if "st \<in> {state_zero}"
    using that d(2) decode_symbol_left(3,4) [OF d(4)] by (auto simp: run_ends_def d(1,3,5))
qed

abbreviation flags_end :: "nat \<Rightarrow> huffman_decoder \<Rightarrow> bool" where
  "flags_end i d \<equiv> flag_run_ends d"

interpretation flags_ends: flag_source source_get "huffman_source flags_end" source_left UNIV
proof unfold_locales
  fix s st v s' assume s: "huffman_source flags_end s" "source_get st s = Inr (v, s')"
  from s obtain ds b w d' b' where d: "s = (Source_Huffman ds, b)" "flag_run_ends (ds ! st)" "v = word_of_nat w"
    "decode_symbol (ds ! st) b = Inr (w, d', b')" "s' = (Source_Huffman (ds[st := d']), b')" "huffman_source flags_end s'"
    by (rule huffman_get) (simp_all add: ends_decode_symbol)
  show "huffman_source flags_end s' \<and> source_left s' \<le> source_left s"
    using d(6) decode_symbol_left(1) [OF d(4)] by (simp add: d(1,5))
  show "source_left s' < source_left s \<or> v AND 128 = 0"
    using d(2) decode_symbol_left(3,4) [OF d(4)] by (auto simp: run_ends_def flag_run_ends_def d(1,3,5))
  show "source_left s' < source_left s \<or> v AND 127 \<noteq> 0"
    using d(2) decode_symbol_left(3,4) [OF d(4)] by (auto simp: run_ends_def flag_run_ends_def d(1,3,5))
qed simp

section \<open>The decoders\<close>

lemma constant_pixels_return:
  "returns (\<lambda>((zeros, s'), dest). s' = (Source_Constant 64, b))
     (scan_pixels (residual_pixel source_get) ps ((z, (Source_Constant 64, b)), dest))"
  unfolding scan_pixels_def
proof (rule returns_fold)
  fix p and c :: "(u32 \<times> source_state) \<times> int surface_builder"
  assume c: "(\<lambda>((zeros, s'), dest). s' = (Source_Constant 64, b)) c"
  obtain zeros dest where c': "c = ((zeros, (Source_Constant 64, b)), dest)" using c by (cases c) auto
  have "returns (\<lambda>(v, zeros, s'). s' = (Source_Constant 64, b)) (residual_pixel source_get p (zeros, (Source_Constant 64, b)))"
    by (simp add: residual_pixel_def decode_pel_def)
  then show "returns (\<lambda>((zeros, s'), dest). s' = (Source_Constant 64, b)) ((\<lambda>(c, dest).
      run_bind (residual_pixel source_get p c) (\<lambda>(v, c).
      run_bind (Some (surface_write (fst p) (snd p) v dest)) (\<lambda>dest. Some (Inr (c, dest))))) c)"
    unfolding c' prod.case
    by (rule returns_bind) (auto intro!: returns_bind [OF returns_result [where P = "\<lambda>_. True"]])
qed simp

lemma residuals_scan_returns:
  assumes "entropy_enabled \<Longrightarrow> returns (\<lambda>s. raw_source s \<or> huffman_source zeros_end s)
      (Some (source_start (create_symbol_source 3 True rle_only b 64)))"
  shows "returns (\<lambda>_. True) (decode_residuals_scan ps rows w h entropy_enabled rle_only b)"
proof -
  have any: "returns (\<lambda>_. True) (Some r)" for r :: "'x result" by (rule returns_result) simp
  have pixels: "returns (\<lambda>_. True) (scan_pixels (residual_pixel source_get) ps ((0, s), surface_reserve w h))"
    if "raw_source s \<or> huffman_source zeros_end s \<or> s = (Source_Constant 64, b)" for s
    using that raw_ends.residual_pixels_return [of s ps 0 "surface_reserve w h"]
      zeros_ends.residual_pixels_return [of s ps 0 "surface_reserve w h"]
      constant_pixels_return [of b ps 0 "surface_reserve w h"]
    by (auto simp: returns_def)
  have "returns (\<lambda>s. raw_source s \<or> huffman_source zeros_end s \<or> s = (Source_Constant 64, b))
      (Some (source_start (create_symbol_source 3 entropy_enabled rle_only b 64)))"
    using assms by (cases entropy_enabled) (auto simp: returns_def create_symbol_source_def)
  then show ?thesis unfolding decode_residuals_scan_def
    by (rule returns_bind)
      (auto intro!: returns_bind [OF any] returns_bind [OF pixels])
qed

lemma flag_start_returns:
  assumes "returns (\<lambda>s. raw_source s \<or> huffman_source flags_end s) (Some (source_start s))"
  shows "returns (\<lambda>s. raw_source (fp_source s) \<or> huffman_source flags_end (fp_source s)) (flag_start s)"
  unfolding flag_start_def
proof (rule returns_bind [OF assms])
  fix s assume s: "raw_source s \<or> huffman_source flags_end s"
  let ?P = "\<lambda>s. raw_source s \<or> huffman_source flags_end s"
  have byte: "returns (\<lambda>(v, s'). ?P s') (Some (source_get_byte s))"
    using s by (cases s) (auto simp: raw_source_def huffman_source_def rbind_eq_Inr intro!: returns_result)
  have run: "returns (\<lambda>(n, s'). ?P s') (decode_run source_get v t)" if "?P t" for v t
    using that raw_ends.decode_run_returns [of t v] flags_ends.decode_run_returns [of t v]
    by (auto simp: returns_def)
  show "returns (\<lambda>s. ?P (fp_source s))
      (run_bind (Some (source_get_byte s)) (\<lambda>(v, s).
       run_bind (decode_run source_get (v \<noteq> 0) s) (\<lambda>(n, s).
       Some (Inr \<lparr>fp_symbol = (v \<noteq> 0), fp_count = n, fp_source = s\<rparr>))))"
    by (rule returns_bind [OF byte]) (auto intro!: returns_bind [OF run])
qed

lemma temporal_returns:
  assumes "returns (\<lambda>s. raw_source s \<or> huffman_source flags_end s)
      (Some (source_start (create_symbol_source 2 True rle_only b 0)))"
  shows "returns (\<lambda>_. True) (decode_temporal w h entropy_enabled rle_only b tbs reduced)"
proof -
  have any: "returns (\<lambda>_. True) (Some r)" for r :: "'x result" by (rule returns_result) simp
  have tiles: "returns (\<lambda>_. True) (fold_run (temporal_tile_pixels source_get reduced d w h) os (s, dest))"
    if "raw_source (fp_source s) \<or> huffman_source flags_end (fp_source s)" for s d os dest
    using that raw_ends.temporal_tiles_return [of s reduced d w h os dest]
      flags_ends.temporal_tiles_return [of s reduced d w h os dest]
    by (auto simp: returns_def)
  show ?thesis
    using flag_start_returns [OF assms]
    by (auto simp: decode_temporal_def Let_def intro!: returns_bind [OF any] returns_bind [OF tiles] elim!: returns_bind)
qed

lemma flags_returns:
  "returns (\<lambda>_. True) (decode_flags w h b)"
proof -
  have any: "returns (\<lambda>_. True) (Some r)" for r :: "'x result" by (rule returns_result) simp
  have start: "returns (\<lambda>s. raw_source (fp_source s) \<or> huffman_source flags_end (fp_source s))
      (flag_start (create_symbol_source 2 True True b 0))"
    by (rule flag_start_returns) (simp add: create_symbol_source_def raw_source_def)
  have pixels: "returns (\<lambda>_. True) (scan_pixels (flags_pixel source_get) ps (s, dest))"
    if "raw_source (fp_source s) \<or> huffman_source flags_end (fp_source s)" for s ps dest
  proof -
    have raw: "returns (\<lambda>(v, s'). raw_source (fp_source s')) (flags_pixel source_get p t)"
      if "raw_source (fp_source t)" for p t
      using raw_ends.flag_pop_returns [OF that] unfolding flags_pixel_def by (rule returns_bind) auto
    have huff: "returns (\<lambda>(v, s'). huffman_source flags_end (fp_source s')) (flags_pixel source_get p t)"
      if "huffman_source flags_end (fp_source t)" for p t
      using flags_ends.flag_pop_returns [OF that] unfolding flags_pixel_def by (rule returns_bind) auto
    show ?thesis
      using that raw_ends.flag_pixels_return [of s id "flags_pixel source_get" s ps dest]
        flags_ends.flag_pixels_return [of s id "flags_pixel source_get" s ps dest] raw huff
      by (auto simp: returns_def)
  qed
  show ?thesis unfolding decode_flags_def
    by (rule returns_bind [OF start]) (auto intro!: returns_bind [OF any] returns_bind [OF pixels])
qed

text \<open>
  C17: whatever the bytes of a raw packet, every decoder of residuals, temporal masks and flags
  returns: with a surface, or with an error when the packet is too short.
\<close>

theorem raw_decoders_return:
  "decode_residuals w h entropy_enabled True b \<noteq> None \<and>
   decode_residuals_tiled w h entropy_enabled True b tbs \<noteq> None \<and>
   decode_temporal w h entropy_enabled True b tbs reduced \<noteq> None \<and> decode_flags w h b \<noteq> None"
proof -
  have "returns (\<lambda>s. raw_source s \<or> huffman_source zeros_end s) (Some (source_start (create_symbol_source 3 True True b 64)))"
    by (simp add: create_symbol_source_def raw_source_def)
  note residuals = residuals_scan_returns [OF this]
  have "returns (\<lambda>s. raw_source s \<or> huffman_source flags_end s) (Some (source_start (create_symbol_source 2 True True b 0)))"
    by (simp add: create_symbol_source_def raw_source_def)
  note temporal = temporal_returns [OF this]
  show ?thesis
    unfolding decode_residuals_def decode_residuals_tiled_def
    using returns_not_None [OF residuals] returns_not_None [OF temporal] returns_not_None [OF flags_returns]
    by (intro conjI) (simp_all split: if_split)
qed

text \<open>
  C18: a prefix coded packet with tables in which runs end (every symbol takes a bit, or the only
  symbol of the table ends its run) is decoded in finite time: residuals need it of the table of
  zero runs, temporal masks of both tables.
\<close>

theorem prefix_decoders_return:
  assumes "\<And>ds b'. start_tables (replicate 3 decoder_new) b = Inr (ds, b') \<Longrightarrow> run_ends (ds ! 2)"
    and "\<And>ds b'. start_tables (replicate 2 decoder_new) c = Inr (ds, b') \<Longrightarrow> list_all flag_run_ends ds"
  shows "decode_residuals w h True False b \<noteq> None \<and> decode_residuals_tiled w h True False b tbs \<noteq> None \<and>
    decode_temporal w h True False c tbs reduced \<noteq> None"
proof -
  have "returns (\<lambda>s. raw_source s \<or> huffman_source zeros_end s) (Some (source_start (create_symbol_source 3 True False b 64)))"
    by (rule returns_result)
      (auto simp: create_symbol_source_def huffman_source_def rbind_eq_Inr dest: assms(1))
  note residuals = residuals_scan_returns [OF this]
  have "returns (\<lambda>s. raw_source s \<or> huffman_source flags_end s) (Some (source_start (create_symbol_source 2 True False c 0)))"
    by (rule returns_result)
      (fastforce simp: create_symbol_source_def huffman_source_def rbind_eq_Inr list_all_length dest: assms(2))
  note temporal = temporal_returns [OF this]
  show ?thesis
    unfolding decode_residuals_def decode_residuals_tiled_def
    using returns_not_None [OF residuals] returns_not_None [OF temporal]
    by (intro conjI) (simp_all split: if_split)
qed

text \<open>Tables with the single symbol 1: a run of one.\<close>

lemma sample_tables:
  "start_tables (replicate 3 decoder_new) \<lparr>up_view = [0, 0, 127, 240, 0, 4], up_bit_offset = 0\<rparr> =
     Inr ([decoder_new\<lparr>single_symbol := 1\<rparr>, decoder_new, decoder_new\<lparr>single_symbol := 1\<rparr>],
       \<lparr>up_view = [0, 0, 127, 240, 0, 4], up_bit_offset = 46\<rparr>)"
  "start_tables (replicate 2 decoder_new) \<lparr>up_view = [0, 0, 64, 0, 16], up_bit_offset = 0\<rparr> =
     Inr ([decoder_new\<lparr>single_symbol := 1\<rparr>, decoder_new\<lparr>single_symbol := 1\<rparr>],
       \<lparr>up_view = [0, 0, 64, 0, 16], up_bit_offset = 36\<rparr>)"
  by code_simp+

theorem prefix_decoders_return_witness:
  "decode_residuals 3 2 True False \<lparr>up_view = [0, 0, 127, 240, 0, 4], up_bit_offset = 0\<rparr> \<noteq> None \<and>
   decode_temporal 3 2 True False \<lparr>up_view = [0, 0, 64, 0, 16], up_bit_offset = 0\<rparr> 4 True \<noteq> None"
proof -
  have "run_ends (decoder_new\<lparr>single_symbol := 1\<rparr>)" "flag_run_ends (decoder_new\<lparr>single_symbol := 1\<rparr>)"
    by (simp_all add: run_ends_def flag_run_ends_def decoder_new_def)
  then show ?thesis
    using prefix_decoders_return [where b = "\<lparr>up_view = [0, 0, 127, 240, 0, 4], up_bit_offset = 0\<rparr>" and
        c = "\<lparr>up_view = [0, 0, 64, 0, 16], up_bit_offset = 0\<rparr>" and w = 3 and h = 2 and tbs = 4 and reduced = True]
    by (simp add: sample_tables del: start_tables.simps)
qed

section \<open>A table that does not end its runs\<close>

text \<open>\<open>get_run\<close> does not return when no symbol changes the source and all of them continue the run.\<close>

lemma get_run_endless:
  assumes "get st s = Inr (v, s)" and "v AND 128 \<noteq> 0"
  shows "get_run get st n s = None"
proof -
  have "g = get \<longrightarrow> st' = st \<longrightarrow> s' = s \<longrightarrow> False" if "get_run g st' n s' = Some y" for g st' n s' y
  proof (rule get_run.raw_induct [OF _ that])
    fix gr g st' n s' y
    assume IH: "\<And>g st' n s' y. gr g st' n s' = Some y \<Longrightarrow> g = get \<longrightarrow> st' = st \<longrightarrow> s' = s \<longrightarrow> False"
      and "(case g st' s' of Inl e \<Rightarrow> Some (Inl e)
         | Inr (symbol, s1) \<Rightarrow> if symbol AND 128 \<noteq> 0 then gr g st' (push_bit 7 n OR symbol AND 127) s1
             else Some (Inr (push_bit 7 n OR symbol AND 127, s1))) = Some y"
    with assms show "g = get \<longrightarrow> st' = st \<longrightarrow> s' = s \<longrightarrow> False" by (auto dest: IH)
  qed
  then show ?thesis by (cases "get_run get st n s") blast+
qed

text \<open>
  Six bytes that hold three tables: a single symbol 128 for the low bytes, no symbol for the high
  bytes, a single symbol 128 for the runs of zeros.
\<close>

definition endless_packet :: "u8 list" where
  "endless_packet = [0, 32, 63, 240, 2, 0]"

definition endless_tables :: "huffman_decoder list" where
  "endless_tables = [decoder_new\<lparr>single_symbol := 128\<rparr>, decoder_new, decoder_new\<lparr>single_symbol := 128\<rparr>]"

lemma endless_start:
  "start_tables (replicate 3 decoder_new) \<lparr>up_view = endless_packet, up_bit_offset = 0\<rparr> =
     Inr (endless_tables, \<lparr>up_view = endless_packet, up_bit_offset = 46\<rparr>)"
  by code_simp

text \<open>
  C19: the decoder of residuals does not return on that packet, for any surface with a pixel.
\<close>

theorem prefix_decoder_hangs:
  "decode_residuals (Suc w) (Suc h) True False \<lparr>up_view = endless_packet, up_bit_offset = 0\<rparr> = None"
proof -
  let ?s = "(Source_Huffman endless_tables, \<lparr>up_view = endless_packet, up_bit_offset = 46\<rparr>)"
  have get: "source_get st ?s = Inr (128, ?s)" if "st = 0 \<or> st = 2" for st
    using that by (auto simp: endless_tables_def decode_symbol_def decoder_new_def)
  have "decode_pel source_get ?s = None"
    by (simp add: decode_pel_def get get_run_endless [of source_get 2 ?s 128, OF get] del: source_get.simps)
  then have "scan_pixels (residual_pixel source_get) ((0, 0) # ps) ((0, ?s), dest) = None" for ps dest
    by (simp add: scan_pixels_def residual_pixel_def)
  moreover obtain ps where "raster (Suc w) (Suc h) = (0, 0) # ps" using raster_Cons [of "Suc w" "Suc h"] by auto
  ultimately show ?thesis
    by (simp add: decode_residuals_def decode_residuals_scan_def create_symbol_source_def endless_start row_pointers_def)
qed

end
