(* ===== verification/LayerEncodeFlags.thy ===== *)
theory LayerEncodeFlags
  imports Prelude
begin

text \<open>
  encoder/src/LayerEncodeFlags.cpp: which layers of a transform are encoded, by encoding mode.
\<close>

datatype transform_type = TransformType_DD | TransformType_DDS

datatype encoding_mode = ENCODE_ALL | Ax | AA | NA | ENCODE_NONE

record layer_encode_flags =
  ef_transform_type :: transform_type
  ef_encoding_mode :: encoding_mode
  ef_bits :: "bool list"

definition encode_bits_dd :: "encoding_mode \<Rightarrow> bool list result" where
  "encode_bits_dd enc_mode =
     rbind (assert_that (enc_mode \<noteq> AA)) (\<lambda>_.
     let flags = replicate 4 False in
     Inr (case enc_mode of
            ENCODE_ALL \<Rightarrow> fold (\<lambda>i flags. flags[i := True]) [0..<4] flags
          | Ax \<Rightarrow> flags[0 := True]
          | ENCODE_NONE \<Rightarrow> replicate 4 False
          | _ \<Rightarrow> flags))"

definition encode_bits_dds :: "encoding_mode \<Rightarrow> bool list" where
  "encode_bits_dds enc_mode =
     (let flags = replicate 16 False in
      case enc_mode of
        ENCODE_ALL \<Rightarrow> fold (\<lambda>i flags. flags[i := True]) [0..<16] flags
      | Ax \<Rightarrow> flags[0 := True, 1 := True, 2 := True, 3 := True]
      | AA \<Rightarrow> flags[0 := True]
      | NA \<Rightarrow> flags[1 := True, 2 := True, 3 := True]
      | ENCODE_NONE \<Rightarrow> replicate 16 False)"

definition layer_encode_flags :: "transform_type \<Rightarrow> encoding_mode \<Rightarrow> layer_encode_flags result" where
  "layer_encode_flags t enc_mode =
     rbind (case t of TransformType_DD \<Rightarrow> encode_bits_dd enc_mode | TransformType_DDS \<Rightarrow> Inr (encode_bits_dds enc_mode)) (\<lambda>bits.
     Inr \<lparr>ef_transform_type = t, ef_encoding_mode = enc_mode, ef_bits = bits\<rparr>)"

definition flags_size :: "layer_encode_flags \<Rightarrow> nat" where
  "flags_size f = length (ef_bits f)"

definition encode_residual :: "layer_encode_flags \<Rightarrow> nat \<Rightarrow> bool result" where
  "encode_residual f layer =
     rbind (assert_that (layer < flags_size f)) (\<lambda>_. Inr (ef_bits f ! layer))"

lemma flags_all:
  "layer_encode_flags t ENCODE_ALL = Inr f \<Longrightarrow>
     ef_bits f = replicate (case t of TransformType_DD \<Rightarrow> 4 | TransformType_DDS \<Rightarrow> 16) True"
  by (cases t) (auto simp: layer_encode_flags_def encode_bits_dd_def encode_bits_dds_def upt_rec numeral_nat)

lemma flags_all_DD: "\<exists>f. layer_encode_flags TransformType_DD ENCODE_ALL = Inr f \<and> ef_bits f = replicate 4 True"
  and flags_all_DDS: "\<exists>f. layer_encode_flags TransformType_DDS ENCODE_ALL = Inr f \<and> ef_bits f = replicate 16 True"
  using flags_all by (simp_all add: layer_encode_flags_def encode_bits_dd_def) (simp_all add: encode_bits_dds_def upt_rec numeral_nat)

end
