(* ===== verification/Transforms.thy ===== *)
theory Transforms
  imports PlaneLoops LayerEncodeFlags
begin

text \<open>
  The residual transforms. Forward: encoder/src/TransformDD.cpp, TransformDD_1D.cpp,
  TransformDDS.cpp (the unrolled sums of the optimised build) and TransformDDS_1D.cpp. Inverse:
  decoder/src/InverseTransformDD.cpp, InverseTransformDD_1D.cpp, InverseTransformDDS.cpp (again
  the unrolled sums) and InverseTransformDDS_1D.cpp. Residuals and coefficients are \<open>int16_t\<close>; sums
  of 16 of them stay within 32 bits, the conversion back is written out. Division is that of C++,
  towards zero.
\<close>

section \<open>Forward\<close>

text \<open>The \<open>n * n\<close> reads of a block, row by row.\<close>

definition block_reads :: "nat \<Rightarrow> int surface \<Rightarrow> nat \<Rightarrow> nat \<Rightarrow> int list result" where
  "block_reads n src x y = map_result (\<lambda>(i, j). surface_read src (x * n + i) (y * n + j)) (raster n n)"

definition dot :: "int list \<Rightarrow> int list \<Rightarrow> int" where
  "dot xs ys = sum_list (map2 (*) xs ys)"

text \<open>
  One surface per layer: a coefficient of each block, or zeros when the layer is not encoded.
\<close>

definition transform_layers ::
  "nat \<Rightarrow> (nat \<Rightarrow> int list \<Rightarrow> int) \<Rightarrow> layer_encode_flags \<Rightarrow> int surface \<Rightarrow> int surface list result" where
  "transform_layers n coef flags residuals =
     rbind (check_that (sf_width residuals AND (n - 1) = 0)) (\<lambda>_.
     rbind (check_that (sf_height residuals AND (n - 1) = 0)) (\<lambda>_.
     let width = sf_width residuals div n; height = sf_height residuals div n in
     map_result (\<lambda>l.
       rbind (encode_residual flags l) (\<lambda>enc.
       surface_build width height (\<lambda>x y.
         if enc then rbind (block_reads n residuals x y) (\<lambda>r. Inr (to_int16 (coef l r))) else Inr 0)))
       [0..<n * n]))"

definition dd_basis :: "int list list" where
  "dd_basis =
    [[1, 1, 1, 1],
     [1, - 1, 1, - 1],
     [1, 1, - 1, - 1],
     [1, - 1, - 1, 1]]"

definition dd_1d_basis :: "int list list" where
  "dd_1d_basis =
    [[2, 2, 0, 0],
     [1, - 1, 1, - 1],
     [1, - 1, - 1, 1],
     [0, 0, 2, 2]]"

definition dds_basis :: "int list list" where
  "dds_basis =
    [[1, 1, 1, 1, 1, 1, 1, 1, 1, 1, 1, 1, 1, 1, 1, 1],
     [1, 1, - 1, - 1, 1, 1, - 1, - 1, 1, 1, - 1, - 1, 1, 1, - 1, - 1],
     [1, 1, 1, 1, 1, 1, 1, 1, - 1, - 1, - 1, - 1, - 1, - 1, - 1, - 1],
     [1, 1, - 1, - 1, 1, 1, - 1, - 1, - 1, - 1, 1, 1, - 1, - 1, 1, 1],
     [1, - 1, 1, - 1, 1, - 1, 1, - 1, 1, - 1, 1, - 1, 1, - 1, 1, - 1],
     [1, - 1, - 1, 1, 1, - 1, - 1, 1, 1, - 1, - 1, 1, 1, - 1, - 1, 1],
     [1, - 1, 1, - 1, 1, - 1, 1, - 1, - 1, 1, - 1, 1, - 1, 1, - 1, 1],
     [1, - 1, - 1, 1, 1, - 1, - 1, 1, - 1, 1, 1, - 1, - 1, 1, 1, - 1],
     [1, 1, 1, 1, - 1, - 1, - 1, - 1, 1, 1, 1, 1, - 1, - 1, - 1, - 1],
     [1, 1, - 1, - 1, - 1, - 1, 1, 1, 1, 1, - 1, - 1, - 1, - 1, 1, 1],
     [1, 1, 1, 1, - 1, - 1, - 1, - 1, - 1, - 1, - 1, - 1, 1, 1, 1, 1],
     [1, 1, - 1, - 1, - 1, - 1, 1, 1, - 1, - 1, 1, 1, 1, 1, - 1, - 1],
     [1, - 1, 1, - 1, - 1, 1, - 1, 1, 1, - 1, 1, - 1, - 1, 1, - 1, 1],
     [1, - 1, - 1, 1, - 1, 1, 1, - 1, 1, - 1, - 1, 1, - 1, 1, 1, - 1],
     [1, - 1, 1, - 1, - 1, 1, - 1, 1, - 1, 1, - 1, 1, 1, - 1, 1, - 1],
     [1, - 1, - 1, 1, - 1, 1, 1, - 1, - 1, 1, 1, - 1, 1, - 1, - 1, 1]]"

definition dds_1d_basis :: "int list list" where
  "dds_1d_basis =
    [[2, 2, 2, 2, 0, 0, 0, 0, 2, 2, 2, 2, 0, 0, 0, 0],
     [2, 2, - 2, - 2, 0, 0, 0, 0, 2, 2, - 2, - 2, 0, 0, 0, 0],
     [2, 2, 2, 2, 0, 0, 0, 0, - 2, - 2, - 2, - 2, 0, 0, 0, 0],
     [2, 2, - 2, - 2, 0, 0, 0, 0, - 2, - 2, 2, 2, 0, 0, 0, 0],
     [1, - 1, 1, - 1, 1, - 1, 1, - 1, 1, - 1, 1, - 1, 1, - 1, 1, - 1],
     [1, - 1, - 1, 1, 1, - 1, - 1, 1, 1, - 1, - 1, 1, 1, - 1, - 1, 1],
     [1, - 1, 1, - 1, 1, - 1, 1, - 1, - 1, 1, - 1, 1, - 1, 1, - 1, 1],
     [1, - 1, - 1, 1, 1, - 1, - 1, 1, - 1, 1, 1, - 1, - 1, 1, 1, - 1],
     [0, 0, 0, 0, 2, 2, 2, 2, 0, 0, 0, 0, 2, 2, 2, 2],
     [0, 0, 0, 0, 2, 2, - 2, - 2, 0, 0, 0, 0, 2, 2, - 2, - 2],
     [0, 0, 0, 0, 2, 2, 2, 2, 0, 0, 0, 0, - 2, - 2, - 2, - 2],
     [0, 0, 0, 0, 2, 2, - 2, - 2, 0, 0, 0, 0, - 2, - 2, 2, 2],
     [1, - 1, 1, - 1, - 1, 1, - 1, 1, 1, - 1, 1, - 1, - 1, 1, - 1, 1],
     [1, - 1, - 1, 1, - 1, 1, 1, - 1, 1, - 1, - 1, 1, - 1, 1, 1, - 1],
     [1, - 1, 1, - 1, - 1, 1, - 1, 1, - 1, 1, - 1, 1, 1, - 1, 1, - 1],
     [1, - 1, - 1, 1, - 1, 1, 1, - 1, - 1, 1, 1, - 1, 1, - 1, - 1, 1]]"

definition transform_dd :: "int surface \<Rightarrow> encoding_mode \<Rightarrow> int surface list result" where
  "transform_dd residuals mode =
     rbind (layer_encode_flags TransformType_DD mode) (\<lambda>flags.
     transform_layers 2 (\<lambda>l r. dot r (dd_basis ! l) sdiv 4) flags residuals)"

definition transform_dd_1d :: "int surface \<Rightarrow> encoding_mode \<Rightarrow> int surface list result" where
  "transform_dd_1d residuals mode =
     rbind (layer_encode_flags TransformType_DD mode) (\<lambda>flags.
     transform_layers 2 (\<lambda>l r. dot r (dd_1d_basis ! l) sdiv 4) flags residuals)"

definition transform_dds_1d :: "int surface \<Rightarrow> encoding_mode \<Rightarrow> int surface list result" where
  "transform_dds_1d residuals mode =
     rbind (layer_encode_flags TransformType_DDS mode) (\<lambda>flags.
     transform_layers 4 (\<lambda>l r. dot r (dds_1d_basis ! l) sdiv 16) flags residuals)"

text \<open>
  The optimised build of \<open>TransformDDS\<close> has one sum per layer, written over
  \<open>src.read(h + i, k + j)\<close>; \<open>r i j\<close> is that value.
\<close>

definition dds_coef0 :: "(nat \<Rightarrow> nat \<Rightarrow> int) \<Rightarrow> int" where
  "dds_coef0 r =
     (r 0 0 + r 1 0 + r 2 0 + r 3 0 +
      r 0 1 + r 1 1 + r 2 1 + r 3 1 +
      r 0 2 + r 1 2 + r 2 2 + r 3 2 +
      r 0 3 + r 1 3 + r 2 3 + r 3 3) sdiv 16"

definition dds_coef1 :: "(nat \<Rightarrow> nat \<Rightarrow> int) \<Rightarrow> int" where
  "dds_coef1 r =
     (r 0 0 + r 1 0 - r 2 0 - r 3 0 +
      r 0 1 + r 1 1 - r 2 1 - r 3 1 +
      r 0 2 + r 1 2 - r 2 2 - r 3 2 +
      r 0 3 + r 1 3 - r 2 3 - r 3 3) sdiv 16"

definition dds_coef2 :: "(nat \<Rightarrow> nat \<Rightarrow> int) \<Rightarrow> int" where
  "dds_coef2 r =
     (r 0 0 + r 1 0 + r 2 0 + r 3 0 +
      r 0 1 + r 1 1 + r 2 1 + r 3 1 -
      r 0 2 - r 1 2 - r 2 2 - r 3 2 -
      r 0 3 - r 1 3 - r 2 3 - r 3 3) sdiv 16"

definition dds_coef3 :: "(nat \<Rightarrow> nat \<Rightarrow> int) \<Rightarrow> int" where
  "dds_coef3 r =
     (r 0 0 + r 1 0 - r 2 0 - r 3 0 +
      r 0 1 + r 1 1 - r 2 1 - r 3 1 -
      r 0 2 - r 1 2 + r 2 2 + r 3 2 -
      r 0 3 - r 1 3 + r 2 3 + r 3 3) sdiv 16"

definition dds_coef4 :: "(nat \<Rightarrow> nat \<Rightarrow> int) \<Rightarrow> int" where
  "dds_coef4 r =
     (r 0 0 - r 1 0 + r 2 0 - r 3 0 +
      r 0 1 - r 1 1 + r 2 1 - r 3 1 +
      r 0 2 - r 1 2 + r 2 2 - r 3 2 +
      r 0 3 - r 1 3 + r 2 3 - r 3 3) sdiv 16"

definition dds_coef5 :: "(nat \<Rightarrow> nat \<Rightarrow> int) \<Rightarrow> int" where
  "dds_coef5 r =
     (r 0 0 - r 1 0 - r 2 0 + r 3 0 +
      r 0 1 - r 1 1 - r 2 1 + r 3 1 +
      r 0 2 - r 1 2 - r 2 2 + r 3 2 +
      r 0 3 - r 1 3 - r 2 3 + r 3 3) sdiv 16"

definition dds_coef6 :: "(nat \<Rightarrow> nat \<Rightarrow> int) \<Rightarrow> int" where
  "dds_coef6 r =
     (r 0 0 - r 1 0 + r 2 0 - r 3 0 +
      r 0 1 - r 1 1 + r 2 1 - r 3 1 -
      r 0 2 + r 1 2 - r 2 2 + r 3 2 -
      r 0 3 + r 1 3 - r 2 3 + r 3 3) sdiv 16"

definition dds_coef7 :: "(nat \<Rightarrow> nat \<Rightarrow> int) \<Rightarrow> int" where
  "dds_coef7 r =
     (r 0 0 - r 1 0 - r 2 0 + r 3 0 +
      r 0 1 - r 1 1 - r 2 1 + r 3 1 -
      r 0 2 + r 1 2 + r 2 2 - r 3 2 -
      r 0 3 + r 1 3 + r 2 3 - r 3 3) sdiv 16"

definition dds_coef8 :: "(nat \<Rightarrow> nat \<Rightarrow> int) \<Rightarrow> int" where
  "dds_coef8 r =
     (r 0 0 + r 1 0 + r 2 0 + r 3 0 -
      r 0 1 - r 1 1 - r 2 1 - r 3 1 +
      r 0 2 + r 1 2 + r 2 2 + r 3 2 -
      r 0 3 - r 1 3 - r 2 3 - r 3 3) sdiv 16"

definition dds_coef9 :: "(nat \<Rightarrow> nat \<Rightarrow> int) \<Rightarrow> int" where
  "dds_coef9 r =
     (r 0 0 + r 1 0 - r 2 0 - r 3 0 -
      r 0 1 - r 1 1 + r 2 1 + r 3 1 +
      r 0 2 + r 1 2 - r 2 2 - r 3 2 -
      r 0 3 - r 1 3 + r 2 3 + r 3 3) sdiv 16"

definition dds_coef10 :: "(nat \<Rightarrow> nat \<Rightarrow> int) \<Rightarrow> int" where
  "dds_coef10 r =
     (r 0 0 + r 1 0 + r 2 0 + r 3 0 -
      r 0 1 - r 1 1 - r 2 1 - r 3 1 -
      r 0 2 - r 1 2 - r 2 2 - r 3 2 +
      r 0 3 + r 1 3 + r 2 3 + r 3 3) sdiv 16"

definition dds_coef11 :: "(nat \<Rightarrow> nat \<Rightarrow> int) \<Rightarrow> int" where
  "dds_coef11 r =
     (r 0 0 + r 1 0 - r 2 0 - r 3 0 -
      r 0 1 - r 1 1 + r 2 1 + r 3 1 -
      r 0 2 - r 1 2 + r 2 2 + r 3 2 +
      r 0 3 + r 1 3 - r 2 3 - r 3 3) sdiv 16"

definition dds_coef12 :: "(nat \<Rightarrow> nat \<Rightarrow> int) \<Rightarrow> int" where
  "dds_coef12 r =
     (r 0 0 - r 1 0 + r 2 0 - r 3 0 -
      r 0 1 + r 1 1 - r 2 1 + r 3 1 +
      r 0 2 - r 1 2 + r 2 2 - r 3 2 -
      r 0 3 + r 1 3 - r 2 3 + r 3 3) sdiv 16"

definition dds_coef13 :: "(nat \<Rightarrow> nat \<Rightarrow> int) \<Rightarrow> int" where
  "dds_coef13 r =
     (r 0 0 - r 1 0 - r 2 0 + r 3 0 -
      r 0 1 + r 1 1 + r 2 1 - r 3 1 +
      r 0 2 - r 1 2 - r 2 2 + r 3 2 -
      r 0 3 + r 1 3 + r 2 3 - r 3 3) sdiv 16"

definition dds_coef14 :: "(nat \<Rightarrow> nat \<Rightarrow> int) \<Rightarrow> int" where
  "dds_coef14 r =
     (r 0 0 - r 1 0 + r 2 0 - r 3 0 -
      r 0 1 + r 1 1 - r 2 1 + r 3 1 -
      r 0 2 + r 1 2 - r 2 2 + r 3 2 +
      r 0 3 - r 1 3 + r 2 3 - r 3 3) sdiv 16"

definition dds_coef15 :: "(nat \<Rightarrow> nat \<Rightarrow> int) \<Rightarrow> int" where
  "dds_coef15 r =
     (r 0 0 - r 1 0 - r 2 0 + r 3 0 -
      r 0 1 + r 1 1 + r 2 1 - r 3 1 -
      r 0 2 + r 1 2 + r 2 2 - r 3 2 +
      r 0 3 - r 1 3 - r 2 3 + r 3 3) sdiv 16"

definition dds_coefs :: "((nat \<Rightarrow> nat \<Rightarrow> int) \<Rightarrow> int) list" where
  "dds_coefs =
     [dds_coef0, dds_coef1, dds_coef2, dds_coef3, dds_coef4, dds_coef5, dds_coef6, dds_coef7,
      dds_coef8, dds_coef9, dds_coef10, dds_coef11, dds_coef12, dds_coef13, dds_coef14, dds_coef15]"

definition transform_dds :: "int surface \<Rightarrow> encoding_mode \<Rightarrow> int surface list result" where
  "transform_dds residuals mode =
     rbind (layer_encode_flags TransformType_DDS mode) (\<lambda>flags.
     transform_layers 4 (\<lambda>l r. (dds_coefs ! l) (\<lambda>i j. r ! (4 * j + i))) flags residuals)"

section \<open>Inverse\<close>

text \<open>\<open>acc += basis[y & ..][x & ..][s] * ctx[s].read(x, y)\<close>, with views that shift the coordinates.\<close>

definition inverse_pixel ::
  "nat \<Rightarrow> int list list list \<Rightarrow> int surface list \<Rightarrow> nat \<Rightarrow> nat \<Rightarrow> int result" where
  "inverse_pixel S basis layers x y =
     fold_result (\<lambda>s acc.
       rbind (view_read S (layers ! s) x y) (\<lambda>v.
       Inr (to_int16 (acc + basis ! (y AND (2 ^ S - 1)) ! (x AND (2 ^ S - 1)) ! s * v))))
       [0..<2 ^ S * 2 ^ S] 0"

definition inverse_dd_basis :: "int list list list" where
  "inverse_dd_basis =
    [[[1, 1, 1, 1],
      [1, - 1, 1, - 1]],
     [[1, 1, - 1, - 1],
      [1, - 1, - 1, 1]]]"

definition inverse_dd_1d_basis :: "int list list list" where
  "inverse_dd_1d_basis =
    [[[1, 1, 1, 0],
      [1, - 1, - 1, 0]],
     [[0, 1, - 1, 1],
      [0, - 1, 1, 1]]]"

definition inverse_dds_1d_basis :: "int list list list" where
  "inverse_dds_1d_basis =
    [[[1, 1, 1, 1, 1, 1, 1, 1, 0, 0, 0, 0, 1, 1, 1, 1],
      [1, 1, 1, 1, - 1, - 1, - 1, - 1, 0, 0, 0, 0, - 1, - 1, - 1, - 1],
      [1, - 1, 1, - 1, 1, - 1, 1, - 1, 0, 0, 0, 0, 1, - 1, 1, - 1],
      [1, - 1, 1, - 1, - 1, 1, - 1, 1, 0, 0, 0, 0, - 1, 1, - 1, 1]],
     [[0, 0, 0, 0, 1, 1, 1, 1, 1, 1, 1, 1, - 1, - 1, - 1, - 1],
      [0, 0, 0, 0, - 1, - 1, - 1, - 1, 1, 1, 1, 1, 1, 1, 1, 1],
      [0, 0, 0, 0, 1, - 1, 1, - 1, 1, - 1, 1, - 1, - 1, 1, - 1, 1],
      [0, 0, 0, 0, - 1, 1, - 1, 1, 1, - 1, 1, - 1, 1, - 1, 1, - 1]],
     [[1, 1, - 1, - 1, 1, 1, - 1, - 1, 0, 0, 0, 0, 1, 1, - 1, - 1],
      [1, 1, - 1, - 1, - 1, - 1, 1, 1, 0, 0, 0, 0, - 1, - 1, 1, 1],
      [1, - 1, - 1, 1, 1, - 1, - 1, 1, 0, 0, 0, 0, 1, - 1, - 1, 1],
      [1, - 1, - 1, 1, - 1, 1, 1, - 1, 0, 0, 0, 0, - 1, 1, 1, - 1]],
     [[0, 0, 0, 0, 1, 1, - 1, - 1, 1, 1, - 1, - 1, - 1, - 1, 1, 1],
      [0, 0, 0, 0, - 1, - 1, 1, 1, 1, 1, - 1, - 1, 1, 1, - 1, - 1],
      [0, 0, 0, 0, 1, - 1, - 1, 1, 1, - 1, - 1, 1, - 1, 1, 1, - 1],
      [0, 0, 0, 0, - 1, 1, 1, - 1, 1, - 1, - 1, 1, 1, - 1, - 1, 1]]]"

definition inverse_transform_dd :: "nat \<Rightarrow> nat \<Rightarrow> int surface list \<Rightarrow> int surface result" where
  "inverse_transform_dd width height src_layers =
     surface_build width height (inverse_pixel 1 inverse_dd_basis src_layers)"

definition inverse_transform_dd_1d :: "nat \<Rightarrow> nat \<Rightarrow> int surface list \<Rightarrow> int surface result" where
  "inverse_transform_dd_1d width height src_layers =
     surface_build width height (inverse_pixel 1 inverse_dd_1d_basis src_layers)"

definition inverse_transform_dds_1d :: "nat \<Rightarrow> nat \<Rightarrow> int surface list \<Rightarrow> int surface result" where
  "inverse_transform_dds_1d width height src_layers =
     surface_build width height (inverse_pixel 2 inverse_dds_1d_basis src_layers)"

text \<open>
  \<open>InverseTransformDDS\<close> walks pointers along a row of each layer and four rows of the result.
  Taking a pointer asserts that the row has a pixel; a read past the row reaches the next one.
\<close>

definition inverse_dds_block :: "(nat \<Rightarrow> int) \<Rightarrow> int list list" where
  "inverse_dds_block c =
    [[to_int16 (c 0 + c 1 + c 2 + c 3 + c 4 + c 5 + c 6 + c 7 + c 8 + c 9 + c 10 + c 11 + c 12 + c 13 + c 14 + c 15),
      to_int16 (c 0 + c 1 + c 2 + c 3 - c 4 - c 5 - c 6 - c 7 + c 8 + c 9 + c 10 + c 11 - c 12 - c 13 - c 14 - c 15),
      to_int16 (c 0 - c 1 + c 2 - c 3 + c 4 - c 5 + c 6 - c 7 + c 8 - c 9 + c 10 - c 11 + c 12 - c 13 + c 14 - c 15),
      to_int16 (c 0 - c 1 + c 2 - c 3 - c 4 + c 5 - c 6 + c 7 + c 8 - c 9 + c 10 - c 11 - c 12 + c 13 - c 14 + c 15)],
     [to_int16 (c 0 + c 1 + c 2 + c 3 + c 4 + c 5 + c 6 + c 7 - c 8 - c 9 - c 10 - c 11 - c 12 - c 13 - c 14 - c 15),
      to_int16 (c 0 + c 1 + c 2 + c 3 - c 4 - c 5 - c 6 - c 7 - c 8 - c 9 - c 10 - c 11 + c 12 + c 13 + c 14 + c 15),
      to_int16 (c 0 - c 1 + c 2 - c 3 + c 4 - c 5 + c 6 - c 7 - c 8 + c 9 - c 10 + c 11 - c 12 + c 13 - c 14 + c 15),
      to_int16 (c 0 - c 1 + c 2 - c 3 - c 4 + c 5 - c 6 + c 7 - c 8 + c 9 - c 10 + c 11 + c 12 - c 13 + c 14 - c 15)],
     [to_int16 (c 0 + c 1 - c 2 - c 3 + c 4 + c 5 - c 6 - c 7 + c 8 + c 9 - c 10 - c 11 + c 12 + c 13 - c 14 - c 15),
      to_int16 (c 0 + c 1 - c 2 - c 3 - c 4 - c 5 + c 6 + c 7 + c 8 + c 9 - c 10 - c 11 - c 12 - c 13 + c 14 + c 15),
      to_int16 (c 0 - c 1 - c 2 + c 3 + c 4 - c 5 - c 6 + c 7 + c 8 - c 9 - c 10 + c 11 + c 12 - c 13 - c 14 + c 15),
      to_int16 (c 0 - c 1 - c 2 + c 3 - c 4 + c 5 + c 6 - c 7 + c 8 - c 9 - c 10 + c 11 - c 12 + c 13 + c 14 - c 15)],
     [to_int16 (c 0 + c 1 - c 2 - c 3 + c 4 + c 5 - c 6 - c 7 - c 8 - c 9 + c 10 + c 11 - c 12 - c 13 + c 14 + c 15),
      to_int16 (c 0 + c 1 - c 2 - c 3 - c 4 - c 5 + c 6 + c 7 - c 8 - c 9 + c 10 + c 11 + c 12 + c 13 - c 14 - c 15),
      to_int16 (c 0 - c 1 - c 2 + c 3 + c 4 - c 5 - c 6 + c 7 - c 8 + c 9 + c 10 - c 11 - c 12 + c 13 + c 14 - c 15),
      to_int16 (c 0 - c 1 - c 2 + c 3 - c 4 + c 5 + c 6 - c 7 - c 8 + c 9 + c 10 - c 11 + c 12 - c 13 - c 14 + c 15)]]"

definition inverse_dds_pixels ::
  "int surface list \<Rightarrow> nat \<Rightarrow> nat \<Rightarrow> int surface_builder \<Rightarrow> int surface_builder result" where
  "inverse_dds_pixels coeffs y x dst =
     rbind (map_result (\<lambda>s. row_read (coeffs ! s) y x) [0..<16]) (\<lambda>c.
     fold_result (\<lambda>(i, j) dst. surface_write (4 * x + i) (4 * y + j) (inverse_dds_block ((!) c) ! j ! i) dst)
       (raster 4 4) dst)"

definition inverse_dds_row ::
  "nat \<Rightarrow> nat \<Rightarrow> int surface list \<Rightarrow> nat \<Rightarrow> int surface_builder \<Rightarrow> int surface_builder result" where
  "inverse_dds_row width height coeffs y dst =
     rbind (map_result (\<lambda>s. row_start (sf_width (coeffs ! s)) (sf_height (coeffs ! s)) y) [0..<16]) (\<lambda>_.
     rbind (map_result (\<lambda>j. row_start width height (4 * y + j)) [0..<4]) (\<lambda>_.
     fold_result (inverse_dds_pixels coeffs y) [0..<width div 4] dst))"

definition inverse_transform_dds :: "nat \<Rightarrow> nat \<Rightarrow> int surface list \<Rightarrow> int surface result" where
  "inverse_transform_dds width height src_layers =
     rbind (fold_result (inverse_dds_row width height src_layers) [0..<height div 4] (surface_reserve width height))
       surface_finish"

end
