(* ===== verification/TransformInverse.thy ===== *)
theory TransformInverse
  imports Transforms
begin

text \<open>
  The forward transforms of the encoder against the inverse transforms of the decoder. A locale
  states what a pair of transforms is as matrices (each is the inverse of the other up to a
  factor); its lemmas say that coefficients come back exactly and that residuals come back up to
  the truncation of the division. The four transforms are its interpretations.
\<close>

section \<open>Division towards zero\<close>

lemma sdiv_error:
  fixes a N :: int
  assumes "0 < N"
  shows "\<bar>N * (a sdiv N) - a\<bar> \<le> N - 1"
proof -
  define q m where "q = \<bar>a\<bar> div N" and "m = \<bar>a\<bar> mod N"
  have qm: "N * q + m = \<bar>a\<bar>" "0 \<le> m" "m < N" using assms by (simp_all add: q_def m_def)
  have "a sdiv N = sgn a * q" using assms by (simp add: signed_divide_int_def sgn_mult q_def)
  with qm show ?thesis by (cases a "0 :: int" rule: linorder_cases) auto
qed

lemma sdiv_exact:
  fixes c N :: int
  assumes "0 < N"
  shows "(N * c) sdiv N = c"
  using assms by (simp add: signed_divide_int_def sgn_mult abs_mult mult_sgn_abs)

lemma sdiv_bound:
  fixes a N m :: int
  assumes "0 < N" and "\<bar>a\<bar> \<le> N * m"
  shows "\<bar>a sdiv N\<bar> \<le> m"
proof -
  have "\<bar>a\<bar> div N \<le> m" using zdiv_mono1 [OF assms(2,1)] assms(1) by simp
  moreover have "\<bar>a sdiv N\<bar> \<le> \<bar>a\<bar> div N" using assms(1)
    by (auto simp: signed_divide_int_def abs_mult sgn_if pos_imp_zdiv_nonneg_iff)
  ultimately show ?thesis by linarith
qed

section \<open>Pairs of transforms\<close>

definition block :: "nat \<Rightarrow> int surface \<Rightarrow> nat \<Rightarrow> nat \<Rightarrow> int list" where
  "block n s x y = map (\<lambda>(i, j). pixel s (x * n + i) (y * n + j)) (raster n n)"

lemma length_block [simp]: "length (block n s x y) = n * n"
  by (simp add: block_def)

lemma block_nth: "i < n \<Longrightarrow> j < n \<Longrightarrow> block n s x y ! (j * n + i) = pixel s (x * n + i) (y * n + j)"
  by (simp add: block_def raster_nth raster_index)

text \<open>What the two directions compute, surface by surface.\<close>

definition forward_of :: "nat \<Rightarrow> (nat \<Rightarrow> int list \<Rightarrow> int) \<Rightarrow> int surface \<Rightarrow> int surface list" where
  "forward_of n coef s =
     map (\<lambda>l. surface_of (sf_width s div n) (sf_height s div n) (\<lambda>x y. to_int16 (coef l (block n s x y)))) [0..<n * n]"

definition inverse_of :: "nat \<Rightarrow> (nat \<Rightarrow> nat \<Rightarrow> int) \<Rightarrow> nat \<Rightarrow> nat \<Rightarrow> int surface list \<Rightarrow> int surface" where
  "inverse_of n D w h ls =
     surface_of w h (\<lambda>x y. to_int16 (\<Sum>l<n * n. D ((y mod n) * n + x mod n) l * pixel (ls ! l) (x div n) (y div n)))"

locale block_transform =
  fixes n :: nat and M :: int and coef :: "nat \<Rightarrow> int list \<Rightarrow> int"
    and B :: "nat \<Rightarrow> nat \<Rightarrow> int" and D :: "nat \<Rightarrow> nat \<Rightarrow> int" and K :: int
  assumes n_pos: "0 < n" and M_pos: "0 < M"
    and coef: "l < n * n \<Longrightarrow> length r = n * n \<Longrightarrow> coef l r = (\<Sum>q<n * n. B l q * r ! q) sdiv M"
    and DB: "p < n * n \<Longrightarrow> q < n * n \<Longrightarrow> (\<Sum>l<n * n. D p l * B l q) = (if q = p then M else 0)"
    and BD: "l < n * n \<Longrightarrow> k < n * n \<Longrightarrow> (\<Sum>q<n * n. B l q * D q k) = (if k = l then M else 0)"
    and B_norm: "l < n * n \<Longrightarrow> (\<Sum>q<n * n. \<bar>B l q\<bar>) \<le> M"
    and D_norm: "p < n * n \<Longrightarrow> (M - 1) * (\<Sum>l<n * n. \<bar>D p l\<bar>) < M * (K + 1)"
    and D_unit: "p < n * n \<Longrightarrow> l < n * n \<Longrightarrow> \<bar>D p l\<bar> \<le> 1"
    and K_nonneg: "0 \<le> K"
begin

lemma error:
  assumes p: "p < n * n" and r: "length r = n * n"
  shows "\<bar>(\<Sum>l<n * n. D p l * coef l r) - r ! p\<bar> \<le> K"
proof -
  let ?S = "\<lambda>l. \<Sum>q<n * n. B l q * r ! q"
  let ?e = "\<lambda>l. M * (?S l sdiv M) - ?S l"
  have "(\<Sum>l<n * n. D p l * ?S l) = (\<Sum>l<n * n. \<Sum>q<n * n. D p l * B l q * r ! q)"
    by (simp add: sum_distrib_left mult.assoc)
  also have "\<dots> = (\<Sum>q<n * n. (\<Sum>l<n * n. D p l * B l q) * r ! q)"
    by (subst sum.swap) (simp add: sum_distrib_right)
  also have "\<dots> = (\<Sum>q<n * n. if q = p then M * r ! q else 0)"
    by (rule sum.cong) (simp_all add: DB [OF p])
  also have "\<dots> = M * r ! p" using p by (simp add: sum.delta)
  finally have S: "(\<Sum>l<n * n. D p l * ?S l) = M * r ! p" .
  have "M * (\<Sum>l<n * n. D p l * coef l r) = (\<Sum>l<n * n. D p l * (M * (?S l sdiv M)))"
    by (simp add: sum_distrib_left coef r mult.left_commute)
  also have "\<dots> = (\<Sum>l<n * n. D p l * ?e l) + (\<Sum>l<n * n. D p l * ?S l)"
    by (simp add: algebra_simps flip: sum.distrib)
  finally have "M * ((\<Sum>l<n * n. D p l * coef l r) - r ! p) = (\<Sum>l<n * n. D p l * ?e l)"
    by (simp add: S algebra_simps)
  moreover have "\<bar>\<Sum>l<n * n. D p l * ?e l\<bar> \<le> (\<Sum>l<n * n. \<bar>D p l\<bar> * (M - 1))"
  proof (rule order_trans [OF sum_abs], rule sum_mono)
    fix l show "\<bar>D p l * ?e l\<bar> \<le> \<bar>D p l\<bar> * (M - 1)"
      using sdiv_error [OF M_pos, of "?S l"] by (simp add: abs_mult mult_left_mono)
  qed
  moreover have "(\<Sum>l<n * n. \<bar>D p l\<bar> * (M - 1)) < M * (K + 1)"
    using D_norm [OF p] by (simp only: mult.commute [of _ "M - 1"] sum_distrib_left)
  ultimately have "\<bar>M * ((\<Sum>l<n * n. D p l * coef l r) - r ! p)\<bar> < M * (K + 1)" by linarith
  then have "M * \<bar>(\<Sum>l<n * n. D p l * coef l r) - r ! p\<bar> < M * (K + 1)"
    using M_pos by (simp add: abs_mult)
  then show ?thesis using M_pos by simp
qed

lemma exact:
  assumes l: "l < n * n" and r: "length r = n * n" "\<And>q. q < n * n \<Longrightarrow> r ! q = (\<Sum>k<n * n. D q k * c k)"
  shows "coef l r = c l"
proof -
  have "(\<Sum>q<n * n. B l q * r ! q) = (\<Sum>q<n * n. \<Sum>k<n * n. B l q * D q k * c k)"
    by (rule sum.cong) (simp_all add: r(2) sum_distrib_left mult.assoc)
  also have "\<dots> = (\<Sum>k<n * n. (\<Sum>q<n * n. B l q * D q k) * c k)"
    by (subst sum.swap) (simp add: sum_distrib_right)
  also have "\<dots> = (\<Sum>k<n * n. if k = l then M * c k else 0)"
    by (rule sum.cong) (simp_all add: BD [OF l])
  also have "\<dots> = M * c l" using l by (simp add: sum.delta)
  finally show ?thesis by (simp add: coef [OF l r(1)] sdiv_exact [OF M_pos])
qed

lemma coef_bound:
  assumes l: "l < n * n" and r: "length r = n * n" "\<And>q. q < n * n \<Longrightarrow> \<bar>r ! q\<bar> \<le> m"
  shows "\<bar>coef l r\<bar> \<le> m"
proof -
  have m: "0 \<le> m" using r(2) [of 0] n_pos by (meson abs_ge_zero nat_0_less_mult_iff order_trans)
  have "\<bar>\<Sum>q<n * n. B l q * r ! q\<bar> \<le> (\<Sum>q<n * n. \<bar>B l q\<bar> * m)"
  proof (rule order_trans [OF sum_abs], rule sum_mono)
    fix q assume "q \<in> {..<n * n}"
    then show "\<bar>B l q * r ! q\<bar> \<le> \<bar>B l q\<bar> * m" using r(2) by (simp add: abs_mult mult_left_mono)
  qed
  also have "\<dots> \<le> M * m" using B_norm [OF l] m by (simp add: mult_right_mono flip: sum_distrib_right)
  finally show ?thesis unfolding coef [OF l r(1)] by (rule sdiv_bound [OF M_pos])
qed

lemma position: "(y mod n) * n + x mod n < n * n"
  using n_pos by (intro raster_index) simp_all

lemma block_here: "block n s (x div n) (y div n) ! ((y mod n) * n + x mod n) = pixel s x y"
  using n_pos by (subst block_nth) simp_all

lemma block_mem:
  assumes "q < n * n" and "x < w div n" and "y < h div n"
  obtains x' y' where "block n s x y ! q = pixel s x' y'" and "x' < w" and "y' < h"
    and "x' div n = x" and "y' div n = y" and "q = (y' mod n) * n + x' mod n"
proof (rule that [of "x * n + q mod n" "y * n + q div n"])
  have q: "q mod n < n" "q div n < n" using assms(1) n_pos by (simp_all add: less_mult_imp_div_less)
  show "block n s x y ! q = pixel s (x * n + q mod n) (y * n + q div n)"
    using block_nth [OF q, of s x y] by simp
  have "Suc x * n \<le> w" "Suc y * n \<le> h"
    using assms(2,3) less_eq_div_iff_mult_less_eq [OF n_pos] by (simp_all only: Suc_le_eq [symmetric])
  then have "x * n + n \<le> w" "y * n + n \<le> h" by simp_all
  with q show "x * n + q mod n < w" "y * n + q div n < h" by linarith+
  show "(x * n + q mod n) div n = x" "(y * n + q div n) div n = y"
    "q = ((y * n + q div n) mod n) * n + (x * n + q mod n) mod n"
    using q by simp_all
qed

lemma residuals_back:
  assumes dvd: "n dvd sf_width s" "n dvd sf_height s"
    and small: "\<And>x y. x < sf_width s \<Longrightarrow> y < sf_height s \<Longrightarrow> \<bar>pixel s x y\<bar> \<le> 32767 - K"
    and xy: "x < sf_width s" "y < sf_height s"
  shows "\<bar>pixel (inverse_of n D (sf_width s) (sf_height s) (forward_of n coef s)) x y - pixel s x y\<bar> \<le> K"
proof -
  let ?b = "block n s (x div n) (y div n)" and ?p = "(y mod n) * n + x mod n"
  have div: "x div n < sf_width s div n" "y div n < sf_height s div n"
    using xy dvd n_pos by (auto elim!: dvdE simp: less_mult_imp_div_less mult.commute)
  have "\<bar>?b ! q\<bar> \<le> 32767 - K" if "q < n * n" for q
    by (rule block_mem [OF that div, of s]) (simp add: small)
  then have "\<bar>coef l ?b\<bar> \<le> 32767 - K" if "l < n * n" for l
    by (intro coef_bound [OF that]) simp_all
  then have c: "to_int16 (coef l ?b) = coef l ?b" if "l < n * n" for l
    using that K_nonneg by (intro to_int16_id) (fastforce simp: is_int16_def abs_le_iff)
  have err: "\<bar>(\<Sum>l<n * n. D ?p l * coef l ?b) - pixel s x y\<bar> \<le> K"
    using error [OF position, of ?b y x] by (simp add: block_here)
  moreover have "to_int16 (\<Sum>l<n * n. D ?p l * coef l ?b) = (\<Sum>l<n * n. D ?p l * coef l ?b)"
    using err small [OF xy] unfolding is_int16_def by (intro to_int16_id, unfold is_int16_def) linarith
  moreover have "pixel (inverse_of n D (sf_width s) (sf_height s) (forward_of n coef s)) x y =
      to_int16 (\<Sum>l<n * n. D ?p l * coef l ?b)"
    using xy div c by (simp add: inverse_of_def forward_of_def)
  ultimately show ?thesis by simp
qed

lemma coefs_back:
  assumes ls: "length ls = n * n" "\<And>l. l < n * n \<Longrightarrow> surface_wf (ls ! l) \<and> sf_width (ls ! l) = w \<and> sf_height (ls ! l) = h"
    and small: "\<And>x y. x < w \<Longrightarrow> y < h \<Longrightarrow> (\<Sum>l<n * n. \<bar>pixel (ls ! l) x y\<bar>) \<le> 32767"
  shows "forward_of n coef (inverse_of n D (w * n) (h * n) ls) = ls"
proof (rule nth_equalityI)
  let ?t = "inverse_of n D (w * n) (h * n) ls"
  fix l assume "l < length (forward_of n coef ?t)"
  then have l: "l < n * n" by (simp add: forward_of_def)
  have "surface_of w h (\<lambda>x y. to_int16 (coef l (block n ?t x y))) = ls ! l"
  proof (rule surface_eqI)
    fix x y assume "x < sf_width (surface_of w h (\<lambda>x y. to_int16 (coef l (block n ?t x y))))"
      "y < sf_height (surface_of w h (\<lambda>x y. to_int16 (coef l (block n ?t x y))))"
    then have xy: "x < w" "y < h" by simp_all
    then have xy': "x < (w * n) div n" "y < (h * n) div n" using n_pos by simp_all
    let ?c = "\<lambda>k. pixel (ls ! k) x y"
    have "block n ?t x y ! q = (\<Sum>k<n * n. D q k * ?c k)" if q: "q < n * n" for q
    proof (rule block_mem [OF q xy', of ?t])
      fix x' y' assume b: "block n ?t x y ! q = pixel ?t x' y'" "x' < w * n" "y' < h * n" "x' div n = x" "y' div n = y"
        and q': "q = (y' mod n) * n + x' mod n"
      have "\<bar>\<Sum>k<n * n. D q k * ?c k\<bar> \<le> (\<Sum>k<n * n. \<bar>?c k\<bar>)"
      proof (rule order_trans [OF sum_abs], rule sum_mono)
        fix k assume "k \<in> {..<n * n}"
        then show "\<bar>D q k * ?c k\<bar> \<le> \<bar>?c k\<bar>" using D_unit [OF q] by (simp add: abs_mult mult_left_le_one_le)
      qed
      also have "\<dots> \<le> 32767" by (rule small [OF xy])
      finally have "to_int16 (\<Sum>k<n * n. D q k * ?c k) = (\<Sum>k<n * n. D q k * ?c k)"
        by (intro to_int16_id) (simp add: is_int16_def abs_le_iff)
      then show ?thesis using b(2-5) unfolding b(1) by (simp add: inverse_of_def flip: q')
    qed
    then have "coef l (block n ?t x y) = ?c l" by (rule exact [OF l length_block])
    moreover have "\<bar>?c l\<bar> \<le> 32767"
      using small [OF xy] member_le_sum [of l "{..<n * n}" "\<lambda>l. \<bar>?c l\<bar>"] l by simp
    ultimately have "to_int16 (coef l (block n ?t x y)) = ?c l" by (simp add: to_int16_id is_int16_def abs_le_iff)
    then show "pixel (surface_of w h (\<lambda>x y. to_int16 (coef l (block n ?t x y)))) x y = ?c l" using xy by simp
  qed (simp_all add: ls(2) [OF l])
  then show "forward_of n coef ?t ! l = ls ! l"
    using l n_pos by (simp add: forward_of_def) (simp add: inverse_of_def)
qed (simp add: forward_of_def ls(1))

end

section \<open>The code computes these functions\<close>

lemma block_reads_total:
  assumes "0 < n" and "x < sf_width s div n" and "y < sf_height s div n"
  shows "block_reads n s x y = Inr (block n s x y)"
  unfolding block_reads_def block_def
proof (rule map_result_total)
  fix p assume "p \<in> set (raster n n)"
  then obtain i j where p: "p = (i, j)" "i < n" "j < n" by auto
  have "Suc x * n \<le> sf_width s" "Suc y * n \<le> sf_height s"
    using assms(2,3) less_eq_div_iff_mult_less_eq [OF assms(1)] by (simp_all only: Suc_le_eq [symmetric])
  then have "x * n + n \<le> sf_width s" "y * n + n \<le> sf_height s" by simp_all
  with p(2,3) have "x * n + i < sf_width s" "y * n + j < sf_height s" by linarith+
  then show "(\<lambda>(i, j). surface_read s (x * n + i) (y * n + j)) p = Inr ((\<lambda>(i, j). pixel s (x * n + i) (y * n + j)) p)"
    by (simp add: p(1))
qed

lemma and_pred_power: "x AND (2 ^ S - Suc 0) = x mod 2 ^ S" for x :: nat
proof -
  have "x mod 2 ^ S = x AND mask S" by (simp only: take_bit_eq_mod [symmetric] take_bit_eq_mask)
  then show ?thesis by (simp add: mask_eq_exp_minus_1)
qed

lemma transform_layers_total:
  assumes "2 ^ S dvd sf_width s" and "2 ^ S dvd sf_height s" and "ef_bits flags = replicate (2 ^ S * 2 ^ S) True"
  shows "transform_layers (2 ^ S) coef flags s = Inr (forward_of (2 ^ S) coef s)"
proof -
  have "map_result (\<lambda>l. rbind (encode_residual flags l) (\<lambda>enc. surface_build (sf_width s div 2 ^ S) (sf_height s div 2 ^ S)
      (\<lambda>x y. if enc then rbind (block_reads (2 ^ S) s x y) (\<lambda>r. Inr (to_int16 (coef l r))) else Inr 0))) [0..<2 ^ S * 2 ^ S] =
      Inr (forward_of (2 ^ S) coef s)"
    unfolding forward_of_def
  proof (rule map_result_total)
    fix l assume "l \<in> set [0..<2 ^ S * 2 ^ S :: nat]"
    then have "encode_residual flags l = Inr True" by (simp add: encode_residual_def flags_size_def assms(3))
    then show "rbind (encode_residual flags l) (\<lambda>enc. surface_build (sf_width s div 2 ^ S) (sf_height s div 2 ^ S)
        (\<lambda>x y. if enc then rbind (block_reads (2 ^ S) s x y) (\<lambda>r. Inr (to_int16 (coef l r))) else Inr 0)) =
        Inr (surface_of (sf_width s div 2 ^ S) (sf_height s div 2 ^ S) (\<lambda>x y. to_int16 (coef l (block (2 ^ S) s x y))))"
      by (simp add: surface_build_total block_reads_total)
  qed
  then show ?thesis using assms(1,2)
    by (simp add: transform_layers_def Let_def and_pred_power check_that_def)
qed

lemma fold_wraps:
  "fold_result (\<lambda>s acc. rbind (Inr (v s)) (\<lambda>v. Inr (to_int16 (acc + k s * v)))) ss (to_int16 a) =
     Inr (to_int16 (a + (\<Sum>s \<leftarrow> ss. k s * v s)))"
  by (induction ss arbitrary: a) (simp_all add: add.assoc)

lemma inverse_pixel_total:
  assumes "\<And>s. s < 2 ^ S * 2 ^ S \<Longrightarrow> x div 2 ^ S < sf_width (layers ! s) \<and> y div 2 ^ S < sf_height (layers ! s)"
  shows "inverse_pixel S basis layers x y =
    Inr (to_int16 (\<Sum>s<2 ^ S * 2 ^ S. basis ! (y mod 2 ^ S) ! (x mod 2 ^ S) ! s * pixel (layers ! s) (x div 2 ^ S) (y div 2 ^ S)))"
proof -
  let ?k = "\<lambda>s. basis ! (y mod 2 ^ S) ! (x mod 2 ^ S) ! s" and ?v = "\<lambda>s. pixel (layers ! s) (x div 2 ^ S) (y div 2 ^ S)"
  have "fold_result (\<lambda>s acc. rbind (view_read S (layers ! s) x y) (\<lambda>v. Inr (to_int16 (acc + ?k s * v)))) ss a =
      fold_result (\<lambda>s acc. rbind (Inr (?v s)) (\<lambda>v. Inr (to_int16 (acc + ?k s * v)))) ss a"
    if "set ss \<subseteq> {..<2 ^ S * 2 ^ S}" for ss a
    using that
  proof (induction ss arbitrary: a)
    case (Cons t ss)
    have "view_read S (layers ! t) x y = Inr (?v t)" using assms [of t] Cons.prems by (simp add: drop_bit_eq_div)
    with Cons show ?case by simp
  qed simp
  from this [of "[0..<2 ^ S * 2 ^ S]" 0] fold_wraps [of ?v ?k "[0..<2 ^ S * 2 ^ S]" 0]
  show ?thesis
    by (simp add: inverse_pixel_def and_pred_power interv_sum_list_conv_sum_set_nat atLeast0LessThan to_int16_def [of 0]
        del: rbind.simps)
qed

definition basis_at :: "int list list list \<Rightarrow> nat \<Rightarrow> nat \<Rightarrow> nat \<Rightarrow> int" where
  "basis_at basis n p l = basis ! (p div n) ! (p mod n) ! l"

lemma inverse_build:
  assumes "2 ^ S dvd w" and "2 ^ S dvd h"
    and "\<And>s. s < 2 ^ S * 2 ^ S \<Longrightarrow> sf_width (layers ! s) = w div 2 ^ S \<and> sf_height (layers ! s) = h div 2 ^ S"
  shows "surface_build w h (inverse_pixel S basis layers) = Inr (inverse_of (2 ^ S) (basis_at basis (2 ^ S)) w h layers)"
proof -
  have "inverse_pixel S basis layers x y =
      Inr (to_int16 (\<Sum>l<2 ^ S * 2 ^ S. basis_at basis (2 ^ S) (y mod 2 ^ S * 2 ^ S + x mod 2 ^ S) l *
        pixel (layers ! l) (x div 2 ^ S) (y div 2 ^ S)))" if "x < w" "y < h" for x y
  proof -
    have "x div 2 ^ S < w div 2 ^ S" "y div 2 ^ S < h div 2 ^ S"
      using that assms(1,2) by (auto elim!: dvdE simp: less_mult_imp_div_less mult.commute)
    then show ?thesis by (subst inverse_pixel_total) (simp_all add: assms(3) basis_at_def)
  qed
  then show ?thesis unfolding inverse_of_def by (rule surface_build_total)
qed

end
