(* ===== verification/TransformPairs.thy ===== *)
theory TransformPairs
  imports TransformInverse
begin

text \<open>
  The four transforms of the encoder and their inverses in the decoder as instances of
  \<open>block_transform\<close>, the unrolled code of the optimised build against the basis tables, and the
  round trips of residuals and coefficients.
\<close>

section \<open>Matrices\<close>

text \<open>The conditions of the locale, as a computation on the tables.\<close>

definition rows_ok :: "nat \<Rightarrow> int \<Rightarrow> int \<Rightarrow> (nat \<Rightarrow> nat \<Rightarrow> int) \<Rightarrow> (nat \<Rightarrow> nat \<Rightarrow> int) \<Rightarrow> bool" where
  "rows_ok m M K B D \<longleftrightarrow>
     list_all (\<lambda>p. list_all (\<lambda>q.
         sum_list (map (\<lambda>l. D p l * B l q) [0..<m]) = (if q = p then M else 0) \<and>
         sum_list (map (\<lambda>l. B p l * D l q) [0..<m]) = (if q = p then M else 0) \<and> \<bar>D p q\<bar> \<le> 1) [0..<m] \<and>
       sum_list (map (\<lambda>l. \<bar>B p l\<bar>) [0..<m]) \<le> M \<and>
       (M - 1) * sum_list (map (\<lambda>l. \<bar>D p l\<bar>) [0..<m]) < M * (K + 1)) [0..<m]"

lemma rows_okD:
  assumes "rows_ok m M K B D" and "p < m"
  shows "q < m \<Longrightarrow> (\<Sum>l<m. D p l * B l q) = (if q = p then M else 0)"
    and "q < m \<Longrightarrow> (\<Sum>l<m. B p l * D l q) = (if q = p then M else 0)"
    and "q < m \<Longrightarrow> \<bar>D p q\<bar> \<le> 1" and "(\<Sum>l<m. \<bar>B p l\<bar>) \<le> M"
    and "(M - 1) * (\<Sum>l<m. \<bar>D p l\<bar>) < M * (K + 1)"
  using assms by (simp_all add: rows_ok_def list_all_length interv_sum_list_conv_sum_set_nat atLeast0LessThan)

lemma block_transformI:
  assumes "rows_ok (n * n) M K B D" and "0 < n" and "0 < M" and "0 \<le> K"
    and "\<And>l r. l < n * n \<Longrightarrow> length r = n * n \<Longrightarrow> coef l r = (\<Sum>q<n * n. B l q * r ! q) sdiv M"
  shows "block_transform n M coef B D K"
  using assms(2-5) rows_okD [OF assms(1)] by unfold_locales simp_all

lemma dot_sum: "length ys = length xs \<Longrightarrow> dot xs ys = (\<Sum>q<length xs. ys ! q * xs ! q)"
  by (simp add: dot_def sum_list_sum_nth atLeast0LessThan mult.commute)

lemma basis_length:
  "list_all (\<lambda>r. length r = 4) dd_basis" "list_all (\<lambda>r. length r = 4) dd_1d_basis"
  "list_all (\<lambda>r. length r = 16) dds_basis" "list_all (\<lambda>r. length r = 16) dds_1d_basis"
  "length dd_basis = 4" "length dd_1d_basis = 4" "length dds_basis = 16" "length dds_1d_basis = 16"
  by (simp_all add: dd_basis_def dd_1d_basis_def dds_basis_def dds_1d_basis_def)

lemma dot_basis:
  assumes "list_all (\<lambda>r. length r = m) basis" and "l < length basis" and "length r = m"
  shows "dot r (basis ! l) = (\<Sum>q<m. basis ! l ! q * r ! q)"
  using assms by (subst dot_sum) (simp_all add: list_all_length)

text \<open>The unrolled sums of \<open>TransformDDS\<close> are the rows of its table.\<close>

lemma list_16:
  assumes "length r = 16"
  shows "r = map ((!) r) [0..<16]"
  using assms by (metis map_nth)

lemma upt_16: "[0..<16] = [0, 1, 2, 3, 4, 5, 6, 7, 8, 9, 10, 11, 12, 13, 14, 15]"
  by (simp add: upt_rec)

lemmas dds_coef_defs = dds_coef0_def dds_coef1_def dds_coef2_def dds_coef3_def dds_coef4_def dds_coef5_def
  dds_coef6_def dds_coef7_def dds_coef8_def dds_coef9_def dds_coef10_def dds_coef11_def dds_coef12_def
  dds_coef13_def dds_coef14_def dds_coef15_def

lemma dds_unrolled:
  assumes "length r = 16" and "l < 16"
  shows "(dds_coefs ! l) (\<lambda>i j. r ! (4 * j + i)) = dot r (dds_basis ! l) sdiv 16"
proof -
  have "list_all (\<lambda>l. (dds_coefs ! l) (\<lambda>i j. r ! (4 * j + i)) = dot (map ((!) r) [0..<16]) (dds_basis ! l) sdiv 16) [0..<16]"
    unfolding upt_16
    by (simp add: dds_coefs_def dds_basis_def dds_coef_defs dot_def)
      (intro conjI arg_cong [where f = "\<lambda>x. x sdiv 16"]; simp add: numeral_2_eq_2)
  then show ?thesis using assms(2) list_16 [OF assms(1)] by (simp add: list_all_length)
qed

interpretation dd: block_transform 2 4 "\<lambda>l r. dot r (dd_basis ! l) sdiv 4" "\<lambda>l q. dd_basis ! l ! q"
  "basis_at inverse_dd_basis 2" 3
proof (rule block_transformI)
  show "rows_ok (2 * 2) 4 3 (\<lambda>l q. dd_basis ! l ! q) (basis_at inverse_dd_basis 2)" by code_simp
qed (simp_all add: dot_basis [OF basis_length(1)] dot_basis [OF basis_length(2)] dot_basis [OF basis_length(4)] basis_length)

interpretation dd1: block_transform 2 4 "\<lambda>l r. dot r (dd_1d_basis ! l) sdiv 4" "\<lambda>l q. dd_1d_basis ! l ! q"
  "basis_at inverse_dd_1d_basis 2" 2
proof (rule block_transformI)
  show "rows_ok (2 * 2) 4 2 (\<lambda>l q. dd_1d_basis ! l ! q) (basis_at inverse_dd_1d_basis 2)" by code_simp
qed (simp_all add: dot_basis [OF basis_length(1)] dot_basis [OF basis_length(2)] dot_basis [OF basis_length(4)] basis_length)

interpretation dds1: block_transform 4 16 "\<lambda>l r. dot r (dds_1d_basis ! l) sdiv 16" "\<lambda>l q. dds_1d_basis ! l ! q"
  "basis_at inverse_dds_1d_basis 4" 11
proof (rule block_transformI)
  show "rows_ok (4 * 4) 16 11 (\<lambda>l q. dds_1d_basis ! l ! q) (basis_at inverse_dds_1d_basis 4)" by code_simp
qed (simp_all add: dot_basis [OF basis_length(1)] dot_basis [OF basis_length(2)] dot_basis [OF basis_length(4)] basis_length)

interpretation dds: block_transform 4 16 "\<lambda>l r. (dds_coefs ! l) (\<lambda>i j. r ! (4 * j + i))" "\<lambda>l q. dds_basis ! l ! q"
  "\<lambda>p l. dds_basis ! l ! p" 15
proof (rule block_transformI)
  show "rows_ok (4 * 4) 16 15 (\<lambda>l q. dds_basis ! l ! q) (\<lambda>p l. dds_basis ! l ! p)" by code_simp
qed (simp_all add: dds_unrolled dot_basis [OF basis_length(3)] basis_length)

section \<open>The unrolled inverse\<close>

lemma sum_16: "(\<Sum>l<16. f l) = sum_list (map f [0, 1, 2, 3, 4, 5, 6, 7, 8, 9, 10, 11, 12, 13, 14, 15])"
  for f :: "nat \<Rightarrow> int"
  unfolding upt_16 [symmetric] by (simp only: interv_sum_list_conv_sum_set_nat atLeast0LessThan set_upt)

lemma inverse_unrolled:
  assumes "i < 4" and "j < 4"
  shows "inverse_dds_block c ! j ! i = to_int16 (\<Sum>l<4 * 4. dds_basis ! l ! (j * 4 + i) * c l)"
proof -
  have "list_all (\<lambda>(i, j). inverse_dds_block c ! j ! i = to_int16 (\<Sum>l<16. dds_basis ! l ! (j * 4 + i) * c l)) (raster 4 4)"
    unfolding sum_16
    by (simp add: inverse_dds_block_def dds_basis_def raster_def upt_rec)
      (intro conjI arg_cong [where f = to_int16]; simp)
  then show ?thesis using assms by (auto simp: list_all_iff)
qed

lemma fold_result_concat: "fold_result f (concat xss) b = fold_result (fold_result f) xss b"
proof (induction xss arbitrary: b)
  case (Cons xs xss)
  then have "fold_result f (concat xss) = fold_result (fold_result f) xss" by (rule ext)
  then show ?case by (simp add: fold_result_append)
qed simp

lemma fold_result_cong:
  assumes "\<And>x b. x \<in> set xs \<Longrightarrow> f x b = g x b"
  shows "fold_result f xs b = fold_result g xs b"
  using assms
proof (induction xs arbitrary: b)
  case (Cons x xs)
  then have "fold_result f xs = fold_result g xs" by (intro ext) simp
  with Cons.prems show ?case by simp
qed simp

lemma fold_result_map: "fold_result f (map g xs) b = fold_result (\<lambda>x. f (g x)) xs b"
  by (induction xs arbitrary: b) (simp_all, metis rbind.simps)

definition write_value :: "(nat \<Rightarrow> nat \<Rightarrow> 'p) \<Rightarrow> nat \<times> nat \<Rightarrow> 'p surface_builder \<Rightarrow> 'p surface_builder result" where
  "write_value g = (\<lambda>(x, y). surface_write x y (g x y))"

lemma fold_write_value: "fold_result (write_value g) ps b = place ps (map (\<lambda>(x, y). g x y) ps) b"
  using fold_generate [of ps "\<lambda>x y. Inr (g x y)" g b] by (simp add: write_value_def)

lemma upt_shift: "[a..<a + k] = map ((+) a) [0..<k]"
  by (rule nth_equalityI) simp_all

lemma tile_raster_block:
  assumes "Suc x * n \<le> w" and "Suc y * n \<le> h"
  shows "tile_raster n w h (x * n) (y * n) = map (\<lambda>(i, j). (x * n + i, y * n + j)) (raster n n)"
proof -
  have "min (x * n + n) w = x * n + n" "min (y * n + n) h = y * n + n" using assms by simp_all
  then show ?thesis
    by (simp only: tile_raster_def raster_product upt_shift map_concat map_map o_def prod.case)
qed

lemma steps_dvd:
  assumes "0 < d" and "d dvd w"
  shows "steps d w = map (\<lambda>k. k * d) [0..<w div d]"
proof -
  obtain k where k: "w = d * k" using assms(2) by (auto elim: dvdE)
  have "(w + d - 1) div d = k" using assms(1) k by (intro div_nat_eqI) simp_all
  then show ?thesis using assms(1) k by (simp add: steps_def)
qed

lemma inverse_dds_total:
  assumes w: "0 < w" "4 dvd w" and h: "4 dvd h"
    and ls: "\<And>s. s < 16 \<Longrightarrow> surface_wf (ls ! s) \<and> sf_width (ls ! s) = w div 4 \<and> sf_height (ls ! s) = h div 4"
  shows "inverse_transform_dds w h ls = Inr (inverse_of 4 (\<lambda>p l. dds_basis ! l ! p) w h ls)"
proof -
  define g where "g x y = to_int16 (\<Sum>l<4 * 4. dds_basis ! l ! (y mod 4 * 4 + x mod 4) * pixel (ls ! l) (x div 4) (y div 4))" for x y
  have w4: "0 < w div 4" using w by (auto elim!: dvdE)
  have fits: "Suc x * 4 \<le> w" if "x < w div 4" for x using that w(2) by (auto elim!: dvdE)
  have fits': "Suc y * 4 \<le> h" if "y < h div 4" for y using that h by (auto elim!: dvdE)
  have pixels: "inverse_dds_pixels ls y x dst = fold_result (write_value g) (tile_raster 4 w h (x * 4) (y * 4)) dst"
    if xy: "x < w div 4" "y < h div 4" for x y dst
  proof -
    let ?c = "\<lambda>s. pixel (ls ! s) x y"
    have "map_result (\<lambda>s. row_read (ls ! s) y x) [0..<16] = Inr (map ?c [0..<16])"
    proof (rule map_result_total)
      fix s assume "s \<in> set [0..<16 :: nat]"
      then have "s < 16" by simp
      with ls [OF this] raster_index [OF xy] show "row_read (ls ! s) y x = Inr (?c s)"
        by (simp add: row_read_def pixel_def surface_wf_def)
    qed
    then have "inverse_dds_pixels ls y x dst =
        fold_result (\<lambda>(i, j) dst. surface_write (4 * x + i) (4 * y + j) (inverse_dds_block ((!) (map ?c [0..<16])) ! j ! i) dst) (raster 4 4) dst"
      by (simp add: inverse_dds_pixels_def)
    also have "\<dots> = fold_result (\<lambda>(i, j). write_value g (x * 4 + i, y * 4 + j)) (raster 4 4) dst"
    proof (rule fold_result_cong)
      fix p and b :: "int surface_builder" assume "p \<in> set (raster 4 4)"
      then obtain i j where p: "p = (i, j)" "i < 4" "j < 4" by auto
      have "inverse_dds_block ((!) (map ?c [0..<16])) ! j ! i = g (x * 4 + i) (y * 4 + j)"
        using p(2,3) by (simp add: inverse_unrolled g_def)
      then show "(\<lambda>(i, j) dst. surface_write (4 * x + i) (4 * y + j) (inverse_dds_block ((!) (map ?c [0..<16])) ! j ! i) dst) p b =
          (\<lambda>(i, j). write_value g (x * 4 + i, y * 4 + j)) p b"
        by (simp add: p(1) write_value_def mult.commute)
    qed
    also have "\<dots> = fold_result (write_value g) (map (\<lambda>(i, j). (x * 4 + i, y * 4 + j)) (raster 4 4)) dst"
      unfolding fold_result_map by (rule fold_result_cong) auto
    finally show ?thesis by (simp only: tile_raster_block [OF fits [OF xy(1)] fits' [OF xy(2)]])
  qed
  have row: "inverse_dds_row w h ls y dst =
      fold_result (write_value g) (concat (map (\<lambda>tx. tile_raster 4 w h tx (y * 4)) (steps 4 w))) dst"
    if y: "y < h div 4" for y dst
  proof -
    have "map_result (\<lambda>s. row_start (sf_width (ls ! s)) (sf_height (ls ! s)) y) [0..<16] = Inr (map (\<lambda>s. ()) [0..<16])"
      by (rule map_result_total) (use ls w4 y in \<open>simp add: row_start_def assert_that_def\<close>)
    moreover have "map_result (\<lambda>j. row_start w h (4 * y + j)) [0..<4] = Inr (map (\<lambda>s. ()) [0..<4])"
      by (rule map_result_total) (use w(1) fits' [OF y] in \<open>simp add: row_start_def assert_that_def\<close>)
    ultimately have "inverse_dds_row w h ls y dst = fold_result (inverse_dds_pixels ls y) [0..<w div 4] dst"
      by (simp add: inverse_dds_row_def)
    also have "\<dots> = fold_result (\<lambda>x. fold_result (write_value g) (tile_raster 4 w h (x * 4) (y * 4))) [0..<w div 4] dst"
      by (rule fold_result_cong) (simp add: pixels y)
    finally show ?thesis using w(2) by (simp add: fold_result_concat fold_result_map steps_dvd)
  qed
  have "fold_result (inverse_dds_row w h ls) [0..<h div 4] (surface_reserve w h) =
      fold_result (\<lambda>y. fold_result (write_value g) (concat (map (\<lambda>tx. tile_raster 4 w h tx (y * 4)) (steps 4 w)))) [0..<h div 4] (surface_reserve w h)"
    by (rule fold_result_cong) (simp add: row)
  also have "\<dots> = fold_result (write_value g) (tiled 4 w h) (surface_reserve w h)"
    using h by (simp add: tiled_def steps_dvd [of 4 h] fold_result_concat [of _ "map _ _"] fold_result_map o_def)
  finally have all: "fold_result (inverse_dds_row w h ls) [0..<h div 4] (surface_reserve w h) =
      place (tiled 4 w h) (map (\<lambda>(x, y). g x y) (tiled 4 w h)) (surface_reserve w h)"
    by (simp only: fold_write_value)
  have four: "0 < (4 :: nat)" by simp
  obtain b s where b: "place (tiled 4 w h) (map (\<lambda>(x, y). g x y) (tiled 4 w h)) (surface_reserve w h) = Inr b"
    "surface_finish b = Inr s" "surface_wf s" "sf_width s = w" "sf_height s = h"
    "map (\<lambda>(x, y). pixel s x y) (tiled 4 w h) = map (\<lambda>(x, y). g x y) (tiled 4 w h)"
    by (rule place_finish [OF distinct_tiled [OF four] set_tiled [OF four], where vs = "map (\<lambda>(x, y). g x y) (tiled 4 w h)"])
      simp
  have "s = surface_of w h g" by (rule surface_scan_eqI [OF b(3-5) set_tiled [OF four] b(6)])
  then show ?thesis using all b(1,2) by (simp add: inverse_transform_dds_def inverse_of_def g_def [abs_def])
qed

section \<open>Properties\<close>

text \<open>A plane of residuals that a transform and its inverse keep within \<open>int16_t\<close>.\<close>

definition plane_within :: "int \<Rightarrow> int surface \<Rightarrow> bool" where
  "plane_within m s \<longleftrightarrow> list_all (\<lambda>(x, y). \<bar>pixel s x y\<bar> \<le> m) (raster (sf_width s) (sf_height s))"

lemma plane_withinD: "plane_within m s \<Longrightarrow> x < sf_width s \<Longrightarrow> y < sf_height s \<Longrightarrow> \<bar>pixel s x y\<bar> \<le> m"
  by (auto simp: plane_within_def list_all_iff)

definition planes_apart :: "int \<Rightarrow> int surface \<Rightarrow> int surface \<Rightarrow> bool" where
  "planes_apart m s t \<longleftrightarrow> sf_width t = sf_width s \<and> sf_height t = sf_height s \<and>
     list_all (\<lambda>(x, y). \<bar>pixel t x y - pixel s x y\<bar> \<le> m) (raster (sf_width s) (sf_height s))"

lemma inverse_of_simps [simp]: "sf_width (inverse_of n D w h ls) = w" "sf_height (inverse_of n D w h ls) = h"
  by (simp_all add: inverse_of_def)

lemma forward_of_dims:
  "l < n * n \<Longrightarrow> surface_wf (forward_of n coef s ! l) \<and> sf_width (forward_of n coef s ! l) = sf_width s div n \<and>
     sf_height (forward_of n coef s ! l) = sf_height s div n"
  by (simp add: forward_of_def)

lemma dd_total:
  assumes "2 dvd sf_width s" and "2 dvd sf_height s"
  shows "transform_dd s ENCODE_ALL = Inr (forward_of 2 (\<lambda>l r. dot r (dd_basis ! l) sdiv 4) s)"
    and "transform_dd_1d s ENCODE_ALL = Inr (forward_of 2 (\<lambda>l r. dot r (dd_1d_basis ! l) sdiv 4) s)"
  using transform_layers_total [of 1 s] assms flags_all_DD
  by (auto simp: transform_dd_def transform_dd_1d_def)

lemma dds_total:
  assumes "4 dvd sf_width s" and "4 dvd sf_height s"
  shows "transform_dds s ENCODE_ALL = Inr (forward_of 4 (\<lambda>l r. (dds_coefs ! l) (\<lambda>i j. r ! (4 * j + i))) s)"
    and "transform_dds_1d s ENCODE_ALL = Inr (forward_of 4 (\<lambda>l r. dot r (dds_1d_basis ! l) sdiv 16) s)"
  using transform_layers_total [of 2 s] assms flags_all_DDS
  by (auto simp: transform_dds_def transform_dds_1d_def)

lemma dd_inverse_total:
  assumes "2 dvd w" and "2 dvd h"
    and "\<And>s. s < 4 \<Longrightarrow> sf_width (ls ! s) = w div 2 \<and> sf_height (ls ! s) = h div 2"
  shows "inverse_transform_dd w h ls = Inr (inverse_of 2 (basis_at inverse_dd_basis 2) w h ls)"
    and "inverse_transform_dd_1d w h ls = Inr (inverse_of 2 (basis_at inverse_dd_1d_basis 2) w h ls)"
  using inverse_build [of 1 w h ls] assms by (simp_all add: inverse_transform_dd_def inverse_transform_dd_1d_def)

lemma dds_1d_inverse_total:
  assumes "4 dvd w" and "4 dvd h"
    and "\<And>s. s < 16 \<Longrightarrow> sf_width (ls ! s) = w div 4 \<and> sf_height (ls ! s) = h div 4"
  shows "inverse_transform_dds_1d w h ls = Inr (inverse_of 4 (basis_at inverse_dds_1d_basis 4) w h ls)"
  using inverse_build [of 2 w h ls] assms by (simp add: inverse_transform_dds_1d_def)

text \<open>
  C21: residuals of an even-sized plane, transformed with all layers and transformed back, are at
  most 3 away from the original with the 2x2 transform and at most 2 with its 1D variant.
\<close>

theorem dd_reconstructs:
  assumes "even (sf_width s)" and "even (sf_height s)" and "plane_within 32764 s"
  shows "(\<exists>layers t. transform_dd s ENCODE_ALL = Inr layers \<and>
      inverse_transform_dd (sf_width s) (sf_height s) layers = Inr t \<and> planes_apart 3 s t) \<and>
    (\<exists>layers t. transform_dd_1d s ENCODE_ALL = Inr layers \<and>
      inverse_transform_dd_1d (sf_width s) (sf_height s) layers = Inr t \<and> planes_apart 2 s t)"
proof -
  note total = dd_total [OF assms(1,2)] and inv = dd_inverse_total [OF assms(1,2)]
  have small: "\<bar>pixel s x y\<bar> \<le> 32767 - 3" "\<bar>pixel s x y\<bar> \<le> 32767 - 2" if "x < sf_width s" "y < sf_height s" for x y
    using plane_withinD [OF assms(3) that] by simp_all
  show ?thesis
    using total inv forward_of_dims [of _ 2] dd.residuals_back [OF assms(1,2) small(1)]
      dd1.residuals_back [OF assms(1,2) small(2)]
    by (simp add: planes_apart_def list_all_iff)
qed

text \<open>
  C20: the same for the 4x4 transforms, with planes whose sides are multiples of four: at most 15
  away, and at most 11 in the 1D variant.
\<close>

theorem dds_reconstructs:
  assumes "0 < sf_width s" and "4 dvd sf_width s" and "4 dvd sf_height s" and "plane_within 32752 s"
  shows "(\<exists>layers t. transform_dds s ENCODE_ALL = Inr layers \<and>
      inverse_transform_dds (sf_width s) (sf_height s) layers = Inr t \<and> planes_apart 15 s t) \<and>
    (\<exists>layers t. transform_dds_1d s ENCODE_ALL = Inr layers \<and>
      inverse_transform_dds_1d (sf_width s) (sf_height s) layers = Inr t \<and> planes_apart 11 s t)"
proof -
  have small: "\<bar>pixel s x y\<bar> \<le> 32767 - 15" "\<bar>pixel s x y\<bar> \<le> 32767 - 11" if "x < sf_width s" "y < sf_height s" for x y
    using plane_withinD [OF assms(4) that] by simp_all
  show ?thesis
    using dds_total [OF assms(2,3)] inverse_dds_total [OF assms(1-3)] dds_1d_inverse_total [OF assms(2,3)]
      forward_of_dims [of _ 4] dds.residuals_back [OF assms(2,3) small(1)]
      dds1.residuals_back [OF assms(2,3) small(2)]
    by (simp add: planes_apart_def list_all_iff)
qed

text \<open>Layers of one size whose coefficients at a position sum to an \<open>int16_t\<close> with any signs.\<close>

definition layers_within :: "nat \<Rightarrow> nat \<Rightarrow> nat \<Rightarrow> int surface list \<Rightarrow> bool" where
  "layers_within m w h ls \<longleftrightarrow> length ls = m \<and>
     list_all (\<lambda>s. surface_wf s \<and> sf_width s = w \<and> sf_height s = h) ls \<and>
     list_all (\<lambda>(x, y). sum_list (map (\<lambda>s. \<bar>pixel s x y\<bar>) ls) \<le> 32767) (raster w h)"

lemma layers_withinD:
  assumes "layers_within m w h ls"
  shows "length ls = m" and "l < m \<Longrightarrow> surface_wf (ls ! l) \<and> sf_width (ls ! l) = w \<and> sf_height (ls ! l) = h"
    and "x < w \<Longrightarrow> y < h \<Longrightarrow> (\<Sum>l<m. \<bar>pixel (ls ! l) x y\<bar>) \<le> 32767"
proof -
  show "length ls = m" using assms by (simp add: layers_within_def)
  show "l < m \<Longrightarrow> surface_wf (ls ! l) \<and> sf_width (ls ! l) = w \<and> sf_height (ls ! l) = h"
    using assms by (auto simp: layers_within_def list_all_length)
  assume xy: "x < w" "y < h"
  then have "sum_list (map (\<lambda>s. \<bar>pixel s x y\<bar>) ls) \<le> 32767"
    using assms by (auto simp: layers_within_def list_all_iff)
  then show "(\<Sum>l<m. \<bar>pixel (ls ! l) x y\<bar>) \<le> 32767"
    using assms by (simp add: layers_within_def sum_list_sum_nth atLeast0LessThan)
qed

text \<open>
  coefficients come back exactly: layers transformed back and forth by the 2x2 transforms are
  unchanged, as long as the residuals between them fit 16 bits.
\<close>

theorem dd_coefficients_exact:
  assumes "layers_within 4 w h ls"
  shows "rbind (inverse_transform_dd (w * 2) (h * 2) ls) (\<lambda>t. transform_dd t ENCODE_ALL) = Inr ls \<and>
    rbind (inverse_transform_dd_1d (w * 2) (h * 2) ls) (\<lambda>t. transform_dd_1d t ENCODE_ALL) = Inr ls"
proof -
  note ls = layers_withinD [OF assms]
  show ?thesis
    using dd_inverse_total [of "w * 2" "h * 2" ls] dd_total ls(2)
      dd.coefs_back [of ls w h] dd1.coefs_back [of ls w h] ls(1,3)
    by simp
qed

text \<open>
  C22: the same for the 4x4 transforms.
\<close>

theorem dds_coefficients_exact:
  assumes "layers_within 16 w h ls" and "0 < w"
  shows "rbind (inverse_transform_dds (w * 4) (h * 4) ls) (\<lambda>t. transform_dds t ENCODE_ALL) = Inr ls \<and>
    rbind (inverse_transform_dds_1d (w * 4) (h * 4) ls) (\<lambda>t. transform_dds_1d t ENCODE_ALL) = Inr ls"
proof -
  note ls = layers_withinD [OF assms(1)]
  show ?thesis
    using inverse_dds_total [of "w * 4" "h * 4" ls] dds_1d_inverse_total [of "w * 4" "h * 4" ls] dds_total ls(2)
      dds.coefs_back [of ls w h] dds1.coefs_back [of ls w h] ls(1,3) assms(2)
    by simp
qed

lemma transform_layers_cong:
  assumes "\<And>l r. l < n * n \<Longrightarrow> length r = n * n \<Longrightarrow> coef l r = coef' l r"
  shows "transform_layers n coef flags s = transform_layers n coef' flags s"
proof -
  have reads: "rbind (block_reads n s x y) (\<lambda>r. Inr (to_int16 (coef l r))) = rbind (block_reads n s x y) (\<lambda>r. Inr (to_int16 (coef' l r)))"
    if "l < n * n" for l x y
    using assms [OF that] by (cases "block_reads n s x y") (auto simp: block_reads_def dest: map_result_Inr_length)
  have "map_result (\<lambda>l. rbind (encode_residual flags l) (\<lambda>enc. surface_build w h
        (\<lambda>x y. if enc then rbind (block_reads n s x y) (\<lambda>r. Inr (to_int16 (coef l r))) else Inr 0))) [0..<n * n] =
      map_result (\<lambda>l. rbind (encode_residual flags l) (\<lambda>enc. surface_build w h
        (\<lambda>x y. if enc then rbind (block_reads n s x y) (\<lambda>r. Inr (to_int16 (coef' l r))) else Inr 0))) [0..<n * n]" for w h
    by (rule map_result_cong) (simp_all add: reads cong: if_cong)
  then show ?thesis unfolding transform_layers_def Let_def by (simp only:)
qed

text \<open>
  C23: the unrolled sums of the optimised \<open>TransformDDS\<close> are the basis table of the plain loop, for
  every surface and encoding mode, errors included.
\<close>

theorem transform_dds_matrix:
  "transform_dds s mode =
     rbind (layer_encode_flags TransformType_DDS mode) (\<lambda>flags.
     transform_layers 4 (\<lambda>l r. dot r (dds_basis ! l) sdiv 16) flags s)"
proof -
  have "transform_layers 4 (\<lambda>l r. (dds_coefs ! l) (\<lambda>i j. r ! (4 * j + i))) flags s =
      transform_layers 4 (\<lambda>l r. dot r (dds_basis ! l) sdiv 16) flags s" for flags
    by (rule transform_layers_cong) (simp add: dds_unrolled)
  then show ?thesis by (simp add: transform_dds_def)
qed

text \<open>
  The layers that each mode encodes: all of them, the averages of the last step of the transform (the
  first quarter of the layers), the average of the whole block, the other layers of the first quarter,
  and none.
\<close>

definition mode_encodes :: "nat \<Rightarrow> encoding_mode \<Rightarrow> nat \<Rightarrow> bool" where
  "mode_encodes n mode l = (case mode of
     ENCODE_ALL \<Rightarrow> True | Ax \<Rightarrow> l < n * n div 4 | AA \<Rightarrow> l = 0 | NA \<Rightarrow> 0 < l \<and> l < n * n div 4 | ENCODE_NONE \<Rightarrow> False)"

definition blank_layer :: "int surface \<Rightarrow> int surface" where
  "blank_layer s = surface_of (sf_width s) (sf_height s) (\<lambda>_ _. 0)"

text \<open>The layers of \<open>all\<close> that a mode encodes, and zeros for the others.\<close>

definition encoded_layers :: "nat \<Rightarrow> encoding_mode \<Rightarrow> int surface list \<Rightarrow> int surface list" where
  "encoded_layers n mode all =
     map (\<lambda>l. if mode_encodes n mode l then all ! l else blank_layer (all ! l)) [0..<n * n]"

lemma bits_encoded:
  "mode \<noteq> AA \<Longrightarrow> encode_bits_dd mode = Inr (map (mode_encodes 2 mode) [0..<2 * 2])"
  "encode_bits_dds mode = map (mode_encodes 4 mode) [0..<4 * 4]"
proof -
  have full: "fold (\<lambda>i flags. flags[i := True]) [0..<4] (replicate 4 False) = replicate 4 True"
    "fold (\<lambda>i flags. flags[i := True]) [0..<16] (replicate 16 False) = replicate 16 True"
    by (simp_all add: upt_rec numeral_nat)
  have "mode \<noteq> AA \<Longrightarrow> \<exists>bits. encode_bits_dd mode = Inr bits \<and> length bits = 4 \<and> (\<forall>l < 4. bits ! l = mode_encodes 2 mode l)"
    by (cases mode) (auto simp: encode_bits_dd_def mode_encodes_def full nth_list_update)
  then show "mode \<noteq> AA \<Longrightarrow> encode_bits_dd mode = Inr (map (mode_encodes 2 mode) [0..<2 * 2])"
    by (auto intro!: nth_equalityI)
  show "encode_bits_dds mode = map (mode_encodes 4 mode) [0..<4 * 4]"
    by (rule nth_equalityI; cases mode) (auto simp: encode_bits_dds_def mode_encodes_def full nth_list_update)
qed

lemma transform_layers_mode:
  assumes "ef_bits flags = map (mode_encodes n mode) [0..<n * n]" and "n = 2 ^ S"
  shows "transform_layers n coef flags s =
    (if n dvd sf_width s \<and> n dvd sf_height s then Inr (encoded_layers n mode (forward_of n coef s)) else Inl CheckFailed)"
proof -
  let ?w = "sf_width s div n" and ?h = "sf_height s div n"
  have "map_result (\<lambda>l. rbind (encode_residual flags l) (\<lambda>enc. surface_build ?w ?h
      (\<lambda>x y. if enc then rbind (block_reads n s x y) (\<lambda>r. Inr (to_int16 (coef l r))) else Inr 0))) [0..<n * n] =
      Inr (encoded_layers n mode (forward_of n coef s))"
    unfolding encoded_layers_def
  proof (rule map_result_total)
    fix l assume "l \<in> set [0..<n * n]"
    then have l: "l < n * n" by simp
    then have "encode_residual flags l = Inr (mode_encodes n mode l)" by (simp add: encode_residual_def flags_size_def assms(1))
    moreover have "surface_build ?w ?h (\<lambda>x y. rbind (block_reads n s x y) (\<lambda>r. Inr (to_int16 (coef l r)))) = Inr (forward_of n coef s ! l)"
      using l assms(2) by (subst surface_build_total) (simp_all add: block_reads_total forward_of_def)
    moreover have "surface_build ?w ?h (\<lambda>x y. Inr 0) = Inr (blank_layer (forward_of n coef s ! l))"
      using l by (subst surface_build_total [of _ _ _ "\<lambda>_ _. 0"]) (auto simp: forward_of_def blank_layer_def)
    ultimately show "rbind (encode_residual flags l) (\<lambda>enc. surface_build ?w ?h
        (\<lambda>x y. if enc then rbind (block_reads n s x y) (\<lambda>r. Inr (to_int16 (coef l r))) else Inr 0)) =
        Inr (if mode_encodes n mode l then forward_of n coef s ! l else blank_layer (forward_of n coef s ! l))"
      by simp
  qed
  then show ?thesis
    unfolding transform_layers_def Let_def assms(2) One_nat_def and_pred_power check_that_def by (simp add: dvd_eq_mod_eq_0)
qed

lemma transform_2x2_mode:
  "rbind (layer_encode_flags TransformType_DD mode) (\<lambda>flags. transform_layers 2 coef flags s) =
     (if mode = AA then Inl AssertFailed
      else if 2 dvd sf_width s \<and> 2 dvd sf_height s then Inr (encoded_layers 2 mode (forward_of 2 coef s)) else Inl CheckFailed)"
proof (cases "mode = AA")
  case False
  then have "encode_bits_dd mode = Inr (map (mode_encodes 2 mode) [0..<2 * 2])" by (rule bits_encoded(1))
  then obtain flags where flags: "layer_encode_flags TransformType_DD mode = Inr flags" "ef_bits flags = map (mode_encodes 2 mode) [0..<2 * 2]"
    by (simp add: layer_encode_flags_def)
  show ?thesis unfolding flags(1) rbind.simps using transform_layers_mode [OF flags(2), of 1 coef s] False by simp
qed (simp add: layer_encode_flags_def encode_bits_dd_def)

lemma transform_4x4_mode:
  "rbind (layer_encode_flags TransformType_DDS mode) (\<lambda>flags. transform_layers 4 coef flags s) =
     (if 4 dvd sf_width s \<and> 4 dvd sf_height s then Inr (encoded_layers 4 mode (forward_of 4 coef s)) else Inl CheckFailed)"
proof -
  obtain flags where flags: "layer_encode_flags TransformType_DDS mode = Inr flags" "ef_bits flags = map (mode_encodes 4 mode) [0..<4 * 4]"
    using bits_encoded(2) [of mode] by (simp add: layer_encode_flags_def)
  show ?thesis unfolding flags(1) rbind.simps using transform_layers_mode [OF flags(2), of 2 coef s] by simp
qed

lemma encoded_all: "encoded_layers n ENCODE_ALL (forward_of n coef s) = forward_of n coef s"
  by (rule nth_equalityI) (simp_all add: encoded_layers_def mode_encodes_def forward_of_def)

text \<open>
  C24: each of the four transforms, with any encoding mode and any residuals: when a side of the plane is
  not a multiple of the block size the call fails, and the 2x2 transforms refuse mode AA; otherwise mode
  \<open>ENCODE_ALL\<close> gives all \<open>n * n\<close> layers, and every mode gives those of them that it encodes, unchanged, with
  zeros in place of the others. A mode encodes all layers, the first quarter (Ax), the very first one
  (AA), the rest of the first quarter (NA, none for 2x2) or none.
\<close>

theorem transform_modes:
  assumes "(n, transform) \<in> {(2, transform_dd), (2, transform_dd_1d), (4, transform_dds), (4, transform_dds_1d)}"
  shows "if n dvd sf_width s \<and> n dvd sf_height s then
      \<exists>all. transform s ENCODE_ALL = Inr all \<and> length all = n * n \<and>
        (\<forall>mode. transform s mode = (if n = 2 \<and> mode = AA then Inl AssertFailed else Inr (encoded_layers n mode all)))
    else \<forall>mode. transform s mode = Inl (if n = 2 \<and> mode = AA then AssertFailed else CheckFailed)"
proof -
  obtain coef where "n = 2 \<and> transform = (\<lambda>s mode. rbind (layer_encode_flags TransformType_DD mode) (\<lambda>flags. transform_layers 2 coef flags s)) \<or>
      n = 4 \<and> transform = (\<lambda>s mode. rbind (layer_encode_flags TransformType_DDS mode) (\<lambda>flags. transform_layers 4 coef flags s))"
    using assms unfolding transform_dd_def [abs_def] transform_dd_1d_def [abs_def] transform_dds_def [abs_def] transform_dds_1d_def [abs_def]
    by blast
  then have "n = 2 \<or> n = 4" and run: "transform s mode =
      (if n = 2 \<and> mode = AA then Inl AssertFailed
       else if n dvd sf_width s \<and> n dvd sf_height s then Inr (encoded_layers n mode (forward_of n coef s)) else Inl CheckFailed)" for mode
    by (elim disjE conjE; simp only: transform_2x2_mode transform_4x4_mode; simp)+
  moreover have "length (forward_of n coef s) = n * n" by (simp add: forward_of_def)
  ultimately show ?thesis unfolding run encoded_all by auto
qed

section \<open>Witnesses\<close>

definition sample_residuals :: "nat \<Rightarrow> int surface" where
  "sample_residuals n = surface_of n n (\<lambda>x y. 7 * int x - 5 * int y + 3)"

lemma sample_residuals_dims [simp]: "sf_width (sample_residuals n) = n" "sf_height (sample_residuals n) = n"
  by (simp_all add: sample_residuals_def)

lemma sample_residuals_small: "plane_within 32752 (sample_residuals 4)" "plane_within 32764 (sample_residuals 2)"
  by code_simp+

theorem dd_reconstructs_witness:
  "\<exists>layers t. transform_dd (sample_residuals 2) ENCODE_ALL = Inr layers \<and>
     inverse_transform_dd 2 2 layers = Inr t \<and> planes_apart 3 (sample_residuals 2) t"
  using dd_reconstructs [of "sample_residuals 2"] sample_residuals_small by simp

theorem dds_reconstructs_witness:
  "\<exists>layers t. transform_dds (sample_residuals 4) ENCODE_ALL = Inr layers \<and>
     inverse_transform_dds 4 4 layers = Inr t \<and> planes_apart 15 (sample_residuals 4) t"
  using dds_reconstructs [of "sample_residuals 4"] sample_residuals_small by simp

definition sample_layers :: "nat \<Rightarrow> int surface list" where
  "sample_layers m = map (\<lambda>l. surface_of 1 1 (\<lambda>x y. 100 - 9 * int l)) [0..<m]"

lemma sample_layers_within: "layers_within 4 1 1 (sample_layers 4)" "layers_within 16 1 1 (sample_layers 16)"
  by (simp_all add: layers_within_def sample_layers_def list_all_iff o_def upt_rec)

theorem dd_coefficients_exact_witness:
  "rbind (inverse_transform_dd 2 2 (sample_layers 4)) (\<lambda>t. transform_dd t ENCODE_ALL) = Inr (sample_layers 4)"
  using dd_coefficients_exact [OF sample_layers_within(1)] by simp

theorem dds_coefficients_exact_witness:
  "rbind (inverse_transform_dds 4 4 (sample_layers 16)) (\<lambda>t. transform_dds t ENCODE_ALL) = Inr (sample_layers 16)"
  using dds_coefficients_exact [OF sample_layers_within(2)] by simp

theorem transform_modes_witness:
  "(\<exists>all. transform_dds (sample_residuals 4) ENCODE_ALL = Inr all \<and> length all = 16 \<and>
     transform_dds (sample_residuals 4) NA = Inr (encoded_layers 4 NA all)) \<and>
   transform_dd (sample_residuals 3) Ax = Inl CheckFailed"
  using transform_modes [of 4 transform_dds "sample_residuals 4"] transform_modes [of 2 transform_dd "sample_residuals 3"] by auto

end
