(* ===== verification/Images.thy ===== *)
theory Images
  imports Configuration PlaneLoops
begin

text \<open>
  util/src/Image.cpp: the formats of images, their layout in memory and their planes. A plane of a
  picture has pixels of one or two bytes.
\<close>

section \<open>Formats\<close>

text \<open>The values of the enumeration are the positions in this list.\<close>

definition image_formats :: "image_format list" where
  "image_formats =
    [IMAGE_FORMAT_NONE, IMAGE_FORMAT_YUV420P8, IMAGE_FORMAT_YUV422P8, IMAGE_FORMAT_YUV444P8, IMAGE_FORMAT_Y8,
     IMAGE_FORMAT_YUV420P10, IMAGE_FORMAT_YUV422P10, IMAGE_FORMAT_YUV444P10, IMAGE_FORMAT_Y10, IMAGE_FORMAT_YUV420P12,
     IMAGE_FORMAT_YUV422P12, IMAGE_FORMAT_YUV444P12, IMAGE_FORMAT_Y12, IMAGE_FORMAT_YUV420P14, IMAGE_FORMAT_YUV422P14,
     IMAGE_FORMAT_YUV444P14, IMAGE_FORMAT_Y14, IMAGE_FORMAT_YUV420P16, IMAGE_FORMAT_YUV422P16, IMAGE_FORMAT_YUV444P16,
     IMAGE_FORMAT_Y16]"

definition format_code :: "image_format \<Rightarrow> nat" where
  "format_code f = length (takeWhile (\<lambda>g. g \<noteq> f) image_formats)"

record image_desc_info =
  ii_planes :: nat
  ii_width_mask :: nat
  ii_height_mask :: nat
  ii_width_plane_shift :: "nat list"
  ii_height_plane_shift :: "nat list"
  ii_bytes :: nat
  ii_component_bits :: nat
  ii_colourspace :: colourspace
  ii_suffix :: string

definition image_info ::
  "nat \<Rightarrow> nat \<Rightarrow> nat \<Rightarrow> nat list \<Rightarrow> nat list \<Rightarrow> nat \<Rightarrow> nat \<Rightarrow> colourspace \<Rightarrow> string \<Rightarrow> image_desc_info" where
  "image_info planes width_mask height_mask ws hs bytes component_bits cs suffix =
     \<lparr>ii_planes = planes, ii_width_mask = width_mask, ii_height_mask = height_mask,
      ii_width_plane_shift = ws, ii_height_plane_shift = hs, ii_bytes = bytes,
      ii_component_bits = component_bits, ii_colourspace = cs, ii_suffix = suffix\<rparr>"

definition s_PictureDescInfo :: "image_desc_info list" where
  "s_PictureDescInfo =
   [image_info 0 0 0 [0, 0, 0, 0] [0, 0, 0, 0] 0 0 Colourspace_YUV420 ''none'',
    image_info 3 1 1 [0, 1, 1, 0] [0, 1, 1, 0] 1 8 Colourspace_YUV420 ''_p420.yuv'',
    image_info 3 1 0 [0, 1, 1, 0] [0, 0, 0, 0] 1 8 Colourspace_YUV422 ''_p422.yuv'',
    image_info 3 1 0 [0, 0, 0, 0] [0, 0, 0, 0] 1 8 Colourspace_YUV444 ''_p444.yuv'',
    image_info 1 0 0 [0, 0, 0, 0] [0, 0, 0, 0] 1 8 Colourspace_Y ''.y'',
    image_info 3 1 1 [0, 1, 1, 0] [0, 1, 1, 0] 2 10 Colourspace_YUV420 ''_10bit_p420.yuv'',
    image_info 3 1 0 [0, 1, 1, 0] [0, 0, 0, 0] 2 10 Colourspace_YUV422 ''_10bit_p422.yuv'',
    image_info 3 1 0 [0, 0, 0, 0] [0, 0, 0, 0] 2 10 Colourspace_YUV444 ''_10bit_p444.yuv'',
    image_info 1 0 0 [0, 0, 0, 0] [0, 0, 0, 0] 2 10 Colourspace_Y ''_10bit.y'',
    image_info 3 1 1 [0, 1, 1, 0] [0, 1, 1, 0] 2 12 Colourspace_YUV420 ''_12bit_p420.yuv'',
    image_info 3 1 0 [0, 1, 1, 0] [0, 0, 0, 0] 2 12 Colourspace_YUV422 ''_12bit_p422.yuv'',
    image_info 3 1 0 [0, 0, 0, 0] [0, 0, 0, 0] 2 12 Colourspace_YUV444 ''_12bit_p444.yuv'',
    image_info 1 0 0 [0, 0, 0, 0] [0, 0, 0, 0] 2 12 Colourspace_Y ''_12bit.y'',
    image_info 3 1 1 [0, 1, 1, 0] [0, 1, 1, 0] 2 14 Colourspace_YUV420 ''_14bit_p420.yuv'',
    image_info 3 1 0 [0, 1, 1, 0] [0, 0, 0, 0] 2 14 Colourspace_YUV422 ''_14bit_p422.yuv'',
    image_info 3 1 0 [0, 0, 0, 0] [0, 0, 0, 0] 2 14 Colourspace_YUV444 ''_14bit_p444.yuv'',
    image_info 1 0 0 [0, 0, 0, 0] [0, 0, 0, 0] 2 14 Colourspace_Y ''_14bit.y'',
    image_info 3 1 1 [0, 1, 1, 0] [0, 1, 1, 0] 2 16 Colourspace_YUV420 ''_-16bit_p420.yuv'',
    image_info 3 1 0 [0, 1, 1, 0] [0, 0, 0, 0] 2 16 Colourspace_YUV422 ''_-16bit_p422.yuv'',
    image_info 3 1 0 [0, 0, 0, 0] [0, 0, 0, 0] 2 16 Colourspace_YUV444 ''_-16bit_p444.yuv'',
    image_info 1 0 0 [0, 0, 0, 0] [0, 0, 0, 0] 2 16 Colourspace_Y ''_-16bit.y'']"

section \<open>Descriptions\<close>

record image_description =
  id_format :: image_format
  id_width :: nat
  id_height :: nat

definition imagedesc :: "image_description \<Rightarrow> image_desc_info result" where
  "imagedesc d =
     rbind (assert_that (0 < format_code (id_format d) \<and> format_code (id_format d) < length s_PictureDescInfo)) (\<lambda>_.
     Inr (s_PictureDescInfo ! format_code (id_format d)))"

definition desc_num_planes :: "image_description \<Rightarrow> nat result" where
  "desc_num_planes d = rbind (imagedesc d) (\<lambda>i. Inr (ii_planes i))"

definition desc_colourspace :: "image_description \<Rightarrow> colourspace result" where
  "desc_colourspace d = rbind (imagedesc d) (\<lambda>i. Inr (ii_colourspace i))"

definition desc_bit_depth :: "image_description \<Rightarrow> nat result" where
  "desc_bit_depth d = rbind (imagedesc d) (\<lambda>i. Inr (ii_component_bits i))"

definition desc_byte_depth :: "image_description \<Rightarrow> nat result" where
  "desc_byte_depth d = rbind (imagedesc d) (\<lambda>i. Inr (ii_bytes i))"

text \<open>Every operation on a plane asserts that the format has it.\<close>

definition plane_info :: "image_description \<Rightarrow> nat \<Rightarrow> image_desc_info result" where
  "plane_info d plane =
     rbind (imagedesc d) (\<lambda>i. rbind (assert_that (plane < ii_planes i)) (\<lambda>_. Inr i))"

definition desc_width :: "image_description \<Rightarrow> nat \<Rightarrow> nat result" where
  "desc_width d plane =
     rbind (plane_info d plane) (\<lambda>i. Inr (drop_bit (ii_width_plane_shift i ! plane) (id_width d)))"

definition desc_height :: "image_description \<Rightarrow> nat \<Rightarrow> nat result" where
  "desc_height d plane =
     rbind (plane_info d plane) (\<lambda>i. Inr (drop_bit (ii_height_plane_shift i ! plane) (id_height d)))"

definition is_valid :: "image_description \<Rightarrow> bool result" where
  "is_valid d =
     rbind (imagedesc d) (\<lambda>i.
     Inr (id_width d AND ii_width_mask i = 0 \<and> id_height d AND ii_height_mask i = 0))"

section \<open>Layout\<close>

definition desc_row_size :: "image_description \<Rightarrow> nat \<Rightarrow> nat result" where
  "desc_row_size d plane =
     rbind (plane_info d plane) (\<lambda>i.
     Inr (wrap (ii_bytes i * drop_bit (ii_width_plane_shift i ! plane) (id_width d))))"

text \<open>\<open>(row_size + a) & ~a\<close> with \<open>a = 1\<close>: the next even number.\<close>

definition desc_row_stride :: "image_description \<Rightarrow> nat \<Rightarrow> nat result" where
  "desc_row_stride d plane =
     rbind (desc_row_size d plane) (\<lambda>n. Inr (unat ((word_of_nat n + 1) AND NOT 1 :: u32)))"

definition desc_plane_size :: "image_description \<Rightarrow> nat \<Rightarrow> nat result" where
  "desc_plane_size d plane =
     rbind (plane_info d plane) (\<lambda>i.
     rbind (desc_row_stride d plane) (\<lambda>n.
     Inr (wrap (n * drop_bit (ii_height_plane_shift i ! plane) (id_height d)))))"

definition planes_size :: "image_description \<Rightarrow> nat \<Rightarrow> nat result" where
  "planes_size d n = fold_result (\<lambda>p r. rbind (desc_plane_size d p) (\<lambda>s. Inr (wrap (r + s)))) [0..<n] 0"

definition byte_size :: "image_description \<Rightarrow> nat result" where
  "byte_size d = rbind (desc_num_planes d) (planes_size d)"

definition desc_row_offset :: "image_description \<Rightarrow> nat \<Rightarrow> nat \<Rightarrow> nat result" where
  "desc_row_offset d plane row =
     rbind (plane_info d plane) (\<lambda>_.
     rbind (assert_that (row < id_height d)) (\<lambda>_.
     rbind (planes_size d plane) (\<lambda>r.
     rbind (desc_row_stride d plane) (\<lambda>n. Inr (wrap (r + wrap (row * n)))))))"

definition rows_are_contiguous :: "image_description \<Rightarrow> nat \<Rightarrow> bool result" where
  "rows_are_contiguous d plane =
     rbind (desc_row_size d plane) (\<lambda>a. rbind (desc_row_stride d plane) (\<lambda>b. Inr (a = b)))"

section \<open>Other formats\<close>

text \<open>
  \<open>with_depth\<close> relies on the values of the enumeration; the subtraction is unsigned, so the format
  without a name becomes \<open>Y\<close>. The width and height are those of the first plane.
\<close>

definition with_depth :: "image_description \<Rightarrow> nat \<Rightarrow> image_description result" where
  "with_depth d depth =
     (let fmt = (format_code (id_format d) + 4294967295) mod 4294967296 mod 4 + 1 in
      rbind (if depth = 8 then Inr fmt else if depth = 10 then Inr (fmt + 4) else if depth = 12 then Inr (fmt + 8)
             else if depth = 14 then Inr (fmt + 12) else if depth = 16 then Inr (fmt + 16) else Inl CheckFailed) (\<lambda>fmt.
      rbind (desc_width d 0) (\<lambda>w.
      rbind (desc_height d 0) (\<lambda>h.
      Inr \<lparr>id_format = image_formats ! fmt, id_width = w, id_height = h\<rparr>))))"

definition with_size :: "image_description \<Rightarrow> nat \<Rightarrow> nat \<Rightarrow> image_description" where
  "with_size d width height = \<lparr>id_format = id_format d, id_width = width, id_height = height\<rparr>"

text \<open>Comparing descriptions takes the width and height of the first plane.\<close>

definition desc_equal :: "image_description \<Rightarrow> image_description \<Rightarrow> bool result" where
  "desc_equal a b =
     (if id_format a \<noteq> id_format b then Inr False else
      rbind (desc_width a 0) (\<lambda>wa. rbind (desc_width b 0) (\<lambda>wb.
      if wa \<noteq> wb then Inr False else
      rbind (desc_height a 0) (\<lambda>ha. rbind (desc_height b 0) (\<lambda>hb. Inr (ha = hb))))))"

section \<open>Names\<close>

text \<open>\<open>tolower\<close> in the C locale.\<close>

definition char_lower :: "char \<Rightarrow> char" where
  "char_lower c = (if of_char c \<in> {65 :: nat..90} then char_of (of_char c + 32 :: nat) else c)"

definition lowercase :: "string \<Rightarrow> string" where
  "lowercase s = List.map char_lower s"

definition image_format_names :: "(string \<times> image_format) list" where
  "image_format_names =
   [(''yuv'', IMAGE_FORMAT_YUV420P8),
    (''yuv420'', IMAGE_FORMAT_YUV420P8),
    (''yuv422'', IMAGE_FORMAT_YUV422P8),
    (''yuv444'', IMAGE_FORMAT_YUV444P8),
    (''yuv420p'', IMAGE_FORMAT_YUV420P8),
    (''yuv422p'', IMAGE_FORMAT_YUV422P8),
    (''yuv444p'', IMAGE_FORMAT_YUV444P8),
    (''yuv420p8'', IMAGE_FORMAT_YUV420P8),
    (''yuv422p8'', IMAGE_FORMAT_YUV422P8),
    (''yuv444p8'', IMAGE_FORMAT_YUV444P8),
    (''yuv420p10'', IMAGE_FORMAT_YUV420P10),
    (''yuv422p10'', IMAGE_FORMAT_YUV422P10),
    (''yuv444p10'', IMAGE_FORMAT_YUV444P10),
    (''yuv420p12'', IMAGE_FORMAT_YUV420P12),
    (''yuv422p12'', IMAGE_FORMAT_YUV422P12),
    (''yuv444p12'', IMAGE_FORMAT_YUV444P12),
    (''yuv420p14'', IMAGE_FORMAT_YUV420P14),
    (''yuv422p14'', IMAGE_FORMAT_YUV422P14),
    (''yuv444p14'', IMAGE_FORMAT_YUV444P14),
    (''yuv420p16'', IMAGE_FORMAT_YUV420P16),
    (''yuv422p16'', IMAGE_FORMAT_YUV422P16),
    (''yuv444p16'', IMAGE_FORMAT_YUV444P16),
    (''y'', IMAGE_FORMAT_Y8),
    (''y8'', IMAGE_FORMAT_Y8),
    (''y10'', IMAGE_FORMAT_Y10),
    (''y12'', IMAGE_FORMAT_Y12),
    (''y14'', IMAGE_FORMAT_Y14),
    (''y16'', IMAGE_FORMAT_Y16),
    (''yuv400'', IMAGE_FORMAT_Y8),
    (''yuv400p'', IMAGE_FORMAT_Y8),
    (''yuv400p10'', IMAGE_FORMAT_Y10),
    (''yuv400p12'', IMAGE_FORMAT_Y12),
    (''yuv400p14'', IMAGE_FORMAT_Y14),
    (''yuv400p16'', IMAGE_FORMAT_Y16)]"

text \<open>\<open>ERR\<close> raises as \<open>FATAL\<close> does. \<open>token\<close> is the word read from the stream.\<close>

definition parse_image_format :: "string \<Rightarrow> image_format result" where
  "parse_image_format token = (case map_of image_format_names (lowercase token) of
     Some f \<Rightarrow> Inr f | None \<Rightarrow> Inl FatalRaised)"

definition parse_colourspace :: "string \<Rightarrow> colourspace result" where
  "parse_colourspace token =
     rbind (parse_image_format token) (\<lambda>f.
     rbind (check_that (format_code f < length s_PictureDescInfo)) (\<lambda>_.
     Inr (ii_colourspace (s_PictureDescInfo ! format_code f))))"

section \<open>Planes\<close>

text \<open>
  A surface by the size of its pixels. Two-byte pixels are read as signed or unsigned numbers; a
  view with the wrong size of pixels reads past the end of the plane.
\<close>

datatype plane = Plane8 "u8 surface" | Plane16 "u16 surface"

definition surface_image :: "('p \<Rightarrow> 'q) \<Rightarrow> 'p surface \<Rightarrow> 'q surface" where
  "surface_image f s = \<lparr>sf_width = sf_width s, sf_height = sf_height s, sf_pixels = List.map f (sf_pixels s)\<rparr>"

definition view_u8 :: "plane \<Rightarrow> u8 surface result" where
  "view_u8 p = (case p of Plane8 s \<Rightarrow> Inr s | Plane16 _ \<Rightarrow> Inl UndefinedBehaviour)"

definition view_u16 :: "plane \<Rightarrow> u16 surface result" where
  "view_u16 p = (case p of Plane16 s \<Rightarrow> Inr s | Plane8 _ \<Rightarrow> Inl UndefinedBehaviour)"

definition view_s16 :: "plane \<Rightarrow> int surface result" where
  "view_s16 p = (case p of Plane16 s \<Rightarrow> Inr (surface_image sint s) | Plane8 _ \<Rightarrow> Inl UndefinedBehaviour)"

definition plane_of_s16 :: "int surface \<Rightarrow> plane" where
  "plane_of_s16 s = Plane16 (surface_image word_of_int s)"

record image =
  im_description :: image_description
  im_timestamp :: "64 word"
  im_planes :: "plane list"

definition image_plane :: "image \<Rightarrow> nat \<Rightarrow> plane result" where
  "image_plane im p = rbind (assert_that (p < length (im_planes im))) (\<lambda>_. Inr (im_planes im ! p))"

end
