(* ===== verification/Convert.thy ===== *)
theory Convert
  imports Images
begin

text \<open>
  decoder/src/Convert.cpp: conversion between pictures and the internal representation, signed with
  15 bits around zero, and between the bit depths of pictures. The shifts are below 16.
\<close>

section \<open>Internal pixels\<close>

definition half_of :: "nat \<Rightarrow> int" where
  "half_of shift = to_int16 (2 ^ shift div 2)"

definition convert_to_u8 :: "int surface \<Rightarrow> nat \<Rightarrow> u8 surface result" where
  "convert_to_u8 s shift =
     plane_rows (sf_width s) (sf_height s) (row_of s)
       (\<lambda>x y. rbind (row_read s y x) (\<lambda>p.
         Inr (word_of_int (clamp (drop_bit shift (p + 0x4000 + half_of shift)) 0 255))))"

definition convert_from_u8 :: "u8 surface \<Rightarrow> nat \<Rightarrow> int surface result" where
  "convert_from_u8 s shift =
     plane_rows (sf_width s) (sf_height s) (row_of s)
       (\<lambda>x y. rbind (row_read s y x) (\<lambda>p. Inr (to_int16 (push_bit shift (uint p) - 0x4000))))"

definition convert_to_u16 :: "int surface \<Rightarrow> nat \<Rightarrow> u16 surface result" where
  "convert_to_u16 s shift =
     plane_rows (sf_width s) (sf_height s) (row_of s)
       (\<lambda>x y. rbind (row_read s y x) (\<lambda>p.
         Inr (word_of_int (clamp (drop_bit shift (p + 0x4000 + half_of shift)) 0 (drop_bit shift 32767)))))"

definition convert_from_u16 :: "u16 surface \<Rightarrow> nat \<Rightarrow> int surface result" where
  "convert_from_u16 s shift =
     plane_rows (sf_width s) (sf_height s) (row_of s)
       (\<lambda>x y. rbind (row_read s y x) (\<lambda>p. Inr (to_int16 (push_bit shift (uint p) - 0x4000))))"

text \<open>For display.\<close>

definition convert_dump_u08_to_u10 :: "u8 surface \<Rightarrow> u16 surface result" where
  "convert_dump_u08_to_u10 s =
     plane_rows (sf_width s) (sf_height s) (row_of s)
       (\<lambda>x y. rbind (row_read s y x) (\<lambda>p. Inr (word_of_int (push_bit 2 (uint p)))))"

definition convert_dump_s15_to_u10 :: "int surface \<Rightarrow> u16 surface result" where
  "convert_dump_s15_to_u10 s =
     plane_rows (sf_width s) (sf_height s) (row_of s)
       (\<lambda>x y. rbind (row_read s y x) (\<lambda>p.
         Inr (ucast (drop_bit 5 (word_of_int p + 2 ^ 14 + 2 ^ 4 :: u32)))))"

section \<open>Depths of pictures\<close>

definition left_shift_from_u8 :: "u8 surface \<Rightarrow> nat \<Rightarrow> u16 surface result" where
  "left_shift_from_u8 s shift =
     plane_rows (sf_width s) (sf_height s) (row_of s)
       (\<lambda>x y. rbind (row_read s y x) (\<lambda>p. Inr (word_of_int (push_bit shift (uint p)))))"

definition left_shift_from_u16 :: "u16 surface \<Rightarrow> nat \<Rightarrow> u16 surface result" where
  "left_shift_from_u16 s shift =
     plane_rows (sf_width s) (sf_height s) (row_of s)
       (\<lambda>x y. rbind (row_read s y x) (\<lambda>p. Inr (word_of_int (push_bit shift (uint p)))))"

definition right_shift_to_u8 :: "u16 surface \<Rightarrow> nat \<Rightarrow> u8 surface result" where
  "right_shift_to_u8 s shift =
     plane_rows (sf_width s) (sf_height s) (row_of s)
       (\<lambda>x y. rbind (row_read s y x) (\<lambda>p. Inr (word_of_int (drop_bit shift (uint p)))))"

definition right_shift_to_u16 :: "u16 surface \<Rightarrow> nat \<Rightarrow> u16 surface result" where
  "right_shift_to_u16 s shift =
     plane_rows (sf_width s) (sf_height s) (row_of s)
       (\<lambda>x y. rbind (row_read s y x) (\<lambda>p. Inr (word_of_int (drop_bit shift (uint p)))))"

text \<open>Every depth except 8 is taken to have two bytes.\<close>

definition convert_bit_shift :: "plane \<Rightarrow> nat \<Rightarrow> nat \<Rightarrow> plane result" where
  "convert_bit_shift p depth_src depth_dst =
     (if depth_src = depth_dst then Inr p
      else if depth_src < depth_dst then
        if depth_src = 8
        then rbind (view_u8 p) (\<lambda>s. rbind (left_shift_from_u8 s (depth_dst - depth_src)) (\<lambda>d. Inr (Plane16 d)))
        else rbind (view_u16 p) (\<lambda>s. rbind (left_shift_from_u16 s (depth_dst - depth_src)) (\<lambda>d. Inr (Plane16 d)))
      else
        if depth_dst = 8
        then rbind (view_u16 p) (\<lambda>s. rbind (right_shift_to_u8 s (depth_src - depth_dst)) (\<lambda>d. Inr (Plane8 d)))
        else rbind (view_u16 p) (\<lambda>s. rbind (right_shift_to_u16 s (depth_src - depth_dst)) (\<lambda>d. Inr (Plane16 d))))"

section \<open>Between pictures and internal planes\<close>

definition convert_to_internal :: "plane \<Rightarrow> nat \<Rightarrow> int surface result" where
  "convert_to_internal p depth =
     (if depth = 8 then rbind (view_u8 p) (\<lambda>s. convert_from_u8 s 7)
      else if depth = 10 then rbind (view_u16 p) (\<lambda>s. convert_from_u16 s 5)
      else if depth = 12 then rbind (view_u16 p) (\<lambda>s. convert_from_u16 s 3)
      else if depth = 14 then rbind (view_u16 p) (\<lambda>s. convert_from_u16 s 1)
      else if depth = 16 then view_s16 p
      else Inl CheckFailed)"

definition convert_from_internal :: "int surface \<Rightarrow> nat \<Rightarrow> plane result" where
  "convert_from_internal s depth =
     (if depth = 8 then rbind (convert_to_u8 s 7) (\<lambda>d. Inr (Plane8 d))
      else if depth = 10 then rbind (convert_to_u16 s 5) (\<lambda>d. Inr (Plane16 d))
      else if depth = 12 then rbind (convert_to_u16 s 3) (\<lambda>d. Inr (Plane16 d))
      else if depth = 14 then rbind (convert_to_u16 s 1) (\<lambda>d. Inr (Plane16 d))
      else if depth = 16 then Inr (plane_of_s16 s)
      else Inl CheckFailed)"

end
