(* ===== verification/Floats.thy ===== *)
theory Floats
  imports PlaneLoops
begin

text \<open>
  Binary floating point: a value is a rational number and the result of an operation the exact one
  rounded to \<open>p\<close> significant bits (24 for \<open>float\<close>, 53 for \<open>double\<close>), to nearest and to even on a
  tie. The code's values are far from the limits of the exponent, so there is no overflow and no
  loss of bits of small numbers.
\<close>

section \<open>Rounding\<close>

definition round_half_even :: "rat \<Rightarrow> int" where
  "round_half_even x =
     (let f = \<lfloor>x\<rfloor>; r = x - of_int f in
      if r < 1 / 2 then f else if 1 / 2 < r then f + 1 else if even f then f else f + 1)"

text \<open>The exponent of the first significant bit of a positive number.\<close>

definition fl_exponent :: "rat \<Rightarrow> int" where
  "fl_exponent x =
     (if 1 \<le> x then int (ulog2 (nat \<lfloor>x\<rfloor>)) else - int (ulog2 (nat (\<lceil>1 / x\<rceil> - 1))) - 1)"

definition fl :: "nat \<Rightarrow> rat \<Rightarrow> rat" where
  "fl p x =
     (if x = 0 then 0
      else let e = fl_exponent \<bar>x\<bar> - int p + 1 in
        if 0 \<le> e then of_int (round_half_even (x / 2 ^ nat e)) * 2 ^ nat e
        else of_int (round_half_even (x * 2 ^ nat (- e))) / 2 ^ nat (- e))"

text \<open>Conversion to \<open>int32_t\<close> drops the fraction; a number outside the type has no value.\<close>

definition fl_trunc :: "rat \<Rightarrow> int" where
  "fl_trunc x = (if 0 \<le> x then \<lfloor>x\<rfloor> else \<lceil>x\<rceil>)"

definition fl_to_int32 :: "rat \<Rightarrow> int result" where
  "fl_to_int32 x =
     (if - 2147483648 \<le> fl_trunc x \<and> fl_trunc x \<le> 2147483647 then Inr (fl_trunc x) else Inl UndefinedBehaviour)"

definition fl_to_int64 :: "rat \<Rightarrow> int result" where
  "fl_to_int64 x =
     (if - (2 ^ 63) \<le> fl_trunc x \<and> fl_trunc x < 2 ^ 63 then Inr (fl_trunc x) else Inl UndefinedBehaviour)"

section \<open>Integers are exact\<close>

lemma round_half_even_int [simp]: "round_half_even (of_int i) = i"
  by (simp add: round_half_even_def)

lemma ulog2_less: "ulog2 n < k \<longleftrightarrow> n < 2 ^ k" if "0 < k"
  using that
proof (induction n arbitrary: k rule: ulog2.induct)
  case (1 n)
  show ?case
  proof (cases "n div 2 = 0")
    case True
    then have "n < 2" by simp
    moreover have "(2 :: nat) \<le> 2 ^ k" using 1(2) power_increasing [of 1 k "2 :: nat"] by simp
    ultimately show ?thesis using 1(2) by (subst ulog2.simps) simp
  next
    case False
    then have n: "2 \<le> n" by simp
    obtain j where k: "k = Suc j" using 1(2) by (cases k) auto
    show ?thesis
    proof (cases "j = 0")
      case True
      with k n False show ?thesis by (subst ulog2.simps) simp
    next
      case j: False
      then have "ulog2 (n div 2) < j \<longleftrightarrow> n div 2 < 2 ^ j" using 1(1) False by simp
      also have "\<dots> \<longleftrightarrow> n < 2 ^ k" using k by (simp add: div_less_iff_less_mult mult.commute)
      finally show ?thesis using False k by (subst ulog2.simps) simp
    qed
  qed
qed

lemma fl_int:
  assumes "\<bar>i\<bar> < 2 ^ p" and "0 < p"
  shows "fl p (of_int i) = of_int i"
proof (cases "i = 0")
  case True
  then show ?thesis by (simp add: fl_def)
next
  case False
  then have i: "1 \<le> \<bar>i\<bar>" by simp
  have abs: "\<bar>of_int i :: rat\<bar> = of_int \<bar>i\<bar>" by simp
  have one: "(1 :: rat) \<le> of_int \<bar>i\<bar>" using i by (simp del: of_int_abs)
  have "ulog2 (nat \<bar>i\<bar>) < p"
    using assms i by (simp add: ulog2_less nat_less_iff)
  then have e: "fl_exponent \<bar>of_int i :: rat\<bar> - int p + 1 \<le> 0"
    unfolding abs using one by (simp add: fl_exponent_def del: of_int_abs)
  define e' where "e' = fl_exponent \<bar>of_int i :: rat\<bar> - int p + 1"
  have "round_half_even (of_int i * 2 ^ n) = i * 2 ^ n" for n
    using round_half_even_int [of "i * 2 ^ n"] by simp
  with False e show ?thesis
    unfolding fl_def Let_def e'_def [symmetric] by (cases "e' = 0") auto
qed

lemma fl_trunc_int [simp]: "fl_trunc (of_int i) = i"
  by (simp add: fl_trunc_def)

end
