(* ===== verification/Quantization.thy ===== *)
theory Quantization
  imports Floats Configuration
begin

text \<open>
  decoder/src/InverseQuantize.cpp and encoder/src/Quantize.cpp: the step widths, offsets and dead
  zones derived from the configuration of a picture, the quantisation of coefficients and its
  inverse. \<open>log\<close> of the C library is the parameter \<open>c_log\<close>; \<open>double\<close> has 53 significant bits. The fields
  of the configuration are unsigned and read as \<open>int32_t\<close>.
\<close>

section \<open>The quantisation matrix\<close>

definition default_qm_coefficient_4x4 :: "int list list" where
  "default_qm_coefficient_4x4 =
    [[13, 26, 19, 32, 52, 1, 78, 9, 13, 26, 19, 32, 150, 91, 91, 19],
     [13, 26, 19, 32, 52, 1, 78, 9, 26, 72, 0, 3, 150, 91, 91, 19],
     [0, 0, 0, 2, 52, 1, 78, 9, 26, 72, 0, 3, 150, 91, 91, 19]]"

definition default_qm_coefficient_2x2 :: "int list list" where
  "default_qm_coefficient_2x2 = [[0, 2, 0, 0], [32, 3, 0, 32], [0, 3, 0, 32]]"

definition find_quant_matrix_coeff ::
  "picture_configuration \<Rightarrow> nat \<Rightarrow> bool \<Rightarrow> nat \<Rightarrow> nat \<Rightarrow> bool \<Rightarrow> int \<Rightarrow> int result" where
  "find_quant_matrix_coeff picture num_layers horizontal_only loq layer is_idr previous =
     (let d = (if num_layers = 4 then default_qm_coefficient_2x2 else default_qm_coefficient_4x4) !
                (if loq = LOQ_LEVEL_1 then 2 else if horizontal_only then 0 else 1);
          coefficient_2 = rbind (vector_at (pc_qm_coefficient_2 picture) layer) (\<lambda>q. Inr (sint q));
          coefficient_1 = rbind (vector_at (pc_qm_coefficient_1 picture) layer) (\<lambda>q. Inr (sint q)) in
      case pc_quant_matrix_mode picture of
        QuantMatrix_BothPrevious \<Rightarrow>
          if is_idr then vector_at d layer else if previous = -1 then vector_at d layer else Inr previous
      | QuantMatrix_BothDefault \<Rightarrow> vector_at d layer
      | QuantMatrix_SameAndCustom \<Rightarrow> coefficient_2
      | QuantMatrix_Level2CustomLevel1Default \<Rightarrow> if loq = LOQ_LEVEL_2 then coefficient_2 else vector_at d layer
      | QuantMatrix_Level2DefaultLevel1Custom \<Rightarrow> if loq = LOQ_LEVEL_1 then coefficient_1 else vector_at d layer
      | QuantMatrix_DifferentAndCustom \<Rightarrow> if loq = LOQ_LEVEL_2 then coefficient_2 else coefficient_1)"

section \<open>Step widths, offsets and dead zones\<close>

abbreviation MIN_STEP_WIDTH :: int where "MIN_STEP_WIDTH \<equiv> 1"
abbreviation MAX_STEP_WIDTH :: int where "MAX_STEP_WIDTH \<equiv> 32767"

abbreviation Aconst :: int where "Aconst \<equiv> 39"
abbreviation Bconst :: int where "Bconst \<equiv> 126484"
abbreviation Cconst :: int where "Cconst \<equiv> 5242"
abbreviation Dconst :: int where "Dconst \<equiv> 99614"

text \<open>
  Products of two \<open>int32_t\<close> overflow without meaning; those that are computed on \<open>int64_t\<close> are far
  from its limits.
\<close>

definition int32_value :: "int \<Rightarrow> int result" where
  "int32_value i = (if - 2147483648 \<le> i \<and> i \<le> 2147483647 then Inr i else Inl UndefinedBehaviour)"

definition find_dirq_step_width :: "int \<Rightarrow> int \<Rightarrow> int" where
  "find_dirq_step_width orig_step_width quant_matrix_coeff =
     (let w = quant_matrix_coeff * orig_step_width + push_bit 16 1;
          w = clamp w 0 (push_bit 16 3);
          w = drop_bit 16 (w * orig_step_width) in
      clamp w MIN_STEP_WIDTH MAX_STEP_WIDTH)"

text \<open>The logarithm of a number that is not positive is not finite, and has no integer value.\<close>

definition log_of :: "(int \<Rightarrow> rat) \<Rightarrow> int \<Rightarrow> rat result" where
  "log_of c_log n = (if 0 < n then Inr (c_log n) else Inl UndefinedBehaviour)"

definition find_invq_offset :: "(int \<Rightarrow> rat) \<Rightarrow> picture_configuration \<Rightarrow> int \<Rightarrow> int \<Rightarrow> int result" where
  "find_invq_offset c_log picture orig_step_width dirq_step_width =
     (let dequant_offset = sint (pc_dequant_offset picture) in
      if \<not> pc_dequant_offset_signalled picture then Inr 0
      else if dequant_offset = 0 then Inr dequant_offset
      else
        rbind (log_of c_log dirq_step_width) (\<lambda>ld.
        rbind (fl_to_int32 (fl 53 (of_int (- Cconst) * ld))) (\<lambda>log_orig_sw.
        rbind (log_of c_log orig_step_width) (\<lambda>lo.
        rbind (fl_to_int32 (fl 53 (of_int Cconst * lo))) (\<lambda>log_dirq_sw.
        rbind (int32_value (log_orig_sw + log_dirq_sw)) (\<lambda>logs.
        rbind (int32_value (case pc_dequant_offset_mode picture of
                 DequantOffset_ConstOffset \<Rightarrow> push_bit 9 dequant_offset
               | DequantOffset_Default \<Rightarrow> push_bit 11 dequant_offset)) (\<lambda>offset.
        Inr (to_int32 (drop_bit 16 ((logs + offset) * dirq_step_width))))))))))"

definition find_invq_step_width :: "(int \<Rightarrow> rat) \<Rightarrow> picture_configuration \<Rightarrow> int \<Rightarrow> int \<Rightarrow> int result" where
  "find_invq_step_width c_log picture dirq_step_width invq_offset =
     (if \<not> pc_dequant_offset_signalled picture then
        rbind (log_of c_log dirq_step_width) (\<lambda>ld.
        rbind (fl_to_int64 (fl 53 (of_int Dconst - fl 53 (of_int Cconst * ld)))) (\<lambda>modi.
        let modi = drop_bit 31 (modi * dirq_step_width * dirq_step_width) in
        Inr (clamp (dirq_step_width + modi) MIN_STEP_WIDTH MAX_STEP_WIDTH)))
      else case pc_dequant_offset_mode picture of
        DequantOffset_ConstOffset \<Rightarrow> Inr dirq_step_width
      | DequantOffset_Default \<Rightarrow>
          rbind (int32_value (invq_offset * dirq_step_width)) (\<lambda>modi.
          Inr (clamp (dirq_step_width + drop_bit 15 modi) MIN_STEP_WIDTH MAX_STEP_WIDTH)))"

text \<open>The step width is at most \<^term>\<open>MAX_STEP_WIDTH\<close>, so the 32 bit product does not overflow.\<close>

definition find_layer_deadzone :: "int \<Rightarrow> int \<Rightarrow> int" where
  "find_layer_deadzone orig_step_width step_width =
     (if 16 < orig_step_width then
        let deadzone = drop_bit 1 (Aconst * step_width + Bconst);
            deadzone = push_bit 16 1 - deadzone in
        drop_bit 16 (deadzone * step_width)
      else drop_bit 1 orig_step_width)"

definition find_invq_applied_offset :: "picture_configuration \<Rightarrow> int \<Rightarrow> int \<Rightarrow> int" where
  "find_invq_applied_offset picture invq_offset layer_deadzone =
     (if \<not> pc_dequant_offset_signalled picture \<or> pc_dequant_offset_mode picture = DequantOffset_Default
      then - layer_deadzone
      else invq_offset - layer_deadzone)"

section \<open>Inverse quantisation\<close>

text \<open>The conversion to 16 bits comes before the clamp, which then has no effect.\<close>

definition inverse_quantize_value :: "int \<Rightarrow> int \<Rightarrow> int \<Rightarrow> int" where
  "inverse_quantize_value layer_step_width applied_dequant_offset c =
     clamp_int16 (if 0 < c then to_int16 (c * layer_step_width + applied_dequant_offset)
                  else if c < 0 then to_int16 (c * layer_step_width - applied_dequant_offset)
                  else 0)"

definition inverse_quantize :: "int surface \<Rightarrow> int \<Rightarrow> int \<Rightarrow> int surface result" where
  "inverse_quantize src_plane layer_step_width applied_dequant_offset =
     plane_rows (sf_width src_plane) (sf_height src_plane) (row_of src_plane)
       (\<lambda>x y. rbind (row_read src_plane y x) (\<lambda>c.
         Inr (inverse_quantize_value layer_step_width applied_dequant_offset c)))"

text \<open>With a step width modifier: the first of each pair is for predicted transforms.\<close>

definition inverse_quantize_swm_value :: "int \<Rightarrow> int \<Rightarrow> int \<Rightarrow> int" where
  "inverse_quantize_swm_value layer_step_width applied_dequant_offset c =
     (if 0 < c then clamp_int16 (c * layer_step_width + applied_dequant_offset)
      else if c < 0 then clamp_int16 (c * layer_step_width - applied_dequant_offset)
      else 0)"

definition inverse_quantize_swm ::
  "int surface \<Rightarrow> int \<times> int \<Rightarrow> int \<times> int \<Rightarrow> u8 surface \<Rightarrow> int surface result" where
  "inverse_quantize_swm src_plane layer_step_width applied_dequant_offset temporal_map =
     plane_rows (sf_width src_plane) (sf_height src_plane) (row_of src_plane)
       (\<lambda>x y. rbind (row_read src_plane y x) (\<lambda>c.
         rbind (surface_read temporal_map x y) (\<lambda>m.
         Inr (if m = temporal_pred
              then inverse_quantize_swm_value (fst layer_step_width) (fst applied_dequant_offset) c
              else inverse_quantize_swm_value (snd layer_step_width) (snd applied_dequant_offset) c))))"

section \<open>Quantisation\<close>

text \<open>C++ division truncates towards zero.\<close>

definition cdiv :: "int \<Rightarrow> int \<Rightarrow> int result" where
  "cdiv a b = (if b = 0 then Inl UndefinedBehaviour else Inr (a sdiv b))"

definition sign_of :: "int \<Rightarrow> int" where
  "sign_of i = (if 0 < i then 1 else if i < 0 then - 1 else 0)"

definition quantize_value :: "int \<Rightarrow> int \<Rightarrow> int \<Rightarrow> int result" where
  "quantize_value step_width deadzone i =
     rbind (cdiv (sign_of i * i + deadzone) step_width) (\<lambda>q. Inr (to_int16 (sign_of i * max 0 q)))"

definition quantize_clamp :: "int \<Rightarrow> int" where
  "quantize_clamp out = clamp out (- 8192) 8191"

text \<open>A pixel with little motion is quantised with a reduced dead zone, itself held in 16 bits.\<close>

definition quantize_adaptive :: "nat \<Rightarrow> int \<Rightarrow> int \<Rightarrow> int \<Rightarrow> int result" where
  "quantize_adaptive threshold step_width deadzone i =
     rbind (quantize_value step_width deadzone i) (\<lambda>out.
     rbind (cdiv (to_int16 (int threshold) * deadzone) 5) (\<lambda>r.
     let r_deadzone = to_int16 r in
     rbind (cdiv (sign_of i * i + r_deadzone) step_width) (\<lambda>a.
     let reduction = sign_of i * min 1 (max 0 a) in
     rbind (cdiv (sign_of i * i + deadzone) step_width) (\<lambda>b.
     let correction = sign_of i * min 1 (max 0 b) in
     Inr (to_int16 (out + reduction - correction))))))"

definition quantize_pixel :: "int surface option \<Rightarrow> int \<Rightarrow> nat \<Rightarrow> int \<Rightarrow> int \<Rightarrow> nat \<Rightarrow> nat \<Rightarrow> int \<Rightarrow> int result" where
  "quantize_pixel pixel_sad bound threshold step_width deadzone x y i = (case pixel_sad of
     None \<Rightarrow> rbind (quantize_value step_width deadzone i) (\<lambda>out. Inr (quantize_clamp out))
   | Some s \<Rightarrow>
       rbind (surface_read s x y) (\<lambda>sad.
       rbind (if sad > bound then quantize_value step_width deadzone i
              else quantize_adaptive threshold step_width deadzone i) (\<lambda>out.
       Inr (quantize_clamp out))))"

text \<open>An empty plane of differences, and the threshold 5, switch the adaptation off.\<close>

definition quantize_mode :: "int surface option \<Rightarrow> nat \<Rightarrow> int surface option result" where
  "quantize_mode pixel_sad threshold = (case pixel_sad of
     None \<Rightarrow> Inr None
   | Some s \<Rightarrow>
       if threshold = 5 then Inr None
       else rbind (check_that (0 < threshold \<and> threshold < 5)) (\<lambda>_. Inr (Some s)))"

definition quantize ::
  "int surface \<Rightarrow> int \<Rightarrow> int \<Rightarrow> int surface option \<Rightarrow> nat \<Rightarrow> nat \<Rightarrow> int surface result" where
  "quantize src_plane dirq_step_width deadzone pixel_sad_plane transform_block_size threshold =
     rbind (quantize_mode pixel_sad_plane threshold) (\<lambda>sad.
     surface_build (sf_width src_plane) (sf_height src_plane) (\<lambda>x y.
       rbind (surface_read src_plane x y)
         (quantize_pixel sad (if transform_block_size = 4 then 200 else 100) threshold dirq_step_width deadzone x y)))"

definition quantize_swm ::
  "int surface \<Rightarrow> nat \<Rightarrow> int \<times> int \<Rightarrow> int \<times> int \<Rightarrow> u8 surface \<Rightarrow> int surface option \<Rightarrow> nat \<Rightarrow> int surface result" where
  "quantize_swm src_plane transform_block_size dirq_step_width deadzone temporal_mask pixel_sad_plane threshold =
     rbind (quantize_mode pixel_sad_plane threshold) (\<lambda>sad.
     rbind (udiv 32 transform_block_size) (\<lambda>d.
     surface_build (sf_width src_plane) (sf_height src_plane) (\<lambda>x y.
       rbind (udiv x d) (\<lambda>tx. rbind (udiv y d) (\<lambda>ty.
       rbind (surface_read temporal_mask (tx * d) (ty * d)) (\<lambda>tile_refresh.
       rbind (surface_read src_plane x y) (\<lambda>i.
       if tile_refresh = temporal_pred
       then quantize_pixel sad (if d = 8 then 200 else 100) threshold (fst dirq_step_width) (fst deadzone) x y i
       else quantize_pixel sad (if d = 8 then 200 else 100) threshold (snd dirq_step_width) (snd deadzone) x y i)))))))"

end
