(* ===== verification/Resampling.thy ===== *)
theory Resampling
  imports Convert Quantization
begin

text \<open>
  decoder/src/Upsampling.cpp, decoder/src/PredictedResidual.cpp and encoder/src/Downsampling.cpp:
  one-dimensional filters along rows and columns, and the adjustment of an upsampled plane to the
  averages of its source. The sides of planes are far below \<open>2 ^ 31\<close>.
\<close>

section \<open>Upsampling kernels\<close>

definition upsample_kernels :: "upsample \<Rightarrow> int list option" where
  "upsample_kernels u = (case u of
     Upsample_Nearest \<Rightarrow> Some [0, 16384, 0, 0]
   | Upsample_Linear \<Rightarrow> Some [0, 12288, 4096, 0]
   | Upsample_Cubic \<Rightarrow> Some [-1382, 14285, 3942, -461]
   | Upsample_ModifiedCubic \<Rightarrow> Some [-2360, 15855, 4165, -1276]
   | Upsample_AdaptiveCubic \<Rightarrow> None)"

text \<open>The signalled coefficients have 16 bits.\<close>

definition make_kernel :: "upsample \<Rightarrow> u32 list option \<Rightarrow> int list result" where
  "make_kernel u coefficients = (case upsample_kernels u of
     Some taps \<Rightarrow> Inr taps
   | None \<Rightarrow> (case coefficients of
       None \<Rightarrow> Inl CheckFailed
     | Some cs \<Rightarrow>
         rbind (vector_at cs 0) (\<lambda>c0. rbind (vector_at cs 1) (\<lambda>c1.
         rbind (vector_at cs 2) (\<lambda>c2. rbind (vector_at cs 3) (\<lambda>c3.
         Inr [- sint c0, sint c1, sint c2, - sint c3]))))))"

definition us_shift_clamp_s16 :: "int \<Rightarrow> int" where
  "us_shift_clamp_s16 v = to_int16 (drop_bit 14 v)"

section \<open>The upsampling filter\<close>

text \<open>
  A sample is the sum of four products, each an \<open>int\<close>, as is the sum; \<open>position k\<close> is where the
  \<open>k\<close>-th sample of the source is read.
\<close>

definition filter_sample :: "int list \<Rightarrow> (nat \<Rightarrow> int result) \<Rightarrow> (nat \<Rightarrow> int) \<Rightarrow> int result" where
  "filter_sample taps src position =
     rbind (fold_result (\<lambda>k d.
       rbind (vector_at taps k) (\<lambda>c.
       rbind (src (nat (position k))) (\<lambda>s.
       rbind (int32_value (c * s)) (\<lambda>p.
       int32_value (d + p))))) [0..<4] 0x2000) (\<lambda>d.
     Inr (us_shift_clamp_s16 d))"

definition upsample_samples :: "nat \<Rightarrow> int list \<Rightarrow> (nat \<Rightarrow> int result) \<Rightarrow> int result list" where
  "upsample_samples n taps src =
     (let end_of = (\<lambda>i. clamp i 0 (int n - 1));
          right = filter_sample taps src;
          left = filter_sample (rev taps) src in
      [left (\<lambda>k. end_of (int k - 2)),
       right (\<lambda>k. end_of (int k - 1)), left (\<lambda>k. end_of (int k - 1))] @
      concat (map (\<lambda>s. [right (\<lambda>k. int s + int k - 1), left (\<lambda>k. int s + int k - 1)]) [1..<n - 2]) @
      [right (\<lambda>k. end_of (int n - 3 + int k)), left (\<lambda>k. end_of (int n - 3 + int k)),
       right (\<lambda>k. end_of (int n - 2 + int k))])"

definition apply_upsample_kernel :: "nat \<Rightarrow> int list \<Rightarrow> (nat \<Rightarrow> int result) \<Rightarrow> int list result" where
  "apply_upsample_kernel n taps src =
     (if n = 0 then Inr [] else
      rbind (assert_that (4 \<le> n)) (\<lambda>_.
      map_result id (upsample_samples n taps src)))"

text \<open>Planes by columns and by rows. A column or row needs pointers to its first pixels.\<close>

definition filter_columns :: "nat \<Rightarrow> nat \<Rightarrow> (nat \<Rightarrow> int list result) \<Rightarrow> 'p surface \<Rightarrow> int surface result" where
  "filter_columns w h f src =
     rbind (map_result (\<lambda>x.
       rbind (row_start w h 0) (\<lambda>_.
       rbind (row_start (sf_width src) (sf_height src) 0) (\<lambda>_. f x))) [0..<w]) (\<lambda>columns.
     Inr (surface_of w h (\<lambda>x y. columns ! x ! y)))"

definition filter_rows :: "nat \<Rightarrow> nat \<Rightarrow> (nat \<Rightarrow> int list result) \<Rightarrow> 'p surface \<Rightarrow> int surface result" where
  "filter_rows w h f src =
     rbind (map_result (\<lambda>y.
       rbind (row_start w h y) (\<lambda>_.
       rbind (row_start (sf_width src) (sf_height src) y) (\<lambda>_. f y))) [0..<h]) (\<lambda>rows.
     Inr \<lparr>sf_width = w, sf_height = h, sf_pixels = concat rows\<rparr>)"

definition upsampling :: "int surface \<Rightarrow> upsample \<Rightarrow> u32 list option \<Rightarrow> int surface result" where
  "upsampling src_plane u coefficients =
     (let width = sf_width src_plane; height = sf_height src_plane in
      rbind (make_kernel u coefficients) (\<lambda>taps.
      rbind (filter_columns width (height * 2)
        (\<lambda>x. apply_upsample_kernel height taps (\<lambda>i. row_read src_plane i x)) src_plane) (\<lambda>intermediate.
      filter_rows (width * 2) (height * 2)
        (\<lambda>y. apply_upsample_kernel width taps (row_read intermediate y)) intermediate)))"

definition upsampling_1d :: "int surface \<Rightarrow> upsample \<Rightarrow> u32 list option \<Rightarrow> int surface result" where
  "upsampling_1d src_plane u coefficients =
     (let width = sf_width src_plane; height = sf_height src_plane in
      rbind (make_kernel u coefficients) (\<lambda>taps.
      filter_rows (2 * width) height (\<lambda>y. apply_upsample_kernel width taps (row_read src_plane y)) src_plane))"

definition upsample_image :: "image \<Rightarrow> upsample \<Rightarrow> u32 list \<Rightarrow> scaling_mode \<Rightarrow> image result" where
  "upsample_image src u coefficients scaling = (case scaling of
     ScalingMode_None \<Rightarrow> Inr src
   | _ \<Rightarrow>
       rbind (desc_num_planes (im_description src)) (\<lambda>n.
       rbind (map_result (\<lambda>p.
         rbind (image_plane src p) (\<lambda>s.
         rbind (desc_bit_depth (im_description src)) (\<lambda>depth.
         rbind (convert_to_internal s depth) (\<lambda>s.
         rbind (if scaling = ScalingMode_1D then upsampling_1d s u (Some coefficients)
                else upsampling s u (Some coefficients)) (\<lambda>scaled.
         rbind (convert_from_internal scaled depth) (\<lambda>d. Inr (d, sf_width scaled, sf_height scaled))))))) [0..<n]) (\<lambda>planes.
       rbind (vector_at planes 0) (\<lambda>(_, w, h).
       Inr (src\<lparr>im_description := \<lparr>id_format = id_format (im_description src), id_width = w, id_height = h\<rparr>,
                im_planes := map fst planes\<rparr>)))))"

section \<open>The downsampling filter\<close>

datatype downsample = Downsample_Area | Downsample_Lanczos | Downsample_Lanczos3

text \<open>The offset of the first tap and the taps.\<close>

definition downsample_kernels :: "downsample \<Rightarrow> int \<times> int list" where
  "downsample_kernels d = (case d of
     Downsample_Area \<Rightarrow> (0, [8192, 8192])
   | Downsample_Lanczos \<Rightarrow> (-3, [-383, -399, 2466, 6506, 6506, 2466, -399, -383])
   | Downsample_Lanczos3 \<Rightarrow> (-5, [60, 247, -557, -1092, 2220, 7314, 7314, 2220, -1092, -557, 247, 60]))"

text \<open>The sum has 64 bits and cannot overflow.\<close>

definition shift_clamp_s16 :: "int \<Rightarrow> nat \<Rightarrow> int" where
  "shift_clamp_s16 v shift = clamp (drop_bit shift (v + 2 ^ (shift - 1))) (- 32768) 32767"

definition apply_downsample_kernel :: "nat \<Rightarrow> int \<times> int list \<Rightarrow> (nat \<Rightarrow> int result) \<Rightarrow> int list result" where
  "apply_downsample_kernel n taps src =
     map_result (\<lambda>s.
       rbind (fold_result (\<lambda>k d.
         rbind (vector_at (snd taps) k) (\<lambda>t.
         rbind (src (nat (clamp (int s * 2 + int k + fst taps) 0 (int n * 2 - 1)))) (\<lambda>p.
         Inr (d + t * p)))) [0..<length (snd taps)] 0) (\<lambda>d.
       Inr (shift_clamp_s16 d 14))) [0..<n]"

text \<open>
  With an odd side the filter reads one pixel past the side: the first of the next row, or one past
  the plane. A column is read at a distance of the plane's width.
\<close>

definition downsampling :: "int surface \<Rightarrow> downsample \<Rightarrow> int surface result" where
  "downsampling src_plane d =
     (let dst_width = (sf_width src_plane + 1) div 2; dst_height = (sf_height src_plane + 1) div 2;
          taps = downsample_kernels d in
      rbind (filter_rows dst_width (sf_height src_plane)
        (\<lambda>y. apply_downsample_kernel dst_width taps (row_read src_plane y)) src_plane) (\<lambda>intermediate.
      filter_columns dst_width dst_height
        (\<lambda>x. apply_downsample_kernel dst_height taps (\<lambda>i. row_read intermediate i x)) intermediate))"

definition downsampling_1d :: "int surface \<Rightarrow> downsample \<Rightarrow> int surface result" where
  "downsampling_1d src_plane d =
     (let dst_width = (sf_width src_plane + 1) div 2 in
      filter_rows dst_width (sf_height src_plane)
        (\<lambda>y. apply_downsample_kernel dst_width (downsample_kernels d) (row_read src_plane y)) src_plane)"

definition downsample_image ::
  "image \<Rightarrow> downsample \<Rightarrow> downsample \<Rightarrow> scaling_mode \<Rightarrow> nat \<Rightarrow> image result" where
  "downsample_image src luma chroma scaling dst_bit_depth =
     rbind (desc_bit_depth (im_description src)) (\<lambda>src_bit_depth.
     let same = dst_bit_depth = 0 \<or> dst_bit_depth = src_bit_depth;
         dst_bit_depth = if same then src_bit_depth else dst_bit_depth in
     if same \<and> scaling = ScalingMode_None then Inr src else
     rbind (desc_num_planes (im_description src)) (\<lambda>n.
     rbind (map_result (\<lambda>p.
       rbind (image_plane src p) (\<lambda>s.
       if scaling = ScalingMode_None then convert_bit_shift s src_bit_depth dst_bit_depth
       else
         rbind (convert_to_internal s src_bit_depth) (\<lambda>s.
         rbind (if scaling = ScalingMode_1D then downsampling_1d s (if p = 0 then luma else chroma)
                else downsampling s (if p = 0 then luma else chroma)) (\<lambda>scaled.
         convert_from_internal scaled dst_bit_depth)))) [0..<n]) (\<lambda>planes.
     rbind (with_depth (im_description src) dst_bit_depth) (\<lambda>desc.
     rbind (vector_at planes 0) (\<lambda>first.
     Inr (src\<lparr>im_description := (case first of
                Plane8 s \<Rightarrow> \<lparr>id_format = id_format desc, id_width = sf_width s, id_height = sf_height s\<rparr>
              | Plane16 s \<Rightarrow> \<lparr>id_format = id_format desc, id_width = sf_width s, id_height = sf_height s\<rparr>),
              im_planes := planes\<rparr>))))))"

section \<open>Predicted residuals\<close>

text \<open>The sums are written through one pointer that walks the whole plane.\<close>

definition predicted_residual_sum :: "int surface \<Rightarrow> int surface result" where
  "predicted_residual_sum src_plane =
     (let w = sf_width src_plane div 2; h = sf_height src_plane div 2 in
      rbind (row_start w h 0) (\<lambda>_.
      plane_rows w h
        (\<lambda>y. rbind (row_of src_plane (2 * y)) (\<lambda>_. row_of src_plane (2 * y + 1)))
        (\<lambda>x y.
          rbind (row_read src_plane (2 * y) (2 * x)) (\<lambda>a.
          rbind (row_read src_plane (2 * y) (2 * x + 1)) (\<lambda>b.
          rbind (row_read src_plane (2 * y + 1) (2 * x)) (\<lambda>c.
          rbind (row_read src_plane (2 * y + 1) (2 * x + 1)) (\<lambda>d.
          Inr (a + b + c + d))))))))"

definition predicted_residual_sum_1d :: "int surface \<Rightarrow> int surface result" where
  "predicted_residual_sum_1d src =
     surface_build (sf_width src div 2) (sf_height src) (\<lambda>x y.
       rbind (surface_read src (x * 2) y) (\<lambda>a. rbind (surface_read src (x * 2 + 1) y) (\<lambda>b. Inr (a + b))))"

text \<open>
  The base and the sums are read through pointers that walk the whole planes. The pixels of an odd
  last row or column are not written.
\<close>

definition predicted_residual_adjust :: "int surface \<Rightarrow> int surface \<Rightarrow> int surface \<Rightarrow> int surface result" where
  "predicted_residual_adjust base enhanced totals =
     (let w = sf_width enhanced; h = sf_height enhanced in
      rbind (row_of base 0) (\<lambda>_.
      rbind (row_of totals 0) (\<lambda>_.
      if odd w \<or> odd h then Inl UndefinedBehaviour else
      plane_rows w h (row_of enhanced) (\<lambda>x y.
        rbind (linear_read base (y div 2 * (w div 2) + x div 2)) (\<lambda>b.
        rbind (linear_read totals (y div 2 * (w div 2) + x div 2)) (\<lambda>s.
        let adjust = b - drop_bit 2 (s + 2) in
        rbind (row_read enhanced y x) (\<lambda>e. Inr (clamp (e + adjust) (- 32767) 32767))))))))"

definition predicted_residual_adjust_1d :: "int surface \<Rightarrow> int surface \<Rightarrow> int surface \<Rightarrow> int surface result" where
  "predicted_residual_adjust_1d base enhanced totals =
     surface_build (sf_width enhanced) (sf_height enhanced) (\<lambda>x y.
       rbind (surface_read base (x div 2) y) (\<lambda>b.
       rbind (surface_read totals (x div 2) y) (\<lambda>s.
       let adjust = b - drop_bit 1 (s + 1) in
       rbind (surface_read enhanced x y) (\<lambda>e. Inr (clamp (e + adjust) (- 32767) 32767)))))"

end
