(* ===== verification/PlaneOps.thy ===== *)
theory PlaneOps
  imports PlaneLoops
begin

text \<open>
  Operations that make one plane of 16 bit pixels from others, pixel by pixel: decoder/src/Add.cpp,
  Conform.cpp, Deblocking.cpp and Expand.cpp, encoder/src/Subtract.cpp, Compare.cpp and
  ResidualMap.cpp. Sums and differences are of type \<open>int\<close>; the conversion back to 16 bits wraps.
\<close>

section \<open>Sums\<close>

definition same_size :: "'p surface \<Rightarrow> 'q surface \<Rightarrow> bool" where
  "same_size a b \<longleftrightarrow> sf_width a = sf_width b \<and> sf_height a = sf_height b"

definition add_planes :: "int surface \<Rightarrow> int surface \<Rightarrow> int surface result" where
  "add_planes a b =
     rbind (check_that (same_size a b)) (\<lambda>_.
     plane_rows (sf_width a) (sf_height a)
       (\<lambda>y. rbind (row_of a y) (\<lambda>_. row_of b y))
       (\<lambda>x y. rbind (row_read a y x) (\<lambda>p. rbind (row_read b y x) (\<lambda>q. Inr (to_int16 (p + q))))))"

definition add_highlight :: "int surface \<Rightarrow> int surface \<Rightarrow> int surface result" where
  "add_highlight a b =
     rbind (check_that (same_size a b)) (\<lambda>_.
     surface_build (sf_width a) (sf_height a) (\<lambda>x y.
       rbind (surface_read b x y) (\<lambda>v.
       rbind (surface_read a x y) (\<lambda>p.
       Inr (if v \<noteq> 0 then to_int16 (NOT (p + v)) else p)))))"

definition subtract_planes :: "int surface \<Rightarrow> int surface \<Rightarrow> int surface result" where
  "subtract_planes a b =
     rbind (check_that (same_size a b)) (\<lambda>_.
     surface_build (sf_width a) (sf_height a) (\<lambda>x y.
       rbind (surface_read a x y) (\<lambda>p. rbind (surface_read b x y) (\<lambda>q. Inr (to_int16 (p - q))))))"

section \<open>Windows and borders\<close>

text \<open>The offsets are unsigned, and so are their sums.\<close>

definition conform :: "int surface \<Rightarrow> nat \<Rightarrow> nat \<Rightarrow> nat \<Rightarrow> nat \<Rightarrow> int surface result" where
  "conform src left upper right lower =
     (let lr = wrap (left + right); tb = wrap (upper + lower) in
      rbind (check_that (lr \<le> sf_width src)) (\<lambda>_.
      rbind (check_that (tb \<le> sf_height src)) (\<lambda>_.
      surface_build (sf_width src - lr) (sf_height src - tb) (\<lambda>x y.
        surface_read src (wrap (left + x)) (wrap (upper + y))))))"

text \<open>
  \<open>clamp(x - offset_x, 0u, src_width - 1)\<close>: the difference wraps, so a pixel before the offset becomes
  the last one and not the first.
\<close>

definition border_at :: "nat \<Rightarrow> nat \<Rightarrow> nat \<Rightarrow> nat" where
  "border_at x offset n =
     clamp (wrap (x + 4294967296 - offset)) 0 (wrap (n + 4294967295))"

definition expand_plane :: "'p surface \<Rightarrow> nat \<Rightarrow> nat \<Rightarrow> nat \<Rightarrow> nat \<Rightarrow> 'p surface result" where
  "expand_plane src width height offset_x offset_y =
     surface_build width height (\<lambda>x y.
       surface_read src (border_at x offset_x (sf_width src)) (border_at y offset_y (sf_height src)))"

definition expand_u8 :: "u8 surface \<Rightarrow> nat \<Rightarrow> nat \<Rightarrow> nat \<Rightarrow> nat \<Rightarrow> u8 surface result" where
  "expand_u8 = expand_plane"

definition expand_u16 :: "u16 surface \<Rightarrow> nat \<Rightarrow> nat \<Rightarrow> nat \<Rightarrow> nat \<Rightarrow> u16 surface result" where
  "expand_u16 = expand_plane"

section \<open>Deblocking\<close>

text \<open>
  The coefficients and the product with a pixel are unsigned, the shift fills with zeros; only the
  low 16 bits of the result are kept.
\<close>

definition deblocking_coeff :: "u32 \<Rightarrow> u32 \<Rightarrow> nat \<Rightarrow> nat \<Rightarrow> u32" where
  "deblocking_coeff corner side x y =
     (let outer = (\<lambda>i. i = 0 \<or> i = 3) in
      if outer x \<and> outer y then corner else if outer x \<or> outer y then side else 16)"

definition deblocking :: "int surface \<Rightarrow> u32 \<Rightarrow> u32 \<Rightarrow> int surface result" where
  "deblocking src corner side =
     (let corner = 16 - corner; side = 16 - side in
      surface_build (sf_width src) (sf_height src) (\<lambda>x y.
        rbind (surface_read src x y) (\<lambda>p.
        Inr (to_int16 (uint (drop_bit 4 (deblocking_coeff corner side (x mod 4) (y mod 4) * word_of_int p)))))))"

section \<open>Comparing planes\<close>

definition compare_planes :: "(int \<Rightarrow> int \<Rightarrow> u8) \<Rightarrow> int surface \<Rightarrow> int surface \<Rightarrow> u8 surface result" where
  "compare_planes f a b =
     rbind (check_that (same_size a b)) (\<lambda>_.
     surface_build (sf_width a) (sf_height a) (\<lambda>x y.
       rbind (surface_read a x y) (\<lambda>p. rbind (surface_read b x y) (\<lambda>q. Inr (f p q)))))"

definition compare_ge :: "int surface \<Rightarrow> int surface \<Rightarrow> u8 surface result" where
  "compare_ge = compare_planes (\<lambda>p q. if p \<ge> q then temporal_pred else temporal_intr)"

definition compare_le :: "int surface \<Rightarrow> int surface \<Rightarrow> u8 surface result" where
  "compare_le = compare_planes (\<lambda>p q. if q \<le> p then temporal_pred else temporal_intr)"

definition compare_skip :: "int surface \<Rightarrow> int surface \<Rightarrow> nat \<Rightarrow> u8 surface result" where
  "compare_skip a b block_size =
     (let bound = to_int32 (int (4 * 2 ^ 7 * block_size * block_size)) in
      compare_planes (\<lambda>p q.
        if p \<le> q then if p \<le> bound then residual_kill else residual_live
        else if q \<le> bound then residual_kill else residual_live) a b)"

section \<open>Maps over planes\<close>

text \<open>
  A map has one entry for a block of pixels, both sides of which are powers of two times those of
  the map; \<open>covered\<close> finds the shifts from pixels to entries.
\<close>

definition covered :: "'p surface \<Rightarrow> 'q surface \<Rightarrow> (nat \<times> nat) result" where
  "covered map_plane src_plane =
     rbind (tile_scale (sf_width map_plane) (sf_width src_plane)) (\<lambda>block_w.
     rbind (tile_scale (sf_height map_plane) (sf_height src_plane)) (\<lambda>block_h.
     Inr (ulog2 block_w, ulog2 block_h)))"

definition checked_cover :: "'p surface \<Rightarrow> 'q surface \<Rightarrow> (nat \<times> nat) result" where
  "checked_cover map_plane src_plane =
     rbind (covered map_plane src_plane) (\<lambda>(sw, sh).
     rbind (check_that (sf_width src_plane = wrap (sf_width map_plane * 2 ^ sw))) (\<lambda>_.
     rbind (check_that (sf_height src_plane = wrap (sf_height map_plane * 2 ^ sh))) (\<lambda>_.
     Inr (sw, sh))))"

definition apply_residual_map :: "int surface \<Rightarrow> u8 surface \<Rightarrow> int surface result" where
  "apply_residual_map src_plane map_plane =
     rbind (checked_cover map_plane src_plane) (\<lambda>(sw, sh).
     surface_build (sf_width src_plane) (sf_height src_plane) (\<lambda>x y.
       rbind (surface_read map_plane (drop_bit sw x) (drop_bit sh y)) (\<lambda>m.
       if m = residual_kill then Inr 0 else surface_read src_plane x y)))"

definition apply_preprocessed_map :: "int surface \<Rightarrow> u8 surface \<Rightarrow> int surface result" where
  "apply_preprocessed_map = apply_residual_map"

section \<open>What they yield\<close>

definition plane16 :: "int surface \<Rightarrow> bool" where
  "plane16 s \<longleftrightarrow> surface_wf s \<and> list_all is_int16 (sf_pixels s)"

lemma plane16_pixel: "plane16 s \<Longrightarrow> x < sf_width s \<Longrightarrow> y < sf_height s \<Longrightarrow> is_int16 (pixel s x y)"
  using raster_index [of x "sf_width s" y "sf_height s"]
  by (simp add: plane16_def surface_wf_def pixel_def list_all_length)

lemma plane16_wf [simp]: "plane16 s \<Longrightarrow> surface_wf s"
  by (simp add: plane16_def)

lemma plane16_of: "plane16 (surface_of w h g) \<longleftrightarrow> (\<forall>x < w. \<forall>y < h. is_int16 (g x y))"
  by (auto simp: plane16_def surface_of_def surface_wf_def list_all_iff)

text \<open>A plane whose rows have pixels, unless it has no rows.\<close>

definition has_rows :: "'p surface \<Rightarrow> bool" where
  "has_rows s \<longleftrightarrow> 0 < sf_width s \<or> sf_height s = 0"

lemma add_planes_total:
  assumes "surface_wf a" and "surface_wf b" and "same_size a b" and "has_rows a"
  shows "add_planes a b = Inr (surface_of (sf_width a) (sf_height a) (\<lambda>x y. to_int16 (pixel a x y + pixel b x y)))"
  using assms by (simp add: add_planes_def same_size_def has_rows_def plane_rows_total)

lemma subtract_planes_total:
  assumes "same_size a b"
  shows "subtract_planes a b = Inr (surface_of (sf_width a) (sf_height a) (\<lambda>x y. to_int16 (pixel a x y - pixel b x y)))"
  using assms by (simp add: subtract_planes_def same_size_def surface_build_total)

text \<open>The difference of two planes, added back, is the first of them, whatever wrapped.\<close>

lemma add_subtract:
  assumes "plane16 a" and "plane16 b" and "same_size a b" and "has_rows a"
  shows "rbind (subtract_planes a b) (add_planes b) = Inr a"
proof -
  have d: "same_size b (surface_of (sf_width a) (sf_height a) g)" for g :: "nat \<Rightarrow> nat \<Rightarrow> int"
    using assms(3) by (simp add: same_size_def)
  have "surface_of (sf_width b) (sf_height b) (\<lambda>x y. to_int16 (pixel b x y +
      pixel (surface_of (sf_width a) (sf_height a) (\<lambda>x y. to_int16 (pixel a x y - pixel b x y))) x y)) = a"
  proof (rule surface_eqI)
    fix x y assume xy: "x < sf_width (surface_of (sf_width b) (sf_height b) (\<lambda>x y. to_int16 (pixel b x y +
      pixel (surface_of (sf_width a) (sf_height a) (\<lambda>x y. to_int16 (pixel a x y - pixel b x y))) x y)))"
      "y < sf_height (surface_of (sf_width b) (sf_height b) (\<lambda>x y. to_int16 (pixel b x y +
      pixel (surface_of (sf_width a) (sf_height a) (\<lambda>x y. to_int16 (pixel a x y - pixel b x y))) x y)))"
    then have "x < sf_width a" "y < sf_height a" using assms(3) by (simp_all add: same_size_def)
    moreover have "to_int16 (pixel b x y + to_int16 (pixel a x y - pixel b x y)) = pixel a x y"
      if "is_int16 (pixel a x y)"
      using that to_int16_add_left [of "pixel a x y - pixel b x y" "pixel b x y"] by (simp add: add.commute to_int16_id)
    ultimately show "pixel (surface_of (sf_width b) (sf_height b) (\<lambda>x y. to_int16 (pixel b x y +
      pixel (surface_of (sf_width a) (sf_height a) (\<lambda>x y. to_int16 (pixel a x y - pixel b x y))) x y))) x y = pixel a x y"
      using xy plane16_pixel [OF assms(1)] by simp
  qed (use assms in \<open>simp_all add: same_size_def\<close>)
  with assms d show ?thesis
    by (simp add: subtract_planes_total add_planes_total has_rows_def same_size_def)
qed

lemma checked_cover_total:
  assumes "0 < sf_width m" and "0 < sf_height m"
    and "sf_width s = sf_width m * 2 ^ sw" and "sf_height s = sf_height m * 2 ^ sh"
    and "sf_width s < 4294967296" and "sf_height s < 4294967296"
  shows "checked_cover m s = Inr (sw, sh)"
  using assms tile_scale_power [of "sf_width m" sw] tile_scale_power [of "sf_height m" sh]
  by (simp add: checked_cover_def covered_def)

lemma drop_bit_less: "x < n * 2 ^ k \<Longrightarrow> drop_bit k x < (n :: nat)"
  by (simp add: drop_bit_eq_div less_mult_imp_div_less)

end
