(* ===== verification/TemporalDecode.thy ===== *)
theory TemporalDecode
  imports PlaneOps Configuration
begin

text \<open>
  decoder/src/TemporalDecode.cpp: masks of intra and predicted transforms, the temporal buffer they
  apply to, reduced signalling of whole intra tiles, and user data embedded in coefficients. A
  surface that may be empty is an option.
\<close>

section \<open>Signalling embedded in symbols\<close>

definition temporal_extract_mask :: "int surface \<Rightarrow> u8 surface result" where
  "temporal_extract_mask symbols =
     plane_rows (sf_width symbols) (sf_height symbols) (row_of symbols)
       (\<lambda>x y. rbind (row_read symbols y x) (\<lambda>p. Inr (if p AND 1 \<noteq> 0 then temporal_intr else temporal_pred)))"

definition temporal_clear :: "int surface \<Rightarrow> int surface result" where
  "temporal_clear symbols =
     plane_rows (sf_width symbols) (sf_height symbols) (row_of symbols)
       (\<lambda>x y. rbind (row_read symbols y x) (\<lambda>p. Inr (drop_bit 1 p)))"

text \<open>\<open>uint16_t value = p; value >>= size; sign = value & 1; value >>= 1\<close>.\<close>

definition user_data_size :: "user_data_mode \<Rightarrow> nat result" where
  "user_data_size user_data = (case user_data of
     UserData_2bits \<Rightarrow> Inr 2 | UserData_6bits \<Rightarrow> Inr 6 | UserData_None \<Rightarrow> Inl CheckFailed)"

definition user_data_value :: "nat \<Rightarrow> int \<Rightarrow> int" where
  "user_data_value n p =
     (let value = drop_bit n (to_uint16 p); sign = value AND 1 \<noteq> 0; value = drop_bit 1 value in
      to_int16 (if sign then - value else value))"

definition user_data_clear :: "int surface \<Rightarrow> user_data_mode \<Rightarrow> int surface result" where
  "user_data_clear symbols user_data =
     rbind (user_data_size user_data) (\<lambda>n.
     plane_rows (sf_width symbols) (sf_height symbols) (row_of symbols)
       (\<lambda>x y. rbind (row_read symbols y x) (\<lambda>p. Inr (user_data_value n p))))"

section \<open>The temporal buffer\<close>

text \<open>
  \<open>TemporalUpdate\<close> makes the new temporal buffer from the old one, the residuals and the mask; an
  empty mask is replaced by one of intra transforms, which the caller sees.
\<close>

definition intra_mask :: "int surface \<Rightarrow> nat \<Rightarrow> u8 surface result" where
  "intra_mask residuals transform_block_size =
     rbind (udiv (sf_width residuals) transform_block_size) (\<lambda>w.
     rbind (udiv (sf_height residuals) transform_block_size) (\<lambda>h.
     surface_build w h (\<lambda>x y. Inr temporal_intr)))"

definition temporal_update_pixel ::
  "int surface \<Rightarrow> int surface \<Rightarrow> u8 surface \<Rightarrow> nat \<Rightarrow> nat \<Rightarrow> bool \<Rightarrow> bool \<Rightarrow> nat \<Rightarrow> nat \<Rightarrow> int result" where
  "temporal_update_pixel temporal residuals marks tb_shift d per_picture_intra use_reduced_signalling x y =
     rbind (if use_reduced_signalling then
              rbind (surface_read marks (wrap (drop_bit 5 x * d)) (wrap (drop_bit 5 y * d))) (\<lambda>m. Inr (m = temporal_intr))
            else Inr False) (\<lambda>per_tile_intra.
     rbind (surface_read marks (drop_bit tb_shift x) (drop_bit tb_shift y)) (\<lambda>m.
     if per_picture_intra \<or> per_tile_intra \<or> m = temporal_intr then row_read residuals y x
     else
       rbind (row_read residuals y x) (\<lambda>r.
       rbind (surface_read temporal x y) (\<lambda>t. Inr (to_int16 (r + t))))))"

definition temporal_update ::
  "int surface \<Rightarrow> int surface \<Rightarrow> u8 surface option \<Rightarrow> nat \<Rightarrow> bool \<Rightarrow> bool \<Rightarrow> (int surface \<times> u8 surface) result" where
  "temporal_update temporal residuals mask_plane transform_block_size per_picture_intra use_reduced_signalling =
     rbind (case mask_plane of None \<Rightarrow> intra_mask residuals transform_block_size | Some m \<Rightarrow> Inr m) (\<lambda>marks.
     rbind (udiv 32 transform_block_size) (\<lambda>d.
     rbind (plane_rows (sf_width temporal) (sf_height temporal) (row_of residuals)
       (temporal_update_pixel temporal residuals marks (ulog2 transform_block_size) d per_picture_intra use_reduced_signalling))
       (\<lambda>dest. Inr (dest, marks))))"

text \<open>
  \<open>ApplyTemporalMap\<close> clears the buffer where a transform is intra. It only copies pixels, so they may
  be of any type.
\<close>

definition apply_map :: "'p \<Rightarrow> 'p surface \<Rightarrow> u8 surface \<Rightarrow> 'p surface result" where
  "apply_map zero src_plane map_plane =
     rbind (checked_cover map_plane src_plane) (\<lambda>(sw, sh).
     plane_rows (sf_width src_plane) (sf_height src_plane) (row_of src_plane)
       (\<lambda>x y.
         rbind (surface_read map_plane (drop_bit sw x) (drop_bit sh y)) (\<lambda>m.
         if m = temporal_intr then Inr zero else row_read src_plane y x)))"

definition apply_temporal_map :: "int surface \<Rightarrow> u8 surface \<Rightarrow> int surface result" where
  "apply_temporal_map = apply_map 0"

section \<open>Tiles\<close>

text \<open>
  The tile map decides for each tile of 32 by 32 pixels from the sums of the absolute values of the
  intra and the inter symbols of its transforms. A tile has at most \<open>2 ^ 10\<close> transforms with
  symbols of at most \<open>2 ^ 15\<close>: only the difference of \<open>intra_accum_75\<close> can wrap.
\<close>

definition collect_surfaces :: "int surface list \<Rightarrow> nat \<Rightarrow> int surface list result" where
  "collect_surfaces symbols transform_block_size =
     map_result (vector_at symbols) [0..<if transform_block_size = 2 then 4 else 16]"

record tile_counts =
  ct_inter_nz :: nat
  ct_inter_z :: nat
  ct_intra_nz :: nat
  ct_intra_z :: nat
  ct_inter_accum :: nat
  ct_intra_accum :: nat
  ct_sav_mixed :: nat

definition no_counts :: tile_counts where
  "no_counts = \<lparr>ct_inter_nz = 0, ct_inter_z = 0, ct_intra_nz = 0, ct_intra_z = 0,
     ct_inter_accum = 0, ct_intra_accum = 0, ct_sav_mixed = 0\<rparr>"

definition sum_abs :: "int surface list \<Rightarrow> nat \<Rightarrow> nat \<Rightarrow> nat \<Rightarrow> nat result" where
  "sum_abs srcs n x y =
     fold_result (\<lambda>l acc.
       rbind (vector_at srcs l) (\<lambda>s. rbind (surface_read s x y) (\<lambda>p. Inr (acc + nat \<bar>p\<bar>)))) [0..<n] 0"

definition count_transform :: "nat \<Rightarrow> nat \<Rightarrow> tile_counts \<Rightarrow> tile_counts" where
  "count_transform intra_sav inter_sav c =
     (let c = (if inter_sav = 0 \<and> intra_sav = 0 then c
               else if inter_sav = 0 then c\<lparr>ct_inter_z := ct_inter_z c + 1\<rparr>
               else if intra_sav = 0 then c\<lparr>ct_intra_z := ct_intra_z c + 1\<rparr>
               else if intra_sav < inter_sav then c\<lparr>ct_intra_nz := ct_intra_nz c + 1\<rparr>
               else c\<lparr>ct_inter_nz := ct_inter_nz c + 1\<rparr>) in
      c\<lparr>ct_intra_accum := ct_intra_accum c + intra_sav, ct_inter_accum := ct_inter_accum c + inter_sav,
        ct_sav_mixed := ct_sav_mixed c + min intra_sav inter_sav\<rparr>)"

definition tile_decision :: "tile_counts \<Rightarrow> u8" where
  "tile_decision c =
     (let num_temporals = ct_intra_z c + ct_intra_nz c + ct_inter_z c + ct_inter_nz c;
          intra_pct = (100 * (ct_intra_z c + ct_intra_nz c)) div (num_temporals + 1);
          inter_pct = (100 * ct_inter_z c) div (num_temporals + 1);
          inter_accum_25 = drop_bit 2 (ct_inter_accum c);
          intra_accum_75 = wrap (ct_intra_accum c + 4294967296 - inter_accum_25) in
      if 38 < intra_pct \<and> inter_pct < 20 \<and> (intra_accum_75 \<le> ct_sav_mixed c \<or> ct_sav_mixed c < inter_accum_25)
      then temporal_intr else temporal_pred)"

definition tile_transforms :: "nat \<Rightarrow> int surface \<Rightarrow> nat \<Rightarrow> nat \<Rightarrow> (nat \<times> nat) list" where
  "tile_transforms n s x y =
     [(tx, ty). ty \<leftarrow> filter (\<lambda>ty. ty < sf_height s) [y * n..<(y + 1) * n],
                tx \<leftarrow> filter (\<lambda>tx. tx < sf_width s) [x * n..<(x + 1) * n]]"

definition temporal_tile_map :: "int surface list \<Rightarrow> int surface list \<Rightarrow> nat \<Rightarrow> u8 surface result" where
  "temporal_tile_map intra_symbols inter_symbols transform_block_size =
     rbind (udiv 32 transform_block_size) (\<lambda>n.
     rbind (vector_at intra_symbols 0) (\<lambda>first.
     let tiles_wide = wrap (wrap (sf_width first * transform_block_size) + 31) div 32;
         tiles_high = wrap (wrap (sf_height first * transform_block_size) + 31) div 32;
         layers = transform_block_size * transform_block_size in
     rbind (collect_surfaces intra_symbols transform_block_size) (\<lambda>srcs_intra.
     rbind (collect_surfaces inter_symbols transform_block_size) (\<lambda>srcs_inter.
     surface_build tiles_wide tiles_high (\<lambda>x y.
       rbind (fold_result (\<lambda>(tx, ty) c.
           rbind (sum_abs srcs_intra layers tx ty) (\<lambda>intra_sav.
           rbind (sum_abs srcs_inter layers tx ty) (\<lambda>inter_sav.
           Inr (count_transform intra_sav inter_sav c)))) (tile_transforms n first x y) no_counts) (\<lambda>c.
       Inr (tile_decision c)))))))"

text \<open>Position in a tile of \<open>n\<close> by \<open>n\<close> transforms.\<close>

definition tile_start :: "nat \<Rightarrow> nat \<Rightarrow> nat \<Rightarrow> bool" where
  "tile_start n x y \<longleftrightarrow> x mod n = 0 \<and> y mod n = 0"

definition temporal_tile_intra_signal :: "u8 surface \<Rightarrow> u8 surface \<Rightarrow> nat \<Rightarrow> u8 surface result" where
  "temporal_tile_intra_signal tile_map mask_plane transform_block_size =
     rbind (udiv 32 transform_block_size) (\<lambda>n.
     surface_build (sf_width mask_plane) (sf_height mask_plane) (\<lambda>x y.
       rbind (udiv x n) (\<lambda>tile_x.
       rbind (udiv y n) (\<lambda>tile_y.
       rbind (surface_read tile_map tile_x tile_y) (\<lambda>t.
       if t = temporal_intr then Inr temporal_intr
       else if tile_start n x y then Inr temporal_pred
       else surface_read mask_plane x y)))))"

definition temporal_tile_intra_clear ::
  "u8 surface option \<Rightarrow> int surface \<Rightarrow> nat \<Rightarrow> (int surface \<times> u8 surface) result" where
  "temporal_tile_intra_clear tile_map syms transform_block_size =
     rbind (udiv 32 transform_block_size) (\<lambda>n.
     rbind (case tile_map of
         None \<Rightarrow>
           rbind (udiv (sf_width syms) n) (\<lambda>w. rbind (udiv (sf_height syms) n) (\<lambda>h.
           surface_build w h (\<lambda>x y. Inr temporal_intr)))
       | Some m \<Rightarrow> Inr m) (\<lambda>tile_map.
     rbind (surface_build (sf_width syms) (sf_height syms) (\<lambda>x y.
       rbind (udiv x n) (\<lambda>tile_x.
       rbind (udiv y n) (\<lambda>tile_y.
       rbind (surface_read tile_map tile_x tile_y) (\<lambda>t.
       if tile_start n x y \<or> t \<noteq> temporal_intr then surface_read syms x y else Inr 0))))) (\<lambda>s.
     Inr (s, tile_map))))"

end
