(* ===== verification/ResidualDecoding.thy ===== *)
theory ResidualDecoding
  imports Resampling TemporalDecode Transforms EncodedData
begin

text \<open>
  The step widths of a plane and the decoding of residuals from symbols:
  \<open>Decoder::decode_residuals\<close> of decoder/src/Decoder.cpp, which works in the symbols' own memory, and
  \<open>Encoder::decode_residuals\<close> of encoder/src/Encoder.cpp, which does the same with the classes for
  planes.
\<close>

section \<open>Step widths\<close>

text \<open>The step width of a plane: \<open>int16_t\<close>, the chroma product unsigned.\<close>

definition plane_step_width :: "global_configuration \<Rightarrow> picture_configuration \<Rightarrow> nat \<Rightarrow> nat \<Rightarrow> int result" where
  "plane_step_width g picture plane loq =
     rbind (vector_at (pc_step_width_loq picture) loq) (\<lambda>s.
     let calculated = to_int16 (uint s) in
     Inr (if loq = LOQ_LEVEL_2 \<and> 0 < plane
          then clamp (to_int16 (uint (drop_bit 6 (word_of_int calculated * gc_chroma_step_width_multiplier g))))
                 MIN_STEP_WIDTH MAX_STEP_WIDTH
          else calculated))"

text \<open>\<open>calculated * (1 - clamp(modifier / 255, 0, 0.5))\<close> in \<open>float\<close>.\<close>

definition modified_step_width :: "global_configuration \<Rightarrow> int \<Rightarrow> int" where
  "modified_step_width g calculated =
     (let modifier = fl 24 (fl 24 (of_int (uint (gc_temporal_step_width_modifier g))) / 255);
          factor = fl 24 (1 - clamp modifier 0 (1 / 2)) in
      clamp (to_int16 (fl_trunc (fl 24 (of_int calculated * factor)))) MIN_STEP_WIDTH MAX_STEP_WIDTH)"

text \<open>One step width, or that of predicted transforms and that of intra transforms.\<close>

definition decoder_step_widths :: "global_configuration \<Rightarrow> picture_configuration \<Rightarrow> nat \<Rightarrow> nat \<Rightarrow> int list result" where
  "decoder_step_widths g picture plane loq =
     rbind (plane_step_width g picture plane loq) (\<lambda>calculated.
     Inr (if loq = LOQ_LEVEL_2 \<and> gc_temporal_enabled g \<noteq> 0 \<and> \<not> pc_temporal_refresh picture
          then [modified_step_width g calculated, calculated] else [calculated]))"

datatype temporal_swm = SWM_Disabled | SWM_Active | SWM_Dependent

definition encoder_step_widths ::
  "global_configuration \<Rightarrow> picture_configuration \<Rightarrow> nat \<Rightarrow> nat \<Rightarrow> temporal_swm \<Rightarrow> int list result" where
  "encoder_step_widths g picture plane loq swm =
     rbind (plane_step_width g picture plane loq) (\<lambda>calculated.
     Inr (if loq = LOQ_LEVEL_2 then
            case swm of
              SWM_Disabled \<Rightarrow> [calculated]
            | SWM_Active \<Rightarrow> [modified_step_width g calculated]
            | SWM_Dependent \<Rightarrow> [modified_step_width g calculated, calculated]
          else [calculated]))"

section \<open>Inverse quantisation of a layer\<close>

text \<open>The step width and the offset applied, from a step width and a matrix coefficient.\<close>

definition layer_dequant :: "(int \<Rightarrow> rat) \<Rightarrow> picture_configuration \<Rightarrow> int \<Rightarrow> int \<Rightarrow> (int \<times> int) result" where
  "layer_dequant c_log picture step_width coeff =
     (let dirq_step_width = find_dirq_step_width step_width coeff in
      rbind (find_invq_offset c_log picture step_width dirq_step_width) (\<lambda>invq_offset.
      rbind (find_invq_step_width c_log picture dirq_step_width invq_offset) (\<lambda>invq_step_width.
      let invq_deadzone = find_layer_deadzone step_width invq_step_width in
      Inr (invq_step_width, find_invq_applied_offset picture invq_offset invq_deadzone))))"

definition all_dequants ::
  "(int \<Rightarrow> rat) \<Rightarrow> picture_configuration \<Rightarrow> (nat \<Rightarrow> int) \<Rightarrow> nat \<Rightarrow> int list \<Rightarrow> (int \<times> int) list list result" where
  "all_dequants c_log picture coeffs n step_widths =
     map_result (\<lambda>step_width. map_result (\<lambda>layer. layer_dequant c_log picture step_width (coeffs layer)) [0..<n])
       step_widths"

definition is_user_data_layer :: "global_configuration \<Rightarrow> nat \<Rightarrow> nat \<Rightarrow> bool" where
  "is_user_data_layer g loq layer =
     (if loq = LOQ_LEVEL_1 \<and> gc_user_data_enabled g \<noteq> UserData_None then
        if gc_transform_block_size g = 4 then layer = 5 else layer = 1
      else False)"

section \<open>In place\<close>

text \<open>
  A pointer to the first pixel walks the whole plane. The pixels are those of the surface it was
  taken from, which nothing reads again as it was.
\<close>

definition in_place :: "('p \<Rightarrow> 'p) \<Rightarrow> 'p surface \<Rightarrow> 'p surface result" where
  "in_place f s = rbind (row_of s 0) (\<lambda>_. Inr (surface_image f s))"

definition in_place_marked :: "u8 surface \<Rightarrow> (u8 \<Rightarrow> 'p \<Rightarrow> 'p) \<Rightarrow> 'p surface \<Rightarrow> 'p surface result" where
  "in_place_marked marks f s =
     rbind (row_of s 0) (\<lambda>_.
     rbind (map_result (\<lambda>(x, y).
       rbind (surface_read marks x y) (\<lambda>m.
       rbind (linear_read s (y * sf_width s + x)) (\<lambda>p. Inr (f m p)))) (raster (sf_width s) (sf_height s))) (\<lambda>ps.
     Inr (s\<lparr>sf_pixels := ps\<rparr>)))"

definition add_in_place :: "int surface \<Rightarrow> int surface \<Rightarrow> int surface result" where
  "add_in_place a b =
     rbind (row_of b 0) (\<lambda>_.
     rbind (row_of a 0) (\<lambda>_.
     rbind (map_result (\<lambda>i.
       rbind (linear_read a i) (\<lambda>p.
       rbind (linear_read b i) (\<lambda>q. Inr (to_int16 (p + q))))) [0..<sf_height a * sf_width a]) (\<lambda>ps.
     Inr (a\<lparr>sf_pixels := ps\<rparr>))))"

text \<open>The decoder computes on \<open>int32_t\<close>, with products that cannot overflow, and clamps.\<close>

definition dequantize_in_place :: "int \<times> int \<Rightarrow> int \<Rightarrow> int" where
  "dequantize_in_place dq coef =
     clamp_int16 (coef * fst dq + (if 0 < coef then snd dq else if coef < 0 then - snd dq else 0))"

section \<open>The inverse transform\<close>

text \<open>With another block size there are no residuals, and their first use fails.\<close>

definition inverse_transform ::
  "global_configuration \<Rightarrow> bool \<Rightarrow> nat \<Rightarrow> nat \<Rightarrow> int surface list \<Rightarrow> int surface result" where
  "inverse_transform g horizontal_only width height layers =
     (if gc_transform_block_size g = 4 then
        if horizontal_only then inverse_transform_dds_1d width height layers
        else inverse_transform_dds width height layers
      else if gc_transform_block_size g = 2 then
        if horizontal_only then inverse_transform_dd_1d width height layers
        else inverse_transform_dd width height layers
      else Inl UndefinedBehaviour)"

definition is_horizontal_only :: "global_configuration \<Rightarrow> nat \<Rightarrow> bool result" where
  "is_horizontal_only g loq = rbind (vector_at (gc_scaling_mode g) loq) (\<lambda>m. Inr (m = ScalingMode_1D))"

section \<open>The decoder's residuals\<close>

definition get_temporal_mask :: "global_configuration \<Rightarrow> picture_configuration \<Rightarrow> layer_surface \<Rightarrow> u8 surface option result" where
  "get_temporal_mask g picture temporal_symbols =
     (if gc_temporal_enabled g = 0 then Inr None
      else if pc_temporal_signalling_present picture then rbind (mask_view temporal_symbols) (\<lambda>m. Inr (Some m))
      else
        rbind (udiv (unat (gc_resolution_width g)) (unat (gc_transform_block_size g))) (\<lambda>w.
        rbind (udiv (unat (gc_resolution_height g)) (unat (gc_transform_block_size g))) (\<lambda>h.
        rbind (surface_fill (if pc_temporal_refresh picture then temporal_intr else temporal_pred) w h) (\<lambda>b.
        rbind (surface_finish b) (\<lambda>s. Inr (Some s))))))"

definition decoder_coefficients ::
  "global_configuration \<Rightarrow> nat \<Rightarrow> nat \<Rightarrow> (int \<times> int) list \<Rightarrow> u8 surface option \<Rightarrow> int surface \<Rightarrow> int surface result" where
  "decoder_coefficients g loq layer dqs marks symbols =
     rbind (if is_user_data_layer g loq layer then
              rbind (user_data_size (gc_user_data_enabled g)) (\<lambda>n. in_place (user_data_value n) symbols)
            else Inr symbols) (\<lambda>symbols.
     case dqs of
       [dq] \<Rightarrow> in_place (dequantize_in_place dq) symbols
     | _ \<Rightarrow> (case marks of
         None \<Rightarrow> Inl UndefinedBehaviour
       | Some m \<Rightarrow>
           in_place_marked m (\<lambda>t. dequantize_in_place (if t = temporal_pred then dqs ! 0 else dqs ! 1)) symbols))"

definition decoder_residuals ::
  "(int \<Rightarrow> rat) \<Rightarrow> global_configuration \<Rightarrow> picture_configuration \<Rightarrow> (nat \<Rightarrow> int) \<Rightarrow> nat \<times> nat \<Rightarrow> nat \<Rightarrow> nat \<Rightarrow>
   (nat \<Rightarrow> layer_surface) \<Rightarrow> (u8 surface option \<times> int surface) result" where
  "decoder_residuals c_log g picture coeffs sizes plane loq symbols =
     (let n = unat (gc_num_residual_layers g) in
      rbind (is_horizontal_only g loq) (\<lambda>horizontal_only.
      rbind (if loq = LOQ_LEVEL_2 \<and> gc_temporal_enabled g \<noteq> 0 then get_temporal_mask g picture (symbols n)
             else Inr None) (\<lambda>temporal_mask.
      rbind (decoder_step_widths g picture plane loq) (\<lambda>step_widths.
      rbind (all_dequants c_log picture coeffs n step_widths) (\<lambda>dqs.
      rbind (map_result (\<lambda>layer.
        rbind (residual_view (symbols layer)) (\<lambda>s.
        decoder_coefficients g loq layer (map (\<lambda>pass. pass ! layer) dqs) temporal_mask s)) [0..<n]) (\<lambda>layers.
      rbind (inverse_transform g horizontal_only (fst sizes) (snd sizes) layers) (\<lambda>residuals.
      Inr (temporal_mask, residuals))))))))"

section \<open>The encoder's residuals\<close>

definition encoder_coefficients ::
  "global_configuration \<Rightarrow> nat \<Rightarrow> nat \<Rightarrow> (int \<times> int) list \<Rightarrow> u8 surface option \<Rightarrow> int surface \<Rightarrow> int surface result" where
  "encoder_coefficients g loq layer dqs marks symbols =
     rbind (if is_user_data_layer g loq layer then user_data_clear symbols (gc_user_data_enabled g)
            else Inr symbols) (\<lambda>syms.
     case dqs of
       [dq] \<Rightarrow> inverse_quantize syms (fst dq) (snd dq)
     | _ \<Rightarrow> (case marks of
         None \<Rightarrow> Inl UndefinedBehaviour
       | Some m \<Rightarrow> inverse_quantize_swm symbols (fst (dqs ! 0), fst (dqs ! 1)) (snd (dqs ! 0), snd (dqs ! 1)) m))"

definition encoder_residuals ::
  "(int \<Rightarrow> rat) \<Rightarrow> global_configuration \<Rightarrow> picture_configuration \<Rightarrow> (nat \<Rightarrow> int) \<Rightarrow> nat \<times> nat \<Rightarrow> nat \<Rightarrow> nat \<Rightarrow>
   (nat \<Rightarrow> int surface) \<Rightarrow> temporal_swm \<Rightarrow> u8 surface option \<Rightarrow> int surface result" where
  "encoder_residuals c_log g picture coeffs sizes plane loq symbols swm temporal_mask =
     (let n = unat (gc_num_residual_layers g) in
      rbind (is_horizontal_only g loq) (\<lambda>horizontal_only.
      rbind (encoder_step_widths g picture plane loq swm) (\<lambda>step_widths.
      rbind (all_dequants c_log picture coeffs n step_widths) (\<lambda>dqs.
      rbind (map_result (\<lambda>layer.
        encoder_coefficients g loq layer (map (\<lambda>pass. pass ! layer) dqs) temporal_mask (symbols layer)) [0..<n]) (\<lambda>layers.
      inverse_transform g horizontal_only (fst sizes) (snd sizes) layers)))))"

end
