(* ===== verification/ResidualAgreement.thy ===== *)
theory ResidualAgreement
  imports ResidualDecoding
begin

text \<open>
  The two ways to walk a plane are one: row by row through the classes for planes, as the encoder
  does, and in place from the first pixel to the last, as the decoder does. So the residuals of the
  encoder are those of the decoder.
\<close>

section \<open>Walks over a plane\<close>

definition solid :: "'p surface \<Rightarrow> bool" where
  "solid s \<longleftrightarrow> surface_wf s \<and> 0 < sf_width s \<and> 0 < sf_height s"

lemma solid_simps [simp]:
  "solid s \<Longrightarrow> surface_wf s" "solid s \<Longrightarrow> 0 < sf_width s" "solid s \<Longrightarrow> 0 < sf_height s"
  "solid (surface_of w h f) \<longleftrightarrow> 0 < w \<and> 0 < h"
  by (simp_all add: solid_def)

lemma map_result_append:
  "map_result f (xs @ ys) = rbind (map_result f xs) (\<lambda>us. rbind (map_result f ys) (\<lambda>vs. Inr (us @ vs)))"
  by (induction xs) (simp_all add: rbind_assoc)

lemma map_result_map: "map_result f (map g xs) = map_result (\<lambda>x. f (g x)) xs"
  by (induction xs) simp_all

lemma map_result_concat:
  "map_result f (concat xss) = rbind (map_result (map_result f) xss) (\<lambda>yss. Inr (concat yss))"
  by (induction xss) (simp_all add: map_result_append rbind_assoc)

lemma map_result_raster:
  "map_result f (raster w h) =
     rbind (map_result (\<lambda>y. map_result (\<lambda>x. f (x, y)) [0..<w]) [0..<h]) (\<lambda>rows. Inr (concat rows))"
  by (simp add: raster_product map_result_concat map_result_map o_def)

lemma plane_rows_raster:
  assumes "0 < w" and "\<And>y. y < h \<Longrightarrow> start y = Inr ()"
  shows "plane_rows w h start f =
    rbind (map_result (\<lambda>(x, y). f x y) (raster w h)) (\<lambda>ps. Inr \<lparr>sf_width = w, sf_height = h, sf_pixels = ps\<rparr>)"
proof -
  have "map_result (\<lambda>y. rbind (start y) (\<lambda>_. rbind (row_start w h y) (\<lambda>_. map_result (\<lambda>x. f x y) [0..<w]))) [0..<h] =
      map_result (\<lambda>y. map_result (\<lambda>x. f x y) [0..<w]) [0..<h]"
    by (rule map_result_cong) (use assms in simp_all)
  then show ?thesis by (simp add: plane_rows_def map_result_raster rbind_assoc)
qed

lemma row_read_linear: "row_read s y x = linear_read s (y * sf_width s + x)"
  by (simp add: row_read_def linear_read_def)

lemma linear_read_pixel:
  "surface_wf s \<Longrightarrow> x < sf_width s \<Longrightarrow> y < sf_height s \<Longrightarrow> linear_read s (y * sf_width s + x) = Inr (pixel s x y)"
  using row_read_pixel [of s x y] by (simp add: row_read_linear)

lemma pixels_replaced: "s\<lparr>sf_pixels := ps\<rparr> = \<lparr>sf_width = sf_width s, sf_height = sf_height s, sf_pixels = ps\<rparr>"
  by (cases s) simp

lemma raster_indices: "map (\<lambda>(x, y). y * w + x) (raster w h) = [0..<h * w]"
proof (rule nth_equalityI)
  fix i assume "i < length (map (\<lambda>(x, y). y * w + x) (raster w h))"
  then have i: "i < h * w" by simp
  then have w: "0 < w" by (cases w) auto
  have "i div w < h" "i mod w < w" using i w by (simp_all add: less_mult_imp_div_less)
  from raster_nth [OF this(2,1)] show "map (\<lambda>(x, y). y * w + x) (raster w h) ! i = [0..<h * w] ! i"
    using i by simp
qed simp

text \<open>The sum of two planes, in place or not.\<close>

lemma add_planes_in_place:
  assumes "same_size a b" and "0 < sf_width a" and "0 < sf_height a"
  shows "add_planes a b = add_in_place a b"
proof -
  have w: "sf_width b = sf_width a" "sf_height b = sf_height a" using assms(1) by (simp_all add: same_size_def)
  have "map_result (\<lambda>i. rbind (linear_read a i) (\<lambda>p. rbind (linear_read b i) (\<lambda>q. Inr (to_int16 (p + q)))))
          [0..<sf_height a * sf_width a] =
        map_result (\<lambda>(x, y). rbind (row_read a y x) (\<lambda>p. rbind (row_read b y x) (\<lambda>q. Inr (to_int16 (p + q)))))
          (raster (sf_width a) (sf_height a))"
    by (simp add: raster_indices [symmetric] map_result_map row_read_linear w split_def)
  then show ?thesis
    using assms by (simp add: add_planes_def plane_rows_raster add_in_place_def w pixels_replaced)
qed

lemma add_planes_sizes: "add_planes a b = Inr c \<Longrightarrow> same_size a b \<and> sf_width c = sf_width a \<and> sf_height c = sf_height a"
  by (auto simp: add_planes_def plane_rows_def)

text \<open>A function of each pixel.\<close>

lemma surface_image_of: "surface_wf s \<Longrightarrow> surface_image f s = surface_of (sf_width s) (sf_height s) (\<lambda>x y. f (pixel s x y))"
  using surface_eq_raster [of s] by (simp add: surface_image_def surface_of_def split_def)

lemma in_place_solid: "solid s \<Longrightarrow> in_place f s = Inr (surface_image f s)"
  by (simp add: in_place_def)

lemma plane_rows_pixels:
  assumes "solid s"
  shows "plane_rows (sf_width s) (sf_height s) (row_of s) (\<lambda>x y. rbind (row_read s y x) (\<lambda>p. Inr (f p))) =
    Inr (surface_image f s)"
  unfolding surface_image_of [OF solid_simps(1) [OF assms]] by (rule plane_rows_total) (use assms in simp_all)

lemma solid_image [simp]: "solid (surface_image f s) \<longleftrightarrow> solid s"
  unfolding solid_def surface_wf_def surface_image_def by simp

lemma user_data_clear_in_place:
  assumes "solid s"
  shows "user_data_clear s m = rbind (user_data_size m) (\<lambda>n. in_place (user_data_value n) s)"
  by (simp add: user_data_clear_def in_place_solid [OF assms] plane_rows_pixels [OF assms])

section \<open>Inverse quantisation\<close>

text \<open>
  The value of a coefficient before it is clamped. The encoder's class converts it to 16 bits first,
  so both agree where it fits.
\<close>

definition dequantized :: "int \<times> int \<Rightarrow> int \<Rightarrow> int" where
  "dequantized dq c = c * fst dq + (if 0 < c then snd dq else if c < 0 then - snd dq else 0)"

lemma dequantize_in_place_clamp: "dequantize_in_place dq c = clamp_int16 (dequantized dq c)"
  by (simp add: dequantize_in_place_def dequantized_def)

lemma inverse_quantize_value_fits:
  "is_int16 (dequantized dq c) \<Longrightarrow> inverse_quantize_value (fst dq) (snd dq) c = dequantize_in_place dq c"
  by (cases "c = 0"; cases "0 < c")
    (simp_all add: inverse_quantize_value_def dequantize_in_place_def dequantized_def to_int16_id)

lemma inverse_quantize_swm_value_eq: "inverse_quantize_swm_value (fst dq) (snd dq) c = dequantize_in_place dq c"
  by (simp add: inverse_quantize_swm_value_def dequantize_in_place_def clamp_int16_def clamp_def)

definition fits :: "int \<times> int \<Rightarrow> int surface \<Rightarrow> bool" where
  "fits dq s \<longleftrightarrow> list_all (\<lambda>c. is_int16 (dequantized dq c)) (sf_pixels s)"

lemma inverse_quantize_in_place:
  assumes "solid s" and "fits dq s"
  shows "inverse_quantize s (fst dq) (snd dq) = in_place (dequantize_in_place dq) s"
proof -
  have "inverse_quantize_value (fst dq) (snd dq) (pixel s x y) = dequantize_in_place dq (pixel s x y)"
    if "x < sf_width s" "y < sf_height s" for x y
    using assms(2) solid_simps(1) [OF assms(1)] raster_index [OF that]
    by (intro inverse_quantize_value_fits) (simp add: fits_def list_all_length pixel_def surface_wf_def)
  then have "inverse_quantize s (fst dq) (snd dq) =
      Inr (surface_of (sf_width s) (sf_height s) (\<lambda>x y. dequantize_in_place dq (pixel s x y)))"
    using assms(1) by (simp add: inverse_quantize_def plane_rows_total)
  then show ?thesis using assms(1) by (simp add: in_place_solid surface_image_of)
qed

lemma inverse_quantize_swm_in_place:
  assumes "solid s"
  shows "inverse_quantize_swm s (fst dq0, fst dq1) (snd dq0, snd dq1) m =
    in_place_marked m (\<lambda>t. dequantize_in_place (if t = temporal_pred then dq0 else dq1)) s"
proof -
  have "map_result (\<lambda>(x, y). rbind (row_read s y x) (\<lambda>c. rbind (surface_read m x y) (\<lambda>t. Inr (f t c))))
      (raster (sf_width s) (sf_height s)) =
    map_result (\<lambda>(x, y). rbind (surface_read m x y) (\<lambda>t. rbind (linear_read s (y * sf_width s + x)) (\<lambda>c. Inr (f t c))))
      (raster (sf_width s) (sf_height s))" for f :: "u8 \<Rightarrow> int \<Rightarrow> int"
    by (rule map_result_cong) (use assms in \<open>auto simp: linear_read_pixel\<close>)
  from this [of "\<lambda>t c. dequantize_in_place (if t = temporal_pred then dq0 else dq1) c"] show ?thesis
    using assms by (simp add: inverse_quantize_swm_def in_place_marked_def plane_rows_raster inverse_quantize_swm_value_eq
        pixels_replaced if_distrib [where f = "\<lambda>d. dequantize_in_place d _"] if_distribR cong: if_cong)
qed

section \<open>Residuals\<close>

text \<open>
  Where nothing wraps: with one step width the coefficients fit 16 bits before they are clamped. With
  two of them the encoder clamps as the decoder does.
\<close>

definition layer_fits :: "global_configuration \<Rightarrow> nat \<Rightarrow> nat \<Rightarrow> (int \<times> int) list \<Rightarrow> int surface \<Rightarrow> bool" where
  "layer_fits g loq layer dqs s = (case dqs of
     [dq] \<Rightarrow>
       if is_user_data_layer g loq layer then
         (case user_data_size (gc_user_data_enabled g) of
            Inr n \<Rightarrow> fits dq (surface_image (user_data_value n) s) | Inl _ \<Rightarrow> True)
       else fits dq s
   | _ \<Rightarrow> True)"

definition residuals_fit ::
  "(int \<Rightarrow> rat) \<Rightarrow> global_configuration \<Rightarrow> picture_configuration \<Rightarrow> (nat \<Rightarrow> int) \<Rightarrow> nat \<Rightarrow> nat \<Rightarrow> temporal_swm \<Rightarrow>
   (nat \<Rightarrow> int surface) \<Rightarrow> bool" where
  "residuals_fit c_log g picture coeffs plane loq swm symbols =
     (let n = unat (gc_num_residual_layers g) in
      case rbind (encoder_step_widths g picture plane loq swm) (all_dequants c_log picture coeffs n) of
        Inl _ \<Rightarrow> True
      | Inr dqs \<Rightarrow> list_all (\<lambda>layer. layer_fits g loq layer (map (\<lambda>pass. pass ! layer) dqs) (symbols layer)) [0..<n])"

lemma not_user_data_level_2 [simp]: "\<not> is_user_data_layer g LOQ_LEVEL_2 layer"
  by (simp add: is_user_data_layer_def)

lemma coefficients_agree:
  assumes "solid s" and "layer_fits g loq layer dqs s" and "length dqs = 1 \<or> loq = LOQ_LEVEL_2 \<and> m = marks"
  shows "decoder_coefficients g loq layer dqs marks s = encoder_coefficients g loq layer dqs m s"
proof (cases "\<exists>dq. dqs = [dq]")
  case True
  then obtain dq where dqs: "dqs = [dq]" ..
  show ?thesis
  proof (cases "is_user_data_layer g loq layer")
    case user: True
    show ?thesis
    proof (cases "user_data_size (gc_user_data_enabled g)")
      case (Inr n)
      then have "fits dq (surface_image (user_data_value n) s)" using assms(2) user by (simp add: layer_fits_def dqs)
      with assms(1) user Inr show ?thesis
        by (simp add: decoder_coefficients_def encoder_coefficients_def user_data_clear_in_place dqs in_place_solid
            inverse_quantize_in_place)
    qed (use assms(1) user in \<open>simp add: decoder_coefficients_def encoder_coefficients_def user_data_clear_in_place\<close>)
  next
    case False
    then have "fits dq s" using assms(2) by (simp add: layer_fits_def dqs)
    with assms(1) False show ?thesis
      by (simp add: decoder_coefficients_def encoder_coefficients_def dqs inverse_quantize_in_place)
  qed
next
  case False
  then have "length dqs \<noteq> 1" by (auto simp: length_Suc_conv)
  with assms(3) have loq: "loq = LOQ_LEVEL_2" "m = marks" by auto
  have rest: "(case dqs of [] \<Rightarrow> w | [dq] \<Rightarrow> v dq | dq # a # as \<Rightarrow> w) = w" for v and w :: "int surface result"
    using False by (auto split: list.split)
  show ?thesis
    by (simp add: decoder_coefficients_def encoder_coefficients_def loq rest inverse_quantize_swm_in_place [OF assms(1)]
        cong: option.case_cong if_cong)
qed

lemma all_dequants_length: "all_dequants c_log picture coeffs n sws = Inr dqs \<Longrightarrow> length dqs = length sws"
  by (auto simp: all_dequants_def dest: map_result_Inr_length)

text \<open>The step width modifier that the encoder asked for is the one the decoder finds signalled.\<close>

definition signalled_swm :: "global_configuration \<Rightarrow> picture_configuration \<Rightarrow> nat \<Rightarrow> temporal_swm" where
  "signalled_swm g picture loq =
     (if loq = LOQ_LEVEL_2 \<and> gc_temporal_enabled g \<noteq> 0 \<and> \<not> pc_temporal_refresh picture then SWM_Dependent
      else SWM_Disabled)"

lemma step_widths_agree: "decoder_step_widths g picture plane loq = encoder_step_widths g picture plane loq (signalled_swm g picture loq)"
  by (simp add: decoder_step_widths_def encoder_step_widths_def signalled_swm_def cong: if_cong)

lemma single_step_width:
  "encoder_step_widths g picture plane loq SWM_Disabled = Inr sws \<Longrightarrow> length sws = 1"
  by (auto simp: encoder_step_widths_def)

lemma residuals_agree:
  assumes layers: "\<And>layer. layer < unat (gc_num_residual_layers g) \<Longrightarrow>
      sent layer = Residual_Surface (symbols layer) \<and> solid (symbols layer)"
    and marks: "(if loq = LOQ_LEVEL_2 \<and> gc_temporal_enabled g \<noteq> 0
      then get_temporal_mask g picture (sent (unat (gc_num_residual_layers g))) else Inr None) = Inr marks"
    and swm: "swm = signalled_swm g picture loq" and m: "swm = SWM_Dependent \<Longrightarrow> m = marks"
    and fit: "residuals_fit c_log g picture coeffs plane loq swm symbols"
  shows "decoder_residuals c_log g picture coeffs sizes plane loq sent =
    rbind (encoder_residuals c_log g picture coeffs sizes plane loq symbols swm m) (\<lambda>r. Inr (marks, r))"
proof -
  let ?n = "unat (gc_num_residual_layers g)"
  have layer_eq: "map_result (\<lambda>layer. rbind (residual_view (sent layer)) (\<lambda>s.
        decoder_coefficients g loq layer (map (\<lambda>pass. pass ! layer) dqs) marks s)) [0..<?n] =
      map_result (\<lambda>layer. encoder_coefficients g loq layer (map (\<lambda>pass. pass ! layer) dqs) m (symbols layer)) [0..<?n]"
    if sws: "encoder_step_widths g picture plane loq swm = Inr sws" and dqs: "all_dequants c_log picture coeffs ?n sws = Inr dqs" for sws dqs
  proof (rule map_result_cong [OF refl])
    fix layer assume "layer \<in> set [0..<?n]"
    then have l: "layer < ?n" by simp
    have "layer_fits g loq layer (map (\<lambda>pass. pass ! layer) dqs) (symbols layer)"
      using fit l by (simp add: residuals_fit_def sws dqs list_all_iff)
    moreover have "length (map (\<lambda>pass. pass ! layer) dqs) = 1 \<or> loq = LOQ_LEVEL_2 \<and> m = marks"
      using m swm sws all_dequants_length [OF dqs] single_step_width by (auto simp: signalled_swm_def split: if_splits)
    ultimately have "decoder_coefficients g loq layer (map (\<lambda>pass. pass ! layer) dqs) marks (symbols layer) =
        encoder_coefficients g loq layer (map (\<lambda>pass. pass ! layer) dqs) m (symbols layer)"
      using layers [OF l] by (intro coefficients_agree) auto
    with layers [OF l] show "rbind (residual_view (sent layer)) (\<lambda>s.
        decoder_coefficients g loq layer (map (\<lambda>pass. pass ! layer) dqs) marks s) =
      encoder_coefficients g loq layer (map (\<lambda>pass. pass ! layer) dqs) m (symbols layer)" by simp
  qed
  show ?thesis
    unfolding decoder_residuals_def encoder_residuals_def Let_def marks step_widths_agree swm [symmetric]
    by (auto simp: rbind_assoc layer_eq intro!: rbind_cong)
qed

end
