(* ===== verification/Dithering.thy ===== *)
theory Dithering
  imports PlaneLoops
begin

text \<open>
  decoder/src/Dithering.cpp: a linear congruential generator, whose state is a static variable of 64
  bits, the dithering buffer filled from it, and the noise added to a plane block by block. The
  position of each block in the buffer comes from \<open>rand\<close> of the C library and not from the
  generator: \<open>lib n\<close> is the result of its \<open>n\<close>-th call.
\<close>

section \<open>The generator\<close>

type_synonym random_state = "64 word"

definition random_rand :: "random_state \<Rightarrow> nat \<times> random_state" where
  "random_rand next =
     (let next = next * 1103515245 + 12345 in
      (unat (ucast (next div 65536) :: u32) mod 32768, next))"

definition random_srand :: "u32 \<Rightarrow> random_state" where
  "random_srand seed = ucast seed"

lemma random_rand_less: "fst (random_rand next) < 32768"
  by (simp add: random_rand_def Let_def)

section \<open>The buffer\<close>

abbreviation DITHER_BUFFER_SIZE :: nat where "DITHER_BUFFER_SIZE \<equiv> 65536"

fun dither_values :: "nat \<Rightarrow> int \<Rightarrow> random_state \<Rightarrow> int list \<times> random_state" where
  "dither_values 0 strength next = ([], next)"
| "dither_values (Suc n) strength next =
     (let (r, next) = random_rand next;
          v = \<bar>int r\<bar> mod (2 * strength + 1) - strength;
          (vs, next) = dither_values n strength next in
      (v # vs, next))"

text \<open>\<open>now\<close> is the result of \<open>time\<close>. The strength has five bits and the depth is one of 8, 10, 12, 14, 16.\<close>

definition make_buffer :: "u32 \<Rightarrow> nat \<Rightarrow> nat \<Rightarrow> bool \<Rightarrow> (int list \<times> random_state) result" where
  "make_buffer now strength enhancement_depth fixed_seed =
     (if 15 < enhancement_depth then Inl UndefinedBehaviour
      else Inr (dither_values DITHER_BUFFER_SIZE (int (strength * 2 ^ (15 - enhancement_depth)))
             (random_srand (if fixed_seed then 45721 else now))))"

section \<open>The noise\<close>

text \<open>
  Block sizes are 2 and 4; a block of the size of the buffer makes the code divide by zero, one of
  size zero never ends.
\<close>

definition dither_block ::
  "int list \<Rightarrow> int surface \<Rightarrow> nat \<Rightarrow> nat \<Rightarrow> nat \<Rightarrow> nat \<Rightarrow> int surface_builder \<Rightarrow> int surface_builder result" where
  "dither_block buffer src_plane block_size x y start =
     fold_result (\<lambda>(k, h) b.
       rbind (surface_read src_plane (x + k) (y + h)) (\<lambda>p.
       rbind (vector_at buffer (start + h * block_size + k)) (\<lambda>d.
       surface_write (x + k) (y + h) (to_int16 (p + d)) b))) (raster block_size block_size)"

definition dithering :: "(nat \<Rightarrow> nat) \<Rightarrow> int list \<Rightarrow> int surface \<Rightarrow> nat \<Rightarrow> nat \<Rightarrow> (int surface \<times> nat) result" where
  "dithering lib buffer src_plane block_size calls =
     (if block_size = 0 \<or> DITHER_BUFFER_SIZE \<le> block_size * block_size then Inl UndefinedBehaviour else
      rbind (fold_result (\<lambda>(x, y) (b, calls).
          rbind (dither_block buffer src_plane block_size x y
            (lib calls mod (DITHER_BUFFER_SIZE - block_size * block_size)) b) (\<lambda>b. Inr (b, calls + 1)))
        [(x, y). y \<leftarrow> steps block_size (sf_height src_plane), x \<leftarrow> steps block_size (sf_width src_plane)]
        (surface_reserve (sf_width src_plane) (sf_height src_plane), calls)) (\<lambda>(b, calls).
      rbind (surface_finish b) (\<lambda>s. Inr (s, calls))))"

section \<open>Bounds\<close>

lemma dither_values_bounds:
  assumes "0 \<le> strength"
  shows "v \<in> set (fst (dither_values n strength next)) \<Longrightarrow> \<bar>v\<bar> \<le> strength"
proof (induction n arbitrary: "next")
  case (Suc n)
  obtain r next' where r: "random_rand next = (r, next')" by force
  obtain vs next'' where vs: "dither_values n strength next' = (vs, next'')" by force
  have "0 \<le> int r mod (2 * strength + 1)" "int r mod (2 * strength + 1) < 2 * strength + 1"
    by (rule pos_mod_sign pos_mod_bound, use assms in linarith)+
  then have "\<bar>int r mod (2 * strength + 1) - strength\<bar> \<le> strength" by linarith
  with Suc.IH [of next'] Suc.prems show ?case by (auto simp: r vs)
qed simp

lemma dither_values_length: "length (fst (dither_values n strength next)) = n"
proof (induction n arbitrary: "next")
  case (Suc n)
  then show ?case by (auto split: prod.split) (metis fst_conv)
qed simp

end
