(* ===== verification/TemporalEncode.thy ===== *)
theory TemporalEncode
  imports TemporalDecode Dithering Floats
begin

text \<open>
  encoder/src/TemporalEncode.cpp: the costs of intra and predicted transforms, the residuals the
  mask selects, and what is embedded in coefficients: the signalling of the mask and user data.
\<close>

section \<open>Costs\<close>

text \<open>The sum of the absolute differences over the block of a transform, and the saturated cost.\<close>

definition block_positions :: "nat \<Rightarrow> nat \<Rightarrow> nat \<Rightarrow> (nat \<times> nat) list" where
  "block_positions n block_x block_y =
     [(x, y). x \<leftarrow> [block_x * n..<(block_x + 1) * n], y \<leftarrow> [block_y * n..<(block_y + 1) * n]]"

definition block_sum :: "(nat \<Rightarrow> nat \<Rightarrow> int result) \<Rightarrow> nat \<Rightarrow> nat \<Rightarrow> nat \<Rightarrow> int result" where
  "block_sum f n block_x block_y =
     fold_result (\<lambda>(x, y) t. rbind (f x y) (\<lambda>d. Inr (t + \<bar>d\<bar>))) (block_positions n block_x block_y) 0"

definition difference :: "int surface \<Rightarrow> int surface \<Rightarrow> nat \<Rightarrow> nat \<Rightarrow> int result" where
  "difference src recon x y =
     rbind (surface_read src x y) (\<lambda>p. rbind (surface_read recon x y) (\<lambda>q. Inr (p - q)))"

definition non_zero :: "int surface list \<Rightarrow> nat list \<Rightarrow> nat \<Rightarrow> nat \<Rightarrow> int result" where
  "non_zero symbols layers block_x block_y =
     fold_result (\<lambda>l t.
       rbind (vector_at symbols l) (\<lambda>s.
       rbind (surface_read s block_x block_y) (\<lambda>p. Inr (t + (if p \<noteq> 0 then 1 else 0))))) layers 0"

definition cost_dimensions :: "int surface \<Rightarrow> int surface \<Rightarrow> int surface list \<Rightarrow> nat \<Rightarrow> (nat \<times> nat) result" where
  "cost_dimensions sour reco symbols n =
     rbind (check_that (same_size sour reco)) (\<lambda>_.
     rbind (vector_at symbols 0) (\<lambda>s.
     rbind (check_that (sf_width sour = wrap (sf_width s * n) \<and> sf_height sour = wrap (sf_height s * n))) (\<lambda>_.
     rbind (udiv (sf_width sour) n) (\<lambda>w. rbind (udiv (sf_height sour) n) (\<lambda>h. Inr (w, h))))))"

text \<open>\<open>0.6f\<close> is the rational number with 24 significant bits next to 0.6.\<close>

definition cost_2x2 :: "nat \<Rightarrow> int \<Rightarrow> int \<Rightarrow> int" where
  "cost_2x2 scale t0 t1 =
     (let lambda = fl 24 (fl 24 (of_nat scale) * fl 24 (3 / 5));
          cost = fl 24 (fl 24 (of_int t0) + fl 24 (lambda * of_int t1)) in
      if cost < 32767 then fl_trunc cost else 32767)"

definition temporal_cost_2x2 ::
  "int surface \<Rightarrow> int surface \<Rightarrow> int surface list \<Rightarrow> nat \<Rightarrow> nat \<Rightarrow> bool \<Rightarrow> int surface result" where
  "temporal_cost_2x2 sour reco symbols transform_block_size scale intra =
     rbind (cost_dimensions sour reco symbols transform_block_size) (\<lambda>(w, h).
     surface_build w h (\<lambda>block_x block_y.
       rbind (block_sum (difference sour reco) transform_block_size block_x block_y) (\<lambda>t0.
       rbind (non_zero symbols (if intra then [0, 2, 3] else [0, 1, 2, 3]) block_x block_y) (\<lambda>t1.
       Inr (cost_2x2 scale t0 (t1 + (if intra then 1 else 0)))))))"

text \<open>Here the sum is one of unsigned numbers, and wraps.\<close>

definition cost_4x4 :: "nat \<Rightarrow> int \<Rightarrow> int \<Rightarrow> int" where
  "cost_4x4 scale t0 t1 =
     (let cost = fl 24 (of_int ((t0 + int scale * t1) mod 4294967296)) in
      if cost < 32767 then fl_trunc cost else 32767)"

definition temporal_cost_4x4 ::
  "int surface \<Rightarrow> int surface \<Rightarrow> int surface list \<Rightarrow> nat \<Rightarrow> nat \<Rightarrow> bool \<Rightarrow> int surface result" where
  "temporal_cost_4x4 sour reco symbols transform_block_size scale intra =
     rbind (cost_dimensions sour reco symbols transform_block_size) (\<lambda>(w, h).
     surface_build w h (\<lambda>block_x block_y.
       rbind (block_sum (difference sour reco) transform_block_size block_x block_y) (\<lambda>t0.
       rbind (non_zero symbols (if intra then [0..<5] @ [6..<16] else [0..<16]) block_x block_y) (\<lambda>t1.
       Inr (cost_4x4 scale t0 (t1 + (if intra then 1 else 0)))))))"

text \<open>Without a reconstruction the cost is the sum of the source, whose pixels have one or two bytes.\<close>

datatype sad_source = SadInternal "int surface" "int surface" | SadU8 "u8 surface" | SadU16 "u16 surface"

definition saturate :: "int \<Rightarrow> int" where
  "saturate t0 = (if t0 < 32767 then t0 else 32767)"

definition temporal_cost_sad :: "sad_source \<Rightarrow> nat \<Rightarrow> int surface result" where
  "temporal_cost_sad source n = (case source of
     SadInternal sour reco \<Rightarrow>
       rbind (udiv (sf_width sour) n) (\<lambda>w. rbind (udiv (sf_height sour) n) (\<lambda>h.
       rbind (check_that (same_size sour reco)) (\<lambda>_.
       surface_build w h (\<lambda>block_x block_y.
         rbind (block_sum (difference sour reco) n block_x block_y) (\<lambda>t0. Inr (saturate t0))))))
   | SadU8 sour \<Rightarrow>
       rbind (udiv (sf_width sour) n) (\<lambda>w. rbind (udiv (sf_height sour) n) (\<lambda>h.
       surface_build w h (\<lambda>block_x block_y.
         rbind (block_sum (\<lambda>x y. rbind (surface_read sour x y) (\<lambda>p. Inr (uint p))) n block_x block_y) (\<lambda>t0.
         Inr (saturate t0)))))
   | SadU16 sour \<Rightarrow>
       rbind (udiv (sf_width sour) n) (\<lambda>w. rbind (udiv (sf_height sour) n) (\<lambda>h.
       surface_build w h (\<lambda>block_x block_y.
         rbind (block_sum (\<lambda>x y. rbind (surface_read sour x y) (\<lambda>p. Inr (uint p))) n block_x block_y) (\<lambda>t0.
         Inr (saturate t0))))))"

section \<open>Selection\<close>

definition temporal_select :: "int surface \<Rightarrow> int surface \<Rightarrow> u8 surface \<Rightarrow> int surface result" where
  "temporal_select inter_plane intra_plane mask_plane =
     rbind (check_that (same_size inter_plane intra_plane)) (\<lambda>_.
     rbind (covered mask_plane inter_plane) (\<lambda>(sw, sh).
     surface_build (sf_width inter_plane) (sf_height inter_plane) (\<lambda>x y.
       rbind (surface_read mask_plane (drop_bit sw x) (drop_bit sh y)) (\<lambda>m.
       if m = temporal_pred then surface_read inter_plane x y else surface_read intra_plane x y))))"

section \<open>Embedding\<close>

definition temporal_insert_mask :: "int surface \<Rightarrow> u8 surface option \<Rightarrow> bool \<Rightarrow> int surface result" where
  "temporal_insert_mask symbols marks refresh = (case marks of
     Some m \<Rightarrow>
       if refresh then
         surface_build (sf_width symbols) (sf_height symbols)
           (\<lambda>x y. rbind (surface_read symbols x y) (\<lambda>p. Inr (to_int16 (p * 2))))
       else
         rbind (check_that (same_size symbols m)) (\<lambda>_.
         surface_build (sf_width symbols) (sf_height symbols) (\<lambda>x y.
           rbind (surface_read symbols x y) (\<lambda>p.
           rbind (surface_read m x y) (\<lambda>t. Inr (to_int16 ((p * 2) OR (if t = temporal_intr then 1 else 0)))))))
   | None \<Rightarrow>
       surface_build (sf_width symbols) (sf_height symbols)
         (\<lambda>x y. rbind (surface_read symbols x y) (\<lambda>p. Inr (to_int16 (p * 2)))))"

datatype user_data_method = UserDataMethod_Zeros | UserDataMethod_Ones | UserDataMethod_Random
  | UserDataMethod_FixedRandom

definition user_data_byte :: "user_data_method \<Rightarrow> random_state \<Rightarrow> u8 \<times> random_state" where
  "user_data_byte m next = (case m of
     UserDataMethod_Zeros \<Rightarrow> (0, next)
   | UserDataMethod_Ones \<Rightarrow> (0xff, next)
   | _ \<Rightarrow> (let (r, next) = random_rand next in (of_nat r, next)))"

definition user_data_symbol :: "nat \<Rightarrow> int \<Rightarrow> u8 \<Rightarrow> int" where
  "user_data_symbol n value data =
     (let sign = value < 0;
          value_abs = min (to_uint16 \<bar>value\<bar>) (drop_bit (n + 1) 0x1fff);
          data = data AND (if n = 6 then 0x3f else 0x03) in
      to_int16 ((push_bit (n + 1) value_abs OR uint data) OR push_bit n (if sign then 1 else 0)))"

definition user_data_insert ::
  "int surface \<Rightarrow> user_data_method \<Rightarrow> user_data_mode \<Rightarrow> random_state \<Rightarrow> (int surface \<times> random_state) result" where
  "user_data_insert symbols m user_data next =
     rbind (user_data_size user_data) (\<lambda>n.
     rbind (fold_result (\<lambda>(x, y) (b, next).
         rbind (surface_read symbols x y) (\<lambda>value.
         let (data, next) = user_data_byte m next in
         rbind (surface_write x y (user_data_symbol n value data) b) (\<lambda>b. Inr (b, next))))
       (raster (sf_width symbols) (sf_height symbols))
       (surface_reserve (sf_width symbols) (sf_height symbols), next)) (\<lambda>(b, next).
     rbind (surface_finish b) (\<lambda>s. Inr (s, next))))"

end
