(* ===== verification/PriorityMap.thy ===== *)
theory PriorityMap
  imports Floats LayerEncodeFlags Images
begin

text \<open>
  encoder/src/PriorityMap.cpp and encoder/src/PriorityConfiguration.cpp: the classification of blocks
  of 8 by 8 pixels by contrast and texture, the coefficients that are dropped by class and the
  coefficients of moving blocks. Maps that keep or kill all residuals are the first experiments.
\<close>

section \<open>Configuration\<close>

datatype priority_mode = PM_ALL_OFF | PM_ALL_ON | PM_SL1_ON | PM_SL2_ON | PM_SL1_OFF | PM_SL2_OFF

datatype priority_mb_type = Smooth | Plain | Coarse | Edge | SmoothAndPlain | CoarseAndPlain

record priority_configuration =
  pr_encoding_mode :: encoding_mode
  pr_use_pmap_sl_1 :: bool
  pr_use_pmap_sl_2 :: bool
  pr_use_pmap_type_sl_1 :: priority_mb_type
  pr_use_pmap_type_sl_2 :: priority_mb_type

definition priority_modes :: "(string \<times> encoding_mode \<times> priority_mode) list" where
  "priority_modes =
    [(''mode_0_0'', ENCODE_ALL, PM_ALL_OFF), (''mode_1_0'', ENCODE_ALL, PM_SL1_ON),
     (''mode_1_1'', Ax, PM_SL1_ON), (''mode_1_2'', AA, PM_SL1_ON), (''mode_1_3'', NA, PM_SL1_ON),
     (''mode_2_0'', ENCODE_ALL, PM_SL2_ON), (''mode_3_0'', ENCODE_ALL, PM_ALL_ON),
     (''mode_3_1'', Ax, PM_ALL_ON), (''mode_3_2'', AA, PM_ALL_ON), (''mode_3_3'', NA, PM_ALL_ON)]"

definition priority_block_types :: "(string \<times> priority_mb_type) list" where
  "priority_block_types =
    [(''type_0'', Smooth), (''type_1'', Plain), (''type_2'', Edge), (''type_3'', Coarse),
     (''type_4'', SmoothAndPlain), (''type_5'', CoarseAndPlain)]"

definition lookup_name :: "(string \<times> 'a) list \<Rightarrow> string \<Rightarrow> 'a result" where
  "lookup_name table name = (case map_of table name of Some v \<Rightarrow> Inr v | None \<Rightarrow> Inl FatalRaised)"

definition priority_configuration_new :: "string \<Rightarrow> string \<Rightarrow> string \<Rightarrow> priority_configuration result" where
  "priority_configuration_new mode type_1 type_2 =
     rbind (lookup_name priority_modes mode) (\<lambda>(encoding, pm).
     rbind (lookup_name priority_block_types type_1) (\<lambda>t1.
     rbind (lookup_name priority_block_types type_2) (\<lambda>t2.
     Inr \<lparr>pr_encoding_mode = encoding,
          pr_use_pmap_sl_1 = (pm = PM_SL1_ON \<or> pm = PM_ALL_ON), pr_use_pmap_sl_2 = (pm = PM_SL2_ON \<or> pm = PM_ALL_ON),
          pr_use_pmap_type_sl_1 = t1, pr_use_pmap_type_sl_2 = t2\<rparr>)))"

section \<open>Tiles with a priority\<close>

record tile_grid =
  tg_size_x :: nat
  tg_size_y :: nat
  tg_n_x :: nat
  tg_n_y :: nat

definition tiles_along :: "nat \<Rightarrow> nat \<Rightarrow> nat result" where
  "tiles_along n d = rbind (udiv n d) (\<lambda>q. Inr (if wrap (q * d) < n then q + 1 else q))"

definition tile_grid_new :: "nat \<Rightarrow> nat \<Rightarrow> nat \<Rightarrow> nat \<Rightarrow> tile_grid result" where
  "tile_grid_new w h tile_x tile_y =
     rbind (tiles_along w tile_x) (\<lambda>nx.
     rbind (tiles_along h tile_y) (\<lambda>ny.
     Inr \<lparr>tg_size_x = tile_x, tg_size_y = tile_y, tg_n_x = nx, tg_n_y = ny\<rparr>))"

datatype killing_function = KILL_ALL | KEEP_ALL | THRESHOLD_CUTOFF

text \<open>The labels have 16 bits. The priority of every tile is the constant 0.7, in \<open>double\<close>.\<close>

definition threshold_cutoff :: "nat \<Rightarrow> nat \<Rightarrow> rat list \<Rightarrow> tile_grid \<Rightarrow> int surface result" where
  "threshold_cutoff w h values grid =
     surface_build w h (\<lambda>x y.
       rbind (udiv x (tg_size_x grid)) (\<lambda>tile_x.
       rbind (udiv y (tg_size_y grid)) (\<lambda>tile_y.
       rbind (vector_at values (tile_y * tg_n_x grid + tile_x)) (\<lambda>v.
       Inr (if v > 1 / 2 then uint residual_live else uint residual_kill)))))"

definition priority_process :: "'p surface \<Rightarrow> nat \<Rightarrow> nat \<Rightarrow> killing_function \<Rightarrow> int surface result" where
  "priority_process src tile_x tile_y killing =
     rbind (tile_grid_new (sf_width src) (sf_height src) tile_x tile_y) (\<lambda>grid.
     case killing of
       KILL_ALL \<Rightarrow> surface_build (sf_width src) (sf_height src) (\<lambda>_ _. Inr (uint residual_kill))
     | KEEP_ALL \<Rightarrow> surface_build (sf_width src) (sf_height src) (\<lambda>_ _. Inr (uint residual_live))
     | THRESHOLD_CUTOFF \<Rightarrow>
         threshold_cutoff (sf_width src) (sf_height src) (replicate (tg_n_x grid * tg_n_y grid) (fl 53 (7 / 10))) grid)"

definition priority_map_vis :: "int surface \<Rightarrow> int surface result" where
  "priority_map_vis src =
     surface_build (sf_width src) (sf_height src) (\<lambda>x y.
       rbind (surface_read src x y) (\<lambda>p. Inr (to_int16 (p * (32767 div 255)))))"

section \<open>Contrast and texture\<close>

abbreviation BLOCK_SIZE :: nat where "BLOCK_SIZE \<equiv> 8"

abbreviation block_plain :: u8 where "block_plain \<equiv> 32"
abbreviation block_edge :: u8 where "block_edge \<equiv> 64"
abbreviation block_smooth :: u8 where "block_smooth \<equiv> 96"
abbreviation block_coarse :: u8 where "block_coarse \<equiv> 128"

text \<open>The positions of a block, cut at the edges of the plane.\<close>

definition block_pixels :: "'p surface \<Rightarrow> nat \<Rightarrow> nat \<Rightarrow> (nat \<times> nat) list" where
  "block_pixels s x y =
     [(x + h, y + k). k \<leftarrow> [0..<min BLOCK_SIZE (sf_height s - y)], h \<leftarrow> [0..<min BLOCK_SIZE (sf_width s - x)]]"

definition pixel_8 :: "int surface \<Rightarrow> nat \<Rightarrow> nat \<Rightarrow> int result" where
  "pixel_8 s x y = rbind (surface_read s x y) (\<lambda>p. Inr (drop_bit 7 p))"

text \<open>
  The pixels are around zero and the mean is clamped at zero, so every dark block has the mean zero.
  The division truncates towards zero.
\<close>

definition compute_mean_value :: "int surface \<Rightarrow> u8 surface result" where
  "compute_mean_value src =
     surface_build ((sf_width src + BLOCK_SIZE - 1) div BLOCK_SIZE) ((sf_height src + BLOCK_SIZE - 1) div BLOCK_SIZE)
       (\<lambda>bx by.
         rbind (fold_result (\<lambda>(x, y) acc. rbind (pixel_8 src x y) (\<lambda>p. Inr (acc + p)))
           (block_pixels src (bx * BLOCK_SIZE) (by * BLOCK_SIZE)) 0) (\<lambda>acc.
         Inr (word_of_int (clamp (acc sdiv 64) 0 255))))"

record block_counts =
  bc_acc_lo :: int
  bc_num_lo :: int
  bc_acc_hi :: int
  bc_num_hi :: int
  bc_crossings :: int

definition crossing :: "int \<Rightarrow> int \<Rightarrow> int \<Rightarrow> block_counts \<Rightarrow> block_counts" where
  "crossing mean p q c =
     (if (mean < p \<and> q \<le> mean \<or> p \<le> mean \<and> mean < q) \<and> 4 < \<bar>p - q\<bar>
      then c\<lparr>bc_crossings := bc_crossings c + 1\<rparr> else c)"

definition count_pixel :: "int surface \<Rightarrow> int \<Rightarrow> bool \<Rightarrow> bool \<Rightarrow> nat \<Rightarrow> nat \<Rightarrow> block_counts \<Rightarrow> block_counts result" where
  "count_pixel src mean left up x y c =
     rbind (pixel_8 src x y) (\<lambda>p.
     let c = (if p \<le> mean then c\<lparr>bc_acc_lo := bc_acc_lo c + p, bc_num_lo := bc_num_lo c + 1\<rparr>
              else c\<lparr>bc_acc_hi := bc_acc_hi c + p, bc_num_hi := bc_num_hi c + 1\<rparr>) in
     rbind (if up then rbind (pixel_8 src x (y - 1)) (\<lambda>q. Inr (crossing mean p q c)) else Inr c) (\<lambda>c.
     if left then rbind (pixel_8 src (x - 1) y) (\<lambda>q. Inr (crossing mean p q c)) else Inr c))"

definition block_type :: "block_counts \<Rightarrow> u8" where
  "block_type c =
     (let both = 0 < bc_num_lo c \<and> 0 < bc_num_hi c;
          mean = (\<lambda>acc n. fl 24 (fl 24 (of_int acc) / fl 24 (of_int n)));
          mean_lo = if both then mean (bc_acc_lo c) (bc_num_lo c) else 0;
          mean_hi = if both then mean (bc_acc_hi c) (bc_num_hi c) else 0;
          contrast = fl 24 (fl 24 (mean_hi - mean_lo) / 255);
          texture = fl 24 (fl 24 (of_int (bc_crossings c)) / 112) in
      if texture \<le> fl 24 (15 / 100) then
        if contrast \<le> fl 24 (10 / 100) then block_plain else block_edge
      else if contrast \<le> fl 24 (10 / 100) then
        if contrast \<le> fl 24 (2 / 100) then block_plain else block_smooth
      else block_coarse)"

definition compute_contrast_texture :: "int surface \<Rightarrow> u8 surface \<Rightarrow> u8 surface result" where
  "compute_contrast_texture src means =
     surface_build ((sf_width src + BLOCK_SIZE - 1) div BLOCK_SIZE) ((sf_height src + BLOCK_SIZE - 1) div BLOCK_SIZE)
       (\<lambda>bx by.
         rbind (surface_read means bx by) (\<lambda>mean.
         rbind (fold_result (\<lambda>(x, y). count_pixel src (uint mean) (0 < bx) (0 < by) x y)
           (block_pixels src (bx * BLOCK_SIZE) (by * BLOCK_SIZE))
           \<lparr>bc_acc_lo = 0, bc_num_lo = 0, bc_acc_hi = 0, bc_num_hi = 0, bc_crossings = 0\<rparr>) (\<lambda>c.
         Inr (block_type c))))"

definition apply_priority_residuals :: "int surface \<Rightarrow> u8 surface \<Rightarrow> nat \<Rightarrow> int surface result" where
  "apply_priority_residuals src types step_width =
     surface_build (sf_width src) (sf_height src) (\<lambda>x y.
       rbind (surface_read types (x div BLOCK_SIZE) (y div BLOCK_SIZE)) (\<lambda>t.
       if t = block_plain \<or> t = block_coarse \<and> 300 < step_width then Inr 0 else surface_read src x y))"

section \<open>Coefficients by class\<close>

definition keep_average :: "priority_mb_type \<Rightarrow> u8 \<Rightarrow> bool" where
  "keep_average t b = (case t of
     SmoothAndPlain \<Rightarrow> b = block_plain \<or> b = block_smooth
   | CoarseAndPlain \<Rightarrow> b = block_plain \<or> b = block_coarse
   | Smooth \<Rightarrow> b = block_smooth
   | Plain \<Rightarrow> b = block_plain
   | Coarse \<Rightarrow> b = block_coarse
   | Edge \<Rightarrow> b = block_edge)"

definition remove_coeff :: "priority_mb_type \<Rightarrow> nat \<Rightarrow> u8 \<Rightarrow> bool" where
  "remove_coeff t step_width b = (case t of
     SmoothAndPlain \<Rightarrow> b = block_plain \<or> b = block_smooth \<and> 300 < step_width
   | CoarseAndPlain \<Rightarrow> b = block_plain \<or> b = block_coarse \<and> 300 < step_width
   | Smooth \<Rightarrow> b = block_smooth \<and> 300 < step_width
   | Plain \<Rightarrow> b = block_plain
   | Coarse \<Rightarrow> b = block_coarse \<and> 300 < step_width
   | Edge \<Rightarrow> b = block_edge)"

text \<open>
  The layers of a position of the first sub-layer of 4 by 4 transforms. With a mode that is none of
  the three, a kept position is not written.
\<close>

definition level_1_4x4 :: "encoding_mode \<Rightarrow> priority_mb_type \<Rightarrow> u8 surface \<Rightarrow> int surface list \<Rightarrow> nat \<Rightarrow> nat \<Rightarrow> int list result" where
  "level_1_4x4 m t types src x y =
     (let layers = (\<lambda>keep. map_result (\<lambda>l. if l \<in> set keep then rbind (vector_at src l) (\<lambda>s. surface_read s x y) else Inr 0) [0..<16]) in
      if m = ENCODE_ALL then layers [0..<16]
      else
        rbind (surface_read types (x * 4 div BLOCK_SIZE) (y * 4 div BLOCK_SIZE)) (\<lambda>b.
        if keep_average t b then
          if m = Ax then layers [0, 1, 2, 3]
          else if m = AA then layers [0]
          else if m = NA then layers [1, 2, 3]
          else Inl UndefinedBehaviour
        else layers []))"

definition level_2_coeffs ::
  "nat \<Rightarrow> nat \<Rightarrow> bool \<Rightarrow> priority_mb_type \<Rightarrow> u8 surface \<Rightarrow> int surface option \<Rightarrow> int \<Rightarrow> nat \<Rightarrow> int surface list \<Rightarrow> nat \<Rightarrow> nat \<Rightarrow> int list result" where
  "level_2_coeffs n tu gate t types pixel_sad bound step_width src x y =
     rbind (surface_read types (x * tu div BLOCK_SIZE) (y * tu div BLOCK_SIZE)) (\<lambda>b.
     rbind (case pixel_sad of
         None \<Rightarrow> Inr False
       | Some sad \<Rightarrow> if gate then rbind (surface_read sad x y) (\<lambda>v. Inr (bound < v)) else Inr False) (\<lambda>moving.
     if moving \<and> remove_coeff t step_width b then Inr (replicate n 0)
     else map_result (\<lambda>l. rbind (vector_at src l) (\<lambda>s. surface_read s x y)) [0..<n]))"

definition level_1_2x2 :: "priority_mb_type \<Rightarrow> u8 surface \<Rightarrow> int surface list \<Rightarrow> nat \<Rightarrow> nat \<Rightarrow> int list result" where
  "level_1_2x2 t types src x y =
     rbind (surface_read types (x * 2 div BLOCK_SIZE) (y * 2 div BLOCK_SIZE)) (\<lambda>b.
     if keep_average t b then rbind (vector_at src 0) (\<lambda>s. rbind (surface_read s x y) (\<lambda>p. Inr [p, 0, 0, 0]))
     else Inr [0, 0, 0, 0])"

definition layers_of :: "nat \<Rightarrow> nat \<Rightarrow> nat \<Rightarrow> (nat \<Rightarrow> nat \<Rightarrow> int list result) \<Rightarrow> int surface list result" where
  "layers_of n w h f =
     rbind (map_result (\<lambda>(x, y). f x y) (raster w h)) (\<lambda>vs.
     Inr (map (\<lambda>l. \<lparr>sf_width = w, sf_height = h, sf_pixels = map (\<lambda>v. v ! l) vs\<rparr>) [0..<n]))"

text \<open>With another size of transforms nothing is written.\<close>

definition apply_priority_coefficients ::
  "nat \<Rightarrow> nat \<Rightarrow> nat \<Rightarrow> nat \<Rightarrow> int surface list \<Rightarrow> u8 surface \<Rightarrow> int surface option \<Rightarrow> nat \<Rightarrow> priority_mb_type \<Rightarrow> encoding_mode \<Rightarrow>
   int surface list result" where
  "apply_priority_coefficients w h tu_size sublayer src types pixel_sad step_width t m =
     (if tu_size = 4 then
        layers_of 16 w h (if sublayer = LOQ_LEVEL_1 then level_1_4x4 m t types src
          else level_2_coeffs 16 4 True t types pixel_sad 1000 step_width src)
      else if tu_size = 2 then
        layers_of 4 w h (if sublayer = LOQ_LEVEL_1 then level_1_2x2 t types src
          else level_2_coeffs 4 2 (300 < step_width) t types pixel_sad 500 step_width src)
      else Inr [])"

section \<open>Coefficients of moving blocks\<close>

text \<open>Sums of differences are not negative; the product of thresholds is unsigned.\<close>

definition static_residuals :: "int surface list \<Rightarrow> int surface \<Rightarrow> nat \<Rightarrow> nat \<Rightarrow> nat \<Rightarrow> nat \<Rightarrow> int surface list result" where
  "static_residuals src pixel_sad n step_width sad_threshold sad_coeff_threshold =
     map_result (\<lambda>layer.
       rbind (vector_at src layer) (\<lambda>s.
       surface_build (sf_width s) (sf_height s) (\<lambda>x y.
         rbind (surface_read pixel_sad x y) (\<lambda>sad.
         rbind (surface_read s x y) (\<lambda>p.
         Inr (if sad_threshold \<le> nat (sad mod 4294967296)
              then if wrap (sad_coeff_threshold * step_width) < nat \<bar>p\<bar> then p else 0 else p)))))) [0..<n]"

end
