(* ===== verification/ResidualEncoding.thy ===== *)
theory ResidualEncoding
  imports ResidualDecoding TemporalEncode PriorityMap
begin

text \<open>
  \<open>Encoder::encode_residuals\<close> of encoder/src/Encoder.cpp: from a plane of residuals to the symbols of
  its layers. The maps for display are not modelled.
\<close>

section \<open>Configuration of the encoder\<close>

record encoder_configuration =
  ec_temporal_cq_sw_multiplier :: nat
  ec_delta_sw_mult_gop08 :: nat
  ec_delta_sw_mult_gop04 :: nat
  ec_delta_sw_mult_gop02 :: nat
  ec_delta_sw_mult_gop01 :: nat
  ec_encoding_mode :: encoding_mode
  ec_use_priority_map_sl_1 :: bool
  ec_use_priority_map_sl_2 :: bool
  ec_priority_type_sl_1 :: priority_mb_type
  ec_priority_type_sl_2 :: priority_mb_type
  ec_sad_threshold :: nat
  ec_sad_coeff_threshold :: nat
  ec_quant_reduced_deadzone :: nat
  ec_no_enhancement_temporal_layer :: bool
  ec_user_data_method :: user_data_method

section \<open>Coefficients\<close>

definition forward_transform :: "global_configuration \<Rightarrow> bool \<Rightarrow> int surface \<Rightarrow> int surface list result" where
  "forward_transform g horizontal_only residuals =
     (if gc_transform_block_size g = 4 then
        if horizontal_only then transform_dds_1d residuals ENCODE_ALL else transform_dds residuals ENCODE_ALL
      else if gc_transform_block_size g = 2 then
        if horizontal_only then transform_dd_1d residuals ENCODE_ALL else transform_dd residuals ENCODE_ALL
      else Inl UndefinedBehaviour)"

definition surface_copy :: "int surface \<Rightarrow> int surface result" where
  "surface_copy s = surface_build (sf_width s) (sf_height s) (surface_read s)"

definition copy_layers :: "nat \<Rightarrow> int surface list \<Rightarrow> int surface list result" where
  "copy_layers n layers = map_result (\<lambda>l. rbind (vector_at layers l) surface_copy) [0..<n]"

definition selected_coefficients ::
  "encoder_configuration \<Rightarrow> global_configuration \<Rightarrow> picture_configuration \<Rightarrow> nat \<Rightarrow> encoding_mode \<Rightarrow>
   u8 surface option \<Rightarrow> priority_mb_type \<Rightarrow> int surface option \<Rightarrow> int surface list \<Rightarrow> int surface list result" where
  "selected_coefficients ec g picture loq m types t pixel_sad coefficients =
     (let n = unat (gc_num_residual_layers g) in
      rbind (vector_at (pc_step_width_loq picture) LOQ_LEVEL_2) (\<lambda>step_width_2.
      rbind (case pixel_sad of
          Some sad \<Rightarrow>
            if ec_sad_threshold ec \<noteq> 0 \<and> ec_sad_coeff_threshold ec \<noteq> 0
            then static_residuals coefficients sad n (unat step_width_2) (ec_sad_threshold ec) (ec_sad_coeff_threshold ec)
            else copy_layers n coefficients
        | None \<Rightarrow> copy_layers n coefficients) (\<lambda>kept.
      case types of
        Some ty \<Rightarrow>
          if sf_width ty \<noteq> 0 \<and> sf_height ty \<noteq> 0 then
            rbind (vector_at kept 0) (\<lambda>first.
            rbind (vector_at (pc_step_width_loq picture) loq) (\<lambda>step_width.
            apply_priority_coefficients (sf_width first) (sf_height first) (unat (gc_transform_block_size g)) loq kept ty
              pixel_sad (unat step_width) t m))
          else copy_layers n kept
      | None \<Rightarrow> copy_layers n kept)))"

section \<open>Symbols\<close>

text \<open>The step width and the dead zone of a layer.\<close>

definition layer_quant :: "int \<Rightarrow> int \<Rightarrow> int \<times> int" where
  "layer_quant step_width coeff =
     (let dirq_step_width = find_dirq_step_width step_width coeff in
      (dirq_step_width, find_layer_deadzone step_width dirq_step_width))"

definition quantize_layer ::
  "encoder_configuration \<Rightarrow> global_configuration \<Rightarrow> (int \<times> int) list \<Rightarrow> u8 surface option \<Rightarrow> int surface option \<Rightarrow>
   int surface \<Rightarrow> int surface result" where
  "quantize_layer ec g qs temporal_mask pixel_sad s =
     (let tbs = unat (gc_transform_block_size g) in
      case qs of
        [q] \<Rightarrow> quantize s (fst q) (snd q) pixel_sad tbs (ec_quant_reduced_deadzone ec)
      | _ \<Rightarrow> (case temporal_mask of
          None \<Rightarrow> Inl UndefinedBehaviour
        | Some m \<Rightarrow>
            quantize_swm s tbs (fst (qs ! 0), fst (qs ! 1)) (snd (qs ! 0), snd (qs ! 1)) m pixel_sad
              (ec_quant_reduced_deadzone ec)))"

definition encoder_symbols ::
  "encoder_configuration \<Rightarrow> global_configuration \<Rightarrow> picture_configuration \<Rightarrow> (nat \<Rightarrow> int) \<Rightarrow> nat \<Rightarrow> nat \<Rightarrow>
   int surface \<Rightarrow> temporal_swm \<Rightarrow> encoding_mode \<Rightarrow> u8 surface option \<Rightarrow> u8 surface option \<Rightarrow> priority_mb_type \<Rightarrow>
   int surface option \<Rightarrow> random_state \<Rightarrow> (int surface list \<times> random_state) result" where
  "encoder_symbols ec g picture coeffs plane loq residuals swm m temporal_mask types t pixel_sad next =
     (let n = unat (gc_num_residual_layers g) in
      rbind (is_horizontal_only g loq) (\<lambda>horizontal_only.
      rbind (forward_transform g horizontal_only residuals) (\<lambda>coefficients.
      rbind (selected_coefficients ec g picture loq m types t pixel_sad coefficients) (\<lambda>kept.
      rbind (encoder_step_widths g picture plane loq swm) (\<lambda>step_widths.
      fold_result (\<lambda>layer (symbols, next).
        rbind (vector_at kept layer) (\<lambda>s.
        rbind (quantize_layer ec g (map (\<lambda>sw. layer_quant sw (coeffs layer)) step_widths) temporal_mask pixel_sad s) (\<lambda>syms.
        if is_user_data_layer g loq layer then
          rbind (user_data_insert syms (ec_user_data_method ec) (gc_user_data_enabled g) next) (\<lambda>(syms, next).
          Inr (symbols @ [syms], next))
        else Inr (symbols @ [syms], next)))) [0..<n] ([], next))))))"

end
