(* ===== verification/PictureDecoding.thy ===== *)
theory PictureDecoding
  imports ResidualDecoding DeserializerBlocks Dithering PlaneOps
begin

text \<open>
  \<open>Decoder::decode\<close> of decoder/src/Decoder.cpp: a picture from the base picture, the symbols and the
  configuration that the deserializer left. The reports to standard output are not modelled.
\<close>

section \<open>Prediction\<close>

text \<open>\<open>ConvertBitShift\<close> and \<open>ConvertToInternal\<close> of a plane of the base picture.\<close>

definition base_internal :: "global_configuration \<Rightarrow> image \<Rightarrow> nat \<Rightarrow> int surface result" where
  "base_internal g ext_base plane =
     (let base_depth = unat (gc_base_depth g); enhancement_depth = unat (gc_enhancement_depth g);
          raised = base_depth < enhancement_depth \<and> gc_level1_depth_flag g in
      rbind (image_plane ext_base plane) (\<lambda>p.
      rbind (if raised then convert_bit_shift p base_depth enhancement_depth else Inr p) (\<lambda>p.
      convert_to_internal p (if raised then enhancement_depth else base_depth))))"

text \<open>Upsampling to the next level, with the adjustment to the averages of the source.\<close>

definition predict :: "global_configuration \<Rightarrow> nat \<Rightarrow> int surface \<Rightarrow> int surface result" where
  "predict g loq s =
     rbind (vector_at (gc_scaling_mode g) loq) (\<lambda>m. case m of
       ScalingMode_1D \<Rightarrow>
         rbind (upsampling_1d s (gc_upsample g) (Some (gc_upsampling_coefficients g))) (\<lambda>u.
         if gc_predicted_residual_enabled g
         then rbind (predicted_residual_sum_1d u) (predicted_residual_adjust_1d s u) else Inr u)
     | ScalingMode_2D \<Rightarrow>
         rbind (upsampling s (gc_upsample g) (Some (gc_upsampling_coefficients g))) (\<lambda>u.
         if gc_predicted_residual_enabled g
         then rbind (predicted_residual_sum u) (predicted_residual_adjust s u) else Inr u)
     | ScalingMode_None \<Rightarrow> Inr s)"

definition update_quant_matrix ::
  "global_configuration \<Rightarrow> picture_configuration \<Rightarrow> bool \<Rightarrow> nat \<Rightarrow> (layer_position \<Rightarrow> int) \<Rightarrow> (layer_position \<Rightarrow> int) result" where
  "update_quant_matrix g picture is_idr plane =
     (let n = unat (gc_num_residual_layers g) in
      fold_result (\<lambda>(loq, layer) coeffs.
        rbind (is_horizontal_only g loq) (\<lambda>h.
        rbind (find_quant_matrix_coeff picture n h loq layer is_idr (coeffs (plane, loq, layer))) (\<lambda>c.
        Inr (coeffs((plane, loq, layer) := c)))))
        [(loq, layer). loq \<leftarrow> [0..<MAX_NUM_LOQS], layer \<leftarrow> [0..<n]])"

definition deblocked :: "global_configuration \<Rightarrow> picture_configuration \<Rightarrow> int surface \<Rightarrow> int surface result" where
  "deblocked g picture residuals =
     (if pc_level_1_filtering_enabled picture \<and> gc_transform_block_size g = 4
      then deblocking residuals (gc_level_1_filtering_first_coefficient g) (gc_level_1_filtering_second_coefficient g)
      else Inr residuals)"

section \<open>The two sub-layers\<close>

text \<open>The sizes of a plane at a level.\<close>

definition plane_sizes :: "dimensions \<Rightarrow> nat \<Rightarrow> nat \<Rightarrow> nat \<times> nat" where
  "plane_sizes d plane loq = (dm_plane_width d (plane, loq), dm_plane_height d (plane, loq))"

definition is_enhanced :: "global_configuration \<Rightarrow> picture_configuration \<Rightarrow> nat \<Rightarrow> bool" where
  "is_enhanced g picture plane \<longleftrightarrow> pc_enhancement_enabled picture \<and> plane < unat (gc_num_processed_planes g)"

definition decode_base_plane ::
  "(int \<Rightarrow> rat) \<Rightarrow> bool \<Rightarrow> layer_surfaces \<Rightarrow> image \<Rightarrow> nat \<Rightarrow> decoder \<Rightarrow> (int surface \<times> decoder) result" where
  "decode_base_plane c_log apply_enhancement symbols ext_base plane dc =
     (let g = sg_global_configuration (dc_configuration dc);
          picture = sg_picture_configuration (dc_configuration dc) in
      rbind (base_internal g ext_base plane) (\<lambda>base_plane.
      rbind (predict g LOQ_LEVEL_1 base_plane) (\<lambda>base_upsampled.
      rbind (update_quant_matrix g picture (pc_coding_type picture = CodingType_IDR) plane
        (dc_quant_matrix_coeffs dc)) (\<lambda>coeffs.
      let dc = dc\<lparr>dc_quant_matrix_coeffs := coeffs\<rparr> in
      if is_enhanced g picture plane \<and> apply_enhancement then
        rbind (decoder_residuals c_log g picture (\<lambda>layer. coeffs (plane, LOQ_LEVEL_1, layer))
          (plane_sizes (dc_dimensions dc) plane LOQ_LEVEL_1) plane LOQ_LEVEL_1
          (\<lambda>layer. symbols (plane, LOQ_LEVEL_1, layer))) (\<lambda>(_, residuals).
        rbind (deblocked g picture residuals) (\<lambda>residuals.
        rbind (add_in_place base_upsampled residuals) (\<lambda>reco. Inr (reco, dc))))
      else Inr (base_upsampled, dc)))))"

text \<open>
  The temporal buffer of a new size is not initialised; an intra mask replaces every pixel of it
  without reading any. A buffer that is not there is made of zeros.
\<close>

definition buffer_view :: "int surface_builder \<Rightarrow> int option surface" where
  "buffer_view b = \<lparr>sf_width = sb_width b, sf_height = sb_height b, sf_pixels = sb_pixels b\<rparr>"

definition buffer_of :: "int surface \<Rightarrow> int surface_builder" where
  "buffer_of s = \<lparr>sb_width = sf_width s, sb_height = sf_height s, sb_pixels = map Some (sf_pixels s)\<rparr>"

definition refresh_buffer :: "int surface_builder option \<Rightarrow> int surface \<Rightarrow> u8 surface \<Rightarrow> int surface result" where
  "refresh_buffer buffer upsampled marks =
     (let b = (case buffer of Some b \<Rightarrow> b
               | None \<Rightarrow> buffer_of (surface_of (sf_width upsampled) (sf_height upsampled) (\<lambda>_ _. 0))) in
      rbind (apply_map (Some 0) (buffer_view b) marks) (\<lambda>s.
      surface_finish \<lparr>sb_width = sf_width s, sb_height = sf_height s, sb_pixels = sf_pixels s\<rparr>))"

definition set_buffer :: "nat \<Rightarrow> int surface \<Rightarrow> decoder \<Rightarrow> decoder" where
  "set_buffer plane s dc = dc\<lparr>dc_temporal_buffer := (dc_temporal_buffer dc)(plane := Some (buffer_of s))\<rparr>"

definition decode_full_plane ::
  "(int \<Rightarrow> rat) \<Rightarrow> bool \<Rightarrow> layer_surfaces \<Rightarrow> nat \<Rightarrow> int surface \<Rightarrow> decoder \<Rightarrow> (int surface \<times> decoder) result" where
  "decode_full_plane c_log apply_enhancement symbols plane upsampled dc =
     (let g = sg_global_configuration (dc_configuration dc);
          picture = sg_picture_configuration (dc_configuration dc) in
      if is_enhanced g picture plane \<and> apply_enhancement then
        rbind (decoder_residuals c_log g picture (\<lambda>layer. dc_quant_matrix_coeffs dc (plane, LOQ_LEVEL_2, layer))
          (plane_sizes (dc_dimensions dc) plane LOQ_LEVEL_2) plane LOQ_LEVEL_2
          (\<lambda>layer. symbols (plane, LOQ_LEVEL_2, layer))) (\<lambda>(temporal_mask, residuals).
        if gc_temporal_enabled g \<noteq> 0 then
          (case temporal_mask of
             None \<Rightarrow> Inl CheckFailed
           | Some marks \<Rightarrow>
               rbind (refresh_buffer (dc_temporal_buffer dc plane) upsampled marks) (\<lambda>buffer.
               rbind (add_in_place buffer residuals) (\<lambda>buffer.
               rbind (add_in_place upsampled buffer) (\<lambda>reco.
               Inr (reco, set_buffer plane buffer dc)))))
        else rbind (add_in_place upsampled residuals) (\<lambda>reco. Inr (reco, dc)))
      else if plane < unat (gc_num_processed_planes g) \<and> apply_enhancement then
        if gc_temporal_enabled g \<noteq> 0 then
          rbind (get_temporal_mask g picture (symbols (plane, LOQ_LEVEL_2, unat (gc_num_residual_layers g)))) (\<lambda>temporal_mask.
          case temporal_mask of
            None \<Rightarrow> Inl CheckFailed
          | Some marks \<Rightarrow>
              rbind (refresh_buffer (dc_temporal_buffer dc plane) upsampled marks) (\<lambda>buffer.
              rbind (add_in_place upsampled buffer) (\<lambda>reco.
              Inr (reco, set_buffer plane buffer dc))))
        else Inr (upsampled, dc)
      else Inr (upsampled, dc))"

section \<open>Dithering and output\<close>

text \<open>The dithering buffer, made once, the generator and the number of calls of \<open>rand\<close>.\<close>

record dither_state =
  dt_buffer :: "int list option"
  dt_random :: random_state
  dt_calls :: nat

definition make_dither :: "u32 \<Rightarrow> nat \<Rightarrow> nat \<Rightarrow> bool \<Rightarrow> dither_state \<Rightarrow> dither_state result" where
  "make_dither now strength depth fixed dt = (case dt_buffer dt of
     Some _ \<Rightarrow> Inr dt
   | None \<Rightarrow>
       rbind (make_buffer now strength depth fixed) (\<lambda>(vs, next).
       Inr (dt\<lparr>dt_buffer := Some vs, dt_random := next\<rparr>)))"

definition dither_plane :: "(nat \<Rightarrow> nat) \<Rightarrow> nat \<Rightarrow> int surface \<Rightarrow> dither_state \<Rightarrow> (int surface \<times> dither_state) result" where
  "dither_plane lib tbs s dt = (case dt_buffer dt of
     None \<Rightarrow> Inl UndefinedBehaviour
   | Some buffer \<Rightarrow>
       rbind (dithering lib buffer s tbs (dt_calls dt)) (\<lambda>(d, calls). Inr (d, dt\<lparr>dt_calls := calls\<rparr>)))"

definition crop_unit_width :: "dimensions \<Rightarrow> nat \<Rightarrow> nat" where
  "crop_unit_width d plane = (if plane = 0 then dm_chroma_scale_width d else 1)"

definition crop_unit_height :: "dimensions \<Rightarrow> nat \<Rightarrow> nat" where
  "crop_unit_height d plane = (if plane = 0 then dm_chroma_scale_height d else 1)"

definition conformant_plane :: "sequence_configuration \<Rightarrow> dimensions \<Rightarrow> nat \<Rightarrow> int surface \<Rightarrow> int surface result" where
  "conformant_plane sq d plane s =
     (if sq_conformance_window sq then
        let cw = crop_unit_width d plane; ch = crop_unit_height d plane in
        conform s (wrap (unat (sq_conf_win_left_offset sq) * cw)) (wrap (unat (sq_conf_win_top_offset sq) * ch))
          (wrap (unat (sq_conf_win_right_offset sq) * cw)) (wrap (unat (sq_conf_win_bottom_offset sq) * ch))
      else Inr s)"

definition output_plane :: "signaled_configuration \<Rightarrow> dimensions \<Rightarrow> nat \<Rightarrow> int surface \<Rightarrow> (nat \<times> nat \<times> plane) result" where
  "output_plane sg d plane s =
     rbind (conformant_plane (sg_sequence_configuration sg) d plane s) (\<lambda>p.
     rbind (convert_from_internal p (unat (gc_enhancement_depth (sg_global_configuration sg)))) (\<lambda>out.
     Inr (sf_width p, sf_height p, out)))"

section \<open>A picture\<close>

record decode_options =
  do_dithering_switch :: bool
  do_dithering_fixed :: bool
  do_apply_enhancement :: bool

definition decode_planes ::
  "(int \<Rightarrow> rat) \<Rightarrow> bool \<Rightarrow> layer_surfaces \<Rightarrow> image \<Rightarrow> nat \<Rightarrow> decoder \<Rightarrow> (int surface list \<times> decoder) result" where
  "decode_planes c_log apply_enhancement symbols ext_base n dc =
     rbind (fold_result (\<lambda>plane (reco, dc).
       rbind (decode_base_plane c_log apply_enhancement symbols ext_base plane dc) (\<lambda>(s, dc). Inr (reco @ [s], dc)))
       [0..<n] ([], dc)) (\<lambda>(base_reco, dc).
     rbind (map_result (predict (sg_global_configuration (dc_configuration dc)) LOQ_LEVEL_2) base_reco) (\<lambda>upsampled.
     fold_result (\<lambda>plane (reco, dc).
       rbind (decode_full_plane c_log apply_enhancement symbols plane (upsampled ! plane) dc) (\<lambda>(s, dc). Inr (reco @ [s], dc)))
       [0..<n] ([], dc)))"

definition dithered ::
  "(nat \<Rightarrow> nat) \<Rightarrow> decode_options \<Rightarrow> picture_configuration \<Rightarrow> nat \<Rightarrow> int surface list \<Rightarrow> dither_state \<Rightarrow>
   (int surface list \<times> dither_state) result" where
  "dithered lib opts picture tbs reco dt = (case reco of
     [] \<Rightarrow> Inr ([], dt)
   | luma # chroma \<Rightarrow>
       if do_dithering_switch opts \<and> pc_dithering_control picture
       then rbind (dither_plane lib tbs luma dt) (\<lambda>(s, dt). Inr (s # chroma, dt))
       else Inr (reco, dt))"

definition decode ::
  "(int \<Rightarrow> rat) \<Rightarrow> (nat \<Rightarrow> nat) \<Rightarrow> u32 \<Rightarrow> decode_options \<Rightarrow> image \<Rightarrow> layer_surfaces \<Rightarrow> decoder \<times> dither_state \<Rightarrow>
   (image \<times> decoder \<times> dither_state) result" where
  "decode c_log lib now opts ext_base symbols = (\<lambda>(dc, dt).
     let sg = dc_configuration dc; g = sg_global_configuration sg; picture = sg_picture_configuration sg;
         d = dc_dimensions dc; desc = im_description ext_base in
     rbind (check_that (gc_transform_block_size g = 4 \<or> gc_transform_block_size g = 2)) (\<lambda>_.
     rbind (make_dither now (unat (pc_dithering_strength picture)) (unat (gc_enhancement_depth g))
       (do_dithering_fixed opts) dt) (\<lambda>dt.
     rbind (desc_width desc 0) (\<lambda>w. rbind (check_that (w = dm_base_width d)) (\<lambda>_.
     rbind (desc_height desc 0) (\<lambda>h. rbind (check_that (h = dm_base_height d)) (\<lambda>_.
     rbind (desc_num_planes desc) (\<lambda>n.
     rbind (decode_planes c_log (do_apply_enhancement opts) symbols ext_base n dc) (\<lambda>(full_reco, dc).
     rbind (dithered lib opts picture (unat (gc_transform_block_size g)) full_reco dt) (\<lambda>(outp_reco, dt).
     rbind (map_result (\<lambda>p. output_plane sg d p (outp_reco ! p)) [0..<n]) (\<lambda>output.
     rbind (vector_at output 0) (\<lambda>(ow, oh, _).
     rbind (with_depth \<lparr>id_format = id_format desc, id_width = ow, id_height = oh\<rparr>
       (unat (gc_enhancement_depth g))) (\<lambda>output_desc.
     Inr (\<lparr>im_description = output_desc, im_timestamp = im_timestamp ext_base,
           im_planes = map (snd \<circ> snd) output\<rparr>, dc, dt))))))))))))))"

end
