(* ===== verification/PictureEncoding.thy ===== *)
theory PictureEncoding
  imports ResidualEncoding PictureDecoding SerializerBlocks
begin

text \<open>
  \<open>Encoder::encode\<close> of encoder/src/Encoder.cpp: the symbols of a picture and its reconstruction, with
  the choice between intra and predicted transforms. Dumps, the reports to standard output and the
  output file are not modelled.
\<close>

section \<open>The state of the encoder\<close>

datatype base_frame_type = BaseFrame_IDR | BaseFrame_Intra | BaseFrame_Inter | BaseFrame_Pred | BaseFrame_Bidi

record encoder =
  en_config :: encoder_configuration
  en_configuration :: signaled_configuration
  en_dimensions :: dimensions
  en_previous_residuals :: "nat \<Rightarrow> int surface option"
  en_quant_matrix_coeffs :: "layer_position \<Rightarrow> int"
  en_last_idr_frame_num :: int
  en_random :: random_state

definition is_intra_frame :: "base_frame_type \<Rightarrow> bool" where
  "is_intra_frame t \<longleftrightarrow> t = BaseFrame_IDR \<or> t = BaseFrame_Intra"

abbreviation en_global :: "encoder \<Rightarrow> global_configuration" where
  "en_global en \<equiv> sg_global_configuration (en_configuration en)"

abbreviation en_picture :: "encoder \<Rightarrow> picture_configuration" where
  "en_picture en \<equiv> sg_picture_configuration (en_configuration en)"

definition update_picture :: "(picture_configuration \<Rightarrow> picture_configuration) \<Rightarrow> encoder \<Rightarrow> encoder" where
  "update_picture f en =
     en\<lparr>en_configuration := (en_configuration en)\<lparr>sg_picture_configuration := f (en_picture en)\<rparr>\<rparr>"

section \<open>Configuration of a picture\<close>

definition enhancement_needed :: "encoder_configuration \<Rightarrow> global_configuration \<Rightarrow> base_frame_type \<Rightarrow> nat \<Rightarrow> nat \<Rightarrow> bool" where
  "enhancement_needed ec g frame_type sw_1 sw_2 =
     (if 32767 \<le> sw_1 \<and> 32767 \<le> sw_2 then
        gc_temporal_enabled g \<noteq> 0 \<and> is_intra_frame frame_type \<and> ec_temporal_cq_sw_multiplier ec \<noteq> 1000
      else True)"

text \<open>The first \<open>n\<close> entries of an array are replaced.\<close>

definition put_entries :: "nat \<Rightarrow> 'a list \<Rightarrow> 'a list \<Rightarrow> 'a list" where
  "put_entries n src dst = take n src @ drop n dst"

definition default_matrix :: "nat \<Rightarrow> nat \<Rightarrow> u32 list" where
  "default_matrix n row = map word_of_int ((if n = 4 then default_qm_coefficient_2x2 else default_qm_coefficient_4x4) ! row)"

text \<open>Outside a key picture without enhancement the matrices follow the mode; then they are kept.\<close>

definition custom_matrices :: "nat \<Rightarrow> u32 list \<Rightarrow> u32 list \<Rightarrow> picture_configuration \<Rightarrow> picture_configuration" where
  "custom_matrices n d2 d1 p =
     (let q = (\<lambda>two one. p\<lparr>pc_qm_coefficient_2 := put_entries n two (pc_qm_coefficient_2 p),
                           pc_qm_coefficient_1 := put_entries n one (pc_qm_coefficient_1 p)\<rparr>) in
      case pc_quant_matrix_mode p of
        QuantMatrix_BothPrevious \<Rightarrow> q (pc_qm_coefficient_2_mem p) (pc_qm_coefficient_1_mem p)
      | QuantMatrix_BothDefault \<Rightarrow> q d2 d1
      | QuantMatrix_SameAndCustom \<Rightarrow> q (pc_qm_coefficient_2_par p) (pc_qm_coefficient_2_par p)
      | QuantMatrix_Level2CustomLevel1Default \<Rightarrow> q (pc_qm_coefficient_2_par p) (pc_qm_coefficient_1_mem p)
      | QuantMatrix_Level2DefaultLevel1Custom \<Rightarrow> q (pc_qm_coefficient_2_mem p) (pc_qm_coefficient_1_par p)
      | QuantMatrix_DifferentAndCustom \<Rightarrow> q (pc_qm_coefficient_2_par p) (pc_qm_coefficient_1_par p))"

definition update_picture_configuration_in_loop :: "global_configuration \<Rightarrow> picture_configuration \<Rightarrow> picture_configuration result" where
  "update_picture_configuration_in_loop g p =
     (let n = unat (gc_num_residual_layers g) in
      rbind (is_horizontal_only g LOQ_LEVEL_2) (\<lambda>horizontal_only.
      let d2 = default_matrix n (if horizontal_only then 0 else 1); d1 = default_matrix n 2;
          p = p\<lparr>pc_qm_coefficient_2 := put_entries n d2 (pc_qm_coefficient_2 p),
                pc_qm_coefficient_1 := put_entries n d1 (pc_qm_coefficient_1 p)\<rparr>;
          p = (if pc_coding_type p \<noteq> CodingType_IDR \<or> pc_enhancement_enabled p then custom_matrices n d2 d1 p else p) in
      Inr (p\<lparr>pc_qm_coefficient_2_mem := put_entries n (pc_qm_coefficient_2 p) (pc_qm_coefficient_2_mem p),
             pc_qm_coefficient_1_mem := put_entries n (pc_qm_coefficient_1 p) (pc_qm_coefficient_1_mem p),
             pc_temporal_signalling_present := False\<rparr>)))"

definition start_picture :: "base_frame_type \<Rightarrow> encoder \<Rightarrow> encoder result" where
  "start_picture frame_type en =
     (let p = en_picture en in
      rbind (vector_at (pc_step_width_loq p) LOQ_LEVEL_1) (\<lambda>sw_1.
      rbind (vector_at (pc_step_width_loq p) LOQ_LEVEL_2) (\<lambda>sw_2.
      rbind (update_picture_configuration_in_loop (en_global en)
        (p\<lparr>pc_enhancement_enabled := enhancement_needed (en_config en) (en_global en) frame_type (unat sw_1) (unat sw_2),
           pc_coding_type := if is_intra_frame frame_type then CodingType_IDR else CodingType_NonIDR\<rparr>)) (\<lambda>p.
      Inr (update_picture (\<lambda>_. p\<lparr>pc_temporal_refresh := False\<rparr>) en)))))"

text \<open>The step width of the second sub-layer by the position of the picture in its group.\<close>

definition scaled_step_width :: "u32 \<Rightarrow> nat \<Rightarrow> u32" where
  "scaled_step_width orig multiplier = clamp (orig * word_of_nat multiplier div 1000) 1 32767"

definition picture_step_width :: "encoder_configuration \<Rightarrow> global_configuration \<Rightarrow> base_frame_type \<Rightarrow> int \<Rightarrow> u32 \<Rightarrow> u32" where
  "picture_step_width ec g frame_type distance orig =
     (if is_intra_frame frame_type then
        if gc_temporal_enabled g \<noteq> 0 then scaled_step_width orig (ec_temporal_cq_sw_multiplier ec) else orig
      else if distance mod 8 = 0 then scaled_step_width orig (ec_delta_sw_mult_gop08 ec)
      else if distance mod 4 = 0 then scaled_step_width orig (ec_delta_sw_mult_gop04 ec)
      else if distance mod 2 = 0 then scaled_step_width orig (ec_delta_sw_mult_gop02 ec)
      else scaled_step_width orig (ec_delta_sw_mult_gop01 ec))"

definition set_step_width :: "base_frame_type \<Rightarrow> int \<Rightarrow> encoder \<Rightarrow> encoder result" where
  "set_step_width frame_type gop_frame_num en =
     rbind (vector_at (pc_step_width_loq_orig (en_picture en)) LOQ_LEVEL_2) (\<lambda>orig.
     let en = en\<lparr>en_last_idr_frame_num := if is_intra_frame frame_type then gop_frame_num else en_last_idr_frame_num en\<rparr>;
         sw = picture_step_width (en_config en) (en_global en) frame_type (gop_frame_num - en_last_idr_frame_num en) orig in
     Inr (update_picture (\<lambda>p. p\<lparr>pc_step_width_loq := (pc_step_width_loq p)[LOQ_LEVEL_2 := sw]\<rparr>) en))"

section \<open>The first sub-layer\<close>

text \<open>The classes of the blocks of a source plane, where the priority map is in use.\<close>

definition priority_types :: "bool \<Rightarrow> encoder_configuration \<Rightarrow> nat \<Rightarrow> int surface \<Rightarrow> u8 surface option result" where
  "priority_types use ec plane src =
     (if use \<and> ec_encoding_mode ec \<noteq> ENCODE_NONE \<and> plane = 0 then
        rbind (compute_mean_value src) (\<lambda>means.
        rbind (compute_contrast_texture src means) (\<lambda>types. Inr (Some types)))
      else Inr None)"

definition put_symbols :: "nat \<Rightarrow> nat \<Rightarrow> int surface list \<Rightarrow> layer_surfaces \<Rightarrow> layer_surfaces" where
  "put_symbols plane loq layers symbols =
     (\<lambda>(p, l, layer). if p = plane \<and> l = loq \<and> layer < length layers then Residual_Surface (layers ! layer)
        else symbols (p, l, layer))"

definition encode_base_plane ::
  "(int \<Rightarrow> rat) \<Rightarrow> nat \<Rightarrow> int surface \<Rightarrow> int surface \<Rightarrow> encoder \<Rightarrow> layer_surfaces \<Rightarrow> (int surface \<times> encoder \<times> layer_surfaces) result" where
  "encode_base_plane c_log plane intermediate_src base_prediction en symbols =
     (let ec = en_config en; g = en_global en; picture = en_picture en;
          coeffs = (\<lambda>layer. en_quant_matrix_coeffs en (plane, LOQ_LEVEL_1, layer)) in
      if is_enhanced g picture plane then
        rbind (subtract_planes intermediate_src base_prediction) (\<lambda>base_residuals.
        rbind (priority_types (ec_use_priority_map_sl_1 ec) ec plane intermediate_src) (\<lambda>types.
        rbind (encoder_symbols ec g picture coeffs plane LOQ_LEVEL_1 base_residuals SWM_Disabled
          (if types = None then ENCODE_ALL else ec_encoding_mode ec) None types (ec_priority_type_sl_1 ec) None
          (en_random en)) (\<lambda>(layers, next).
        rbind (encoder_residuals c_log g picture coeffs (plane_sizes (en_dimensions en) plane LOQ_LEVEL_1) plane
          LOQ_LEVEL_1 ((!) layers) SWM_Disabled None) (\<lambda>recon.
        rbind (deblocked g picture recon) (\<lambda>recon.
        rbind (add_planes base_prediction recon) (\<lambda>base_reco.
        Inr (base_reco, en\<lparr>en_random := next\<rparr>, put_symbols plane LOQ_LEVEL_1 layers symbols)))))))
      else Inr (base_prediction, en, symbols))"

section \<open>The second sub-layer\<close>

definition filled_mask :: "u8 \<Rightarrow> global_configuration \<Rightarrow> int surface \<Rightarrow> u8 surface result" where
  "filled_mask t g s =
     rbind (udiv (sf_width s) (unat (gc_transform_block_size g))) (\<lambda>w.
     rbind (udiv (sf_height s) (unat (gc_transform_block_size g))) (\<lambda>h.
     rbind (surface_fill t w h) surface_finish))"

text \<open>The trial: the symbols, and the cost of the reconstruction.\<close>

definition trial_cost ::
  "(int \<Rightarrow> rat) \<Rightarrow> nat \<Rightarrow> encoder \<Rightarrow> nat \<Rightarrow> bool \<Rightarrow> int surface \<Rightarrow> int surface \<Rightarrow> int surface \<Rightarrow> int surface option \<Rightarrow>
   (int surface list \<times> int surface) result" where
  "trial_cost c_log plane en scale intra src prediction residuals previous =
     (let ec = en_config en; g = en_global en; picture = en_picture en; tbs = unat (gc_transform_block_size g);
          coeffs = (\<lambda>layer. en_quant_matrix_coeffs en (plane, LOQ_LEVEL_2, layer)) in
      rbind (encoder_symbols ec g picture coeffs plane LOQ_LEVEL_2 residuals SWM_Active ENCODE_ALL None None
        (ec_priority_type_sl_2 ec) None (en_random en)) (\<lambda>(layers, _).
      rbind (encoder_residuals c_log g picture coeffs (plane_sizes (en_dimensions en) plane LOQ_LEVEL_2) plane
        LOQ_LEVEL_2 ((!) layers) SWM_Active None) (\<lambda>recon.
      rbind (case previous of None \<Rightarrow> Inr recon | Some prev \<Rightarrow> add_planes prev recon) (\<lambda>recon.
      rbind (add_planes prediction recon) (\<lambda>reco.
      rbind (if tbs = 2 then temporal_cost_2x2 src reco layers tbs scale intra
             else temporal_cost_4x4 src reco layers tbs scale intra) (\<lambda>cost.
      Inr (layers, cost)))))))"

text \<open>The factor of the number of coefficients in the costs.\<close>

definition cost_scale :: "(int \<Rightarrow> rat) \<Rightarrow> nat \<Rightarrow> encoder \<Rightarrow> int result" where
  "cost_scale c_log plane en =
     rbind (plane_step_width (en_global en) (en_picture en) plane LOQ_LEVEL_2) (\<lambda>calculated.
     let dirq = find_dirq_step_width calculated (en_quant_matrix_coeffs en (plane, LOQ_LEVEL_2, 0)) in
     rbind (find_invq_offset c_log (en_picture en) calculated dirq) (\<lambda>offset.
     find_invq_step_width c_log (en_picture en) dirq offset))"

text \<open>The mask of a picture, and the buffer where intra transforms have been cleared.\<close>

definition choose_mask ::
  "(int \<Rightarrow> rat) \<Rightarrow> nat \<Rightarrow> encoder \<Rightarrow> int surface \<Rightarrow> int surface \<Rightarrow> int surface \<Rightarrow> (u8 surface \<times> int surface) result" where
  "choose_mask c_log plane en src prediction residuals =
     (let g = en_global en; tbs = unat (gc_transform_block_size g);
          tiles = gc_temporal_tile_intra_signalling_enabled g in
      rbind (cost_scale c_log plane en) (\<lambda>lambda.
      case en_previous_residuals en plane of
        Some previous \<Rightarrow>
          rbind (trial_cost c_log plane en (nat (lambda mod 4294967296)) True src prediction residuals None) (\<lambda>(intra_symbols, intra_cost).
          rbind (subtract_planes residuals previous) (\<lambda>inter_residuals.
          rbind (trial_cost c_log plane en (nat (lambda mod 4294967296)) False src prediction inter_residuals (Some previous)) (\<lambda>(inter_symbols, inter_cost).
          rbind (compare_le intra_cost inter_cost) (\<lambda>per_transform.
          rbind (if tiles then
                   rbind (temporal_tile_map intra_symbols inter_symbols tbs) (\<lambda>tile_map.
                   temporal_tile_intra_signal tile_map per_transform tbs)
                 else Inr per_transform) (\<lambda>marks.
          rbind (apply_temporal_map previous marks) (\<lambda>buffer. Inr (marks, buffer)))))))
      | None \<Rightarrow>
          rbind (rbind (surface_fill 0 (sf_width residuals) (sf_height residuals)) surface_finish) (\<lambda>buffer.
          rbind (filled_mask temporal_intr g prediction) (\<lambda>per_transform.
          rbind (if tiles then
                   rbind (rbind (surface_fill temporal_intr ((sf_width prediction + 31) div 32) ((sf_height prediction + 31) div 32))
                     surface_finish) (\<lambda>tile_map.
                   temporal_tile_intra_signal tile_map per_transform tbs)
                 else Inr per_transform) (\<lambda>marks. Inr (marks, buffer))))))"

definition set_previous :: "nat \<Rightarrow> int surface option \<Rightarrow> encoder \<Rightarrow> encoder" where
  "set_previous plane s en = en\<lparr>en_previous_residuals := (en_previous_residuals en)(plane := s)\<rparr>"

text \<open>
  The symbols of the second sub-layer for the residuals that remain, with the priority map of the
  source, and their reconstruction.
\<close>

definition encode_remaining ::
  "(int \<Rightarrow> rat) \<Rightarrow> nat \<Rightarrow> encoder \<Rightarrow> int surface \<Rightarrow> int surface option \<Rightarrow> int surface \<Rightarrow> temporal_swm \<Rightarrow> u8 surface option \<Rightarrow>
   (int surface list \<times> int surface \<times> encoder) result" where
  "encode_remaining c_log plane en src pixel_sad residuals swm marks =
     (let ec = en_config en; g = en_global en; picture = en_picture en;
          coeffs = (\<lambda>layer. en_quant_matrix_coeffs en (plane, LOQ_LEVEL_2, layer)) in
      rbind (priority_types (ec_use_priority_map_sl_2 ec) ec plane src) (\<lambda>types.
      rbind (encoder_symbols ec g picture coeffs plane LOQ_LEVEL_2 residuals swm ENCODE_ALL marks types
        (ec_priority_type_sl_2 ec) pixel_sad (en_random en)) (\<lambda>(layers, next).
      rbind (encoder_residuals c_log g picture coeffs (plane_sizes (en_dimensions en) plane LOQ_LEVEL_2) plane
        LOQ_LEVEL_2 ((!) layers) swm marks) (\<lambda>recon.
      Inr (layers, recon, en\<lparr>en_random := next\<rparr>)))))"

text \<open>Without temporal prediction.\<close>

definition encode_intra_plane ::
  "(int \<Rightarrow> rat) \<Rightarrow> base_frame_type \<Rightarrow> int \<Rightarrow> nat \<Rightarrow> int surface \<Rightarrow> int surface option \<Rightarrow> int surface \<Rightarrow> int surface \<Rightarrow> encoder \<Rightarrow>
   layer_surfaces \<Rightarrow> (int surface \<times> encoder \<times> layer_surfaces) result" where
  "encode_intra_plane c_log frame_type gop_frame_num plane src pixel_sad prediction residuals en symbols =
     rbind (set_step_width frame_type gop_frame_num
       (update_picture (\<lambda>p. p\<lparr>pc_temporal_refresh := True, pc_temporal_signalling_present := False\<rparr>) en)) (\<lambda>en.
     rbind (encode_remaining c_log plane en src pixel_sad residuals SWM_Disabled None) (\<lambda>(layers, recon, en).
     rbind (add_planes prediction recon) (\<lambda>reco.
     Inr (reco, if gc_temporal_enabled (en_global en) \<noteq> 0 then set_previous plane (Some recon) en else en,
          put_symbols plane LOQ_LEVEL_2 layers symbols))))"

text \<open>With it: the mask is the layer after those of the residuals.\<close>

definition encode_temporal_plane ::
  "(int \<Rightarrow> rat) \<Rightarrow> base_frame_type \<Rightarrow> int \<Rightarrow> nat \<Rightarrow> int surface \<Rightarrow> int surface option \<Rightarrow> int surface \<Rightarrow> int surface \<Rightarrow> encoder \<Rightarrow>
   layer_surfaces \<Rightarrow> (int surface \<times> encoder \<times> layer_surfaces) result" where
  "encode_temporal_plane c_log frame_type gop_frame_num plane src pixel_sad prediction residuals en symbols =
     rbind (set_step_width frame_type gop_frame_num
       (update_picture (\<lambda>p. p\<lparr>pc_temporal_refresh := False, pc_temporal_signalling_present := True\<rparr>) en)) (\<lambda>en.
     rbind (choose_mask c_log plane en src prediction residuals) (\<lambda>(marks, buffer).
     rbind (subtract_planes residuals buffer) (\<lambda>remaining.
     rbind (encode_remaining c_log plane en src pixel_sad remaining SWM_Dependent (Some marks)) (\<lambda>(layers, recon, en).
     rbind (add_planes buffer recon) (\<lambda>buffer.
     rbind (add_planes prediction buffer) (\<lambda>reco.
     Inr (reco, set_previous plane (Some buffer) en,
          (put_symbols plane LOQ_LEVEL_2 layers symbols)
            ((plane, LOQ_LEVEL_2, unat (gc_num_residual_layers (en_global en))) := Mask_Surface marks))))))))"

text \<open>A picture without enhancement.\<close>

definition pass_through_plane ::
  "base_frame_type \<Rightarrow> nat \<Rightarrow> int surface \<Rightarrow> int surface \<Rightarrow> encoder \<Rightarrow> layer_surfaces \<Rightarrow> (int surface \<times> encoder \<times> layer_surfaces) result" where
  "pass_through_plane frame_type plane src prediction en symbols =
     (let g = en_global en; tbs = unat (gc_transform_block_size g);
          signalling = ec_no_enhancement_temporal_layer (en_config en) in
      case (if gc_temporal_enabled g = 0 \<or> is_intra_frame frame_type then None else en_previous_residuals en plane) of
        None \<Rightarrow>
          Inr (prediction,
            set_previous plane None
              (update_picture (\<lambda>p. p\<lparr>pc_temporal_refresh := True, pc_temporal_signalling_present := False\<rparr>) en), symbols)
      | Some previous \<Rightarrow>
          if signalling then
            rbind (temporal_cost_sad (SadInternal src prediction) tbs) (\<lambda>intra_cost.
            rbind (add_planes prediction previous) (\<lambda>inter_recon.
            rbind (temporal_cost_sad (SadInternal src inter_recon) tbs) (\<lambda>inter_cost.
            rbind (compare_le intra_cost inter_cost) (\<lambda>per_transform.
            rbind (if gc_temporal_tile_intra_signalling_enabled g then
                     rbind (udiv 32 tbs) (\<lambda>n.
                     rbind (udiv (sf_width per_transform) n) (\<lambda>w. rbind (udiv (sf_height per_transform) n) (\<lambda>h.
                     rbind (surface_build w h (\<lambda>_ _. Inr temporal_pred)) (\<lambda>tile_map.
                     temporal_tile_intra_signal tile_map per_transform tbs))))
                   else Inr per_transform) (\<lambda>marks.
            rbind (apply_temporal_map previous marks) (\<lambda>buffer.
            rbind (add_planes prediction buffer) (\<lambda>reco.
            Inr (reco,
              set_previous plane (Some buffer)
                (update_picture (\<lambda>p. p\<lparr>pc_temporal_refresh := False, pc_temporal_signalling_present := True\<rparr>) en),
              symbols((plane, LOQ_LEVEL_2, unat (gc_num_residual_layers g)) := Mask_Surface marks)))))))))
          else
            rbind (add_planes prediction previous) (\<lambda>reco.
            Inr (reco, update_picture (\<lambda>p. p\<lparr>pc_temporal_refresh := False, pc_temporal_signalling_present := False\<rparr>) en,
              symbols)))"


section \<open>A plane\<close>

text \<open>The differences to the next picture, where one of their users is switched on.\<close>

definition next_differences :: "encoder_configuration \<Rightarrow> nat \<Rightarrow> nat \<Rightarrow> image list \<Rightarrow> int surface \<Rightarrow> int surface option result" where
  "next_differences ec plane tbs src_image src = (case src_image of
     _ # later # _ \<Rightarrow>
       if plane = 0 \<and> (ec_sad_threshold ec \<noteq> 0 \<and> ec_sad_coeff_threshold ec \<noteq> 0 \<or>
            ec_use_priority_map_sl_2 ec \<and> ec_encoding_mode ec \<noteq> ENCODE_NONE \<or> ec_quant_reduced_deadzone ec \<noteq> 5)
       then
         rbind (image_plane later plane) (\<lambda>p.
         rbind (desc_bit_depth (im_description later)) (\<lambda>depth.
         rbind (convert_to_internal p depth) (\<lambda>src_next.
         rbind (temporal_cost_sad (SadInternal src src_next) tbs) (\<lambda>sad. Inr (Some sad)))))
       else Inr None
   | _ \<Rightarrow> Inr None)"

definition encode_full_plane ::
  "(int \<Rightarrow> rat) \<Rightarrow> base_frame_type \<Rightarrow> int \<Rightarrow> image list \<Rightarrow> nat \<Rightarrow> int surface \<Rightarrow> int surface \<Rightarrow> encoder \<Rightarrow> layer_surfaces \<Rightarrow>
   (int surface \<times> encoder \<times> layer_surfaces) result" where
  "encode_full_plane c_log frame_type gop_frame_num src_image plane src prediction en symbols =
     (let g = en_global en; picture = en_picture en in
      if is_enhanced g picture plane then
        rbind (subtract_planes src prediction) (\<lambda>residuals.
        rbind (next_differences (en_config en) plane (unat (gc_transform_block_size g)) src_image src) (\<lambda>pixel_sad.
        (if \<not> pc_temporal_signalling_present picture \<and>
            (gc_temporal_enabled g = 0 \<or> en_previous_residuals en plane = None \<or> is_intra_frame frame_type)
         then encode_intra_plane else encode_temporal_plane)
          c_log frame_type gop_frame_num plane src pixel_sad prediction residuals en symbols))
      else if plane < unat (gc_num_processed_planes g) then
        pass_through_plane frame_type plane src prediction en symbols
      else Inr (prediction, en, symbols))"

definition internal_plane :: "image \<Rightarrow> nat \<Rightarrow> int surface result" where
  "internal_plane im plane =
     rbind (image_plane im plane) (\<lambda>p.
     rbind (desc_bit_depth (im_description im)) (convert_to_internal p))"

definition encode_plane ::
  "(int \<Rightarrow> rat) \<Rightarrow> base_frame_type \<Rightarrow> bool \<Rightarrow> int \<Rightarrow> image list \<Rightarrow> image \<Rightarrow> image \<Rightarrow> nat \<Rightarrow> encoder \<Rightarrow> layer_surfaces \<Rightarrow>
   (int surface \<times> encoder \<times> layer_surfaces) result" where
  "encode_plane c_log frame_type is_idr gop_frame_num src_image intermediate_src_image base_prediction_image plane en symbols =
     (let g = en_global en in
      rbind (vector_at src_image 0) (\<lambda>first.
      rbind (internal_plane first plane) (\<lambda>src.
      rbind (internal_plane intermediate_src_image plane) (\<lambda>intermediate_src.
      rbind (base_internal g base_prediction_image plane) (\<lambda>base_decoded.
      rbind (update_quant_matrix g (en_picture en) is_idr plane (en_quant_matrix_coeffs en)) (\<lambda>coeffs.
      let en = en\<lparr>en_quant_matrix_coeffs := coeffs\<rparr> in
      rbind (predict g LOQ_LEVEL_1 base_decoded) (\<lambda>base_prediction.
      rbind (encode_base_plane c_log plane intermediate_src base_prediction en symbols) (\<lambda>(base_reco, en, symbols).
      rbind (predict g LOQ_LEVEL_2 base_reco) (\<lambda>enhanced_prediction.
      encode_full_plane c_log frame_type gop_frame_num src_image plane src enhanced_prediction en symbols)))))))))"

section \<open>A picture\<close>

text \<open>
  \<open>syntax_blocks_mask\<close>: the third argument is called \<open>tiled\<close> and its branches are the other way round,
  but the caller passes whether there are no tiles.
\<close>

definition syntax_blocks_mask :: "base_frame_type \<Rightarrow> bool \<Rightarrow> bool \<Rightarrow> bool \<Rightarrow> syntax_block set" where
  "syntax_blocks_mask frame_type encoded_data_present is_tiled additional_info_present =
     (let data = (if encoded_data_present then if is_tiled then {SyntaxBlock_EncodedData} else {SyntaxBlock_EncodedData_Tiled}
                  else {}) in
      if is_intra_frame frame_type then
        if additional_info_present
        then {SyntaxBlock_Global, SyntaxBlock_Picture, SyntaxBlock_Sequence, SyntaxBlock_Additional_Info} \<union> data
        else {SyntaxBlock_Global, SyntaxBlock_Picture, SyntaxBlock_Sequence} \<union> data
      else {SyntaxBlock_Picture} \<union> data)"

definition seed_user_data :: "u32 \<Rightarrow> encoder \<Rightarrow> encoder" where
  "seed_user_data now en =
     (if gc_user_data_enabled (en_global en) = UserData_None then en
      else case ec_user_data_method (en_config en) of
        UserDataMethod_Random \<Rightarrow> en\<lparr>en_random := random_srand now\<rparr>
      | UserDataMethod_FixedRandom \<Rightarrow> en\<lparr>en_random := random_srand 45721\<rparr>
      | _ \<Rightarrow> en)"

text \<open>The planes of a picture, and the picture shown.\<close>

definition encode_picture ::
  "(int \<Rightarrow> rat) \<Rightarrow> u32 \<Rightarrow> base_frame_type \<Rightarrow> bool \<Rightarrow> int \<Rightarrow> image list \<Rightarrow> image \<Rightarrow> image \<Rightarrow> layer_surfaces \<Rightarrow> encoder \<Rightarrow>
   (int surface list \<times> encoder \<times> layer_surfaces) result" where
  "encode_picture c_log now frame_type is_idr gop_frame_num src_image intermediate_src_image base_prediction_image symbols en =
     rbind (start_picture frame_type en) (\<lambda>en.
     rbind (vector_at src_image 0) (\<lambda>first.
     rbind (desc_num_planes (im_description first)) (\<lambda>n.
     fold_result (\<lambda>plane (reco, en, symbols).
       rbind (encode_plane c_log frame_type is_idr gop_frame_num src_image intermediate_src_image base_prediction_image
         plane en symbols) (\<lambda>(s, en, symbols). Inr (reco @ [s], en, symbols)))
       [0..<n] ([], seed_user_data now en, symbols))))"

definition no_symbols :: layer_surfaces where
  "no_symbols = (\<lambda>_. Residual_Surface \<lparr>sf_width = 0, sf_height = 0, sf_pixels = []\<rparr>)"

definition encode ::
  "(int \<Rightarrow> rat) \<Rightarrow> (nat \<Rightarrow> nat) \<Rightarrow> u32 \<Rightarrow> dimensions \<Rightarrow> base_frame_type \<Rightarrow> bool \<Rightarrow> int \<Rightarrow> image list \<Rightarrow> image \<Rightarrow> image \<Rightarrow>
   encoder \<times> dither_state \<Rightarrow> (packet \<times> int surface list \<times> encoder \<times> dither_state) run" where
  "encode c_log lib now old frame_type is_idr gop_frame_num src_image intermediate_src_image base_prediction_image =
     (\<lambda>(en, dt).
      let p = en_picture en; fixed = pc_dithering_type p = Dithering_UniformFixed in
      run_bind (Some (make_dither now (unat (pc_dithering_strength p)) (unat (gc_enhancement_depth (en_global en))) fixed dt)) (\<lambda>dt.
      run_bind (Some (encode_picture c_log now frame_type is_idr gop_frame_num src_image intermediate_src_image
        base_prediction_image no_symbols en)) (\<lambda>(reco, en, symbols).
      run_bind (Some (dithered lib \<lparr>do_dithering_switch = True, do_dithering_fixed = fixed, do_apply_enhancement = True\<rparr>
        p (unat (gc_transform_block_size (en_global en))) reco dt)) (\<lambda>(out, dt).
      let g = en_global en; p = en_picture en in
      run_bind (emit_blocks old (en_configuration en)
        (syntax_blocks_mask frame_type (pc_enhancement_enabled p \<or> pc_temporal_signalling_present p)
          (gc_tile_dimensions_type g = TileDimensions_None) (gc_additional_info_present g)) symbols) (\<lambda>packet.
      Some (Inr (packet, out, en, dt)))))))"

end
