(* ===== verification/ClosedLoop.thy ===== *)
theory ClosedLoop
  imports ResidualAgreement PictureEncoding
begin

text \<open>
  The encoder reconstructs what the decoder decodes: for a plane whose symbols and configuration the
  decoder has received, both compute the same picture and keep the same temporal buffer.
\<close>

section \<open>Planes of 16 bit pixels\<close>

lemma fold_result_invariant:
  assumes "\<And>i s s'. i \<in> set xs \<Longrightarrow> P s \<Longrightarrow> f i s = Inr s' \<Longrightarrow> P s'" and "P s" and "fold_result f xs s = Inr s'"
  shows "P s'"
  using assms
proof (induction xs arbitrary: s)
  case (Cons x xs)
  from Cons.prems(3) obtain t where t: "f x s = Inr t" "fold_result f xs t = Inr s'" by auto
  have *: "P t" by (rule Cons.prems(1) [OF _ Cons.prems(2) t(1)]) simp
  show ?case by (rule Cons.IH [OF Cons.prems(1) * t(2)]) simp_all
qed simp

text \<open>A builder of 16 bit pixels, written so far.\<close>

definition builder16 :: "nat \<Rightarrow> nat \<Rightarrow> int surface_builder \<Rightarrow> bool" where
  "builder16 w h b \<longleftrightarrow> sb_width b = w \<and> sb_height b = h \<and> length (sb_pixels b) = h * w \<and>
     (\<forall>p. Some p \<in> set (sb_pixels b) \<longrightarrow> is_int16 p)"

lemma builder16_reserve [simp]: "builder16 w h (surface_reserve w h)"
  by (simp add: builder16_def surface_reserve_def)

lemma builder16_write:
  assumes "builder16 w h b" and "is_int16 p" and "surface_write x y p b = Inr b'"
  shows "builder16 w h b'"
  using assms set_update_subset_insert [of "sb_pixels b" "y * sb_width b + x" "Some p"]
  by (auto simp: builder16_def surface_write_def rbind_eq_Inr)

lemma builder16_finish:
  assumes "builder16 w h b" and "surface_finish b = Inr s"
  shows "plane16 s \<and> sf_width s = w \<and> sf_height s = h"
proof -
  have "is_int16 (the p)" if "p \<in> set (sb_pixels b)" for p
    using assms that by (cases p) (auto simp: builder16_def surface_finish_def split: if_splits)
  with assms show ?thesis
    by (auto simp: builder16_def surface_finish_def plane16_def surface_wf_def list_all_iff split: if_splits)
qed

lemma surface_build16:
  assumes "\<And>x y p. fn x y = Inr p \<Longrightarrow> is_int16 p" and "surface_build w h fn = Inr s"
  shows "plane16 s \<and> sf_width s = w \<and> sf_height s = h"
proof -
  obtain b where b: "fold_result (\<lambda>(x, y) b. rbind (fn x y) (\<lambda>p. surface_write x y p b)) (raster w h) (surface_reserve w h) = Inr b"
    "surface_finish b = Inr s"
    using assms(2) by (auto simp: surface_build_def surface_generate_def rbind_eq_Inr)
  have "builder16 w h b"
    by (rule fold_result_invariant [where P = "builder16 w h", OF _ builder16_reserve b(1)]) (auto intro: builder16_write assms(1))
  then show ?thesis using b(2) by (rule builder16_finish)
qed

lemma zero_int16 [simp]: "is_int16 0"
  by (simp add: is_int16_def)

lemma inverse_pixel_int16: "inverse_pixel S basis layers x y = Inr p \<Longrightarrow> is_int16 p"
  unfolding inverse_pixel_def by (rule fold_result_invariant [where P = is_int16]) (auto intro: zero_int16)

lemma inverse_dds_block_int16: "i < 4 \<Longrightarrow> j < 4 \<Longrightarrow> is_int16 (inverse_dds_block c ! j ! i)"
  by (auto simp: inverse_dds_block_def numeral_nat less_Suc_eq)

lemma inverse_dds_pixels16:
  assumes "builder16 w h b" and "inverse_dds_pixels coeffs y x b = Inr b'"
  shows "builder16 w h b'"
proof -
  obtain c where "fold_result (\<lambda>(i, j) dst. surface_write (4 * x + i) (4 * y + j) (inverse_dds_block ((!) c) ! j ! i) dst)
      (raster 4 4) b = Inr b'"
    using assms(2) by (auto simp: inverse_dds_pixels_def)
  note run = this
  show ?thesis
    by (rule fold_result_invariant [where P = "builder16 w h", OF _ assms(1) run])
      (auto elim!: builder16_write [rotated 2] intro: inverse_dds_block_int16)
qed

lemma inverse_transform_dds16:
  assumes "inverse_transform_dds w h layers = Inr s"
  shows "plane16 s \<and> sf_width s = w \<and> sf_height s = h"
proof -
  obtain b where b: "fold_result (inverse_dds_row w h layers) [0..<h div 4] (surface_reserve w h) = Inr b" "surface_finish b = Inr s"
    using assms by (auto simp: inverse_transform_dds_def)
  have "builder16 w h b'" if "builder16 w h a" "inverse_dds_row w h layers y a = Inr b'" for y a b'
  proof -
    from that(2) have "fold_result (inverse_dds_pixels layers y) [0..<w div 4] a = Inr b'"
      by (auto simp: inverse_dds_row_def)
    from fold_result_invariant [where P = "builder16 w h", OF _ that(1) this] show ?thesis by (auto intro: inverse_dds_pixels16)
  qed
  then have "builder16 w h b" by (intro fold_result_invariant [where P = "builder16 w h", OF _ builder16_reserve b(1)]) auto
  then show ?thesis using b(2) by (rule builder16_finish)
qed

lemma inverse_transform16:
  assumes "inverse_transform g horizontal_only w h layers = Inr s"
  shows "plane16 s \<and> sf_width s = w \<and> sf_height s = h"
  using assms inverse_transform_dds16 surface_build16 [OF inverse_pixel_int16]
  by (auto simp: inverse_transform_def inverse_transform_dd_def inverse_transform_dd_1d_def
      inverse_transform_dds_1d_def split: if_splits)

lemma encoder_residuals16:
  "encoder_residuals c_log g picture coeffs sizes plane loq symbols swm m = Inr s \<Longrightarrow>
     plane16 s \<and> (sf_width s, sf_height s) = sizes"
  by (cases sizes) (auto simp: encoder_residuals_def Let_def dest: inverse_transform16)

text \<open>Loops over the rows of a plane.\<close>

lemma concat_rows_all:
  assumes "\<And>y. y < length rows \<Longrightarrow> length (rows ! y) = w \<and> list_all Q (rows ! y)"
  shows "length (concat rows) = length rows * w" and "list_all Q (concat rows)"
proof -
  have "list_all (\<lambda>r. length r = w \<and> list_all Q r) rows" using assms by (simp add: list_all_length)
  then have "length (concat rows) = length rows * w \<and> list_all Q (concat rows)" by (induction rows) auto
  then show "length (concat rows) = length rows * w" "list_all Q (concat rows)" by blast+
qed

lemma plane_rows_all:
  assumes "\<And>x y p. x < w \<Longrightarrow> y < h \<Longrightarrow> f x y = Inr p \<Longrightarrow> Q p" and "plane_rows w h start f = Inr s"
  shows "surface_wf s \<and> list_all Q (sf_pixels s) \<and> sf_width s = w \<and> sf_height s = h"
proof -
  obtain rows where rows: "map_result (\<lambda>y. rbind (start y) (\<lambda>_. rbind (row_start w h y) (\<lambda>_. map_result (\<lambda>x. f x y) [0..<w]))) [0..<h] = Inr rows"
    and s: "s = \<lparr>sf_width = w, sf_height = h, sf_pixels = concat rows\<rparr>"
    using assms(2) by (auto simp: plane_rows_def)
  have len: "length rows = h" using map_result_Inr_length [OF rows] by simp
  have row: "length (rows ! y) = w \<and> list_all Q (rows ! y)" if "y < h" for y
  proof -
    have r: "map_result (\<lambda>x. f x y) [0..<w] = Inr (rows ! y)" using map_result_Inr_nth [OF rows, of y] that by auto
    then have "length (rows ! y) = w" by (auto dest: map_result_Inr_length)
    moreover have "Q (rows ! y ! x)" if "x < w" for x
      using map_result_Inr_nth [OF r, of x] that \<open>y < h\<close> assms(1) by auto
    ultimately show ?thesis by (simp add: list_all_length)
  qed
  with len concat_rows_all [of rows w Q] show ?thesis by (simp add: s surface_wf_def)
qed

lemma plane_rows16:
  assumes "\<And>x y p. x < w \<Longrightarrow> y < h \<Longrightarrow> f x y = Inr p \<Longrightarrow> is_int16 p" and "plane_rows w h start f = Inr s"
  shows "plane16 s \<and> sf_width s = w \<and> sf_height s = h"
  using plane_rows_all [where Q = is_int16, OF assms] by (simp add: plane16_def)

lemma add_planes16: "add_planes a b = Inr s \<Longrightarrow> plane16 s"
  unfolding add_planes_def by (auto dest!: plane_rows16 [rotated])

section \<open>Temporal buffers\<close>

text \<open>\<open>apply_map\<close> copies pixels, so it may be applied before or after any function that keeps the zero.\<close>

lemma map_result_image: "map_result (\<lambda>x. rbind (f x) (\<lambda>p. Inr (k p))) xs = rbind (map_result f xs) (\<lambda>ps. Inr (map k ps))"
proof (induction xs)
  case (Cons x xs)
  then show ?case by (cases "f x"; cases "map_result f xs") simp_all
qed simp

lemma plane_rows_image:
  "plane_rows w h start (\<lambda>x y. rbind (f x y) (\<lambda>p. Inr (k p))) =
     rbind (plane_rows w h start f) (\<lambda>s. Inr (surface_image k s))"
proof -
  have "map_result (\<lambda>y. rbind (start y) (\<lambda>_. rbind (row_start w h y) (\<lambda>_. map_result (\<lambda>x. rbind (f x y) (\<lambda>p. Inr (k p))) [0..<w]))) ys =
      rbind (map_result (\<lambda>y. rbind (start y) (\<lambda>_. rbind (row_start w h y) (\<lambda>_. map_result (\<lambda>x. f x y) [0..<w]))) ys)
        (\<lambda>rows. Inr (map (map k) rows))" for ys
    by (subst map_result_image [symmetric]) (simp add: rbind_assoc map_result_image)
  then show ?thesis by (simp add: plane_rows_def rbind_assoc surface_image_def map_concat)
qed

lemma surface_image_simps [simp]:
  "sf_width (surface_image k s) = sf_width s" "sf_height (surface_image k s) = sf_height s"
  "sf_pixels (surface_image k s) = map k (sf_pixels s)"
  by (simp_all add: surface_image_def)

lemma checked_cover_sizes:
  "sf_width s = sf_width t \<Longrightarrow> sf_height s = sf_height t \<Longrightarrow> checked_cover m s = checked_cover m t"
  by (simp add: checked_cover_def covered_def)

lemma row_read_image: "row_read (surface_image k s) y x = rbind (row_read s y x) (\<lambda>p. Inr (k p))"
  by (simp add: row_read_def)

lemma apply_map_image: "apply_map (k z) (surface_image k s) m = rbind (apply_map z s m) (\<lambda>r. Inr (surface_image k r))"
proof (cases "checked_cover m s")
  case (Inr ij)
  have "(\<lambda>x y. rbind (surface_read m (drop_bit (fst ij) x) (drop_bit (snd ij) y))
        (\<lambda>t. if t = temporal_intr then Inr (k z) else row_read (surface_image k s) y x)) =
      (\<lambda>x y. rbind (rbind (surface_read m (drop_bit (fst ij) x) (drop_bit (snd ij) y))
        (\<lambda>t. if t = temporal_intr then Inr z else row_read s y x)) (\<lambda>p. Inr (k p)))"
    by (auto simp: row_read_image rbind_assoc fun_eq_iff intro!: rbind_cong)
  with Inr show ?thesis
    by (simp add: apply_map_def checked_cover_sizes [of "surface_image k s" s] plane_rows_image split_def)
qed (simp add: apply_map_def checked_cover_sizes [of "surface_image k s" s])

lemma refresh_buffer_of: "refresh_buffer (Some (buffer_of s)) upsampled m = apply_temporal_map s m"
proof -
  have "buffer_view (buffer_of s) = surface_image Some s"
    by (simp add: buffer_view_def buffer_of_def surface_image_def)
  moreover have "surface_finish \<lparr>sb_width = sf_width r, sb_height = sf_height r, sb_pixels = map Some (sf_pixels r)\<rparr> = Inr r"
    for r :: "int surface" by (auto simp: surface_finish_def o_def)
  ultimately show ?thesis
    by (simp add: refresh_buffer_def apply_map_image [of Some] rbind_assoc apply_temporal_map_def)
qed

lemma refresh_buffer_None:
  "refresh_buffer None upsampled m = apply_temporal_map (surface_of (sf_width upsampled) (sf_height upsampled) (\<lambda>_ _. 0)) m"
  using refresh_buffer_of by (simp add: refresh_buffer_def)

lemma apply_temporal_map16:
  assumes "plane16 s" and "apply_temporal_map s m = Inr r"
  shows "plane16 r"
proof -
  obtain i j where "plane_rows (sf_width s) (sf_height s) (row_of s) (\<lambda>x y. rbind (surface_read m (drop_bit i x) (drop_bit j y))
      (\<lambda>t. if t = temporal_intr then Inr 0 else row_read s y x)) = Inr r"
    using assms(2) by (auto simp: apply_temporal_map_def apply_map_def)
  then have "plane16 r \<and> sf_width r = sf_width s \<and> sf_height r = sf_height s"
    by (rule plane_rows16 [rotated]) (use assms(1) plane16_pixel [OF assms(1)] in \<open>auto split: if_splits\<close>)
  then show ?thesis ..
qed

text \<open>Maps of one mark over planes whose sides are those of the map times powers of two.\<close>

definition covers :: "nat \<times> nat \<Rightarrow> nat \<times> nat \<Rightarrow> bool" where
  "covers m sizes \<longleftrightarrow> 0 < fst m \<and> 0 < snd m \<and> fst sizes < 4294967296 \<and> snd sizes < 4294967296 \<and>
     (\<exists>i < 32. fst sizes = fst m * 2 ^ i) \<and> (\<exists>i < 32. snd sizes = snd m * 2 ^ i)"

lemma coversE:
  assumes "covers (w, h) (sf_width s, sf_height s)"
  obtains i j where "checked_cover (surface_of w h g) s = Inr (i, j)" and "sf_width s = w * 2 ^ i" and "sf_height s = h * 2 ^ j"
    and "0 < sf_width s" and "0 < sf_height s"
  using assms checked_cover_total [of "surface_of w h g" s] by (auto simp: covers_def)

lemma apply_map_filled:
  assumes "covers (w, h) (sf_width s, sf_height s)"
  shows "apply_map z s (surface_of w h (\<lambda>_ _. temporal_intr)) = Inr (surface_of (sf_width s) (sf_height s) (\<lambda>_ _. z))"
    and "surface_wf s \<Longrightarrow> apply_map z s (surface_of w h (\<lambda>_ _. temporal_pred)) = Inr s"
proof -
  have read: "surface_read (surface_of w h (\<lambda>_ _. t)) (drop_bit i x) (drop_bit j y) = Inr t"
    if "sf_width s = w * 2 ^ i" "sf_height s = h * 2 ^ j" "x < sf_width s" "y < sf_height s" for i j x y and t :: u8
    using that by (simp add: drop_bit_less)
  obtain i j where ij: "checked_cover (surface_of w h (\<lambda>_ _. temporal_intr)) s = Inr (i, j)" "sf_width s = w * 2 ^ i"
    "sf_height s = h * 2 ^ j" "0 < sf_width s" "0 < sf_height s"
    by (rule coversE [OF assms])
  have "plane_rows (sf_width s) (sf_height s) (row_of s) (\<lambda>x y.
      rbind (surface_read (surface_of w h (\<lambda>_ _. temporal_intr)) (drop_bit i x) (drop_bit j y)) (\<lambda>m.
      if m = temporal_intr then Inr z else row_read s y x)) = Inr (surface_of (sf_width s) (sf_height s) (\<lambda>_ _. z))"
    by (rule plane_rows_total) (use ij read [OF ij(2,3)] in simp_all)
  then show "apply_map z s (surface_of w h (\<lambda>_ _. temporal_intr)) = Inr (surface_of (sf_width s) (sf_height s) (\<lambda>_ _. z))"
    by (simp add: apply_map_def ij(1))
next
  assume wf: "surface_wf s"
  obtain i j where ij: "checked_cover (surface_of w h (\<lambda>_ _. temporal_pred)) s = Inr (i, j)" "sf_width s = w * 2 ^ i"
    "sf_height s = h * 2 ^ j" "0 < sf_width s" "0 < sf_height s"
    by (rule coversE [OF assms])
  have "plane_rows (sf_width s) (sf_height s) (row_of s) (\<lambda>x y.
      rbind (surface_read (surface_of w h (\<lambda>_ _. temporal_pred)) (drop_bit i x) (drop_bit j y)) (\<lambda>m.
      if m = temporal_intr then Inr z else row_read s y x)) = Inr (surface_of (sf_width s) (sf_height s) (pixel s))"
    by (rule plane_rows_total) (use ij wf in \<open>simp_all add: drop_bit_less\<close>)
  then show "apply_map z s (surface_of w h (\<lambda>_ _. temporal_pred)) = Inr s"
    by (simp add: apply_map_def ij(1) surface_of_pixel [OF wf])
qed

text \<open>
  The buffers agree where the encoder has one; where it has none, the decoder's has the size of the
  plane, whatever its pixels are.
\<close>

definition buffer_in_step :: "nat \<times> nat \<Rightarrow> int surface option \<Rightarrow> int surface_builder option \<Rightarrow> bool" where
  "buffer_in_step sizes previous buffer = (case previous of
     Some s \<Rightarrow> buffer = Some (buffer_of s) \<and> plane16 s \<and> (sf_width s, sf_height s) = sizes
   | None \<Rightarrow> (case buffer of Some b \<Rightarrow> (sb_width b, sb_height b) = sizes | None \<Rightarrow> True))"

text \<open>An intra mask makes zeros of any of them.\<close>

lemma refresh_buffer_intra:
  assumes "buffer_in_step (sf_width s, sf_height s) previous buffer" and "covers (w, h) (sf_width s, sf_height s)"
  shows "refresh_buffer buffer s (surface_of w h (\<lambda>_ _. temporal_intr)) =
    Inr (surface_of (sf_width s) (sf_height s) (\<lambda>_ _. 0))"
proof (cases buffer)
  case None
  then show ?thesis using apply_map_filled(1) [of w h "surface_of (sf_width s) (sf_height s) (\<lambda>_ _. 0 :: int)" 0] assms(2)
    by (simp add: refresh_buffer_None apply_temporal_map_def)
next
  case (Some b)
  have sizes: "sb_width b = sf_width s" "sb_height b = sf_height s"
    using assms(1) Some by (auto simp: buffer_in_step_def buffer_of_def split: option.splits)
  have "surface_finish \<lparr>sb_width = v, sb_height = h, sb_pixels = sf_pixels (surface_of v h (\<lambda>_ _. Some (0 :: int)))\<rparr> =
      Inr (surface_of v h (\<lambda>_ _. 0))" for v h
    by (auto simp: surface_finish_def surface_of_def o_def split_def)
  moreover have "apply_map (Some 0) (buffer_view b) (surface_of w h (\<lambda>_ _. temporal_intr)) =
      Inr (surface_of (sf_width s) (sf_height s) (\<lambda>_ _. Some 0))"
    using apply_map_filled(1) [of w h "buffer_view b" "Some 0"] assms(2) by (simp add: buffer_view_def sizes)
  ultimately show ?thesis by (simp add: refresh_buffer_def Some)
qed

lemma add_zeros:
  assumes "plane16 s" and "0 < sf_width s" and "0 < sf_height s"
  shows "add_planes s (surface_of (sf_width s) (sf_height s) (\<lambda>_ _. 0)) = Inr s"
    and "add_planes (surface_of (sf_width s) (sf_height s) (\<lambda>_ _. 0)) s = Inr s"
proof -
  let ?z = "surface_of (sf_width s) (sf_height s) (\<lambda>_ _. 0 :: int)"
  have "surface_of (sf_width s) (sf_height s) (\<lambda>x y. to_int16 (pixel s x y + pixel ?z x y)) = s"
    "surface_of (sf_width s) (sf_height s) (\<lambda>x y. to_int16 (pixel ?z x y + pixel s x y)) = s"
    using assms by (auto intro!: surface_eqI simp: to_int16_id plane16_pixel)
  then show "add_planes s ?z = Inr s" "add_planes ?z s = Inr s"
    using assms by (simp_all add: add_planes_total same_size_def has_rows_def)
qed

section \<open>The second sub-layer of a plane\<close>

text \<open>The residuals held for a layer.\<close>

fun layer_of :: "layer_surface \<Rightarrow> int surface" where
  "layer_of (Residual_Surface s) = s"
| "layer_of (Mask_Surface m) = \<lparr>sf_width = 0, sf_height = 0, sf_pixels = []\<rparr>"

lemma fold_result_appends:
  assumes "\<And>i xs s r. f i (xs, s) = Inr r \<Longrightarrow> length (fst r) = Suc (length xs)" and "fold_result f is (xs, s) = Inr r"
  shows "length (fst r) = length xs + length is"
  using assms(2)
proof (induction "is" arbitrary: xs s)
  case (Cons i "is")
  from Cons.prems obtain r1 where r1: "f i (xs, s) = Inr r1" "fold_result f is r1 = Inr r" by auto
  with Cons.IH [of "fst r1" "snd r1"] assms(1) [OF r1(1)] show ?case by simp
qed auto

lemma encoder_symbols_length:
  assumes "encoder_symbols ec g picture coeffs plane loq residuals swm m temporal_mask types t pixel_sad next = Inr (layers, next')"
  shows "length layers = unat (gc_num_residual_layers g)"
  using assms
  by (auto simp: encoder_symbols_def Let_def dest!: fold_result_appends [rotated] split: if_splits prod.splits)

lemma encoder_residuals_cong:
  assumes "\<And>layer. layer < unat (gc_num_residual_layers g) \<Longrightarrow> symbols layer = symbols' layer"
  shows "encoder_residuals c_log g picture coeffs sizes plane loq symbols swm m =
    encoder_residuals c_log g picture coeffs sizes plane loq symbols' swm m"
  using assms by (auto simp: encoder_residuals_def Let_def intro!: rbind_cong map_result_cong)

lemma put_symbols_here:
  "layer < length layers \<Longrightarrow> put_symbols plane loq layers symbols (plane, loq, layer) = Residual_Surface (layers ! layer)"
  by (simp add: put_symbols_def)

text \<open>The configuration while the planes of a picture are encoded.\<close>

lemma update_picture_simps [simp]:
  "en_config (update_picture f en) = en_config en" "en_global (update_picture f en) = en_global en"
  "en_picture (update_picture f en) = f (en_picture en)" "en_dimensions (update_picture f en) = en_dimensions en"
  "en_previous_residuals (update_picture f en) = en_previous_residuals en"
  "en_quant_matrix_coeffs (update_picture f en) = en_quant_matrix_coeffs en"
  "en_last_idr_frame_num (update_picture f en) = en_last_idr_frame_num en"
  by (simp_all add: update_picture_def)

lemma set_previous_simps [simp]:
  "en_config (set_previous plane s en) = en_config en" "en_configuration (set_previous plane s en) = en_configuration en"
  "en_dimensions (set_previous plane s en) = en_dimensions en"
  "en_previous_residuals (set_previous plane s en) = (en_previous_residuals en)(plane := s)"
  "en_quant_matrix_coeffs (set_previous plane s en) = en_quant_matrix_coeffs en"
  "en_last_idr_frame_num (set_previous plane s en) = en_last_idr_frame_num en"
  by (simp_all add: set_previous_def)

lemma set_step_width_frame:
  assumes "set_step_width frame_type gop en = Inr en'"
  shows "en_config en' = en_config en" "en_global en' = en_global en" "en_dimensions en' = en_dimensions en"
    "en_previous_residuals en' = en_previous_residuals en" "en_quant_matrix_coeffs en' = en_quant_matrix_coeffs en"
    "pc_temporal_refresh (en_picture en') = pc_temporal_refresh (en_picture en)"
    "pc_temporal_signalling_present (en_picture en') = pc_temporal_signalling_present (en_picture en)"
    "pc_enhancement_enabled (en_picture en') = pc_enhancement_enabled (en_picture en)"
  using assms by (auto simp: set_step_width_def Let_def update_picture_def)

lemma encode_remaining_spec:
  assumes "encode_remaining c_log plane en src pixel_sad residuals swm marks = Inr (layers, recon, en')"
  shows "length layers = unat (gc_num_residual_layers (en_global en))"
    and "encoder_residuals c_log (en_global en) (en_picture en) (\<lambda>layer. en_quant_matrix_coeffs en (plane, LOQ_LEVEL_2, layer))
      (plane_sizes (en_dimensions en) plane LOQ_LEVEL_2) plane LOQ_LEVEL_2 ((!) layers) swm marks = Inr recon"
    and "\<exists>next. en' = en\<lparr>en_random := next\<rparr>"
  using assms by (auto simp: encode_remaining_def Let_def dest: encoder_symbols_length)

text \<open>What the decoder has to know of the encoder's state to decode a plane: all of it is signalled.\<close>

definition same_settings :: "nat \<Rightarrow> nat \<Rightarrow> encoder \<Rightarrow> decoder \<Rightarrow> bool" where
  "same_settings plane loq en dc \<longleftrightarrow>
     sg_global_configuration (dc_configuration dc) = en_global en \<and>
     sg_picture_configuration (dc_configuration dc) = en_picture en \<and>
     plane_sizes (dc_dimensions dc) plane loq = plane_sizes (en_dimensions en) plane loq \<and>
     (\<forall>layer < unat (gc_num_residual_layers (en_global en)).
        dc_quant_matrix_coeffs dc (plane, loq, layer) = en_quant_matrix_coeffs en (plane, loq, layer))"

text \<open>The layers of a plane have pixels, and none of them wraps in the encoder.\<close>

definition layers_fit :: "(int \<Rightarrow> rat) \<Rightarrow> nat \<Rightarrow> nat \<Rightarrow> encoder \<Rightarrow> layer_surfaces \<Rightarrow> bool" where
  "layers_fit c_log plane loq en symbols \<longleftrightarrow>
     (\<forall>layer < unat (gc_num_residual_layers (en_global en)). solid (layer_of (symbols (plane, loq, layer)))) \<and>
     residuals_fit c_log (en_global en) (en_picture en) (\<lambda>layer. en_quant_matrix_coeffs en (plane, loq, layer)) plane loq
       (signalled_swm (en_global en) (en_picture en) loq) (\<lambda>layer. layer_of (symbols (plane, loq, layer)))"

text \<open>The size of the mask that the decoder makes where none is sent.\<close>

definition frame_mask :: "global_configuration \<Rightarrow> nat \<times> nat" where
  "frame_mask g = (unat (gc_resolution_width g) div unat (gc_transform_block_size g),
     unat (gc_resolution_height g) div unat (gc_transform_block_size g))"

definition maskable :: "global_configuration \<Rightarrow> nat \<times> nat \<Rightarrow> bool" where
  "maskable g sizes \<longleftrightarrow> (gc_temporal_enabled g \<noteq> 0 \<longrightarrow> gc_transform_block_size g \<noteq> 0 \<and> covers (frame_mask g) sizes)"

lemma unsent_mask:
  assumes "maskable g sizes" and "gc_temporal_enabled g \<noteq> 0" and "\<not> pc_temporal_signalling_present p"
  shows "get_temporal_mask g p t = Inr (Some (surface_of (fst (frame_mask g)) (snd (frame_mask g))
    (\<lambda>_ _. if pc_temporal_refresh p then temporal_intr else temporal_pred)))"
proof -
  have "unat (gc_transform_block_size g) \<noteq> 0" using assms(1,2) by (simp add: maskable_def unat_eq_zero)
  moreover obtain b where "surface_fill (if pc_temporal_refresh p then temporal_intr else temporal_pred)
      (fst (frame_mask g)) (snd (frame_mask g)) = Inr b"
    "surface_finish b = Inr (surface_of (fst (frame_mask g)) (snd (frame_mask g))
      (\<lambda>_ _. if pc_temporal_refresh p then temporal_intr else temporal_pred))"
    using surface_fill_total [of "if pc_temporal_refresh p then temporal_intr else temporal_pred"] by blast
  ultimately show ?thesis
    using assms(2,3) by (simp add: get_temporal_mask_def frame_mask_def udiv_def)
qed

lemma decoder_residuals_cong:
  assumes "\<And>layer. layer < unat (gc_num_residual_layers g) \<Longrightarrow> coeffs layer = coeffs' layer"
  shows "decoder_residuals c_log g picture coeffs sizes plane loq symbols = decoder_residuals c_log g picture coeffs' sizes plane loq symbols"
proof -
  have "all_dequants c_log picture coeffs (unat (gc_num_residual_layers g)) sws =
      all_dequants c_log picture coeffs' (unat (gc_num_residual_layers g)) sws" for sws
    unfolding all_dequants_def by (intro map_result_cong refl) (simp add: assms)
  then show ?thesis by (simp add: decoder_residuals_def)
qed

text \<open>The residuals that the decoder finds in the symbols that the encoder put.\<close>

lemma plane_residuals:
  assumes settings: "same_settings plane loq en dc" and fit: "layers_fit c_log plane loq en symbols"
    and sent: "\<And>layer. layer < unat (gc_num_residual_layers (en_global en)) \<Longrightarrow>
      symbols (plane, loq, layer) = Residual_Surface (layers ! layer)"
    and recon: "encoder_residuals c_log (en_global en) (en_picture en) (\<lambda>layer. en_quant_matrix_coeffs en (plane, loq, layer))
      (plane_sizes (en_dimensions en) plane loq) plane loq ((!) layers) swm m = Inr recon"
    and swm: "swm = signalled_swm (en_global en) (en_picture en) loq" and m: "swm = SWM_Dependent \<Longrightarrow> m = marks"
    and marks: "(if loq = LOQ_LEVEL_2 \<and> gc_temporal_enabled (en_global en) \<noteq> 0
      then get_temporal_mask (en_global en) (en_picture en) (symbols (plane, loq, unat (gc_num_residual_layers (en_global en))))
      else Inr None) = Inr marks"
  shows "decoder_residuals c_log (sg_global_configuration (dc_configuration dc)) (sg_picture_configuration (dc_configuration dc))
      (\<lambda>layer. dc_quant_matrix_coeffs dc (plane, loq, layer)) (plane_sizes (dc_dimensions dc) plane loq) plane loq
      (\<lambda>layer. symbols (plane, loq, layer)) = Inr (marks, recon)"
proof -
  let ?s = "\<lambda>layer. layer_of (symbols (plane, loq, layer))"
  have "symbols (plane, loq, layer) = Residual_Surface (?s layer) \<and> solid (?s layer)"
    if "layer < unat (gc_num_residual_layers (en_global en))" for layer
    using sent [OF that] fit that unfolding layers_fit_def by (metis layer_of.simps(1))
  then have "decoder_residuals c_log (en_global en) (en_picture en) (\<lambda>layer. en_quant_matrix_coeffs en (plane, loq, layer))
        (plane_sizes (en_dimensions en) plane loq) plane loq (\<lambda>layer. symbols (plane, loq, layer)) =
      rbind (encoder_residuals c_log (en_global en) (en_picture en) (\<lambda>layer. en_quant_matrix_coeffs en (plane, loq, layer))
        (plane_sizes (en_dimensions en) plane loq) plane loq ?s swm m) (\<lambda>r. Inr (marks, r))"
    using fit by (intro residuals_agree [where sent = "\<lambda>layer. symbols (plane, loq, layer)", OF _ marks swm m]) (simp_all add: layers_fit_def swm)
  moreover have "encoder_residuals c_log (en_global en) (en_picture en) (\<lambda>layer. en_quant_matrix_coeffs en (plane, loq, layer))
      (plane_sizes (en_dimensions en) plane loq) plane loq ?s swm m = Inr recon"
    using recon by (subst encoder_residuals_cong [where symbols' = "(!) layers"]) (simp_all add: sent)
  moreover have "decoder_residuals c_log (en_global en) (en_picture en) (\<lambda>layer. dc_quant_matrix_coeffs dc (plane, loq, layer))
        (plane_sizes (en_dimensions en) plane loq) plane loq (\<lambda>layer. symbols (plane, loq, layer)) =
      decoder_residuals c_log (en_global en) (en_picture en) (\<lambda>layer. en_quant_matrix_coeffs en (plane, loq, layer))
        (plane_sizes (en_dimensions en) plane loq) plane loq (\<lambda>layer. symbols (plane, loq, layer))"
    using settings by (intro decoder_residuals_cong) (simp add: same_settings_def)
  ultimately show ?thesis using settings by (simp add: same_settings_def)
qed

lemma intra_plane_in_step:
  assumes enc: "encode_intra_plane c_log frame_type gop plane src pixel_sad prediction residuals en symbols = Inr (reco, en', symbols')"
    and settings: "same_settings plane LOQ_LEVEL_2 en' dc" and fit: "layers_fit c_log plane LOQ_LEVEL_2 en' symbols'"
    and maskable: "maskable (en_global en) (plane_sizes (en_dimensions en) plane LOQ_LEVEL_2)"
    and pred: "(sf_width prediction, sf_height prediction) = plane_sizes (en_dimensions en) plane LOQ_LEVEL_2"
      "0 < sf_width prediction" "0 < sf_height prediction"
    and buffer: "buffer_in_step (plane_sizes (en_dimensions en) plane LOQ_LEVEL_2) (en_previous_residuals en plane) (dc_temporal_buffer dc plane)"
    and enhanced: "is_enhanced (en_global en) (en_picture en) plane"
  shows "\<exists>buf. decode_full_plane c_log True symbols' plane prediction dc =
      Inr (reco, dc\<lparr>dc_temporal_buffer := (dc_temporal_buffer dc)(plane := buf)\<rparr>) \<and>
    buffer_in_step (plane_sizes (en_dimensions en) plane LOQ_LEVEL_2) (en_previous_residuals en' plane) buf"
proof -
  let ?flags = "\<lambda>p. p\<lparr>pc_temporal_refresh := True, pc_temporal_signalling_present := False\<rparr>"
  obtain en1 layers recon en2 where en1: "set_step_width frame_type gop (update_picture ?flags en) = Inr en1"
    and en2: "encode_remaining c_log plane en1 src pixel_sad residuals SWM_Disabled None = Inr (layers, recon, en2)"
    and reco: "add_planes prediction recon = Inr reco"
    and en': "en' = (if gc_temporal_enabled (en_global en2) \<noteq> 0 then set_previous plane (Some recon) en2 else en2)"
    and symbols': "symbols' = put_symbols plane LOQ_LEVEL_2 layers symbols"
    using enc unfolding encode_intra_plane_def by (auto simp only: rbind_eq_Inr split: prod.splits) auto
  note frame = set_step_width_frame [OF en1, simplified]
  obtain next' where en2_eq: "en2 = en1\<lparr>en_random := next'\<rparr>" using encode_remaining_spec(3) [OF en2] by blast
  have same: "en_global en' = en_global en1" "en_picture en' = en_picture en1" "en_dimensions en' = en_dimensions en1"
    "en_quant_matrix_coeffs en' = en_quant_matrix_coeffs en1" by (simp_all add: en' en2_eq)
  have sizes: "plane16 recon" "(sf_width recon, sf_height recon) = plane_sizes (en_dimensions en) plane LOQ_LEVEL_2"
    using encoder_residuals16 [OF encode_remaining_spec(2) [OF en2]] by (simp_all add: frame)
  let ?g = "en_global en"
  define marks where "marks = (if gc_temporal_enabled ?g \<noteq> 0 then
      Some (surface_of (fst (frame_mask ?g)) (snd (frame_mask ?g)) (\<lambda>_ _. temporal_intr)) else None)"
  have residuals: "decoder_residuals c_log (sg_global_configuration (dc_configuration dc)) (sg_picture_configuration (dc_configuration dc))
      (\<lambda>layer. dc_quant_matrix_coeffs dc (plane, LOQ_LEVEL_2, layer)) (plane_sizes (dc_dimensions dc) plane LOQ_LEVEL_2) plane
      LOQ_LEVEL_2 (\<lambda>layer. symbols' (plane, LOQ_LEVEL_2, layer)) = Inr (marks, recon)"
  proof (rule plane_residuals [OF settings fit])
    show "symbols' (plane, LOQ_LEVEL_2, layer) = Residual_Surface (layers ! layer)"
      if "layer < unat (gc_num_residual_layers (en_global en'))" for layer
      using that encode_remaining_spec(1) [OF en2] by (simp add: symbols' put_symbols_here same)
    show "encoder_residuals c_log (en_global en') (en_picture en') (\<lambda>layer. en_quant_matrix_coeffs en' (plane, LOQ_LEVEL_2, layer))
        (plane_sizes (en_dimensions en') plane LOQ_LEVEL_2) plane LOQ_LEVEL_2 ((!) layers) SWM_Disabled None = Inr recon"
      using encode_remaining_spec(2) [OF en2] by (simp add: same)
    show "SWM_Disabled = signalled_swm (en_global en') (en_picture en') LOQ_LEVEL_2"
      by (simp add: signalled_swm_def same frame)
    show "(if LOQ_LEVEL_2 = LOQ_LEVEL_2 \<and> gc_temporal_enabled (en_global en') \<noteq> 0 then get_temporal_mask (en_global en') (en_picture en')
        (symbols' (plane, LOQ_LEVEL_2, unat (gc_num_residual_layers (en_global en')))) else Inr None) = Inr marks"
      using unsent_mask [OF maskable] by (simp add: marks_def same frame)
  qed simp
  have g: "sg_global_configuration (dc_configuration dc) = ?g" "sg_picture_configuration (dc_configuration dc) = en_picture en1"
    using settings by (simp_all add: same_settings_def same frame)
  have enh: "is_enhanced ?g (en_picture en1) plane" using enhanced by (simp add: is_enhanced_def frame)
  have eq: "same_size prediction recon" using pred(1) sizes(2) by (simp add: same_size_def prod_eq_iff)
  show ?thesis
  proof (cases "gc_temporal_enabled ?g = 0")
    case True
    have "decode_full_plane c_log True symbols' plane prediction dc = Inr (reco, dc)"
      using residuals True reco add_planes_in_place [OF eq pred(2,3)]
      by (simp add: decode_full_plane_def Let_def g enh marks_def)
    moreover have "en_previous_residuals en' plane = en_previous_residuals en plane" by (simp add: en' en2_eq frame True)
    ultimately show ?thesis using buffer by (intro exI [of _ "dc_temporal_buffer dc plane"]) simp
  next
    case False
    have zeros: "refresh_buffer (dc_temporal_buffer dc plane) prediction
        (surface_of (fst (frame_mask ?g)) (snd (frame_mask ?g)) (\<lambda>_ _. temporal_intr)) =
        Inr (surface_of (sf_width recon) (sf_height recon) (\<lambda>_ _. 0))"
      using refresh_buffer_intra [of prediction] buffer maskable False eq by (simp add: pred(1) maskable_def same_size_def)
    have pos: "0 < sf_width recon" "0 < sf_height recon" using eq pred(2,3) by (simp_all add: same_size_def)
    have "add_in_place (surface_of (sf_width recon) (sf_height recon) (\<lambda>_ _. 0)) recon = Inr recon"
      using add_zeros(2) [OF sizes(1) pos] add_planes_in_place [of "surface_of (sf_width recon) (sf_height recon) (\<lambda>_ _. 0)" recon] pos
      by (simp add: same_size_def)
    then have "decode_full_plane c_log True symbols' plane prediction dc = Inr (reco, set_buffer plane recon dc)"
      using residuals False reco add_planes_in_place [OF eq pred(2,3)] zeros
      by (simp add: decode_full_plane_def Let_def g enh marks_def)
    moreover have "en_previous_residuals en' plane = Some recon" by (simp add: en' en2_eq frame False)
    ultimately show ?thesis
      using sizes by (intro exI [of _ "Some (buffer_of recon)"]) (simp add: set_buffer_def buffer_in_step_def)
  qed
qed

lemma choose_mask_previous:
  assumes "choose_mask c_log plane en src prediction residuals = Inr (marks, buffer)"
    and "en_previous_residuals en plane = Some previous"
  shows "apply_temporal_map previous marks = Inr buffer"
  using assms unfolding choose_mask_def by (auto simp: Let_def)

lemma temporal_plane_in_step:
  assumes enc: "encode_temporal_plane c_log frame_type gop plane src pixel_sad prediction residuals en symbols = Inr (reco, en', symbols')"
    and settings: "same_settings plane LOQ_LEVEL_2 en' dc" and fit: "layers_fit c_log plane LOQ_LEVEL_2 en' symbols'"
    and temporal: "gc_temporal_enabled (en_global en) \<noteq> 0" and previous: "en_previous_residuals en plane = Some previous"
    and pred: "(sf_width prediction, sf_height prediction) = plane_sizes (en_dimensions en) plane LOQ_LEVEL_2"
      "0 < sf_width prediction" "0 < sf_height prediction"
    and buffer: "buffer_in_step (plane_sizes (en_dimensions en) plane LOQ_LEVEL_2) (en_previous_residuals en plane) (dc_temporal_buffer dc plane)"
    and enhanced: "is_enhanced (en_global en) (en_picture en) plane"
  shows "\<exists>buf. decode_full_plane c_log True symbols' plane prediction dc =
      Inr (reco, dc\<lparr>dc_temporal_buffer := (dc_temporal_buffer dc)(plane := buf)\<rparr>) \<and>
    buffer_in_step (plane_sizes (en_dimensions en) plane LOQ_LEVEL_2) (en_previous_residuals en' plane) buf"
proof -
  let ?flags = "\<lambda>p. p\<lparr>pc_temporal_refresh := False, pc_temporal_signalling_present := True\<rparr>"
  obtain en1 marks kept remaining layers recon en2 buffer where
    en1: "set_step_width frame_type gop (update_picture ?flags en) = Inr en1"
    and mask: "choose_mask c_log plane en1 src prediction residuals = Inr (marks, kept)"
    and en2: "encode_remaining c_log plane en1 src pixel_sad remaining SWM_Dependent (Some marks) = Inr (layers, recon, en2)"
    and new: "add_planes kept recon = Inr buffer" and reco: "add_planes prediction buffer = Inr reco"
    and en': "en' = set_previous plane (Some buffer) en2"
    and symbols': "symbols' = (put_symbols plane LOQ_LEVEL_2 layers symbols)
      ((plane, LOQ_LEVEL_2, unat (gc_num_residual_layers (en_global en2))) := Mask_Surface marks)"
    using enc unfolding encode_temporal_plane_def by (auto simp only: rbind_eq_Inr split: prod.splits) auto
  note frame = set_step_width_frame [OF en1, simplified]
  obtain next' where en2_eq: "en2 = en1\<lparr>en_random := next'\<rparr>" using encode_remaining_spec(3) [OF en2] by blast
  have same: "en_global en' = en_global en1" "en_picture en' = en_picture en1" "en_dimensions en' = en_dimensions en1"
    "en_quant_matrix_coeffs en' = en_quant_matrix_coeffs en1" by (simp_all add: en' en2_eq)
  let ?g = "en_global en" and ?sizes = "plane_sizes (en_dimensions en) plane LOQ_LEVEL_2"
  have residuals: "decoder_residuals c_log (sg_global_configuration (dc_configuration dc)) (sg_picture_configuration (dc_configuration dc))
      (\<lambda>layer. dc_quant_matrix_coeffs dc (plane, LOQ_LEVEL_2, layer)) (plane_sizes (dc_dimensions dc) plane LOQ_LEVEL_2) plane
      LOQ_LEVEL_2 (\<lambda>layer. symbols' (plane, LOQ_LEVEL_2, layer)) = Inr (Some marks, recon)"
  proof (rule plane_residuals [OF settings fit])
    show "symbols' (plane, LOQ_LEVEL_2, layer) = Residual_Surface (layers ! layer)"
      if "layer < unat (gc_num_residual_layers (en_global en'))" for layer
      using that encode_remaining_spec(1) [OF en2] by (simp add: symbols' put_symbols_here same en2_eq)
    show "encoder_residuals c_log (en_global en') (en_picture en') (\<lambda>layer. en_quant_matrix_coeffs en' (plane, LOQ_LEVEL_2, layer))
        (plane_sizes (en_dimensions en') plane LOQ_LEVEL_2) plane LOQ_LEVEL_2 ((!) layers) SWM_Dependent (Some marks) = Inr recon"
      using encode_remaining_spec(2) [OF en2] by (simp add: same)
    show "SWM_Dependent = signalled_swm (en_global en') (en_picture en') LOQ_LEVEL_2"
      by (simp add: signalled_swm_def same frame temporal)
    show "(if LOQ_LEVEL_2 = LOQ_LEVEL_2 \<and> gc_temporal_enabled (en_global en') \<noteq> 0 then get_temporal_mask (en_global en') (en_picture en')
        (symbols' (plane, LOQ_LEVEL_2, unat (gc_num_residual_layers (en_global en')))) else Inr None) = Inr (Some marks)"
      by (simp add: get_temporal_mask_def same frame temporal symbols' en2_eq)
  qed simp
  have g: "sg_global_configuration (dc_configuration dc) = ?g" "sg_picture_configuration (dc_configuration dc) = en_picture en1"
    using settings by (simp_all add: same_settings_def same frame)
  have enh: "is_enhanced ?g (en_picture en1) plane" using enhanced by (simp add: is_enhanced_def frame)
  have "dc_temporal_buffer dc plane = Some (buffer_of previous)" using buffer by (simp add: buffer_in_step_def previous)
  moreover have "apply_temporal_map previous marks = Inr kept"
    by (rule choose_mask_previous [OF mask]) (simp add: frame previous)
  ultimately have refresh: "refresh_buffer (dc_temporal_buffer dc plane) prediction marks = Inr kept"
    by (simp add: refresh_buffer_of)
  have eq: "same_size prediction buffer" "same_size kept recon" "same_size kept buffer"
    using add_planes_sizes [OF reco] add_planes_sizes [OF new] by (simp_all add: same_size_def)
  have pos: "0 < sf_width kept" "0 < sf_height kept" using eq pred(2,3) by (simp_all add: same_size_def)
  have "decode_full_plane c_log True symbols' plane prediction dc = Inr (reco, set_buffer plane buffer dc)"
    using residuals temporal reco new add_planes_in_place [OF eq(1) pred(2,3)] add_planes_in_place [OF eq(2) pos] refresh
    by (simp add: decode_full_plane_def Let_def g enh)
  moreover have "(sf_width buffer, sf_height buffer) = ?sizes"
    using eq(1) pred(1) by (simp add: same_size_def)
  ultimately show ?thesis
    using add_planes16 [OF new] by (intro exI [of _ "Some (buffer_of buffer)"]) (simp add: set_buffer_def buffer_in_step_def en')
qed

lemma pass_through_in_step:
  assumes enc: "pass_through_plane frame_type plane src prediction en symbols = Inr (reco, en', symbols')"
    and settings: "same_settings plane LOQ_LEVEL_2 en' dc"
    and maskable: "maskable (en_global en) (plane_sizes (en_dimensions en) plane LOQ_LEVEL_2)"
    and pred: "(sf_width prediction, sf_height prediction) = plane_sizes (en_dimensions en) plane LOQ_LEVEL_2"
      "0 < sf_width prediction" "0 < sf_height prediction" and pred16: "en_previous_residuals en' plane = None \<Longrightarrow> plane16 prediction"
    and buffer: "buffer_in_step (plane_sizes (en_dimensions en) plane LOQ_LEVEL_2) (en_previous_residuals en plane) (dc_temporal_buffer dc plane)"
    and idle: "\<not> pc_enhancement_enabled (en_picture en)" and plane: "plane < unat (gc_num_processed_planes (en_global en))"
  shows "\<exists>buf. decode_full_plane c_log True symbols' plane prediction dc =
      Inr (reco, dc\<lparr>dc_temporal_buffer := (dc_temporal_buffer dc)(plane := buf)\<rparr>) \<and>
    buffer_in_step (plane_sizes (en_dimensions en) plane LOQ_LEVEL_2) (en_previous_residuals en' plane) buf"
proof -
  let ?g = "en_global en" and ?sizes = "plane_sizes (en_dimensions en) plane LOQ_LEVEL_2"
  have frame: "en_global en' = ?g" "pc_enhancement_enabled (en_picture en') = pc_enhancement_enabled (en_picture en)"
    using enc unfolding pass_through_plane_def by (auto simp: Let_def split: option.splits if_splits)
  have g: "sg_global_configuration (dc_configuration dc) = ?g" "sg_picture_configuration (dc_configuration dc) = en_picture en'"
    using settings by (simp_all add: same_settings_def frame)
  have decode: "decode_full_plane c_log True symbols' plane prediction dc = Inr (r, set_buffer plane kept dc)"
    if "get_temporal_mask ?g (en_picture en') (symbols' (plane, LOQ_LEVEL_2, unat (gc_num_residual_layers ?g))) = Inr (Some marks)"
      "gc_temporal_enabled ?g \<noteq> 0" "refresh_buffer (dc_temporal_buffer dc plane) prediction marks = Inr kept"
      "add_planes prediction kept = Inr r" for marks kept r
    using that add_planes_in_place [of prediction kept] add_planes_sizes [OF that(4)] pred(2,3) idle plane
    by (simp add: decode_full_plane_def Let_def g is_enhanced_def frame)
  have finish: ?thesis
    if "decode_full_plane c_log True symbols' plane prediction dc = Inr (reco, set_buffer plane kept dc)"
      "buffer_in_step ?sizes (en_previous_residuals en' plane) (Some (buffer_of kept))" for kept
    using that by (intro exI [of _ "Some (buffer_of kept)"]) (simp add: set_buffer_def)
  let ?prev = "if gc_temporal_enabled ?g = 0 \<or> is_intra_frame frame_type then None else en_previous_residuals en plane"
  show ?thesis
  proof (cases ?prev)
    case None
    with enc have en': "reco = prediction" "en_previous_residuals en' plane = None" "pc_temporal_refresh (en_picture en')"
      "\<not> pc_temporal_signalling_present (en_picture en')"
      unfolding pass_through_plane_def by (auto simp: Let_def)
    show ?thesis
    proof (cases "gc_temporal_enabled ?g = 0")
      case True
      have "decode_full_plane c_log True symbols' plane prediction dc = Inr (reco, dc)"
        using True idle plane by (simp add: decode_full_plane_def Let_def g is_enhanced_def frame en'(1))
      moreover have "buffer_in_step ?sizes None (dc_temporal_buffer dc plane)"
        using buffer by (auto simp: buffer_in_step_def buffer_of_def split: option.splits)
      ultimately show ?thesis using en'(2) by (intro exI [of _ "dc_temporal_buffer dc plane"]) simp
    next
      case False
      let ?m = "surface_of (fst (frame_mask ?g)) (snd (frame_mask ?g)) (\<lambda>_ _. temporal_intr)"
      let ?z = "surface_of (sf_width prediction) (sf_height prediction) (\<lambda>_ _. 0 :: int)"
      have "get_temporal_mask ?g (en_picture en') (symbols' (plane, LOQ_LEVEL_2, unat (gc_num_residual_layers ?g))) = Inr (Some ?m)"
        using unsent_mask [OF maskable False en'(4)] en'(3) by simp
      moreover have "refresh_buffer (dc_temporal_buffer dc plane) prediction ?m = Inr ?z"
        using refresh_buffer_intra [of prediction] buffer maskable False by (simp add: pred(1) maskable_def)
      ultimately have "decode_full_plane c_log True symbols' plane prediction dc = Inr (reco, set_buffer plane ?z dc)"
        using decode [OF _ False] add_zeros(1) [OF pred16 [OF en'(2)] pred(2,3)] en'(1) by blast
      moreover have "buffer_in_step ?sizes (en_previous_residuals en' plane) (Some (buffer_of ?z))"
        using pred(1) by (simp add: buffer_in_step_def en'(2) buffer_of_def)
      ultimately show ?thesis by (rule finish)
    qed
  next
    case (Some previous)
    then have t: "gc_temporal_enabled ?g \<noteq> 0" and prev: "en_previous_residuals en plane = Some previous"
      by (auto split: if_splits)
    have buf: "dc_temporal_buffer dc plane = Some (buffer_of previous)" "plane16 previous" "(sf_width previous, sf_height previous) = ?sizes"
      using buffer by (simp_all add: buffer_in_step_def prev)
    show ?thesis
    proof (cases "ec_no_enhancement_temporal_layer (en_config en)")
      case True
      with enc Some obtain marks kept where "apply_temporal_map previous marks = Inr kept" "add_planes prediction kept = Inr reco"
        "en_previous_residuals en' plane = Some kept" "pc_temporal_signalling_present (en_picture en')"
        "symbols' (plane, LOQ_LEVEL_2, unat (gc_num_residual_layers ?g)) = Mask_Surface marks"
        unfolding pass_through_plane_def by (auto simp: Let_def)
      note kept = this
      have "decode_full_plane c_log True symbols' plane prediction dc = Inr (reco, set_buffer plane kept dc)"
        by (rule decode [of marks]) (simp_all add: get_temporal_mask_def kept t buf(1) refresh_buffer_of)
      moreover have "buffer_in_step ?sizes (en_previous_residuals en' plane) (Some (buffer_of kept))"
        using add_planes_sizes [OF kept(2)] pred(1) apply_temporal_map16 [OF buf(2) kept(1)] by (simp add: buffer_in_step_def kept(3) same_size_def)
      ultimately show ?thesis by (rule finish)
    next
      case False
      with enc Some have en': "add_planes prediction previous = Inr reco" "en_previous_residuals en' plane = Some previous"
        "\<not> pc_temporal_refresh (en_picture en')" "\<not> pc_temporal_signalling_present (en_picture en')"
        unfolding pass_through_plane_def by (auto simp: Let_def prev)
      let ?m = "surface_of (fst (frame_mask ?g)) (snd (frame_mask ?g)) (\<lambda>_ _. temporal_pred)"
      have "apply_temporal_map previous ?m = Inr previous"
        using apply_map_filled(2) [of "fst (frame_mask ?g)" "snd (frame_mask ?g)" previous 0] maskable t buf(2,3)
        by (simp add: apply_temporal_map_def maskable_def)
      moreover have "get_temporal_mask ?g (en_picture en') (symbols' (plane, LOQ_LEVEL_2, unat (gc_num_residual_layers ?g))) = Inr (Some ?m)"
        using unsent_mask [OF maskable t en'(4)] en'(3) by simp
      ultimately have "decode_full_plane c_log True symbols' plane prediction dc = Inr (reco, set_buffer plane previous dc)"
        using decode [OF _ t] en'(1) buf(1) by (simp add: refresh_buffer_of)
      moreover have "buffer_in_step ?sizes (en_previous_residuals en' plane) (Some (buffer_of previous))"
        using buf by (simp add: buffer_in_step_def en'(2))
      ultimately show ?thesis by (rule finish)
    qed
  qed
qed

text \<open>Any of them: every plane of the second sub-layer.\<close>

lemma encode_full_plane_sizes:
  "encode_full_plane c_log frame_type gop src_image plane src prediction en symbols = Inr (reco, en', symbols') \<Longrightarrow>
     (sf_width prediction, sf_height prediction) = (sf_width reco, sf_height reco)"
  unfolding encode_full_plane_def encode_intra_plane_def encode_temporal_plane_def pass_through_plane_def
  by (auto simp: Let_def same_size_def dest!: add_planes_sizes split: if_splits option.splits)

lemma full_plane_in_step:
  assumes enc: "encode_full_plane c_log frame_type gop src_image plane src prediction en symbols = Inr (reco, en', symbols')"
    and settings: "same_settings plane LOQ_LEVEL_2 en' dc"
    and fit: "is_enhanced (en_global en) (en_picture en) plane \<Longrightarrow> layers_fit c_log plane LOQ_LEVEL_2 en' symbols'"
    and maskable: "maskable (en_global en) (plane_sizes (en_dimensions en) plane LOQ_LEVEL_2)"
    and history: "pc_temporal_signalling_present (en_picture en) \<Longrightarrow> is_enhanced (en_global en) (en_picture en) plane \<Longrightarrow>
      gc_temporal_enabled (en_global en) \<noteq> 0 \<and> en_previous_residuals en plane \<noteq> None"
    and reco: "plane16 reco" "0 < sf_width reco" "0 < sf_height reco"
      "(sf_width reco, sf_height reco) = plane_sizes (en_dimensions en) plane LOQ_LEVEL_2"
    and buffer: "buffer_in_step (plane_sizes (en_dimensions en) plane LOQ_LEVEL_2) (en_previous_residuals en plane) (dc_temporal_buffer dc plane)"
  shows "\<exists>buf. decode_full_plane c_log True symbols' plane prediction dc =
      Inr (reco, dc\<lparr>dc_temporal_buffer := (dc_temporal_buffer dc)(plane := buf)\<rparr>) \<and>
    buffer_in_step (plane_sizes (en_dimensions en) plane LOQ_LEVEL_2) (en_previous_residuals en' plane) buf"
proof -
  have size: "(sf_width prediction, sf_height prediction) = (sf_width reco, sf_height reco)"
    by (rule encode_full_plane_sizes [OF enc])
  then have pred: "(sf_width prediction, sf_height prediction) = plane_sizes (en_dimensions en) plane LOQ_LEVEL_2"
    by (simp add: reco(4))
  have pos: "0 < sf_width prediction" "0 < sf_height prediction" using size reco(2,3) by simp_all
  show ?thesis
  proof (cases "is_enhanced (en_global en) (en_picture en) plane")
    case True
    then obtain residuals pixel_sad where *: "(if \<not> pc_temporal_signalling_present (en_picture en) \<and>
          (gc_temporal_enabled (en_global en) = 0 \<or> en_previous_residuals en plane = None \<or> is_intra_frame frame_type)
         then encode_intra_plane else encode_temporal_plane)
          c_log frame_type gop plane src pixel_sad prediction residuals en symbols = Inr (reco, en', symbols')"
      using enc by (auto simp: encode_full_plane_def Let_def)
    show ?thesis
    proof (cases "\<not> pc_temporal_signalling_present (en_picture en) \<and>
          (gc_temporal_enabled (en_global en) = 0 \<or> en_previous_residuals en plane = None \<or> is_intra_frame frame_type)")
      case intra: True
      with * show ?thesis
        by (intro intra_plane_in_step [OF _ settings fit maskable pred pos buffer True]) (simp_all add: True)
    next
      case False
      then obtain previous where "gc_temporal_enabled (en_global en) \<noteq> 0" "en_previous_residuals en plane = Some previous"
        using history True by auto
      with * False show ?thesis
        by (intro temporal_plane_in_step [OF _ settings fit _ _ pred pos buffer True]) (auto simp: True)
    qed
  next
    case False
    show ?thesis
    proof (cases "plane < unat (gc_num_processed_planes (en_global en))")
      case True
      have pass: "pass_through_plane frame_type plane src prediction en symbols = Inr (reco, en', symbols')"
        using enc False True by (simp add: encode_full_plane_def Let_def)
      then have "plane16 prediction" if "en_previous_residuals en' plane = None"
        using that reco(1) unfolding pass_through_plane_def by (auto simp: Let_def split: option.splits if_splits)
      then show ?thesis
        by (intro pass_through_in_step [OF pass settings maskable pred pos _ buffer]) (use False True in \<open>simp_all add: is_enhanced_def\<close>)
    next
      case plane: False
      with enc False have "reco = prediction" "en' = en" by (simp_all add: encode_full_plane_def Let_def)
      moreover have "decode_full_plane c_log True symbols' plane prediction dc = Inr (prediction, dc)"
        using plane settings \<open>en' = en\<close> by (simp add: decode_full_plane_def Let_def is_enhanced_def same_settings_def)
      ultimately show ?thesis using buffer by (intro exI [of _ "dc_temporal_buffer dc plane"]) simp
    qed
  qed
qed

end
