(* ===== verification/ClosedPicture.thy ===== *)
theory ClosedPicture
  imports ClosedLoop
begin

text \<open>
  The closed loop of \<open>Encoder::encode\<close> and \<open>Decoder::decode\<close> for a whole picture: where the decoder has
  the encoder's final configuration and its symbols, it finds the encoder's reconstruction, and both
  keep the same temporal buffers and quantisation matrices for the next picture.
\<close>

section \<open>Loops that collect planes\<close>

lemma fold_result_snoc: "fold_result f (xs @ [x]) s = rbind (fold_result f xs s) (f x)"
proof -
  have "fold_result f [] = Inr" by (simp add: fun_eq_iff)
  then show ?thesis by (cases "fold_result f xs s") (simp_all add: fold_result_append)
qed

definition trace :: "(nat \<Rightarrow> 's \<Rightarrow> ('a \<times> 's) result) \<Rightarrow> nat \<Rightarrow> (nat \<Rightarrow> 's) \<Rightarrow> (nat \<Rightarrow> 'a) \<Rightarrow> bool" where
  "trace step n states outs \<longleftrightarrow> (\<forall>k < n. step k (states k) = Inr (outs k, states (Suc k)))"

lemma collect_complete:
  assumes "trace step n states outs"
  shows "fold_result (\<lambda>k (xs, s). rbind (step k s) (\<lambda>(x, s). Inr (xs @ [x], s))) [0..<n] ([], states 0) =
    Inr (map outs [0..<n], states n)"
  using assms by (induction n) (simp_all add: fold_result_snoc trace_def)

lemma collect_sound:
  assumes "fold_result (\<lambda>k (xs, s). rbind (step k s) (\<lambda>(x, s). Inr (xs @ [x], s))) [0..<n] ([], s) = Inr (xs, t)"
  shows "\<exists>states outs. states 0 = s \<and> states n = t \<and> xs = map outs [0..<n] \<and> trace step n states outs"
  using assms
proof (induction n arbitrary: xs t)
  case 0
  then show ?case by (auto simp: trace_def intro: exI [of _ "\<lambda>_. s"])
next
  case (Suc n)
  from Suc.prems obtain ys u x where u: "fold_result (\<lambda>k (xs, s). rbind (step k s) (\<lambda>(x, s). Inr (xs @ [x], s))) [0..<n] ([], s) = Inr (ys, u)"
    and x: "step n u = Inr (x, t)" "xs = ys @ [x]"
    by (auto simp: fold_result_snoc)
  from Suc.IH [OF u] obtain states outs where "states 0 = s" "states n = u" "ys = map outs [0..<n]" "trace step n states outs"
    by blast
  with x show ?case
    by (intro exI [of _ "states(Suc n := t)"] exI [of _ "outs(n := x)"]) (auto simp: trace_def less_Suc_eq)
qed

section \<open>What the first sub-layer uses of the configuration\<close>

text \<open>The second sub-layer changes the rest while the picture is encoded.\<close>

definition base_view :: "picture_configuration \<Rightarrow> picture_configuration" where
  "base_view p = p\<lparr>pc_step_width_loq := (pc_step_width_loq p)[LOQ_LEVEL_2 := 0],
     pc_temporal_refresh := False, pc_temporal_signalling_present := False\<rparr>"

lemma base_view_fields [simp]:
  "pc_enhancement_enabled (base_view p) = pc_enhancement_enabled p"
  "pc_level_1_filtering_enabled (base_view p) = pc_level_1_filtering_enabled p"
  "pc_quant_matrix_mode (base_view p) = pc_quant_matrix_mode p"
  "pc_qm_coefficient_1 (base_view p) = pc_qm_coefficient_1 p" "pc_qm_coefficient_2 (base_view p) = pc_qm_coefficient_2 p"
  "pc_dequant_offset_signalled (base_view p) = pc_dequant_offset_signalled p"
  "pc_dequant_offset_mode (base_view p) = pc_dequant_offset_mode p" "pc_dequant_offset (base_view p) = pc_dequant_offset p"
  "vector_at (pc_step_width_loq (base_view p)) LOQ_LEVEL_1 = vector_at (pc_step_width_loq p) LOQ_LEVEL_1"
  by (simp_all add: base_view_def vector_at_def)

lemma base_view_functions:
  "find_quant_matrix_coeff (base_view p) = find_quant_matrix_coeff p"
  "find_invq_offset c_log (base_view p) = find_invq_offset c_log p"
  "find_invq_step_width c_log (base_view p) = find_invq_step_width c_log p"
  "find_invq_applied_offset (base_view p) = find_invq_applied_offset p"
  "is_enhanced g (base_view p) = is_enhanced g p" "deblocked g (base_view p) = deblocked g p"
  unfolding find_quant_matrix_coeff_def find_invq_offset_def find_invq_step_width_def find_invq_applied_offset_def
    is_enhanced_def deblocked_def fun_eq_iff base_view_fields by simp_all

lemma base_view_steps:
  "update_quant_matrix g (base_view p) = update_quant_matrix g p"
  "all_dequants c_log (base_view p) = all_dequants c_log p"
  "encoder_step_widths g (base_view p) plane LOQ_LEVEL_1 = encoder_step_widths g p plane LOQ_LEVEL_1"
  unfolding update_quant_matrix_def all_dequants_def layer_dequant_def encoder_step_widths_def plane_step_width_def fun_eq_iff
    base_view_fields base_view_functions by simp_all

lemma encoder_residuals_base_view:
  "encoder_residuals c_log g (base_view p) coeffs sizes plane LOQ_LEVEL_1 = encoder_residuals c_log g p coeffs sizes plane LOQ_LEVEL_1"
  unfolding encoder_residuals_def fun_eq_iff base_view_steps by simp

section \<open>Quantisation matrices\<close>

text \<open>
  The decoder forgets the matrices at every packet, the encoder keeps them. With the mode that keeps the
  previous ones they are still the same, as long as nothing but the defaults has been kept.
\<close>

definition matrix_value :: "picture_configuration \<Rightarrow> global_configuration \<Rightarrow> nat \<Rightarrow> nat \<Rightarrow> int result" where
  "matrix_value p g loq layer =
     rbind (is_horizontal_only g loq) (\<lambda>h. find_quant_matrix_coeff p (unat (gc_num_residual_layers g)) h loq layer True 0)"

definition matrices_ready :: "global_configuration \<Rightarrow> picture_configuration \<Rightarrow> (layer_position \<Rightarrow> int) \<Rightarrow> bool" where
  "matrices_ready g p coeffs \<longleftrightarrow>
     (pc_quant_matrix_mode p = QuantMatrix_BothPrevious \<longrightarrow>
        (\<forall>plane loq layer. coeffs (plane, loq, layer) = -1 \<or> matrix_value p g loq layer = Inr (coeffs (plane, loq, layer))))"

definition fill_matrix ::
  "global_configuration \<Rightarrow> picture_configuration \<Rightarrow> bool \<Rightarrow> nat \<Rightarrow> nat \<times> nat \<Rightarrow> (layer_position \<Rightarrow> int) \<Rightarrow> (layer_position \<Rightarrow> int) result" where
  "fill_matrix g p is_idr plane = (\<lambda>(loq, layer) coeffs.
     rbind (is_horizontal_only g loq) (\<lambda>h.
     rbind (find_quant_matrix_coeff p (unat (gc_num_residual_layers g)) h loq layer is_idr (coeffs (plane, loq, layer))) (\<lambda>c.
     Inr (coeffs((plane, loq, layer) := c)))))"

lemma update_quant_matrix_fill:
  "update_quant_matrix g p is_idr plane = fold_result (fill_matrix g p is_idr plane)
     [(loq, layer). loq \<leftarrow> [0..<MAX_NUM_LOQS], layer \<leftarrow> [0..<unat (gc_num_residual_layers g)]]"
  by (simp add: update_quant_matrix_def fill_matrix_def Let_def)

lemma fill_matrix_ready:
  assumes "matrices_ready g p coeffs"
  shows "fill_matrix g p is_idr plane (loq, layer) coeffs =
    rbind (matrix_value p g loq layer) (\<lambda>c. Inr (coeffs((plane, loq, layer) := c)))"
proof -
  have "find_quant_matrix_coeff p n h loq layer is_idr c = find_quant_matrix_coeff p n h loq layer True 0"
    if "pc_quant_matrix_mode p \<noteq> QuantMatrix_BothPrevious \<or> c = -1 \<or> find_quant_matrix_coeff p n h loq layer True 0 = Inr c" for n h c
    using that by (cases "pc_quant_matrix_mode p") (auto simp: find_quant_matrix_coeff_def Let_def)
  moreover have "pc_quant_matrix_mode p \<noteq> QuantMatrix_BothPrevious \<or> coeffs (plane, loq, layer) = -1 \<or>
      find_quant_matrix_coeff p (unat (gc_num_residual_layers g)) h loq layer True 0 = Inr (coeffs (plane, loq, layer))"
    if "is_horizontal_only g loq = Inr h" for h
    using assms [unfolded matrices_ready_def, rule_format, of plane loq layer] that by (auto simp: matrix_value_def)
  ultimately show ?thesis by (cases "is_horizontal_only g loq") (simp_all add: matrix_value_def fill_matrix_def)
qed

lemma matrices_ready_mode:
  assumes "pc_quant_matrix_mode p = pc_quant_matrix_mode p'"
  shows "matrices_ready g p c = matrices_ready g p' c"
proof (cases "pc_quant_matrix_mode p' = QuantMatrix_BothPrevious")
  case True
  then have "matrix_value p g loq layer = matrix_value p' g loq layer" for loq layer
    using assms by (simp add: matrix_value_def find_quant_matrix_coeff_def Let_def)
  with assms show ?thesis by (simp add: matrices_ready_def)
qed (use assms in \<open>simp add: matrices_ready_def\<close>)

lemma matrices_ready_update:
  "matrices_ready g p coeffs \<Longrightarrow> matrix_value p g loq layer = Inr v \<Longrightarrow> matrices_ready g p (coeffs((plane, loq, layer) := v))"
  by (simp add: matrices_ready_def)

lemma fill_matrices:
  assumes "matrices_ready g p c" and "matrices_ready g p d" and "fold_result (fill_matrix g p is_idr plane) ps c = Inr c'"
    and "\<forall>x \<in> A. c (plane, x) = d (plane, x)"
  shows "\<exists>d'. fold_result (fill_matrix g p is_idr' plane) ps d = Inr d' \<and> matrices_ready g p c' \<and> matrices_ready g p d' \<and>
      (\<forall>x \<in> A \<union> set ps. c' (plane, x) = d' (plane, x))"
  using assms
proof (induction ps arbitrary: c d A)
  case (Cons x ps)
  obtain loq layer where x: "x = (loq, layer)" by (cases x)
  from Cons.prems(3) obtain v where v: "matrix_value p g loq layer = Inr v"
    "fold_result (fill_matrix g p is_idr plane) ps (c((plane, loq, layer) := v)) = Inr c'"
    unfolding x fold_result.simps fill_matrix_ready [OF Cons.prems(1)] by (elim rbind_eq_InrE) simp
  have agree: "\<forall>y \<in> insert x A. (c((plane, loq, layer) := v)) (plane, y) = (d((plane, loq, layer) := v)) (plane, y)"
    using Cons.prems(4) by (simp add: x)
  obtain d' where "fold_result (fill_matrix g p is_idr' plane) ps (d((plane, loq, layer) := v)) = Inr d'"
    "matrices_ready g p c'" "matrices_ready g p d'" "\<forall>y \<in> insert x A \<union> set ps. c' (plane, y) = d' (plane, y)"
    using Cons.IH [OF matrices_ready_update [OF Cons.prems(1) v(1)] matrices_ready_update [OF Cons.prems(2) v(1)] v(2) agree] by blast
  then show ?case by (simp add: x fill_matrix_ready [OF Cons.prems(2)] v(1) del: fun_upd_apply) 
qed simp

lemma update_quant_matrix_agrees:
  assumes "update_quant_matrix g p is_idr plane c = Inr c'" and "matrices_ready g p c" and "matrices_ready g p d"
  shows "\<exists>d'. update_quant_matrix g p is_idr' plane d = Inr d' \<and> matrices_ready g p c' \<and> matrices_ready g p d' \<and>
    (\<forall>loq < 2. \<forall>layer < unat (gc_num_residual_layers g). c' (plane, loq, layer) = d' (plane, loq, layer))"
proof -
  obtain d' where "update_quant_matrix g p is_idr' plane d = Inr d'" "matrices_ready g p c'" "matrices_ready g p d'"
    "\<forall>x \<in> set [(loq, layer). loq \<leftarrow> [0..<MAX_NUM_LOQS], layer \<leftarrow> [0..<unat (gc_num_residual_layers g)]]. c' (plane, x) = d' (plane, x)"
    using fill_matrices [OF assms(2,3) assms(1) [unfolded update_quant_matrix_fill], of "{}" is_idr'] 
    unfolding update_quant_matrix_fill by blast
  then show ?thesis by (intro exI [of _ d']) auto
qed

lemma update_quant_matrix_frame:
  assumes "update_quant_matrix g p is_idr plane coeffs = Inr coeffs'" and "plane' \<noteq> plane"
  shows "coeffs' (plane', loq, layer) = coeffs (plane', loq, layer)"
proof -
  have "\<forall>loq layer. coeffs' (plane', loq, layer) = coeffs (plane', loq, layer)"
    using assms(1) unfolding update_quant_matrix_def Let_def
    by (rule fold_result_invariant [where P = "\<lambda>c. \<forall>loq layer. c (plane', loq, layer) = coeffs (plane', loq, layer)", rotated 2])
      (use assms(2) in auto)
  then show ?thesis by blast
qed

lemma matrices_trace:
  assumes "\<forall>k < n. update_quant_matrix g p is_idr k (C k) = Inr (C (Suc k))" and "matrices_ready g p (C 0)" and "matrices_ready g p d"
  shows "\<exists>Q. Q 0 = d \<and> (\<forall>k < n. update_quant_matrix g p is_idr' k (Q k) = Inr (Q (Suc k)) \<and>
      (\<forall>loq < 2. \<forall>layer < unat (gc_num_residual_layers g). Q (Suc k) (k, loq, layer) = C (Suc k) (k, loq, layer) \<and>
        Q n (k, loq, layer) = C n (k, loq, layer))) \<and> matrices_ready g p (C n) \<and> matrices_ready g p (Q n)"
  using assms(1)
proof (induction n)
  case 0
  then show ?case using assms(2,3) by (intro exI [of _ "\<lambda>_. d"]) simp
next
  case (Suc n)
  then obtain Q where Q: "Q 0 = d" "\<forall>k < n. update_quant_matrix g p is_idr' k (Q k) = Inr (Q (Suc k)) \<and>
      (\<forall>loq < 2. \<forall>layer < unat (gc_num_residual_layers g). Q (Suc k) (k, loq, layer) = C (Suc k) (k, loq, layer) \<and>
        Q n (k, loq, layer) = C n (k, loq, layer))" "matrices_ready g p (C n)" "matrices_ready g p (Q n)" by auto
  have step: "update_quant_matrix g p is_idr n (C n) = Inr (C (Suc n))" using Suc.prems by simp
  from update_quant_matrix_agrees [OF step Q(3,4)] obtain d' where d': "update_quant_matrix g p is_idr' n (Q n) = Inr d'"
    "matrices_ready g p (C (Suc n))" "matrices_ready g p d'"
    "\<forall>loq < 2. \<forall>layer < unat (gc_num_residual_layers g). C (Suc n) (n, loq, layer) = d' (n, loq, layer)" by blast
  have others: "d' (k, loq, layer) = Q n (k, loq, layer) \<and> C (Suc n) (k, loq, layer) = C n (k, loq, layer)" if "k < n" for k loq layer
    using update_quant_matrix_frame [OF d'(1)] update_quant_matrix_frame [OF step] that by simp
  show ?case
    by (intro exI [of _ "Q(Suc n := d')"]) (use Q d' others in \<open>auto simp: less_Suc_eq\<close>)
qed

section \<open>The first sub-layer of a plane\<close>

lemma encode_base_plane_frame:
  assumes "encode_base_plane c_log plane src prediction en symbols = Inr (reco, en', symbols')"
  shows "\<exists>next. en' = en\<lparr>en_random := next\<rparr>"
    and "p \<noteq> plane \<or> l \<noteq> LOQ_LEVEL_1 \<Longrightarrow> symbols' (p, l, layer) = symbols (p, l, layer)"
  using assms by (auto simp: encode_base_plane_def Let_def put_symbols_def split: if_splits intro: exI [of _ "en_random en"])

lemma base_plane_in_step:
  assumes enc: "encode_base_plane c_log plane src prediction en symbols = Inr (reco, en', symbols')"
    and final: "en_global enf = en_global en" "base_view (en_picture enf) = base_view (en_picture en)"
      "plane_sizes (en_dimensions enf) plane LOQ_LEVEL_1 = plane_sizes (en_dimensions en) plane LOQ_LEVEL_1"
      "\<And>layer. en_quant_matrix_coeffs enf (plane, LOQ_LEVEL_1, layer) = en_quant_matrix_coeffs en (plane, LOQ_LEVEL_1, layer)"
      "\<And>layer. symbolsf (plane, LOQ_LEVEL_1, layer) = symbols' (plane, LOQ_LEVEL_1, layer)"
    and settings: "same_settings plane LOQ_LEVEL_1 enf (dc\<lparr>dc_quant_matrix_coeffs := coeffs\<rparr>)"
    and fit: "is_enhanced (en_global en) (en_picture en) plane \<Longrightarrow> layers_fit c_log plane LOQ_LEVEL_1 enf symbolsf"
    and pos: "0 < sf_width reco" "0 < sf_height reco"
    and base: "base_internal (en_global en) ext_base plane = Inr b" "predict (en_global en) LOQ_LEVEL_1 b = Inr prediction"
    and matrices: "update_quant_matrix (en_global en) (en_picture enf) (pc_coding_type (en_picture enf) = CodingType_IDR) plane
      (dc_quant_matrix_coeffs dc) = Inr coeffs"
  shows "decode_base_plane c_log True symbolsf ext_base plane dc = Inr (reco, dc\<lparr>dc_quant_matrix_coeffs := coeffs\<rparr>)"
proof -
  let ?g = "en_global en" and ?p = "en_picture enf" and ?dc = "dc\<lparr>dc_quant_matrix_coeffs := coeffs\<rparr>"
  have g: "sg_global_configuration (dc_configuration dc) = ?g" "sg_picture_configuration (dc_configuration dc) = ?p"
    using settings by (simp_all add: same_settings_def final)
  have view: "is_enhanced ?g ?p plane = is_enhanced ?g (en_picture en) plane" "deblocked ?g ?p = deblocked ?g (en_picture en)"
    using base_view_functions(5,6) final(2) by metis+
  show ?thesis
  proof (cases "is_enhanced ?g (en_picture en) plane")
    case True
    then obtain layers recon filtered where symbols':  "symbols' = put_symbols plane LOQ_LEVEL_1 layers symbols"
      and layers: "length layers = unat (gc_num_residual_layers ?g)"
      and recon: "encoder_residuals c_log ?g (en_picture en) (\<lambda>layer. en_quant_matrix_coeffs en (plane, LOQ_LEVEL_1, layer))
        (plane_sizes (en_dimensions en) plane LOQ_LEVEL_1) plane LOQ_LEVEL_1 ((!) layers) SWM_Disabled None = Inr recon"
      and filtered: "deblocked ?g (en_picture en) recon = Inr filtered" and reco: "add_planes prediction filtered = Inr reco"
      using enc by (auto simp: encode_base_plane_def Let_def dest: encoder_symbols_length)
    have same: "encoder_residuals c_log ?g ?p coeffs sizes plane LOQ_LEVEL_1 =
        encoder_residuals c_log ?g (en_picture en) coeffs sizes plane LOQ_LEVEL_1" for coeffs sizes
      by (metis encoder_residuals_base_view final(2))
    have "decoder_residuals c_log (sg_global_configuration (dc_configuration ?dc)) (sg_picture_configuration (dc_configuration ?dc))
        (\<lambda>layer. dc_quant_matrix_coeffs ?dc (plane, LOQ_LEVEL_1, layer)) (plane_sizes (dc_dimensions ?dc) plane LOQ_LEVEL_1) plane
        LOQ_LEVEL_1 (\<lambda>layer. symbolsf (plane, LOQ_LEVEL_1, layer)) = Inr (None, recon)"
    proof (rule plane_residuals [OF settings fit [OF True], of layers SWM_Disabled None recon None])
      show "symbolsf (plane, LOQ_LEVEL_1, layer) = Residual_Surface (layers ! layer)"
        if "layer < unat (gc_num_residual_layers (en_global enf))" for layer
        using that layers by (simp add: symbols' put_symbols_here final)
      show "encoder_residuals c_log (en_global enf) ?p (\<lambda>layer. en_quant_matrix_coeffs enf (plane, LOQ_LEVEL_1, layer))
          (plane_sizes (en_dimensions enf) plane LOQ_LEVEL_1) plane LOQ_LEVEL_1 ((!) layers) SWM_Disabled None = Inr recon"
        using recon by (simp add: same final)
    qed (simp_all add: signalled_swm_def)
    moreover have "add_in_place prediction filtered = Inr reco"
      using reco pos add_planes_sizes [OF reco] by (subst add_planes_in_place [symmetric]) (simp_all add: same_size_def)
    ultimately show ?thesis
      using filtered base matrices True by (simp add: decode_base_plane_def Let_def g view)
  next
    case False
    with enc have "reco = prediction" by (simp add: encode_base_plane_def Let_def)
    with False base matrices show ?thesis by (simp add: decode_base_plane_def Let_def g view)
  qed
qed

section \<open>Planes of 16 bits\<close>

lemma take4: "[0..<4] = [0, 1, 2, 3 :: nat]"
  by (simp add: upt_conv_Cons)

lemma filter_sample16: "filter_sample taps src position = Inr p \<Longrightarrow> is_int16 p"
  by (auto simp: filter_sample_def us_shift_clamp_s16_def)

lemma map_result_id_member: "map_result id fs = Inr xs \<Longrightarrow> x \<in> set xs \<Longrightarrow> Inr x \<in> set fs"
  by (induction fs arbitrary: xs) auto

lemma upsample_samples_filter: "f \<in> set (upsample_samples n taps src) \<Longrightarrow> \<exists>t position. f = filter_sample t src position"
  by (auto simp: upsample_samples_def Let_def)

lemma upsample_kernel16:
  assumes "apply_upsample_kernel n taps src = Inr xs"
  shows "length xs = 2 * n" and "x \<in> set xs \<Longrightarrow> is_int16 x"
proof -
  have *: "n = 0 \<and> xs = [] \<or> 4 \<le> n \<and> map_result id (upsample_samples n taps src) = Inr xs"
    using assms by (auto simp: apply_upsample_kernel_def assert_that_def split: if_splits)
  have pairs: "length (concat (map (\<lambda>s. [f s, g s]) ys)) = 2 * length ys" for f g :: "nat \<Rightarrow> 'b" and ys
    by (induction ys) auto
  show "length xs = 2 * n"
    using * by (auto dest!: map_result_Inr_length simp: upsample_samples_def Let_def pairs)
  show "is_int16 x" if "x \<in> set xs"
    using * that map_result_id_member upsample_samples_filter filter_sample16 by (metis empty_iff list.set(1))
qed

lemma filter_columns16:
  assumes "filter_columns w h f src = Inr s" and "\<And>x xs. f x = Inr xs \<Longrightarrow> length xs = h \<and> list_all is_int16 xs"
  shows "plane16 s \<and> sf_width s = w \<and> sf_height s = h"
proof -
  obtain columns where columns: "map_result (\<lambda>x. rbind (row_start w h 0) (\<lambda>_.
      rbind (row_start (sf_width src) (sf_height src) 0) (\<lambda>_. f x))) [0..<w] = Inr columns"
    and s: "s = surface_of w h (\<lambda>x y. columns ! x ! y)"
    using assms(1) by (auto simp: filter_columns_def)
  have "is_int16 (columns ! x ! y)" if "x < w" "y < h" for x y
    using map_result_Inr_nth [OF columns, of x] assms(2) [of x "columns ! x"] that by (auto simp: list_all_length)
  then show ?thesis by (simp add: s plane16_of)
qed

lemma filter_rows16:
  assumes "filter_rows w h f src = Inr s" and "\<And>x xs. f x = Inr xs \<Longrightarrow> length xs = w \<and> list_all is_int16 xs"
  shows "plane16 s \<and> sf_width s = w \<and> sf_height s = h"
proof -
  obtain rows where rows: "map_result (\<lambda>y. rbind (row_start w h y) (\<lambda>_.
      rbind (row_start (sf_width src) (sf_height src) y) (\<lambda>_. f y))) [0..<h] = Inr rows"
    and s: "s = \<lparr>sf_width = w, sf_height = h, sf_pixels = concat rows\<rparr>"
    using assms(1) by (auto simp: filter_rows_def)
  have "length rows = h" using map_result_Inr_length [OF rows] by simp
  moreover have "length (rows ! y) = w \<and> list_all is_int16 (rows ! y)" if "y < h" for y
    using map_result_Inr_nth [OF rows, of y] assms(2) [of y "rows ! y"] that by auto
  ultimately show ?thesis using concat_rows_all [of rows w is_int16] by (simp add: s plane16_def surface_wf_def)
qed

lemma upsample_kernel_row: "apply_upsample_kernel n taps src = Inr xs \<Longrightarrow> length xs = n * 2 \<and> list_all is_int16 xs"
  using upsample_kernel16 by (auto simp: list_all_iff)

lemma upsampling16: "upsampling s u cs = Inr r \<Longrightarrow> plane16 r \<and> sf_width r = 2 * sf_width s \<and> sf_height r = 2 * sf_height s"
  by (auto simp: upsampling_def Let_def dest!: filter_rows16 [OF _ upsample_kernel_row])

lemma upsampling_1d16: "upsampling_1d s u cs = Inr r \<Longrightarrow> plane16 r \<and> sf_width r = 2 * sf_width s \<and> sf_height r = sf_height s"
  unfolding upsampling_1d_def mult.commute [of 2] by (auto simp: Let_def dest!: filter_rows16 [OF _ upsample_kernel_row])

text \<open>The sides of a plane at the next level.\<close>

fun scaled_sizes :: "scaling_mode \<Rightarrow> 'p surface \<Rightarrow> nat \<times> nat" where
  "scaled_sizes ScalingMode_None s = (sf_width s, sf_height s)"
| "scaled_sizes ScalingMode_1D s = (2 * sf_width s, sf_height s)"
| "scaled_sizes ScalingMode_2D s = (2 * sf_width s, 2 * sf_height s)"

lemma adjusted16:
  "predicted_residual_adjust b e t = Inr r \<Longrightarrow> plane16 r \<and> sf_width r = sf_width e \<and> sf_height r = sf_height e"
  "predicted_residual_adjust_1d b e t = Inr r \<Longrightarrow> plane16 r \<and> sf_width r = sf_width e \<and> sf_height r = sf_height e"
proof -
  have clamp: "is_int16 (clamp i (- 32767) 32767)" for i :: int
    using clamp_bounds [of "- 32767" 32767 i] by (simp add: is_int16_def)
  show "predicted_residual_adjust b e t = Inr r \<Longrightarrow> plane16 r \<and> sf_width r = sf_width e \<and> sf_height r = sf_height e"
    by (auto simp: predicted_residual_adjust_def Let_def clamp split: if_splits dest!: plane_rows16 [rotated])
  show "predicted_residual_adjust_1d b e t = Inr r \<Longrightarrow> plane16 r \<and> sf_width r = sf_width e \<and> sf_height r = sf_height e"
    by (auto simp: predicted_residual_adjust_1d_def Let_def clamp dest!: surface_build16 [rotated])
qed

lemma predict_sizes:
  assumes "predict g loq s = Inr u"
  shows "\<exists>m. vector_at (gc_scaling_mode g) loq = Inr m \<and> (sf_width u, sf_height u) = scaled_sizes m s \<and>
    (plane16 s \<or> m \<noteq> ScalingMode_None \<longrightarrow> plane16 u)"
proof -
  obtain m where m: "vector_at (gc_scaling_mode g) loq = Inr m" using assms by (auto simp: predict_def)
  show ?thesis
    using assms m
    by (cases m) (auto simp: predict_def split: if_splits dest!: upsampling16 upsampling_1d16 adjusted16)
qed

lemma predict_plane16: "predict g loq s = Inr u \<Longrightarrow> plane16 s \<Longrightarrow> plane16 u"
  using predict_sizes by blast

lemma predict_positive:
  assumes "predict g loq s = Inr u" and "0 < sf_width u" and "0 < sf_height u"
  shows "0 < sf_width s" and "0 < sf_height s"
proof -
  obtain m where "(sf_width u, sf_height u) = scaled_sizes m s" using predict_sizes [OF assms(1)] by blast
  with assms(2,3) show "0 < sf_width s" "0 < sf_height s" by (cases m; simp)+
qed

text \<open>A plane of a picture, and a picture, with all its pixels.\<close>

fun plane_wf :: "plane \<Rightarrow> bool" where
  "plane_wf (Plane8 s) = surface_wf s"
| "plane_wf (Plane16 s) = surface_wf s"

lemma surface_image_sint16:
  assumes "surface_wf s"
  shows "plane16 (surface_image (sint :: u16 \<Rightarrow> int) s)"
proof -
  have "is_int16 (sint p)" for p :: u16 using sint_ge [of p] sint_lt [of p] by (simp add: is_int16_def)
  with assms show ?thesis by (simp add: plane16_def surface_wf_def list_all_iff)
qed

lemma convert_to_internal16: "convert_to_internal p depth = Inr s \<Longrightarrow> plane_wf p \<Longrightarrow> plane16 s"
  by (cases p) (auto simp: convert_to_internal_def convert_from_u8_def convert_from_u16_def view_s16_def surface_image_sint16
      split: if_splits dest!: plane_rows16 [rotated])

lemma plane_rows_wf: "plane_rows w h start f = Inr s \<Longrightarrow> surface_wf s"
  using plane_rows_all [where Q = "\<lambda>_. True"] by blast

lemma convert_bit_shift_wf: "convert_bit_shift p a b = Inr q \<Longrightarrow> plane_wf p \<Longrightarrow> plane_wf q"
  by (auto simp: convert_bit_shift_def left_shift_from_u8_def left_shift_from_u16_def right_shift_to_u8_def
      right_shift_to_u16_def split: if_splits dest!: plane_rows_wf)

lemma base_internal16:
  assumes "base_internal g im plane = Inr s" and "list_all plane_wf (im_planes im)"
  shows "plane16 s"
proof -
  obtain p q depth where p: "image_plane im plane = Inr p" and q: "q = p \<or> convert_bit_shift p (unat (gc_base_depth g)) (unat (gc_enhancement_depth g)) = Inr q"
    and s: "convert_to_internal q depth = Inr s"
    using assms(1) unfolding base_internal_def Let_def
    by (cases "unat (gc_base_depth g) < unat (gc_enhancement_depth g) \<and> gc_level1_depth_flag g") (auto simp only: if_True if_False simp_thms)
  have "plane_wf p" using p assms(2) by (auto simp: image_plane_def assert_that_def list_all_length split: if_splits)
  then have "plane_wf q" using q convert_bit_shift_wf by blast
  with s show ?thesis by (rule convert_to_internal16)
qed

lemma encode_base_plane16: "encode_base_plane c_log plane src prediction en symbols = Inr (reco, en', symbols') \<Longrightarrow>
    plane16 prediction \<Longrightarrow> plane16 reco"
  by (auto simp: encode_base_plane_def Let_def split: if_splits intro: add_planes16)

lemma encode_full_plane16:
  assumes "encode_full_plane c_log frame_type gop src_image plane src prediction en symbols = Inr (reco, en', symbols')"
    and "plane16 prediction"
  shows "plane16 reco"
  using assms unfolding encode_full_plane_def encode_intra_plane_def encode_temporal_plane_def pass_through_plane_def
  by (auto simp: Let_def split: if_splits option.splits intro: add_planes16)

section \<open>The configuration from plane to plane\<close>

text \<open>The configuration of a picture after a plane, by whether the plane had no previous residuals.\<close>

definition next_picture :: "base_frame_type \<Rightarrow> int \<Rightarrow> bool \<Rightarrow> encoder \<Rightarrow> picture_configuration" where
  "next_picture frame_type gop fresh en =
     (let g = en_global en; p = en_picture en; intra = gc_temporal_enabled g = 0 \<or> fresh \<or> is_intra_frame frame_type;
          last_idr = (if is_intra_frame frame_type then gop else en_last_idr_frame_num en);
          sw = picture_step_width (en_config en) g frame_type (gop - last_idr) (pc_step_width_loq_orig p ! LOQ_LEVEL_2);
          flags = (\<lambda>r s. p\<lparr>pc_temporal_refresh := r, pc_temporal_signalling_present := s\<rparr>);
          stepped = (\<lambda>q. q\<lparr>pc_step_width_loq := (pc_step_width_loq q)[LOQ_LEVEL_2 := sw]\<rparr>) in
      if pc_enhancement_enabled p then
        if \<not> pc_temporal_signalling_present p \<and> intra then stepped (flags True False) else stepped (flags False True)
      else if intra then flags True False
      else flags False (ec_no_enhancement_temporal_layer (en_config en)))"

lemma set_step_width_spec:
  assumes "set_step_width frame_type gop (update_picture f en) = Inr en'"
  shows "en_picture en' = (f (en_picture en))\<lparr>pc_step_width_loq := (pc_step_width_loq (f (en_picture en)))[LOQ_LEVEL_2 :=
      picture_step_width (en_config en) (en_global en) frame_type
        (gop - (if is_intra_frame frame_type then gop else en_last_idr_frame_num en)) (pc_step_width_loq_orig (f (en_picture en)) ! LOQ_LEVEL_2)]\<rparr>"
    and "is_intra_frame frame_type \<or> en_last_idr_frame_num en' = en_last_idr_frame_num en"
  using assms by (auto simp: set_step_width_def Let_def vector_at_def split: if_splits)

definition kept :: "nat \<Rightarrow> encoder \<Rightarrow> encoder \<Rightarrow> bool" where
  "kept plane en en' \<longleftrightarrow> en_config en' = en_config en \<and> en_global en' = en_global en \<and> en_dimensions en' = en_dimensions en \<and>
     (\<forall>p. p \<noteq> plane \<longrightarrow> en_previous_residuals en' p = en_previous_residuals en p) \<and>
     (\<forall>p l layer. p \<noteq> plane \<longrightarrow> en_quant_matrix_coeffs en' (p, l, layer) = en_quant_matrix_coeffs en (p, l, layer))"

lemma encode_full_plane_frame:
  assumes "encode_full_plane c_log frame_type gop src_image plane src prediction en symbols = Inr (reco, en', symbols')"
  shows "kept plane en en'" and "en_quant_matrix_coeffs en' = en_quant_matrix_coeffs en"
    and "p \<noteq> plane \<or> l \<noteq> LOQ_LEVEL_2 \<Longrightarrow> symbols' (p, l, layer) = symbols (p, l, layer)"
    and "en_picture en' = (if plane < unat (gc_num_processed_planes (en_global en))
      then next_picture frame_type gop (en_previous_residuals en plane = None) en else en_picture en)"
    and "is_intra_frame frame_type \<or> en_last_idr_frame_num en' = en_last_idr_frame_num en"
proof -
  consider (intra) residuals pixel_sad where "is_enhanced (en_global en) (en_picture en) plane"
      "\<not> pc_temporal_signalling_present (en_picture en) \<and>
          (gc_temporal_enabled (en_global en) = 0 \<or> en_previous_residuals en plane = None \<or> is_intra_frame frame_type)"
      "encode_intra_plane c_log frame_type gop plane src pixel_sad prediction residuals en symbols = Inr (reco, en', symbols')"
    | (temporal) residuals pixel_sad where "is_enhanced (en_global en) (en_picture en) plane"
      "\<not> (\<not> pc_temporal_signalling_present (en_picture en) \<and>
          (gc_temporal_enabled (en_global en) = 0 \<or> en_previous_residuals en plane = None \<or> is_intra_frame frame_type))"
      "encode_temporal_plane c_log frame_type gop plane src pixel_sad prediction residuals en symbols = Inr (reco, en', symbols')"
    | (pass) "plane < unat (gc_num_processed_planes (en_global en))" "\<not> pc_enhancement_enabled (en_picture en)"
      "pass_through_plane frame_type plane src prediction en symbols = Inr (reco, en', symbols')"
    | (none) "\<not> plane < unat (gc_num_processed_planes (en_global en))" "en' = en" "symbols' = symbols"
    using assms unfolding encode_full_plane_def Let_def is_enhanced_def by (auto split: if_splits)
  note cases = this
  have "kept plane en en' \<and> en_quant_matrix_coeffs en' = en_quant_matrix_coeffs en \<and>
    (\<forall>p l layer. p \<noteq> plane \<or> l \<noteq> LOQ_LEVEL_2 \<longrightarrow> symbols' (p, l, layer) = symbols (p, l, layer)) \<and>
    en_picture en' = (if plane < unat (gc_num_processed_planes (en_global en))
      then next_picture frame_type gop (en_previous_residuals en plane = None) en else en_picture en) \<and>
    (is_intra_frame frame_type \<or> en_last_idr_frame_num en' = en_last_idr_frame_num en)"
  proof (cases rule: cases)
    case intra
    obtain en1 layers recon en2 where en1: "set_step_width frame_type gop (update_picture (\<lambda>p. p\<lparr>pc_temporal_refresh := True,
        pc_temporal_signalling_present := False\<rparr>) en) = Inr en1"
      and en2: "encode_remaining c_log plane en1 src pixel_sad residuals SWM_Disabled None = Inr (layers, recon, en2)"
      and en': "en' = (if gc_temporal_enabled (en_global en2) \<noteq> 0 then set_previous plane (Some recon) en2 else en2)"
        "symbols' = put_symbols plane LOQ_LEVEL_2 layers symbols"
      using intra(3) unfolding encode_intra_plane_def by (auto simp only: rbind_eq_Inr split: prod.splits) auto
    obtain next' where "en2 = en1\<lparr>en_random := next'\<rparr>" using encode_remaining_spec(3) [OF en2] by blast
    with intra(1,2) set_step_width_frame [OF en1] set_step_width_spec [OF en1] show ?thesis
      by (auto simp: en' kept_def next_picture_def Let_def is_enhanced_def put_symbols_def)
  next
    case temporal
    obtain en1 marks buffer remaining layers recon en2 new where en1: "set_step_width frame_type gop (update_picture
        (\<lambda>p. p\<lparr>pc_temporal_refresh := False, pc_temporal_signalling_present := True\<rparr>) en) = Inr en1"
      and en2: "encode_remaining c_log plane en1 src pixel_sad remaining SWM_Dependent (Some marks) = Inr (layers, recon, en2)"
      and en': "en' = set_previous plane (Some new) en2" "symbols' = (put_symbols plane LOQ_LEVEL_2 layers symbols)
            ((plane, LOQ_LEVEL_2, unat (gc_num_residual_layers (en_global en2))) := Mask_Surface marks)"
      using temporal(3) unfolding encode_temporal_plane_def by (auto simp only: rbind_eq_Inr split: prod.splits) auto
    obtain next' where "en2 = en1\<lparr>en_random := next'\<rparr>" using encode_remaining_spec(3) [OF en2] by blast
    with temporal(1,2) set_step_width_frame [OF en1] set_step_width_spec [OF en1] show ?thesis
      by (auto simp: en' kept_def next_picture_def Let_def is_enhanced_def put_symbols_def)
  next
    case pass
    then show ?thesis
      by (auto simp: pass_through_plane_def kept_def next_picture_def Let_def split: if_splits option.splits)
  next
    case none
    then show ?thesis by (simp add: kept_def)
  qed
  then show "kept plane en en'" "en_quant_matrix_coeffs en' = en_quant_matrix_coeffs en"
    "p \<noteq> plane \<or> l \<noteq> LOQ_LEVEL_2 \<Longrightarrow> symbols' (p, l, layer) = symbols (p, l, layer)"
    "en_picture en' = (if plane < unat (gc_num_processed_planes (en_global en))
      then next_picture frame_type gop (en_previous_residuals en plane = None) en else en_picture en)"
    "is_intra_frame frame_type \<or> en_last_idr_frame_num en' = en_last_idr_frame_num en" by blast+
qed

text \<open>Whether the plane has no previous residuals after the picture.\<close>

definition next_fresh :: "base_frame_type \<Rightarrow> bool \<Rightarrow> encoder \<Rightarrow> bool" where
  "next_fresh frame_type fresh en =
     (if pc_enhancement_enabled (en_picture en) then gc_temporal_enabled (en_global en) = 0 \<and> fresh
      else gc_temporal_enabled (en_global en) = 0 \<or> fresh \<or> is_intra_frame frame_type)"

text \<open>A plane is predicted only from residuals that are there.\<close>

definition history_sent :: "bool \<Rightarrow> encoder \<Rightarrow> bool" where
  "history_sent fresh en \<longleftrightarrow>
     (pc_temporal_signalling_present (en_picture en) \<longrightarrow> pc_enhancement_enabled (en_picture en) \<longrightarrow>
        gc_temporal_enabled (en_global en) \<noteq> 0 \<and> \<not> fresh)"

lemma encode_full_plane_fresh:
  assumes "encode_full_plane c_log frame_type gop src_image plane src prediction en symbols = Inr (reco, en', symbols')"
    and "plane < unat (gc_num_processed_planes (en_global en))" and "history_sent (en_previous_residuals en plane = None) en"
  shows "(en_previous_residuals en' plane = None) = next_fresh frame_type (en_previous_residuals en plane = None) en"
  using assms unfolding encode_full_plane_def encode_intra_plane_def encode_temporal_plane_def pass_through_plane_def
  by (auto simp: Let_def next_fresh_def is_enhanced_def history_sent_def set_step_width_frame
      dest!: encode_remaining_spec(3) split: if_splits option.splits)

lemma next_picture_base_view: "base_view (next_picture frame_type gop fresh en) = base_view (en_picture en)"
  by (simp add: next_picture_def base_view_def Let_def)

text \<open>One plane settles the configuration of the picture.\<close>

lemma next_picture_settled:
  assumes "en_picture en' = next_picture frame_type gop fresh en" and "en_config en' = en_config en" and "en_global en' = en_global en"
    and "is_intra_frame frame_type \<or> en_last_idr_frame_num en' = en_last_idr_frame_num en"
  shows "next_picture frame_type gop fresh en' = en_picture en'"
  using assms by (auto simp: next_picture_def Let_def)

lemma next_picture_history: "history_sent fresh en \<Longrightarrow> en_picture en' = next_picture frame_type gop fresh en \<Longrightarrow>
    en_global en' = en_global en \<Longrightarrow> history_sent fresh en'"
  by (auto simp: history_sent_def next_picture_def Let_def)

section \<open>A plane\<close>

lemma encode_planeE:
  assumes "encode_plane c_log frame_type is_idr gop src_image intermediate base plane en symbols = Inr (reco, en', symbols')"
  obtains src intermediate_src b coeffs base_prediction base_reco en1 symbols1 prediction where
    "base_internal (en_global en) base plane = Inr b"
    "update_quant_matrix (en_global en) (en_picture en) is_idr plane (en_quant_matrix_coeffs en) = Inr coeffs"
    "predict (en_global en) LOQ_LEVEL_1 b = Inr base_prediction"
    "encode_base_plane c_log plane intermediate_src base_prediction (en\<lparr>en_quant_matrix_coeffs := coeffs\<rparr>) symbols = Inr (base_reco, en1, symbols1)"
    "predict (en_global en) LOQ_LEVEL_2 base_reco = Inr prediction"
    "encode_full_plane c_log frame_type gop src_image plane src prediction en1 symbols1 = Inr (reco, en', symbols')"
  using assms unfolding encode_plane_def Let_def
  by (auto simp only: rbind_eq_Inr split: prod.splits) auto

lemma encode_plane_frame:
  assumes "encode_plane c_log frame_type is_idr gop src_image intermediate base plane en symbols = Inr (reco, en', symbols')"
  shows "kept plane en en'" and "p \<noteq> plane \<Longrightarrow> symbols' (p, l, layer) = symbols (p, l, layer)"
    and "en_picture en' = (if plane < unat (gc_num_processed_planes (en_global en))
      then next_picture frame_type gop (en_previous_residuals en plane = None) en else en_picture en)"
    and "is_intra_frame frame_type \<or> en_last_idr_frame_num en' = en_last_idr_frame_num en"
    and "plane < unat (gc_num_processed_planes (en_global en)) \<Longrightarrow> history_sent (en_previous_residuals en plane = None) en \<Longrightarrow>
      (en_previous_residuals en' plane = None) = next_fresh frame_type (en_previous_residuals en plane = None) en"
    and "update_quant_matrix (en_global en) (en_picture en) is_idr plane (en_quant_matrix_coeffs en) = Inr (en_quant_matrix_coeffs en')"
proof -
  from assms obtain src intermediate_src coeffs base_prediction base_reco en1 symbols1 prediction where
    q: "update_quant_matrix (en_global en) (en_picture en) is_idr plane (en_quant_matrix_coeffs en) = Inr coeffs"
    and b: "encode_base_plane c_log plane intermediate_src base_prediction (en\<lparr>en_quant_matrix_coeffs := coeffs\<rparr>) symbols = Inr (base_reco, en1, symbols1)"
    and f: "encode_full_plane c_log frame_type gop src_image plane src prediction en1 symbols1 = Inr (reco, en', symbols')"
    by (rule encode_planeE)
  obtain next' where en1: "en1 = en\<lparr>en_quant_matrix_coeffs := coeffs, en_random := next'\<rparr>"
    using encode_base_plane_frame(1) [OF b] by auto
  have next1: "next_picture frame_type gop fresh en1 = next_picture frame_type gop fresh en"
    "next_fresh frame_type fresh en1 = next_fresh frame_type fresh en" "history_sent fresh en1 = history_sent fresh en" for fresh
    by (simp_all add: next_picture_def next_fresh_def history_sent_def Let_def en1 cong: if_cong)
  have same: "en_global en1 = en_global en" "en_picture en1 = en_picture en" "en_previous_residuals en1 = en_previous_residuals en"
    by (simp_all add: en1)
  note full = encode_full_plane_frame [OF f] encode_full_plane_fresh [OF f]
  show "kept plane en en'" using full(1) update_quant_matrix_frame [OF q] by (simp add: kept_def en1)
  show "p \<noteq> plane \<Longrightarrow> symbols' (p, l, layer) = symbols (p, l, layer)"
    using full(3) encode_base_plane_frame(2) [OF b] by simp
  show "en_picture en' = (if plane < unat (gc_num_processed_planes (en_global en))
      then next_picture frame_type gop (en_previous_residuals en plane = None) en else en_picture en)"
    using full(4) by (simp add: next1 same)
  show "is_intra_frame frame_type \<or> en_last_idr_frame_num en' = en_last_idr_frame_num en" using full(5) by (simp add: en1)
  show "plane < unat (gc_num_processed_planes (en_global en)) \<Longrightarrow> history_sent (en_previous_residuals en plane = None) en \<Longrightarrow>
      (en_previous_residuals en' plane = None) = next_fresh frame_type (en_previous_residuals en plane = None) en"
    using full(6) by (simp add: next1 same)
  show "update_quant_matrix (en_global en) (en_picture en) is_idr plane (en_quant_matrix_coeffs en) = Inr (en_quant_matrix_coeffs en')"
    using q full(2) by (simp add: en1)
qed

text \<open>Only the symbols of its own plane matter to a plane.\<close>

lemma decode_full_plane_cong:
  assumes "\<And>layer. symbols (plane, LOQ_LEVEL_2, layer) = symbols' (plane, LOQ_LEVEL_2, layer)"
  shows "decode_full_plane c_log apply_enhancement symbols plane = decode_full_plane c_log apply_enhancement symbols' plane"
  unfolding fun_eq_iff decode_full_plane_def assms by simp

text \<open>
  The state that both ends carry from picture to picture: the temporal buffers and the matrices.
\<close>

definition in_step :: "encoder \<Rightarrow> decoder \<Rightarrow> bool" where
  "in_step en dc \<longleftrightarrow>
     matrices_ready (en_global en) (en_picture en) (en_quant_matrix_coeffs en) \<and>
     matrices_ready (en_global en) (en_picture en) (dc_quant_matrix_coeffs dc) \<and>
     (\<forall>plane. buffer_in_step (plane_sizes (en_dimensions en) plane LOQ_LEVEL_2) (en_previous_residuals en plane)
        (dc_temporal_buffer dc plane))"

definition uniform_history :: "encoder \<Rightarrow> bool" where
  "uniform_history en \<longleftrightarrow>
     (\<forall>plane < unat (gc_num_processed_planes (en_global en)).
        (en_previous_residuals en plane = None) = (en_previous_residuals en 0 = None))"

text \<open>The final configuration of the encoder, at the decoder.\<close>

definition same_configuration :: "encoder \<Rightarrow> decoder \<Rightarrow> bool" where
  "same_configuration en dc \<longleftrightarrow> sg_global_configuration (dc_configuration dc) = en_global en \<and>
     sg_picture_configuration (dc_configuration dc) = en_picture en \<and> dc_dimensions dc = en_dimensions en"

text \<open>A reconstructed plane has pixels, and the sizes of the signalled dimensions.\<close>

definition shown_plane :: "encoder \<Rightarrow> nat \<Rightarrow> int surface \<Rightarrow> bool" where
  "shown_plane en plane s \<longleftrightarrow> 0 < sf_width s \<and> 0 < sf_height s \<and>
     (sf_width s, sf_height s) = plane_sizes (en_dimensions en) plane LOQ_LEVEL_2"

text \<open>Nothing wraps in the symbols of a plane, and the mask that is not sent covers it.\<close>

definition plane_fits :: "(int \<Rightarrow> rat) \<Rightarrow> encoder \<Rightarrow> layer_surfaces \<Rightarrow> nat \<Rightarrow> bool" where
  "plane_fits c_log en symbols plane \<longleftrightarrow>
     (is_enhanced (en_global en) (en_picture en) plane \<longrightarrow>
        layers_fit c_log plane LOQ_LEVEL_1 en symbols \<and> layers_fit c_log plane LOQ_LEVEL_2 en symbols) \<and>
     maskable (en_global en) (plane_sizes (en_dimensions en) plane LOQ_LEVEL_2)"

lemma layers_fit_cong:
  assumes "en_global en = en_global en'" and "en_picture en = en_picture en'"
    and "\<And>layer. en_quant_matrix_coeffs en (plane, loq, layer) = en_quant_matrix_coeffs en' (plane, loq, layer)"
    and "\<And>layer. symbols (plane, loq, layer) = symbols' (plane, loq, layer)"
  shows "layers_fit c_log plane loq en symbols = layers_fit c_log plane loq en' symbols'"
  by (simp add: layers_fit_def assms)

text \<open>A plane as the decoder finds it at the end of the picture: its state, and that of its symbols.\<close>

definition plane_final :: "nat \<Rightarrow> encoder \<Rightarrow> layer_surfaces \<Rightarrow> encoder \<Rightarrow> layer_surfaces \<Rightarrow> bool" where
  "plane_final plane en symbols enf symbolsf \<longleftrightarrow>
     en_global enf = en_global en \<and> en_picture enf = en_picture en \<and> en_dimensions enf = en_dimensions en \<and>
     (\<forall>l layer. en_quant_matrix_coeffs enf (plane, l, layer) = en_quant_matrix_coeffs en (plane, l, layer)) \<and>
     (\<forall>l layer. symbolsf (plane, l, layer) = symbols (plane, l, layer))"

lemma decoded_plane:
  assumes enc: "encode_plane c_log frame_type is_idr gop src_image intermediate base plane en symbols = Inr (reco, en', symbols')"
    and final: "plane_final plane en' symbols' enf symbolsf"
    and dc: "same_configuration enf dc"
    and matrices: "update_quant_matrix (en_global enf) (en_picture enf) (pc_coding_type (en_picture enf) = CodingType_IDR) plane
      (dc_quant_matrix_coeffs dc) = Inr coeffs"
    and agree: "\<forall>loq < 2. \<forall>layer < unat (gc_num_residual_layers (en_global enf)).
      coeffs (plane, loq, layer) = en_quant_matrix_coeffs en' (plane, loq, layer)"
    and fits: "plane_fits c_log enf symbolsf plane" and shown: "shown_plane enf plane reco"
    and wf: "list_all plane_wf (im_planes base)"
    and history: "plane < unat (gc_num_processed_planes (en_global en)) \<longrightarrow> history_sent (en_previous_residuals en plane = None) en"
  shows "\<exists>base_reco prediction. decode_base_plane c_log True symbolsf base plane dc =
      Inr (base_reco, dc\<lparr>dc_quant_matrix_coeffs := coeffs\<rparr>) \<and>
    predict (en_global en) LOQ_LEVEL_2 base_reco = Inr prediction \<and>
    (\<forall>dcf. same_configuration enf dcf \<longrightarrow>
      (\<forall>layer < unat (gc_num_residual_layers (en_global enf)). dc_quant_matrix_coeffs dcf (plane, LOQ_LEVEL_2, layer) = en_quant_matrix_coeffs enf (plane, LOQ_LEVEL_2, layer)) \<longrightarrow>
      buffer_in_step (plane_sizes (en_dimensions en) plane LOQ_LEVEL_2) (en_previous_residuals en plane) (dc_temporal_buffer dcf plane) \<longrightarrow>
      (\<exists>buf. decode_full_plane c_log True symbolsf plane prediction dcf =
          Inr (reco, dcf\<lparr>dc_temporal_buffer := (dc_temporal_buffer dcf)(plane := buf)\<rparr>) \<and>
        buffer_in_step (plane_sizes (en_dimensions en) plane LOQ_LEVEL_2) (en_previous_residuals en' plane) buf))"
proof -
  from enc obtain src intermediate_src b new base_prediction base_reco en1 symbols1 prediction where
    b: "base_internal (en_global en) base plane = Inr b"
    and p1: "predict (en_global en) LOQ_LEVEL_1 b = Inr base_prediction"
    and enc1: "encode_base_plane c_log plane intermediate_src base_prediction (en\<lparr>en_quant_matrix_coeffs := new\<rparr>) symbols = Inr (base_reco, en1, symbols1)"
    and p2: "predict (en_global en) LOQ_LEVEL_2 base_reco = Inr prediction"
    and enc2: "encode_full_plane c_log frame_type gop src_image plane src prediction en1 symbols1 = Inr (reco, en', symbols')"
    by (rule encode_planeE)
  obtain next' where en1: "en1 = en\<lparr>en_quant_matrix_coeffs := new, en_random := next'\<rparr>"
    using encode_base_plane_frame(1) [OF enc1] by auto
  note full = encode_full_plane_frame [OF enc2]
  have new: "en_quant_matrix_coeffs en' = new" using full(2) by (simp add: en1)
  have kept: "en_global en' = en_global en" "en_dimensions en' = en_dimensions en" using full(1) by (simp_all add: kept_def en1)
  have enf: "en_global enf = en_global en" "en_dimensions enf = en_dimensions en" "en_picture enf = en_picture en'"
    using final kept by (simp_all add: plane_final_def)
  have view: "base_view (en_picture enf) = base_view (en_picture en)"
    using full(4) next_picture_base_view by (simp add: enf en1)
  have prediction16: "plane16 prediction"
    by (rule predict_plane16 [OF p2 encode_base_plane16 [OF enc1 predict_plane16 [OF p1 base_internal16 [OF b wf]]]])
  have size: "(sf_width prediction, sf_height prediction) = (sf_width reco, sf_height reco)" 
    by (rule encode_full_plane_sizes [OF enc2])
  have pos: "0 < sf_width base_reco" "0 < sf_height base_reco"
    using predict_positive [OF p2] size shown by (simp_all add: shown_plane_def)
  have enhanced: "is_enhanced (en_global en) (en_picture en) plane = is_enhanced (en_global enf) (en_picture enf) plane"
    using base_view_functions(5) [of "en_global en" "en_picture enf"] base_view_functions(5) [of "en_global en" "en_picture en"] view enf(1)
    by simp
  have "decode_base_plane c_log True symbolsf base plane dc = Inr (base_reco, dc\<lparr>dc_quant_matrix_coeffs := coeffs\<rparr>)"
  proof (rule base_plane_in_step [OF enc1, where enf = enf])
    show "same_settings plane LOQ_LEVEL_1 enf (dc\<lparr>dc_quant_matrix_coeffs := coeffs\<rparr>)"
      using dc final agree by (simp add: same_settings_def same_configuration_def plane_final_def)
    show "update_quant_matrix (en_global (en\<lparr>en_quant_matrix_coeffs := new\<rparr>)) (en_picture enf)
        (pc_coding_type (en_picture enf) = CodingType_IDR) plane (dc_quant_matrix_coeffs dc) = Inr coeffs"
      using matrices by (simp add: enf)
  qed (use b p1 p2 pos view enf final fits enhanced full(3) in \<open>simp_all add: plane_final_def plane_fits_def new\<close>)
  moreover have "\<exists>buf. decode_full_plane c_log True symbolsf plane prediction dcf =
          Inr (reco, dcf\<lparr>dc_temporal_buffer := (dc_temporal_buffer dcf)(plane := buf)\<rparr>) \<and>
        buffer_in_step (plane_sizes (en_dimensions en) plane LOQ_LEVEL_2) (en_previous_residuals en' plane) buf"
    if dcf: "same_configuration enf dcf"
      "\<forall>layer < unat (gc_num_residual_layers (en_global enf)). dc_quant_matrix_coeffs dcf (plane, LOQ_LEVEL_2, layer) = en_quant_matrix_coeffs enf (plane, LOQ_LEVEL_2, layer)"
      "buffer_in_step (plane_sizes (en_dimensions en) plane LOQ_LEVEL_2) (en_previous_residuals en plane) (dc_temporal_buffer dcf plane)" for dcf
  proof -
    have symbols: "decode_full_plane c_log True symbolsf plane = decode_full_plane c_log True symbols' plane"
      using final by (intro decode_full_plane_cong) (simp add: plane_final_def)
    have "\<exists>buf. decode_full_plane c_log True symbols' plane prediction dcf =
          Inr (reco, dcf\<lparr>dc_temporal_buffer := (dc_temporal_buffer dcf)(plane := buf)\<rparr>) \<and>
        buffer_in_step (plane_sizes (en_dimensions en1) plane LOQ_LEVEL_2) (en_previous_residuals en' plane) buf"
    proof (rule full_plane_in_step [OF enc2])
      show "same_settings plane LOQ_LEVEL_2 en' dcf"
        using dcf final kept by (simp add: same_settings_def same_configuration_def plane_final_def)
      show "layers_fit c_log plane LOQ_LEVEL_2 en' symbols'" if "is_enhanced (en_global en1) (en_picture en1) plane"
        using that fits enhanced final layers_fit_cong [of enf en' plane LOQ_LEVEL_2 symbolsf symbols']
        by (simp add: plane_fits_def plane_final_def en1)
      show "gc_temporal_enabled (en_global en1) \<noteq> 0 \<and> en_previous_residuals en1 plane \<noteq> None"
        if "pc_temporal_signalling_present (en_picture en1)" "is_enhanced (en_global en1) (en_picture en1) plane"
        using that history by (simp add: en1 history_sent_def is_enhanced_def)
      show "plane16 reco" by (rule encode_full_plane16 [OF enc2 prediction16])
    qed (use dcf fits shown in \<open>simp_all add: plane_fits_def shown_plane_def enf en1\<close>)
    then show ?thesis by (simp add: symbols en1)
  qed
  ultimately show ?thesis using p2 by blast
qed

section \<open>The planes of a picture\<close>

lemma kept_by_others:
  assumes "\<And>k p. k < n \<Longrightarrow> p \<noteq> k \<Longrightarrow> F (Suc k) p = F k p"
  shows "m \<le> n \<Longrightarrow> m \<le> p \<Longrightarrow> F m p = F 0 p" and "p < m \<Longrightarrow> m \<le> n \<Longrightarrow> F m p = F (Suc p) p"
proof -
  show "F m p = F 0 p" if "m \<le> n" "m \<le> p"
    using that assms by (induction m) auto
  show "F m p = F (Suc p) p" if "p < m" "m \<le> n"
    using that assms by (induction m) (auto simp: less_Suc_eq)
qed

lemma next_picture_cong: "en_picture en' = en_picture en \<Longrightarrow> en_config en' = en_config en \<Longrightarrow> en_global en' = en_global en \<Longrightarrow>
    is_intra_frame frame_type \<or> en_last_idr_frame_num en' = en_last_idr_frame_num en \<Longrightarrow>
    next_picture frame_type gop fresh en' = next_picture frame_type gop fresh en"
  by (auto simp: next_picture_def Let_def cong: if_cong)

lemma next_fresh_cong: "base_view (en_picture en') = base_view (en_picture en) \<Longrightarrow> en_global en' = en_global en \<Longrightarrow>
    next_fresh frame_type fresh en' = next_fresh frame_type fresh en"
  by (metis next_fresh_def base_view_fields(1))

lemma encode_trace:
  fixes E :: "nat \<Rightarrow> encoder"
  assumes steps: "\<forall>k < n. encode_plane c_log frame_type is_idr gop src_image intermediate base k (E k) (S k) = Inr (r k, E (Suc k), S (Suc k))"
    and uniform: "\<forall>p < unat (gc_num_processed_planes (en_global (E 0))). (en_previous_residuals (E 0) p = None) = fresh"
    and start: "history_sent fresh (E 0)"
  shows "k \<le> n \<Longrightarrow> en_global (E k) = en_global (E 0) \<and> en_dimensions (E k) = en_dimensions (E 0)"
    and "k < n \<Longrightarrow> plane_final k (E (Suc k)) (S (Suc k)) (E n) (S n)"
    and "k < n \<Longrightarrow> k < unat (gc_num_processed_planes (en_global (E k))) \<longrightarrow> history_sent (en_previous_residuals (E k) k = None) (E k)"
    and "k < n \<Longrightarrow> k < unat (gc_num_processed_planes (en_global (E 0))) \<Longrightarrow>
      (en_previous_residuals (E n) k = None) = next_fresh frame_type fresh (E 0)"
    and "k < n \<Longrightarrow> en_previous_residuals (E k) k = en_previous_residuals (E 0) k \<and> en_previous_residuals (E n) k = en_previous_residuals (E (Suc k)) k"
    and "n \<le> p \<Longrightarrow> en_previous_residuals (E n) p = en_previous_residuals (E 0) p"
    and "base_view (en_picture (E n)) = base_view (en_picture (E 0))"
    and "k < n \<Longrightarrow> update_quant_matrix (en_global (E n)) (en_picture (E n)) is_idr k (en_quant_matrix_coeffs (E k)) =
      Inr (en_quant_matrix_coeffs (E (Suc k)))"
proof -
  let ?P = "unat (gc_num_processed_planes (en_global (E 0)))" and ?next = "next_picture frame_type gop fresh"
  note frame = encode_plane_frame [OF steps [rule_format]]
  have const: "en_config (E k) = en_config (E 0) \<and> en_global (E k) = en_global (E 0) \<and> en_dimensions (E k) = en_dimensions (E 0)"
    if "k \<le> n" for k
    using that by (induction k) (use frame(1) in \<open>simp_all add: kept_def\<close>)
  note previous = kept_by_others [where F = "\<lambda>k. en_previous_residuals (E k)" and n = n]
  have prev: "en_previous_residuals (E m) p = en_previous_residuals (E 0) p" if "m \<le> n" "m \<le> p" for m p
    by (rule previous(1) [OF _ that]) (use frame(1) in \<open>simp add: kept_def\<close>)
  have prev': "en_previous_residuals (E n) p = en_previous_residuals (E (Suc p)) p" if "p < n" for p
    by (rule previous(2) [OF _ that]) (use frame(1) in \<open>simp_all add: kept_def\<close>)
  have fresh: "(en_previous_residuals (E k) k = None) = fresh" if "k < n" "k < ?P" for k
    using prev [of k k] uniform that by simp
  have step: "en_picture (E (Suc k)) = (if k < ?P then ?next (E k) else en_picture (E k))" if "k < n" for k
    using frame(3) [OF that] fresh that const [of k] by auto
  have inv: "history_sent fresh (E k) \<and> (0 < k \<and> 0 < ?P \<longrightarrow> ?next (E k) = en_picture (E k)) \<and>
      base_view (en_picture (E k)) = base_view (en_picture (E 0))" if "k \<le> n" for k
    using that
  proof (induction k)
    case 0
    then show ?case using start by simp
  next
    case (Suc k)
    then have k: "k < n" by simp
    have same: "en_config (E (Suc k)) = en_config (E k)" "en_global (E (Suc k)) = en_global (E k)"
      using const [of k] const [of "Suc k"] Suc.prems by simp_all
    show ?case
    proof (cases "k < ?P")
      case True
      then have "en_picture (E (Suc k)) = ?next (E k)" using step [OF k] by simp
      moreover from next_picture_settled [OF this same frame(4) [OF k]] have "?next (E (Suc k)) = en_picture (E (Suc k))" .
      ultimately show ?thesis using Suc.IH k next_picture_history [OF _ _ same(2)] next_picture_base_view by simp
    next
      case False
      then have eq: "en_picture (E (Suc k)) = en_picture (E k)" using step [OF k] by simp
      have "?next (E (Suc k)) = ?next (E k)" by (rule next_picture_cong [OF eq same frame(4) [OF k]])
      moreover have "history_sent fresh (E (Suc k)) = history_sent fresh (E k)" by (simp add: history_sent_def eq same(2))
      ultimately show ?thesis using Suc.IH k False eq by (cases "k = 0") auto
    qed
  qed
  have "en_picture (E (Suc k)) = en_picture (E k)" if "0 < k" "k < n" for k
    using step [OF that(2)] inv [of k] that by auto
  then have settled: "en_picture (E m) = en_picture (E (Suc k))" if "k < m" "m \<le> n" for m k
    using that by (induction m) (auto simp: less_Suc_eq)
  show "en_global (E k) = en_global (E 0) \<and> en_dimensions (E k) = en_dimensions (E 0)" if "k \<le> n" using const [OF that] by simp
  show "plane_final k (E (Suc k)) (S (Suc k)) (E n) (S n)" if k: "k < n"
  proof -
    have "(\<lambda>(l, layer). en_quant_matrix_coeffs (E n) (k, l, layer)) = (\<lambda>(l, layer). en_quant_matrix_coeffs (E (Suc k)) (k, l, layer))"
      by (rule kept_by_others(2) [where F = "\<lambda>j p. \<lambda>(l, layer). en_quant_matrix_coeffs (E j) (p, l, layer)" and n = n, OF _ k])
        (use frame(1) in \<open>simp_all add: kept_def fun_eq_iff\<close>)
    moreover have "(\<lambda>(l, layer). S n (k, l, layer)) = (\<lambda>(l, layer). S (Suc k) (k, l, layer))"
      by (rule kept_by_others(2) [where F = "\<lambda>j p. \<lambda>(l, layer). S j (p, l, layer)" and n = n, OF _ k])
        (use frame(2) in \<open>simp_all add: fun_eq_iff\<close>)
    ultimately show ?thesis
      using const [of n] const [of "Suc k"] settled [OF k] k by (simp add: plane_final_def fun_eq_iff)
  qed
  show "k < unat (gc_num_processed_planes (en_global (E k))) \<longrightarrow> history_sent (en_previous_residuals (E k) k = None) (E k)" if "k < n"
    using inv [of k] fresh [of k] const [of k] that by simp
  show "(en_previous_residuals (E n) k = None) = next_fresh frame_type fresh (E 0)" if "k < n" "k < ?P"
    using frame(5) [OF that(1)] inv [of k] fresh [OF that] const [of k] that prev' [OF that(1)]
      next_fresh_cong [of "E k" "E 0"] by simp
  show "en_previous_residuals (E k) k = en_previous_residuals (E 0) k \<and> en_previous_residuals (E n) k = en_previous_residuals (E (Suc k)) k"
    if "k < n" using prev [of k k] prev' that by simp
  show "en_previous_residuals (E n) p = en_previous_residuals (E 0) p" if "n \<le> p" using prev [of n p] that by simp
  show "base_view (en_picture (E n)) = base_view (en_picture (E 0))" using inv [of n] by simp
  show "update_quant_matrix (en_global (E n)) (en_picture (E n)) is_idr k (en_quant_matrix_coeffs (E k)) = Inr (en_quant_matrix_coeffs (E (Suc k)))"
    if "k < n" using frame(6) [OF that] inv [of k] inv [of n] const [of k] const [of n] that
      base_view_steps(1) [of "en_global (E 0)" "en_picture (E k)"] base_view_steps(1) [of "en_global (E 0)" "en_picture (E n)"] by simp
qed

section \<open>A picture\<close>

lemma start_picture_frame:
  assumes "start_picture frame_type en = Inr en'"
  shows "en_global en' = en_global en" and "en_dimensions en' = en_dimensions en"
    and "en_previous_residuals en' = en_previous_residuals en" and "en_quant_matrix_coeffs en' = en_quant_matrix_coeffs en"
    and "\<not> pc_temporal_signalling_present (en_picture en')"
    and "pc_quant_matrix_mode (en_picture en') = pc_quant_matrix_mode (en_picture en)"
  using assms by (auto simp: start_picture_def update_picture_configuration_in_loop_def Let_def custom_matrices_def split: if_splits quant_matrix.splits)

lemma seed_user_data_frame: "\<exists>next. seed_user_data now en = en\<lparr>en_random := next\<rparr>"
  by (auto simp: seed_user_data_def split: user_data_method.splits intro: exI [of _ "en_random en"])

text \<open>The planes of the encoder as a sequence of states.\<close>

lemma encode_picture_trace:
  assumes "encode_picture c_log now frame_type is_idr gop src_image intermediate base symbols en = Inr (reco, en', symbols')"
  shows "\<exists>E S r. en' = E (length reco) \<and> symbols' = S (length reco) \<and> reco = map r [0..<length reco] \<and>
    (\<forall>k < length reco. encode_plane c_log frame_type is_idr gop src_image intermediate base k (E k) (S k) = Inr (r k, E (Suc k), S (Suc k))) \<and>
    en_global (E 0) = en_global en \<and> en_dimensions (E 0) = en_dimensions en \<and> en_previous_residuals (E 0) = en_previous_residuals en \<and>
    en_quant_matrix_coeffs (E 0) = en_quant_matrix_coeffs en \<and> \<not> pc_temporal_signalling_present (en_picture (E 0)) \<and>
    pc_quant_matrix_mode (en_picture (E 0)) = pc_quant_matrix_mode (en_picture en)"
proof -
  let ?step = "\<lambda>k (en, symbols). encode_plane c_log frame_type is_idr gop src_image intermediate base k en symbols"
  have body: "(\<lambda>plane (reco, en, symbols). rbind (encode_plane c_log frame_type is_idr gop src_image intermediate base plane en symbols)
        (\<lambda>(s, en, symbols). Inr (reco @ [s], en, symbols))) = (\<lambda>k (xs, s). rbind (?step k s) (\<lambda>(x, s). Inr (xs @ [x], s)))"
    by (auto simp: fun_eq_iff split: prod.splits intro!: rbind_cong)
  obtain en0 n where en0: "start_picture frame_type en = Inr en0"
    and planes: "fold_result (\<lambda>k (xs, s). rbind (?step k s) (\<lambda>(x, s). Inr (xs @ [x], s))) [0..<n] ([], seed_user_data now en0, symbols) =
      Inr (reco, en', symbols')"
    using assms unfolding encode_picture_def body by auto
  obtain states outs where states: "states 0 = (seed_user_data now en0, symbols)" "states n = (en', symbols')" "reco = map outs [0..<n]"
    "trace ?step n states outs"
    using collect_sound [OF planes] by auto
  obtain next' where seed: "seed_user_data now en0 = en0\<lparr>en_random := next'\<rparr>" using seed_user_data_frame by blast
  have n: "n = length reco" by (simp add: states(3))
  have "encode_plane c_log frame_type is_idr gop src_image intermediate base k (fst (states k)) (snd (states k)) =
      Inr (outs k, fst (states (Suc k)), snd (states (Suc k)))" if "k < n" for k
    using states(4) that by (auto simp: trace_def split: prod.splits)
  with states seed start_picture_frame [OF en0] show ?thesis
    unfolding n [symmetric] by (intro exI [of _ "fst \<circ> states"] exI [of _ "snd \<circ> states"] exI [of _ outs]) simp
qed

text \<open>
  What the two stages of the decoder do with a plane: the first sub-layer takes it from a state to the
  next, the second finds the reconstruction whatever was done to the buffers of other planes.
\<close>

definition plane_decodes ::
  "(int \<Rightarrow> rat) \<Rightarrow> layer_surfaces \<Rightarrow> image \<Rightarrow> encoder \<Rightarrow> encoder \<Rightarrow> nat \<Rightarrow> decoder \<Rightarrow> decoder \<Rightarrow> int surface \<Rightarrow> int surface \<times> int surface \<Rightarrow> bool"
  where
  "plane_decodes c_log symbols base en en' plane dc dc' reco bu \<longleftrightarrow>
     decode_base_plane c_log True symbols base plane dc = Inr (fst bu, dc') \<and>
     predict (en_global en') LOQ_LEVEL_2 (fst bu) = Inr (snd bu) \<and>
     (\<forall>dcf. same_configuration en' dcf \<longrightarrow>
        (\<forall>layer < unat (gc_num_residual_layers (en_global en')).
          dc_quant_matrix_coeffs dcf (plane, LOQ_LEVEL_2, layer) = en_quant_matrix_coeffs en' (plane, LOQ_LEVEL_2, layer)) \<longrightarrow>
        buffer_in_step (plane_sizes (en_dimensions en') plane LOQ_LEVEL_2) (en_previous_residuals en plane) (dc_temporal_buffer dcf plane) \<longrightarrow>
        (\<exists>buf. decode_full_plane c_log True symbols plane (snd bu) dcf =
            Inr (reco, dcf\<lparr>dc_temporal_buffer := (dc_temporal_buffer dcf)(plane := buf)\<rparr>) \<and>
          buffer_in_step (plane_sizes (en_dimensions en') plane LOQ_LEVEL_2) (en_previous_residuals en' plane) buf))"

lemma full_planes_in_step:
  assumes planes: "\<And>k. k < n \<Longrightarrow> plane_decodes c_log symbols base en en' k (D k) (D (Suc k)) (reco ! k) (f k)"
    and sig: "same_configuration en' dc"
    and quant: "\<forall>k < n. \<forall>layer < unat (gc_num_residual_layers (en_global en')).
      dc_quant_matrix_coeffs dc (k, LOQ_LEVEL_2, layer) = en_quant_matrix_coeffs en' (k, LOQ_LEVEL_2, layer)"
    and buffers: "\<forall>p. buffer_in_step (plane_sizes (en_dimensions en') p LOQ_LEVEL_2) (en_previous_residuals en p) (dc_temporal_buffer dc p)"
    and n: "n \<le> length reco" and others: "\<And>p. n \<le> p \<Longrightarrow> en_previous_residuals en' p = en_previous_residuals en p"
  shows "\<exists>bufs. fold_result (\<lambda>plane (xs, dc). rbind (decode_full_plane c_log True symbols plane (map (\<lambda>k. snd (f k)) [0..<n] ! plane) dc)
      (\<lambda>(s, dc). Inr (xs @ [s], dc))) [0..<n] ([], dc) = Inr (take n reco, dc\<lparr>dc_temporal_buffer := bufs\<rparr>) \<and>
    (\<forall>p. buffer_in_step (plane_sizes (en_dimensions en') p LOQ_LEVEL_2) (en_previous_residuals en' p) (bufs p))"
proof -
  let ?f = "\<lambda>plane (xs, dc). rbind (decode_full_plane c_log True symbols plane (map (\<lambda>k. snd (f k)) [0..<n] ! plane) dc)
      (\<lambda>(s, dc). Inr (xs @ [s], dc))"
  let ?in_step = "\<lambda>p. buffer_in_step (plane_sizes (en_dimensions en') p LOQ_LEVEL_2)"
  have "\<exists>bufs. fold_result ?f [0..<m] ([], dc) = Inr (take m reco, dc\<lparr>dc_temporal_buffer := bufs\<rparr>) \<and>
      (\<forall>p. ?in_step p (en_previous_residuals (if p < m then en' else en) p) (bufs p))" if "m \<le> n" for m
    using that
  proof (induction m)
    case 0
    show ?case using buffers by (intro exI [of _ "dc_temporal_buffer dc"]) simp
  next
    case (Suc m)
    then obtain bufs where bufs: "fold_result ?f [0..<m] ([], dc) = Inr (take m reco, dc\<lparr>dc_temporal_buffer := bufs\<rparr>)"
      "\<forall>p. ?in_step p (en_previous_residuals (if p < m then en' else en) p) (bufs p)" by auto
    let ?dc = "dc\<lparr>dc_temporal_buffer := bufs\<rparr>"
    have m: "m < n" using Suc.prems by simp
    have "same_configuration en' ?dc" "\<forall>layer < unat (gc_num_residual_layers (en_global en')).
        dc_quant_matrix_coeffs ?dc (m, LOQ_LEVEL_2, layer) = en_quant_matrix_coeffs en' (m, LOQ_LEVEL_2, layer)"
      "?in_step m (en_previous_residuals en m) (dc_temporal_buffer ?dc m)"
      using sig quant m bufs(2) [rule_format, of m] by (simp_all add: same_configuration_def)
    then obtain buf where "decode_full_plane c_log True symbols m (snd (f m)) ?dc = Inr (reco ! m, ?dc\<lparr>dc_temporal_buffer := bufs(m := buf)\<rparr>)"
      "?in_step m (en_previous_residuals en' m) buf"
      using planes [OF m] unfolding plane_decodes_def by fastforce
    with bufs m n show ?case
      by (intro exI [of _ "bufs(m := buf)"] conjI) (simp add: fold_result_snoc take_Suc_conv_app_nth fun_upd_def, auto simp: less_Suc_eq)
  qed
  from this [of n] obtain bufs where "fold_result ?f [0..<n] ([], dc) = Inr (take n reco, dc\<lparr>dc_temporal_buffer := bufs\<rparr>)"
    "\<forall>p. ?in_step p (en_previous_residuals (if p < n then en' else en) p) (bufs p)" by auto
  moreover have "en_previous_residuals (if p < n then en' else en) p = en_previous_residuals en' p" for p
    using others by simp
  ultimately show ?thesis by (intro exI [of _ bufs]) simp
qed

lemma decode_planes_in_step:
  assumes planes: "\<And>k. k < length reco \<Longrightarrow> plane_decodes c_log symbols base en en' k (D k) (D (Suc k)) (reco ! k) (f k)"
    and D: "D 0 = dc" "D (length reco) = dc\<lparr>dc_quant_matrix_coeffs := quant\<rparr>" and sig: "same_configuration en' dc"
    and quant: "\<forall>k < length reco. \<forall>layer < unat (gc_num_residual_layers (en_global en')).
      quant (k, LOQ_LEVEL_2, layer) = en_quant_matrix_coeffs en' (k, LOQ_LEVEL_2, layer)"
    and ready: "matrices_ready (en_global en') (en_picture en') (en_quant_matrix_coeffs en')" "matrices_ready (en_global en') (en_picture en') quant"
    and buffers: "\<forall>p. buffer_in_step (plane_sizes (en_dimensions en') p LOQ_LEVEL_2) (en_previous_residuals en p) (dc_temporal_buffer dc p)"
    and others: "\<And>p. length reco \<le> p \<Longrightarrow> en_previous_residuals en' p = en_previous_residuals en p"
  shows "\<exists>dc'. decode_planes c_log True symbols base (length reco) dc = Inr (reco, dc') \<and> in_step en' dc' \<and>
    dc_configuration dc' = dc_configuration dc \<and> dc_dimensions dc' = dc_dimensions dc"
proof -
  let ?n = "length reco" and ?dc = "dc\<lparr>dc_quant_matrix_coeffs := quant\<rparr>"
  have first: "fold_result (\<lambda>plane (reco, dc). rbind (decode_base_plane c_log True symbols base plane dc) (\<lambda>(s, dc). Inr (reco @ [s], dc)))
      [0..<?n] ([], dc) = Inr (map (\<lambda>k. fst (f k)) [0..<?n], ?dc)"
    using collect_complete [of "decode_base_plane c_log True symbols base" ?n D "\<lambda>k. fst (f k)"] planes
    by (simp add: trace_def plane_decodes_def D)
  have upsampled: "map_result (predict (sg_global_configuration (dc_configuration ?dc)) LOQ_LEVEL_2) (map (\<lambda>k. fst (f k)) [0..<?n]) =
      Inr (map (\<lambda>k. snd (f k)) [0..<?n])"
    unfolding map_result_map by (rule map_result_total) (use planes sig in \<open>simp add: same_configuration_def plane_decodes_def\<close>)
  obtain bufs where bufs: "fold_result (\<lambda>plane (xs, dc). rbind (decode_full_plane c_log True symbols plane (map (\<lambda>k. snd (f k)) [0..<?n] ! plane) dc)
      (\<lambda>(s, dc). Inr (xs @ [s], dc))) [0..<?n] ([], ?dc) = Inr (take ?n reco, ?dc\<lparr>dc_temporal_buffer := bufs\<rparr>)"
    "\<forall>p. buffer_in_step (plane_sizes (en_dimensions en') p LOQ_LEVEL_2) (en_previous_residuals en' p) (bufs p)"
    using full_planes_in_step [where dc = ?dc and n = ?n, OF planes _ _ _ _ others] sig quant buffers by (auto simp: same_configuration_def)
  with first upsampled show ?thesis
    by (intro exI [of _ "?dc\<lparr>dc_temporal_buffer := bufs\<rparr>"]) (simp add: decode_planes_def in_step_def ready)
qed

lemma picture_in_step:
  assumes enc: "encode_picture c_log now frame_type is_idr gop src_image intermediate base symbols en = Inr (reco, en', symbols')"
    and dc: "same_configuration en' dc" "in_step en dc" and uniform: "uniform_history en"
    and planes: "\<And>plane. plane < length reco \<Longrightarrow> plane_fits c_log en' symbols' plane \<and> shown_plane en' plane (reco ! plane)"
    and wf: "list_all plane_wf (im_planes base)" and enough: "unat (gc_num_processed_planes (en_global en)) \<le> length reco"
  shows "\<exists>dc'. decode_planes c_log True symbols' base (length reco) dc = Inr (reco, dc') \<and> in_step en' dc' \<and> uniform_history en' \<and>
    dc_configuration dc' = dc_configuration dc \<and> dc_dimensions dc' = dc_dimensions dc"
proof -
  let ?n = "length reco" and ?fresh = "en_previous_residuals en 0 = None"
  from encode_picture_trace [OF enc] obtain E S r where final: "en' = E ?n" "symbols' = S ?n" "reco = map r [0..<?n]"
    and steps: "\<forall>k < ?n. encode_plane c_log frame_type is_idr gop src_image intermediate base k (E k) (S k) = Inr (r k, E (Suc k), S (Suc k))"
    and start: "en_global (E 0) = en_global en" "en_dimensions (E 0) = en_dimensions en" "en_previous_residuals (E 0) = en_previous_residuals en"
      "en_quant_matrix_coeffs (E 0) = en_quant_matrix_coeffs en" "\<not> pc_temporal_signalling_present (en_picture (E 0))"
      "pc_quant_matrix_mode (en_picture (E 0)) = pc_quant_matrix_mode (en_picture en)"
    by blast
  have fresh: "\<forall>p < unat (gc_num_processed_planes (en_global (E 0))). (en_previous_residuals (E 0) p = None) = ?fresh"
    using uniform unfolding uniform_history_def start .
  have sent: "history_sent ?fresh (E 0)" by (simp add: history_sent_def start)
  note trace = encode_trace [where E = E and fresh = ?fresh, OF steps fresh sent]
  have same: "en_global (E k) = en_global en'" "en_dimensions (E k) = en_dimensions en'" if "k \<le> ?n" for k
    using trace(1) [OF that] trace(1) [of ?n] final(1) by simp_all
  let ?g = "en_global en'" and ?p = "en_picture en'"
  have "pc_quant_matrix_mode ?p = pc_quant_matrix_mode (en_picture en)"
    using base_view_fields(3) [of ?p] base_view_fields(3) [of "en_picture (E 0)"] trace(7) start(6) by (simp add: final(1))
  then have ready: "matrices_ready ?g ?p (en_quant_matrix_coeffs (E 0))" "matrices_ready ?g ?p (dc_quant_matrix_coeffs dc)"
    using dc(2) matrices_ready_mode [of ?p "en_picture en"] same [of 0] by (simp_all add: in_step_def start)
  have "\<forall>k < ?n. update_quant_matrix ?g ?p is_idr k (en_quant_matrix_coeffs (E k)) = Inr (en_quant_matrix_coeffs (E (Suc k)))"
    using trace(8) by (simp add: final(1))
  from matrices_trace [where C = "\<lambda>k. en_quant_matrix_coeffs (E k)", OF this ready, of "pc_coding_type ?p = CodingType_IDR"] obtain Q where
    Q: "Q 0 = dc_quant_matrix_coeffs dc" "matrices_ready ?g ?p (en_quant_matrix_coeffs (E ?n))" "matrices_ready ?g ?p (Q ?n)"
    and update: "\<And>k. k < ?n \<Longrightarrow> update_quant_matrix ?g ?p (pc_coding_type ?p = CodingType_IDR) k (Q k) = Inr (Q (Suc k))"
    and agree: "\<And>k. k < ?n \<Longrightarrow> \<forall>loq < 2. \<forall>layer < unat (gc_num_residual_layers ?g).
        Q (Suc k) (k, loq, layer) = en_quant_matrix_coeffs (E (Suc k)) (k, loq, layer) \<and> Q ?n (k, loq, layer) = en_quant_matrix_coeffs (E ?n) (k, loq, layer)"
    by blast
  let ?D = "\<lambda>k. dc\<lparr>dc_quant_matrix_coeffs := Q k\<rparr>"
  have "\<exists>bu. plane_decodes c_log symbols' base en en' k (?D k) (?D (Suc k)) (reco ! k) bu" if k: "k < ?n" for k
  proof -
    have prev: "en_previous_residuals (E k) k = en_previous_residuals en k" "en_previous_residuals en' k = en_previous_residuals (E (Suc k)) k"
      using trace(5) [OF k] by (simp_all add: start final(1))
    have fin: "plane_final k (E (Suc k)) (S (Suc k)) en' symbols'" using trace(2) [OF k] final by simp
    have sig: "same_configuration en' (?D k)" using dc(1) by (simp add: same_configuration_def)
    have matrices: "update_quant_matrix ?g ?p (pc_coding_type ?p = CodingType_IDR) k (dc_quant_matrix_coeffs (?D k)) = Inr (Q (Suc k))"
      "\<forall>loq < 2. \<forall>layer < unat (gc_num_residual_layers ?g). Q (Suc k) (k, loq, layer) = en_quant_matrix_coeffs (E (Suc k)) (k, loq, layer)"
      using update [OF k] agree [OF k] by simp_all
    have r: "r k = reco ! k" using k by (subst final(3)) simp
    have "plane_fits c_log en' symbols' k" "shown_plane en' k (r k)" using planes [OF k] r by simp_all
    from decoded_plane [OF steps [rule_format, OF k] fin sig matrices this wf trace(3) [OF k]] obtain b u where
      "plane_decodes c_log symbols' base en en' k (?D k) (?D (Suc k)) (reco ! k) (b, u)"
      unfolding plane_decodes_def prev r using same [of k] k by (elim exE conjE) simp
    then show ?thesis ..
  qed
  then obtain f where f: "plane_decodes c_log symbols' base en en' k (?D k) (?D (Suc k)) (reco ! k) (f k)" if "k < ?n" for k
    by metis
  have "\<exists>dc'. decode_planes c_log True symbols' base ?n dc = Inr (reco, dc') \<and> in_step en' dc' \<and>
      dc_configuration dc' = dc_configuration dc \<and> dc_dimensions dc' = dc_dimensions dc"
    by (rule decode_planes_in_step [where D = ?D and quant = "Q ?n", OF f])
      (use dc same [of 0] trace(6) Q agree in \<open>simp_all add: in_step_def start final(1)\<close>)
  moreover have "uniform_history en'"
  proof -
    have "(en_previous_residuals en' p = None) = next_fresh frame_type ?fresh (E 0)" if "p < unat (gc_num_processed_planes (en_global en'))" for p
      using trace(4) [of p] that enough same [of 0] by (simp add: start final(1))
    then show ?thesis unfolding uniform_history_def by (metis gr_implies_not0 not_gr_zero)
  qed
  ultimately show ?thesis by blast
qed

end
