(* ===== verification/DecoderView.thy ===== *)
theory DecoderView
  imports ClosedPicture ConfigRoundtrip
begin

text \<open>
  What the decoder reads of a picture configuration. The fields that no packet carries, those a packet
  leaves out because nothing uses them, and the coding type, which comes with the access unit and not
  with the packet, make no difference to the planes it computes.
\<close>

section \<open>The fields that are read\<close>

definition decoder_view :: "nat \<Rightarrow> picture_configuration \<Rightarrow> picture_configuration" where
  "decoder_view n p = p
    \<lparr>pc_picture_type := PictureType_Frame, pc_field_type := FieldType_Top, pc_coding_type := CodingType_NonIDR,
     pc_step_width_loq_orig := [], pc_dithering_control := False, pc_dithering_type := Dithering_None,
     pc_dithering_strength := 0,
     pc_dequant_offset_mode := (if pc_dequant_offset_signalled p then pc_dequant_offset_mode p else DequantOffset_Default),
     pc_dequant_offset := (if pc_dequant_offset_signalled p then pc_dequant_offset p else 0),
     pc_qm_coefficient_2 := (if level2_custom (pc_quant_matrix_mode p) then take n (pc_qm_coefficient_2 p) else []),
     pc_qm_coefficient_1 := (if level1_custom (pc_quant_matrix_mode p) then take n (pc_qm_coefficient_1 p) else []),
     pc_qm_coefficient_2_mem := [], pc_qm_coefficient_1_mem := [], pc_qm_coefficient_2_par := [],
     pc_qm_coefficient_1_par := []\<rparr>"

lemma decoder_view_fields [simp]:
  "pc_enhancement_enabled (decoder_view n p) = pc_enhancement_enabled p"
  "pc_temporal_refresh (decoder_view n p) = pc_temporal_refresh p"
  "pc_temporal_signalling_present (decoder_view n p) = pc_temporal_signalling_present p"
  "pc_step_width_loq (decoder_view n p) = pc_step_width_loq p"
  "pc_dequant_offset_signalled (decoder_view n p) = pc_dequant_offset_signalled p"
  "pc_level_1_filtering_enabled (decoder_view n p) = pc_level_1_filtering_enabled p"
  "pc_quant_matrix_mode (decoder_view n p) = pc_quant_matrix_mode p"
  "pc_dequant_offset_signalled p \<Longrightarrow> pc_dequant_offset_mode (decoder_view n p) = pc_dequant_offset_mode p"
  "pc_dequant_offset_signalled p \<Longrightarrow> pc_dequant_offset (decoder_view n p) = pc_dequant_offset p"
  by (simp_all add: decoder_view_def)

text \<open>A picture block with enhancement brings all of them.\<close>

lemma view_received:
  assumes "pc_enhancement_enabled p" and "picture_arrays p" and "picture_arrays old" and "unat n \<le> MAX_NUM_LAYERS"
    and "pc_step_width_loq p ! LOQ_LEVEL_1 = 32767 \<Longrightarrow> pc_level_1_filtering_enabled old = pc_level_1_filtering_enabled p"
  shows "decoder_view (unat n) (picture_received n old p) = decoder_view (unat n) p"
  using assms
  by (intro picture_configuration.equality)
    (auto simp: decoder_view_def picture_received_def coefficients_received_def picture_arrays_def)

section \<open>Functions of the fields\<close>

lemma vector_at_take: "layer < n \<Longrightarrow> vector_at (take n xs) layer = vector_at xs layer"
  by (simp add: vector_at_def)

lemma view_matrix_coefficient:
  assumes "layer < n"
  shows "find_quant_matrix_coeff (decoder_view n p) k h loq layer is_idr previous =
    find_quant_matrix_coeff p k h loq layer is_idr previous"
  unfolding find_quant_matrix_coeff_def Let_def
  by (cases "pc_quant_matrix_mode p") (simp_all add: decoder_view_def level2_custom_def level1_custom_def vector_at_take [OF assms])

lemma view_functions:
  "find_invq_offset c_log (decoder_view n p) = find_invq_offset c_log p"
  "find_invq_step_width c_log (decoder_view n p) = find_invq_step_width c_log p"
  "find_invq_applied_offset (decoder_view n p) = find_invq_applied_offset p"
  "is_enhanced g (decoder_view n p) = is_enhanced g p" "deblocked g (decoder_view n p) = deblocked g p"
  "get_temporal_mask g (decoder_view n p) = get_temporal_mask g p"
  "decoder_step_widths g (decoder_view n p) = decoder_step_widths g p"
  unfolding find_invq_offset_def find_invq_step_width_def find_invq_applied_offset_def is_enhanced_def deblocked_def
    get_temporal_mask_def decoder_step_widths_def plane_step_width_def fun_eq_iff decoder_view_fields(1-7)
  by (cases "pc_dequant_offset_signalled p"; simp add: Let_def)+

lemma view_residuals:
  "decoder_residuals c_log g (decoder_view n p) = decoder_residuals c_log g p"
  unfolding decoder_residuals_def all_dequants_def layer_dequant_def view_functions fun_eq_iff by simp

text \<open>The matrices of a plane that are all forgotten are those of an IDR picture.\<close>

lemma fill_matrix_view:
  assumes "decoder_view n p = decoder_view n q" and "layer < n" and "coeffs (plane, loq, layer) = - 1"
  shows "fill_matrix g p a plane (loq, layer) coeffs = fill_matrix g q b plane (loq, layer) coeffs"
proof -
  have "find_quant_matrix_coeff p k h loq layer a (- 1) = find_quant_matrix_coeff q k h loq layer a (- 1)" for k h
    using view_matrix_coefficient [OF assms(2)] assms(1) by metis
  moreover have "find_quant_matrix_coeff q k h loq layer a (- 1) = find_quant_matrix_coeff q k h loq layer b (- 1)" for k h
    by (simp add: find_quant_matrix_coeff_def Let_def split: quant_matrix.split)
  ultimately show ?thesis by (simp add: fill_matrix_def assms(3))
qed

lemma fill_matrices_view:
  assumes "decoder_view n p = decoder_view n q" and "distinct ps" and "\<forall>(loq, layer) \<in> set ps. layer < n \<and> coeffs (plane, loq, layer) = - 1"
  shows "fold_result (fill_matrix g p a plane) ps coeffs = fold_result (fill_matrix g q b plane) ps coeffs"
  using assms(2,3)
proof (induction ps arbitrary: coeffs)
  case (Cons pos ps)
  obtain loq layer where pos: "pos = (loq, layer)" by force
  have step: "fill_matrix g p a plane pos coeffs = fill_matrix g q b plane pos coeffs"
    unfolding pos by (rule fill_matrix_view [OF assms(1)]) (use Cons.prems(2) pos in auto)
  have "fold_result (fill_matrix g p a plane) ps c = fold_result (fill_matrix g q b plane) ps c"
    if "fill_matrix g q b plane pos coeffs = Inr c" for c
    by (rule Cons.IH) (use that Cons.prems pos in \<open>auto simp: fill_matrix_def\<close>)
  then show ?case by (auto simp: step intro!: rbind_cong)
qed simp

lemma update_quant_matrix_view:
  assumes "decoder_view (unat (gc_num_residual_layers g)) p = decoder_view (unat (gc_num_residual_layers g)) q"
    and "\<And>loq layer. coeffs (plane, loq, layer) = - 1"
  shows "update_quant_matrix g p a plane coeffs = update_quant_matrix g q b plane coeffs"
proof -
  have "distinct (List.product [0..<MAX_NUM_LOQS] [0..<unat (gc_num_residual_layers g)])" by (simp add: distinct_product)
  then show ?thesis
    unfolding update_quant_matrix_fill using assms
    by (intro fill_matrices_view [OF assms(1)]) (auto simp: product_concat_map)
qed

section \<open>Planes\<close>

definition with_picture :: "picture_configuration \<Rightarrow> decoder \<Rightarrow> decoder" where
  "with_picture p dc = dc\<lparr>dc_configuration := (dc_configuration dc)\<lparr>sg_picture_configuration := p\<rparr>\<rparr>"

lemma with_picture_simps [simp]:
  "sg_picture_configuration (dc_configuration (with_picture p dc)) = p"
  "sg_global_configuration (dc_configuration (with_picture p dc)) = sg_global_configuration (dc_configuration dc)"
  "dc_dimensions (with_picture p dc) = dc_dimensions dc" "dc_temporal_buffer (with_picture p dc) = dc_temporal_buffer dc"
  "dc_quant_matrix_coeffs (with_picture p dc) = dc_quant_matrix_coeffs dc"
  by (simp_all add: with_picture_def)

text \<open>A loop that collects results, run from two states, one the image of the other.\<close>

lemma collect_image:
  assumes "\<And>k s. k < m \<Longrightarrow> I k s \<Longrightarrow> step k (h s) = rbind (step k s) (\<lambda>(x, s). Inr (x, h s))"
    and "\<And>k s x s'. k < m \<Longrightarrow> I k s \<Longrightarrow> step k s = Inr (x, s') \<Longrightarrow> I (Suc k) s'" and "I 0 s"
  shows "fold_result (\<lambda>k (xs, s). rbind (step k s) (\<lambda>(x, s). Inr (xs @ [x], s))) [0..<m] ([], h s) =
      rbind (fold_result (\<lambda>k (xs, s). rbind (step k s) (\<lambda>(x, s). Inr (xs @ [x], s))) [0..<m] ([], s)) (\<lambda>(xs, s). Inr (xs, h s)) \<and>
    (\<forall>xs t. fold_result (\<lambda>k (xs, s). rbind (step k s) (\<lambda>(x, s). Inr (xs @ [x], s))) [0..<m] ([], s) = Inr (xs, t) \<longrightarrow> I m t)"
  using assms(1,2)
proof (induction m)
  case 0
  then show ?case using assms(3) by simp
next
  case (Suc m)
  let ?run = "fold_result (\<lambda>k (xs, s). rbind (step k s) (\<lambda>(x, s). Inr (xs @ [x], s))) [0..<m] ([], s)"
  have IH: "fold_result (\<lambda>k (xs, s). rbind (step k s) (\<lambda>(x, s). Inr (xs @ [x], s))) [0..<m] ([], h s) =
      rbind ?run (\<lambda>(xs, s). Inr (xs, h s))" "\<forall>xs t. ?run = Inr (xs, t) \<longrightarrow> I m t"
    using Suc by (simp_all add: less_Suc_eq)
  show ?case
  proof (cases ?run)
    case (Inr r)
    obtain xs t where r: "r = (xs, t)" by force
    have "I m t" using IH(2) Inr r by blast
    have run: "?run = Inr (xs, t)" and
      run_h: "fold_result (\<lambda>k (xs, s). rbind (step k s) (\<lambda>(x, s). Inr (xs @ [x], s))) [0..<m] ([], h s) = Inr (xs, h t)"
      using IH(1) by (simp_all add: Inr r)
    from \<open>I m t\<close> show ?thesis
      using Suc.prems(1) [of m t] Suc.prems(2) [of m t] by (cases "step m t") (auto simp: fold_result_snoc run run_h)
  qed (simp add: fold_result_snoc IH(1))
qed

definition reads_alike :: "picture_configuration \<Rightarrow> global_configuration \<Rightarrow> decoder \<Rightarrow> bool" where
  "reads_alike p g dc \<longleftrightarrow> sg_global_configuration (dc_configuration dc) = g \<and>
     decoder_view (unat (gc_num_residual_layers g)) p =
     decoder_view (unat (gc_num_residual_layers g)) (sg_picture_configuration (dc_configuration dc))"

lemma alike_functions:
  assumes "reads_alike p g dc"
  shows "is_enhanced g' p = is_enhanced g' (sg_picture_configuration (dc_configuration dc))"
    "deblocked g' p = deblocked g' (sg_picture_configuration (dc_configuration dc))"
    "get_temporal_mask g' p = get_temporal_mask g' (sg_picture_configuration (dc_configuration dc))"
    "decoder_residuals c_log g' p = decoder_residuals c_log g' (sg_picture_configuration (dc_configuration dc))"
  using assms view_functions(4-6) view_residuals unfolding reads_alike_def by metis+

lemma base_plane_alike:
  assumes "reads_alike p g dc" and "\<And>loq layer. dc_quant_matrix_coeffs dc (plane, loq, layer) = - 1"
  shows "decode_base_plane c_log apply_enhancement symbols base plane (with_picture p dc) =
    rbind (decode_base_plane c_log apply_enhancement symbols base plane dc) (\<lambda>(s, dc). Inr (s, with_picture p dc))"
proof -
  have "update_quant_matrix g p a plane (dc_quant_matrix_coeffs dc) =
      update_quant_matrix g (sg_picture_configuration (dc_configuration dc)) b plane (dc_quant_matrix_coeffs dc)" for a b
    using assms by (intro update_quant_matrix_view) (simp_all add: reads_alike_def)
  then have coeffs: "update_quant_matrix (sg_global_configuration (dc_configuration dc)) p a plane (dc_quant_matrix_coeffs dc) =
      update_quant_matrix (sg_global_configuration (dc_configuration dc)) (sg_picture_configuration (dc_configuration dc)) b plane
        (dc_quant_matrix_coeffs dc)" for a b
    using assms(1) by (simp add: reads_alike_def)
  have update: "with_picture p dc\<lparr>dc_quant_matrix_coeffs := c\<rparr> = with_picture p (dc\<lparr>dc_quant_matrix_coeffs := c\<rparr>)" for c
    by (simp add: with_picture_def)
  show ?thesis
    unfolding decode_base_plane_def Let_def with_picture_simps alike_functions [OF assms(1)]
      coeffs [of _ "pc_coding_type (sg_picture_configuration (dc_configuration dc)) = CodingType_IDR"]
    by (auto simp: rbind_assoc update split_def intro!: rbind_cong)
qed

lemma full_plane_alike:
  assumes "reads_alike p g dc"
  shows "decode_full_plane c_log apply_enhancement symbols plane up (with_picture p dc) =
    rbind (decode_full_plane c_log apply_enhancement symbols plane up dc) (\<lambda>(s, dc). Inr (s, with_picture p dc))"
proof -
  have update: "set_buffer plane s (with_picture p dc) = with_picture p (set_buffer plane s dc)" for s
    by (simp add: set_buffer_def with_picture_def)
  show ?thesis
    unfolding decode_full_plane_def Let_def with_picture_simps alike_functions [OF assms]
    by (auto simp: rbind_assoc update split_def intro!: rbind_cong split: option.split)
qed

lemma decode_planes_alike:
  assumes "decoder_view (unat (gc_num_residual_layers (sg_global_configuration (dc_configuration dc)))) p =
      decoder_view (unat (gc_num_residual_layers (sg_global_configuration (dc_configuration dc)))) (sg_picture_configuration (dc_configuration dc))"
    and "dc_quant_matrix_coeffs dc = (\<lambda>_. - 1)"
  shows "decode_planes c_log apply_enhancement symbols base m (with_picture p dc) =
    rbind (decode_planes c_log apply_enhancement symbols base m dc) (\<lambda>(reco, dc). Inr (reco, with_picture p dc))"
proof -
  let ?g = "sg_global_configuration (dc_configuration dc)"
  let ?B = "\<lambda>k s. decode_base_plane c_log apply_enhancement symbols base k s"
  let ?F = "\<lambda>ups k s. decode_full_plane c_log apply_enhancement symbols k (ups ! k) s"
  let ?loop = "\<lambda>step s. fold_result (\<lambda>k (xs, s). rbind (step k s) (\<lambda>(x, s). Inr (xs @ [x], s))) [0..<m] ([], s)"
  let ?I = "\<lambda>k s. reads_alike p ?g s \<and> (\<forall>plane loq layer. k \<le> plane \<longrightarrow> dc_quant_matrix_coeffs s (plane, loq, layer) = - 1)"
  have frame: "reads_alike p ?g s'" "j \<noteq> k \<Longrightarrow> dc_quant_matrix_coeffs s' (j, loq, layer) = dc_quant_matrix_coeffs s (j, loq, layer)"
    if "?B k s = Inr (x, s')" "reads_alike p ?g s" for k s x s' j loq layer
    using that update_quant_matrix_frame by (auto simp: decode_base_plane_def Let_def reads_alike_def split: if_splits)
  have base: "?loop ?B (with_picture p dc) = rbind (?loop ?B dc) (\<lambda>(xs, s). Inr (xs, with_picture p s)) \<and>
      (\<forall>xs t. ?loop ?B dc = Inr (xs, t) \<longrightarrow> ?I m t)"
  proof (rule collect_image [where I = ?I])
    show "?I 0 dc" using assms by (simp add: reads_alike_def)
    show "?I (Suc k) s'" if "?I k s" "?B k s = Inr (x, s')" for k s x s'
      using frame [OF that(2)] that(1) by (auto simp: Suc_le_eq)
  qed (use base_plane_alike in blast)
  have full: "?loop (?F ups) (with_picture p s) = rbind (?loop (?F ups) s) (\<lambda>(xs, s). Inr (xs, with_picture p s))"
    if "reads_alike p ?g s" for ups s
  proof (rule conjunct1 [OF collect_image [where I = "\<lambda>_. reads_alike p ?g"]])
    show "reads_alike p ?g s'" if "reads_alike p ?g s" "?F ups k s = Inr (x, s')" for k s x s'
      using that by (auto simp: decode_full_plane_def Let_def set_buffer_def reads_alike_def split: if_splits option.splits)
  qed (use that full_plane_alike in blast)+
  show ?thesis
  proof (cases "?loop ?B dc")
    case (Inr r)
    obtain xs t where r: "r = (xs, t)" by force
    then have t: "reads_alike p ?g t" using base Inr by blast
    have "?loop ?B (with_picture p dc) = Inr (xs, with_picture p t)" using base Inr r by simp
    with Inr r show ?thesis by (simp add: decode_planes_def full [OF t] rbind_assoc)
  qed (use base in \<open>simp add: decode_planes_def\<close>)
qed

end
