(* ===== verification/ClosedSession.thy ===== *)
theory ClosedSession
  imports DecoderView
begin

text \<open>
  The closed loop over the pictures of a stream: a packet brings the encoder's final configuration and
  its symbols, and whatever the pictures are, the decoder shows the encoder's reconstructions.
\<close>

section \<open>A packet\<close>

text \<open>
  What \<open>initialize_decode\<close> does to the decoder besides the configuration: it forgets the matrices, and it
  keeps the temporal buffers, or renews them after a global block.
\<close>

text \<open>
  What the packet has to bring: the global configuration, the dimensions, and of the picture
  configuration what the decoder reads (a picture block with enhancement does: \<open>view_received\<close>). The
  coding type, the fields that no packet carries and those that a packet omits may differ.
\<close>

definition signalled :: "encoder \<Rightarrow> decoder \<Rightarrow> bool" where
  "signalled en dc \<longleftrightarrow> sg_global_configuration (dc_configuration dc) = en_global en \<and>
     decoder_view (unat (gc_num_residual_layers (en_global en))) (sg_picture_configuration (dc_configuration dc)) =
     decoder_view (unat (gc_num_residual_layers (en_global en))) (en_picture en) \<and> dc_dimensions dc = en_dimensions en"

definition received :: "encoder \<Rightarrow> decoder \<Rightarrow> decoder \<Rightarrow> bool" where
  "received en dc dc' \<longleftrightarrow> signalled en dc' \<and> dc_quant_matrix_coeffs dc' = (\<lambda>_. -1) \<and>
     (\<forall>plane. dc_temporal_buffer dc' plane = dc_temporal_buffer dc plane \<or>
        dc_temporal_buffer dc' plane = renew_buffer (en_dimensions en) plane (dc_temporal_buffer dc plane))"

lemma matrices_forgotten [simp]: "matrices_ready g p (\<lambda>_. -1)"
  by (simp add: matrices_ready_def)

lemma renewed_in_step:
  "buffer_in_step (plane_sizes d plane LOQ_LEVEL_2) previous buffer \<Longrightarrow>
     buffer_in_step (plane_sizes d plane LOQ_LEVEL_2) previous (renew_buffer d plane buffer)"
  by (auto simp: buffer_in_step_def renew_buffer_def plane_sizes_def Let_def buffer_of_def surface_reserve_def split: option.splits)

lemma received_in_step:
  assumes "in_step en dc" and "received en' dc dc'" and "en_dimensions en' = en_dimensions en"
  shows "in_step en dc'"
  unfolding in_step_def
proof (intro conjI allI)
  show "matrices_ready (en_global en) (en_picture en) (en_quant_matrix_coeffs en)" using assms(1) by (simp add: in_step_def)
  show "matrices_ready (en_global en) (en_picture en) (dc_quant_matrix_coeffs dc')" using assms(2) by (simp add: received_def)
  show "buffer_in_step (plane_sizes (en_dimensions en) plane LOQ_LEVEL_2) (en_previous_residuals en plane) (dc_temporal_buffer dc' plane)" for plane
    using assms renewed_in_step [of "en_dimensions en" plane "en_previous_residuals en plane" "dc_temporal_buffer dc plane"]
    unfolding in_step_def received_def by metis
qed

lemma in_step_initial:
  "en_previous_residuals en = (\<lambda>_. None) \<Longrightarrow> en_quant_matrix_coeffs en = (\<lambda>_. -1) \<Longrightarrow>
   dc_temporal_buffer dc = (\<lambda>_. None) \<Longrightarrow> dc_quant_matrix_coeffs dc = (\<lambda>_. -1) \<Longrightarrow> in_step en dc \<and> uniform_history en"
  by (simp add: in_step_def uniform_history_def buffer_in_step_def)

lemma encode_picture_frame:
  assumes "encode_picture c_log now frame_type is_idr gop src_image intermediate base symbols en = Inr (reco, en', symbols')"
  shows "en_global en' = en_global en \<and> en_dimensions en' = en_dimensions en"
proof -
  obtain E S r where en': "en' = E (length reco)" and start: "en_global (E 0) = en_global en" "en_dimensions (E 0) = en_dimensions en"
    and steps: "\<forall>k < length reco. encode_plane c_log frame_type is_idr gop src_image intermediate base k (E k) (S k) = Inr (r k, E (Suc k), S (Suc k))"
    using encode_picture_trace [OF assms] by (elim exE conjE) (rule that)
  have "en_global (E k) = en_global (E 0) \<and> en_dimensions (E k) = en_dimensions (E 0)" if "k \<le> length reco" for k
    using that
  proof (induction k)
    case (Suc k)
    have "kept k (E k) (E (Suc k))"
      by (rule encode_plane_frame(1) [OF steps [rule_format]]) (use Suc.prems in simp)
    with Suc show ?case by (simp add: kept_def)
  qed simp
  from this [of "length reco"] show ?thesis by (simp add: en' start)
qed

section \<open>Pictures that nothing prevents from being decoded\<close>

definition decodable :: "(int \<Rightarrow> rat) \<Rightarrow> image \<Rightarrow> int surface list \<Rightarrow> encoder \<Rightarrow> layer_surfaces \<Rightarrow> bool" where
  "decodable c_log base reco en symbols \<longleftrightarrow>
     list_all (\<lambda>plane. plane_fits c_log en symbols plane \<and> shown_plane en plane (reco ! plane)) [0..<length reco] \<and>
     list_all plane_wf (im_planes base) \<and> unat (gc_num_processed_planes (en_global en)) \<le> length reco"

lemma picture_received:
  assumes "encode_picture c_log now frame_type is_idr gop src_image intermediate base symbols en = Inr (reco, en', symbols')"
    and "in_step en dc" and "uniform_history en" and "received en' dc dc'" and "decodable c_log base reco en' symbols'"
  shows "\<exists>dc''. decode_planes c_log True symbols' base (length reco) dc' = Inr (reco, dc'') \<and> in_step en' dc'' \<and> uniform_history en'"
proof -
  let ?p = "en_picture en'"
  have brought: "signalled en' dc'" and forgotten: "dc_quant_matrix_coeffs dc' = (\<lambda>_. -1)" using assms(4) by (simp_all add: received_def)
  have "in_step en dc'" by (rule received_in_step [OF assms(2,4) conjunct2 [OF encode_picture_frame [OF assms(1)]]])
  then have "in_step en (with_picture ?p dc')" by (simp add: in_step_def)
  moreover have "same_configuration en' (with_picture ?p dc')" using brought by (simp add: signalled_def same_configuration_def)
  moreover have "en_global en' = en_global en" using encode_picture_frame [OF assms(1)] by simp
  ultimately obtain dc2 where planes: "decode_planes c_log True symbols' base (length reco) (with_picture ?p dc') = Inr (reco, dc2)"
    and step: "in_step en' dc2" "uniform_history en'"
    using picture_in_step [OF assms(1), where dc = "with_picture ?p dc'"] assms(3,5) by (auto simp: decodable_def list_all_iff)
  have "decode_planes c_log True symbols' base (length reco) (with_picture ?p dc') =
      rbind (decode_planes c_log True symbols' base (length reco) dc') (\<lambda>(xs, dc). Inr (xs, with_picture ?p dc))"
    by (rule decode_planes_alike [OF _ forgotten]) (use brought in \<open>simp add: signalled_def\<close>)
  with planes obtain dc'' where "decode_planes c_log True symbols' base (length reco) dc' = Inr (reco, dc'')"
    and "dc2 = with_picture ?p dc''"
    by (cases "decode_planes c_log True symbols' base (length reco) dc'") auto
  with step show ?thesis by (auto simp: in_step_def)
qed

text \<open>
  C1: the closed loop. Where encoder and decoder are in step (same temporal buffers, matrices that give
  the same quantisation) and the packet of a picture, intra or predicted or without enhancement, brings
  what the decoder reads of its final configuration, the decoder computes from the symbols and the base picture exactly the
  planes that the encoder reconstructed, and both are in step for the next picture. The hypotheses are
  that no coefficient wraps around 16 bits in the encoder, that the temporal mask covers the planes and
  that the planes have the signalled sizes.
\<close>

theorem picture_closed_loop:
  assumes "encode_picture c_log now frame_type is_idr gop src_image intermediate base no_symbols en = Inr (reco, en', symbols')"
    and "in_step en dc" and "uniform_history en" and "received en' dc dc'" and "decodable c_log base reco en' symbols'"
  shows "\<exists>dc''. decode_planes c_log True symbols' base (length reco) dc' = Inr (reco, dc'') \<and> in_step en' dc'' \<and> uniform_history en'"
  by (rule picture_received [OF assms])

section \<open>A stream\<close>

text \<open>
  The pictures of a stream, each encoded, sent and decoded: what the encoder reconstructed and what the
  decoder made of it.
\<close>

inductive stream ::
  "(int \<Rightarrow> rat) \<Rightarrow> encoder \<Rightarrow> decoder \<Rightarrow> encoder \<Rightarrow> decoder \<Rightarrow> (int surface list \<times> int surface list) list \<Rightarrow> bool"
  for c_log en0 dc0 where
  stream_start: "stream c_log en0 dc0 en0 dc0 []"
| stream_picture: "stream c_log en0 dc0 en dc shown \<Longrightarrow>
    encode_picture c_log now frame_type is_idr gop src_image intermediate base no_symbols en = Inr (reco, en', symbols) \<Longrightarrow>
    received en' dc dc1 \<Longrightarrow> decodable c_log base reco en' symbols \<Longrightarrow>
    decode_planes c_log True symbols base (length reco) dc1 = Inr (decoded, dc') \<Longrightarrow>
    stream c_log en0 dc0 en' dc' (shown @ [(reco, decoded)])"

lemma stream_in_step:
  assumes "stream c_log en0 dc0 en dc shown" and "in_step en0 dc0" and "uniform_history en0"
  shows "in_step en dc \<and> uniform_history en \<and> list_all (\<lambda>(reco, decoded). reco = decoded) shown"
  using assms
proof (induction rule: stream.induct)
  case (stream_picture en dc shown now frame_type is_idr gop src_image intermediate base reco en' symbols dc1 decoded dc')
  then have "in_step en dc" "uniform_history en" "list_all (\<lambda>(reco, decoded). reco = decoded) shown" by simp_all
  with picture_received [OF stream_picture.hyps(2) _ _ stream_picture.hyps(3,4)] stream_picture.hyps(5) show ?case by auto
qed simp

text \<open>
  C2: the invariant of a stream. However many pictures of whatever kinds a stream has, starting from an
  encoder and a decoder in step the two stay in step, and every picture the decoder made is the
  encoder's reconstruction: no drift accumulates in the temporal buffers.
\<close>

theorem stream_invariant:
  assumes "stream c_log en0 dc0 en dc shown" and "in_step en0 dc0" and "uniform_history en0"
  shows "in_step en dc \<and> uniform_history en \<and> (\<forall>(reco, decoded) \<in> set shown. reco = decoded)"
  using stream_in_step [OF assms] by (simp add: list_all_iff)

section \<open>A stream of one picture\<close>

definition loop_global :: global_configuration where
  "loop_global = sample_global\<lparr>gc_enhancement_depth := 8, gc_image_format := IMAGE_FORMAT_Y8, gc_num_image_planes := 1,
     gc_num_residual_layers := 4, gc_transform_block_size := 2, gc_predicted_residual_enabled := False,
     gc_resolution_height := 2, gc_resolution_width := 2, gc_temporal_tile_intra_signalling_enabled := False,
     gc_scaling_mode := [ScalingMode_None, ScalingMode_None], gc_user_data_enabled := UserData_None\<rparr>"

definition loop_picture :: "bool \<Rightarrow> picture_configuration" where
  "loop_picture sent = (sample_picture True)\<lparr>pc_step_width_loq := [500, 200], pc_step_width_loq_orig := [500, 50000],
     pc_temporal_signalling_present := sent, pc_quant_matrix_mode := QuantMatrix_BothPrevious,
     pc_qm_coefficient_2 := [32, 3, 0, 32], pc_qm_coefficient_1 := [0, 3, 0, 32], pc_qm_coefficient_2_mem := [32, 3, 0, 32],
     pc_qm_coefficient_1_mem := [0, 3, 0, 32]\<rparr>"

definition loop_encoder :: "picture_configuration \<Rightarrow> encoder" where
  "loop_encoder p = \<lparr>en_config = \<lparr>ec_temporal_cq_sw_multiplier = 4, ec_delta_sw_mult_gop08 = 4, ec_delta_sw_mult_gop04 = 4,
       ec_delta_sw_mult_gop02 = 4, ec_delta_sw_mult_gop01 = 4, ec_encoding_mode = ENCODE_ALL, ec_use_priority_map_sl_1 = False,
       ec_use_priority_map_sl_2 = False, ec_priority_type_sl_1 = Smooth, ec_priority_type_sl_2 = Smooth, ec_sad_threshold = 0,
       ec_sad_coeff_threshold = 0, ec_quant_reduced_deadzone = 5, ec_no_enhancement_temporal_layer = False,
       ec_user_data_method = UserDataMethod_Zeros\<rparr>,
     en_configuration = \<lparr>sg_sequence_configuration = sample_sequence 3, sg_global_configuration = loop_global,
       sg_picture_configuration = p, sg_additional_info = \<lparr>ai_additional_info_type = 0, ai_payload_type = 0\<rparr>,
       sg_surface_configuration = (\<lambda>_ _ _. \<lparr>sc_width = 1, sc_height = 1\<rparr>)\<rparr>,
     en_dimensions = \<lparr>dm_plane_width = (\<lambda>_. 2), dm_plane_height = (\<lambda>_. 2), dm_layer_width = (\<lambda>_. 1), dm_layer_height = (\<lambda>_. 1),
       dm_tile_width = (\<lambda>_. 2), dm_tile_height = (\<lambda>_. 2), dm_intermediate_width = 2, dm_intermediate_height = 2,
       dm_base_width = 2, dm_base_height = 2, dm_chroma_scale_width = 1, dm_chroma_scale_height = 1\<rparr>,
     en_previous_residuals = (\<lambda>_. None), en_quant_matrix_coeffs = (\<lambda>_. -1), en_last_idr_frame_num = 0, en_random = 1\<rparr>"

definition loop_image :: "u8 list \<Rightarrow> image" where
  "loop_image ps = \<lparr>im_description = \<lparr>id_format = IMAGE_FORMAT_Y8, id_width = 2, id_height = 2\<rparr>, im_timestamp = 0,
     im_planes = [Plane8 \<lparr>sf_width = 2, sf_height = 2, sf_pixels = ps\<rparr>]\<rparr>"

lemma loop_start: "start_picture BaseFrame_IDR (loop_encoder (loop_picture True)) = Inr (loop_encoder (loop_picture False))"
  by (simp add: start_picture_def loop_encoder_def loop_picture_def loop_global_def sample_global_def sample_picture_def
      update_picture_configuration_in_loop_def vector_at_def is_horizontal_only_def enhancement_needed_def Let_def default_matrix_def
      put_entries_def custom_matrices_def update_picture_def default_qm_coefficient_4x4_def default_qm_coefficient_2x2_def is_intra_frame_def)

lemma loop_plane:
  "case encode_plane (\<lambda>_. 0) BaseFrame_IDR True 0 [loop_image [100, 120, 90, 80]] (loop_image [101, 110, 91, 82])
     (loop_image [98, 104, 92, 85]) 0 (loop_encoder (loop_picture False)) no_symbols of
     Inl _ \<Rightarrow> False
   | Inr (s, en, symbols) \<Rightarrow> sf_width s = 2 \<and> sf_height s = 2 \<and> layers_fit (\<lambda>_. 0) 0 LOQ_LEVEL_1 en symbols \<and>
       layers_fit (\<lambda>_. 0) 0 LOQ_LEVEL_2 en symbols \<and> sf_pixels s = [- 3660, - 1428, - 4742, - 6122]"
  by code_simp

definition loop_decoder :: "encoder \<Rightarrow> decoder" where
  "loop_decoder en = \<lparr>dc_configuration = en_configuration en, dc_dimensions = en_dimensions en,
     dc_temporal_buffer = (\<lambda>_. None), dc_quant_matrix_coeffs = (\<lambda>_. -1)\<rparr>"

abbreviation loop_encoded :: "(int surface list \<times> encoder \<times> layer_surfaces) result" where
  "loop_encoded \<equiv> encode_picture (\<lambda>_. 0) 0 BaseFrame_IDR True 0 [loop_image [100, 120, 90, 80]] (loop_image [101, 110, 91, 82])
     (loop_image [98, 104, 92, 85]) no_symbols (loop_encoder (loop_picture True))"

lemma loop_run:
  obtains s en symbols where "loop_encoded = Inr ([s], en, symbols)" and "decodable (\<lambda>_. 0) (loop_image [98, 104, 92, 85]) [s] en symbols"
    and "sf_pixels s = [- 3660, - 1428, - 4742, - 6122]"
proof -
  obtain s en symbols where run: "encode_plane (\<lambda>_. 0) BaseFrame_IDR True 0 [loop_image [100, 120, 90, 80]] (loop_image [101, 110, 91, 82])
      (loop_image [98, 104, 92, 85]) 0 (loop_encoder (loop_picture False)) no_symbols = Inr (s, en, symbols)"
    and s: "sf_width s = 2" "sf_height s = 2" "sf_pixels s = [- 3660, - 1428, - 4742, - 6122]"
    and fit: "layers_fit (\<lambda>_. 0) 0 LOQ_LEVEL_1 en symbols" "layers_fit (\<lambda>_. 0) 0 LOQ_LEVEL_2 en symbols"
    using loop_plane by (auto split: sum.splits)
  have "seed_user_data 0 (loop_encoder (loop_picture False)) = loop_encoder (loop_picture False)"
    by (simp add: seed_user_data_def loop_encoder_def loop_global_def)
  moreover have "desc_num_planes (im_description (loop_image ps)) = Inr 1" for ps
    by (simp add: loop_image_def) code_simp
  ultimately have encoded: "loop_encoded = Inr ([s], en, symbols)"
    using run by (simp add: encode_picture_def loop_start vector_at_def)
  have kept: "en_global en = loop_global" "en_dimensions en = en_dimensions (loop_encoder (loop_picture False))"
    using encode_plane_frame(1) [OF run] by (simp_all add: kept_def loop_encoder_def)
  have "covers (1, 1) (2, 2)"
    by (auto simp: covers_def intro!: exI [of _ "1 :: nat"])
  then have "decodable (\<lambda>_. 0) (loop_image [98, 104, 92, 85]) [s] en symbols"
    using fit s by (simp add: decodable_def plane_fits_def shown_plane_def maskable_def kept plane_sizes_def frame_mask_def)
      (simp add: loop_encoder_def loop_global_def sample_global_def loop_image_def surface_wf_def)
  from that [OF encoded this s(3)] show ?thesis .
qed

lemma loop_received: "signalled en (loop_decoder en) \<and> received en (loop_decoder en0) (loop_decoder en)"
  by (simp add: signalled_def received_def loop_decoder_def)

lemma loop_in_step: "in_step (loop_encoder p) (loop_decoder en) \<and> uniform_history (loop_encoder p)"
  by (rule in_step_initial) (simp_all add: loop_encoder_def loop_decoder_def)

theorem picture_closed_loop_witness:
  "\<exists>s en symbols dc. loop_encoded = Inr ([s], en, symbols) \<and> sf_pixels s = [- 3660, - 1428, - 4742, - 6122] \<and>
    decode_planes (\<lambda>_. 0) True symbols (loop_image [98, 104, 92, 85]) 1 (loop_decoder en) = Inr ([s], dc)"
proof -
  obtain s en symbols where run: "loop_encoded = Inr ([s], en, symbols)"
    and fit: "decodable (\<lambda>_. 0) (loop_image [98, 104, 92, 85]) [s] en symbols"
    and s: "sf_pixels s = [- 3660, - 1428, - 4742, - 6122]" by (rule loop_run)
  from picture_closed_loop [OF run conjunct1 [OF loop_in_step] conjunct2 [OF loop_in_step] conjunct2 [OF loop_received] fit]
  show ?thesis using run s by auto
qed

theorem stream_invariant_witness:
  "\<exists>s en dc. stream (\<lambda>_. 0) (loop_encoder (loop_picture True)) (loop_decoder (loop_encoder (loop_picture True))) en dc [([s], [s])] \<and>
    sf_pixels s = [- 3660, - 1428, - 4742, - 6122]"
proof -
  let ?en = "loop_encoder (loop_picture True)"
  obtain s en symbols where run: "loop_encoded = Inr ([s], en, symbols)"
    and fit: "decodable (\<lambda>_. 0) (loop_image [98, 104, 92, 85]) [s] en symbols"
    and s: "sf_pixels s = [- 3660, - 1428, - 4742, - 6122]" by (rule loop_run)
  note step = conjunct1 [OF loop_in_step, of "loop_picture True" ?en] conjunct2 [OF loop_in_step, of "loop_picture True"]
  from picture_received [OF run step conjunct2 [OF loop_received] fit] obtain decoded dc where
    decoded: "decode_planes (\<lambda>_. 0) True symbols (loop_image [98, 104, 92, 85]) (length [s]) (loop_decoder en) = Inr (decoded, dc)" by blast
  have "stream (\<lambda>_. 0) ?en (loop_decoder ?en) en dc ([] @ [([s], decoded)])"
    by (rule stream_picture [OF stream_start run conjunct2 [OF loop_received] fit decoded])
  then show ?thesis using stream_invariant [OF _ step, of "\<lambda>_. 0"] s by fastforce
qed

end
