(* ===== verification/RingBuffer.thy ===== *)
theory RingBuffer
  imports Prelude
begin

text \<open>
  util/include/RingBuffer.hpp: a queue of fixed capacity in a vector, between threads. Every operation
  holds the lock from its first test to its last write, except while it waits, so it is one step on
  the state: \<^const>\<open>None\<close> is a call that waits. Whether a wait ends by its timeout is an
  argument.
\<close>

section \<open>The ring\<close>

record 'a ring =
  rg_slots :: "'a list"
  rg_front :: nat
  rg_size :: nat

abbreviation rg_capacity :: "'a ring \<Rightarrow> nat" where
  "rg_capacity r \<equiv> length (rg_slots r)"

text \<open>\<open>blank\<close> is the value of the element type's default constructor.\<close>

definition ring_new :: "'a \<Rightarrow> nat \<Rightarrow> 'a ring" where
  "ring_new blank capacity = \<lparr>rg_slots = replicate capacity blank, rg_front = 0, rg_size = 0\<rparr>"

definition ring_full :: "'a ring \<Rightarrow> bool" where
  "ring_full r \<longleftrightarrow> rg_size r = rg_capacity r"

definition ring_empty :: "'a ring \<Rightarrow> bool" where
  "ring_empty r \<longleftrightarrow> rg_size r = 0"

definition ring_front :: "'a ring \<Rightarrow> 'a result" where
  "ring_front r =
     rbind (assert_that (0 < rg_size r)) (\<lambda>_.
     if rg_front r < rg_capacity r then Inr (rg_slots r ! rg_front r) else Inl UndefinedBehaviour)"

definition ring_pop_front :: "'a \<Rightarrow> 'a ring \<Rightarrow> 'a ring result" where
  "ring_pop_front blank r =
     rbind (assert_that (0 < rg_size r)) (\<lambda>_.
     if rg_front r < rg_capacity r then
       let front = rg_front r + 1 in
       Inr (r\<lparr>rg_slots := (rg_slots r)[rg_front r := blank], rg_size := rg_size r - 1,
              rg_front := if front = rg_capacity r then 0 else front\<rparr>)
     else Inl UndefinedBehaviour)"

definition ring_push_back :: "'a \<Rightarrow> 'a ring \<Rightarrow> 'a ring result" where
  "ring_push_back v r =
     rbind (assert_that (rg_size r \<le> rg_capacity r)) (\<lambda>_.
     let b = rg_front r + rg_size r; b = (if rg_capacity r \<le> b then b - rg_capacity r else b) in
     if b < rg_capacity r then Inr (r\<lparr>rg_slots := (rg_slots r)[b := v], rg_size := rg_size r + 1\<rparr>)
     else Inl UndefinedBehaviour)"

function ring_clear :: "'a \<Rightarrow> 'a ring \<Rightarrow> 'a ring result" where
  "ring_clear blank r =
     (if 0 < rg_size r then
        (case ring_pop_front blank r of Inl e \<Rightarrow> Inl e | Inr r \<Rightarrow> ring_clear blank r)
      else Inr r)"
  by pat_completeness auto
termination
  by (relation "measure (\<lambda>(_, r). rg_size r)") (auto simp: ring_pop_front_def Let_def split: if_splits)

declare ring_clear.simps [simp del]

section \<open>Operations\<close>

definition push :: "'a \<Rightarrow> 'a ring \<Rightarrow> 'a ring run" where
  "push v r = (if ring_full r then None else Some (ring_push_back v r))"

text \<open>The element that had to go, and whether there was space.\<close>

definition push_timeout :: "'a \<Rightarrow> bool \<Rightarrow> 'a \<Rightarrow> 'a ring \<Rightarrow> ('a option \<times> bool \<times> 'a ring) run" where
  "push_timeout blank timeout v r =
     (if ring_full r then
        if timeout then
          Some (rbind (ring_front r) (\<lambda>overflow.
            rbind (ring_pop_front blank r) (\<lambda>r.
            rbind (ring_push_back v r) (\<lambda>r. Inr (Some overflow, False, r)))))
        else None
      else Some (rbind (ring_push_back v r) (\<lambda>r. Inr (None, True, r))))"

definition pop_if :: "'a \<Rightarrow> ('a \<Rightarrow> bool) \<Rightarrow> 'a ring \<Rightarrow> ('a \<times> 'a ring) run" where
  "pop_if blank p r =
     (if ring_empty r then None else
      (case ring_front r of
         Inl e \<Rightarrow> Some (Inl e)
       | Inr v \<Rightarrow> if p v then Some (rbind (ring_pop_front blank r) (\<lambda>r. Inr (v, r))) else None))"

definition pop :: "'a \<Rightarrow> 'a ring \<Rightarrow> ('a \<times> 'a ring) run" where
  "pop blank r =
     (if ring_empty r then None
      else Some (rbind (ring_front r) (\<lambda>v. rbind (ring_pop_front blank r) (\<lambda>r. Inr (v, r)))))"

definition pop_if_timeout :: "'a \<Rightarrow> ('a \<Rightarrow> bool) \<Rightarrow> bool \<Rightarrow> 'a ring \<Rightarrow> ('a option \<times> 'a ring) run" where
  "pop_if_timeout blank p timeout r = (case pop_if blank p r of
     None \<Rightarrow> if timeout then Some (Inr (None, r)) else None
   | Some (Inl e) \<Rightarrow> Some (Inl e)
   | Some (Inr (v, r)) \<Rightarrow> Some (Inr (Some v, r)))"

definition pop_timeout :: "'a \<Rightarrow> bool \<Rightarrow> 'a ring \<Rightarrow> ('a option \<times> 'a ring) run" where
  "pop_timeout blank timeout r = (case pop blank r of
     None \<Rightarrow> if timeout then Some (Inr (None, r)) else None
   | Some (Inl e) \<Rightarrow> Some (Inl e)
   | Some (Inr (v, r)) \<Rightarrow> Some (Inr (Some v, r)))"

definition peek :: "'a ring \<Rightarrow> 'a run" where
  "peek r = (if ring_empty r then None else Some (ring_front r))"

definition space :: "'a ring \<Rightarrow> nat" where
  "space r = rg_capacity r - rg_size r"

section \<open>Refinement of a bounded queue\<close>

text \<open>
  What the threads rely on: elements leave in the order they came in, a push waits exactly when the
  queue holds \<open>capacity\<close> elements and a pop when it holds none. \<open>valid\<close> and \<open>contents\<close> relate a state to
  a list.
\<close>

locale bounded_queue =
  fixes valid :: "'q \<Rightarrow> bool"
    and contents :: "'q \<Rightarrow> 'a list"
    and capacity :: "'q \<Rightarrow> nat"
    and enq :: "'a \<Rightarrow> 'q \<Rightarrow> 'q run"
    and deq :: "'q \<Rightarrow> ('a \<times> 'q) run"
  assumes valid_length: "valid q \<Longrightarrow> length (contents q) \<le> capacity q"
    and enq_waits: "valid q \<Longrightarrow> length (contents q) = capacity q \<Longrightarrow> enq v q = None"
    and enq_adds: "valid q \<Longrightarrow> length (contents q) < capacity q \<Longrightarrow>
      \<exists>q'. enq v q = Some (Inr q') \<and> valid q' \<and> contents q' = contents q @ [v] \<and> capacity q' = capacity q"
    and deq_waits: "valid q \<Longrightarrow> contents q = [] \<Longrightarrow> deq q = None"
    and deq_takes: "valid q \<Longrightarrow> contents q = v # vs \<Longrightarrow>
      \<exists>q'. deq q = Some (Inr (v, q')) \<and> valid q' \<and> contents q' = vs \<and> capacity q' = capacity q"
begin

text \<open>
  Threads that push and pop: \<open>transfer ins outs q\<close> for the elements pushed and popped so far. A step
  that waits is none.
\<close>

inductive transfer :: "'q \<Rightarrow> 'a list \<Rightarrow> 'a list \<Rightarrow> 'q \<Rightarrow> bool" for start :: 'q where
  transfer_start: "transfer start [] [] start"
| transfer_enq: "transfer start ins outs q \<Longrightarrow> enq v q = Some (Inr q') \<Longrightarrow> transfer start (ins @ [v]) outs q'"
| transfer_deq: "transfer start ins outs q \<Longrightarrow> deq q = Some (Inr (v, q')) \<Longrightarrow> transfer start ins (outs @ [v]) q'"

lemma transfer_fifo:
  assumes "transfer start ins outs q" and "valid start" and "contents start = []"
  shows "valid q \<and> capacity q = capacity start \<and> ins = outs @ contents q"
  using assms
proof (induction rule: transfer.induct)
  case (transfer_enq ins outs q v q')
  then have q: "valid q" "capacity q = capacity start" "ins = outs @ contents q" by auto
  then have "length (contents q) < capacity q"
    using enq_waits [OF q(1)] valid_length [OF q(1)] transfer_enq.hyps(2) by fastforce
  from enq_adds [OF q(1) this, of v] transfer_enq.hyps(2) q show ?case by auto
next
  case (transfer_deq ins outs q v q')
  then have q: "valid q" "capacity q = capacity start" "ins = outs @ contents q" by auto
  then obtain w ws where c: "contents q = w # ws"
    using deq_waits [OF q(1)] transfer_deq.hyps(2) by (cases "contents q") auto
  from deq_takes [OF q(1) c] transfer_deq.hyps(2) q c show ?case by auto
qed simp

end

section \<open>The ring is one\<close>

definition ring_wf :: "'a ring \<Rightarrow> bool" where
  "ring_wf r \<longleftrightarrow> rg_size r \<le> rg_capacity r \<and> (rg_front r < rg_capacity r \<or> rg_capacity r = 0)"

definition slot :: "'a ring \<Rightarrow> nat \<Rightarrow> nat" where
  "slot r i = (if rg_front r + i < rg_capacity r then rg_front r + i else rg_front r + i - rg_capacity r)"

definition ring_contents :: "'a ring \<Rightarrow> 'a list" where
  "ring_contents r = map (\<lambda>i. rg_slots r ! slot r i) [0..<rg_size r]"

lemma ring_contents_length [simp]: "length (ring_contents r) = rg_size r"
  by (simp add: ring_contents_def)

lemma slot_less: "ring_wf r \<Longrightarrow> i < rg_capacity r \<Longrightarrow> slot r i < rg_capacity r"
  by (auto simp: ring_wf_def slot_def)

lemma slot_inj: "ring_wf r \<Longrightarrow> i < rg_capacity r \<Longrightarrow> j < rg_capacity r \<Longrightarrow> slot r i = slot r j \<Longrightarrow> i = j"
  by (auto simp: ring_wf_def slot_def split: if_splits)

lemma ring_push_back_correct:
  assumes "ring_wf r" and "rg_size r < rg_capacity r"
  shows "\<exists>r'. ring_push_back v r = Inr r' \<and> ring_wf r' \<and> ring_contents r' = ring_contents r @ [v] \<and> rg_capacity r' = rg_capacity r"
proof -
  let ?r' = "r\<lparr>rg_slots := (rg_slots r)[slot r (rg_size r) := v], rg_size := rg_size r + 1\<rparr>"
  have "ring_push_back v r = Inr ?r'"
    using assms slot_less [OF assms] by (auto simp: ring_push_back_def slot_def Let_def)
  moreover have "ring_wf ?r'" using assms by (auto simp: ring_wf_def)
  moreover have slot: "slot ?r' i = slot r i" for i by (simp add: slot_def)
  have keep: "(rg_slots r)[slot r (rg_size r) := v] ! slot r i = rg_slots r ! slot r i" if "i < rg_size r" for i
    using slot_inj [OF assms(1), of "rg_size r" i] that assms(2) by (intro nth_list_update_neq) auto
  have new: "(rg_slots r)[slot r (rg_size r) := v] ! slot r (rg_size r) = v"
    using slot_less [OF assms] by simp
  have "ring_contents ?r' = ring_contents r @ [v]"
    unfolding ring_contents_def slot using keep new by simp
  ultimately show ?thesis by auto
qed

lemma ring_pop_front_correct:
  assumes "ring_wf r" and "ring_contents r = v # vs"
  shows "ring_front r = Inr v \<and>
    (\<exists>r'. ring_pop_front blank r = Inr r' \<and> ring_wf r' \<and> ring_contents r' = vs \<and> rg_capacity r' = rg_capacity r)"
proof -
  have n: "0 < rg_size r" using assms(2) ring_contents_length [of r] by simp
  then have f: "rg_front r < rg_capacity r" using assms(1) by (auto simp: ring_wf_def)
  then have s0: "slot r 0 = rg_front r" by (simp add: slot_def)
  let ?r' = "r\<lparr>rg_slots := (rg_slots r)[rg_front r := blank], rg_size := rg_size r - 1,
      rg_front := if rg_front r + 1 = rg_capacity r then 0 else rg_front r + 1\<rparr>"
  obtain n where n': "rg_size r = Suc n" using n by (cases "rg_size r") auto
  have c: "ring_contents r = rg_slots r ! rg_front r # map (\<lambda>i. rg_slots r ! slot r (Suc i)) [0..<rg_size r - 1]"
    unfolding ring_contents_def n' by (simp add: upt_conv_Cons s0 map_Suc_upt [symmetric] o_def del: upt_Suc map_Suc_upt)
  have slot: "slot ?r' i = slot r (Suc i)" if "i < rg_size r - 1" for i
    using assms(1) f that by (auto simp: slot_def ring_wf_def)
  have "slot r (Suc i) \<noteq> rg_front r" if "i < rg_size r - 1" for i
  proof -
    have "Suc i < rg_capacity r" "0 < rg_capacity r" using that assms(1) f by (auto simp: ring_wf_def)
    with slot_inj [OF assms(1), of "Suc i" 0] s0 show ?thesis by auto
  qed
  then have keep: "(rg_slots r)[rg_front r := blank] ! slot r (Suc i) = rg_slots r ! slot r (Suc i)" if "i < rg_size r - 1" for i
    using that by (intro nth_list_update_neq) metis
  have "ring_contents ?r' = map (\<lambda>i. rg_slots r ! slot r (Suc i)) [0..<rg_size r - 1]"
    unfolding ring_contents_def using slot keep by (intro map_cong) simp_all
  then have "ring_contents ?r' = vs" using assms(2) c by simp
  moreover have "ring_wf ?r'" using assms(1) f by (auto simp: ring_wf_def)
  moreover have "ring_pop_front blank r = Inr ?r'" using n f by (simp add: ring_pop_front_def Let_def)
  moreover have "ring_front r = Inr v" using assms(2) c n f by (simp add: ring_front_def)
  ultimately show ?thesis by auto
qed

lemma ring_empty_contents: "ring_empty r \<longleftrightarrow> ring_contents r = []"
  by (simp add: ring_empty_def ring_contents_def)

interpretation rq: bounded_queue ring_wf ring_contents rg_capacity push "pop blank" for blank
proof
  fix q :: "'a ring" and v and vs
  assume wf: "ring_wf q"
  show "length (ring_contents q) \<le> rg_capacity q" using wf by (simp add: ring_wf_def)
  show "push v q = None" if "length (ring_contents q) = rg_capacity q"
    using that by (simp add: push_def ring_full_def)
  show "\<exists>q'. push v q = Some (Inr q') \<and> ring_wf q' \<and> ring_contents q' = ring_contents q @ [v] \<and> rg_capacity q' = rg_capacity q"
    if "length (ring_contents q) < rg_capacity q"
    using ring_push_back_correct [OF wf, of v] that by (auto simp: push_def ring_full_def)
  show "pop blank q = None" if "ring_contents q = []"
    using that by (simp add: pop_def ring_empty_contents)
  show "\<exists>q'. pop blank q = Some (Inr (v, q')) \<and> ring_wf q' \<and> ring_contents q' = vs \<and> rg_capacity q' = rg_capacity q"
    if "ring_contents q = v # vs"
    using ring_pop_front_correct [OF wf that, of blank] that by (auto simp: pop_def ring_empty_contents)
qed

lemma ring_new_wf: "ring_wf (ring_new blank c) \<and> ring_contents (ring_new blank c) = [] \<and> rg_capacity (ring_new blank c) = c"
  by (auto simp: ring_wf_def ring_new_def ring_contents_def)

text \<open>
  C33: a ring of any capacity that any interleaving of threads pushes to and pops from is a bounded
  queue: the elements that came out, followed by those it holds, are those that went in, in their
  order; it never holds more than its capacity; a push waits exactly when it is full, a pop exactly
  when it is empty, and no operation touches memory outside it.
\<close>

theorem ring_is_bounded_queue:
  assumes "bounded_queue.transfer push (pop blank) (ring_new blank c) ins outs r"
  shows "ins = outs @ ring_contents r \<and> rg_size r \<le> c \<and> (push v r = None \<longleftrightarrow> rg_size r = c) \<and> (pop blank r = None \<longleftrightarrow> ins = outs) \<and>
    (\<forall>e. push v r \<noteq> Some (Inl e) \<and> pop blank r \<noteq> Some (Inl e))"
proof -
  have r: "ring_wf r" "rg_capacity r = c" "ins = outs @ ring_contents r"
    using rq.transfer_fifo [OF assms] ring_new_wf [of blank c] by auto
  have size: "rg_size r \<le> c" using r(1,2) by (simp add: ring_wf_def)
  have "push v r = None \<longleftrightarrow> rg_size r = c" "push v r \<noteq> Some (Inl e)" for e
    using rq.enq_adds [OF r(1), of v] rq.enq_waits [OF r(1), of v] size r(2) by (cases "rg_size r = c"; force)+
  moreover have "pop blank r = None \<longleftrightarrow> ring_contents r = []" "pop blank r \<noteq> Some (Inl e)" for e
    using rq.deq_takes [OF r(1), of _ _ blank] rq.deq_waits [OF r(1), of blank] by (cases "ring_contents r"; force)+
  ultimately show ?thesis using r(3) size by auto
qed

theorem ring_is_bounded_queue_witness:
  "\<exists>r. bounded_queue.transfer push (pop 0) (ring_new 0 2) [7, 8 :: nat] [7] r \<and> ring_contents r = [8] \<and> push 9 r \<noteq> None"
proof -
  let ?t = "bounded_queue.transfer push (pop (0 :: nat)) (ring_new 0 2)"
  have "?t ([] @ [7]) [] \<lparr>rg_slots = [7, 0], rg_front = 0, rg_size = 1\<rparr>"
    by (rule rq.transfer_enq [OF rq.transfer_start]) (simp add: ring_new_def push_def ring_full_def ring_push_back_def numeral_2_eq_2)
  from rq.transfer_enq [OF this, of 8] have "?t [7, 8] [] \<lparr>rg_slots = [7, 8], rg_front = 0, rg_size = 2\<rparr>"
    by (simp add: push_def ring_full_def ring_push_back_def numeral_2_eq_2)
  from rq.transfer_deq [OF this] have run: "?t [7, 8] ([] @ [7]) \<lparr>rg_slots = [0, 8], rg_front = 1, rg_size = 1 :: nat\<rparr>"
    by (simp add: pop_def ring_empty_def ring_front_def ring_pop_front_def)
  from ring_is_bounded_queue [OF this, of 9] show ?thesis using run by (intro exI) auto
qed

end
