(* ===== verification/UpsamplingReference.thy ===== *)
theory UpsamplingReference
  imports ClosedPicture
begin

text \<open>
  The upsampling filter against a reference: a convolution whose reads are clamped to the row, instead
  of the three parts in which decoder/src/Upsampling.cpp walks a row or a column.
\<close>

section \<open>The reference\<close>

text \<open>
  The sample to the left of the first pixel, then two for every pixel: one with the taps, one with the
  taps reversed, and none to the right of the last.
\<close>

definition convolve :: "nat \<Rightarrow> int list \<Rightarrow> (nat \<Rightarrow> int) \<Rightarrow> int \<Rightarrow> int" where
  "convolve n taps src s =
     to_int16 (drop_bit 14 ((\<Sum>k < 4. taps ! k * src (nat (clamp (s + int k - 1) 0 (int n - 1)))) + 0x2000))"

definition upsampled :: "nat \<Rightarrow> int list \<Rightarrow> (nat \<Rightarrow> int) \<Rightarrow> nat \<Rightarrow> int" where
  "upsampled n taps src j =
     (if odd j then convolve n taps src (int (j div 2)) else convolve n (rev taps) src (int (j div 2) - 1))"

section \<open>A sample\<close>

text \<open>No product and no sum leaves 32 bits.\<close>

definition gentle :: "int list \<Rightarrow> bool" where
  "gentle taps \<longleftrightarrow> length taps = 4 \<and> sum_list (map abs taps) \<le> 65535"

lemma gentle_rev: "gentle taps \<Longrightarrow> gentle (rev taps)"
  by (simp add: gentle_def rev_map [symmetric] sum_list_rev)

lemma product16:
  assumes "is_int16 v"
  shows "\<bar>c * v\<bar> \<le> \<bar>c\<bar> * 32768"
  unfolding abs_mult by (rule mult_left_mono) (use assms in \<open>auto simp: is_int16_def abs_le_iff\<close>)

lemma int32_value_small: "\<bar>i\<bar> < 2147483648 \<Longrightarrow> int32_value i = Inr i"
  by (simp add: int32_value_def abs_less_iff)

lemma filter_sample_convolve:
  assumes "gentle taps" and "\<And>k. k < 4 \<Longrightarrow> src (nat (position k)) = Inr (v k) \<and> is_int16 (v k)"
  shows "filter_sample taps src position = Inr (to_int16 (drop_bit 14 ((\<Sum>k < 4. taps ! k * v k) + 0x2000)))"
proof -
  obtain a b c d where taps: "taps = [a, b, c, d]" using assms(1)
    by (auto simp: gentle_def length_Suc_conv eval_nat_numeral)
  have t: "\<bar>a\<bar> + \<bar>b\<bar> + \<bar>c\<bar> + \<bar>d\<bar> \<le> 65535" using assms(1) by (simp add: gentle_def taps)
  obtain A B C D where prod: "a * v 0 = A" "b * v 1 = B" "c * v 2 = C" "d * v 3 = D" by blast
  have "\<bar>A\<bar> \<le> \<bar>a\<bar> * 32768" "\<bar>B\<bar> \<le> \<bar>b\<bar> * 32768" "\<bar>C\<bar> \<le> \<bar>c\<bar> * 32768" "\<bar>D\<bar> \<le> \<bar>d\<bar> * 32768"
    unfolding prod [symmetric] using assms(2) by (auto intro!: product16)
  then have "\<bar>A\<bar> + \<bar>B\<bar> + \<bar>C\<bar> + \<bar>D\<bar> \<le> 65535 * 32768" using t by linarith
  then have small: "\<bar>A\<bar> < 2147483648" "\<bar>B\<bar> < 2147483648" "\<bar>C\<bar> < 2147483648" "\<bar>D\<bar> < 2147483648"
    "\<bar>0x2000 + A\<bar> < 2147483648" "\<bar>0x2000 + A + B\<bar> < 2147483648" "\<bar>0x2000 + A + B + C\<bar> < 2147483648"
    "\<bar>0x2000 + A + B + C + D\<bar> < 2147483648" by linarith+
  have "fold_result (\<lambda>k d. rbind (vector_at taps k) (\<lambda>c. rbind (src (nat (position k))) (\<lambda>s.
      rbind (int32_value (c * s)) (\<lambda>p. int32_value (d + p))))) [0, 1, 2, 3] 0x2000 = Inr (0x2000 + A + B + C + D)"
    using assms(2) [of 0] assms(2) [of 1] assms(2) [of 2] assms(2) [of 3] int32_value_small [OF small(1)] int32_value_small [OF small(2)]
      int32_value_small [OF small(3)] int32_value_small [OF small(4)] int32_value_small [OF small(5)] int32_value_small [OF small(6)]
      int32_value_small [OF small(7)] int32_value_small [OF small(8)] prod
    by (simp add: taps vector_at_def del: One_nat_def)
  moreover have "(\<Sum>k < 4. taps ! k * v k) = A + B + C + D"
    using prod by (simp add: taps eval_nat_numeral)
  ultimately show ?thesis by (simp add: filter_sample_def take4 us_shift_clamp_s16_def algebra_simps)
qed

section \<open>A row\<close>

lemma filter_sample_at:
  assumes "gentle taps" and "0 < n" and "\<And>i. i < n \<Longrightarrow> src i = Inr (v i) \<and> is_int16 (v i)"
    and "\<And>k. k < 4 \<Longrightarrow> position k = clamp (s + int k - 1) 0 (int n - 1)"
  shows "filter_sample taps src position = Inr (convolve n taps v s)"
proof -
  have "src (nat (position k)) = Inr (v (nat (clamp (s + int k - 1) 0 (int n - 1)))) \<and> is_int16 (v (nat (clamp (s + int k - 1) 0 (int n - 1))))"
    if "k < 4" for k
    using assms(3) assms(4) [OF that] assms(2) clamp_bounds [of 0 "int n - 1" "s + int k - 1"] by auto
  from filter_sample_convolve [where v = "\<lambda>k. v (nat (clamp (s + int k - 1) 0 (int n - 1)))", OF assms(1) this] show ?thesis by (simp add: convolve_def)
qed

lemma upt_split: "a \<le> b \<Longrightarrow> b \<le> c \<Longrightarrow> [a..<c] = [a..<b] @ [b..<c]"
  by (metis le_add_diff_inverse upt_add_eq_append)

lemma upt_pairs: "a \<le> b \<Longrightarrow> concat (map (\<lambda>s. [2 * s + 1, 2 * s + 2]) [a..<b]) = [2 * a + 1..<2 * b + 1]"
proof (induction b)
  case (Suc b)
  show ?case
  proof (cases "a = Suc b")
    case False
    then have "concat (map (\<lambda>s. [2 * s + 1, 2 * s + 2]) [a..<b]) = [2 * a + 1..<2 * b + 1]" using Suc by simp
    moreover have "[2 * a + 1..<2 * Suc b + 1] = [2 * a + 1..<2 * b + 1] @ [2 * b + 1, 2 * b + 2]"
      using False Suc.prems by (simp add: upt_Suc_append)
    ultimately show ?thesis using False Suc.prems by (simp add: upt_Suc_append)
  qed simp
qed simp

lemma samples_convolve:
  assumes taps: "gentle taps" and n: "4 \<le> n" and src: "\<And>i. i < n \<Longrightarrow> src i = Inr (v i) \<and> is_int16 (v i)"
  shows "upsample_samples n taps src = map (\<lambda>j. Inr (upsampled n taps v j)) [0..<2 * n]"
proof -
  have right: "filter_sample taps src position = Inr (upsampled n taps v (2 * s + 1))"
    if "\<And>k. k < 4 \<Longrightarrow> position k = clamp (int s + int k - 1) 0 (int n - 1)" for position s
    using filter_sample_at [OF taps _ src, where s = "int s" and position = position and n = n] that n by (simp add: upsampled_def)
  have left: "filter_sample (rev taps) src position = Inr (upsampled n taps v (2 * s))"
    if "\<And>k. k < 4 \<Longrightarrow> position k = clamp (int s - 1 + int k - 1) 0 (int n - 1)" for position s
    using filter_sample_at [OF gentle_rev [OF taps] _ src, where s = "int s - 1" and position = position and n = n] that n
    by (simp add: upsampled_def)
  have inner: "int s + int k - 1 = clamp (int s + int k - 1) 0 (int n - 1)" if "1 \<le> s" "s < n - 2" "k < 4" for s k
    using that by (intro clamp_id [symmetric]) auto
  have bounds: "3 \<le> 2 * n" "3 \<le> 2 * (n - 2) + 1" "2 * (n - 2) + 1 \<le> 2 * n" using n by arith+
  have "[0..<2 * n] = [0..<3] @ [3..<2 * (n - 2) + 1] @ [2 * (n - 2) + 1..<2 * n]"
    unfolding upt_split [OF le0 bounds(1)] upt_split [OF bounds(2,3)] ..
  moreover have "[0..<3 :: nat] = [0, 1, 2]" by (simp add: upt_conv_Cons)
  moreover obtain m where m: "n = m + 2" using n by (intro that [of "n - 2"]) simp
  have "[2 * (n - 2) + 1..<2 * n] = [2 * (n - 2) + 1, 2 * (n - 1), 2 * (n - 1) + 1]"
    by (simp add: m upt_conv_Cons)
  ultimately have indices: "[0..<2 * n] = [2 * 0, 2 * 0 + 1, 2 * 1] @
      concat (map (\<lambda>s. [2 * s + 1, 2 * (s + 1)]) [1..<n - 2]) @ [2 * (n - 2) + 1, 2 * (n - 1), 2 * (n - 1) + 1]"
    using n upt_pairs [of 1 "n - 2"] by (simp del: upt_Suc)
  have pair: "filter_sample taps src (\<lambda>k. int s + int k - 1) = Inr (upsampled n taps v (2 * s + 1))"
    "filter_sample (rev taps) src (\<lambda>k. int s + int k - 1) = Inr (upsampled n taps v (2 * (s + 1)))" if "1 \<le> s" "s < n - 2" for s
    by (rule right left; use inner [OF that] in simp)+
  have middle: "concat (map (\<lambda>s. [filter_sample taps src (\<lambda>k. int s + int k - 1), filter_sample (rev taps) src (\<lambda>k. int s + int k - 1)]) [1..<n - 2]) =
      map (\<lambda>j. Inr (upsampled n taps v j)) (concat (map (\<lambda>s. [2 * s + 1, 2 * (s + 1)]) [1..<n - 2]))"
    unfolding map_concat map_map
    by (intro arg_cong [where f = concat] map_cong refl) (use pair in simp)
  have ends: "filter_sample (rev taps) src (\<lambda>k. clamp (int k - 2) 0 (int n - 1)) = Inr (upsampled n taps v (2 * 0))"
    "filter_sample taps src (\<lambda>k. clamp (int k - 1) 0 (int n - 1)) = Inr (upsampled n taps v (2 * 0 + 1))"
    "filter_sample (rev taps) src (\<lambda>k. clamp (int k - 1) 0 (int n - 1)) = Inr (upsampled n taps v (2 * 1))"
    "filter_sample taps src (\<lambda>k. clamp (int n - 3 + int k) 0 (int n - 1)) = Inr (upsampled n taps v (2 * (n - 2) + 1))"
    "filter_sample (rev taps) src (\<lambda>k. clamp (int n - 3 + int k) 0 (int n - 1)) = Inr (upsampled n taps v (2 * (n - 1)))"
    "filter_sample taps src (\<lambda>k. clamp (int n - 2 + int k) 0 (int n - 1)) = Inr (upsampled n taps v (2 * (n - 1) + 1))"
    by (rule right left; rule arg_cong [where f = "\<lambda>i. clamp i 0 (int n - 1)"]; use n in \<open>simp add: of_nat_diff\<close>)+
  show ?thesis
    unfolding upsample_samples_def Let_def indices map_append middle
    by (simp only: ends list.map append.simps)
qed

lemma map_result_Inr: "map_result id (map (\<lambda>x. Inr (f x)) xs) = Inr (map f xs)"
  by (induction xs) auto

lemma upsample_kernel_convolve:
  assumes "gentle taps" and "4 \<le> n" and "\<And>i. i < n \<Longrightarrow> src i = Inr (v i) \<and> is_int16 (v i)"
  shows "apply_upsample_kernel n taps src = Inr (map (upsampled n taps v) [0..<2 * n])"
  using samples_convolve [where src = src and v = v, OF assms] assms(2) by (simp add: apply_upsample_kernel_def map_result_Inr)

section \<open>A plane\<close>

lemma filter_columns_total:
  assumes "\<And>x. x < w \<Longrightarrow> f x = Inr (map (g x) [0..<h])" and "0 < w" and "0 < h" and "0 < sf_width src" and "0 < sf_height src"
  shows "filter_columns w h f src = Inr (surface_of w h g)"
proof -
  have "map_result (\<lambda>x. rbind (row_start w h 0) (\<lambda>_. rbind (row_start (sf_width src) (sf_height src) 0) (\<lambda>_. f x))) [0..<w] =
      Inr (map (\<lambda>x. map (g x) [0..<h]) [0..<w])"
    by (rule map_result_total) (use assms in simp)
  then show ?thesis by (auto simp: filter_columns_def intro!: surface_eqI)
qed

lemma filter_rows_total:
  assumes "\<And>y. y < h \<Longrightarrow> f y = Inr (map (\<lambda>x. g x y) [0..<w])" and "0 < w" and "0 < sf_width src" and "h \<le> sf_height src"
  shows "filter_rows w h f src = Inr (surface_of w h g)"
proof -
  have "map_result (\<lambda>y. rbind (row_start w h y) (\<lambda>_. rbind (row_start (sf_width src) (sf_height src) y) (\<lambda>_. f y))) [0..<h] =
      Inr (map (\<lambda>y. map (\<lambda>x. g x y) [0..<w]) [0..<h])"
    by (rule map_result_total) (use assms in simp)
  then show ?thesis by (simp add: filter_rows_def surface_of_def raster_product map_concat o_def)
qed

lemma upsampled_int16 [simp]: "is_int16 (upsampled n taps v j)"
  by (simp add: upsampled_def convolve_def)

lemma upsampling_convolves:
  assumes "plane16 s" and "4 \<le> sf_width s" and "4 \<le> sf_height s" and "make_kernel u cs = Inr taps" and "gentle taps"
  shows "upsampling s u cs = Inr (surface_of (2 * sf_width s) (2 * sf_height s)
      (\<lambda>x y. upsampled (sf_width s) taps (\<lambda>i. upsampled (sf_height s) taps (pixel s i) y) x))" (is ?two)
    and "upsampling_1d s u cs = Inr (surface_of (2 * sf_width s) (sf_height s)
      (\<lambda>x y. upsampled (sf_width s) taps (\<lambda>i. pixel s i y) x))" (is ?one)
proof -
  let ?w = "sf_width s" and ?h = "sf_height s"
  let ?i = "surface_of ?w (2 * ?h) (\<lambda>x y. upsampled ?h taps (pixel s x) y)"
  have pos: "0 < ?w" "0 < ?h" using assms(2,3) by simp_all
  have columns: "filter_columns ?w (?h * 2) (\<lambda>x. apply_upsample_kernel ?h taps (\<lambda>i. row_read s i x)) s = Inr ?i"
    unfolding mult.commute [of ?h 2]
    by (rule filter_columns_total [where g = "\<lambda>x y. upsampled ?h taps (pixel s x) y"])
      (use assms pos in \<open>simp_all add: upsample_kernel_convolve [where v = "pixel s _"] plane16_pixel\<close>)
  have rows: "filter_rows (?w * 2) (?h * 2) (\<lambda>y. apply_upsample_kernel ?w taps (row_read ?i y)) ?i =
      Inr (surface_of (2 * ?w) (2 * ?h) (\<lambda>x y. upsampled ?w taps (\<lambda>i. upsampled ?h taps (pixel s i) y) x))"
    unfolding mult.commute [of _ 2]
    by (rule filter_rows_total) (use assms pos in \<open>simp_all add: upsample_kernel_convolve [where v = "\<lambda>i. upsampled ?h taps (pixel s i) _"]\<close>)
  from columns rows assms(4) show ?two by (simp add: upsampling_def Let_def)
  have "filter_rows (2 * ?w) ?h (\<lambda>y. apply_upsample_kernel ?w taps (row_read s y)) s =
      Inr (surface_of (2 * ?w) ?h (\<lambda>x y. upsampled ?w taps (\<lambda>i. pixel s i y) x))"
    by (rule filter_rows_total) (use assms pos in \<open>simp_all add: upsample_kernel_convolve [where v = "\<lambda>i. pixel s i _"] plane16_pixel\<close>)
  with assms(4) show ?one by (simp add: upsampling_1d_def Let_def)
qed

section \<open>The kernels of the code\<close>

lemma table_kernel_gentle: "make_kernel u cs = Inr taps \<Longrightarrow> u \<noteq> Upsample_AdaptiveCubic \<Longrightarrow> gentle taps"
  by (cases u) (auto simp: make_kernel_def upsample_kernels_def gentle_def)

text \<open>
  C38: on every plane of 16 bits with sides of at least 4 the two upsampling filters return, read only
  pixels of the plane, overflow nothing, and are the convolution with the reads clamped to the plane,
  column by column and row by row, for the four kernels of the code and for signalled coefficients
  whose magnitudes add up to less than 2 ^ 16.
\<close>

theorem upsampling_reference:
  assumes "plane16 s" and "4 \<le> sf_width s" and "4 \<le> sf_height s" and "make_kernel u cs = Inr taps"
    and "u = Upsample_AdaptiveCubic \<longrightarrow> gentle taps"
  shows "upsampling s u cs = Inr (surface_of (2 * sf_width s) (2 * sf_height s)
      (\<lambda>x y. upsampled (sf_width s) taps (\<lambda>i. upsampled (sf_height s) taps (pixel s i) y) x)) \<and>
    upsampling_1d s u cs = Inr (surface_of (2 * sf_width s) (sf_height s) (\<lambda>x y. upsampled (sf_width s) taps (\<lambda>i. pixel s i y) x))"
  using upsampling_convolves [OF assms(1-4)] table_kernel_gentle [OF assms(4)] assms(5) by blast

theorem upsampling_reference_witness:
  "\<exists>r. upsampling_1d (surface_of 4 4 (\<lambda>x y. 100 * int x - int y)) Upsample_Linear None = Inr r \<and> pixel r 3 2 = 123 \<and> pixel r 7 0 = 300"
proof -
  let ?s = "surface_of 4 4 (\<lambda>x y. 100 * int x - int y)"
  have "plane16 ?s" by (auto simp: plane16_of is_int16_def)
  then have "upsampling_1d ?s Upsample_Linear None = Inr (surface_of 8 4 (\<lambda>x y. upsampled 4 [0, 12288, 4096, 0] (\<lambda>i. pixel ?s i y) x))"
    using upsampling_reference [of ?s Upsample_Linear None "[0, 12288, 4096, 0]"] by (simp add: make_kernel_def upsample_kernels_def)
  then show ?thesis by (simp add: upsampled_def) code_simp
qed

end
