(* ===== verification/DecodedPixels.thy ===== *)
theory DecodedPixels
  imports ClosedSession TransformPairs
begin

text \<open>
  The pixels of a decoded plane, written out: from the symbols of the layers, the temporal mask, the
  buffer and the prediction to each pixel of the second sub-layer, without loops, buffers updated in
  place or surfaces built on the way.
\<close>

section \<open>Coefficients\<close>

text \<open>
  The step width and offset of a transform: with two of them, predicted transforms have the first and
  intra transforms the second.
\<close>

definition dequant_at :: "(int \<times> int) list \<Rightarrow> u8 surface \<Rightarrow> nat \<Rightarrow> nat \<Rightarrow> int \<times> int" where
  "dequant_at dqs marks u v = (if length dqs = 1 \<or> pixel marks u v = temporal_pred then dqs ! 0 else dqs ! 1)"

definition coefficient_at :: "(int \<times> int) list \<Rightarrow> u8 surface \<Rightarrow> int surface \<Rightarrow> nat \<Rightarrow> nat \<Rightarrow> int" where
  "coefficient_at dqs marks s u v = clamp_int16 (dequantized (dequant_at dqs marks u v) (pixel s u v))"

lemma in_place_marked_total:
  assumes "solid s" and "surface_wf m" and "sf_width s \<le> sf_width m" and "sf_height s \<le> sf_height m"
  shows "in_place_marked m f s = Inr (surface_of (sf_width s) (sf_height s) (\<lambda>x y. f (pixel m x y) (pixel s x y)))"
proof -
  have "map_result (\<lambda>(x, y). rbind (surface_read m x y) (\<lambda>t. rbind (linear_read s (y * sf_width s + x)) (\<lambda>p. Inr (f t p))))
      (raster (sf_width s) (sf_height s)) = Inr (map (\<lambda>(x, y). f (pixel m x y) (pixel s x y)) (raster (sf_width s) (sf_height s)))"
    by (rule map_result_total) (use assms in \<open>auto simp: linear_read_pixel\<close>)
  then show ?thesis using assms(1) by (simp add: in_place_marked_def pixels_replaced surface_of_def)
qed

lemma decoder_coefficients_pixels:
  assumes "solid s" and "surface_wf m" and "sf_width s \<le> sf_width m" and "sf_height s \<le> sf_height m" and "length dqs \<in> {1, 2}"
  shows "decoder_coefficients g LOQ_LEVEL_2 layer dqs (Some m) s =
    Inr (surface_of (sf_width s) (sf_height s) (coefficient_at dqs m s))"
proof (cases "length dqs = 1")
  case True
  then obtain dq where dqs: "dqs = [dq]" by (auto simp: length_Suc_conv)
  show ?thesis using assms(1)
    by (simp add: decoder_coefficients_def dqs in_place_solid surface_image_of dequantize_in_place_clamp
        coefficient_at_def [abs_def] dequant_at_def)
next
  case False
  then obtain d0 d1 where dqs: "dqs = [d0, d1]" using assms(5) by (auto simp: length_Suc_conv numeral_2_eq_2)
  show ?thesis using in_place_marked_total [OF assms(1-4)]
    by (simp add: decoder_coefficients_def dqs dequantize_in_place_clamp coefficient_at_def [abs_def] dequant_at_def)
qed

section \<open>Residuals\<close>

definition residual_basis :: "nat \<Rightarrow> bool \<Rightarrow> nat \<Rightarrow> nat \<Rightarrow> int" where
  "residual_basis n one_d =
     (if n = 4 then if one_d then basis_at inverse_dds_1d_basis 4 else (\<lambda>p l. dds_basis ! l ! p)
      else if one_d then basis_at inverse_dd_1d_basis 2 else basis_at inverse_dd_basis 2)"

text \<open>A residual: the sum of the layers' coefficients at the block's position, with the signs of the pixel's place in the block.\<close>

definition residual_at ::
  "nat \<Rightarrow> bool \<Rightarrow> (nat \<Rightarrow> (int \<times> int) list) \<Rightarrow> u8 surface \<Rightarrow> (nat \<Rightarrow> int surface) \<Rightarrow> nat \<Rightarrow> nat \<Rightarrow> int" where
  "residual_at n one_d dqs marks S x y =
     to_int16 (\<Sum>l<n * n. residual_basis n one_d (y mod n * n + x mod n) l * coefficient_at (dqs l) marks (S l) (x div n) (y div n))"

lemma inverse_transform_pixels:
  assumes "unat (gc_transform_block_size g) = n" and "n \<in> {2, 4}" and "0 < w" and "n dvd w" and "n dvd h"
    and "\<And>l. l < n * n \<Longrightarrow> surface_wf (ls ! l) \<and> sf_width (ls ! l) = w div n \<and> sf_height (ls ! l) = h div n"
  shows "inverse_transform g one_d w h ls = Inr (inverse_of n (residual_basis n one_d) w h ls)"
proof -
  have tbs: "gc_transform_block_size g = (if n = 4 then 4 else 2)"
    using assms(1,2) by (auto simp: word_unat_eq_iff)
  show ?thesis using assms(2-6) dd_inverse_total [of w h ls] dds_1d_inverse_total [of w h ls] inverse_dds_total [of w h ls]
    by (auto simp: inverse_transform_def tbs residual_basis_def)
qed

text \<open>What a plane of the second sub-layer is decoded from.\<close>

record plane_input =
  in_size :: nat
  in_1d :: bool
  in_dequants :: "(int \<times> int) list list"
  in_marks :: "u8 surface"
  in_layers :: "nat \<Rightarrow> int surface"

definition input_residual :: "plane_input \<Rightarrow> nat \<Rightarrow> nat \<Rightarrow> int" where
  "input_residual i = residual_at (in_size i) (in_1d i) (\<lambda>l. map (\<lambda>pass. pass ! l) (in_dequants i)) (in_marks i) (in_layers i)"

text \<open>
  The configuration, the matrices and the symbols give this input: transforms of 4x4 or 2x2 with as many
  layers, each with a coefficient for every block of the plane, a mask of at least this size, and the
  step widths and offsets of every layer.
\<close>

definition plane_given ::
  "(int \<Rightarrow> rat) \<Rightarrow> decoder \<Rightarrow> layer_surfaces \<Rightarrow> nat \<Rightarrow> nat \<times> nat \<Rightarrow> plane_input \<Rightarrow> bool" where
  "plane_given c_log dc symbols plane sizes i \<longleftrightarrow>
     (let g = sg_global_configuration (dc_configuration dc); picture = sg_picture_configuration (dc_configuration dc);
          n = in_size i; layers = unat (gc_num_residual_layers g) in
      n \<in> {2, 4} \<and> unat (gc_transform_block_size g) = n \<and> layers = n * n \<and>
      0 < fst sizes \<and> 0 < snd sizes \<and> n dvd fst sizes \<and> n dvd snd sizes \<and> plane_sizes (dc_dimensions dc) plane LOQ_LEVEL_2 = sizes \<and>
      is_horizontal_only g LOQ_LEVEL_2 = Inr (in_1d i) \<and>
      list_all (\<lambda>l. symbols (plane, LOQ_LEVEL_2, l) = Residual_Surface (in_layers i l) \<and> surface_wf (in_layers i l) \<and>
        sf_width (in_layers i l) = fst sizes div n \<and> sf_height (in_layers i l) = snd sizes div n) [0..<layers] \<and>
      get_temporal_mask g picture (symbols (plane, LOQ_LEVEL_2, layers)) = Inr (Some (in_marks i)) \<and>
      surface_wf (in_marks i) \<and> fst sizes div n \<le> sf_width (in_marks i) \<and> snd sizes div n \<le> sf_height (in_marks i) \<and>
      rbind (decoder_step_widths g picture plane LOQ_LEVEL_2)
        (all_dequants c_log picture (\<lambda>l. dc_quant_matrix_coeffs dc (plane, LOQ_LEVEL_2, l)) layers) = Inr (in_dequants i))"

lemma step_width_passes:
  "rbind (decoder_step_widths g picture plane loq) (all_dequants c_log picture coeffs n) = Inr dqs \<Longrightarrow> length dqs \<in> {1, 2}"
  by (auto simp: decoder_step_widths_def dest!: all_dequants_length split: if_splits)

lemma decoder_residuals_pixels:
  assumes "plane_given c_log dc symbols plane (w, h) i" and "gc_temporal_enabled (sg_global_configuration (dc_configuration dc)) \<noteq> 0"
  shows "decoder_residuals c_log (sg_global_configuration (dc_configuration dc)) (sg_picture_configuration (dc_configuration dc))
      (\<lambda>l. dc_quant_matrix_coeffs dc (plane, LOQ_LEVEL_2, l)) (plane_sizes (dc_dimensions dc) plane LOQ_LEVEL_2) plane LOQ_LEVEL_2
      (\<lambda>l. symbols (plane, LOQ_LEVEL_2, l)) =
    Inr (Some (in_marks i), surface_of w h (input_residual i))"
proof -
  let ?g = "sg_global_configuration (dc_configuration dc)" and ?p = "sg_picture_configuration (dc_configuration dc)"
  let ?n = "in_size i" and ?L = "in_layers i"
  let ?dqs = "\<lambda>l. map (\<lambda>pass. pass ! l) (in_dequants i)"
  have n: "?n \<in> {2, 4}" "unat (gc_transform_block_size ?g) = ?n" "unat (gc_num_residual_layers ?g) = ?n * ?n"
    and size: "0 < w" "0 < h" "?n dvd w" "?n dvd h" "plane_sizes (dc_dimensions dc) plane LOQ_LEVEL_2 = (w, h)"
    and one_d: "is_horizontal_only ?g LOQ_LEVEL_2 = Inr (in_1d i)"
    and layer: "\<And>l. l < ?n * ?n \<Longrightarrow> symbols (plane, LOQ_LEVEL_2, l) = Residual_Surface (?L l) \<and> surface_wf (?L l) \<and>
        sf_width (?L l) = w div ?n \<and> sf_height (?L l) = h div ?n"
    and marks: "get_temporal_mask ?g ?p (symbols (plane, LOQ_LEVEL_2, ?n * ?n)) = Inr (Some (in_marks i))"
      "surface_wf (in_marks i)" "w div ?n \<le> sf_width (in_marks i)" "h div ?n \<le> sf_height (in_marks i)"
    and dqs: "rbind (decoder_step_widths ?g ?p plane LOQ_LEVEL_2)
        (all_dequants c_log ?p (\<lambda>l. dc_quant_matrix_coeffs dc (plane, LOQ_LEVEL_2, l)) (?n * ?n)) = Inr (in_dequants i)"
    using assms(1) by (auto simp: plane_given_def Let_def list_all_iff)
  have blocks: "0 < w div ?n" "0 < h div ?n" using n(1) size by (auto elim!: dvdE)
  let ?c = "map (\<lambda>l. surface_of (w div ?n) (h div ?n) (coefficient_at (?dqs l) (in_marks i) (?L l))) [0..<?n * ?n]"
  have coefs: "map_result (\<lambda>l. rbind (residual_view (symbols (plane, LOQ_LEVEL_2, l))) (\<lambda>s.
      decoder_coefficients ?g LOQ_LEVEL_2 l (?dqs l) (Some (in_marks i)) s)) [0..<?n * ?n] = Inr ?c"
  proof (rule map_result_total)
    fix l assume "l \<in> set [0..<?n * ?n]"
    then have l: "l < ?n * ?n" by simp
    have solid: "solid (?L l)" unfolding solid_def using layer [OF l] blocks by simp
    have "decoder_coefficients ?g LOQ_LEVEL_2 l (?dqs l) (Some (in_marks i)) (?L l) =
        Inr (surface_of (sf_width (?L l)) (sf_height (?L l)) (coefficient_at (?dqs l) (in_marks i) (?L l)))"
      by (rule decoder_coefficients_pixels) (use solid layer [OF l] marks(2-4) step_width_passes [OF dqs] in simp_all)
    then show "rbind (residual_view (symbols (plane, LOQ_LEVEL_2, l))) (\<lambda>s.
        decoder_coefficients ?g LOQ_LEVEL_2 l (?dqs l) (Some (in_marks i)) s) =
        Inr (surface_of (w div ?n) (h div ?n) (coefficient_at (?dqs l) (in_marks i) (?L l)))"
      using layer [OF l] by simp
  qed
  have div: "x div ?n < k div ?n" if "x < k" "?n dvd k" for x k
    using that by (auto elim!: dvdE simp: less_mult_imp_div_less mult.commute)
  have pixels: "pixel (?c ! l) (x div ?n) (y div ?n) = coefficient_at (?dqs l) (in_marks i) (?L l) (x div ?n) (y div ?n)"
    if "l < ?n * ?n" "x < w" "y < h" for l x y
    using that div [OF that(2) size(3)] div [OF that(3) size(4)] by simp
  have "inverse_of ?n (residual_basis ?n (in_1d i)) w h ?c = surface_of w h (input_residual i)"
    unfolding inverse_of_def
  proof (rule surface_eqI)
    fix x y assume "x < sf_width (surface_of w h (\<lambda>x y. to_int16 (\<Sum>l<?n * ?n. residual_basis ?n (in_1d i) (y mod ?n * ?n + x mod ?n) l *
        pixel (?c ! l) (x div ?n) (y div ?n))))" "y < sf_height (surface_of w h (\<lambda>x y. to_int16 (\<Sum>l<?n * ?n.
        residual_basis ?n (in_1d i) (y mod ?n * ?n + x mod ?n) l * pixel (?c ! l) (x div ?n) (y div ?n))))"
    then have xy: "x < w" "y < h" by simp_all
    have "(\<Sum>l<?n * ?n. residual_basis ?n (in_1d i) (y mod ?n * ?n + x mod ?n) l * pixel (?c ! l) (x div ?n) (y div ?n)) =
        (\<Sum>l<?n * ?n. residual_basis ?n (in_1d i) (y mod ?n * ?n + x mod ?n) l *
          coefficient_at (?dqs l) (in_marks i) (?L l) (x div ?n) (y div ?n))"
      by (rule sum.cong [OF refl]) (simp only: lessThan_iff pixels [OF _ xy])
    then show "pixel (surface_of w h (\<lambda>x y. to_int16 (\<Sum>l<?n * ?n. residual_basis ?n (in_1d i) (y mod ?n * ?n + x mod ?n) l *
        pixel (?c ! l) (x div ?n) (y div ?n)))) x y = pixel (surface_of w h (input_residual i)) x y"
      using xy by (simp only: pixel_surface_of input_residual_def residual_at_def)
  qed simp_all
  moreover have "inverse_transform ?g (in_1d i) w h ?c = Inr (inverse_of ?n (residual_basis ?n (in_1d i)) w h ?c)"
    by (rule inverse_transform_pixels) (use n size in simp_all)
  moreover obtain sws where "decoder_step_widths ?g ?p plane LOQ_LEVEL_2 = Inr sws"
    "all_dequants c_log ?p (\<lambda>l. dc_quant_matrix_coeffs dc (plane, LOQ_LEVEL_2, l)) (?n * ?n) sws = Inr (in_dequants i)"
    using dqs by auto
  ultimately show ?thesis
    using coefs assms(2) by (simp add: decoder_residuals_def n(3) one_d marks(1) size(5))
qed

section \<open>The plane\<close>

lemma apply_map_pixels:
  assumes "solid s" and "solid m" and "sf_width s = sf_width m * 2 ^ a" and "sf_height s = sf_height m * 2 ^ b"
    and "sf_width s < 4294967296" and "sf_height s < 4294967296"
  shows "apply_map z s m = Inr (surface_of (sf_width s) (sf_height s)
    (\<lambda>x y. if pixel m (x div 2 ^ a) (y div 2 ^ b) = temporal_intr then z else pixel s x y))"
proof -
  have "checked_cover m s = Inr (a, b)" by (rule checked_cover_total) (use assms in simp_all)
  moreover have "plane_rows (sf_width s) (sf_height s) (row_of s) (\<lambda>x y.
      rbind (surface_read m (drop_bit a x) (drop_bit b y)) (\<lambda>t. if t = temporal_intr then Inr z else row_read s y x)) =
      Inr (surface_of (sf_width s) (sf_height s) (\<lambda>x y. if pixel m (x div 2 ^ a) (y div 2 ^ b) = temporal_intr then z else pixel s x y))"
    by (rule plane_rows_total) (use assms in \<open>simp_all add: drop_bit_less drop_bit_eq_div less_mult_imp_div_less\<close>)
  ultimately show ?thesis by (simp add: apply_map_def)
qed

lemma add_in_place_pixels:
  assumes "solid s" and "solid t" and "sf_width t = sf_width s" and "sf_height t = sf_height s"
  shows "add_in_place s t = Inr (surface_of (sf_width s) (sf_height s) (\<lambda>x y. to_int16 (pixel s x y + pixel t x y)))"
  using assms add_planes_in_place [of s t] by (simp add: add_planes_total same_size_def has_rows_def)

text \<open>The temporal buffer after the picture: zeros under an intra transform, what it held elsewhere, and the residual.\<close>

definition buffer_at :: "int surface \<Rightarrow> u8 surface \<Rightarrow> nat \<Rightarrow> nat \<Rightarrow> (nat \<Rightarrow> nat \<Rightarrow> int) \<Rightarrow> nat \<Rightarrow> nat \<Rightarrow> int" where
  "buffer_at old marks a b residual x y =
     to_int16 ((if pixel marks (x div 2 ^ a) (y div 2 ^ b) = temporal_intr then 0 else pixel old x y) + residual x y)"

text \<open>
  C37: the pixels of a decoded plane. With temporal prediction, where the signalled configuration, the
  matrices and the symbols give transforms of 4x4 or 2x2, a mask that covers the plane and the step widths,
  each pixel of the second sub-layer is the upsampled one plus the temporal buffer's, and the buffer's is
  the old one (zero under an intra transform) plus the residual: the sum, with the signs of the basis, of
  the dequantized symbols of all layers at the pixel's block, each clamped to 16 bits. The sums wrap in 16
  bits; the new buffer is kept for the next picture, and nothing else of the decoder changes.
\<close>

theorem full_plane_pixels:
  assumes given: "plane_given c_log dc symbols plane (w, h) i"
    and on: "is_enhanced (sg_global_configuration (dc_configuration dc)) (sg_picture_configuration (dc_configuration dc)) plane"
      "gc_temporal_enabled (sg_global_configuration (dc_configuration dc)) \<noteq> 0"
    and marks: "w = sf_width (in_marks i) * 2 ^ a" "h = sf_height (in_marks i) * 2 ^ b" "w < 4294967296" "h < 4294967296"
    and up: "surface_wf up" "sf_width up = w" "sf_height up = h" and old: "surface_wf old" "sf_width old = w" "sf_height old = h"
    and buffer: "dc_temporal_buffer dc plane = Some (buffer_of old) \<or>
      dc_temporal_buffer dc plane = None \<and> old = surface_of w h (\<lambda>_ _. 0)"
  shows "decode_full_plane c_log True symbols plane up dc =
    Inr (surface_of w h (\<lambda>x y. to_int16 (pixel up x y + buffer_at old (in_marks i) a b (input_residual i) x y)),
      set_buffer plane (surface_of w h (buffer_at old (in_marks i) a b (input_residual i))) dc)"
proof -
  let ?m = "in_marks i" and ?old = "surface_of w h (\<lambda>x y. if pixel (in_marks i) (x div 2 ^ a) (y div 2 ^ b) = temporal_intr then 0 else pixel old x y)"
  have size: "0 < w" "0 < h" "surface_wf ?m" using given by (auto simp: plane_given_def Let_def)
  then have m: "solid ?m" using marks(1,2) unfolding solid_def by (auto intro: Nat.gr0I)
  have solids: "solid up" "solid old" using up old size unfolding solid_def by simp_all
  have "refresh_buffer (dc_temporal_buffer dc plane) up ?m = apply_map 0 old ?m"
    using buffer up by (auto simp: refresh_buffer_of refresh_buffer_None apply_temporal_map_def)
  also have "\<dots> = Inr ?old"
    using apply_map_pixels [OF solids(2) m, of a b 0] marks old by simp
  finally have refreshed: "refresh_buffer (dc_temporal_buffer dc plane) up ?m = Inr ?old" .
  have buffered: "add_in_place ?old (surface_of w h (input_residual i)) = Inr (surface_of w h (buffer_at old ?m a b (input_residual i)))"
  proof -
    have "surface_of w h (\<lambda>x y. to_int16 (pixel ?old x y + pixel (surface_of w h (input_residual i)) x y)) =
        surface_of w h (buffer_at old ?m a b (input_residual i))"
      by (rule surface_eqI) (simp_all add: buffer_at_def)
    then show ?thesis using add_in_place_pixels [of ?old "surface_of w h (input_residual i)"] size by simp
  qed
  have shown: "add_in_place up (surface_of w h (buffer_at old ?m a b (input_residual i))) =
      Inr (surface_of w h (\<lambda>x y. to_int16 (pixel up x y + buffer_at old ?m a b (input_residual i) x y)))"
  proof -
    have "surface_of w h (\<lambda>x y. to_int16 (pixel up x y + pixel (surface_of w h (buffer_at old ?m a b (input_residual i))) x y)) =
        surface_of w h (\<lambda>x y. to_int16 (pixel up x y + buffer_at old ?m a b (input_residual i) x y))"
      by (rule surface_eqI) simp_all
    then show ?thesis
      using add_in_place_pixels [of up "surface_of w h (buffer_at old ?m a b (input_residual i))"] size solids up by simp
  qed
  show ?thesis
    unfolding decode_full_plane_def Let_def using on
    by (simp add: decoder_residuals_pixels [OF given on(2)] refreshed buffered shown)
qed

section \<open>A plane of two transforms\<close>

definition pixel_decoder :: decoder where
  "pixel_decoder = (loop_decoder (loop_encoder (loop_picture True)))
     \<lparr>dc_dimensions := (en_dimensions (loop_encoder (loop_picture True)))\<lparr>dm_plane_width := \<lambda>_. 4\<rparr>,
      dc_temporal_buffer := (\<lambda>_. Some (buffer_of (surface_of 4 2 (\<lambda>x y. 100 * int x + int y))))\<rparr>"

definition pixel_input :: plane_input where
  "pixel_input = \<lparr>in_size = 2, in_1d = False, in_dequants = [replicate 4 (161, 34), replicate 4 (199, 43)],
     in_marks = \<lparr>sf_width = 2, sf_height = 1, sf_pixels = [temporal_intr, temporal_pred]\<rparr>,
     in_layers = (\<lambda>l. surface_of 2 1 (\<lambda>x y. int l - 2 * int x))\<rparr>"

definition pixel_symbols :: layer_surfaces where
  "pixel_symbols = (\<lambda>(plane, loq, l). if l = 4 then Mask_Surface (in_marks pixel_input) else Residual_Surface (in_layers pixel_input l))"

lemma pixel_given: "plane_given (\<lambda>_. 0) pixel_decoder pixel_symbols 0 (4, 2) pixel_input"
proof -
  have "rbind (decoder_step_widths loop_global (loop_picture True) 0 LOQ_LEVEL_2)
      (all_dequants (\<lambda>_. 0) (loop_picture True) (\<lambda>_. - 1) 4) = Inr (in_dequants pixel_input)" by code_simp
  moreover have "sg_global_configuration (dc_configuration pixel_decoder) = loop_global"
    "sg_picture_configuration (dc_configuration pixel_decoder) = loop_picture True"
    "plane_sizes (dc_dimensions pixel_decoder) 0 LOQ_LEVEL_2 = (4, 2)" "dc_quant_matrix_coeffs pixel_decoder = (\<lambda>_. - 1)"
    by (simp_all add: pixel_decoder_def loop_decoder_def loop_encoder_def plane_sizes_def)
  moreover have "unat (gc_num_residual_layers loop_global) = 4" "unat (gc_transform_block_size loop_global) = 2"
    "is_horizontal_only loop_global LOQ_LEVEL_2 = Inr (in_1d pixel_input)"
    "get_temporal_mask loop_global (loop_picture True) (Mask_Surface (in_marks pixel_input)) = Inr (Some (in_marks pixel_input))"
    by (simp_all add: is_horizontal_only_def vector_at_def get_temporal_mask_def loop_picture_def loop_global_def sample_global_def pixel_input_def)
  moreover have "list_all (\<lambda>l. pixel_symbols (0, LOQ_LEVEL_2, l) = Residual_Surface (in_layers pixel_input l) \<and>
      surface_wf (in_layers pixel_input l) \<and> sf_width (in_layers pixel_input l) = 2 \<and> sf_height (in_layers pixel_input l) = 1) [0..<4]"
    "pixel_symbols (0, LOQ_LEVEL_2, 4) = Mask_Surface (in_marks pixel_input)" "in_size pixel_input = 2"
    "surface_wf (in_marks pixel_input)" "sf_width (in_marks pixel_input) = 2" "sf_height (in_marks pixel_input) = 1"
    by (simp_all add: list_all_iff pixel_symbols_def pixel_input_def) (simp add: surface_wf_def)
  ultimately show ?thesis by (simp add: plane_given_def Let_def)
qed

theorem full_plane_pixels_witness:
  "\<exists>s buffer. decode_full_plane (\<lambda>_. 0) True pixel_symbols 0 (surface_of 4 2 (\<lambda>x y. 7 * int x - int y)) pixel_decoder =
      Inr (s, set_buffer 0 buffer pixel_decoder) \<and> sf_pixels s = [1323, - 434, - 142, - 35, - 840, - 37, - 532, 355]"
proof -
  let ?up = "surface_of 4 2 (\<lambda>x y. 7 * int x - int y)" and ?old = "surface_of 4 2 (\<lambda>x y. 100 * int x + int y)"
  let ?new = "buffer_at ?old (in_marks pixel_input) 1 1 (input_residual pixel_input)"
  have "is_enhanced (sg_global_configuration (dc_configuration pixel_decoder)) (sg_picture_configuration (dc_configuration pixel_decoder)) 0"
    "gc_temporal_enabled (sg_global_configuration (dc_configuration pixel_decoder)) \<noteq> 0"
    "dc_temporal_buffer pixel_decoder 0 = Some (buffer_of ?old)"
    by (simp_all add: pixel_decoder_def loop_decoder_def loop_encoder_def is_enhanced_def loop_global_def sample_global_def
        loop_picture_def sample_picture_def)
  moreover have "4 = sf_width (in_marks pixel_input) * 2 ^ 1" "2 = sf_height (in_marks pixel_input) * 2 ^ 1"
    by (simp_all add: pixel_input_def)
  ultimately have "decode_full_plane (\<lambda>_. 0) True pixel_symbols 0 ?up pixel_decoder =
      Inr (surface_of 4 2 (\<lambda>x y. to_int16 (pixel ?up x y + ?new x y)), set_buffer 0 (surface_of 4 2 ?new) pixel_decoder)"
    by (intro full_plane_pixels [OF pixel_given]) simp_all
  moreover have "sf_pixels (surface_of 4 2 (\<lambda>x y. to_int16 (pixel ?up x y + ?new x y))) = [1323, - 434, - 142, - 35, - 840, - 37, - 532, 355]"
    by code_simp
  ultimately show ?thesis by blast
qed

end
