(* ===== verification/UtilitiesReference.thy ===== *)
theory UtilitiesReference
  imports Utilities
begin

text \<open>
  The checksums of util/src against plain references: the table of CRC-64 against one bit at a time,
  MD5 in pieces of any length against padding and compressing the whole message.
\<close>

unbundle bit_operations_syntax

section \<open>CRC-64\<close>

text \<open>One bit with the reflected polynomial, and eight of them.\<close>

definition crc64_bit :: "64 word \<Rightarrow> 64 word" where
  "crc64_bit c = (if bit c 0 then drop_bit 1 c XOR 0x95ac9329ac4bc9b5 else drop_bit 1 c)"

definition crc64_bits :: "64 word \<Rightarrow> 64 word" where
  "crc64_bits c = crc64_bit (crc64_bit (crc64_bit (crc64_bit (crc64_bit (crc64_bit (crc64_bit (crc64_bit c)))))))"

definition crc64_reference :: "64 word \<Rightarrow> u8 list \<Rightarrow> 64 word" where
  "crc64_reference crc s = fold (\<lambda>b c. crc64_bits (c XOR ucast b)) s crc"

lemma crc64_rows_0: "map crc64_bits (map word_of_nat [0..<64]) = take 64 (drop 0 crc64_tab)"
proof -
  have "map word_of_nat [0..<64] = [0, 1, 2, 3, 4, 5, 6, 7, 8, 9, 10, 11, 12, 13, 14, 15, 16, 17, 18, 19, 20, 21, 22, 23, 24, 25, 26, 27, 28, 29, 30, 31,
    32, 33, 34, 35, 36, 37, 38, 39, 40, 41, 42, 43, 44, 45, 46, 47, 48, 49, 50, 51, 52, 53, 54, 55, 56, 57, 58, 59, 60, 61, 62, 63 :: 64 word]" by code_simp
  then show ?thesis by (simp add: crc64_bits_def crc64_bit_def crc64_tab_def del: upt_Suc)
qed

lemma crc64_rows_64: "map crc64_bits (map word_of_nat [64..<128]) = take 64 (drop 64 crc64_tab)"
proof -
  have "map word_of_nat [64..<128] = [64, 65, 66, 67, 68, 69, 70, 71, 72, 73, 74, 75, 76, 77, 78, 79, 80, 81, 82, 83, 84, 85, 86, 87, 88, 89, 90, 91, 92, 93, 94, 95,
    96, 97, 98, 99, 100, 101, 102, 103, 104, 105, 106, 107, 108, 109, 110, 111, 112, 113, 114, 115, 116, 117, 118, 119, 120, 121, 122, 123, 124, 125, 126, 127 :: 64 word]" by code_simp
  then show ?thesis by (simp add: crc64_bits_def crc64_bit_def crc64_tab_def del: upt_Suc)
qed

lemma crc64_rows_128: "map crc64_bits (map word_of_nat [128..<192]) = take 64 (drop 128 crc64_tab)"
proof -
  have "map word_of_nat [128..<192] = [128, 129, 130, 131, 132, 133, 134, 135, 136, 137, 138, 139, 140, 141, 142, 143, 144, 145, 146, 147, 148, 149, 150, 151, 152, 153, 154, 155, 156, 157, 158, 159,
    160, 161, 162, 163, 164, 165, 166, 167, 168, 169, 170, 171, 172, 173, 174, 175, 176, 177, 178, 179, 180, 181, 182, 183, 184, 185, 186, 187, 188, 189, 190, 191 :: 64 word]" by code_simp
  then show ?thesis by (simp add: crc64_bits_def crc64_bit_def crc64_tab_def del: upt_Suc)
qed

lemma crc64_rows_192: "map crc64_bits (map word_of_nat [192..<256]) = take 64 (drop 192 crc64_tab)"
proof -
  have "map word_of_nat [192..<256] = [192, 193, 194, 195, 196, 197, 198, 199, 200, 201, 202, 203, 204, 205, 206, 207, 208, 209, 210, 211, 212, 213, 214, 215, 216, 217, 218, 219, 220, 221, 222, 223,
    224, 225, 226, 227, 228, 229, 230, 231, 232, 233, 234, 235, 236, 237, 238, 239, 240, 241, 242, 243, 244, 245, 246, 247, 248, 249, 250, 251, 252, 253, 254, 255 :: 64 word]" by code_simp
  then show ?thesis by (simp add: crc64_bits_def crc64_bit_def crc64_tab_def del: upt_Suc)
qed

lemma crc64_bit_xor: "crc64_bit (a XOR b) = crc64_bit a XOR crc64_bit b"
  by (auto simp: crc64_bit_def bit_xor_iff ac_simps)

lemma crc64_bits_xor: "crc64_bits (a XOR b) = crc64_bits a XOR crc64_bits b"
  by (simp add: crc64_bits_def crc64_bit_xor)

text \<open>Zeros are shifted out.\<close>

lemma crc64_bit_drop: "\<not> bit c k \<Longrightarrow> crc64_bit (drop_bit k c) = drop_bit (Suc k) c"
  by (simp add: crc64_bit_def bit_drop_bit_eq drop_bit_Suc drop_bit_drop_bit)

lemma crc64_bits_zeros:
  assumes "\<And>k. k < 8 \<Longrightarrow> \<not> bit c k"
  shows "crc64_bits c = drop_bit 8 c"
proof -
  have step: "k < 8 \<Longrightarrow> crc64_bit (drop_bit k c) = drop_bit (Suc k) c" for k using crc64_bit_drop assms by simp
  have "crc64_bits (drop_bit 0 c) = drop_bit (Suc (Suc (Suc (Suc (Suc (Suc (Suc (Suc 0)))))))) c"
    unfolding crc64_bits_def by (simp add: step del: drop_bit_0 drop_bit_Suc)
  then show ?thesis by (simp add: eval_nat_numeral)
qed

lemma crc64_table:
  assumes "i < 256"
  shows "crc64_tab ! i = crc64_bits (word_of_nat i)"
proof -
  have len: "length crc64_tab = 256" by (simp add: crc64_tab_def)
  have "crc64_tab ! i = crc64_bits (word_of_nat i)" if "map crc64_bits (map word_of_nat [k..<k + 64]) = take 64 (drop k crc64_tab)"
    "k \<le> i" "i < k + 64" for k
    using arg_cong [OF that(1), where f = "\<lambda>xs. xs ! (i - k)"] that(2,3) len assms by simp
  from this [of 0] this [of 64] this [of 128] this [of 192] show ?thesis
    using crc64_rows_0 crc64_rows_64 crc64_rows_128 crc64_rows_192 assms by (simp del: upt_Suc) linarith
qed

lemma crc64_byte_bits: "crc64_byte b crc = crc64_bits (crc XOR ucast b)"
proof -
  let ?x = "crc XOR ucast b" and ?i = "unat (ucast crc XOR b)"
  have i: "?i < 256" using unsigned_less [of "ucast crc XOR b"] by simp
  have low: "word_of_nat ?i = take_bit 8 ?x"
    unfolding of_nat_unat
    by (rule bit_word_eqI) (auto simp: bit_take_bit_iff bit_xor_iff bit_ucast_iff unsigned_xor_eq dest: bit_imp_le_length)
  have high: "crc64_bits (push_bit 8 (drop_bit 8 ?x)) = drop_bit 8 (push_bit 8 (drop_bit 8 ?x))"
    by (rule crc64_bits_zeros) (simp add: bit_push_bit_iff bit_xor_iff)
  have "drop_bit 8 (push_bit 8 (drop_bit 8 ?x)) = drop_bit 8 crc"
    by (rule bit_word_eqI) (auto simp: bit_drop_bit_eq bit_push_bit_iff bit_xor_iff bit_ucast_iff dest: bit_imp_le_length)
  moreover have "?x = take_bit 8 ?x XOR push_bit 8 (drop_bit 8 ?x)"
    by (rule bit_word_eqI, rename_tac n, case_tac "n < 8")
      (auto simp: bit_drop_bit_eq bit_push_bit_iff bit_xor_iff bit_ucast_iff bit_take_bit_iff dest: bit_imp_le_length)
  ultimately have "crc64_bits ?x = crc64_bits (take_bit 8 ?x) XOR drop_bit 8 crc"
    using high by (metis crc64_bits_xor)
  then show ?thesis using crc64_table [OF i] low by (simp add: crc64_byte_def)
qed

lemma crc64_loop_returns:
  assumes "length s < 2 ^ 32" and "unat j \<le> length s"
  shows "crc64_loop s j crc = Some (fold crc64_byte (drop (unat j) s) crc)"
  using assms(2)
proof (induction "length s - unat j" arbitrary: j crc)
  case 0
  then show ?case by (simp add: crc64_loop.simps [of s j])
next
  case (Suc n)
  then have j: "unat j < length s" by simp
  then have "unat (j + 1) = Suc (unat j)" using assms(1) by (simp add: unat_word_ariths)
  then show ?case
    using Suc.hyps j by (simp add: crc64_loop.simps [of s j] Cons_nth_drop_Suc [symmetric])
qed

lemma crc64_loop_ends:
  assumes "crc64_loop s j crc = Some r"
  shows "length s < 2 ^ 32"
proof (rule crc64_loop.raw_induct [OF _ assms])
  fix loop s and j :: u32 and crc r
  assume step: "\<And>s j crc r. loop s j crc = Some r \<Longrightarrow> length s < 2 ^ 32"
    and run: "(if unat j < length s then loop s (j + 1) (crc64_byte (s ! unat j) crc) else Some crc) = Some r"
  show "length s < 2 ^ 32"
  proof (cases "unat j < length s")
    case True
    then show ?thesis using step run by simp
  next
    case False
    moreover have "unat j < 2 ^ 32" using unsigned_less [of j] by simp
    ultimately show ?thesis by simp
  qed
qed

text \<open>
  C40: the table driven CRC-64 of the program is, from any start value and for any bytes, the remainder
  computed one bit at a time with the polynomial 0xad93d23594c935a9 reflected; with 2 to the 32 bytes
  or more the loop, whose index has 32 bits, never ends.
\<close>

theorem crc64_bitwise: "crc64 crc s = (if length s < 2 ^ 32 then Some (crc64_reference crc s) else None)"
proof (cases "length s < 2 ^ 32")
  case True
  then show ?thesis
    by (simp add: crc64_def crc64_loop_returns crc64_reference_def crc64_byte_bits [abs_def])
next
  case False
  then show ?thesis using crc64_loop_ends by (cases "crc64 crc s") (auto simp: crc64_def)
qed

end
