(* ===== verification/DigestConstants.thy ===== *)
theory DigestConstants
  imports Prelude
begin

text \<open>
  The constants of MD5, as RFC 1321 defines them: the integer part of 2 to the 32 times the absolute
  value of the sine of 1 to 64 radians. They are computed by turning the unit vector by one radian,
  in fixed point with 80 bits behind the point, with a bound on the error.
\<close>

definition md5_constant :: "nat \<Rightarrow> u32" where
  "md5_constant i = word_of_int \<lfloor>4294967296 * \<bar>sin (real (i + 1))\<bar>\<rfloor>"

section \<open>One radian\<close>

abbreviation fixed_one :: int where "fixed_one \<equiv> 1208925819614629174706176"
abbreviation fixed_sin :: int where "fixed_sin \<equiv> 1017275999990815458903786"
abbreviation fixed_cos :: int where "fixed_cos \<equiv> 653185407961314874212934"

lemma sum_upto: "(\<Sum>m<n. f m) = sum_list (map f [0..<n])"
  by (simp add: interv_sum_list_conv_sum_set_nat atLeast0LessThan)

lemma sin_one: "\<bar>of_int fixed_one * sin 1 - of_int fixed_sin\<bar> \<le> (1 :: real)"
proof -
  let ?t = "\<Sum>m<27. sin_coeff m * 1 ^ m :: real"
  have "\<bar>sin 1 - ?t\<bar> \<le> inverse (fact 27) * \<bar>1\<bar> ^ 27" by (rule Maclaurin_sin_bound)
  then have "\<bar>sin 1 - ?t\<bar> \<le> 1 / 10888869450418352160768000000" by (simp add: fact_numeral)
  moreover have "\<bar>of_int fixed_one * ?t - of_int fixed_sin\<bar> \<le> (3 / 5 :: real)"
    unfolding sum_upto by (simp add: upt_rec sin_coeff_def fact_numeral)
  ultimately show ?thesis unfolding of_int_numeral abs_le_iff by linarith
qed

lemma cos_one: "\<bar>of_int fixed_one * cos 1 - of_int fixed_cos\<bar> \<le> (1 :: real)"
proof -
  let ?t = "\<Sum>m<27. cos_coeff m * 1 ^ m :: real"
  obtain t where t: "cos 1 = ?t + cos (t + 1 / 2 * real 27 * pi) / fact 27 * 1 ^ 27"
    using Maclaurin_cos_expansion [of 1 27] by blast
  have "\<bar>cos (t + 1 / 2 * real 27 * pi)\<bar> \<le> 1" by (rule abs_cos_le_one)
  then have "\<bar>cos 1 - ?t\<bar> \<le> 1 / 10888869450418352160768000000"
    unfolding t by (simp add: fact_numeral abs_le_iff field_simps)
  moreover have "\<bar>of_int fixed_one * ?t - of_int fixed_cos\<bar> \<le> (3 / 5 :: real)"
    unfolding sum_upto by (simp add: upt_rec cos_coeff_def fact_numeral)
  ultimately show ?thesis unfolding of_int_numeral abs_le_iff by linarith
qed

section \<open>Turning\<close>

definition turn :: "int \<times> int \<Rightarrow> int \<times> int" where
  "turn = (\<lambda>(s, c). ((s * fixed_cos + c * fixed_sin) div fixed_one, (c * fixed_cos - s * fixed_sin) div fixed_one))"

definition near :: "nat \<Rightarrow> real \<Rightarrow> int \<times> int \<Rightarrow> bool" where
  "near k e = (\<lambda>(s, c). \<bar>of_int fixed_one * sin (real k) - of_int s\<bar> \<le> e \<and> \<bar>of_int fixed_one * cos (real k) - of_int c\<bar> \<le> e)"

text \<open>A product of two approximations, one of them divided.\<close>

lemma product_error:
  fixes a b x y e :: real
  assumes "\<bar>N * a - x\<bar> \<le> e" and "\<bar>N * b - y\<bar> \<le> 1" and "\<bar>a\<bar> \<le> 1" and "\<bar>y\<bar> \<le> N * q" and "0 < N"
  shows "\<bar>N * (a * b) - x * y / N\<bar> \<le> q * e + 1"
proof -
  have "N * (a * b) - x * y / N = (N * a - x) * (y / N) + a * (N * b - y)"
    using assms(5) by (simp add: field_simps)
  also have "\<bar>\<dots>\<bar> \<le> \<bar>N * a - x\<bar> * \<bar>y / N\<bar> + \<bar>a\<bar> * \<bar>N * b - y\<bar>"
    by (metis abs_mult abs_triangle_ineq)
  also have "\<dots> \<le> e * q + 1 * 1"
    using assms by (intro add_mono mult_mono) (auto simp: field_simps)
  finally show ?thesis by (simp add: mult.commute)
qed

lemma near_turn:
  assumes "near k e p"
  shows "near (Suc k) (7 / 5 * e + 3) (turn p)"
proof -
  obtain s c where p: "p = (s, c)" by force
  let ?N = "of_int fixed_one :: real" and ?S = "of_int fixed_sin :: real" and ?C = "of_int fixed_cos :: real"
  have s: "\<bar>?N * sin k - of_int s\<bar> \<le> e" and c: "\<bar>?N * cos k - of_int c\<bar> \<le> e" using assms by (simp_all add: near_def p)
  have N: "0 < ?N" and Q: "\<bar>?C\<bar> \<le> ?N * (11 / 20)" "\<bar>?S\<bar> \<le> ?N * (17 / 20)" by simp_all
  note prod = product_error [OF s cos_one abs_sin_le_one Q(1) N] product_error [OF c sin_one abs_cos_le_one Q(2) N]
    product_error [OF c cos_one abs_cos_le_one Q(1) N] product_error [OF s sin_one abs_sin_le_one Q(2) N]
  have low: "of_int (n div fixed_one) \<le> of_int n / ?N \<and> of_int n / ?N \<le> of_int (n div fixed_one) + (1 :: real)" for n
    using floor_correct [of "of_int n / ?N"] unfolding floor_divide_of_int_eq by linarith
  have "sin (real (Suc k)) = sin k * cos 1 + cos k * sin 1" "cos (real (Suc k)) = cos k * cos 1 - sin k * sin 1"
    using sin_add [of "real k" 1] cos_add [of "real k" 1] by (simp_all add: add.commute)
  moreover have "of_int (s * fixed_cos + c * fixed_sin) / ?N = of_int s * ?C / ?N + of_int c * ?S / ?N"
    "of_int (c * fixed_cos - s * fixed_sin) / ?N = of_int c * ?C / ?N - of_int s * ?S / ?N"
    by (simp_all only: of_int_add of_int_diff of_int_mult add_divide_distrib diff_divide_distrib)
  ultimately show ?thesis
    using prod low [of "s * fixed_cos + c * fixed_sin"] low [of "c * fixed_cos - s * fixed_sin"]
    unfolding near_def turn_def p prod.case distrib_left right_diff_distrib abs_le_iff by (intro conjI; linarith)
qed

lemma near_turns: "near k (15 / 2 * ((7 / 5) ^ k - 1)) ((turn ^^ k) (0, fixed_one))"
proof (induction k)
  case 0
  then show ?case by (simp add: near_def)
next
  case (Suc k)
  have "7 / 5 * (15 / 2 * ((7 / 5) ^ k - 1)) + 3 = 15 / 2 * ((7 / 5) ^ Suc k - 1 :: real)" by (simp add: algebra_simps)
  then show ?case using near_turn [OF Suc] by (simp only: funpow.simps o_apply)
qed

lemma turned_sine:
  assumes "k \<le> 64"
  shows "\<bar>of_int fixed_one * \<bar>sin (real k)\<bar> - of_int \<bar>fst ((turn ^^ k) (0, fixed_one))\<bar>\<bar> \<le> (34359738368 :: real)"
proof -
  obtain s c where p: "(turn ^^ k) (0, fixed_one) = (s, c)" by force
  have "(7 / 5) ^ k \<le> ((7 / 5) ^ 64 :: real)" using assms by (rule power_increasing) simp
  also have "\<dots> \<le> 4581298449" by (simp add: eval_nat_numeral)
  finally have "15 / 2 * ((7 / 5) ^ k - 1) \<le> (34359738368 :: real)" by simp
  then have "\<bar>of_int fixed_one * sin (real k) - of_int s\<bar> \<le> (34359738368 :: real)"
    using near_turns [of k] unfolding near_def p prod.case by (blast intro: order_trans)
  moreover have "\<bar>of_int fixed_one * \<bar>sin (real k)\<bar> - of_int \<bar>s\<bar>\<bar> \<le> \<bar>of_int fixed_one * sin (real k) - (of_int s :: real)\<bar>"
    using abs_triangle_ineq3 [of "of_int fixed_one * sin (real k)" "of_int s"] by (simp add: abs_mult)
  ultimately show ?thesis unfolding p fst_conv by linarith
qed

section \<open>A table of constants\<close>

text \<open>Both ends of the interval around each sine have the integer part of the table.\<close>

fun constants_ok :: "u32 list \<Rightarrow> int \<times> int \<Rightarrow> bool" where
  "constants_ok [] p = True"
| "constants_ok (w # ws) p =
     (let p = turn p; s = \<bar>fst p\<bar> in
      (s - 34359738368) div 281474976710656 = uint w \<and> (s + 34359738368) div 281474976710656 = uint w \<and> constants_ok ws p)"

lemma div_bounds:
  assumes "0 < (b :: int)" and "a div b = n"
  shows "b * n \<le> a" and "a < b * (n + 1)"
proof -
  have "a = b * n + a mod b" using mult_div_mod_eq [of b a] assms(2) by simp
  then show "b * n \<le> a" "a < b * (n + 1)"
    using pos_mod_sign [OF assms(1), of a] pos_mod_bound [OF assms(1), of a] unfolding distrib_left by linarith+
qed

lemma constant_found:
  assumes "k \<le> 64" and "s = \<bar>fst ((turn ^^ k) (0, fixed_one))\<bar>" and "0 < k"
    and "(s - 34359738368) div 281474976710656 = n" and "(s + 34359738368) div 281474976710656 = n"
  shows "md5_constant (k - 1) = word_of_int n"
proof -
  have "281474976710656 * n \<le> s - 34359738368" "s + 34359738368 < 281474976710656 * (n + 1)"
    using div_bounds [OF _ assms(4)] div_bounds [OF _ assms(5)] by simp_all
  then have "281474976710656 * of_int n \<le> of_int s - (34359738368 :: real)"
    "of_int s + (34359738368 :: real) < 281474976710656 * (of_int n + 1)"
    unfolding of_int_le_iff [symmetric, where 'a = real] of_int_less_iff [symmetric, where 'a = real] by simp_all
  moreover have "\<bar>of_int fixed_one * \<bar>sin (real k)\<bar> - of_int s\<bar> \<le> (34359738368 :: real)"
    using turned_sine [OF assms(1)] by (simp only: assms(2))
  note abs_le_D1 [OF this] abs_le_D2 [OF this]
  ultimately have "of_int n \<le> 4294967296 * \<bar>sin (real k)\<bar>" "4294967296 * \<bar>sin (real k)\<bar> < of_int n + 1" by simp_all
  then have "\<lfloor>4294967296 * \<bar>sin (real k)\<bar>\<rfloor> = n" by (rule floor_unique)
  then show ?thesis using assms(3) by (simp add: md5_constant_def of_nat_diff)
qed

lemma constants_okD:
  assumes "constants_ok ws ((turn ^^ k) (0, fixed_one))" and "k + length ws \<le> 64"
  shows "ws = map md5_constant [k..<k + length ws]"
  using assms
proof (induction ws arbitrary: k)
  case (Cons w ws)
  let ?p = "(turn ^^ Suc k) (0, fixed_one)"
  have ok: "(\<bar>fst ?p\<bar> - 34359738368) div 281474976710656 = uint w" "(\<bar>fst ?p\<bar> + 34359738368) div 281474976710656 = uint w"
    "constants_ok ws ?p" using Cons.prems(1) by (simp_all add: Let_def)
  have "md5_constant k = w"
    using constant_found [OF _ refl _ ok(1,2)] Cons.prems(2) by simp
  moreover have "ws = map md5_constant [Suc k..<Suc k + length ws]"
    using Cons.IH [OF ok(3)] Cons.prems(2) by simp
  ultimately show ?case by (simp add: upt_rec)
qed simp

end
