(* ===== verification/DigestReference.thy ===== *)
theory DigestReference
  imports Utilities DigestConstants
begin

text \<open>
  The digest of util/src/LcevcMd5.cpp against a plain reference in the form of RFC 1321: however a
  message is cut into pieces, the context's digest is that of padding and compressing it whole.
\<close>

unbundle bit_operations_syntax

section \<open>The reference\<close>











section \<open>The compression\<close>











section \<open>Messages in pieces\<close>




text \<open>What is left after the whole blocks.\<close>

definition md5_tail :: "u8 list \<Rightarrow> u8 list" where
  "md5_tail m = drop (length m - length m mod 64) m"

lemma length_md5_tail [simp]: "length (md5_tail m) = length m mod 64"
  by (simp add: md5_tail_def)







section \<open>The counters\<close>






lemma md5_count_frame [simp]: "md_h (md5_count n md) = md_h md" "md_msg (md5_count n md) = md_msg md"
  by (simp_all add: md5_count_def Let_def)

section \<open>One piece\<close>






section \<open>The end of a message\<close>





lemma md5_copy_frame [simp]: "md_h (md5_copy i src md) = md_h md"
  "md_bits_0 (md5_copy i src md) = md_bits_0 md" "md_bits_1 (md5_copy i src md) = md_bits_1 md"
  by (simp_all add: md5_copy_def)

lemma md5_block_frame [simp]: "md_bits_0 (md5_block b md) = md_bits_0 md" "md_bits_1 (md5_block b md) = md_bits_1 md"
  by (simp_all add: md5_block_def)


lemma length_bytes_of [simp]: "length (bytes_of w) = 4"
  by (simp add: bytes_of_def)




section \<open>Pictures\<close>









end
