(* ===== verification/Parameters.thy ===== *)
theory Parameters
  imports PriorityMap TemporalEncode Resampling
begin

text \<open>
  util/include/Parameters.hpp and util/src/Parameters.cpp: named parameters of several types and their
  defaults; src/Types.cpp: the names of the enumerations a parameter can hold. \<open>ERR\<close> raises as \<open>FATAL\<close>
  does. A \<open>double\<close> of a JSON document is a finite number.
\<close>

section \<open>Words of a stream\<close>

text \<open>\<open>in >> s\<close>: white space is skipped, then a word is read. The locale is the C locale.\<close>

definition is_space :: "char \<Rightarrow> bool" where
  "is_space c \<longleftrightarrow> c \<in> {CHR '' '', CHR 0x09, CHR 0x0A, CHR 0x0B, CHR 0x0C, CHR 0x0D}"

definition stream_word :: "string \<Rightarrow> string" where
  "stream_word s = takeWhile (\<lambda>c. \<not> is_space c) (dropWhile is_space s)"

text \<open>
  \<open>in >> r\<close> of an unsigned number: what is stored in \<open>r\<close> if anything is, the rest of the stream and
  whether the stream is still good. At the end of the stream nothing is stored; without a digit zero
  is stored, and a number that does not fit becomes the largest; both fail.
\<close>

definition is_digit :: "char \<Rightarrow> bool" where
  "is_digit c \<longleftrightarrow> 48 \<le> (of_char c :: nat) \<and> (of_char c :: nat) \<le> 57"

definition decimal :: "string \<Rightarrow> nat" where
  "decimal ds = fold (\<lambda>c n. 10 * n + (of_char c - 48)) ds 0"

definition read_unsigned :: "string \<Rightarrow> u32 option \<times> string \<times> bool" where
  "read_unsigned s =
     (let s = dropWhile is_space s in
      if s = [] then (None, [], False)
      else
        let negative = hd s = CHR ''-'';
            body = if hd s \<in> {CHR ''-'', CHR ''+''} then tl s else s;
            ds = takeWhile is_digit body; rest = dropWhile is_digit body; n = decimal ds in
        if ds = [] then (Some 0, rest, False)
        else if 4294967295 < n then (Some 4294967295, rest, False)
        else (Some (if negative then - word_of_nat n else word_of_nat n), rest, True))"

text \<open>
  The loop of \<open>get_vector\<close>: once the stream has failed the last number is stored again; a number
  that was never read has no value.
\<close>

definition vector_step :: "nat \<Rightarrow> u32 option \<times> string \<times> bool \<times> u32 list \<Rightarrow> (u32 option \<times> string \<times> bool \<times> u32 list) result" where
  "vector_step i = (\<lambda>(r, s, good, dest).
     let (r, s, good) =
       (if good then (case read_unsigned s of (Some v, s, good) \<Rightarrow> (Some v, s, good) | (None, s, good) \<Rightarrow> (r, s, good))
        else (r, s, good)) in
     case r of
       None \<Rightarrow> Inl UndefinedBehaviour
     | Some v \<Rightarrow> if i < length dest then Inr (r, s, good, dest[i := v]) else Inl OutOfRange)"

section \<open>Enumerations\<close>

text \<open>Each \<open>operator>>\<close> reads a word, ignores its case and looks it up.\<close>

datatype base_coding = BaseCoding_Unknown | BaseCoding_AVC | BaseCoding_HEVC | BaseCoding_VVC | BaseCoding_EVC
  | BaseCoding_X265 | BaseCoding_YUV

datatype encapsulation = Encapsulation_None | Encapsulation_SEI_Unregistered | Encapsulation_SEI_Registered
  | Encapsulation_NAL

datatype parameter_config = ParameterConfig_Default | ParameterConfig_Conformance

definition upsample_names :: "(string \<times> upsample) list" where
  "upsample_names = [(''nearest'', Upsample_Nearest), (''linear'', Upsample_Linear), (''cubic'', Upsample_Cubic),
     (''modifiedcubic'', Upsample_ModifiedCubic), (''adaptivecubic'', Upsample_AdaptiveCubic)]"

definition downsample_names :: "(string \<times> downsample) list" where
  "downsample_names = [(''area'', Downsample_Area), (''lanczos'', Downsample_Lanczos), (''lanczos3'', Downsample_Lanczos3)]"

definition scaling_mode_names :: "(string \<times> scaling_mode) list" where
  "scaling_mode_names = [(''none'', ScalingMode_None), (''1d'', ScalingMode_1D), (''2d'', ScalingMode_2D)]"

definition dithering_type_names :: "(string \<times> dithering_type) list" where
  "dithering_type_names = [(''none'', Dithering_None), (''uniform'', Dithering_Uniform), (''uniform_fixed'', Dithering_UniformFixed)]"

definition dequant_offset_names :: "(string \<times> dequant_offset) list" where
  "dequant_offset_names = [(''default'', DequantOffset_Default), (''const_offset'', DequantOffset_ConstOffset)]"

definition transform_type_names :: "(string \<times> transform_type) list" where
  "transform_type_names = [(''dd'', TransformType_DD), (''dds'', TransformType_DDS)]"

definition base_coding_names :: "(string \<times> base_coding) list" where
  "base_coding_names =
    [(''avc'', BaseCoding_AVC), (''h264'', BaseCoding_AVC), (''baseyuv'', BaseCoding_AVC), (''baseyuv_avc'', BaseCoding_AVC),
     (''hevc'', BaseCoding_HEVC), (''h265'', BaseCoding_HEVC), (''baseyuv_hevc'', BaseCoding_HEVC),
     (''vvc'', BaseCoding_VVC), (''baseyuv_vvc'', BaseCoding_VVC), (''evc'', BaseCoding_EVC), (''baseyuv_evc'', BaseCoding_EVC),
     (''yuv'', BaseCoding_YUV), (''none'', BaseCoding_YUV), (''baseyuv_x265'', BaseCoding_X265), (''x265'', BaseCoding_X265)]"

definition encapsulation_names :: "(string \<times> encapsulation) list" where
  "encapsulation_names =
    [(''none'', Encapsulation_None), (''sei'', Encapsulation_SEI_Unregistered), (''sei_unreg'', Encapsulation_SEI_Unregistered),
     (''sei_reg'', Encapsulation_SEI_Registered), (''nal'', Encapsulation_NAL)]"

definition quant_matrix_names :: "(string \<times> quant_matrix) list" where
  "quant_matrix_names =
    [(''previous'', QuantMatrix_BothPrevious), (''default'', QuantMatrix_BothDefault), (''custom'', QuantMatrix_SameAndCustom),
     (''custom_default'', QuantMatrix_Level2CustomLevel1Default), (''default_custom'', QuantMatrix_Level2DefaultLevel1Custom),
     (''custom_custom'', QuantMatrix_DifferentAndCustom)]"

definition compression_type_names :: "(string \<times> compression_type) list" where
  "compression_type_names =
    [(''none'', CompressionType_None), (''prefix'', CompressionType_Prefix), (''prefix_diff'', CompressionType_Prefix_OnDiff)]"

definition user_data_mode_names :: "(string \<times> user_data_mode) list" where
  "user_data_mode_names = [(''none'', UserData_None), (''2bits'', UserData_2bits), (''6bits'', UserData_6bits)]"

definition user_data_method_names :: "(string \<times> user_data_method) list" where
  "user_data_method_names = [(''zeros'', UserDataMethod_Zeros), (''ones'', UserDataMethod_Ones),
     (''random'', UserDataMethod_Random), (''fixed_random'', UserDataMethod_FixedRandom)]"

definition picture_type_names :: "(string \<times> picture_type) list" where
  "picture_type_names = [(''frame'', PictureType_Frame), (''field'', PictureType_Field)]"

definition profile_names :: "(string \<times> profile) list" where
  "profile_names = [(''main'', Profile_Main), (''main444'', Profile_Main444), (''auto'', Profile_Auto)]"

definition parameter_config_names :: "(string \<times> parameter_config) list" where
  "parameter_config_names = [(''default'', ParameterConfig_Default), (''conformance'', ParameterConfig_Conformance)]"

definition extract_enum :: "(string \<times> 'a) list \<Rightarrow> string \<Rightarrow> 'a result" where
  "extract_enum names s = lookup_name names (lowercase (stream_word s))"

section \<open>Parameters\<close>

datatype parameter = P_Bool bool | P_Unsigned u32 | P_Int int | P_Double rat | P_String string

type_synonym parameters = "string \<Rightarrow> parameter option"

definition param_set :: "string \<Rightarrow> parameter \<Rightarrow> parameters \<Rightarrow> parameters" where
  "param_set name v p = p(name := Some v)"

text \<open>
  The JSON library is not modelled: \<open>json_parse\<close> stands for \<open>json::parse\<close>, with the members of an
  object in order; it throws when it is None.
\<close>

datatype json_value = J_Number rat | J_Boolean bool | J_String string | J_Other

datatype json = J_Object "(string \<times> json_value) list" | J_NoObject

definition set_item :: "string \<times> json_value \<Rightarrow> parameters \<Rightarrow> parameters" where
  "set_item = (\<lambda>(key, v) p. case v of
     J_Number x \<Rightarrow> param_set key (P_Double x) p
   | J_Boolean b \<Rightarrow> param_set key (P_Bool b) p
   | J_String s \<Rightarrow> param_set key (P_String s) p
   | J_Other \<Rightarrow> p)"

definition set_json :: "(string \<Rightarrow> json option) \<Rightarrow> string \<Rightarrow> parameters \<Rightarrow> parameters result" where
  "set_json json_parse s p = (case json_parse s of
     Some (J_Object items) \<Rightarrow> Inr (fold set_item items p)
   | _ \<Rightarrow> Inl FatalRaised)"

text \<open>\<open>dynamic_cast\<close> to the type of a parameter.\<close>

fun as_bool :: "parameter \<Rightarrow> bool option" where
  "as_bool (P_Bool b) = Some b" | "as_bool _ = None"

fun as_double :: "parameter \<Rightarrow> rat option" where
  "as_double (P_Double x) = Some x" | "as_double _ = None"

fun as_string :: "parameter \<Rightarrow> string option" where
  "as_string (P_String s) = Some s" | "as_string _ = None"

definition get_param :: "(parameter \<Rightarrow> 'a option) \<Rightarrow> parameters \<Rightarrow> string \<Rightarrow> 'a \<Rightarrow> 'a result" where
  "get_param cast_to p name dflt = (case p name of
     None \<Rightarrow> Inr dflt
   | Some v \<Rightarrow> (case cast_to v of Some x \<Rightarrow> Inr x | None \<Rightarrow> Inl FatalRaised))"

text \<open>The value of the defaults when the parameter is not set; their own default is that of the type.\<close>

definition get_param_or :: "(parameter \<Rightarrow> 'a option) \<Rightarrow> 'a \<Rightarrow> parameters \<Rightarrow> string \<Rightarrow> parameters \<Rightarrow> 'a result" where
  "get_param_or cast_to zero p name defaults = (case p name of
     None \<Rightarrow> get_param cast_to defaults name zero
   | Some v \<Rightarrow> (case cast_to v of Some x \<Rightarrow> Inr x | None \<Rightarrow> Inl FatalRaised))"

abbreviation "get_bool \<equiv> get_param as_bool"
abbreviation "get_string \<equiv> get_param as_string"
abbreviation "get_bool_or \<equiv> get_param_or as_bool False"
abbreviation "get_string_or \<equiv> get_param_or as_string []"

text \<open>\<open>unsigned\<close> accepts numbers of every type and gives the default for the others.\<close>

definition fl_to_uint32 :: "rat \<Rightarrow> u32 result" where
  "fl_to_uint32 x = (if -1 < x \<and> x < 4294967296 then Inr (word_of_int (fl_trunc x)) else Inl UndefinedBehaviour)"

definition get_unsigned :: "parameters \<Rightarrow> string \<Rightarrow> u32 \<Rightarrow> u32 result" where
  "get_unsigned p name dflt = (case p name of
     Some (P_Unsigned n) \<Rightarrow> Inr n
   | Some (P_Int i) \<Rightarrow> Inr (word_of_int i)
   | Some (P_Double x) \<Rightarrow> fl_to_uint32 x
   | _ \<Rightarrow> Inr dflt)"

definition get_unsigned_or :: "parameters \<Rightarrow> string \<Rightarrow> parameters \<Rightarrow> u32 result" where
  "get_unsigned_or p name defaults = (case p name of
     Some (P_Unsigned n) \<Rightarrow> Inr n
   | Some (P_Int i) \<Rightarrow> Inr (word_of_int i)
   | Some (P_Double x) \<Rightarrow> fl_to_uint32 x
   | _ \<Rightarrow> get_unsigned defaults name 0)"

text \<open>\<open>get<int>\<close> of a parameter of type \<open>int\<close> calls itself.\<close>

partial_function (option) get_int :: "parameters \<Rightarrow> string \<Rightarrow> int \<Rightarrow> int run" where
  "get_int p name dflt = (case p name of
     Some (P_Int _) \<Rightarrow> get_int p name dflt
   | Some (P_Unsigned _) \<Rightarrow> Some (rbind (get_unsigned p name (word_of_int dflt)) (\<lambda>n. Inr (sint n)))
   | Some (P_Double x) \<Rightarrow> Some (fl_to_int32 x)
   | _ \<Rightarrow> Some (Inr dflt))"

definition get_int_or :: "parameters \<Rightarrow> string \<Rightarrow> parameters \<Rightarrow> int run" where
  "get_int_or p name defaults = (case p name of
     Some (P_Unsigned _) \<Rightarrow> Some (rbind (get_unsigned p name 0) (\<lambda>n. Inr (sint n)))
   | Some (P_Int _) \<Rightarrow> get_int p name 0
   | Some (P_Double x) \<Rightarrow> Some (fl_to_int32 x)
   | _ \<Rightarrow> get_int defaults name 0)"

definition get_enum :: "(string \<times> 'a) list \<Rightarrow> parameters \<Rightarrow> string \<Rightarrow> 'a \<Rightarrow> 'a result" where
  "get_enum names p name dflt = (case p name of
     None \<Rightarrow> Inr dflt
   | Some v \<Rightarrow> (case as_string v of Some s \<Rightarrow> extract_enum names s | None \<Rightarrow> Inl FatalRaised))"

definition get_enum_or :: "(string \<times> 'a) list \<Rightarrow> 'a \<Rightarrow> parameters \<Rightarrow> string \<Rightarrow> parameters \<Rightarrow> 'a result" where
  "get_enum_or names zero p name defaults =
     rbind (get_enum names defaults name zero) (\<lambda>dflt. get_enum names p name dflt)"

definition get_vector :: "parameters \<Rightarrow> string \<Rightarrow> nat \<Rightarrow> u32 list \<Rightarrow> u32 list result" where
  "get_vector p name size_of dest = (case p name of
     None \<Rightarrow> Inr dest
   | Some v \<Rightarrow> (case as_string v of
       Some s \<Rightarrow> rbind (fold_result vector_step [0..<size_of] (None, s, True, dest)) (\<lambda>(_, _, _, dest). Inr dest)
     | None \<Rightarrow> Inl FatalRaised))"

section \<open>What the getters return\<close>

text \<open>An \<open>int\<close> parameter is never read: the call does not return.\<close>

lemma get_int_returns: "get_int p name dflt = Some y \<Longrightarrow> p name \<noteq> Some (P_Int i)"
  by (rule get_int.raw_induct [where P = "\<lambda>p name dflt y. p name \<noteq> Some (P_Int i)"])
    (auto split: option.splits parameter.splits)

lemma get_int_loops: "p name = Some (P_Int i) \<Longrightarrow> get_int p name dflt = None"
  using get_int_returns [of p name dflt _ i] by (cases "get_int p name dflt") auto

lemma lowercase_names:
  "extract_enum names s = (case map_of names (lowercase (stream_word s)) of Some v \<Rightarrow> Inr v | None \<Rightarrow> Inl FatalRaised)"
  by (simp add: extract_enum_def lookup_name_def)

end
