(* ===== verification/ParameterDefaults.thy ===== *)
theory ParameterDefaults
  imports Parameters Convert
begin

text \<open>
  encoder/src/ParameterDefaults.cpp: defaults of the parameters that depend on others and, for the
  transform, on the first pictures. \<open>float\<close> has 24 significant bits and \<open>double\<close> 53; every operation
  is rounded by itself.
\<close>

section \<open>Tables\<close>

text \<open>A C++ \<open>int\<close> that leaves its range has no value.\<close>

definition int32_of :: "int \<Rightarrow> int result" where
  "int32_of i = (if - 2147483648 \<le> i \<and> i \<le> 2147483647 then Inr i else Inl UndefinedBehaviour)"

definition piecewise_linear :: "u32 list \<Rightarrow> int list \<Rightarrow> u32 \<Rightarrow> int result" where
  "piecewise_linear a b v =
     (let n = length a in
      rbind (check_that (0 < n)) (\<lambda>_.
      if v \<le> a ! 0 then Inr (b ! 0)
      else if a ! (n - 1) \<le> v then Inr (b ! (n - 1))
      else
        let i = length (takeWhile (\<lambda>i. \<not> v < a ! (i + 1)) [0..<n - 1]) in
        rbind (int32_of (sint (v - a ! i) * (b ! (i + 1) - b ! i))) (\<lambda>p.
        Inr (p sdiv sint (a ! (i + 1) - a ! i) + b ! i))))"

definition sw_points :: "u32 list" where "sw_points = [800, 1250, 1900, 2250]"
definition dequant_offset_points :: "int list" where "dequant_offset_points = [50, 50, 110, 110]"
definition temporal_multiplier_points :: "int list" where "temporal_multiplier_points = [500, 500, 600, 700]"
definition temporal_modifier_points :: "int list" where "temporal_modifier_points = [48, 30, 20, 10]"

section \<open>Per stream\<close>

text \<open>The base codec by the name of its encoder. For the stream, x265 counts as EVC.\<close>

definition base_codec_global :: "string \<Rightarrow> base_coding" where
  "base_codec_global s =
     (if s \<in> {''hevc'', ''baseyuv_hevc''} then BaseCoding_HEVC
      else if s \<in> {''vvc'', ''baseyuv_vvc''} then BaseCoding_VVC
      else if s \<in> {''evc'', ''baseyuv_evc''} then BaseCoding_EVC
      else if s \<in> {''x265'', ''baseyuv_x265''} then BaseCoding_EVC
      else BaseCoding_AVC)"

text \<open>Slope and offset of the quantisation parameter of the base codec, up to 1080p and above.\<close>

definition qp_line :: "base_coding \<Rightarrow> bool \<Rightarrow> rat \<times> rat" where
  "qp_line codec hd_or_less = (case codec of
     BaseCoding_HEVC \<Rightarrow> if hd_or_less then (12 / 1000, - 155 / 10) else (148 / 10000, - 21751 / 1000)
   | BaseCoding_EVC \<Rightarrow> if hd_or_less then (68 / 10000, 39939 / 10000) else (131 / 10000, - 16669 / 1000)
   | BaseCoding_VVC \<Rightarrow> if hd_or_less then (12 / 1000, - 155 / 10) else (148 / 10000, - 2207 / 100)
   | _ \<Rightarrow> if hd_or_less then (7 / 1000, 485 / 100) else (18079 / 1000000, - 3371 / 100))"

text \<open>
  The result is an \<open>int\<close> that goes into an unsigned variable before it is clamped, so a negative one
  becomes the largest quantisation parameter.
\<close>

definition default_qp :: "base_coding \<Rightarrow> bool \<Rightarrow> u32 \<Rightarrow> u32 result" where
  "default_qp codec hd_or_less step_width_2 =
     (let (slope, offset) = qp_line codec hd_or_less in
      rbind (fl_to_int32 (fl 24 (fl 24 (fl 24 slope * fl 24 (of_int (uint step_width_2))) + fl 24 offset))) (\<lambda>q.
      Inr (clamp (word_of_int q) 0 50)))"

definition parameter_defaults_global :: "parameters \<Rightarrow> parameters result" where
  "parameter_defaults_global p =
     rbind (get_enum parameter_config_names p ''parameter_config'' ParameterConfig_Default) (\<lambda>config.
     case config of
       ParameterConfig_Default \<Rightarrow>
         rbind (get_unsigned p ''cq_step_width_loq_0'' 32767) (\<lambda>step_width_2.
         rbind (get_unsigned p ''qp'' 28) (\<lambda>qp.
         rbind (get_unsigned p ''num_processed_planes'' 1) (\<lambda>_.
         rbind (get_unsigned p ''width'' 1920) (\<lambda>width.
         rbind (get_unsigned p ''height'' 1080) (\<lambda>height.
         rbind (get_string p ''base_encoder'' []) (\<lambda>base_encoder.
         rbind (if p ''qp'' = None
                then default_qp (base_codec_global (lowercase base_encoder)) (10000 * width + height \<le> 19201080) step_width_2
                else Inr qp) (\<lambda>qp.
         Inr (param_set ''num_processed_planes'' (P_Unsigned (if 27 \<le> qp then 1 else 3))
               (param_set ''qp'' (P_Unsigned qp) (\<lambda>_. None))))))))))
     | ParameterConfig_Conformance \<Rightarrow>
         Inr (param_set ''qp'' (P_Unsigned 28)
             (param_set ''temporal_step_width_modifier'' (P_Unsigned 48)
             (param_set ''num_processed_planes'' (P_Unsigned 1)
             (param_set ''encoding_transform_type'' (P_String ''dds'')
             (param_set ''encoding_upsample'' (P_String ''modifiedcubic'') (\<lambda>_. None)))))))"

section \<open>The transform\<close>

text \<open>For a picture, x265 counts as AVC.\<close>

definition base_codec_picture :: "string \<Rightarrow> base_coding" where
  "base_codec_picture s =
     (if s \<in> {''hevc'', ''baseyuv_hevc''} then BaseCoding_HEVC
      else if s \<in> {''vvc'', ''baseyuv_vvc''} then BaseCoding_VVC
      else if s \<in> {''evc'', ''baseyuv_evc''} then BaseCoding_EVC
      else BaseCoding_AVC)"

definition sad_of_plane :: "plane \<Rightarrow> sad_source" where
  "sad_of_plane pl = (case pl of Plane8 s \<Rightarrow> SadU8 s | Plane16 s \<Rightarrow> SadU16 s)"

text \<open>Unchanged blocks, dark blocks and bright blocks of the first picture.\<close>

definition count_blocks :: "int surface \<Rightarrow> int surface \<Rightarrow> int \<Rightarrow> (nat \<times> nat \<times> nat) result" where
  "count_blocks pixel_sad zero_sad threshold_high =
     fold_result (\<lambda>(x, y) (pixel, low, high).
       rbind (surface_read pixel_sad x y) (\<lambda>s.
       rbind (surface_read zero_sad x y) (\<lambda>z.
       Inr (if s = 0 then pixel + 1 else pixel, if z < 100 then low + 1 else low,
            if \<not> z < 100 \<and> threshold_high < z then high + 1 else high))))
     [(x, y). x \<leftarrow> [0..<sf_width pixel_sad], y \<leftarrow> [0..<sf_height pixel_sad]] (0, 0, 0)"

definition ratio :: "nat \<Rightarrow> nat \<Rightarrow> rat" where
  "ratio k n = fl 53 (of_nat k / of_nat n)"

definition still_content :: "image list \<Rightarrow> bool result" where
  "still_content src_image =
     rbind (image_plane (src_image ! 0) 0) (\<lambda>first.
     rbind (desc_bit_depth (im_description (src_image ! 0))) (\<lambda>depth.
     rbind (convert_to_internal first depth) (\<lambda>src.
     rbind (image_plane (last src_image) 0) (\<lambda>final.
     rbind (desc_bit_depth (im_description (last src_image))) (\<lambda>depth_next.
     rbind (convert_to_internal final depth_next) (\<lambda>src_next.
     rbind (temporal_cost_sad (SadInternal src src_next) 2) (\<lambda>pixel_sad.
     rbind (temporal_cost_sad (sad_of_plane first) 2) (\<lambda>zero_sad.
     rbind (check_that (sf_pixels pixel_sad \<noteq> [])) (\<lambda>_.
     rbind (count_blocks pixel_sad zero_sad (to_int16 (push_bit (depth - 8) 900))) (\<lambda>(pixel, low, high).
     let n = sf_width pixel_sad * sf_height pixel_sad in
     Inr (fl 53 (7 / 100) < ratio pixel n \<and> ratio low n < fl 53 (1 / 2) \<and> ratio high n < fl 53 (2 / 10))))))))))))"

text \<open>With the 4x4 transform the step width of the second sub-layer is adapted.\<close>

definition adapted_step_width :: "base_coding \<Rightarrow> u32 \<Rightarrow> u32 result" where
  "adapted_step_width codec sw =
     (let x = fl 53 (of_int (uint sw));
          square = (\<lambda>c. fl 53 (fl 53 (fl 53 c * x) * x)); linear = (\<lambda>c. fl 53 (fl 53 c * x)) in
      rbind (if codec = BaseCoding_AVC \<or> codec = BaseCoding_HEVC
             then fl_to_uint32 (fl 53 (fl 53 (square (1 / 10000) + linear (671 / 10000)) - fl 53 (9075 / 10000)))
             else fl_to_uint32 (fl 53 (fl 53 (square (2 / 10000) - linear (1127 / 10000)) + fl 53 (16051 / 100)))) (\<lambda>n.
      Inr (clamp n 1 32767)))"

text \<open>The size of the transform, the step width and the parameters set.\<close>

definition choose_transform ::
  "parameters \<Rightarrow> image list \<Rightarrow> base_coding \<Rightarrow> u32 \<Rightarrow> parameters \<Rightarrow> (nat \<times> u32 \<times> parameters) result" where
  "choose_transform p src_image codec step_width_2 pb =
     (if p ''encoding_transform_type'' = None then
        if 1 < length src_image then
          rbind (still_content src_image) (\<lambda>still.
          if still then Inr (2, step_width_2, param_set ''encoding_transform_type'' (P_String ''dd'') pb)
          else
            rbind (adapted_step_width codec step_width_2) (\<lambda>sw.
            Inr (4, sw, param_set ''cq_step_width_loq_2'' (P_Unsigned sw)
              (param_set ''encoding_transform_type'' (P_String ''dds'') pb))))
        else Inr (4, step_width_2, pb)
      else
        rbind (get_enum transform_type_names p ''encoding_transform_type'' TransformType_DDS) (\<lambda>t.
        Inr (case t of TransformType_DD \<Rightarrow> 2 | TransformType_DDS \<Rightarrow> 4, step_width_2, pb)))"

section \<open>Per picture\<close>

definition sub_layer_1_qp :: "base_coding \<Rightarrow> u32" where
  "sub_layer_1_qp codec = (case codec of BaseCoding_HEVC \<Rightarrow> 39 | BaseCoding_EVC \<Rightarrow> 40 | BaseCoding_VVC \<Rightarrow> 41 | _ \<Rightarrow> 37)"

definition default_step_width_1 :: "parameters \<Rightarrow> base_coding \<Rightarrow> u32 \<Rightarrow> parameters \<Rightarrow> parameters" where
  "default_step_width_1 p codec base_qp pb =
     (if p ''cq_step_width_loq_1'' = None
      then param_set ''cq_step_width_loq_1'' (P_Unsigned (if sub_layer_1_qp codec \<le> base_qp then 3600 else 32767)) pb
      else pb)"

definition defaults_4x4 :: "u32 \<Rightarrow> parameters \<Rightarrow> parameters result" where
  "defaults_4x4 sw pb =
     rbind (piecewise_linear sw_points dequant_offset_points sw) (\<lambda>a.
     rbind (piecewise_linear sw_points temporal_multiplier_points sw) (\<lambda>b.
     rbind (piecewise_linear sw_points temporal_modifier_points sw) (\<lambda>c.
     Inr (param_set ''quant_matrix_mode'' (P_String ''previous'')
         (param_set ''encoding_upsample'' (P_String ''modifiedcubic'')
         (param_set ''sad_coeff_threshold'' (P_Unsigned 2)
         (param_set ''sad_threshold'' (P_Unsigned 12000)
         (param_set ''temporal_step_width_modifier'' (P_Unsigned (word_of_int c))
         (param_set ''temporal_cq_sw_multiplier'' (P_Unsigned (word_of_int b))
         (param_set ''dequant_offset'' (P_Unsigned (word_of_int a))
         (param_set ''dequant_offset_mode'' (P_String (if sw < 1900 then ''const_offset'' else ''default'')) pb)))))))))))"

text \<open>\<open>round\<close> goes away from zero on a tie.\<close>

definition fl_round :: "rat \<Rightarrow> rat" where
  "fl_round x = of_int (if 0 \<le> x then \<lfloor>x + 1 / 2\<rfloor> else - \<lfloor>- x + 1 / 2\<rfloor>)"

definition dequant_offset_2x2 :: "rat \<Rightarrow> rat" where
  "dequant_offset_2x2 x = clamp (fl_round (fl 24 (fl 24 (fl 24 (456 / 10) * x) - fl 24 (739 / 10)))) 0 100"

definition temporal_multiplier_2x2 :: "rat \<Rightarrow> rat" where
  "temporal_multiplier_2x2 x =
     fl 24 (1000 * clamp (fl 24 (fl 24 (fl 24 (fl 24 (fl 24 (129 / 1000) * x) * x) - fl 24 (fl 24 (6145 / 10000) * x)) + fl 24 (927 / 1000)))
       (fl 24 (2 / 10)) 1)"

definition temporal_modifier_2x2 :: "rat \<Rightarrow> rat" where
  "temporal_modifier_2x2 x =
     clamp (fl_round (fl 24 (fl 24 (fl 24 (fl 24 (fl 24 (- 591 / 10) * x) * x) + fl 24 (fl 24 (3283 / 10) * x)) - 374))) 0 100"

definition defaults_2x2 :: "u32 \<Rightarrow> parameters \<Rightarrow> parameters result" where
  "defaults_2x2 sw pb =
     (let x = fl 24 (fl 24 (of_int (uint sw)) / 1000) in
      rbind (fl_to_uint32 (dequant_offset_2x2 x)) (\<lambda>a.
      rbind (fl_to_uint32 (temporal_multiplier_2x2 x)) (\<lambda>b.
      rbind (if 3700 \<le> sw then Inr 0 else fl_to_uint32 (temporal_modifier_2x2 x)) (\<lambda>c.
      Inr (param_set ''qm_coefficient_2'' (P_String '' 0 0 0 0 0 0 0 0 0 0 0 0 0 0 0 0 '')
          (param_set ''qm_coefficient_1'' (P_String '' 0 0 0 0 0 0 0 0 0 0 0 0 0 0 0 0 '')
          (param_set ''quant_matrix_mode'' (P_String ''custom_custom'')
          (param_set ''upsampling_coefficients'' (P_String ''1752 14672 4049 585'')
          (param_set ''encoding_upsample'' (P_String ''adaptivecubic'')
          (param_set ''sad_coeff_threshold'' (P_Unsigned 2)
          (param_set ''sad_threshold'' (P_Unsigned 6000)
          (param_set ''temporal_step_width_modifier'' (P_Unsigned c)
          (param_set ''temporal_cq_sw_multiplier'' (P_Unsigned b)
          (param_set ''dequant_offset'' (P_Unsigned a)
          (param_set ''dequant_offset_mode'' (P_String ''default'') pb)))))))))))))))"

definition no_dithering :: "parameters \<Rightarrow> parameters" where
  "no_dithering pb =
     param_set ''dithering_type'' (P_String ''none'')
       (param_set ''dithering_strength'' (P_Unsigned 0) (param_set ''dithering_control'' (P_Bool False) pb))"

definition parameter_defaults_picture :: "parameters \<Rightarrow> image list \<Rightarrow> u32 \<Rightarrow> parameters result" where
  "parameter_defaults_picture p src_image base_qp =
     rbind (get_enum parameter_config_names p ''parameter_config'' ParameterConfig_Default) (\<lambda>config.
     case config of
       ParameterConfig_Default \<Rightarrow>
         rbind (get_unsigned p ''cq_step_width_loq_1'' 32767) (\<lambda>_.
         rbind (get_unsigned p ''cq_step_width_loq_0'' 32767) (\<lambda>step_width_2.
         rbind (get_string p ''base_encoder'' []) (\<lambda>base_encoder.
         let codec = base_codec_picture (lowercase base_encoder) in
         rbind (choose_transform p src_image codec step_width_2 (\<lambda>_. None)) (\<lambda>(size_of, sw, pb).
         let pb = param_set ''priority_mode'' (P_String ''mode_2_0'') (default_step_width_1 p codec base_qp pb) in
         rbind (if size_of = 4 then defaults_4x4 sw pb else defaults_2x2 sw pb) (\<lambda>pb.
         Inr (no_dithering (param_set ''quant_reduced_deadzone'' (P_Unsigned 3) pb)))))))
     | ParameterConfig_Conformance \<Rightarrow>
         Inr (param_set ''quant_reduced_deadzone'' (P_Unsigned 5)
             (param_set ''sad_coeff_threshold'' (P_Unsigned 0)
             (param_set ''sad_threshold'' (P_Unsigned 0)
             (param_set ''quant_matrix_mode'' (P_String ''previous'')
             (no_dithering
             (param_set ''dequant_offset_mode'' (P_String ''default'')
             (param_set ''dequant_offset'' (P_Unsigned 0)
             (param_set ''temporal_cq_sw_multiplier'' (P_Unsigned 1000)
             (param_set ''priority_mode'' (P_String ''mode_0_0'')
             (param_set ''cq_step_width_loq_0'' (P_Unsigned 32767)
             (param_set ''cq_step_width_loq_1'' (P_Unsigned 32767) (\<lambda>_. None)))))))))))))"

end
