(* ===== verification/EncoderSetup.thy ===== *)
theory EncoderSetup
  imports PictureEncoding ParameterDefaults
begin

text \<open>
  encoder/src/Encoder.cpp, the constructor of \<open>Encoder\<close> and \<open>initialise_config\<close>: how parameters become
  the configuration of the encoder and the one that is sent. The messages of \<open>INFO\<close> and \<open>REPORT\<close> are left
  out; \<open>ERR\<close> raises.
\<close>

section \<open>Configuration of the encoder\<close>

definition gop_multiplier :: "parameters \<Rightarrow> string \<Rightarrow> parameters \<Rightarrow> nat result" where
  "gop_multiplier p name d = rbind (get_unsigned_or p name d) (\<lambda>m. Inr (unat (clamp m 1000 2000)))"

definition update_encoder_configuration :: "parameters \<Rightarrow> parameters \<Rightarrow> encoder_configuration result" where
  "update_encoder_configuration p d =
     rbind (get_unsigned_or p ''temporal_cq_sw_multiplier'' d) (\<lambda>multiplier.
     rbind (check_that (200 \<le> multiplier \<and> multiplier \<le> 1000)) (\<lambda>_.
     rbind (gop_multiplier p ''delta_sw_mult_gop08'' d) (\<lambda>gop08.
     rbind (gop_multiplier p ''delta_sw_mult_gop04'' d) (\<lambda>gop04.
     rbind (gop_multiplier p ''delta_sw_mult_gop02'' d) (\<lambda>gop02.
     rbind (gop_multiplier p ''delta_sw_mult_gop01'' d) (\<lambda>gop01.
     rbind (get_bool p ''temporal_signalling_present'' False) (\<lambda>temporal_layer.
     rbind (get_enum user_data_method_names p ''user_data_method'' UserDataMethod_Zeros) (\<lambda>user_data.
     rbind (get_string_or p ''priority_mode'' d) (\<lambda>mode.
     rbind (get_string p ''priority_type_sl_1'' ''type_4'') (\<lambda>type_1.
     rbind (get_string p ''priority_type_sl_2'' ''type_5'') (\<lambda>type_2.
     rbind (priority_configuration_new mode type_1 type_2) (\<lambda>pr.
     rbind (get_unsigned_or p ''sad_threshold'' d) (\<lambda>sad.
     rbind (get_unsigned_or p ''sad_coeff_threshold'' d) (\<lambda>sad_coeff.
     rbind (get_unsigned_or p ''quant_reduced_deadzone'' d) (\<lambda>deadzone.
     Inr \<lparr>ec_temporal_cq_sw_multiplier = unat multiplier, ec_delta_sw_mult_gop08 = gop08, ec_delta_sw_mult_gop04 = gop04,
          ec_delta_sw_mult_gop02 = gop02, ec_delta_sw_mult_gop01 = gop01, ec_encoding_mode = pr_encoding_mode pr,
          ec_use_priority_map_sl_1 = pr_use_pmap_sl_1 pr, ec_use_priority_map_sl_2 = pr_use_pmap_sl_2 pr,
          ec_priority_type_sl_1 = pr_use_pmap_type_sl_1 pr, ec_priority_type_sl_2 = pr_use_pmap_type_sl_2 pr,
          ec_sad_threshold = unat sad, ec_sad_coeff_threshold = unat sad_coeff, ec_quant_reduced_deadzone = unat deadzone,
          ec_no_enhancement_temporal_layer = temporal_layer, ec_user_data_method = user_data\<rparr>)))))))))))))))"

section \<open>Global configuration\<close>

definition tile_dimensions_of :: "u32 \<Rightarrow> u32 \<Rightarrow> tile_dimensions" where
  "tile_dimensions_of w h =
     (if w = 0 \<and> h = 0 then TileDimensions_None
      else if w = 512 \<and> h = 256 then TileDimensions_512x256
      else if w = 1024 \<and> h = 512 then TileDimensions_1024x512
      else TileDimensions_Custom)"

text \<open>The block size of a transform and its number of layers.\<close>

definition select_transform :: "transform_type \<Rightarrow> global_configuration \<Rightarrow> global_configuration" where
  "select_transform t g = (case t of
     TransformType_DD \<Rightarrow> g\<lparr>gc_transform_block_size := 2, gc_num_residual_layers := 4\<rparr>
   | TransformType_DDS \<Rightarrow> g\<lparr>gc_transform_block_size := 4, gc_num_residual_layers := 16\<rparr>)"

definition read_picture_format ::
  "parameters \<Rightarrow> parameters \<Rightarrow> image_description \<Rightarrow> global_configuration \<Rightarrow> global_configuration result" where
  "read_picture_format p d desc g =
     rbind (desc_bit_depth desc) (\<lambda>depth.
     rbind (get_unsigned p ''base_depth'' (word_of_nat depth)) (\<lambda>base_depth.
     rbind (desc_colourspace desc) (\<lambda>cs.
     rbind (get_unsigned p ''num_image_planes'' 3) (\<lambda>image_planes.
     rbind (get_unsigned_or p ''num_processed_planes'' d) (\<lambda>processed_planes.
     Inr (g\<lparr>gc_enhancement_depth := word_of_nat depth, gc_base_depth := base_depth, gc_colourspace := cs,
            gc_num_image_planes := image_planes, gc_num_processed_planes := processed_planes\<rparr>))))))"

definition read_coding_tools :: "parameters \<Rightarrow> parameters \<Rightarrow> global_configuration \<Rightarrow> global_configuration result" where
  "read_coding_tools p d g =
     rbind (get_bool p ''predicted_residual'' True) (\<lambda>predicted.
     rbind (get_bool p ''temporal_enabled'' True) (\<lambda>temporal.
     rbind (get_bool p ''temporal_use_reduced_signalling'' True) (\<lambda>reduced.
     rbind (get_enum upsample_names p ''encoding_upsample'' Upsample_ModifiedCubic) (\<lambda>kernel_name.
     rbind (get_vector d ''upsampling_coefficients'' (length (gc_upsampling_coefficients g)) (gc_upsampling_coefficients g)) (\<lambda>coefficients.
     rbind (get_unsigned p ''temporal_step_width_modifier'' 48) (\<lambda>modifier.
     rbind (get_unsigned p ''level_1_filtering_first_coefficient'' 0) (\<lambda>first.
     rbind (get_unsigned p ''level_1_filtering_second_coefficient'' 0) (\<lambda>second.
     rbind (get_enum scaling_mode_names p ''scaling_mode_level1'' ScalingMode_None) (\<lambda>scaling_1.
     rbind (get_enum scaling_mode_names p ''scaling_mode_level2'' ScalingMode_2D) (\<lambda>scaling_2.
     rbind (get_enum user_data_mode_names p ''user_data_enabled'' UserData_None) (\<lambda>user_data.
     rbind (get_bool p ''level1_depth_flag'' False) (\<lambda>level1_depth.
     Inr (g\<lparr>gc_predicted_residual_enabled := predicted, gc_temporal_enabled := of_bool temporal,
            gc_temporal_tile_intra_signalling_enabled := reduced, gc_upsample := kernel_name,
            gc_upsampling_coefficients := coefficients, gc_temporal_step_width_modifier := modifier,
            gc_level_1_filtering_first_coefficient := first, gc_level_1_filtering_second_coefficient := second,
            gc_scaling_mode := [scaling_1, scaling_2], gc_user_data_enabled := user_data,
            gc_level1_depth_flag := level1_depth\<rparr>)))))))))))))"

definition read_tiles_and_transform :: "parameters \<Rightarrow> global_configuration \<Rightarrow> global_configuration result" where
  "read_tiles_and_transform p g =
     rbind (get_unsigned p ''tile_width'' 0) (\<lambda>tile_width.
     rbind (get_unsigned p ''tile_height'' 0) (\<lambda>tile_height.
     rbind (get_bool p ''compression_type_entropy_enabled_per_tile'' False) (\<lambda>per_tile.
     rbind (get_enum compression_type_names p ''compression_type_size_per_tile'' CompressionType_None) (\<lambda>sizes.
     rbind (get_enum transform_type_names p ''encoding_transform_type'' TransformType_DDS) (\<lambda>t.
     let g = select_transform t (g\<lparr>gc_tile_width := tile_width, gc_tile_height := tile_height,
               gc_compression_type_entropy_enabled_per_tile := per_tile, gc_compression_type_size_per_tile := sizes,
               gc_tile_dimensions_type := tile_dimensions_of tile_width tile_height\<rparr>) in
     if gc_upsample g = Upsample_AdaptiveCubic then
       rbind (get_vector p ''upsampling_coefficients'' (length (gc_upsampling_coefficients g)) (gc_upsampling_coefficients g)) (\<lambda>coefficients.
       Inr (g\<lparr>gc_upsampling_coefficients := coefficients\<rparr>))
     else Inr g)))))"

definition read_messages ::
  "parameters \<Rightarrow> global_configuration \<Rightarrow> additional_info \<Rightarrow> (global_configuration \<times> additional_info) result" where
  "read_messages p g ai =
     rbind (get_unsigned p ''chroma_step_width_multiplier'' 64) (\<lambda>chroma.
     rbind (get_bool p ''additional_info_present'' False) (\<lambda>present.
     rbind (get_bool p ''sei_message_present'' False) (\<lambda>sei.
     rbind (get_bool p ''vui_message_present'' False) (\<lambda>vui.
     let g = g\<lparr>gc_chroma_step_width_multiplier := chroma, gc_additional_info_present := present,
               gc_sei_message_present := sei, gc_vui_message_present := vui\<rparr> in
     if present then
       rbind (get_unsigned p ''additional_info_type'' 2) (\<lambda>t. Inr (g, ai\<lparr>ai_additional_info_type := t\<rparr>))
     else Inr (g, ai)))))"

text \<open>The size that is coded is the one the dimensions find for the source.\<close>

definition set_resolution :: "dimensions \<Rightarrow> global_configuration \<Rightarrow> global_configuration" where
  "set_resolution dims g =
     g\<lparr>gc_resolution_width := word_of_nat (dm_plane_width dims (0, LOQ_LEVEL_2)),
       gc_resolution_height := word_of_nat (dm_plane_height dims (0, LOQ_LEVEL_2))\<rparr>"

definition update_global_configuration ::
  "parameters \<Rightarrow> parameters \<Rightarrow> image_description \<Rightarrow> global_configuration \<times> additional_info \<times> dimensions \<Rightarrow>
    (global_configuration \<times> additional_info \<times> dimensions) run" where
  "update_global_configuration p d desc = (\<lambda>(g, ai, dims).
     run_bind (Some (read_picture_format p d desc g)) (\<lambda>g.
     run_bind (Some (read_coding_tools p d g)) (\<lambda>g.
     run_bind (Some (read_tiles_and_transform p g)) (\<lambda>g.
     run_bind (dimensions_set g (id_width desc) (id_height desc) dims) (\<lambda>dims.
     run_bind (Some (read_messages p (set_resolution dims g) ai)) (\<lambda>(g, ai).
     Some (Inr (g, ai, dims))))))))"

section \<open>Sequence configuration\<close>

definition is_422_or_444 :: "colourspace \<Rightarrow> bool" where
  "is_422_or_444 c \<longleftrightarrow> c = Colourspace_YUV422 \<or> c = Colourspace_YUV444"

definition find_profile :: "profile \<Rightarrow> colourspace \<Rightarrow> profile result" where
  "find_profile p c =
     (if p = Profile_Auto then Inr (if is_422_or_444 c then Profile_Main444 else Profile_Main)
      else if p = Profile_Main \<and> is_422_or_444 c then Inl FatalRaised
      else Inr p)"

text \<open>The limits of the levels 1 to 4 in samples per second; the rate is computed with 32 bits.\<close>

definition level_limits :: "nat list" where
  "level_limits = [29410000, 124560000, 527650000, 2235160000]"

definition find_level :: "nat \<Rightarrow> u32 \<Rightarrow> u32 result" where
  "find_level rate level =
     (if level = 0 then
        if rate \<le> level_limits ! 0 then Inr 1
        else if rate \<le> level_limits ! 1 then Inr 2
        else if rate \<le> level_limits ! 2 then Inr 3
        else if rate \<le> level_limits ! 3 then Inr 4
        else Inl FatalRaised
      else if 1 \<le> level \<and> level \<le> 4 then
        rbind (check_that (rate \<le> level_limits ! (unat level - 1))) (\<lambda>_. Inr level)
      else Inl FatalRaised)"

definition set_window :: "global_configuration \<Rightarrow> image_description \<Rightarrow> sequence_configuration \<Rightarrow> sequence_configuration" where
  "set_window g desc sq =
     (if unat (gc_resolution_width g) \<noteq> id_width desc \<or> unat (gc_resolution_height g) \<noteq> id_height desc then
        sq\<lparr>sq_conformance_window := True,
           sq_conf_win_right_offset := (gc_resolution_width g - word_of_nat (id_width desc)) div 2,
           sq_conf_win_bottom_offset := (gc_resolution_height g - word_of_nat (id_height desc)) div 2\<rparr>
      else sq)"

definition update_sequence_configuration ::
  "parameters \<Rightarrow> image_description \<Rightarrow> global_configuration \<Rightarrow> sequence_configuration result" where
  "update_sequence_configuration p desc g =
     rbind (get_enum profile_names p ''profile_idc'' Profile_Auto) (\<lambda>profile_idc.
     rbind (get_unsigned p ''level_idc'' 0) (\<lambda>level.
     rbind (get_unsigned p ''sublevel_idc'' 1) (\<lambda>sublevel.
     rbind (get_bool p ''conformance_window'' False) (\<lambda>window.
     rbind (get_unsigned p ''extended_profile_idc'' 0) (\<lambda>ext_profile.
     rbind (get_unsigned p ''extended_level_idc'' 0) (\<lambda>ext_level.
     rbind (get_unsigned p ''conf_win_left_offset'' 0) (\<lambda>left_offset.
     rbind (get_unsigned p ''conf_win_right_offset'' 0) (\<lambda>right_offset.
     rbind (get_unsigned p ''conf_win_top_offset'' 0) (\<lambda>top_offset.
     rbind (get_unsigned p ''conf_win_bottom_offset'' 0) (\<lambda>bottom_offset.
     rbind (desc_colourspace desc) (\<lambda>cs.
     rbind (find_profile profile_idc cs) (\<lambda>profile_idc.
     rbind (get_unsigned p ''fps'' 50) (\<lambda>fps.
     rbind (find_level (unat (gc_resolution_width g * gc_resolution_height g * fps)) level) (\<lambda>level.
     Inr (set_window g desc
       \<lparr>sq_profile_idc = profile_idc, sq_level_idc = level, sq_sublevel_idc = sublevel, sq_conformance_window = window,
        sq_extended_profile_idc = ext_profile, sq_extended_level_idc = ext_level, sq_conf_win_left_offset = left_offset,
        sq_conf_win_right_offset = right_offset, sq_conf_win_top_offset = top_offset,
        sq_conf_win_bottom_offset = bottom_offset\<rparr>)))))))))))))))"

section \<open>Picture configuration\<close>

definition read_step_widths :: "parameters \<Rightarrow> parameters \<Rightarrow> picture_configuration \<Rightarrow> picture_configuration result" where
  "read_step_widths p d pc =
     rbind (get_unsigned_or p ''cq_step_width_loq_1'' d) (\<lambda>sw_1.
     rbind (get_unsigned p ''cq_step_width_loq_0'' 32767) (\<lambda>sw_2.
     let widths = [clamp sw_1 1 32767, clamp sw_2 1 32767] in
     Inr (pc\<lparr>pc_step_width_loq := widths, pc_step_width_loq_orig := widths\<rparr>)))"

definition read_dithering :: "parameters \<Rightarrow> parameters \<Rightarrow> picture_configuration \<Rightarrow> picture_configuration result" where
  "read_dithering p d pc =
     rbind (get_bool_or p ''dithering_control'' d) (\<lambda>control.
     rbind (get_enum_or dithering_type_names Dithering_None p ''dithering_type'' d) (\<lambda>t.
     rbind (get_unsigned_or p ''dithering_strength'' d) (\<lambda>strength.
     Inr (pc\<lparr>pc_dithering_control := control, pc_dithering_type := t, pc_dithering_strength := strength\<rparr>))))"

definition read_dequant_offset :: "parameters \<Rightarrow> parameters \<Rightarrow> picture_configuration \<Rightarrow> picture_configuration run" where
  "read_dequant_offset p d pc =
     run_bind (Some (get_enum_or dequant_offset_names DequantOffset_Default p ''dequant_offset_mode'' d)) (\<lambda>m.
     run_bind (get_int_or p ''dequant_offset'' d) (\<lambda>offset.
     Some (Inr (pc\<lparr>pc_dequant_offset_mode := m, pc_dequant_offset := word_of_int offset,
       pc_dequant_offset_signalled := \<not> ((word_of_int offset :: u32) = 0 \<and> m = DequantOffset_Default)\<rparr>))))"

text \<open>The matrices of the parameters, of which the mode overrides some.\<close>

definition custom_matrix :: "parameters \<Rightarrow> string \<Rightarrow> nat \<Rightarrow> u32 list \<Rightarrow> u32 list result" where
  "custom_matrix p name n dest = get_vector p name n dest"

definition read_matrices :: "parameters \<Rightarrow> nat \<Rightarrow> u32 list \<Rightarrow> u32 list \<Rightarrow> picture_configuration \<Rightarrow> picture_configuration result" where
  "read_matrices p n d2 d1 pc =
     (let par = (\<lambda>two one. Inr (pc\<lparr>pc_qm_coefficient_2_par := two, pc_qm_coefficient_1_par := one\<rparr>));
          two = pc_qm_coefficient_2_par pc; one = pc_qm_coefficient_1_par pc in
      case pc_quant_matrix_mode pc of
        QuantMatrix_BothDefault \<Rightarrow> par (put_entries n d2 two) (put_entries n d1 one)
      | QuantMatrix_SameAndCustom \<Rightarrow>
          rbind (custom_matrix p ''qm_coefficient_2'' n two) (\<lambda>two. par two (put_entries n two one))
      | QuantMatrix_Level2CustomLevel1Default \<Rightarrow>
          rbind (custom_matrix p ''qm_coefficient_2'' n two) (\<lambda>two. par two one)
      | QuantMatrix_Level2DefaultLevel1Custom \<Rightarrow>
          rbind (custom_matrix p ''qm_coefficient_1'' n one) (\<lambda>one. par two one)
      | QuantMatrix_DifferentAndCustom \<Rightarrow>
          rbind (custom_matrix p ''qm_coefficient_2'' n two) (\<lambda>two.
          rbind (custom_matrix p ''qm_coefficient_1'' n one) (\<lambda>one. par two one))
      | QuantMatrix_BothPrevious \<Rightarrow> Inr pc)"

definition set_matrices :: "parameters \<Rightarrow> parameters \<Rightarrow> global_configuration \<Rightarrow> picture_configuration \<Rightarrow> picture_configuration result" where
  "set_matrices p d g pc =
     (let n = unat (gc_num_residual_layers g);
          d2 = default_matrix n (if gc_scaling_mode g ! LOQ_LEVEL_2 = ScalingMode_1D then 0 else 1); d1 = default_matrix n 2 in
      rbind (get_enum_or quant_matrix_names QuantMatrix_BothPrevious p ''quant_matrix_mode'' d) (\<lambda>m.
      rbind (custom_matrix d ''qm_coefficient_2'' n (pc_qm_coefficient_2_par pc)) (\<lambda>two.
      rbind (custom_matrix d ''qm_coefficient_1'' n (pc_qm_coefficient_1_par pc)) (\<lambda>one.
      rbind (read_matrices p n d2 d1 (pc\<lparr>pc_quant_matrix_mode := m, pc_qm_coefficient_2_par := two, pc_qm_coefficient_1_par := one,
          pc_qm_coefficient_2 := put_entries n d2 (pc_qm_coefficient_2 pc),
          pc_qm_coefficient_1 := put_entries n d1 (pc_qm_coefficient_1 pc)\<rparr>)) (\<lambda>pc.
      Inr (pc\<lparr>pc_qm_coefficient_2_mem := put_entries n (pc_qm_coefficient_2 pc) (pc_qm_coefficient_2_mem pc),
              pc_qm_coefficient_1_mem := put_entries n (pc_qm_coefficient_1 pc) (pc_qm_coefficient_1_mem pc)\<rparr>))))))"

definition update_picture_configuration ::
  "parameters \<Rightarrow> parameters \<Rightarrow> global_configuration \<Rightarrow> picture_configuration \<Rightarrow> picture_configuration run" where
  "update_picture_configuration p d g pc =
     run_bind (Some (get_bool p ''enhancement'' True)) (\<lambda>enhancement.
     run_bind (Some (get_bool p ''temporal_refresh'' False)) (\<lambda>refresh.
     run_bind (Some (get_bool p ''temporal_signalling_present'' True)) (\<lambda>signalling.
     run_bind (Some (read_step_widths p d pc)) (\<lambda>pc.
     run_bind (Some (get_enum picture_type_names p ''picture_type'' PictureType_Frame)) (\<lambda>t.
     run_bind (Some (get_bool p ''level_1_filtering_enabled'' False)) (\<lambda>filtering.
     run_bind (Some (read_dithering p d
       (pc\<lparr>pc_enhancement_enabled := enhancement, pc_temporal_refresh := refresh, pc_temporal_signalling_present := signalling,
           pc_picture_type := t, pc_field_type := FieldType_Top, pc_coding_type := CodingType_IDR,
           pc_level_1_filtering_enabled := filtering\<rparr>))) (\<lambda>pc.
     run_bind (read_dequant_offset p d pc) (\<lambda>pc.
     Some (set_matrices p d g pc)))))))))"

section \<open>The constructor\<close>

record encoder_setup =
  es_encoder_configuration :: encoder_configuration
  es_base_qp :: u32
  es_configuration :: signaled_configuration
  es_dimensions :: dimensions
  es_quant_matrix_coeffs :: "layer_position \<Rightarrow> int"
  es_src_image :: image_description
  es_base_image :: image_description
  es_intermediate_image :: image_description
  es_enhancement_image :: image_description

text \<open>
  Both configurations filled with zeros; the sizes and the descriptions of images are those of \<open>start\<close>,
  the object before.
\<close>

definition zero_sequence :: sequence_configuration where
  "zero_sequence = \<lparr>sq_profile_idc = Profile_Main, sq_level_idc = 0, sq_sublevel_idc = 0, sq_conformance_window = False,
     sq_extended_profile_idc = 0, sq_extended_level_idc = 0, sq_conf_win_left_offset = 0, sq_conf_win_right_offset = 0,
     sq_conf_win_top_offset = 0, sq_conf_win_bottom_offset = 0\<rparr>"

definition zero_global :: global_configuration where
  "zero_global = \<lparr>gc_base_depth = 0, gc_enhancement_depth = 0, gc_colourspace = Colourspace_Y,
     gc_image_format = IMAGE_FORMAT_NONE, gc_num_image_planes = 0, gc_num_processed_planes = 0,
     gc_num_residual_layers = 0, gc_transform_block_size = 0, gc_predicted_residual_enabled = False,
     gc_resolution_height = 0, gc_resolution_width = 0, gc_temporal_enabled = 0,
     gc_temporal_tile_intra_signalling_enabled = False, gc_temporal_step_width_modifier = 0, gc_upsample = Upsample_Nearest,
     gc_level_1_filtering_first_coefficient = 0, gc_level_1_filtering_second_coefficient = 0,
     gc_scaling_mode = [ScalingMode_None, ScalingMode_None], gc_tile_dimensions_type = TileDimensions_None,
     gc_user_data_enabled = UserData_None, gc_level1_depth_flag = False, gc_chroma_step_width_multiplier = 0,
     gc_tile_width = 0, gc_tile_height = 0, gc_compression_type_entropy_enabled_per_tile = False,
     gc_compression_type_size_per_tile = CompressionType_None, gc_upsampling_coefficients = replicate 4 0,
     gc_additional_info_present = False, gc_additional_info_type = 0, gc_sei_message_present = False,
     gc_vui_message_present = False\<rparr>"

definition zero_picture :: picture_configuration where
  "zero_picture = \<lparr>pc_enhancement_enabled = False, pc_temporal_refresh = False, pc_temporal_signalling_present = False,
     pc_picture_type = PictureType_Frame, pc_field_type = FieldType_Top, pc_coding_type = CodingType_IDR,
     pc_step_width_loq = replicate MAX_NUM_LOQS 0, pc_step_width_loq_orig = replicate MAX_NUM_LOQS 0,
     pc_dithering_control = False, pc_dithering_type = Dithering_None, pc_dithering_strength = 0,
     pc_dequant_offset_signalled = False, pc_dequant_offset_mode = DequantOffset_Default, pc_dequant_offset = 0,
     pc_level_1_filtering_enabled = False, pc_quant_matrix_mode = QuantMatrix_BothPrevious,
     pc_qm_coefficient_2 = replicate MAX_NUM_LAYERS 0, pc_qm_coefficient_1 = replicate MAX_NUM_LAYERS 0,
     pc_qm_coefficient_2_mem = replicate MAX_NUM_LAYERS 0, pc_qm_coefficient_1_mem = replicate MAX_NUM_LAYERS 0,
     pc_qm_coefficient_2_par = replicate MAX_NUM_LAYERS 0, pc_qm_coefficient_1_par = replicate MAX_NUM_LAYERS 0\<rparr>"

definition zero_encoder_configuration :: encoder_configuration where
  "zero_encoder_configuration = \<lparr>ec_temporal_cq_sw_multiplier = 0, ec_delta_sw_mult_gop08 = 0, ec_delta_sw_mult_gop04 = 0,
     ec_delta_sw_mult_gop02 = 0, ec_delta_sw_mult_gop01 = 0, ec_encoding_mode = ENCODE_ALL,
     ec_use_priority_map_sl_1 = False, ec_use_priority_map_sl_2 = False, ec_priority_type_sl_1 = Smooth,
     ec_priority_type_sl_2 = Smooth, ec_sad_threshold = 0, ec_sad_coeff_threshold = 0, ec_quant_reduced_deadzone = 0,
     ec_no_enhancement_temporal_layer = False, ec_user_data_method = UserDataMethod_Zeros\<rparr>"

definition zero_configuration :: signaled_configuration where
  "zero_configuration = \<lparr>sg_sequence_configuration = zero_sequence, sg_global_configuration = zero_global,
     sg_picture_configuration = zero_picture, sg_additional_info = \<lparr>ai_additional_info_type = 0, ai_payload_type = 0\<rparr>,
     sg_surface_configuration = (\<lambda>_ _ _. \<lparr>sc_width = 0, sc_height = 0\<rparr>)\<rparr>"

definition encoder_new :: "encoder_setup \<Rightarrow> image_description \<Rightarrow> parameters \<Rightarrow> encoder_setup run" where
  "encoder_new start desc p =
     run_bind (Some (parameter_defaults_global p)) (\<lambda>d.
     run_bind (Some (get_unsigned_or p ''qp'' d)) (\<lambda>qp.
     let sg = zero_configuration in
     run_bind (update_global_configuration p d desc (sg_global_configuration sg, sg_additional_info sg, es_dimensions start))
       (\<lambda>(g, ai, dims).
     run_bind (Some (with_depth (with_size desc (dm_base_width dims) (dm_base_height dims)) (unat (gc_base_depth g)))) (\<lambda>base.
     Some (Inr (start\<lparr>es_encoder_configuration := zero_encoder_configuration, es_base_qp := qp,
       es_configuration := sg\<lparr>sg_global_configuration := g, sg_additional_info := ai\<rparr>,
       es_dimensions := dims, es_src_image := desc, es_base_image := base,
       es_intermediate_image := with_size (if gc_level1_depth_flag g then desc else base)
         (dm_intermediate_width dims) (dm_intermediate_height dims),
       es_enhancement_image := with_size desc (dm_plane_width dims (0, LOQ_LEVEL_2)) (dm_plane_height dims (0, LOQ_LEVEL_2))\<rparr>))))))"

section \<open>The first pictures\<close>

text \<open>The transform that the pictures call for.\<close>

definition resize_setup :: "global_configuration \<Rightarrow> dimensions \<Rightarrow> encoder_setup \<Rightarrow> encoder_setup" where
  "resize_setup g dims s =
     s\<lparr>es_configuration := (es_configuration s)\<lparr>sg_global_configuration := set_resolution dims g\<rparr>, es_dimensions := dims,
       es_base_image := with_size (es_base_image s) (dm_base_width dims) (dm_base_height dims),
       es_intermediate_image := with_size (es_intermediate_image s) (dm_intermediate_width dims) (dm_intermediate_height dims),
       es_enhancement_image := with_size (es_enhancement_image s) (dm_plane_width dims (0, LOQ_LEVEL_2))
         (dm_plane_height dims (0, LOQ_LEVEL_2))\<rparr>"

definition adopt_transform :: "string \<Rightarrow> encoder_setup \<Rightarrow> encoder_setup run" where
  "adopt_transform name s =
     (let sg = es_configuration s; g = sg_global_configuration sg in
      if name = ''dd'' then
        let g = select_transform TransformType_DD g in
        run_bind (dimensions_set g (id_width (es_src_image s)) (id_height (es_src_image s)) (es_dimensions s)) (\<lambda>dims.
        Some (Inr (resize_setup g dims s)))
      else if name = ''dds'' then
        Some (Inr (s\<lparr>es_configuration := sg\<lparr>sg_global_configuration := select_transform TransformType_DDS g\<rparr>\<rparr>))
      else Some (Inr s))"

definition adopt_step_width :: "parameters \<Rightarrow> picture_configuration \<Rightarrow> picture_configuration result" where
  "adopt_step_width d pc =
     rbind (get_unsigned d ''cq_step_width_loq_2'' 32767) (\<lambda>sw.
     Inr (if sw = 32767 then pc
          else pc\<lparr>pc_step_width_loq := (pc_step_width_loq pc)[LOQ_LEVEL_2 := clamp sw 1 32767],
                  pc_step_width_loq_orig := (pc_step_width_loq_orig pc)[LOQ_LEVEL_2 := clamp sw 1 32767]\<rparr>))"

definition adopt_upsampling :: "parameters \<Rightarrow> parameters \<Rightarrow> global_configuration \<Rightarrow> global_configuration result" where
  "adopt_upsampling p d g =
     rbind (if p ''temporal_step_width_modifier'' = None then
              rbind (get_unsigned d ''temporal_step_width_modifier'' 48) (\<lambda>m. Inr (g\<lparr>gc_temporal_step_width_modifier := m\<rparr>))
            else Inr g) (\<lambda>g.
     if p ''encoding_upsample'' = None then
       rbind (get_enum upsample_names d ''encoding_upsample'' Upsample_ModifiedCubic) (\<lambda>u.
       let g = g\<lparr>gc_upsample := u\<rparr> in
       if u = Upsample_AdaptiveCubic then
         rbind (get_vector d ''upsampling_coefficients'' (length (gc_upsampling_coefficients g)) (gc_upsampling_coefficients g)) (\<lambda>c.
         Inr (g\<lparr>gc_upsampling_coefficients := c\<rparr>))
       else Inr g)
     else Inr g)"

definition initialise_config :: "parameters \<Rightarrow> image list \<Rightarrow> encoder_setup \<Rightarrow> encoder_setup run" where
  "initialise_config p src_image s =
     run_bind (Some (parameter_defaults_picture p src_image (es_base_qp s))) (\<lambda>d.
     run_bind (Some (get_string d ''encoding_transform_type'' [])) (\<lambda>name.
     run_bind (adopt_transform name s) (\<lambda>s.
     let sg = es_configuration s; g = sg_global_configuration sg in
     run_bind (Some (update_sequence_configuration p (es_src_image s) g)) (\<lambda>sq.
     run_bind (Some (update_encoder_configuration p d)) (\<lambda>ec.
     run_bind (update_picture_configuration p d g (sg_picture_configuration sg)) (\<lambda>pc.
     run_bind (Some (adopt_step_width d pc)) (\<lambda>pc.
     run_bind (Some (adopt_upsampling p d g)) (\<lambda>g.
     Some (Inr (s\<lparr>es_encoder_configuration := ec,
       es_configuration := sg\<lparr>sg_sequence_configuration := sq, sg_global_configuration := g, sg_picture_configuration := pc\<rparr>,
       es_quant_matrix_coeffs := (\<lambda>_. -1)\<rparr>))))))))))"

end
