(* ===== verification/SetupProperties.thy ===== *)
theory SetupProperties
  imports EncoderSetup
begin

text \<open>
  What the configuration of the encoder guarantees: ranges of every field that later code relies on,
  the level, the conformance window against the window that the decoder applies, and the defaults.
\<close>

section \<open>The conformance window\<close>

lemma conform_corner:
  assumes "r \<le> sf_width s" and "b \<le> sf_height s" and "sf_width s < 4294967296" and "sf_height s < 4294967296"
  shows "conform s 0 0 r b = Inr (surface_of (sf_width s - r) (sf_height s - b) (pixel s))"
proof -
  have "surface_build (sf_width s - r) (sf_height s - b) (\<lambda>x y. surface_read s (wrap x) (wrap y)) =
      Inr (surface_of (sf_width s - r) (sf_height s - b) (pixel s))"
  proof (rule surface_build_total)
    fix x y assume "x < sf_width s - r" "y < sf_height s - b"
    then have "x < sf_width s" "y < sf_height s" by linarith+
    then show "surface_read s (wrap x) (wrap y) = Inr (pixel s x y)"
      using assms(3,4) by (simp add: view_read_def pixel_def wrap_id)
  qed
  then show ?thesis using assms by (simp add: conform_def wrap_id)
qed

text \<open>What the decoder makes of the window that the encoder sets, in units of the luma plane.\<close>

lemma set_window_crops:
  assumes W: "unat (gc_resolution_width g) = W" and H: "unat (gc_resolution_height g) = H"
    and w: "id_width desc \<le> W" and h: "id_height desc \<le> H" and small: "W < 2 ^ 31" "H < 2 ^ 31"
    and sq: "\<not> sq_conformance_window sq" "sq_conf_win_left_offset sq = 0" "sq_conf_win_top_offset sq = 0"
    and cw: "crop_unit_width d plane \<in> {1, 2}" and ch: "crop_unit_height d plane \<in> {1, 2}"
    and rx: "crop_unit_width d plane * ((W - id_width desc) div 2) \<le> sf_width s"
    and ry: "crop_unit_height d plane * ((H - id_height desc) div 2) \<le> sf_height s"
    and s: "sf_width s < 4294967296" "sf_height s < 4294967296" "surface_wf s"
  shows "conformant_plane (set_window g desc sq) d plane s =
    Inr (if W = id_width desc \<and> H = id_height desc then s
         else surface_of (sf_width s - crop_unit_width d plane * ((W - id_width desc) div 2))
           (sf_height s - crop_unit_height d plane * ((H - id_height desc) div 2)) (pixel s))"
proof (cases "W = id_width desc \<and> H = id_height desc")
  case True
  then show ?thesis using W H sq by (simp add: set_window_def conformant_plane_def)
next
  case False
  have half: "unat ((u - word_of_nat n) div 2) = (unat u - n) div 2" if "n \<le> unat u" for u :: u32 and n
  proof -
    have "unat (word_of_nat n :: u32) = n"
      using of_nat_inverse [of n "word_of_nat n :: u32"] le_less_trans [OF that unsigned_less] by simp
    moreover have "(word_of_nat n :: u32) \<le> u" using calculation that by (simp add: word_le_nat_alt)
    ultimately show ?thesis by (simp add: unat_div unat_sub)
  qed
  have r: "unat ((gc_resolution_width g - word_of_nat (id_width desc)) div 2) = (W - id_width desc) div 2"
    "unat ((gc_resolution_height g - word_of_nat (id_height desc)) div 2) = (H - id_height desc) div 2"
    using half [of "id_width desc" "gc_resolution_width g"] half [of "id_height desc" "gc_resolution_height g"] w h
    unfolding W H by simp_all
  have bound: "wrap ((W - id_width desc) div 2 * crop_unit_width d plane) = crop_unit_width d plane * ((W - id_width desc) div 2)"
    "wrap ((H - id_height desc) div 2 * crop_unit_height d plane) = crop_unit_height d plane * ((H - id_height desc) div 2)"
    using cw ch small by (auto simp: wrap_id)
  have zero: "wrap 0 = 0" by (simp add: wrap_def)
  show ?thesis
    using False W H sq conform_corner [OF rx ry s(1,2)]
    by (auto simp: set_window_def conformant_plane_def Let_def r bound zero)
qed

text \<open>The window of the sequence configuration when no parameter asks for another.\<close>

definition no_window :: "parameters \<Rightarrow> bool" where
  "no_window p \<longleftrightarrow> p ''conformance_window'' = None \<and> p ''conf_win_left_offset'' = None \<and> p ''conf_win_top_offset'' = None"

lemma sequence_window:
  assumes "update_sequence_configuration p desc g = Inr sq" and "no_window p"
  obtains sq0 where "sq = set_window g desc sq0" and "\<not> sq_conformance_window sq0"
    and "sq_conf_win_left_offset sq0 = 0" and "sq_conf_win_top_offset sq0 = 0"
  using assms by (fastforce simp: update_sequence_configuration_def no_window_def get_param_def get_unsigned_def)

text \<open>The sizes that the dimensions give to the planes of a picture.\<close>

lemma planes_found:
  assumes "sizes_defined g" and "unit_x g < 2 * width" and "unit_y g < 2 * height" and "width \<le> 65535" and "height \<le> 65535"
    and dims: "dimensions_set g width height d0 = Some (Inr d)" and plane: "plane < unat (gc_num_image_planes g)"
    and cs: "chroma_scale (gc_colourspace g) = (cx, cy)"
  shows "dm_plane_width d (plane, LOQ_LEVEL_2) = plane_size cx plane (round_up (unit_x g) width) \<and>
    dm_plane_height d (plane, LOQ_LEVEL_2) = plane_size cy plane (round_up (unit_y g) height) \<and>
    crop_unit_width d plane = (if plane = 0 then cx else 1) \<and> crop_unit_height d plane = (if plane = 0 then cy else 1)"
proof -
  obtain iw ih where i: "scale_down (gc_scaling_mode g ! LOQ_LEVEL_2) (round_up (unit_x g) width, round_up (unit_y g) height) = (iw, ih)"
    by fastforce
  obtain bw bh where b: "scale_down (gc_scaling_mode g ! LOQ_LEVEL_1) (iw, ih) = (bw, bh)" by fastforce
  obtain d2 where d2: "all_set g cx cy (round_up (unit_x g) width) (round_up (unit_y g) height) d2"
    "dimensions_set g width height d0 = Some (Inr (d2\<lparr>dm_intermediate_width := iw, dm_intermediate_height := ih,
       dm_base_width := bw, dm_base_height := bh\<rparr>))"
    by (rule dimensions_found [OF assms(1-5) cs i b])
  show ?thesis using d2 dims plane
    by (auto simp: all_set_def loq_size_def crop_unit_width_def crop_unit_height_def)
qed

lemma dimensions_exist:
  assumes "sizes_defined g" and "unit_x g < 2 * width" and "unit_y g < 2 * height" and "width \<le> 65535" and "height \<le> 65535"
  obtains d where "dimensions_set g width height d0 = Some (Inr d)"
proof -
  obtain cx cy where cs: "chroma_scale (gc_colourspace g) = (cx, cy)" by fastforce
  obtain iw ih where i: "scale_down (gc_scaling_mode g ! LOQ_LEVEL_2) (round_up (unit_x g) width, round_up (unit_y g) height) = (iw, ih)"
    by fastforce
  obtain bw bh where b: "scale_down (gc_scaling_mode g ! LOQ_LEVEL_1) (iw, ih) = (bw, bh)" by fastforce
  show thesis by (rule dimensions_found [OF assms cs i b, of d0]) (rule that)
qed

lemma rounded_up:
  assumes "sizes_defined g" and "u = unit_x g \<or> u = unit_y g" and "u < 2 * n" and "n \<le> 65535"
  shows "n \<le> round_up u n" and "round_up u n < 2 ^ 17" and "even (round_up u n)"
proof -
  have axis: "\<exists>j \<le> 2. axis_scale g c scaled = 2 ^ j" if "c \<in> {1, 2}" for c scaled
    using axis_scale_power [OF that] by blast
  obtain j where j: "u = tbs_of g * 2 ^ j" "j \<le> 2"
    using assms(2)
  proof
    assume "u = unit_x g"
    moreover obtain j where "j \<le> 2" "axis_scale g (fst (chroma_scale (gc_colourspace g))) (scaled_x g) = 2 ^ j"
      using axis [OF chroma_scale_values(1)] by blast
    ultimately show thesis using that [of j] by (simp add: unit_x_def)
  next
    assume "u = unit_y g"
    moreover obtain j where "j \<le> 2" "axis_scale g (snd (chroma_scale (gc_colourspace g))) (scaled_y g) = 2 ^ j"
      using axis [OF chroma_scale_values(2)] by blast
    ultimately show thesis using that [of j] by (simp add: unit_y_def)
  qed
  have "2 ^ j \<in> {1, 2, 4 :: nat}" using j(2) by (auto simp: le_Suc_eq numeral_2_eq_2)
  then have u: "u \<le> 16" "0 < u" "even u" using j(1) tbs_of_values [OF assms(1)] by auto
  have n: "0 < n" using assms(3) by simp
  show "n \<le> round_up u n" using ceil_div_bounds(1) [OF u(2) n] by (simp only: round_up_def)
  have "round_up u n < n + u" using ceil_div_bounds(2) [OF u(2) n] by (simp only: round_up_def)
  moreover have "(2 :: nat) ^ 17 = 131072" by simp
  ultimately show "round_up u n < 2 ^ 17" using u(1) assms(4) by linarith
  show "even (round_up u n)" using u(3) by (simp add: round_up_def)
qed

text \<open>The window of the encoder seen from the decoder, for every format.\<close>

lemma window_applied:
  assumes ok: "sizes_defined g" and lower: "unit_x g < 2 * width" "unit_y g < 2 * height"
    and upper: "width \<le> 65535" "height \<le> 65535"
    and dims: "dimensions_set g width height d0 = Some (Inr d)" and plane: "plane < unat (gc_num_image_planes g)"
    and cs: "chroma_scale (gc_colourspace g) = (cx, cy)"
    and sq: "update_sequence_configuration p desc (set_resolution d g) = Inr sq" "no_window p"
    and desc: "id_width desc = width" "id_height desc = height"
    and s: "sf_width s = dm_plane_width d (plane, LOQ_LEVEL_2)" "sf_height s = dm_plane_height d (plane, LOQ_LEVEL_2)" "surface_wf s"
  defines "W \<equiv> round_up (unit_x g) width" and "H \<equiv> round_up (unit_y g) height"
  shows "conformant_plane sq d plane s = Inr (surface_of
    (plane_size cx plane W - (if plane = 0 then cx else 1) * ((W - width) div 2))
    (plane_size cy plane H - (if plane = 0 then cy else 1) * ((H - height) div 2)) (pixel s))"
proof -
  note found = planes_found [OF ok lower upper dims plane cs, folded W_def H_def]
  have "0 < unat (gc_num_image_planes g)" using plane by simp
  note luma = planes_found [OF ok lower upper dims this cs, folded W_def H_def]
  have W: "width \<le> W" "W < 2 ^ 17" "even W" using rounded_up [OF ok, of "unit_x g" width] lower upper by (simp_all add: W_def)
  have H: "height \<le> H" "H < 2 ^ 17" "even H" using rounded_up [OF ok, of "unit_y g" height] lower upper by (simp_all add: H_def)
  have c: "cx \<in> {1, 2}" "cy \<in> {1, 2}" using chroma_scale_values [of "gc_colourspace g"] cs by simp_all
  obtain sq0 where sq0: "sq = set_window (set_resolution d g) desc sq0" "\<not> sq_conformance_window sq0"
    "sq_conf_win_left_offset sq0 = 0" "sq_conf_win_top_offset sq0 = 0" by (rule sequence_window [OF sq])
  have res: "unat (gc_resolution_width (set_resolution d g)) = W" "unat (gc_resolution_height (set_resolution d g)) = H"
    using luma W(2) H(2) by (simp_all add: set_resolution_def plane_size_def unat_of_nat take_bit_nat_eq_self)
  have size_x: "sf_width s = plane_size cx plane W" "sf_height s = plane_size cy plane H" using s found by simp_all
  have fits: "(if plane = 0 then c else 1) * ((N - n) div 2) \<le> plane_size c plane N" "plane_size c plane N \<le> N"
    if "even N" "c \<in> {1, 2}" "n \<le> N" for c N n
    using that by (auto simp: plane_size_def ceil_div_def elim!: evenE)
  show ?thesis
    unfolding sq0(1)
    using set_window_crops [OF res, where desc = desc and d = d and plane = plane and s = s, OF _ _ _ _ sq0(2-4)]
      found desc W H size_x fits [OF W(3) c(1) W(1)] fits [OF H(3) c(2) H(1)] c s(3) surface_of_pixel [OF s(3)]
    by (auto simp: plane_size_def)
qed

text \<open>
  C29: for 4:2:0 pictures with even sides, whatever the transform, the scaling and the planes enhanced,
  the window that the encoder sets makes the decoder cut every decoded plane back to exactly the
  pixels of the source picture's plane: its size and its top left corner.
\<close>

theorem window_restores_picture:
  assumes "sizes_defined g" and "gc_colourspace g = Colourspace_YUV420" and "unit_x g < 2 * width" and "unit_y g < 2 * height"
    and "width \<le> 65535" and "height \<le> 65535" and "even width" and "even height"
    and "dimensions_set g width height d0 = Some (Inr d)" and "plane < 3"
    and "update_sequence_configuration p desc (set_resolution d g) = Inr sq" and "no_window p"
    and "id_width desc = width" and "id_height desc = height"
    and "sf_width s = dm_plane_width d (plane, LOQ_LEVEL_2)" and "sf_height s = dm_plane_height d (plane, LOQ_LEVEL_2)"
    and "surface_wf s"
  shows "conformant_plane sq d plane s = Inr (if plane = 0 then surface_of width height (pixel s)
    else surface_of (width div 2) (height div 2) (pixel s))"
proof -
  let ?W = "round_up (unit_x g) width" and ?H = "round_up (unit_y g) height"
  have cs: "chroma_scale (gc_colourspace g) = (2, 2)" and n: "plane < unat (gc_num_image_planes g)"
    using assms(1,2,10) by (simp_all add: chroma_scale_def sizes_defined_def)
  have "width \<le> ?W" "even ?W" "height \<le> ?H" "even ?H"
    using rounded_up [OF assms(1), of "unit_x g" width] rounded_up [OF assms(1), of "unit_y g" height] assms(3-6) by simp_all
  then have "plane_size 2 plane ?W - (if plane = 0 then 2 else 1) * ((?W - width) div 2) = (if plane = 0 then width else width div 2)"
    "plane_size 2 plane ?H - (if plane = 0 then 2 else 1) * ((?H - height) div 2) = (if plane = 0 then height else height div 2)"
    using assms(7,8) by (auto simp: plane_size_def ceil_div_def elim!: evenE)
  then show ?thesis
    using window_applied [OF assms(1,3,4,5,6,9) n cs assms(11-17)] by simp
qed

definition hd_description :: image_description where
  "hd_description = \<lparr>id_format = IMAGE_FORMAT_YUV420P8, id_width = 1920, id_height = 1080\<rparr>"

definition blank_dimensions :: dimensions where
  "blank_dimensions = \<lparr>dm_plane_width = (\<lambda>_. 0), dm_plane_height = (\<lambda>_. 0), dm_layer_width = (\<lambda>_. 0), dm_layer_height = (\<lambda>_. 0),
       dm_tile_width = (\<lambda>_. 0), dm_tile_height = (\<lambda>_. 0), dm_intermediate_width = 0, dm_intermediate_height = 0,
       dm_base_width = 0, dm_base_height = 0, dm_chroma_scale_width = 0, dm_chroma_scale_height = 0\<rparr>"

theorem window_restores_picture_witness:
  "\<exists>d sq. dimensions_set hd_global 1920 1080 blank_dimensions = Some (Inr d) \<and>
    update_sequence_configuration (\<lambda>_. None) hd_description (set_resolution d hd_global) = Inr sq \<and>
    sq_conf_win_bottom_offset sq = 4 \<and>
    conformant_plane sq d 0 (surface_of 1920 1088 (\<lambda>x y. int y)) = Inr (surface_of 1920 1080 (pixel (surface_of 1920 1088 (\<lambda>x y. int y))))"
proof -
  have ok: "sizes_defined hd_global" by (simp add: sizes_defined_def hd_global_def)
  obtain d where dd: "dimensions_set hd_global 1920 1080 blank_dimensions = Some (Inr d)"
    by (rule dimensions_exist [OF ok, of 1920 1080]) (simp_all add: hd_units)
  have n: "0 < unat (gc_num_image_planes hd_global)" by (simp add: hd_global_def)
  have d: "dimensions_set hd_global 1920 1080 blank_dimensions = Some (Inr d)"
    "dm_plane_width d (0, LOQ_LEVEL_2) = 1920" "dm_plane_height d (0, LOQ_LEVEL_2) = 1088"
    using dd planes_found [OF ok _ _ _ _ dd n] hd_units
    by (simp_all add: round_up_def ceil_div_def plane_size_def hd_global_def chroma_scale_def)
  define sq where "sq = \<lparr>sq_profile_idc = Profile_Main, sq_level_idc = 2, sq_sublevel_idc = 1, sq_conformance_window = True,
    sq_extended_profile_idc = 0, sq_extended_level_idc = 0, sq_conf_win_left_offset = 0, sq_conf_win_right_offset = 0,
    sq_conf_win_top_offset = 0, sq_conf_win_bottom_offset = 4\<rparr>"
  have sq: "update_sequence_configuration (\<lambda>_. None) hd_description (set_resolution d hd_global) = Inr sq"
    using d by (simp add: update_sequence_configuration_def get_param_def get_unsigned_def get_enum_def set_resolution_def
      desc_colourspace_def imagedesc_def hd_description_def format_code_def image_formats_def s_PictureDescInfo_def image_info_def
      find_profile_def is_422_or_444_def find_level_def level_limits_def set_window_def sq_def)
  have "conformant_plane sq d 0 (surface_of 1920 1088 (\<lambda>x y. int y)) = Inr (surface_of 1920 1080 (pixel (surface_of 1920 1088 (\<lambda>x y. int y))))"
    using window_restores_picture [OF ok, of 1920 1080 blank_dimensions d 0 "\<lambda>_. None" hd_description sq] d sq hd_units
    by (simp add: no_window_def hd_description_def hd_global_def)
  with d sq show ?thesis by (auto simp: sq_def)
qed

text \<open>
  C30: for 4:4:4 and monochrome pictures the encoder halves the offsets all the same, but the decoder
  takes them in whole pixels: of what was added to round a side up only half (rounded down) is cut off
  at the right and at the bottom, so that the decoded plane keeps the other half and is larger than the
  picture; the pixels that are left are those of the plane.
\<close>

theorem window_too_large:
  assumes "sizes_defined g" and "gc_colourspace g \<in> {Colourspace_YUV444, Colourspace_Y}"
    and "unit_x g < 2 * width" and "unit_y g < 2 * height" and "width \<le> 65535" and "height \<le> 65535"
    and "dimensions_set g width height d0 = Some (Inr d)" and "plane < unat (gc_num_image_planes g)"
    and "update_sequence_configuration p desc (set_resolution d g) = Inr sq" and "no_window p"
    and "id_width desc = width" and "id_height desc = height"
    and "sf_width s = dm_plane_width d (plane, LOQ_LEVEL_2)" and "sf_height s = dm_plane_height d (plane, LOQ_LEVEL_2)"
    and "surface_wf s"
  shows "conformant_plane sq d plane s =
      Inr (surface_of (sf_width s - (sf_width s - width) div 2) (sf_height s - (sf_height s - height) div 2) (pixel s)) \<and>
    width \<le> sf_width s \<and> (width < sf_width s \<longrightarrow> width < sf_width s - (sf_width s - width) div 2) \<and>
    height \<le> sf_height s \<and> (height < sf_height s \<longrightarrow> height < sf_height s - (sf_height s - height) div 2)"
proof -
  let ?W = "round_up (unit_x g) width" and ?H = "round_up (unit_y g) height"
  have cs: "chroma_scale (gc_colourspace g) = (1, 1)" using assms(2) by (auto simp: chroma_scale_def)
  have "width \<le> ?W" "height \<le> ?H"
    using rounded_up [OF assms(1), of "unit_x g" width] rounded_up [OF assms(1), of "unit_y g" height] assms(3-6) by simp_all
  moreover have "sf_width s = ?W" "sf_height s = ?H"
    using planes_found [OF assms(1,3,4,5,6,7,8) cs] assms(13,14) by (simp_all add: plane_size_def)
  moreover have "conformant_plane sq d plane s = Inr (surface_of (?W - (?W - width) div 2) (?H - (?H - height) div 2) (pixel s))"
    using window_applied [OF assms(1,3,4,5,6,7,8) cs assms(9-15)] by (simp add: plane_size_def)
  ultimately show ?thesis by auto
qed

definition wide_global :: global_configuration where
  "wide_global = hd_global\<lparr>gc_colourspace := Colourspace_YUV444\<rparr>"

definition wide_description :: image_description where
  "wide_description = \<lparr>id_format = IMAGE_FORMAT_YUV444P8, id_width = 1366, id_height = 768\<rparr>"

theorem window_too_large_witness:
  "\<exists>d sq out. dimensions_set wide_global 1366 768 blank_dimensions = Some (Inr d) \<and>
    update_sequence_configuration (\<lambda>_. None) wide_description (set_resolution d wide_global) = Inr sq \<and>
    conformant_plane sq d 0 (surface_of 1368 768 (\<lambda>x y. int y)) = Inr out \<and> sf_width out = 1367 \<and> sf_height out = 768"
proof -
  have units: "unit_x wide_global = 8" "unit_y wide_global = 8"
    by (simp_all add: unit_x_def unit_y_def axis_scale_def scaled_x_def scaled_y_def wide_global_def hd_global_def chroma_scale_def)
  have ok: "sizes_defined wide_global" by (simp add: sizes_defined_def wide_global_def hd_global_def)
  obtain d where d: "dimensions_set wide_global 1366 768 blank_dimensions = Some (Inr d)"
    by (rule dimensions_exist [OF ok, of 1366 768]) (simp_all add: units)
  have n: "0 < unat (gc_num_image_planes wide_global)" by (simp add: wide_global_def hd_global_def)
  have size_of: "dm_plane_width d (0, LOQ_LEVEL_2) = 1368" "dm_plane_height d (0, LOQ_LEVEL_2) = 768"
    using planes_found [OF ok _ _ _ _ d n] units
    by (simp_all add: round_up_def ceil_div_def plane_size_def wide_global_def chroma_scale_def)
  obtain sq where sq: "update_sequence_configuration (\<lambda>_. None) wide_description (set_resolution d wide_global) = Inr sq"
    using size_of by (simp add: update_sequence_configuration_def get_param_def get_unsigned_def get_enum_def set_resolution_def
      desc_colourspace_def imagedesc_def wide_description_def format_code_def image_formats_def s_PictureDescInfo_def image_info_def
      find_profile_def is_422_or_444_def find_level_def level_limits_def)
  have "\<exists>out. conformant_plane sq d 0 (surface_of 1368 768 (\<lambda>x y. int y)) = Inr out \<and> sf_width out = 1367 \<and> sf_height out = 768"
    using window_too_large [OF ok, of 1366 768 blank_dimensions d 0 "\<lambda>_. None" wide_description sq] d sq size_of units n
    by (fastforce simp: no_window_def wide_description_def wide_global_def)
  with d sq show ?thesis by blast
qed

section \<open>The level\<close>

lemma level_found:
  assumes "find_level r level = Inr found"
  shows "found \<in> {1, 2, 3, 4} \<and> r \<le> level_limits ! (unat found - 1) \<and>
    (level = 0 \<longrightarrow> list_all (\<lambda>limit. limit < r) (take (unat found - 1) level_limits))"
proof (cases "level = 0")
  case True
  with assms show ?thesis
    by (auto simp: find_level_def level_limits_def split: if_splits)
next
  case False
  with assms have "found = level" "1 \<le> level" "level \<le> 4" "r \<le> level_limits ! (unat level - 1)"
    by (auto simp: find_level_def split: if_splits)
  moreover have "level \<in> {1, 2, 3, 4}"
  proof -
    have "unat level \<in> {1, 2, 3, 4}" using calculation(2,3) by (auto simp: word_le_nat_alt)
    then show ?thesis by (auto simp: word_unat_eq_iff)
  qed
  ultimately show ?thesis using False by blast
qed

text \<open>
  C31: the level of the sequence configuration is one of the four, and its limit is kept by the luma
  samples per second as the encoder computes them, in 32 bits; when the level is not given it is the
  least such one: every lower level is exceeded. As long as the samples per second are below 2 to the 32
  this is the level of the stream itself; beyond, the level is that of the remainder.
\<close>

theorem level_is_least:
  assumes "update_sequence_configuration p desc g = Inr sq" and "get_unsigned p ''fps'' 50 = Inr fps"
    and "rate = unat (gc_resolution_width g) * unat (gc_resolution_height g) * unat fps"
  shows "sq_level_idc sq \<in> {1, 2, 3, 4} \<and>
    rate mod 2 ^ 32 \<le> level_limits ! (unat (sq_level_idc sq) - 1) \<and>
    (get_unsigned p ''level_idc'' 0 = Inr 0 \<longrightarrow>
      list_all (\<lambda>limit. limit < rate mod 2 ^ 32) (take (unat (sq_level_idc sq) - 1) level_limits)) \<and>
    (rate < 2 ^ 32 \<longrightarrow> rate \<le> level_limits ! (unat (sq_level_idc sq) - 1) \<and>
      (get_unsigned p ''level_idc'' 0 = Inr 0 \<longrightarrow>
        list_all (\<lambda>limit. limit < rate) (take (unat (sq_level_idc sq) - 1) level_limits)))"
proof -
  have rate: "unat (gc_resolution_width g * gc_resolution_height g * fps) = rate mod 2 ^ 32"
    unfolding assms(3) by (simp add: unat_word_ariths mod_mult_left_eq)
  obtain level found where f: "get_unsigned p ''level_idc'' 0 = Inr level"
    "find_level (unat (gc_resolution_width g * gc_resolution_height g * fps)) level = Inr found" "sq_level_idc sq = found"
    using assms(1,2) by (auto simp: update_sequence_configuration_def set_window_def split: if_splits)
  from level_found [OF f(2)] f(1,3) show ?thesis
    unfolding rate by (cases "rate < 2 ^ 32") auto
qed

theorem level_is_least_witness:
  "\<exists>sq. update_sequence_configuration (\<lambda>_. None) hd_description hd_global = Inr sq \<and> sq_level_idc sq = 2 \<and>
    1920 * 1080 * 50 \<le> level_limits ! 1 \<and> list_all (\<lambda>limit. limit < 1920 * 1080 * 50) (take 1 level_limits)"
proof -
  obtain sq where sq: "update_sequence_configuration (\<lambda>_. None) hd_description hd_global = Inr sq" "sq_level_idc sq = 2"
    by (simp add: update_sequence_configuration_def get_param_def get_unsigned_def get_enum_def
      desc_colourspace_def imagedesc_def hd_description_def format_code_def image_formats_def s_PictureDescInfo_def image_info_def
      find_profile_def is_422_or_444_def find_level_def level_limits_def set_window_def hd_global_def)
  moreover have "1920 * 1080 * 50 \<le> level_limits ! 1 \<and> list_all (\<lambda>limit. limit < 1920 * 1080 * 50) (take 1 level_limits)"
    using level_is_least [OF sq(1), of 50 "1920 * 1080 * 50"] sq(2) by (simp add: get_unsigned_def hd_global_def)
  ultimately show ?thesis by blast
qed

section \<open>Defaults\<close>

lemma scaled_range:
  assumes "0 \<le> x" and "x \<le> n" and "0 < n"
  shows "min 0 d \<le> x * d sdiv n \<and> x * d sdiv n \<le> max 0 (d :: int)"
proof -
  have "x * \<bar>d\<bar> div n \<le> \<bar>d\<bar>"
    using assms zdiv_mono1 [of "x * \<bar>d\<bar>" "n * \<bar>d\<bar>" n] by (simp add: mult_right_mono)
  moreover have "0 \<le> x * \<bar>d\<bar> div n" using assms by (simp add: pos_imp_zdiv_nonneg_iff)
  ultimately show ?thesis
    using assms by (cases "x = 0"; cases d "0 :: int" rule: linorder_cases) (auto simp: signed_divide_int_def abs_mult sgn_mult)
qed

text \<open>Between two points of the table.\<close>

lemma lerp_range:
  assumes "0 \<le> x" and "x \<le> n" and "0 < n" and "n \<le> 10000" and "\<bar>d\<bar> \<le> 10000"
  shows "\<exists>p. int32_of (x * d) = Inr p \<and> min 0 d \<le> p sdiv n \<and> p sdiv n \<le> max 0 d"
proof -
  have "\<bar>x * d\<bar> \<le> 10000 * 10000" unfolding abs_mult using assms by (intro mult_mono) auto
  then have "- 2147483648 \<le> x * d" "x * d \<le> 2147483647" by linarith+
  then show ?thesis using scaled_range [OF assms(1-3), of d] by (simp add: int32_of_def)
qed

lemma lerp_segment:
  assumes "a \<le> v" and "v \<le> b" and "a < b" and "b \<le> 10000" and "\<bar>d\<bar> \<le> 10000"
  shows "\<exists>p. int32_of (sint (v - a) * d) = Inr p \<and> min 0 d \<le> p sdiv sint (b - a) \<and> p sdiv sint (b - (a :: u32)) \<le> max 0 d"
proof -
  have diff: "sint (u - a) = uint u - uint a" if "a \<le> u" "u \<le> b" for u
  proof -
    have "uint (u - a) = uint u - uint a" using that(1) by (simp add: uint_minus_simple_alt [symmetric] word_le_def)
    moreover have "uint u \<le> uint b" "uint b \<le> 10000" using that assms(4) by (simp_all add: word_le_def)
    then have "uint u - uint a < 2147483648" using uint_ge_0 [of a] by linarith
    moreover have "- 2147483648 \<le> uint u - uint a" using that by (simp add: word_le_def)
    ultimately show ?thesis by (simp add: sint_uint signed_take_bit_int_eq_self)
  qed
  have "uint a \<le> uint v" "uint v \<le> uint b" "uint a < uint b" "uint b \<le> 10000"
    using assms by (simp_all add: word_le_def word_less_def)
  then have "0 \<le> uint v - uint a" "uint v - uint a \<le> uint b - uint a" "0 < uint b - uint a" "uint b - uint a \<le> 10000"
    using uint_ge_0 [of a] by linarith+
  from lerp_range [OF this assms(5)] show ?thesis
    unfolding diff [OF assms(1,2)] diff [OF less_imp_le [OF assms(3)] order_refl] .
qed

lemma lerp_between:
  assumes "a \<le> v" and "v \<le> b" and "a < b" and "b \<le> 10000" and "\<bar>c' - c\<bar> \<le> 10000"
    and "lo \<le> c" and "lo \<le> c'" and "c \<le> hi" and "c' \<le> hi"
  shows "\<exists>r. rbind (int32_of (sint (v - a) * (c' - c))) (\<lambda>p. Inr (p sdiv sint (b - (a :: u32)) + c)) = Inr r \<and> lo \<le> r \<and> r \<le> hi"
proof -
  obtain p where "int32_of (sint (v - a) * (c' - c)) = Inr p" "min 0 (c' - c) \<le> p sdiv sint (b - a)"
    "p sdiv sint (b - a) \<le> max 0 (c' - c)"
    using lerp_segment [OF assms(1-5)] by blast
  moreover from this have "lo \<le> p sdiv sint (b - a) + c" "p sdiv sint (b - a) + c \<le> hi" using assms(6-9) by linarith+
  ultimately show ?thesis by simp
qed

lemma piecewise_linear_range:
  assumes "\<forall>b\<in>{b0, b1, b2, b3}. lo \<le> b \<and> b \<le> hi"
    and "\<bar>b1 - b0\<bar> \<le> 10000" and "\<bar>b2 - b1\<bar> \<le> 10000" and "\<bar>b3 - b2\<bar> \<le> 10000"
  shows "\<exists>r. piecewise_linear sw_points [b0, b1, b2, b3] v = Inr r \<and> lo \<le> r \<and> r \<le> hi"
proof -
  have upt: "[0..<3] = [0, 1, 2 :: nat]" by (simp add: upt_rec)
  consider "v \<le> 800" | "2250 \<le> v" | "\<not> v \<le> 800" "v < 1250" | "1250 \<le> v" "v < 1900" | "1900 \<le> v" "v < 2250"
    by (metis not_le)
  then show ?thesis
  proof cases
    case 1
    then show ?thesis using assms by (simp add: piecewise_linear_def sw_points_def)
  next
    case 2
    then have "\<not> v \<le> 800" by (auto simp: word_le_nat_alt)
    then show ?thesis using assms 2 by (simp add: piecewise_linear_def sw_points_def)
  next
    case 3
    then have "\<not> 2250 \<le> v" by (auto simp: word_le_nat_alt word_less_nat_alt)
    then have "piecewise_linear sw_points [b0, b1, b2, b3] v = rbind (int32_of (sint (v - 800) * (b1 - b0))) (\<lambda>p. Inr (p sdiv sint (1250 - 800 :: u32) + b0))"
      using 3 by (simp add: piecewise_linear_def sw_points_def Let_def upt)
    then show ?thesis using lerp_between [of 800 v 1250 b1 b0 lo hi] 3 assms by simp
  next
    case 4
    then have "\<not> v \<le> 800" "\<not> 2250 \<le> v" "\<not> v < 1250" by (auto simp: word_le_nat_alt word_less_nat_alt)
    then have "piecewise_linear sw_points [b0, b1, b2, b3] v = rbind (int32_of (sint (v - 1250) * (b2 - b1))) (\<lambda>p. Inr (p sdiv sint (1900 - 1250 :: u32) + b1))"
      using 4 by (simp add: piecewise_linear_def sw_points_def Let_def upt)
    then show ?thesis using lerp_between [of 1250 v 1900 b2 b1 lo hi] 4 assms by simp
  next
    case 5
    then have "\<not> v \<le> 800" "\<not> 2250 \<le> v" "\<not> v < 1250" "\<not> v < 1900" by (auto simp: word_le_nat_alt word_less_nat_alt)
    then have "piecewise_linear sw_points [b0, b1, b2, b3] v = rbind (int32_of (sint (v - 1900) * (b3 - b2))) (\<lambda>p. Inr (p sdiv sint (2250 - 1900 :: u32) + b2))"
      using 5 by (simp add: piecewise_linear_def sw_points_def Let_def upt numeral_2_eq_2)
    then show ?thesis using lerp_between [of 1900 v 2250 b3 b2 lo hi] 5 assms by simp
  qed
qed

text \<open>
  C32: for every step width the defaults of the 4x4 transform exist and are in range: the offset of the
  dequantiser between 50 and 110, the multiplier of key pictures between 500 and 700, which the
  encoder's check accepts, and the modifier of the step width between 10 and 48.
\<close>

theorem defaults_4x4_in_range:
  "\<exists>pb' a b c. defaults_4x4 sw pb = Inr pb' \<and>
    pb' ''dequant_offset'' = Some (P_Unsigned a) \<and> 50 \<le> a \<and> a \<le> 110 \<and>
    pb' ''temporal_cq_sw_multiplier'' = Some (P_Unsigned b) \<and> 500 \<le> b \<and> b \<le> 700 \<and>
    pb' ''temporal_step_width_modifier'' = Some (P_Unsigned c) \<and> 10 \<le> c \<and> c \<le> 48"
proof -
  obtain a where a: "piecewise_linear sw_points dequant_offset_points sw = Inr a" "50 \<le> a" "a \<le> 110"
    using piecewise_linear_range [of 50 50 110 110 50 110] by (auto simp: dequant_offset_points_def)
  obtain b where b: "piecewise_linear sw_points temporal_multiplier_points sw = Inr b" "500 \<le> b" "b \<le> 700"
    using piecewise_linear_range [of 500 500 600 700 500 700] by (auto simp: temporal_multiplier_points_def)
  obtain c where c: "piecewise_linear sw_points temporal_modifier_points sw = Inr c" "10 \<le> c" "c \<le> 48"
    using piecewise_linear_range [of 48 30 20 10 10 48] by (auto simp: temporal_modifier_points_def)
  have bound: "word_of_int lo \<le> (word_of_int i :: u32) \<and> (word_of_int i :: u32) \<le> word_of_int hi"
    if "lo \<le> i" "i \<le> hi" "0 \<le> lo" "hi < 1000" for i lo hi
    using that by (simp add: word_le_def uint_word_of_int_eq take_bit_int_eq_self)
  show ?thesis
    using a b c bound [of 50 a 110] bound [of 500 b 700] bound [of 10 c 48] by (simp add: defaults_4x4_def param_set_def)
qed

text \<open>
  the default of the base quantisation parameter falls with the step width, but below zero it
  wraps: HEVC at a step width of 1300 gets 0, the finest, and at 1200 it gets 50, the coarsest.
\<close>

theorem default_qp_wraps:
  "\<exists>fine coarse. parameter_defaults_global [''base_encoder'' \<mapsto> P_String ''hevc'', ''cq_step_width_loq_0'' \<mapsto> P_Unsigned 1300] = Inr fine \<and>
    fine ''qp'' = Some (P_Unsigned 0) \<and>
    parameter_defaults_global [''base_encoder'' \<mapsto> P_String ''hevc'', ''cq_step_width_loq_0'' \<mapsto> P_Unsigned 1200] = Inr coarse \<and>
    coarse ''qp'' = Some (P_Unsigned 50)"
proof -
  have qp: "default_qp BaseCoding_HEVC True 1300 = Inr 0" by code_simp
  have qp_wrapped: "default_qp BaseCoding_HEVC True 1200 = Inr 50" by code_simp
  have codec: "base_codec_global (lowercase ''hevc'') = BaseCoding_HEVC" by code_simp
  show ?thesis
    by (simp add: parameter_defaults_global_def get_enum_def get_unsigned_def get_param_def qp qp_wrapped codec param_set_def)
qed

section \<open>The whole configuration\<close>

lemma fold_result_keeps:
  assumes "\<And>i s t. f i s = Inr t \<Longrightarrow> g t = g s" and "fold_result f is s = Inr t"
  shows "g t = g s"
  using assms(2) by (induction "is" arbitrary: s) (auto dest: assms(1))

lemma length_get_vector: "get_vector p name n dest = Inr v \<Longrightarrow> length v = length dest"
proof -
  have step: "length (snd (snd (snd t))) = length (snd (snd (snd s)))" if "vector_step i s = Inr t" for i s t
    using that by (auto simp: vector_step_def Let_def split: prod.splits option.splits if_splits)
  show "get_vector p name n dest = Inr v \<Longrightarrow> length v = length dest"
    using fold_result_keeps [where f = vector_step and g = "\<lambda>s. length (snd (snd (snd s)))", OF step]
    by (auto simp: get_vector_def split: option.splits)
qed

definition transform_ok :: "global_configuration \<Rightarrow> bool" where
  "transform_ok g \<longleftrightarrow> gc_transform_block_size g = 2 \<and> gc_num_residual_layers g = 4 \<or>
     gc_transform_block_size g = 4 \<and> gc_num_residual_layers g = 16"

definition global_ok :: "global_configuration \<Rightarrow> bool" where
  "global_ok g \<longleftrightarrow> transform_ok g \<and> global_arrays g \<and> gc_temporal_enabled g < 2 \<and>
     gc_tile_dimensions_type g = tile_dimensions_of (gc_tile_width g) (gc_tile_height g)"

definition resolution_of :: "dimensions \<Rightarrow> u32 \<times> u32" where
  "resolution_of dims = (word_of_nat (dm_plane_width dims (0, LOQ_LEVEL_2)), word_of_nat (dm_plane_height dims (0, LOQ_LEVEL_2)))"

lemma transform_ok_set [simp]: "transform_ok (select_transform t g)"
  by (cases t) (simp_all add: select_transform_def transform_ok_def)

lemma transform_ok_coefficients [simp]: "transform_ok (g\<lparr>gc_upsampling_coefficients := c\<rparr>) = transform_ok g"
  by (simp add: transform_ok_def)

lemma select_transform_frame [simp]:
  "gc_upsampling_coefficients (select_transform t g) = gc_upsampling_coefficients g" "gc_scaling_mode (select_transform t g) = gc_scaling_mode g"
  "gc_temporal_enabled (select_transform t g) = gc_temporal_enabled g" "gc_tile_width (select_transform t g) = gc_tile_width g"
  "gc_tile_height (select_transform t g) = gc_tile_height g" "gc_tile_dimensions_type (select_transform t g) = gc_tile_dimensions_type g"
  "gc_resolution_width (select_transform t g) = gc_resolution_width g" "gc_resolution_height (select_transform t g) = gc_resolution_height g"
  by (cases t; simp add: select_transform_def)+

lemma global_ok_transform [simp]: "global_ok g \<Longrightarrow> global_ok (select_transform t g)"
  by (simp add: global_ok_def global_arrays_def)

lemma resolution_set [simp]:
  "(gc_resolution_width (set_resolution dims g), gc_resolution_height (set_resolution dims g)) = resolution_of dims"
  by (simp add: set_resolution_def resolution_of_def)

lemma global_ok_resolution [simp]: "global_ok (set_resolution dims g) = global_ok g"
  by (simp add: global_ok_def set_resolution_def global_arrays_def transform_ok_def)

lemma global_found:
  assumes "update_global_configuration p d desc (g0, ai0, dims0) = Some (Inr (g, ai, dims))"
    and "length (gc_upsampling_coefficients g0) = 4"
  shows "global_ok g \<and> (gc_resolution_width g, gc_resolution_height g) = resolution_of dims"
proof -
  obtain g1 g2 g3 where f: "read_picture_format p d desc g0 = Inr g1" "read_coding_tools p d g1 = Inr g2"
    "read_tiles_and_transform p g2 = Inr g3" "read_messages p (set_resolution dims g3) ai0 = Inr (g, ai)"
    using assms(1) by (auto simp: update_global_configuration_def run_bind_eq_Inr)
  have 1: "gc_upsampling_coefficients g1 = gc_upsampling_coefficients g0"
    using f(1) by (auto simp: read_picture_format_def)
  have 2: "length (gc_upsampling_coefficients g2) = 4 \<and> length (gc_scaling_mode g2) = 2 \<and> gc_temporal_enabled g2 < 2"
    using f(2) 1 assms(2) by (auto simp: read_coding_tools_def dest!: length_get_vector)
  have 3: "global_ok g3"
    using f(3) 2 by (auto simp: read_tiles_and_transform_def Let_def global_ok_def global_arrays_def
        dest!: length_get_vector split: if_splits)
  have "global_ok g \<and> gc_resolution_width g = gc_resolution_width (set_resolution dims g3) \<and>
      gc_resolution_height g = gc_resolution_height (set_resolution dims g3)"
    using f(4) 3 by (auto simp: read_messages_def Let_def global_ok_def global_arrays_def transform_ok_def set_resolution_def split: if_splits)
  then show ?thesis by (simp add: set_resolution_def resolution_of_def)
qed

definition widths_ok :: "picture_configuration \<Rightarrow> bool" where
  "widths_ok pc \<longleftrightarrow> length (pc_step_width_loq pc) = MAX_NUM_LOQS \<and> length (pc_step_width_loq_orig pc) = MAX_NUM_LOQS \<and>
     list_all (\<lambda>w. 1 \<le> w \<and> w \<le> 32767) (pc_step_width_loq pc @ pc_step_width_loq_orig pc)"

definition matrices_sized :: "picture_configuration \<Rightarrow> bool" where
  "matrices_sized pc \<longleftrightarrow> list_all (\<lambda>m. length m = MAX_NUM_LAYERS)
     [pc_qm_coefficient_2 pc, pc_qm_coefficient_1 pc, pc_qm_coefficient_2_mem pc, pc_qm_coefficient_1_mem pc,
      pc_qm_coefficient_2_par pc, pc_qm_coefficient_1_par pc]"

lemma length_put_entries: "length dst = 17 \<Longrightarrow> n \<le> length src \<Longrightarrow> n \<le> 17 \<Longrightarrow> length (put_entries n src dst) = 17"
  by (simp add: put_entries_def)

lemma length_default_matrix: "n \<in> {4, 16} \<Longrightarrow> row < 3 \<Longrightarrow> length (default_matrix n row) = n"
  by (auto simp: default_matrix_def default_qm_coefficient_2x2_def default_qm_coefficient_4x4_def less_Suc_eq numeral_3_eq_3)

lemma read_matrices_sized:
  assumes "read_matrices p n d2 d1 pc = Inr pc'" and "matrices_sized pc" and "n \<in> {4, 16}" and "length d2 = n" and "length d1 = n"
  shows "matrices_sized pc' \<and> pc_step_width_loq pc' = pc_step_width_loq pc \<and> pc_step_width_loq_orig pc' = pc_step_width_loq_orig pc"
  using assms
  by (cases "pc_quant_matrix_mode pc")
    (auto simp: read_matrices_def Let_def custom_matrix_def matrices_sized_def length_put_entries dest!: length_get_vector)

lemma set_matrices_sized:
  assumes "set_matrices p d g pc = Inr pc'" and "matrices_sized pc" and "transform_ok g"
  shows "matrices_sized pc' \<and> pc_step_width_loq pc' = pc_step_width_loq pc \<and> pc_step_width_loq_orig pc' = pc_step_width_loq_orig pc"
proof -
  let ?n = "unat (gc_num_residual_layers g)"
  let ?d2 = "default_matrix ?n (if gc_scaling_mode g ! LOQ_LEVEL_2 = ScalingMode_1D then 0 else 1)" and ?d1 = "default_matrix ?n 2"
  have n: "?n \<in> {4, 16}" using assms(3) by (auto simp: transform_ok_def)
  have l: "length ?d2 = ?n" "length ?d1 = ?n" using length_default_matrix [OF n] by simp_all
  obtain m two one pc1 where f: "custom_matrix d ''qm_coefficient_2'' ?n (pc_qm_coefficient_2_par pc) = Inr two"
    "custom_matrix d ''qm_coefficient_1'' ?n (pc_qm_coefficient_1_par pc) = Inr one"
    "read_matrices p ?n ?d2 ?d1 (pc\<lparr>pc_quant_matrix_mode := m, pc_qm_coefficient_2_par := two, pc_qm_coefficient_1_par := one,
       pc_qm_coefficient_2 := put_entries ?n ?d2 (pc_qm_coefficient_2 pc),
       pc_qm_coefficient_1 := put_entries ?n ?d1 (pc_qm_coefficient_1 pc)\<rparr>) = Inr pc1"
    "pc' = pc1\<lparr>pc_qm_coefficient_2_mem := put_entries ?n (pc_qm_coefficient_2 pc1) (pc_qm_coefficient_2_mem pc1),
       pc_qm_coefficient_1_mem := put_entries ?n (pc_qm_coefficient_1 pc1) (pc_qm_coefficient_1_mem pc1)\<rparr>"
    using assms(1) unfolding set_matrices_def Let_def by (elim rbind_eq_InrE) (auto simp: eq_commute)
  have "matrices_sized pc1 \<and> pc_step_width_loq pc1 = pc_step_width_loq pc \<and> pc_step_width_loq_orig pc1 = pc_step_width_loq_orig pc"
    using read_matrices_sized [OF f(3) _ n l] f(1,2) assms(2) n l
    by (auto simp: matrices_sized_def custom_matrix_def length_put_entries dest!: length_get_vector)
  then show ?thesis using f(4) n by (auto simp: matrices_sized_def length_put_entries)
qed

lemma picture_found:
  assumes "update_picture_configuration p d g pc = Some (Inr pc')" and "matrices_sized pc" and "transform_ok g"
  shows "matrices_sized pc' \<and> widths_ok pc'"
proof -
  obtain e r t pc1 ty f pc2 pc3 where s: "read_step_widths p d pc = Inr pc1"
    "read_dithering p d (pc1\<lparr>pc_enhancement_enabled := e, pc_temporal_refresh := r, pc_temporal_signalling_present := t,
       pc_picture_type := ty, pc_field_type := FieldType_Top, pc_coding_type := CodingType_IDR, pc_level_1_filtering_enabled := f\<rparr>) = Inr pc2"
    "read_dequant_offset p d pc2 = Some (Inr pc3)" "set_matrices p d g pc3 = Inr pc'"
    using assms(1) by (auto simp: update_picture_configuration_def run_bind_eq_Inr)
  have "widths_ok pc1 \<and> matrices_sized pc1"
    using s(1) assms(2) clamp_bounds [of "1 :: u32" 32767] by (auto simp: read_step_widths_def Let_def widths_ok_def matrices_sized_def)
  then have "widths_ok pc3 \<and> matrices_sized pc3"
    using s(2,3) by (auto simp: read_dithering_def read_dequant_offset_def run_bind_eq_Inr widths_ok_def matrices_sized_def)
  with set_matrices_sized [OF s(4) _ assms(3)] show ?thesis by (simp add: widths_ok_def)
qed

lemma encoder_ranges:
  assumes "update_encoder_configuration p d = Inr ec"
  shows "200 \<le> ec_temporal_cq_sw_multiplier ec \<and> ec_temporal_cq_sw_multiplier ec \<le> 1000 \<and>
    list_all (\<lambda>m. 1000 \<le> m \<and> m \<le> 2000) [ec_delta_sw_mult_gop08 ec, ec_delta_sw_mult_gop04 ec, ec_delta_sw_mult_gop02 ec, ec_delta_sw_mult_gop01 ec]"
proof -
  have gop: "1000 \<le> n \<and> n \<le> 2000" if "gop_multiplier p name d = Inr n" for name n
    using that clamp_bounds [of "1000 :: u32" 2000] by (auto simp: gop_multiplier_def word_le_nat_alt)
  obtain m g8 g4 g2 g1 where f: "200 \<le> m" "m \<le> (1000 :: u32)" "ec_temporal_cq_sw_multiplier ec = unat m"
    "gop_multiplier p ''delta_sw_mult_gop08'' d = Inr g8" "gop_multiplier p ''delta_sw_mult_gop04'' d = Inr g4"
    "gop_multiplier p ''delta_sw_mult_gop02'' d = Inr g2" "gop_multiplier p ''delta_sw_mult_gop01'' d = Inr g1"
    "ec_delta_sw_mult_gop08 ec = g8" "ec_delta_sw_mult_gop04 ec = g4" "ec_delta_sw_mult_gop02 ec = g2" "ec_delta_sw_mult_gop01 ec = g1"
    using assms unfolding update_encoder_configuration_def by (elim rbind_eq_InrE) auto
  then show ?thesis using gop by (auto simp: word_le_nat_alt)
qed

text \<open>What the rest of the encoder and the serializer rely on.\<close>

definition setup_ok :: "encoder_setup \<Rightarrow> bool" where
  "setup_ok s \<longleftrightarrow>
     (let sg = es_configuration s; g = sg_global_configuration sg; ec = es_encoder_configuration s in
      global_ok g \<and> (gc_resolution_width g, gc_resolution_height g) = resolution_of (es_dimensions s) \<and>
      widths_ok (sg_picture_configuration sg) \<and> matrices_sized (sg_picture_configuration sg) \<and>
      sq_level_idc (sg_sequence_configuration sg) \<in> {1, 2, 3, 4} \<and>
      200 \<le> ec_temporal_cq_sw_multiplier ec \<and> ec_temporal_cq_sw_multiplier ec \<le> 1000 \<and>
      list_all (\<lambda>m. 1000 \<le> m \<and> m \<le> 2000) [ec_delta_sw_mult_gop08 ec, ec_delta_sw_mult_gop04 ec, ec_delta_sw_mult_gop02 ec, ec_delta_sw_mult_gop01 ec] \<and>
      (\<forall>c. es_quant_matrix_coeffs s c = -1))"

lemma sequence_level:
  assumes "update_sequence_configuration p desc g = Inr sq"
  shows "sq_level_idc sq \<in> {1, 2, 3, 4}"
proof -
  obtain rate level found where f: "find_level rate level = Inr found" "sq_level_idc sq = found"
    using assms by (auto simp: update_sequence_configuration_def set_window_def split: if_splits)
  have "level \<in> {1, 2, 3, 4}" if "1 \<le> level" "level \<le> (4 :: u32)"
  proof -
    have "unat level \<in> {1, 2, 3, 4}" using that by (auto simp: word_le_nat_alt)
    then show ?thesis by (auto simp: word_unat_eq_iff)
  qed
  with f show ?thesis by (auto simp: find_level_def split: if_splits)
qed

definition consistent :: "encoder_setup \<Rightarrow> bool" where
  "consistent s \<longleftrightarrow> global_ok (sg_global_configuration (es_configuration s)) \<and>
     (gc_resolution_width (sg_global_configuration (es_configuration s)), gc_resolution_height (sg_global_configuration (es_configuration s))) =
       resolution_of (es_dimensions s)"

lemma new_encoder:
  assumes "encoder_new start desc p = Some (Inr s)"
  shows "consistent s \<and> sg_picture_configuration (es_configuration s) = zero_picture"
proof -
  have "length (gc_upsampling_coefficients (sg_global_configuration zero_configuration)) = 4"
    by (simp add: zero_configuration_def zero_global_def)
  then show ?thesis
    using assms global_found by (fastforce simp: consistent_def encoder_new_def run_bind_eq_Inr Let_def zero_configuration_def)
qed

lemma consistent_resize: "global_ok g \<Longrightarrow> consistent (resize_setup g dims s)"
  by (simp add: consistent_def resize_setup_def)

lemma consistent_transform:
  "consistent s \<Longrightarrow> consistent (s\<lparr>es_configuration := (es_configuration s)\<lparr>sg_global_configuration :=
     select_transform t (sg_global_configuration (es_configuration s))\<rparr>\<rparr>)"
  by (simp add: consistent_def)

lemma adopted_transform:
  assumes "adopt_transform name s = Some (Inr s')" and "consistent s"
  shows "consistent s' \<and> sg_picture_configuration (es_configuration s') = sg_picture_configuration (es_configuration s)"
proof -
  let ?g = "sg_global_configuration (es_configuration s)"
  have ok: "global_ok (select_transform TransformType_DD ?g)" using assms(2) by (simp add: consistent_def)
  consider dims where "s' = resize_setup (select_transform TransformType_DD ?g) dims s"
    | "s' = s\<lparr>es_configuration := (es_configuration s)\<lparr>sg_global_configuration := select_transform TransformType_DDS ?g\<rparr>\<rparr>" | "s' = s"
    using assms(1) by (auto simp: adopt_transform_def Let_def run_bind_eq_Inr split: if_splits)
  then show ?thesis
  proof cases
    case 1
    then show ?thesis using consistent_resize [OF ok] by (simp add: resize_setup_def)
  next
    case 2
    then show ?thesis using consistent_transform [OF assms(2)] by simp
  qed (use assms(2) in simp)
qed

lemma global_ok_updates [simp]:
  "global_ok (g\<lparr>gc_temporal_step_width_modifier := m\<rparr>) = global_ok g" "global_ok (g\<lparr>gc_upsample := u\<rparr>) = global_ok g"
  by (simp_all add: global_ok_def global_arrays_def transform_ok_def)

lemma global_ok_coefficients:
  "global_ok g \<Longrightarrow> length c = length (gc_upsampling_coefficients g) \<Longrightarrow> global_ok (g\<lparr>gc_upsampling_coefficients := c\<rparr>)"
  by (simp add: global_ok_def global_arrays_def)

lemma adopted_upsampling:
  assumes "adopt_upsampling p d g = Inr g'" and "global_ok g"
  shows "global_ok g' \<and> gc_resolution_width g' = gc_resolution_width g \<and> gc_resolution_height g' = gc_resolution_height g"
proof -
  obtain g1 where g1: "(if p ''temporal_step_width_modifier'' = None
      then rbind (get_unsigned d ''temporal_step_width_modifier'' 48) (\<lambda>m. Inr (g\<lparr>gc_temporal_step_width_modifier := m\<rparr>)) else Inr g) = Inr g1"
    "(if p ''encoding_upsample'' = None
      then rbind (get_enum upsample_names d ''encoding_upsample'' Upsample_ModifiedCubic) (\<lambda>u.
        let g = g1\<lparr>gc_upsample := u\<rparr> in
        if u = Upsample_AdaptiveCubic
        then rbind (get_vector d ''upsampling_coefficients'' (length (gc_upsampling_coefficients g)) (gc_upsampling_coefficients g)) (\<lambda>c.
          Inr (g\<lparr>gc_upsampling_coefficients := c\<rparr>))
        else Inr g)
      else Inr g1) = Inr g'"
    using assms(1) unfolding adopt_upsampling_def by (rule rbind_eq_InrE)
  have ok: "global_ok g1 \<and> gc_resolution_width g1 = gc_resolution_width g \<and> gc_resolution_height g1 = gc_resolution_height g"
    using g1(1) assms(2) by (auto split: if_splits)
  show ?thesis
  proof (cases "p ''encoding_upsample'' = None")
    case True
    obtain u where u: "(let g = g1\<lparr>gc_upsample := u\<rparr> in
        if u = Upsample_AdaptiveCubic
        then rbind (get_vector d ''upsampling_coefficients'' (length (gc_upsampling_coefficients g)) (gc_upsampling_coefficients g)) (\<lambda>c.
          Inr (g\<lparr>gc_upsampling_coefficients := c\<rparr>))
        else Inr g) = Inr g'"
      using g1(2) unfolding if_P [OF True] by (rule rbind_eq_InrE)
    show ?thesis
    proof (cases "u = Upsample_AdaptiveCubic")
      case True
      obtain c where c: "get_vector d ''upsampling_coefficients'' (length (gc_upsampling_coefficients (g1\<lparr>gc_upsample := u\<rparr>)))
          (gc_upsampling_coefficients (g1\<lparr>gc_upsample := u\<rparr>)) = Inr c" "Inr (g1\<lparr>gc_upsample := u\<rparr>\<lparr>gc_upsampling_coefficients := c\<rparr>) = (Inr g' :: global_configuration result)"
        using u unfolding Let_def if_P [OF True] by (rule rbind_eq_InrE)
      show ?thesis using ok global_ok_coefficients [OF _ length_get_vector [OF c(1)]] c(2) by auto
    next
      case False
      then show ?thesis using ok u unfolding Let_def by auto
    qed
  qed (use ok g1(2) in auto)
qed

lemma adopted_step_width:
  assumes "adopt_step_width d pc = Inr pc'" and "widths_ok pc" and "matrices_sized pc"
  shows "widths_ok pc' \<and> matrices_sized pc'"
proof -
  have update: "list_all P (xs[i := y])" if "list_all P xs" "P y" for P :: "u32 \<Rightarrow> bool" and xs i y
    using that set_update_subset_insert [of xs i y] by (auto simp: list_all_iff)
  show ?thesis
    using assms clamp_bounds [of "1 :: u32" 32767]
    by (auto simp: adopt_step_width_def widths_ok_def matrices_sized_def intro!: update split: if_splits)
qed

text \<open>
  C28: whatever the parameters and the first pictures, when the encoder can be set up at all its
  configuration is in shape: block size and layers belong to one transform, the resolution is the one
  of the dimensions, the arrays have their lengths, every step width is in 1 to 32767, the multipliers
  of step widths and the level are in range, and no quantisation matrix is remembered.
\<close>

theorem setup_in_shape:
  assumes "encoder_new start desc p = Some (Inr s)" and "initialise_config p src_image s = Some (Inr s')"
  shows "setup_ok s'"
proof -
  note new = new_encoder [OF assms(1)]
  have zero: "matrices_sized zero_picture" by (simp add: matrices_sized_def zero_picture_def)
  obtain d name s1 sq ec pc pc1 g1 where f: "adopt_transform name s = Some (Inr s1)"
    "update_sequence_configuration p (es_src_image s1) (sg_global_configuration (es_configuration s1)) = Inr sq"
    "update_encoder_configuration p d = Inr ec"
    "update_picture_configuration p d (sg_global_configuration (es_configuration s1)) (sg_picture_configuration (es_configuration s1)) = Some (Inr pc)"
    "adopt_step_width d pc = Inr pc1" "adopt_upsampling p d (sg_global_configuration (es_configuration s1)) = Inr g1"
    "s' = s1\<lparr>es_encoder_configuration := ec, es_configuration := (es_configuration s1)\<lparr>sg_sequence_configuration := sq,
       sg_global_configuration := g1, sg_picture_configuration := pc1\<rparr>, es_quant_matrix_coeffs := (\<lambda>_. -1)\<rparr>"
    using assms(2) by (auto simp: initialise_config_def run_bind_eq_Inr Let_def)
  note a = adopted_transform [OF f(1) conjunct1 [OF new]]
  have t: "transform_ok (sg_global_configuration (es_configuration s1))" using a by (simp add: consistent_def global_ok_def)
  have "matrices_sized pc \<and> widths_ok pc" using picture_found [OF f(4) _ t] a new zero by simp
  then have pc: "widths_ok pc1 \<and> matrices_sized pc1" using adopted_step_width [OF f(5)] by simp
  show ?thesis
    unfolding setup_ok_def Let_def
    using pc adopted_upsampling [OF f(6) conjunct1 [OF conjunct1 [OF a, unfolded consistent_def]]] conjunct1 [OF a, unfolded consistent_def]
      sequence_level [OF f(2)] encoder_ranges [OF f(3)] f(7) by simp
qed

text \<open>A concrete setup: the parameters of a conformance stream, 1080p in 4:2:0.\<close>

definition conformance_parameters :: parameters where
  "conformance_parameters = [''parameter_config'' \<mapsto> P_String ''conformance'']"

definition blank_setup :: encoder_setup where
  "blank_setup = \<lparr>es_encoder_configuration = zero_encoder_configuration, es_base_qp = 0, es_configuration = zero_configuration,
     es_dimensions = blank_dimensions,
     es_quant_matrix_coeffs = (\<lambda>_. 0), es_src_image = hd_description, es_base_image = hd_description,
     es_intermediate_image = hd_description, es_enhancement_image = hd_description\<rparr>"

lemmas param_eval = get_param_def get_param_or_def get_unsigned_def get_unsigned_or_def get_enum_def get_enum_or_def get_vector_def
  param_set_def conformance_parameters_def

lemma conformance_word: "extract_enum parameter_config_names ''conformance'' = Inr ParameterConfig_Conformance" by code_simp

lemma stream_defaults:
  obtains d where "parameter_defaults_global conformance_parameters = Inr d" "d ''num_processed_planes'' = Some (P_Unsigned 1)"
    "d ''qp'' = Some (P_Unsigned 28)" "d ''upsampling_coefficients'' = None"
  by (simp add: parameter_defaults_global_def param_eval conformance_word)

lemma hd_description_values: "desc_bit_depth hd_description = Inr 8" "desc_colourspace hd_description = Inr Colourspace_YUV420"
  by (simp_all add: desc_bit_depth_def desc_colourspace_def imagedesc_def hd_description_def format_code_def image_formats_def s_PictureDescInfo_def image_info_def)

lemma new_evaluates:
  assumes dims: "\<And>g. sizes_defined g \<Longrightarrow> unit_x g = 8 \<Longrightarrow> unit_y g = 8 \<Longrightarrow> \<exists>d. dimensions_set g 1920 1080 (es_dimensions blank_setup) = Some (Inr d) \<and>
    dm_plane_width d (0, Suc 0) = 1920 \<and> dm_plane_height d (0, Suc 0) = 1080"
  shows "\<exists>s. encoder_new blank_setup hd_description conformance_parameters = Some (Inr s) \<and> es_src_image s = hd_description \<and> es_base_qp s = 28 \<and>
    gc_resolution_width (sg_global_configuration (es_configuration s)) = 1920 \<and> gc_resolution_height (sg_global_configuration (es_configuration s)) = 1080
    \<and> gc_num_residual_layers (sg_global_configuration (es_configuration s)) = 16 \<and> gc_scaling_mode (sg_global_configuration (es_configuration s)) = [ScalingMode_None, ScalingMode_2D]
    \<and> sg_picture_configuration (es_configuration s) = zero_picture"
proof -
  obtain d where d: "parameter_defaults_global conformance_parameters = Inr d" "d ''num_processed_planes'' = Some (P_Unsigned 1)"
    "d ''qp'' = Some (P_Unsigned 28)" "d ''upsampling_coefficients'' = None" by (rule stream_defaults)
  obtain g1 where g1: "read_picture_format conformance_parameters d hd_description zero_global = Inr g1" "g1 = zero_global\<lparr>gc_enhancement_depth := 8, gc_base_depth := 8,
     gc_colourspace := Colourspace_YUV420, gc_num_image_planes := 3, gc_num_processed_planes := 1\<rparr>"
    using d by (simp add: read_picture_format_def param_eval hd_description_values)
  obtain g2 where g2: "read_coding_tools conformance_parameters d g1 = Inr g2" "gc_scaling_mode g2 = [ScalingMode_None, ScalingMode_2D]"
     "gc_colourspace g2 = Colourspace_YUV420" "gc_num_image_planes g2 = 3" "gc_num_processed_planes g2 = 1" "gc_upsample g2 = Upsample_ModifiedCubic" "gc_base_depth g2 = 8" "gc_level1_depth_flag g2 = False"
    using d by (simp add: read_coding_tools_def param_eval g1(2))
  obtain g3 where g3: "read_tiles_and_transform conformance_parameters g2 = Inr g3" "gc_transform_block_size g3 = 4" "gc_num_residual_layers g3 = 16"
     "gc_tile_width g3 = 0" "gc_scaling_mode g3 = [ScalingMode_None, ScalingMode_2D]"
     "gc_colourspace g3 = Colourspace_YUV420" "gc_num_image_planes g3 = 3" "gc_num_processed_planes g3 = 1" "gc_base_depth g3 = 8" "gc_level1_depth_flag g3 = False"
    using g2 by (simp add: read_tiles_and_transform_def param_eval Let_def select_transform_def)
  have ok: "sizes_defined g3" "unit_x g3 = 8" "unit_y g3 = 8"
    using g3 by (simp_all add: sizes_defined_def unit_x_def unit_y_def axis_scale_def scaled_x_def scaled_y_def)
  obtain dm where dm: "dimensions_set g3 1920 1080 (es_dimensions blank_setup) = Some (Inr dm)" "dm_plane_width dm (0, Suc 0) = 1920" "dm_plane_height dm (0, Suc 0) = 1080"
    using dims [OF ok] by blast
  obtain g4 where g4: "read_messages conformance_parameters (set_resolution dm g3) (sg_additional_info zero_configuration) = Inr (g4, sg_additional_info zero_configuration)"
    "gc_base_depth g4 = 8" "gc_level1_depth_flag g4 = False" "gc_num_residual_layers g4 = 16" "gc_scaling_mode g4 = [ScalingMode_None, ScalingMode_2D]"
     "gc_resolution_width g4 = 1920" "gc_resolution_height g4 = 1080"
    using g3 dm by (simp add: read_messages_def param_eval Let_def set_resolution_def)
  have up: "update_global_configuration conformance_parameters d hd_description (zero_global, sg_additional_info zero_configuration, es_dimensions blank_setup) =
     Some (Inr (g4, sg_additional_info zero_configuration, dm))"
    using g1(1) g2(1) g3(1) dm(1) g4(1) by (simp add: update_global_configuration_def hd_description_def)
  obtain b where b: "with_depth (with_size hd_description (dm_base_width dm) (dm_base_height dm)) 8 = Inr b"
    by (simp add: with_depth_def with_size_def hd_description_def format_code_def image_formats_def s_PictureDescInfo_def image_info_def
       desc_width_def desc_height_def plane_info_def imagedesc_def)
  show ?thesis using d up g4 b by (simp add: encoder_new_def param_eval Let_def zero_configuration_def)
qed

lemma picture_defaults:
  "\<exists>d. parameter_defaults_picture conformance_parameters [] 28 = Inr d \<and> d = (\<lambda>_. None) (''cq_step_width_loq_1'' \<mapsto> P_Unsigned 32767, ''cq_step_width_loq_0'' \<mapsto> P_Unsigned 32767,
    ''priority_mode'' \<mapsto> P_String ''mode_0_0'', ''temporal_cq_sw_multiplier'' \<mapsto> P_Unsigned 1000, ''dequant_offset'' \<mapsto> P_Unsigned 0,
    ''dequant_offset_mode'' \<mapsto> P_String ''default'', ''dithering_control'' \<mapsto> P_Bool False, ''dithering_strength'' \<mapsto> P_Unsigned 0,
    ''dithering_type'' \<mapsto> P_String ''none'', ''quant_matrix_mode'' \<mapsto> P_String ''previous'', ''sad_threshold'' \<mapsto> P_Unsigned 0,
    ''sad_coeff_threshold'' \<mapsto> P_Unsigned 0, ''quant_reduced_deadzone'' \<mapsto> P_Unsigned 5)"
  by (simp add: parameter_defaults_picture_def param_eval conformance_word no_dithering_def)

lemma conformance_names: "extract_enum dithering_type_names ''none'' = Inr Dithering_None" "extract_enum dequant_offset_names ''default'' = Inr DequantOffset_Default"
  "extract_enum quant_matrix_names ''previous'' = Inr QuantMatrix_BothPrevious" 
  by code_simp+

lemma conformance_priority: "\<exists>c. priority_configuration_new ''mode_0_0'' ''type_4'' ''type_5'' = Inr c"
  by (simp add: priority_configuration_new_def lookup_name_def priority_modes_def priority_block_types_def)

lemma initialise_evaluates:
  assumes s: "es_src_image s = hd_description" "es_base_qp s = 28"
    "gc_resolution_width (sg_global_configuration (es_configuration s)) = 1920" "gc_resolution_height (sg_global_configuration (es_configuration s)) = 1080"
    "gc_num_residual_layers (sg_global_configuration (es_configuration s)) = 16" "gc_scaling_mode (sg_global_configuration (es_configuration s)) = [ScalingMode_None, ScalingMode_2D]"
    "sg_picture_configuration (es_configuration s) = zero_picture"
  shows "\<exists>s'. initialise_config conformance_parameters [] s = Some (Inr s') \<and> sq_level_idc (sg_sequence_configuration (es_configuration s')) = 2"
proof -
  let ?g = "sg_global_configuration (es_configuration s)"
  obtain d where d: "parameter_defaults_picture conformance_parameters [] 28 = Inr d" "d = (\<lambda>_. None) (''cq_step_width_loq_1'' \<mapsto> P_Unsigned 32767, ''cq_step_width_loq_0'' \<mapsto> P_Unsigned 32767,
    ''priority_mode'' \<mapsto> P_String ''mode_0_0'', ''temporal_cq_sw_multiplier'' \<mapsto> P_Unsigned 1000, ''dequant_offset'' \<mapsto> P_Unsigned 0,
    ''dequant_offset_mode'' \<mapsto> P_String ''default'', ''dithering_control'' \<mapsto> P_Bool False, ''dithering_strength'' \<mapsto> P_Unsigned 0,
    ''dithering_type'' \<mapsto> P_String ''none'', ''quant_matrix_mode'' \<mapsto> P_String ''previous'', ''sad_threshold'' \<mapsto> P_Unsigned 0,
    ''sad_coeff_threshold'' \<mapsto> P_Unsigned 0, ''quant_reduced_deadzone'' \<mapsto> P_Unsigned 5)" using picture_defaults by blast
  obtain sq where sq: "update_sequence_configuration conformance_parameters hd_description ?g = Inr sq" "sq_level_idc sq = 2"
    using s by (simp add: update_sequence_configuration_def param_eval hd_description_values find_profile_def is_422_or_444_def find_level_def level_limits_def set_window_def hd_description_values [unfolded hd_description_def] hd_description_def)
  obtain ec where ec: "update_encoder_configuration conformance_parameters d = Inr ec"
    using conformance_priority by (auto simp: update_encoder_configuration_def gop_multiplier_def param_eval d(2))
  obtain pc where pc: "update_picture_configuration conformance_parameters d ?g zero_picture = Some (Inr pc)"
    using s by (simp add: update_picture_configuration_def read_step_widths_def read_dithering_def read_dequant_offset_def set_matrices_def read_matrices_def custom_matrix_def
       get_int_or_def get_int.simps param_eval d(2) conformance_names Let_def zero_picture_def)
  show ?thesis using s sq ec pc d(1)
    by (simp add: initialise_config_def Let_def adopt_transform_def adopt_step_width_def adopt_upsampling_def param_eval d(2))
qed
theorem setup_in_shape_witness:
  "\<exists>s s'. encoder_new blank_setup hd_description conformance_parameters = Some (Inr s) \<and>
    initialise_config conformance_parameters [] s = Some (Inr s') \<and> setup_ok s' \<and>
    sq_level_idc (sg_sequence_configuration (es_configuration s')) = 2"
proof -
  have "\<exists>d. dimensions_set g 1920 1080 (es_dimensions blank_setup) = Some (Inr d) \<and>
      dm_plane_width d (0, Suc 0) = 1920 \<and> dm_plane_height d (0, Suc 0) = 1080"
    if g: "sizes_defined g" "unit_x g = 8" "unit_y g = 8" for g
  proof -
    obtain d where d: "dimensions_set g 1920 1080 (es_dimensions blank_setup) = Some (Inr d)"
      by (rule dimensions_exist [OF g(1), of 1920 1080]) (simp_all add: g)
    have n: "0 < unat (gc_num_image_planes g)" using g(1) by (auto simp: sizes_defined_def split: if_splits)
    show ?thesis
      using planes_found [OF g(1) _ _ _ _ d n surjective_pairing] d by (simp add: g round_up_def ceil_div_def plane_size_def)
  qed
  then obtain s where s: "encoder_new blank_setup hd_description conformance_parameters = Some (Inr s)" "es_src_image s = hd_description"
    "es_base_qp s = 28" "gc_resolution_width (sg_global_configuration (es_configuration s)) = 1920"
    "gc_resolution_height (sg_global_configuration (es_configuration s)) = 1080"
    "gc_num_residual_layers (sg_global_configuration (es_configuration s)) = 16"
    "gc_scaling_mode (sg_global_configuration (es_configuration s)) = [ScalingMode_None, ScalingMode_2D]"
    "sg_picture_configuration (es_configuration s) = zero_picture"
    using new_evaluates by blast
  obtain s' where "initialise_config conformance_parameters [] s = Some (Inr s')" "sq_level_idc (sg_sequence_configuration (es_configuration s')) = 2"
    using initialise_evaluates [OF s(2-)] by blast
  with s(1) setup_in_shape [OF s(1)] show ?thesis by blast
qed

end
