(* ===== verification/StreamScan.thy ===== *)
theory StreamScan
  imports Packet Parameters
begin

text \<open>
  decoder/src/ScanEnhancement.cpp: enhancement packets are found in an access unit of the base
  stream, as NAL units of their own or inside SEI messages, and handed to a callback; NAL units of
  enhancement are also cut out of the access unit. The vector that holds the access unit keeps its
  length while the size of the data in it shrinks, so the model keeps both; an access outside the
  vector is \<open>OutOfRange\<close>. The callback only queues its argument: the model returns the list of
  calls. Sizes and offsets are natural numbers, with the subtractions of \<open>unsigned\<close> and
  \<open>size_t\<close> written out; a vector has fewer than \<open>2 ^ 32\<close> bytes.
\<close>

section \<open>Integers and memory\<close>

definition sub32 :: "nat \<Rightarrow> nat \<Rightarrow> nat" where
  "sub32 a b = (a + 2 ^ 32 - b) mod 2 ^ 32"

definition sub64 :: "nat \<Rightarrow> nat \<Rightarrow> nat" where
  "sub64 a b = (a + 2 ^ 64 - b) mod 2 ^ 64"

lemma sub32_le [simp, range_simps]: "b \<le> a \<Longrightarrow> a < 2 ^ 32 \<Longrightarrow> sub32 a b = a - b"
proof -
  assume "b \<le> a" "a < 2 ^ 32"
  then have "a + 2 ^ 32 - b = (a - b) + 2 ^ 32" "a - b < 2 ^ 32" by simp_all
  then show ?thesis by (simp only: sub32_def mod_add_self2 mod_less)
qed

lemma sub64_le [simp, range_simps]: "b \<le> a \<Longrightarrow> a < 2 ^ 64 \<Longrightarrow> sub64 a b = a - b"
proof -
  assume "b \<le> a" "a < 2 ^ 64"
  then have "a + 2 ^ 64 - b = (a - b) + 2 ^ 64" "a - b < 2 ^ 64" by simp_all
  then show ?thesis by (simp only: sub64_def mod_add_self2 mod_less)
qed

text \<open>\<open>data[i]\<close>, and \<open>memmove(data + dst, data + src, n)\<close>.\<close>

definition byte_of :: "u8 list \<Rightarrow> nat \<Rightarrow> u8 result" where
  "byte_of d i = (if i < length d then Inr (d ! i) else Inl OutOfRange)"

definition move_bytes :: "u8 list \<Rightarrow> nat \<Rightarrow> nat \<Rightarrow> nat \<Rightarrow> u8 list result" where
  "move_bytes d dst src n =
     (if src + n \<le> length d \<and> dst + n \<le> length d
      then Inr (take dst d @ take n (drop src d) @ drop (dst + n) d) else Inl OutOfRange)"

lemma byte_of_Inr [simp]: "byte_of d i = Inr b \<longleftrightarrow> i < length d \<and> d ! i = b"
  by (auto simp: byte_of_def)

lemma byte_of_less: "i < length d \<Longrightarrow> byte_of d i = Inr (d ! i)"
  by simp

lemma length_move_bytes: "move_bytes d dst src n = Inr e \<Longrightarrow> length e = length d"
  by (auto simp: move_bytes_def split: if_splits)

section \<open>Raw byte sequences\<close>

text \<open>
  \<open>rb_data\<close> is the memory behind the pointer \<open>data\<close>, which may be shorter or longer than the
  length \<open>len\<close> the decoder was given.
\<close>

record rbsp_decoder =
  rb_data :: "u8 list"
  rb_len :: nat
  rb_emulation_prevention :: bool
  rb_emitted :: u32
  rb_offs :: nat

definition rbsp_new :: "u8 list \<Rightarrow> nat \<Rightarrow> bool \<Rightarrow> rbsp_decoder" where
  "rbsp_new d l e = \<lparr>rb_data = d, rb_len = l, rb_emulation_prevention = e, rb_emitted = 0xFFFFFFFF, rb_offs = 0\<rparr>"

definition rbsp_shift :: "rbsp_decoder \<Rightarrow> rbsp_decoder result" where
  "rbsp_shift r =
     rbind (byte_of (rb_data r) (rb_offs r)) (\<lambda>b.
     Inr (r\<lparr>rb_emitted := push_bit 8 (rb_emitted r) OR ucast b, rb_offs := rb_offs r + 1\<rparr>))"

definition get_byte :: "rbsp_decoder \<Rightarrow> (u8 \<times> rbsp_decoder) result" where
  "get_byte r =
     (if rb_len r \<le> rb_offs r then Inl Thrown
      else rbind (rbsp_shift r) (\<lambda>r.
        if rb_emulation_prevention r \<and> rb_emitted r AND 0xFFFFFF = 0x000003
        then if rb_len r \<le> rb_offs r then Inl Thrown
             else rbind (rbsp_shift r) (\<lambda>r. Inr (ucast (rb_emitted r), r))
        else Inr (ucast (rb_emitted r), r)))"

fun copy_sei :: "nat \<Rightarrow> rbsp_decoder \<Rightarrow> (u8 list \<times> rbsp_decoder) result" where
  "copy_sei 0 r = Inr ([], r)"
| "copy_sei (Suc l) r = rbind (get_byte r) (\<lambda>(b, r). rbind (copy_sei l r) (\<lambda>(bs, r). Inr (b # bs, r)))"

lemma rbsp_shift_offs: "rbsp_shift r = Inr r' \<Longrightarrow> rb_offs r' = Suc (rb_offs r) \<and> rb_len r' = rb_len r"
  by (auto simp: rbsp_shift_def rbind_eq_Inr)

lemma get_byte_offs:
  assumes "get_byte r = Inr (b, r')"
  shows "rb_offs r < rb_len r \<and> rb_offs r < rb_offs r' \<and> rb_offs r' \<le> rb_len r' \<and> rb_len r' = rb_len r"
proof -
  have "rb_offs r < rb_len r" using assms by (auto simp: get_byte_def split: if_splits)
  then obtain s where s: "rbsp_shift r = Inr s" using assms by (auto simp: get_byte_def split: if_splits)
  with assms \<open>rb_offs r < rb_len r\<close> show ?thesis
    using rbsp_shift_offs [OF s]
    by (auto simp: get_byte_def rbind_eq_Inr dest: rbsp_shift_offs split: if_splits)
qed

text \<open>The loop of \<open>copy\<close>, which the exception of \<open>get_byte\<close> ends.\<close>

function rbsp_copy_loop :: "rbsp_decoder \<Rightarrow> nat \<Rightarrow> packet_builder \<Rightarrow> packet_builder result" where
  "rbsp_copy_loop r i dst =
     (case get_byte r of
        Inl Thrown \<Rightarrow> packet_resize dst (sub32 i 1)
      | Inl e \<Rightarrow> Inl e
      | Inr (b, r) \<Rightarrow> rbind (packet_put i b dst) (rbsp_copy_loop r (i + 1)))"
  by pat_completeness auto
termination
  by (relation "measure (\<lambda>(r, i, dst). rb_len r - rb_offs r)") (auto dest: get_byte_offs)

declare rbsp_copy_loop.simps [simp del]

definition rbsp_copy :: "rbsp_decoder \<Rightarrow> packet_builder \<Rightarrow> packet_builder result" where
  "rbsp_copy r dst = rbsp_copy_loop r 0 (packet_reserve dst (sub32 (rb_len r mod 2 ^ 32) (rb_offs r mod 2 ^ 32)))"

section \<open>NAL units\<close>

type_synonym call = "packet \<times> bool"

definition is_nal_marker :: "u8 list \<Rightarrow> nat \<Rightarrow> bool result" where
  "is_nal_marker d i =
     rbind (byte_of d i) (\<lambda>a. if a \<noteq> 0 then Inr False
     else rbind (byte_of d (i + 1)) (\<lambda>b. if b \<noteq> 0 then Inr False
     else rbind (byte_of d (i + 2)) (\<lambda>c. Inr (c = 1))))"

definition LCEVC_NON_IDR :: u8 where "LCEVC_NON_IDR = 28"
definition LCEVC_IDR :: u8 where "LCEVC_IDR = 29"
definition LCEVC_RSV :: u8 where "LCEVC_RSV = 30"

definition is_lcevc_nal_unit_type :: "u8 \<Rightarrow> bool" where
  "is_lcevc_nal_unit_type b \<longleftrightarrow> LCEVC_NON_IDR \<le> b \<and> b \<le> LCEVC_RSV"

text \<open>\<open>data\<close> is the memory from the first byte of the payload.\<close>

definition extract_enhancement_nal :: "u8 list \<Rightarrow> nat \<Rightarrow> bool \<Rightarrow> 64 word \<Rightarrow> bool \<Rightarrow> call result" where
  "extract_enhancement_nal data n emulation_prevention pts is_idr =
     (let pss = set_timestamp packet_build pts in
      rbind (if emulation_prevention then rbsp_copy (rbsp_new data n True) pss
             else contents_bytes pss data (n mod 2 ^ 32)) (\<lambda>pss.
      Inr (packet_finish pss, is_idr)))"

text \<open>The header of a NAL unit at \<open>i\<close>: its type when it is one of enhancement.\<close>

definition lcevc_nal_at :: "u8 list \<Rightarrow> nat \<Rightarrow> u8 option result" where
  "lcevc_nal_at d i =
     rbind (is_nal_marker d i) (\<lambda>m. if \<not> m then Inr None
     else rbind (byte_of d (i + 3)) (\<lambda>h. if h AND 0xc0 \<noteq> 0x40 then Inr None
     else rbind (byte_of d (i + 4)) (\<lambda>r. if r \<noteq> 0xff then Inr None
     else let nal_unit_type = drop_bit 1 (h AND 0x3e) in
       Inr (if is_lcevc_nal_unit_type nal_unit_type then Some nal_unit_type else None))))"

text \<open>
  The size of a unit: the next marker from \<open>j\<close> on, with the zero before it that makes it four
  bytes long, or the end of the data.
\<close>

function find_marker :: "u8 list \<Rightarrow> nat \<Rightarrow> nat \<Rightarrow> nat option result" where
  "find_marker d data_size j =
     (if j < sub64 data_size 3
      then rbind (is_nal_marker d j) (\<lambda>m. if m then Inr (Some j) else find_marker d data_size (j + 1))
      else Inr None)"
  by pat_completeness auto
termination
  by (relation "measure (\<lambda>(d, s, j). length d - j)") (auto simp: is_nal_marker_def)

declare find_marker.simps [simp del]

definition nal_end :: "u8 list \<Rightarrow> nat \<Rightarrow> nat \<Rightarrow> nat result" where
  "nal_end d data_size j =
     rbind (find_marker d data_size j) (\<lambda>m. case m of
       None \<Rightarrow> Inr (data_size mod 2 ^ 32)
     | Some j \<Rightarrow> rbind (byte_of d (j - 1)) (\<lambda>z. Inr (if z = 0 then j - 1 else j)))"

text \<open>
  The scan: after a unit was cut out the loop goes on one byte behind the place where it was, up
  to the new size.
\<close>

function scan_nal_loop :: "u8 list \<Rightarrow> nat \<Rightarrow> nat \<Rightarrow> 64 word \<Rightarrow> call list \<Rightarrow> (u8 list \<times> nat \<times> call list) result" where
  "scan_nal_loop data data_size i pts calls =
     (if i < sub64 data_size 4
      then rbind (lcevc_nal_at data i) (\<lambda>t. case t of
          None \<Rightarrow> scan_nal_loop data data_size (i + 1) pts calls
        | Some nal_unit_type \<Rightarrow>
            rbind (nal_end data data_size (i + 4)) (\<lambda>e.
            rbind (extract_enhancement_nal (drop (i + 5) data) (sub32 e (i + 5)) True pts (nal_unit_type = LCEVC_IDR)) (\<lambda>c.
            rbind (move_bytes data i e (sub64 data_size e)) (\<lambda>data.
            scan_nal_loop data (sub64 (data_size + i) e) (i + 1) pts (calls @ [c])))))
      else Inr (data, data_size, calls))"
  by pat_completeness auto
termination
  by (relation "measure (\<lambda>(d, s, i, p, c). length d - i)")
    (auto simp: lcevc_nal_at_def is_nal_marker_def dest!: length_move_bytes)

declare scan_nal_loop.simps [simp del]

definition scan_enhancement_nal :: "u8 list \<Rightarrow> nat \<Rightarrow> 64 word \<Rightarrow> (u8 list \<times> nat \<times> call list) result" where
  "scan_enhancement_nal data data_size pts = scan_nal_loop data data_size 0 pts []"

text \<open>The same scan without the cut, for a NAL unit inside an SEI message.\<close>

function scan_enhancement_nal_prod :: "u8 list \<Rightarrow> nat \<Rightarrow> nat \<Rightarrow> 64 word \<Rightarrow> call list result" where
  "scan_enhancement_nal_prod data data_size i pts =
     (if i < sub64 data_size 4
      then rbind (lcevc_nal_at data i) (\<lambda>t.
        rbind (case t of
            None \<Rightarrow> Inr []
          | Some nal_unit_type \<Rightarrow>
              rbind (nal_end data data_size (i + 4)) (\<lambda>e.
              rbind (extract_enhancement_nal (drop (i + 5) data) (sub32 e (i + 5)) True pts (nal_unit_type = LCEVC_IDR)) (\<lambda>c.
              Inr [c]))) (\<lambda>cs.
        rbind (scan_enhancement_nal_prod data data_size (i + 1) pts) (\<lambda>rest. Inr (cs @ rest))))
      else Inr [])"
  by pat_completeness auto
termination
  by (relation "measure (\<lambda>(d, s, i, p). length d - i)") (auto simp: lcevc_nal_at_def is_nal_marker_def)

declare scan_enhancement_nal_prod.simps [simp del]

text \<open>
  EVC prefixes a unit by its length in four bytes, in the byte order of the machine, here little
  endian. A length that adds up to zero modulo \<open>2 ^ 32\<close> keeps the loop where it is for ever.
\<close>

definition load32 :: "u8 list \<Rightarrow> nat \<Rightarrow> nat result" where
  "load32 d i =
     rbind (byte_of d i) (\<lambda>a. rbind (byte_of d (i + 1)) (\<lambda>b. rbind (byte_of d (i + 2)) (\<lambda>c. rbind (byte_of d (i + 3)) (\<lambda>e.
     Inr (unat a + 256 * unat b + 65536 * unat c + 16777216 * unat e)))))"

definition add32 :: "nat \<Rightarrow> nat \<Rightarrow> nat" where
  "add32 a b = (a + b) mod 2 ^ 32"

text \<open>The header of two bytes at \<open>i\<close>: \<open>(data[i] & 0xfe) == tag && (data[i + 1] & 0x3f) == 0\<close>.\<close>

definition evc_header_at :: "u8 \<Rightarrow> u8 list \<Rightarrow> nat \<Rightarrow> bool result" where
  "evc_header_at tag d i =
     rbind (byte_of d i) (\<lambda>a. if a AND 0xfe \<noteq> tag then Inr False
     else rbind (byte_of d (i + 1)) (\<lambda>b. Inr (b AND 0x3f = 0)))"

partial_function (option) scan_nal_evc_loop ::
  "u8 list \<Rightarrow> nat \<Rightarrow> nat \<Rightarrow> 64 word \<Rightarrow> call list \<Rightarrow> (u8 list \<times> nat \<times> call list) run" where
  "scan_nal_evc_loop data data_size offset pts calls =
     (if offset < sub64 data_size 6
      then case load32 data offset of Inl e \<Rightarrow> Some (Inl e) | Inr nal_length \<Rightarrow>
        (let total_length = add32 nal_length 4 in
         case evc_header_at 0x3c data (offset + 4) of Inl e \<Rightarrow> Some (Inl e) | Inr found \<Rightarrow>
         if found
         then case
             (let nal_unit_type = drop_bit 3 (data ! (offset + 4) AND 0xf8) in
              rbind (extract_enhancement_nal (drop (offset + 6) data) (sub32 nal_length 2) False pts (nal_unit_type = LCEVC_IDR)) (\<lambda>c.
              rbind (move_bytes data offset (offset + total_length) (sub64 data_size (add32 offset total_length))) (\<lambda>data.
              Inr (data, c))))
             of Inl e \<Rightarrow> Some (Inl e)
              | Inr r \<Rightarrow> scan_nal_evc_loop (fst r) (sub64 data_size total_length) offset pts (calls @ [snd r])
         else scan_nal_evc_loop data data_size (add32 offset total_length) pts calls)
      else Some (Inr (data, data_size, calls)))"

definition scan_enhancement_nal_evc :: "u8 list \<Rightarrow> nat \<Rightarrow> 64 word \<Rightarrow> (u8 list \<times> nat \<times> call list) run" where
  "scan_enhancement_nal_evc data data_size pts = scan_nal_evc_loop data data_size 0 pts []"

section \<open>SEI messages\<close>

text \<open>A number in units of 255: bytes are added up to the first that is not \<open>0xFF\<close>.\<close>

function read_ff :: "rbsp_decoder \<Rightarrow> nat \<Rightarrow> (nat \<times> rbsp_decoder) result" where
  "read_ff r n =
     (case get_byte r of
        Inl e \<Rightarrow> Inl e
      | Inr (byte, r) \<Rightarrow> if byte = 0xFF then read_ff r (n + unat byte) else Inr (n + unat byte, r))"
  by pat_completeness auto
termination
  by (relation "measure (\<lambda>(r, n). rb_len r - rb_offs r)") (auto dest: get_byte_offs)

declare read_ff.simps [simp del]

definition sei_code :: "u8 list" where
  "sei_code = [0xb4, 0x00, 0x50, 0x00]"

definition sei_uuid :: "u8 list" where
  "sei_uuid = [0xa7, 0xc4, 0x6d, 0xed, 0x49, 0xd8, 0x38, 0xeb,
               0x9a, 0xad, 0x6d, 0xa6, 0x84, 0x97, 0xa7, 0x54]"

text \<open>
  \<open>RegisteredSEI\<close>: the message holds a whole NAL unit. A vector of negative length is an exception.
\<close>

type_synonym sei = "u8 list \<Rightarrow> nat \<Rightarrow> bool \<Rightarrow> 64 word \<Rightarrow> bool \<Rightarrow> call list result"

definition registered_sei :: sei where
  "registered_sei data n emulation_prevention pts is_base_idr =
     rbind (read_ff (rbsp_new data n emulation_prevention) 0) (\<lambda>(sei_type, r).
     if sei_type \<noteq> 4 then Inr []
     else rbind (read_ff r 0) (\<lambda>(sei_length, r).
     if n < sei_length then Inr []
     else rbind (copy_sei (length sei_code) r) (\<lambda>(tmp, r).
     if tmp \<noteq> sei_code then Inr []
     else if sei_length < length sei_code then Inl Thrown
     else rbind (copy_sei (sei_length - length sei_code) r) (\<lambda>(buf, r).
     scan_enhancement_nal_prod buf (length buf) 0 pts))))"

text \<open>
  \<open>UnregisteredSEI\<close>: the message holds the packet. The bytes are written through the pointer of
  the builder, which \<open>reserve\<close> made as long as the message; a negative length is a huge one here
  and the bytes run out.
\<close>

fun put_bytes_at :: "nat \<Rightarrow> u8 list \<Rightarrow> packet_builder \<Rightarrow> packet_builder result" where
  "put_bytes_at i [] pss = Inr pss"
| "put_bytes_at i (b # bs) pss = rbind (packet_put i b pss) (put_bytes_at (i + 1) bs)"

definition unregistered_sei :: sei where
  "unregistered_sei data n emulation_prevention pts is_base_idr =
     rbind (read_ff (rbsp_new data n emulation_prevention) 0) (\<lambda>(sei_type, r).
     if sei_type \<noteq> 5 then Inr []
     else rbind (read_ff r 0) (\<lambda>(sei_length, r).
     if n < sei_length then Inr []
     else rbind (copy_sei (length sei_uuid) r) (\<lambda>(tmp, r).
     if tmp \<noteq> sei_uuid then Inr []
     else let enhancement_len = sub64 sei_length (length sei_uuid);
              pss = set_timestamp (packet_reserve packet_build (enhancement_len mod 2 ^ 32)) pts in
     rbind (copy_sei enhancement_len r) (\<lambda>(bytes, r).
     rbind (put_bytes_at 0 bytes pss) (\<lambda>pss.
     Inr [(packet_finish pss, is_base_idr)])))))"

text \<open>
  The three scans that look for markers differ in the bytes of the header behind the marker and in
  the length \<open>h\<close> of marker and header.
\<close>

definition sei_end :: "u8 list \<Rightarrow> nat \<Rightarrow> nat \<Rightarrow> nat result" where
  "sei_end d data_size j =
     rbind (find_marker d data_size j) (\<lambda>m. Inr (case m of None \<Rightarrow> data_size mod 2 ^ 32 | Some j \<Rightarrow> j))"

function scan_sei_loop :: "(u8 list \<Rightarrow> nat \<Rightarrow> bool result) \<Rightarrow> nat \<Rightarrow> sei \<Rightarrow> u8 list \<Rightarrow> nat \<Rightarrow> nat \<Rightarrow> 64 word \<Rightarrow> bool \<Rightarrow> call list result" where
  "scan_sei_loop header h sei data data_size i pts is_base_idr =
     (if i < sub64 data_size h
      then rbind (is_nal_marker data i) (\<lambda>m.
        rbind (if m then header data (i + 3) else Inr False) (\<lambda>found.
        rbind (if found
               then rbind (sei_end data data_size (i + 4)) (\<lambda>e. sei (drop (i + h) data) (sub32 e (i + h)) True pts is_base_idr)
               else Inr []) (\<lambda>cs.
        rbind (scan_sei_loop header h sei data data_size (i + 1) pts is_base_idr) (\<lambda>rest. Inr (cs @ rest)))))
      else Inr [])"
  by pat_completeness auto
termination
  by (relation "measure (\<lambda>(hd, h, f, d, s, i, p, b). length d - i)") (auto simp: is_nal_marker_def)

declare scan_sei_loop.simps [simp del]

definition avc_sei_header :: "u8 list \<Rightarrow> nat \<Rightarrow> bool result" where
  "avc_sei_header d i = rbind (byte_of d i) (\<lambda>a. Inr (a = 0x6))"

definition hevc_sei_header :: "u8 list \<Rightarrow> nat \<Rightarrow> bool result" where
  "hevc_sei_header d i = rbind (byte_of d i) (\<lambda>a. if a \<noteq> 0x4e then Inr False
     else rbind (byte_of d (i + 1)) (\<lambda>b. Inr (b = 0x01)))"

definition vvc_sei_header :: "u8 list \<Rightarrow> nat \<Rightarrow> bool result" where
  "vvc_sei_header d i = rbind (byte_of d i) (\<lambda>a. if a \<noteq> 0x00 then Inr False
     else rbind (byte_of d (i + 1)) (\<lambda>b. Inr (b AND 0xf8 = 0xb8)))"

definition scan_enhancement_sei_avc :: "sei \<Rightarrow> u8 list \<Rightarrow> nat \<Rightarrow> 64 word \<Rightarrow> bool \<Rightarrow> (u8 list \<times> nat \<times> call list) result" where
  "scan_enhancement_sei_avc sei data data_size pts is_base_idr =
     rbind (scan_sei_loop avc_sei_header 4 sei data data_size 0 pts is_base_idr) (\<lambda>cs. Inr (data, data_size, cs))"

definition scan_enhancement_sei_hevc :: "sei \<Rightarrow> u8 list \<Rightarrow> nat \<Rightarrow> 64 word \<Rightarrow> bool \<Rightarrow> (u8 list \<times> nat \<times> call list) result" where
  "scan_enhancement_sei_hevc sei data data_size pts is_base_idr =
     rbind (scan_sei_loop hevc_sei_header 5 sei data data_size 0 pts is_base_idr) (\<lambda>cs. Inr (data, data_size, cs))"

definition scan_enhancement_sei_vvc :: "sei \<Rightarrow> u8 list \<Rightarrow> nat \<Rightarrow> 64 word \<Rightarrow> bool \<Rightarrow> (u8 list \<times> nat \<times> call list) result" where
  "scan_enhancement_sei_vvc sei data data_size pts is_base_idr =
     rbind (scan_sei_loop vvc_sei_header 5 sei data data_size 0 pts is_base_idr) (\<lambda>cs. Inr (data, data_size, cs))"

text \<open>The scan of EVC hands the extractor the bytes behind the first header, wherever the unit is.\<close>

partial_function (option) scan_sei_evc_loop ::
  "sei \<Rightarrow> u8 list \<Rightarrow> nat \<Rightarrow> nat \<Rightarrow> 64 word \<Rightarrow> bool \<Rightarrow> call list \<Rightarrow> (u8 list \<times> nat \<times> call list) run" where
  "scan_sei_evc_loop sei data data_size offset pts is_base_idr calls =
     (if offset < sub64 data_size 6
      then case load32 data offset of Inl e \<Rightarrow> Some (Inl e) | Inr nal_length \<Rightarrow>
        (let total_length = add32 nal_length 4 in
         case rbind (evc_header_at 0x38 data (offset + 4)) (\<lambda>found.
                if found then sei (drop 6 data) (sub32 nal_length 2) False pts is_base_idr else Inr [])
           of Inl e \<Rightarrow> Some (Inl e)
            | Inr cs \<Rightarrow> scan_sei_evc_loop sei data data_size (add32 offset total_length) pts is_base_idr (calls @ cs))
      else Some (Inr (data, data_size, calls)))"

definition scan_enhancement_sei_evc :: "sei \<Rightarrow> u8 list \<Rightarrow> nat \<Rightarrow> 64 word \<Rightarrow> bool \<Rightarrow> (u8 list \<times> nat \<times> call list) run" where
  "scan_enhancement_sei_evc sei data data_size pts is_base_idr =
     scan_sei_evc_loop sei data data_size 0 pts is_base_idr []"

section \<open>The dispatch\<close>

definition scan_enhancement :: "u8 list \<Rightarrow> nat \<Rightarrow> encapsulation \<Rightarrow> base_coding \<Rightarrow> 64 word \<Rightarrow> bool \<Rightarrow> (u8 list \<times> nat \<times> call list) run" where
  "scan_enhancement data data_size encapsulation base_coding pts is_base_idr =
     (let scan_sei = (\<lambda>sei. case base_coding of
          BaseCoding_AVC \<Rightarrow> Some (scan_enhancement_sei_avc sei data data_size pts is_base_idr)
        | BaseCoding_HEVC \<Rightarrow> Some (scan_enhancement_sei_hevc sei data data_size pts is_base_idr)
        | BaseCoding_VVC \<Rightarrow> Some (scan_enhancement_sei_vvc sei data data_size pts is_base_idr)
        | BaseCoding_EVC \<Rightarrow> scan_enhancement_sei_evc sei data data_size pts is_base_idr
        | _ \<Rightarrow> Some (Inl CheckFailed))
      in case encapsulation of
          Encapsulation_SEI_Registered \<Rightarrow> scan_sei registered_sei
        | Encapsulation_SEI_Unregistered \<Rightarrow> scan_sei unregistered_sei
        | Encapsulation_NAL \<Rightarrow>
            (if base_coding \<in> {BaseCoding_AVC, BaseCoding_HEVC, BaseCoding_VVC, BaseCoding_YUV}
             then Some (scan_enhancement_nal data data_size pts)
             else if base_coding = BaseCoding_EVC then scan_enhancement_nal_evc data data_size pts
             else Some (Inl CheckFailed))
        | Encapsulation_None \<Rightarrow> Some (scan_enhancement_nal data data_size pts))"

end
