(* ===== verification/Encapsulation.thy ===== *)
theory Encapsulation
  imports EncodedData PictureEncoding Parameters
begin

text \<open>
  The part of encoder/src/FileEncoder.cpp that puts the packets of the encoder into the base stream:
  emulation prevention, NAL units, SEI messages, and the place of the unit among those of an access
  unit for every base codec. The access units are those of src/uESFile.h. Reading
  and writing of files and the processes of base codecs are outside the model.
\<close>

section \<open>Access units\<close>

datatype base_dec_pict_type = Pict_IDR | Pict_I | Pict_P | Pict_B | Pict_BR | Pict_Unknown

record nal_unit =
  nu_type :: nat
  nu_data :: "u8 list"

record access_unit =
  au_poc :: int
  au_qp :: int
  au_picture_type :: base_dec_pict_type
  au_temporal_id :: u32
  au_nal_units :: "nal_unit list"
  au_size :: int

definition frame_type :: "base_dec_pict_type \<Rightarrow> base_frame_type" where
  "frame_type pt = (case pt of
     Pict_IDR \<Rightarrow> BaseFrame_IDR | Pict_I \<Rightarrow> BaseFrame_Intra | Pict_P \<Rightarrow> BaseFrame_Pred
   | Pict_B \<Rightarrow> BaseFrame_Bidi | Pict_BR \<Rightarrow> BaseFrame_Bidi | Pict_Unknown \<Rightarrow> BaseFrame_Inter)"

section \<open>Payloads\<close>

text \<open>The bytes between the zeros and what follows them.\<close>

fun escape_bytes :: "nat \<Rightarrow> u8 list \<Rightarrow> u8 list" where
  "escape_bytes zeros [] = []"
| "escape_bytes zeros (b # bs) =
     (let esc = zeros = 2 \<and> b AND NOT 3 = 0;
          zeros = (if esc then 0 else zeros);
          zeros = (if b = 0 then zeros + 1 else 0)
      in (if esc then [0x03] else []) @ b # escape_bytes zeros bs)"

definition rbsp_encapsulate :: "packet \<Rightarrow> packet result" where
  "rbsp_encapsulate src =
     rbind (packet_view src) (\<lambda>bytes.
     rbind (contents_vector packet_build (escape_bytes 0 bytes @ [0x80])) (\<lambda>pb.
     Inr (packet_finish pb)))"

function put_sei_length :: "nat \<Rightarrow> packer \<Rightarrow> packer result" where
  "put_sei_length l sei =
     (if 255 \<le> l then rbind (packer_u sei 8 255) (put_sei_length (l - 255))
      else packer_u sei 8 (word_of_nat l))"
  by pat_completeness auto
termination
  by (relation "measure fst") auto

declare put_sei_length.simps [simp del]

text \<open>\<open>sei.bytes(data, n)\<close> with an array.\<close>

definition put_array :: "u8 list \<Rightarrow> packer \<Rightarrow> packer run" where
  "put_array bytes b =
     (case packer_bytes b bytes of
        Inl e \<Rightarrow> Some (Inl e)
      | Inr None \<Rightarrow> None
      | Inr (Some b') \<Rightarrow> Some (Inr b'))"

definition registered_sei_payload :: "packet \<Rightarrow> packet run" where
  "registered_sei_payload enhancement_data =
     run_bind (Some (packer_u packer_new 8 0x04)) (\<lambda>sei.
     run_bind (Some (put_sei_length ((pkt_size enhancement_data + 4) mod 2 ^ 32) sei)) (\<lambda>sei.
     run_bind (put_array [0xb4, 0x00, 0x50, 0x00] sei) (\<lambda>sei.
     run_bind (put_packet enhancement_data sei) (\<lambda>sei.
     Some (packer_finish sei)))))"

definition unregistered_sei_payload :: "packet \<Rightarrow> packet run" where
  "unregistered_sei_payload enhancement_data =
     run_bind (Some (packer_u packer_new 8 0x05)) (\<lambda>sei.
     run_bind (Some (put_sei_length ((pkt_size enhancement_data + 16) mod 2 ^ 32) sei)) (\<lambda>sei.
     run_bind (put_array [0xa7, 0xc4, 0x6d, 0xed, 0x49, 0xd8, 0x38, 0xeb,
                          0x9a, 0xad, 0x6d, 0xa6, 0x84, 0x97, 0xa7, 0x54] sei) (\<lambda>sei.
     run_bind (put_packet enhancement_data sei) (\<lambda>sei.
     Some (packer_finish sei)))))"

definition nal_payload :: "packet \<Rightarrow> packet run" where
  "nal_payload enhancement_data =
     run_bind (put_packet enhancement_data packer_new) (\<lambda>p. Some (packer_finish p))"

text \<open>A header and the bytes of a packet behind it.\<close>

definition unit_of :: "nat \<Rightarrow> u8 list \<Rightarrow> packet \<Rightarrow> nal_unit result" where
  "unit_of type header p = rbind (packet_view p) (\<lambda>v. Inr \<lparr>nu_type = type, nu_data = header @ v\<rparr>)"

definition build_nalu :: "bool \<Rightarrow> packet \<Rightarrow> nal_unit run" where
  "build_nalu is_idr payload =
     run_bind (nal_payload payload) (\<lambda>p.
     run_bind (Some (rbsp_encapsulate p)) (\<lambda>rbsp.
     Some (unit_of (if is_idr then 29 else 28) [0x00, 0x00, 0x01, if is_idr then 0x7b else 0x79, 0xff] rbsp)))"

section \<open>The place of the unit\<close>

text \<open>
  What the subclasses for AVC, HEVC, x265 and VVC have in common: the unit by encapsulation,
  with the type and the header of an SEI unit of the codec.
\<close>

definition packet_of :: "u8 list \<Rightarrow> packet result" where
  "packet_of bytes = rbind (contents_vector packet_build bytes) (\<lambda>pb. Inr (packet_finish pb))"

definition enhancement_unit :: "nat \<Rightarrow> u8 list \<Rightarrow> encapsulation \<Rightarrow> bool \<Rightarrow> packet \<Rightarrow> nal_unit run" where
  "enhancement_unit sei_type header encapsulation is_idr payload = (case encapsulation of
     Encapsulation_None \<Rightarrow> build_nalu is_idr payload
   | Encapsulation_NAL \<Rightarrow> build_nalu is_idr payload
   | Encapsulation_SEI_Registered \<Rightarrow>
       run_bind (build_nalu is_idr payload) (\<lambda>nal_unit_lcevc.
       run_bind (Some (packet_of (nu_data nal_unit_lcevc))) (\<lambda>payload_lcevc.
       run_bind (registered_sei_payload payload_lcevc) (\<lambda>sei.
       run_bind (Some (rbsp_encapsulate sei)) (\<lambda>rbsp.
       Some (unit_of sei_type header rbsp)))))
   | Encapsulation_SEI_Unregistered \<Rightarrow>
       run_bind (unregistered_sei_payload payload) (\<lambda>sei.
       run_bind (Some (rbsp_encapsulate sei)) (\<lambda>rbsp.
       Some (unit_of sei_type header rbsp))))"

text \<open>The unit goes behind the first units whose type satisfies \<open>skip\<close>; the result counts its bytes.\<close>

definition insert_unit :: "(nat \<Rightarrow> bool) \<Rightarrow> nal_unit \<Rightarrow> access_unit \<Rightarrow> access_unit \<times> nat" where
  "insert_unit skip u au =
     (let us = au_nal_units au;
          before = takeWhile (\<lambda>v. skip (nu_type v)) us
      in (au\<lparr>au_nal_units := before @ u # drop (length before) us\<rparr>, length (nu_data u)))"

definition add_enhancement_avc :: "encapsulation \<Rightarrow> bool \<Rightarrow> packet \<Rightarrow> access_unit \<Rightarrow> (access_unit \<times> nat) run" where
  "add_enhancement_avc encapsulation is_idr payload au =
     run_bind (enhancement_unit 6 [0x00, 0x00, 0x01, 0x06] encapsulation is_idr payload) (\<lambda>u.
     Some (Inr (insert_unit (\<lambda>t. \<not> (t < 7 \<or> 9 < t)) u au)))"

definition add_enhancement_hevc :: "encapsulation \<Rightarrow> bool \<Rightarrow> packet \<Rightarrow> access_unit \<Rightarrow> (access_unit \<times> nat) run" where
  "add_enhancement_hevc encapsulation is_idr payload au =
     run_bind (enhancement_unit 39 [0x00, 0x00, 0x01, 0x4e, 0x01] encapsulation is_idr payload) (\<lambda>u.
     Some (Inr (insert_unit (\<lambda>t. \<not> (t < 32 \<or> 35 < t)) u au)))"

definition add_enhancement_x265 :: "encapsulation \<Rightarrow> bool \<Rightarrow> packet \<Rightarrow> access_unit \<Rightarrow> (access_unit \<times> nat) run" where
  "add_enhancement_x265 encapsulation is_idr payload au =
     run_bind (enhancement_unit 39 [0x00, 0x00, 0x01, 0x4e, 0x01] encapsulation is_idr payload) (\<lambda>u.
     Some (Inr (insert_unit (\<lambda>t. \<not> (t < 32 \<or> 35 < t)) u au)))"

definition add_enhancement_vvc :: "encapsulation \<Rightarrow> bool \<Rightarrow> packet \<Rightarrow> access_unit \<Rightarrow> (access_unit \<times> nat) run" where
  "add_enhancement_vvc encapsulation is_idr payload au =
     run_bind (enhancement_unit 23 [0x00, 0x00, 0x01, 0x00, 0xb8 OR ucast (au_temporal_id au + 1)] encapsulation is_idr payload) (\<lambda>u.
     Some (Inr (insert_unit (\<lambda>t. \<not> t < 12) u au)))"

text \<open>EVC: no markers but lengths, and no emulation prevention around a payload.\<close>

definition bytes_of_length :: "nat \<Rightarrow> u8 list" where
  "bytes_of_length n = map (\<lambda>i. word_of_nat (n div 256 ^ i)) [0..<4]"

definition evc_unit :: "u8 \<Rightarrow> nat \<Rightarrow> u32 \<Rightarrow> packet \<Rightarrow> nal_unit result" where
  "evc_unit tag type temporal_id p =
     rbind (packet_view p) (\<lambda>v.
     Inr \<lparr>nu_type = type,
          nu_data = bytes_of_length (length v + 2) @
            [tag OR ucast (drop_bit 2 temporal_id), ucast (push_bit 6 temporal_id AND 255)] @ v\<rparr>)"

definition enhancement_unit_evc :: "encapsulation \<Rightarrow> bool \<Rightarrow> u32 \<Rightarrow> packet \<Rightarrow> nal_unit run" where
  "enhancement_unit_evc encapsulation is_idr temporal_id payload = (case encapsulation of
     Encapsulation_None \<Rightarrow> build_nalu is_idr payload
   | Encapsulation_SEI_Registered \<Rightarrow>
       run_bind (nal_payload payload) (\<lambda>p.
       run_bind (Some (rbsp_encapsulate p)) (\<lambda>rbsp_lcevc.
       run_bind (Some (unit_of 29 [0x00, 0x00, 0x01, 0x79, 0xff] rbsp_lcevc)) (\<lambda>nal_unit_lcevc.
       run_bind (Some (packet_of (nu_data nal_unit_lcevc))) (\<lambda>payload_lcevc.
       run_bind (registered_sei_payload payload_lcevc) (\<lambda>p.
       Some (evc_unit 0x3a 27 temporal_id p))))))
   | Encapsulation_SEI_Unregistered \<Rightarrow>
       run_bind (unregistered_sei_payload payload) (\<lambda>p. Some (evc_unit 0x3a 27 temporal_id p))
   | Encapsulation_NAL \<Rightarrow>
       run_bind (nal_payload payload) (\<lambda>p. Some (evc_unit 0x3c 28 temporal_id p)))"

definition add_enhancement_evc :: "encapsulation \<Rightarrow> bool \<Rightarrow> packet \<Rightarrow> access_unit \<Rightarrow> (access_unit \<times> nat) run" where
  "add_enhancement_evc encapsulation is_idr payload au =
     run_bind (enhancement_unit_evc encapsulation is_idr (au_temporal_id au) payload) (\<lambda>u.
     Some (Inr (insert_unit (\<lambda>t. \<not> (t < 24 \<or> 26 < t)) u au)))"

text \<open>The subclass that the factory makes for a base codec; any other codec is an error.\<close>

definition add_enhancement :: "base_coding \<Rightarrow> encapsulation \<Rightarrow> bool \<Rightarrow> packet \<Rightarrow> access_unit \<Rightarrow> (access_unit \<times> nat) run" where
  "add_enhancement base_encoder = (case base_encoder of
     BaseCoding_AVC \<Rightarrow> add_enhancement_avc
   | BaseCoding_HEVC \<Rightarrow> add_enhancement_hevc
   | BaseCoding_VVC \<Rightarrow> add_enhancement_vvc
   | BaseCoding_EVC \<Rightarrow> add_enhancement_evc
   | BaseCoding_X265 \<Rightarrow> add_enhancement_x265
   | _ \<Rightarrow> (\<lambda>_ _ _ _. Some (Inl FatalRaised)))"

end
