(* ===== verification/ScanRoundtrip.thy ===== *)
theory ScanRoundtrip
  imports StreamScan Encapsulation
begin

text \<open>
  The emulation prevention of Encapsulation is undone by the decoder of raw byte sequences of
  StreamScan, byte for byte: \<open>carried\<close> says what bytes a decoder is about to deliver.
\<close>

section \<open>The bytes behind a decoder of raw byte sequences\<close>

definition rbsp_wf :: "rbsp_decoder \<Rightarrow> bool" where
  "rbsp_wf r \<longleftrightarrow> rb_offs r \<le> rb_len r \<and> rb_len r \<le> length (rb_data r)"

definition rbsp_pending :: "rbsp_decoder \<Rightarrow> u8 list" where
  "rbsp_pending r = take (rb_len r - rb_offs r) (drop (rb_offs r) (rb_data r))"

lemma rbsp_end: "rbsp_wf r \<Longrightarrow> rbsp_pending r = [] \<longleftrightarrow> rb_len r \<le> rb_offs r"
  by (auto simp: rbsp_wf_def rbsp_pending_def)

lemma rbsp_shift_pending:
  assumes "rbsp_wf r" and "rbsp_pending r = b # bs"
  obtains r' where "rbsp_shift r = Inr r'" and "rbsp_wf r'" and "rbsp_pending r' = bs"
    and "rb_emitted r' = push_bit 8 (rb_emitted r) OR ucast b"
    and "rb_emulation_prevention r' = rb_emulation_prevention r"
proof -
  let ?o = "rb_offs r"
  have o: "?o < rb_len r" "?o < length (rb_data r)"
  proof -
    from assms(2) have "rb_len r - ?o \<noteq> 0" "drop ?o (rb_data r) \<noteq> []"
      by (auto simp: rbsp_pending_def intro: ccontr)
    then show "?o < rb_len r" "?o < length (rb_data r)" by simp_all
  qed
  have "drop ?o (rb_data r) = rb_data r ! ?o # drop (Suc ?o) (rb_data r)"
    using o(2) by (rule Cons_nth_drop_Suc [symmetric])
  moreover have "rb_len r - ?o = Suc (rb_len r - Suc ?o)" using o(1) by simp
  ultimately have "b = rb_data r ! ?o" "bs = take (rb_len r - Suc ?o) (drop (Suc ?o) (rb_data r))"
    using assms(2) by (simp_all add: rbsp_pending_def)
  with o assms(1) show ?thesis
    by (intro that [of "r\<lparr>rb_emitted := push_bit 8 (rb_emitted r) OR ucast b, rb_offs := Suc ?o\<rparr>"])
      (simp_all add: rbsp_shift_def byte_of_def rbsp_wf_def rbsp_pending_def)
qed

lemma word32_shift:
  fixes w :: u32 and b :: u8
  shows "unat (push_bit 8 w OR ucast b) = (unat w * 256 + unat b) mod 2 ^ 32"
proof -
  have "push_bit 8 w AND ucast b = 0"
    by (rule bit_word_eqI) (auto simp: bit_simps dest: bit_imp_le_length)
  then have "push_bit 8 w OR ucast b = push_bit 8 w + ucast b" by (simp add: disjunctive_add_eq_or)
  moreover have "unat (push_bit 8 w) = (unat w * 256) mod 2 ^ 32"
    by (subst unsigned_push_bit_eq) (simp add: take_bit_eq_mod push_bit_eq_mult)
  moreover have "unat (ucast b :: u32) = unat b"
  proof -
    have "unat b < 2 ^ LENGTH(8)" by (rule unsigned_less)
    then show ?thesis by (simp add: unsigned_ucast_eq take_bit_eq_mod)
  qed
  ultimately show ?thesis by (simp add: unat_word_ariths mod_simps)
qed

lemma byte_mask_3: "b AND NOT 3 = 0 \<longleftrightarrow> unat b < 4" for b :: u8
proof -
  have "(3 :: u8) = mask 2" by (simp add: mask_eq_exp_minus_1)
  moreover have "unat (drop_bit 2 b) = unat b div 4"
    by (subst unat_drop_bit_eq) (simp add: drop_bit_eq_div)
  then have "unat b < 4 \<longleftrightarrow> drop_bit 2 b = 0"
    by (metis div_eq_0_iff unat_0 unsigned_eq_0_iff zero_neq_numeral)
  moreover have "b AND NOT (mask 2) = push_bit 2 (drop_bit 2 b)"
  proof (rule bit_word_eqI)
    fix n assume "n < LENGTH(8)"
    then show "bit (b AND NOT (mask 2)) n \<longleftrightarrow> bit (push_bit 2 (drop_bit 2 b)) n"
      by (cases "n < 2") (auto simp: bit_simps not_less le_iff_add)
  qed
  moreover have "drop_bit 2 (push_bit 2 (drop_bit 2 b)) = drop_bit 2 b"
    by (rule bit_word_eqI) (auto simp: bit_simps dest: bit_imp_le_length)
  then have "push_bit 2 (drop_bit 2 b) = 0 \<longleftrightarrow> drop_bit 2 b = 0" by (metis drop_bit_of_0 push_bit_of_0)
  ultimately show ?thesis by metis
qed


lemma emitted_marker:
  fixes w :: u32 and b :: u8
  shows "(push_bit 8 w OR ucast b) AND 0xFFFFFF = 0x000003 \<longleftrightarrow> unat w mod 65536 = 0 \<and> b = 3"
proof -
  have lt: "unat b < 256" using unsigned_less [of b] by simp
  have b3: "b = 3 \<longleftrightarrow> unat b = 3" by (simp add: word_unat_eq_iff)
  let ?v = "push_bit 8 w OR ucast b"
  have "(0xFFFFFF :: u32) = mask 24" by (simp add: mask_eq_exp_minus_1)
  then have "?v AND 0xFFFFFF = take_bit 24 ?v" by (simp only: take_bit_eq_mask)
  moreover have "unat (take_bit 24 ?v) = unat ?v mod 2 ^ 24" by (subst unsigned_take_bit_eq) (simp add: take_bit_eq_mod)
  ultimately have "?v AND 0xFFFFFF = 3 \<longleftrightarrow> unat ?v mod 2 ^ 24 = 3" by (simp only: word_unat_eq_iff) simp
  also have "unat ?v mod 2 ^ 24 = (unat w * 256 + unat b) mod 2 ^ 24"
    unfolding word32_shift by (simp add: mod_mod_cancel)
  also have "\<dots> = (unat w mod 65536) * 256 + unat b"
    using mod_mult2_eq [of "unat w * 256 + unat b" 256 65536] lt by simp
  also have "\<dots> = 3 \<longleftrightarrow> unat w mod 65536 = 0 \<and> unat b = 3"
    using lt by (cases "unat w mod 65536") auto
  finally show ?thesis unfolding b3 .
qed


section \<open>Emulation prevention\<close>

text \<open>The zeros that end the bytes emitted, as the writer counts them.\<close>

definition zeros_emitted :: "nat \<Rightarrow> u32 \<Rightarrow> bool" where
  "zeros_emitted z w \<longleftrightarrow>
     z = 0 \<and> unat w mod 256 \<noteq> 0 \<or> z = 1 \<and> unat w mod 256 = 0 \<and> unat w mod 65536 \<noteq> 0 \<or> z = 2 \<and> unat w mod 65536 = 0"

lemma zeros_emitted_start [simp]: "zeros_emitted 0 0xFFFFFFFF"
  by (simp add: zeros_emitted_def)

lemma zeros_emitted_shift:
  fixes b :: u8
  assumes "zeros_emitted z w" and "z = 2 \<Longrightarrow> b \<noteq> 0"
  shows "zeros_emitted (if b = 0 then z + 1 else 0) (push_bit 8 w OR ucast b)"
proof -
  have lt: "unat b < 256" using unsigned_less [of b] by simp
  let ?v = "unat (push_bit 8 w OR ucast b)"
  have "?v mod 256 = unat b" "?v mod 65536 = (unat w mod 256) * 256 + unat b"
    unfolding word32_shift using lt mod_mult2_eq [of "unat w * 256 + unat b" 256 256] by (simp_all add: mod_mod_cancel)
  moreover have "(unat w mod 65536) mod 256 = unat w mod 256" by (simp add: mod_mod_cancel)
  then have "unat w mod 65536 = 0 \<Longrightarrow> unat w mod 256 = 0" by simp
  ultimately show ?thesis using assms by (auto simp: zeros_emitted_def unat_eq_0)
qed

lemma zeros_emitted_after_escape:
  fixes b :: u8
  assumes "zeros_emitted 2 w" and "unat b < 4"
  shows "zeros_emitted (if b = 0 then 1 else 0) (push_bit 8 (push_bit 8 w OR ucast (3 :: u8)) OR ucast b)"
proof -
  have "zeros_emitted 0 (push_bit 8 w OR ucast (3 :: u8))"
    using zeros_emitted_shift [OF assms(1), of "3 :: u8"] by simp
  from zeros_emitted_shift [OF this, of b] show ?thesis
    by (cases "b = 0") (simp_all only: if_True if_False add_0 simp_thms)
qed

text \<open>
  \<open>carried r bs rest\<close>: the decoder is about to deliver \<open>bs\<close>, and then \<open>rest\<close> lies behind them.
\<close>

definition carried :: "rbsp_decoder \<Rightarrow> u8 list \<Rightarrow> u8 list \<Rightarrow> bool" where
  "carried r bs rest \<longleftrightarrow> rbsp_wf r \<and>
     (if rb_emulation_prevention r
      then \<exists>z. zeros_emitted z (rb_emitted r) \<and> rbsp_pending r = escape_bytes z bs @ rest
      else rbsp_pending r = bs @ rest)"

lemma ucast_emitted: "ucast (push_bit 8 w OR ucast b :: u32) = (b :: u8)"
  by (rule bit_word_eqI) (auto simp: bit_simps)

lemma carried_Cons:
  assumes "carried r (b # bs) rest"
  obtains r' where "get_byte r = Inr (b, r')" and "carried r' bs rest"
    and "rb_emulation_prevention r' = rb_emulation_prevention r"
proof (cases "rb_emulation_prevention r")
  case False
  then have p: "rbsp_wf r" "rbsp_pending r = b # (bs @ rest)" using assms by (simp_all add: carried_def)
  then have "rb_offs r < rb_len r" using rbsp_end [of r] by (auto simp: not_le)
  moreover obtain r' where "rbsp_shift r = Inr r'" "rbsp_wf r'" "rbsp_pending r' = bs @ rest"
    "rb_emitted r' = push_bit 8 (rb_emitted r) OR ucast b" "rb_emulation_prevention r' = rb_emulation_prevention r"
    by (rule rbsp_shift_pending [OF p])
  ultimately show ?thesis
    using False by (intro that [of r']) (simp_all add: get_byte_def carried_def ucast_emitted)
next
  case True
  then obtain z where z: "zeros_emitted z (rb_emitted r)" and wf: "rbsp_wf r"
    and p: "rbsp_pending r = escape_bytes z (b # bs) @ rest"
    using assms by (auto simp: carried_def)
  have more: "rb_offs r < rb_len r" using rbsp_end [OF wf] p by (auto simp: not_le Let_def split: if_splits)
  show ?thesis
  proof (cases "z = 2 \<and> b AND NOT 3 = 0")
    case False
    then have nz: "z = 2 \<Longrightarrow> b \<noteq> 3 \<and> b \<noteq> 0" using byte_mask_3 [of b] by auto
    with p False have "rbsp_pending r = b # (escape_bytes (if b = 0 then z + 1 else 0) bs @ rest)"
      by (auto simp: Let_def)
    with wf obtain r' where r': "rbsp_shift r = Inr r'" "rbsp_wf r'"
      "rbsp_pending r' = escape_bytes (if b = 0 then z + 1 else 0) bs @ rest"
      "rb_emitted r' = push_bit 8 (rb_emitted r) OR ucast b" "rb_emulation_prevention r' = rb_emulation_prevention r"
      by (rule rbsp_shift_pending)
    from nz have "\<not> (unat (rb_emitted r) mod 65536 = 0 \<and> b = 3)" using z by (auto simp: zeros_emitted_def)
    then have "get_byte r = Inr (b, r')" using r' more by (auto simp: get_byte_def emitted_marker ucast_emitted)
    moreover have "carried r' bs rest"
      using r' True zeros_emitted_shift [OF z, of b] nz by (auto simp: carried_def)
    ultimately show ?thesis using that r' by simp
  next
    case esc: True
    then have lt: "unat b < 4" and z2: "zeros_emitted 2 (rb_emitted r)" using byte_mask_3 z by auto
    from p esc have "rbsp_pending r = 3 # (b # escape_bytes (if b = 0 then 1 else 0) bs @ rest)" by (simp add: Let_def)
    with wf obtain s where s: "rbsp_shift r = Inr s" "rbsp_wf s"
      "rbsp_pending s = b # (escape_bytes (if b = 0 then 1 else 0) bs @ rest)"
      "rb_emitted s = push_bit 8 (rb_emitted r) OR ucast (3 :: u8)" "rb_emulation_prevention s = rb_emulation_prevention r"
      by (rule rbsp_shift_pending)
    from s(2,3) obtain r' where r': "rbsp_shift s = Inr r'" "rbsp_wf r'"
      "rbsp_pending r' = escape_bytes (if b = 0 then 1 else 0) bs @ rest"
      "rb_emitted r' = push_bit 8 (rb_emitted s) OR ucast b" "rb_emulation_prevention r' = rb_emulation_prevention s"
      by (rule rbsp_shift_pending)
    have "rb_offs s < rb_len s" using rbsp_end [OF s(2)] s(3) by (auto simp: not_le)
    moreover have "rb_emitted s AND 0xFFFFFF = 0x000003"
      unfolding s(4) emitted_marker using z2 by (simp add: zeros_emitted_def)
    moreover have "ucast (rb_emitted r') = b" unfolding r'(4) by (rule ucast_emitted)
    ultimately have "get_byte r = Inr (b, r')"
      using s(1,5) r'(1) more True by (simp add: get_byte_def)
    moreover have "carried r' bs rest"
      using r' s True zeros_emitted_after_escape [OF z2 lt] by (auto simp: carried_def)
    ultimately show ?thesis using that r' s by simp
  qed
qed


lemma carried_copy:
  assumes "carried r (bs @ cs) rest"
  obtains r' where "copy_sei (length bs) r = Inr (bs, r')" and "carried r' cs rest"
  using assms
proof (induction bs arbitrary: r thesis)
  case Nil
  then show ?case by simp
next
  case (Cons b bs)
  from Cons.prems(2) have "carried r (b # bs @ cs) rest" by simp
  then obtain r1 where r1: "get_byte r = Inr (b, r1)" "carried r1 (bs @ cs) rest" by (rule carried_Cons)
  obtain r2 where "copy_sei (length bs) r1 = Inr (bs, r2)" "carried r2 cs rest"
    by (rule Cons.IH [OF _ r1(2)])
  with r1 show ?case by (intro Cons.prems(1)) simp_all
qed

text \<open>A number in units of 255.\<close>

definition ff_bytes :: "nat \<Rightarrow> u8 list" where
  "ff_bytes n = replicate (n div 255) 255 @ [word_of_nat (n mod 255)]"

lemma ff_bytes_step: "255 \<le> n \<Longrightarrow> ff_bytes n = 255 # ff_bytes (n - 255)"
  by (simp add: ff_bytes_def le_div_geq le_mod_geq)

lemma carried_ff:
  assumes "carried r (ff_bytes n @ cs) rest"
  obtains r' where "read_ff r m = Inr (m + n, r')" and "carried r' cs rest"
  using assms
proof (induction n arbitrary: r m thesis rule: less_induct)
  case (less n)
  show ?case
  proof (cases "255 \<le> n")
    case True
    with less.prems(2) have "carried r (255 # ff_bytes (n - 255) @ cs) rest" by (simp add: ff_bytes_step)
    then obtain r1 where r1: "get_byte r = Inr (255, r1)" "carried r1 (ff_bytes (n - 255) @ cs) rest" by (rule carried_Cons)
    obtain r2 where "read_ff r1 (m + 255) = Inr (m + 255 + (n - 255), r2)" "carried r2 cs rest"
      by (rule less.IH [of "n - 255" r1 "m + 255"]) (use True r1(2) in simp_all)
    with r1 True show ?thesis by (intro less.prems(1)) (simp_all add: read_ff.simps [of r])
  next
    case False
    with less.prems(2) have "carried r (word_of_nat n # cs) rest" by (simp add: ff_bytes_def)
    then obtain r1 where "get_byte r = Inr (word_of_nat n, r1)" "carried r1 cs rest" by (rule carried_Cons)
    moreover have "unat (word_of_nat n :: u8) = n" using False by (simp add: unat_of_nat)
    moreover from this have "(word_of_nat n :: u8) \<noteq> 0xFF" using False by auto
    ultimately show ?thesis by (intro less.prems(1)) (simp_all add: read_ff.simps [of r])
  qed
qed

text \<open>The loop of \<open>copy\<close> delivers what is carried, and drops the stop bit behind it.\<close>

lemma get_byte_end: "rbsp_wf r \<Longrightarrow> rbsp_pending r = [] \<Longrightarrow> get_byte r = Inl Thrown"
  by (simp add: get_byte_def rbsp_end)

lemma packet_put_nth:
  assumes "pb_mapped pb" and "packet_view (pb_packet pb) = Inr (done @ x # room)"
  obtains pb' where "packet_put (length done) v pb = Inr pb'" and "pb_mapped pb'"
    and "packet_view (pb_packet pb') = Inr (done @ v # room)" and "pkt_timestamp (pb_packet pb') = pkt_timestamp (pb_packet pb)"
proof -
  obtain pb' where "packet_put (length done) v pb = Inr pb'" "pb_mapped pb'"
    "packet_view (pb_packet pb') = Inr ((done @ x # room)[length done := v])"
    by (rule packet_put_view [OF assms, of "length done"]) simp
  moreover from this(1) have "pkt_timestamp (pb_packet pb') = pkt_timestamp (pb_packet pb)"
    by (auto simp: packet_put_def rbind_eq_Inr split: option.splits if_splits)
  ultimately show ?thesis by (intro that [of pb']) simp_all
qed

lemma rbsp_copy_end:
  assumes "rbsp_wf r" and "rbsp_pending r = []" and "pb_mapped pb" and "packet_view (pb_packet pb) = Inr (bs @ room)"
    and "length bs < 2 ^ 32 - 1"
  obtains pb' where "rbsp_copy_loop r (Suc (length bs)) pb = Inr pb'" and "packet_view (packet_finish pb') = Inr bs"
    and "pkt_timestamp (packet_finish pb') = pkt_timestamp (pb_packet pb)"
  using assms get_byte_end [OF assms(1,2)]
  by (subst (asm) rbsp_copy_loop.simps)
    (simp add: packet_resize_def buffer_from_def packet_finish_def packet_view_def buffer_map_def)

lemma rbsp_copy_carried:
  assumes "carried r bs [0x80]" and "rb_emulation_prevention r" and "pb_mapped pb"
    and "packet_view (pb_packet pb) = Inr (done @ room)" and "length bs < length room"
    and "length done + length bs < 2 ^ 32 - 1"
  shows "\<exists>pb'. rbsp_copy_loop r (length done) pb = Inr pb' \<and> packet_view (packet_finish pb') = Inr (done @ bs) \<and>
    pkt_timestamp (packet_finish pb') = pkt_timestamp (pb_packet pb)"
  using assms
proof (induction bs arbitrary: r "done" room pb)
  case Nil
  then obtain z where wf: "rbsp_wf r" and z: "zeros_emitted z (rb_emitted r)" and p: "rbsp_pending r = [0x80]"
    by (auto simp: carried_def)
  then have "carried r [0x80] []" using Nil.prems(2) byte_mask_3 [of "0x80 :: u8"]
    by (auto simp: carried_def Let_def intro!: exI [of _ z])
  then obtain r1 where r1: "get_byte r = Inr (0x80, r1)" "carried r1 [] []" by (rule carried_Cons)
  from Nil.prems(5) obtain x room' where room: "room = x # room'" by (cases room) auto
  obtain pb1 where pb1: "packet_put (length done) 0x80 pb = Inr pb1" "pb_mapped pb1"
    "packet_view (pb_packet pb1) = Inr (done @ 0x80 # room')" "pkt_timestamp (pb_packet pb1) = pkt_timestamp (pb_packet pb)"
    using Nil.prems(3,4) unfolding room by (rule packet_put_nth)
  have "rbsp_wf r1" "rbsp_pending r1 = []" using r1(2) by (auto simp: carried_def split: if_splits)
  from rbsp_copy_end [OF this pb1(2,3)] Nil.prems(6) obtain pb2 where
    "rbsp_copy_loop r1 (Suc (length done)) pb1 = Inr pb2" "packet_view (packet_finish pb2) = Inr done"
    "pkt_timestamp (packet_finish pb2) = pkt_timestamp (pb_packet pb1)" by auto
  then show ?case using r1(1) pb1 by (subst rbsp_copy_loop.simps) simp
next
  case (Cons b bs)
  from Cons.prems(1) obtain r1 where r1: "get_byte r = Inr (b, r1)" "carried r1 bs [0x80]"
    "rb_emulation_prevention r1 = rb_emulation_prevention r" by (rule carried_Cons)
  from Cons.prems(5) obtain x room' where room: "room = x # room'" by (cases room) auto
  obtain pb1 where pb1: "packet_put (length done) b pb = Inr pb1" "pb_mapped pb1"
    "packet_view (pb_packet pb1) = Inr (done @ b # room')" "pkt_timestamp (pb_packet pb1) = pkt_timestamp (pb_packet pb)"
    using Cons.prems(3,4) unfolding room by (rule packet_put_nth)
  have "\<exists>pb'. rbsp_copy_loop r1 (length (done @ [b])) pb1 = Inr pb' \<and> packet_view (packet_finish pb') = Inr ((done @ [b]) @ bs) \<and>
    pkt_timestamp (packet_finish pb') = pkt_timestamp (pb_packet pb1)"
    by (rule Cons.IH [where room = room']) (use Cons.prems room pb1 r1 in simp_all)
  then show ?case using r1(1) pb1 by (subst rbsp_copy_loop.simps) simp
qed

end
