(* ===== verification/ScanUnits.thy ===== *)
theory ScanUnits
  imports ScanRoundtrip EncodedRoundtrip
begin

text \<open>
  NAL units of enhancement: what \<open>build_nalu\<close> of the encoder makes of a packet, and the scan that
  finds it between the units of a base stream and cuts it out.
\<close>

section \<open>Markers\<close>

definition marker_at :: "u8 list \<Rightarrow> nat \<Rightarrow> bool" where
  "marker_at d i \<longleftrightarrow> d ! i = 0 \<and> d ! (i + 1) = 0 \<and> d ! (i + 2) = 1"

lemma is_nal_marker_at: "i + 2 < length d \<Longrightarrow> is_nal_marker d i = Inr (marker_at d i)"
  by (auto simp: is_nal_marker_def marker_at_def byte_of_less)

lemma find_marker_none:
  assumes "\<And>j. a \<le> j \<Longrightarrow> j + 3 < s \<Longrightarrow> \<not> marker_at d j" and "3 \<le> s" "s \<le> length d" "s < 2 ^ 32"
  shows "find_marker d s a = Inr None"
  using assms(1)
proof (induction "s - a" arbitrary: a rule: less_induct)
  case less
  have "sub64 s 3 = s - 3" using assms by simp
  moreover have "is_nal_marker d a = Inr False" if "a < s - 3"
    using that assms less.prems [of a] by (simp add: is_nal_marker_at)
  moreover have "find_marker d s (a + 1) = Inr None" if "a < s - 3"
    using that less.prems by (intro less.hyps) auto
  ultimately show ?case by (subst find_marker.simps) simp
qed

lemma find_marker_first:
  assumes "\<And>j. a \<le> j \<Longrightarrow> j < k \<Longrightarrow> \<not> marker_at d j" and "marker_at d k" and "a \<le> k" "k + 3 < s" "s \<le> length d" "s < 2 ^ 32"
  shows "find_marker d s a = Inr (Some k)"
  using assms(1,3)
proof (induction "k - a" arbitrary: a)
  case 0
  then have "a = k" by simp
  then show ?case using assms by (subst find_marker.simps) (simp add: is_nal_marker_at)
next
  case (Suc n)
  then have "is_nal_marker d a = Inr False" using assms by (simp add: is_nal_marker_at)
  moreover have "find_marker d s (a + 1) = Inr (Some k)"
    by (rule Suc.hyps(1)) (use Suc in auto)
  ultimately show ?case using Suc assms by (subst find_marker.simps) simp
qed

text \<open>Bytes after \<open>z\<close> zeros in which no marker is completed.\<close>

fun unmarked :: "nat \<Rightarrow> u8 list \<Rightarrow> bool" where
  "unmarked z [] \<longleftrightarrow> True"
| "unmarked z (b # bs) \<longleftrightarrow> \<not> (2 \<le> z \<and> b = 1) \<and> unmarked (if b = 0 then z + 1 else 0) bs"

lemma unmarked_mono: "unmarked z bs \<Longrightarrow> y \<le> z \<Longrightarrow> unmarked y bs"
  by (induction z bs arbitrary: y rule: unmarked.induct) (auto split: if_splits)

lemma unmarked_append: "unmarked z (bs @ b # cs) \<longleftrightarrow> unmarked z (bs @ [b]) \<and> unmarked 0 cs" if "b \<noteq> 0"
  using that by (induction z bs rule: unmarked.induct) auto

lemma unmarked_marker:
  assumes "unmarked z d" and "i + 2 < length d"
  shows "\<not> marker_at d i"
  using assms
proof (induction z d arbitrary: i rule: unmarked.induct)
  case (2 z b bs)
  show ?case
  proof (cases i)
    case 0
    with "2.prems" obtain c e cs where "bs = c # e # cs" by (cases bs rule: list.exhaust; cases "tl bs") auto
    with "2.prems" 0 show ?thesis by (auto simp: marker_at_def)
  next
    case (Suc k)
    with "2.IH" [of k] "2.prems" show ?thesis by (auto simp: marker_at_def)
  qed
qed simp

lemma unmarked_escape: "z \<le> 2 \<Longrightarrow> unmarked z (escape_bytes z bs)"
proof (induction z bs rule: escape_bytes.induct)
  case (2 z b bs)
  define e where "e \<longleftrightarrow> z = 2 \<and> b AND NOT 3 = 0"
  define z1 where "z1 = (if e then 0 else z)"
  define z2 where "z2 = (if b = 0 then z1 + 1 else 0)"
  have "z2 \<le> 2"
  proof (cases "b = 0")
    case True
    then have "z = 2 \<Longrightarrow> e" by (simp add: e_def)
    then show ?thesis using 2(2) by (cases "z = 2") (auto simp: z2_def z1_def)
  qed (simp add: z2_def)
  then have "unmarked z2 (escape_bytes z2 bs)" using "2.IH" unfolding e_def z1_def z2_def by blast
  moreover have "escape_bytes z (b # bs) = (if e then [3] else []) @ b # escape_bytes z2 bs"
    by (simp add: e_def z1_def z2_def Let_def)
  moreover have "\<not> e \<Longrightarrow> z = 2 \<Longrightarrow> b \<noteq> 1" using byte_mask_3 [of b] by (auto simp: e_def)
  ultimately show ?case using 2(2) by (auto simp: z1_def z2_def)
qed simp


section \<open>A unit of enhancement among others\<close>

definition unit_type :: "u8 list \<Rightarrow> nat \<Rightarrow> u8" where
  "unit_type d i = drop_bit 1 (d ! (i + 3) AND 0x3e)"

definition unit_at :: "u8 list \<Rightarrow> nat \<Rightarrow> bool" where
  "unit_at d i \<longleftrightarrow> marker_at d i \<and> d ! (i + 3) AND 0xc0 = 0x40 \<and> d ! (i + 4) = 0xff \<and> is_lcevc_nal_unit_type (unit_type d i)"

lemma lcevc_nal_at_eq:
  "i + 4 < length d \<Longrightarrow> lcevc_nal_at d i = Inr (if unit_at d i then Some (unit_type d i) else None)"
  by (auto simp: lcevc_nal_at_def is_nal_marker_at byte_of_less unit_at_def unit_type_def Let_def)

text \<open>No unit of enhancement starts in the bytes.\<close>

definition unit_free :: "u8 list \<Rightarrow> bool" where
  "unit_free d \<longleftrightarrow> (\<forall>i. i + 4 < length d \<longrightarrow> lcevc_nal_at d i = Inr None)"

lemma unit_free_at: "unit_free d \<longleftrightarrow> (\<forall>i. i + 4 < length d \<longrightarrow> \<not> unit_at d i)"
  by (auto simp: unit_free_def lcevc_nal_at_eq)

lemma marker_at_append [simp]:
  "i + 2 < length xs \<Longrightarrow> marker_at (xs @ ys) i = marker_at xs i"
  "marker_at (xs @ ys) (length xs + i) = marker_at ys i"
  "marker_at (xs @ ys) (length xs) = marker_at ys 0"
  by (simp_all add: marker_at_def nth_append numeral_2_eq_2)

lemma unit_at_append:
  "i + 4 < length xs \<Longrightarrow> unit_at (xs @ ys) i = unit_at xs i"
  by (simp add: unit_at_def unit_type_def nth_append marker_at_def)

lemma unit_free_prefix:
  assumes "unit_free (xs @ ys)"
  shows "unit_free xs"
  unfolding unit_free_at
proof (intro allI impI)
  fix i assume i: "i + 4 < length xs"
  then have "\<not> unit_at (xs @ ys) i" using assms by (simp add: unit_free_at)
  with i show "\<not> unit_at xs i" by (simp add: unit_at_append)
qed

text \<open>A unit cannot begin in bytes that hold none and reach over into a marker.\<close>

lemma unit_at_straddle:
  assumes "unit_free pre" and "i < length pre"
  shows "\<not> unit_at (pre @ 0 # 0 # 1 # rest) i"
proof (cases "i + 4 < length pre")
  case True
  with assms(1) show ?thesis by (simp add: unit_at_append unit_free_at)
next
  case False
  define k where "k = length pre - i"
  have "length pre = i + k" "k = 1 \<or> k = 2 \<or> k = 3 \<or> k = 4"
    using False assms(2) by (auto simp: k_def)
  then show ?thesis by (auto simp: unit_at_def marker_at_def nth_append)
qed

lemma scan_nal_skip:
  assumes "\<And>j. a \<le> j \<Longrightarrow> j < k \<Longrightarrow> \<not> unit_at d j" and "a \<le> k" "k + 4 \<le> s" "s \<le> length d" "s < 2 ^ 32"
  shows "scan_nal_loop d s a pts cs = scan_nal_loop d s k pts cs"
  using assms(1,2)
proof (induction "k - a" arbitrary: a)
  case (Suc n)
  have "a < sub64 s 4" using Suc.hyps(2) assms(3,5) by simp
  then have "scan_nal_loop d s a pts cs = scan_nal_loop d s (a + 1) pts cs"
    using Suc.hyps(2) Suc.prems assms(3-5) by (subst scan_nal_loop.simps) (simp add: lcevc_nal_at_eq)
  also have "\<dots> = scan_nal_loop d s k pts cs" by (rule Suc.hyps(1)) (use Suc in auto)
  finally show ?case .
qed simp

lemma scan_nal_end: "s \<le> i + 4 \<Longrightarrow> 4 \<le> s \<Longrightarrow> s < 2 ^ 32 \<Longrightarrow> scan_nal_loop d s i pts cs = Inr (d, s, cs)"
proof -
  assume "s \<le> i + 4" "4 \<le> s" "s < 2 ^ 32"
  then have "\<not> i < sub64 s 4" by simp
  then show ?thesis by (subst scan_nal_loop.simps) (simp only: if_False)
qed

text \<open>A unit behind another begins with a marker of three or four bytes.\<close>

definition framed :: "u8 list \<Rightarrow> bool" where
  "framed u \<longleftrightarrow> 5 \<le> length u \<and> (marker_at u 0 \<or> u ! 0 = 0 \<and> marker_at u 1)"

lemma no_marker_over_stop:
  assumes "unmarked 0 (seg @ [0x80])" and "length front \<le> j" "j < length (front @ seg @ [0x80])"
  shows "\<not> marker_at (front @ (seg @ [0x80]) @ post) j"
proof -
  define i where "i = j - length front"
  have j: "j = length front + i" and i: "i < length (seg @ [0x80])" using assms by (simp_all add: i_def)
  have "\<not> marker_at ((seg @ [0x80]) @ post) i"
  proof (cases "i + 2 < length (seg @ [0x80 :: u8])")
    case True
    then show ?thesis using unmarked_marker [OF assms(1) True] marker_at_append(1) [OF True, of post] by simp
  next
    case False
    with i have "i = length seg \<or> i + 1 = length seg" by auto
    then have "((seg @ [0x80]) @ post) ! i = 0x80 \<or> ((seg @ [0x80]) @ post) ! (i + 1) = 0x80"
      by (auto simp: nth_append)
    then show ?thesis unfolding marker_at_def by fastforce
  qed
  then show ?thesis unfolding j by (simp only: marker_at_append simp_thms)
qed

lemma marker_found:
  assumes "unmarked 0 (seg @ [0x80])" and "post = [] \<or> framed post" and "length (front @ (seg @ [0x80]) @ post) < 2 ^ 32"
    and "2 < length front"
  shows "find_marker (front @ (seg @ [0x80]) @ post) (length (front @ (seg @ [0x80]) @ post)) (length front) =
    Inr (if post = [] then None else Some (length front + length seg + (if marker_at post 0 then 1 else 2)))"
    and "post \<noteq> [] \<Longrightarrow> \<not> marker_at post 0 \<Longrightarrow> post ! 0 = 0"
proof -
  let ?d = "front @ (seg @ [0x80]) @ post" and ?k = "length front + length seg + 1"
  have no: "\<not> marker_at ?d j" if "length front \<le> j" "j < ?k" for j
    by (rule no_marker_over_stop [OF assms(1)]) (use that in auto)
  have at: "marker_at ?d (?k + i) = marker_at post i" for i
    using marker_at_append(2) [of "front @ seg @ [0x80]" post i] by simp
  show "post ! 0 = 0" if "post \<noteq> []" "\<not> marker_at post 0" using that assms(2) by (auto simp: framed_def)
  show "find_marker ?d (length ?d) (length front) =
    Inr (if post = [] then None else Some (length front + length seg + (if marker_at post 0 then 1 else 2)))"
  proof (cases "post = []")
    case True
    have "find_marker ?d (length ?d) (length front) = Inr None"
      by (rule find_marker_none) (use no True assms in auto)
    then show ?thesis using True by simp
  next
    case False
    then have f: "framed post" using assms by simp
    show ?thesis
    proof (cases "marker_at post 0")
      case True
      have "find_marker ?d (length ?d) (length front) = Inr (Some ?k)"
        by (rule find_marker_first) (use no True at [of 0] f assms in \<open>auto simp: framed_def\<close>)
      then show ?thesis using True False by simp
    next
      case no0: False
      then have m: "marker_at post 1" using f by (auto simp: framed_def)
      have "\<not> marker_at ?d j" if "length front \<le> j" "j < ?k + 1" for j
        using that no [of j] no0 at [of 0] by (cases "j = ?k") auto
      then have "find_marker ?d (length ?d) (length front) = Inr (Some (?k + 1))"
        by (intro find_marker_first) (use m at [of 1] f assms in \<open>auto simp: framed_def\<close>)
      then show ?thesis using no0 False by simp
    qed
  qed
qed

lemma nal_end_found:
  assumes "unmarked 0 (seg @ [0x80])" and "post = [] \<or> framed post" and "length (front @ (seg @ [0x80]) @ post) < 2 ^ 32"
    and "2 < length front"
  shows "nal_end (front @ (seg @ [0x80]) @ post) (length (front @ (seg @ [0x80]) @ post)) (length front) =
    Inr (length front + length seg + 1)"
  using marker_found [OF assms] assms(3) by (auto simp: nal_end_def byte_of_def nth_append)

text \<open>The payload of a unit, as a packet.\<close>

definition holds :: "packet \<Rightarrow> u8 list \<Rightarrow> 64 word \<Rightarrow> bool" where
  "holds pkt bs pts \<longleftrightarrow> packet_view pkt = Inr bs \<and> pkt_timestamp pkt = pts"

lemma length_escape: "length bs \<le> length (escape_bytes z bs)"
  by (induction bs arbitrary: z) (auto simp: Let_def intro: le_SucI)

lemma extract_payload:
  assumes "length (escape_bytes 0 bs) < 2 ^ 32 - 1"
  obtains pkt where "extract_enhancement_nal (escape_bytes 0 bs @ [0x80] @ post) (length (escape_bytes 0 bs) + 1) True pts idr = Inr (pkt, idr)"
    and "holds pkt bs pts"
proof -
  let ?e = "escape_bytes 0 bs" and ?n = "length (escape_bytes 0 bs) + 1"
  define pb where "pb = packet_reserve (set_timestamp packet_build pts) ?n"
  have pb: "pb_mapped pb" "packet_view (pb_packet pb) = Inr ([] @ replicate ?n 0)" "pkt_timestamp (pb_packet pb) = pts"
    by (simp_all add: pb_def packet_reserve_def set_timestamp_def packet_view_def buffer_map_def buffer_zeros_def)
  let ?r = "rbsp_new (?e @ [0x80] @ post) ?n True"
  have "carried ?r bs [0x80]"
    by (auto simp: carried_def rbsp_new_def rbsp_wf_def rbsp_pending_def intro!: exI [of _ 0])
  then have "\<exists>pb'. rbsp_copy_loop ?r (length ([] :: u8 list)) pb = Inr pb' \<and> packet_view (packet_finish pb') = Inr ([] @ bs) \<and>
    pkt_timestamp (packet_finish pb') = pkt_timestamp (pb_packet pb)"
    by (rule rbsp_copy_carried [OF _ _ pb(1,2)]) (use length_escape [of bs 0] assms in \<open>simp_all add: rbsp_new_def\<close>)
  then obtain pb' where "rbsp_copy_loop ?r 0 pb = Inr pb'" "packet_view (packet_finish pb') = Inr bs"
    "pkt_timestamp (packet_finish pb') = pts" using pb(3) by auto
  moreover have "rbsp_copy ?r (set_timestamp packet_build pts) = rbsp_copy_loop ?r 0 pb"
    using assms by (simp add: rbsp_copy_def pb_def rbsp_new_def)
  ultimately show ?thesis
    by (intro that [of "packet_finish pb'"]) (simp_all add: extract_enhancement_nal_def holds_def)
qed

definition lcevc_unit :: "bool \<Rightarrow> u8 list \<Rightarrow> u8 list" where
  "lcevc_unit idr bs = [0x00, 0x00, 0x01, if idr then 0x7b else 0x79, 0xff] @ escape_bytes 0 bs @ [0x80]"

lemma lcevc_unit_at:
  "unit_at (pre @ lcevc_unit idr bs @ post) (length pre)"
  "unit_type (pre @ lcevc_unit idr bs @ post) (length pre) = (if idr then LCEVC_IDR else LCEVC_NON_IDR)"
  by (simp_all add: unit_at_def marker_at_def unit_type_def lcevc_unit_def nth_append is_lcevc_nal_unit_type_def
      LCEVC_IDR_def LCEVC_NON_IDR_def LCEVC_RSV_def drop_bit_eq_div)

lemma unmarked_stop: "unmarked z bs \<Longrightarrow> unmarked z (bs @ [0x80])"
  by (induction z bs rule: unmarked.induct) auto

lemma unmarked_payload: "unmarked 0 ((0xff # escape_bytes 0 bs) @ [0x80])"
  using unmarked_stop [OF unmarked_escape [of 0 bs]] by simp


lemma length_lcevc_unit: "length (lcevc_unit idr bs) = length (escape_bytes 0 bs) + 6"
  by (simp add: lcevc_unit_def)

lemma lcevc_unit_end:
  assumes "post = [] \<or> framed post" and "length (pre @ lcevc_unit idr bs @ post) < 2 ^ 32"
  shows "nal_end (pre @ lcevc_unit idr bs @ post) (length (pre @ lcevc_unit idr bs @ post)) (length pre + 4) =
    Inr (length pre + length (lcevc_unit idr bs))"
proof -
  define front where "front = pre @ [0x00, 0x00, 0x01, if idr then 0x7b else 0x79 :: u8]"
  have eq: "pre @ lcevc_unit idr bs @ post = front @ ((0xff # escape_bytes 0 bs) @ [0x80]) @ post"
    by (simp add: front_def lcevc_unit_def)
  have len: "length front = length pre + 4" by (simp add: front_def)
  show ?thesis
    using nal_end_found [OF unmarked_payload [of bs] assms(1), of front] assms(2)
    unfolding eq by (simp add: length_lcevc_unit len)
qed

text \<open>
  The scan of an access unit with one unit of enhancement: it is handed over and cut out. The
  vector keeps bytes behind the ones that are left.
\<close>

lemma scan_nal_unit:
  assumes free: "unit_free (pre @ post)" and post: "post = [] \<or> framed post"
    and size: "length (pre @ lcevc_unit idr bs @ post) < 2 ^ 32" and rest: "4 \<le> length (pre @ post)"
  shows "\<exists>stale pkt. scan_enhancement_nal (pre @ lcevc_unit idr bs @ post) (length (pre @ lcevc_unit idr bs @ post)) pts =
    Inr (pre @ post @ stale, length (pre @ post), [(pkt, idr)]) \<and> holds pkt bs pts"
proof -
  let ?u = "lcevc_unit idr bs" and ?k = "length pre"
  let ?d = "pre @ ?u @ post"
  have u: "?u = 0 # 0 # 1 # (if idr then 0x7b else 0x79) # 0xff # escape_bytes 0 bs @ [0x80]" by (simp add: lcevc_unit_def)
  have before: "\<not> unit_at ?d j" if "j < ?k" for j
    using unit_at_straddle [OF unit_free_prefix [OF free] that] by (simp add: u)
  have s: "length ?d = ?k + length (escape_bytes 0 bs) + 6 + length post" by (simp add: length_lcevc_unit)
  have "scan_nal_loop ?d (length ?d) 0 pts [] = scan_nal_loop ?d (length ?d) ?k pts []"
    by (rule scan_nal_skip) (use before s size in simp_all)
  also have "\<exists>stale pkt. \<dots> = scan_nal_loop (pre @ post @ stale) (length (pre @ post)) (?k + 1) pts [(pkt, idr)] \<and> holds pkt bs pts"
  proof -
    obtain pkt where pkt: "extract_enhancement_nal (escape_bytes 0 bs @ [0x80] @ post) (length (escape_bytes 0 bs) + 1) True pts idr = Inr (pkt, idr)"
      "holds pkt bs pts" by (rule extract_payload [of bs post pts idr]) (use s size in simp_all)
    have lt: "?k < sub64 (length ?d) 4" using s size by simp
    have at: "lcevc_nal_at ?d ?k = Inr (Some (if idr then LCEVC_IDR else LCEVC_NON_IDR))"
      using lcevc_unit_at [of pre idr bs post] s by (simp add: lcevc_nal_at_eq)
    have "(if idr then LCEVC_IDR else LCEVC_NON_IDR) = LCEVC_IDR \<longleftrightarrow> idr" by (simp add: LCEVC_IDR_def LCEVC_NON_IDR_def)
    moreover have "drop (?k + 5) ?d = escape_bytes 0 bs @ [0x80] @ post" by (simp add: u)
    moreover have "sub32 (?k + length ?u) (?k + 5) = length (escape_bytes 0 bs) + 1"
      using s size by (simp add: length_lcevc_unit)
    ultimately have ext: "extract_enhancement_nal (drop (?k + 5) ?d) (sub32 (?k + length ?u) (?k + 5)) True pts
        ((if idr then LCEVC_IDR else LCEVC_NON_IDR) = LCEVC_IDR) = Inr (pkt, idr)" using pkt(1) by simp
    have rem: "sub64 (length ?d) (?k + length ?u) = length post" using s size by (simp add: length_lcevc_unit)
    have len: "sub64 (length ?d + ?k) (?k + length ?u) = length (pre @ post)" using s size by (simp add: length_lcevc_unit)
    let ?stale = "drop (?k + length post) ?d"
    have mv: "move_bytes ?d ?k (?k + length ?u) (length post) = Inr (pre @ post @ ?stale)"
      by (simp add: move_bytes_def)
    have "scan_nal_loop ?d (length ?d) ?k pts [] =
        scan_nal_loop (pre @ post @ ?stale) (length (pre @ post)) (?k + 1) pts [(pkt, idr)]"
      by (subst scan_nal_loop.simps) (simp only: lt if_True at rbind.simps option.case lcevc_unit_end [OF post size] ext rem mv len append_Nil)
    then show ?thesis using pkt(2) by blast
  qed
  finally obtain stale pkt where run: "scan_nal_loop ?d (length ?d) 0 pts [] =
      scan_nal_loop (pre @ post @ stale) (length (pre @ post)) (?k + 1) pts [(pkt, idr)]" and h: "holds pkt bs pts" by blast
  have after: "\<not> unit_at (pre @ post @ stale) j" if "j + 4 < length (pre @ post)" for j
    using that free unit_at_append [of j "pre @ post" stale] by (simp add: unit_free_at)
  have "scan_nal_loop (pre @ post @ stale) (length (pre @ post)) (?k + 1) pts [(pkt, idr)] =
    Inr (pre @ post @ stale, length (pre @ post), [(pkt, idr)])"
  proof (cases "?k + 1 \<le> length (pre @ post) - 4")
    case True
    have "scan_nal_loop (pre @ post @ stale) (length (pre @ post)) (?k + 1) pts [(pkt, idr)] =
      scan_nal_loop (pre @ post @ stale) (length (pre @ post)) (length (pre @ post) - 4) pts [(pkt, idr)]"
      by (rule scan_nal_skip) (use after True rest s size in auto)
    then show ?thesis using scan_nal_end [of "length (pre @ post)" "length (pre @ post) - 4"] rest s size by simp
  next
    case False
    then show ?thesis using scan_nal_end [of "length (pre @ post)" "?k + 1"] rest s size by simp
  qed
  with run h show ?thesis by (auto simp: scan_enhancement_nal_def)
qed


text \<open>The steps of a scan at a unit that is all there is.\<close>

lemma lone_unit:
  fixes pts :: "64 word"
  assumes "length (lcevc_unit idr bs) < 2 ^ 32"
  obtains pkt t where "0 < sub64 (length (lcevc_unit idr bs)) 4" and "lcevc_nal_at (lcevc_unit idr bs) 0 = Inr (Some t)"
    and "nal_end (lcevc_unit idr bs) (length (lcevc_unit idr bs)) (0 + 4) = Inr (length (lcevc_unit idr bs))"
    and "extract_enhancement_nal (drop (0 + 5) (lcevc_unit idr bs)) (sub32 (length (lcevc_unit idr bs)) (0 + 5)) True pts (t = LCEVC_IDR) =
      Inr (pkt, idr)"
    and "holds pkt bs pts"
proof -
  let ?d = "lcevc_unit idr bs" and ?t = "if idr then LCEVC_IDR else LCEVC_NON_IDR"
  obtain pkt where pkt: "extract_enhancement_nal (escape_bytes 0 bs @ [0x80] @ []) (length (escape_bytes 0 bs) + 1) True pts idr = Inr (pkt, idr)"
    "holds pkt bs pts" by (rule extract_payload [of bs "[]" pts idr]) (use assms in \<open>simp_all add: length_lcevc_unit\<close>)
  have "0 < sub64 (length ?d) 4" using assms by (simp add: length_lcevc_unit)
  moreover have "lcevc_nal_at ?d 0 = Inr (Some ?t)"
    using lcevc_unit_at [of "[]" idr bs "[]"] by (simp add: lcevc_nal_at_eq length_lcevc_unit)
  moreover have "nal_end ?d (length ?d) (0 + 4) = Inr (length ?d)"
    using lcevc_unit_end [of "[]" "[]" idr bs] assms by simp
  moreover have "?t = LCEVC_IDR \<longleftrightarrow> idr" by (simp add: LCEVC_IDR_def LCEVC_NON_IDR_def)
  moreover have "drop (0 + 5) ?d = escape_bytes 0 bs @ [0x80] @ []" by (simp add: lcevc_unit_def)
  moreover have "sub32 (length ?d) (0 + 5) = length (escape_bytes 0 bs) + 1" using assms by (simp add: length_lcevc_unit)
  ultimately show ?thesis using that [of ?t pkt] pkt by simp
qed

section \<open>What the encoder builds\<close>

lemma packet_view_size: "packet_wf p \<Longrightarrow> packet_view p = Inr bs \<Longrightarrow> pkt_size p = length bs"
  by (auto simp: packet_wf_def packet_view_def buffer_map_def rbind_eq_Inr split: option.splits)

lemma packet_of_bytes: "\<exists>p. packet_of bs = Inr p \<and> packet_view p = Inr bs \<and> packet_wf p \<and> pkt_size p = length bs"
  by (simp add: packet_of_def contents_vector_def contents_bytes_def buffer_from_def packet_finish_def packet_view_def
      buffer_map_def packet_wf_def)

text \<open>A writer that emits whole bytes into a new packer makes a packet of them.\<close>

lemma finish_emits:
  assumes "pk.emits 0 f (stream_bits bs)"
  obtains p pkt where "f packer_new = Some (Inr p)" and "packer_finish p = Inr pkt" and "packet_view pkt = Inr bs"
    and "packet_wf pkt"
proof -
  obtain p where p: "f packer_new = Some (Inr p)" "packer_inv p" "packer_bits p = stream_bits bs"
    using pk.emitsD [OF assms, of packer_new] by auto
  obtain pkt bytes where pkt: "packer_finish p = Inr pkt" "packet_view pkt = Inr bytes"
    "length bytes = packer_byte_size p"
    "stream_bits bytes = packer_bits p @ replicate (8 * length bytes - pk_bit_offset p) False"
    by (rule packer_finish_spec [OF p(2)])
  have "pk_bit_offset p = 8 * length bs" using arg_cong [OF p(3), of length] by simp
  then have "length bytes = length bs" using pkt(3) by (simp add: packer_byte_size_def)
  with pkt(4) p(3) \<open>pk_bit_offset p = _\<close> have "stream_bits bytes = stream_bits bs" by simp
  then have "bytes = bs" by (rule stream_bits_inj)
  moreover have "packet_wf pkt"
    using pkt(1) by (auto simp: packer_finish_def packer_emit_def contents_bytes_def buffer_from_def packet_finish_def
        packet_wf_def rbind_eq_Inr Let_def split: if_splits)
  ultimately show ?thesis using that p(1) pkt(1,2) by blast
qed

lemma nal_payload_bytes:
  assumes "packet_view payload = Inr bs"
  obtains p where "nal_payload payload = Some (Inr p)" and "packet_view p = Inr bs" and "packet_wf p"
proof -
  obtain p pkt where "put_packet payload packer_new = Some (Inr p)" "packer_finish p = Inr pkt" "packet_view pkt = Inr bs" "packet_wf pkt"
    by (rule finish_emits [OF emits_packet [OF assms]]) simp
  then show ?thesis using that by (simp add: nal_payload_def)
qed

lemma rbsp_encapsulate_bytes:
  assumes "packet_view p = Inr bs"
  obtains q where "rbsp_encapsulate p = Inr q" and "packet_view q = Inr (escape_bytes 0 bs @ [0x80])" and "packet_wf q"
  using assms packet_of_bytes [of "escape_bytes 0 bs @ [0x80]"]
  by (auto simp: rbsp_encapsulate_def packet_of_def)

lemma build_nalu_bytes:
  assumes "packet_view payload = Inr bs"
  shows "build_nalu idr payload = Some (Inr \<lparr>nu_type = (if idr then 29 else 28), nu_data = lcevc_unit idr bs\<rparr>)"
proof -
  obtain p where p: "nal_payload payload = Some (Inr p)" "packet_view p = Inr bs"
    by (rule nal_payload_bytes [OF assms])
  obtain q where "rbsp_encapsulate p = Inr q" "packet_view q = Inr (escape_bytes 0 bs @ [0x80])"
    by (rule rbsp_encapsulate_bytes [OF p(2)])
  with p show ?thesis by (simp add: build_nalu_def unit_of_def lcevc_unit_def)
qed

text \<open>The bytes of an access unit, and where a unit is put.\<close>

definition au_bytes :: "access_unit \<Rightarrow> u8 list" where
  "au_bytes au = concat (map nu_data (au_nal_units au))"

lemma insert_unit_bytes:
  assumes "\<forall>u \<in> set (au_nal_units au). framed (nu_data u)"
  obtains pre post where "au_bytes au = pre @ post" and "post = [] \<or> framed post"
    and "au_bytes (fst (insert_unit skip u au)) = pre @ nu_data u @ post"
proof -
  let ?us = "au_nal_units au"
  define a b where "a = takeWhile (\<lambda>v. skip (nu_type v)) ?us" and "b = drop (length a) ?us"
  have us: "?us = a @ b" by (metis a_def b_def append_take_drop_id takeWhile_eq_take)
  have "concat (map nu_data b) = [] \<or> framed (concat (map nu_data b))"
  proof (cases b)
    case (Cons v vs)
    then have "framed (nu_data v)" using assms us by simp
    then have "framed (nu_data v @ concat (map nu_data vs))"
      by (auto simp: framed_def nth_append)
    then show ?thesis using Cons by simp
  qed simp
  moreover have "au_nal_units (fst (insert_unit skip u au)) = a @ u # b"
    by (simp add: insert_unit_def a_def b_def Let_def)
  ultimately show ?thesis
    by (intro that [of "concat (map nu_data a)" "concat (map nu_data b)"]) (simp_all add: au_bytes_def us)
qed

end
