(* ===== verification/ScanMessages.thy ===== *)
theory ScanMessages
  imports ScanUnits
begin

text \<open>
  SEI messages: what \<open>sei_payload\<close> of the encoder makes of a packet, and the scan that finds it.
\<close>

section \<open>The payload of a message\<close>

lemma emits_u: "n < 31 \<Longrightarrow> pk.emits k (\<lambda>w. Some (packer_u w n v)) (bits_of n v)"
  by (rule pk.emits_writes) (rule pk.writes_put)

lemma bits_of_nat_word: "n \<le> LENGTH('a::len) \<Longrightarrow> bits_of n (word_of_nat m :: 'a word) = bits_of n m"
  by (rule nth_equalityI) (auto simp: nth_bits_of bit_simps)

lemma emits_byte: "pk.emits k (\<lambda>w. Some (packer_u w 8 (word_of_nat n))) (stream_bits [word_of_nat n])"
  using emits_u [of 8 k "word_of_nat n"] by (simp add: stream_bits_Cons bits_of_nat_word)

lemma emits_length: "pk.emits k (\<lambda>w. Some (put_sei_length n w)) (stream_bits (ff_bytes n))"
proof (induction n arbitrary: k rule: less_induct)
  case (less n)
  show ?case
  proof (cases "255 \<le> n")
    case True
    have "pk.emits k (\<lambda>w. run_bind (Some (packer_u w 8 (word_of_nat 255))) (\<lambda>w. Some (put_sei_length (n - 255) w)))
        (stream_bits [word_of_nat 255] @ stream_bits (ff_bytes (n - 255)))"
      by (intro pk.emits_bind emits_byte less) (use True in simp)
    moreover have "run_bind (Some (packer_u w 8 (word_of_nat 255))) (\<lambda>w. Some (put_sei_length (n - 255) w)) =
        Some (put_sei_length n w)" for w
      using True by (subst (2) put_sei_length.simps) (cases "packer_u w 8 255", simp_all)
    moreover have "stream_bits [word_of_nat 255] @ stream_bits (ff_bytes (n - 255)) = stream_bits (ff_bytes n)"
      using True by (simp add: ff_bytes_step flip: stream_bits_append)
    ultimately show ?thesis by simp
  next
    case False
    then show ?thesis using emits_byte [of k n] by (simp add: put_sei_length.simps [of n] ff_bytes_def)
  qed
qed

lemma emits_array: "8 dvd k \<Longrightarrow> pk.emits k (put_array bytes) (stream_bits bytes)"
  using emits_packet [of "\<lparr>pkt_name = [], pkt_timestamp = 0, pkt_buffer = Some bytes, pkt_offset = 0, pkt_size = length bytes\<rparr>" bytes k]
  by (simp add: put_packet_def put_array_def packet_view_def buffer_map_def pk.emits_def)

definition sei_message :: "nat \<Rightarrow> u8 list \<Rightarrow> u8 list \<Rightarrow> u8 list" where
  "sei_message type code bs = word_of_nat type # ff_bytes (length code + length bs) @ code @ bs"

lemma emits_message:
  assumes "packet_view payload = Inr bs" and "packet_wf payload" and "length code + length bs < 2 ^ 32"
  shows "pk.emits 0 (\<lambda>w. run_bind (Some (packer_u w 8 (word_of_nat type))) (\<lambda>sei.
     run_bind (Some (put_sei_length ((pkt_size payload + length code) mod 2 ^ 32) sei)) (\<lambda>sei.
     run_bind (put_array code sei) (\<lambda>sei. put_packet payload sei)))) (stream_bits (sei_message type code bs))"
proof -
  have "stream_bits (sei_message type code bs) =
      stream_bits [word_of_nat type] @ stream_bits (ff_bytes (length code + length bs)) @ stream_bits code @ stream_bits bs"
    by (simp add: sei_message_def stream_bits_Cons stream_bits_append)
  moreover have "(pkt_size payload + length code) mod 2 ^ 32 = length code + length bs"
    using assms packet_view_size [OF assms(2,1)] by simp
  ultimately show ?thesis
    by (simp only:) (intro pk.emits_bind emits_byte emits_length emits_array emits_packet assms; simp)
qed

lemma length_codes [simp]: "length sei_code = 4" "length sei_uuid = 16"
  by (simp_all add: sei_code_def sei_uuid_def)

lemma registered_payload_bytes:
  assumes "packet_view payload = Inr bs" and "packet_wf payload" and "length bs + 4 < 2 ^ 32"
  obtains p where "registered_sei_payload payload = Some (Inr p)" and "packet_view p = Inr (sei_message 4 sei_code bs)" and "packet_wf p"
proof -
  obtain w p where w: "run_bind (Some (packer_u packer_new 8 (word_of_nat 4))) (\<lambda>sei.
     run_bind (Some (put_sei_length ((pkt_size payload + length sei_code) mod 2 ^ 32) sei)) (\<lambda>sei.
     run_bind (put_array sei_code sei) (\<lambda>sei. put_packet payload sei))) = Some (Inr w)"
    and p: "packer_finish w = Inr p" "packet_view p = Inr (sei_message 4 sei_code bs)" "packet_wf p"
    by (rule finish_emits [OF emits_message [OF assms(1,2), of sei_code 4]]) (use assms(3) in simp_all)
  have "registered_sei_payload payload = run_bind (Some (Inr w)) (\<lambda>w. Some (packer_finish w))"
    unfolding w [symmetric] by (simp add: registered_sei_payload_def run_bind_assoc flip: sei_code_def)
  then have "registered_sei_payload payload = Some (Inr p)" using p(1) by simp
  with p that show ?thesis by blast
qed

lemma unregistered_payload_bytes:
  assumes "packet_view payload = Inr bs" and "packet_wf payload" and "length bs + 16 < 2 ^ 32"
  obtains p where "unregistered_sei_payload payload = Some (Inr p)" and "packet_view p = Inr (sei_message 5 sei_uuid bs)" and "packet_wf p"
proof -
  obtain w p where w: "run_bind (Some (packer_u packer_new 8 (word_of_nat 5))) (\<lambda>sei.
     run_bind (Some (put_sei_length ((pkt_size payload + length sei_uuid) mod 2 ^ 32) sei)) (\<lambda>sei.
     run_bind (put_array sei_uuid sei) (\<lambda>sei. put_packet payload sei))) = Some (Inr w)"
    and p: "packer_finish w = Inr p" "packet_view p = Inr (sei_message 5 sei_uuid bs)" "packet_wf p"
    by (rule finish_emits [OF emits_message [OF assms(1,2), of sei_uuid 5]]) (use assms(3) in simp_all)
  have "unregistered_sei_payload payload = run_bind (Some (Inr w)) (\<lambda>w. Some (packer_finish w))"
    unfolding w [symmetric] by (simp add: unregistered_sei_payload_def run_bind_assoc flip: sei_uuid_def)
  then have "unregistered_sei_payload payload = Some (Inr p)" using p(1) by simp
  with p that show ?thesis by blast
qed


section \<open>The extractors\<close>

lemma sei_message_ff: "type < 255 \<Longrightarrow> sei_message type code bs = ff_bytes type @ ff_bytes (length code + length bs) @ code @ bs"
  by (simp add: sei_message_def ff_bytes_def)

lemma put_bytes_at_view:
  assumes "pb_mapped pb" and "packet_view (pb_packet pb) = Inr (done @ room)" and "length room = length bs"
  shows "\<exists>pb'. put_bytes_at (length done) bs pb = Inr pb' \<and> packet_view (packet_finish pb') = Inr (done @ bs) \<and>
    pkt_timestamp (packet_finish pb') = pkt_timestamp (pb_packet pb)"
  using assms
proof (induction bs arbitrary: "done" room pb)
  case Nil
  then show ?case by (simp add: packet_finish_def)
next
  case (Cons b bs)
  from Cons.prems(3) obtain x room' where room: "room = x # room'" by (cases room) auto
  obtain pb1 where pb1: "packet_put (length done) b pb = Inr pb1" "pb_mapped pb1"
    "packet_view (pb_packet pb1) = Inr (done @ b # room')" "pkt_timestamp (pb_packet pb1) = pkt_timestamp (pb_packet pb)"
    using Cons.prems(1,2) unfolding room by (rule packet_put_nth)
  have "\<exists>pb'. put_bytes_at (length (done @ [b])) bs pb1 = Inr pb' \<and> packet_view (packet_finish pb') = Inr ((done @ [b]) @ bs) \<and>
    pkt_timestamp (packet_finish pb') = pkt_timestamp (pb_packet pb1)"
    by (rule Cons.IH [where room = room']) (use Cons.prems room pb1 in simp_all)
  then show ?case using pb1 by simp
qed

lemma unregistered_extract:
  assumes c: "carried (rbsp_new data n emu) (sei_message 5 sei_uuid bs) rest" and n: "16 + length bs \<le> n" and small: "length bs < 2 ^ 32"
  shows "\<exists>pkt. unregistered_sei data n emu pts idr = Inr [(pkt, idr)] \<and> holds pkt bs pts"
proof -
  obtain r1 where r1: "read_ff (rbsp_new data n emu) 0 = Inr (5, r1)" "carried r1 (ff_bytes (16 + length bs) @ sei_uuid @ bs) rest"
    using carried_ff [OF c [unfolded sei_message_ff [of 5, simplified]], where m = 0] by auto
  obtain r2 where r2: "read_ff r1 0 = Inr (16 + length bs, r2)" "carried r2 (sei_uuid @ bs) rest"
    using carried_ff [OF r1(2), where m = 0] by auto
  obtain r3 where r3: "copy_sei (length sei_uuid) r2 = Inr (sei_uuid, r3)" "carried r3 (bs @ []) rest"
    using carried_copy [OF r2(2)] by auto
  obtain r4 where r4: "copy_sei (length bs) r3 = Inr (bs, r4)" by (rule carried_copy [OF r3(2)])
  define pb where "pb = set_timestamp (packet_reserve packet_build (length bs)) pts"
  have "pb_mapped pb" "packet_view (pb_packet pb) = Inr ([] @ replicate (length bs) 0)" "pkt_timestamp (pb_packet pb) = pts"
    by (simp_all add: pb_def packet_reserve_def set_timestamp_def packet_view_def buffer_map_def buffer_zeros_def)
  then obtain pb' where "put_bytes_at 0 bs pb = Inr pb'" "holds (packet_finish pb') bs pts"
    using put_bytes_at_view [of pb "[]" "replicate (length bs) 0" bs] by (auto simp: holds_def)
  moreover have "sub64 (16 + length bs) (length sei_uuid) = length bs" using small by simp
  moreover have "length bs mod 2 ^ 32 = length bs" using small by simp
  ultimately have "unregistered_sei data n emu pts idr = Inr [(packet_finish pb', idr)]"
    using r1(1) r2(1) r3(1) r4 n by (simp add: unregistered_sei_def Let_def pb_def)
  with \<open>holds _ _ _\<close> show ?thesis by blast
qed

text \<open>The scan of the unit inside a registered message.\<close>

lemma prod_skip:
  assumes "\<And>j. a \<le> j \<Longrightarrow> j + 4 < length d \<Longrightarrow> \<not> unit_at d j" and "4 \<le> length d" "length d < 2 ^ 32"
  shows "scan_enhancement_nal_prod d (length d) a pts = Inr []"
  using assms(1)
proof (induction "length d - a" arbitrary: a rule: less_induct)
  case less
  show ?case
  proof (cases "a + 4 < length d")
    case True
    then have "lcevc_nal_at d a = Inr None" using less.prems by (simp add: lcevc_nal_at_eq)
    moreover have "scan_enhancement_nal_prod d (length d) (a + 1) pts = Inr []"
      by (rule less.hyps) (use True less.prems in auto)
    ultimately show ?thesis by (subst scan_enhancement_nal_prod.simps) simp
  next
    case False
    then have "\<not> a < sub64 (length d) 4" using assms by simp
    then show ?thesis by (subst scan_enhancement_nal_prod.simps) (simp only: if_False)
  qed
qed

lemma lcevc_unit_once:
  assumes "0 < j" and "j + 4 < length (lcevc_unit idr bs)"
  shows "\<not> unit_at (lcevc_unit idr bs) j"
proof -
  have "\<not> marker_at (lcevc_unit idr bs) j"
  proof (cases "j < 4")
    case True
    then have "j = 1 \<or> j = 2 \<or> j = 3" using assms(1) by auto
    then show ?thesis by (auto simp: marker_at_def lcevc_unit_def)
  next
    case False
    define front where "front = [0x00, 0x00, 0x01, if idr then 0x7b else 0x79 :: u8]"
    have "lcevc_unit idr bs = front @ ((0xff # escape_bytes 0 bs) @ [0x80]) @ []" "length front = 4"
      by (simp_all add: lcevc_unit_def front_def)
    with no_marker_over_stop [OF unmarked_payload [of bs], of front j "[]"] assms(2) False show ?thesis by simp
  qed
  then show ?thesis by (simp add: unit_at_def)
qed

lemma scan_prod_unit:
  assumes "length (lcevc_unit idr bs) < 2 ^ 32"
  shows "\<exists>pkt. scan_enhancement_nal_prod (lcevc_unit idr bs) (length (lcevc_unit idr bs)) 0 pts = Inr [(pkt, idr)] \<and> holds pkt bs pts"
proof -
  let ?d = "lcevc_unit idr bs"
  obtain pkt t where at: "0 < sub64 (length ?d) 4" "lcevc_nal_at ?d 0 = Inr (Some t)" "nal_end ?d (length ?d) (0 + 4) = Inr (length ?d)"
    "extract_enhancement_nal (drop (0 + 5) ?d) (sub32 (length ?d) (0 + 5)) True pts (t = LCEVC_IDR) = Inr (pkt, idr)"
    "holds pkt bs pts" by (rule lone_unit [OF assms])
  have "scan_enhancement_nal_prod ?d (length ?d) (0 + 1) pts = Inr []"
    by (rule prod_skip) (use lcevc_unit_once assms in \<open>auto simp: length_lcevc_unit\<close>)
  then have "scan_enhancement_nal_prod ?d (length ?d) 0 pts = Inr ([(pkt, idr)] @ [])"
    by (subst scan_enhancement_nal_prod.simps) (simp only: if_True at rbind.simps option.case)
  with at(5) show ?thesis by simp
qed

lemma registered_extract:
  assumes c: "carried (rbsp_new data n emu) (sei_message 4 sei_code (lcevc_unit idr bs)) rest"
    and n: "4 + length (lcevc_unit idr bs) \<le> n" and small: "length (lcevc_unit idr bs) < 2 ^ 32"
  shows "\<exists>pkt. registered_sei data n emu pts base_idr = Inr [(pkt, idr)] \<and> holds pkt bs pts"
proof -
  let ?d = "lcevc_unit idr bs"
  obtain r1 where r1: "read_ff (rbsp_new data n emu) 0 = Inr (4, r1)" "carried r1 (ff_bytes (4 + length ?d) @ sei_code @ ?d) rest"
    using carried_ff [OF c [unfolded sei_message_ff [of 4, simplified]], where m = 0] by auto
  obtain r2 where r2: "read_ff r1 0 = Inr (4 + length ?d, r2)" "carried r2 (sei_code @ ?d) rest"
    using carried_ff [OF r1(2), where m = 0] by auto
  obtain r3 where r3: "copy_sei (length sei_code) r2 = Inr (sei_code, r3)" "carried r3 (?d @ []) rest"
    using carried_copy [OF r2(2)] by auto
  obtain r4 where "copy_sei (length ?d) r3 = Inr (?d, r4)" by (rule carried_copy [OF r3(2)])
  with r1(1) r2(1) r3(1) n have "registered_sei data n emu pts base_idr = scan_enhancement_nal_prod ?d (length ?d) 0 pts"
    by (simp add: registered_sei_def)
  with scan_prod_unit [OF small] show ?thesis by simp
qed


section \<open>The scan for a message\<close>

text \<open>
  The header of an SEI unit: its test \<open>header\<close>, the length \<open>h\<close> of marker and header, and the bytes
  \<open>own\<close> that the encoder writes. The last byte of a header is not zero.
\<close>

locale sei_header =
  fixes header :: "u8 list \<Rightarrow> nat \<Rightarrow> bool result" and h :: nat and own :: "u8 list"
  assumes four_or_five: "h = 4 \<or> h = 5"
    and reads: "i + h \<le> length d \<Longrightarrow> \<exists>b. header d (i + 3) = Inr b"
    and reads_here: "i + h \<le> length xs \<Longrightarrow> header (xs @ ys) (i + 3) = header xs (i + 3)"
    and reads_there: "header (xs @ ys) (length xs + i) = header ys i"
    and last_byte: "header d j = Inr True \<Longrightarrow> d ! (j + h - 4) \<noteq> 0"
    and own: "header (own @ ys) 3 = Inr True" "length own = h" "take 3 own = [0, 0, 1]"
begin

definition message_at :: "u8 list \<Rightarrow> nat \<Rightarrow> bool" where
  "message_at d i \<longleftrightarrow> marker_at d i \<and> header d (i + 3) = Inr True"

definition message_free :: "u8 list \<Rightarrow> bool" where
  "message_free d \<longleftrightarrow> (\<forall>i. i + h \<le> length d \<longrightarrow> \<not> message_at d i)"

lemma message_at_append:
  "i + h \<le> length xs \<Longrightarrow> message_at (xs @ ys) i = message_at xs i"
  "message_at (xs @ ys) (length xs + i) = message_at ys i"
  using four_or_five reads_here [of i xs ys] reads_there [of xs ys "i + 3"]
  by (auto simp: message_at_def add.assoc)

lemma message_straddle:
  assumes "i < length pre" and "length pre < i + h"
  shows "\<not> message_at (pre @ 0 # 0 # 1 # rest) i"
proof
  assume m: "message_at (pre @ 0 # 0 # 1 # rest) i"
  define k where "k = length pre - i"
  have k: "length pre = i + k" "0 < k" "k < h" using assms by (auto simp: k_def)
  have "(pre @ 0 # 0 # 1 # rest) ! (i + h - 1) \<noteq> 0"
    using m last_byte [of "pre @ 0 # 0 # 1 # rest" "i + 3"] by (simp add: message_at_def)
  moreover have "k = 1 \<or> k = 2 \<or> k = 3 \<or> k = 4" using k four_or_five by auto
  ultimately show False
    using m k four_or_five by (auto simp: message_at_def marker_at_def nth_append)
qed

lemma scan_sei_skip:
  assumes "\<And>j. a \<le> j \<Longrightarrow> j < k \<Longrightarrow> \<not> message_at d j" and "a \<le> k" "k + h \<le> length d" "length d < 2 ^ 32"
  shows "scan_sei_loop header h sei d (length d) a pts b = scan_sei_loop header h sei d (length d) k pts b"
  using assms(1,2)
proof (induction "k - a" arbitrary: a)
  case (Suc n)
  have a: "a < k" "a + h \<le> length d" using Suc.hyps(2) assms(3) by simp_all
  then have lt: "a < sub64 (length d) h" using assms(3,4) by simp
  obtain t where t: "header d (a + 3) = Inr t" using reads a by blast
  then have "rbind (is_nal_marker d a) (\<lambda>m. if m then header d (a + 3) else Inr False) = Inr False"
    using Suc.prems(1) [of a] a four_or_five by (cases t) (auto simp: is_nal_marker_at message_at_def)
  then obtain m where "is_nal_marker d a = Inr m" "(if m then header d (a + 3) else Inr False) = Inr False" by auto
  then have "scan_sei_loop header h sei d (length d) a pts b = scan_sei_loop header h sei d (length d) (a + 1) pts b"
    by (subst scan_sei_loop.simps) (simp only: lt if_True if_False rbind.simps append_Nil rbind_Inr_right)
  also have "\<dots> = scan_sei_loop header h sei d (length d) k pts b" by (rule Suc.hyps(1)) (use Suc in auto)
  finally show ?case .
qed simp

lemma scan_sei_none:
  assumes "\<And>j. a \<le> j \<Longrightarrow> j + h < length d \<Longrightarrow> \<not> message_at d j" and "h \<le> length d" "length d < 2 ^ 32"
  shows "scan_sei_loop header h sei d (length d) a pts b = Inr []"
proof -
  have stop: "scan_sei_loop header h sei d (length d) i pts b = Inr []" if "length d \<le> i + h" for i
  proof -
    have "\<not> i < sub64 (length d) h" using that assms(2,3) by simp
    then show ?thesis by (subst scan_sei_loop.simps) (simp only: if_False)
  qed
  show ?thesis
  proof (cases "a + h \<le> length d")
    case True
    have "scan_sei_loop header h sei d (length d) a pts b = scan_sei_loop header h sei d (length d) (length d - h) pts b"
      by (rule scan_sei_skip) (use True assms in auto)
    then show ?thesis using stop assms(2) by simp
  qed (use stop in simp)
qed

text \<open>A unit with a message.\<close>

definition message_unit :: "u8 list \<Rightarrow> u8 list" where
  "message_unit msg = own @ escape_bytes 0 msg @ [0x80]"

lemma own_bytes: "own ! 0 = 0" "own ! 1 = 0" "own ! 2 = 1" "own ! (h - 1) \<noteq> 0"
proof -
  have "own ! i = [0, 0, 1] ! i" if "i < 3" for i using that nth_take [of i 3 own] own(3) by simp
  from this [of 0] this [of 1] this [of 2] show "own ! 0 = 0" "own ! 1 = 0" "own ! 2 = 1" by simp_all
  show "own ! (h - 1) \<noteq> 0" using last_byte [of "own @ []" 3] own(1) [of "[]"] four_or_five by auto
qed

text \<open>The unit as a front of four bytes and a part in which no marker is.\<close>

lemma message_unit_front:
  obtains front seg where "message_unit msg = front @ seg @ [0x80]" and "length front = 4"
    and "front = take 4 own" and "unmarked 0 (seg @ [0x80])" and "length seg = h - 4 + length (escape_bytes 0 msg)"
proof -
  let ?e = "escape_bytes 0 msg"
  have u: "unmarked 0 (?e @ [0x80])" by (rule unmarked_stop) (rule unmarked_escape, simp)
  have "unmarked 0 ((drop 4 own @ ?e) @ [0x80])"
  proof (cases "h = 4")
    case True
    then show ?thesis using u own(2) by simp
  next
    case False
    then have h: "h = 5" using four_or_five by simp
    have "drop 4 own = [own ! 4]"
      using Cons_nth_drop_Suc [of 4 own] own(2) h by simp
    then show ?thesis using u own_bytes(4) h by simp
  qed
  moreover have "message_unit msg = take 4 own @ (drop 4 own @ ?e) @ [0x80]"
    by (simp add: message_unit_def flip: append_assoc)
  ultimately show ?thesis using that own(2) four_or_five by (auto simp: min_def)
qed

lemma no_marker_in_unit:
  assumes "length pre < j" and "j < length (pre @ message_unit msg)"
  shows "\<not> marker_at (pre @ message_unit msg @ post) j"
proof -
  obtain front seg where f: "message_unit msg = front @ seg @ [0x80]" "length front = 4" "front = take 4 own"
    "unmarked 0 (seg @ [0x80])" "length seg = h - 4 + length (escape_bytes 0 msg)" by (rule message_unit_front)
  show ?thesis
  proof (cases "length pre + 4 \<le> j")
    case True
    have "pre @ message_unit msg @ post = (pre @ front) @ (seg @ [0x80]) @ post" by (simp add: f(1))
    moreover have "\<not> marker_at ((pre @ front) @ (seg @ [0x80]) @ post) j"
      by (rule no_marker_over_stop [OF f(4)]) (use True assms f in auto)
    ultimately show ?thesis by simp
  next
    case False
    then have "j = length pre + 1 \<or> j = length pre + 2 \<or> j = length pre + 3" using assms by auto
    moreover have "(pre @ message_unit msg @ post) ! (length pre + i) = own ! i" if "i < h" for i
      using that own(2) by (simp add: nth_append message_unit_def)
    note at = this [of 1] this [of 2] this [of 3] this [of 4]
    ultimately show ?thesis
      using own_bytes four_or_five by (auto simp: marker_at_def eval_nat_numeral)
  qed
qed

lemma sei_end_found:
  assumes "post = [] \<or> framed post" and "length (pre @ message_unit msg @ post) < 2 ^ 32"
  obtains x where "sei_end (pre @ message_unit msg @ post) (length (pre @ message_unit msg @ post)) (length pre + 4) =
      Inr (length pre + length (message_unit msg) + length x)"
    and "take (length x) post = x"
proof -
  obtain front seg where f: "message_unit msg = front @ seg @ [0x80]" "length front = 4" "front = take 4 own"
    "unmarked 0 (seg @ [0x80])" "length seg = h - 4 + length (escape_bytes 0 msg)" by (rule message_unit_front)
  have d: "pre @ message_unit msg @ post = (pre @ front) @ (seg @ [0x80]) @ post" by (simp add: f(1))
  have k: "length pre + 4 = length (pre @ front)" by (simp add: f(2))
  have "find_marker (pre @ message_unit msg @ post) (length (pre @ message_unit msg @ post)) (length pre + 4) =
    Inr (if post = [] then None else Some (length pre + length (message_unit msg) + (if marker_at post 0 then 0 else 1)))"
    unfolding d k using marker_found(1) [OF f(4) assms(1), of "pre @ front"] assms(2) f(2) unfolding d
    by (auto simp: f(1))
  moreover have "1 \<le> length post" if "post \<noteq> []" using that by (cases post) auto
  ultimately show ?thesis
    using assms(2) by (intro that [of "if post = [] \<or> marker_at post 0 then [] else take 1 post"]) (auto simp: sei_end_def)
qed

text \<open>
  The scan of an access unit with one message calls the extractor once, on the message; \<open>P\<close> is what
  the extractor makes of any decoder that carries the message.
\<close>

lemma scan_sei_message:
  assumes free: "message_free (pre @ post)" and post: "post = [] \<or> framed post"
    and size: "length (pre @ message_unit msg @ post) < 2 ^ 32"
    and found: "\<And>data n rest. carried (rbsp_new data n True) msg rest \<Longrightarrow> length msg \<le> n \<Longrightarrow>
      \<exists>pkt. sei data n True pts b = Inr [(pkt, idr)] \<and> P pkt"
  shows "\<exists>pkt. scan_sei_loop header h sei (pre @ message_unit msg @ post) (length (pre @ message_unit msg @ post)) 0 pts b =
    Inr [(pkt, idr)] \<and> P pkt"
proof -
  let ?u = "message_unit msg" and ?k = "length pre" and ?e = "escape_bytes 0 msg"
  let ?d = "pre @ ?u @ post"
  have lu: "length ?u = h + length ?e + 1" by (simp add: message_unit_def own(2))
  obtain tail where u: "?u = 0 # 0 # 1 # tail"
    using own(3) append_take_drop_id [of 3 own] by (simp add: message_unit_def) (metis append_Cons append_Nil append_assoc)
  have before: "\<not> message_at ?d j" if "j < ?k" for j
  proof (cases "j + h \<le> ?k")
    case True
    then have "\<not> message_at (pre @ post) j" using free by (simp add: message_free_def)
    then show ?thesis using True message_at_append(1) [of j pre] by simp
  next
    case False
    then show ?thesis using message_straddle [OF that, of "tail @ post"] by (simp add: u)
  qed
  have "header ?d (?k + 3) = Inr True"
    using own(1) [of "?e @ [0x80] @ post"] by (simp add: reads_there message_unit_def)
  moreover have "marker_at (?u @ post) 0" by (simp add: u marker_at_def)
  then have "marker_at ?d ?k" by (simp only: marker_at_append)
  ultimately have at: "message_at ?d ?k" by (simp add: message_at_def)
  have after: "\<not> message_at ?d j" if j: "?k < j" "j + h < length ?d" for j
  proof (cases "j < length (pre @ ?u)")
    case True
    then show ?thesis using no_marker_in_unit [OF j(1)] by (simp add: message_at_def)
  next
    case False
    then obtain i where i: "j = length (pre @ ?u) + i" by (metis le_iff_add not_less)
    then have "\<not> message_at (pre @ post) (?k + i)" using free j(2) by (simp add: message_free_def)
    then have "\<not> message_at post i" by (simp add: message_at_append(2))
    then show ?thesis unfolding i using message_at_append(2) [of "pre @ ?u" post i] by simp
  qed
  obtain x where x: "sei_end ?d (length ?d) (?k + 4) = Inr (?k + length ?u + length x)" "take (length x) post = x"
    by (rule sei_end_found [OF post size])
  have "length x \<le> length post" using arg_cong [OF x(2), of length] by simp
  have drp: "drop (?k + h) ?d = ?e @ [0x80] @ post" by (simp add: message_unit_def own(2))
  have len: "sub32 (?k + length ?u + length x) (?k + h) = length ?e + 1 + length x"
    using size lu \<open>length x \<le> length post\<close> by simp
  let ?r = "rbsp_new (?e @ [0x80] @ post) (length ?e + 1 + length x) True"
  have "rbsp_pending ?r = ?e @ 0x80 # x" using x(2) by (simp add: rbsp_pending_def rbsp_new_def)
  then have "carried ?r msg (0x80 # x)"
    using \<open>length x \<le> length post\<close> by (auto simp: carried_def rbsp_new_def rbsp_wf_def intro!: exI [of _ 0])
  then obtain pkt where pkt: "sei (?e @ [0x80] @ post) (length ?e + 1 + length x) True pts b = Inr [(pkt, idr)]" "P pkt"
    using found length_escape [of msg 0] by (meson le_trans trans_le_add1)
  have "scan_sei_loop header h sei ?d (length ?d) 0 pts b = scan_sei_loop header h sei ?d (length ?d) ?k pts b"
    by (rule scan_sei_skip) (use before lu size in auto)
  also have "\<dots> = Inr ([(pkt, idr)] @ [])"
  proof -
    have lt: "?k < sub64 (length ?d) h" using lu size by simp
    have m: "is_nal_marker ?d ?k = Inr True" "header ?d (?k + 3) = Inr True"
      using at lu four_or_five by (auto simp: message_at_def is_nal_marker_at)
    have "scan_sei_loop header h sei ?d (length ?d) (?k + 1) pts b = Inr []"
      by (rule scan_sei_none) (use after lu size in auto)
    then show ?thesis
      by (subst scan_sei_loop.simps) (simp only: lt if_True m rbind.simps x(1) drp len pkt(1))
  qed
  finally show ?thesis using pkt(2) by simp
qed

end


interpretation avc: sei_header avc_sei_header 4 "[0x00, 0x00, 0x01, 0x06]"
  by unfold_locales (auto simp: avc_sei_header_def byte_of_def nth_append split: if_splits)

interpretation hevc: sei_header hevc_sei_header 5 "[0x00, 0x00, 0x01, 0x4e, 0x01]"
  by unfold_locales (auto simp: hevc_sei_header_def byte_of_def nth_append split: if_splits)

definition vvc_sei_bytes :: "u32 \<Rightarrow> u8 list" where
  "vvc_sei_bytes t = [0x00, 0x00, 0x01, 0x00, 0xb8 OR ucast (t + 1) AND 7]"

lemma vvc_header_byte: "(0xb8 OR b AND 7) AND 0xf8 = (0xb8 :: u8)"
proof -
  have "(7 :: u8) AND 0xf8 = 0" "(0xb8 :: u8) AND 0xf8 = 0xb8" by simp_all
  then show ?thesis by (simp only: bit.conj_disj_distrib2 and.assoc) simp
qed

interpretation vvc: sei_header vvc_sei_header 5 "vvc_sei_bytes t" for t
  by unfold_locales
    (auto simp: vvc_sei_header_def vvc_sei_bytes_def byte_of_def nth_append vvc_header_byte split: if_splits)

end
