(* ===== verification/ScanProperties.thy ===== *)
theory ScanProperties
  imports ScanMessages
begin

text \<open>
  From the packet of the encoder through an access unit of the base stream to the callback of the
  decoder, for the base codecs whose units begin with markers.
\<close>

section \<open>The unit of an encapsulation\<close>

lemma length_escape_le: "length (escape_bytes z bs) \<le> 2 * length bs"
  by (induction bs arbitrary: z) (auto simp: Let_def intro: le_SucI)

text \<open>The message that an SEI unit holds, and the unit.\<close>

definition message_of :: "encapsulation \<Rightarrow> bool \<Rightarrow> u8 list \<Rightarrow> u8 list" where
  "message_of encapsulation idr bs =
     (if encapsulation = Encapsulation_SEI_Registered then sei_message 4 sei_code (lcevc_unit idr bs)
      else sei_message 5 sei_uuid bs)"

lemma enhancement_unit_nal:
  assumes "packet_view payload = Inr bs" and "encapsulation = Encapsulation_None \<or> encapsulation = Encapsulation_NAL"
  obtains u where "enhancement_unit t header encapsulation idr payload = Some (Inr u)" and "nu_data u = lcevc_unit idr bs"
  using assms build_nalu_bytes [OF assms(1), of idr] by (auto simp: enhancement_unit_def)

lemma enhancement_unit_sei:
  assumes "packet_view payload = Inr bs" and "packet_wf payload" and "2 * length bs + 20 < 2 ^ 32"
    and "encapsulation = Encapsulation_SEI_Registered \<or> encapsulation = Encapsulation_SEI_Unregistered"
  obtains u where "enhancement_unit t header encapsulation idr payload = Some (Inr u)"
    and "nu_data u = header @ escape_bytes 0 (message_of encapsulation idr bs) @ [0x80]"
proof -
  have "\<exists>sei. packet_view sei = Inr (message_of encapsulation idr bs) \<and>
    enhancement_unit t header encapsulation idr payload =
      run_bind (Some (rbsp_encapsulate sei)) (\<lambda>rbsp. Some (unit_of t header rbsp))"
  proof (cases "encapsulation = Encapsulation_SEI_Registered")
    case True
    obtain q where q: "packet_of (lcevc_unit idr bs) = Inr q" "packet_view q = Inr (lcevc_unit idr bs)" "packet_wf q"
      using packet_of_bytes by blast
    obtain p where "registered_sei_payload q = Some (Inr p)" "packet_view p = Inr (sei_message 4 sei_code (lcevc_unit idr bs))"
      by (rule registered_payload_bytes [OF q(2,3)]) (use length_escape_le [of 0 bs] assms(3) in \<open>simp_all add: length_lcevc_unit\<close>)
    then show ?thesis using True q build_nalu_bytes [OF assms(1), of idr]
      by (auto simp: enhancement_unit_def message_of_def)
  next
    case False
    obtain p where "unregistered_sei_payload payload = Some (Inr p)" "packet_view p = Inr (sei_message 5 sei_uuid bs)"
      by (rule unregistered_payload_bytes [OF assms(1,2)]) (use assms(3) in simp_all)
    then show ?thesis using False assms(4) by (auto simp: enhancement_unit_def message_of_def)
  qed
  then obtain sei where sei: "packet_view sei = Inr (message_of encapsulation idr bs)"
    "enhancement_unit t header encapsulation idr payload =
      run_bind (Some (rbsp_encapsulate sei)) (\<lambda>rbsp. Some (unit_of t header rbsp))" by blast
  obtain q where "rbsp_encapsulate sei = Inr q" "packet_view q = Inr (escape_bytes 0 (message_of encapsulation idr bs) @ [0x80])"
    by (rule rbsp_encapsulate_bytes [OF sei(1)])
  with sei(2) that show ?thesis by (simp add: unit_of_def)
qed

text \<open>The header of an SEI unit that a codec's subclass writes.\<close>

definition sei_bytes :: "base_coding \<Rightarrow> access_unit \<Rightarrow> u8 list" where
  "sei_bytes base au = (case base of
     BaseCoding_AVC \<Rightarrow> [0x00, 0x00, 0x01, 0x06]
   | BaseCoding_VVC \<Rightarrow> vvc_sei_bytes (au_temporal_id au)
   | _ \<Rightarrow> [0x00, 0x00, 0x01, 0x4e, 0x01])"

lemma low_byte:
  assumes "t < (7 :: u32)"
  shows "0xb8 OR ucast (t + 1) AND 7 = 0xb8 OR (ucast (t + 1) :: u8)"
proof -
  define n where "n = unat t"
  have "t = word_of_nat n" "n < 7" using assms by (simp_all add: n_def word_less_nat_alt)
  moreover from this(2) have "n = 0 \<or> n = 1 \<or> n = 2 \<or> n = 3 \<or> n = 4 \<or> n = 5 \<or> n = 6" by auto
  ultimately show ?thesis by (elim disjE) simp_all
qed

lemma add_enhancement_unit:
  assumes "base \<in> {BaseCoding_AVC, BaseCoding_HEVC, BaseCoding_X265, BaseCoding_VVC}" and "au_temporal_id au < 7"
    and u: "\<And>t header. header = sei_bytes base au \<Longrightarrow> \<exists>u. enhancement_unit t header encapsulation idr payload = Some (Inr u) \<and> nu_data u = d"
    and framed: "\<forall>u \<in> set (au_nal_units au). framed (nu_data u)"
  obtains au' pre post where "add_enhancement base encapsulation idr payload au = Some (Inr (au', length d))"
    and "au_bytes au = pre @ post" and "post = [] \<or> framed post" and "au_bytes au' = pre @ d @ post"
proof -
  have "\<exists>skip t. add_enhancement base encapsulation idr payload au =
     run_bind (enhancement_unit t (sei_bytes base au) encapsulation idr payload) (\<lambda>u. Some (Inr (insert_unit skip u au)))"
    using assms(1,2) low_byte [of "au_temporal_id au"]
    by (auto simp: add_enhancement_def add_enhancement_avc_def add_enhancement_hevc_def add_enhancement_x265_def
        add_enhancement_vvc_def sei_bytes_def vvc_sei_bytes_def) blast+
  then obtain skip t where add: "add_enhancement base encapsulation idr payload au =
     run_bind (enhancement_unit t (sei_bytes base au) encapsulation idr payload) (\<lambda>u. Some (Inr (insert_unit skip u au)))" by blast
  obtain v where v: "enhancement_unit t (sei_bytes base au) encapsulation idr payload = Some (Inr v)" "nu_data v = d"
    using u by blast
  obtain pre post where "au_bytes au = pre @ post" "post = [] \<or> framed post"
    "au_bytes (fst (insert_unit skip v au)) = pre @ nu_data v @ post" by (rule insert_unit_bytes [OF framed])
  moreover have "snd (insert_unit skip v au) = length d" by (simp add: insert_unit_def Let_def v(2))
  ultimately show ?thesis using that add v by (cases "insert_unit skip v au") auto
qed

section \<open>NAL units\<close>

text \<open>The coding whose scan reads the streams of an encoder.\<close>

definition scanned_as :: "base_coding \<Rightarrow> base_coding" where
  "scanned_as base = (if base = BaseCoding_X265 then BaseCoding_HEVC else base)"

text \<open>
  C7: A packet that the encoder puts into an access unit as a NAL unit comes out of the scan of that
  access unit, byte for byte, with its time stamp and its kind, and what the scan leaves are the bytes of the base
  stream. The base units begin with markers and none of them looks like a unit of enhancement.
\<close>

theorem nal_roundtrip:
  assumes "base \<in> {BaseCoding_AVC, BaseCoding_HEVC, BaseCoding_X265, BaseCoding_VVC}"
    and "encapsulation \<in> {Encapsulation_None, Encapsulation_NAL}"
    and "packet_view payload = Inr bs"
    and "au_nal_units au \<noteq> []" and "\<forall>u \<in> set (au_nal_units au). framed (nu_data u)" and "unit_free (au_bytes au)"
    and "au_temporal_id au < 7"
    and "length (au_bytes au) + 2 * length bs + 6 < 2 ^ 32"
  shows "\<exists>au' n data pkt. add_enhancement base encapsulation is_idr payload au = Some (Inr (au', n)) \<and>
    scan_enhancement (au_bytes au') (length (au_bytes au')) encapsulation (scanned_as base) pts is_base_idr =
      Some (Inr (data, length (au_bytes au), [(pkt, is_idr)])) \<and>
    take (length (au_bytes au)) data = au_bytes au \<and> packet_view pkt = Inr bs \<and> pkt_timestamp pkt = pts"
proof -
  have "\<exists>u. enhancement_unit t header encapsulation is_idr payload = Some (Inr u) \<and> nu_data u = lcevc_unit is_idr bs" for t header
    using enhancement_unit_nal [OF assms(3), of encapsulation t header is_idr] assms(2) by auto
  then obtain au' pre post where au': "add_enhancement base encapsulation is_idr payload au = Some (Inr (au', length (lcevc_unit is_idr bs)))"
    "au_bytes au = pre @ post" "post = [] \<or> framed post" "au_bytes au' = pre @ lcevc_unit is_idr bs @ post"
    using add_enhancement_unit [OF assms(1,7) _ assms(5)] by metis
  obtain v vs where "au_nal_units au = v # vs" "framed (nu_data v)" using assms(4,5) by (cases "au_nal_units au") auto
  then have "4 \<le> length (pre @ post)" unfolding au'(2) [symmetric] by (simp add: au_bytes_def framed_def)
  then obtain stale pkt where "scan_enhancement_nal (au_bytes au') (length (au_bytes au')) pts =
    Inr (pre @ post @ stale, length (pre @ post), [(pkt, is_idr)])" "holds pkt bs pts"
    using scan_nal_unit [of pre post is_idr bs pts] assms(6,8) au' length_escape_le [of 0 bs] by (auto simp: length_lcevc_unit)
  moreover have "scan_enhancement d s encapsulation (scanned_as base) pts is_base_idr = Some (scan_enhancement_nal d s pts)" for d s
    using assms(1,2) by (auto simp: scan_enhancement_def scanned_as_def)
  ultimately show ?thesis using au'(1,2) by (auto simp: holds_def)
qed


section \<open>SEI messages\<close>

text \<open>The test of a header in the scan of a coding, with the length of marker and header.\<close>

definition sei_test :: "base_coding \<Rightarrow> (u8 list \<Rightarrow> nat \<Rightarrow> bool result) \<times> nat" where
  "sei_test base = (case base of
     BaseCoding_AVC \<Rightarrow> (avc_sei_header, 4) | BaseCoding_HEVC \<Rightarrow> (hevc_sei_header, 5) | _ \<Rightarrow> (vvc_sei_header, 5))"

text \<open>No SEI unit starts in the bytes.\<close>

definition sei_free :: "base_coding \<Rightarrow> u8 list \<Rightarrow> bool" where
  "sei_free base d \<longleftrightarrow>
     (\<forall>i. i + snd (sei_test base) \<le> length d \<longrightarrow> \<not> (marker_at d i \<and> fst (sei_test base) d (i + 3) = Inr True))"

lemma sei_free_iff:
  "sei_free BaseCoding_AVC d = avc.message_free d" "sei_free BaseCoding_HEVC d = hevc.message_free d"
  "sei_free BaseCoding_VVC d = vvc.message_free d"
  by (simp_all add: sei_free_def sei_test_def avc.message_free_def avc.message_at_def hevc.message_free_def
      hevc.message_at_def vvc.message_free_def vvc.message_at_def)

text \<open>The extractor of an encapsulation, on any decoder that carries its message.\<close>

definition extractor :: "encapsulation \<Rightarrow> sei" where
  "extractor encapsulation = (if encapsulation = Encapsulation_SEI_Registered then registered_sei else unregistered_sei)"

lemma length_sei_message: "length code + length bs \<le> length (sei_message t code bs)"
  by (simp add: sei_message_def)

lemma extract_message:
  assumes "carried (rbsp_new data n True) (message_of encapsulation idr bs) rest" and "length (message_of encapsulation idr bs) \<le> n"
    and "2 * length bs + 6 < 2 ^ 32"
  shows "\<exists>pkt. extractor encapsulation data n True pts base_idr =
      Inr [(pkt, if encapsulation = Encapsulation_SEI_Registered then idr else base_idr)] \<and> holds pkt bs pts"
proof (cases "encapsulation = Encapsulation_SEI_Registered")
  case True
  have "length (lcevc_unit idr bs) < 2 ^ 32" using assms(3) length_escape_le [of 0 bs] by (simp add: length_lcevc_unit)
  then show ?thesis
    using registered_extract [of data n True idr bs rest pts base_idr] assms length_sei_message [of sei_code "lcevc_unit idr bs" 4] True
    by (simp add: message_of_def extractor_def)
next
  case False
  then show ?thesis
    using unregistered_extract [of data n True bs rest pts base_idr] assms length_sei_message [of sei_uuid bs 5]
    by (simp add: message_of_def extractor_def)
qed

lemma scan_message:
  assumes "base \<in> {BaseCoding_AVC, BaseCoding_HEVC, BaseCoding_X265, BaseCoding_VVC}"
    and "encapsulation \<in> {Encapsulation_SEI_Registered, Encapsulation_SEI_Unregistered}"
    and "sei_free (scanned_as base) (pre @ post)" and "post = [] \<or> framed post"
    and "length (pre @ (sei_bytes base au @ escape_bytes 0 (message_of encapsulation idr bs) @ [0x80]) @ post) < 2 ^ 32"
    and "2 * length bs + 6 < 2 ^ 32"
  shows "\<exists>pkt. scan_enhancement (pre @ (sei_bytes base au @ escape_bytes 0 (message_of encapsulation idr bs) @ [0x80]) @ post)
      (length (pre @ (sei_bytes base au @ escape_bytes 0 (message_of encapsulation idr bs) @ [0x80]) @ post)) encapsulation (scanned_as base) pts base_idr =
    Some (Inr (pre @ (sei_bytes base au @ escape_bytes 0 (message_of encapsulation idr bs) @ [0x80]) @ post,
      length (pre @ (sei_bytes base au @ escape_bytes 0 (message_of encapsulation idr bs) @ [0x80]) @ post),
      [(pkt, if encapsulation = Encapsulation_SEI_Registered then idr else base_idr)])) \<and> holds pkt bs pts"
proof -
  let ?flag = "if encapsulation = Encapsulation_SEI_Registered then idr else base_idr"
  let ?msg = "message_of encapsulation idr bs"
  define d where "d = pre @ (sei_bytes base au @ escape_bytes 0 ?msg @ [0x80]) @ post"
  have small: "length d < 2 ^ 32" using assms(5) by (simp only: d_def)
  note ext = extract_message [OF _ _ assms(6), of _ _ encapsulation idr _ pts base_idr]
  consider (avc) "base = BaseCoding_AVC" | (hevc) "base = BaseCoding_HEVC \<or> base = BaseCoding_X265" | (vvc) "base = BaseCoding_VVC"
    using assms(1) by auto
  then have "\<exists>pkt. scan_enhancement d (length d) encapsulation (scanned_as base) pts base_idr = Some (Inr (d, length d, [(pkt, ?flag)])) \<and> holds pkt bs pts"
  proof cases
    case avc
    have d: "d = pre @ avc.message_unit ?msg @ post" by (simp add: d_def avc.message_unit_def sei_bytes_def avc)
    obtain pkt where "scan_sei_loop avc_sei_header 4 (extractor encapsulation) d (length d) 0 pts base_idr = Inr [(pkt, ?flag)]" "holds pkt bs pts"
      using avc.scan_sei_message [of pre post ?msg "extractor encapsulation" pts base_idr ?flag "\<lambda>pkt. holds pkt bs pts"]
        ext assms(3,4) small unfolding d by (auto simp: scanned_as_def sei_free_iff avc)
    then show ?thesis using assms(2) avc
      by (auto simp: scan_enhancement_def scanned_as_def scan_enhancement_sei_avc_def extractor_def)
  next
    case hevc
    have d: "d = pre @ hevc.message_unit ?msg @ post" using hevc by (auto simp: d_def hevc.message_unit_def sei_bytes_def)
    obtain pkt where "scan_sei_loop hevc_sei_header 5 (extractor encapsulation) d (length d) 0 pts base_idr = Inr [(pkt, ?flag)]" "holds pkt bs pts"
      using hevc.scan_sei_message [of pre post ?msg "extractor encapsulation" pts base_idr ?flag "\<lambda>pkt. holds pkt bs pts"]
        ext assms(3,4) small hevc unfolding d by (auto simp: scanned_as_def sei_free_iff)
    then show ?thesis using assms(2) hevc
      by (auto simp: scan_enhancement_def scanned_as_def scan_enhancement_sei_hevc_def extractor_def)
  next
    case vvc
    have d: "d = pre @ vvc.message_unit (au_temporal_id au) ?msg @ post" by (simp add: d_def vvc.message_unit_def sei_bytes_def vvc)
    obtain pkt where "scan_sei_loop vvc_sei_header 5 (extractor encapsulation) d (length d) 0 pts base_idr = Inr [(pkt, ?flag)]" "holds pkt bs pts"
      using vvc.scan_sei_message [of pre post "au_temporal_id au" ?msg "extractor encapsulation" pts base_idr ?flag "\<lambda>pkt. holds pkt bs pts"]
        ext assms(3,4) small unfolding d by (auto simp: scanned_as_def sei_free_iff vvc)
    then show ?thesis using assms(2) vvc
      by (auto simp: scan_enhancement_def scanned_as_def scan_enhancement_sei_vvc_def extractor_def)
  qed
  then show ?thesis by (simp only: d_def)
qed

text \<open>
  C8: A packet that the encoder puts into an access unit as an SEI message, registered or not, comes
  out of the scan byte for byte with its time stamp; its kind is that of the unit inside the message, or, without one, that of the
  base picture. The access unit is left as it is. No base unit is an SEI unit.
\<close>

theorem sei_roundtrip:
  assumes "base \<in> {BaseCoding_AVC, BaseCoding_HEVC, BaseCoding_X265, BaseCoding_VVC}"
    and "encapsulation \<in> {Encapsulation_SEI_Registered, Encapsulation_SEI_Unregistered}"
    and "packet_view payload = Inr bs" and "packet_wf payload"
    and "\<forall>u \<in> set (au_nal_units au). framed (nu_data u)" and "sei_free (scanned_as base) (au_bytes au)"
    and "au_temporal_id au < 7"
    and "length (au_bytes au) + 6 * length bs + 100 < 2 ^ 32"
  shows "\<exists>au' n pkt. add_enhancement base encapsulation is_idr payload au = Some (Inr (au', n)) \<and>
    scan_enhancement (au_bytes au') (length (au_bytes au')) encapsulation (scanned_as base) pts is_base_idr =
      Some (Inr (au_bytes au', length (au_bytes au'),
        [(pkt, if encapsulation = Encapsulation_SEI_Registered then is_idr else is_base_idr)])) \<and>
    packet_view pkt = Inr bs \<and> pkt_timestamp pkt = pts"
proof -
  let ?d = "sei_bytes base au @ escape_bytes 0 (message_of encapsulation is_idr bs) @ [0x80]"
  have "\<exists>u. enhancement_unit t header encapsulation is_idr payload = Some (Inr u) \<and> nu_data u = ?d"
    if "header = sei_bytes base au" for t header
    using enhancement_unit_sei [OF assms(3,4), of encapsulation t header is_idr] assms(2,8) that by auto
  then obtain au' pre post where au': "add_enhancement base encapsulation is_idr payload au = Some (Inr (au', length ?d))"
    "au_bytes au = pre @ post" "post = [] \<or> framed post" "au_bytes au' = pre @ ?d @ post"
    using add_enhancement_unit [OF assms(1,7) _ assms(5)] by metis
  have "length (sei_message t code cs) = length code + length cs + 2 + (length code + length cs) div 255" for t code and cs :: "u8 list"
    by (simp add: sei_message_def ff_bytes_def)
  then have "length (message_of encapsulation is_idr bs) \<le> 3 * length bs + 20"
    using length_escape_le [of 0 bs] by (auto simp: message_of_def length_lcevc_unit)
  then have "length ?d \<le> 6 * length bs + 46"
    using length_escape_le [of 0 "message_of encapsulation is_idr bs"] by (auto simp: sei_bytes_def vvc_sei_bytes_def split: base_coding.splits)
  then have "length (au_bytes au') < 2 ^ 32" using au'(2,4) assms(8) by simp
  then show ?thesis
    using scan_message [OF assms(1,2), of pre post au is_idr bs pts is_base_idr] assms(6,8) au' by (auto simp: holds_def)
qed


section \<open>A unit on its own\<close>

lemma no_marker_behind:
  assumes "0 < i" and "i < length (lcevc_unit idr bs)"
  shows "is_nal_marker (lcevc_unit idr bs) i = Inr False"
proof -
  let ?d = "lcevc_unit idr bs"
  have stop: "?d ! (length ?d - 1) = 0x80" by (simp add: lcevc_unit_def nth_append)
  have small: "i = 1 \<or> i = 2 \<or> i = 3 \<or> 4 \<le> i" using assms(1) by linarith
  define front where "front = [0x00, 0x00, 0x01, if idr then 0x7b else 0x79 :: u8]"
  have front: "?d = front @ ((0xff # escape_bytes 0 bs) @ [0x80]) @ []" "length front = 4"
    by (simp_all add: lcevc_unit_def front_def)
  have "\<not> marker_at ?d i" if "4 \<le> i"
    using no_marker_over_stop [OF unmarked_payload [of bs], of front i "[]"] that front assms(2) by simp
  moreover have "?d ! 1 = 0 \<and> ?d ! 2 = 1 \<and> ?d ! 3 \<noteq> 0" by (simp add: lcevc_unit_def)
  ultimately have no: "\<not> marker_at ?d i" using small by (auto simp: marker_at_def eval_nat_numeral)
  consider "i + 2 < length ?d" | "i = length ?d - 1" | "i = length ?d - 2" using assms(2) by linarith
  then show ?thesis
  proof cases
    case 1
    then show ?thesis using no by (simp add: is_nal_marker_at)
  next
    case 2
    then show ?thesis using stop assms(2) by (simp add: is_nal_marker_def byte_of_def)
  next
    case 3
    then have "i + 1 = length ?d - 1" "i + 1 < length ?d" using assms(2) by (simp_all add: length_lcevc_unit)
    then show ?thesis using stop assms(2) by (simp add: is_nal_marker_def byte_of_def)
  qed
qed

text \<open>
  C34: An access unit that holds nothing but a unit of enhancement, as in a stream without a base
  codec, makes the scan read outside the vector: when the unit is cut out the size is zero and
  the bound of the loop, \<open>data_size - 4\<close>, wraps.
\<close>

theorem lone_unit_read_outside:
  assumes "packet_view payload = Inr bs" and "length (lcevc_unit is_idr bs) < 2 ^ 32"
  shows "\<exists>u. build_nalu is_idr payload = Some (Inr u) \<and>
    scan_enhancement (nu_data u) (length (nu_data u)) Encapsulation_None BaseCoding_YUV pts is_base_idr = Some (Inl OutOfRange)"
proof -
  let ?d = "lcevc_unit is_idr bs"
  have wrapped: "i < sub64 0 4" if "i < 2 ^ 32" for i using that by (simp add: sub64_def)
  have outside: "scan_nal_loop ?d 0 i pts cs = Inl OutOfRange" if "0 < i" "i \<le> length ?d" for i cs
    using that
  proof (induction "length ?d - i" arbitrary: i)
    case 0
    then have i: "i = length ?d" by simp
    then have "lcevc_nal_at ?d i = Inl OutOfRange" by (simp add: lcevc_nal_at_def is_nal_marker_def byte_of_def)
    with wrapped [of i] assms(2) i show ?case by (subst scan_nal_loop.simps) simp
  next
    case (Suc n)
    then have "i < length ?d" by simp
    then have "lcevc_nal_at ?d i = Inr None" using no_marker_behind Suc.prems(1) by (simp add: lcevc_nal_at_def)
    moreover have "scan_nal_loop ?d 0 (i + 1) pts cs = Inl OutOfRange" by (rule Suc.hyps(1)) (use Suc in auto)
    moreover have "i < sub64 0 4" using wrapped \<open>i < length ?d\<close> assms(2) by simp
    ultimately show ?case by (subst scan_nal_loop.simps) simp
  qed
  obtain pkt t where at: "0 < sub64 (length ?d) 4" "lcevc_nal_at ?d 0 = Inr (Some t)" "nal_end ?d (length ?d) (0 + 4) = Inr (length ?d)"
    "extract_enhancement_nal (drop (0 + 5) ?d) (sub32 (length ?d) (0 + 5)) True pts (t = LCEVC_IDR) = Inr (pkt, is_idr)"
    by (rule lone_unit [OF assms(2)])
  have rem: "sub64 (length ?d) (length ?d) = 0" "sub64 (length ?d + 0) (length ?d) = 0" using assms by simp_all
  have mv: "move_bytes ?d 0 (length ?d) 0 = Inr ?d" by (simp add: move_bytes_def)
  have "scan_nal_loop ?d (length ?d) 0 pts [] = scan_nal_loop ?d 0 (0 + 1) pts ([] @ [(pkt, is_idr)])"
    by (subst scan_nal_loop.simps) (simp only: if_True at rbind.simps option.case rem mv)
  also have "\<dots> = Inl OutOfRange" by (rule outside) (simp_all add: length_lcevc_unit)
  finally show ?thesis using build_nalu_bytes [OF assms(1), of is_idr] by (simp add: scan_enhancement_def scan_enhancement_nal_def)
qed

section \<open>Concrete access units\<close>

definition demo_payload :: packet where
  "demo_payload = \<lparr>pkt_name = [], pkt_timestamp = 0, pkt_buffer = Some [0, 0, 1, 2], pkt_offset = 0, pkt_size = 4\<rparr>"

definition demo_unit :: "nal_unit list \<Rightarrow> access_unit" where
  "demo_unit us = \<lparr>au_poc = 0, au_qp = 30, au_picture_type = Pict_IDR, au_temporal_id = 0, au_nal_units = us, au_size = 0\<rparr>"

definition demo_avc :: access_unit where
  "demo_avc = demo_unit [\<lparr>nu_type = 7, nu_data = [0, 0, 0, 1, 0x67, 0x42]\<rparr>, \<lparr>nu_type = 5, nu_data = [0, 0, 1, 0x65, 0x88]\<rparr>]"

lemma demo_payload: "packet_view demo_payload = Inr [0, 0, 1, 2]" "packet_wf demo_payload"
  by (simp_all add: demo_payload_def packet_view_def buffer_map_def packet_wf_def)

lemma demo_avc_bytes: "au_bytes demo_avc = [0, 0, 0, 1, 0x67, 0x42, 0, 0, 1, 0x65, 0x88]"
  by (simp add: au_bytes_def demo_avc_def demo_unit_def)

lemma demo_avc_markers: "i < 9 \<Longrightarrow> marker_at (au_bytes demo_avc) i \<longleftrightarrow> i = 1 \<or> i = 6"
proof -
  assume "i < 9"
  then have "i = 0 \<or> i = 1 \<or> i = 2 \<or> i = 3 \<or> i = 4 \<or> i = 5 \<or> i = 6 \<or> i = 7 \<or> i = 8" by auto
  then show ?thesis by (elim disjE) (simp_all add: demo_avc_bytes marker_at_def)
qed

lemma demo_avc: "unit_free (au_bytes demo_avc)" "sei_free BaseCoding_AVC (au_bytes demo_avc)"
  "\<forall>u \<in> set (au_nal_units demo_avc). framed (nu_data u)" "au_nal_units demo_avc \<noteq> []" "au_temporal_id demo_avc = 0"
  "length (au_bytes demo_avc) = 11"
proof -
  show "unit_free (au_bytes demo_avc)" unfolding unit_free_at
  proof (intro allI impI)
    fix i assume "i + 4 < length (au_bytes demo_avc)"
    then have "i < 9" by (simp add: demo_avc_bytes)
    from demo_avc_markers [OF this] show "\<not> unit_at (au_bytes demo_avc) i"
      by (auto simp: unit_at_def) (simp_all add: demo_avc_bytes)
  qed
  show "sei_free BaseCoding_AVC (au_bytes demo_avc)" unfolding sei_free_def
  proof (intro allI impI)
    fix i assume "i + snd (sei_test BaseCoding_AVC) \<le> length (au_bytes demo_avc)"
    then have "i < 9" by (simp add: demo_avc_bytes sei_test_def)
    from demo_avc_markers [OF this]
    show "\<not> (marker_at (au_bytes demo_avc) i \<and> fst (sei_test BaseCoding_AVC) (au_bytes demo_avc) (i + 3) = Inr True)"
      by (auto simp: sei_test_def) (simp_all add: demo_avc_bytes avc_sei_header_def byte_of_def)
  qed
qed (simp_all add: demo_avc_def demo_unit_def framed_def marker_at_def au_bytes_def)

theorem nal_roundtrip_witness:
  "\<exists>au' n data pkt. add_enhancement BaseCoding_AVC Encapsulation_NAL True demo_payload demo_avc = Some (Inr (au', n)) \<and>
    scan_enhancement (au_bytes au') (length (au_bytes au')) Encapsulation_NAL (scanned_as BaseCoding_AVC) 7 True =
      Some (Inr (data, length (au_bytes demo_avc), [(pkt, True)])) \<and>
    take (length (au_bytes demo_avc)) data = au_bytes demo_avc \<and> packet_view pkt = Inr [0, 0, 1, 2] \<and> pkt_timestamp pkt = 7"
  by (rule nal_roundtrip [OF _ _ demo_payload(1) demo_avc(4,3,1)]) (simp_all add: demo_avc)

theorem sei_roundtrip_witness:
  "\<exists>au' n pkt. add_enhancement BaseCoding_AVC Encapsulation_SEI_Registered True demo_payload demo_avc = Some (Inr (au', n)) \<and>
    scan_enhancement (au_bytes au') (length (au_bytes au')) Encapsulation_SEI_Registered BaseCoding_AVC 7 False =
      Some (Inr (au_bytes au', length (au_bytes au'), [(pkt, True)])) \<and>
    packet_view pkt = Inr [0, 0, 1, 2] \<and> pkt_timestamp pkt = 7"
  using sei_roundtrip [OF _ _ demo_payload demo_avc(3), of BaseCoding_AVC Encapsulation_SEI_Registered True 7 False]
  by (simp add: demo_avc scanned_as_def)

theorem lone_unit_read_outside_witness:
  "\<exists>u. build_nalu True demo_payload = Some (Inr u) \<and>
    scan_enhancement (nu_data u) (length (nu_data u)) Encapsulation_None BaseCoding_YUV 7 True = Some (Inl OutOfRange)"
  by (rule lone_unit_read_outside [OF demo_payload(1)]) (simp add: length_lcevc_unit)

end
