(* ===== verification/ScanLengths.thy ===== *)
theory ScanLengths
  imports ScanProperties
begin

text \<open>
  EVC, whose units begin with their length: a unit of enhancement is found and cut out, though never
  as that of an IDR picture, and an SEI message is never found.
\<close>

section \<open>Units with a length\<close>

lemma bytes_of_length_eq: "bytes_of_length n = [word_of_nat n, word_of_nat (n div 256), word_of_nat (n div 65536), word_of_nat (n div 16777216)]"
  by (simp add: bytes_of_length_def upt_rec)

lemma length_from_bytes:
  fixes n :: nat
  assumes "n < 2 ^ 32"
  shows "n mod 256 + 256 * (n div 256 mod 256) + 65536 * (n div 65536 mod 256) + 16777216 * (n div 16777216 mod 256) = n"
proof -
  have "n div 16777216 < 256" using assms by (simp add: less_mult_imp_div_less)
  then have "n div 16777216 mod 256 = n div 16777216" by simp
  moreover have "n = 16777216 * (n div 16777216) + n mod 16777216" by simp
  moreover have "n mod 16777216 = 65536 * (n div 65536 mod 256) + n mod 65536" "n mod 65536 = 256 * (n div 256 mod 256) + n mod 256"
    using mod_mult2_eq [of n 65536 256] mod_mult2_eq [of n 256 256] by simp_all
  ultimately show ?thesis by linarith
qed

lemma byte_of_append: "i < length xs \<Longrightarrow> byte_of (pre @ xs @ post) (length pre + i) = Inr (xs ! i)"
  by (simp add: byte_of_def nth_append)

lemma load32_length:
  assumes "n < 2 ^ 32"
  shows "load32 (pre @ bytes_of_length n @ post) (length pre) = Inr n"
proof -
  let ?u = "bytes_of_length n"
  have "byte_of (pre @ ?u @ post) (length pre) = Inr (?u ! 0)" "byte_of (pre @ ?u @ post) (length pre + 1) = Inr (?u ! 1)"
    "byte_of (pre @ ?u @ post) (length pre + 2) = Inr (?u ! 2)" "byte_of (pre @ ?u @ post) (length pre + 3) = Inr (?u ! 3)"
    using byte_of_append [of 0 ?u pre post] byte_of_append [of 1 ?u pre post]
      byte_of_append [of 2 ?u pre post] byte_of_append [of 3 ?u pre post] by (simp_all add: bytes_of_length_eq)
  then have "load32 (pre @ ?u @ post) (length pre) =
      Inr (unat (?u ! 0) + 256 * unat (?u ! 1) + 65536 * unat (?u ! 2) + 16777216 * unat (?u ! 3))"
    by (simp only: load32_def rbind.simps)
  also have "unat (?u ! 0) + 256 * unat (?u ! 1) + 65536 * unat (?u ! 2) + 16777216 * unat (?u ! 3) = n"
  proof -
    have "unat (?u ! 0) = n mod 256" "unat (?u ! 1) = n div 256 mod 256" "unat (?u ! 2) = n div 65536 mod 256"
      "unat (?u ! 3) = n div 16777216 mod 256" by (simp_all add: bytes_of_length_eq unat_of_nat)
    then show ?thesis by (simp only: length_from_bytes [OF assms])
  qed
  finally show ?thesis .
qed

definition lengthed :: "u8 list \<Rightarrow> bool" where
  "lengthed u \<longleftrightarrow> (\<exists>body. u = bytes_of_length (length body) @ body \<and> 2 \<le> length body \<and> length body + 4 < 2 ^ 32)"

text \<open>The header of such a unit.\<close>

definition evc_header :: "u8 \<Rightarrow> u8 list \<Rightarrow> bool" where
  "evc_header tag u \<longleftrightarrow> u ! 4 AND 0xfe = tag \<and> u ! 5 AND 0x3f = 0"

lemma length_bytes_of_length [simp]: "length (bytes_of_length n) = 4"
  by (simp add: bytes_of_length_eq)

lemma lengthedE:
  assumes "lengthed u"
  obtains n where "load32 (pre @ u @ post) (length pre) = Inr n" and "length u = n + 4" and "add32 n 4 = length u" and "2 \<le> n"
    and "evc_header_at tag (pre @ u @ post) (length pre + 4) = Inr (evc_header tag u)" and "length u < 2 ^ 32"
proof -
  obtain body where u: "u = bytes_of_length (length body) @ body" "2 \<le> length body" "length body + 4 < 2 ^ 32"
    using assms by (auto simp: lengthed_def)
  have "load32 (pre @ u @ post) (length pre) = Inr (length body)"
    using load32_length [of "length body" pre "body @ post"] u by simp
  moreover have lu: "6 \<le> length u" using u by simp
  have "byte_of (pre @ u @ post) (length pre + 4) = Inr (u ! 4)" "byte_of (pre @ u @ post) (length pre + 4 + 1) = Inr (u ! 5)"
  proof -
    have "length pre + 4 + 1 = length pre + 5" by simp
    then show "byte_of (pre @ u @ post) (length pre + 4) = Inr (u ! 4)" "byte_of (pre @ u @ post) (length pre + 4 + 1) = Inr (u ! 5)"
      using byte_of_append [of 4 u pre post] byte_of_append [of 5 u pre post] lu by (simp_all only:)
  qed
  then have "evc_header_at tag (pre @ u @ post) (length pre + 4) = Inr (evc_header tag u)"
    by (auto simp only: evc_header_at_def evc_header_def rbind.simps split: if_splits)
  ultimately show ?thesis using u by (intro that [of "length body"]) (simp_all add: add32_def)
qed


section \<open>SEI messages are lost\<close>

lemma scan_sei_evc_skip:
  assumes "\<forall>u \<in> set us. lengthed u \<and> \<not> evc_header 0x38 u" and "d = pre @ concat us" and "length d < 2 ^ 32" and "6 \<le> length d"
  shows "scan_sei_evc_loop sei d (length d) (length pre) pts b calls = Some (Inr (d, length d, calls))"
  using assms(1,2)
proof (induction us arbitrary: pre)
  case Nil
  then have "\<not> length pre < sub64 (length d) 6" using assms(3,4) by simp
  then show ?case by (subst scan_sei_evc_loop.simps) (simp only: if_False)
next
  case (Cons u us)
  let ?rest = "concat us"
  have d: "d = pre @ u @ ?rest" using Cons.prems(2) by simp
  have "lengthed u" "\<not> evc_header 0x38 u" using Cons.prems(1) by simp_all
  obtain n where "load32 (pre @ u @ ?rest) (length pre) = Inr n" "length u = n + 4" "add32 n 4 = length u"
    "evc_header_at 0x38 (pre @ u @ ?rest) (length pre + 4) = Inr (evc_header 0x38 u)"
    using \<open>lengthed u\<close> by (rule lengthedE)
  then have n: "load32 d (length pre) = Inr n" "length u = n + 4" "add32 n 4 = length u"
    "evc_header_at 0x38 d (length pre + 4) = Inr False" using \<open>\<not> evc_header 0x38 u\<close> by (simp_all only: d)
  have "scan_sei_evc_loop sei d (length d) (length (pre @ u)) pts b calls = Some (Inr (d, length d, calls))"
    by (rule Cons.IH) (use Cons.prems in simp_all)
  moreover have "add32 (length pre) (length u) = length (pre @ u)" using assms(3) d by (simp add: add32_def)
  ultimately show ?case
    by (subst scan_sei_evc_loop.simps) (simp add: n Let_def)
qed

lemma lengthed_unit:
  assumes "length v + 6 < 2 ^ 32"
  shows "lengthed (bytes_of_length (length v + 2) @ [a, b] @ v)"
  unfolding lengthed_def using assms by (intro exI [of _ "[a, b] @ v"]) simp

definition evc_bytes :: "u8 \<Rightarrow> u32 \<Rightarrow> u8 list \<Rightarrow> u8 list" where
  "evc_bytes tag t v = bytes_of_length (length v + 2) @ [tag OR ucast (drop_bit 2 t), ucast (push_bit 6 t AND 255)] @ v"

lemma evc_unit_bytes:
  "packet_view p = Inr v \<Longrightarrow> evc_unit tag type t p = Inr \<lparr>nu_type = type, nu_data = evc_bytes tag t v\<rparr>"
  by (simp add: evc_unit_def evc_bytes_def)

lemma evc_bytes_header: "evc_header tag' (evc_bytes tag t v) \<longleftrightarrow>
    (tag OR ucast (drop_bit 2 t)) AND 0xfe = tag' \<and> ucast (push_bit 6 t AND 255) AND (0x3f :: u8) = 0"
  by (simp add: evc_header_def evc_bytes_def bytes_of_length_eq)

lemma evc_sei_tag: "\<not> evc_header 0x38 (evc_bytes 0x3a t v)"
proof
  assume "evc_header 0x38 (evc_bytes 0x3a t v)"
  then have "(0x3a OR ucast (drop_bit 2 t)) AND 0xfe = (0x38 :: u8)" by (simp add: evc_bytes_header)
  then have "bit ((0x3a OR ucast (drop_bit 2 t)) AND 0xfe :: u8) 1 = bit (0x38 :: u8) 1" by simp
  then show False by (simp add: bit_simps)
qed

lemma insert_unit_split:
  obtains a b where "au_nal_units au = a @ b" and "au_nal_units (fst (insert_unit skip u au)) = a @ u # b"
proof -
  let ?a = "takeWhile (\<lambda>v. skip (nu_type v)) (au_nal_units au)"
  have "au_nal_units au = ?a @ drop (length ?a) (au_nal_units au)"
    by (metis append_take_drop_id takeWhile_eq_take)
  then show ?thesis by (rule that) (simp add: insert_unit_def Let_def)
qed


lemma evc_sei_unit:
  assumes "packet_view payload = Inr bs" and "packet_wf payload" and "6 * length bs + 100 < 2 ^ 32"
    and "encapsulation \<in> {Encapsulation_SEI_Registered, Encapsulation_SEI_Unregistered}"
  shows "enhancement_unit_evc encapsulation idr t payload =
    Some (Inr \<lparr>nu_type = 27, nu_data = evc_bytes 0x3a t (message_of encapsulation False bs)\<rparr>)"
proof (cases "encapsulation = Encapsulation_SEI_Registered")
  case True
  obtain p where p: "nal_payload payload = Some (Inr p)" "packet_view p = Inr bs" by (rule nal_payload_bytes [OF assms(1)])
  obtain q where q: "rbsp_encapsulate p = Inr q" "packet_view q = Inr (escape_bytes 0 bs @ [0x80])" by (rule rbsp_encapsulate_bytes [OF p(2)])
  obtain u where u: "packet_of (lcevc_unit False bs) = Inr u" "packet_view u = Inr (lcevc_unit False bs)" "packet_wf u"
    using packet_of_bytes by blast
  obtain s where "registered_sei_payload u = Some (Inr s)" "packet_view s = Inr (sei_message 4 sei_code (lcevc_unit False bs))"
    by (rule registered_payload_bytes [OF u(2,3)]) (use length_escape_le [of 0 bs] assms(3) in \<open>simp_all add: length_lcevc_unit\<close>)
  moreover have "unit_of 29 [0x00, 0x00, 0x01, 0x79, 0xff] q = Inr \<lparr>nu_type = 29, nu_data = lcevc_unit False bs\<rparr>"
    using q(2) by (simp add: unit_of_def lcevc_unit_def)
  ultimately show ?thesis using True p(1) q(1) u(1) by (simp add: enhancement_unit_evc_def message_of_def evc_unit_bytes)
next
  case False
  obtain s where "unregistered_sei_payload payload = Some (Inr s)" "packet_view s = Inr (sei_message 5 sei_uuid bs)"
    by (rule unregistered_payload_bytes [OF assms(1,2)]) (use assms(3) in simp_all)
  then show ?thesis using False assms(4) by (auto simp: enhancement_unit_evc_def message_of_def evc_unit_bytes)
qed

lemma length_message: "length (message_of encapsulation idr bs) \<le> 3 * length bs + 20"
proof -
  have "length (sei_message t code cs) = length code + length cs + 2 + (length code + length cs) div 255" for t code and cs :: "u8 list"
    by (simp add: sei_message_def ff_bytes_def)
  then show ?thesis using length_escape_le [of 0 bs] by (auto simp: message_of_def length_lcevc_unit)
qed

text \<open>
  C35: In an EVC stream no SEI message of the encoder is ever found: the encoder writes the header of NAL unit type
  28, the scan looks for that of type 27, so no packet is handed over.
\<close>

theorem evc_sei_lost:
  assumes "encapsulation \<in> {Encapsulation_SEI_Registered, Encapsulation_SEI_Unregistered}"
    and "packet_view payload = Inr bs" and "packet_wf payload"
    and "\<forall>u \<in> set (au_nal_units au). lengthed (nu_data u) \<and> \<not> evc_header 0x38 (nu_data u)"
    and "length (au_bytes au) + 6 * length bs + 100 < 2 ^ 32"
  shows "\<exists>au' n. add_enhancement BaseCoding_EVC encapsulation is_idr payload au = Some (Inr (au', n)) \<and>
    scan_enhancement (au_bytes au') (length (au_bytes au')) encapsulation BaseCoding_EVC pts is_base_idr =
      Some (Inr (au_bytes au', length (au_bytes au'), []))"
proof -
  define v where "v = message_of encapsulation False bs"
  let ?u = "\<lparr>nu_type = 27, nu_data = evc_bytes 0x3a (au_temporal_id au) v\<rparr>"
  let ?skip = "\<lambda>t. \<not> (t < 24 \<or> 26 < t)"
  define au' where "au' = fst (insert_unit ?skip ?u au)"
  have add: "add_enhancement BaseCoding_EVC encapsulation is_idr payload au = Some (Inr (au', snd (insert_unit ?skip ?u au)))"
    using evc_sei_unit [OF assms(2,3) _ assms(1), of is_idr "au_temporal_id au"] assms(5)
    by (simp add: add_enhancement_def add_enhancement_evc_def au'_def v_def)
  obtain a b where ab: "au_nal_units au = a @ b" "au_nal_units au' = a @ ?u # b"
    unfolding au'_def by (rule insert_unit_split)
  let ?us = "map nu_data (au_nal_units au')"
  have v: "length v \<le> 3 * length bs + 20" by (simp add: v_def length_message)
  have "lengthed (evc_bytes 0x3a (au_temporal_id au) v)"
    unfolding evc_bytes_def using v assms(5) by (intro lengthed_unit) simp
  then have us: "\<forall>u \<in> set ?us. lengthed u \<and> \<not> evc_header 0x38 u" using assms(4) ab evc_sei_tag by auto
  have "length (au_bytes au') = length (au_bytes au) + length v + 6"
    by (simp add: au_bytes_def ab evc_bytes_def)
  then have "length (au_bytes au') < 2 ^ 32" "6 \<le> length (au_bytes au')" using v assms(5) by simp_all
  from scan_sei_evc_skip [OF us _ this, of "[]"] have
    "scan_sei_evc_loop sei (au_bytes au') (length (au_bytes au')) 0 pts is_base_idr [] = Some (Inr (au_bytes au', length (au_bytes au'), []))" for sei
    by (simp add: au_bytes_def)
  then show ?thesis using add assms(1) by (auto simp: scan_enhancement_def scan_enhancement_sei_evc_def)
qed

section \<open>A unit of enhancement\<close>

text \<open>The loop passes over units without the header; at the end of the data it is done.\<close>

lemma scan_nal_evc_stop: "\<not> i < sub64 s 6 \<Longrightarrow> scan_nal_evc_loop d s i pts calls = Some (Inr (d, s, calls))"
  by (subst scan_nal_evc_loop.simps) (simp only: if_False)

lemma scan_nal_evc_skip:
  assumes "\<forall>u \<in> set us. lengthed u \<and> \<not> evc_header 0x3c u" and "d = pre @ concat us @ post"
    and "length (pre @ concat us) \<le> s" "s \<le> length d" "length d < 2 ^ 32" "6 \<le> s"
  shows "scan_nal_evc_loop d s (length pre) pts calls = scan_nal_evc_loop d s (length (pre @ concat us)) pts calls"
  using assms(1-3)
proof (induction us arbitrary: pre)
  case (Cons u us)
  let ?rest = "concat us @ post"
  have d: "d = pre @ u @ ?rest" using Cons.prems(2) by simp
  have "lengthed u" "\<not> evc_header 0x3c u" using Cons.prems(1) by simp_all
  obtain n where "load32 (pre @ u @ ?rest) (length pre) = Inr n" and len: "length u = n + 4" "add32 n 4 = length u" "2 \<le> n"
    and "evc_header_at 0x3c (pre @ u @ ?rest) (length pre + 4) = Inr (evc_header 0x3c u)"
    using \<open>lengthed u\<close> by (rule lengthedE)
  then have n: "load32 d (length pre) = Inr n" "evc_header_at 0x3c d (length pre + 4) = Inr False"
    using \<open>\<not> evc_header 0x3c u\<close> by (simp_all only: d)
  have ih: "scan_nal_evc_loop d s (length (pre @ u)) pts calls = scan_nal_evc_loop d s (length ((pre @ u) @ concat us)) pts calls"
    by (rule Cons.IH) (use Cons.prems in simp_all)
  show ?case
  proof (cases "length pre < sub64 s 6")
    case True
    have "add32 (length pre) (length u) = length (pre @ u)" using assms(5) d by (simp add: add32_def)
    with True have "scan_nal_evc_loop d s (length pre) pts calls = scan_nal_evc_loop d s (length (pre @ u)) pts calls"
      by (subst scan_nal_evc_loop.simps) (simp add: n len Let_def)
    then show ?thesis using ih by simp
  next
    case False
    moreover from this have "\<not> length (pre @ concat (u # us)) < sub64 s 6"
      using Cons.prems(3) len assms(4-6) by simp
    ultimately show ?thesis by (simp only: scan_nal_evc_stop simp_thms)
  qed
qed simp


lemma evc_nal_tag:
  assumes "t < (8 :: u32)"
  shows "evc_header 0x3c (evc_bytes 0x3c t v)"
    and "drop_bit 3 (evc_bytes 0x3c t v ! 4 AND 0xf8) = (7 :: u8)"
proof -
  define n where "n = unat t"
  have "t = word_of_nat n" "n < 8" using assms by (simp_all add: n_def word_less_nat_alt)
  moreover from this(2) have "n = 0 \<or> n = 1 \<or> n = 2 \<or> n = 3 \<or> n = 4 \<or> n = 5 \<or> n = 6 \<or> n = 7" by auto
  ultimately show "evc_header 0x3c (evc_bytes 0x3c t v)" "drop_bit 3 (evc_bytes 0x3c t v ! 4 AND 0xf8) = (7 :: u8)"
    by (elim disjE; simp add: evc_header_def evc_bytes_def bytes_of_length_eq drop_bit_eq_div)+
qed

lemma scan_nal_evc_unit:
  assumes a: "\<forall>u \<in> set a. lengthed u \<and> \<not> evc_header 0x3c u" and b: "\<forall>u \<in> set b. lengthed u \<and> \<not> evc_header 0x3c u"
    and t: "t < 8" and size: "length (concat a @ evc_bytes 0x3c t bs @ concat b) < 2 ^ 32" and rest: "6 \<le> length (concat a @ concat b)"
    and new: "bs \<noteq> []"
  shows "\<exists>stale pkt. scan_enhancement_nal_evc (concat a @ evc_bytes 0x3c t bs @ concat b) (length (concat a @ evc_bytes 0x3c t bs @ concat b)) pts =
    Some (Inr (concat a @ concat b @ stale, length (concat a @ concat b), [(pkt, False)])) \<and> holds pkt bs pts"
proof -
  let ?u = "evc_bytes 0x3c t bs" and ?pre = "concat a" and ?post = "concat b"
  define d where "d = ?pre @ ?u @ ?post"
  have lu: "length ?u = length bs + 6" by (simp add: evc_bytes_def)
  have small: "length d < 2 ^ 32" using size by (simp add: d_def)
  have "lengthed ?u" unfolding evc_bytes_def using size lu by (intro lengthed_unit) simp
  then obtain n where "load32 (?pre @ ?u @ ?post) (length ?pre) = Inr n" and n: "length ?u = n + 4" "add32 n 4 = length ?u"
    and "evc_header_at 0x3c (?pre @ ?u @ ?post) (length ?pre + 4) = Inr (evc_header 0x3c ?u)" by (rule lengthedE)
  then have at: "load32 d (length ?pre) = Inr n" "evc_header_at 0x3c d (length ?pre + 4) = Inr True"
    using evc_nal_tag(1) [OF t] by (simp_all add: d_def)
  have "scan_nal_evc_loop d (length d) (length ([] :: u8 list)) pts [] = scan_nal_evc_loop d (length d) (length ([] @ ?pre)) pts []"
    using scan_nal_evc_skip [OF a, of d "[]" "?u @ ?post" "length d" pts "[]"] small by (simp add: d_def lu)
  then have skip: "scan_nal_evc_loop d (length d) 0 pts [] = scan_nal_evc_loop d (length d) (length ?pre) pts []" by simp
  obtain pb where pb: "contents_bytes (set_timestamp packet_build pts) (bs @ ?post) (length bs) = Inr pb"
    "holds (packet_finish pb) bs pts"
    by (simp add: contents_bytes_def buffer_from_def set_timestamp_def packet_build_def packet_finish_def holds_def
        packet_view_def buffer_map_def)
  have n_eq: "n = length bs + 2" using n(1) lu by simp
  have "0 < length bs" using new by simp
  then have lt: "length ?pre < sub64 (length d) 6" using small by (simp add: d_def lu)
  have "drop (length ?pre + 6) d = bs @ ?post" "sub32 n 2 = length bs" "length bs mod 2 ^ 32 = length bs"
    using small by (simp_all add: d_def lu n_eq) (simp_all add: evc_bytes_def)
  moreover have "d ! (length ?pre + 4) = ?u ! 4" by (simp add: d_def nth_append lu)
  ultimately have ext: "extract_enhancement_nal (drop (length ?pre + 6) d) (sub32 n 2) False pts
      (drop_bit 3 (d ! (length ?pre + 4) AND 0xf8) = LCEVC_IDR) = Inr (packet_finish pb, False)"
    using pb(1) evc_nal_tag(2) [OF t, of bs] by (simp add: extract_enhancement_nal_def LCEVC_IDR_def)
  have sums: "add32 (length ?pre) (length ?u) = length ?pre + length ?u" "sub64 (length d) (length ?pre + length ?u) = length ?post"
    "sub64 (length d) (length ?u) = length (?pre @ ?post)"
    using small by (simp_all add: add32_def d_def)
  let ?stale = "drop (length ?pre + length ?post) d"
  have mv: "move_bytes d (length ?pre) (length ?pre + length ?u) (length ?post) = Inr (?pre @ ?post @ ?stale)"
    by (simp add: move_bytes_def d_def)
  have "scan_nal_evc_loop d (length d) (length ?pre) pts [] =
      scan_nal_evc_loop (?pre @ ?post @ ?stale) (length (?pre @ ?post)) (length ?pre) pts [(packet_finish pb, False)]"
    by (subst scan_nal_evc_loop.simps)
      (simp only: lt if_True at n(2) Let_def ext sums mv rbind.simps sum.case fst_conv snd_conv append_Nil)
  also have "\<dots> = scan_nal_evc_loop (?pre @ ?post @ ?stale) (length (?pre @ ?post)) (length (?pre @ ?post)) pts [(packet_finish pb, False)]"
    by (rule scan_nal_evc_skip [OF b]) (use rest small in \<open>simp_all add: d_def\<close>)
  also have "\<dots> = Some (Inr (?pre @ ?post @ ?stale, length (?pre @ ?post), [(packet_finish pb, False)]))"
    by (rule scan_nal_evc_stop) (use rest small in \<open>simp add: d_def\<close>)
  finally show ?thesis using skip pb(2) by (simp add: scan_enhancement_nal_evc_def flip: d_def)
qed

text \<open>
  C36: In an EVC stream a packet that the encoder puts into an access unit as a NAL unit comes out of
  the scan and the bytes of the base stream are left; but the flag that it belongs to an IDR picture is always
  cleared, since the scan compares the type of an EVC unit with that of an LCEVC unit.
\<close>

theorem evc_nal_never_idr:
  assumes "packet_view payload = Inr bs" and "bs \<noteq> []"
    and "au_nal_units au \<noteq> []"
    and "\<forall>u \<in> set (au_nal_units au). lengthed (nu_data u) \<and> \<not> evc_header 0x3c (nu_data u)"
    and "au_temporal_id au < 8"
    and "length (au_bytes au) + length bs + 6 < 2 ^ 32"
  shows "\<exists>au' n data pkt. add_enhancement BaseCoding_EVC Encapsulation_NAL is_idr payload au = Some (Inr (au', n)) \<and>
    scan_enhancement (au_bytes au') (length (au_bytes au')) Encapsulation_NAL BaseCoding_EVC pts is_base_idr =
      Some (Inr (data, length (au_bytes au), [(pkt, False)])) \<and>
    take (length (au_bytes au)) data = au_bytes au \<and> packet_view pkt = Inr bs \<and> pkt_timestamp pkt = pts"
proof -
  let ?u = "\<lparr>nu_type = 28, nu_data = evc_bytes 0x3c (au_temporal_id au) bs\<rparr>"
  let ?skip = "\<lambda>t. \<not> (t < 24 \<or> 26 < t)"
  define au' where "au' = fst (insert_unit ?skip ?u au)"
  obtain p where "nal_payload payload = Some (Inr p)" "packet_view p = Inr bs" by (rule nal_payload_bytes [OF assms(1)])
  then have add: "add_enhancement BaseCoding_EVC Encapsulation_NAL is_idr payload au = Some (Inr (au', snd (insert_unit ?skip ?u au)))"
    by (simp add: add_enhancement_def add_enhancement_evc_def enhancement_unit_evc_def evc_unit_bytes au'_def)
  obtain a b where ab: "au_nal_units au = a @ b" "au_nal_units au' = a @ ?u # b"
    unfolding au'_def by (rule insert_unit_split)
  let ?a = "map nu_data a" and ?b = "map nu_data b"
  have bytes: "au_bytes au = concat ?a @ concat ?b" "au_bytes au' = concat ?a @ evc_bytes 0x3c (au_temporal_id au) bs @ concat ?b"
    by (simp_all add: au_bytes_def ab)
  obtain v vs where "au_nal_units au = v # vs" "lengthed (nu_data v)" using assms(3,4) by (cases "au_nal_units au") auto
  then have "6 \<le> length (au_bytes au)" by (auto simp: au_bytes_def lengthed_def)
  then have "\<exists>stale pkt. scan_enhancement_nal_evc (au_bytes au') (length (au_bytes au')) pts =
      Some (Inr (concat ?a @ concat ?b @ stale, length (concat ?a @ concat ?b), [(pkt, False)])) \<and> holds pkt bs pts"
    unfolding bytes using assms ab by (intro scan_nal_evc_unit) (auto simp: bytes evc_bytes_def)
  then show ?thesis using add by (auto simp: scan_enhancement_def holds_def bytes)
qed


section \<open>A concrete access unit\<close>

definition demo_evc :: access_unit where
  "demo_evc = demo_unit [\<lparr>nu_type = 24, nu_data = bytes_of_length 3 @ [0x40, 0, 5]\<rparr>]"

lemma demo_evc:
  "\<forall>u \<in> set (au_nal_units demo_evc). lengthed (nu_data u) \<and> \<not> evc_header 0x3c (nu_data u)"
  "\<forall>u \<in> set (au_nal_units demo_evc). lengthed (nu_data u) \<and> \<not> evc_header 0x38 (nu_data u)"
  "au_nal_units demo_evc \<noteq> []" "au_temporal_id demo_evc = 0" "length (au_bytes demo_evc) = 7"
proof -
  have "lengthed (bytes_of_length 3 @ [0x40, 0, 5])"
    unfolding lengthed_def by (intro exI [of _ "[0x40, 0, 5]"]) (simp add: numeral_3_eq_3)
  then show "\<forall>u \<in> set (au_nal_units demo_evc). lengthed (nu_data u) \<and> \<not> evc_header 0x3c (nu_data u)"
    "\<forall>u \<in> set (au_nal_units demo_evc). lengthed (nu_data u) \<and> \<not> evc_header 0x38 (nu_data u)"
    by (simp_all add: demo_evc_def demo_unit_def evc_header_def bytes_of_length_eq)
qed (simp_all add: demo_evc_def demo_unit_def au_bytes_def)

theorem evc_sei_lost_witness:
  "\<exists>au' n. add_enhancement BaseCoding_EVC Encapsulation_SEI_Registered True demo_payload demo_evc = Some (Inr (au', n)) \<and>
    scan_enhancement (au_bytes au') (length (au_bytes au')) Encapsulation_SEI_Registered BaseCoding_EVC 7 True =
      Some (Inr (au_bytes au', length (au_bytes au'), []))"
  by (rule evc_sei_lost [OF _ demo_payload demo_evc(2)]) (simp_all add: demo_evc)

theorem evc_nal_never_idr_witness:
  "\<exists>au' n data pkt. add_enhancement BaseCoding_EVC Encapsulation_NAL True demo_payload demo_evc = Some (Inr (au', n)) \<and>
    scan_enhancement (au_bytes au') (length (au_bytes au')) Encapsulation_NAL BaseCoding_EVC 7 True =
      Some (Inr (data, length (au_bytes demo_evc), [(pkt, False)])) \<and>
    take (length (au_bytes demo_evc)) data = au_bytes demo_evc \<and> packet_view pkt = Inr [0, 0, 1, 2] \<and> pkt_timestamp pkt = 7"
  by (rule evc_nal_never_idr [OF demo_payload(1) _ demo_evc(3,1)]) (simp_all add: demo_evc)

end
