(* ===== verification/Spec2Isabelle.thy ===== *)
theory Spec2Isabelle
  imports HuffmanRoundtrip BlockRoundtrip EntropyTermination TransformPairs ClosedSession
    RingBuffer UpsamplingReference DecodedPixels UtilitiesReference DigestReference SetupProperties ScanLengths
begin

text \<open>
  A development about the LCEVC Test Model: the C++ encoder (encoder/), decoder (decoder/) and the
  utilities they share (util/). The base codecs and libraries under deps/ are not part of it.

  The program. An encoder downsamples a picture, codes the small picture with a base codec, and
  turns what is lost into two planes of residuals that are transformed, quantized and entropy
  coded, in chunks that a serializer collects into an enhancement packet. The decoder takes the
  packet apart and does the inverse of each step.

  Theories, from the bottom up.

  Prelude: results (an error or a value), runs (a result, or no return), loops over lists, signed
  integers at their width, lists of bits.
  Packet: util/src/Packet.cpp, util/src/Buffer.cpp.
  BitstreamPacker, BitstreamUnpacker, Bitstream: the two classes of util/src and the contract
  between them (locales \<open>bit_sink\<close>, \<open>bit_source\<close>, \<open>bit_channel\<close>).
  HuffmanCode, HuffmanEncoder, HuffmanDepth, HuffmanDecoder, HuffmanRoundtrip:
  encoder/src/HuffmanEncoder.cpp and decoder/src/HuffmanDecoder.cpp.
  Surface: util/include/SurfaceImpl.hpp, and the orders in which loops visit a plane.
  EntropyEncoder, EntropyDecoder: encoder/src/EntropyEncoder.cpp, decoder/src/EntropyDecoder.cpp.
  EntropyCoding, EntropyRoundtrip: every encoder against its decoder, over an abstract source of
  symbols (locale \<open>symbol_stream\<close>) with two providers, raw bytes and prefix codes.
  EntropyTermination: when the loops of the decoder end (locales \<open>ending_source\<close>, \<open>flag_source\<close>).
  LayerEncodeFlags, Transforms, TransformInverse, TransformPairs: which layers an encoding mode
  keeps, the four forward transforms of encoder/src/Transform*.cpp, the four inverse ones of
  decoder/src/InverseTransform*.cpp, and what a residual or a coefficient becomes on the way
  through a pair.
  Configuration, Serializer, Deserializer, ConfigRoundtrip: the configuration records of
  decoder/include/SignaledConfiguration.hpp and how encoder/src/Serializer.cpp and
  decoder/src/Deserializer.cpp write and read the sequence, global and picture blocks, additional
  information and fillers. Codec holds the calculus of codecs they share (locale \<open>codec\<close>), RunCodec
  its form for functions that could fail to return, Multibyte the numbers of variable length.
  Dimensions: decoder/src/Dimensions.cpp, the sizes of planes, layers and tiles.
  EncodedData, EncodedDataTiled, DecodedData, DecodedDataTiled: the blocks of encoded data, with
  and without tiles, on both sides, and encoder/src/Crop.cpp. EncodedRoundtrip: the block without
  tiles comes back.
  SerializerBlocks, DeserializerBlocks: the frame of a block, the sequence of blocks in a packet,
  the dispatch on the block type, and the loop of \<open>initialize_decode\<close> in decoder/src/Decoder.cpp
  with the surfaces it resizes. BlockRoundtrip: from the encoder's configuration and surfaces
  through a packet to the decoder's.

  PlaneLoops, PlaneOps: the loops that visit a plane pixel by pixel, and the functions of decoder/
  and encoder/ that are one such loop: Add.cpp, Subtract.cpp, Conform.cpp, Expand.cpp, Deblocking.cpp,
  Compare.cpp, ResidualMap.cpp.
  TemporalDecode, TemporalEncode: the temporal buffer and its masks on both sides, with user data.
  Floats, Quantization: floating point as rationals with the C library's log a parameter; step
  widths, dead zones, quantisers and inverse quantisers of encoder/src/Quantize.cpp and
  decoder/src/InverseQuantize.cpp.
  Dithering, Images, Convert, Resampling: decoder/src/Dithering.cpp, util/src/Image.cpp,
  decoder/src/Convert.cpp, and Upsampling.cpp, Downsampling.cpp, PredictedResidual.cpp.
  ResidualDecoding, PictureDecoding: decoder/src/Decoder.cpp, the planes of residuals of a layer
  and the loop over the planes of a picture. PriorityMap, ResidualEncoding, PictureEncoding:
  encoder/src/PriorityMap.cpp and the encoding of a picture with its reconstruction in
  encoder/src/Encoder.cpp.
  ResidualAgreement, ClosedLoop, ClosedPicture, DecoderView, ClosedSession: the decoder follows the encoder.
  ResidualAgreement compares the two computations of a plane of residuals, ClosedLoop adds the
  temporal buffer and its refresh, ClosedPicture the base picture, upsampling and prediction,
  DecoderView shows that only what a packet brings of the picture configuration matters to the planes, and
  ClosedSession carries the state of both over a stream of pictures (relation \<open>stream\<close>).
  UpsamplingReference: the filters with their special cases at the borders are a convolution with
  clamped reads. DecodedPixels: each pixel of a decoded plane as a sum over the symbols of its block.
  Parameters, ParameterDefaults, EncoderSetup, SetupProperties: util/include/Parameters.hpp and
  src/Types.cpp, encoder/src/ParameterDefaults.cpp, and the functions of encoder/src/Encoder.cpp
  that turn parameters into a configuration; what that configuration guarantees, and the
  conformance window that the encoder sets against the one that the decoder applies.
  Encapsulation, StreamScan: the part of encoder/src/FileEncoder.cpp that puts a packet into an access
  unit of the base stream, and decoder/src/ScanEnhancement.cpp that finds it there. ScanRoundtrip:
  emulation prevention is undone. ScanUnits: a NAL unit is found and cut out. ScanMessages: an SEI
  message is found (locale \<open>sei_header\<close>, for the headers of AVC, HEVC and VVC). ScanProperties: both
  for a packet and an access unit; a unit on its own. ScanLengths: EVC, whose units have lengths.
  RingBuffer: util/include/RingBuffer.hpp as a step relation of pushers and poppers under a lock,
  and its refinement of a bounded queue.
  Utilities, UtilitiesReference, DigestConstants, DigestReference: util/src/Misc.cpp and
  util/src/LcevcMd5.cpp, with CRC-64 and MD5 against plain references. CRC-64 returns for fewer than
  2 ^ 32 bytes and never ends for more; the constants of MD5 are computed from the sine
  (DigestConstants), and the ones of the code are shown to be those.

  Conventions. The model is of a build with assertions: \<open>assert\<close> is the error AssertFailed,
  \<open>CHECK\<close> is CheckFailed, \<open>FATAL\<close> is FatalRaised; an access outside a vector is OutOfRange, what
  C++ leaves undefined is UndefinedBehaviour, an exception of the standard library is Thrown. Unsigned integers that the code shifts or masks are
  words of their width; counters and indices that stay far below 2 ^ 32 are natural numbers;
  signed integers are \<open>int\<close>, with the conversion to their width written where the code converts.
  A loop that need not end is a partial function: None is a call that does not return.

  Bounds. Round trips are for surfaces of fewer than 3,524,578 pixels: a Huffman code of 31 bits
  needs that many symbols (HuffmanDepth), and the packer cannot write 31 bits.

  The closed loop is stated for pictures whose coefficients and residuals stay in the range that a
  packet carries (\<open>decodable\<close>); outside of it encoder and decoder differ (PROJECT.json, findings).

  Not modelled: reading and writing of files, command lines, the JSON library; the base codecs under deps/ and what adapts them; dumps, reports,
  traces and statistics, and the checksums of packets and surfaces that only reports print.
\<close>

end
